(* ===== verification/Vsi_Prelude.thy ===== *)
theory Vsi_Prelude
  imports Main "HOL-Library.Word" "HOL-Library.Monad_Syntax"
begin

text \<open>
  Shared vocabulary of the development: the machine integer types of
  \<^verbatim>\<open>src/tim/vx/internal/include/vsi_nn_types.h\<close> in the default 32-bit
  build, checked access to C arrays, status values, and the generic facts on
  lists, options and words that the component theories use.

  A C array is a list. Reading or writing outside of it is undefined behaviour,
  which the model shows as \<open>None\<close>: \<open>rd\<close> and \<open>wr\<close> are the only accesses whose
  index is not bounded by construction.
\<close>

unbundle bit_operations_syntax

type_synonym vsi_size_t = "32 word"
type_synonym uint32 = "32 word"
type_synonym uint8 = "8 word"
type_synonym vsi_status = int

text \<open>The status values of \<^verbatim>\<open>include/vsi_nn_types.h\<close>.\<close>

definition VSI_SUCCESS :: vsi_status where "VSI_SUCCESS = 0"
definition VSI_FAILURE :: vsi_status where "VSI_FAILURE = - 1"

text \<open>\<open>vsi_nn_opt_direction_e\<close>: the direction of an optimization pass.\<close>

datatype opt_direction = Backward | Forward

named_theorems vsi_simps \<open>unfolding rules for the small helper operations\<close>

subsection \<open>Checked array access\<close>

definition rd :: "'a list \<Rightarrow> nat \<Rightarrow> 'a option" where
  "rd xs i = (if i < length xs then Some (xs ! i) else None)"

definition wr :: "'a list \<Rightarrow> nat \<Rightarrow> 'a \<Rightarrow> 'a list option" where
  "wr xs i v = (if i < length xs then Some (xs[i := v]) else None)"

lemma rd_Some [simp]: "i < length xs \<Longrightarrow> rd xs i = Some (xs ! i)"
  by (simp add: rd_def)

lemma rd_None [simp]: "\<not> i < length xs \<Longrightarrow> rd xs i = None"
  by (simp add: rd_def)

lemma wr_Some [simp]: "i < length xs \<Longrightarrow> wr xs i v = Some (xs[i := v])"
  by (simp add: wr_def)

lemma wr_None [simp]: "\<not> i < length xs \<Longrightarrow> wr xs i v = None"
  by (simp add: wr_def)

lemma rd_eq_Some_iff: "rd xs i = Some v \<longleftrightarrow> i < length xs \<and> xs ! i = v"
  by (auto simp: rd_def)

lemma wr_eq_Some_iff: "wr xs i v = Some ys \<longleftrightarrow> i < length xs \<and> ys = xs[i := v]"
  by (auto simp: wr_def)

subsection \<open>Options\<close>

lemma bind_eq_Some_iff [simp]:
  "Option.bind m f = Some y \<longleftrightarrow> (\<exists>x. m = Some x \<and> f x = Some y)"
  by (cases m) auto

subsection \<open>Words\<close>

lemma unat_mult_no_overflow:
  "unat (a :: 'a::len word) * unat b < 2 ^ LENGTH('a) \<Longrightarrow> unat (a * b) = unat a * unat b"
  by (simp add: unat_word_ariths)

lemma unat_add_no_overflow:
  "unat (a :: 'a::len word) + unat b < 2 ^ LENGTH('a) \<Longrightarrow> unat (a + b) = unat a + unat b"
  by (simp add: unat_word_ariths)

lemma unat_sub_le:
  "b \<le> (a :: 'a::len word) \<Longrightarrow> unat (a - b) = unat a - unat b"
  by (simp add: unat_sub)

lemma unat_Suc_word: "a \<noteq> - 1 \<Longrightarrow> unat (a + 1) = Suc (unat (a :: 'a::len word))"
  using unatSuc[of a] by (simp add: add.commute eq_neg_iff_add_eq_0)

lemma uint_Suc_word: "a \<noteq> - 1 \<Longrightarrow> uint (a + 1) = uint (a :: 'a::len word) + 1"
  using unat_Suc_word[of a] by (simp only: uint_nat) simp

lemma not_max_word: "unat (a :: 'a::len word) + 1 < 2 ^ LENGTH('a) \<Longrightarrow> a \<noteq> - 1"
  by (auto simp: unsigned_minus_1_eq_mask mask_eq_exp_minus_1)

lemma uint_eq_iff: "uint a = uint b \<longleftrightarrow> a = (b :: 'a::len word)"
  by (simp flip: word_uint_eq_iff)

lemma raise_bound:
  "(x :: 'a::linorder) \<le> (if y > x then y else x)" "y \<le> (if y > x then y else x)"
  by (auto simp: not_less less_imp_le)

lemma unat_eq_iff: "unat a = unat b \<longleftrightarrow> a = (b :: 'a::len word)"
  by (rule word_unat_eq_iff [symmetric])

end
