(* ===== verification/Link_List.thy ===== *)
theory Link_List
  imports Vsi_Prelude
begin

text \<open>
  The intrusive doubly linked list of
  \<^verbatim>\<open>src/tim/vx/internal/src/utils/vsi_nn_link_list.c\<close>, modelled at the level of
  its pointers. The heap maps the address of every live node to its two link
  fields; a freed node is not in the heap, and reading or writing a link of an
  address outside of the heap is undefined behaviour, shown as \<open>None\<close>. A pointer
  is an \<open>addr option\<close> with \<open>None\<close> for \<open>NULL\<close>. An operation that takes
  \<open>vsi_nn_link_list_t ** root\<close> takes the value of \<open>*root\<close> and returns its new
  value (the caller's variable always exists here, so the guard on a null
  \<open>root\<close> itself has no counterpart). The loops that follow links are
  \<open>partial_function\<close>s: on a cyclic heap they do not return, which is also \<open>None\<close>.
\<close>

type_synonym addr = nat

record link =
  ll_prev :: "addr option"
  ll_next :: "addr option"

type_synonym heap = "addr \<rightharpoonup> link"

definition set_prev :: "heap \<Rightarrow> addr \<Rightarrow> addr option \<Rightarrow> heap option" where
  "set_prev h a p = (case h a of None \<Rightarrow> None | Some n \<Rightarrow> Some (h(a \<mapsto> n\<lparr>ll_prev := p\<rparr>)))"

definition set_next :: "heap \<Rightarrow> addr \<Rightarrow> addr option \<Rightarrow> heap option" where
  "set_next h a p = (case h a of None \<Rightarrow> None | Some n \<Rightarrow> Some (h(a \<mapsto> n\<lparr>ll_next := p\<rparr>)))"

subsection \<open>Cursors\<close>

partial_function (option) walk_to_start :: "heap \<Rightarrow> addr option \<Rightarrow> addr option option" where
  "walk_to_start h root =
     (case root of None \<Rightarrow> Some None
      | Some a \<Rightarrow>
         (case h a of None \<Rightarrow> None
          | Some n \<Rightarrow> (case ll_prev n of None \<Rightarrow> Some (Some a)
                       | Some p \<Rightarrow> walk_to_start h (Some p))))"

partial_function (option) walk_to_end :: "heap \<Rightarrow> addr option \<Rightarrow> addr option option" where
  "walk_to_end h root =
     (case root of None \<Rightarrow> Some None
      | Some a \<Rightarrow>
         (case h a of None \<Rightarrow> None
          | Some n \<Rightarrow> (case ll_next n of None \<Rightarrow> Some (Some a)
                       | Some p \<Rightarrow> walk_to_end h (Some p))))"

definition move_next :: "heap \<Rightarrow> addr option \<Rightarrow> addr option option" where
  "move_next h root =
     (case root of None \<Rightarrow> Some None | Some a \<Rightarrow> map_option ll_next (h a))"

definition move_prev :: "heap \<Rightarrow> addr option \<Rightarrow> addr option option" where
  "move_prev h root =
     (case root of None \<Rightarrow> Some None | Some a \<Rightarrow> map_option ll_prev (h a))"

definition LinkListNext :: "heap \<Rightarrow> addr option \<Rightarrow> addr option option" where
  "LinkListNext h iter = move_next h iter"

subsection \<open>Operations\<close>

definition LinkListPopStart ::
  "heap \<Rightarrow> addr option \<Rightarrow> (heap \<times> addr option \<times> addr option) option" where
  "LinkListPopStart h root =
     (if root = None then Some (h, root, None)
      else do {
        node \<leftarrow> walk_to_start h root;
        self \<leftarrow> move_next h node;
        h1 \<leftarrow> (case self of None \<Rightarrow> Some h | Some s \<Rightarrow> set_prev h s None);
        h2 \<leftarrow> (case node of None \<Rightarrow> Some h1 | Some n \<Rightarrow> set_next h1 n None);
        Some (h2, self, node)
      })"

definition LinkListPopEnd ::
  "heap \<Rightarrow> addr option \<Rightarrow> (heap \<times> addr option \<times> addr option) option" where
  "LinkListPopEnd h root =
     (if root = None then Some (h, root, None)
      else do {
        node \<leftarrow> walk_to_end h root;
        self \<leftarrow> move_prev h node;
        h1 \<leftarrow> (case self of None \<Rightarrow> Some h | Some s \<Rightarrow> set_next h s None);
        h2 \<leftarrow> (case node of None \<Rightarrow> Some h1 | Some n \<Rightarrow> set_prev h1 n None);
        Some (h2, self, node)
      })"

definition LinkListPushStart ::
  "heap \<Rightarrow> addr option \<Rightarrow> addr option \<Rightarrow> (heap \<times> addr option) option" where
  "LinkListPushStart h root nodes =
     (if nodes = None then Some (h, root)
      else if root = None then Some (h, nodes)
      else do {
        self \<leftarrow> walk_to_start h root;
        nodes' \<leftarrow> walk_to_end h nodes;
        n \<leftarrow> nodes';
        s \<leftarrow> self;
        h1 \<leftarrow> set_next h n (Some s);
        h2 \<leftarrow> set_prev h1 s (Some n);
        root' \<leftarrow> walk_to_start h2 (Some s);
        Some (h2, root')
      })"

definition LinkListPushEnd ::
  "heap \<Rightarrow> addr option \<Rightarrow> addr option \<Rightarrow> (heap \<times> addr option) option" where
  "LinkListPushEnd h root nodes =
     (if nodes = None then Some (h, root)
      else if root = None then Some (h, nodes)
      else do {
        self \<leftarrow> walk_to_end h root;
        nodes' \<leftarrow> walk_to_start h nodes;
        n \<leftarrow> nodes';
        s \<leftarrow> self;
        h1 \<leftarrow> set_prev h n (Some s);
        h2 \<leftarrow> set_next h1 s (Some n);
        root' \<leftarrow> walk_to_start h2 (Some s);
        Some (h2, root')
      })"

text \<open>
  \<open>malloc\<close> is the address it returns (\<open>None\<close> when it fails); the node is zeroed,
  and \<open>init\<close> is the caller's callback on the new node.
\<close>

definition LinkListNewNode ::
  "heap \<Rightarrow> addr option \<Rightarrow> (heap \<Rightarrow> addr \<Rightarrow> heap) option \<Rightarrow> heap \<times> addr option" where
  "LinkListNewNode h malloc init =
     (case malloc of
        None \<Rightarrow> (h, None)
      | Some a \<Rightarrow>
          (let h1 = h(a \<mapsto> \<lparr>ll_prev = None, ll_next = None\<rparr>)
           in (case init of None \<Rightarrow> h1 | Some f \<Rightarrow> f h1 a, Some a)))"

partial_function (option) find_node ::
  "heap \<Rightarrow> addr option \<Rightarrow> addr \<Rightarrow> addr option option" where
  "find_node h iter node =
     (case iter of None \<Rightarrow> Some None
      | Some a \<Rightarrow>
         if a = node then Some (Some a)
         else (case h a of None \<Rightarrow> None | Some n \<Rightarrow> find_node h (ll_next n) node))"

definition LinkListRemoveNode ::
  "heap \<Rightarrow> addr option \<Rightarrow> addr \<Rightarrow> (heap \<times> addr option) option" where
  "LinkListRemoveNode h root node = do {
     start \<leftarrow> walk_to_start h root;
     found \<leftarrow> find_node h start node;
     (case found of
        None \<Rightarrow> Some (h, root)
      | Some i \<Rightarrow> do {
          n \<leftarrow> h i;
          let root' = (if Some i = root
                       then (if ll_prev n \<noteq> None then ll_prev n
                             else if ll_next n \<noteq> None then ll_next n else None)
                       else root);
          h1 \<leftarrow> (case ll_prev n of None \<Rightarrow> Some h | Some p \<Rightarrow> set_next h p (ll_next n));
          h2 \<leftarrow> (case ll_next n of None \<Rightarrow> Some h1 | Some q \<Rightarrow> set_prev h1 q (ll_prev n));
          Some (h2, root')
        })
   }"

text \<open>
  \<open>LinkListDeinit\<close> returns the final heap and the nodes handed to the \<open>deinit\<close>
  callback, in the order of the calls.
\<close>

partial_function (option) LinkListDeinit ::
  "heap \<Rightarrow> addr option \<Rightarrow> (heap \<times> addr list) option" where
  "LinkListDeinit h root =
     (if root = None then Some (h, [])
      else Option.bind (LinkListPopStart h root) (\<lambda>(h1, root1, tmp).
        (case tmp of
           None \<Rightarrow> LinkListDeinit h1 root1
         | Some a \<Rightarrow> Option.bind (LinkListDeinit (h1(a := None)) root1)
                       (\<lambda>(h2, as). Some (h2, a # as)))))"

partial_function (option) get_index_loop ::
  "heap \<Rightarrow> addr option \<Rightarrow> uint32 \<Rightarrow> uint32 \<Rightarrow> addr option option" where
  "get_index_loop h iter n index =
     (case iter of None \<Rightarrow> Some None
      | Some a \<Rightarrow>
         if n = index then Some (Some a)
         else (case h a of None \<Rightarrow> None
               | Some l \<Rightarrow> get_index_loop h (ll_next l) (n + 1) index))"

definition LinkListGetIndexNode ::
  "heap \<Rightarrow> addr option \<Rightarrow> uint32 \<Rightarrow> addr option option" where
  "LinkListGetIndexNode h root index =
     (if root = None then Some None
      else do { iter \<leftarrow> walk_to_start h root; get_index_loop h iter 0 index })"

definition LinkListDelIndexNode ::
  "heap \<Rightarrow> addr option \<Rightarrow> uint32 \<Rightarrow> (heap \<times> addr option) option" where
  "LinkListDelIndexNode h root index =
     (if root = None then Some (h, root)
      else do {
        start \<leftarrow> walk_to_start h root;
        found \<leftarrow> get_index_loop h start 0 index;
        (case found of
           None \<Rightarrow> Some (h, root)
         | Some del \<Rightarrow> do {
             n \<leftarrow> h del;
             (h1, root') \<leftarrow>
               (case (ll_prev n, ll_next n) of
                  (None, None) \<Rightarrow> Some (h, None)
                | (None, Some q) \<Rightarrow> do { h1 \<leftarrow> set_prev h q None; Some (h1, Some q) }
                | (Some p, None) \<Rightarrow> do { h1 \<leftarrow> set_next h p None; Some (h1, root) }
                | (Some p, Some q) \<Rightarrow> do {
                    h1 \<leftarrow> set_next h p (Some q);
                    h2 \<leftarrow> set_prev h1 q (Some p);
                    Some (h2, root) });
             Some (h1(del := None), root')
           })
      })"

partial_function (option) node_number_loop ::
  "heap \<Rightarrow> addr option \<Rightarrow> uint32 \<Rightarrow> uint32 option" where
  "node_number_loop h iter n =
     (case iter of None \<Rightarrow> Some n
      | Some a \<Rightarrow> (case h a of None \<Rightarrow> None
                   | Some l \<Rightarrow> node_number_loop h (ll_next l) (n + 1)))"

definition LinkListGetNodeNumber :: "heap \<Rightarrow> addr option \<Rightarrow> uint32 option" where
  "LinkListGetNodeNumber h root =
     (if root = None then Some 0
      else do { iter \<leftarrow> walk_to_start h root; node_number_loop h iter 0 })"

subsection \<open>Representation of a list by a chain of nodes\<close>

text \<open>
  \<open>seg h p xs q\<close>: the nodes \<open>xs\<close> are linked in this order, the first one's
  \<open>prev\<close> is \<open>p\<close> and the last one's \<open>next\<close> is \<open>q\<close>. \<open>dlist h xs\<close>: \<open>xs\<close> is a
  whole list of the heap.
\<close>

definition first_ptr :: "addr list \<Rightarrow> addr option \<Rightarrow> addr option" where
  "first_ptr xs d = (case xs of [] \<Rightarrow> d | y # _ \<Rightarrow> Some y)"

definition last_ptr :: "addr list \<Rightarrow> addr option \<Rightarrow> addr option" where
  "last_ptr xs d = (if xs = [] then d else Some (last xs))"

fun seg :: "heap \<Rightarrow> addr option \<Rightarrow> addr list \<Rightarrow> addr option \<Rightarrow> bool" where
  "seg h p [] q = True"
| "seg h p (x # xs) q =
     (h x = Some \<lparr>ll_prev = p, ll_next = first_ptr xs q\<rparr> \<and> seg h (Some x) xs q)"

definition dlist :: "heap \<Rightarrow> addr list \<Rightarrow> bool" where
  "dlist h xs \<longleftrightarrow> distinct xs \<and> seg h None xs None"

lemma first_ptr_simps [simp]:
  "first_ptr [] d = d" "first_ptr (x # xs) d = Some x"
  by (simp_all add: first_ptr_def)

lemma last_ptr_simps [simp]:
  "last_ptr [] d = d" "last_ptr (xs @ [x]) d = Some x"
  "last_ptr (x # xs) d = last_ptr xs (Some x)"
  by (simp_all add: last_ptr_def)

lemma first_ptr_append: "first_ptr (xs @ ys) d = first_ptr xs (first_ptr ys d)"
  by (cases xs) simp_all

lemma seg_append:
  "seg h p (xs @ ys) q \<longleftrightarrow> seg h p xs (first_ptr ys q) \<and> seg h (last_ptr xs p) ys q"
  by (induction xs arbitrary: p) (auto simp: first_ptr_append)

lemma seg_frame:
  "(\<And>x. x \<in> set xs \<Longrightarrow> h' x = h x) \<Longrightarrow> seg h' p xs q \<longleftrightarrow> seg h p xs q"
  by (induction xs arbitrary: p) auto

lemma seg_frame_except:
  "(\<And>b. b \<noteq> x \<Longrightarrow> h' b = h b) \<Longrightarrow> x \<notin> set xs \<Longrightarrow> seg h' p xs q \<longleftrightarrow> seg h p xs q"
  by (rule seg_frame) metis

lemma seg_dom: "seg h p xs q \<Longrightarrow> x \<in> set xs \<Longrightarrow> \<exists>n. h x = Some n"
  by (induction xs arbitrary: p) auto

lemma seg_set_next:
  assumes "seg h p (xs @ [x]) q" "x \<notin> set xs"
  obtains h' where "set_next h x r = Some h'" "seg h' p (xs @ [x]) r"
    "\<And>a. a \<noteq> x \<Longrightarrow> h' a = h a" "dom h' = dom h"
proof -
  define n where "n = \<lparr>ll_prev = last_ptr xs p, ll_next = q\<rparr>"
  define h' where "h' = h(x \<mapsto> n\<lparr>ll_next := r\<rparr>)"
  from assms(1) have hx: "h x = Some n" and s: "seg h p xs (Some x)"
    by (auto simp: seg_append n_def)
  have "set_next h x r = Some h'" by (simp add: set_next_def hx h'_def)
  moreover have "seg h' p xs (Some x)"
    using s assms(2) by (subst seg_frame[of xs h' h]) (auto simp: h'_def)
  then have "seg h' p (xs @ [x]) r" by (simp add: seg_append h'_def n_def)
  moreover have "dom h' = dom h" using hx by (auto simp: h'_def)
  moreover have "a \<noteq> x \<Longrightarrow> h' a = h a" for a by (simp add: h'_def)
  ultimately show thesis using that by blast
qed

lemma seg_set_prev:
  assumes "seg h p (x # xs) q" "x \<notin> set xs"
  obtains h' where "set_prev h x r = Some h'" "seg h' r (x # xs) q"
    "\<And>a. a \<noteq> x \<Longrightarrow> h' a = h a" "dom h' = dom h"
proof -
  define n where "n = \<lparr>ll_prev = p, ll_next = first_ptr xs q\<rparr>"
  define h' where "h' = h(x \<mapsto> n\<lparr>ll_prev := r\<rparr>)"
  from assms(1) have hx: "h x = Some n" and s: "seg h (Some x) xs q"
    by (auto simp: n_def)
  have "set_prev h x r = Some h'" by (simp add: set_prev_def hx h'_def)
  moreover have "seg h' (Some x) xs q"
    using s assms(2) by (subst seg_frame[of xs h' h]) (auto simp: h'_def)
  then have "seg h' r (x # xs) q" by (simp add: h'_def n_def)
  moreover have "dom h' = dom h" using hx by (auto simp: h'_def)
  moreover have "a \<noteq> x \<Longrightarrow> h' a = h a" for a by (simp add: h'_def)
  ultimately show thesis using that by blast
qed

lemma seg_set_next_last:
  assumes "seg h p xs q" "distinct xs"
  obtains h' where
    "(case last_ptr xs None of None \<Rightarrow> Some h | Some y \<Rightarrow> set_next h y r) = Some h'"
    "seg h' p xs r" "\<And>b. b \<notin> set xs \<Longrightarrow> h' b = h b" "dom h' = dom h"
proof (cases xs rule: rev_cases)
  case Nil
  then show thesis using that[of h] by simp
next
  case (snoc ys y)
  then obtain h' where "set_next h y r = Some h'" "seg h' p xs r"
    "\<And>b. b \<noteq> y \<Longrightarrow> h' b = h b" "dom h' = dom h"
    using seg_set_next[of h p ys y q r] assms by auto
  then show thesis using that[of h'] snoc by auto
qed

lemma seg_set_prev_first:
  assumes "seg h p xs q" "distinct xs"
  obtains h' where
    "(case first_ptr xs None of None \<Rightarrow> Some h | Some y \<Rightarrow> set_prev h y r) = Some h'"
    "seg h' r xs q" "\<And>b. b \<notin> set xs \<Longrightarrow> h' b = h b" "dom h' = dom h"
proof (cases xs)
  case Nil
  then show thesis using that[of h] by simp
next
  case (Cons y ys)
  then obtain h' where "set_prev h y r = Some h'" "seg h' r xs q"
    "\<And>b. b \<noteq> y \<Longrightarrow> h' b = h b" "dom h' = dom h"
    using seg_set_prev[of h p y ys q r] assms by auto
  then show thesis using that[of h'] Cons by auto
qed

lemma walk_to_start_seg:
  "seg h None (ys @ a # zs) q \<Longrightarrow> walk_to_start h (Some a) = Some (Some (hd (ys @ [a])))"
proof (induction ys arbitrary: a zs rule: rev_induct)
  case Nil
  then show ?case by (simp add: walk_to_start.simps)
next
  case (snoc y ys)
  have "h a = Some \<lparr>ll_prev = Some y, ll_next = first_ptr zs q\<rparr>"
    using snoc.prems by (simp add: seg_append)
  moreover have "walk_to_start h (Some y) = Some (Some (hd (ys @ [y])))"
    using snoc.IH[of y "a # zs"] snoc.prems by simp
  ultimately show ?case
    by (subst walk_to_start.simps) (cases ys, simp_all)
qed

lemma walk_to_end_seg:
  "seg h p (a # zs) None \<Longrightarrow> walk_to_end h (Some a) = Some (Some (last (a # zs)))"
proof (induction zs arbitrary: p a)
  case Nil
  then show ?case by (simp add: walk_to_end.simps)
next
  case (Cons z zs)
  then show ?case by (subst walk_to_end.simps) auto
qed

lemma walk_to_start_dlist:
  "dlist h xs \<Longrightarrow> a \<in> set xs \<Longrightarrow> walk_to_start h (Some a) = Some (Some (hd xs))"
  by (auto simp: dlist_def dest!: split_list walk_to_start_seg)
    (metis append_Cons append_Nil hd_append2 list.sel(1) walk_to_start_seg)

lemma walk_to_end_dlist:
  "dlist h xs \<Longrightarrow> a \<in> set xs \<Longrightarrow> walk_to_end h (Some a) = Some (Some (last xs))"
proof -
  assume "dlist h xs" "a \<in> set xs"
  then obtain ys zs where "xs = ys @ a # zs" "seg h (last_ptr ys None) (a # zs) None"
    by (auto simp: dlist_def seg_append dest!: split_list)
  then show ?thesis using walk_to_end_seg[of h _ a zs] by simp
qed

subsection \<open>What each operation does to the represented list\<close>

lemma dlist_append_iff:
  "dlist h (xs @ ys) \<longleftrightarrow> distinct (xs @ ys) \<and> seg h None xs (first_ptr ys None)
     \<and> seg h (last_ptr xs None) ys None"
  by (auto simp: dlist_def seg_append)

lemma pop_start_list:
  assumes "dlist h (x # xs)" "a \<in> set (x # xs)"
  obtains h' where "LinkListPopStart h (Some a) = Some (h', first_ptr xs None, Some x)"
    "dlist h' xs" "dlist h' [x]" "\<And>b. b \<notin> set (x # xs) \<Longrightarrow> h' b = h b" "dom h' = dom h"
proof -
  from assms(1) have d: "x \<notin> set xs" "distinct xs"
    and hx: "h x = Some \<lparr>ll_prev = None, ll_next = first_ptr xs None\<rparr>"
    and s: "seg h (Some x) xs None"
    by (auto simp: dlist_def)
  have walk: "walk_to_start h (Some a) = Some (Some x)"
    using walk_to_start_dlist[OF assms] by simp
  obtain h1 where h1: "(case first_ptr xs None of None \<Rightarrow> Some h | Some s \<Rightarrow> set_prev h s None) = Some h1"
    "seg h1 None xs None" "\<And>b. b \<notin> set xs \<Longrightarrow> h1 b = h b" "dom h1 = dom h"
    using seg_set_prev_first[OF s d(2), of None] by blast
  have h1x: "seg h1 None ([] @ [x]) (first_ptr xs None)" using hx h1(3) d by simp
  obtain h2 where h2: "set_next h1 x None = Some h2" "seg h2 None ([] @ [x]) None"
    "\<And>b. b \<noteq> x \<Longrightarrow> h2 b = h1 b" "dom h2 = dom h1"
    using seg_set_next[OF h1x, of None] by auto
  have "seg h2 None xs None" using h1(2) seg_frame_except[of x h2 h1 xs, OF h2(3) d(1)] by simp
  moreover have "move_next h (Some x) = Some (first_ptr xs None)" using hx by (simp add: move_next_def)
  ultimately show thesis
    using that[of h2] walk h1 h2 d by (auto simp: LinkListPopStart_def dlist_def)
qed

lemma pop_end_list:
  assumes "dlist h (xs @ [x])" "a \<in> set (xs @ [x])"
  obtains h' where "LinkListPopEnd h (Some a) = Some (h', last_ptr xs None, Some x)"
    "dlist h' xs" "dlist h' [x]" "\<And>b. b \<notin> set (xs @ [x]) \<Longrightarrow> h' b = h b" "dom h' = dom h"
proof -
  from assms(1) have d: "x \<notin> set xs" "distinct xs"
    and hx: "h x = Some \<lparr>ll_prev = last_ptr xs None, ll_next = None\<rparr>"
    and s: "seg h None xs (Some x)"
    by (auto simp: dlist_def seg_append)
  have walk: "walk_to_end h (Some a) = Some (Some x)"
    using walk_to_end_dlist[OF assms] by simp
  obtain h1 where h1: "(case last_ptr xs None of None \<Rightarrow> Some h | Some s \<Rightarrow> set_next h s None) = Some h1"
    "seg h1 None xs None" "\<And>b. b \<notin> set xs \<Longrightarrow> h1 b = h b" "dom h1 = dom h"
    using seg_set_next_last[OF s d(2), of None] by blast
  have h1x: "seg h1 (last_ptr xs None) [x] None" using hx h1(3) d by simp
  obtain h2 where h2: "set_prev h1 x None = Some h2" "seg h2 None [x] None"
    "\<And>b. b \<noteq> x \<Longrightarrow> h2 b = h1 b" "dom h2 = dom h1"
    using seg_set_prev[OF h1x, of None] by auto
  have "seg h2 None xs None" using h1(2) seg_frame_except[of x h2 h1 xs, OF h2(3) d(1)] by simp
  moreover have "move_prev h (Some x) = Some (last_ptr xs None)" using hx by (simp add: move_prev_def)
  ultimately show thesis
    using that[of h2] walk h1 h2 d by (auto simp: LinkListPopEnd_def dlist_def)
qed

text \<open>Joining two lists: the last node of the first one is linked to the head of the second.\<close>

lemma link_segments:
  assumes "dlist h (xs @ [n])" "dlist h (s # ys)" "set (xs @ [n]) \<inter> set (s # ys) = {}"
  obtains h1 h2 where "set_next h n (Some s) = Some h1" "set_prev h1 s (Some n) = Some h2"
    "dlist h2 (xs @ n # s # ys)"
    "\<And>b. b \<notin> set (xs @ [n]) \<union> set (s # ys) \<Longrightarrow> h2 b = h b" "dom h2 = dom h"
proof -
  from assms have d: "n \<notin> set xs" "s \<notin> set ys" "n \<noteq> s" "s \<notin> set xs" "n \<notin> set ys"
    "distinct (xs @ n # s # ys)" and sx: "seg h None (xs @ [n]) None" and sy: "seg h None (s # ys) None"
    by (auto simp: dlist_def)
  obtain h1 where h1: "set_next h n (Some s) = Some h1" "seg h1 None (xs @ [n]) (Some s)"
    "\<And>b. b \<noteq> n \<Longrightarrow> h1 b = h b" "dom h1 = dom h"
    using seg_set_next[OF sx d(1), of "Some s"] by auto
  have sy1: "seg h1 None (s # ys) None"
    using sy seg_frame_except[of n h1 h "s # ys", OF h1(3)] d by simp
  obtain h2 where h2: "set_prev h1 s (Some n) = Some h2" "seg h2 (Some n) (s # ys) None"
    "\<And>b. b \<noteq> s \<Longrightarrow> h2 b = h1 b" "dom h2 = dom h1"
    using seg_set_prev[OF sy1 d(2), of "Some n"] by auto
  have "seg h2 None (xs @ [n]) (Some s)"
    using h1(2) seg_frame_except[of s h2 h1 "xs @ [n]", OF h2(3)] d by simp
  then have "dlist h2 ((xs @ [n]) @ (s # ys))"
    using h2(2) d(6) unfolding dlist_append_iff by simp
  then show thesis using that[of h1 h2] h1 h2 by auto
qed

lemma link_segments_rev:
  assumes "dlist h (xs @ [n])" "dlist h (s # ys)" "set (xs @ [n]) \<inter> set (s # ys) = {}"
  obtains h1 h2 where "set_prev h s (Some n) = Some h1" "set_next h1 n (Some s) = Some h2"
    "dlist h2 (xs @ n # s # ys)"
    "\<And>b. b \<notin> set (xs @ [n]) \<union> set (s # ys) \<Longrightarrow> h2 b = h b" "dom h2 = dom h"
proof -
  obtain h1 h2 where A: "set_next h n (Some s) = Some h1" "set_prev h1 s (Some n) = Some h2"
    "dlist h2 (xs @ n # s # ys)"
    "\<And>b. b \<notin> set (xs @ [n]) \<union> set (s # ys) \<Longrightarrow> h2 b = h b" "dom h2 = dom h"
    using link_segments[OF assms] by blast
  have "n \<noteq> s" using assms(3) by auto
  then obtain h1' where "set_prev h s (Some n) = Some h1'" "set_next h1' n (Some s) = Some h2"
    using A(1,2) by (auto simp: set_next_def set_prev_def fun_upd_twist split: option.splits)
  then show thesis using that A(3-5) by blast
qed

lemma push_start_list:
  assumes "dlist h xs" "a \<in> set xs" "dlist h ys" "b \<in> set ys" "set xs \<inter> set ys = {}"
  obtains h' where "LinkListPushStart h (Some a) (Some b) = Some (h', Some (hd ys))"
    "dlist h' (ys @ xs)" "\<And>c. c \<notin> set xs \<union> set ys \<Longrightarrow> h' c = h c" "dom h' = dom h"
proof -
  obtain s xs' where xs: "xs = s # xs'" using assms(2) by (cases xs) auto
  obtain ys' n where ys: "ys = ys' @ [n]" using assms(4) by (cases ys rule: rev_cases) auto
  obtain h1 h2 where A: "set_next h n (Some s) = Some h1" "set_prev h1 s (Some n) = Some h2"
    "dlist h2 (ys' @ n # s # xs')"
    "\<And>c. c \<notin> set (ys' @ [n]) \<union> set (s # xs') \<Longrightarrow> h2 c = h c" "dom h2 = dom h"
    using link_segments[of h ys' n s xs'] assms unfolding xs ys by blast
  have "walk_to_start h2 (Some s) = Some (Some (hd ys))"
    using walk_to_start_dlist[OF A(3), of s] by (cases ys') (simp_all add: ys)
  moreover have "walk_to_start h (Some a) = Some (Some s)"
    using walk_to_start_dlist[OF assms(1,2)] by (simp add: xs)
  moreover have "walk_to_end h (Some b) = Some (Some n)"
    using walk_to_end_dlist[OF assms(3,4)] by (simp add: ys)
  ultimately have "LinkListPushStart h (Some a) (Some b) = Some (h2, Some (hd ys))"
    using A(1,2) by (simp add: LinkListPushStart_def)
  then show thesis using that[of h2] A(3-5) by (simp add: xs ys Un_commute)
qed

lemma push_end_list:
  assumes "dlist h xs" "a \<in> set xs" "dlist h ys" "b \<in> set ys" "set xs \<inter> set ys = {}"
  obtains h' where "LinkListPushEnd h (Some a) (Some b) = Some (h', Some (hd xs))"
    "dlist h' (xs @ ys)" "\<And>c. c \<notin> set xs \<union> set ys \<Longrightarrow> h' c = h c" "dom h' = dom h"
proof -
  obtain n ys' where ys: "ys = n # ys'" using assms(4) by (cases ys) auto
  obtain xs' s where xs: "xs = xs' @ [s]" using assms(2) by (cases xs rule: rev_cases) auto
  obtain h1 h2 where A: "set_prev h n (Some s) = Some h1" "set_next h1 s (Some n) = Some h2"
    "dlist h2 (xs' @ s # n # ys')"
    "\<And>c. c \<notin> set (xs' @ [s]) \<union> set (n # ys') \<Longrightarrow> h2 c = h c" "dom h2 = dom h"
    using link_segments_rev[of h xs' s n ys'] assms unfolding xs ys by blast
  have "walk_to_start h2 (Some s) = Some (Some (hd xs))"
    using walk_to_start_dlist[OF A(3), of s] by (cases xs') (simp_all add: xs)
  moreover have "walk_to_end h (Some a) = Some (Some s)"
    using walk_to_end_dlist[OF assms(1,2)] by (simp add: xs)
  moreover have "walk_to_start h (Some b) = Some (Some n)"
    using walk_to_start_dlist[OF assms(3,4)] by (simp add: ys)
  ultimately have "LinkListPushEnd h (Some a) (Some b) = Some (h2, Some (hd xs))"
    using A(1,2) by (simp add: LinkListPushEnd_def)
  then show thesis using that[of h2] A(3-5) by (simp add: xs ys)
qed

text \<open>Taking a node out of the middle: its neighbours are linked to each other.\<close>

lemma unlink_list:
  assumes "dlist h (us @ i # vs)"
  obtains h1 h2 where
    "(case last_ptr us None of None \<Rightarrow> Some h | Some y \<Rightarrow> set_next h y (first_ptr vs None)) = Some h1"
    "(case first_ptr vs None of None \<Rightarrow> Some h1 | Some y \<Rightarrow> set_prev h1 y (last_ptr us None)) = Some h2"
    "dlist h2 (us @ vs)" "\<And>b. b \<notin> set us \<union> set vs \<Longrightarrow> h2 b = h b" "dom h2 = dom h"
proof -
  from assms have d: "distinct us" "distinct vs" "set us \<inter> set vs = {}"
    and su: "seg h None us (Some i)" and sv: "seg h (Some i) vs None"
    by (auto simp: dlist_def seg_append)
  obtain h1 where h1:
    "(case last_ptr us None of None \<Rightarrow> Some h | Some y \<Rightarrow> set_next h y (first_ptr vs None)) = Some h1"
    "seg h1 None us (first_ptr vs None)" "\<And>b. b \<notin> set us \<Longrightarrow> h1 b = h b" "dom h1 = dom h"
    using seg_set_next_last[OF su d(1)] by blast
  have sv1: "seg h1 (Some i) vs None"
    using sv h1(3) d(3) by (subst seg_frame[of vs h1 h]) auto
  obtain h2 where h2:
    "(case first_ptr vs None of None \<Rightarrow> Some h1 | Some y \<Rightarrow> set_prev h1 y (last_ptr us None)) = Some h2"
    "seg h2 (last_ptr us None) vs None" "\<And>b. b \<notin> set vs \<Longrightarrow> h2 b = h1 b" "dom h2 = dom h1"
    using seg_set_prev_first[OF sv1 d(2)] by blast
  have "seg h2 None us (first_ptr vs None)"
    using h1(2) h2(3) d(3) by (subst seg_frame[of us h2 h1]) auto
  then have "dlist h2 (us @ vs)" using h2(2) d by (simp add: dlist_append_iff)
  then show thesis using that[OF h1(1) h2(1)] h1 h2 by auto
qed

lemma find_node_seg:
  "seg h p xs None \<Longrightarrow>
     find_node h (first_ptr xs None) node = Some (if node \<in> set xs then Some node else None)"
proof (induction xs arbitrary: p)
  case Nil
  then show ?case by (simp add: find_node.simps)
next
  case (Cons x xs)
  then show ?case by (subst find_node.simps) auto
qed

lemma dlist_walk_first:
  "dlist h xs \<Longrightarrow> a \<in> set xs \<Longrightarrow> walk_to_start h (Some a) = Some (first_ptr xs None)"
  using walk_to_start_dlist[of h xs a] by (cases xs) auto

lemma remove_node_list:
  assumes "dlist h (us @ i # vs)" "a \<in> set (us @ i # vs)"
  obtains h' where "LinkListRemoveNode h (Some a) i =
      Some (h', if a = i then (if us \<noteq> [] then last_ptr us None else first_ptr vs None) else Some a)"
    "dlist h' (us @ vs)" "h' i = h i"
    "\<And>b. b \<notin> set us \<union> set vs \<Longrightarrow> h' b = h b" "dom h' = dom h"
proof -
  from assms(1) have seg: "seg h None (us @ i # vs) None"
    and hi: "h i = Some \<lparr>ll_prev = last_ptr us None, ll_next = first_ptr vs None\<rparr>"
    and ni: "i \<notin> set us \<union> set vs"
    by (auto simp: dlist_def seg_append)
  obtain h1 h2 where A:
    "(case last_ptr us None of None \<Rightarrow> Some h | Some y \<Rightarrow> set_next h y (first_ptr vs None)) = Some h1"
    "(case first_ptr vs None of None \<Rightarrow> Some h1 | Some y \<Rightarrow> set_prev h1 y (last_ptr us None)) = Some h2"
    "dlist h2 (us @ vs)" "\<And>b. b \<notin> set us \<union> set vs \<Longrightarrow> h2 b = h b" "dom h2 = dom h"
    using unlink_list[OF assms(1)] by blast
  have u: "last_ptr us None = None \<longleftrightarrow> us = []" by (simp add: last_ptr_def)
  have v: "first_ptr vs None = None \<longleftrightarrow> vs = []" by (cases vs) simp_all
  have "LinkListRemoveNode h (Some a) i =
      Some (h2, if a = i then (if us \<noteq> [] then last_ptr us None else first_ptr vs None) else Some a)"
    using dlist_walk_first[OF assms] find_node_seg[OF seg, of i] A(1,2) hi u v
    by (cases "last_ptr us None"; cases "first_ptr vs None") (simp_all add: LinkListRemoveNode_def)
  then show thesis using that[of h2] A(3-5) ni by blast
qed

lemma remove_node_absent:
  assumes "dlist h xs" "a \<in> set xs" "i \<notin> set xs"
  shows "LinkListRemoveNode h (Some a) i = Some (h, Some a)"
  using dlist_walk_first[OF assms(1,2)] find_node_seg[of h None xs i] assms
  by (simp add: LinkListRemoveNode_def dlist_def)

lemma get_index_loop_seg:
  assumes "seg h p xs None" "j \<le> i" "i < 2 ^ 32" "j + length xs \<le> 2 ^ 32"
  shows "get_index_loop h (first_ptr xs None) (of_nat j) (of_nat i) =
     Some (if i - j < length xs then Some (xs ! (i - j)) else None)"
  using assms
proof (induction xs arbitrary: p j)
  case Nil
  then show ?case by (simp add: get_index_loop.simps)
next
  case (Cons x xs)
  have "(of_nat j :: uint32) = of_nat i \<longleftrightarrow> j = i"
    using Cons.prems by (simp add: word_of_nat_eq_iff take_bit_nat_eq_self)
  moreover have "get_index_loop h (first_ptr xs None) (of_nat (Suc j)) (of_nat i) =
     Some (if i - Suc j < length xs then Some (xs ! (i - Suc j)) else None)" if "j \<noteq> i"
    using Cons.prems that by (intro Cons.IH) auto
  ultimately show ?case using Cons.prems
    by (subst get_index_loop.simps) (auto simp: nth_Cons' add.commute Suc_diff_Suc less_diff_conv)
qed

lemma get_index_list:
  assumes "dlist h xs" "a \<in> set xs" "length xs \<le> 2 ^ 32"
  shows "LinkListGetIndexNode h (Some a) index =
     Some (if unat index < length xs then Some (xs ! unat index) else None)"
  using get_index_loop_seg[of h None xs 0 "unat index"] dlist_walk_first[OF assms(1,2)] assms
    unsigned_less[of index, where ?'a = nat]
  by (simp add: LinkListGetIndexNode_def dlist_def)

lemma node_number_loop_seg:
  "seg h p xs None \<Longrightarrow> node_number_loop h (first_ptr xs None) n = Some (n + of_nat (length xs))"
proof (induction xs arbitrary: p n)
  case Nil
  then show ?case by (simp add: node_number_loop.simps)
next
  case (Cons x xs)
  then show ?case by (subst node_number_loop.simps) (auto simp: add.assoc)
qed

lemma node_number_list:
  "dlist h xs \<Longrightarrow> a \<in> set xs \<Longrightarrow> LinkListGetNodeNumber h (Some a) = Some (of_nat (length xs))"
  using node_number_loop_seg[of h None xs 0] dlist_walk_first[of h xs a]
  by (simp add: LinkListGetNodeNumber_def dlist_def)

lemma dlist_free:
  "dlist h xs \<Longrightarrow> i \<notin> set xs \<Longrightarrow> dlist (h(i := None)) xs"
  unfolding dlist_def by (subst seg_frame[of xs "h(i := None)" h]) auto

lemma del_index_list:
  assumes "dlist h xs" "a \<in> set xs" "length xs \<le> 2 ^ 32" "unat index < length xs"
  obtains h' where "LinkListDelIndexNode h (Some a) index =
      Some (h', if unat index = 0 then first_ptr (tl xs) None else Some a)"
    "dlist h' (take (unat index) xs @ drop (Suc (unat index)) xs)"
    "h' (xs ! unat index) = None" "\<And>b. b \<notin> set xs \<Longrightarrow> h' b = h b"
proof -
  define us i vs where "us = take (unat index) xs" and "i = xs ! unat index"
    and "vs = drop (Suc (unat index)) xs"
  have xs: "xs = us @ i # vs"
    using assms(4) unfolding us_def i_def vs_def by (rule id_take_nth_drop)
  have us0: "us = [] \<longleftrightarrow> unat index = 0" using assms(4) by (auto simp: us_def)
  have tl: "first_ptr (tl xs) None = first_ptr vs None" if "us = []" using that xs by simp
  from assms(1) have hi: "h i = Some \<lparr>ll_prev = last_ptr us None, ll_next = first_ptr vs None\<rparr>"
    and ni: "i \<notin> set us \<union> set vs" unfolding xs by (auto simp: dlist_def seg_append)
  obtain h1 h2 where A:
    "(case last_ptr us None of None \<Rightarrow> Some h | Some y \<Rightarrow> set_next h y (first_ptr vs None)) = Some h1"
    "(case first_ptr vs None of None \<Rightarrow> Some h1 | Some y \<Rightarrow> set_prev h1 y (last_ptr us None)) = Some h2"
    "dlist h2 (us @ vs)" "\<And>b. b \<notin> set us \<union> set vs \<Longrightarrow> h2 b = h b" "dom h2 = dom h"
    using unlink_list[of h us i vs] assms(1) xs by blast
  have "get_index_loop h (first_ptr xs None) 0 index = Some (Some i)"
    using get_index_list[OF assms(1-3), of index] dlist_walk_first[OF assms(1,2)] assms(4)
    by (simp add: LinkListGetIndexNode_def i_def)
  then have "LinkListDelIndexNode h (Some a) index =
      Some (h2(i := None), if us = [] then first_ptr vs None else Some a)"
    using dlist_walk_first[OF assms(1,2)] hi A(1,2)
    by (cases "last_ptr us None"; cases "first_ptr vs None")
      (auto simp: LinkListDelIndexNode_def last_ptr_def first_ptr_def split: list.splits if_splits)
  then have "LinkListDelIndexNode h (Some a) index =
      Some (h2(i := None), if unat index = 0 then first_ptr (tl xs) None else Some a)"
    using us0 tl by simp
  moreover have "dlist (h2(i := None)) (take (unat index) xs @ drop (Suc (unat index)) xs)"
    using dlist_free[OF A(3)] ni by (simp add: us_def vs_def)
  moreover have "(h2(i := None)) (xs ! unat index) = None" by (simp add: i_def)
  moreover have "(h2(i := None)) b = h b" if "b \<notin> set xs" for b
    using that A(4)[of b] unfolding xs by auto
  ultimately show thesis by (rule that)
qed

lemma deinit_list:
  "dlist h xs \<Longrightarrow> a \<in> set xs \<Longrightarrow> LinkListDeinit h (Some a) = Some (h |` (- set xs), xs)"
proof (induction xs arbitrary: h a)
  case Nil
  then show ?case by simp
next
  case (Cons x xs)
  obtain h1 where h1: "LinkListPopStart h (Some a) = Some (h1, first_ptr xs None, Some x)"
    "dlist h1 xs" "dlist h1 [x]" "\<And>b. b \<notin> set (x # xs) \<Longrightarrow> h1 b = h b" "dom h1 = dom h"
    by (rule pop_start_list[OF Cons.prems]) (rule that)
  have x: "x \<notin> set xs" using Cons.prems(1) by (simp add: dlist_def)
  have d: "dlist (h1(x := None)) xs" by (rule dlist_free[OF h1(2) x])
  have "LinkListDeinit (h1(x := None)) (first_ptr xs None) = Some (h |` (- set (x # xs)), xs)"
  proof (cases xs)
    case Nil
    have "h1(x := None) = h |` (- {x})" using h1(4) Nil by (intro ext) (simp add: restrict_map_def)
    then show ?thesis using Nil by (subst LinkListDeinit.simps) simp
  next
    case (Cons y ys)
    have "LinkListDeinit (h1(x := None)) (Some y) = Some ((h1(x := None)) |` (- set xs), xs)"
      by (rule Cons.IH[OF d]) (simp add: Cons)
    moreover have "(h1(x := None)) |` (- set xs) = h |` (- set (x # xs))"
      using h1(4) by (intro ext) (simp add: restrict_map_def)
    ultimately show ?thesis unfolding Cons by simp
  qed
  then show ?case using h1(1) by (subst LinkListDeinit.simps) simp
qed

subsection \<open>The interface the containers use\<close>

text \<open>
  \<^verbatim>\<open>vsi_nn_map.c\<close>, \<^verbatim>\<open>vsi_nn_hashmap.c\<close>, the recurrent workspace and the
  internal nodes keep their items on such a list and use it through three calls: a new node at
  the front, a new node at the end, and the removal of a node. The locale states what they rely
  on, for a state \<open>'s\<close> that represents a sequence of nodes; \<open>fresh\<close> is an address where a new
  node can be.
\<close>

datatype 'a list_call = Add_front 'a | Add_back 'a | Drop 'a

fun run_calls :: "('c \<Rightarrow> 's \<Rightarrow> 's option) \<Rightarrow> 'c list \<Rightarrow> 's \<Rightarrow> 's option" where
  "run_calls step [] s = Some s"
| "run_calls step (c # cs) s = Option.bind (step c s) (run_calls step cs)"

text \<open>What a call does to the sequence, and the address of its new node.\<close>

fun list_spec :: "'a list_call \<Rightarrow> 'a list \<Rightarrow> 'a list" where
  "list_spec (Add_front a) xs = a # xs"
| "list_spec (Add_back a) xs = xs @ [a]"
| "list_spec (Drop a) xs = remove1 a xs"

fun new_nodes :: "'a list_call list \<Rightarrow> 'a list" where
  "new_nodes [] = []"
| "new_nodes (Add_front a # cs) = a # new_nodes cs"
| "new_nodes (Add_back a # cs) = a # new_nodes cs"
| "new_nodes (Drop a # cs) = new_nodes cs"

locale node_chain =
  fixes rep :: "'s \<Rightarrow> 'a list \<Rightarrow> bool"
    and fresh :: "'s \<Rightarrow> 'a \<Rightarrow> bool"
    and step :: "'a list_call \<Rightarrow> 's \<Rightarrow> 's option"
  assumes front_rep: "rep s xs \<Longrightarrow> fresh s a \<Longrightarrow>
      \<exists>s'. step (Add_front a) s = Some s' \<and> rep s' (a # xs) \<and> (\<forall>b. fresh s' b \<longleftrightarrow> fresh s b \<and> b \<noteq> a)"
    and back_rep: "rep s xs \<Longrightarrow> fresh s a \<Longrightarrow>
      \<exists>s'. step (Add_back a) s = Some s' \<and> rep s' (xs @ [a]) \<and> (\<forall>b. fresh s' b \<longleftrightarrow> fresh s b \<and> b \<noteq> a)"
    and drop_rep: "rep s xs \<Longrightarrow>
      \<exists>s'. step (Drop a) s = Some s' \<and> rep s' (remove1 a xs) \<and> (\<forall>b. fresh s' b \<longleftrightarrow> fresh s b)"
begin

lemma step_rep:
  assumes "rep s xs" "distinct (new_nodes (c # cs))" "\<forall>a \<in> set (new_nodes (c # cs)). fresh s a"
  obtains s' where "step c s = Some s'" "rep s' (list_spec c xs)" "\<forall>a \<in> set (new_nodes cs). fresh s' a"
    "\<And>b. fresh s' b \<longleftrightarrow> fresh s b \<and> b \<notin> set (new_nodes [c])"
proof (cases c)
  case (Add_front a)
  then show thesis using front_rep[OF assms(1), of a] assms(2,3) that by auto
next
  case (Add_back a)
  then show thesis using back_rep[OF assms(1), of a] assms(2,3) that by auto
next
  case (Drop a)
  then show thesis using drop_rep[OF assms(1), of a] assms(2,3) that by auto
qed

lemma run_rep:
  "rep s xs \<Longrightarrow> distinct (new_nodes cs) \<Longrightarrow> \<forall>a \<in> set (new_nodes cs). fresh s a \<Longrightarrow>
   \<exists>s'. run_calls step cs s = Some s' \<and> rep s' (fold list_spec cs xs) \<and>
     (\<forall>b. fresh s' b \<longleftrightarrow> fresh s b \<and> b \<notin> set (new_nodes cs))"
proof (induction cs arbitrary: s xs)
  case (Cons c cs)
  obtain s1 where s1: "step c s = Some s1" "rep s1 (list_spec c xs)" "\<forall>a \<in> set (new_nodes cs). fresh s1 a"
    "\<And>b. fresh s1 b \<longleftrightarrow> fresh s b \<and> b \<notin> set (new_nodes [c])"
    by (rule step_rep[OF Cons.prems]) (rule that)
  have "distinct (new_nodes cs)" "set (new_nodes (c # cs)) = set (new_nodes [c]) \<union> set (new_nodes cs)"
    using Cons.prems(2) by (cases c; simp)+
  then show ?case using Cons.IH[OF s1(2) _ s1(3)] s1(1,4) by auto
qed simp

end

text \<open>The calls on the heap; the state is the heap with the root variable of the container.\<close>

fun list_step :: "addr list_call \<Rightarrow> heap \<times> addr option \<Rightarrow> (heap \<times> addr option) option" where
  "list_step (Add_front a) s =
     (let (h, node) = LinkListNewNode (fst s) (Some a) None in LinkListPushStart h (snd s) node)"
| "list_step (Add_back a) s =
     (let (h, node) = LinkListNewNode (fst s) (Some a) None in LinkListPushEnd h (snd s) node)"
| "list_step (Drop a) s = LinkListRemoveNode (fst s) (snd s) a"

definition chain_rep :: "heap \<times> addr option \<Rightarrow> addr list \<Rightarrow> bool" where
  "chain_rep s xs \<longleftrightarrow> dlist (fst s) xs \<and> snd s = first_ptr xs None"

definition chain_fresh :: "heap \<times> addr option \<Rightarrow> addr \<Rightarrow> bool" where
  "chain_fresh s a \<longleftrightarrow> fst s a = None"

text \<open>A new node is a list of its own beside the chain.\<close>

lemma new_node_lists:
  assumes "dlist h xs" "h a = None"
  shows "dlist (h(a \<mapsto> \<lparr>ll_prev = None, ll_next = None\<rparr>)) xs"
    "dlist (h(a \<mapsto> \<lparr>ll_prev = None, ll_next = None\<rparr>)) [a]" "a \<notin> set xs"
proof -
  show a: "a \<notin> set xs" using assms seg_dom[of h None xs None a] by (auto simp: dlist_def)
  show "dlist (h(a \<mapsto> \<lparr>ll_prev = None, ll_next = None\<rparr>)) xs"
    using assms(1) unfolding dlist_def
    by (subst seg_frame[of xs _ h]) (use a in auto)
  show "dlist (h(a \<mapsto> \<lparr>ll_prev = None, ll_next = None\<rparr>)) [a]" by (simp add: dlist_def)
qed

lemma chain_front:
  assumes "chain_rep s xs" "chain_fresh s a"
  shows "\<exists>s'. list_step (Add_front a) s = Some s' \<and> chain_rep s' (a # xs) \<and>
    (\<forall>b. chain_fresh s' b \<longleftrightarrow> chain_fresh s b \<and> b \<noteq> a)"
proof -
  let ?h = "(fst s)(a \<mapsto> \<lparr>ll_prev = None, ll_next = None\<rparr>)"
  note n = new_node_lists[of "fst s" xs a]
  have l: "dlist ?h xs" "dlist ?h [a]" "a \<notin> set xs" "snd s = first_ptr xs None"
    using n assms by (simp_all add: chain_rep_def chain_fresh_def)
  show ?thesis
  proof (cases xs)
    case Nil
    then show ?thesis using l
      by (auto simp: chain_rep_def chain_fresh_def LinkListNewNode_def LinkListPushStart_def)
  next
    case (Cons x ys)
    obtain h' where h': "LinkListPushStart ?h (Some x) (Some a) = Some (h', Some (hd [a]))" "dlist h' ([a] @ xs)" "dom h' = dom ?h"
      by (rule push_start_list[of ?h xs x "[a]" a]) (use l Cons in auto)
    have "h' b = None \<longleftrightarrow> fst s b = None \<and> b \<noteq> a" for b
      using arg_cong[OF h'(3), of "\<lambda>A. b \<in> A"] unfolding domIff
      by (cases "h' b"; cases "fst s b") (auto split: if_splits)
    then show ?thesis using h'(1,2) l Cons by (simp add: chain_rep_def chain_fresh_def LinkListNewNode_def)
  qed
qed

lemma chain_back:
  assumes "chain_rep s xs" "chain_fresh s a"
  shows "\<exists>s'. list_step (Add_back a) s = Some s' \<and> chain_rep s' (xs @ [a]) \<and>
    (\<forall>b. chain_fresh s' b \<longleftrightarrow> chain_fresh s b \<and> b \<noteq> a)"
proof -
  let ?h = "(fst s)(a \<mapsto> \<lparr>ll_prev = None, ll_next = None\<rparr>)"
  note n = new_node_lists[of "fst s" xs a]
  have l: "dlist ?h xs" "dlist ?h [a]" "a \<notin> set xs" "snd s = first_ptr xs None"
    using n assms by (simp_all add: chain_rep_def chain_fresh_def)
  show ?thesis
  proof (cases xs)
    case Nil
    then show ?thesis using l
      by (auto simp: chain_rep_def chain_fresh_def LinkListNewNode_def LinkListPushEnd_def)
  next
    case (Cons x ys)
    obtain h' where h': "LinkListPushEnd ?h (Some x) (Some a) = Some (h', Some (hd xs))" "dlist h' (xs @ [a])" "dom h' = dom ?h"
      by (rule push_end_list[of ?h xs x "[a]" a]) (use l Cons in auto)
    have "h' b = None \<longleftrightarrow> fst s b = None \<and> b \<noteq> a" for b
      using arg_cong[OF h'(3), of "\<lambda>A. b \<in> A"] unfolding domIff
      by (cases "h' b"; cases "fst s b") (auto split: if_splits)
    then show ?thesis using h'(1,2) l Cons by (simp add: chain_rep_def chain_fresh_def LinkListNewNode_def)
  qed
qed

lemma chain_drop:
  assumes "chain_rep s xs"
  shows "\<exists>s'. list_step (Drop a) s = Some s' \<and> chain_rep s' (remove1 a xs) \<and>
    (\<forall>b. chain_fresh s' b \<longleftrightarrow> chain_fresh s b)"
proof (cases "a \<in> set xs")
  case True
  then obtain us vs where xs: "xs = us @ a # vs" and a: "a \<notin> set us"
    by (meson split_list_first)
  have r: "snd s = Some (hd xs)" using assms True by (cases xs) (auto simp: chain_rep_def)
  obtain h' where h': "LinkListRemoveNode (fst s) (Some (hd xs)) a =
      Some (h', if hd xs = a then (if us \<noteq> [] then last_ptr us None else first_ptr vs None)
                else Some (hd xs))" "dlist h' (us @ vs)" "dom h' = dom (fst s)"
    by (rule remove_node_list[of "fst s" us a vs "hd xs"])
      (use assms in \<open>auto simp: chain_rep_def xs hd_append\<close>)
  have d: "h' b = None \<longleftrightarrow> fst s b = None" for b
    using arg_cong[OF h'(3), of "\<lambda>A. b \<in> A"] unfolding domIff by auto
  show ?thesis
  proof (cases us)
    case Nil
    then show ?thesis using h' r xs d by (auto simp: chain_rep_def chain_fresh_def)
  next
    case (Cons u us')
    then have "hd xs \<noteq> a" using a xs by auto
    then show ?thesis using h' r xs a d Cons
      by (auto simp: chain_rep_def chain_fresh_def remove1_append)
  qed
next
  case False
  show ?thesis
  proof (cases xs)
    case Nil
    then show ?thesis using assms
      by (auto simp: chain_rep_def chain_fresh_def LinkListRemoveNode_def walk_to_start.simps find_node.simps)
  next
    case (Cons x ys)
    then show ?thesis using assms False remove_node_absent[of "fst s" xs x a]
      by (auto simp: chain_rep_def chain_fresh_def remove1_idem)
  qed
qed

interpretation lk: node_chain chain_rep chain_fresh list_step
  by unfold_locales (fact chain_front chain_back chain_drop)+

subsection \<open>Properties\<close>

text \<open>
  C4: removing a node unlinks exactly that node. From any entry point into the list,
  the rest of the list is well linked in its old order, no other memory is written
  (the removed node keeps its own links), nothing is freed, and the caller's root
  then points at a node of the remaining list, or is null when none is left.
\<close>

theorem remove_node_unlinks:
  assumes "dlist h (us @ i # vs)" "a \<in> set (us @ i # vs)"
  shows "\<exists>h' r. LinkListRemoveNode h (Some a) i = Some (h', r) \<and> dlist h' (us @ vs) \<and>
    dom h' = dom h \<and> (\<forall>b. b \<notin> set us \<union> set vs \<longrightarrow> h' b = h b) \<and>
    (if us @ vs = [] then r = None else \<exists>c \<in> set (us @ vs). r = Some c)"
proof -
  obtain h' where h': "LinkListRemoveNode h (Some a) i =
      Some (h', if a = i then (if us \<noteq> [] then last_ptr us None else first_ptr vs None) else Some a)"
    "dlist h' (us @ vs)" "h' i = h i" "\<And>b. b \<notin> set us \<union> set vs \<Longrightarrow> h' b = h b" "dom h' = dom h"
    by (rule remove_node_list[OF assms]) (rule that)
  show ?thesis using h'(1,2,4,5) assms(2)
    by (cases vs) (auto simp: last_ptr_def)
qed

definition heap3 :: heap where
  "heap3 = [1 \<mapsto> \<lparr>ll_prev = None, ll_next = Some 2\<rparr>,
            2 \<mapsto> \<lparr>ll_prev = Some 1, ll_next = Some 3\<rparr>,
            3 \<mapsto> \<lparr>ll_prev = Some 2, ll_next = None\<rparr>,
            4 \<mapsto> \<lparr>ll_prev = None, ll_next = Some 5\<rparr>,
            5 \<mapsto> \<lparr>ll_prev = Some 4, ll_next = None\<rparr>]"

lemma heap3_list: "dlist heap3 [1, 2, 3]" "dlist heap3 [4, 5]"
  by (simp_all add: dlist_def heap3_def)

theorem remove_node_unlinks_witness:
  "\<exists>h' r. LinkListRemoveNode heap3 (Some 3) 2 = Some (h', r) \<and> dlist h' [1, 3]"
  using remove_node_unlinks[of heap3 "[1]" 2 "[3]" 3] heap3_list by auto

text \<open>
  \<open>PushStart\<close> puts a whole chain of nodes in front of the list and \<open>PushEnd\<close>
  behind it, whatever nodes of the two chains the caller passes; the new root is
  the head of the joined list, and only nodes of the two chains are written.
\<close>

theorem push_concatenates:
  assumes "dlist h xs" "a \<in> set xs" "dlist h ys" "b \<in> set ys" "set xs \<inter> set ys = {}"
  shows "(\<exists>h'. LinkListPushStart h (Some a) (Some b) = Some (h', Some (hd (ys @ xs))) \<and>
            dlist h' (ys @ xs) \<and> (\<forall>c. c \<notin> set xs \<union> set ys \<longrightarrow> h' c = h c)) \<and>
         (\<exists>h'. LinkListPushEnd h (Some a) (Some b) = Some (h', Some (hd (xs @ ys))) \<and>
            dlist h' (xs @ ys) \<and> (\<forall>c. c \<notin> set xs \<union> set ys \<longrightarrow> h' c = h c))"
proof -
  have ne: "xs \<noteq> []" "ys \<noteq> []" using assms by auto
  obtain h1 where h1: "LinkListPushStart h (Some a) (Some b) = Some (h1, Some (hd ys))"
    "dlist h1 (ys @ xs)" "\<And>c. c \<notin> set xs \<union> set ys \<Longrightarrow> h1 c = h c" "dom h1 = dom h"
    by (rule push_start_list[OF assms]) (rule that)
  obtain h2 where h2: "LinkListPushEnd h (Some a) (Some b) = Some (h2, Some (hd xs))"
    "dlist h2 (xs @ ys)" "\<And>c. c \<notin> set xs \<union> set ys \<Longrightarrow> h2 c = h c" "dom h2 = dom h"
    by (rule push_end_list[OF assms]) (rule that)
  show ?thesis using h1(1-3) h2(1-3) ne by simp
qed

theorem push_concatenates_witness:
  "\<exists>h'. LinkListPushEnd heap3 (Some 2) (Some 5) = Some (h', Some 1) \<and> dlist h' [1, 2, 3, 4, 5]"
  using push_concatenates[of heap3 "[1, 2, 3]" 2 "[4, 5]" 5] heap3_list by auto

text \<open>
  \<open>vsi_nn_LinkListDeinit\<close> returns, calls the callback on every node exactly once,
  from the head to the tail, and frees exactly the nodes of the list, from whatever
  node of it is given.
\<close>

theorem deinit_frees_all:
  assumes "dlist h xs" "a \<in> set xs"
  shows "LinkListDeinit h (Some a) = Some (h |` (- set xs), xs)"
  using assms by (rule deinit_list)

theorem deinit_frees_all_witness:
  "LinkListDeinit heap3 (Some 2) = Some (heap3 |` (- {1, 2, 3}), [1, 2, 3])"
  using deinit_frees_all[of heap3 "[1, 2, 3]" 2] heap3_list by simp

text \<open>
  a root that a \<open>PopEnd\<close> left at the tail dangles after \<open>DelIndexNode\<close> deletes
  that tail: the operation frees the node and returns the same root, which is no
  longer an address of the heap. (With the root at the head, the root stays a node
  of the remaining list: \<open>del_index_list\<close>.)
\<close>

theorem del_index_dangling_root:
  assumes "dlist h (xs @ [y])" "xs \<noteq> []" "length xs < 2 ^ 32"
  shows "\<exists>h'. LinkListDelIndexNode h (Some y) (of_nat (length xs)) = Some (h', Some y) \<and>
    dlist h' xs \<and> h' y = None"
proof -
  have u: "unat (of_nat (length xs) :: uint32) = length xs"
    using assms(3) by (simp add: unat_of_nat take_bit_nat_eq_self)
  obtain h' where "LinkListDelIndexNode h (Some y) (of_nat (length xs)) =
      Some (h', if unat (of_nat (length xs) :: uint32) = 0 then first_ptr (tl (xs @ [y])) None else Some y)"
    "dlist h' (take (unat (of_nat (length xs) :: uint32)) (xs @ [y]) @
       drop (Suc (unat (of_nat (length xs) :: uint32))) (xs @ [y]))"
    "h' ((xs @ [y]) ! unat (of_nat (length xs) :: uint32)) = None"
    by (rule del_index_list[OF assms(1), of y "of_nat (length xs)"]) (use assms(3) u in simp_all)
  then show ?thesis using assms(2) by (simp add: u)
qed

theorem del_index_dangling_root_witness:
  "\<exists>h'. LinkListDelIndexNode heap3 (Some 3) 2 = Some (h', Some 3) \<and> h' 3 = None"
  using del_index_dangling_root[of heap3 "[1, 2]" 3] heap3_list by auto

text \<open>
  Positional access. \<open>GetIndexNode\<close> returns the node at that position of the
  list, null past its end, and \<open>GetNodeNumber\<close> counts the nodes (modulo the 32 bits of
  its counter), from any entry point.
\<close>

theorem index_access:
  assumes "dlist h xs" "a \<in> set xs" "length xs \<le> 2 ^ 32"
  shows "LinkListGetIndexNode h (Some a) index =
      Some (if unat index < length xs then Some (xs ! unat index) else None) \<and>
    LinkListGetNodeNumber h (Some a) = Some (of_nat (length xs))"
  using get_index_list[OF assms] node_number_list[OF assms(1,2)] by blast

theorem index_access_witness:
  "LinkListGetIndexNode heap3 (Some 2) 0 = Some (Some 1) \<and>
   LinkListGetNodeNumber heap3 (Some 2) = Some 3"
  using index_access[of heap3 "[1, 2, 3]" 2 0] heap3_list by simp

text \<open>
  C19: a list that is only used through \<open>NewNode\<close> with \<open>PushStart\<close> or \<open>PushEnd\<close>, and
  \<open>RemoveNode\<close>, in any order and from any well linked list, always is the sequence of its nodes:
  every call returns, the links of both directions are those of the sequence with the new nodes
  at its front or its end and without the removed ones, the root is its first node (null when it
  is empty), and the memory in use grows by exactly the new nodes. Removing a node that is not in
  the list does nothing.
\<close>

theorem list_session:
  assumes "dlist h xs" "distinct (new_nodes calls)" "\<forall>a \<in> set (new_nodes calls). h a = None"
  shows "\<exists>h'. run_calls list_step calls (h, first_ptr xs None) = Some (h', first_ptr (fold list_spec calls xs) None) \<and>
    dlist h' (fold list_spec calls xs) \<and> dom h' = dom h \<union> set (new_nodes calls)"
proof -
  have "chain_rep (h, first_ptr xs None) xs" "\<forall>a \<in> set (new_nodes calls). chain_fresh (h, first_ptr xs None) a"
    using assms(1,3) by (simp_all add: chain_rep_def chain_fresh_def)
  then obtain s' where s': "run_calls list_step calls (h, first_ptr xs None) = Some s'"
    "chain_rep s' (fold list_spec calls xs)"
    "\<forall>b. chain_fresh s' b \<longleftrightarrow> chain_fresh (h, first_ptr xs None) b \<and> b \<notin> set (new_nodes calls)"
    using lk.run_rep[OF _ assms(2)] by blast
  have "dom (fst s') = dom h \<union> set (new_nodes calls)"
    using s'(3) unfolding set_eq_iff domIff Un_iff by (simp add: chain_fresh_def)
  then show ?thesis using s'(1,2) by (intro exI[of _ "fst s'"]) (simp add: chain_rep_def prod_eq_iff)
qed

text \<open>Three nodes; a new one at each end, then the middle one, the first one and the last one go.\<close>

theorem list_session_witness:
  "\<exists>h'. run_calls list_step [Add_back 9, Drop 2, Add_front 8, Drop 8, Drop 9, Drop 7] (heap3, Some 1) = Some (h', Some 1) \<and>
    dlist h' [1, 3] \<and> dom h' = {1, 2, 3, 4, 5, 8, 9}"
proof -
  have "dom heap3 = {1, 2, 3, 4, 5}" by (auto simp: heap3_def)
  then show ?thesis
    using list_session[OF heap3_list(1), of "[Add_back 9, Drop 2, Add_front 8, Drop 8, Drop 9, Drop 7]"]
    by (auto simp: heap3_def insert_commute)
qed

end
