(* ===== verification/Binary_Tree.thy ===== *)
theory Binary_Tree
  imports Vsi_Prelude
begin

text \<open>
  The unbalanced search tree of
  \<^verbatim>\<open>src/tim/vx/internal/src/utils/vsi_nn_binary_tree.c\<close>. The C code links nodes by
  pointers that are never shared, so a tree is a value; the pointer to a node that
  \<open>_find_loc\<close> returns is the path from the root to it. A stored datum is a
  \<open>void *\<close>: \<open>None\<close> is \<open>NULL\<close>. The key type is any linear order (\<open>int64_t\<close> in the C
  code), because the hash map of \<^verbatim>\<open>vsi_nn_hashmap.c\<close> repeats this code over strings.

  The theory also states what a container built on it promises, as the locale
  \<open>key_store\<close>.
\<close>

datatype ('k, 'v) bt =
  Nil_node
| Bt_node (left: "('k, 'v) bt") (bt_key: 'k) (data_ptr: "'v option") (right: "('k, 'v) bt")

datatype dir = Go_left | Go_right

definition is_null :: "('k, 'v) bt \<Rightarrow> bool" where
  "is_null t = (case t of Nil_node \<Rightarrow> True | Bt_node _ _ _ _ \<Rightarrow> False)"

fun min_node :: "('k, 'v) bt \<Rightarrow> ('k \<times> 'v option) option" where
  "min_node Nil_node = None"
| "min_node (Bt_node l k d r) = (if is_null l then Some (k, d) else min_node l)"

fun del_node_by_key :: "('k::linorder, 'v) bt \<Rightarrow> 'k \<Rightarrow> ('k, 'v) bt" where
  "del_node_by_key Nil_node key = Nil_node"
| "del_node_by_key (Bt_node l k d r) key =
     (if key < k then Bt_node (del_node_by_key l key) k d r
      else if key > k then Bt_node l k d (del_node_by_key r key)
      else if is_null l then r
      else if is_null r then l
      else (case min_node r of
              None \<Rightarrow> Bt_node l k d r
            | Some (k', d') \<Rightarrow> Bt_node l k' d' (del_node_by_key r k')))"

text \<open>
  \<open>find_loc t key\<close>: where the search for \<open>key\<close> stops, and the direction of its last
  step (\<open>val\<close>): the node holding the key with 0, or the node under whose left (-1)
  or right (1) side the key is missing. On an empty tree there is no node.
\<close>

fun find_loc :: "('k::linorder, 'v) bt \<Rightarrow> 'k \<Rightarrow> dir list option \<times> int" where
  "find_loc Nil_node key = (None, 0)"
| "find_loc (Bt_node l k d r) key =
     (if k > key then
        (if is_null l then (Some [], - 1)
         else (let (p, v) = find_loc l key in (map_option (Cons Go_left) p, v)))
      else if k < key then
        (if is_null r then (Some [], 1)
         else (let (p, v) = find_loc r key in (map_option (Cons Go_right) p, v)))
      else (Some [], 0))"

fun node_at :: "('k, 'v) bt \<Rightarrow> dir list \<Rightarrow> ('k, 'v) bt" where
  "node_at t [] = t"
| "node_at Nil_node (_ # p) = Nil_node"
| "node_at (Bt_node l k d r) (Go_left # p) = node_at l p"
| "node_at (Bt_node l k d r) (Go_right # p) = node_at r p"

fun update_at :: "('k, 'v) bt \<Rightarrow> dir list \<Rightarrow> (('k, 'v) bt \<Rightarrow> ('k, 'v) bt) \<Rightarrow> ('k, 'v) bt" where
  "update_at t [] f = f t"
| "update_at Nil_node (_ # p) f = Nil_node"
| "update_at (Bt_node l k d r) (Go_left # p) f = Bt_node (update_at l p f) k d r"
| "update_at (Bt_node l k d r) (Go_right # p) f = Bt_node l k d (update_at r p f)"

fun set_data :: "'v option \<Rightarrow> ('k, 'v) bt \<Rightarrow> ('k, 'v) bt" where
  "set_data v Nil_node = Nil_node"
| "set_data v (Bt_node l k d r) = Bt_node l k v r"

fun set_left :: "('k, 'v) bt \<Rightarrow> ('k, 'v) bt \<Rightarrow> ('k, 'v) bt" where
  "set_left n Nil_node = Nil_node"
| "set_left n (Bt_node l k d r) = Bt_node n k d r"

fun set_right :: "('k, 'v) bt \<Rightarrow> ('k, 'v) bt \<Rightarrow> ('k, 'v) bt" where
  "set_right n Nil_node = Nil_node"
| "set_right n (Bt_node l k d r) = Bt_node l k d n"

definition BinaryTreeRemoveNode :: "('k::linorder, 'v) bt \<Rightarrow> 'k \<Rightarrow> ('k, 'v) bt" where
  "BinaryTreeRemoveNode root key = del_node_by_key root key"

text \<open>\<open>malloc_ok\<close> tells whether the allocation of the new node succeeds.\<close>

definition BinaryTreeNewNode ::
  "bool \<Rightarrow> ('k::linorder, 'v) bt \<Rightarrow> 'k \<Rightarrow> 'v option \<Rightarrow> ('k, 'v) bt" where
  "BinaryTreeNewNode malloc_ok root key data =
     (let (iter, val) = find_loc root key;
          node = (if malloc_ok then Bt_node Nil_node key data Nil_node else Nil_node)
      in case iter of
           None \<Rightarrow> node
         | Some p \<Rightarrow>
             if \<not> is_null (node_at root p) \<and> key = bt_key (node_at root p)
             then update_at root p (set_data data)
             else if val > 0 then update_at root p (set_right node)
             else if val < 0 then update_at root p (set_left node)
             else root)"

definition BinaryTreeGetNode :: "('k::linorder, 'v) bt \<Rightarrow> 'k \<Rightarrow> 'v option" where
  "BinaryTreeGetNode root key =
     (case fst (find_loc root key) of
        None \<Rightarrow> None
      | Some p \<Rightarrow>
          if \<not> is_null (node_at root p) \<and> key = bt_key (node_at root p)
          then data_ptr (node_at root p) else None)"

subsection \<open>Search trees\<close>

fun bt_keys :: "('k, 'v) bt \<Rightarrow> 'k set" where
  "bt_keys Nil_node = {}"
| "bt_keys (Bt_node l k d r) = insert k (bt_keys l \<union> bt_keys r)"

fun bst :: "('k::linorder, 'v) bt \<Rightarrow> bool" where
  "bst Nil_node = True"
| "bst (Bt_node l k d r) =
     (bst l \<and> bst r \<and> (\<forall>x \<in> bt_keys l. x < k) \<and> (\<forall>x \<in> bt_keys r. k < x))"

text \<open>The reference lookup: the datum under a key, \<open>None\<close> where the key is absent.\<close>

fun bt_lookup :: "('k::linorder, 'v) bt \<Rightarrow> 'k \<Rightarrow> 'v option option" where
  "bt_lookup Nil_node key = None"
| "bt_lookup (Bt_node l k d r) key =
     (if key < k then bt_lookup l key else if k < key then bt_lookup r key else Some d)"

text \<open>The reference insertion.\<close>

fun bt_insert :: "('k::linorder, 'v) bt \<Rightarrow> 'k \<Rightarrow> 'v option \<Rightarrow> ('k, 'v) bt" where
  "bt_insert Nil_node key v = Bt_node Nil_node key v Nil_node"
| "bt_insert (Bt_node l k d r) key v =
     (if key < k then Bt_node (bt_insert l key v) k d r
      else if k < key then Bt_node l k d (bt_insert r key v)
      else Bt_node l k v r)"

lemma is_null_simps [simp]: "is_null Nil_node" "\<not> is_null (Bt_node l k d r)"
  by (simp_all add: is_null_def)

lemma is_null_iff: "is_null t \<longleftrightarrow> t = Nil_node"
  by (cases t) simp_all

lemma find_loc_None: "fst (find_loc t key) = None \<longleftrightarrow> t = Nil_node"
  by (induction t key rule: find_loc.induct) (auto simp: is_null_iff split: prod.splits)

lemma GetNode_lookup:
  "BinaryTreeGetNode t key = (case bt_lookup t key of None \<Rightarrow> None | Some d \<Rightarrow> d)"
proof (induction t key rule: find_loc.induct)
  case 1
  then show ?case by (simp add: BinaryTreeGetNode_def)
next
  case (2 l k d r key)
  then show ?case
    using find_loc_None[of l key] find_loc_None[of r key]
    by (cases "find_loc l key"; cases "find_loc r key")
      (auto simp: BinaryTreeGetNode_def is_null_iff)
qed

lemma NewNode_insert: "BinaryTreeNewNode True t key v = bt_insert t key v"
proof (induction t key rule: find_loc.induct)
  case 1
  then show ?case by (simp add: BinaryTreeNewNode_def)
next
  case (2 l k d r key)
  then show ?case
    using find_loc_None[of l key] find_loc_None[of r key]
    by (cases "find_loc l key"; cases "find_loc r key")
      (auto simp: BinaryTreeNewNode_def is_null_iff Let_def split: if_splits)
qed

lemma bt_keys_insert: "bt_keys (bt_insert t k v) = insert k (bt_keys t)"
  by (induction t) auto

lemma bst_insert: "bst t \<Longrightarrow> bst (bt_insert t k v)"
  by (induction t) (auto simp: bt_keys_insert)

lemma lookup_insert: "bt_lookup (bt_insert t k v) k' = (if k' = k then Some v else bt_lookup t k')"
  by (induction t) auto

lemma lookup_dom: "bst t \<Longrightarrow> bt_lookup t k \<noteq> None \<longleftrightarrow> k \<in> bt_keys t"
proof (induction t)
  case (Bt_node l k0 d r)
  then show ?case by (cases k k0 rule: linorder_cases) auto
qed simp

lemma lookup_notin: "bst t \<Longrightarrow> k \<notin> bt_keys t \<Longrightarrow> bt_lookup t k = None"
  using lookup_dom by blast


subsection \<open>Deletion\<close>

lemma min_node_mem: "min_node t = Some (k, d) \<Longrightarrow> k \<in> bt_keys t"
  by (induction t rule: min_node.induct) (auto split: if_splits)

lemma min_node_total: "t \<noteq> Nil_node \<Longrightarrow> \<exists>k d. min_node t = Some (k, d)"
  by (induction t rule: min_node.induct) (auto simp: is_null_iff)

lemma min_node_least:
  "bst t \<Longrightarrow> min_node t = Some (k, d) \<Longrightarrow> x \<in> bt_keys t \<Longrightarrow> k \<le> x"
proof (induction t rule: min_node.induct)
  case (2 l k' d' r)
  show ?case
  proof (cases "l = Nil_node")
    case True
    with 2 show ?thesis by auto
  next
    case False
    with 2 have m: "min_node l = Some (k, d)" by (simp add: is_null_iff)
    have "k < k'" using 2(2) min_node_mem[OF m] by simp
    with 2 False m show ?thesis by (auto simp: is_null_iff)
  qed
qed simp

lemma min_node_lookup: "bst t \<Longrightarrow> min_node t = Some (k, d) \<Longrightarrow> bt_lookup t k = Some d"
proof (induction t rule: min_node.induct)
  case (2 l k' d' r)
  show ?case
  proof (cases "l = Nil_node")
    case False
    with 2 have m: "min_node l = Some (k, d)" by (simp add: is_null_iff)
    with 2 False min_node_mem[OF m] show ?thesis by (auto simp: is_null_iff)
  qed (use 2 in auto)
qed simp

lemma keys_delete: "bst t \<Longrightarrow> bt_keys (del_node_by_key t k) = bt_keys t - {k}"
proof (induction t k rule: del_node_by_key.induct)
  case (2 l k d r key)
  consider "key < k" | "k < key" | "key = k" using less_linear by blast
  then show ?case
  proof cases
    case 3
    show ?thesis
    proof (cases "l = Nil_node \<or> r = Nil_node")
      case True
      with 2 3 show ?thesis by (auto simp: is_null_iff)
    next
      case False
      then obtain k' d' where m: "min_node r = Some (k', d')" using min_node_total by blast
      have "bt_keys (del_node_by_key r k') = bt_keys r - {k'}"
        using 2(3)[OF _ _ _ _ m] 2(4) 3 False by (simp add: is_null_iff)
      with 2(4) 3 False m min_node_mem[OF m] show ?thesis by (auto simp: is_null_iff)
    qed
  qed (use 2 in auto)
qed simp

lemma bst_delete: "bst t \<Longrightarrow> bst (del_node_by_key t k)"
proof (induction t k rule: del_node_by_key.induct)
  case (2 l k d r key)
  consider "key < k" | "k < key" | "key = k" using less_linear by blast
  then show ?case
  proof cases
    case 3
    show ?thesis
    proof (cases "l = Nil_node \<or> r = Nil_node")
      case True
      with 2 3 show ?thesis by (auto simp: is_null_iff)
    next
      case False
      then obtain k' d' where m: "min_node r = Some (k', d')" using min_node_total by blast
      have "bst (del_node_by_key r k')"
        using 2(3)[OF _ _ _ _ m] 2(4) 3 False by (simp add: is_null_iff)
      moreover have "\<forall>x \<in> bt_keys r - {k'}. k' < x"
        using min_node_least[OF _ m] 2(4) by (metis DiffD1 DiffD2 bst.simps(2) insertI1 le_neq_trans)
      moreover have "k < k'" using min_node_mem[OF m] 2(4) by simp
      ultimately show ?thesis
        using 2(4) 3 False m by (auto simp: is_null_iff keys_delete)
    qed
  qed (use 2 in \<open>auto simp: keys_delete\<close>)
qed simp

lemma lookup_delete:
  "bst t \<Longrightarrow> bt_lookup (del_node_by_key t k) x = (if x = k then None else bt_lookup t x)"
proof (induction t k arbitrary: x rule: del_node_by_key.induct)
  case (2 l k d r key)
  consider (less) "key < k" | (greater) "k < key" | (eq) "key = k" using less_linear by blast
  then show ?case
  proof cases
    case eq
    have outl: "y \<notin> bt_keys l" if "k \<le> y" for y using 2(4) that by force
    have outr: "y \<notin> bt_keys r" if "y \<le> k" for y using 2(4) that by force
    show ?thesis
    proof (cases "l = Nil_node \<or> r = Nil_node")
      case True
      with 2 eq outl outr show ?thesis
        by (cases x k rule: linorder_cases) (auto simp: is_null_iff lookup_notin)
    next
      case False
      then obtain k' d' where m: "min_node r = Some (k', d')" using min_node_total by blast
      have IH: "bt_lookup (del_node_by_key r k') y = (if y = k' then None else bt_lookup r y)" for y
        using 2(3)[OF _ _ _ _ m] 2(4) eq False by (simp add: is_null_iff)
      have kk: "k < k'" using min_node_mem[OF m] 2(4) by simp
      have low: "bt_lookup r y = None" if "y < k'" for y
        using min_node_least[OF _ m, of y] 2(4) that by (intro lookup_notin) auto
      have high: "bt_lookup l y = None" if "k \<le> y" for y
        using outl[OF that] 2(4) by (intro lookup_notin) auto
      show ?thesis
        using 2(4) eq False m IH kk low high min_node_lookup[OF _ m]
        by (cases x k' rule: linorder_cases; cases x k rule: linorder_cases)
          (auto simp: is_null_iff)
    qed
  qed (use 2 in auto)
qed simp


text \<open>When the allocation fails, the key is written if it exists and nothing else changes.\<close>

lemma NewNode_fail:
  "BinaryTreeNewNode False t key v = (if bt_lookup t key = None then t else bt_insert t key v)"
proof (induction t key rule: find_loc.induct)
  case 1
  then show ?case by (simp add: BinaryTreeNewNode_def)
next
  case (2 l k d r key)
  then show ?case
    using find_loc_None[of l key] find_loc_None[of r key]
    by (cases "find_loc l key"; cases "find_loc r key")
      (auto simp: BinaryTreeNewNode_def is_null_iff Let_def split: if_splits)
qed

subsection \<open>The contract of a key store\<close>

text \<open>
  A sequence of writes and removals, and what it does to the function from keys to data
  (\<open>None\<close> is \<open>NULL\<close>, which the C interface does not tell from an absent key).
\<close>

datatype ('k, 'v) store_op = Put 'k "'v option" | Del 'k

fun upd_op :: "('k, 'v) store_op \<Rightarrow> ('k \<Rightarrow> 'v option) \<Rightarrow> 'k \<Rightarrow> 'v option" where
  "upd_op (Put k v) f = f(k := v)"
| "upd_op (Del k) f = f(k := None)"

locale key_store =
  fixes get :: "'s \<Rightarrow> 'k \<Rightarrow> 'v option"
    and put :: "'s \<Rightarrow> 'k \<Rightarrow> 'v option \<Rightarrow> 's"
    and remove :: "'s \<Rightarrow> 'k \<Rightarrow> 's"
    and new :: 's
    and inv :: "'s \<Rightarrow> bool"
  assumes inv_new: "inv new"
    and inv_put: "inv s \<Longrightarrow> inv (put s k v)"
    and inv_remove: "inv s \<Longrightarrow> inv (remove s k)"
    and get_new: "get new k = None"
    and get_put: "inv s \<Longrightarrow> get (put s k v) x = (if x = k then v else get s x)"
    and get_remove: "inv s \<Longrightarrow> get (remove s k) x = (if x = k then None else get s x)"
begin

fun step :: "('k, 'v) store_op \<Rightarrow> 's \<Rightarrow> 's" where
  "step (Put k v) s = put s k v"
| "step (Del k) s = remove s k"

lemma inv_step: "inv s \<Longrightarrow> inv (step opr s)"
  by (cases opr) (simp_all add: inv_put inv_remove)

lemma get_step: "inv s \<Longrightarrow> get (step opr s) = upd_op opr (get s)"
  by (cases opr) (auto simp: get_put get_remove)

lemma inv_run: "inv s \<Longrightarrow> inv (fold step ops s)"
  by (induction ops arbitrary: s) (simp_all add: inv_step)

lemma get_run: "inv s \<Longrightarrow> get (fold step ops s) = fold upd_op ops (get s)"
  by (induction ops arbitrary: s) (simp_all add: inv_step get_step)

lemma get_run_new: "get (fold step ops new) = fold upd_op ops (\<lambda>_. None)"
proof -
  have "get new = (\<lambda>_. None)" by (simp add: fun_eq_iff get_new)
  then show ?thesis by (simp add: get_run inv_new)
qed

lemma get_put_same: "inv s \<Longrightarrow> get (put s k v) k = v"
  by (simp add: get_put)

lemma get_put_other: "inv s \<Longrightarrow> x \<noteq> k \<Longrightarrow> get (put s k v) x = get s x"
  by (simp add: get_put)

lemma put_swap:
  "inv s \<Longrightarrow> k \<noteq> k' \<Longrightarrow> get (put (put s k v) k' v') = get (put (put s k' v') k v)"
  by (auto simp: get_put inv_put fun_eq_iff)

lemma remove_put: "inv s \<Longrightarrow> get s k = None \<Longrightarrow> get (remove (put s k v) k) = get s"
  by (auto simp: get_put get_remove inv_put fun_eq_iff)

end

subsection \<open>The tree is a key store\<close>

interpretation tree: key_store BinaryTreeGetNode "BinaryTreeNewNode True"
  BinaryTreeRemoveNode Nil_node bst
proof unfold_locales
  fix s :: "('a, 'b) bt" and k x v
  assume "bst s"
  then show "bst (BinaryTreeNewNode True s k v)" by (simp add: NewNode_insert bst_insert)
  show "bst (BinaryTreeRemoveNode s k)"
    using \<open>bst s\<close> by (simp add: BinaryTreeRemoveNode_def bst_delete)
  show "BinaryTreeGetNode (BinaryTreeNewNode True s k v) x
      = (if x = k then v else BinaryTreeGetNode s x)"
    by (simp add: NewNode_insert GetNode_lookup lookup_insert)
  show "BinaryTreeGetNode (BinaryTreeRemoveNode s k) x
      = (if x = k then None else BinaryTreeGetNode s x)"
    using \<open>bst s\<close> by (simp add: BinaryTreeRemoveNode_def GetNode_lookup lookup_delete)
qed (simp_all add: GetNode_lookup)

fun tree_op :: "('k::linorder, 'v) store_op \<Rightarrow> ('k, 'v) bt \<Rightarrow> ('k, 'v) bt" where
  "tree_op (Put k v) t = BinaryTreeNewNode True t k v"
| "tree_op (Del k) t = BinaryTreeRemoveNode t k"

lemma tree_op_step: "tree_op = tree.step"
proof (intro ext)
  fix opr :: "('a, 'b) store_op" and t
  show "tree_op opr t = tree.step opr t" by (cases opr) simp_all
qed

text \<open>
  C5: any sequence of insertions and removals run on an empty tree, including the removal
  of a node with two children, whose place the least node of its right side takes, leaves
  a search tree; looking a key up in it gives the datum last stored under the key, or
  NULL if it was removed or never stored.
\<close>

theorem tree_run_is_map:
  "bst (fold tree_op ops Nil_node) \<and>
   BinaryTreeGetNode (fold tree_op ops Nil_node) = fold upd_op ops (\<lambda>_. None)"
  unfolding tree_op_step using tree.inv_run[OF tree.inv_new] tree.get_run_new by blast

end
