(* ===== verification/Vsi_Map.thy ===== *)
theory Vsi_Map
  imports Binary_Tree
begin

text \<open>
  The integer map of \<^verbatim>\<open>src/tim/vx/internal/src/utils/vsi_nn_map.c\<close>: a search tree
  from \<open>int64_t\<close> keys to data pointers beside a linked list of the keys, newest first,
  and a counter. The list of keys is the value of the linked list; pushing a node in
  front of it and unlinking one are the operations that \<open>Link_List.push_start_list\<close> and
  \<open>Link_List.remove_node_list\<close> prove of the pointer code.
\<close>

record 'v vsi_map =
  map_size :: int
  map_keys :: "int list"
  map_values :: "(int, 'v) bt"

definition MapInit :: "'v vsi_map" where
  "MapInit = \<lparr>map_size = 0, map_keys = [], map_values = Nil_node\<rparr>"

definition MapGet :: "'v vsi_map \<Rightarrow> int \<Rightarrow> 'v option" where
  "MapGet m key = BinaryTreeGetNode (map_values m) key"

text \<open>The node of the key list that the search loop stops at, with what surrounds it.\<close>

fun key_search :: "int list \<Rightarrow> int \<Rightarrow> (int list \<times> int list) option" where
  "key_search [] key = None"
| "key_search (k # ks) key =
     (if k = key then Some ([], ks)
      else map_option (\<lambda>(us, vs). (k # us, vs)) (key_search ks key))"

text \<open>
  \<open>tree_ok\<close> and \<open>list_ok\<close> tell whether the allocation of the tree node and of the list
  node succeed.
\<close>

definition MapAdd :: "bool \<Rightarrow> bool \<Rightarrow> 'v vsi_map \<Rightarrow> int \<Rightarrow> 'v option \<Rightarrow> 'v vsi_map" where
  "MapAdd tree_ok list_ok m key value =
     (let m1 = m\<lparr>map_values := BinaryTreeNewNode tree_ok (map_values m) key value\<rparr>
      in case key_search (map_keys m1) key of
           Some _ \<Rightarrow> m1
         | None \<Rightarrow>
             if \<not> list_ok then m1
             else m1\<lparr>map_keys := key # map_keys m1, map_size := map_size m1 + 1\<rparr>)"

definition MapRemove :: "'v vsi_map \<Rightarrow> int \<Rightarrow> 'v vsi_map" where
  "MapRemove m key =
     (let m1 = m\<lparr>map_values := BinaryTreeRemoveNode (map_values m) key\<rparr>
      in case key_search (map_keys m1) key of
           None \<Rightarrow> m1
         | Some (us, vs) \<Rightarrow> m1\<lparr>map_keys := us @ vs, map_size := map_size m1 - 1\<rparr>)"

definition MapHasKey :: "'v vsi_map \<Rightarrow> int \<Rightarrow> bool" where
  "MapHasKey m key = (BinaryTreeGetNode (map_values m) key \<noteq> None)"

subsection \<open>Invariant\<close>

definition map_inv :: "'v vsi_map \<Rightarrow> bool" where
  "map_inv m \<longleftrightarrow> bst (map_values m) \<and> distinct (map_keys m) \<and>
     set (map_keys m) = bt_keys (map_values m) \<and> map_size m = int (length (map_keys m))"

lemma key_search_None [simp]: "key_search ks key = None \<longleftrightarrow> key \<notin> set ks"
  by (induction ks) auto

lemma key_search_Some:
  "key_search ks key = Some (us, vs) \<Longrightarrow> ks = us @ key # vs \<and> key \<notin> set us"
  by (induction ks arbitrary: us) (auto split: if_splits)

lemma key_search_mem: "key \<in> set ks \<Longrightarrow> \<exists>us vs. key_search ks key = Some (us, vs)"
  using key_search_None[of ks key] by (cases "key_search ks key") auto

lemma map_inv_Init: "map_inv MapInit"
  by (simp add: map_inv_def MapInit_def)

lemma Add_present:
  "key \<in> set (map_keys m) \<Longrightarrow>
   MapAdd tree_ok list_ok m key v = m\<lparr>map_values := BinaryTreeNewNode tree_ok (map_values m) key v\<rparr>"
  using key_search_mem[of key "map_keys m"] by (auto simp: MapAdd_def)

lemma Add_absent:
  "key \<notin> set (map_keys m) \<Longrightarrow>
   MapAdd tree_ok list_ok m key v =
     (let m1 = m\<lparr>map_values := BinaryTreeNewNode tree_ok (map_values m) key v\<rparr>
      in if list_ok then m1\<lparr>map_keys := key # map_keys m, map_size := map_size m + 1\<rparr> else m1)"
  by (auto simp: MapAdd_def Let_def split: option.splits simp flip: key_search_None)

lemma Remove_present:
  assumes "key \<in> set (map_keys m)"
  obtains us vs where "map_keys m = us @ key # vs"
    "MapRemove m key = m\<lparr>map_values := BinaryTreeRemoveNode (map_values m) key,
       map_keys := us @ vs, map_size := map_size m - 1\<rparr>"
proof -
  obtain us vs where s: "key_search (map_keys m) key = Some (us, vs)"
    using key_search_mem[OF assms] by blast
  show ?thesis using key_search_Some[OF s] s that by (auto simp: MapRemove_def Let_def)
qed

lemma Remove_absent:
  "key \<notin> set (map_keys m) \<Longrightarrow>
   MapRemove m key = m\<lparr>map_values := BinaryTreeRemoveNode (map_values m) key\<rparr>"
  by (auto simp: MapRemove_def Let_def split: option.splits simp flip: key_search_None)

lemma map_inv_Add: "map_inv m \<Longrightarrow> map_inv (MapAdd True True m key v)"
  by (cases "key \<in> set (map_keys m)")
    (auto simp: map_inv_def Add_present Add_absent Let_def NewNode_insert bst_insert bt_keys_insert)

lemma map_inv_Remove:
  assumes "map_inv m"
  shows "map_inv (MapRemove m key)"
proof (cases "key \<in> set (map_keys m)")
  case True
  then obtain us vs where "map_keys m = us @ key # vs"
    "MapRemove m key = m\<lparr>map_values := BinaryTreeRemoveNode (map_values m) key,
       map_keys := us @ vs, map_size := map_size m - 1\<rparr>"
    by (rule Remove_present)
  with assms show ?thesis
    by (auto simp: map_inv_def BinaryTreeRemoveNode_def bst_delete keys_delete)
next
  case False
  with assms show ?thesis
    by (simp add: map_inv_def Remove_absent BinaryTreeRemoveNode_def bst_delete keys_delete)
qed

lemma Get_Add:
  "MapGet (MapAdd True list_ok m k v) x = (if x = k then v else MapGet m x)"
  by (cases "k \<in> set (map_keys m)")
    (simp_all add: MapGet_def Add_present Add_absent Let_def NewNode_insert GetNode_lookup lookup_insert)

lemma values_Remove: "map_values (MapRemove m k) = BinaryTreeRemoveNode (map_values m) k"
  by (simp add: MapRemove_def Let_def split: option.splits)

lemma Get_Remove:
  "map_inv m \<Longrightarrow> MapGet (MapRemove m k) x = (if x = k then None else MapGet m x)"
  by (simp add: MapGet_def values_Remove BinaryTreeRemoveNode_def GetNode_lookup lookup_delete
      map_inv_def)

interpretation vmap: key_store MapGet "MapAdd True True" MapRemove MapInit map_inv
proof unfold_locales
  show "map_inv (MapInit :: 'a vsi_map)" by (rule map_inv_Init)
  show "MapGet (MapInit :: 'a vsi_map) k = None" for k
    by (simp add: MapGet_def MapInit_def GetNode_lookup)
qed (simp_all add: map_inv_Add map_inv_Remove Get_Add Get_Remove)

fun map_op :: "(int, 'v) store_op \<Rightarrow> 'v vsi_map \<Rightarrow> 'v vsi_map" where
  "map_op (Put k v) m = MapAdd True True m k v"
| "map_op (Del k) m = MapRemove m k"

lemma map_op_step: "map_op = vmap.step"
proof (intro ext)
  fix opr :: "(int, 'a) store_op" and m
  show "map_op opr m = vmap.step opr m" by (cases opr) simp_all
qed

fun live_op :: "('k, 'v) store_op \<Rightarrow> 'k set \<Rightarrow> 'k set" where
  "live_op (Put k v) ks = insert k ks"
| "live_op (Del k) ks = ks - {k}"

lemma keys_Add: "set (map_keys (MapAdd True True m k v)) = insert k (set (map_keys m))"
  by (cases "k \<in> set (map_keys m)") (auto simp: Add_present Add_absent Let_def)

lemma keys_Remove:
  assumes "map_inv m"
  shows "set (map_keys (MapRemove m k)) = set (map_keys m) - {k}"
proof (cases "k \<in> set (map_keys m)")
  case True
  then obtain us vs where "map_keys m = us @ k # vs" "map_keys (MapRemove m k) = us @ vs"
    by (rule Remove_present) simp
  with assms show ?thesis by (auto simp: map_inv_def)
qed (simp add: Remove_absent)

lemma keys_run:
  "map_inv m \<Longrightarrow> set (map_keys (fold map_op ops m)) = fold live_op ops (set (map_keys m))"
proof (induction ops arbitrary: m)
  case (Cons opr ops)
  have "map_inv (map_op opr m)" using Cons.prems by (cases opr) (simp_all add: map_inv_Add map_inv_Remove)
  moreover have "set (map_keys (map_op opr m)) = live_op opr (set (map_keys m))"
    using Cons.prems by (cases opr) (simp_all add: keys_Add keys_Remove)
  ultimately show ?case using Cons.IH by simp
qed simp

text \<open>
  C11: after any sequence of \<open>MapAdd\<close> and \<open>MapRemove\<close> calls on a fresh map, with
  allocations that succeed, the list of keys holds every live key once and is the key
  set of the tree, \<open>size\<close> is their number, and \<open>MapGet\<close> returns the datum last stored.
\<close>

theorem map_run_consistent:
  "map_inv (fold map_op ops MapInit) \<and>
   set (map_keys (fold map_op ops MapInit)) = fold live_op ops {} \<and>
   map_size (fold map_op ops MapInit) = int (card (fold live_op ops {})) \<and>
   MapGet (fold map_op ops MapInit) = fold upd_op ops (\<lambda>_. None)"
proof -
  let ?m = "fold map_op ops MapInit"
  have i: "map_inv ?m" unfolding map_op_step by (rule vmap.inv_run[OF map_inv_Init])
  have k: "set (map_keys ?m) = fold live_op ops {}"
    using keys_run[OF map_inv_Init] by (simp add: MapInit_def)
  have "map_size ?m = int (card (set (map_keys ?m)))"
    using i distinct_card[of "map_keys ?m"] unfolding map_inv_def by metis
  with i k show ?thesis unfolding map_op_step by (simp add: vmap.get_run_new)
qed

text \<open>
  What a failed allocation leaves behind. If the tree node cannot be allocated, a key
  that is not in the map still enters the key list and is counted, but it has no datum;
  if the list node cannot be allocated, the datum can be looked up but the key is in no
  list and is not counted.
\<close>

theorem map_add_out_of_memory:
  assumes "map_inv m" "key \<notin> set (map_keys m)"
  shows "MapGet (MapAdd False True m key v) key = None \<and>
     map_keys (MapAdd False True m key v) = key # map_keys m \<and>
     map_size (MapAdd False True m key v) = map_size m + 1 \<and>
     MapGet (MapAdd True False m key v) key = v \<and>
     map_keys (MapAdd True False m key v) = map_keys m \<and>
     map_size (MapAdd True False m key v) = map_size m"
proof -
  have n: "bt_lookup (map_values m) key = None"
    using assms lookup_notin by (auto simp: map_inv_def)
  show ?thesis using n assms(2)
    by (simp add: MapGet_def Add_absent NewNode_fail NewNode_insert GetNode_lookup lookup_insert)
qed

theorem map_add_out_of_memory_witness:
  "MapGet (MapAdd False True (MapInit :: nat vsi_map) 7 (Some 1)) 7 = None \<and>
   map_keys (MapAdd False True (MapInit :: nat vsi_map) 7 (Some 1)) = [7]"
  using map_add_out_of_memory[OF map_inv_Init, of 7 "Some (1 :: nat)"] by (simp add: MapInit_def)

end
