(* ===== verification/Hashmap.thy ===== *)
theory Hashmap
  imports Binary_Tree Vsi_Prelude "HOL-Library.List_Lexorder" "HOL-Library.Char_ord"
begin

text \<open>
  The string map of \<^verbatim>\<open>src/tim/vx/internal/src/utils/vsi_nn_hashmap.c\<close> (a search tree,
  in spite of its name) beside a linked list of items and a counter. The file has a
  copy of the tree code that compares with \<open>strcmp\<close>; it is modelled as written and proved
  equal to the code of \<open>Binary_Tree\<close> at the lexicographic order of strings. A C string is
  the list of its characters before the terminator. \<open>hash_key\<close> pointers in the tree are
  the strings of the items, which live as long as their nodes.
\<close>

fun strcmp :: "string \<Rightarrow> string \<Rightarrow> int" where
  "strcmp [] [] = 0"
| "strcmp [] (b # bs) = - 1"
| "strcmp (a # as) [] = 1"
| "strcmp (a # as) (b # bs) =
     (if (of_char a :: nat) < of_char b then - 1
      else if (of_char b :: nat) < of_char a then 1
      else strcmp as bs)"

fun hm_del_node_by_key :: "(string, 'v) bt \<Rightarrow> string \<Rightarrow> (string, 'v) bt" where
  "hm_del_node_by_key Nil_node hash_key = Nil_node"
| "hm_del_node_by_key (Bt_node l k d r) hash_key =
     (if strcmp hash_key k < 0 then Bt_node (hm_del_node_by_key l hash_key) k d r
      else if strcmp hash_key k > 0 then Bt_node l k d (hm_del_node_by_key r hash_key)
      else if is_null l then r
      else if is_null r then l
      else (case min_node r of
              None \<Rightarrow> Bt_node l k d r
            | Some (k', d') \<Rightarrow> Bt_node l k' d' (hm_del_node_by_key r k')))"

fun hm_find_loc :: "(string, 'v) bt \<Rightarrow> string \<Rightarrow> dir list option \<times> int" where
  "hm_find_loc Nil_node hash_key = (None, 0)"
| "hm_find_loc (Bt_node l k d r) hash_key =
     (if strcmp k hash_key > 0 then
        (if is_null l then (Some [], - 1)
         else (let (p, v) = hm_find_loc l hash_key in (map_option (Cons Go_left) p, v)))
      else if strcmp k hash_key < 0 then
        (if is_null r then (Some [], 1)
         else (let (p, v) = hm_find_loc r hash_key in (map_option (Cons Go_right) p, v)))
      else (Some [], 0))"

definition hm_tree_remove_node :: "(string, 'v) bt \<Rightarrow> string \<Rightarrow> (string, 'v) bt" where
  "hm_tree_remove_node root hash_key =
     (if is_null root then root else hm_del_node_by_key root hash_key)"

definition hm_tree_new_node ::
  "bool \<Rightarrow> (string, 'v) bt \<Rightarrow> string \<Rightarrow> 'v option \<Rightarrow> (string, 'v) bt" where
  "hm_tree_new_node malloc_ok root hash_key data =
     (let (iter, val) = hm_find_loc root hash_key;
          node = (if malloc_ok then Bt_node Nil_node hash_key data Nil_node else Nil_node)
      in case iter of
           None \<Rightarrow> (if is_null root then node else root)
         | Some p \<Rightarrow>
             if \<not> is_null (node_at root p) \<and> strcmp hash_key (bt_key (node_at root p)) = 0
             then update_at root p (set_data data)
             else if val > 0 then update_at root p (set_right node)
             else if val < 0 then update_at root p (set_left node)
             else root)"

definition hm_tree_get_node :: "(string, 'v) bt \<Rightarrow> string \<Rightarrow> 'v option" where
  "hm_tree_get_node root hash_key =
     (case fst (hm_find_loc root hash_key) of
        None \<Rightarrow> None
      | Some p \<Rightarrow>
          if \<not> is_null (node_at root p) \<and> strcmp hash_key (bt_key (node_at root p)) = 0
          then data_ptr (node_at root p) else None)"

subsection \<open>The map\<close>

text \<open>The counter is a \<^verbatim>\<open>size_t\<close> of 64 bits.\<close>

record 'v hashmap =
  hm_items :: "(string \<times> 'v option) list"
  hm_values :: "(string, 'v) bt"
  hm_size :: "64 word"

definition hashmap_create :: "'v hashmap" where
  "hashmap_create = \<lparr>hm_items = [], hm_values = Nil_node, hm_size = 0\<rparr>"

text \<open>The loop removes each item's key from the tree and unlinks the item.\<close>

fun hashmap_clear_loop ::
  "(string \<times> 'v option) list \<Rightarrow> (string, 'v) bt \<Rightarrow> (string \<times> 'v option) list \<times> (string, 'v) bt" where
  "hashmap_clear_loop [] values = ([], values)"
| "hashmap_clear_loop ((k, _) # items) values =
     hashmap_clear_loop items (hm_tree_remove_node values k)"

definition hashmap_clear :: "'v hashmap \<Rightarrow> 'v hashmap" where
  "hashmap_clear m =
     (let (items, values) = hashmap_clear_loop (hm_items m) (hm_values m)
      in m\<lparr>hm_items := items, hm_values := values\<rparr>)"

definition hashmap_get :: "'v hashmap \<Rightarrow> string \<Rightarrow> 'v option" where
  "hashmap_get m key = hm_tree_get_node (hm_values m) key"

text \<open>The item the search loop stops at, with the items around it.\<close>

fun item_search ::
  "(string \<times> 'v option) list \<Rightarrow> string \<Rightarrow>
   ((string \<times> 'v option) list \<times> string \<times> (string \<times> 'v option) list) option" where
  "item_search [] key = None"
| "item_search ((k, d) # items) key =
     (if strcmp k key = 0 then Some ([], k, items)
      else map_option (\<lambda>(us, k', vs). ((k, d) # us, k', vs)) (item_search items key))"

definition hashmap_add :: "'v hashmap \<Rightarrow> string \<Rightarrow> 'v option \<Rightarrow> 'v hashmap" where
  "hashmap_add m key value =
     (case item_search (hm_items m) key of
        None \<Rightarrow>
          m\<lparr>hm_items := (key, value) # hm_items m, hm_size := hm_size m + 1,
            hm_values := hm_tree_new_node True (hm_values m) key value\<rparr>
      | Some (us, k, vs) \<Rightarrow>
          m\<lparr>hm_items := us @ (k, value) # vs,
            hm_values := hm_tree_new_node True (hm_values m) k value\<rparr>)"

definition hashmap_remove :: "'v hashmap \<Rightarrow> string \<Rightarrow> 'v hashmap" where
  "hashmap_remove m key =
     (let m1 = m\<lparr>hm_values := hm_tree_remove_node (hm_values m) key\<rparr>
      in case item_search (hm_items m1) key of
           None \<Rightarrow> m1
         | Some (us, k, vs) \<Rightarrow> m1\<lparr>hm_items := us @ vs, hm_size := hm_size m1 - 1\<rparr>)"

definition hashmap_has :: "'v hashmap \<Rightarrow> string \<Rightarrow> bool" where
  "hashmap_has m key = (hm_tree_get_node (hm_values m) key \<noteq> None)"

definition hashmap_get_size :: "'v hashmap \<Rightarrow> 64 word" where
  "hashmap_get_size m = hm_size m"

text \<open>
  \<open>iter m item\<close>: the first item for a null \<open>item\<close>, otherwise the item after it; an
  item is its position in the list.
\<close>

definition hashmap_iter :: "'v hashmap \<Rightarrow> nat option \<Rightarrow> nat option" where
  "hashmap_iter m item =
     (let next = (case item of None \<Rightarrow> 0 | Some i \<Rightarrow> Suc i)
      in if next < length (hm_items m) then Some next else None)"

subsection \<open>The tree code is that of the search tree\<close>

lemma strcmp_less: "strcmp a b < 0 \<longleftrightarrow> a < b"
  by (induction a b rule: strcmp.induct) (auto simp: less_char_def)

lemma strcmp_greater: "0 < strcmp a b \<longleftrightarrow> b < a"
  by (induction a b rule: strcmp.induct) (auto simp: less_char_def)

lemma strcmp_zero [simp]: "strcmp a b = 0 \<longleftrightarrow> a = b"
  using strcmp_less[of a b] strcmp_greater[of a b] by (metis less_irrefl linorder_cases)

lemma hm_del_eq: "hm_del_node_by_key t k = del_node_by_key t k"
  by (induction t k rule: del_node_by_key.induct)
    (auto simp: strcmp_less strcmp_greater split: option.splits)

lemma hm_find_loc_eq: "hm_find_loc t k = find_loc t k"
  by (induction t k rule: find_loc.induct) (auto simp: strcmp_less strcmp_greater)

lemma hm_remove_eq: "hm_tree_remove_node = BinaryTreeRemoveNode"
  by (intro ext) (simp add: hm_tree_remove_node_def BinaryTreeRemoveNode_def hm_del_eq is_null_iff)

lemma hm_new_eq: "hm_tree_new_node = BinaryTreeNewNode"
proof (intro ext)
  fix ok :: bool and t :: "(string, 'a) bt" and k v
  show "hm_tree_new_node ok t k v = BinaryTreeNewNode ok t k v"
    using find_loc_None[of t k]
    by (cases "find_loc t k")
      (auto simp: hm_tree_new_node_def BinaryTreeNewNode_def hm_find_loc_eq is_null_iff)
qed

lemma hm_get_eq: "hm_tree_get_node = BinaryTreeGetNode"
  by (intro ext) (simp add: hm_tree_get_node_def BinaryTreeGetNode_def hm_find_loc_eq split: option.splits)

lemmas hm_tree_eqs = hm_remove_eq hm_new_eq hm_get_eq

subsection \<open>Invariant\<close>

text \<open>
  \<open>hm_wf\<close> ties the items to the tree, datum by datum; \<open>hm_inv\<close> adds that the counter is
  their number.
\<close>

definition hm_wf :: "'v hashmap \<Rightarrow> bool" where
  "hm_wf m \<longleftrightarrow> bst (hm_values m) \<and> distinct (map fst (hm_items m)) \<and>
     (\<forall>k. bt_lookup (hm_values m) k = map_of (hm_items m) k)"

definition hm_inv :: "'v hashmap \<Rightarrow> bool" where
  "hm_inv m \<longleftrightarrow> hm_wf m \<and> hm_size m = of_nat (length (hm_items m))"

lemma item_search_None: "item_search items key = None \<longleftrightarrow> key \<notin> fst ` set items"
  by (induction items key rule: item_search.induct) auto

lemma item_search_Some:
  "item_search items key = Some (us, k, vs) \<Longrightarrow>
   k = key \<and> key \<notin> fst ` set us \<and> (\<exists>d. items = us @ (key, d) # vs)"
proof (induction items key arbitrary: us rule: item_search.induct)
  case (2 k' d items key)
  show ?case
  proof (cases "k' = key")
    case False
    with 2(2) obtain us' where us: "us = (k', d) # us'" "item_search items key = Some (us', k, vs)"
      by auto
    with 2(1)[of us'] False show ?thesis by simp
  qed (use 2(2) in simp)
qed simp

lemma map_of_split:
  "key \<notin> fst ` set us \<Longrightarrow>
   map_of (us @ (key, v) # vs) k = (if k = key then Some v else map_of (us @ vs) k)"
  by (induction us) auto

lemma item_search_cases:
  obtains (absent) "item_search items key = None" "key \<notin> fst ` set items"
    | (found) us d vs where "item_search items key = Some (us, key, vs)"
        "items = us @ (key, d) # vs" "key \<notin> fst ` set us"
proof (cases "item_search items key")
  case None
  then show ?thesis using absent by (simp add: item_search_None)
next
  case (Some t)
  then obtain us k vs where "item_search items key = Some (us, k, vs)" by (cases t) simp
  then show ?thesis using item_search_Some[of items key us k vs] found by blast
qed

lemma get_items: "hm_wf m \<Longrightarrow> hashmap_get m k = (case map_of (hm_items m) k of None \<Rightarrow> None | Some d \<Rightarrow> d)"
  by (simp add: hm_wf_def hashmap_get_def hm_tree_eqs GetNode_lookup)

lemma hm_inv_create: "hm_inv hashmap_create"
  by (simp add: hm_inv_def hm_wf_def hashmap_create_def)

lemma hm_wf_add: "hm_wf m \<Longrightarrow> hm_wf (hashmap_add m key v)"
  by (rule item_search_cases[of "hm_items m" key])
    (auto simp: hm_wf_def hashmap_add_def hm_tree_eqs NewNode_insert bst_insert lookup_insert
      map_of_split simp del: map_of_append)

lemma hm_inv_wf: "hm_inv m \<Longrightarrow> hm_wf m"
  by (simp add: hm_inv_def)

lemma hm_inv_add: "hm_inv m \<Longrightarrow> hm_inv (hashmap_add m key v)"
  by (rule item_search_cases[of "hm_items m" key])
    (use hm_wf_add[of m key v] in \<open>auto simp: hm_inv_def hashmap_add_def\<close>)

lemma map_of_removed:
  "key \<notin> fst ` set us \<Longrightarrow> key \<notin> fst ` set vs \<Longrightarrow> map_of (us @ vs) key = None"
  by (metis Un_iff image_Un map_of_eq_None_iff set_append)

lemma hm_wf_remove: "hm_wf m \<Longrightarrow> hm_wf (hashmap_remove m key)"
  by (rule item_search_cases[of "hm_items m" key])
    (auto simp: hm_wf_def hashmap_remove_def Let_def hm_tree_eqs BinaryTreeRemoveNode_def bst_delete
      lookup_delete map_of_split map_of_removed map_of_eq_None_iff[symmetric] simp del: map_of_append)

lemma hm_inv_remove: "hm_inv m \<Longrightarrow> hm_inv (hashmap_remove m key)"
  by (rule item_search_cases[of "hm_items m" key])
    (use hm_wf_remove[of m key] in \<open>auto simp: hm_inv_def hashmap_remove_def Let_def\<close>)

lemma get_add: "hm_wf m \<Longrightarrow> hashmap_get (hashmap_add m k v) x = (if x = k then v else hashmap_get m x)"
  by (rule item_search_cases[of "hm_items m" k])
    (auto simp: hashmap_get_def hashmap_add_def hm_tree_eqs NewNode_insert GetNode_lookup lookup_insert)

lemma hm_values_remove: "hm_values (hashmap_remove m k) = BinaryTreeRemoveNode (hm_values m) k"
  by (simp add: hashmap_remove_def Let_def hm_tree_eqs split: option.splits)

lemma get_remove:
  "hm_wf m \<Longrightarrow> hashmap_get (hashmap_remove m k) x = (if x = k then None else hashmap_get m x)"
  by (simp add: hashmap_get_def hm_values_remove hm_tree_eqs BinaryTreeRemoveNode_def GetNode_lookup
      lookup_delete hm_wf_def)

interpretation smap: key_store hashmap_get hashmap_add hashmap_remove hashmap_create hm_inv
proof unfold_locales
  show "hm_inv (hashmap_create :: 'a hashmap)" by (rule hm_inv_create)
  show "hashmap_get (hashmap_create :: 'a hashmap) k = None" for k
    by (simp add: hashmap_get_def hashmap_create_def hm_tree_eqs GetNode_lookup)
qed (simp_all add: hm_inv_add hm_inv_remove get_add get_remove hm_inv_wf)

fun hashmap_op :: "(string, 'v) store_op \<Rightarrow> 'v hashmap \<Rightarrow> 'v hashmap" where
  "hashmap_op (Put k v) m = hashmap_add m k v"
| "hashmap_op (Del k) m = hashmap_remove m k"

lemma hashmap_op_step: "hashmap_op = smap.step"
proof (intro ext)
  fix opr :: "(string, 'a) store_op" and m
  show "hashmap_op opr m = smap.step opr m" by (cases opr) simp_all
qed

text \<open>Walking the items with the iterator, \<open>n\<close> steps from \<open>item\<close>.\<close>

fun iterate_items :: "'v hashmap \<Rightarrow> nat \<Rightarrow> nat option \<Rightarrow> (string \<times> 'v option) list" where
  "iterate_items m 0 item = []"
| "iterate_items m (Suc n) item =
     (case hashmap_iter m item of
        None \<Rightarrow> []
      | Some i \<Rightarrow> hm_items m ! i # iterate_items m n (Some i))"

lemma iterate_from:
  "length (hm_items m) \<le> i + n \<Longrightarrow> iterate_items m n (Some i) = drop (Suc i) (hm_items m)"
proof (induction n arbitrary: i)
  case (Suc n)
  show ?case
  proof (cases "Suc i < length (hm_items m)")
    case True
    then show ?thesis using Suc.IH[of "Suc i"] Suc.prems
      by (simp add: hashmap_iter_def Cons_nth_drop_Suc)
  qed (simp add: hashmap_iter_def)
qed simp

lemma iterate_all: "length (hm_items m) \<le> n \<Longrightarrow> iterate_items m (Suc n) None = hm_items m"
  using iterate_from[of m 0 n] by (cases "hm_items m") (simp_all add: hashmap_iter_def)

text \<open>
  The contents of a map: the keys it holds, each with the datum stored last, which may be NULL.
\<close>

fun entry_op :: "(string, 'v) store_op \<Rightarrow> (string \<rightharpoonup> 'v option) \<Rightarrow> string \<rightharpoonup> 'v option" where
  "entry_op (Put k v) c = c(k \<mapsto> v)"
| "entry_op (Del k) c = c(k := None)"

lemma map_of_items_add: "map_of (hm_items (hashmap_add m k v)) = (map_of (hm_items m))(k \<mapsto> v)"
  by (rule item_search_cases[of "hm_items m" k])
    (auto simp: hashmap_add_def map_of_split fun_eq_iff simp del: map_of_append)

lemma map_of_items_remove:
  "distinct (map fst (hm_items m)) \<Longrightarrow> map_of (hm_items (hashmap_remove m k)) = (map_of (hm_items m))(k := None)"
  by (rule item_search_cases[of "hm_items m" k])
    (auto simp: hashmap_remove_def Let_def map_of_split map_of_removed fun_eq_iff
      map_of_eq_None_iff[symmetric] simp del: map_of_append)

lemma items_op: "hm_wf m \<Longrightarrow> map_of (hm_items (hashmap_op opr m)) = entry_op opr (map_of (hm_items m))"
  by (cases opr) (simp_all add: map_of_items_add map_of_items_remove hm_wf_def)

lemma items_run: "hm_inv m \<Longrightarrow> map_of (hm_items (fold hashmap_op ops m)) = fold entry_op ops (map_of (hm_items m))"
proof (induction ops arbitrary: m)
  case (Cons opr ops)
  have "hm_inv (hashmap_op opr m)" using Cons.prems by (cases opr) (simp_all add: hm_inv_add hm_inv_remove)
  then show ?case using Cons.IH items_op[OF hm_inv_wf[OF Cons.prems]] by simp
qed simp

text \<open>
  C12: any sequence of additions and removals on a fresh hash map leaves exactly the entries of
  its contents: \<open>get\<close> returns the datum last stored under a string, \<open>has\<close> tells whether it is one
  that is not NULL, \<open>size\<close> is the number of keys (on 64 bits), and the iterator visits every key
  that was added and not removed, also one stored with NULL, exactly once, with its datum, and
  then ends.
\<close>

theorem hashmap_run_consistent:
  "let m = fold hashmap_op ops hashmap_create;
       c = fold entry_op ops Map.empty;
       seen = iterate_items m (Suc (card (dom c))) None
   in hashmap_get m = (\<lambda>k. Option.bind (c k) id) \<and> hashmap_has m = (\<lambda>k. Option.bind (c k) id \<noteq> None) \<and>
      hashmap_get_size m = of_nat (card (dom c)) \<and>
      length seen = card (dom c) \<and> distinct (map fst seen) \<and> set seen = {(k, d). c k = Some d}"
proof -
  define m :: "'a hashmap" where "m = fold hashmap_op ops hashmap_create"
  let ?c = "fold entry_op ops Map.empty" and ?n = "length (hm_items m)"
  have i: "hm_inv m" unfolding m_def hashmap_op_step by (rule smap.inv_run[OF hm_inv_create])
  then have w: "hm_wf m" and l: "hashmap_get_size m = of_nat ?n"
    by (simp_all add: hm_inv_def hashmap_get_size_def)
  have c: "map_of (hm_items m) = ?c"
    unfolding m_def items_run[OF hm_inv_create] by (simp add: hashmap_create_def)
  have d: "distinct (map fst (hm_items m))" using w by (simp add: hm_wf_def)
  have n: "card (dom ?c) = ?n" using distinct_card[OF d] by (simp add: dom_map_of_conv_image_fst flip: c)
  have g: "hashmap_get m = (\<lambda>k. Option.bind (?c k) id)"
    using get_items[OF w] by (auto simp: fun_eq_iff c split: option.splits)
  then have h: "hashmap_has m = (\<lambda>k. Option.bind (?c k) id \<noteq> None)"
    by (simp add: hashmap_has_def hashmap_get_def fun_eq_iff)
  have "set (hm_items m) = {(k, d). ?c k = Some d}"
    using map_of_eq_Some_iff[OF d] by (auto simp flip: c)
  then show ?thesis
    unfolding m_def[symmetric] Let_def n iterate_all[OF order_refl] using g h l d by simp
qed

subsection \<open>Clearing\<close>

lemma clear_loop_items: "fst (hashmap_clear_loop items t) = []"
  by (induction items t rule: hashmap_clear_loop.induct) simp_all

lemma clear_loop_tree:
  "bst t \<Longrightarrow> bst (snd (hashmap_clear_loop items t)) \<and>
   (\<forall>k. bt_lookup (snd (hashmap_clear_loop items t)) k =
     (if k \<in> fst ` set items then None else bt_lookup t k))"
  by (induction items t rule: hashmap_clear_loop.induct)
    (auto simp: hm_tree_eqs BinaryTreeRemoveNode_def bst_delete lookup_delete)

lemma clear_fields:
  "hm_items (hashmap_clear m) = []" "hm_size (hashmap_clear m) = hm_size m"
  "hm_values (hashmap_clear m) = snd (hashmap_clear_loop (hm_items m) (hm_values m))"
  using clear_loop_items[of "hm_items m" "hm_values m"]
  by (auto simp: hashmap_clear_def split: prod.splits)

lemma bt_empty: "bst t \<Longrightarrow> (\<And>k. bt_lookup t k = None) \<Longrightarrow> t = Nil_node"
  by (cases t) (simp, metis bt_lookup.simps(2) less_irrefl option.distinct(1))

lemma clear_values: "hm_wf m \<Longrightarrow> hm_values (hashmap_clear m) = Nil_node"
  using clear_loop_tree[of "hm_values m" "hm_items m"]
  by (intro bt_empty) (auto simp: clear_fields hm_wf_def map_of_eq_None_iff)

text \<open>
  \<open>vsi_nn_hashmap_clear\<close> empties the item list and the tree, so that every lookup then
  gives NULL, but it leaves the counter: \<open>vsi_nn_hashmap_get_size\<close> still reports the old
  number of items.
\<close>

theorem hashmap_clear_keeps_size:
  assumes "hm_inv m"
  shows "hm_items (hashmap_clear m) = [] \<and> hm_values (hashmap_clear m) = Nil_node \<and>
    \<not> hashmap_has (hashmap_clear m) k \<and>
    hashmap_get_size (hashmap_clear m) = of_nat (length (hm_items m))"
  using assms clear_values[of m]
  by (simp add: clear_fields hm_inv_def hashmap_has_def hm_tree_eqs GetNode_lookup hashmap_get_size_def)

definition scale_map :: "nat hashmap" where
  "scale_map = \<lparr>hm_items = [(''scale'', Some 3)],
     hm_values = Bt_node Nil_node ''scale'' (Some 3) Nil_node, hm_size = 1\<rparr>"

lemma scale_map_inv: "hm_inv scale_map"
  by (simp add: hm_inv_def hm_wf_def scale_map_def not_less_iff_gr_or_eq)

theorem hashmap_clear_keeps_size_witness:
  "hm_items (hashmap_clear scale_map) = [] \<and> hashmap_get_size (hashmap_clear scale_map) = 1"
  using hashmap_clear_keeps_size[OF scale_map_inv] by (simp add: scale_map_def)

end
