(* ===== verification/Graph.thy ===== *)
theory Graph
  imports Vsi_Map
begin

text \<open>
  The graph object of \<^verbatim>\<open>src/tim/vx/internal/src/vsi_nn_graph.c\<close>, with the node
  operations of \<^verbatim>\<open>vsi_nn_node.c\<close> and the tensor relevance table of
  \<^verbatim>\<open>vsi_nn_tensor.c\<close>: the tables of tensors and nodes, the identifiers they hand out,
  and the queries over the edges between nodes.

  A pointer to a tensor or a node is a \<open>ptr\<close>; the tables are maps from identifiers to
  pointers, and \<open>g_tensors\<close>, \<open>g_nodes\<close> give what is stored behind a pointer. In the C
  struct \<open>cur_tid\<close> and \<open>tensor_num\<close> are the same word (a union), and so are \<open>cur_nid\<close> and
  \<open>node_num\<close>; the record has one field for each pair. \<open>g_ext\<close> stands for the state of
  the operations and of the driver. The result \<open>None\<close> of an operation is an access out
  of the bounds of an array.
\<close>

type_synonym ptr = nat
type_synonym tensor_id = uint32
type_synonym node_id = uint32

definition TENSOR_ID_NA :: uint32 where "TENSOR_ID_NA = - 1"
definition TENSOR_ID_AUTO :: uint32 where "TENSOR_ID_AUTO = TENSOR_ID_NA - 1"
definition NODE_ID_NA :: uint32 where "NODE_ID_NA = - 1"
definition MAX_IO_NUM :: uint32 where "MAX_IO_NUM = 32"

lemmas id_consts = TENSOR_ID_NA_def TENSOR_ID_AUTO_def NODE_ID_NA_def MAX_IO_NUM_def
  VSI_SUCCESS_def VSI_FAILURE_def

record tensor_attr =
  attr_size :: "vsi_size_t list"
  attr_dim_num :: uint32
  attr_vtl :: bool
  attr_is_const :: bool
  attr_vx_type :: int
  attr_qnt_type :: int
  attr_zero_point :: "32 word"
  attr_from_handle :: bool

record vtensor =
  t_attr :: tensor_attr
  t_vx :: "ptr option"
  t_swapped :: bool

record vnode =
  n_op :: int
  n_inputs :: "tensor_id list"
  n_outputs :: "tensor_id list"
  n_uid :: uint32

record 's graph =
  tensor_table :: "ptr vsi_map"
  node_table :: "ptr vsi_map"
  tensor_num :: uint32
  node_num :: uint32
  g_tensors :: "ptr \<Rightarrow> vtensor"
  g_nodes :: "ptr \<Rightarrow> vnode"
  g_inputs :: "tensor_id list"
  g_input_num :: uint32
  g_outputs :: "tensor_id list"
  g_output_num :: uint32
  max_node_io :: uint32
  g_version :: "uint32 \<times> uint32 \<times> uint32"
  g_ext :: 's

text \<open>The identifiers \<open>0, ..., n - 1\<close> a counting loop runs through.\<close>

definition ids_below :: "uint32 \<Rightarrow> uint32 list" where
  "ids_below n = map of_nat [0..<unat n]"

definition CreateGraph :: "(ptr \<Rightarrow> vtensor) \<Rightarrow> (ptr \<Rightarrow> vnode) \<Rightarrow> 's \<Rightarrow> 's graph" where
  "CreateGraph th nh s =
     \<lparr>tensor_table = MapInit, node_table = MapInit, tensor_num = 0, node_num = 0,
      g_tensors = th, g_nodes = nh, g_inputs = [], g_input_num = 0, g_outputs = [], g_output_num = 0, max_node_io = 0,
      g_version = (0, 0, 0), g_ext = s\<rparr>"

definition GetTensor :: "'s graph \<Rightarrow> tensor_id \<Rightarrow> ptr option" where
  "GetTensor g tid = MapGet (tensor_table g) (uint tid)"

definition GetNode :: "'s graph \<Rightarrow> node_id \<Rightarrow> ptr option" where
  "GetNode g nid = MapGet (node_table g) (uint nid)"

definition SetGraphVersion :: "'s graph \<Rightarrow> uint32 \<Rightarrow> uint32 \<Rightarrow> uint32 \<Rightarrow> 's graph" where
  "SetGraphVersion g major minor patch = g\<lparr>g_version := (major, minor, patch)\<rparr>"

definition GetGraphVersion :: "'s graph \<Rightarrow> uint32 \<times> uint32 \<times> uint32" where
  "GetGraphVersion g = g_version g"

subsection \<open>Tensors\<close>

text \<open>
  The four ways \<open>_add_tensor\<close> creates a tensor. The creation itself is driver work: the
  argument \<open>create\<close> gives the new tensor and its address, or \<open>None\<close> where it fails.
\<close>

datatype create_kind = From_Handle | From_Data | From_AXISRAM | Plain

type_synonym create_fn =
  "create_kind \<Rightarrow> tensor_attr \<Rightarrow> uint8 list option \<Rightarrow> (ptr \<times> vtensor) option"

definition TYPE_VDATA :: int where "TYPE_VDATA = 257"

definition add_tensor ::
  "create_fn \<Rightarrow> 's graph \<Rightarrow> tensor_id \<Rightarrow> tensor_attr \<Rightarrow> uint8 list option \<Rightarrow> bool
   \<Rightarrow> 's graph \<times> tensor_id" where
  "add_tensor create g tid attr data is_from_axisram =
     (let tid = (if tid = TENSOR_ID_AUTO then tensor_num g else tid);
          tensor =
            (if attr_from_handle attr then create From_Handle attr data
             else if attr_vx_type attr = TYPE_VDATA then None
             else if data \<noteq> None then
               (if is_from_axisram then None else create From_Data attr data)
             else if is_from_axisram then create From_AXISRAM attr None
             else create Plain attr None)
      in case tensor of
           Some (p, t) \<Rightarrow>
             (g\<lparr>tensor_table := MapAdd True True (tensor_table g) (uint tid) (Some p),
                g_tensors := (g_tensors g)(p := t), tensor_num := tensor_num g + 1\<rparr>, tid)
         | None \<Rightarrow> (g, TENSOR_ID_NA))"

definition AddTensor ::
  "create_fn \<Rightarrow> 's graph \<Rightarrow> tensor_id \<Rightarrow> tensor_attr \<Rightarrow> uint8 list option
   \<Rightarrow> 's graph \<times> tensor_id" where
  "AddTensor create g tid attr data =
     add_tensor create g tid (attr\<lparr>attr_from_handle := False\<rparr>) data False"

definition AddTensorFromHandle ::
  "create_fn \<Rightarrow> 's graph \<Rightarrow> tensor_id \<Rightarrow> tensor_attr \<Rightarrow> uint8 list option
   \<Rightarrow> 's graph \<times> tensor_id" where
  "AddTensorFromHandle create g tid attr data =
     add_tensor create g tid (attr\<lparr>attr_from_handle := True\<rparr>) data False"

definition AddTensorFromAXISRAM ::
  "create_fn \<Rightarrow> 's graph \<Rightarrow> tensor_id \<Rightarrow> tensor_attr \<Rightarrow> 's graph \<times> tensor_id" where
  "AddTensorFromAXISRAM create g tid attr = add_tensor create g tid attr None True"

text \<open>
  \<open>attr.size[i] = end[i] - start[i]\<close> for the dimensions of the parent; \<open>None\<close> where an
  array is too short.
\<close>

fun view_sizes ::
  "nat \<Rightarrow> nat \<Rightarrow> vsi_size_t list \<Rightarrow> vsi_size_t list \<Rightarrow> vsi_size_t list \<Rightarrow> vsi_size_t list option" where
  "view_sizes i 0 start end sz = Some sz"
| "view_sizes i (Suc n) start end sz = do {
     e \<leftarrow> rd end i;
     s \<leftarrow> rd start i;
     sz' \<leftarrow> wr sz i (e - s);
     view_sizes (Suc i) n start end sz' }"

text \<open>\<open>view\<close> is the driver's view tensor of the parent, \<open>None\<close> where it cannot be created.\<close>

definition AddTensorFromView ::
  "create_fn \<Rightarrow> ptr option \<Rightarrow> 's graph \<Rightarrow> tensor_id \<Rightarrow> vsi_size_t list \<Rightarrow> vsi_size_t list
   \<Rightarrow> ('s graph \<times> tensor_id) option" where
  "AddTensorFromView create view g parent_id start end =
     (case GetTensor g parent_id of
        None \<Rightarrow> Some (g, TENSOR_ID_NA)
      | Some parent \<Rightarrow> do {
          let attr = t_attr (g_tensors g parent);
          sz \<leftarrow> view_sizes 0 (unat (attr_dim_num attr)) start end (attr_size attr);
          let (g1, tid) = add_tensor create g TENSOR_ID_AUTO (attr\<lparr>attr_size := sz\<rparr>) None False;
          Some (if tid = TENSOR_ID_NA then (g1, tid)
                else case GetTensor g1 tid of
                  None \<Rightarrow> (g1, TENSOR_ID_NA)
                | Some p \<Rightarrow>
                    if t_vx (g_tensors g1 p) = None then (g1, TENSOR_ID_NA)
                    else (g1\<lparr>g_tensors := (g_tensors g1)(p := (g_tensors g1 p)\<lparr>t_vx := view\<rparr>)\<rparr>,
                          if view = None then TENSOR_ID_NA else tid)) })"

definition AttachTensorToGraph :: "'s graph \<Rightarrow> tensor_id \<Rightarrow> ptr \<Rightarrow> 's graph \<times> tensor_id" where
  "AttachTensorToGraph g tid tensor =
     (let tid = (if tid = TENSOR_ID_AUTO then tensor_num g else tid)
      in (g\<lparr>tensor_num := tensor_num g + 1,
            tensor_table := MapAdd True True (tensor_table g) (uint tid) (Some tensor)\<rparr>, tid))"

definition RemoveTensor :: "'s graph \<Rightarrow> tensor_id \<Rightarrow> 's graph" where
  "RemoveTensor g tid =
     (case GetTensor g tid of
        None \<Rightarrow> g
      | Some _ \<Rightarrow> g\<lparr>tensor_table := MapRemove (tensor_table g) (uint tid)\<rparr>)"

text \<open>
  \<open>GetTensors\<close> fills the caller's buffer. It clears \<open>num\<close> entries of the buffer before
  \<open>num\<close> is cut down to \<open>max_node_io\<close>.
\<close>

definition clear_prefix :: "nat \<Rightarrow> 'a option list \<Rightarrow> 'a option list option" where
  "clear_prefix n buf = (if n \<le> length buf then Some (replicate n None @ drop n buf) else None)"

fun get_tensors_loop ::
  "'s graph \<Rightarrow> nat \<Rightarrow> nat \<Rightarrow> tensor_id list \<Rightarrow> ptr option list \<Rightarrow> ptr option list option" where
  "get_tensors_loop g i 0 ids buf = Some buf"
| "get_tensors_loop g i (Suc n) ids buf = do {
     tid \<leftarrow> rd ids i;
     if tid = TENSOR_ID_NA \<or> \<not> tid < tensor_num g then get_tensors_loop g (Suc i) n ids buf
     else do {
       buf' \<leftarrow> wr buf i (GetTensor g tid);
       get_tensors_loop g (Suc i) n ids buf' } }"

definition GetTensors ::
  "'s graph \<Rightarrow> tensor_id list \<Rightarrow> uint32 \<Rightarrow> ptr option list \<Rightarrow> ptr option list option" where
  "GetTensors g ids num buf = do {
     buf1 \<leftarrow> clear_prefix (unat num) buf;
     get_tensors_loop g 0 (unat (if num > max_node_io g then max_node_io g else num)) ids buf1 }"

subsection \<open>Nodes\<close>

text \<open>
  A new node has the identifier \<open>TENSOR_ID_NA\<close> in every slot. \<open>new\<close> is the address and
  the operation's own initialisation of the node, \<open>None\<close> where the operation is unknown or
  an allocation fails; \<open>io_num\<close> is the operation's default number of inputs and outputs.
\<close>

definition NewNode ::
  "(ptr \<times> vnode) option \<Rightarrow> uint32 \<times> uint32 \<Rightarrow> int \<Rightarrow> uint32 \<Rightarrow> uint32 \<Rightarrow> (ptr \<times> vnode) option" where
  "NewNode new io_num op input_num output_num =
     (case new of
        None \<Rightarrow> None
      | Some (p, n) \<Rightarrow>
          let (ni, no) = (if input_num = 0 \<and> output_num = 0 then io_num else (input_num, output_num))
          in Some (p, n\<lparr>n_op := op, n_outputs := replicate (unat no) TENSOR_ID_NA,
                        n_inputs := replicate (unat ni) TENSOR_ID_NA, n_uid := - 1\<rparr>))"

definition AddNode ::
  "(ptr \<times> vnode) option \<Rightarrow> uint32 \<times> uint32 \<Rightarrow> 's graph \<Rightarrow> int \<Rightarrow> uint32 \<Rightarrow> uint32
   \<Rightarrow> 's graph \<times> ptr option \<times> node_id" where
  "AddNode new io_num g op input_num output_num =
     (let nid = node_num g
      in case NewNode new io_num op input_num output_num of
           Some (p, n) \<Rightarrow>
             (g\<lparr>node_table := MapAdd True True (node_table g) (uint nid) (Some p),
                g_nodes := (g_nodes g)(p := n), node_num := node_num g + 1\<rparr>, Some p, nid)
         | None \<Rightarrow> (g, None, NODE_ID_NA))"

definition AppendNode ::
  "(ptr \<times> vnode) option \<Rightarrow> uint32 \<times> uint32 \<Rightarrow> 's graph \<Rightarrow> int \<Rightarrow> 's graph \<times> ptr option \<times> node_id" where
  "AppendNode new io_num g op = AddNode new io_num g op 0 0"

text \<open>
  An external node takes its numbers of inputs and outputs from its \<open>proc\<close> table and is
  zero otherwise. \<open>mem\<close> is its address where every allocation succeeds.
\<close>

definition AddExternalNode ::
  "ptr option \<Rightarrow> uint32 \<times> uint32 \<Rightarrow> 's graph \<Rightarrow> int \<Rightarrow> 's graph \<times> ptr option" where
  "AddExternalNode mem proc_io g op =
     (case mem of
        None \<Rightarrow> (g, None)
      | Some p \<Rightarrow>
          (g\<lparr>node_table := MapAdd True True (node_table g) (uint (node_num g)) (Some p),
             g_nodes := (g_nodes g)(p :=
               \<lparr>n_op = op, n_inputs = replicate (unat (fst proc_io)) TENSOR_ID_NA,
                n_outputs = replicate (unat (snd proc_io)) TENSOR_ID_NA, n_uid = 0\<rparr>),
             node_num := node_num g + 1\<rparr>, Some p))"

definition RemoveNode :: "'s graph \<Rightarrow> node_id \<Rightarrow> 's graph" where
  "RemoveNode g nid =
     (case GetNode g nid of
        None \<Rightarrow> g
      | Some _ \<Rightarrow> g\<lparr>node_table := MapRemove (node_table g) (uint nid)\<rparr>)"

text \<open>
  The list of the graph's inputs is a fresh block: \<open>mem\<close> is the block \<open>malloc\<close> returns,
  with what is in it, or \<open>None\<close>. A null \<open>tensors_id\<close> leaves the block as it is. When
  the allocation fails the pointer is null (no entry can be read) but the old number stays.
\<close>

definition set_id_block ::
  "tensor_id list option \<Rightarrow> tensor_id list option \<Rightarrow> uint32 \<Rightarrow> tensor_id list" where
  "set_id_block mem tensors_id num =
     (case mem of
        None \<Rightarrow> []
      | Some blk \<Rightarrow> (case tensors_id of None \<Rightarrow> blk | Some xs \<Rightarrow> take (unat num) xs))"

definition SetGraphInputs ::
  "tensor_id list option \<Rightarrow> 's graph \<Rightarrow> tensor_id list option \<Rightarrow> uint32 \<Rightarrow> bool \<times> 's graph" where
  "SetGraphInputs mem g tensors_id num =
     (if num = 0 then (True, g)
      else (mem \<noteq> None,
            g\<lparr>g_inputs := set_id_block mem tensors_id num,
              g_input_num := (if mem = None then g_input_num g else num)\<rparr>))"

definition SetGraphOutputs ::
  "tensor_id list option \<Rightarrow> 's graph \<Rightarrow> tensor_id list option \<Rightarrow> uint32 \<Rightarrow> bool \<times> 's graph" where
  "SetGraphOutputs mem g tensors_id num =
     (if num = 0 then (False, g)
      else (mem \<noteq> None,
            g\<lparr>g_outputs := set_id_block mem tensors_id num,
              g_output_num := (if mem = None then g_output_num g else num)\<rparr>))"

subsection \<open>Queries\<close>

text \<open>
  The loops over the nodes. Behind an identifier is a node or \<open>None\<close> (it was removed);
  \<open>get_tensor_consumers\<close> stops at the first missing node.
\<close>

definition node_at_id :: "'s graph \<Rightarrow> node_id \<Rightarrow> vnode option" where
  "node_at_id g nid = map_option (g_nodes g) (GetNode g nid)"

fun max_io_loop :: "'s graph \<Rightarrow> node_id list \<Rightarrow> uint32 \<Rightarrow> uint32" where
  "max_io_loop g [] max_io = max_io"
| "max_io_loop g (nid # nids) max_io =
     (case node_at_id g nid of
        None \<Rightarrow> max_io_loop g nids max_io
      | Some n \<Rightarrow>
          let m1 = (if of_nat (length (n_inputs n)) > max_io then of_nat (length (n_inputs n)) else max_io);
              m2 = (if of_nat (length (n_outputs n)) > m1 then of_nat (length (n_outputs n)) else m1)
          in max_io_loop g nids m2)"

definition update_max_node_io :: "'s graph \<Rightarrow> node_id list \<Rightarrow> vsi_status \<times> 's graph" where
  "update_max_node_io g node_list =
     (VSI_SUCCESS, g\<lparr>max_node_io := max_io_loop g node_list MAX_IO_NUM\<rparr>)"

fun consumers_loop :: "'s graph \<Rightarrow> tensor_id \<Rightarrow> node_id list \<Rightarrow> ptr list" where
  "consumers_loop g t [] = []"
| "consumers_loop g t (nid # nids) =
     (case GetNode g nid of
        None \<Rightarrow> []
      | Some p \<Rightarrow>
          if t \<in> set (n_inputs (g_nodes g p)) then p # consumers_loop g t nids
          else consumers_loop g t nids)"

definition get_tensor_consumers :: "'s graph \<Rightarrow> tensor_id \<Rightarrow> ptr list \<times> uint32" where
  "get_tensor_consumers g t =
     (let ps = consumers_loop g t (ids_below (node_num g)) in (ps, of_nat (length ps)))"

fun provider_loop :: "'s graph \<Rightarrow> tensor_id \<Rightarrow> node_id list \<Rightarrow> ptr option" where
  "provider_loop g t [] = None"
| "provider_loop g t (nid # nids) =
     (case GetNode g nid of
        None \<Rightarrow> None
      | Some p \<Rightarrow>
          if t \<in> set (n_outputs (g_nodes g p)) then Some p else provider_loop g t nids)"

definition get_tensor_provider :: "'s graph \<Rightarrow> tensor_id \<Rightarrow> ptr option" where
  "get_tensor_provider g t = provider_loop g t (ids_below (node_num g))"

fun tensor_id_loop :: "'s graph \<Rightarrow> ptr \<Rightarrow> tensor_id list \<Rightarrow> tensor_id" where
  "tensor_id_loop g tensor [] = TENSOR_ID_NA"
| "tensor_id_loop g tensor (i # is) =
     (if GetTensor g i = Some tensor then i else tensor_id_loop g tensor is)"

definition get_tensor_id :: "'s graph \<Rightarrow> ptr option \<Rightarrow> tensor_id" where
  "get_tensor_id g tensor =
     (case tensor of
        None \<Rightarrow> TENSOR_ID_NA
      | Some p \<Rightarrow> tensor_id_loop g p (ids_below (tensor_num g)))"

fun find_uid :: "'s graph \<Rightarrow> uint32 \<Rightarrow> node_id list \<Rightarrow> node_id option" where
  "find_uid g u [] = None"
| "find_uid g u (j # js) =
     (case node_at_id g j of
        None \<Rightarrow> find_uid g u js
      | Some n \<Rightarrow> if u = n_uid n then Some j else find_uid g u js)"

fun uids_loop :: "'s graph \<Rightarrow> uint32 list \<Rightarrow> nat \<Rightarrow> node_id list \<Rightarrow> (nat \<times> node_id list) option" where
  "uids_loop g [] sz nodes = Some (sz, nodes)"
| "uids_loop g (u # us) sz nodes =
     (case find_uid g u (ids_below (node_num g)) of
        None \<Rightarrow> uids_loop g us sz nodes
      | Some j \<Rightarrow> do { nodes' \<leftarrow> wr nodes sz j; uids_loop g us (sz + 1) nodes' })"

fun fill_ids :: "node_id list \<Rightarrow> nat \<Rightarrow> node_id list \<Rightarrow> node_id list option" where
  "fill_ids [] j nodes = Some nodes"
| "fill_ids (n # ns) j nodes = do { nodes' \<leftarrow> wr nodes j n; fill_ids ns (Suc j) nodes' }"

definition GetNodesByUids ::
  "'s graph \<Rightarrow> uint32 list option \<Rightarrow> node_id list \<Rightarrow> uint32 \<Rightarrow> (nat \<times> node_id list) option" where
  "GetNodesByUids g node_uids nodes nodes_num =
     (if nodes_num = 0 then Some (0, nodes)
      else case node_uids of
        Some us \<Rightarrow> uids_loop g us 0 nodes
      | None \<Rightarrow> do {
          nodes' \<leftarrow> fill_ids (ids_below (node_num g)) 0 nodes;
          Some (unat (node_num g), nodes') })"

text \<open>
  \<open>vsi_nn_SetNodeInputsAndOutputs\<close> on one side of the node: the identifiers of the
  tensors, written over the first entries of the node's array.
\<close>

fun set_ids :: "'s graph \<Rightarrow> ptr option list \<Rightarrow> nat \<Rightarrow> tensor_id list \<Rightarrow> tensor_id list option" where
  "set_ids g [] i ids = Some ids"
| "set_ids g (t # ts) i ids = do { ids' \<leftarrow> wr ids i (get_tensor_id g t); set_ids g ts (Suc i) ids' }"

definition SetNodeInputsAndOutputs ::
  "'s graph \<Rightarrow> ptr option \<Rightarrow> ptr option list \<Rightarrow> ptr option list \<Rightarrow> ('s graph \<times> vsi_status) option" where
  "SetNodeInputsAndOutputs g node inputs outputs =
     (case node of
        None \<Rightarrow> Some (g, VSI_FAILURE)
      | Some p \<Rightarrow> do {
          ins \<leftarrow> set_ids g inputs 0 (n_inputs (g_nodes g p));
          outs \<leftarrow> set_ids g outputs 0 (n_outputs (g_nodes g p));
          Some (g\<lparr>g_nodes := (g_nodes g)(p := (g_nodes g p)\<lparr>n_inputs := ins, n_outputs := outs\<rparr>)\<rparr>,
                VSI_SUCCESS) })"

subsection \<open>Tensor relevance\<close>

text \<open>
  For every tensor, the table of the (node, output index) pairs that write it and of the
  (node, input index) pairs that read it. A table has 128 entries; the guard before a
  write is \<open>num > 128\<close>.
\<close>

definition MAX_TENSOR_IO :: nat where "MAX_TENSOR_IO = 128"

type_synonym rel_table = "(node_id \<times> uint32) list"

fun rel_slots :: "tensor_id \<Rightarrow> node_id \<Rightarrow> tensor_id list \<Rightarrow> nat \<Rightarrow> nat \<Rightarrow> rel_table
    \<Rightarrow> (nat \<times> rel_table) option" where
  "rel_slots i j [] k num tab = Some (num, tab)"
| "rel_slots i j (t # ts) k num tab =
     (if t = i then
        (if num > MAX_TENSOR_IO then Some (num, tab)
         else do {
           tab' \<leftarrow> wr tab num (j, of_nat k);
           rel_slots i j ts (Suc k) (num + 1) tab' })
      else rel_slots i j ts (Suc k) num tab)"

fun rel_nodes :: "'s graph \<Rightarrow> tensor_id \<Rightarrow> node_id list \<Rightarrow> nat \<times> rel_table \<Rightarrow> nat \<times> rel_table
    \<Rightarrow> ((nat \<times> rel_table) \<times> nat \<times> rel_table) option" where
  "rel_nodes g i [] ins outs = Some (ins, outs)"
| "rel_nodes g i (j # js) ins outs =
     (case node_at_id g j of
        None \<Rightarrow> rel_nodes g i js ins outs
      | Some n \<Rightarrow> do {
          ins' \<leftarrow> rel_slots i j (n_outputs n) 0 (fst ins) (snd ins);
          outs' \<leftarrow> rel_slots i j (n_inputs n) 0 (fst outs) (snd outs);
          rel_nodes g i js ins' outs' })"

fun rel_tensors :: "'s graph \<Rightarrow> tensor_id list
    \<Rightarrow> ((nat \<times> rel_table) \<times> nat \<times> rel_table) list option" where
  "rel_tensors g [] = Some []"
| "rel_tensors g (i # is) = do {
     r \<leftarrow> rel_nodes g i (ids_below (node_num g))
       (0, replicate MAX_TENSOR_IO (0, 0)) (0, replicate MAX_TENSOR_IO (0, 0));
     rs \<leftarrow> rel_tensors g is;
     Some (r # rs) }"

definition CreateTensorRelevance ::
  "bool \<Rightarrow> 's graph \<Rightarrow> ((nat \<times> rel_table) \<times> nat \<times> rel_table) list option option" where
  "CreateTensorRelevance malloc_ok g =
     (if \<not> malloc_ok then Some None
      else map_option Some (rel_tensors g (ids_below (tensor_num g))))"


lemma ids_below_simps:
  "length (ids_below n) = unat n" "i < unat n \<Longrightarrow> ids_below n ! i = of_nat i"
  "set (ids_below n) = {i. i < n}" "distinct (ids_below n)"
proof -
  show "length (ids_below n) = unat n" by (simp add: ids_below_def)
  show "i < unat n \<Longrightarrow> ids_below n ! i = of_nat i" by (simp add: ids_below_def)
  have inj: "inj_on (of_nat :: nat \<Rightarrow> uint32) {0..<unat n}"
  proof (rule inj_onI)
    fix x y :: nat
    assume "x \<in> {0..<unat n}" "y \<in> {0..<unat n}" and eq: "(of_nat x :: uint32) = of_nat y"
    then have "x < 2 ^ 32" "y < 2 ^ 32" using unsigned_less[of n, where ?'a = nat] by simp_all
    then show "x = y" using arg_cong[OF eq, of unat] by (simp add: unat_of_nat take_bit_nat_eq_self)
  qed
  then show "distinct (ids_below n)" by (simp add: ids_below_def distinct_map)
  show "set (ids_below n) = {i. i < n}"
  proof (intro set_eqI iffI)
    fix x assume "x \<in> {i. i < n}"
    then have "x = of_nat (unat x)" "unat x < unat n" by (simp_all add: word_less_nat_alt)
    then show "x \<in> set (ids_below n)" unfolding ids_below_def by force
  next
    fix x assume "x \<in> set (ids_below n)"
    then obtain k where k: "k < unat n" "x = of_nat k" by (auto simp: ids_below_def)
    then have "unat x = k" using unsigned_less[of n, where ?'a = nat]
      by (simp add: unat_of_nat take_bit_nat_eq_self)
    then show "x \<in> {i. i < n}" using k by (simp add: word_less_nat_alt)
  qed
qed

subsection \<open>The tables as key stores\<close>

definition graph_inv :: "'s graph \<Rightarrow> bool" where
  "graph_inv g \<longleftrightarrow> map_inv (tensor_table g) \<and> map_inv (node_table g) \<and>
     (\<forall>k \<in> set (map_keys (node_table g)). 0 \<le> k \<and> k < uint (node_num g))"

lemma Get_key:
  assumes "map_inv m" "MapGet m k \<noteq> None"
  shows "k \<in> set (map_keys m)"
proof (rule ccontr)
  assume "k \<notin> set (map_keys m)"
  then have "bt_lookup (map_values m) k = None"
    using assms(1) unfolding map_inv_def by (intro lookup_notin) auto
  then show False using assms(2) by (simp add: MapGet_def GetNode_lookup)
qed

lemma GetNode_range:
  assumes "graph_inv g" "GetNode g nid \<noteq> None"
  shows "nid < node_num g"
proof -
  have "uint nid \<in> set (map_keys (node_table g))"
    using Get_key[of "node_table g" "uint nid"] assms by (simp add: graph_inv_def GetNode_def)
  then show ?thesis using assms(1) by (simp add: graph_inv_def word_less_def)
qed

lemma graph_inv_Create: "graph_inv (CreateGraph th nh s)"
  by (simp add: graph_inv_def CreateGraph_def map_inv_Init) (simp add: MapInit_def)

lemma AddNode_failed: "NewNode new io_num op ni no = None \<Longrightarrow>
    AddNode new io_num g op ni no = (g, None, NODE_ID_NA)"
  by (simp add: AddNode_def)

lemma AddNode_ok: "NewNode new io_num op ni no = Some (p, n) \<Longrightarrow>
    AddNode new io_num g op ni no =
      (g\<lparr>node_table := MapAdd True True (node_table g) (uint (node_num g)) (Some p),
         g_nodes := (g_nodes g)(p := n), node_num := node_num g + 1\<rparr>, Some p, node_num g)"
  by (simp add: AddNode_def Let_def)

lemma graph_inv_AddNode:
  assumes "graph_inv g" "node_num g \<noteq> - 1"
  shows "graph_inv (fst (AddNode new io_num g op ni no))"
proof (cases "NewNode new io_num op ni no")
  case None
  then show ?thesis using assms by (simp add: AddNode_failed)
next
  case (Some pn)
  have "uint (node_num g + 1) = uint (node_num g) + 1" using uint_Suc_word[OF assms(2)] .
  with assms(1) Some show ?thesis
    by (cases pn) (force simp: AddNode_ok graph_inv_def map_inv_Add keys_Add)
qed

lemma RemoveNode_fields:
  "node_num (RemoveNode g nid) = node_num g" "tensor_table (RemoveNode g nid) = tensor_table g"
  "tensor_num (RemoveNode g nid) = tensor_num g" "g_nodes (RemoveNode g nid) = g_nodes g"
  by (simp_all add: RemoveNode_def split: option.splits)

lemma graph_inv_RemoveNode: "graph_inv g \<Longrightarrow> graph_inv (RemoveNode g nid)"
  by (simp add: graph_inv_def RemoveNode_def map_inv_Remove keys_Remove split: option.splits)

lemma GetNode_RemoveNode:
  "graph_inv g \<Longrightarrow> GetNode (RemoveNode g nid) j = (if j = nid then None else GetNode g j)"
  by (auto simp: RemoveNode_def GetNode_def graph_inv_def Get_Remove uint_eq_iff split: option.splits)

text \<open>A history of calls that create and remove nodes, with the identifiers handed out.\<close>

datatype node_call =
  Call_Add "(ptr \<times> vnode) option" "uint32 \<times> uint32" int uint32 uint32
| Call_Remove node_id

fun node_run :: "node_call list \<Rightarrow> 's graph \<Rightarrow> 's graph \<times> node_id list" where
  "node_run [] g = (g, [])"
| "node_run (Call_Add new io_num op ni no # cs) g =
     (let (g1, p, nid) = AddNode new io_num g op ni no;
          (g2, ids) = node_run cs g1
      in (g2, if p = None then ids else nid # ids))"
| "node_run (Call_Remove nid # cs) g = node_run cs (RemoveNode g nid)"

lemma node_run_ids:
  assumes "graph_inv g" "unat (node_num g) + length cs < 2 ^ 32"
  shows "graph_inv (fst (node_run cs g)) \<and>
    snd (node_run cs g) = map of_nat [unat (node_num g)..<unat (node_num g) + length (snd (node_run cs g))] \<and>
    length (snd (node_run cs g)) \<le> length cs \<and>
    unat (node_num (fst (node_run cs g))) = unat (node_num g) + length (snd (node_run cs g))"
  using assms
proof (induction cs g rule: node_run.induct)
  case (2 new io_num op ni no cs g)
  show ?case
  proof (cases "NewNode new io_num op ni no")
    case None
    then have "AddNode new io_num g op ni no = (g, None, NODE_ID_NA)" by (rule AddNode_failed)
    with 2 show ?thesis by (simp add: Let_def le_SucI split: prod.splits)
  next
    case (Some pn)
    obtain p n where pn: "pn = (p, n)" by (cases pn)
    define g1 where "g1 = fst (AddNode new io_num g op ni no)"
    have a: "AddNode new io_num g op ni no = (g1, Some p, node_num g)"
      and num: "node_num g1 = node_num g + 1"
      using Some pn by (simp_all add: AddNode_ok g1_def)
    have "unat (node_num g) + 1 < 2 ^ 32" using 2(3) by simp
    then have "unat (node_num g + 1) = unat (node_num g) + 1"
      by (subst unat_add_no_overflow) simp_all
    then have u: "unat (node_num g1) = Suc (unat (node_num g))" using num by simp
    have "node_num g \<noteq> - 1" using \<open>unat (node_num g) + 1 < 2 ^ 32\<close> not_max_word[of "node_num g"] by simp
    then have "graph_inv g1" unfolding g1_def by (rule graph_inv_AddNode[OF 2(2)])
    with 2(1)[of "(g1, Some p, node_num g)" g1 "(Some p, node_num g)" "Some p" "node_num g"] a u 2(3)
    have IH: "graph_inv (fst (node_run cs g1)) \<and>
      snd (node_run cs g1) = map of_nat [Suc (unat (node_num g))..<Suc (unat (node_num g)) + length (snd (node_run cs g1))] \<and>
      length (snd (node_run cs g1)) \<le> length cs \<and>
      unat (node_num (fst (node_run cs g1))) = Suc (unat (node_num g)) + length (snd (node_run cs g1))"
      by simp
    have r: "node_run (Call_Add new io_num op ni no # cs) g =
        (fst (node_run cs g1), node_num g # snd (node_run cs g1))"
      using a by (simp add: Let_def split: prod.splits)
    have up: "[n..<n + Suc k] = n # [Suc n..<Suc n + k]" for n k :: nat
      by (simp add: upt_conv_Cons del: upt_Suc)
    show ?thesis using IH up[of "unat (node_num g)" "length (snd (node_run cs g1))"] unfolding r
      by (simp del: upt_Suc)
  qed
next
  case (3 nid cs g)
  then show ?case using graph_inv_RemoveNode[of g nid] by (simp add: RemoveNode_fields)
qed simp

text \<open>
  C13: node identifiers. In any history of fewer than 2^32 node creations and removals on
  a new graph, the successful creations are numbered 0, 1, 2, ... in order, so an
  identifier is never handed out twice, not even after its node was removed, \<open>node_num\<close>
  is the number of successful creations, and the tables stay consistent.
\<close>

theorem node_ids_never_reused:
  assumes "length cs < 2 ^ 32"
  shows "graph_inv (fst (node_run cs (CreateGraph th nh s))) \<and>
    snd (node_run cs (CreateGraph th nh s)) =
      map of_nat [0..<length (snd (node_run cs (CreateGraph th nh s)))] \<and>
    unat (node_num (fst (node_run cs (CreateGraph th nh s)))) =
      length (snd (node_run cs (CreateGraph th nh s)))"
  using node_run_ids[OF graph_inv_Create, of th nh s cs] assms by (simp add: CreateGraph_def)


definition sample_attr :: tensor_attr where
  "sample_attr = \<lparr>attr_size = [1, 1, 1, 1, 1, 1, 1, 1], attr_dim_num = 1, attr_vtl = False,
     attr_is_const = False, attr_vx_type = 10, attr_qnt_type = 0,
     attr_zero_point = 0, attr_from_handle = False\<rparr>"

definition sample_node :: "tensor_id list \<Rightarrow> tensor_id list \<Rightarrow> vnode" where
  "sample_node ins outs = \<lparr>n_op = 1, n_inputs = ins, n_outputs = outs, n_uid = 0\<rparr>"

definition empty_graph :: "unit graph" where
  "empty_graph = CreateGraph (\<lambda>_. \<lparr>t_attr = sample_attr, t_vx = None, t_swapped = False\<rparr>)
     (\<lambda>_. sample_node [] []) ()"

definition sample_calls :: "node_call list" where
  "sample_calls = [Call_Add (Some (1, sample_node [] [])) (1, 1) 7 2 1, Call_Remove 0,
     Call_Add None (1, 1) 7 2 1, Call_Add (Some (2, sample_node [] [])) (1, 1) 7 2 1]"

lemma sample_calls_length: "length (snd (node_run sample_calls g)) = 2" "length sample_calls < 2 ^ 32"
  by (simp_all add: sample_calls_def AddNode_def NewNode_def Let_def)

theorem node_ids_never_reused_witness:
  "snd (node_run sample_calls empty_graph) = [0, 1]"
proof -
  have "snd (node_run sample_calls empty_graph) = map of_nat [0..<2]"
    using node_ids_never_reused[OF sample_calls_length(2)] unfolding empty_graph_def
    by (metis sample_calls_length(1))
  then show ?thesis by (simp add: numeral_2_eq_2)
qed

lemma GetTensor_AddTensor_table:
  "GetTensor (g\<lparr>tensor_table := MapAdd True ok (tensor_table g) (uint i) v, g_tensors := th, tensor_num := n\<rparr>) j
    = (if j = i then v else GetTensor g j)"
  by (simp add: GetTensor_def Get_Add uint_eq_iff)

text \<open>
  the automatic identifier is the number of tensors added so far, whatever identifiers
  they were given. A tensor added under an explicit identifier one above the count is
  overwritten in the table by the next automatic addition, which returns the identifier
  of the first tensor; the first tensor can then no longer be reached.
\<close>

theorem auto_id_overwrites:
  assumes "create Plain (attr\<lparr>attr_from_handle := False\<rparr>) None = Some (p1, t1)"
    and "create Plain (attr'\<lparr>attr_from_handle := False\<rparr>) None = Some (p2, t2)"
    and "attr_vx_type attr \<noteq> TYPE_VDATA" "attr_vx_type attr' \<noteq> TYPE_VDATA"
    and "tensor_num g + 1 \<noteq> TENSOR_ID_AUTO"
  shows "let (g1, id1) = AddTensor create g (tensor_num g + 1) attr None;
             (g2, id2) = AddTensor create g1 TENSOR_ID_AUTO attr' None
         in GetTensor g1 id1 = Some p1 \<and> id2 = id1 \<and> GetTensor g2 id1 = Some p2"
  using assms
  by (simp add: AddTensor_def add_tensor_def Let_def GetTensor_AddTensor_table)

definition sample_create :: create_fn where
  "sample_create k a d = Some (unat (attr_dim_num a), \<lparr>t_attr = a, t_vx = Some 1, t_swapped = False\<rparr>)"

theorem auto_id_overwrites_witness:
  "let (g1, id1) = AddTensor sample_create empty_graph (tensor_num empty_graph + 1) sample_attr None;
       (g2, id2) = AddTensor sample_create g1 TENSOR_ID_AUTO (sample_attr\<lparr>attr_dim_num := 3\<rparr>) None
   in GetTensor g1 id1 = Some 1 \<and> id2 = id1 \<and> GetTensor g2 id1 = Some 3"
  by (rule auto_id_overwrites)
    (simp_all add: sample_create_def sample_attr_def TYPE_VDATA_def empty_graph_def CreateGraph_def id_consts)

subsection \<open>Reading tensors into a buffer\<close>

definition fetched :: "'s graph \<Rightarrow> tensor_id list \<Rightarrow> nat \<Rightarrow> nat \<Rightarrow> ptr option list \<Rightarrow> nat \<Rightarrow> ptr option" where
  "fetched g ids i n buf j =
     (if i \<le> j \<and> j < i + n \<and> ids ! j \<noteq> TENSOR_ID_NA \<and> ids ! j < tensor_num g
      then GetTensor g (ids ! j) else buf ! j)"

lemma fetched_skip:
  "ids ! i = TENSOR_ID_NA \<or> \<not> ids ! i < tensor_num g \<Longrightarrow>
   fetched g ids (Suc i) n buf j = fetched g ids i (Suc n) buf j"
  by (cases "j = i") (auto simp: fetched_def)

lemma fetched_write:
  "\<not> (ids ! i = TENSOR_ID_NA \<or> \<not> ids ! i < tensor_num g) \<Longrightarrow> j < length buf \<Longrightarrow>
   fetched g ids (Suc i) n (buf[i := GetTensor g (ids ! i)]) j = fetched g ids i (Suc n) buf j"
  by (cases "j = i") (auto simp: fetched_def)

lemma get_tensors_loop_ok:
  assumes "i + n \<le> length ids" "i + n \<le> length buf"
  shows "get_tensors_loop g i n ids buf = Some (map (fetched g ids i n buf) [0..<length buf])"
  using assms
proof (induction g i n ids buf rule: get_tensors_loop.induct)
  case (1 g i ids buf)
  have "fetched g ids i 0 buf = (!) buf" by (auto simp: fun_eq_iff fetched_def)
  then show ?case by (simp add: map_nth)
next
  case (2 g i n ids buf)
  have r: "rd ids i = Some (ids ! i)" using 2(3) by simp
  show ?case
  proof (cases "ids ! i = TENSOR_ID_NA \<or> \<not> ids ! i < tensor_num g")
    case True
    have "get_tensors_loop g i (Suc n) ids buf = get_tensors_loop g (Suc i) n ids buf"
      unfolding get_tensors_loop.simps(2) r Option.bind.bind_lunit using True by (simp only: if_True)
    also have "\<dots> = Some (map (fetched g ids (Suc i) n buf) [0..<length buf])"
      using 2(1)[OF r True] 2(3,4) by simp
    finally show ?thesis unfolding fetched_skip[OF True] .
  next
    case False
    have w: "wr buf i (GetTensor g (ids ! i)) = Some (buf[i := GetTensor g (ids ! i)])"
      using 2(4) by simp
    have "get_tensors_loop g i (Suc n) ids buf =
        get_tensors_loop g (Suc i) n ids (buf[i := GetTensor g (ids ! i)])"
      unfolding get_tensors_loop.simps(2) r Option.bind.bind_lunit using False w
      by (simp only: if_False Option.bind.bind_lunit)
    also have "\<dots> = Some (map (fetched g ids (Suc i) n (buf[i := GetTensor g (ids ! i)])) [0..<length buf])"
      using 2(2)[OF r False w] 2(3,4) by simp
    also have "map (fetched g ids (Suc i) n (buf[i := GetTensor g (ids ! i)])) [0..<length buf] =
        map (fetched g ids i (Suc n) buf) [0..<length buf]"
      using fetched_write[OF False] by simp
    finally show ?thesis .
  qed
qed

lemma max_io_step:
  assumes "node_at_id g nid = Some n"
  obtains m where "max_io_loop g (nid # nids) max_io = max_io_loop g nids m" "max_io \<le> m"
    "of_nat (length (n_inputs n)) \<le> m" "of_nat (length (n_outputs n)) \<le> m"
proof -
  define m1 :: uint32 where
    "m1 = (if of_nat (length (n_inputs n)) > max_io then of_nat (length (n_inputs n)) else max_io)"
  define m2 :: uint32 where
    "m2 = (if of_nat (length (n_outputs n)) > m1 then of_nat (length (n_outputs n)) else m1)"
  have "max_io \<le> m1" "of_nat (length (n_inputs n)) \<le> m1" "m1 \<le> m2" "of_nat (length (n_outputs n)) \<le> m2"
    unfolding m1_def m2_def by (rule raise_bound)+
  moreover have "max_io_loop g (nid # nids) max_io = max_io_loop g nids m2"
    using assms by (simp add: m1_def m2_def Let_def)
  ultimately show ?thesis
    by (intro that[of m2]) (simp, rule order_trans[of _ m1], assumption+, rule order_trans[of _ m1], assumption+)
qed

lemma max_io_loop_ge: "max_io \<le> max_io_loop g nids max_io"
proof (induction nids arbitrary: max_io)
  case (Cons nid nids)
  show ?case
  proof (cases "node_at_id g nid")
    case None
    then show ?thesis using Cons[of max_io] by simp
  next
    case (Some n)
    then obtain m where "max_io_loop g (nid # nids) max_io = max_io_loop g nids m" "max_io \<le> m"
      by (rule max_io_step)
    then show ?thesis using Cons[of m] by simp
  qed
qed simp

lemma max_io_loop_covers:
  "nid \<in> set nids \<Longrightarrow> node_at_id g nid = Some n \<Longrightarrow>
   of_nat (length (n_inputs n)) \<le> max_io_loop g nids max_io \<and>
   of_nat (length (n_outputs n)) \<le> max_io_loop g nids max_io"
proof (induction nids arbitrary: max_io)
  case (Cons nid' nids)
  show ?case
  proof (cases "nid' = nid")
    case True
    obtain m where "max_io_loop g (nid # nids) max_io = max_io_loop g nids m"
      "of_nat (length (n_inputs n)) \<le> m" "of_nat (length (n_outputs n)) \<le> m"
      by (rule max_io_step[OF Cons.prems(2)])
    then show ?thesis using max_io_loop_ge[of m g nids] order_trans[OF _ max_io_loop_ge[of m g nids]] True
      by simp
  next
    case False
    then have "nid \<in> set nids" using Cons.prems(1) by simp
    then show ?thesis using Cons.IH Cons.prems(2)
      by (cases "node_at_id g nid'") (simp_all add: Let_def)
  qed
qed simp

text \<open>What \<open>GetTensors\<close> puts into a buffer: NULL for no identifier and for one that is out of range.\<close>

definition tensors_at :: "'s graph \<Rightarrow> tensor_id list \<Rightarrow> ptr option list" where
  "tensors_at g ids = map (\<lambda>t. if t \<noteq> TENSOR_ID_NA \<and> t < tensor_num g then GetTensor g t else None) ids"

lemma get_tensors_ok:
  assumes "of_nat (length ids) \<le> max_node_io g" "length ids < 2 ^ 32" "length buf = unat (max_node_io g)"
  shows "GetTensors g ids (of_nat (length ids)) buf = Some (tensors_at g ids @ drop (length ids) buf)"
proof -
  let ?k = "length ids"
  have u: "unat (of_nat ?k :: uint32) = ?k" using assms(2) by (simp add: unat_of_nat take_bit_nat_eq_self)
  have kb: "?k \<le> length buf" using assms(1,3) u by (simp add: word_le_nat_alt)
  let ?b = "replicate ?k None @ drop ?k buf"
  have "map (fetched g ids 0 ?k ?b) [0..<length ?b] = tensors_at g ids @ drop ?k buf"
    by (rule nth_equalityI) (use kb in \<open>auto simp: nth_append fetched_def tensors_at_def\<close>)
  moreover have "get_tensors_loop g 0 ?k ids ?b = Some (map (fetched g ids 0 ?k ?b) [0..<length ?b])"
    using kb by (intro get_tensors_loop_ok) auto
  ultimately show ?thesis using kb u leD[OF assms(1)] by (simp add: GetTensors_def clear_prefix_def)
qed

text \<open>
  C14: once \<open>update_max_node_io\<close> has run over the list of nodes, a buffer of
  \<open>max_node_io\<close> entries is large enough for every node of the list: \<open>GetTensors\<close> stays in
  bounds for the inputs and for the outputs of the node, and fills the buffer with their tensors,
  with NULL for a slot that has no identifier or one that is out of range. The entries of the
  buffer behind them stay as they are.
\<close>

theorem io_buffer_suffices:
  assumes "g' = snd (update_max_node_io g node_list)" "nid \<in> set node_list" "node_at_id g nid = Some n"
    "length (n_inputs n) < 2 ^ 32" "length (n_outputs n) < 2 ^ 32" "length buf = unat (max_node_io g')"
  shows "GetTensors g' (n_inputs n) (of_nat (length (n_inputs n))) buf =
      Some (tensors_at g (n_inputs n) @ drop (length (n_inputs n)) buf) \<and>
    GetTensors g' (n_outputs n) (of_nat (length (n_outputs n))) buf =
      Some (tensors_at g (n_outputs n) @ drop (length (n_outputs n)) buf)"
proof -
  have le: "of_nat (length (n_inputs n)) \<le> max_node_io g'" "of_nat (length (n_outputs n)) \<le> max_node_io g'"
    using max_io_loop_covers[OF assms(2,3)] assms(1) by (simp_all add: update_max_node_io_def)
  have "tensors_at g' ids = tensors_at g ids" for ids
    using assms(1) by (simp add: tensors_at_def update_max_node_io_def GetTensor_def)
  then show ?thesis using get_tensors_ok[OF le(1) assms(4,6)] get_tensors_ok[OF le(2) assms(5,6)] by simp
qed

text \<open>
  the cut of \<open>num\<close> to \<open>max_node_io\<close> in \<open>GetTensors\<close> comes after the \<open>memset\<close> of \<open>num\<close>
  entries: with a buffer of \<open>max_node_io\<close> entries, as \<open>allocate_io_buffer\<close> makes it, a
  larger \<open>num\<close> writes past the end of the buffer.
\<close>

theorem get_tensors_overflow:
  assumes "length buf = unat (max_node_io g)" "num > max_node_io g"
  shows "GetTensors g ids num buf = None"
  using assms by (simp add: GetTensors_def clear_prefix_def word_less_nat_alt)


lemma replicate_twice: "replicate 2 x = [x, x]"
  by (simp add: numeral_2_eq_2)

text \<open>
  A graph of two nodes: the first one reads tensor 0 in 33 of its 34 slots, more than the 32 of
  \<open>MAX_IO_NUM\<close>, and writes tensor 1; the second one reads both, and writes tensor 2.
\<close>

definition two_nodes :: "unit graph" where
  "two_nodes = \<lparr>tensor_table = MapAdd True True (MapAdd True True (MapAdd True True MapInit 0 (Some 10)) 1 (Some 11)) 2 (Some 12),
     node_table = MapAdd True True (MapAdd True True MapInit 0 (Some 1)) 1 (Some 2),
     tensor_num = 3, node_num = 2, g_tensors = (\<lambda>_. \<lparr>t_attr = sample_attr, t_vx = None, t_swapped = False\<rparr>),
     g_nodes = (\<lambda>p. if p = 1 then sample_node (replicate 33 0 @ [TENSOR_ID_NA]) [1] else sample_node [1, TENSOR_ID_NA, 0] [2]),
     g_inputs = [0], g_input_num = 1, g_outputs = [2],
     g_output_num = 1, max_node_io = 32, g_version = (0, 0, 0), g_ext = ()\<rparr>"

lemma two_nodes_simps:
  "node_at_id two_nodes 0 = Some (sample_node (replicate 33 0 @ [TENSOR_ID_NA]) [1])"
  "node_at_id two_nodes 1 = Some (sample_node [1, TENSOR_ID_NA, 0] [2])"
  "GetTensor two_nodes 0 = Some 10" "GetTensor two_nodes 1 = Some 11" "GetTensor two_nodes 2 = Some 12"
  "tensor_num two_nodes = 3" "ids_below (tensor_num two_nodes) = [0, 1, 2]" "ids_below (node_num two_nodes) = [0, 1]"
  by (simp_all add: two_nodes_def node_at_id_def GetNode_def GetTensor_def Get_Add ids_below_def upt_rec)

theorem io_buffer_suffices_witness:
  "let g = snd (update_max_node_io two_nodes [0, 1])
   in max_node_io g = 34 \<and>
      GetTensors g (replicate 33 0 @ [TENSOR_ID_NA]) 34 (replicate 34 (Some 9)) = Some (replicate 33 (Some 10) @ [None]) \<and>
      GetTensors g [1] 1 (replicate 34 (Some 9)) = Some (Some 11 # replicate 33 (Some 9))"
proof -
  have m: "max_node_io (snd (update_max_node_io two_nodes [0, 1])) = 34"
    by (simp add: update_max_node_io_def two_nodes_simps MAX_IO_NUM_def sample_node_def)
  have "drop 1 (replicate 34 (Some (9 :: ptr))) = replicate 33 (Some 9)" by simp
  then show ?thesis
    using io_buffer_suffices[OF refl _ two_nodes_simps(1), of "[0, 1]" "replicate 34 (Some 9)"] m
    by (simp add: sample_node_def tensors_at_def two_nodes_simps TENSOR_ID_NA_def map_replicate_const)
qed

theorem get_tensors_overflow_witness:
  "GetTensors empty_graph [0] 1 [] = None"
  by (rule get_tensors_overflow) (simp_all add: empty_graph_def CreateGraph_def)

subsection \<open>Edges\<close>

text \<open>The (node, slot) pairs whose slot holds the tensor \<open>i\<close>, in the order of the loops.\<close>

fun slot_pairs :: "tensor_id \<Rightarrow> node_id \<Rightarrow> tensor_id list \<Rightarrow> nat \<Rightarrow> (node_id \<times> uint32) list" where
  "slot_pairs i j [] k = []"
| "slot_pairs i j (t # ts) k =
     (if t = i then (j, of_nat k) # slot_pairs i j ts (Suc k) else slot_pairs i j ts (Suc k))"

fun edge_pairs :: "(vnode \<Rightarrow> tensor_id list) \<Rightarrow> 's graph \<Rightarrow> tensor_id \<Rightarrow> node_id list
    \<Rightarrow> (node_id \<times> uint32) list" where
  "edge_pairs side g i [] = []"
| "edge_pairs side g i (j # js) =
     (case node_at_id g j of
        None \<Rightarrow> edge_pairs side g i js
      | Some n \<Rightarrow> slot_pairs i j (side n) 0 @ edge_pairs side g i js)"

definition put_pairs :: "rel_table \<Rightarrow> nat \<Rightarrow> (node_id \<times> uint32) list \<Rightarrow> rel_table" where
  "put_pairs tab num ps = take num tab @ ps @ drop (num + length ps) tab"

lemma put_pairs_simps:
  "put_pairs tab num [] = tab"
  "num < length tab \<Longrightarrow> put_pairs (tab[num := p]) (Suc num) ps = put_pairs tab num (p # ps)"
  "num + length ps \<le> length tab \<Longrightarrow> length (put_pairs tab num ps) = length tab"
  "num + length (ps @ qs) \<le> length tab \<Longrightarrow>
     put_pairs (put_pairs tab num ps) (num + length ps) qs = put_pairs tab num (ps @ qs)"
  by (auto simp: put_pairs_def take_Suc_conv_app_nth ac_simps)

lemma rel_slots_fit:
  "num + length (slot_pairs i j ts k) \<le> MAX_TENSOR_IO \<Longrightarrow> length tab = MAX_TENSOR_IO \<Longrightarrow>
   rel_slots i j ts k num tab =
     Some (num + length (slot_pairs i j ts k), put_pairs tab num (slot_pairs i j ts k))"
  by (induction i j ts k num tab rule: rel_slots.induct) (auto simp: put_pairs_simps)

lemma rel_slots_overflow:
  "num \<le> MAX_TENSOR_IO \<Longrightarrow> MAX_TENSOR_IO < num + length (slot_pairs i j ts k) \<Longrightarrow>
   length tab = MAX_TENSOR_IO \<Longrightarrow> rel_slots i j ts k num tab = None"
proof (induction i j ts k num tab rule: rel_slots.induct)
  case (2 i j t ts k num tab)
  show ?case
  proof (cases "num < MAX_TENSOR_IO")
    case True
    then show ?thesis using 2 by (cases "t = i") auto
  next
    case False
    then show ?thesis using 2 by (cases "t = i") auto
  qed
qed simp

abbreviation writers :: "'s graph \<Rightarrow> tensor_id \<Rightarrow> node_id list \<Rightarrow> (node_id \<times> uint32) list" where
  "writers \<equiv> edge_pairs n_outputs"

abbreviation readers :: "'s graph \<Rightarrow> tensor_id \<Rightarrow> node_id list \<Rightarrow> (node_id \<times> uint32) list" where
  "readers \<equiv> edge_pairs n_inputs"

lemma rel_nodes_fit:
  "fst ins + length (writers g i js) \<le> MAX_TENSOR_IO \<Longrightarrow>
   fst outs + length (readers g i js) \<le> MAX_TENSOR_IO \<Longrightarrow>
   length (snd ins) = MAX_TENSOR_IO \<Longrightarrow> length (snd outs) = MAX_TENSOR_IO \<Longrightarrow>
   rel_nodes g i js ins outs =
     Some ((fst ins + length (writers g i js), put_pairs (snd ins) (fst ins) (writers g i js)),
           (fst outs + length (readers g i js), put_pairs (snd outs) (fst outs) (readers g i js)))"
proof (induction g i js ins outs rule: rel_nodes.induct)
  case (2 g i j js ins outs)
  then show ?case
    by (cases "node_at_id g j") (simp_all add: rel_slots_fit put_pairs_simps add.assoc)
qed (simp add: put_pairs_simps)

lemma rel_nodes_overflow:
  assumes "fst ins + length (writers g i js) \<le> MAX_TENSOR_IO" "fst outs \<le> MAX_TENSOR_IO"
    "MAX_TENSOR_IO < fst outs + length (readers g i js)"
    "length (snd ins) = MAX_TENSOR_IO" "length (snd outs) = MAX_TENSOR_IO"
  shows "rel_nodes g i js ins outs = None"
  using assms
proof (induction g i js ins outs rule: rel_nodes.induct)
  case (2 g i j js ins outs)
  show ?case
  proof (cases "node_at_id g j")
    case None
    then show ?thesis using 2 by simp
  next
    case (Some n)
    let ?w = "slot_pairs i j (n_outputs n) 0" and ?r = "slot_pairs i j (n_inputs n) 0"
    have w: "rel_slots i j (n_outputs n) 0 (fst ins) (snd ins) =
        Some (fst ins + length ?w, put_pairs (snd ins) (fst ins) ?w)"
      using 2(3,6) Some by (intro rel_slots_fit) simp_all
    show ?thesis
    proof (cases "fst outs + length ?r \<le> MAX_TENSOR_IO")
      case True
      then have r: "rel_slots i j (n_inputs n) 0 (fst outs) (snd outs) =
          Some (fst outs + length ?r, put_pairs (snd outs) (fst outs) ?r)"
        using 2(7) by (intro rel_slots_fit) simp_all
      show ?thesis using 2(2)[OF Some w r] 2(3-7) Some True w r by (simp add: put_pairs_simps)
    next
      case False
      then have "rel_slots i j (n_inputs n) 0 (fst outs) (snd outs) = None"
        using 2(4,7) by (intro rel_slots_overflow) simp_all
      then show ?thesis using Some w by simp
    qed
  qed
qed simp

lemma rel_tensors_fit:
  "\<forall>i \<in> set is. length (writers g i (ids_below (node_num g))) \<le> MAX_TENSOR_IO \<and>
      length (readers g i (ids_below (node_num g))) \<le> MAX_TENSOR_IO \<Longrightarrow>
   rel_tensors g is = Some (map (\<lambda>i.
     ((length (writers g i (ids_below (node_num g))),
       put_pairs (replicate MAX_TENSOR_IO (0, 0)) 0 (writers g i (ids_below (node_num g)))),
      (length (readers g i (ids_below (node_num g))),
       put_pairs (replicate MAX_TENSOR_IO (0, 0)) 0 (readers g i (ids_below (node_num g)))))) is)"
  by (induction "is") (simp_all add: rel_nodes_fit)

text \<open>
  C15: when no tensor of the graph is written by more than 128 outputs or read by more than 128
  inputs, \<open>vsi_nn_CreateTensorRelevance\<close> stays in its tables and lists for every tensor, in the
  order of the nodes and their slots, exactly the pairs that write it and that read it. Slots
  without a tensor do not count.
\<close>

theorem relevance_complete:
  assumes "\<forall>i \<in> set (ids_below (tensor_num g)). length (writers g i (ids_below (node_num g))) \<le> 128 \<and>
      length (readers g i (ids_below (node_num g))) \<le> 128"
  shows "CreateTensorRelevance True g = Some (Some (map (\<lambda>i.
     ((length (writers g i (ids_below (node_num g))),
       put_pairs (replicate 128 (0, 0)) 0 (writers g i (ids_below (node_num g)))),
      (length (readers g i (ids_below (node_num g))),
       put_pairs (replicate 128 (0, 0)) 0 (readers g i (ids_below (node_num g))))))
     (ids_below (tensor_num g))))"
  using rel_tensors_fit[of "ids_below (tensor_num g)" g] assms
  by (simp add: CreateTensorRelevance_def MAX_TENSOR_IO_def)

text \<open>The entries in use of the tables of one tensor.\<close>

definition listed :: "(nat \<times> rel_table) \<times> (nat \<times> rel_table) \<Rightarrow> (node_id \<times> uint32) list \<times> (node_id \<times> uint32) list" where
  "listed r = (take (fst (fst r)) (snd (fst r)), take (fst (snd r)) (snd (snd r)))"

theorem relevance_complete_witness:
  "map_option (map_option (map listed)) (CreateTensorRelevance True two_nodes) =
    Some (Some [([], map (\<lambda>k. (0, of_nat k)) [0..<33] @ [(1, 2)]), ([(0, 0)], [(1, 0)]), ([(1, 0)], [])])"
proof -
  let ?w = "\<lambda>i. writers two_nodes i (ids_below (node_num two_nodes))"
    and ?r = "\<lambda>i. readers two_nodes i (ids_below (node_num two_nodes))"
  have s: "slot_pairs 0 0 (replicate m 0 @ [TENSOR_ID_NA]) k = map (\<lambda>k. (0, of_nat k)) [k..<k + m]"
    "i \<noteq> 0 \<Longrightarrow> i \<noteq> TENSOR_ID_NA \<Longrightarrow> slot_pairs i 0 (replicate m 0 @ [TENSOR_ID_NA]) k = []" for i m k
    by (induction m arbitrary: k) (simp_all add: TENSOR_ID_NA_def upt_conv_Cons del: upt_Suc)
  have na: "TENSOR_ID_NA = 0 \<longleftrightarrow> False" "TENSOR_ID_NA = 1 \<longleftrightarrow> False" "TENSOR_ID_NA = 2 \<longleftrightarrow> False"
    by (simp_all add: TENSOR_ID_NA_def)
  have e: "?w 0 = []" "?r 0 = map (\<lambda>k. (0, of_nat k)) [0..<33] @ [(1, 2)]" "?w 1 = [(0, 0)]" "?r 1 = [(1, 0)]"
    "?w 2 = [(1, 0)]" "?r 2 = []"
    using s(1)[of 33 0] s(2)[of 1 33 0] s(2)[of 2 33 0] na by (simp_all add: two_nodes_simps sample_node_def del: upt_Suc)
  have "\<forall>i \<in> set (ids_below (tensor_num two_nodes)). length (?w i) \<le> 128 \<and> length (?r i) \<le> 128"
    unfolding two_nodes_simps(7) using e by (simp del: upt_Suc)
  from relevance_complete[OF this] show ?thesis
    unfolding two_nodes_simps(7) by (simp add: e listed_def put_pairs_def del: upt_Suc)
qed

text \<open>
  the guard of the relevance table lets entry 128 of a table of 128 entries be
  written: a graph whose tensor 0 is read by a 129th input makes the construction write
  past the end of the table.
\<close>

theorem relevance_overflow:
  assumes "0 < tensor_num g" "length (writers g 0 (ids_below (node_num g))) \<le> 128"
    "128 < length (readers g 0 (ids_below (node_num g)))"
  shows "CreateTensorRelevance True g = None"
proof -
  have "0 < unat (tensor_num g)" using assms(1) by (simp add: word_less_nat_alt)
  then obtain js where "ids_below (tensor_num g) = 0 # js"
    by (cases "unat (tensor_num g)") (simp_all add: ids_below_def upt_conv_Cons del: upt_Suc)
  moreover have "rel_nodes g 0 (ids_below (node_num g))
      (0, replicate MAX_TENSOR_IO (0, 0)) (0, replicate MAX_TENSOR_IO (0, 0)) = None"
    using assms(2,3) by (intro rel_nodes_overflow) (simp_all add: MAX_TENSOR_IO_def)
  ultimately show ?thesis by (simp add: CreateTensorRelevance_def)
qed

definition wide_graph :: "unit graph" where
  "wide_graph = \<lparr>tensor_table = MapInit, node_table = MapAdd True True MapInit 0 (Some 1),
     tensor_num = 1, node_num = 1, g_tensors = (\<lambda>_. \<lparr>t_attr = sample_attr, t_vx = None, t_swapped = False\<rparr>),
     g_nodes = (\<lambda>_. sample_node (replicate 129 0) []), g_inputs = [], g_input_num = 0, g_outputs = [],
     g_output_num = 0, max_node_io = 32, g_version = (0, 0, 0), g_ext = ()\<rparr>"

lemma wide_edges: "writers wide_graph 0 (ids_below (node_num wide_graph)) = []"
  "length (readers wide_graph 0 (ids_below (node_num wide_graph))) = 129"
proof -
  have n: "node_at_id wide_graph 0 = Some (sample_node (replicate 129 0) [])"
    by (simp add: wide_graph_def node_at_id_def GetNode_def Get_Add)
  have l: "length (slot_pairs 0 0 (replicate m 0) k) = m" for m k
    by (induction m arbitrary: k) simp_all
  have i: "ids_below (node_num wide_graph) = [0]" by (simp add: wide_graph_def ids_below_def)
  show "writers wide_graph 0 (ids_below (node_num wide_graph)) = []"
    "length (readers wide_graph 0 (ids_below (node_num wide_graph))) = 129"
    unfolding i using n l by (simp_all add: sample_node_def)
qed

theorem relevance_overflow_witness: "CreateTensorRelevance True wide_graph = None"
proof (rule relevance_overflow)
  show "0 < tensor_num wide_graph" by (simp add: wide_graph_def)
qed (use wide_edges in simp_all)

end
