(* ===== verification/Graph_Sort.thy ===== *)
theory Graph_Sort
  imports Graph "HOL-Library.Multiset"
begin

text \<open>
  \<open>vsi_nn_SortGraphNode\<close> of \<^verbatim>\<open>src/tim/vx/internal/src/vsi_nn_graph.c\<close>: the
  topological sort of the nodes. The inner \<open>for\<close> loop is \<open>sort_pass\<close> (it deletes a node
  from the work list by moving the last one into its place and looks at that one next),
  the \<open>do ... while\<close> loop is \<open>sort_loop\<close>. \<open>None\<close> is an access out of bounds; \<open>Stopped\<close> is
  the jump to \<open>final\<close> when a node of the list does not exist.
\<close>

fun mark_ids :: "tensor_id list \<Rightarrow> bool list \<Rightarrow> bool list option" where
  "mark_ids [] ts = Some ts"
| "mark_ids (t # ids) ts =
     (if t = TENSOR_ID_NA then mark_ids ids ts
      else do { ts' \<leftarrow> wr ts (unat t) True; mark_ids ids ts' })"

fun all_processed :: "tensor_id list \<Rightarrow> bool list \<Rightarrow> bool option" where
  "all_processed [] ts = Some True"
| "all_processed (t # ids) ts =
     (if t = TENSOR_ID_NA then all_processed ids ts
      else do { b \<leftarrow> rd ts (unat t); if b then all_processed ids ts else Some False })"

definition init_tensors :: "'s graph \<Rightarrow> bool list" where
  "init_tensors g =
     map (\<lambda>i. case GetTensor g i of
                None \<Rightarrow> True | Some p \<Rightarrow> attr_is_const (t_attr (g_tensors g p)))
       (ids_below (tensor_num g))"

datatype pass_result =
  Stopped nat
| Pass_Done nat "node_id list" "bool list" "node_id list" bool bool

function sort_pass ::
  "'s graph \<Rightarrow> nat \<Rightarrow> nat \<Rightarrow> node_id list \<Rightarrow> bool list \<Rightarrow> node_id list \<Rightarrow> bool \<Rightarrow> bool
   \<Rightarrow> pass_result option" where
  "sort_pass g i cnt nodes ts srt dirty processed =
     (if i < cnt then do {
        node_id \<leftarrow> rd nodes i;
        case node_at_id g node_id of
          None \<Rightarrow> Some (Stopped cnt)
        | Some node \<Rightarrow> do {
            ok \<leftarrow> all_processed (n_inputs node) ts;
            if ok then do {
              srt' \<leftarrow> wr srt (unat (node_num g) - cnt) node_id;
              lastn \<leftarrow> rd nodes (cnt - 1);
              nodes' \<leftarrow> wr nodes i lastn;
              ts' \<leftarrow> mark_ids (n_outputs node) ts;
              sort_pass g i (cnt - 1) nodes' ts' srt' True True }
            else sort_pass g (i + 1) cnt nodes ts srt dirty False } }
      else Some (Pass_Done cnt nodes ts srt dirty processed))"
  by pat_completeness auto
termination
  by (relation "measure (\<lambda>(g, i, cnt, _). cnt - i)") auto

declare sort_pass.simps [simp del]

lemma sort_pass_count:
  "sort_pass g i cnt nodes ts srt dirty processed = Some (Pass_Done c ns tt so d p) \<Longrightarrow>
   c \<le> cnt \<and> (d \<longrightarrow> dirty \<or> c < cnt)"
proof (induction g i cnt nodes ts srt dirty processed arbitrary: c rule: sort_pass.induct)
  case (1 g i cnt nodes ts srt dirty processed)
  show ?case
  proof (cases "i < cnt")
    case False
    then show ?thesis using 1(3) by (subst (asm) sort_pass.simps) simp
  next
    case True
    then obtain nid node ok where s: "rd nodes i = Some nid" "node_at_id g nid = Some node"
      "all_processed (n_inputs node) ts = Some ok"
      using 1(3) by (subst (asm) sort_pass.simps) (auto split: option.splits)
    show ?thesis
    proof (cases ok)
      case True
      then obtain so' la ns' ts' where w: "wr srt (unat (node_num g) - cnt) nid = Some so'"
        "rd nodes (cnt - 1) = Some la" "wr nodes i la = Some ns'" "mark_ids (n_outputs node) ts = Some ts'"
        "sort_pass g i (cnt - 1) ns' ts' so' True True = Some (Pass_Done c ns tt so d p)"
        using 1(3) \<open>i < cnt\<close> s by (subst (asm) sort_pass.simps) auto
      show ?thesis using 1(1)[OF \<open>i < cnt\<close> s True w(1-5)] \<open>i < cnt\<close> by auto
    next
      case False
      then have "sort_pass g (i + 1) cnt nodes ts srt dirty False = Some (Pass_Done c ns tt so d p)"
        using 1(3) \<open>i < cnt\<close> s by (subst (asm) sort_pass.simps) auto
      then show ?thesis using 1(2)[OF \<open>i < cnt\<close> s False] by auto
    qed
  qed
qed

function sort_loop ::
  "'s graph \<Rightarrow> nat \<Rightarrow> node_id list \<Rightarrow> bool list \<Rightarrow> node_id list \<Rightarrow> (nat \<times> node_id list) option" where
  "sort_loop g cnt nodes ts srt =
     (case sort_pass g 0 cnt nodes ts srt False False of
        None \<Rightarrow> None
      | Some (Stopped c) \<Rightarrow> Some (c, srt)
      | Some (Pass_Done c nodes' ts' srt' dirty _) \<Rightarrow>
          if \<not> dirty then Some (c, srt')
          else if c > 0 then sort_loop g c nodes' ts' srt'
          else Some (c, srt'))"
  by pat_completeness auto
termination
  by (relation "measure (\<lambda>(g, cnt, _). cnt)") (auto dest: sort_pass_count)

declare sort_loop.simps [simp del]

text \<open>
  \<open>malloc_ok\<close> tells whether the three work arrays are allocated; the result is the list
  of sorted identifiers, or the null pointer.
\<close>

definition SortGraphNode :: "bool \<Rightarrow> 's graph \<Rightarrow> node_id list option option" where
  "SortGraphNode malloc_ok g =
     (if \<not> malloc_ok then Some None
      else do {
        inputs \<leftarrow> (if unat (g_input_num g) \<le> length (g_inputs g)
                    then Some (take (unat (g_input_num g)) (g_inputs g)) else None);
        ts \<leftarrow> mark_ids inputs (init_tensors g);
        (cnt, srt) \<leftarrow> sort_loop g (unat (node_num g)) (ids_below (node_num g)) ts
           (replicate (unat (node_num g)) 0);
        Some (if cnt \<noteq> 0 then None else Some srt) })"


subsection \<open>What an order must satisfy\<close>

text \<open>
  A tensor is ready before any node runs when its slot is empty, when it does not exist,
  when it is constant, or when it is an input of the graph. A node can run after the
  nodes \<open>done\<close> when each of its inputs is ready or an output of one of them.
\<close>

definition graph_input_ids :: "'s graph \<Rightarrow> tensor_id list" where
  "graph_input_ids g = take (unat (g_input_num g)) (g_inputs g)"

definition ready :: "'s graph \<Rightarrow> tensor_id \<Rightarrow> bool" where
  "ready g t \<longleftrightarrow> t = TENSOR_ID_NA \<or> t \<in> set (graph_input_ids g) \<or>
     (case GetTensor g t of None \<Rightarrow> True | Some p \<Rightarrow> attr_is_const (t_attr (g_tensors g p)))"

definition produces :: "'s graph \<Rightarrow> node_id \<Rightarrow> tensor_id \<Rightarrow> bool" where
  "produces g nid t = (case node_at_id g nid of None \<Rightarrow> False | Some n \<Rightarrow> t \<in> set (n_outputs n))"

definition runnable :: "'s graph \<Rightarrow> node_id list \<Rightarrow> node_id \<Rightarrow> bool" where
  "runnable g don nid =
     (case node_at_id g nid of
        None \<Rightarrow> False
      | Some n \<Rightarrow> list_all (\<lambda>t. ready g t \<or> list_ex (\<lambda>y. produces g y t) don) (n_inputs n))"

fun topo_from :: "'s graph \<Rightarrow> node_id list \<Rightarrow> node_id list \<Rightarrow> bool" where
  "topo_from g don [] = True"
| "topo_from g don (x # xs) = (runnable g don x \<and> topo_from g (don @ [x]) xs)"

lemma topo_from_append:
  "topo_from g don (xs @ ys) \<longleftrightarrow> topo_from g don xs \<and> topo_from g (don @ xs) ys"
  by (induction xs arbitrary: don) simp_all

lemma runnable_mono: "runnable g don x \<Longrightarrow> set don \<subseteq> set don' \<Longrightarrow> runnable g don' x"
  by (auto simp: runnable_def list_all_iff list_ex_iff split: option.splits)

text \<open>Every identifier in the graph is empty or in the range of the table of tensors.\<close>

definition id_in_range :: "'s graph \<Rightarrow> tensor_id \<Rightarrow> bool" where
  "id_in_range g t \<longleftrightarrow> t = TENSOR_ID_NA \<or> t < tensor_num g"

definition refs_ok :: "'s graph \<Rightarrow> bool" where
  "refs_ok g \<longleftrightarrow> unat (g_input_num g) \<le> length (g_inputs g) \<and>
     list_all (id_in_range g) (graph_input_ids g) \<and>
     list_all (\<lambda>nid. case node_at_id g nid of None \<Rightarrow> True
        | Some n \<Rightarrow> list_all (id_in_range g) (n_inputs n) \<and> list_all (id_in_range g) (n_outputs n))
       (ids_below (node_num g))"

subsection \<open>The flags\<close>

lemma mark_ids_flags:
  "mark_ids ids ts = Some ts' \<Longrightarrow>
   length ts' = length ts \<and>
   (\<forall>i < length ts. ts' ! i = (ts ! i \<or> (\<exists>t \<in> set ids. t \<noteq> TENSOR_ID_NA \<and> unat t = i)))"
proof (induction ids ts rule: mark_ids.induct)
  case (2 t ids ts)
  show ?case
  proof (cases "t = TENSOR_ID_NA")
    case False
    then have "unat t < length ts" "mark_ids ids (ts[unat t := True]) = Some ts'"
      using 2(3) by (auto simp: wr_eq_Some_iff)
    then show ?thesis using 2(2)[OF False, of "ts[unat t := True]"] False
      by (auto simp: nth_list_update)
  qed (use 2 in auto)
qed simp

lemma mark_ids_safe:
  "list_all (\<lambda>t. t = TENSOR_ID_NA \<or> unat t < length ts) ids \<Longrightarrow> \<exists>ts'. mark_ids ids ts = Some ts'"
  by (induction ids ts rule: mark_ids.induct) auto

lemma all_processed_flags:
  "all_processed ids ts = Some b \<Longrightarrow>
   (b \<longrightarrow> (\<forall>t \<in> set ids. t \<noteq> TENSOR_ID_NA \<longrightarrow> unat t < length ts \<and> ts ! unat t)) \<and>
   (\<not> b \<longrightarrow> (\<exists>t \<in> set ids. t \<noteq> TENSOR_ID_NA \<and> unat t < length ts \<and> \<not> ts ! unat t))"
proof (induction ids ts rule: all_processed.induct)
  case (2 t ids ts)
  show ?case
  proof (cases "t = TENSOR_ID_NA")
    case False
    then show ?thesis using 2(2)[OF False, of "ts ! unat t"] 2(3)
      by (auto simp: rd_eq_Some_iff split: if_splits)
  qed (use 2 in auto)
qed simp

lemma all_processed_safe:
  "list_all (\<lambda>t. t = TENSOR_ID_NA \<or> unat t < length ts) ids \<Longrightarrow> \<exists>b. all_processed ids ts = Some b"
proof (induction ids)
  case (Cons t ids)
  show ?case
  proof (cases "t = TENSOR_ID_NA")
    case False
    then have "rd ts (unat t) = Some (ts ! unat t)" using Cons.prems by simp
    then show ?thesis using Cons False by (cases "ts ! unat t") (auto intro: exI[of _ False])
  qed (use Cons in simp)
qed auto

subsection \<open>The invariant of the sort\<close>

definition placed :: "'s graph \<Rightarrow> nat \<Rightarrow> node_id list \<Rightarrow> node_id list" where
  "placed g cnt srt = take (unat (node_num g) - cnt) srt"

definition settled :: "'s graph \<Rightarrow> node_id list \<Rightarrow> tensor_id \<Rightarrow> bool" where
  "settled g don t \<longleftrightarrow> ready g t \<or> (\<exists>y \<in> set don. produces g y t)"

definition flags_ok :: "'s graph \<Rightarrow> node_id list \<Rightarrow> bool list \<Rightarrow> bool" where
  "flags_ok g don ts \<longleftrightarrow> length ts = unat (tensor_num g) \<and>
     (\<forall>t. t < tensor_num g \<longrightarrow> ts ! unat t = settled g don t)"

definition sort_inv :: "'s graph \<Rightarrow> nat \<Rightarrow> node_id list \<Rightarrow> bool list \<Rightarrow> node_id list \<Rightarrow> bool" where
  "sort_inv g cnt nodes ts srt \<longleftrightarrow>
     cnt \<le> unat (node_num g) \<and> length nodes = unat (node_num g) \<and> length srt = unat (node_num g) \<and>
     mset (placed g cnt srt) + mset (take cnt nodes) = mset (ids_below (node_num g)) \<and>
     topo_from g [] (placed g cnt srt) \<and> flags_ok g (placed g cnt srt) ts"

lemma id_below_max: "t < tensor_num g \<Longrightarrow> t \<noteq> TENSOR_ID_NA"
  by (auto simp: TENSOR_ID_NA_def)

lemma flags_ok_mark:
  assumes "flags_ok g don ts" "mark_ids ids ts = Some ts'"
  shows "length ts' = unat (tensor_num g) \<and>
    (\<forall>t. t < tensor_num g \<longrightarrow> ts' ! unat t = (settled g don t \<or> t \<in> set ids))"
proof (intro conjI allI impI)
  note m = mark_ids_flags[OF assms(2)]
  show "length ts' = unat (tensor_num g)" using m assms(1) by (simp add: flags_ok_def)
  fix t assume t: "t < tensor_num g"
  then have "unat t < length ts" using assms(1) by (simp add: flags_ok_def word_less_nat_alt)
  then show "ts' ! unat t = (settled g don t \<or> t \<in> set ids)"
    using m assms(1) t id_below_max[OF t] by (auto simp: flags_ok_def unat_eq_iff)
qed

lemma mset_drop_last:
  assumes "i < c" "c \<le> length xs"
  shows "mset (take c xs) = add_mset (xs ! i) (mset (take (c - 1) (xs[i := xs ! (c - 1)])))"
proof -
  obtain d where c: "c = Suc d" using assms(1) by (cases c) auto
  have t: "take c xs = take d xs @ [xs ! d]" using assms c by (simp add: take_Suc_conv_app_nth)
  show ?thesis
  proof (cases "i = d")
    case True
    then show ?thesis using t c by simp
  next
    case False
    then have i: "i < d" using assms c by simp
    then have "mset ((take d xs)[i := xs ! d]) = add_mset (xs ! d) (mset (take d xs) - {#xs ! i#})"
      using assms c by (simp add: mset_update)
    moreover have "xs ! i \<in># mset (take d xs)" using i assms c by (force simp: in_set_conv_nth)
    ultimately show ?thesis using t c i by (simp add: take_update_swap)
  qed
qed

lemma sort_inv_step:
  assumes inv: "sort_inv g cnt nodes ts srt" and i: "i < cnt"
    and n: "node_at_id g (nodes ! i) = Some node"
    and ok: "all_processed (n_inputs node) ts = Some True"
    and m: "mark_ids (n_outputs node) ts = Some ts'"
  shows "sort_inv g (cnt - 1) (nodes[i := nodes ! (cnt - 1)]) ts'
    (srt[unat (node_num g) - cnt := nodes ! i])"
proof -
  let ?N = "unat (node_num g)" and ?x = "nodes ! i" and ?d = "placed g cnt srt"
  have le: "cnt \<le> ?N" "length nodes = ?N" "length srt = ?N" using inv by (simp_all add: sort_inv_def)
  have p: "placed g (cnt - 1) (srt[?N - cnt := ?x]) = ?d @ [?x]"
  proof -
    have "?N - (cnt - 1) = Suc (?N - cnt)" using i le by simp
    then show ?thesis using i le by (simp add: placed_def take_Suc_conv_app_nth)
  qed
  have fl: "flags_ok g ?d ts" and tp: "topo_from g [] ?d" using inv by (simp_all add: sort_inv_def)
  have "settled g ?d t" if t: "t \<in> set (n_inputs node)" for t
  proof (cases "t = TENSOR_ID_NA")
    case True
    then show ?thesis by (simp add: settled_def ready_def)
  next
    case False
    then have "unat t < length ts" "ts ! unat t" using all_processed_flags[OF ok] t by auto
    then show ?thesis using fl by (simp add: flags_ok_def word_less_nat_alt)
  qed
  then have r: "runnable g ?d ?x"
    using n by (auto simp: runnable_def list_all_iff list_ex_iff settled_def)
  have f: "flags_ok g (?d @ [?x]) ts'"
    using flags_ok_mark[OF fl m] n by (auto simp: flags_ok_def settled_def produces_def)
  have "mset (take cnt nodes) = add_mset ?x (mset (take (cnt - 1) (nodes[i := nodes ! (cnt - 1)])))"
    using i le by (intro mset_drop_last) simp_all
  then have "mset (?d @ [?x]) + mset (take (cnt - 1) (nodes[i := nodes ! (cnt - 1)])) =
      mset (ids_below (node_num g))"
    using inv by (simp add: sort_inv_def)
  then show ?thesis using le r tp f unfolding sort_inv_def p by (simp add: topo_from_append)
qed

text \<open>One step of the inner loop, as the cases the proofs distinguish.\<close>

lemma sort_pass_cases:
  assumes "sort_pass g i cnt nodes ts srt dirty processed = Some r"
  obtains (fin) "\<not> i < cnt" "r = Pass_Done cnt nodes ts srt dirty processed"
  | (missing) nid where "i < cnt" "rd nodes i = Some nid" "node_at_id g nid = None" "r = Stopped cnt"
  | (run) nid node so' la ns' ts' where "i < cnt" "rd nodes i = Some nid" "node_at_id g nid = Some node"
      "all_processed (n_inputs node) ts = Some True"
      "wr srt (unat (node_num g) - cnt) nid = Some so'" "rd nodes (cnt - 1) = Some la"
      "wr nodes i la = Some ns'" "mark_ids (n_outputs node) ts = Some ts'"
      "sort_pass g i (cnt - 1) ns' ts' so' True True = Some r"
  | (skip) nid node where "i < cnt" "rd nodes i = Some nid" "node_at_id g nid = Some node"
      "all_processed (n_inputs node) ts = Some False"
      "sort_pass g (i + 1) cnt nodes ts srt dirty False = Some r"
proof -
  note e = assms[unfolded sort_pass.simps[of g i cnt nodes ts srt dirty processed]]
  show ?thesis
  proof (cases "i < cnt")
    case False
    then show ?thesis using e fin by simp
  next
    case True
    then obtain nid where nid: "rd nodes i = Some nid" using e by auto
    show ?thesis
    proof (cases "node_at_id g nid")
      case None
      then show ?thesis using e True nid missing by simp
    next
      case (Some node)
      then obtain ok where ok: "all_processed (n_inputs node) ts = Some ok" using e True nid by auto
      show ?thesis
      proof (cases ok)
        case True
        then show ?thesis using e \<open>i < cnt\<close> nid Some ok run by auto
      next
        case False
        then show ?thesis using e \<open>i < cnt\<close> nid Some ok skip by simp
      qed
    qed
  qed
qed

lemma sort_pass_inv:
  "sort_pass g i cnt nodes ts srt dirty processed = Some (Pass_Done c ns tt so d p) \<Longrightarrow>
   sort_inv g cnt nodes ts srt \<Longrightarrow> sort_inv g c ns tt so"
proof (induction g i cnt nodes ts srt dirty processed rule: sort_pass.induct)
  case (1 g i cnt nodes ts srt dirty processed)
  from 1(3) show ?case
  proof (cases rule: sort_pass_cases)
    case fin
    then show ?thesis using 1(4) by simp
  next
    case (run nid node so' la ns' ts')
    have "sort_inv g (cnt - 1) (nodes[i := nodes ! (cnt - 1)]) ts'
        (srt[unat (node_num g) - cnt := nodes ! i])"
      using run by (intro sort_inv_step[OF 1(4)]) (auto simp: rd_eq_Some_iff)
    then show ?thesis using 1(1)[OF run(1-3,4) TrueI run(5-9)] run
      by (auto simp: rd_eq_Some_iff wr_eq_Some_iff)
  next
    case (skip nid node)
    then show ?thesis using 1(2)[OF skip(1-4) _ skip(5)] 1(4) by simp
  qed simp
qed


subsection \<open>Safety and progress\<close>

text \<open>A pass that finds nothing to run changes nothing and has seen why.\<close>

lemma sort_pass_dirty:
  "sort_pass g i cnt nodes ts srt True processed = Some (Pass_Done c ns tt so d p) \<Longrightarrow> d"
proof (induction g i cnt nodes ts srt "True" processed rule: sort_pass.induct)
  case (1 g i cnt nodes ts srt processed)
  from 1(3) show ?case
  proof (cases rule: sort_pass_cases)
    case (run nid node so' la ns' ts')
    show ?thesis by (rule 1(1)[OF run(1-3,4) TrueI run(5-9)])
  next
    case (skip nid node)
    show ?thesis by (rule 1(2)[OF skip(1-4) _ skip(5)]) simp
  qed simp_all
qed

lemma sort_pass_clean:
  "sort_pass g i cnt nodes ts srt False processed = Some (Pass_Done c ns tt so False p) \<Longrightarrow>
   c = cnt \<and> ns = nodes \<and> tt = ts \<and> so = srt \<and>
   (\<forall>k. i \<le> k \<and> k < cnt \<longrightarrow> (\<exists>node. node_at_id g (nodes ! k) = Some node \<and>
      all_processed (n_inputs node) ts = Some False))"
proof (induction g i cnt nodes ts srt "False" processed rule: sort_pass.induct)
  case (1 g i cnt nodes ts srt processed)
  from 1(3) show ?case
  proof (cases rule: sort_pass_cases)
    case (run nid node so' la ns' ts')
    then show ?thesis using sort_pass_dirty[OF run(9)] by simp
  next
    case (skip nid node)
    have IH: "c = cnt \<and> ns = nodes \<and> tt = ts \<and> so = srt \<and>
      (\<forall>k. i + 1 \<le> k \<and> k < cnt \<longrightarrow> (\<exists>node. node_at_id g (nodes ! k) = Some node \<and>
        all_processed (n_inputs node) ts = Some False))"
      by (rule 1(2)[OF skip(1-4) _ skip(5)]) simp
    have "node_at_id g (nodes ! i) = Some node" using skip(2,3) by (auto simp: rd_eq_Some_iff)
    moreover have "i + 1 \<le> k" if "i \<le> k" "k \<noteq> i" for k using that by simp
    ultimately show ?thesis using IH skip(4) by blast
  qed auto
qed

lemma in_range_flags:
  "flags_ok g don ts \<Longrightarrow> list_all (id_in_range g) ids \<Longrightarrow>
   list_all (\<lambda>t. t = TENSOR_ID_NA \<or> unat t < length ts) ids"
  by (auto simp: list_all_iff flags_ok_def id_in_range_def word_less_nat_alt)

lemma refs_ok_node:
  "refs_ok g \<Longrightarrow> nid < node_num g \<Longrightarrow> node_at_id g nid = Some n \<Longrightarrow>
   list_all (id_in_range g) (n_inputs n) \<and> list_all (id_in_range g) (n_outputs n)"
  by (force simp: refs_ok_def list_all_iff ids_below_simps)

lemma sort_inv_nodes:
  assumes "sort_inv g cnt nodes ts srt"
  shows "set (placed g cnt srt) \<union> set (take cnt nodes) = {i. i < node_num g}"
    and "\<And>i. i < cnt \<Longrightarrow> nodes ! i < node_num g"
proof -
  have "mset (placed g cnt srt @ take cnt nodes) = mset (ids_below (node_num g))"
    using assms by (simp add: sort_inv_def)
  then show *: "set (placed g cnt srt) \<union> set (take cnt nodes) = {i. i < node_num g}"
    using mset_eq_setD ids_below_simps(3) by (metis set_append)
  fix i assume "i < cnt"
  then have "nodes ! i \<in> set (take cnt nodes)"
    using assms by (auto simp: sort_inv_def in_set_conv_nth intro!: exI[of _ i])
  then show "nodes ! i < node_num g" using * by auto
qed

lemma sort_pass_safe:
  "refs_ok g \<Longrightarrow> sort_inv g cnt nodes ts srt \<Longrightarrow>
   \<exists>r. sort_pass g i cnt nodes ts srt dirty processed = Some r"
proof (induction g i cnt nodes ts srt dirty processed rule: sort_pass.induct)
  case (1 g i cnt nodes ts srt dirty processed)
  show ?case
  proof (cases "i < cnt")
    case False
    then show ?thesis by (subst sort_pass.simps) simp
  next
    case i: True
    have len: "cnt \<le> unat (node_num g)" "length nodes = unat (node_num g)" "length srt = unat (node_num g)"
      and fl: "flags_ok g (placed g cnt srt) ts"
      using 1(4) by (simp_all add: sort_inv_def)
    have rd: "rd nodes i = Some (nodes ! i)" using i len by simp
    show ?thesis
    proof (cases "node_at_id g (nodes ! i)")
      case None
      then show ?thesis using i rd by (subst sort_pass.simps) simp
    next
      case (Some node)
      have r: "list_all (id_in_range g) (n_inputs node) \<and> list_all (id_in_range g) (n_outputs node)"
        using refs_ok_node[OF 1(3) sort_inv_nodes(2)[OF 1(4) i] Some] .
      obtain ok where ok: "all_processed (n_inputs node) ts = Some ok"
        using all_processed_safe[OF in_range_flags[OF fl]] r by blast
      obtain ts' where m: "mark_ids (n_outputs node) ts = Some ts'"
        using mark_ids_safe[OF in_range_flags[OF fl]] r by blast
      show ?thesis
      proof (cases ok)
        case True
        have w: "wr srt (unat (node_num g) - cnt) (nodes ! i) = Some (srt[unat (node_num g) - cnt := nodes ! i])"
          "rd nodes (cnt - 1) = Some (nodes ! (cnt - 1))"
          "wr nodes i (nodes ! (cnt - 1)) = Some (nodes[i := nodes ! (cnt - 1)])"
          using i len by simp_all
        have "sort_inv g (cnt - 1) (nodes[i := nodes ! (cnt - 1)]) ts'
            (srt[unat (node_num g) - cnt := nodes ! i])"
          using ok True by (intro sort_inv_step[OF 1(4) i Some _ m]) simp
        then have "\<exists>r. sort_pass g i (cnt - 1) (nodes[i := nodes ! (cnt - 1)]) ts'
            (srt[unat (node_num g) - cnt := nodes ! i]) True True = Some r"
          using 1(1)[OF i rd Some ok True w m 1(3)] by blast
        then show ?thesis using i rd Some ok True w m by (subst sort_pass.simps) simp
      next
        case False
        then show ?thesis using 1(2)[OF i rd Some ok False 1(3,4)] i rd Some ok
          by (subst sort_pass.simps) simp
      qed
    qed
  qed
qed

lemma sort_pass_Stopped:
  "sort_pass g i cnt nodes ts srt dirty processed = Some (Stopped c) \<Longrightarrow>
   0 < c \<and> (sort_inv g cnt nodes ts srt \<longrightarrow> (\<exists>nid. nid < node_num g \<and> node_at_id g nid = None))"
proof (induction g i cnt nodes ts srt dirty processed rule: sort_pass.induct)
  case (1 g i cnt nodes ts srt dirty processed)
  from 1(3) show ?case
  proof (cases rule: sort_pass_cases)
    case (missing nid)
    then show ?thesis using sort_inv_nodes(2)[of g cnt nodes ts srt i] by (auto simp: rd_eq_Some_iff)
  next
    case (run nid node so' la ns' ts')
    have "sort_inv g cnt nodes ts srt \<longrightarrow> sort_inv g (cnt - 1) ns' ts' so'"
      using run sort_inv_step[of g cnt nodes ts srt i node ts'] by (auto simp: rd_eq_Some_iff wr_eq_Some_iff)
    then show ?thesis using 1(1)[OF run(1-3,4) TrueI run(5-9)] by blast
  next
    case (skip nid node)
    show ?thesis by (rule 1(2)[OF skip(1-4) _ skip(5)]) simp
  qed simp
qed

subsection \<open>The loop\<close>

definition stuck :: "'s graph \<Rightarrow> node_id list \<Rightarrow> bool list \<Rightarrow> nat \<Rightarrow> bool" where
  "stuck g nodes ts c \<longleftrightarrow> (\<forall>k < c. \<exists>node. node_at_id g (nodes ! k) = Some node \<and>
      all_processed (n_inputs node) ts = Some False)"

text \<open>
  The loop ends with every node placed, or on a missing node, or stuck on a rest of the
  nodes none of which can run.
\<close>

lemma sort_loop_result:
  "sort_loop g cnt nodes ts srt = Some (c, so) \<Longrightarrow> sort_inv g cnt nodes ts srt \<Longrightarrow>
   (c = 0 \<and> (\<exists>ns tt. sort_inv g 0 ns tt so)) \<or>
   (0 < c \<and> (\<exists>nid. nid < node_num g \<and> node_at_id g nid = None)) \<or>
   (0 < c \<and> (\<exists>ns tt. sort_inv g c ns tt so \<and> stuck g ns tt c))"
proof (induction g cnt nodes ts srt rule: sort_loop.induct)
  case (1 g cnt nodes ts srt)
  note e = 1(2)[unfolded sort_loop.simps[of g cnt nodes ts srt]]
  then obtain r where r: "sort_pass g 0 cnt nodes ts srt False False = Some r"
    by (auto split: option.splits)
  show ?case
  proof (cases r)
    case (Stopped c')
    then show ?thesis using sort_pass_Stopped[of g 0 cnt nodes ts srt False False c'] r e 1(3) by auto
  next
    case (Pass_Done c' ns tt so' d p)
    have r': "sort_pass g 0 cnt nodes ts srt False False = Some (Pass_Done c' ns tt so' d p)"
      using r Pass_Done by simp
    have inv: "sort_inv g c' ns tt so'" using sort_pass_inv[OF r' 1(3)] .
    show ?thesis
    proof (cases d)
      case False
      then have "stuck g ns tt c'" using sort_pass_clean[of g 0 cnt nodes ts srt False c' ns tt so' p] r'
        by (simp add: stuck_def)
      then show ?thesis using e r' False inv by auto
    next
      case d: True
      show ?thesis
      proof (cases "c' > 0")
        case True
        then have "sort_loop g c' ns tt so' = Some (c, so)" using e r' d by simp
        then show ?thesis using 1(1)[OF r Pass_Done] d True inv by simp
      next
        case False
        then show ?thesis using e r' d inv by auto
      qed
    qed
  qed
qed

lemma sort_loop_safe:
  "refs_ok g \<Longrightarrow> sort_inv g cnt nodes ts srt \<Longrightarrow> \<exists>c so. sort_loop g cnt nodes ts srt = Some (c, so)"
proof (induction g cnt nodes ts srt rule: sort_loop.induct)
  case (1 g cnt nodes ts srt)
  obtain r where r: "sort_pass g 0 cnt nodes ts srt False False = Some r"
    using sort_pass_safe[OF 1(2,3)] by blast
  show ?case
  proof (cases r)
    case (Stopped c')
    then show ?thesis using r by (subst sort_loop.simps) simp
  next
    case (Pass_Done c' ns tt so' d p)
    have inv: "sort_inv g c' ns tt so'" using sort_pass_inv[OF _ 1(3)] r Pass_Done by blast
    show ?thesis
    proof (cases "d \<and> c' > 0")
      case True
      then show ?thesis using 1(1)[OF r Pass_Done _ _ 1(2) inv] r Pass_Done
        by (subst sort_loop.simps) simp
    next
      case False
      then show ?thesis using r Pass_Done by (subst sort_loop.simps) auto
    qed
  qed
qed

lemma init_flags:
  assumes "mark_ids (graph_input_ids g) (init_tensors g) = Some ts"
  shows "flags_ok g [] ts"
proof -
  have m: "length ts = length (init_tensors g)"
    "\<forall>i < length (init_tensors g). ts ! i =
       (init_tensors g ! i \<or> (\<exists>t \<in> set (graph_input_ids g). t \<noteq> TENSOR_ID_NA \<and> unat t = i))"
    using mark_ids_flags[OF assms] by simp_all
  have l: "length (init_tensors g) = unat (tensor_num g)"
    by (simp add: init_tensors_def ids_below_simps)
  have "ts ! unat t = settled g [] t" if t: "t < tensor_num g" for t
  proof -
    have "unat t < unat (tensor_num g)" using t by (simp add: word_less_nat_alt)
    then show ?thesis using m(2) l id_below_max[OF t]
      by (auto simp: init_tensors_def ids_below_simps settled_def ready_def unat_eq_iff)
  qed
  then show ?thesis using m(1) l by (simp add: flags_ok_def)
qed

lemma init_inv:
  "mark_ids (graph_input_ids g) (init_tensors g) = Some ts \<Longrightarrow>
   sort_inv g (unat (node_num g)) (ids_below (node_num g)) ts (replicate (unat (node_num g)) 0)"
  by (simp add: sort_inv_def placed_def ids_below_simps init_flags)


lemma sort_result_order:
  assumes "SortGraphNode malloc_ok g = Some (Some order)"
  shows "mset order = mset (ids_below (node_num g)) \<and> topo_from g [] order"
proof -
  obtain ts where ts: "mark_ids (graph_input_ids g) (init_tensors g) = Some ts"
    and loop: "sort_loop g (unat (node_num g)) (ids_below (node_num g)) ts
      (replicate (unat (node_num g)) 0) = Some (0, order)"
    using assms by (auto simp: SortGraphNode_def graph_input_ids_def split: if_splits)
  obtain ns tt where "sort_inv g 0 ns tt order"
    using sort_loop_result[OF loop init_inv[OF ts]] by auto
  moreover from this have "take (unat (node_num g)) order = order" by (simp add: sort_inv_def)
  ultimately show ?thesis by (simp add: sort_inv_def placed_def)
qed

lemma SortGraphNode_eq:
  assumes "refs_ok g"
  obtains ts c so where "mark_ids (graph_input_ids g) (init_tensors g) = Some ts"
    "sort_loop g (unat (node_num g)) (ids_below (node_num g)) ts
      (replicate (unat (node_num g)) 0) = Some (c, so)"
    "SortGraphNode True g = Some (if c \<noteq> 0 then None else Some so)"
proof -
  have len: "length (init_tensors g) = unat (tensor_num g)"
    by (simp add: init_tensors_def ids_below_simps)
  have "list_all (\<lambda>t. t = TENSOR_ID_NA \<or> unat t < length (init_tensors g)) (graph_input_ids g)"
    using assms len by (auto simp: refs_ok_def list_all_iff id_in_range_def word_less_nat_alt)
  then obtain ts where ts: "mark_ids (graph_input_ids g) (init_tensors g) = Some ts"
    using mark_ids_safe by blast
  obtain c so where "sort_loop g (unat (node_num g)) (ids_below (node_num g)) ts
      (replicate (unat (node_num g)) 0) = Some (c, so)"
    using sort_loop_safe[OF assms init_inv[OF ts]] by blast
  moreover from this have "SortGraphNode True g = Some (if c \<noteq> 0 then None else Some so)"
    using ts assms by (simp add: SortGraphNode_def graph_input_ids_def refs_ok_def)
  ultimately show ?thesis using ts that by blast
qed

lemma topo_first:
  "topo_from g don xs \<Longrightarrow> set xs \<inter> R \<noteq> {} \<Longrightarrow>
   \<exists>x \<in> R. \<exists>ys. runnable g (don @ ys) x \<and> x \<in> set xs \<and> set ys \<subseteq> set xs - R"
proof (induction xs arbitrary: don)
  case (Cons x xs)
  show ?case
  proof (cases "x \<in> R")
    case True
    then show ?thesis using Cons.prems(1) by (intro bexI[of _ x] exI[of _ "[]"]) auto
  next
    case False
    obtain z ys where "z \<in> R" "runnable g ((don @ [x]) @ ys) z" "z \<in> set xs" "set ys \<subseteq> set xs - R"
      using Cons.IH[of "don @ [x]"] Cons.prems False by auto
    then show ?thesis using False by (intro bexI[of _ z] exI[of _ "x # ys"]) auto
  qed
qed simp

lemma stuck_not_orderable:
  assumes inv: "sort_inv g c ns tt so" and st: "stuck g ns tt c" and c: "0 < c"
    and order: "mset order = mset (ids_below (node_num g))" "topo_from g [] order"
  shows False
proof -
  let ?R = "set (take c ns)" and ?D = "set (placed g c so)"
  have all: "?D \<union> ?R = set order"
    using sort_inv_nodes(1)[OF inv] mset_eq_setD[OF order(1)] by (simp add: ids_below_simps)
  have len: "c \<le> length ns" using inv unfolding sort_inv_def by linarith
  then have "ns \<noteq> []" using c by auto
  then have "?R \<noteq> {}" using c by simp
  then have meets: "set order \<inter> ?R \<noteq> {}" unfolding all[symmetric] by simp
  from topo_first[OF order(2) meets, unfolded append_Nil]
  obtain x ys where x: "x \<in> ?R" "runnable g ys x" "set ys \<subseteq> set order - ?R"
    by (elim bexE exE conjE) (rule that)
  then obtain k where k: "k < c" "x = ns ! k" using len by (auto simp: in_set_conv_nth)
  then obtain node where n: "node_at_id g x = Some node"
    and f: "all_processed (n_inputs node) tt = Some False"
    using st by (auto simp: stuck_def)
  obtain t where t: "t \<in> set (n_inputs node)" "t \<noteq> TENSOR_ID_NA" "unat t < length tt" "\<not> tt ! unat t"
    using all_processed_flags[OF f] by auto
  have fl: "flags_ok g (placed g c so) tt" using inv by (simp add: sort_inv_def)
  then have "\<not> settled g (placed g c so) t"
    using t by (auto simp: flags_ok_def word_less_nat_alt)
  moreover have "set ys \<subseteq> ?D" using x(3) all by blast
  then have "runnable g (placed g c so) x" by (rule runnable_mono[OF x(2)])
  then have "settled g (placed g c so) t"
    using n t(1) by (auto simp: runnable_def list_all_iff list_ex_iff settled_def)
  ultimately show False by simp
qed

lemma sort_result_iff:
  assumes "refs_ok g"
  shows "(\<exists>order. SortGraphNode True g = Some (Some order)) \<noteq> (SortGraphNode True g = Some None) \<and>
    (SortGraphNode True g = Some None) =
      (\<nexists>order. mset order = mset (ids_below (node_num g)) \<and> topo_from g [] order)"
proof -
  obtain ts c so where s: "mark_ids (graph_input_ids g) (init_tensors g) = Some ts"
    "sort_loop g (unat (node_num g)) (ids_below (node_num g)) ts
      (replicate (unat (node_num g)) 0) = Some (c, so)"
    "SortGraphNode True g = Some (if c \<noteq> 0 then None else Some so)"
    using SortGraphNode_eq[OF assms] by blast
  show ?thesis
  proof (cases "c = 0")
    case True
    then have "SortGraphNode True g = Some (Some so)" using s(3) by simp
    then show ?thesis using sort_result_order by fastforce
  next
    case False
    have "\<nexists>order. mset order = mset (ids_below (node_num g)) \<and> topo_from g [] order"
    proof
      assume "\<exists>order. mset order = mset (ids_below (node_num g)) \<and> topo_from g [] order"
      then obtain order where o: "mset order = mset (ids_below (node_num g))" "topo_from g [] order"
        by blast
      have ex: "node_at_id g nid \<noteq> None" if "nid < node_num g" for nid
      proof -
        have "nid \<in> set order" using mset_eq_setD[OF o(1)] that by (simp add: ids_below_simps)
        then obtain x ys where "x \<in> {nid}" "runnable g ys x"
          using topo_first[OF o(2), of "{nid}"] by auto
        then show ?thesis by (auto simp: runnable_def split: option.splits)
      qed
      then obtain ns tt where "sort_inv g c ns tt so" "stuck g ns tt c"
        using sort_loop_result[OF s(2) init_inv[OF s(1)]] False by blast
      then show False using stuck_not_orderable[OF _ _ _ o] False by simp
    qed
    then show ?thesis using s(3) False by auto
  qed
qed

text \<open>
  C1: what \<open>vsi_nn_SortGraphNode\<close> returns is an order to run the graph in: every node
  exactly once, and each input of a node is empty, missing, constant, an input of the
  graph, or an output of a node that stands earlier.
\<close>

theorem sort_sound:
  assumes "SortGraphNode malloc_ok g = Some (Some order)"
  shows "mset order = mset (ids_below (node_num g)) \<and> topo_from g [] order"
  using assms by (rule sort_result_order)

text \<open>
  C2: the sort is complete. On a graph whose identifiers are in range it never leaves its
  arrays, it always returns, and it finds an order exactly when one exists; it returns
  NULL exactly when the graph has a cycle or a missing node.
\<close>

theorem sort_complete:
  assumes "refs_ok g"
  shows "(\<exists>order. SortGraphNode True g = Some (Some order)) \<noteq> (SortGraphNode True g = Some None) \<and>
    (SortGraphNode True g = Some None) =
      (\<nexists>order. mset order = mset (ids_below (node_num g)) \<and> topo_from g [] order)"
  using assms by (rule sort_result_iff)

subsection \<open>An example\<close>

text \<open>
  Two nodes added in the wrong order: node 0 reads tensor 1, which node 1 writes from the
  graph input 0.
\<close>

definition chain_graph :: "unit graph" where
  "chain_graph = \<lparr>
     tensor_table = MapAdd True True (MapAdd True True (MapAdd True True MapInit 0 (Some 10)) 1 (Some 11)) 2 (Some 12),
     node_table = MapAdd True True (MapAdd True True MapInit 0 (Some 1)) 1 (Some 2),
     tensor_num = 3, node_num = 2,
     g_tensors = (\<lambda>_. \<lparr>t_attr = sample_attr, t_vx = None, t_swapped = False\<rparr>),
     g_nodes = (\<lambda>p. if p = 1 then sample_node [1] [2] else sample_node [0] [1]),
     g_inputs = [0], g_input_num = 1, g_outputs = [2], g_output_num = 1, max_node_io = 32,
     g_version = (0, 0, 0), g_ext = ()\<rparr>"

lemma chain_graph_simps:
  "node_at_id chain_graph 0 = Some (sample_node [1] [2])"
  "node_at_id chain_graph 1 = Some (sample_node [0] [1])"
  "ids_below (node_num chain_graph) = [0, 1]" "graph_input_ids chain_graph = [0]"
  "GetTensor chain_graph 0 = Some 10" "GetTensor chain_graph 1 = Some 11" "GetTensor chain_graph 2 = Some 12"
  "ids_below (tensor_num chain_graph) = [0, 1, 2]"
  "attr_is_const (t_attr (g_tensors chain_graph p)) = False"
  "unat (node_num chain_graph) = 2" "g_inputs chain_graph = [0]" "unat (g_input_num chain_graph) = 1"
  by (simp_all add: chain_graph_def node_at_id_def GetNode_def GetTensor_def Get_Add ids_below_def
      graph_input_ids_def sample_attr_def upt_rec)

lemma chain_graph_sort: "SortGraphNode True chain_graph = Some (Some [1, 0])"
  by (simp add: SortGraphNode_def chain_graph_simps init_tensors_def sort_loop.simps sort_pass.simps
      sample_node_def TENSOR_ID_NA_def replicate_twice)

lemma chain_graph_refs: "refs_ok chain_graph"
  by (simp add: refs_ok_def chain_graph_simps)
    (simp add: id_in_range_def sample_node_def chain_graph_def)

theorem sort_sound_witness:
  "mset [1, 0] = mset (ids_below (node_num chain_graph)) \<and> topo_from chain_graph [] [1, 0]"
  using sort_sound[OF chain_graph_sort] .

theorem sort_complete_witness:
  "\<exists>order. mset order = mset (ids_below (node_num chain_graph)) \<and> topo_from chain_graph [] order"
  using sort_complete[OF chain_graph_refs] chain_graph_sort by blast

end
