(* ===== verification/Graph_Setup.thy ===== *)
theory Graph_Setup
  imports Graph_Sort
begin

text \<open>
  Setting a graph up: \<open>vsi_nn_SetupGraph\<close> and the passes over the nodes it calls, and
  \<open>vsi_nn_InferShape\<close>, all of \<^verbatim>\<open>src/tim/vx/internal/src/vsi_nn_graph.c\<close> (the
  configuration without batch splitting).

  The functions behind an operation code (\<open>vsi_nn_OpCheck\<close>, \<open>vsi_nn_OpGenerateTensor\<close>,
  \<open>vsi_nn_OpOptimize\<close>, \<open>vsi_nn_OpCompute\<close> call through a table of function pointers), the
  graph rewriting of \<open>vsi_nn_OptimizeGraph\<close> and the driver are the record \<open>ops\<close>; each of
  its functions may change the graph. The passes stay as they are written: they read
  \<open>node_num\<close> before every step, and leave with the current status when a node is missing
  (\<open>CHECK_PTR_FAIL_GOTO\<close>).
\<close>

record 's ops =
  op_check :: "ptr \<Rightarrow> ptr option list \<Rightarrow> ptr option list \<Rightarrow> 's graph \<Rightarrow> bool \<times> 's graph"
  op_generate :: "ptr \<Rightarrow> ptr option list \<Rightarrow> ptr option list \<Rightarrow> 's graph \<Rightarrow> bool \<times> 's graph"
  op_optimize ::
    "opt_direction \<Rightarrow> ptr \<Rightarrow> ptr option list \<Rightarrow> ptr option list \<Rightarrow> 's graph \<Rightarrow> vsi_status \<times> 's graph"
  op_compute :: "ptr \<Rightarrow> ptr option list \<Rightarrow> ptr option list \<Rightarrow> 's graph \<Rightarrow> vsi_status \<times> 's graph"
  tensor_reinit :: "ptr \<Rightarrow> 's graph \<Rightarrow> 's graph"
  vx_name_tensor :: "ptr \<Rightarrow> uint32 \<Rightarrow> nat \<Rightarrow> 's graph \<Rightarrow> vsi_status \<times> 's graph"
  vx_name_node :: "ptr \<Rightarrow> uint32 \<Rightarrow> 's graph \<Rightarrow> vsi_status \<times> 's graph"
  update_node_attr :: "ptr \<Rightarrow> 's graph \<Rightarrow> vsi_status \<times> 's graph"
  set_high_precision :: "ptr \<Rightarrow> 's graph \<Rightarrow> 's graph"
  fast_mode :: "'s graph \<Rightarrow> bool"
  optimize_graph :: "'s graph \<Rightarrow> vsi_status \<times> bool \<times> 's graph"
  complete_signal :: "'s graph \<Rightarrow> vsi_status \<times> 's graph"
  binary_io :: "'s graph \<Rightarrow> vsi_status \<times> 's graph"
  init_node_wksp :: "ptr \<Rightarrow> 's graph \<Rightarrow> 's graph"

text \<open>The inputs and outputs of a node, in fresh buffers of \<open>max_node_io\<close> entries.\<close>

definition fetch_io ::
  "'s graph \<Rightarrow> ptr \<Rightarrow> (ptr option list \<times> ptr option list) option" where
  "fetch_io g p = do {
     let n = g_nodes g p;
     let buf = replicate (unat (max_node_io g)) None;
     ins \<leftarrow> GetTensors g (n_inputs n) (of_nat (length (n_inputs n))) buf;
     outs \<leftarrow> GetTensors g (n_outputs n) (of_nat (length (n_outputs n))) buf;
     Some (ins, outs) }"

subsection \<open>Setup\<close>

function setup_loop ::
  "'s ops \<Rightarrow> node_id list \<Rightarrow> nat \<Rightarrow> 's graph \<Rightarrow> (vsi_status \<times> 's graph) option" where
  "setup_loop ops node_list i g =
     (if i < unat (node_num g) then do {
        nid \<leftarrow> rd node_list i;
        case GetNode g nid of
          None \<Rightarrow> Some (VSI_SUCCESS, g)
        | Some p \<Rightarrow> do {
            io \<leftarrow> fetch_io g p;
            let (ok, g1) = op_check ops p (fst io) (snd io) g;
            if ok then do {
              let (ret, g2) = op_generate ops p (fst io) (snd io) g1;
              if ret then setup_loop ops node_list (Suc i) g2 else Some (VSI_FAILURE, g2) }
            else Some (VSI_FAILURE, g1) } }
      else Some (VSI_SUCCESS, g))"
  by pat_completeness auto
termination
  by (relation "measure (\<lambda>(_, node_list, i, _). length node_list - i)") (auto simp: rd_eq_Some_iff)

declare setup_loop.simps [simp del]

definition setup_node ::
  "bool \<Rightarrow> 's ops \<Rightarrow> 's graph \<Rightarrow> node_id list \<Rightarrow> (vsi_status \<times> 's graph) option" where
  "setup_node buf_ok ops g node_list =
     (if \<not> buf_ok then Some (VSI_FAILURE, g) else setup_loop ops node_list 0 g)"

subsection \<open>Optimization\<close>

text \<open>
  \<open>optimize_backward_loop n\<close> has the nodes at positions \<open>n - 1, ..., 0\<close> to do; \<open>node_num\<close>
  is read once, before the loop.
\<close>

fun optimize_backward_loop ::
  "'s ops \<Rightarrow> node_id list \<Rightarrow> nat \<Rightarrow> vsi_status \<Rightarrow> 's graph \<Rightarrow> (vsi_status \<times> 's graph) option" where
  "optimize_backward_loop ops node_list 0 status g = Some (status, g)"
| "optimize_backward_loop ops node_list (Suc i) status g = do {
     nid \<leftarrow> rd node_list i;
     case GetNode g nid of
       None \<Rightarrow> Some (status, g)
     | Some p \<Rightarrow> do {
         io \<leftarrow> fetch_io g p;
         let (st, g1) = op_optimize ops Backward p (fst io) (snd io) g;
         if st \<noteq> VSI_SUCCESS then Some (st, g1)
         else optimize_backward_loop ops node_list i st g1 } }"

definition optimize_node_backward ::
  "bool \<Rightarrow> 's ops \<Rightarrow> 's graph \<Rightarrow> node_id list \<Rightarrow> (vsi_status \<times> 's graph) option" where
  "optimize_node_backward buf_ok ops g node_list =
     (if \<not> buf_ok then Some (VSI_FAILURE, g)
      else optimize_backward_loop ops node_list (unat (node_num g)) VSI_SUCCESS g)"

function optimize_forward_loop ::
  "'s ops \<Rightarrow> node_id list \<Rightarrow> nat \<Rightarrow> vsi_status \<Rightarrow> 's graph \<Rightarrow> (vsi_status \<times> 's graph) option" where
  "optimize_forward_loop ops node_list i status g =
     (if i < unat (node_num g) then do {
        nid \<leftarrow> rd node_list i;
        case GetNode g nid of
          None \<Rightarrow> Some (status, g)
        | Some p \<Rightarrow> do {
            io \<leftarrow> fetch_io g p;
            let (st, g1) = op_optimize ops Forward p (fst io) (snd io) g;
            if st \<noteq> VSI_SUCCESS then Some (st, g1)
            else optimize_forward_loop ops node_list (Suc i) st g1 } }
      else Some (status, g))"
  by pat_completeness auto
termination
  by (relation "measure (\<lambda>(_, node_list, i, _, _). length node_list - i)") (auto simp: rd_eq_Some_iff)

declare optimize_forward_loop.simps [simp del]

definition optimize_node_forward ::
  "bool \<Rightarrow> 's ops \<Rightarrow> 's graph \<Rightarrow> node_id list \<Rightarrow> (vsi_status \<times> 's graph) option" where
  "optimize_node_forward buf_ok ops g node_list =
     (if \<not> buf_ok then Some (VSI_FAILURE, g)
      else optimize_forward_loop ops node_list 0 VSI_SUCCESS g)"

definition optimize_node ::
  "bool \<Rightarrow> 's ops \<Rightarrow> 's graph \<Rightarrow> node_id list \<Rightarrow> (vsi_status \<times> 's graph) option" where
  "optimize_node buf_ok ops g node_list = do {
     r \<leftarrow> optimize_node_backward buf_ok ops g node_list;
     if fst r \<noteq> VSI_SUCCESS then Some (VSI_FAILURE, snd r)
     else do {
       r2 \<leftarrow> optimize_node_forward buf_ok ops (snd r) node_list;
       if fst r2 \<noteq> VSI_SUCCESS then Some (VSI_FAILURE, snd r2) else Some r2 } }"

subsection \<open>Computing\<close>

text \<open>The outputs without a driver tensor get one.\<close>

fun reinit_outputs :: "'s ops \<Rightarrow> ptr option list \<Rightarrow> nat \<Rightarrow> nat \<Rightarrow> 's graph \<Rightarrow> 's graph option" where
  "reinit_outputs ops outs j 0 g = Some g"
| "reinit_outputs ops outs j (Suc n) g = do {
     o1 \<leftarrow> rd outs j;
     reinit_outputs ops outs (Suc j) n
       (case o1 of None \<Rightarrow> g
        | Some t \<Rightarrow> if t_vx (g_tensors g t) \<noteq> None then g else tensor_reinit ops t g) }"

text \<open>\<open>_set_reference_tensor_name\<close> and \<open>_set_reference_node_name\<close> stop at the first failure.\<close>

fun name_outputs ::
  "'s ops \<Rightarrow> uint32 \<Rightarrow> tensor_id list \<Rightarrow> nat \<Rightarrow> vsi_status \<Rightarrow> 's graph \<Rightarrow> vsi_status \<times> 's graph" where
  "name_outputs ops uid [] i status g = (status, g)"
| "name_outputs ops uid (tid # tids) i status g =
     (case GetTensor g tid of
        None \<Rightarrow> name_outputs ops uid tids (Suc i) status g
      | Some t \<Rightarrow>
          if t_vx (g_tensors g t) = None then name_outputs ops uid tids (Suc i) status g
          else (let (st, g1) = vx_name_tensor ops t uid i g
                in if st \<noteq> VSI_SUCCESS then (st, g1) else name_outputs ops uid tids (Suc i) st g1))"

definition set_reference_tensor_name :: "'s ops \<Rightarrow> ptr \<Rightarrow> 's graph \<Rightarrow> vsi_status \<times> 's graph" where
  "set_reference_tensor_name ops p g =
     name_outputs ops (n_uid (g_nodes g p)) (n_outputs (g_nodes g p)) 0 VSI_SUCCESS g"

definition set_reference_node_name :: "'s ops \<Rightarrow> ptr \<Rightarrow> 's graph \<Rightarrow> vsi_status \<times> 's graph" where
  "set_reference_node_name ops p g = vx_name_node ops p (n_uid (g_nodes g p)) g"

text \<open>
  A failure to name a node or to update its attributes is only logged: the status of the
  loop is then that of the last step, and the pass returns it after the last node.
\<close>

function compute_loop ::
  "'s ops \<Rightarrow> node_id list \<Rightarrow> nat \<Rightarrow> vsi_status \<Rightarrow> 's graph \<Rightarrow> (vsi_status \<times> 's graph) option" where
  "compute_loop ops node_list i status g =
     (if i < unat (node_num g) then do {
        nid \<leftarrow> rd node_list i;
        case GetNode g nid of
          None \<Rightarrow> Some (status, g)
        | Some p \<Rightarrow> do {
            io \<leftarrow> fetch_io g p;
            g1 \<leftarrow> reinit_outputs ops (snd io) 0 (length (n_outputs (g_nodes g p))) g;
            let (_, g2) = set_reference_tensor_name ops p g1;
            let (st, g3) = op_compute ops p (fst io) (snd io) g2;
            if st \<noteq> VSI_SUCCESS then Some (st, g3)
            else do {
              let (_, g4) = set_reference_node_name ops p g3;
              let (st5, g5) = update_node_attr ops p g4;
              compute_loop ops node_list (Suc i) st5 g5 } } }
      else Some (status, g))"
  by pat_completeness auto
termination
  by (relation "measure (\<lambda>(_, node_list, i, _, _). length node_list - i)") (auto simp: rd_eq_Some_iff)

declare compute_loop.simps [simp del]

definition compute_node ::
  "bool \<Rightarrow> 's ops \<Rightarrow> 's graph \<Rightarrow> node_id list \<Rightarrow> (vsi_status \<times> 's graph) option" where
  "compute_node buf_ok ops g node_list =
     (if \<not> buf_ok then Some (VSI_FAILURE, g) else compute_loop ops node_list 0 VSI_SUCCESS g)"

subsection \<open>Precision\<close>

definition TYPE_FLOAT32 :: int where "TYPE_FLOAT32 = 10"

fun mark_float32 :: "'s ops \<Rightarrow> ptr option list \<Rightarrow> nat \<Rightarrow> nat \<Rightarrow> 's graph \<Rightarrow> 's graph option" where
  "mark_float32 ops ts j 0 g = Some g"
| "mark_float32 ops ts j (Suc n) g = do {
     t \<leftarrow> rd ts j;
     mark_float32 ops ts (Suc j) n
       (case t of None \<Rightarrow> g
        | Some p \<Rightarrow> if attr_vx_type (t_attr (g_tensors g p)) = TYPE_FLOAT32
                    then set_high_precision ops p g else g) }"

function precision_loop ::
  "'s ops \<Rightarrow> node_id list \<Rightarrow> nat \<Rightarrow> 's graph \<Rightarrow> (vsi_status \<times> 's graph) option" where
  "precision_loop ops node_list i g =
     (if i < unat (node_num g) then do {
        nid \<leftarrow> rd node_list i;
        case GetNode g nid of
          None \<Rightarrow> Some (VSI_SUCCESS, g)
        | Some p \<Rightarrow> do {
            io \<leftarrow> fetch_io g p;
            g1 \<leftarrow> mark_float32 ops (fst io) 0 (length (n_inputs (g_nodes g p))) g;
            g2 \<leftarrow> mark_float32 ops (snd io) 0 (length (n_outputs (g_nodes g1 p))) g1;
            precision_loop ops node_list (Suc i) g2 } }
      else Some (VSI_SUCCESS, g))"
  by pat_completeness auto
termination
  by (relation "measure (\<lambda>(_, node_list, i, _). length node_list - i)") (auto simp: rd_eq_Some_iff)

declare precision_loop.simps [simp del]

definition set_graph_precision ::
  "bool \<Rightarrow> 's ops \<Rightarrow> 's graph \<Rightarrow> node_id list \<Rightarrow> (vsi_status \<times> 's graph) option" where
  "set_graph_precision buf_ok ops g node_list =
     (if \<not> buf_ok then Some (VSI_FAILURE, g)
      else if fast_mode ops g then Some (VSI_SUCCESS, g)
      else precision_loop ops node_list 0 g)"

subsection \<open>SetupGraph\<close>

text \<open>
  The phases after the node list is made; \<open>and_then\<close> is the \<open>goto final\<close> on a status other
  than success. \<open>bufs\<close> tells for each phase whether its buffers are allocated.
\<close>

definition and_then ::
  "(vsi_status \<times> 's graph) option \<Rightarrow> ('s graph \<Rightarrow> (vsi_status \<times> 's graph) option)
   \<Rightarrow> (vsi_status \<times> 's graph) option" where
  "and_then r f = do { x \<leftarrow> r; if fst x \<noteq> VSI_SUCCESS then Some x else f (snd x) }"

record setup_mem =
  list_ok :: bool
  sort_ok :: bool
  buf_ok :: bool

definition setup_phases ::
  "bool \<Rightarrow> 's ops \<Rightarrow> node_id list \<Rightarrow> 's graph \<Rightarrow> (vsi_status \<times> 's graph) option" where
  "setup_phases bufs ops nodes_list g =
     and_then (Some (update_max_node_io g nodes_list)) (\<lambda>g.
     and_then (setup_node bufs ops g nodes_list) (\<lambda>g.
     and_then (optimize_node bufs ops g nodes_list) (\<lambda>g.
     and_then (set_graph_precision bufs ops g nodes_list) (\<lambda>g.
     and_then (compute_node bufs ops g nodes_list) (\<lambda>g.
     and_then (set_graph_precision bufs ops g nodes_list) (\<lambda>g.
     and_then (Some (complete_signal ops g)) (\<lambda>g.
     Some (binary_io ops g))))))))"

definition SetupGraph ::
  "setup_mem \<Rightarrow> 's ops \<Rightarrow> 's graph \<Rightarrow> bool \<Rightarrow> (vsi_status \<times> 's graph) option" where
  "SetupGraph mem ops g srt =
     (let (status, dirty, g1) = optimize_graph ops g
      in if status \<noteq> VSI_SUCCESS then Some (status, g1)
         else if \<not> list_ok mem then Some (status, g1)
         else if srt \<or> dirty then do {
           r \<leftarrow> SortGraphNode (sort_ok mem) g1;
           case r of
             None \<Rightarrow> Some (status, g1)
           | Some sorted_nodes \<Rightarrow> setup_phases (buf_ok mem) ops sorted_nodes g1 }
         else setup_phases (buf_ok mem) ops (ids_below (node_num g1)) g1)"

subsection \<open>InferShape\<close>

definition OP_NBG :: int where "OP_NBG = 68"

fun has_nbg :: "'s graph \<Rightarrow> node_id list \<Rightarrow> bool" where
  "has_nbg g [] = False"
| "has_nbg g (nid # nids) =
     (case node_at_id g nid of
        None \<Rightarrow> has_nbg g nids
      | Some n \<Rightarrow> n_op n = OP_NBG \<or> has_nbg g nids)"

definition reset_shape :: "ptr \<Rightarrow> 's graph \<Rightarrow> 's graph" where
  "reset_shape p g = g\<lparr>g_tensors := (g_tensors g)(p := (g_tensors g p)\<lparr>t_attr :=
     (t_attr (g_tensors g p))\<lparr>attr_dim_num := 0, attr_size := replicate 8 0\<rparr>\<rparr>)\<rparr>"

fun reset_outputs :: "ptr option list \<Rightarrow> nat \<Rightarrow> nat \<Rightarrow> 's graph \<Rightarrow> 's graph option" where
  "reset_outputs outs j 0 g = Some g"
| "reset_outputs outs j (Suc n) g = do {
     o1 \<leftarrow> rd outs j;
     reset_outputs outs (Suc j) n (case o1 of None \<Rightarrow> g | Some p \<Rightarrow> reset_shape p g) }"

text \<open>\<open>reset_loop\<close>: \<open>Inl\<close> is the jump to \<open>final\<close> on a missing node.\<close>

fun reset_loop ::
  "'s ops \<Rightarrow> node_id list \<Rightarrow> 's graph \<Rightarrow> ('s graph + 's graph) option" where
  "reset_loop ops [] g = Some (Inr g)"
| "reset_loop ops (nid # nids) g =
     (case GetNode g nid of
        None \<Rightarrow> Some (Inl g)
      | Some p \<Rightarrow> do {
          outs \<leftarrow> GetTensors g (n_outputs (g_nodes g p)) (of_nat (length (n_outputs (g_nodes g p))))
                    (replicate (unat (max_node_io g)) None);
          g1 \<leftarrow> reset_outputs outs 0 (length (n_outputs (g_nodes g p))) g;
          reset_loop ops nids (init_node_wksp ops p g1) })"

definition InferShape ::
  "setup_mem \<Rightarrow> 's ops \<Rightarrow> 's graph \<Rightarrow> (vsi_status \<times> 's graph) option" where
  "InferShape mem ops g =
     (if has_nbg g (ids_below (node_num g)) then Some (VSI_FAILURE, g)
      else if \<not> buf_ok mem then Some (VSI_FAILURE, g)
      else do {
        r \<leftarrow> reset_loop ops (ids_below (node_num g)) g;
        case r of
          Inl g1 \<Rightarrow> Some (VSI_SUCCESS, g1)
        | Inr g1 \<Rightarrow>
            if \<not> list_ok mem then Some (VSI_SUCCESS, g1)
            else setup_node (buf_ok mem) ops g1 (ids_below (node_num g1)) })"


subsection \<open>A missing order is reported as success\<close>

lemma SetupGraph_unsorted:
  "optimize_graph ops g = (VSI_SUCCESS, dirty, g1) \<Longrightarrow> list_ok mem \<Longrightarrow> srt \<or> dirty \<Longrightarrow>
   SortGraphNode (sort_ok mem) g1 = Some None \<Longrightarrow> SetupGraph mem ops g srt = Some (VSI_SUCCESS, g1)"
  by (auto simp: SetupGraph_def)

text \<open>
  C26: when the graph cannot be ordered (it has a cycle, or one of its nodes was removed),
  \<open>vsi_nn_SetupGraph\<close> with sorting returns \<open>VSI_SUCCESS\<close>, although no node was set up or
  computed: the graph is what \<open>vsi_nn_OptimizeGraph\<close> left.
\<close>

theorem setup_cyclic_graph_succeeds:
  assumes "optimize_graph ops g = (VSI_SUCCESS, dirty, g1)" "list_ok mem" "srt \<or> dirty" "refs_ok g1"
    "\<nexists>order. mset order = mset (ids_below (node_num g1)) \<and> topo_from g1 [] order"
  shows "SetupGraph mem ops g srt = Some (VSI_SUCCESS, g1)"
proof -
  have "SortGraphNode True g1 = Some None" using sort_result_iff[OF assms(4)] assms(5) by blast
  then have "SortGraphNode (sort_ok mem) g1 = Some None" by (cases "sort_ok mem") (simp_all add: SortGraphNode_def)
  then show ?thesis using assms(1-3) by (intro SetupGraph_unsorted)
qed

subsection \<open>A missing node is reported as success\<close>

lemma missing_first:
  assumes "0 < node_num g" "GetNode g 0 = None"
  shows "setup_loop ops (ids_below (node_num g)) 0 g = Some (VSI_SUCCESS, g)"
    "optimize_forward_loop ops (ids_below (node_num g)) 0 st g = Some (st, g)"
    "compute_loop ops (ids_below (node_num g)) 0 st g = Some (st, g)"
    "precision_loop ops (ids_below (node_num g)) 0 g = Some (VSI_SUCCESS, g)"
proof -
  have n: "0 < unat (node_num g)" using assms(1) by (simp add: word_less_nat_alt)
  then have r: "rd (ids_below (node_num g)) 0 = Some 0" by (simp add: ids_below_simps)
  show "setup_loop ops (ids_below (node_num g)) 0 g = Some (VSI_SUCCESS, g)"
    using n r assms(2) by (subst setup_loop.simps) simp
  show "optimize_forward_loop ops (ids_below (node_num g)) 0 st g = Some (st, g)"
    using n r assms(2) by (subst optimize_forward_loop.simps) simp
  show "compute_loop ops (ids_below (node_num g)) 0 st g = Some (st, g)"
    using n r assms(2) by (subst compute_loop.simps) simp
  show "precision_loop ops (ids_below (node_num g)) 0 g = Some (VSI_SUCCESS, g)"
    using n r assms(2) by (subst precision_loop.simps) simp
qed

text \<open>
  On a graph with two or more identifiers whose first node was removed and that is not
  sorted, each pass that walks the nodes forward stops at the missing node with success.
  If shape inference is asked for, it returns \<open>VSI_SUCCESS\<close> and infers nothing.
\<close>

theorem infer_shape_missing_node:
  assumes "0 < node_num g" "GetNode g 0 = None" "buf_ok mem" "\<not> has_nbg g (ids_below (node_num g))"
  shows "setup_node True ops g (ids_below (node_num g)) = Some (VSI_SUCCESS, g) \<and>
    compute_node True ops g (ids_below (node_num g)) = Some (VSI_SUCCESS, g) \<and>
    InferShape mem ops g = Some (VSI_SUCCESS, g)"
proof -
  have n: "0 < unat (node_num g)" using assms(1) by (simp add: word_less_nat_alt)
  then have "ids_below (node_num g) = 0 # tl (ids_below (node_num g))"
    by (simp add: ids_below_def upt_conv_Cons del: upt_Suc)
  then obtain js where "ids_below (node_num g) = 0 # js" by blast
  then have "reset_loop ops (ids_below (node_num g)) g = Some (Inl g)" using assms(2) by simp
  then show ?thesis using missing_first[OF assms(1,2)] assms(3,4)
    by (simp add: setup_node_def compute_node_def InferShape_def)
qed

subsection \<open>The passes as folds\<close>

text \<open>
  Operations that leave the table of nodes alone, as those of the library do: they may
  change tensors and the parameters of nodes.
\<close>

definition same_nodes :: "'s graph \<Rightarrow> 's graph \<Rightarrow> bool" where
  "same_nodes g g' \<longleftrightarrow> node_table g' = node_table g \<and> node_num g' = node_num g"

definition keeps_nodes :: "'s ops \<Rightarrow> bool" where
  "keeps_nodes ops \<longleftrightarrow>
     (\<forall>p i o1 g. same_nodes g (snd (op_check ops p i o1 g))) \<and>
     (\<forall>p i o1 g. same_nodes g (snd (op_generate ops p i o1 g))) \<and>
     (\<forall>d p i o1 g. same_nodes g (snd (op_optimize ops d p i o1 g))) \<and>
     (\<forall>p i o1 g. same_nodes g (snd (op_compute ops p i o1 g))) \<and>
     (\<forall>p g. same_nodes g (tensor_reinit ops p g)) \<and>
     (\<forall>p u i g. same_nodes g (snd (vx_name_tensor ops p u i g))) \<and>
     (\<forall>p u g. same_nodes g (snd (vx_name_node ops p u g))) \<and>
     (\<forall>p g. same_nodes g (snd (update_node_attr ops p g))) \<and>
     (\<forall>p g. same_nodes g (set_high_precision ops p g))"

lemma same_nodes_refl [simp]: "same_nodes g g"
  by (simp add: same_nodes_def)

lemma same_nodes_trans: "same_nodes a b \<Longrightarrow> same_nodes b c \<Longrightarrow> same_nodes a c"
  by (simp add: same_nodes_def)

lemma same_nodes_GetNode: "same_nodes g g' \<Longrightarrow> GetNode g' nid = GetNode g nid"
  by (simp add: same_nodes_def GetNode_def)

text \<open>One node of each pass that succeeds: setup, the two optimizations, precision, and compute.\<close>

definition setup_one :: "'s ops \<Rightarrow> node_id \<Rightarrow> 's graph \<Rightarrow> 's graph option" where
  "setup_one ops nid g = do {
     p \<leftarrow> GetNode g nid;
     io \<leftarrow> fetch_io g p;
     let (ok, g1) = op_check ops p (fst io) (snd io) g;
     let (ret, g2) = op_generate ops p (fst io) (snd io) g1;
     if ok \<and> ret then Some g2 else None }"

definition optimize_one :: "'s ops \<Rightarrow> opt_direction \<Rightarrow> node_id \<Rightarrow> 's graph \<Rightarrow> 's graph option" where
  "optimize_one ops d nid g = do {
     p \<leftarrow> GetNode g nid;
     io \<leftarrow> fetch_io g p;
     let (st, g1) = op_optimize ops d p (fst io) (snd io) g;
     if st = VSI_SUCCESS then Some g1 else None }"

definition precision_one :: "'s ops \<Rightarrow> node_id \<Rightarrow> 's graph \<Rightarrow> 's graph option" where
  "precision_one ops nid g = do {
     p \<leftarrow> GetNode g nid;
     io \<leftarrow> fetch_io g p;
     g1 \<leftarrow> mark_float32 ops (fst io) 0 (length (n_inputs (g_nodes g p))) g;
     mark_float32 ops (snd io) 0 (length (n_outputs (g_nodes g1 p))) g1 }"

definition compute_one :: "'s ops \<Rightarrow> node_id \<Rightarrow> 's graph \<Rightarrow> 's graph option" where
  "compute_one ops nid g = do {
     p \<leftarrow> GetNode g nid;
     io \<leftarrow> fetch_io g p;
     g1 \<leftarrow> reinit_outputs ops (snd io) 0 (length (n_outputs (g_nodes g p))) g;
     let g2 = snd (set_reference_tensor_name ops p g1);
     let (st, g3) = op_compute ops p (fst io) (snd io) g2;
     let g4 = snd (set_reference_node_name ops p g3);
     if st = VSI_SUCCESS then Some (snd (update_node_attr ops p g4)) else None }"

definition run_nodes :: "(node_id \<Rightarrow> 's graph \<Rightarrow> 's graph option) \<Rightarrow> node_id list \<Rightarrow> 's graph \<Rightarrow> 's graph option" where
  "run_nodes f nids g = foldl (\<lambda>r nid. Option.bind r (f nid)) (Some g) nids"

definition precision_pass :: "'s ops \<Rightarrow> node_id list \<Rightarrow> 's graph \<Rightarrow> 's graph option" where
  "precision_pass ops nids g = (if fast_mode ops g then Some g else run_nodes (precision_one ops) nids g)"

lemma foldl_bind_None: "foldl (\<lambda>r nid. Option.bind r (f nid)) None nids = None"
  by (induction nids) simp_all

lemma run_nodes_simps [simp]:
  "run_nodes f [] g = Some g"
  "run_nodes f (nid # nids) g = Option.bind (f nid g) (run_nodes f nids)"
  by (simp_all add: run_nodes_def foldl_bind_None split: Option.bind_split)

lemma setup_loop_fold:
  assumes "keeps_nodes ops" "\<forall>nid \<in> set node_list. GetNode g nid \<noteq> None"
    "unat (node_num g) = length node_list" "i \<le> length node_list"
  shows "setup_loop ops node_list i g = Some (VSI_SUCCESS, g') \<longleftrightarrow>
    run_nodes (setup_one ops) (drop i node_list) g = Some g'"
  using assms
proof (induction ops node_list i g rule: setup_loop.induct)
  case (1 ops node_list i g)
  show ?case
  proof (cases "i < length node_list")
    case False
    then show ?thesis using 1(4,5) by (subst setup_loop.simps) auto
  next
    case i: True
    then have lt: "i < unat (node_num g)" and rd: "rd node_list i = Some (node_list ! i)" using 1(4) by simp_all
    have dr: "drop i node_list = node_list ! i # drop (Suc i) node_list" using i by (simp add: Cons_nth_drop_Suc)
    obtain p where p: "GetNode g (node_list ! i) = Some p" using 1(3) i by fastforce
    show ?thesis
    proof (cases "fetch_io g p")
      case None
      then show ?thesis using lt rd p unfolding dr by (subst setup_loop.simps) (simp add: setup_one_def)
    next
      case (Some io)
      obtain ok g1 where c: "op_check ops p (fst io) (snd io) g = (ok, g1)" by fastforce
      obtain ret g2 where ge: "op_generate ops p (fst io) (snd io) g1 = (ret, g2)" by fastforce
      have "same_nodes g g1" "same_nodes g1 g2"
        using 1(2) c ge unfolding keeps_nodes_def by (metis snd_conv)+
      then have sn: "same_nodes g g2" by (rule same_nodes_trans)
      show ?thesis
      proof (cases "ok \<and> ret")
        case True
        have "setup_loop ops node_list (Suc i) g2 = Some (VSI_SUCCESS, g') \<longleftrightarrow>
            run_nodes (setup_one ops) (drop (Suc i) node_list) g2 = Some g'"
        proof (rule 1(1)[OF lt rd p Some c[symmetric] refl _ ge[symmetric] refl _ 1(2)])
          show "\<forall>nid \<in> set node_list. GetNode g2 nid \<noteq> None"
            using 1(3) same_nodes_GetNode[OF sn] by simp
          show "unat (node_num g2) = length node_list" using 1(4) sn by (simp add: same_nodes_def)
        qed (use True i in simp_all)
        then show ?thesis using lt rd p Some c ge True unfolding dr
          by (subst setup_loop.simps) (simp add: setup_one_def)
      next
        case False
        then show ?thesis using lt rd p Some c ge unfolding dr
          by (subst setup_loop.simps) (auto simp: setup_one_def VSI_SUCCESS_def VSI_FAILURE_def)
      qed
    qed
  qed
qed


lemma keeps_nodesD:
  assumes "keeps_nodes ops"
  shows "op_check ops p i o1 g = (ok, g') \<Longrightarrow> same_nodes g g'"
    "op_generate ops p i o1 g = (ok, g') \<Longrightarrow> same_nodes g g'"
    "op_optimize ops d p i o1 g = (st, g') \<Longrightarrow> same_nodes g g'"
    "op_compute ops p i o1 g = (st, g') \<Longrightarrow> same_nodes g g'"
    "same_nodes g (tensor_reinit ops p g)"
    "vx_name_tensor ops p u k g = (st, g') \<Longrightarrow> same_nodes g g'"
    "vx_name_node ops p u g = (st, g') \<Longrightarrow> same_nodes g g'"
    "update_node_attr ops p g = (st, g') \<Longrightarrow> same_nodes g g'"
    "same_nodes g (set_high_precision ops p g)"
  using assms unfolding keeps_nodes_def by (metis snd_conv)+

lemma reinit_keeps:
  "keeps_nodes ops \<Longrightarrow> reinit_outputs ops outs j n g = Some g' \<Longrightarrow> same_nodes g g'"
proof (induction ops outs j n g rule: reinit_outputs.induct)
  case (2 ops outs j n g)
  then obtain o1 where o1: "rd outs j = Some o1" by auto
  let ?h = "case o1 of None \<Rightarrow> g
    | Some t \<Rightarrow> if t_vx (g_tensors g t) \<noteq> None then g else tensor_reinit ops t g"
  have "same_nodes ?h g'" using 2(1)[OF o1 2(2)] 2(3) o1 by simp
  moreover have "same_nodes g ?h" using keeps_nodesD(5)[OF 2(2)] by (simp split: option.splits)
  ultimately show ?case using same_nodes_trans by blast
qed simp

lemma name_outputs_keeps:
  "keeps_nodes ops \<Longrightarrow> same_nodes g (snd (name_outputs ops uid tids i status g))"
proof (induction ops uid tids i status g rule: name_outputs.induct)
  case (2 ops uid tid tids i status g)
  show ?case
  proof (cases "GetTensor g tid")
    case None
    then show ?thesis using 2 by simp
  next
    case (Some t)
    obtain st g1 where n: "vx_name_tensor ops t uid i g = (st, g1)" by fastforce
    have k: "same_nodes g g1" using keeps_nodesD(6)[OF 2(4) n] .
    show ?thesis
    proof (cases "t_vx (g_tensors g t) = None \<or> st \<noteq> VSI_SUCCESS")
      case True
      then show ?thesis using 2(2)[OF Some] 2(4) Some n k by auto
    next
      case False
      then have "same_nodes g1 (snd (name_outputs ops uid tids (Suc i) st g1))"
        using 2(3)[OF Some _ n[symmetric] refl _ 2(4)] by simp
      then show ?thesis using Some n False same_nodes_trans[OF k] by auto
    qed
  qed
qed simp

lemma compute_one_keeps:
  assumes k: "keeps_nodes ops" and r: "compute_one ops nid g = Some g'"
  shows "same_nodes g g'"
proof -
  obtain p io g1 where g1: "reinit_outputs ops (snd io) 0 (length (n_outputs (g_nodes g p))) g = Some g1"
    "(let g2 = snd (set_reference_tensor_name ops p g1);
          (st, g3) = op_compute ops p (fst io) (snd io) g2;
          g4 = snd (set_reference_node_name ops p g3)
      in if st = VSI_SUCCESS then Some (snd (update_node_attr ops p g4)) else None) = Some g'"
    using r by (auto simp: compute_one_def bind_eq_Some_iff)
  obtain st2 g2 where g2: "set_reference_tensor_name ops p g1 = (st2, g2)" by fastforce
  obtain st g3 where g3: "op_compute ops p (fst io) (snd io) g2 = (st, g3)" by fastforce
  obtain st4 g4 where g4: "set_reference_node_name ops p g3 = (st4, g4)" by fastforce
  obtain st5 g5 where g5: "update_node_attr ops p g4 = (st5, g5)" by fastforce
  have "same_nodes g g1" using reinit_keeps[OF k g1(1)] .
  moreover have "same_nodes g1 g2"
    using name_outputs_keeps[OF k, of g1] g2 by (metis set_reference_tensor_name_def snd_conv)
  moreover have "same_nodes g2 g3" using keeps_nodesD(4)[OF k g3] .
  moreover have "same_nodes g3 g4" using keeps_nodesD(7)[OF k] g4 by (metis set_reference_node_name_def)
  moreover have "same_nodes g4 g5" using keeps_nodesD(8)[OF k g5] .
  moreover have "g' = g5" using g1(2) g2 g3 g4 g5 by (simp split: if_splits)
  ultimately show ?thesis by (blast intro: same_nodes_trans)
qed

lemma run_nodes_keeps:
  "run_nodes f nids g = Some g' \<Longrightarrow> (\<And>nid h h'. f nid h = Some h' \<Longrightarrow> same_nodes h h') \<Longrightarrow> same_nodes g g'"
proof (induction nids arbitrary: g)
  case (Cons nid nids)
  then obtain h where "f nid g = Some h" "run_nodes f nids h = Some g'" by (auto simp: bind_eq_Some_iff)
  then show ?case using Cons by (blast intro: same_nodes_trans)
qed simp

lemma compute_loop_fold:
  assumes "keeps_nodes ops" "\<forall>nid \<in> set node_list. GetNode g nid \<noteq> None"
    "unat (node_num g) = length node_list" "i \<le> length node_list"
    "compute_loop ops node_list i status g = Some (VSI_SUCCESS, g')"
  shows "run_nodes (compute_one ops) (drop i node_list) g = Some g'"
  using assms
proof (induction ops node_list i status g rule: compute_loop.induct)
  case (1 ops node_list i status g)
  note eq = 1(6)[unfolded compute_loop.simps[of ops node_list i status g]]
  show ?case
  proof (cases "i < length node_list")
    case False
    then show ?thesis using 1(4,5) eq by auto
  next
    case i: True
    then have lt: "i < unat (node_num g)" and rd: "rd node_list i = Some (node_list ! i)" using 1(4) by simp_all
    have dr: "drop i node_list = node_list ! i # drop (Suc i) node_list" using i by (simp add: Cons_nth_drop_Suc)
    obtain p where p: "GetNode g (node_list ! i) = Some p" using 1(3) i by fastforce
    obtain io where io: "fetch_io g p = Some io" using eq lt rd p by auto
    obtain g1 where g1: "reinit_outputs ops (snd io) 0 (length (n_outputs (g_nodes g p))) g = Some g1"
      using eq lt rd p io by auto
    obtain st2 g2 where g2: "set_reference_tensor_name ops p g1 = (st2, g2)" by fastforce
    obtain st g3 where g3: "op_compute ops p (fst io) (snd io) g2 = (st, g3)" by fastforce
    obtain st4 g4 where g4: "set_reference_node_name ops p g3 = (st4, g4)" by fastforce
    obtain st5 g5 where g5: "update_node_attr ops p g4 = (st5, g5)" by fastforce
    have st: "st = VSI_SUCCESS" using eq lt rd p io g1 g2 g3 by (auto split: if_splits)
    have one: "compute_one ops (node_list ! i) g = Some g5"
      using p io g1 g2 g3 g4 g5 st by (simp add: compute_one_def)
    have sn: "same_nodes g g5" by (rule compute_one_keeps[OF 1(2) one])
    have rest: "compute_loop ops node_list (Suc i) st5 g5 = Some (VSI_SUCCESS, g')"
      using eq lt rd p io g1 g2 g3 g4 g5 st by simp
    have "run_nodes (compute_one ops) (drop (Suc i) node_list) g5 = Some g'"
    proof (rule 1(1)[OF lt rd p io g1 g2[symmetric] refl g3[symmetric] refl _ g4[symmetric] refl
          g5[symmetric] refl 1(2)])
      show "\<forall>nid \<in> set node_list. GetNode g5 nid \<noteq> None" using 1(3) same_nodes_GetNode[OF sn] by simp
      show "unat (node_num g5) = length node_list" using 1(4) sn by (simp add: same_nodes_def)
    qed (use st i rest in simp_all)
    then show ?thesis unfolding dr using one by simp
  qed
qed

lemma setup_loop_keeps:
  "keeps_nodes ops \<Longrightarrow> setup_loop ops node_list i g = Some (st, g') \<Longrightarrow> same_nodes g g'"
proof (induction ops node_list i g rule: setup_loop.induct)
  case (1 ops node_list i g)
  note eq = 1(3)[unfolded setup_loop.simps[of ops node_list i g]]
  show ?case
  proof (cases "i < unat (node_num g)")
    case False
    then show ?thesis using eq by simp
  next
    case lt: True
    then obtain nid where rd: "rd node_list i = Some nid" using eq by auto
    show ?thesis
    proof (cases "GetNode g nid")
      case None
      then show ?thesis using eq lt rd by simp
    next
      case (Some p)
      then obtain io where io: "fetch_io g p = Some io" using eq lt rd by auto
      obtain ok g1 where c: "op_check ops p (fst io) (snd io) g = (ok, g1)" by fastforce
      obtain ret g2 where ge: "op_generate ops p (fst io) (snd io) g1 = (ret, g2)" by fastforce
      note k = keeps_nodesD(1)[OF 1(2) c] keeps_nodesD(2)[OF 1(2) ge]
      show ?thesis
      proof (cases "ok \<and> ret")
        case True
        then have "same_nodes g2 g'"
          using 1(1)[OF lt rd Some io c[symmetric] refl _ ge[symmetric] refl _ 1(2)] eq lt rd Some io c ge
          by simp
        then show ?thesis using k same_nodes_trans by blast
      next
        case False
        then show ?thesis using eq lt rd Some io c ge k by (auto split: if_splits intro: same_nodes_trans)
      qed
    qed
  qed
qed

lemma backward_keeps:
  "keeps_nodes ops \<Longrightarrow> optimize_backward_loop ops node_list n status g = Some (st, g') \<Longrightarrow> same_nodes g g'"
proof (induction n arbitrary: status g)
  case (Suc n)
  then obtain nid where rd: "rd node_list n = Some nid" by auto
  show ?case
  proof (cases "GetNode g nid")
    case None
    then show ?thesis using Suc.prems rd by simp
  next
    case (Some p)
    then obtain io where io: "fetch_io g p = Some io" using Suc.prems rd by auto
    obtain s g1 where o1: "op_optimize ops Backward p (fst io) (snd io) g = (s, g1)" by fastforce
    show ?thesis using Suc.prems rd Some io o1 keeps_nodesD(3)[OF Suc.prems(1) o1] Suc.IH[of s g1]
      by (auto split: if_splits intro: same_nodes_trans)
  qed
qed simp

lemma forward_keeps:
  "keeps_nodes ops \<Longrightarrow> optimize_forward_loop ops node_list i status g = Some (st, g') \<Longrightarrow> same_nodes g g'"
proof (induction ops node_list i status g rule: optimize_forward_loop.induct)
  case (1 ops node_list i status g)
  note eq = 1(3)[unfolded optimize_forward_loop.simps[of ops node_list i status g]]
  show ?case
  proof (cases "i < unat (node_num g)")
    case lt: True
    then obtain nid where rd: "rd node_list i = Some nid" using eq by auto
    show ?thesis
    proof (cases "GetNode g nid")
      case None
      then show ?thesis using eq lt rd by simp
    next
      case (Some p)
      then obtain io where io: "fetch_io g p = Some io" using eq lt rd by auto
      obtain s g1 where o1: "op_optimize ops Forward p (fst io) (snd io) g = (s, g1)" by fastforce
      show ?thesis
        using eq lt rd Some io o1 keeps_nodesD(3)[OF 1(2) o1] 1(1)[OF lt rd Some io o1[symmetric] refl _ 1(2)]
        by (auto split: if_splits intro: same_nodes_trans)
    qed
  qed (use eq in simp)
qed

lemma mark_float32_keeps:
  "keeps_nodes ops \<Longrightarrow> mark_float32 ops ts j n g = Some g' \<Longrightarrow> same_nodes g g'"
proof (induction ops ts j n g rule: mark_float32.induct)
  case (2 ops ts j n g)
  then obtain t where t: "rd ts j = Some t" by auto
  let ?h = "case t of None \<Rightarrow> g
    | Some p \<Rightarrow> if attr_vx_type (t_attr (g_tensors g p)) = TYPE_FLOAT32 then set_high_precision ops p g else g"
  have "same_nodes ?h g'" using 2(1)[OF t 2(2)] 2(3) t by simp
  moreover have "same_nodes g ?h" using keeps_nodesD(9)[OF 2(2)] by (simp split: option.splits)
  ultimately show ?case using same_nodes_trans by blast
qed simp

lemma precision_keeps:
  "keeps_nodes ops \<Longrightarrow> precision_loop ops node_list i g = Some (st, g') \<Longrightarrow> same_nodes g g'"
proof (induction ops node_list i g rule: precision_loop.induct)
  case (1 ops node_list i g)
  note eq = 1(3)[unfolded precision_loop.simps[of ops node_list i g]]
  show ?case
  proof (cases "i < unat (node_num g)")
    case lt: True
    then obtain nid where rd: "rd node_list i = Some nid" using eq by auto
    show ?thesis
    proof (cases "GetNode g nid")
      case None
      then show ?thesis using eq lt rd by simp
    next
      case (Some p)
      then obtain io where io: "fetch_io g p = Some io" using eq lt rd by auto
      then obtain g1 where g1: "mark_float32 ops (fst io) 0 (length (n_inputs (g_nodes g p))) g = Some g1"
        using eq lt rd Some by auto
      then obtain g2 where g2: "mark_float32 ops (snd io) 0 (length (n_outputs (g_nodes g1 p))) g1 = Some g2"
        using eq lt rd Some io by auto
      have "same_nodes g2 g'" using 1(1)[OF lt rd Some io g1 g2 1(2)] eq lt rd Some io g1 g2 by simp
      then show ?thesis
        using mark_float32_keeps[OF 1(2) g1] mark_float32_keeps[OF 1(2) g2] same_nodes_trans by blast
    qed
  qed (use eq in simp)
qed


lemma backward_fold:
  assumes "keeps_nodes ops" "\<forall>nid \<in> set node_list. GetNode g nid \<noteq> None" "n \<le> length node_list"
    "optimize_backward_loop ops node_list n status g = Some (VSI_SUCCESS, g')"
  shows "run_nodes (optimize_one ops Backward) (rev (take n node_list)) g = Some g'"
  using assms
proof (induction n arbitrary: status g)
  case (Suc n)
  then have n: "n < length node_list" and rd: "rd node_list n = Some (node_list ! n)" by simp_all
  have t: "rev (take (Suc n) node_list) = node_list ! n # rev (take n node_list)" using n by (simp add: take_Suc_conv_app_nth)
  obtain p where p: "GetNode g (node_list ! n) = Some p" using Suc.prems(2) n by fastforce
  obtain io where io: "fetch_io g p = Some io" using Suc.prems(4) rd p by auto
  obtain st g1 where o1: "op_optimize ops Backward p (fst io) (snd io) g = (st, g1)" by fastforce
  have st: "st = VSI_SUCCESS" using Suc.prems(4) rd p io o1 by (auto split: if_splits)
  have "\<forall>nid \<in> set node_list. GetNode g1 nid \<noteq> None"
    using Suc.prems(2) same_nodes_GetNode[OF keeps_nodesD(3)[OF Suc.prems(1) o1]] by simp
  then have "run_nodes (optimize_one ops Backward) (rev (take n node_list)) g1 = Some g'"
    using Suc.IH[of g1 st] Suc.prems rd p io o1 st by simp
  moreover have "optimize_one ops Backward (node_list ! n) g = Some g1" using p io o1 st by (simp add: optimize_one_def)
  ultimately show ?case by (simp add: t)
qed simp

lemma forward_fold:
  assumes "keeps_nodes ops" "\<forall>nid \<in> set node_list. GetNode g nid \<noteq> None"
    "unat (node_num g) = length node_list" "i \<le> length node_list"
    "optimize_forward_loop ops node_list i status g = Some (VSI_SUCCESS, g')"
  shows "run_nodes (optimize_one ops Forward) (drop i node_list) g = Some g'"
  using assms
proof (induction ops node_list i status g rule: optimize_forward_loop.induct)
  case (1 ops node_list i status g)
  note eq = 1(6)[unfolded optimize_forward_loop.simps[of ops node_list i status g]]
  show ?case
  proof (cases "i < length node_list")
    case False
    then show ?thesis using 1(4,5) eq by auto
  next
    case i: True
    then have lt: "i < unat (node_num g)" and rd: "rd node_list i = Some (node_list ! i)" using 1(4) by simp_all
    have dr: "drop i node_list = node_list ! i # drop (Suc i) node_list" using i by (simp add: Cons_nth_drop_Suc)
    obtain p where p: "GetNode g (node_list ! i) = Some p" using 1(3) i by fastforce
    obtain io where io: "fetch_io g p = Some io" using eq lt rd p by auto
    obtain st g1 where o1: "op_optimize ops Forward p (fst io) (snd io) g = (st, g1)" by fastforce
    have st: "st = VSI_SUCCESS" using eq lt rd p io o1 by (auto split: if_splits)
    note k = keeps_nodesD(3)[OF 1(2) o1]
    have n: "\<forall>nid \<in> set node_list. GetNode g1 nid \<noteq> None" using 1(3) same_nodes_GetNode[OF k] by simp
    have len: "unat (node_num g1) = length node_list" using 1(4) k by (simp add: same_nodes_def)
    have "run_nodes (optimize_one ops Forward) (drop (Suc i) node_list) g1 = Some g'"
      using 1(1)[OF lt rd p io o1[symmetric] refl _ 1(2) n len] eq lt rd p io o1 st i by simp
    moreover have "optimize_one ops Forward (node_list ! i) g = Some g1" using p io o1 st by (simp add: optimize_one_def)
    ultimately show ?thesis by (simp add: dr)
  qed
qed

lemma precision_fold:
  assumes "keeps_nodes ops" "\<forall>nid \<in> set node_list. GetNode g nid \<noteq> None"
    "unat (node_num g) = length node_list" "i \<le> length node_list"
    "precision_loop ops node_list i g = Some (VSI_SUCCESS, g')"
  shows "run_nodes (precision_one ops) (drop i node_list) g = Some g'"
  using assms
proof (induction ops node_list i g rule: precision_loop.induct)
  case (1 ops node_list i g)
  note eq = 1(6)[unfolded precision_loop.simps[of ops node_list i g]]
  show ?case
  proof (cases "i < length node_list")
    case False
    then show ?thesis using 1(4,5) eq by auto
  next
    case i: True
    then have lt: "i < unat (node_num g)" and rd: "rd node_list i = Some (node_list ! i)" using 1(4) by simp_all
    have dr: "drop i node_list = node_list ! i # drop (Suc i) node_list" using i by (simp add: Cons_nth_drop_Suc)
    obtain p where p: "GetNode g (node_list ! i) = Some p" using 1(3) i by fastforce
    obtain io where io: "fetch_io g p = Some io" using eq lt rd p by auto
    then obtain g1 where g1: "mark_float32 ops (fst io) 0 (length (n_inputs (g_nodes g p))) g = Some g1"
      using eq lt rd p by auto
    then obtain g2 where g2: "mark_float32 ops (snd io) 0 (length (n_outputs (g_nodes g1 p))) g1 = Some g2"
      using eq lt rd p io by auto
    have k: "same_nodes g g2"
      using mark_float32_keeps[OF 1(2) g1] mark_float32_keeps[OF 1(2) g2] same_nodes_trans by blast
    have n: "\<forall>nid \<in> set node_list. GetNode g2 nid \<noteq> None" using 1(3) same_nodes_GetNode[OF k] by simp
    have len: "unat (node_num g2) = length node_list" using 1(4) k by (simp add: same_nodes_def)
    have "run_nodes (precision_one ops) (drop (Suc i) node_list) g2 = Some g'"
      using 1(1)[OF lt rd p io g1 g2 1(2) n len] eq lt rd p io g1 g2 i by simp
    moreover have "precision_one ops (node_list ! i) g = Some g2" using p io g1 g2 by (simp add: precision_one_def)
    ultimately show ?thesis by (simp add: dr)
  qed
qed

subsection \<open>A successful setup runs every node, in order\<close>

lemma setup_node_keeps:
  "keeps_nodes ops \<Longrightarrow> setup_node b ops g nl = Some (st, g') \<Longrightarrow> same_nodes g g'"
  by (auto simp: setup_node_def split: if_splits intro: setup_loop_keeps)

lemma optimize_node_keeps:
  assumes k: "keeps_nodes ops" and r: "optimize_node b ops g nl = Some (st, g')"
  shows "same_nodes g g'"
proof -
  obtain s1 g1 where b: "optimize_node_backward b ops g nl = Some (s1, g1)"
    using r by (auto simp: optimize_node_def)
  then have bk: "same_nodes g g1"
    using backward_keeps[OF k] by (auto simp: optimize_node_backward_def split: if_splits)
  show ?thesis
  proof (cases "s1 = VSI_SUCCESS")
    case False
    then show ?thesis using r b bk by (simp add: optimize_node_def)
  next
    case True
    then obtain s2 g2 where f: "optimize_node_forward b ops g1 nl = Some (s2, g2)" and "g2 = g'"
      using r b by (auto simp: optimize_node_def split: if_splits)
    then have "same_nodes g1 g'"
      using forward_keeps[OF k] by (auto simp: optimize_node_forward_def split: if_splits)
    then show ?thesis using bk same_nodes_trans by blast
  qed
qed

lemma precision_node_keeps:
  "keeps_nodes ops \<Longrightarrow> set_graph_precision b ops g nl = Some (st, g') \<Longrightarrow> same_nodes g g'"
  by (auto simp: set_graph_precision_def split: if_splits intro: precision_keeps)

lemma and_then_SUCCESS:
  "and_then r f = Some (VSI_SUCCESS, g') \<longleftrightarrow>
   (\<exists>g. r = Some (VSI_SUCCESS, g) \<and> f g = Some (VSI_SUCCESS, g'))"
  by (cases r) (auto simp: and_then_def)

lemma set_precision_run:
  assumes "keeps_nodes ops" "\<forall>nid \<in> set order. GetNode g nid \<noteq> None" "unat (node_num g) = length order"
    "set_graph_precision b ops g order = Some (VSI_SUCCESS, g')"
  shows "precision_pass ops order g = Some g'"
  using assms precision_fold[of ops order g 0 g']
  by (auto simp: set_graph_precision_def precision_pass_def VSI_SUCCESS_def VSI_FAILURE_def split: if_splits)

lemma optimize_node_run:
  assumes k: "keeps_nodes ops" and n: "\<forall>nid \<in> set order. GetNode g nid \<noteq> None"
    and len: "unat (node_num g) = length order" and r: "optimize_node b ops g order = Some (VSI_SUCCESS, g')"
  shows "\<exists>g1. run_nodes (optimize_one ops Backward) (rev order) g = Some g1 \<and>
    run_nodes (optimize_one ops Forward) order g1 = Some g'"
proof -
  obtain s1 g1 where b: "optimize_node_backward b ops g order = Some (s1, g1)" using r by (auto simp: optimize_node_def)
  have s1: "s1 = VSI_SUCCESS" using r b by (auto simp: optimize_node_def VSI_SUCCESS_def VSI_FAILURE_def split: if_splits)
  have f: "optimize_node_forward b ops g1 order = Some (VSI_SUCCESS, g')"
    using r b s1 by (auto simp: optimize_node_def VSI_SUCCESS_def VSI_FAILURE_def split: if_splits)
  have bl: "optimize_backward_loop ops order (length order) VSI_SUCCESS g = Some (VSI_SUCCESS, g1)"
    using b s1 len by (auto simp: optimize_node_backward_def VSI_SUCCESS_def VSI_FAILURE_def split: if_splits)
  have fl: "optimize_forward_loop ops order 0 VSI_SUCCESS g1 = Some (VSI_SUCCESS, g')"
    using f by (auto simp: optimize_node_forward_def VSI_SUCCESS_def VSI_FAILURE_def split: if_splits)
  have s: "same_nodes g g1" using backward_keeps[OF k bl] .
  have "run_nodes (optimize_one ops Backward) (rev order) g = Some g1"
    using backward_fold[OF k n _ bl] by simp
  moreover have "run_nodes (optimize_one ops Forward) order g1 = Some g'"
    using forward_fold[OF k _ _ _ fl] n len s by (simp add: same_nodes_GetNode[OF s] same_nodes_def)
  ultimately show ?thesis by blast
qed

text \<open>The whole run: every graph is the one that the pass before it left.\<close>

definition setup_run :: "'s ops \<Rightarrow> node_id list \<Rightarrow> 's graph \<Rightarrow> 's graph \<Rightarrow> bool" where
  "setup_run ops order g g' \<longleftrightarrow> (\<exists>g2 g3 g4 g5 g6 g7 g8.
     run_nodes (setup_one ops) order (snd (update_max_node_io g order)) = Some g2 \<and>
     run_nodes (optimize_one ops Backward) (rev order) g2 = Some g3 \<and>
     run_nodes (optimize_one ops Forward) order g3 = Some g4 \<and>
     precision_pass ops order g4 = Some g5 \<and>
     run_nodes (compute_one ops) order g5 = Some g6 \<and>
     precision_pass ops order g6 = Some g7 \<and>
     complete_signal ops g7 = (VSI_SUCCESS, g8) \<and> binary_io ops g8 = (VSI_SUCCESS, g'))"

lemma setup_phases_run:
  assumes k: "keeps_nodes ops" and n: "\<forall>nid \<in> set order. GetNode g nid \<noteq> None"
    and len: "unat (node_num g) = length order"
    and r: "setup_phases b ops order g = Some (VSI_SUCCESS, g')"
  shows "setup_run ops order g g'"
proof -
  let ?g1 = "snd (update_max_node_io g order)"
  have u: "update_max_node_io g order = (VSI_SUCCESS, ?g1)" by (simp add: update_max_node_io_def)
  obtain g2 g4 g5 g6 g7 g8 where p: "setup_node b ops ?g1 order = Some (VSI_SUCCESS, g2)"
    "optimize_node b ops g2 order = Some (VSI_SUCCESS, g4)"
    "set_graph_precision b ops g4 order = Some (VSI_SUCCESS, g5)"
    "compute_node b ops g5 order = Some (VSI_SUCCESS, g6)"
    "set_graph_precision b ops g6 order = Some (VSI_SUCCESS, g7)"
    "complete_signal ops g7 = (VSI_SUCCESS, g8)" "binary_io ops g8 = (VSI_SUCCESS, g')"
    using r u unfolding setup_phases_def and_then_SUCCESS by auto
  have ex: "\<forall>nid \<in> set order. GetNode h nid \<noteq> None" "unat (node_num h) = length order" if "same_nodes g h" for h
    using n len same_nodes_GetNode[OF that] that by (simp_all add: same_nodes_def)
  have s1: "same_nodes g ?g1" by (simp add: update_max_node_io_def same_nodes_def)
  have s2: "same_nodes g g2" using s1 setup_node_keeps[OF k p(1)] by (rule same_nodes_trans)
  have s4: "same_nodes g g4" using s2 optimize_node_keeps[OF k p(2)] by (rule same_nodes_trans)
  have s5: "same_nodes g g5" using s4 precision_node_keeps[OF k p(3)] by (rule same_nodes_trans)
  have c: "compute_loop ops order 0 VSI_SUCCESS g5 = Some (VSI_SUCCESS, g6)"
    using p(4) by (auto simp: compute_node_def VSI_SUCCESS_def VSI_FAILURE_def split: if_splits)
  have cr: "run_nodes (compute_one ops) order g5 = Some g6"
    using compute_loop_fold[OF k ex[OF s5] _ c] by simp
  have s6: "same_nodes g g6"
    using s5 run_nodes_keeps[OF cr] compute_one_keeps[OF k] by (blast intro: same_nodes_trans)
  have "setup_loop ops order 0 ?g1 = Some (VSI_SUCCESS, g2)"
    using p(1) by (auto simp: setup_node_def VSI_SUCCESS_def VSI_FAILURE_def split: if_splits)
  then have a: "run_nodes (setup_one ops) order ?g1 = Some g2"
    using setup_loop_fold[OF k ex[OF s1], of 0 g2] by simp
  obtain g3 where o1: "run_nodes (optimize_one ops Backward) (rev order) g2 = Some g3"
    "run_nodes (optimize_one ops Forward) order g3 = Some g4"
    using optimize_node_run[OF k ex[OF s2] p(2)] by blast
  show ?thesis
    using a o1 cr set_precision_run[OF k ex[OF s4] p(3)] set_precision_run[OF k ex[OF s6] p(5)] p(6,7)
    unfolding setup_run_def by blast
qed

lemma topo_nodes_exist: "topo_from g don xs \<Longrightarrow> nid \<in> set xs \<Longrightarrow> GetNode g nid \<noteq> None"
  by (induction xs arbitrary: don) (auto simp: runnable_def node_at_id_def split: option.splits)

text \<open>
  C3: when \<open>vsi_nn_SetupGraph\<close> with sorting reports success, then either no order was found and
  nothing was done after \<open>vsi_nn_OptimizeGraph\<close> (C26 says when), or there is one order of all the
  nodes, in which every node comes after the nodes whose outputs it reads, and all passes
  succeeded in it, each on the graph that the one before left: every node was set up exactly once
  (its check and its shape inference returned TRUE), then optimized backwards in the reverse order
  and forwards, marked for its precision unless the graph is in fast mode, computed exactly once,
  and marked again; the signal and the inputs and outputs of the graph are completed last, and
  give the graph that is returned.
\<close>

theorem setup_graph_in_order:
  assumes "keeps_nodes ops" "optimize_graph ops g = (VSI_SUCCESS, dirty, g1)" "list_ok mem" "srt \<or> dirty"
    "SetupGraph mem ops g srt = Some (VSI_SUCCESS, g')"
  shows "SortGraphNode (sort_ok mem) g1 = Some None \<and> g' = g1 \<or>
    (\<exists>order. SortGraphNode (sort_ok mem) g1 = Some (Some order) \<and>
      mset order = mset (ids_below (node_num g1)) \<and> topo_from g1 [] order \<and> setup_run ops order g1 g')"
proof (cases "SortGraphNode (sort_ok mem) g1 = Some None")
  case True
  then show ?thesis using assms(2-5) by (auto simp: SetupGraph_def)
next
  case False
  obtain order where s: "SortGraphNode (sort_ok mem) g1 = Some (Some order)"
    and ph: "setup_phases (buf_ok mem) ops order g1 = Some (VSI_SUCCESS, g')"
    using assms(2-5) False by (auto simp: SetupGraph_def split: option.splits)
  have o: "mset order = mset (ids_below (node_num g1))" "topo_from g1 [] order"
    using sort_result_order[OF s] by simp_all
  have len: "unat (node_num g1) = length order"
    using mset_eq_length[OF o(1)] by (simp add: ids_below_simps)
  have "setup_run ops order g1 g'"
    using topo_nodes_exist[OF o(2)] by (intro setup_phases_run[OF assms(1) _ len ph]) blast
  then show ?thesis using s o by blast
qed

subsection \<open>Examples\<close>

definition quiet_ops :: "'s ops" where
  "quiet_ops = \<lparr>op_check = (\<lambda>_ _ _ g. (True, g)), op_generate = (\<lambda>_ _ _ g. (True, g)),
     op_optimize = (\<lambda>_ _ _ _ g. (0, g)), op_compute = (\<lambda>_ _ _ g. (0, g)), tensor_reinit = (\<lambda>_ g. g),
     vx_name_tensor = (\<lambda>_ _ _ g. (0, g)), vx_name_node = (\<lambda>_ _ g. (0, g)),
     update_node_attr = (\<lambda>_ g. (0, g)), set_high_precision = (\<lambda>_ g. g), fast_mode = (\<lambda>_. True),
     optimize_graph = (\<lambda>g. (0, False, g)), complete_signal = (\<lambda>g. (0, g)), binary_io = (\<lambda>g. (0, g)),
     init_node_wksp = (\<lambda>_ g. g)\<rparr>"

definition mem_ok :: setup_mem where
  "mem_ok = \<lparr>list_ok = True, sort_ok = True, buf_ok = True\<rparr>"

lemma quiet_keeps: "keeps_nodes quiet_ops"
  by (simp add: keeps_nodes_def quiet_ops_def)

lemma chain_setup: "\<exists>g'. SetupGraph mem_ok quiet_ops chain_graph True = Some (VSI_SUCCESS, g')"
proof -
  have "map_option fst (SetupGraph mem_ok quiet_ops chain_graph True) = Some 0" by code_simp
  then show ?thesis by (auto simp: VSI_SUCCESS_def)
qed

theorem setup_graph_in_order_witness:
  "\<exists>order g'. SetupGraph mem_ok quiet_ops chain_graph True = Some (VSI_SUCCESS, g') \<and>
    mset order = mset (ids_below (node_num chain_graph)) \<and> topo_from chain_graph [] order \<and>
    setup_run quiet_ops order chain_graph g'"
proof -
  obtain g' where g': "SetupGraph mem_ok quiet_ops chain_graph True = Some (VSI_SUCCESS, g')"
    using chain_setup by blast
  have o: "optimize_graph quiet_ops chain_graph = (VSI_SUCCESS, False, chain_graph)"
    by (simp add: quiet_ops_def VSI_SUCCESS_def)
  have m: "list_ok mem_ok" "sort_ok mem_ok = True" by (simp_all add: mem_ok_def)
  show ?thesis
    using setup_graph_in_order[OF quiet_keeps o m(1) _ g'] g' unfolding m chain_graph_sort by blast
qed

text \<open>A node that reads its own output.\<close>

definition loop_graph :: "unit graph" where
  "loop_graph = chain_graph\<lparr>node_table := MapAdd True True MapInit 0 (Some 1), node_num := 1,
     g_nodes := (\<lambda>_. sample_node [1] [1])\<rparr>"

lemma loop_graph_simps:
  "node_at_id loop_graph 0 = Some (sample_node [1] [1])" "ids_below (node_num loop_graph) = [0]"
  "graph_input_ids loop_graph = [0]" "GetTensor loop_graph 1 = Some 11"
  "attr_is_const (t_attr (g_tensors loop_graph p)) = False" "tensor_num loop_graph = 3"
  "g_inputs loop_graph = [0]" "unat (g_input_num loop_graph) = 1"
  by (simp_all add: loop_graph_def chain_graph_def node_at_id_def GetNode_def GetTensor_def Get_Add
      ids_below_def graph_input_ids_def sample_attr_def)

lemma loop_graph_order:
  "refs_ok loop_graph" "\<nexists>order. mset order = mset (ids_below (node_num loop_graph)) \<and> topo_from loop_graph [] order"
proof -
  show "refs_ok loop_graph"
    by (simp add: refs_ok_def loop_graph_simps) (simp add: id_in_range_def sample_node_def loop_graph_simps)
  show "\<nexists>order. mset order = mset (ids_below (node_num loop_graph)) \<and> topo_from loop_graph [] order"
    by (auto simp: loop_graph_simps runnable_def sample_node_def ready_def TENSOR_ID_NA_def)
qed

theorem setup_cyclic_graph_succeeds_witness:
  "SetupGraph mem_ok quiet_ops loop_graph True = Some (VSI_SUCCESS, loop_graph)"
proof (rule setup_cyclic_graph_succeeds)
  show "optimize_graph quiet_ops loop_graph = (VSI_SUCCESS, False, loop_graph)"
    by (simp add: quiet_ops_def VSI_SUCCESS_def)
qed (use loop_graph_order in \<open>simp_all add: mem_ok_def\<close>)

text \<open>The chain graph after its first node was removed.\<close>

theorem infer_shape_missing_node_witness:
  "InferShape mem_ok quiet_ops (RemoveNode chain_graph 0) = Some (VSI_SUCCESS, RemoveNode chain_graph 0)"
proof -
  let ?g = "RemoveNode chain_graph 0"
  have g: "GetNode chain_graph 0 = Some 1" "GetNode chain_graph 1 = Some 2"
    by (simp_all add: chain_graph_def GetNode_def Get_Add)
  have n: "node_num ?g = 2" by (simp add: RemoveNode_fields) (simp add: chain_graph_def)
  have i: "graph_inv chain_graph"
    by (simp add: graph_inv_def chain_graph_def map_inv_Add map_inv_Init keys_Add) (simp add: MapInit_def)
  have r: "GetNode ?g 0 = None" "GetNode ?g 1 = Some 2" using g i by (simp_all add: GetNode_RemoveNode)
  have "\<not> has_nbg ?g (ids_below (node_num ?g))"
    using r n by (simp add: node_at_id_def ids_below_def upt_rec RemoveNode_fields OP_NBG_def)
      (simp add: chain_graph_def sample_node_def)
  then show ?thesis
    using infer_shape_missing_node[of ?g mem_ok quiet_ops] r n by (simp add: mem_ok_def)
qed

end
