(* ===== verification/Dtype.thy ===== *)
theory Dtype
  imports Vsi_Prelude
begin

text \<open>
  Element types and their sizes in memory:
  \<^verbatim>\<open>include/utils/vsi_nn_dtype_util_prv.h\<close>, the size functions of
  \<^verbatim>\<open>src/utils/vsi_nn_dtype_util.c\<close>, \<^verbatim>\<open>src/utils/vsi_nn_util.c\<close> and
  \<^verbatim>\<open>src/vsi_nn_tensor.c\<close>, the packing of 4-bit data and the conversion between integer
  types (all under \<^verbatim>\<open>src/tim/vx/internal\<close>).

  Memory is a list of bytes with the lowest address first.
\<close>

datatype vsi_nn_type =
    TYPE_NONE | TYPE_INT4 | TYPE_INT8 | TYPE_INT16 | TYPE_INT32 | TYPE_INT64
  | TYPE_UINT4 | TYPE_UINT8 | TYPE_UINT16 | TYPE_UINT32 | TYPE_UINT64
  | TYPE_FLOAT16 | TYPE_FLOAT32 | TYPE_FLOAT64 | TYPE_BFLOAT16
  | TYPE_FLOAT8_E4M3 | TYPE_FLOAT8_E5M2 | TYPE_BOOL8 | TYPE_VDATA

fun type_is_integer :: "vsi_nn_type \<Rightarrow> bool" where
  "type_is_integer TYPE_INT4 = True"
| "type_is_integer TYPE_INT8 = True"
| "type_is_integer TYPE_INT16 = True"
| "type_is_integer TYPE_INT32 = True"
| "type_is_integer TYPE_INT64 = True"
| "type_is_integer TYPE_UINT4 = True"
| "type_is_integer TYPE_UINT8 = True"
| "type_is_integer TYPE_UINT16 = True"
| "type_is_integer TYPE_UINT32 = True"
| "type_is_integer TYPE_UINT64 = True"
| "type_is_integer TYPE_BOOL8 = True"
| "type_is_integer _ = False"

fun type_is_signed :: "vsi_nn_type \<Rightarrow> bool" where
  "type_is_signed TYPE_INT4 = True"
| "type_is_signed TYPE_INT8 = True"
| "type_is_signed TYPE_INT16 = True"
| "type_is_signed TYPE_INT32 = True"
| "type_is_signed TYPE_INT64 = True"
| "type_is_signed TYPE_FLOAT16 = True"
| "type_is_signed TYPE_FLOAT32 = True"
| "type_is_signed TYPE_FLOAT64 = True"
| "type_is_signed TYPE_BFLOAT16 = True"
| "type_is_signed TYPE_FLOAT8_E4M3 = True"
| "type_is_signed TYPE_FLOAT8_E5M2 = True"
| "type_is_signed _ = False"

fun type_get_bytes :: "vsi_nn_type \<Rightarrow> uint32" where
  "type_get_bytes TYPE_INT4 = 0"
| "type_get_bytes TYPE_UINT4 = 0"
| "type_get_bytes TYPE_INT8 = 1"
| "type_get_bytes TYPE_UINT8 = 1"
| "type_get_bytes TYPE_BOOL8 = 1"
| "type_get_bytes TYPE_FLOAT8_E4M3 = 1"
| "type_get_bytes TYPE_FLOAT8_E5M2 = 1"
| "type_get_bytes TYPE_INT16 = 2"
| "type_get_bytes TYPE_UINT16 = 2"
| "type_get_bytes TYPE_FLOAT16 = 2"
| "type_get_bytes TYPE_BFLOAT16 = 2"
| "type_get_bytes TYPE_INT32 = 4"
| "type_get_bytes TYPE_UINT32 = 4"
| "type_get_bytes TYPE_FLOAT32 = 4"
| "type_get_bytes TYPE_INT64 = 8"
| "type_get_bytes TYPE_UINT64 = 8"
| "type_get_bytes TYPE_FLOAT64 = 8"
| "type_get_bytes _ = 1"

fun type_get_bits :: "vsi_nn_type \<Rightarrow> uint32" where
  "type_get_bits TYPE_INT4 = 4"
| "type_get_bits TYPE_UINT4 = 4"
| "type_get_bits TYPE_INT8 = 8"
| "type_get_bits TYPE_UINT8 = 8"
| "type_get_bits TYPE_BOOL8 = 8"
| "type_get_bits TYPE_FLOAT8_E4M3 = 8"
| "type_get_bits TYPE_FLOAT8_E5M2 = 8"
| "type_get_bits TYPE_INT16 = 16"
| "type_get_bits TYPE_UINT16 = 16"
| "type_get_bits TYPE_FLOAT16 = 16"
| "type_get_bits TYPE_BFLOAT16 = 16"
| "type_get_bits TYPE_INT32 = 32"
| "type_get_bits TYPE_UINT32 = 32"
| "type_get_bits TYPE_FLOAT32 = 32"
| "type_get_bits TYPE_INT64 = 64"
| "type_get_bits TYPE_UINT64 = 64"
| "type_get_bits TYPE_FLOAT64 = 64"
| "type_get_bits _ = 1"

definition TypeGetBytesExt :: "vsi_nn_type \<Rightarrow> uint32" where
  "TypeGetBytesExt t = (if type_get_bits t < 8 then 1 else type_get_bits t div 8)"

definition TypeGetBitWidth :: "vsi_nn_type \<Rightarrow> uint32" where
  "TypeGetBitWidth t = (let bw = 8 * type_get_bytes t in if type_is_signed t then bw - 1 else bw)"

subsection \<open>Sizes of shapes in memory\<close>

text \<open>The arrays of sizes and strides have \<open>VSI_NN_MAX_DIM_NUM\<close> (8) entries.\<close>

fun shape_product_loop :: "vsi_size_t list \<Rightarrow> nat \<Rightarrow> nat \<Rightarrow> vsi_size_t \<Rightarrow> vsi_size_t option" where
  "shape_product_loop shape i 0 res = Some res"
| "shape_product_loop shape i (Suc n) res = do {
     s \<leftarrow> rd shape i;
     shape_product_loop shape (Suc i) n (res * s) }"

definition ShapeProduct :: "vsi_size_t list \<Rightarrow> nat \<Rightarrow> vsi_size_t option" where
  "ShapeProduct shape dim_num = shape_product_loop shape 0 dim_num 1"

definition GetTotalBytesBySize :: "vsi_size_t list \<Rightarrow> nat \<Rightarrow> vsi_nn_type \<Rightarrow> vsi_size_t option" where
  "GetTotalBytesBySize shape dim_num t = do {
     p \<leftarrow> ShapeProduct shape dim_num;
     Some (p * type_get_bytes t) }"

definition GetTensorSize :: "vsi_size_t list \<Rightarrow> nat \<Rightarrow> vsi_nn_type \<Rightarrow> vsi_size_t option" where
  "GetTensorSize shape dim_num t =
     (if dim_num = 0 then Some 0
      else do {
        s0 \<leftarrow> rd shape 0;
        let bits_num = type_get_bits t;
        let sz = (if bits_num < 8
                  then (if s0 mod 2 = 0 then s0 div 2 else s0 div 2 + s0 mod 2)
                  else s0 * bits_num div 8);
        shape_product_loop shape 1 (dim_num - 1) sz })"

text \<open>
  The loop over the dimensions from \<open>i\<close> on: a stride is the size times the stride of the
  dimension before, and the sizes are multiplied into the total.
\<close>

fun stride_loop ::
  "vsi_size_t list \<Rightarrow> nat \<Rightarrow> nat \<Rightarrow> vsi_size_t list \<Rightarrow> vsi_size_t \<Rightarrow> (vsi_size_t list \<times> vsi_size_t) option" where
  "stride_loop sizes i 0 stride tb = Some (stride, tb)"
| "stride_loop sizes i (Suc n) stride tb = do {
     a \<leftarrow> rd sizes (i - 1);
     b \<leftarrow> rd stride (i - 1);
     stride' \<leftarrow> wr stride i (a * b);
     s \<leftarrow> rd sizes i;
     stride_loop sizes (Suc i) n stride' (tb * s) }"

fun fill_strides :: "vsi_size_t list \<Rightarrow> nat \<Rightarrow> nat \<Rightarrow> vsi_size_t \<Rightarrow> vsi_size_t list option" where
  "fill_strides stride i 0 tb = Some stride"
| "fill_strides stride i (Suc n) tb = do {
     stride' \<leftarrow> wr stride i tb;
     fill_strides stride' (Suc i) n tb }"

definition GetStrideSizeBySize ::
  "vsi_size_t list \<Rightarrow> nat \<Rightarrow> vsi_nn_type \<Rightarrow> vsi_size_t list \<Rightarrow> (vsi_size_t list \<times> vsi_size_t) option" where
  "GetStrideSizeBySize sizes dim_num t stride = do {
     let type_bits = type_get_bits t;
     st0 \<leftarrow> wr stride 0 (type_bits div 8);
     (st, tb) \<leftarrow>
       (if type_bits < 8 \<and> type_bits \<noteq> 0 then do {
          s0 \<leftarrow> rd sizes 0;
          st1 \<leftarrow> wr st0 1 (if s0 mod (8 div type_bits) = 0 then s0 * type_bits div 8
                           else s0 * type_bits div 8 + 1);
          w \<leftarrow> rd st1 1;
          (st2, tot) \<leftarrow> stride_loop sizes 2 (dim_num - 2) st1 w;
          s1 \<leftarrow> rd sizes 1;
          Some (st2, tot * s1) }
        else do {
          (st1, tot) \<leftarrow> stride_loop sizes 1 (dim_num - 1) st0 (type_bits div 8);
          s0 \<leftarrow> rd sizes 0;
          Some (st1, tot * s0) });
     st' \<leftarrow> fill_strides st dim_num (8 - dim_num) tb;
     Some (st', tb) }"

subsection \<open>Packing of 4-bit data\<close>

text \<open>
  Two elements become one byte, the first in its low half; the last element of a row of odd
  length has a byte of its own. The counter \<open>i\<close> is a \<open>uint32_t\<close>.
\<close>

function pack4_loop ::
  "uint32 \<Rightarrow> vsi_size_t \<Rightarrow> uint8 list \<Rightarrow> uint32 \<Rightarrow> nat \<Rightarrow> uint8 list \<Rightarrow> uint8 list option" where
  "pack4_loop src_size width src i j dest =
     (if i < src_size then
        (if width = 0 then None
         else if (i + 1) mod width = 0 then do {
           low \<leftarrow> rd src (unat i);
           dest' \<leftarrow> wr dest j (low AND 0xF);
           pack4_loop src_size width src (i + 1) (j + 1) dest' }
         else do {
           high \<leftarrow> rd src (unat (i + 1));
           low \<leftarrow> rd src (unat i);
           dest' \<leftarrow> wr dest j (push_bit 4 high OR (low AND 0xF));
           pack4_loop src_size width src (i + 2) (j + 1) dest' })
      else Some dest)"
  by pat_completeness auto
termination
  by (relation "measure (\<lambda>(_, _, _, _, j, dest). length dest - j)") (auto simp: wr_eq_Some_iff)

declare pack4_loop.simps [simp del]

definition Pack4bitData ::
  "vsi_size_t list \<Rightarrow> nat \<Rightarrow> uint8 list \<Rightarrow> uint8 list \<Rightarrow> uint8 list option" where
  "Pack4bitData sizes dim_num src dest = do {
     src_size \<leftarrow> ShapeProduct sizes dim_num;
     width \<leftarrow> rd sizes 0;
     pack4_loop src_size width src 0 0 dest }"

definition sign4 :: "vsi_nn_type \<Rightarrow> uint8 \<Rightarrow> uint8" where
  "sign4 t v = (if t = TYPE_INT4 \<and> v > 7 then v OR 0xF0 else v)"

function unpack4_loop ::
  "vsi_nn_type \<Rightarrow> vsi_size_t \<Rightarrow> vsi_size_t \<Rightarrow> vsi_size_t \<Rightarrow> uint8 list \<Rightarrow> uint32 \<Rightarrow> nat \<Rightarrow> uint8 list
   \<Rightarrow> uint8 list option" where
  "unpack4_loop t src_size width row src i j dest =
     (if i < src_size then do {
        v \<leftarrow> rd src (unat i);
        let high = sign4 t (drop_bit 4 v);
        let low = sign4 t (v AND 0x0F);
        if row = 0 then None
        else if (if width mod row = 0 then width = 1 else (i + 1) mod row = 0) then do {
          dest' \<leftarrow> wr dest j low;
          unpack4_loop t src_size width row src (i + 1) (j + 1) dest' }
        else do {
          dest1 \<leftarrow> wr dest j low;
          dest2 \<leftarrow> wr dest1 (j + 1) high;
          unpack4_loop t src_size width row src (i + 1) (j + 2) dest2 } }
      else Some dest)"
  by pat_completeness auto
termination
  by (relation "measure (\<lambda>(_, _, _, _, _, _, j, dest). length dest - j)") (auto simp: wr_eq_Some_iff)

declare unpack4_loop.simps [simp del]

definition Unpack4bitData ::
  "vsi_size_t list \<Rightarrow> nat \<Rightarrow> vsi_nn_type \<Rightarrow> uint8 list \<Rightarrow> uint8 list \<Rightarrow> vsi_nn_type \<Rightarrow> uint8 list option" where
  "Unpack4bitData sizes dim_num tensor_type src dest t = do {
     (stride, src_size) \<leftarrow> GetStrideSizeBySize sizes dim_num tensor_type (replicate 8 0);
     row \<leftarrow> rd stride 1;
     width \<leftarrow> rd sizes 0;
     unpack4_loop t src_size width row src 0 0 dest }"

subsection \<open>Conversion between integer types\<close>

definition memcpy :: "uint8 list \<Rightarrow> nat \<Rightarrow> uint8 list \<Rightarrow> nat \<Rightarrow> nat \<Rightarrow> uint8 list option" where
  "memcpy dst d src s n =
     (if d + n \<le> length dst \<and> s + n \<le> length src
      then Some (take d dst @ take n (drop s src) @ drop (d + n) dst) else None)"

definition integer_convert ::
  "uint8 list \<Rightarrow> vsi_nn_type \<Rightarrow> uint8 list \<Rightarrow> vsi_nn_type \<Rightarrow> (vsi_status \<times> uint8 list) option" where
  "integer_convert src src_type dest dest_type =
     (if type_is_integer src_type \<and> type_is_integer dest_type then do {
        let src_sz = (if type_get_bytes src_type = 0 then 1 else unat (type_get_bytes src_type));
        let dest_sz = (if type_get_bytes dest_type = 0 then 1 else unat (type_get_bytes dest_type));
        top \<leftarrow> (if type_is_signed src_type then rd src (src_sz - 1) else Some 0);
        let buffer = replicate 8 (if top AND 0x80 \<noteq> 0 then 0xff else 0);
        buffer' \<leftarrow> memcpy buffer 0 src 0 src_sz;
        dest' \<leftarrow> memcpy dest 0 buffer' 0 dest_sz;
        Some (VSI_SUCCESS, dest') }
      else Some (VSI_FAILURE, dest))"


subsection \<open>The value of an integer in memory\<close>

fun le_int :: "uint8 list \<Rightarrow> int" where
  "le_int [] = 0"
| "le_int (b # bs) = uint b + 256 * le_int bs"

definition type_size :: "vsi_nn_type \<Rightarrow> nat" where
  "type_size t = (if type_get_bytes t = 0 then 1 else unat (type_get_bytes t))"

definition int_value :: "vsi_nn_type \<Rightarrow> uint8 list \<Rightarrow> int" where
  "int_value t bs = (if type_is_signed t \<and> 128 \<le> last bs then le_int bs - 256 ^ length bs else le_int bs)"

lemma le_int_append: "le_int (xs @ ys) = le_int xs + 256 ^ length xs * le_int ys"
  by (induction xs) (simp_all add: algebra_simps)

lemma le_int_bounds: "0 \<le> le_int xs \<and> le_int xs < 256 ^ length xs"
proof (induction xs)
  case (Cons b bs)
  have "uint b < 256" using uint_lt2p[of b] by simp
  then show ?case using Cons by simp
qed simp

lemma le_int_take: "m \<le> length xs \<Longrightarrow> le_int (take m xs) = le_int xs mod 256 ^ m"
proof -
  assume m: "m \<le> length xs"
  have "le_int xs = le_int (take m xs) + 256 ^ m * le_int (drop m xs)"
    using le_int_append[of "take m xs" "drop m xs"] m by simp
  then show ?thesis using le_int_bounds[of "take m xs"] m by simp
qed

lemma le_int_zeros: "le_int (replicate k 0) = 0"
  by (induction k) simp_all

lemma le_int_ones: "le_int (replicate k 0xff) = 256 ^ k - 1"
  by (induction k) simp_all

lemma le_int_inj: "length xs = length ys \<Longrightarrow> le_int xs = le_int ys \<Longrightarrow> xs = ys"
proof (induction xs ys rule: list_induct2)
  case (Cons x xs y ys)
  have b: "uint x < 256" "uint y < 256" using uint_lt2p[of x] uint_lt2p[of y] by simp_all
  have "(uint x + 256 * le_int xs) mod 256 = (uint y + 256 * le_int ys) mod 256" using Cons.prems by simp
  then have "uint x = uint y" using b by simp
  then show ?case using Cons by (simp add: uint_eq_iff)
qed simp

lemma top_bit: "(b :: uint8) AND 0x80 \<noteq> 0 \<longleftrightarrow> 128 \<le> b"
proof -
  have a: "b AND 0x80 = 0 \<longleftrightarrow> \<not> bit b 7" using and_exp_eq_0_iff_not_bit[of b 7] by simp
  have u: "bit b 7 \<longleftrightarrow> odd (uint b div 128)"
    using bit_uint_iff[of b 7] unfolding bit_iff_odd[of "uint b"] by simp
  have "odd (x div 128) \<longleftrightarrow> 128 \<le> x" if "0 \<le> x" "x < 256" for x :: int
    using that by (cases "128 \<le> x") (simp_all add: div_pos_geq div_pos_pos_trivial)
  then have "odd (uint b div 128) \<longleftrightarrow> 128 \<le> uint b" using uint_lt2p[of b] by simp
  moreover have "128 \<le> b \<longleftrightarrow> 128 \<le> uint b" by (simp add: word_le_def)
  ultimately show ?thesis using a u by blast
qed

lemma type_size_bounds: "1 \<le> type_size t" "type_size t \<le> 8"
  by (cases t; simp add: type_size_def)+

text \<open>The buffer holds the sign-extended or zero-extended source.\<close>

lemma extended_value:
  fixes t src
  assumes "length src \<le> 8" "src \<noteq> []"
  defines "pad \<equiv> (if type_is_signed t \<and> 128 \<le> last src then 0xff else 0)"
  shows "le_int (src @ replicate (8 - length src) pad) mod 256 ^ 8 = int_value t src mod 256 ^ 8"
proof (cases "type_is_signed t \<and> 128 \<le> last src")
  case True
  have e: "(256 :: int) ^ length src * 256 ^ (8 - length src) = 256 ^ 8"
    using assms(1) by (simp flip: power_add)
  have "le_int (src @ replicate (8 - length src) pad) = le_int src - 256 ^ length src + 256 ^ 8"
    using True by (simp add: le_int_append pad_def le_int_ones right_diff_distrib e)
  then show ?thesis using True by (simp add: int_value_def)
next
  case False
  then have "le_int (src @ replicate (8 - length src) pad) = le_int src"
    by (auto simp: le_int_append pad_def le_int_zeros)
  moreover have "int_value t src = le_int src" unfolding int_value_def using False by (rule if_not_P)
  ultimately show ?thesis by simp
qed

lemma integer_convert_ok:
  assumes "type_is_integer st" "type_is_integer dt" "length src = type_size st" "type_size dt \<le> length dest"
  obtains dest' where "integer_convert src st dest dt = Some (VSI_SUCCESS, dest')" "length dest' = length dest"
    "le_int (take (type_size dt) dest') = int_value st src mod 256 ^ type_size dt"
    "drop (type_size dt) dest' = drop (type_size dt) dest"
proof -
  note b = type_size_bounds[of st] type_size_bounds[of dt]
  have ne: "src \<noteq> []" using assms(3) b(1) by auto
  have lst: "src ! (type_size st - 1) = last src" using assms(3) ne by (simp add: last_conv_nth)
  define top where "top = (if type_is_signed st then last src else 0)"
  define pad :: uint8 where "pad = (if type_is_signed st \<and> 128 \<le> last src then 0xff else 0)"
  have pt: "(if top AND 0x80 \<noteq> 0 then 0xff else 0) = pad" by (auto simp: top_def pad_def top_bit)
  have rt: "(if type_is_signed st then rd src (type_size st - 1) else Some 0) = Some top"
    using assms(3) b(1) lst by (simp add: top_def)
  let ?buf = "src @ replicate (8 - length src) pad"
  let ?n = "type_size dt"
  have m1: "memcpy (replicate 8 pad) 0 src 0 (type_size st) = Some ?buf"
    using assms(3) b(2) by (simp add: memcpy_def)
  have m2: "memcpy dest 0 ?buf 0 ?n = Some (take ?n ?buf @ drop ?n dest)"
    using assms(3,4) b by (simp add: memcpy_def)
  have c: "integer_convert src st dest dt = Some (VSI_SUCCESS, take ?n ?buf @ drop ?n dest)"
    unfolding integer_convert_def Let_def type_size_def[symmetric] rt
    using assms(1,2) m1 m2 by (simp add: pt)
  have l: "?n \<le> length ?buf" using assms(3) b by simp
  have dv: "(256 :: int) ^ ?n dvd 256 ^ 8" using b(4) by (rule le_imp_power_dvd)
  have "le_int (take ?n ?buf) = le_int ?buf mod 256 ^ ?n" by (rule le_int_take[OF l])
  also have "\<dots> = le_int ?buf mod 256 ^ 8 mod 256 ^ ?n" by (rule mod_mod_cancel[OF dv, symmetric])
  also have "\<dots> = int_value st src mod 256 ^ 8 mod 256 ^ ?n"
    using extended_value[of src st] assms(3) b(2) ne by (simp add: pad_def)
  also have "\<dots> = int_value st src mod 256 ^ ?n" by (rule mod_mod_cancel[OF dv])
  finally have v: "le_int (take ?n ?buf) = int_value st src mod 256 ^ ?n" .
  define A where "A = take ?n ?buf"
  have lt: "length A = ?n" using l by (simp only: A_def length_take min_absorb2)
  show thesis
  proof (rule that[OF c[folded A_def]])
    show "length (A @ drop ?n dest) = length dest" using lt assms(4) by simp
    show "le_int (take ?n (A @ drop ?n dest)) = int_value st src mod 256 ^ ?n"
      using v[folded A_def] lt by simp
    show "drop ?n (A @ drop ?n dest) = drop ?n dest" using lt by simp
  qed
qed

lemma int_value_mod: "bs \<noteq> [] \<Longrightarrow> int_value t bs mod 256 ^ length bs = le_int bs"
  using le_int_bounds[of bs] by (auto simp: int_value_def)

text \<open>A conversion to a type that is at least as wide can be undone.\<close>

lemma integer_convert_back:
  assumes "type_is_integer st" "type_is_integer dt" "type_size st \<le> type_size dt" "length src = type_size st"
    "length dest = type_size dt" "length back = type_size st"
  obtains wide where "integer_convert src st dest dt = Some (VSI_SUCCESS, wide)"
    "integer_convert wide dt back st = Some (VSI_SUCCESS, src)"
proof -
  note b = type_size_bounds[of st] type_size_bounds[of dt]
  obtain wide where w: "integer_convert src st dest dt = Some (VSI_SUCCESS, wide)" "length wide = length dest"
    "le_int (take (type_size dt) wide) = int_value st src mod 256 ^ type_size dt"
    using integer_convert_ok[OF assms(1,2,4), of dest] assms(5) by (metis order_refl)
  obtain r where r: "integer_convert wide dt back st = Some (VSI_SUCCESS, r)" "length r = length back"
    "le_int (take (type_size st) r) = int_value dt wide mod 256 ^ type_size st"
    using integer_convert_ok[OF assms(2,1), of wide "back"] w(2) assms(5,6) by (metis order_refl)
  have dv: "(256 :: int) ^ type_size st dvd 256 ^ type_size dt" using assms(3) by (rule le_imp_power_dvd)
  have ne: "src \<noteq> []" "wide \<noteq> []" using assms(4,5) w(2) b by auto
  have "le_int r = int_value dt wide mod 256 ^ type_size dt mod 256 ^ type_size st"
    using r(2,3) assms(6) by (simp add: mod_mod_cancel[OF dv])
  also have "\<dots> = le_int wide mod 256 ^ type_size st"
    using int_value_mod[OF ne(2), of dt] w(2) assms(5) by simp
  also have "\<dots> = int_value st src mod 256 ^ type_size st"
    using w(2,3) assms(5) by (simp add: mod_mod_cancel[OF dv])
  also have "\<dots> = le_int src" using int_value_mod[OF ne(1), of st] assms(4) by simp
  finally have "r = src" using r(2) assms(4,6) by (intro le_int_inj) simp_all
  then show thesis using w(1) r(1) that by simp
qed


subsection \<open>Sizes\<close>

definition num_elems :: "vsi_size_t list \<Rightarrow> nat" where
  "num_elems xs = prod_list (map unat xs)"

lemma num_elems_simps [simp]:
  "num_elems [] = 1" "num_elems (x # xs) = unat x * num_elems xs"
  "num_elems (xs @ ys) = num_elems xs * num_elems ys"
  by (simp_all add: num_elems_def)

lemma num_elems_pos: "0 \<notin> set xs \<Longrightarrow> 1 \<le> num_elems xs"
  by (induction xs) (auto simp: Suc_le_eq unat_gt_0)

lemma shape_product_loop_eq:
  "i + n \<le> length shape \<Longrightarrow> 0 \<notin> set (take n (drop i shape)) \<Longrightarrow>
   unat res * num_elems (take n (drop i shape)) < 2 ^ 32 \<Longrightarrow>
   \<exists>p. shape_product_loop shape i n res = Some p \<and> unat p = unat res * num_elems (take n (drop i shape))"
proof (induction n arbitrary: i res)
  case (Suc n)
  have d: "take (Suc n) (drop i shape) = shape ! i # take n (drop (Suc i) shape)"
    using Suc.prems(1) by (simp add: Cons_nth_drop_Suc[symmetric])
  have "1 \<le> num_elems (take n (drop (Suc i) shape))"
    using Suc.prems(2) by (intro num_elems_pos) (simp add: d)
  then have "unat res * unat (shape ! i) \<le> unat res * unat (shape ! i) * num_elems (take n (drop (Suc i) shape))"
    by simp
  also have "\<dots> < 2 ^ 32" using Suc.prems(3) by (simp add: d mult.assoc)
  finally have u: "unat (res * shape ! i) = unat res * unat (shape ! i)" by (intro unat_mult_no_overflow) simp
  show ?case using Suc.IH[of "Suc i" "res * shape ! i"] Suc.prems u by (simp add: d mult.assoc)
qed simp

text \<open>The total of the stride loop; the strides have no influence on it.\<close>

lemma stride_loop_eq:
  "0 < i \<Longrightarrow> i + n \<le> length sizes \<Longrightarrow> i + n \<le> length stride \<Longrightarrow>
   \<exists>st. stride_loop sizes i n stride tb = map_option (Pair st) (shape_product_loop sizes i n tb) \<and>
     length st = length stride \<and> take i st = take i stride \<and>
     (\<forall>k. i \<le> k \<and> k < i + n \<longrightarrow> st ! k = st ! (k - 1) * sizes ! (k - 1))"
proof (induction n arbitrary: i stride tb)
  case (Suc n)
  let ?s1 = "stride[i := sizes ! (i - 1) * stride ! (i - 1)]"
  obtain st where st: "stride_loop sizes (Suc i) n ?s1 (tb * sizes ! i) =
      map_option (Pair st) (shape_product_loop sizes (Suc i) n (tb * sizes ! i))"
    "length st = length stride" "take (Suc i) st = take (Suc i) ?s1"
    "\<forall>k. Suc i \<le> k \<and> k < Suc i + n \<longrightarrow> st ! k = st ! (k - 1) * sizes ! (k - 1)"
    using Suc.IH[of "Suc i" ?s1 "tb * sizes ! i"] Suc.prems by auto
  have nth: "st ! k = ?s1 ! k" if "k \<le> i" for k
    using arg_cong[OF st(3), of "\<lambda>xs. xs ! k"] that Suc.prems(3) st(2) by simp
  have t: "take i st = take i stride"
    using nth Suc.prems st(2) by (intro nth_equalityI) auto
  have i: "st ! i = st ! (i - 1) * sizes ! (i - 1)"
    using nth[of i] nth[of "i - 1"] Suc.prems by (simp add: mult.commute)
  have "st ! k = st ! (k - 1) * sizes ! (k - 1)" if "i \<le> k" "k < i + Suc n" for k
    using st(4) i that by (cases "k = i") auto
  then show ?case using Suc.prems st t by (intro exI[of _ st]) simp
qed (auto intro: exI[of _ stride])

lemma fill_strides_eq:
  "i + n \<le> length stride \<Longrightarrow> \<exists>st. fill_strides stride i n tb = Some st \<and> length st = length stride \<and>
   take i st = take i stride \<and> (\<forall>k. i \<le> k \<and> k < i + n \<longrightarrow> st ! k = tb)"
proof (induction n arbitrary: i stride)
  case (Suc n)
  then obtain st where st: "fill_strides (stride[i := tb]) (Suc i) n tb = Some st" "length st = length stride"
    "take (Suc i) st = take (Suc i) (stride[i := tb])" "\<forall>k. Suc i \<le> k \<and> k < Suc i + n \<longrightarrow> st ! k = tb"
    using Suc.IH[of "Suc i" "stride[i := tb]"] by auto
  have nth: "st ! k = stride[i := tb] ! k" if "k \<le> i" for k
    using arg_cong[OF st(3), of "\<lambda>xs. xs ! k"] that Suc.prems st(2) by simp
  have "take i st = take i stride" using nth Suc.prems st(2) by (intro nth_equalityI) auto
  moreover have "st ! k = tb" if "i \<le> k" "k < i + Suc n" for k
    using st(4) nth[of i] that Suc.prems by (cases "k = i") auto
  ultimately show ?case using Suc.prems st by (intro exI[of _ st]) simp
qed (auto intro: exI[of _ stride])

lemma mod_2_word: "unat (w mod 2 :: vsi_size_t) = unat w mod 2" "unat (w div 2 :: vsi_size_t) = unat w div 2"
  by (simp_all add: unat_mod unat_div)

text \<open>The bytes of a row: 4-bit elements are packed in pairs.\<close>

definition row_bytes :: "vsi_nn_type \<Rightarrow> nat \<Rightarrow> nat" where
  "row_bytes t w = (if type_get_bits t = 4 then (w + 1) div 2 else w * (unat (type_get_bits t) div 8))"

lemma bits_cases: "type_get_bits t \<in> {1, 4, 8, 16, 32, 64}"
  by (cases t) simp_all

lemma four_bit_row:
  assumes "type_get_bits t = 4" "unat s0 * 4 < 2 ^ 32"
  shows "(if s0 mod (8 div type_get_bits t) = 0 then s0 * type_get_bits t div 8
      else s0 * type_get_bits t div 8 + 1) = (if s0 mod 2 = 0 then s0 div 2 else s0 div 2 + s0 mod 2)"
    "unat (if s0 mod 2 = 0 then s0 div 2 else s0 div 2 + s0 mod 2 :: vsi_size_t) = (unat s0 + 1) div 2"
proof -
  have u: "unat (s0 * 4) = unat s0 * 4" using assms(2) by (intro unat_mult_no_overflow[of s0 4, simplified]) simp
  have q: "s0 * 4 div 8 = s0 div 2"
    by (simp add: unat_eq_iff[symmetric] unat_div u)
  have m: "s0 mod 2 = 0 \<or> s0 mod 2 = 1"
    using unat_eq_iff[of "s0 mod 2" 0] unat_eq_iff[of "s0 mod 2" 1] by (simp add: mod_2_word(1)) linarith
  show "(if s0 mod (8 div type_get_bits t) = 0 then s0 * type_get_bits t div 8
      else s0 * type_get_bits t div 8 + 1) = (if s0 mod 2 = 0 then s0 div 2 else s0 div 2 + s0 mod 2)"
    using m by (auto simp: assms(1) q)
  have e: "s0 mod 2 = 0 \<longleftrightarrow> unat s0 mod 2 = 0"
    using unat_eq_iff[of "s0 mod 2" 0] by (simp add: mod_2_word(1))
  have lt: "unat s0 div 2 + 1 < 2 ^ 32" using assms(2) by simp
  show "unat (if s0 mod 2 = 0 then s0 div 2 else s0 div 2 + s0 mod 2 :: vsi_size_t) = (unat s0 + 1) div 2"
  proof (cases "s0 mod 2 = 0")
    case True
    then have "even (unat s0)" using e by (simp add: even_iff_mod_2_eq_zero)
    then show ?thesis using True by (simp add: mod_2_word(2))
  next
    case False
    then have o: "odd (unat s0)" "s0 mod 2 = 1" using e m by (auto simp: even_iff_mod_2_eq_zero)
    have "unat (s0 div 2 + 1) = unat s0 div 2 + 1"
      using lt by (subst unat_add_no_overflow) (simp_all add: mod_2_word(2))
    then show ?thesis using o by (simp add: False)
  qed
qed


definition shape_ok :: "vsi_size_t list \<Rightarrow> nat \<Rightarrow> bool" where
  "shape_ok sizes d \<longleftrightarrow> d \<le> length sizes \<and> 0 \<notin> set (take d sizes) \<and> num_elems (take d sizes) * 64 < 2 ^ 32"

definition tensor_bytes :: "vsi_nn_type \<Rightarrow> vsi_size_t list \<Rightarrow> nat \<Rightarrow> nat" where
  "tensor_bytes t sizes d = row_bytes t (unat (sizes ! 0)) * num_elems (take (d - 1) (drop 1 sizes))"

lemma shape_split:
  assumes "shape_ok sizes d" "0 < d"
  shows "take d sizes = sizes ! 0 # take (d - 1) (drop 1 sizes)" "sizes ! 0 \<noteq> 0"
    "0 \<notin> set (take (d - 1) (drop 1 sizes))" "1 \<le> num_elems (take (d - 1) (drop 1 sizes))"
    "unat (sizes ! 0) * num_elems (take (d - 1) (drop 1 sizes)) * 64 < 2 ^ 32"
proof -
  show e: "take d sizes = sizes ! 0 # take (d - 1) (drop 1 sizes)"
    using assms by (cases sizes; cases d) (auto simp: shape_ok_def)
  show "sizes ! 0 \<noteq> 0" "0 \<notin> set (take (d - 1) (drop 1 sizes))"
    "unat (sizes ! 0) * num_elems (take (d - 1) (drop 1 sizes)) * 64 < 2 ^ 32"
    using assms(1) by (auto simp: shape_ok_def e)
  then show "1 \<le> num_elems (take (d - 1) (drop 1 sizes))" by (intro num_elems_pos)
qed

lemma bits_word: "unat (type_get_bits t div 8) = unat (type_get_bits t) div 8"
  by (simp add: unat_div)

lemma row_word:
  assumes "type_get_bits t \<noteq> 1" "unat s0 * 64 < 2 ^ 32"
  shows "unat (if type_get_bits t < 8 then (if s0 mod 2 = 0 then s0 div 2 else s0 div 2 + s0 mod 2)
      else s0 * type_get_bits t div 8) = row_bytes t (unat s0)"
proof (cases "type_get_bits t = 4")
  case True
  then show ?thesis using four_bit_row(2)[OF True, of s0] assms(2) by (simp add: row_bytes_def)
next
  case False
  then have b: "type_get_bits t \<in> {8, 16, 32, 64}" using bits_cases[of t] assms(1) by auto
  have "unat s0 * unat (type_get_bits t) \<le> unat s0 * 64" using b by auto
  then have "unat s0 * unat (type_get_bits t) < 2 ^ 32" using assms(2) by linarith
  then have "unat (s0 * type_get_bits t) = unat s0 * unat (type_get_bits t)"
    by (intro unat_mult_no_overflow) simp
  then show ?thesis using b False by (auto simp: row_bytes_def unat_div)
qed

lemma row_le: "type_get_bits t \<noteq> 1 \<Longrightarrow> row_bytes t w \<le> w * 8"
  using bits_cases[of t] by (auto simp: row_bytes_def)

lemma tensor_size_ok:
  assumes ok: "shape_ok sizes d" and d: "0 < d" and t: "type_get_bits t \<noteq> 1"
  shows "\<exists>p. GetTensorSize sizes d t = Some p \<and> unat p = tensor_bytes t sizes d"
proof -
  note sp = shape_split[OF ok d]
  let ?T = "take (d - 1) (drop 1 sizes)"
  have "unat (sizes ! 0) * 64 \<le> unat (sizes ! 0) * num_elems ?T * 64" using sp(4) by simp
  then have s0: "unat (sizes ! 0) * 64 < 2 ^ 32" using sp(5) by linarith
  note r = row_word[OF t s0]
  have "row_bytes t (unat (sizes ! 0)) * num_elems ?T \<le> unat (sizes ! 0) * 8 * num_elems ?T"
    using row_le[OF t] by (rule mult_le_mono1)
  then have lt: "row_bytes t (unat (sizes ! 0)) * num_elems ?T < 2 ^ 32" using sp(5) by linarith
  have len: "1 + (d - 1) \<le> length sizes" using ok d by (simp add: shape_ok_def)
  have rd0: "rd sizes 0 = Some (sizes ! 0)" using len by (auto simp: rd_def)
  show ?thesis using shape_product_loop_eq[OF len sp(3), of "if type_get_bits t < 8
      then (if sizes ! 0 mod 2 = 0 then sizes ! 0 div 2 else sizes ! 0 div 2 + sizes ! 0 mod 2)
      else sizes ! 0 * type_get_bits t div 8"] lt d
    unfolding r by (simp add: GetTensorSize_def rd0 tensor_bytes_def Let_def)
qed


lemma stride_size_ok:
  assumes ok: "shape_ok sizes d" and d: "2 \<le> d" "d \<le> 8" and t: "type_get_bits t \<noteq> 1" and st: "length stride = 8"
  shows "\<exists>st' p. GetStrideSizeBySize sizes d t stride = Some (st', p) \<and> unat p = tensor_bytes t sizes d \<and>
    length st' = 8 \<and> unat (st' ! 1) = row_bytes t (unat (sizes ! 0))"
proof -
  have d0: "0 < d" using d by simp
  note sp = shape_split[OF ok d0]
  let ?T = "take (d - 1) (drop 1 sizes)"
  have "unat (sizes ! 0) * 64 \<le> unat (sizes ! 0) * num_elems ?T * 64" using sp(4) by simp
  then have s0: "unat (sizes ! 0) * 64 < 2 ^ 32" using sp(5) by linarith
  have len: "d \<le> length sizes" using ok by (simp add: shape_ok_def)
  have T: "?T = sizes ! 1 # take (d - 2) (drop 2 sizes)"
  proof -
    have "drop 1 sizes = sizes ! 1 # drop 2 sizes" using len d Cons_nth_drop_Suc[of 1 sizes] by (simp add: numeral_2_eq_2)
    moreover have "d - 1 = Suc (d - 2)" using d by simp
    ultimately show ?thesis by simp
  qed
  have rd01: "rd sizes 0 = Some (sizes ! 0)" "rd sizes 1 = Some (sizes ! 1)"
    using len d by (auto simp: rd_def)
  have le: "row_bytes t (unat (sizes ! 0)) * num_elems ?T \<le> unat (sizes ! 0) * 8 * num_elems ?T"
    using row_le[OF t] by (rule mult_le_mono1)
  have lt: "row_bytes t (unat (sizes ! 0)) * num_elems ?T < 2 ^ 32" using sp(5) le by linarith
  have fin: "\<exists>st'. fill_strides st2 d (8 - d) tb = Some st' \<and> length st' = 8 \<and> st' ! 1 = st2 ! 1"
    if l2: "length st2 = 8" for st2 and tb :: vsi_size_t
  proof -
    obtain st' where st': "fill_strides st2 d (8 - d) tb = Some st'" "length st' = 8" "take d st' = take d st2"
      using fill_strides_eq[of d "8 - d" st2 tb] d l2 by auto
    have "take d st' ! 1 = take d st2 ! 1" using st'(3) by simp
    then have "st' ! 1 = st2 ! 1" using d by simp
    then show ?thesis using st'(1,2) by blast
  qed
  show ?thesis
  proof (cases "type_get_bits t = 4")
    case True
    let ?w = "if sizes ! 0 mod (8 div type_get_bits t) = 0 then sizes ! 0 * type_get_bits t div 8
      else sizes ! 0 * type_get_bits t div 8 + 1"
    have w: "unat ?w = row_bytes t (unat (sizes ! 0))"
      using four_bit_row[OF True, of "sizes ! 0"] s0 True by (simp add: row_bytes_def)
    define w where "w = ?w"
    have uw: "unat w = row_bytes t (unat (sizes ! 0))" using w by (simp add: w_def)
    let ?st1 = "stride[0 := type_get_bits t div 8, 1 := w]"
    have l2: "0 < (2 :: nat)" "2 + (d - 2) \<le> length sizes" "2 + (d - 2) \<le> length ?st1"
      using len d st by simp_all
    obtain st2 where st2: "stride_loop sizes 2 (d - 2) ?st1 w =
        map_option (Pair st2) (shape_product_loop sizes 2 (d - 2) w)" "length st2 = 8" "take 2 st2 = take 2 ?st1"
      using stride_loop_eq[OF l2, of w] st by auto
    have nz: "0 \<notin> set (take (d - 2) (drop 2 sizes))" and s1: "1 \<le> unat (sizes ! 1)"
      using sp(3) unfolding T by (auto simp: Suc_le_eq unat_gt_0)
    have "unat w * num_elems (take (d - 2) (drop 2 sizes)) \<le>
        unat w * (unat (sizes ! 1) * num_elems (take (d - 2) (drop 2 sizes)))" using s1 by simp
    also have "\<dots> < 2 ^ 32" using lt unfolding T uw by simp
    finally have b: "unat w * num_elems (take (d - 2) (drop 2 sizes)) < 2 ^ 32" .
    have "2 + (d - 2) \<le> length sizes" using len d by simp
    from shape_product_loop_eq[OF this nz b] obtain p where p: "shape_product_loop sizes 2 (d - 2) w = Some p"
      "unat p = unat w * num_elems (take (d - 2) (drop 2 sizes))" by blast
    have pu: "unat p * unat (sizes ! 1) < 2 ^ 32" using lt unfolding T p(2) uw by (simp only: num_elems_simps mult.assoc mult.commute mult.left_commute)
    then have pm: "unat (p * sizes ! 1) = unat p * unat (sizes ! 1)" by (intro unat_mult_no_overflow) simp
    have u: "unat (p * sizes ! 1) = tensor_bytes t sizes d" unfolding pm p(2) uw tensor_bytes_def T
      by (simp only: num_elems_simps mult.assoc mult.commute mult.left_commute)
    have w1: "st2 ! 1 = w" using arg_cong[OF st2(3), of "\<lambda>xs. xs ! 1"] st2(2) st by simp
    obtain st' where st': "fill_strides st2 d (8 - d) (p * sizes ! 1) = Some st'" "length st' = 8" "st' ! 1 = w"
      using fin[OF st2(2)] w1 by metis
    have "GetStrideSizeBySize sizes d t stride = Some (st', p * sizes ! 1)"
      using st st2(1) p(1) st'(1) rd01 True w_def unfolding GetStrideSizeBySize_def Let_def by simp
    then show ?thesis using u st'(2,3) uw by auto
  next
    case False
    let ?b = "type_get_bits t div 8"
    have nb: "\<not> (type_get_bits t < 8 \<and> type_get_bits t \<noteq> 0)" using bits_cases[of t] t False by auto
    have rb: "row_bytes t (unat (sizes ! 0)) = unat (sizes ! 0) * unat ?b" using False by (simp add: row_bytes_def unat_div)
    have l2: "0 < (1 :: nat)" "1 + (d - 1) \<le> length sizes" "1 + (d - 1) \<le> length (stride[0 := ?b])"
      using len d st by simp_all
    obtain st2 where st2: "stride_loop sizes 1 (d - 1) (stride[0 := ?b]) ?b =
        map_option (Pair st2) (shape_product_loop sizes 1 (d - 1) ?b)" "length st2 = 8"
      "take 1 st2 = take 1 (stride[0 := ?b])"
      "\<forall>k. 1 \<le> k \<and> k < 1 + (d - 1) \<longrightarrow> st2 ! k = st2 ! (k - 1) * sizes ! (k - 1)"
      using stride_loop_eq[OF l2, of ?b] st by auto
    have s01: "1 \<le> unat (sizes ! 0)" using sp(2) by (simp add: Suc_le_eq unat_gt_0)
    have "unat ?b * num_elems ?T \<le> unat (sizes ! 0) * (unat ?b * num_elems ?T)" using s01 by simp
    also have "\<dots> < 2 ^ 32" using lt unfolding rb by (simp add: mult.assoc)
    finally have b: "unat ?b * num_elems ?T < 2 ^ 32" .
    have "1 + (d - 1) \<le> length sizes" using len d by simp
    from shape_product_loop_eq[OF this sp(3) b] obtain p where p: "shape_product_loop sizes 1 (d - 1) ?b = Some p"
      "unat p = unat ?b * num_elems ?T" by blast
    have pu: "unat p * unat (sizes ! 0) < 2 ^ 32" using lt unfolding p(2) rb by (simp only: mult.assoc mult.commute mult.left_commute)
    then have pm: "unat (p * sizes ! 0) = unat p * unat (sizes ! 0)" by (intro unat_mult_no_overflow) simp
    have u: "unat (p * sizes ! 0) = tensor_bytes t sizes d" unfolding pm p(2) rb tensor_bytes_def
      by (simp only: mult.assoc mult.commute mult.left_commute)
    have "st2 ! 0 = ?b" using arg_cong[OF st2(3), of "\<lambda>xs. xs ! 0"] st2(2) st by simp
    then have "st2 ! 1 = ?b * sizes ! 0" using st2(4)[rule_format, of 1] d by simp
    moreover have "unat ?b * unat (sizes ! 0) < 2 ^ 32"
      using row_le[OF t, of "unat (sizes ! 0)"] s0 unfolding rb mult.commute[of "unat ?b"] by linarith
    ultimately have w1: "unat (st2 ! 1) = row_bytes t (unat (sizes ! 0))"
      unfolding rb by (simp add: unat_mult_no_overflow mult.commute)
    obtain st' where st': "fill_strides st2 d (8 - d) (p * sizes ! 0) = Some st'" "length st' = 8" "st' ! 1 = st2 ! 1"
      using fin[OF st2(2)] by metis
    have "GetStrideSizeBySize sizes d t stride = Some (st', p * sizes ! 0)"
      using st st2(1) p(1) st'(1) rd01 unfolding GetStrideSizeBySize_def Let_def if_not_P[OF nb] by simp
    then show ?thesis using u st'(2,3) w1 by auto
  qed
qed


subsection \<open>Packing and unpacking\<close>

text \<open>
  Byte \<open>q\<close> of the packed data holds the elements from \<open>pos w q\<close> on, where a row has \<open>w\<close>
  elements and \<open>(w + 1) div 2\<close> bytes.
\<close>

definition pos :: "nat \<Rightarrow> nat \<Rightarrow> nat" where
  "pos w q = (let b = (w + 1) div 2 in q div b * w + 2 * (q mod b))"

definition single :: "nat \<Rightarrow> nat \<Rightarrow> bool" where
  "single w q \<longleftrightarrow> 2 * (q mod ((w + 1) div 2)) + 1 = w"

definition pair4 :: "nat \<Rightarrow> uint8 list \<Rightarrow> nat \<Rightarrow> uint8" where
  "pair4 w src q = (if single w q then src ! pos w q AND 0xF
     else push_bit 4 (src ! (pos w q + 1)) OR (src ! pos w q AND 0xF))"

lemma pos_bounds:
  fixes w :: nat
  assumes "0 < w"
  shows "2 * (q mod ((w + 1) div 2)) < w"
proof -
  have "q mod ((w + 1) div 2) < (w + 1) div 2" using assms by (intro mod_less_divisor) simp
  then show ?thesis by linarith
qed

lemma pos_Suc: "0 < w \<Longrightarrow> pos w (Suc q) = pos w q + (if single w q then 1 else 2)"
proof -
  assume w: "0 < w"
  let ?b = "(w + 1) div 2"
  have b: "0 < ?b" using w by simp
  show "pos w (Suc q) = pos w q + (if single w q then 1 else 2)"
  proof (cases "Suc (q mod ?b) = ?b")
    case True
    then have d: "Suc q div ?b = Suc (q div ?b)" "Suc q mod ?b = 0"
      using b by (simp_all add: div_Suc mod_Suc)
    have "2 * (q mod ?b) + 1 = w \<or> 2 * (q mod ?b) + 2 = w" using True by linarith
    then show ?thesis using d by (auto simp: pos_def single_def Let_def)
  next
    case False
    then have d: "Suc q div ?b = q div ?b" "Suc q mod ?b = Suc (q mod ?b)"
      using b by (simp_all add: div_Suc mod_Suc)
    have "q mod ?b < ?b" using b by (rule mod_less_divisor)
    then have "2 * (q mod ?b) + 1 \<noteq> w" using False by linarith
    then show ?thesis using d by (simp add: pos_def single_def Let_def)
  qed
qed

lemma pos_mono: "0 < w \<Longrightarrow> q < r \<Longrightarrow> pos w q < pos w r"
proof (induction r)
  case (Suc r)
  then show ?case using pos_Suc[of w r] by (cases "q = r") auto
qed simp

lemma pos_end: "0 < w \<Longrightarrow> pos w (rows * ((w + 1) div 2)) = rows * w"
  by (simp add: pos_def Let_def)

lemma single_iff: "0 < w \<Longrightarrow> single w q \<longleftrightarrow> (pos w q + 1) mod w = 0"
proof -
  assume w: "0 < w"
  let ?c = "2 * (q mod ((w + 1) div 2))"
  have "(pos w q + 1) mod w = (?c + 1) mod w" by (simp add: pos_def Let_def)
  moreover have "?c < w" using pos_bounds[OF w] .
  then have "(?c + 1) mod w = 0 \<longleftrightarrow> ?c + 1 = w" by (cases "?c + 1 = w") simp_all
  ultimately show ?thesis by (simp add: single_def)
qed

lemma pos_lt:
  assumes "0 < w" "q < rows * ((w + 1) div 2)"
  shows "pos w q < rows * w" "\<not> single w q \<Longrightarrow> pos w q + 1 < rows * w"
proof -
  show "pos w q < rows * w" using pos_mono[OF assms] pos_end[OF assms(1)] by simp
  assume "\<not> single w q"
  then have "pos w (Suc q) = pos w q + 2" using pos_Suc[OF assms(1)] by simp
  moreover have "pos w (Suc q) \<le> rows * w"
    using pos_mono[OF assms(1), of "Suc q" "rows * ((w + 1) div 2)"] pos_end[OF assms(1), of rows] assms(2)
    by (cases "Suc q = rows * ((w + 1) div 2)") auto
  ultimately show "pos w q + 1 < rows * w" by simp
qed

lemma pack4_loop_ok:
  assumes w: "0 < unat width" and n: "unat n = rows * unat width" and src: "rows * unat width \<le> length src"
    and dst: "rows * ((unat width + 1) div 2) \<le> length dest" and j: "j \<le> rows * ((unat width + 1) div 2)"
    and i: "unat i = pos (unat width) j"
    and filled: "\<forall>q < j. dest ! q = pair4 (unat width) src q"
  shows "\<exists>out. pack4_loop n width src i j dest = Some out \<and> length out = length dest \<and>
    (\<forall>q < rows * ((unat width + 1) div 2). out ! q = pair4 (unat width) src q)"
  using dst j i filled
proof (induction "rows * ((unat width + 1) div 2) - j" arbitrary: i j dest)
  case 0
  let ?b = "(unat width + 1) div 2"
  have je: "j = rows * ?b" using 0 by simp
  then have "\<not> i < n" using 0 n pos_end[OF w] by (simp add: word_less_nat_alt)
  then show ?case using 0 je by (subst pack4_loop.simps) simp
next
  case (Suc x)
  let ?w = "unat width" and ?b = "(unat width + 1) div 2"
  have j: "j < rows * ?b" using Suc.hyps(2) by simp
  note lt = pos_lt[OF w j]
  have nb: "rows * ?w < 2 ^ 32" using n unsigned_less[of n, where ?'a = nat] by simp
  have in_n: "i < n" using lt(1) n Suc.prems(3) by (simp add: word_less_nat_alt)
  have w0: "width \<noteq> 0" using w by auto
  have i1: "unat (i + 1) = unat i + 1"
    using lt(1) nb Suc.prems(3) by (subst unat_add_no_overflow) simp_all
  have s: "(i + 1) mod width = 0 \<longleftrightarrow> single ?w j"
    using single_iff[OF w, of j] Suc.prems(3) i1 unat_eq_iff[of "(i + 1) mod width" 0] by (simp add: unat_mod)
  have jl: "j < length dest" using j Suc.prems(1) by simp
  have il: "unat i < length src" using lt(1) src Suc.prems(3) by simp
  let ?v = "pair4 ?w src j"
  have d': "\<forall>q < Suc j. dest[j := ?v] ! q = pair4 ?w src q"
    using Suc.prems(4) jl by (auto simp: less_Suc_eq nth_list_update)
  have IH: "unat i' = pos ?w (Suc j) \<Longrightarrow> \<exists>out. pack4_loop n width src i' (Suc j) (dest[j := ?v]) = Some out \<and>
      length out = length dest \<and> (\<forall>q < rows * ?b. out ! q = pair4 ?w src q)" for i'
    using Suc.hyps(1)[of "Suc j" "dest[j := ?v]" i'] Suc.hyps(2) Suc.prems(1) j d' by simp
  show ?case
  proof (cases "single ?w j")
    case True
    then have "pack4_loop n width src i j dest = pack4_loop n width src (i + 1) (Suc j) (dest[j := ?v])"
      using in_n w0 s il jl Suc.prems(3) by (subst pack4_loop.simps) (simp add: pair4_def)
    moreover have "unat (i + 1) = pos ?w (Suc j)" using i1 Suc.prems(3) pos_Suc[OF w, of j] True by simp
    ultimately show ?thesis using IH by simp
  next
    case False
    have "unat i + 2 < 2 ^ 32 \<or> unat i + 2 = 2 ^ 32" using lt(2)[OF False] nb Suc.prems(3) by linarith
    moreover have "unat i + 2 \<le> rows * ?w" using lt(2)[OF False] Suc.prems(3) by simp
    ultimately have "unat i + 2 < 2 ^ 32" using nb by linarith
    then have i2: "unat (i + 2) = unat i + 2" by (subst unat_add_no_overflow) simp_all
    have il1: "unat i + 1 < length src" using lt(2)[OF False] src Suc.prems(3) by simp
    have "pack4_loop n width src i j dest = pack4_loop n width src (i + 2) (Suc j) (dest[j := ?v])"
      using in_n w0 s il il1 jl Suc.prems(3) i1 False by (subst pack4_loop.simps) (simp add: pair4_def)
    moreover have "unat (i + 2) = pos ?w (Suc j)" using i2 Suc.prems(3) pos_Suc[OF w, of j] False by simp
    ultimately show ?thesis using IH by simp
  qed
qed


lemma nibbles:
  "(push_bit 4 h OR (l AND 0xF)) AND 0xF = l AND (0xF :: uint8)"
  "drop_bit 4 (push_bit 4 h OR (l AND 0xF)) = h AND (0xF :: uint8)"
proof -
  have m: "x AND 0xF = take_bit 4 x" for x :: uint8
    unfolding take_bit_eq_mask by (simp add: mask_eq_exp_minus_1)
  show "(push_bit 4 h OR (l AND 0xF)) AND 0xF = l AND (0xF :: uint8)"
    unfolding m by (rule bit_word_eqI) (auto simp: bit_take_bit_iff bit_or_iff bit_push_bit_iff)
  show "drop_bit 4 (push_bit 4 h OR (l AND 0xF)) = h AND (0xF :: uint8)"
    unfolding m by (rule bit_word_eqI)
      (auto simp: bit_take_bit_iff bit_or_iff bit_push_bit_iff bit_drop_bit_eq)
qed

lemma last_test:
  assumes w: "0 < unat width" and row: "unat row = (unat width + 1) div 2" and i: "unat (i + 1) = unat i + 1"
  shows "(if width mod row = 0 then width = 1 else (i + 1) mod row = 0) \<longleftrightarrow> single (unat width) (unat i)"
proof -
  let ?w = "unat width" and ?b = "(unat width + 1) div 2"
  have m: "width mod row = 0 \<longleftrightarrow> ?w mod ?b = 0" "(i + 1) mod row = 0 \<longleftrightarrow> (unat i + 1) mod ?b = 0"
    "width = 1 \<longleftrightarrow> ?w = 1"
    using unat_eq_iff[of "width mod row" 0] unat_eq_iff[of "(i + 1) mod row" 0] unat_eq_iff[of width 1] row i
    by (simp_all add: unat_mod)
  have b: "0 < ?b" using w by simp
  show ?thesis
  proof (cases "even ?w")
    case True
    then have e: "?w = 2 * ?b" by (auto elim: evenE)
    then have "?w mod ?b = 0" by (metis mod_mult_self2_is_0)
    moreover have "odd (2 * x + 1)" for x :: nat by simp
    then have "\<not> single ?w (unat i)" using True unfolding single_def by metis
    moreover have "?w \<noteq> 1" using True by auto
    ultimately show ?thesis by (simp add: m)
  next
    case False
    then have e: "?w + 1 = 2 * ?b" by (auto elim: oddE)
    have gen: "x mod c = c - 1" if "x = c - 1 + c" "0 < c" for x c :: nat
      unfolding that(1) mod_add_self2 using that(2) by simp
    have "?w = ?b - 1 + ?b" using e b by linarith
    from gen[OF this b] have wm: "?w mod ?b = ?b - 1" .
    have "single ?w (unat i) \<longleftrightarrow> Suc (unat i mod ?b) = ?b" using e unfolding single_def by linarith
    also have "\<dots> \<longleftrightarrow> (unat i + 1) mod ?b = 0" using b by (simp add: mod_Suc)
    finally have s: "single ?w (unat i) \<longleftrightarrow> (unat i + 1) mod ?b = 0" .
    show ?thesis
    proof (cases "?w = 1")
      case True
      then show ?thesis using s wm by (simp add: m)
    next
      case False
      then have "?b \<noteq> 1" using e by auto
      then show ?thesis using s wm b by (simp add: m)
    qed
  qed
qed

lemma unpack4_loop_ok:
  assumes w: "0 < unat width" and row: "unat row = (unat width + 1) div 2"
    and n: "unat n = rows * ((unat width + 1) div 2)"
    and src: "rows * ((unat width + 1) div 2) \<le> length src"
    and packed: "\<forall>q < rows * ((unat width + 1) div 2). src ! q = pair4 (unat width) orig q"
    and dst: "rows * unat width \<le> length dest" and j: "j = pos (unat width) (unat i)"
    and i: "unat i \<le> rows * ((unat width + 1) div 2)"
    and filled: "\<forall>e < j. dest ! e = sign4 t (orig ! e AND 0xF)"
  shows "\<exists>out. unpack4_loop t n width row src i j dest = Some out \<and> length out = length dest \<and>
    (\<forall>e < rows * unat width. out ! e = sign4 t (orig ! e AND 0xF))"
  using dst j i filled
proof (induction "rows * ((unat width + 1) div 2) - unat i" arbitrary: i j dest)
  case 0
  let ?b = "(unat width + 1) div 2"
  have ie: "unat i = rows * ?b" using 0 by simp
  then have "\<not> i < n" using n by (simp add: word_less_nat_alt)
  moreover have "j = rows * unat width" using 0 ie pos_end[OF w] by simp
  ultimately show ?case using 0 by (subst unpack4_loop.simps) simp
next
  case (Suc x)
  let ?w = "unat width" and ?b = "(unat width + 1) div 2" and ?q = "unat i"
  have q: "?q < rows * ?b" using Suc.hyps(2) by simp
  note lt = pos_lt[OF w q]
  have in_n: "i < n" using q n by (simp add: word_less_nat_alt)
  have i1: "unat (i + 1) = unat i + 1"
    using q n unsigned_less[of n, where ?'a = nat] by (subst unat_add_no_overflow) simp_all
  have r0: "row \<noteq> 0" using row w by auto
  have v: "rd src ?q = Some (pair4 ?w orig ?q)" using q src packed by simp
  note test = last_test[OF w row i1]
  have jl: "j < length dest" using lt(1) Suc.prems(1,2) by simp
  let ?lo = "sign4 t (orig ! j AND 0xF)"
  have IH: "j' = pos ?w (Suc ?q) \<Longrightarrow> length dest' = length dest \<Longrightarrow>
      \<forall>e < j'. dest' ! e = sign4 t (orig ! e AND 0xF) \<Longrightarrow>
      \<exists>out. unpack4_loop t n width row src (i + 1) j' dest' = Some out \<and> length out = length dest \<and>
      (\<forall>e < rows * ?w. out ! e = sign4 t (orig ! e AND 0xF))" for j' dest'
    using Suc.hyps(1)[of "i + 1" dest' j'] Suc.hyps(2) Suc.prems(1) q i1 by simp
  show ?case
  proof (cases "single ?w ?q")
    case True
    have lo: "pair4 ?w orig ?q AND 0xF = orig ! j AND 0xF"
      using True Suc.prems(2) by (simp add: pair4_def and.assoc)
    have "unpack4_loop t n width row src i j dest = unpack4_loop t n width row src (i + 1) (Suc j) (dest[j := ?lo])"
      by (subst unpack4_loop.simps) (simp add: in_n v Let_def r0 test True jl lo del: and.assoc)
    moreover have "Suc j = pos ?w (Suc ?q)" using Suc.prems(2) pos_Suc[OF w, of ?q] True by simp
    ultimately show ?thesis
      using IH[of "Suc j" "dest[j := ?lo]"] Suc.prems(4) jl by (simp add: less_Suc_eq nth_list_update)
  next
    case False
    let ?hi = "sign4 t (orig ! Suc j AND 0xF)"
    have lo: "pair4 ?w orig ?q AND 0xF = orig ! j AND 0xF" "drop_bit 4 (pair4 ?w orig ?q) = orig ! Suc j AND 0xF"
      using False Suc.prems(2) nibbles by (simp_all add: pair4_def)
    have jl1: "Suc j < length dest" using lt(2)[OF False] Suc.prems(1,2) by simp
    have "unpack4_loop t n width row src i j dest =
        unpack4_loop t n width row src (i + 1) (Suc (Suc j)) (dest[j := ?lo, Suc j := ?hi])"
      by (subst unpack4_loop.simps) (simp add: in_n v Let_def r0 test False jl jl1 lo)
    moreover have "Suc (Suc j) = pos ?w (Suc ?q)" using Suc.prems(2) pos_Suc[OF w, of ?q] False by simp
    ultimately show ?thesis
      using IH[of "Suc (Suc j)" "dest[j := ?lo, Suc j := ?hi]"] Suc.prems(4) jl jl1
      by (simp add: less_Suc_eq nth_list_update)
  qed
qed


definition nibble_value :: "vsi_nn_type \<Rightarrow> uint8 \<Rightarrow> bool" where
  "nibble_value t v \<longleftrightarrow> sign4 t (v AND 0xF) = v"

lemma pack_unpack:
  assumes ok: "shape_ok sizes d" and d: "2 \<le> d" "d \<le> 8" and t: "type_get_bits t = 4"
    and src: "num_elems (take d sizes) \<le> length src"
    and vals: "\<forall>e < num_elems (take d sizes). nibble_value t (src ! e)"
    and dest: "tensor_bytes t sizes d \<le> length dest" and room: "num_elems (take d sizes) \<le> length buf"
  obtains p out where "Pack4bitData sizes d src dest = Some p" "Unpack4bitData sizes d t p buf t = Some out"
    "take (num_elems (take d sizes)) out = take (num_elems (take d sizes)) src"
proof -
  have d0: "0 < d" using d by simp
  note sp = shape_split[OF ok d0]
  let ?T = "take (d - 1) (drop 1 sizes)" and ?N = "num_elems (take d sizes)"
  let ?w = "unat (sizes ! 0)" let ?b = "(?w + 1) div 2"
  have w: "0 < ?w" using sp(2) by (simp add: unat_gt_0)
  have N: "?N = num_elems ?T * ?w" by (simp add: sp(1))
  have B: "tensor_bytes t sizes d = num_elems ?T * ?b" using t by (simp add: tensor_bytes_def row_bytes_def)
  have bits: "type_get_bits t \<noteq> 1" using t by simp
  have len: "0 + d \<le> length sizes" using ok by (simp add: shape_ok_def)
  have "num_elems (take d (drop 0 sizes)) < 2 ^ 32" using ok by (simp add: shape_ok_def)
  then obtain n where n: "ShapeProduct sizes d = Some n" "unat n = num_elems ?T * ?w"
    using shape_product_loop_eq[OF len, of 1] ok N by (auto simp: ShapeProduct_def shape_ok_def)
  have rd0: "rd sizes 0 = Some (sizes ! 0)" using len d0 by (auto simp: rd_def)
  have "pos ?w 0 = 0" by (simp add: pos_def)
  then obtain p where p: "pack4_loop n (sizes ! 0) src 0 0 dest = Some p" "length p = length dest"
    "\<forall>q < num_elems ?T * ?b. p ! q = pair4 ?w src q"
    using pack4_loop_ok[OF w n(2), of src dest 0 0] src dest by (auto simp: N B)
  have P: "Pack4bitData sizes d src dest = Some p" using n(1) rd0 p(1) by (simp add: Pack4bitData_def)
  obtain st m where st: "GetStrideSizeBySize sizes d t (replicate 8 0) = Some (st, m)"
    "unat m = num_elems ?T * ?b" "length st = 8" "unat (st ! 1) = ?b"
    using stride_size_ok[OF ok d bits, of "replicate 8 0"] t B by (auto simp: row_bytes_def)
  have lp: "num_elems ?T * ?b \<le> length p" using dest p(2) by (simp add: B)
  have lb: "num_elems ?T * ?w \<le> length buf" using room by (simp add: N)
  obtain out where out: "unpack4_loop t m (sizes ! 0) (st ! 1) p 0 0 buf = Some out" "length out = length buf"
    "\<forall>e < num_elems ?T * ?w. out ! e = sign4 t (src ! e AND 0xF)"
    using unpack4_loop_ok[OF w st(4,2) lp p(3) lb, of 0 0 t] \<open>pos ?w 0 = 0\<close> by auto
  have "Unpack4bitData sizes d t p buf t = Some out"
    using st(1,3) rd0 out(1) by (simp add: Unpack4bitData_def)
  moreover have "take ?N out = take ?N src"
    using out(2,3) vals src room by (intro nth_equalityI) (auto simp: nibble_value_def N)
  ultimately show thesis using P that by blast
qed

subsection \<open>The properties\<close>

text \<open>
  C27: packing 4-bit data and unpacking it again gives the data back, for every shape of at
  least two dimensions, rows of odd length included, signed or not, and both functions stay
  in their buffers.
\<close>

theorem pack4_roundtrip:
  assumes "shape_ok sizes d" "2 \<le> d" "d \<le> 8" "type_get_bits t = 4" "num_elems (take d sizes) \<le> length src"
    "list_all (nibble_value t) (take (num_elems (take d sizes)) src)" "tensor_bytes t sizes d \<le> length dest"
    "num_elems (take d sizes) \<le> length buf"
  shows "\<exists>p out. Pack4bitData sizes d src dest = Some p \<and> Unpack4bitData sizes d t p buf t = Some out \<and>
    take (num_elems (take d sizes)) out = take (num_elems (take d sizes)) src"
proof -
  have "\<forall>e < num_elems (take d sizes). nibble_value t (src ! e)"
    using assms(5,6) by (auto simp: list_all_length)
  from pack_unpack[OF assms(1-5) this assms(7,8)] show ?thesis by blast
qed

theorem pack4_roundtrip_witness:
  "\<exists>p out. Pack4bitData [3, 2] 2 [1, 0xFE, 7, 0, 0xF8, 5] (replicate 4 0) = Some p \<and>
    Unpack4bitData [3, 2] 2 TYPE_INT4 p (replicate 6 0) TYPE_INT4 = Some out \<and>
    take (num_elems (take 2 [3, 2])) out = take (num_elems (take 2 [3, 2])) [1, 0xFE, 7, 0, 0xF8, 5]"
  by (rule pack4_roundtrip)
    (simp_all add: shape_ok_def tensor_bytes_def row_bytes_def nibble_value_def sign4_def)

text \<open>
  a conversion between integer types keeps the value modulo the width of the destination:
  a wider destination receives the sign- or zero-extended value, a narrower one the low bytes,
  and the memory behind the destination is not touched.
\<close>

theorem integer_convert_value:
  assumes "type_is_integer st" "type_is_integer dt" "length src = type_size st" "type_size dt \<le> length dest"
  shows "\<exists>dest'. integer_convert src st dest dt = Some (VSI_SUCCESS, dest') \<and> length dest' = length dest \<and>
    le_int (take (type_size dt) dest') = int_value st src mod 256 ^ type_size dt \<and>
    drop (type_size dt) dest' = drop (type_size dt) dest"
  by (rule integer_convert_ok[OF assms]) blast

theorem integer_convert_value_witness:
  "\<exists>dest'. integer_convert [0xFE] TYPE_INT8 [9, 9, 9] TYPE_UINT16 = Some (VSI_SUCCESS, dest') \<and>
    length dest' = length [9, 9, 9 :: uint8] \<and>
    le_int (take (type_size TYPE_UINT16) dest') = int_value TYPE_INT8 [0xFE] mod 256 ^ type_size TYPE_UINT16 \<and>
    drop (type_size TYPE_UINT16) dest' = drop (type_size TYPE_UINT16) [9, 9, 9]"
  by (rule integer_convert_value) (simp_all add: type_size_def)

text \<open>
  converting an integer to a type that is at least as wide, whatever the signs of the two
  types, and back gives the original bytes.
\<close>

theorem integer_convert_roundtrip:
  assumes "type_is_integer st" "type_is_integer dt" "type_size st \<le> type_size dt" "length src = type_size st"
    "length dest = type_size dt" "length buf = type_size st"
  shows "\<exists>wide. integer_convert src st dest dt = Some (VSI_SUCCESS, wide) \<and>
    integer_convert wide dt buf st = Some (VSI_SUCCESS, src)"
  by (rule integer_convert_back[OF assms]) blast

theorem integer_convert_roundtrip_witness:
  "\<exists>wide. integer_convert [0xFE] TYPE_INT8 [0, 0, 0, 0] TYPE_UINT32 = Some (VSI_SUCCESS, wide) \<and>
    integer_convert wide TYPE_UINT32 [0] TYPE_INT8 = Some (VSI_SUCCESS, [0xFE])"
  by (rule integer_convert_roundtrip) (simp_all add: type_size_def)

text \<open>
  the two functions that compute the bytes of a tensor agree for two or more dimensions
  of any supported type: \<open>vsi_nn_GetStrideSizeBySize\<close> multiplies strides,
  \<open>vsi_nn_GetTensorSize\<close> multiplies sizes, and both give the bytes of a row times the number
  of rows.
\<close>

theorem tensor_size_agrees:
  assumes "shape_ok sizes d" "2 \<le> d" "d \<le> 8" "type_get_bits t \<noteq> 1" "length stride = 8"
  shows "\<exists>st p. GetStrideSizeBySize sizes d t stride = Some (st, p) \<and> GetTensorSize sizes d t = Some p \<and>
    unat p = tensor_bytes t sizes d"
proof -
  obtain st p where "GetStrideSizeBySize sizes d t stride = Some (st, p)" "unat p = tensor_bytes t sizes d"
    using stride_size_ok[OF assms] by blast
  moreover obtain q where "GetTensorSize sizes d t = Some q" "unat q = tensor_bytes t sizes d"
    using tensor_size_ok[OF assms(1) _ assms(4)] assms(2) by auto
  ultimately show ?thesis by (metis unat_eq_iff)
qed

theorem tensor_size_agrees_witness:
  "\<exists>st p. GetStrideSizeBySize [5, 3, 0, 0, 0, 0, 0, 0] 2 TYPE_INT4 (replicate 8 0) = Some (st, p) \<and>
    GetTensorSize [5, 3, 0, 0, 0, 0, 0, 0] 2 TYPE_INT4 = Some p \<and>
    unat p = tensor_bytes TYPE_INT4 [5, 3, 0, 0, 0, 0, 0, 0] 2"
  by (rule tensor_size_agrees) (simp_all add: shape_ok_def)

text \<open>
  For 4-bit data of one dimension \<open>vsi_nn_GetStrideSizeBySize\<close> multiplies by the size of
  the second dimension, which does not exist: with an unused entry 0 the size is 0 bytes,
  where \<open>vsi_nn_GetTensorSize\<close> has the bytes of the row.
\<close>

theorem stride_size_1d:
  assumes "type_get_bits t = 4" "length sizes = 8" "length stride = 8" "sizes ! 1 = 0" "sizes ! 0 \<noteq> 0"
    "unat (sizes ! 0) * 64 < 2 ^ 32"
  shows "\<exists>st p. GetStrideSizeBySize sizes 1 t stride = Some (st, 0) \<and> GetTensorSize sizes 1 t = Some p \<and>
    unat p = (unat (sizes ! 0) + 1) div 2"
proof -
  define W where "W = (if sizes ! 0 mod (8 div type_get_bits t) = 0 then sizes ! 0 * type_get_bits t div 8
      else sizes ! 0 * type_get_bits t div 8 + 1)"
  obtain st where st: "fill_strides (stride[0 := type_get_bits t div 8, 1 := W]) 1 7 0 = Some st"
    using fill_strides_eq[of 1 7 "stride[0 := type_get_bits t div 8, 1 := W]" 0] assms(3) by auto
  have r: "rd sizes 0 = Some (sizes ! 0)" "rd sizes 1 = Some 0" using assms(2,4) by simp_all
  have "GetStrideSizeBySize sizes 1 t stride = Some (st, 0)"
    using st assms(1,3) r unfolding GetStrideSizeBySize_def Let_def
    by (cases "sizes ! 0 mod 2 = 0") (simp_all add: W_def del: One_nat_def)
  moreover have "\<exists>p. GetTensorSize sizes 1 t = Some p \<and> unat p = tensor_bytes t sizes 1"
    using assms by (intro tensor_size_ok) (auto simp: shape_ok_def take_Suc_conv_app_nth)
  ultimately show ?thesis using assms(1) by (simp add: tensor_bytes_def row_bytes_def)
qed

theorem stride_size_1d_witness:
  "\<exists>st p. GetStrideSizeBySize [5, 0, 0, 0, 0, 0, 0, 0] 1 TYPE_INT4 (replicate 8 0) = Some (st, 0) \<and>
    GetTensorSize [5, 0, 0, 0, 0, 0, 0, 0] 1 TYPE_INT4 = Some p \<and>
    unat p = (unat ([5, 0, 0, 0, 0, 0, 0, 0] ! 0 :: vsi_size_t) + 1) div 2"
  by (rule stride_size_1d) simp_all

end
