(* ===== verification/Filter_Size.thy ===== *)
theory Filter_Size
  imports Vsi_Prelude
begin

text \<open>
  The arithmetic of convolution and pooling windows in
  \<^verbatim>\<open>src/tim/vx/internal/src/utils/vsi_nn_util.c\<close>: the number of window positions along an axis,
  and the padding that the modes SAME and VALID ask for. All values are 32-bit words that wrap
  around; a division by a stride of 0 and a memory access outside of an array are \<open>None\<close>.
\<close>

datatype vsi_nn_round_type = ROUND_CEIL | ROUND_FLOOR
datatype vsi_nn_pad = PAD_AUTO | PAD_VALID | PAD_SAME

definition compute_stride_rounding :: "vsi_size_t \<Rightarrow> vsi_size_t \<Rightarrow> vsi_nn_round_type \<Rightarrow> vsi_size_t" where
  "compute_stride_rounding out stride rounding =
     (if rounding = ROUND_CEIL then (out + stride - 1) div stride else out div stride)"

text \<open>The padding is a signed value, cut at 0.\<close>

definition compute_padding_size ::
  "vsi_size_t \<Rightarrow> vsi_size_t \<Rightarrow> vsi_size_t \<Rightarrow> vsi_size_t \<Rightarrow> vsi_size_t \<Rightarrow> vsi_size_t" where
  "compute_padding_size in_size ksize stride dilation_rate out_size =
     (let effective_ksize = (ksize - 1) * dilation_rate + 1;
          padding = (out_size - 1) * stride + effective_ksize - in_size
      in if 0 <s padding then padding else 0)"

definition ComputeFilterSize ::
  "vsi_size_t \<Rightarrow> vsi_size_t \<Rightarrow> uint32 list \<Rightarrow> uint32 \<Rightarrow> uint32 \<Rightarrow> vsi_nn_round_type \<Rightarrow> vsi_size_t option" where
  "ComputeFilterSize i_size ksize pad stride dilation rounding =
     (if stride = 0 \<and> i_size \<noteq> ksize then Some 0
      else do {
        let stride = (if stride = 0 then 1 else stride);
        let ksize = (if dilation > 1 then dilation * (ksize - 1) + 1 else ksize);
        p0 \<leftarrow> rd pad 0;
        p1 \<leftarrow> rd pad 1;
        Some (compute_stride_rounding (i_size + p0 + p1 - ksize) stride rounding + 1) })"

definition compute_filter_shape ::
  "vsi_nn_pad \<Rightarrow> vsi_size_t \<Rightarrow> vsi_size_t \<Rightarrow> uint32 \<Rightarrow> uint32 \<Rightarrow> vsi_size_t option" where
  "compute_filter_shape padding_type image_size ksize stride dilation_rate =
     (let effective_ksize = (ksize - 1) * dilation_rate + 1
      in case padding_type of
           PAD_SAME \<Rightarrow> if stride = 0 then None else Some ((image_size + stride - 1) div stride)
         | PAD_VALID \<Rightarrow> if stride = 0 then None else Some ((image_size + stride - effective_ksize) div stride)
         | PAD_AUTO \<Rightarrow> Some 0)"

text \<open>The two paddings of an axis are written to entries \<open>at\<close> and \<open>at + 1\<close> of the array.\<close>

definition compute_padding_per_axis ::
  "vsi_size_t \<Rightarrow> vsi_size_t \<Rightarrow> uint32 \<Rightarrow> uint32 \<Rightarrow> vsi_nn_pad \<Rightarrow> vsi_size_t list \<Rightarrow> nat \<Rightarrow> vsi_size_t list option" where
  "compute_padding_per_axis in_shape ksize stride dilation pad_type out_pad at = do {
     let dilation = (if dilation = 0 then 1 else dilation);
     out_size \<leftarrow> compute_filter_shape pad_type in_shape ksize stride dilation;
     let total_pads = compute_padding_size in_shape ksize stride dilation out_size;
     p \<leftarrow> wr out_pad at (total_pads div 2);
     wr p (at + 1) (total_pads - total_pads div 2) }"

definition compute_padding ::
  "vsi_size_t list \<Rightarrow> vsi_size_t list \<Rightarrow> uint32 list \<Rightarrow> uint32 list option \<Rightarrow> vsi_nn_pad \<Rightarrow> vsi_size_t list
   \<Rightarrow> vsi_size_t list option" where
  "compute_padding in_shape ksize stride dilation pad_type out_pad =
     (if pad_type = PAD_AUTO then Some out_pad
      else do {
        (dw, dh) \<leftarrow> (case dilation of
            None \<Rightarrow> Some (1, 1)
          | Some ds \<Rightarrow> do {
              d0 \<leftarrow> rd ds 0;
              d1 \<leftarrow> rd ds 1;
              Some (if d0 = 0 \<and> d1 = 0 then (1, 1) else (d0, d1)) });
        i0 \<leftarrow> rd in_shape 0; k0 \<leftarrow> rd ksize 0; s0 \<leftarrow> rd stride 0;
        p \<leftarrow> compute_padding_per_axis i0 k0 s0 dw pad_type out_pad 0;
        i1 \<leftarrow> rd in_shape 1; k1 \<leftarrow> rd ksize 1; s1 \<leftarrow> rd stride 1;
        compute_padding_per_axis i1 k1 s1 dh pad_type p 2 })"

definition compute_padding_3d ::
  "vsi_size_t list \<Rightarrow> vsi_size_t list \<Rightarrow> uint32 list \<Rightarrow> uint32 list option \<Rightarrow> vsi_nn_pad \<Rightarrow> vsi_size_t list
   \<Rightarrow> vsi_size_t list option" where
  "compute_padding_3d in_shape ksize stride dilation pad_type out_pad =
     (if pad_type = PAD_AUTO then Some out_pad
      else do {
        (dw, dh, dd) \<leftarrow> (case dilation of
            None \<Rightarrow> Some (1, 1, 1)
          | Some ds \<Rightarrow> do {
              d0 \<leftarrow> rd ds 0;
              d1 \<leftarrow> rd ds 1;
              d2 \<leftarrow> rd ds 2;
              Some (if d0 = 0 \<and> d1 = 0 \<and> d2 = 0 then (1, 1, 1) else (d0, d1, d2)) });
        i0 \<leftarrow> rd in_shape 0; k0 \<leftarrow> rd ksize 0; s0 \<leftarrow> rd stride 0;
        p \<leftarrow> compute_padding_per_axis i0 k0 s0 dw pad_type out_pad 0;
        i1 \<leftarrow> rd in_shape 1; k1 \<leftarrow> rd ksize 1; s1 \<leftarrow> rd stride 1;
        q \<leftarrow> compute_padding_per_axis i1 k1 s1 dh pad_type p 2;
        i2 \<leftarrow> rd in_shape 2; k2 \<leftarrow> rd ksize 2; s2 \<leftarrow> rd stride 2;
        compute_padding_per_axis i2 k2 s2 dd pad_type q 4 })"

definition compute_padding_conv1d ::
  "vsi_size_t list \<Rightarrow> vsi_size_t list \<Rightarrow> uint32 list \<Rightarrow> uint32 list option \<Rightarrow> vsi_nn_pad \<Rightarrow> vsi_size_t list
   \<Rightarrow> vsi_size_t list option" where
  "compute_padding_conv1d in_shape ksize stride dilation pad_type out_pad =
     (if pad_type = PAD_AUTO then Some out_pad
      else do {
        dh \<leftarrow> (case dilation of None \<Rightarrow> Some 1 | Some ds \<Rightarrow> do { d0 \<leftarrow> rd ds 0; Some (if d0 = 0 then 1 else d0) });
        i0 \<leftarrow> rd in_shape 0; k0 \<leftarrow> rd ksize 0; s0 \<leftarrow> rd stride 0;
        out_h \<leftarrow> compute_filter_shape pad_type i0 k0 s0 dh;
        let pad_h = compute_padding_size i0 k0 s0 dh out_h;
        p \<leftarrow> wr out_pad 0 (pad_h div 2);
        wr p 1 (pad_h - pad_h div 2) })"

definition ComputePadWithPadType ::
  "vsi_size_t list \<Rightarrow> vsi_size_t list \<Rightarrow> uint32 list \<Rightarrow> vsi_nn_pad \<Rightarrow> vsi_size_t list \<Rightarrow> vsi_size_t list option" where
  "ComputePadWithPadType in_shape ksize stride pad_type out_pad =
     compute_padding in_shape ksize stride None pad_type out_pad"

definition ComputePadWithPadTypeForConv1D ::
  "vsi_size_t list \<Rightarrow> vsi_size_t list \<Rightarrow> uint32 list \<Rightarrow> vsi_nn_pad \<Rightarrow> vsi_size_t list \<Rightarrow> vsi_size_t list option" where
  "ComputePadWithPadTypeForConv1D in_shape ksize stride pad_type out_pad =
     compute_padding_conv1d in_shape ksize stride None pad_type out_pad"

text \<open>The padding for the driver: a negated value marks different paddings on the two sides.\<close>

definition GetPadForOvx :: "uint32 list \<Rightarrow> uint32 list \<Rightarrow> uint32 list option" where
  "GetPadForOvx in_pad out_pad = do {
     i0 \<leftarrow> rd in_pad 0; i2 \<leftarrow> rd in_pad 2;
     o1 \<leftarrow> wr out_pad 0 i0;
     o2 \<leftarrow> wr o1 1 i2;
     i1 \<leftarrow> rd in_pad 1;
     o3 \<leftarrow> (if i0 \<noteq> i1 then wr o2 0 (0 - i0) else Some o2);
     i3 \<leftarrow> rd in_pad 3;
     if i2 \<noteq> i3 then wr o3 1 (0 - i2) else Some o3 }"

text \<open>The rank is reset to \<open>VSI_NN_DIM_AUTO\<close> (0) when a size among its dimensions is 0.\<close>

fun count_dims :: "vsi_size_t list \<Rightarrow> nat \<Rightarrow> nat \<Rightarrow> nat \<Rightarrow> nat option" where
  "count_dims sizes i 0 num = Some num"
| "count_dims sizes i (Suc n) num = do {
     s \<leftarrow> rd sizes i;
     if s = 0 then Some num else count_dims sizes (Suc i) n (num + 1) }"

definition UpdateTensorDims :: "vsi_size_t list \<Rightarrow> nat \<Rightarrow> nat option" where
  "UpdateTensorDims sizes dim_num = do {
     num \<leftarrow> count_dims sizes 0 dim_num 0;
     Some (if dim_num > 8 then num else if dim_num \<noteq> num then 0 else dim_num) }"


subsection \<open>Windows over an axis\<close>

text \<open>
  The sizes are small enough for 31 bits; \<open>eff k d\<close> is the extent of a window with dilation
  \<open>d\<close>.
\<close>

definition eff :: "nat \<Rightarrow> nat \<Rightarrow> nat" where
  "eff k d = (k - 1) * d + 1"

definition window_ok :: "vsi_size_t \<Rightarrow> vsi_size_t \<Rightarrow> uint32 \<Rightarrow> uint32 \<Rightarrow> bool" where
  "window_ok i k s d \<longleftrightarrow> 0 < i \<and> 0 < k \<and> 0 < s \<and> 0 < d \<and> unat i + unat s + eff (unat k) (unat d) < 2 ^ 31"

lemma unat_pos: "0 < unat w \<longleftrightarrow> 0 < w" for w :: "'a :: len word"
  by (simp add: word_less_nat_alt)

lemma eff_word:
  assumes "0 < k" "eff (unat k) (unat d) < 2 ^ 32"
  shows "unat ((k - 1) * d + 1 :: 32 word) = eff (unat k) (unat d)"
proof -
  have k1: "unat (k - 1) = unat k - 1" using assms(1) by (subst unat_sub_le) (simp_all add: word_le_nat_alt word_less_nat_alt Suc_leI)
  have m: "unat ((k - 1) * d) = (unat k - 1) * unat d"
    using assms(2) k1 by (subst unat_mult_no_overflow) (simp_all add: eff_def)
  show ?thesis using assms(2) m by (subst unat_add_no_overflow) (simp_all add: eff_def)
qed

text \<open>The signed maximum with 0 is the truncated difference, as long as both sides are small.\<close>

lemma signed_padding:
  fixes a b :: vsi_size_t
  assumes "unat a < 2 ^ 31" "unat b < 2 ^ 31"
  shows "unat (if 0 <s a - b then a - b else 0) = unat a - unat b"
proof -
  have le: "unat a \<le> unat b \<or> unat b < unat a" by linarith
  have sa: "sint w = int (unat w)" if w: "unat w < 2 ^ 31" for w :: vsi_size_t
  proof -
    have u: "int (unat w) = uint w" by simp
    have "unat w < 2147483648" using w by simp
    then have "int (unat w) < 2147483648" by linarith
    then have "uint w < 2 ^ (LENGTH(32) - 1)" unfolding u by simp
    moreover have "- (2 ^ (LENGTH(32) - 1)) \<le> uint w" using unsigned_greater_eq[of w] by (rule order_trans[rotated]) simp
    ultimately have "signed_take_bit (LENGTH(32) - 1) (uint w) = uint w" by (intro signed_take_bit_int_eq_self)
    then show ?thesis unfolding u sint_uint by simp
  qed
  have "sint (a - b) = signed_take_bit (LENGTH(32) - 1) (int (unat a) - int (unat b))"
    unfolding sint_word_diff sa[OF assms(1)] sa[OF assms(2)] ..
  also have "\<dots> = int (unat a) - int (unat b)"
  proof (rule signed_take_bit_int_eq_self)
    have "unat a < 2147483648" "unat b < 2147483648" using assms by simp_all
    then have "- 2147483648 \<le> int (unat a) - int (unat b)" "int (unat a) - int (unat b) < 2147483648" by linarith+
    then show "- (2 ^ (LENGTH(32) - 1)) \<le> int (unat a) - int (unat b)"
      "int (unat a) - int (unat b) < 2 ^ (LENGTH(32) - 1)" by simp_all
  qed
  finally have s: "sint (a - b) = int (unat a) - int (unat b)" .
  have pos: "0 <s a - b \<longleftrightarrow> unat b < unat a" by (simp add: word_sless_alt s word_less_def[symmetric] word_less_nat_alt)
  show ?thesis
  proof (cases "unat b < unat a")
    case True
    then show ?thesis using pos by (simp add: unat_sub_le word_le_nat_alt)
  next
    case False
    then show ?thesis using pos by simp
  qed
qed

lemma padding_value:
  assumes ok: "window_ok i k s d" and out: "0 < out" "(unat out - 1) * unat s + eff (unat k) (unat d) < 2 ^ 31"
  shows "unat (compute_padding_size i k s d out) = (unat out - 1) * unat s + eff (unat k) (unat d) - unat i"
proof -
  have e: "eff (unat k) (unat d) < 2 ^ 32" "0 < k" "unat i < 2 ^ 31" using ok by (auto simp: window_ok_def)
  have o1: "unat (out - 1) = unat out - 1"
    using out(1) by (subst unat_sub_le) (simp_all add: word_le_nat_alt word_less_nat_alt Suc_leI)
  have m: "unat ((out - 1) * s) = (unat out - 1) * unat s" using out(2) o1 by (subst unat_mult_no_overflow) simp_all
  note ef = eff_word[OF e(2,1)]
  have a: "unat ((out - 1) * s + ((k - 1) * d + 1)) = (unat out - 1) * unat s + eff (unat k) (unat d)"
    using out(2) by (subst unat_add_no_overflow) (simp_all only: m ef, simp)
  show ?thesis
    unfolding compute_padding_size_def Let_def
    using signed_padding[of "(out - 1) * s + ((k - 1) * d + 1)" i] out(2) e(3) unfolding a by (simp add: add.assoc)
qed

text \<open>The number of window positions, when the window fits the padded axis.\<close>

lemma filter_size_value:
  assumes s: "0 < s" and k: "0 < k" and fit: "eff (unat k) (unat d) \<le> unat i + unat p0 + unat p1"
    and small: "unat i + unat p0 + unat p1 < 2 ^ 31" and d: "0 < d"
  shows "ComputeFilterSize i k [p0, p1] s d ROUND_FLOOR =
      Some (of_nat ((unat i + unat p0 + unat p1 - eff (unat k) (unat d)) div unat s + 1))"
    "(unat i + unat p0 + unat p1 - eff (unat k) (unat d)) div unat s + 1 < 2 ^ 32"
proof -
  let ?e = "eff (unat k) (unat d)"
  have e: "?e < 2 ^ 32" using fit small by simp
  have ek: "unat (if d > 1 then d * (k - 1) + 1 else k) = ?e"
  proof (cases "d > 1")
    case True
    then show ?thesis using eff_word[OF k e] by (simp add: mult.commute)
  next
    case False
    then have "unat d = 1" using d by (simp add: word_less_nat_alt)
    moreover have "0 < unat k" using k by (simp add: unat_pos)
    ultimately show ?thesis using False by (simp add: eff_def)
  qed
  have ip: "unat (i + p0 + p1) = unat i + unat p0 + unat p1"
  proof -
    have "unat (i + p0) = unat i + unat p0" using small by (intro unat_add_no_overflow) simp
    then show ?thesis using small by (subst unat_add_no_overflow) simp_all
  qed
  have diff: "unat (i + p0 + p1 - (if d > 1 then d * (k - 1) + 1 else k)) = unat i + unat p0 + unat p1 - ?e"
    using fit ip ek by (subst unat_sub_le) (simp_all add: word_le_nat_alt)
  let ?q = "(unat i + unat p0 + unat p1 - ?e) div unat s"
  have "?q \<le> unat i + unat p0 + unat p1 - ?e" by (rule div_le_dividend)
  then have "?q + 1 \<le> 2 ^ 31" using small by linarith
  then show lt: "?q + 1 < 2 ^ 32" by (rule le_less_trans) simp
  let ?w = "(i + p0 + p1 - (if d > 1 then d * (k - 1) + 1 else k)) div s"
  have "?w + 1 = of_nat (unat ?w + 1)" by simp
  also have "unat ?w = ?q" by (simp only: unat_div diff)
  finally have "?w + 1 = of_nat (?q + 1)" .
  then show "ComputeFilterSize i k [p0, p1] s d ROUND_FLOOR = Some (of_nat (?q + 1))"
    using s less_irrefl[of s] by (auto simp: ComputeFilterSize_def compute_stride_rounding_def rd_def Let_def)
qed

text \<open>Arithmetic: with \<open>o\<close> windows the padding fills the axis up exactly.\<close>

lemma windows_exact:
  fixes i e s n :: nat
  assumes s: "0 < s" and n: "0 < n" "i \<le> n * s" "(n - 1) * s < i" and e: "0 < e"
  shows "(i + ((n - 1) * s + e - i) - e) div s + 1 = n" "e \<le> i + ((n - 1) * s + e - i)"
proof -
  show "e \<le> i + ((n - 1) * s + e - i)" by linarith
  show "(i + ((n - 1) * s + e - i) - e) div s + 1 = n"
  proof (cases "i \<le> (n - 1) * s + e")
    case True
    then have "i + ((n - 1) * s + e - i) - e = (n - 1) * s" by linarith
    then show ?thesis using s n by simp
  next
    case False
    then have z: "i + ((n - 1) * s + e - i) - e = i - e" by simp
    have ns: "n * s = (n - 1) * s + s" using n(1) by (cases n) simp_all
    have "(n - 1) * s \<le> i - e" using False by linarith
    moreover have "i - e < (n - 1) * s + s" using n(2) e ns False by linarith
    ultimately have "(i - e) div s = n - 1" using s by (intro div_nat_eqI) (simp_all add: mult.commute)
    then show ?thesis unfolding z using n(1) by simp
  qed
qed

lemma halves:
  fixes t :: vsi_size_t
  shows "unat (t div 2) + unat (t - t div 2) = unat t" "t - t div 2 = t div 2 \<or> t - t div 2 = t div 2 + 1"
proof -
  have h: "unat (t div 2) = unat t div 2" by (simp add: unat_div)
  have d: "unat (t - t div 2) = unat t - unat t div 2"
    by (subst unat_sub_le) (simp_all add: word_le_nat_alt h)
  show "unat (t div 2) + unat (t - t div 2) = unat t" using h d by simp
  have lt: "unat t div 2 + 1 < 2 ^ 32" using unsigned_less[of t, where ?'a = nat] by simp
  have h1: "unat (t div 2 + 1) = unat t div 2 + 1"
    using lt h by (subst unat_add_no_overflow) simp_all
  have "unat t - unat t div 2 = unat t div 2 \<or> unat t - unat t div 2 = unat t div 2 + 1" by linarith
  then have "unat (t - t div 2) = unat (t div 2) \<or> unat (t - t div 2) = unat (t div 2 + 1)"
    unfolding d h h1 .
  then show "t - t div 2 = t div 2 \<or> t - t div 2 = t div 2 + 1" by (simp only: unat_eq_iff)
qed

text \<open>The number of windows of the two modes.\<close>

definition windows :: "vsi_nn_pad \<Rightarrow> nat \<Rightarrow> nat \<Rightarrow> nat \<Rightarrow> nat" where
  "windows m i e s = (if m = PAD_SAME then (i + s - 1) div s else (i - e) div s + 1)"

lemma filter_shape_value:
  assumes ok: "window_ok i k s d" and m: "m = PAD_SAME \<or> m = PAD_VALID \<and> eff (unat k) (unat d) \<le> unat i"
  obtains n where "compute_filter_shape m i k s d = Some n" "unat n = windows m (unat i) (eff (unat k) (unat d)) (unat s)"
proof -
  let ?e = "eff (unat k) (unat d)"
  have w: "0 < i" "0 < k" "0 < unat s" "s \<noteq> 0" "unat i + unat s + ?e < 2 ^ 31"
    using ok by (auto simp: window_ok_def unat_pos)
  have e: "?e < 2 ^ 32" using w(5) by simp
  have is': "unat (i + s) = unat i + unat s" using w(5) by (intro unat_add_no_overflow) simp
  show thesis
  proof (cases "m = PAD_SAME")
    case True
    have "unat (i + s - 1) = unat i + unat s - 1"
      using is' w(3) by (subst unat_sub_le) (simp_all add: word_le_nat_alt)
    then have "unat ((i + s - 1) div s) = (unat i + unat s - 1) div unat s" by (simp only: unat_div)
    then show ?thesis using that True w(4) by (simp add: compute_filter_shape_def windows_def)
  next
    case False
    then have v: "m = PAD_VALID" "?e \<le> unat i" using m by simp_all
    have "unat (i + s - ((k - 1) * d + 1)) = unat i + unat s - ?e"
      using is' v(2) eff_word[OF w(2) e] by (subst unat_sub_le) (simp_all add: word_le_nat_alt)
    then have "unat ((i + s - ((k - 1) * d + 1)) div s) = (unat i + unat s - ?e) div unat s" by (simp only: unat_div)
    also have "\<dots> = (unat i - ?e + unat s) div unat s" using v(2) by simp
    also have "\<dots> = windows m (unat i) ?e (unat s)"
      using w(3) v(1) div_add_self2[of "unat s" "unat i - ?e"] by (simp add: windows_def)
    finally show ?thesis using that v(1) w(4) by (simp add: compute_filter_shape_def)
  qed
qed

lemma windows_bounds:
  assumes s: "0 < s" and i: "0 < i" and m: "m = PAD_SAME \<or> m = PAD_VALID \<and> e \<le> i" and e: "0 < e"
  shows "0 < windows m i e s" "(windows m i e s - 1) * s < i"
    "(i + ((windows m i e s - 1) * s + e - i) - e) div s + 1 = windows m i e s"
    "e \<le> i + ((windows m i e s - 1) * s + e - i)"
    "m = PAD_VALID \<Longrightarrow> (windows m i e s - 1) * s + e \<le> i"
proof -
  let ?n = "windows m i e s"
  have val: "(?n - 1) * s + e \<le> i" if v: "m = PAD_VALID"
  proof -
    have "(i - e) div s * s \<le> i - e" by (rule div_times_less_eq_dividend)
    moreover have "(?n - 1) * s = (i - e) div s * s" "e \<le> i" using v m by (simp_all add: windows_def)
    ultimately show ?thesis by linarith
  qed
  show "m = PAD_VALID \<Longrightarrow> (?n - 1) * s + e \<le> i" by (rule val)
  have same: "i \<le> ?n * s" "(?n - 1) * s < i" "0 < ?n" if v: "m = PAD_SAME"
  proof -
    have n: "?n = (i - 1) div s + 1" using v s i div_add_self2[of s "i - 1"] by (simp add: windows_def)
    have b: "(i - 1) div s * s \<le> i - 1" "i - 1 < (i - 1) div s * s + s"
      using dividend_less_div_times[OF s, of "i - 1"] by (simp_all add: div_times_less_eq_dividend add.commute)
    have "(i - 1) div s * s < i" using b(1) i by linarith
    then show "i \<le> ?n * s" "(?n - 1) * s < i" "0 < ?n" using b(2) i unfolding n by simp_all
  qed
  show "0 < ?n" "(?n - 1) * s < i" using m same val e by (auto simp: windows_def)
  show "e \<le> i + ((?n - 1) * s + e - i)" by linarith
  show "(i + ((?n - 1) * s + e - i) - e) div s + 1 = ?n"
  proof (cases "m = PAD_SAME")
    case True
    then show ?thesis using windows_exact(1)[OF s same(3) same(1) same(2) e] by simp
  next
    case False
    then have v: "m = PAD_VALID" using m by simp
    have "i + ((?n - 1) * s + e - i) - e = i - e" using val[OF v] by linarith
    then show ?thesis using v by (simp add: windows_def)
  qed
qed

lemma padding_axis:
  assumes ok: "window_ok i k s d" and m: "m = PAD_SAME \<or> m = PAD_VALID \<and> eff (unat k) (unat d) \<le> unat i"
  shows "\<exists>n p0 p1. compute_padding_per_axis i k s d m [0, 0] 0 = Some [p0, p1] \<and>
    compute_filter_shape m i k s d = Some n \<and> ComputeFilterSize i k [p0, p1] s d ROUND_FLOOR = Some n \<and>
    unat n = windows m (unat i) (eff (unat k) (unat d)) (unat s) \<and>
    (m = PAD_VALID \<longrightarrow> p0 = 0 \<and> p1 = 0) \<and> (p1 = p0 \<or> p1 = p0 + 1)"
proof -
  let ?e = "eff (unat k) (unat d)"
  have w: "0 < unat i" "0 < k" "0 < unat s" "0 < s" "0 < d" "d \<noteq> 0" "unat i + unat s + ?e < 2 ^ 31"
    using ok by (auto simp: window_ok_def unat_pos)
  have e: "0 < ?e" by (simp add: eff_def)
  obtain n where n: "compute_filter_shape m i k s d = Some n" "unat n = windows m (unat i) ?e (unat s)"
    using filter_shape_value[OF ok m] by blast
  note wb = windows_bounds[OF w(3,1) m e, folded n(2)]
  let ?t = "compute_padding_size i k s d n"
  have n0: "0 < n" using wb(1) by (simp add: unat_pos)
  have lt: "(unat n - 1) * unat s + ?e < 2 ^ 31" using wb(2) w(7) by linarith
  have t: "unat ?t = (unat n - 1) * unat s + ?e - unat i" by (rule padding_value[OF ok n0 lt])
  let ?p0 = "?t div 2" and ?p1 = "?t - ?t div 2"
  have p: "unat ?p0 + unat ?p1 = (unat n - 1) * unat s + ?e - unat i" using halves(1)[of ?t] t by simp
  have tot: "unat i + unat ?p0 + unat ?p1 = unat i + ((unat n - 1) * unat s + ?e - unat i)" using p by linarith
  have fit: "?e \<le> unat i + unat ?p0 + unat ?p1" using wb(4) unfolding tot .
  have "unat i + unat ?p0 + unat ?p1 \<le> unat i + ?e" using wb(2) unfolding tot by linarith
  then have small: "unat i + unat ?p0 + unat ?p1 < 2 ^ 31" using w(7) by linarith
  have "ComputeFilterSize i k [?p0, ?p1] s d ROUND_FLOOR = Some (of_nat (unat n))"
    using filter_size_value(1)[OF w(4,2) fit small w(5)] unfolding tot wb(3) .
  then have f: "ComputeFilterSize i k [?p0, ?p1] s d ROUND_FLOOR = Some n" by simp
  have "?t = 0" if v: "m = PAD_VALID"
  proof -
    have "unat ?t = 0" using t wb(5)[OF v] by simp
    then show ?thesis by (simp add: unat_eq_0)
  qed
  then have z: "m = PAD_VALID \<longrightarrow> ?p0 = 0 \<and> ?p1 = 0" by simp
  have "compute_padding_per_axis i k s d m [0, 0] 0 = Some [?p0, ?p1]"
    using n(1) w(6) by (simp add: compute_padding_per_axis_def Let_def)
  then show ?thesis using n f z halves(2)[of ?t] by blast
qed

subsection \<open>Properties\<close>

text \<open>
  C31: The padding of an axis fits the windows: for sizes that fit 31 bits, the paddings that
  \<open>vsi_nn_compute_padding_per_axis\<close> computes for the mode SAME, or for VALID when the window is
  not longer than the axis, make \<open>vsi_nn_ComputeFilterSize\<close> (rounding down) return the number of
  windows that \<open>vsi_nn_compute_filter_shape\<close> returns: the axis divided by the stride, rounded up,
  for SAME; the number of windows inside the axis, with no padding, for VALID. The second padding
  is the first one or one more.
\<close>

theorem padding_fits_windows:
  assumes "window_ok i k s d" "m = PAD_SAME \<or> m = PAD_VALID \<and> eff (unat k) (unat d) \<le> unat i"
  shows "\<exists>n p0 p1. compute_padding_per_axis i k s d m [0, 0] 0 = Some [p0, p1] \<and>
    compute_filter_shape m i k s d = Some n \<and> ComputeFilterSize i k [p0, p1] s d ROUND_FLOOR = Some n \<and>
    unat n = windows m (unat i) (eff (unat k) (unat d)) (unat s) \<and>
    (m = PAD_VALID \<longrightarrow> p0 = 0 \<and> p1 = 0) \<and> (p1 = p0 \<or> p1 = p0 + 1)"
  by (rule padding_axis[OF assms])

theorem padding_fits_windows_witness:
  "\<exists>n p0 p1. compute_padding_per_axis 224 3 2 1 PAD_SAME [0, 0] 0 = Some [p0, p1] \<and>
    ComputeFilterSize 224 3 [p0, p1] 2 1 ROUND_FLOOR = Some n \<and> unat n = 112"
  using padding_fits_windows[of 224 3 2 1 PAD_SAME] by (auto simp: window_ok_def eff_def windows_def)

text \<open>
  A window that is longer than the padded axis wraps the difference around: with stride 2 an axis
  of 2 and a window of 3 give 2147483648 positions.
\<close>

lemma filter_size_wraps: "ComputeFilterSize 2 3 [0, 0] 2 1 ROUND_FLOOR = Some 2147483648"
  by (simp add: ComputeFilterSize_def compute_stride_rounding_def rd_def Let_def)

end
