(* ===== verification/Graph_Optimize.thy ===== *)
theory Graph_Optimize
  imports Graph Dtype
begin

text \<open>
  The rewriting of a graph before its setup (\<open>vsi_nn_OptimizeGraph\<close>,
  \<^verbatim>\<open>src/tim/vx/internal/src/vsi_nn_graph_optimization.c\<close>): signed 8-bit tensors become unsigned
  ones. Virtual tensors get a new type, constant tensors new data, and for the other tensors of
  the graph, which the user reads and writes, nodes that convert data are put in. \<open>en\<close> is the
  option \<open>enable_i8_to_u8\<close>. The driver is the record \<open>drv\<close>, \<open>mem\<close> says which allocation
  succeeds, and \<open>create k\<close> and \<open>new k\<close> make the tensor and the node of the \<open>k\<close>-th conversion.
\<close>

definition TYPE_I8 :: int where "TYPE_I8 = 2"
definition TYPE_U8 :: int where "TYPE_U8 = 3"
definition QNT_ASYMMETRIC :: int where "QNT_ASYMMETRIC = 2"
definition QNT_SYMMETRIC :: int where "QNT_SYMMETRIC = 4"
definition OP_NBG_CODE :: int where "OP_NBG_CODE = 68"
definition OP_DATACONVERT :: int where "OP_DATACONVERT = 48"
definition DATACONVERT_UID_BASE :: uint32 where "DATACONVERT_UID_BASE = 30000"

subsection \<open>Signed 8-bit tensors\<close>

definition is_asymm_int8_norm_tensor :: "tensor_attr \<Rightarrow> bool" where
  "is_asymm_int8_norm_tensor a \<longleftrightarrow>
     \<not> attr_vtl a \<and> \<not> attr_is_const a \<and> attr_vx_type a = TYPE_I8 \<and> attr_qnt_type a = QNT_ASYMMETRIC"

definition is_symm_int8_norm_tensor :: "tensor_attr \<Rightarrow> bool" where
  "is_symm_int8_norm_tensor a \<longleftrightarrow>
     \<not> attr_vtl a \<and> \<not> attr_is_const a \<and> attr_vx_type a = TYPE_I8 \<and> attr_qnt_type a = QNT_SYMMETRIC"

definition is_asymm_int8_const_tensor :: "tensor_attr \<Rightarrow> bool" where
  "is_asymm_int8_const_tensor a \<longleftrightarrow>
     attr_is_const a \<and> attr_vx_type a = TYPE_I8 \<and> attr_qnt_type a = QNT_ASYMMETRIC"

definition is_symm_int8_const_tensor :: "tensor_attr \<Rightarrow> bool" where
  "is_symm_int8_const_tensor a \<longleftrightarrow>
     attr_is_const a \<and> attr_vx_type a = TYPE_I8 \<and> attr_qnt_type a = QNT_SYMMETRIC"

definition is_asymm_int8_virtual_tensor :: "tensor_attr \<Rightarrow> bool" where
  "is_asymm_int8_virtual_tensor a \<longleftrightarrow>
     attr_vtl a \<and> attr_vx_type a = TYPE_I8 \<and> attr_qnt_type a = QNT_ASYMMETRIC"

definition is_symm_int8_virtual_tensor :: "tensor_attr \<Rightarrow> bool" where
  "is_symm_int8_virtual_tensor a \<longleftrightarrow>
     attr_vtl a \<and> attr_vx_type a = TYPE_I8 \<and> attr_qnt_type a = QNT_SYMMETRIC"

text \<open>The attributes of a tensor of the graph; a missing tensor is of none of the kinds.\<close>

definition attr_at :: "'s graph \<Rightarrow> tensor_id \<Rightarrow> tensor_attr option" where
  "attr_at g tid = map_option (\<lambda>p. t_attr (g_tensors g p)) (GetTensor g tid)"

definition is_int8_norm_tensor :: "int \<Rightarrow> tensor_attr option \<Rightarrow> bool" where
  "is_int8_norm_tensor en t =
     (case t of None \<Rightarrow> False | Some a \<Rightarrow> is_asymm_int8_norm_tensor a \<or> en = 2 \<and> is_symm_int8_norm_tensor a)"

definition is_int8_const_tensor :: "int \<Rightarrow> tensor_attr option \<Rightarrow> bool" where
  "is_int8_const_tensor en t =
     (case t of None \<Rightarrow> False | Some a \<Rightarrow> is_asymm_int8_const_tensor a \<or> en = 2 \<and> is_symm_int8_const_tensor a)"

definition is_int8_virtual_tensor :: "int \<Rightarrow> tensor_attr option \<Rightarrow> bool" where
  "is_int8_virtual_tensor en t =
     (case t of None \<Rightarrow> False | Some a \<Rightarrow> is_asymm_int8_virtual_tensor a \<or> en = 2 \<and> is_symm_int8_virtual_tensor a)"

definition convert_attr :: "tensor_attr \<Rightarrow> tensor_attr" where
  "convert_attr a = a\<lparr>attr_vx_type := TYPE_U8, attr_qnt_type := QNT_ASYMMETRIC, attr_zero_point := attr_zero_point a + 128\<rparr>"

subsection \<open>Virtual tensors\<close>

text \<open>The loops leave with the status of the last conversion when a node is missing.\<close>

definition convert_virtual_tensor_attr :: "ptr \<Rightarrow> 's graph \<Rightarrow> 's graph" where
  "convert_virtual_tensor_attr p g =
     g\<lparr>g_tensors := (g_tensors g)(p := (g_tensors g p)\<lparr>t_attr := convert_attr (t_attr (g_tensors g p))\<rparr>)\<rparr>"

fun virtual_ids :: "int \<Rightarrow> tensor_id list \<Rightarrow> 's graph \<Rightarrow> 's graph" where
  "virtual_ids en [] g = g"
| "virtual_ids en (tid # tids) g =
     virtual_ids en tids
       (case GetTensor g tid of
          None \<Rightarrow> g
        | Some p \<Rightarrow> if is_int8_virtual_tensor en (attr_at g tid) then convert_virtual_tensor_attr p g else g)"

fun virtual_nodes :: "int \<Rightarrow> node_id list \<Rightarrow> 's graph \<Rightarrow> 's graph" where
  "virtual_nodes en [] g = g"
| "virtual_nodes en (nid # nids) g =
     (case node_at_id g nid of
        None \<Rightarrow> g
      | Some n \<Rightarrow> virtual_nodes en nids (virtual_ids en (n_outputs n) (virtual_ids en (n_inputs n) g)))"

definition convert_graph_virtual_tensor :: "int \<Rightarrow> 's graph \<Rightarrow> vsi_status \<times> 's graph" where
  "convert_graph_virtual_tensor en g = (VSI_SUCCESS, virtual_nodes en (ids_below (node_num g)) g)"

subsection \<open>Constant tensors\<close>

text \<open>
  The calls of the driver on raw tensors: \<open>read_tensor\<close> stands for \<open>vsi_nn_ConvertTensorToData\<close>,
  \<open>new_raw\<close> for the call that creates a tensor (\<open>_create_const_raw_tensor\<close>), \<open>swap_out\<close> and
  \<open>swap_in\<close> for the two directions of \<open>vxSwapTensorHandle\<close>, \<open>poke\<close> for the copy to host memory,
  \<open>copy_patch\<close> for \<open>vsi_nn_copy_tensor_patch\<close>.
\<close>

record 's drv =
  read_tensor :: "'s \<Rightarrow> vtensor \<Rightarrow> uint8 list option"
  release_raw :: "ptr \<Rightarrow> 's \<Rightarrow> 's"
  new_raw :: "uint8 list \<Rightarrow> tensor_attr \<Rightarrow> 's \<Rightarrow> 's \<times> ptr option"
  swap_out :: "ptr \<Rightarrow> 's \<Rightarrow> 's \<times> ptr option"
  poke :: "ptr \<Rightarrow> uint8 list \<Rightarrow> tensor_attr \<Rightarrow> 's \<Rightarrow> 's"
  swap_in :: "ptr \<Rightarrow> ptr \<Rightarrow> 's \<Rightarrow> 's \<times> vsi_status"
  flush_handle :: "ptr \<Rightarrow> 's \<Rightarrow> 's \<times> vsi_status"
  copy_patch :: "ptr \<Rightarrow> tensor_attr \<Rightarrow> uint8 list \<Rightarrow> 's \<Rightarrow> 's \<times> vsi_status"
  set_lifetime :: "ptr \<Rightarrow> bool \<Rightarrow> 's \<Rightarrow> 's \<times> vsi_status"
  set_precision_high :: "ptr \<Rightarrow> 's \<Rightarrow> 's \<times> vsi_status"

text \<open>The flags say which attributes are set.\<close>

definition ATTR_CONST :: uint32 where "ATTR_CONST = 0x10"
definition ATTR_HIGH_PRECISION :: uint32 where "ATTR_HIGH_PRECISION = 0x20"

definition set_raw_tensor_attr :: "'s drv \<Rightarrow> ptr option \<Rightarrow> tensor_attr \<Rightarrow> uint32 \<Rightarrow> 's \<Rightarrow> 's \<times> vsi_status" where
  "set_raw_tensor_attr drv tensor attr vx_attr s =
     (case tensor of
        None \<Rightarrow> (s, VSI_FAILURE)
      | Some x \<Rightarrow>
          let (s1, status) =
            (if vx_attr AND ATTR_CONST \<noteq> 0 then set_lifetime drv x (attr_is_const attr) s else (s, VSI_SUCCESS))
          in if status = VSI_SUCCESS \<and> vx_attr AND ATTR_HIGH_PRECISION \<noteq> 0 then set_precision_high drv x s1
             else (s1, status))"

definition try_set_const_raw_tensor :: "'s drv \<Rightarrow> ptr option \<Rightarrow> tensor_attr \<Rightarrow> 's \<Rightarrow> 's \<times> bool" where
  "try_set_const_raw_tensor drv tensor attr s =
     (let (s1, status) = (if attr_is_const attr then set_raw_tensor_attr drv tensor attr ATTR_CONST s else (s, VSI_SUCCESS))
      in (s1, status \<noteq> VSI_FAILURE))"

definition CopyDataToRawTensor :: "'s drv \<Rightarrow> ptr option \<Rightarrow> uint8 list \<Rightarrow> tensor_attr \<Rightarrow> 's \<Rightarrow> 's \<times> vsi_status" where
  "CopyDataToRawTensor drv tensor data attr s =
     (case tensor of
        None \<Rightarrow> (s, VSI_FAILURE)
      | Some x \<Rightarrow>
          let (s1, status) =
            (if attr_from_handle attr then
               (case swap_out drv x s of
                  (s1, None) \<Rightarrow> (s1, None)
                | (s1, Some p) \<Rightarrow>
                    let (s2, st) = swap_in drv x p (poke drv p data attr s1);
                        (s3, st') = flush_handle drv x s2
                    in (s3, Some (st OR st')))
             else map_prod id Some (copy_patch drv x attr data s))
          in case status of
               None \<Rightarrow> (s1, VSI_FAILURE)
             | Some st \<Rightarrow> (fst (try_set_const_raw_tensor drv tensor attr s1), st))"

definition CreateRawTensorFromData :: "'s drv \<Rightarrow> uint8 list \<Rightarrow> tensor_attr \<Rightarrow> 's \<Rightarrow> 's \<times> ptr option" where
  "CreateRawTensorFromData drv data attr s =
     (let (s1, tensor) = new_raw drv data attr s;
          (s2, status) = CopyDataToRawTensor drv tensor data attr s1
      in if status \<noteq> VSI_SUCCESS then
           (case tensor of None \<Rightarrow> (s2, None) | Some x \<Rightarrow> (release_raw drv x s2, None))
         else (s2, tensor))"

fun flip_loop :: "nat \<Rightarrow> nat \<Rightarrow> uint8 list \<Rightarrow> uint8 list option" where
  "flip_loop i 0 data = Some data"
| "flip_loop i (Suc n) data = do {
     b \<leftarrow> rd data i;
     data' \<leftarrow> wr data i (b XOR 0x80);
     flip_loop (Suc i) n data' }"

definition convert_const_I8toU8 :: "'s drv \<Rightarrow> tensor_id \<Rightarrow> 's graph \<Rightarrow> 's graph option" where
  "convert_const_I8toU8 drv tid g =
     (case GetTensor g tid of
        None \<Rightarrow> Some g
      | Some p \<Rightarrow> do {
          let t = g_tensors g p;
          sz \<leftarrow> ShapeProduct (attr_size (t_attr t)) (unat (attr_dim_num (t_attr t)));
          case read_tensor drv (g_ext g) t of
            None \<Rightarrow> Some g
          | Some data \<Rightarrow> do {
              data' \<leftarrow> flip_loop 0 (unat sz) data;
              let a = convert_attr (t_attr t);
              let s1 = (case t_vx t of None \<Rightarrow> g_ext g | Some x \<Rightarrow> release_raw drv x (g_ext g));
              let (s2, vx) = CreateRawTensorFromData drv data' a s1;
              Some (g\<lparr>g_tensors := (g_tensors g)(p := t\<lparr>t_attr := a, t_vx := vx\<rparr>), g_ext := s2\<rparr>) } })"

fun const_ids :: "'s drv \<Rightarrow> int \<Rightarrow> tensor_id list \<Rightarrow> 's graph \<Rightarrow> 's graph option" where
  "const_ids drv en [] g = Some g"
| "const_ids drv en (tid # tids) g = do {
     g' \<leftarrow> (if is_int8_const_tensor en (attr_at g tid) then convert_const_I8toU8 drv tid g else Some g);
     const_ids drv en tids g' }"

fun const_nodes :: "'s drv \<Rightarrow> int \<Rightarrow> node_id list \<Rightarrow> 's graph \<Rightarrow> (vsi_status \<times> 's graph) option" where
  "const_nodes drv en [] g = Some (VSI_SUCCESS, g)"
| "const_nodes drv en (nid # nids) g =
     (case node_at_id g nid of
        None \<Rightarrow> Some (VSI_FAILURE, g)
      | Some n \<Rightarrow> do { g' \<leftarrow> const_ids drv en (n_inputs n) g; const_nodes drv en nids g' })"

definition convert_graph_const_tensor :: "'s drv \<Rightarrow> int \<Rightarrow> 's graph \<Rightarrow> (vsi_status \<times> 's graph) option" where
  "convert_graph_const_tensor drv en g = const_nodes drv en (ids_below (node_num g)) g"

subsection \<open>Nodes that convert data\<close>

text \<open>
  The identifiers of the signed tensors that the nodes read, each once, and of those they write. The
  first pass (\<open>cap\<close> is \<open>None\<close>) only counts; the second one writes them to a block of \<open>cap\<close> entries.
\<close>

fun norm_input_ids ::
  "int \<Rightarrow> 's graph \<Rightarrow> nat option \<Rightarrow> tensor_id list \<Rightarrow> nat \<times> tensor_id list \<Rightarrow> (nat \<times> tensor_id list) option" where
  "norm_input_ids en g cap [] acc = Some acc"
| "norm_input_ids en g cap (tid # tids) acc =
     (if is_int8_norm_tensor en (attr_at g tid)
      then (case cap of
              None \<Rightarrow> norm_input_ids en g cap tids (fst acc + 1, snd acc)
            | Some c \<Rightarrow>
                if tid \<in> set (snd acc) then norm_input_ids en g cap tids (fst acc + 1, snd acc)
                else if length (snd acc) < c then norm_input_ids en g cap tids (fst acc + 1, snd acc @ [tid])
                else None)
      else norm_input_ids en g cap tids acc)"

fun norm_output_ids ::
  "int \<Rightarrow> 's graph \<Rightarrow> nat option \<Rightarrow> tensor_id list \<Rightarrow> nat \<times> tensor_id list \<Rightarrow> (nat \<times> tensor_id list) option" where
  "norm_output_ids en g cap [] acc = Some acc"
| "norm_output_ids en g cap (tid # tids) acc =
     (if is_int8_norm_tensor en (attr_at g tid)
      then (case cap of
              None \<Rightarrow> norm_output_ids en g cap tids (fst acc + 1, snd acc)
            | Some c \<Rightarrow>
                if fst acc < c then norm_output_ids en g cap tids (fst acc + 1, snd acc @ [tid]) else None)
      else norm_output_ids en g cap tids acc)"

fun norm_inputs :: "int \<Rightarrow> 's graph \<Rightarrow> nat option \<Rightarrow> node_id list \<Rightarrow> nat \<times> tensor_id list \<Rightarrow> (nat \<times> tensor_id list) option" where
  "norm_inputs en g cap [] acc = Some acc"
| "norm_inputs en g cap (nid # nids) acc =
     (case node_at_id g nid of
        None \<Rightarrow> Some acc
      | Some n \<Rightarrow> do { acc' \<leftarrow> norm_input_ids en g cap (n_inputs n) acc; norm_inputs en g cap nids acc' })"

fun norm_outputs :: "int \<Rightarrow> 's graph \<Rightarrow> nat option \<Rightarrow> node_id list \<Rightarrow> nat \<times> tensor_id list \<Rightarrow> (nat \<times> tensor_id list) option" where
  "norm_outputs en g cap [] acc = Some acc"
| "norm_outputs en g cap (nid # nids) acc =
     (case node_at_id g nid of
        None \<Rightarrow> Some acc
      | Some n \<Rightarrow> do { acc' \<leftarrow> norm_output_ids en g cap (n_outputs n) acc; norm_outputs en g cap nids acc' })"

text \<open>All reads of \<open>input\<close> in the nodes become reads of \<open>output\<close>.\<close>

definition set_node :: "ptr \<Rightarrow> vnode \<Rightarrow> 's graph \<Rightarrow> 's graph" where
  "set_node p n g = g\<lparr>g_nodes := (g_nodes g)(p := n)\<rparr>"

definition connect :: "ptr \<Rightarrow> tensor_id \<Rightarrow> tensor_id \<Rightarrow> 's graph \<Rightarrow> 's graph option" where
  "connect node input output g = do {
     ins \<leftarrow> wr (n_inputs (g_nodes g node)) 0 input;
     outs \<leftarrow> wr (n_outputs (g_nodes g node)) 0 output;
     Some (set_node node ((g_nodes g node)\<lparr>n_inputs := ins, n_outputs := outs\<rparr>) g) }"

fun redirect_reads :: "ptr list \<Rightarrow> nat \<Rightarrow> nat \<Rightarrow> tensor_id \<Rightarrow> tensor_id \<Rightarrow> 's graph \<Rightarrow> 's graph option" where
  "redirect_reads nodes i 0 input output g = Some g"
| "redirect_reads nodes i (Suc n) input output g = do {
     p \<leftarrow> rd nodes i;
     redirect_reads nodes (Suc i) n input output
       (set_node p ((g_nodes g p)\<lparr>n_inputs := map (\<lambda>t. if t = input then output else t) (n_inputs (g_nodes g p))\<rparr>) g) }"

definition add_forward_node ::
  "ptr list \<Rightarrow> uint32 \<Rightarrow> ptr \<Rightarrow> tensor_id \<Rightarrow> tensor_id \<Rightarrow> 's graph \<Rightarrow> (vsi_status \<times> 's graph) option" where
  "add_forward_node first_node nodes_count node input output g = do {
     g1 \<leftarrow> redirect_reads first_node 0 (unat nodes_count) input output g;
     g2 \<leftarrow> connect node input output g1;
     Some (VSI_SUCCESS, g2) }"

text \<open>The first slot with \<open>output\<close>.\<close>

fun redirect_write :: "tensor_id \<Rightarrow> tensor_id \<Rightarrow> tensor_id list \<Rightarrow> tensor_id list" where
  "redirect_write input output [] = []"
| "redirect_write input output (t # ts) = (if t = output then input # ts else t # redirect_write input output ts)"

definition add_backward_node ::
  "ptr option \<Rightarrow> ptr \<Rightarrow> tensor_id \<Rightarrow> tensor_id \<Rightarrow> 's graph \<Rightarrow> (vsi_status \<times> 's graph) option" where
  "add_backward_node last_node node input output g = do {
     p \<leftarrow> last_node;
     g2 \<leftarrow> connect node input output
       (set_node p ((g_nodes g p)\<lparr>n_outputs := redirect_write input output (n_outputs (g_nodes g p))\<rparr>) g);
     Some (VSI_SUCCESS, g2) }"

text \<open>\<open>forward\<close> has the nodes that read the tensor, \<open>backward\<close> the node that writes it.\<close>

datatype direction = Forward "ptr list" uint32 | Backward "ptr option"

definition add_dataconvert_node ::
  "(ptr \<times> vnode) option \<Rightarrow> uint32 \<Rightarrow> direction \<Rightarrow> tensor_id \<Rightarrow> tensor_id \<Rightarrow> 's graph \<Rightarrow> (vsi_status \<times> 's graph) option" where
  "add_dataconvert_node new idx dir input output g =
     (let (g1, node, nid) = AddNode new (1, 1) g OP_DATACONVERT 1 1
      in case node of
           None \<Rightarrow> Some (VSI_FAILURE, g1)
         | Some q \<Rightarrow>
             (let g2 = set_node q ((g_nodes g1 q)\<lparr>n_uid := DATACONVERT_UID_BASE + idx\<rparr>) g1
              in case dir of
                   Forward nodes n \<Rightarrow> add_forward_node nodes n q input output g2
                 | Backward last_node \<Rightarrow> add_backward_node last_node q input output g2))"

text \<open>The points where memory is allocated; a failure ends the whole pass with success.\<close>

datatype opt_alloc = Alloc_ids | Alloc_nodes | Alloc_consumers nat | Alloc_out_ids | Alloc_out_nodes

fun collect_consumers ::
  "(opt_alloc \<Rightarrow> bool) \<Rightarrow> 's graph \<Rightarrow> nat \<Rightarrow> tensor_id list \<Rightarrow> (tensor_id \<times> ptr list) list \<Rightarrow> bool
   \<Rightarrow> bool + (tensor_id \<times> ptr list) list \<times> bool" where
  "collect_consumers mem g i [] acc dirty = Inr (acc, dirty)"
| "collect_consumers mem g i (tid # tids) acc dirty =
     (let (ps, n) = get_tensor_consumers g tid
      in if 0 < n then
           (if mem (Alloc_consumers i) then collect_consumers mem g (Suc i) tids (acc @ [(tid, ps)]) True else Inl dirty)
         else collect_consumers mem g (Suc i) tids (acc @ [(tid, [])]) dirty)"

definition collect_inputs ::
  "(opt_alloc \<Rightarrow> bool) \<Rightarrow> int \<Rightarrow> 's graph \<Rightarrow> bool \<Rightarrow> (bool + (tensor_id \<times> ptr list) list \<times> bool) option" where
  "collect_inputs mem en g dirty = do {
     r \<leftarrow> norm_inputs en g None (ids_below (node_num g)) (0, []);
     if fst r = 0 then Some (Inr ([], dirty))
     else if \<not> mem Alloc_ids then Some (Inl dirty)
     else do {
       r' \<leftarrow> norm_inputs en g (Some (fst r)) (ids_below (node_num g)) (0, []);
       if snd r' \<noteq> [] \<and> \<not> mem Alloc_nodes then Some (Inl dirty)
       else Some (collect_consumers mem g 0 (snd r') [] dirty) } }"

definition collect_outputs ::
  "(opt_alloc \<Rightarrow> bool) \<Rightarrow> int \<Rightarrow> 's graph \<Rightarrow> bool \<Rightarrow> (bool + (tensor_id \<times> ptr option) list \<times> bool) option" where
  "collect_outputs mem en g dirty = do {
     r \<leftarrow> norm_outputs en g None (ids_below (node_num g)) (0, []);
     if fst r = 0 then Some (Inr ([], dirty))
     else if \<not> mem Alloc_out_ids then Some (Inl dirty)
     else do {
       r' \<leftarrow> norm_outputs en g (Some (fst r)) (ids_below (node_num g)) (0, []);
       if \<not> mem Alloc_out_nodes then Some (Inl dirty)
       else Some (Inr (map (\<lambda>tid. (tid, get_tensor_provider g tid)) (snd r'), True)) } }"

text \<open>
  The conversions. The results of the calls are not looked at: without a tensor the identifier is
  \<open>TENSOR_ID_NA\<close>. \<open>k\<close> is the number of the next conversion.
\<close>

definition convert_one ::
  "(nat \<Rightarrow> create_fn) \<Rightarrow> (nat \<Rightarrow> (ptr \<times> vnode) option) \<Rightarrow> nat \<Rightarrow> ptr \<Rightarrow> direction \<Rightarrow> tensor_id \<Rightarrow> 's graph \<Rightarrow> 's graph option" where
  "convert_one create new k p dir tid g =
     (let attr = (convert_attr (t_attr (g_tensors g p)))\<lparr>attr_vtl := True\<rparr>;
          (g1, other) = AddTensor (create k) g TENSOR_ID_AUTO attr None
      in map_option snd (case dir of
           Forward _ _ \<Rightarrow> add_dataconvert_node (new k) (of_nat k) dir tid other g1
         | Backward _ \<Rightarrow> add_dataconvert_node (new k) (of_nat k) dir other tid g1))"

fun convert_inputs ::
  "(nat \<Rightarrow> create_fn) \<Rightarrow> (nat \<Rightarrow> (ptr \<times> vnode) option) \<Rightarrow> nat \<Rightarrow> (tensor_id \<times> ptr list) list \<Rightarrow> 's graph
   \<Rightarrow> (nat \<times> 's graph) option" where
  "convert_inputs create new k [] g = Some (k, g)"
| "convert_inputs create new k ((tid, nodes) # rest) g =
     (let n = snd (get_tensor_consumers g tid)
      in case (if 0 < n then GetTensor g tid else None) of
           None \<Rightarrow> convert_inputs create new k rest g
         | Some p \<Rightarrow> do {
             g' \<leftarrow> convert_one create new k p (Forward nodes n) tid g;
             convert_inputs create new (Suc k) rest g' })"

fun convert_outputs ::
  "(nat \<Rightarrow> create_fn) \<Rightarrow> (nat \<Rightarrow> (ptr \<times> vnode) option) \<Rightarrow> nat \<Rightarrow> (tensor_id \<times> ptr option) list \<Rightarrow> 's graph
   \<Rightarrow> (nat \<times> 's graph) option" where
  "convert_outputs create new k [] g = Some (k, g)"
| "convert_outputs create new k ((tid, node) # rest) g =
     (case GetTensor g tid of
        None \<Rightarrow> convert_outputs create new k rest g
      | Some p \<Rightarrow> do {
          g' \<leftarrow> convert_one create new k p (Backward node) tid g;
          convert_outputs create new (Suc k) rest g' })"

definition add_graph_dataconvert_for_int8 ::
  "(opt_alloc \<Rightarrow> bool) \<Rightarrow> (nat \<Rightarrow> create_fn) \<Rightarrow> (nat \<Rightarrow> (ptr \<times> vnode) option) \<Rightarrow> int \<Rightarrow> bool \<Rightarrow> 's graph
   \<Rightarrow> (vsi_status \<times> bool \<times> 's graph) option" where
  "add_graph_dataconvert_for_int8 mem create new en dirty g = do {
     ins \<leftarrow> collect_inputs mem en g dirty;
     case ins of
       Inl d \<Rightarrow> Some (VSI_SUCCESS, d, g)
     | Inr (inputs, d1) \<Rightarrow> do {
         outs \<leftarrow> collect_outputs mem en g d1;
         case outs of
           Inl d \<Rightarrow> Some (VSI_SUCCESS, d, g)
         | Inr (outputs, d2) \<Rightarrow> do {
             r \<leftarrow> convert_inputs create new 0 inputs g;
             r' \<leftarrow> convert_outputs create new (fst r) outputs (snd r);
             Some (VSI_SUCCESS, d2, snd r') } } }"

subsection \<open>The whole rewriting\<close>

definition convert_int8_to_uint8 ::
  "'s drv \<Rightarrow> (opt_alloc \<Rightarrow> bool) \<Rightarrow> (nat \<Rightarrow> create_fn) \<Rightarrow> (nat \<Rightarrow> (ptr \<times> vnode) option) \<Rightarrow> int \<Rightarrow> bool \<Rightarrow> 's graph
   \<Rightarrow> (vsi_status \<times> bool \<times> 's graph) option" where
  "convert_int8_to_uint8 drv mem create new en dirty g = do {
     let (st1, g1) = convert_graph_virtual_tensor en g;
     if st1 \<noteq> VSI_SUCCESS then Some (st1, dirty, g1)
     else do {
       (st2, g2) \<leftarrow> convert_graph_const_tensor drv en g1;
       if st2 \<noteq> VSI_SUCCESS then Some (st2, dirty, g2)
       else add_graph_dataconvert_for_int8 mem create new en dirty g2 } }"

text \<open>\<open>None\<close> when a node is missing before a precompiled node is found.\<close>

fun find_nbg :: "'s graph \<Rightarrow> node_id list \<Rightarrow> bool option" where
  "find_nbg g [] = Some False"
| "find_nbg g (nid # nids) =
     (case node_at_id g nid of
        None \<Rightarrow> None
      | Some n \<Rightarrow> if n_op n = OP_NBG_CODE then Some True else find_nbg g nids)"

definition OptimizeGraph ::
  "'s drv \<Rightarrow> (opt_alloc \<Rightarrow> bool) \<Rightarrow> (nat \<Rightarrow> create_fn) \<Rightarrow> (nat \<Rightarrow> (ptr \<times> vnode) option) \<Rightarrow> int \<Rightarrow> bool \<Rightarrow> 's graph
   \<Rightarrow> (vsi_status \<times> bool \<times> 's graph) option" where
  "OptimizeGraph drv mem create new en dirty g =
     (case find_nbg g (ids_below (node_num g)) of
        None \<Rightarrow> Some (VSI_FAILURE, dirty, g)
      | Some nbg_flag \<Rightarrow>
          if \<not> nbg_flag \<and> en \<noteq> 0 then convert_int8_to_uint8 drv mem create new en dirty g
          else Some (VSI_SUCCESS, dirty, g))"

end
