(* ===== verification/Graph_Rewrite.thy ===== *)
theory Graph_Rewrite
  imports Graph_Optimize
begin

text \<open>
  What the rewriting of signed 8-bit tensors keeps: the numbers that the data of constant tensors
  stand for, and the equations between tensors that the nodes set up.
\<close>

subsection \<open>Values of bytes\<close>

lemma flip_top_bit: "uint (b XOR 0x80 :: uint8) = sint b + 128"
proof -
  have s: "sint b = uint b - 256 * of_bool (bit b 7)"
    by (simp add: sint_uint signed_take_bit_eq_take_bit_minus bit_uint_iff bintr_uint)
  have "uint b < 256" using uint_bounded[of b] by simp
  then have top: "uint b div 128 \<in> {0, 1}" by (auto simp: div_eq_0_iff)
  have bit7: "bit b 7 \<longleftrightarrow> odd (uint b div 128)" using bit_uint_iff[of b 7] by (simp add: bit_iff_odd[of "uint b"])
  have f: "b XOR 0x80 = flip_bit 7 b" by (simp add: flip_bit_eq_xor)
  show ?thesis
  proof (cases "bit b 7")
    case True
    then have ge: "128 \<le> uint b" using bit7 top by auto
    have "b XOR 0x80 = b - 0x80" using True f by (simp add: flip_bit_eq_if unset_bit_eq)
    then show ?thesis using s True ge by (simp add: uint_sub_if')
  next
    case False
    then have lt: "uint b < 128" using bit7 top by auto
    have "b XOR 0x80 = b + 0x80" using False f by (simp add: flip_bit_eq_if set_bit_eq)
    then show ?thesis using s False lt by (simp add: uint_plus_if')
  qed
qed

definition elem_value :: "tensor_attr \<Rightarrow> uint8 \<Rightarrow> int" where
  "elem_value a b = (if attr_vx_type a = TYPE_I8 then sint b else uint b) - sint (attr_zero_point a)"

lemma elem_value_convert:
  assumes "attr_vx_type a = TYPE_I8" "sint (attr_zero_point a) + 128 < 2 ^ 31"
  shows "elem_value (convert_attr a) (b XOR 0x80) = elem_value a b"
proof -
  have "sint (attr_zero_point a + 128) = sint (attr_zero_point a) + 128"
  proof -
    have "attr_zero_point a + 128 = word_of_int (sint (attr_zero_point a) + 128)" by simp
    moreover have "- (2 ^ 31) \<le> sint (attr_zero_point a)" using sint_ge[of "attr_zero_point a"] by simp
    ultimately show ?thesis
      using assms(2) by (simp only: sint_sbintrunc') (simp add: signed_take_bit_int_eq_self)
  qed
  then show ?thesis using assms(1) by (simp add: elem_value_def convert_attr_def flip_top_bit TYPE_I8_def TYPE_U8_def)
qed

lemma flip_loop_ok:
  "i + n \<le> length data \<Longrightarrow> flip_loop i n data = Some (take i data @ map (\<lambda>b. b XOR 0x80) (take n (drop i data)) @ drop (i + n) data)"
proof (induction n arbitrary: i data)
  case (Suc n)
  let ?d = "data[i := data ! i XOR 0x80]"
  have "take (Suc i) ?d = take i data @ [data ! i XOR 0x80]" using Suc.prems by (simp add: take_Suc_conv_app_nth)
  moreover have "drop i data = data ! i # drop (Suc i) data" using Suc.prems by (simp add: Cons_nth_drop_Suc)
  ultimately show ?case using Suc.IH[of "Suc i" ?d] Suc.prems by simp
qed simp

subsection \<open>Virtual tensors\<close>

lemma convert_attr_simps [simp]:
  "attr_vtl (convert_attr a) = attr_vtl a" "attr_is_const (convert_attr a) = attr_is_const a"
  "attr_vx_type (convert_attr a) = TYPE_U8" "attr_size (convert_attr a) = attr_size a"
  "attr_dim_num (convert_attr a) = attr_dim_num a"
  by (simp_all add: convert_attr_def)

definition int8_attr :: "int \<Rightarrow> tensor_attr \<Rightarrow> bool" where
  "int8_attr en a \<longleftrightarrow> attr_vx_type a = TYPE_I8 \<and> (attr_qnt_type a = QNT_ASYMMETRIC \<or> en = 2 \<and> attr_qnt_type a = QNT_SYMMETRIC)"

lemma not_int8_convert [simp]: "\<not> int8_attr en (convert_attr a)" "\<not> int8_attr en (convert_attr a\<lparr>attr_vtl := v\<rparr>)"
  by (simp_all add: int8_attr_def TYPE_I8_def TYPE_U8_def)

lemma int8_kinds:
  "is_int8_norm_tensor en (Some a) \<longleftrightarrow> int8_attr en a \<and> \<not> attr_vtl a \<and> \<not> attr_is_const a"
  "is_int8_const_tensor en (Some a) \<longleftrightarrow> int8_attr en a \<and> attr_is_const a"
  "is_int8_virtual_tensor en (Some a) \<longleftrightarrow> int8_attr en a \<and> attr_vtl a"
  "\<not> is_int8_norm_tensor en None" "\<not> is_int8_const_tensor en None" "\<not> is_int8_virtual_tensor en None"
  by (auto simp: is_int8_norm_tensor_def is_int8_const_tensor_def is_int8_virtual_tensor_def int8_attr_def
      is_asymm_int8_norm_tensor_def is_symm_int8_norm_tensor_def is_asymm_int8_const_tensor_def
      is_symm_int8_const_tensor_def is_asymm_int8_virtual_tensor_def is_symm_int8_virtual_tensor_def)

text \<open>The tensors behind the identifiers of a list.\<close>

definition ptrs_of :: "'s graph \<Rightarrow> tensor_id list \<Rightarrow> ptr set" where
  "ptrs_of g tids = {p. \<exists>tid \<in> set tids. GetTensor g tid = Some p}"

definition retype :: "int \<Rightarrow> ptr set \<Rightarrow> (ptr \<Rightarrow> vtensor) \<Rightarrow> ptr \<Rightarrow> vtensor" where
  "retype en S th p =
     (if p \<in> S \<and> int8_attr en (t_attr (th p)) \<and> attr_vtl (t_attr (th p))
      then (th p)\<lparr>t_attr := convert_attr (t_attr (th p))\<rparr> else th p)"

lemma retype_retype: "retype en S' (retype en S th) = retype en (S \<union> S') th"
  by (auto simp: retype_def fun_eq_iff)

lemma GetTensor_g_tensors [simp]: "GetTensor (g\<lparr>g_tensors := th\<rparr>) tid = GetTensor g tid"
  by (simp add: GetTensor_def)

lemma ptrs_of_simps [simp]:
  "ptrs_of (g\<lparr>g_tensors := th\<rparr>) tids = ptrs_of g tids" "ptrs_of g [] = {}"
  "ptrs_of g (tids @ tids') = ptrs_of g tids \<union> ptrs_of g tids'"
  by (auto simp: ptrs_of_def)

lemma virtual_ids_eq: "virtual_ids en tids g = g\<lparr>g_tensors := retype en (ptrs_of g tids) (g_tensors g)\<rparr>"
proof (induction en tids g rule: virtual_ids.induct)
  case (1 en g)
  show ?case by (simp add: retype_def)
next
  case (2 en tid tids g)
  let ?g = "case GetTensor g tid of None \<Rightarrow> g
    | Some p \<Rightarrow> if is_int8_virtual_tensor en (attr_at g tid) then convert_virtual_tensor_attr p g else g"
  have g: "?g = g\<lparr>g_tensors := retype en (ptrs_of g [tid]) (g_tensors g)\<rparr>"
    by (cases "GetTensor g tid")
      (auto simp: ptrs_of_def retype_def fun_eq_iff attr_at_def int8_kinds convert_virtual_tensor_attr_def)
  have "ptrs_of g [tid] \<union> ptrs_of g tids = ptrs_of g (tid # tids)" by (auto simp: ptrs_of_def)
  then show ?case using 2 unfolding virtual_ids.simps g by (simp add: retype_retype)
qed

text \<open>All slots of a list of nodes.\<close>

definition reads_of :: "'s graph \<Rightarrow> node_id list \<Rightarrow> tensor_id list" where
  "reads_of g nids = concat (map (\<lambda>nid. case node_at_id g nid of None \<Rightarrow> [] | Some n \<Rightarrow> n_inputs n) nids)"

definition writes_of :: "'s graph \<Rightarrow> node_id list \<Rightarrow> tensor_id list" where
  "writes_of g nids = concat (map (\<lambda>nid. case node_at_id g nid of None \<Rightarrow> [] | Some n \<Rightarrow> n_outputs n) nids)"

lemma node_at_id_g_tensors [simp]: "node_at_id (g\<lparr>g_tensors := th\<rparr>) nid = node_at_id g nid"
  by (simp add: node_at_id_def GetNode_def)

lemma reads_of_simps [simp]:
  "reads_of (g\<lparr>g_tensors := th\<rparr>) nids = reads_of g nids" "writes_of (g\<lparr>g_tensors := th\<rparr>) nids = writes_of g nids"
  "reads_of g [] = []" "writes_of g [] = []"
  by (simp_all add: reads_of_def writes_of_def)

lemma virtual_nodes_eq:
  "\<forall>nid \<in> set nids. node_at_id g nid \<noteq> None \<Longrightarrow>
    virtual_nodes en nids g = g\<lparr>g_tensors := retype en (ptrs_of g (reads_of g nids @ writes_of g nids)) (g_tensors g)\<rparr>"
proof (induction nids arbitrary: g)
  case Nil
  show ?case by (simp add: retype_def)
next
  case (Cons nid nids)
  obtain n where n: "node_at_id g nid = Some n" using Cons.prems by auto
  have "reads_of g (nid # nids) = n_inputs n @ reads_of g nids" "writes_of g (nid # nids) = n_outputs n @ writes_of g nids"
    using n by (simp_all add: reads_of_def writes_of_def)
  then show ?case using Cons n by (simp add: virtual_ids_eq retype_retype Un_assoc Un_left_commute)
qed

subsection \<open>Constant tensors\<close>

text \<open>
  The laws of the driver when none of its calls fails, each about one call, or about the three that
  exchange the memory of a handle. \<open>live\<close> tells the handles of a state: data can only be read from a
  tensor with a live handle, and a new handle was not live before; copying data to a live handle makes
  it the data that is read, and so does writing it to the memory that was swapped out, when this is
  swapped in again and flushed; no call changes the data behind another handle. How the library puts
  these calls together (\<open>vsi_nn_CreateRawTensorFromData\<close>, \<open>vsi_nn_CopyDataToRawTensor\<close>) is not part of
  the laws.
\<close>

definition untouched :: "'s drv \<Rightarrow> ptr \<Rightarrow> 's \<Rightarrow> 's \<Rightarrow> bool" where
  "untouched drv x s s' \<longleftrightarrow> (\<forall>t. t_vx t \<noteq> Some x \<longrightarrow> read_tensor drv s' t = read_tensor drv s t)"

definition holds :: "'s drv \<Rightarrow> ptr \<Rightarrow> uint8 list \<Rightarrow> 's \<Rightarrow> bool" where
  "holds drv x d s \<longleftrightarrow> (\<forall>t. t_vx t = Some x \<longrightarrow> read_tensor drv s t = Some d)"

definition drv_laws :: "'s drv \<Rightarrow> ('s \<Rightarrow> ptr \<Rightarrow> bool) \<Rightarrow> bool" where
  "drv_laws drv live \<longleftrightarrow>
     (\<forall>s t. read_tensor drv s t \<noteq> None \<longrightarrow> (\<exists>x. t_vx t = Some x \<and> live s x)) \<and>
     (\<forall>d a s. \<exists>x s'. new_raw drv d a s = (s', Some x) \<and> \<not> live s x \<and> live s' x \<and> untouched drv x s s') \<and>
     (\<forall>x a d s. live s x \<longrightarrow>
        (\<exists>s'. copy_patch drv x a d s = (s', VSI_SUCCESS) \<and> holds drv x d s' \<and> untouched drv x s s')) \<and>
     (\<forall>x a d s. live s x \<longrightarrow>
        (\<exists>s1 m s2 s3. swap_out drv x s = (s1, Some m) \<and> swap_in drv x m (poke drv m d a s1) = (s2, VSI_SUCCESS) \<and>
           flush_handle drv x s2 = (s3, VSI_SUCCESS) \<and> holds drv x d s3 \<and> untouched drv x s s3)) \<and>
     (\<forall>x c s t. read_tensor drv (fst (set_lifetime drv x c s)) t = read_tensor drv s t) \<and>
     (\<forall>x s. untouched drv x s (release_raw drv x s))"

definition drv_ok :: "'s drv \<Rightarrow> bool" where
  "drv_ok drv \<longleftrightarrow> (\<exists>live. drv_laws drv live)"

lemma drv_read: "drv_ok drv \<Longrightarrow> read_tensor drv s t = Some d \<Longrightarrow> \<exists>x. t_vx t = Some x"
  unfolding drv_ok_def drv_laws_def by (metis option.distinct(1))

lemma drv_release: "drv_ok drv \<Longrightarrow> t_vx t \<noteq> Some x \<Longrightarrow> read_tensor drv (release_raw drv x s) t = read_tensor drv s t"
  unfolding drv_ok_def drv_laws_def untouched_def by blast

lemmas drv_lawsD =
  drv_laws_def[THEN iffD1, THEN conjunct1]
  drv_laws_def[THEN iffD1, THEN conjunct2, THEN conjunct1]
  drv_laws_def[THEN iffD1, THEN conjunct2, THEN conjunct2, THEN conjunct1]
  drv_laws_def[THEN iffD1, THEN conjunct2, THEN conjunct2, THEN conjunct2, THEN conjunct1]
  drv_laws_def[THEN iffD1, THEN conjunct2, THEN conjunct2, THEN conjunct2, THEN conjunct2, THEN conjunct1]

text \<open>Setting the lifetime does not change data.\<close>

lemma try_set_reads:
  assumes "drv_laws drv live"
  shows "read_tensor drv (fst (try_set_const_raw_tensor drv (Some x) a s)) t = read_tensor drv s t"
proof -
  have "fst (try_set_const_raw_tensor drv (Some x) a s) = (if attr_is_const a then fst (set_lifetime drv x True s) else s)"
    by (simp add: try_set_const_raw_tensor_def set_raw_tensor_attr_def ATTR_CONST_def ATTR_HIGH_PRECISION_def
        case_prod_unfold Let_def)
  then show ?thesis using drv_lawsD(5)[OF assms] by simp
qed

lemma copy_data_raw:
  assumes drv: "drv_laws drv live" and x: "live s x"
  shows "\<exists>s'. CopyDataToRawTensor drv (Some x) d a s = (s', VSI_SUCCESS) \<and> holds drv x d s' \<and> untouched drv x s s'"
proof (cases "attr_from_handle a")
  case True
  obtain s1 m s2 s3 where c: "swap_out drv x s = (s1, Some m)" "swap_in drv x m (poke drv m d a s1) = (s2, VSI_SUCCESS)"
    "flush_handle drv x s2 = (s3, VSI_SUCCESS)" "holds drv x d s3" "untouched drv x s s3"
    using drv_lawsD(4)[OF drv, rule_format, OF x, of d a] by blast
  show ?thesis
    using True c(1-3) c(4,5)
    by (simp add: CopyDataToRawTensor_def Let_def holds_def untouched_def try_set_reads[OF drv] VSI_SUCCESS_def)
next
  case False
  obtain s1 where c: "copy_patch drv x a d s = (s1, VSI_SUCCESS)" "holds drv x d s1" "untouched drv x s s1"
    using drv_lawsD(3)[OF drv, rule_format, OF x, of a d] by blast
  show ?thesis
    using False c(1) c(2,3) by (simp add: CopyDataToRawTensor_def holds_def untouched_def try_set_reads[OF drv])
qed

text \<open>So a new tensor holds the data it is made with.\<close>

lemma drv_create:
  assumes "drv_ok drv"
  shows "\<exists>x s'. CreateRawTensorFromData drv d a s = (s', Some x) \<and>
    (\<forall>t. t_vx t = Some x \<longrightarrow> read_tensor drv s t = None \<and> read_tensor drv s' t = Some d) \<and>
    (\<forall>t. t_vx t \<noteq> Some x \<longrightarrow> read_tensor drv s' t = read_tensor drv s t)"
proof -
  obtain live where drv: "drv_laws drv live" using assms by (auto simp: drv_ok_def)
  then obtain x s1 where n: "new_raw drv d a s = (s1, Some x)" "\<not> live s x" "live s1 x" "untouched drv x s s1"
    using drv_lawsD(2)[OF drv] by meson
  obtain s2 where c: "CopyDataToRawTensor drv (Some x) d a s1 = (s2, VSI_SUCCESS)" "holds drv x d s2" "untouched drv x s1 s2"
    using copy_data_raw[OF drv n(3)] by blast
  have "read_tensor drv s t = None" if "t_vx t = Some x" for t
    using drv_lawsD(1)[OF drv] n(2) that by (metis option.inject)
  then show ?thesis using n(1,4) c by (auto simp: CreateRawTensorFromData_def holds_def untouched_def)
qed

text \<open>
  When the new tensor cannot be made, the constant has lost its old data, its attributes say unsigned,
  and nothing reports a failure.
\<close>

lemma const_without_memory:
  assumes "\<And>d a s. snd (new_raw drv d a s) = None" "GetTensor g tid = Some p"
    "ShapeProduct (attr_size (t_attr (g_tensors g p))) (unat (attr_dim_num (t_attr (g_tensors g p)))) = Some n"
    "read_tensor drv (g_ext g) (g_tensors g p) = Some d" "unat n = length d"
  shows "\<exists>g'. convert_const_I8toU8 drv tid g = Some g' \<and> t_vx (g_tensors g' p) = None \<and>
    t_attr (g_tensors g' p) = convert_attr (t_attr (g_tensors g p))"
proof -
  have "snd (CreateRawTensorFromData drv d' a s) = None" for d' a s
    using assms(1)[of d' a s] by (auto simp: CreateRawTensorFromData_def CopyDataToRawTensor_def VSI_SUCCESS_def VSI_FAILURE_def split: prod.splits)
  then show ?thesis using assms(2-5) flip_loop_ok[of 0 "length d" d]
    by (auto simp: convert_const_I8toU8_def Let_def split: prod.splits) (metis snd_conv)
qed

definition flips :: "int \<Rightarrow> ptr set \<Rightarrow> 's graph \<Rightarrow> ptr \<Rightarrow> bool" where
  "flips en S g p \<longleftrightarrow> p \<in> S \<and> int8_attr en (t_attr (g_tensors g p)) \<and> attr_is_const (t_attr (g_tensors g p))"

definition data_at :: "'s drv \<Rightarrow> 's graph \<Rightarrow> ptr \<Rightarrow> uint8 list option" where
  "data_at drv g p = read_tensor drv (g_ext g) (g_tensors g p)"

text \<open>\<open>g'\<close> is \<open>g\<close> with the signed constants of \<open>S\<close> converted; the tensors of \<open>R\<close> can be read.\<close>

definition const_done :: "'s drv \<Rightarrow> int \<Rightarrow> ptr set \<Rightarrow> 's graph \<Rightarrow> ptr set \<Rightarrow> 's graph \<Rightarrow> bool" where
  "const_done drv en R g S g' \<longleftrightarrow>
     g' = g\<lparr>g_tensors := g_tensors g', g_ext := g_ext g'\<rparr> \<and>
     inj_on (\<lambda>p. t_vx (g_tensors g' p)) R \<and>
     (\<forall>p. t_attr (g_tensors g' p) = (if flips en S g p then convert_attr (t_attr (g_tensors g p)) else t_attr (g_tensors g p))) \<and>
     (\<forall>p \<in> R. data_at drv g' p = map_option (if flips en S g p then map (\<lambda>b. b XOR 0x80) else id) (data_at drv g p))"

definition readable :: "'s drv \<Rightarrow> int \<Rightarrow> ptr set \<Rightarrow> 's graph \<Rightarrow> bool" where
  "readable drv en R g \<longleftrightarrow> inj_on (\<lambda>p. t_vx (g_tensors g p)) R \<and> (\<forall>p \<in> R. data_at drv g p \<noteq> None) \<and>
     (\<forall>tid p. GetTensor g tid = Some p \<longrightarrow> int8_attr en (t_attr (g_tensors g p)) \<longrightarrow> attr_is_const (t_attr (g_tensors g p)) \<longrightarrow>
        p \<in> R \<and> (\<exists>n d. ShapeProduct (attr_size (t_attr (g_tensors g p))) (unat (attr_dim_num (t_attr (g_tensors g p)))) = Some n \<and>
          data_at drv g p = Some d \<and> unat n = length d))"

lemma const_done_refl: "readable drv en R g \<Longrightarrow> const_done drv en R g {} g"
  by (simp add: const_done_def readable_def flips_def option.map_id)

lemma const_done_Get:
  "const_done drv en R g S g' \<Longrightarrow> GetTensor g' tid = GetTensor g tid \<and> node_at_id g' nid = node_at_id g nid"
proof -
  assume "const_done drv en R g S g'"
  then have "g' = g\<lparr>g_tensors := g_tensors g', g_ext := g_ext g'\<rparr>" by (simp add: const_done_def)
  then obtain th s where "g' = g\<lparr>g_tensors := th, g_ext := s\<rparr>" by blast
  then show ?thesis by (simp add: GetTensor_def node_at_id_def GetNode_def)
qed

lemma convert_const_step:
  assumes drv: "drv_ok drv" and r: "readable drv en R g" and d: "const_done drv en R g S g'"
    and p: "GetTensor g tid = Some p" "int8_attr en (t_attr (g_tensors g p))" "attr_is_const (t_attr (g_tensors g p))" "p \<notin> S"
  shows "\<exists>g''. convert_const_I8toU8 drv tid g' = Some g'' \<and> const_done drv en R g (insert p S) g''"
proof -
  let ?t = "g_tensors g' p"
  have nf: "\<not> flips en S g p" using p(4) by (simp add: flips_def)
  obtain n bs where pr: "p \<in> R" "ShapeProduct (attr_size (t_attr (g_tensors g p))) (unat (attr_dim_num (t_attr (g_tensors g p)))) = Some n"
    "data_at drv g p = Some bs" "unat n = length bs"
    using r[unfolded readable_def] p(1-3) by blast
  have t: "t_attr ?t = t_attr (g_tensors g p)" "read_tensor drv (g_ext g') ?t = Some bs"
    using d nf pr(1,3) by (auto simp: const_done_def data_at_def option.map_id)
  obtain x0 where x0: "t_vx ?t = Some x0" using drv_read[OF drv t(2)] by blast
  define s1 where "s1 = release_raw drv x0 (g_ext g')"
  let ?bs = "map (\<lambda>b. b XOR 0x80) bs"
  obtain x s2 where x: "CreateRawTensorFromData drv ?bs (convert_attr (t_attr ?t)) s1 = (s2, Some x)"
    "\<And>t. t_vx t = Some x \<Longrightarrow> read_tensor drv s1 t = None \<and> read_tensor drv s2 t = Some ?bs"
    "\<And>t. t_vx t \<noteq> Some x \<Longrightarrow> read_tensor drv s2 t = read_tensor drv s1 t"
    using drv_create[OF drv, of ?bs "convert_attr (t_attr ?t)" s1] by blast
  define g'' where "g'' = g'\<lparr>g_tensors := (g_tensors g')(p := ?t\<lparr>t_attr := convert_attr (t_attr ?t), t_vx := Some x\<rparr>), g_ext := s2\<rparr>"
  have conv: "convert_const_I8toU8 drv tid g' = Some g''"
    using const_done_Get[OF d] p(1) t pr(2,4) x0 x(1) flip_loop_ok[of 0 "length bs" bs]
    by (simp add: convert_const_I8toU8_def s1_def g''_def Let_def)
  have other: "t_vx (g_tensors g' q) \<noteq> Some x0 \<and> t_vx (g_tensors g' q) \<noteq> Some x \<and>
      read_tensor drv s2 (g_tensors g' q) = read_tensor drv (g_ext g') (g_tensors g' q)"
    if q: "q \<in> R" "q \<noteq> p" for q
  proof -
    have "inj_on (\<lambda>p. t_vx (g_tensors g' p)) R" using d by (simp add: const_done_def)
    then have n0: "t_vx (g_tensors g' q) \<noteq> Some x0" using inj_onD[of "\<lambda>p. t_vx (g_tensors g' p)" R q p] q pr(1) x0 by auto
    then have s1: "read_tensor drv s1 (g_tensors g' q) = read_tensor drv (g_ext g') (g_tensors g' q)"
      using drv_release[OF drv] by (simp add: s1_def)
    have "data_at drv g q \<noteq> None" using r q(1) by (simp add: readable_def)
    then have "read_tensor drv (g_ext g') (g_tensors g' q) \<noteq> None"
      using d q(1) by (auto simp: const_done_def data_at_def)
    then have "t_vx (g_tensors g' q) \<noteq> Some x" using x(2)[of "g_tensors g' q"] s1 by auto
    then show ?thesis using n0 s1 x(3) by simp
  qed
  have fl: "flips en (insert p S) g q \<longleftrightarrow> q = p \<or> flips en S g q" for q using p(2,3) by (auto simp: flips_def)
  have "const_done drv en R g (insert p S) g''"
    unfolding const_done_def
  proof (intro conjI)
    show "g'' = g\<lparr>g_tensors := g_tensors g'', g_ext := g_ext g''\<rparr>"
    proof -
      obtain th s where "g' = g\<lparr>g_tensors := th, g_ext := s\<rparr>" using d unfolding const_done_def by blast
      then show ?thesis by (simp add: g''_def)
    qed
    show "inj_on (\<lambda>p. t_vx (g_tensors g'' p)) R"
    proof (rule inj_onI)
      fix a b assume ab: "a \<in> R" "b \<in> R" "t_vx (g_tensors g'' a) = t_vx (g_tensors g'' b)"
      have "inj_on (\<lambda>p. t_vx (g_tensors g' p)) R" using d by (simp add: const_done_def)
      then have "a \<noteq> p \<Longrightarrow> b \<noteq> p \<Longrightarrow> a = b" using ab by (auto simp: g''_def inj_on_def)
      then show "a = b" using ab other[of a] other[of b] by (cases "a = p"; cases "b = p") (auto simp: g''_def)
    qed
    show "\<forall>q. t_attr (g_tensors g'' q) = (if flips en (insert p S) g q then convert_attr (t_attr (g_tensors g q)) else t_attr (g_tensors g q))"
      using d t(1) by (auto simp: fl const_done_def g''_def)
    show "\<forall>q \<in> R. data_at drv g'' q = map_option (if flips en (insert p S) g q then map (\<lambda>b. b XOR 0x80) else id) (data_at drv g q)"
    proof
      fix q assume q: "q \<in> R"
      show "data_at drv g'' q = map_option (if flips en (insert p S) g q then map (\<lambda>b. b XOR 0x80) else id) (data_at drv g q)"
      proof (cases "q = p")
        case True
        then show ?thesis using x(2) pr(3) by (simp add: fl data_at_def g''_def)
      next
        case False
        then show ?thesis using other[OF q False] d q by (simp add: fl data_at_def g''_def const_done_def)
      qed
    qed
  qed
  then show ?thesis using conv by blast
qed

lemma flips_cong: "(\<And>p. flips en S g p = flips en S' g p) \<Longrightarrow> const_done drv en R g S g' = const_done drv en R g S' g'"
  by (simp add: const_done_def)

lemma const_ids_done:
  assumes drv: "drv_ok drv" and r: "readable drv en R g"
  shows "const_done drv en R g S g' \<Longrightarrow>
    \<exists>g''. const_ids drv en tids g' = Some g'' \<and> const_done drv en R g (S \<union> ptrs_of g tids) g''"
proof (induction tids arbitrary: S g')
  case Nil
  then show ?case by simp
next
  case (Cons tid tids)
  have split: "ptrs_of g (tid # tids) = ptrs_of g [tid] \<union> ptrs_of g tids" by (auto simp: ptrs_of_def)
  have "\<exists>g1. (if is_int8_const_tensor en (attr_at g' tid) then convert_const_I8toU8 drv tid g' else Some g') = Some g1 \<and>
      const_done drv en R g (S \<union> ptrs_of g [tid]) g1"
  proof (cases "GetTensor g tid")
    case None
    then have "ptrs_of g [tid] = {}" "attr_at g' tid = None" using const_done_Get[OF Cons.prems] by (simp_all add: ptrs_of_def attr_at_def)
    then show ?thesis using Cons.prems by (simp add: int8_kinds)
  next
    case (Some p)
    have at: "attr_at g' tid = Some (if flips en S g p then convert_attr (t_attr (g_tensors g p)) else t_attr (g_tensors g p))"
      using Some const_done_Get[OF Cons.prems] Cons.prems by (simp add: attr_at_def const_done_def)
    have P: "S \<union> ptrs_of g [tid] = insert p S" using Some by (auto simp: ptrs_of_def)
    show ?thesis
    proof (cases "p \<notin> S \<and> int8_attr en (t_attr (g_tensors g p)) \<and> attr_is_const (t_attr (g_tensors g p))")
      case True
      then have "is_int8_const_tensor en (attr_at g' tid)" by (simp add: at flips_def int8_kinds)
      then show ?thesis using convert_const_step[OF drv r Cons.prems Some] True P by auto
    next
      case False
      then have "\<not> is_int8_const_tensor en (attr_at g' tid)" by (auto simp: at flips_def int8_kinds)
      moreover have "const_done drv en R g (insert p S) g'"
        using flips_cong[of en "insert p S" g S drv R g'] False Cons.prems by (auto simp: flips_def)
      ultimately show ?thesis using P by simp
    qed
  qed
  then obtain g1 where g1: "(if is_int8_const_tensor en (attr_at g' tid) then convert_const_I8toU8 drv tid g' else Some g') = Some g1"
    "const_done drv en R g (S \<union> ptrs_of g [tid]) g1" by blast
  obtain g2 where "const_ids drv en tids g1 = Some g2" "const_done drv en R g ((S \<union> ptrs_of g [tid]) \<union> ptrs_of g tids) g2"
    using Cons.IH[OF g1(2)] by blast
  then show ?case using g1(1) by (simp add: split Un_assoc)
qed

lemma const_nodes_done:
  assumes drv: "drv_ok drv" and r: "readable drv en R g"
  shows "\<forall>nid \<in> set nids. node_at_id g nid \<noteq> None \<Longrightarrow> const_done drv en R g S g' \<Longrightarrow>
    \<exists>g''. const_nodes drv en nids g' = Some (VSI_SUCCESS, g'') \<and> const_done drv en R g (S \<union> ptrs_of g (reads_of g nids)) g''"
proof (induction nids arbitrary: S g')
  case Nil
  then show ?case by simp
next
  case (Cons nid nids)
  obtain n where n: "node_at_id g nid = Some n" using Cons.prems(1) by auto
  have reads: "ptrs_of g (reads_of g (nid # nids)) = ptrs_of g (n_inputs n) \<union> ptrs_of g (reads_of g nids)"
    using n by (simp add: reads_of_def)
  obtain g1 where g1: "const_ids drv en (n_inputs n) g' = Some g1" "const_done drv en R g (S \<union> ptrs_of g (n_inputs n)) g1"
    using const_ids_done[OF drv r Cons.prems(2)] by blast
  then show ?case using Cons.IH[OF _ g1(2)] Cons.prems const_done_Get[OF Cons.prems(2)] n
    by (auto simp: reads Un_assoc)
qed

definition values_at :: "'s drv \<Rightarrow> 's graph \<Rightarrow> ptr \<Rightarrow> int list option" where
  "values_at drv g p = map_option (map (elem_value (t_attr (g_tensors g p)))) (data_at drv g p)"


subsection \<open>A sample graph\<close>

text \<open>
  A driver that keeps the data of a handle in a table. Tensor \<open>0\<close> is the user's input, \<open>1\<close> a constant,
  \<open>2\<close> the user's output and \<open>3\<close> a virtual tensor between the two nodes.
\<close>

type_synonym handles = "nat \<times> (nat \<Rightarrow> uint8 list option)"

definition table_drv :: "handles drv" where
  "table_drv =
     \<lparr>read_tensor = (\<lambda>s t. case t_vx t of None \<Rightarrow> None | Some x \<Rightarrow> if x < fst s then snd s x else None),
      release_raw = (\<lambda>x s. (fst s, (snd s)(x := None))),
      new_raw = (\<lambda>d a s. ((fst s + 1, snd s), Some (fst s))),
      swap_out = (\<lambda>x s. (s, Some x)), poke = (\<lambda>x d a s. (fst s, (snd s)(x := Some d))),
      swap_in = (\<lambda>x p s. (s, VSI_SUCCESS)), flush_handle = (\<lambda>x s. (s, VSI_SUCCESS)),
      copy_patch = (\<lambda>x a d s. ((fst s, (snd s)(x := Some d)), VSI_SUCCESS)),
      set_lifetime = (\<lambda>x c s. (s, VSI_SUCCESS)), set_precision_high = (\<lambda>x s. (s, VSI_SUCCESS))\<rparr>"

lemma table_drv_ok: "drv_ok table_drv"
proof -
  have "drv_laws table_drv (\<lambda>s x. x < fst s)"
    unfolding drv_laws_def untouched_def holds_def by (auto simp: table_drv_def split: option.splits if_splits)
  then show ?thesis unfolding drv_ok_def by blast
qed

definition int8_sample :: "bool \<Rightarrow> bool \<Rightarrow> ptr \<Rightarrow> vtensor" where
  "int8_sample vtl is_const x =
     \<lparr>t_attr = \<lparr>attr_size = [2, 1, 1, 1, 1, 1, 1, 1], attr_dim_num = 1, attr_vtl = vtl, attr_is_const = is_const,
        attr_vx_type = TYPE_I8, attr_qnt_type = QNT_ASYMMETRIC, attr_zero_point = 3, attr_from_handle = False\<rparr>,
      t_vx = Some x, t_swapped = False\<rparr>"

definition int8_graph :: "handles graph" where
  "int8_graph = (CreateGraph (\<lambda>p. int8_sample (p = 23) (p = 21) p)
       (\<lambda>p. if p = 1 then sample_node [0, 1] [3] else sample_node [3, 0] [2]) (30, [21 \<mapsto> [5, 200]]))
     \<lparr>tensor_table := MapAdd True True (MapAdd True True (MapAdd True True (MapAdd True True MapInit 0 (Some 20)) 1 (Some 21)) 2 (Some 22)) 3 (Some 23),
      node_table := MapAdd True True (MapAdd True True MapInit 0 (Some 1)) 1 (Some 2), tensor_num := 4, node_num := 2\<rparr>"

lemma int8_graph_fields:
  "GetTensor int8_graph t = (if t = 0 then Some 20 else if t = 1 then Some 21 else if t = 2 then Some 22 else if t = 3 then Some 23 else None)"
  "GetNode int8_graph nid = (if nid = 0 then Some 1 else if nid = 1 then Some 2 else None)"
  "node_num int8_graph = 2" "tensor_num int8_graph = 4" "ids_below (node_num int8_graph) = [0, 1]"
  "g_nodes int8_graph p = (if p = 1 then sample_node [0, 1] [3] else sample_node [3, 0] [2])"
  "g_tensors int8_graph p = int8_sample (p = 23) (p = 21) p" "g_ext int8_graph = (30, [21 \<mapsto> [5, 200]])"
proof -
  have k: "uint t = 0 \<longleftrightarrow> t = 0" "uint t = 1 \<longleftrightarrow> t = 1" "uint t = 2 \<longleftrightarrow> t = 2" "uint t = 3 \<longleftrightarrow> t = 3" for t :: uint32
    by (simp_all add: word_uint_eq_iff)
  show "GetTensor int8_graph t = (if t = 0 then Some 20 else if t = 1 then Some 21 else if t = 2 then Some 22 else if t = 3 then Some 23 else None)"
    "GetNode int8_graph nid = (if nid = 0 then Some 1 else if nid = 1 then Some 2 else None)"
    by (simp_all add: int8_graph_def GetTensor_def GetNode_def Get_Add k map_inv_Add map_inv_Init) (simp_all add: MapInit_def MapGet_def BinaryTreeGetNode_def)
qed (simp_all add: int8_graph_def CreateGraph_def ids_below_def upt_rec)

lemma int8_graph_attr: "t_vx (int8_sample v c x) = Some x"
  "int8_attr 1 (t_attr (int8_sample v c x))" "attr_vtl (t_attr (int8_sample v c x)) = v" "attr_is_const (t_attr (int8_sample v c x)) = c"
  by (simp_all add: int8_sample_def int8_attr_def)

lemma int8_graph_readable: "readable table_drv 1 {21} int8_graph"
proof -
  have "ShapeProduct [2, 1, 1, 1, 1, 1, 1, 1] 1 = Some 2" by (simp add: ShapeProduct_def rd_def)
  moreover have "data_at table_drv int8_graph 21 = Some [5, 200]"
    by (simp add: data_at_def table_drv_def int8_graph_fields int8_sample_def)
  ultimately show ?thesis
    by (auto simp: readable_def int8_graph_fields int8_graph_attr split: if_splits) (simp_all add: int8_sample_def)
qed


end
