(* ===== verification/Graph_Convert.thy ===== *)
theory Graph_Convert
  imports Graph_Rewrite
begin

text \<open>
  The nodes that are put in between signed tensors of the user and the unsigned tensors of the
  graph: what they change, and what they keep.
\<close>

subsection \<open>One conversion\<close>

definition rename_reads :: "tensor_id \<Rightarrow> tensor_id \<Rightarrow> vnode \<Rightarrow> vnode" where
  "rename_reads a b n = n\<lparr>n_inputs := map (\<lambda>t. if t = a then b else t) (n_inputs n)\<rparr>"

definition rename_write :: "tensor_id \<Rightarrow> tensor_id \<Rightarrow> vnode \<Rightarrow> vnode" where
  "rename_write a b n = n\<lparr>n_outputs := redirect_write a b (n_outputs n)\<rparr>"

lemma rename_reads_twice: "a \<noteq> b \<Longrightarrow> rename_reads a b (rename_reads a b n) = rename_reads a b n"
  by (simp add: rename_reads_def)

lemma redirect_reads_eq:
  "i + n \<le> length nodes \<Longrightarrow> a \<noteq> b \<Longrightarrow> redirect_reads nodes i n a b g =
    Some (g\<lparr>g_nodes := (\<lambda>x. if x \<in> set (take n (drop i nodes)) then rename_reads a b (g_nodes g x) else g_nodes g x)\<rparr>)"
proof (induction n arbitrary: i g)
  case (Suc n)
  have t: "take (Suc n) (drop i nodes) = nodes ! i # take n (drop (Suc i) nodes)"
    using Suc.prems(1) by (simp add: Cons_nth_drop_Suc[symmetric])
  let ?g = "set_node (nodes ! i) (rename_reads a b (g_nodes g (nodes ! i))) g"
  have "redirect_reads nodes i (Suc n) a b g = redirect_reads nodes (Suc i) n a b ?g"
    using Suc.prems(1) by (simp add: rename_reads_def)
  also have "\<dots> = Some (?g\<lparr>g_nodes := (\<lambda>x. if x \<in> set (take n (drop (Suc i) nodes)) then rename_reads a b (g_nodes ?g x) else g_nodes ?g x)\<rparr>)"
    by (rule Suc.IH) (use Suc.prems in auto)
  finally show ?case
    by (auto simp: t set_node_def fun_eq_iff rename_reads_twice[OF Suc.prems(2)])
qed simp

text \<open>
  \<open>P k\<close>, \<open>T k\<close>, \<open>Q k\<close> and \<open>N k\<close> are the addresses and contents of the new tensors and nodes:
  memory that is not in use.
\<close>

definition supplies ::
  "(nat \<Rightarrow> create_fn) \<Rightarrow> (nat \<Rightarrow> (ptr \<times> vnode) option) \<Rightarrow> (nat \<Rightarrow> ptr) \<Rightarrow> (nat \<Rightarrow> tensor_attr \<Rightarrow> vtensor) \<Rightarrow> (nat \<Rightarrow> ptr)
   \<Rightarrow> (nat \<Rightarrow> vnode) \<Rightarrow> bool" where
  "supplies create new P T Q N \<longleftrightarrow>
     (\<forall>k a. create k Plain a None = Some (P k, T k a) \<and> t_attr (T k a) = a) \<and> (\<forall>k. new k = Some (Q k, N k)) \<and> inj P \<and> inj Q"

definition node_ptrs :: "'s graph \<Rightarrow> ptr set" where
  "node_ptrs g = {p. \<exists>nid. nid < node_num g \<and> GetNode g nid = Some p}"

definition tensor_ptrs :: "'s graph \<Rightarrow> ptr set" where
  "tensor_ptrs g = {p. \<exists>tid. GetTensor g tid = Some p}"

text \<open>The identifiers in the slots and in the table are below the counter; there is room for more.\<close>

definition room :: "nat \<Rightarrow> 's graph \<Rightarrow> bool" where
  "room n g \<longleftrightarrow> graph_inv g \<and> unat (node_num g) + n < 2 ^ 32 \<and> unat (tensor_num g) + n < 2 ^ 32 - 2 \<and>
     (\<forall>nid < node_num g. GetNode g nid \<noteq> None) \<and>
     (\<forall>tid. GetTensor g tid \<noteq> None \<longrightarrow> tid < tensor_num g) \<and>
     (\<forall>p \<in> node_ptrs g. \<forall>t \<in> set (n_inputs (g_nodes g p)) \<union> set (n_outputs (g_nodes g p)). t < tensor_num g \<or> t = TENSOR_ID_NA)"

definition conv_attr :: "tensor_attr \<Rightarrow> tensor_attr" where
  "conv_attr a = (convert_attr a)\<lparr>attr_vtl := True, attr_from_handle := False\<rparr>"

definition conv_node :: "vnode \<Rightarrow> nat \<Rightarrow> tensor_id \<Rightarrow> tensor_id \<Rightarrow> vnode" where
  "conv_node n k a b = n\<lparr>n_op := OP_DATACONVERT, n_inputs := [a], n_outputs := [b], n_uid := DATACONVERT_UID_BASE + of_nat k\<rparr>"

text \<open>
  \<open>g'\<close> is \<open>g\<close> with a new tensor, a new node that converts from \<open>a\<close> to \<open>b\<close>, and the nodes of \<open>C\<close>
  changed by \<open>h\<close>.
\<close>

definition conv_step ::
  "nat \<Rightarrow> ptr \<Rightarrow> vtensor \<Rightarrow> ptr \<Rightarrow> vnode \<Rightarrow> tensor_id \<Rightarrow> tensor_id \<Rightarrow> ptr set \<Rightarrow> (vnode \<Rightarrow> vnode) \<Rightarrow> 's graph \<Rightarrow> 's graph \<Rightarrow> bool" where
  "conv_step k p t q n a b C h g g' \<longleftrightarrow>
     node_num g' = node_num g + 1 \<and> tensor_num g' = tensor_num g + 1 \<and>
     (\<forall>j. GetTensor g' j = (if j = tensor_num g then Some p else GetTensor g j)) \<and>
     (\<forall>j. GetNode g' j = (if j = node_num g then Some q else GetNode g j)) \<and>
     g_tensors g' = (g_tensors g)(p := t) \<and>
     (\<forall>x. g_nodes g' x = (if x = q then conv_node n k a b else if x \<in> C then h (g_nodes g x) else g_nodes g x)) \<and>
     graph_inv g'"

lemma AddTensor_auto:
  assumes "supplies create new P T Q N" "attr_vx_type a = TYPE_U8"
  shows "AddTensor (create k) g TENSOR_ID_AUTO a None =
    (g\<lparr>tensor_table := MapAdd True True (tensor_table g) (uint (tensor_num g)) (Some (P k)),
       g_tensors := (g_tensors g)(P k := T k (a\<lparr>attr_from_handle := False\<rparr>)), tensor_num := tensor_num g + 1\<rparr>, tensor_num g)"
  using assms by (simp add: AddTensor_def add_tensor_def supplies_def TYPE_U8_def TYPE_VDATA_def Let_def)

definition add_tensor_graph :: "ptr \<Rightarrow> vtensor \<Rightarrow> 's graph \<Rightarrow> 's graph" where
  "add_tensor_graph p t g = g\<lparr>tensor_table := MapAdd True True (tensor_table g) (uint (tensor_num g)) (Some p),
     g_tensors := (g_tensors g)(p := t), tensor_num := tensor_num g + 1\<rparr>"

definition add_node_graph :: "ptr \<Rightarrow> vnode \<Rightarrow> 's graph \<Rightarrow> 's graph" where
  "add_node_graph q n g = g\<lparr>node_table := MapAdd True True (node_table g) (uint (node_num g)) (Some q),
     g_nodes := (g_nodes g)(q := n), node_num := node_num g + 1\<rparr>"

lemma add_dataconvert_forward:
  assumes "unat n \<le> length nodes" "a \<noteq> b" "q \<notin> set (take (unat n) nodes)"
  shows "add_dataconvert_node (Some (q, nd)) (of_nat k) (Forward nodes n) a b g =
    Some (VSI_SUCCESS, (add_node_graph q (conv_node nd k a b) g)\<lparr>g_nodes :=
      (\<lambda>x. if x = q then conv_node nd k a b else if x \<in> set (take (unat n) nodes) then rename_reads a b (g_nodes g x) else g_nodes g x)\<rparr>)"
  using assms
  by (auto simp: add_dataconvert_node_def AddNode_def NewNode_def Let_def set_node_def add_forward_node_def redirect_reads_eq
      connect_def add_node_graph_def conv_node_def fun_eq_iff)

lemma add_dataconvert_backward:
  assumes "q \<noteq> w"
  shows "add_dataconvert_node (Some (q, nd)) (of_nat k) (Backward (Some w)) a b g =
    Some (VSI_SUCCESS, (add_node_graph q (conv_node nd k a b) g)\<lparr>g_nodes :=
      (\<lambda>x. if x = q then conv_node nd k a b else if x = w then rename_write a b (g_nodes g x) else g_nodes g x)\<rparr>)"
  using assms
  by (auto simp: add_dataconvert_node_def AddNode_def NewNode_def Let_def set_node_def add_backward_node_def
      connect_def add_node_graph_def conv_node_def rename_write_def fun_eq_iff)

lemma conv_stepI:
  assumes "room (Suc m) g"
  shows "conv_step k p t q n a b C h g ((add_node_graph q (conv_node n k a b) (add_tensor_graph p t g))\<lparr>g_nodes :=
      (\<lambda>x. if x = q then conv_node n k a b else if x \<in> C then h (g_nodes (add_tensor_graph p t g) x) else g_nodes (add_tensor_graph p t g) x)\<rparr>)"
proof -
  have inv: "graph_inv g" and n: "node_num g \<noteq> - 1" using assms not_max_word[of "node_num g"] by (simp_all add: room_def)
  have "uint (node_num g + 1) = uint (node_num g) + 1" using uint_Suc_word[OF n] .
  then have "\<forall>j \<in> set (map_keys (MapAdd True True (node_table g) (uint (node_num g)) (Some q))). 0 \<le> j \<and> j < uint (node_num g + 1)"
    using inv by (force simp: graph_inv_def keys_Add)
  then show ?thesis
    using inv by (simp add: conv_step_def add_node_graph_def add_tensor_graph_def GetTensor_def GetNode_def Get_Add uint_eq_iff
      graph_inv_def map_inv_Add)
qed

lemma convert_one_forward:
  assumes "supplies create new P T Q N" "room (Suc m) g" "unat n \<le> length nodes" "tid < tensor_num g"
    "Q k \<notin> set (take (unat n) nodes)"
  shows "\<exists>g'. convert_one create new k p (Forward nodes n) tid g = Some g' \<and>
    conv_step k (P k) (T k (conv_attr (t_attr (g_tensors g p)))) (Q k) (N k) tid (tensor_num g) (set (take (unat n) nodes))
      (rename_reads tid (tensor_num g)) g g'"
proof -
  let ?a = "(convert_attr (t_attr (g_tensors g p)))\<lparr>attr_vtl := True\<rparr>"
  let ?t = "T k (conv_attr (t_attr (g_tensors g p)))"
  have add: "AddTensor (create k) g TENSOR_ID_AUTO ?a None = (add_tensor_graph (P k) ?t g, tensor_num g)"
    by (subst AddTensor_auto[OF assms(1)]) (simp_all add: add_tensor_graph_def conv_attr_def convert_attr_def)
  have "new k = Some (Q k, N k)" using assms(1) by (simp add: supplies_def)
  then show ?thesis
    using add_dataconvert_forward[OF assms(3) _ assms(5), of tid "tensor_num g" "N k" k "add_tensor_graph (P k) ?t g"] assms(4)
      conv_stepI[OF assms(2)] by (auto simp: convert_one_def add)
qed

lemma convert_one_backward:
  assumes "supplies create new P T Q N" "room (Suc m) g" "Q k \<noteq> w"
  shows "\<exists>g'. convert_one create new k p (Backward (Some w)) tid g = Some g' \<and>
    conv_step k (P k) (T k (conv_attr (t_attr (g_tensors g p)))) (Q k) (N k) (tensor_num g) tid {w}
      (rename_write (tensor_num g) tid) g g'"
proof -
  let ?a = "(convert_attr (t_attr (g_tensors g p)))\<lparr>attr_vtl := True\<rparr>"
  let ?t = "T k (conv_attr (t_attr (g_tensors g p)))"
  have add: "AddTensor (create k) g TENSOR_ID_AUTO ?a None = (add_tensor_graph (P k) ?t g, tensor_num g)"
    by (subst AddTensor_auto[OF assms(1)]) (simp_all add: add_tensor_graph_def conv_attr_def convert_attr_def)
  have "new k = Some (Q k, N k)" using assms(1) by (simp add: supplies_def)
  then show ?thesis
    using add_dataconvert_backward[OF assms(3), of "N k" k "tensor_num g" tid "add_tensor_graph (P k) ?t g"]
      conv_stepI[OF assms(2), of k "P k" ?t "Q k" "N k" "tensor_num g" tid "{w}" "rename_write (tensor_num g) tid"]
    unfolding singleton_iff by (simp add: convert_one_def add)
qed

subsection \<open>The equations of the nodes\<close>

text \<open>
  \<open>F p\<close> relates what the node at \<open>p\<close> reads to what it writes; a valuation of the tensors solves the
  graph when it satisfies the relations of all nodes.
\<close>

definition solves :: "(ptr \<Rightarrow> 'v list \<Rightarrow> 'v list \<Rightarrow> bool) \<Rightarrow> 's graph \<Rightarrow> (tensor_id \<Rightarrow> 'v) \<Rightarrow> bool" where
  "solves F g v \<longleftrightarrow> (\<forall>p \<in> node_ptrs g. F p (map v (n_inputs (g_nodes g p))) (map v (n_outputs (g_nodes g p))))"

definition same_solutions :: "(ptr \<Rightarrow> 'v list \<Rightarrow> 'v list \<Rightarrow> bool) \<Rightarrow> 's graph \<Rightarrow> 's graph \<Rightarrow> bool" where
  "same_solutions F g g' \<longleftrightarrow>
     (\<forall>v. solves F g v \<longrightarrow> (\<exists>v'. solves F g' v' \<and> (\<forall>t. t < tensor_num g \<or> t = TENSOR_ID_NA \<longrightarrow> v' t = v t))) \<and>
     (\<forall>v. solves F g' v \<longrightarrow> solves F g v)"

lemma same_solutions_refl: "same_solutions F g g"
  by (auto simp: same_solutions_def)

lemma same_solutions_trans:
  assumes "same_solutions F g g'" "same_solutions F g' g''" "tensor_num g \<le> tensor_num g'"
  shows "same_solutions F g g''"
proof -
  have "\<exists>v''. solves F g'' v'' \<and> (\<forall>t. t < tensor_num g \<or> t = TENSOR_ID_NA \<longrightarrow> v'' t = v t)" if v: "solves F g v" for v
  proof -
    obtain v' where v': "solves F g' v'" "\<forall>t. t < tensor_num g \<or> t = TENSOR_ID_NA \<longrightarrow> v' t = v t"
      using assms(1) v unfolding same_solutions_def by blast
    obtain v'' where "solves F g'' v''" "\<forall>t. t < tensor_num g' \<or> t = TENSOR_ID_NA \<longrightarrow> v'' t = v' t"
      using assms(2) v'(1) unfolding same_solutions_def by blast
    then show ?thesis using v'(2) assms(3) less_le_trans by metis
  qed
  then show ?thesis using assms(1,2) unfolding same_solutions_def by blast
qed

lemma room_num: "room (Suc m) g \<Longrightarrow>
  unat (node_num g + 1) = unat (node_num g) + 1 \<and> unat (tensor_num g + 1) = unat (tensor_num g) + 1 \<and> tensor_num g \<noteq> TENSOR_ID_NA"
  using not_max_word[of "tensor_num g"] by (auto simp: room_def TENSOR_ID_NA_def unat_add_no_overflow)

lemma conv_step_nodes:
  assumes "conv_step k p t q n a b C h g g'" "room (Suc m) g"
  shows "node_ptrs g' = insert q (node_ptrs g)"
proof -
  have lt: "nid < node_num g + 1 \<longleftrightarrow> nid < node_num g \<or> nid = node_num g" for nid
    using room_num[OF assms(2)] by (auto simp: word_less_nat_alt less_Suc_eq word_unat_eq_iff[of nid])
  have "x \<in> node_ptrs g' \<longleftrightarrow> x = q \<or> x \<in> node_ptrs g" for x
    using assms(1) unfolding conv_step_def node_ptrs_def mem_Collect_eq by (metis lt less_irrefl option.inject)
  then show ?thesis by auto
qed

definition slots :: "vnode \<Rightarrow> tensor_id set" where
  "slots n = set (n_inputs n) \<union> set (n_outputs n)"

lemma slots_rename: "slots (rename_reads a b n) \<subseteq> insert b (slots n)" "slots (rename_write a b n) \<subseteq> insert a (slots n)"
proof -
  show "slots (rename_reads a b n) \<subseteq> insert b (slots n)" by (auto simp: slots_def rename_reads_def)
  have "set (redirect_write a b ts) \<subseteq> insert a (set ts)" for ts by (induction ts) auto
  then show "slots (rename_write a b n) \<subseteq> insert a (slots n)" by (auto simp: slots_def rename_write_def)
qed

lemma map_rename:
  "v a = v b \<Longrightarrow> map v (n_inputs (rename_reads a b n)) = map v (n_inputs n) \<and> map v (n_outputs (rename_reads a b n)) = map v (n_outputs n)"
  "v a = v b \<Longrightarrow> map v (n_inputs (rename_write a b n)) = map v (n_inputs n) \<and> map v (n_outputs (rename_write a b n)) = map v (n_outputs n)"
proof -
  show "v a = v b \<Longrightarrow> map v (n_inputs (rename_reads a b n)) = map v (n_inputs n) \<and> map v (n_outputs (rename_reads a b n)) = map v (n_outputs n)"
    by (auto simp: rename_reads_def)
  have "v a = v b \<Longrightarrow> map v (redirect_write a b ts) = map v ts" for ts by (induction ts) auto
  then show "v a = v b \<Longrightarrow> map v (n_inputs (rename_write a b n)) = map v (n_inputs n) \<and> map v (n_outputs (rename_write a b n)) = map v (n_outputs n)"
    by (simp add: rename_write_def)
qed

lemma conv_step_room:
  assumes "conv_step k p t q n a b C h g g'" "room (Suc m) g" "\<And>x. slots (h x) \<subseteq> insert (tensor_num g) (slots x)"
    and "a \<le> tensor_num g" "b \<le> tensor_num g"
  shows "room m g'"
proof -
  note s = assms(1)[unfolded conv_step_def] and r = assms(2)[unfolded room_def]
  have num: "unat (node_num g + 1) = unat (node_num g) + 1" "unat (tensor_num g + 1) = unat (tensor_num g) + 1"
    using room_num[OF assms(2)] by auto
  have le: "t \<le> tensor_num g \<Longrightarrow> t < tensor_num g'" for t
    using s num by (simp add: word_less_nat_alt word_le_nat_alt)
  have slots: "t < tensor_num g' \<or> t = TENSOR_ID_NA" if "x \<in> node_ptrs g'" "t \<in> slots (g_nodes g' x)" for x t
  proof (cases "x = q")
    case True
    then have "g_nodes g' x = conv_node n k a b" using s by simp
    then have "t = a \<or> t = b" using that(2) by (simp add: slots_def conv_node_def) (blast)
    then show ?thesis using le assms(4,5) by auto
  next
    case False
    then have x: "x \<in> node_ptrs g" using conv_step_nodes[OF assms(1,2)] that(1) by simp
    have "g_nodes g' x = (if x \<in> C then h (g_nodes g x) else g_nodes g x)" using s False by simp
    then have "t \<in> insert (tensor_num g) (slots (g_nodes g x))" using that(2) assms(3) by (auto split: if_splits)
    then consider "t = tensor_num g" | "t \<in> slots (g_nodes g x)" by blast
    then show ?thesis
    proof cases
      case 1
      then show ?thesis using le by simp
    next
      case 2
      then have "t < tensor_num g \<or> t = TENSOR_ID_NA" using r x unfolding slots_def by blast
      then show ?thesis using le[of t] by (auto simp: less_imp_le)
    qed
  qed
  have "nid < node_num g + 1 \<longleftrightarrow> nid < node_num g \<or> nid = node_num g" for nid
    using num by (auto simp: word_less_nat_alt less_Suc_eq word_unat_eq_iff[of nid])
  then have "\<forall>nid < node_num g'. GetNode g' nid \<noteq> None" using s r by auto
  moreover have "\<forall>tid. GetTensor g' tid \<noteq> None \<longrightarrow> tid < tensor_num g'" using s r le by (auto simp: order.strict_implies_order)
  moreover have "unat (node_num g') + m < 2 ^ 32" "unat (tensor_num g') + m < 2 ^ 32 - 2" using s r num by auto
  ultimately show ?thesis using s slots by (simp add: room_def slots_def)
qed

lemma conv_step_solutions:
  fixes F :: "ptr \<Rightarrow> 'v list \<Rightarrow> 'v list \<Rightarrow> bool"
  assumes step: "conv_step k p t q n a b C h g g'" and room: "room (Suc m) g" and q: "q \<notin> node_ptrs g"
    and ends: "a = tid \<and> b = tensor_num g \<or> a = tensor_num g \<and> b = tid" "tid < tensor_num g"
    and F: "\<And>x y. F q [x] [y] \<longleftrightarrow> x = y"
    and h: "\<And>(v :: tensor_id \<Rightarrow> 'v) n. v a = v b \<Longrightarrow> map v (n_inputs (h n)) = map v (n_inputs n) \<and> map v (n_outputs (h n)) = map v (n_outputs n)"
  shows "same_solutions F g g'"
proof -
  note s = step[unfolded conv_step_def]
  have nodes: "map v (n_inputs (g_nodes g' x)) = map v (n_inputs (g_nodes g x)) \<and> map v (n_outputs (g_nodes g' x)) = map v (n_outputs (g_nodes g x))"
    if "v a = v b" "x \<in> node_ptrs g" for v :: "tensor_id \<Rightarrow> 'v" and x
    using s q that h by auto
  have iff: "solves F g' v \<longleftrightarrow> solves F g v \<and> v a = v b" for v
  proof -
    have "F q (map v (n_inputs (g_nodes g' q))) (map v (n_outputs (g_nodes g' q))) \<longleftrightarrow> v a = v b"
      using s F by (simp add: conv_node_def)
    then show ?thesis using nodes[of v] unfolding solves_def conv_step_nodes[OF step room] by auto
  qed
  have "\<exists>v'. solves F g' v' \<and> (\<forall>t. t < tensor_num g \<or> t = TENSOR_ID_NA \<longrightarrow> v' t = v t)" if v: "solves F g v" for v
  proof -
    let ?v = "v(tensor_num g := v tid)"
    have "?v t = v t" if "x \<in> node_ptrs g" "t \<in> slots (g_nodes g x)" for x t
      using that room room_num[OF room] unfolding room_def slots_def by fastforce
    then have "solves F g ?v" using v by (auto simp: solves_def slots_def cong: map_cong)
    moreover have "?v a = ?v b" using ends by auto
    ultimately show ?thesis using iff[of ?v] room_num[OF room] by (intro exI[of _ ?v]) auto
  qed
  then show ?thesis using iff by (auto simp: same_solutions_def)
qed

subsection \<open>Histories of conversions\<close>

text \<open>
  The graph \<open>g\<close> after \<open>k\<close> conversions of \<open>g0\<close>: the old tensors have their attributes, the new ones are
  not signed, the nodes of \<open>g0\<close> are there, with slots that are old or new, and the solutions are the same.
\<close>

definition converted ::
  "(ptr \<Rightarrow> 'v list \<Rightarrow> 'v list \<Rightarrow> bool) \<Rightarrow> int \<Rightarrow> (nat \<Rightarrow> ptr) \<Rightarrow> (nat \<Rightarrow> ptr) \<Rightarrow> 's graph \<Rightarrow> nat \<Rightarrow> 's graph \<Rightarrow> bool" where
  "converted F en P Q g0 k g \<longleftrightarrow>
     tensor_num g0 \<le> tensor_num g \<and> node_ptrs g = node_ptrs g0 \<union> Q ` {..<k} \<and>
     tensor_ptrs g \<subseteq> tensor_ptrs g0 \<union> P ` {..<k} \<and>
     (\<forall>t. t < tensor_num g0 \<longrightarrow> attr_at g t = attr_at g0 t) \<and>
     (\<forall>t a. \<not> t < tensor_num g0 \<longrightarrow> attr_at g t = Some a \<longrightarrow> \<not> int8_attr en a) \<and>
     (\<forall>p \<in> node_ptrs g0. slots (g_nodes g p) \<subseteq> slots (g_nodes g0 p) \<union> {t. \<not> t < tensor_num g0}) \<and>
     same_solutions F g0 g"

lemma converted_refl: "room m g \<Longrightarrow> converted F en P Q g 0 g"
  by (auto simp: converted_def same_solutions_refl room_def attr_at_def)

text \<open>New memory is not the memory of the graph.\<close>

definition fresh_memory :: "(nat \<Rightarrow> ptr) \<Rightarrow> (nat \<Rightarrow> ptr) \<Rightarrow> 's graph \<Rightarrow> bool" where
  "fresh_memory P Q g \<longleftrightarrow> inj P \<and> inj Q \<and> range P \<inter> tensor_ptrs g = {} \<and> range Q \<inter> node_ptrs g = {}"

lemma fresh_now:
  assumes "fresh_memory P Q g0" "converted F en P Q g0 k g"
  shows "P k \<notin> tensor_ptrs g" "Q k \<notin> node_ptrs g"
proof -
  have "P k \<notin> tensor_ptrs g0" "Q k \<notin> node_ptrs g0" "P k \<notin> P ` {..<k}" "Q k \<notin> Q ` {..<k}"
    using assms(1) unfolding fresh_memory_def by (auto simp: inj_image_mem_iff)
  then show "P k \<notin> tensor_ptrs g" "Q k \<notin> node_ptrs g" using assms(2) unfolding converted_def by blast+
qed

lemma converted_step:
  fixes F :: "ptr \<Rightarrow> 'v list \<Rightarrow> 'v list \<Rightarrow> bool"
  assumes c: "converted F en P Q g0 k g" and fr: "fresh_memory P Q g0" and room: "room (Suc m) g"
    and step: "conv_step k (P k) t (Q k) n a b C h g g'" and t: "\<not> int8_attr en (t_attr t)"
    and ends: "a = tid \<and> b = tensor_num g \<or> a = tensor_num g \<and> b = tid" "tid < tensor_num g"
    and F: "\<And>x y. F (Q k) [x] [y] \<longleftrightarrow> x = y" and hs: "\<And>x. slots (h x) \<subseteq> insert (tensor_num g) (slots x)"
    and h: "\<And>(v :: tensor_id \<Rightarrow> 'v) n. v a = v b \<Longrightarrow>
      map v (n_inputs (h n)) = map v (n_inputs n) \<and> map v (n_outputs (h n)) = map v (n_outputs n)"
  shows "converted F en P Q g0 (Suc k) g'" "room m g'"
proof -
  note s = step[unfolded conv_step_def] and c' = c[unfolded converted_def]
  note new = fresh_now[OF fr c]
  show rm: "room m g'" by (rule conv_step_room[OF step room hs]) (use ends in auto)
  have num: "tensor_num g < tensor_num g'" using s room_num[OF room] by (simp add: word_less_nat_alt)
  have at: "attr_at g' j = (if j = tensor_num g then Some (t_attr t) else attr_at g j)" for j
    using s new(1) by (cases "GetTensor g j") (auto simp: attr_at_def tensor_ptrs_def)
  have tp: "tensor_ptrs g' \<subseteq> insert (P k) (tensor_ptrs g)" using s by (auto simp: tensor_ptrs_def split: if_splits)
  have sl: "slots (g_nodes g' x) \<subseteq> slots (g_nodes g0 x) \<union> {t. \<not> t < tensor_num g0}" if x: "x \<in> node_ptrs g0" for x
  proof -
    have "x \<noteq> Q k" using x fr by (auto simp: fresh_memory_def)
    then have "g_nodes g' x = (if x \<in> C then h (g_nodes g x) else g_nodes g x)" using s by simp
    then have "slots (g_nodes g' x) \<subseteq> insert (tensor_num g) (slots (g_nodes g x))" using hs by auto
    moreover have "slots (g_nodes g x) \<subseteq> slots (g_nodes g0 x) \<union> {t. \<not> t < tensor_num g0}" using c' x by blast
    moreover have "\<not> tensor_num g < tensor_num g0" using c' by (simp add: not_less)
    ultimately show ?thesis by blast
  qed
  have sol: "same_solutions F g0 g'"
  proof -
    have "same_solutions F g g'"
      by (rule conv_step_solutions[where F = F, OF step room new(2) ends]) (rule F, rule h)
    then show ?thesis using same_solutions_trans[of F g0 g g'] c' by blast
  qed
  have np: "node_ptrs g' = node_ptrs g0 \<union> Q ` {..<Suc k}"
    using conv_step_nodes[OF step room] c' by (auto simp: lessThan_Suc)
  have tp': "tensor_ptrs g' \<subseteq> tensor_ptrs g0 \<union> P ` {..<Suc k}" using tp c' by (auto simp: lessThan_Suc)
  have old: "attr_at g' j = attr_at g0 j" if "j < tensor_num g0" for j
  proof -
    have "j \<noteq> tensor_num g" using that c' by (auto simp: not_less[symmetric])
    then show ?thesis using at c' that by simp
  qed
  have young: "\<not> int8_attr en x" if "\<not> j < tensor_num g0" "attr_at g' j = Some x" for j x
    using at[of j] that c' t by (auto split: if_splits)
  show "converted F en P Q g0 (Suc k) g'"
    unfolding converted_def using num c' np tp' old young sl sol by (auto intro: order.trans less_imp_le)
qed

lemma ids_below_Suc: "unat (n + 1) = unat n + 1 \<Longrightarrow> ids_below (n + 1) = ids_below n @ [n]"
  by (simp add: ids_below_def)

subsection \<open>The nodes that read or write a tensor\<close>

lemma consumers_filter:
  "\<forall>nid \<in> set nids. GetNode g nid \<noteq> None \<Longrightarrow> consumers_loop g t nids =
    filter (\<lambda>p. t \<in> set (n_inputs (g_nodes g p))) (map (\<lambda>nid. the (GetNode g nid)) nids)"
  by (induction nids) auto

lemma provider_some:
  "\<forall>nid \<in> set nids. GetNode g nid \<noteq> None \<Longrightarrow> \<exists>nid \<in> set nids. t \<in> set (n_outputs (g_nodes g (the (GetNode g nid)))) \<Longrightarrow>
    \<exists>nid \<in> set nids. \<exists>p. GetNode g nid = Some p \<and> provider_loop g t nids = Some p \<and> t \<in> set (n_outputs (g_nodes g p))"
proof (induction nids)
  case (Cons nid nids)
  obtain p where p: "GetNode g nid = Some p" using Cons.prems(1) by auto
  show ?case
  proof (cases "t \<in> set (n_outputs (g_nodes g p))")
    case False
    then have "\<exists>nid \<in> set nids. t \<in> set (n_outputs (g_nodes g (the (GetNode g nid))))" using Cons.prems(2) p by simp
    then show ?thesis using Cons.IH Cons.prems(1) p False by simp
  qed (simp add: p)
qed simp

lemma room_present: "room m g \<Longrightarrow> \<forall>nid \<in> set (ids_below (node_num g)). GetNode g nid \<noteq> None"
  by (simp add: room_def ids_below_simps)

lemma consumers_set:
  assumes "room m g" "get_tensor_consumers g t = (ps, n)"
  shows "set ps = {p \<in> node_ptrs g. t \<in> set (n_inputs (g_nodes g p))}" "unat n = length ps"
proof -
  have n: "n = of_nat (length ps)" and "ps = consumers_loop g t (ids_below (node_num g))"
    using assms(2) unfolding get_tensor_consumers_def Let_def by blast+
  then have ps: "ps = filter (\<lambda>p. t \<in> set (n_inputs (g_nodes g p))) (map (\<lambda>nid. the (GetNode g nid)) (ids_below (node_num g)))"
    using consumers_filter[OF room_present[OF assms(1)], of t] by (simp only:)
  show "set ps = {p \<in> node_ptrs g. t \<in> set (n_inputs (g_nodes g p))}"
    using room_present[OF assms(1)] by (force simp: ps node_ptrs_def ids_below_simps)
  have "length ps \<le> unat (node_num g)"
    using length_filter_le[of _ "map (\<lambda>nid. the (GetNode g nid)) (ids_below (node_num g))"] by (simp add: ps ids_below_simps)
  then show "unat n = length ps" using assms(1) by (simp add: n room_def unat_of_nat take_bit_nat_eq_self)
qed

lemma conv_step_consumers:
  assumes step: "conv_step k p t q n a b C h g g'" and room: "room (Suc m) g" and q: "q \<notin> node_ptrs g" and tid: "tid \<noteq> a"
    and h: "\<And>x. x \<in> C \<Longrightarrow> tid \<in> set (n_inputs (h (g_nodes g x))) \<longleftrightarrow> tid \<in> set (n_inputs (g_nodes g x))"
    and room': "room m g'"
  shows "get_tensor_consumers g' tid = get_tensor_consumers g tid"
proof -
  note s = step[unfolded conv_step_def]
  have ids: "ids_below (node_num g') = ids_below (node_num g) @ [node_num g]"
    using s ids_below_Suc[of "node_num g"] room_num[OF room] by simp
  have get: "GetNode g' nid = GetNode g nid" if "nid \<in> set (ids_below (node_num g))" for nid
    using s that by (auto simp: ids_below_simps)
  let ?f = "\<lambda>g x. tid \<in> set (n_inputs (g_nodes g x))" and ?l = "map (\<lambda>nid. the (GetNode g nid)) (ids_below (node_num g))"
  have same: "?f g' x \<longleftrightarrow> ?f g x" if "x \<in> set ?l" for x
  proof -
    have "x \<in> node_ptrs g" using that room_present[OF room] by (force simp: node_ptrs_def ids_below_simps)
    then show ?thesis using s q h by auto
  qed
  have "consumers_loop g' tid (ids_below (node_num g')) = filter (?f g') (?l @ [q])"
  proof -
    have "map (\<lambda>nid. the (GetNode g' nid)) (ids_below (node_num g)) = ?l" by (rule map_cong) (simp_all add: get)
    moreover have "GetNode g' (node_num g) = Some q" using s by simp
    ultimately have "map (\<lambda>nid. the (GetNode g' nid)) (ids_below (node_num g')) = ?l @ [q]" unfolding ids by simp
    then show ?thesis using consumers_filter[OF room_present[OF room'], of tid] by (simp only:)
  qed
  also have "\<dots> = filter (?f g) ?l"
  proof -
    have "filter (?f g') ?l = filter (?f g) ?l" by (rule filter_cong[OF refl same])
    moreover have "\<not> ?f g' q" using s tid by (simp add: conv_node_def)
    ultimately show ?thesis by simp
  qed
  finally show ?thesis
    using consumers_filter[OF room_present[OF room], of tid] by (simp add: get_tensor_consumers_def)
qed

subsection \<open>The conversions of the inputs\<close>

definition norm_ids :: "int \<Rightarrow> 's graph \<Rightarrow> tensor_id set" where
  "norm_ids en g = {t. is_int8_norm_tensor en (attr_at g t)}"

lemma norm_id_old: "room m g \<Longrightarrow> t \<in> norm_ids en g \<Longrightarrow> t < tensor_num g \<and> GetTensor g t \<noteq> None"
  by (cases "GetTensor g t") (auto simp: norm_ids_def attr_at_def int8_kinds room_def)

lemma rename_reads_set: "set (n_inputs (rename_reads a b n)) = (\<lambda>t. if t = a then b else t) ` set (n_inputs n)"
  by (simp add: rename_reads_def)

lemma convert_inputs_ok:
  fixes F :: "ptr \<Rightarrow> 'v list \<Rightarrow> 'v list \<Rightarrow> bool"
  assumes sup: "supplies create new P T Q N" and fr: "fresh_memory P Q g0" and room0: "room m0 g0"
    and F: "\<And>k x y. F (Q k) [x] [y] \<longleftrightarrow> x = y"
  shows "converted F en P Q g0 k g \<Longrightarrow> room (length rest + m) g \<Longrightarrow> distinct (map fst rest) \<Longrightarrow>
    \<forall>(tid, ps) \<in> set rest. tid \<in> norm_ids en g0 \<and> ps \<noteq> [] \<and> fst (get_tensor_consumers g tid) = ps \<Longrightarrow>
    \<forall>x \<in> node_ptrs g0. set (n_inputs (g_nodes g x)) \<inter> norm_ids en g0 \<subseteq> fst ` set rest \<Longrightarrow>
    \<exists>g'. convert_inputs create new k rest g = Some (k + length rest, g') \<and> converted F en P Q g0 (k + length rest) g' \<and> room m g' \<and>
      (\<forall>x \<in> node_ptrs g0. set (n_inputs (g_nodes g' x)) \<inter> norm_ids en g0 = {} \<and> n_outputs (g_nodes g' x) = n_outputs (g_nodes g x))"
proof (induction rest arbitrary: k g)
  case Nil
  then show ?case by auto
next
  case (Cons r rest)
  obtain tid nodes where r: "r = (tid, nodes)" by (cases r)
  obtain n where cons: "get_tensor_consumers g tid = (nodes, n)" using Cons.prems(4) r by (cases "get_tensor_consumers g tid") auto
  have room: "room (Suc (length rest + m)) g" using Cons.prems(2) by simp
  note new = fresh_now[OF fr Cons.prems(1)]
  note readers = consumers_set[OF room cons]
  have tid: "tid \<in> norm_ids en g0" "nodes \<noteq> []" using Cons.prems(4) r by auto
  have lt0: "tid < tensor_num g0" using norm_id_old[OF room0 tid(1)] by simp
  have le: "tensor_num g0 \<le> tensor_num g" using Cons.prems(1) by (simp add: converted_def)
  have lt: "tid < tensor_num g" using lt0 le by simp
  have "attr_at g tid \<noteq> None"
    using Cons.prems(1) lt0 tid(1) norm_id_old[OF room0 tid(1)] by (auto simp: converted_def attr_at_def)
  then obtain p where p: "GetTensor g tid = Some p" by (auto simp: attr_at_def)
  have npos: "0 < n" using readers(2) tid(2) by (cases "n = 0") (simp_all add: word_gt_0)
  let ?t = "T k (conv_attr (t_attr (g_tensors g p)))"
  have q: "Q k \<notin> set (take (unat n) nodes)" using readers new(2) by auto
  obtain g1 where g1: "convert_one create new k p (Forward nodes n) tid g = Some g1"
    "conv_step k (P k) ?t (Q k) (N k) tid (tensor_num g) (set nodes) (rename_reads tid (tensor_num g)) g g1"
    using convert_one_forward[OF sup room _ lt q] readers(2) by auto
  have ta: "\<not> int8_attr en (t_attr ?t)" using sup by (simp add: supplies_def conv_attr_def int8_attr_def TYPE_I8_def TYPE_U8_def)
  have c1: "converted F en P Q g0 (Suc k) g1" "room (length rest + m) g1"
    by (rule converted_step[OF Cons.prems(1) fr room g1(2) ta _ lt F slots_rename(1) map_rename(1)]; simp)+
  note s = g1(2)[unfolded conv_step_def]
  have nodes1: "g_nodes g1 x = (if tid \<in> set (n_inputs (g_nodes g x)) then rename_reads tid (tensor_num g) (g_nodes g x) else g_nodes g x)"
    if x: "x \<in> node_ptrs g0" for x
  proof -
    have x': "x \<in> node_ptrs g" using x Cons.prems(1) by (simp add: converted_def)
    then have "x \<noteq> Q k" using new(2) by auto
    then show ?thesis using s readers(1) x' by auto
  qed
  have fresh: "tensor_num g \<notin> norm_ids en g0" using norm_id_old[OF room0, of "tensor_num g" en] le by auto
  have reads: "set (n_inputs (g_nodes g1 x)) \<inter> norm_ids en g0 \<subseteq> fst ` set rest" if x: "x \<in> node_ptrs g0" for x
  proof -
    have "set (n_inputs (g_nodes g1 x)) \<inter> norm_ids en g0 \<subseteq> (set (n_inputs (g_nodes g x)) - {tid}) \<inter> norm_ids en g0"
      using nodes1[OF x] fresh by (auto simp: rename_reads_set split: if_splits)
    then show ?thesis using Cons.prems(5) x r by auto
  qed
  have others: "fst (get_tensor_consumers g1 tid') = ps" "tid' \<in> norm_ids en g0" "ps \<noteq> []" if "(tid', ps) \<in> set rest" for tid' ps
  proof -
    have d: "tid' \<noteq> tid" using Cons.prems(3) r that by force
    show n: "tid' \<in> norm_ids en g0" "ps \<noteq> []" using Cons.prems(4) that by auto
    have "tid' \<noteq> tensor_num g" using n(1) fresh by auto
    then have "get_tensor_consumers g1 tid' = get_tensor_consumers g tid'"
      using d by (intro conv_step_consumers[OF g1(2) room new(2) d _ c1(2)]) (auto simp: rename_reads_set)
    then show "fst (get_tensor_consumers g1 tid') = ps" using Cons.prems(4) that by auto
  qed
  obtain g' where g': "convert_inputs create new (Suc k) rest g1 = Some (Suc k + length rest, g')"
    "converted F en P Q g0 (Suc k + length rest) g'" "room m g'"
    "\<forall>x \<in> node_ptrs g0. set (n_inputs (g_nodes g' x)) \<inter> norm_ids en g0 = {} \<and> n_outputs (g_nodes g' x) = n_outputs (g_nodes g1 x)"
    using Cons.IH[OF c1] Cons.prems(3) reads others by fastforce
  have "n_outputs (g_nodes g1 x) = n_outputs (g_nodes g x)" if "x \<in> node_ptrs g0" for x
    using nodes1[OF that] by (simp add: rename_reads_def)
  then show ?case using g' g1(1) r cons npos p by (intro exI[of _ g']) (simp add: Let_def)
qed

subsection \<open>The conversions of the outputs\<close>

lemma count_redirect_write: "t \<noteq> a \<Longrightarrow> t \<noteq> b \<Longrightarrow> count_list (redirect_write a b ts) t = count_list ts t"
  by (induction ts) auto

lemma redirect_write_once: "count_list ts b = 1 \<Longrightarrow> a \<noteq> b \<Longrightarrow> b \<notin> set (redirect_write a b ts)"
  by (induction ts) (auto simp: count_list_0_iff split: if_splits)

lemma redirect_write_set: "set (redirect_write a b ts) \<subseteq> insert a (set ts)"
  by (induction ts) auto

text \<open>The node at \<open>w\<close>, and no other node, writes \<open>tid\<close>, once.\<close>

definition sole_writer :: "ptr set \<Rightarrow> 's graph \<Rightarrow> tensor_id \<Rightarrow> ptr \<Rightarrow> bool" where
  "sole_writer S g tid w \<longleftrightarrow> w \<in> S \<and> (\<forall>x \<in> S. count_list (n_outputs (g_nodes g x)) tid = (if x = w then 1 else 0))"

lemma convert_outputs_ok:
  fixes F :: "ptr \<Rightarrow> 'v list \<Rightarrow> 'v list \<Rightarrow> bool"
  assumes sup: "supplies create new P T Q N" and fr: "fresh_memory P Q g0" and room0: "room m0 g0"
    and F: "\<And>k x y. F (Q k) [x] [y] \<longleftrightarrow> x = y"
  shows "converted F en P Q g0 k g \<Longrightarrow> room (length rest + m) g \<Longrightarrow> distinct (map fst rest) \<Longrightarrow>
    \<forall>(tid, w) \<in> set rest. tid \<in> norm_ids en g0 \<and> (\<exists>w'. w = Some w' \<and> sole_writer (node_ptrs g0) g tid w') \<Longrightarrow>
    \<forall>x \<in> node_ptrs g0. set (n_outputs (g_nodes g x)) \<inter> norm_ids en g0 \<subseteq> fst ` set rest \<Longrightarrow>
    \<exists>g'. convert_outputs create new k rest g = Some (k + length rest, g') \<and> converted F en P Q g0 (k + length rest) g' \<and> room m g' \<and>
      (\<forall>x \<in> node_ptrs g0. set (n_outputs (g_nodes g' x)) \<inter> norm_ids en g0 = {} \<and> n_inputs (g_nodes g' x) = n_inputs (g_nodes g x))"
proof (induction rest arbitrary: k g)
  case Nil
  then show ?case by auto
next
  case (Cons r rest)
  obtain tid wo where r: "r = (tid, wo)" by (cases r)
  obtain w where w: "wo = Some w" "sole_writer (node_ptrs g0) g tid w" and tid: "tid \<in> norm_ids en g0"
    using Cons.prems(4) r by auto
  have room: "room (Suc (length rest + m)) g" using Cons.prems(2) by simp
  note new = fresh_now[OF fr Cons.prems(1)]
  have lt0: "tid < tensor_num g0" using norm_id_old[OF room0 tid] by simp
  have le: "tensor_num g0 \<le> tensor_num g" using Cons.prems(1) by (simp add: converted_def)
  have lt: "tid < tensor_num g" using lt0 le by simp
  have "attr_at g tid \<noteq> None"
    using Cons.prems(1) lt0 tid norm_id_old[OF room0 tid] by (auto simp: converted_def attr_at_def)
  then obtain p where p: "GetTensor g tid = Some p" by (auto simp: attr_at_def)
  let ?t = "T k (conv_attr (t_attr (g_tensors g p)))" and ?new = "tensor_num g"
  have wq: "w \<in> node_ptrs g0" "Q k \<noteq> w" using w(2) new(2) Cons.prems(1) by (auto simp: sole_writer_def converted_def)
  obtain g1 where g1: "convert_one create new k p (Backward (Some w)) tid g = Some g1"
    "conv_step k (P k) ?t (Q k) (N k) ?new tid {w} (rename_write ?new tid) g g1"
    using convert_one_backward[where k = k and p = p and tid = tid, OF sup room wq(2)] by blast
  have ta: "\<not> int8_attr en (t_attr ?t)" using sup by (simp add: supplies_def conv_attr_def int8_attr_def TYPE_I8_def TYPE_U8_def)
  have c1: "converted F en P Q g0 (Suc k) g1" "room (length rest + m) g1"
    by (rule converted_step[OF Cons.prems(1) fr room g1(2) ta _ lt F slots_rename(2) map_rename(2)]; simp)+
  note s = g1(2)[unfolded conv_step_def]
  have nodes1: "g_nodes g1 x = (if x = w then rename_write ?new tid (g_nodes g x) else g_nodes g x)" if x: "x \<in> node_ptrs g0" for x
  proof -
    have "x \<noteq> Q k" using x new(2) Cons.prems(1) by (auto simp: converted_def)
    then show ?thesis using s by auto
  qed
  have fresh: "?new \<notin> norm_ids en g0" using norm_id_old[OF room0, of ?new en] le by auto
  have gone: "tid \<notin> set (n_outputs (g_nodes g1 x))" if x: "x \<in> node_ptrs g0" for x
  proof (cases "x = w")
    case True
    then have "count_list (n_outputs (g_nodes g x)) tid = 1" using w(2) x by (simp add: sole_writer_def)
    then show ?thesis using redirect_write_once[of "n_outputs (g_nodes g x)" tid ?new] lt nodes1[OF x] True
      by (auto simp: rename_write_def)
  next
    case False
    then show ?thesis using w(2) x nodes1[OF x] by (auto simp: sole_writer_def count_list_0_iff[symmetric])
  qed
  have writes: "set (n_outputs (g_nodes g1 x)) \<inter> norm_ids en g0 \<subseteq> fst ` set rest" if x: "x \<in> node_ptrs g0" for x
  proof -
    have "set (n_outputs (g_nodes g1 x)) \<subseteq> insert ?new (set (n_outputs (g_nodes g x)))"
      using nodes1[OF x] redirect_write_set[of ?new tid] by (auto simp: rename_write_def)
    then have "set (n_outputs (g_nodes g1 x)) \<inter> norm_ids en g0 \<subseteq> (set (n_outputs (g_nodes g x)) - {tid}) \<inter> norm_ids en g0"
      using fresh gone[OF x] by blast
    then show ?thesis using Cons.prems(5) x r by auto
  qed
  have others: "tid' \<in> norm_ids en g0 \<and> (\<exists>w'. v = Some w' \<and> sole_writer (node_ptrs g0) g1 tid' w')" if v: "(tid', v) \<in> set rest" for tid' v
  proof -
    have d: "tid' \<noteq> tid" using Cons.prems(3) r v by force
    have n: "tid' \<in> norm_ids en g0" and "\<exists>w'. v = Some w' \<and> sole_writer (node_ptrs g0) g tid' w'" using Cons.prems(4) v by auto
    moreover have "tid' \<noteq> ?new" using n fresh by auto
    ultimately show ?thesis using d nodes1 by (auto simp: sole_writer_def rename_write_def count_redirect_write)
  qed
  obtain g' where g': "convert_outputs create new (Suc k) rest g1 = Some (Suc k + length rest, g')"
    "converted F en P Q g0 (Suc k + length rest) g'" "room m g'"
    "\<forall>x \<in> node_ptrs g0. set (n_outputs (g_nodes g' x)) \<inter> norm_ids en g0 = {} \<and> n_inputs (g_nodes g' x) = n_inputs (g_nodes g1 x)"
    using Cons.IH[OF c1] Cons.prems(3) writes others by fastforce
  have "n_inputs (g_nodes g1 x) = n_inputs (g_nodes g x)" if "x \<in> node_ptrs g0" for x
    using nodes1[OF that] by (simp add: rename_write_def)
  then show ?case using g' g1(1) r w(1) p by (intro exI[of _ g']) simp
qed

end
