(* ===== verification/Graph_Int8.thy ===== *)
theory Graph_Int8
  imports Graph_Convert
begin

text \<open>
  The rewriting of a whole graph: the lists of signed tensors that are collected before the
  conversions, and what \<open>vsi_nn_OptimizeGraph\<close> makes of a graph.
\<close>

subsection \<open>The collected tensors\<close>

lemma norm_input_ids_append:
  "norm_input_ids en g cap (xs @ ys) acc = Option.bind (norm_input_ids en g cap xs acc) (norm_input_ids en g cap ys)"
  by (induction xs arbitrary: acc; cases cap) simp_all

lemma norm_output_ids_append:
  "norm_output_ids en g cap (xs @ ys) acc = Option.bind (norm_output_ids en g cap xs acc) (norm_output_ids en g cap ys)"
  by (induction xs arbitrary: acc; cases cap) simp_all

lemma norm_inputs_eq:
  "\<forall>nid \<in> set nids. node_at_id g nid \<noteq> None \<Longrightarrow> norm_inputs en g cap nids acc = norm_input_ids en g cap (reads_of g nids) acc"
proof (induction nids arbitrary: acc)
  case (Cons nid nids)
  then obtain n where n: "node_at_id g nid = Some n" by auto
  then have "reads_of g (nid # nids) = n_inputs n @ reads_of g nids" by (simp add: reads_of_def)
  then show ?case using Cons n by (cases "norm_input_ids en g cap (n_inputs n) acc") (simp_all add: norm_input_ids_append)
qed simp

lemma norm_outputs_eq:
  "\<forall>nid \<in> set nids. node_at_id g nid \<noteq> None \<Longrightarrow> norm_outputs en g cap nids acc = norm_output_ids en g cap (writes_of g nids) acc"
proof (induction nids arbitrary: acc)
  case (Cons nid nids)
  then obtain n where n: "node_at_id g nid = Some n" by auto
  then have "writes_of g (nid # nids) = n_outputs n @ writes_of g nids" by (simp add: writes_of_def)
  then show ?case using Cons n by (cases "norm_output_ids en g cap (n_outputs n) acc") (simp_all add: norm_output_ids_append)
qed simp

text \<open>The first pass counts what the second one stores, so the block is never too small.\<close>

abbreviation signed_ids :: "int \<Rightarrow> 's graph \<Rightarrow> tensor_id list \<Rightarrow> tensor_id list" where
  "signed_ids en g \<equiv> filter (\<lambda>t. t \<in> norm_ids en g)"

lemma norm_input_ids_count:
  "norm_input_ids en g None tids (c, ids) = Some (c + length (signed_ids en g tids), ids)"
  by (induction tids arbitrary: c) (simp_all add: norm_ids_def)

lemma norm_output_ids_count:
  "norm_output_ids en g None tids (c, ids) = Some (c + length (signed_ids en g tids), ids)"
  by (induction tids arbitrary: c) (simp_all add: norm_ids_def)

lemma norm_input_ids_store:
  "length ids + length (signed_ids en g tids) \<le> cap \<Longrightarrow> distinct ids \<Longrightarrow>
    \<exists>c' ids'. norm_input_ids en g (Some cap) tids (c, ids) = Some (c', ids') \<and> distinct ids' \<and>
      set ids' = set ids \<union> (set tids \<inter> norm_ids en g) \<and> length ids' \<le> length ids + length (signed_ids en g tids)"
proof (induction tids arbitrary: c ids)
  case (Cons t tids)
  consider "t \<notin> norm_ids en g" | "t \<in> norm_ids en g" "t \<in> set ids" | "t \<in> norm_ids en g" "t \<notin> set ids" by blast
  then show ?case
  proof cases
    case 1
    then show ?thesis using Cons.IH[of ids c] Cons.prems by (simp add: norm_ids_def)
  next
    case 2
    then obtain c' ids' where "norm_input_ids en g (Some cap) tids (c + 1, ids) = Some (c', ids')" "distinct ids'"
      "set ids' = set ids \<union> (set tids \<inter> norm_ids en g)" "length ids' \<le> length ids + length (signed_ids en g tids)"
      using Cons.IH[of ids "c + 1"] Cons.prems by auto
    then show ?thesis using 2 by (auto simp: norm_ids_def)
  next
    case 3
    then obtain c' ids' where "norm_input_ids en g (Some cap) tids (c + 1, ids @ [t]) = Some (c', ids')" "distinct ids'"
      "set ids' = set (ids @ [t]) \<union> (set tids \<inter> norm_ids en g)" "length ids' \<le> length (ids @ [t]) + length (signed_ids en g tids)"
      using Cons.IH[of "ids @ [t]" "c + 1"] Cons.prems by auto
    then show ?thesis using 3 Cons.prems(1) by (auto simp: norm_ids_def)
  qed
qed simp

lemma norm_output_ids_store:
  "c + length (signed_ids en g tids) \<le> cap \<Longrightarrow>
    norm_output_ids en g (Some cap) tids (c, ids) = Some (c + length (signed_ids en g tids), ids @ signed_ids en g tids)"
proof (induction tids arbitrary: c ids)
  case (Cons t tids)
  then show ?case using Cons.IH[of "Suc c" "ids @ [t]"] Cons.IH[of c ids] by (cases "t \<in> norm_ids en g") (simp_all add: norm_ids_def)
qed simp

lemma collect_consumers_eq:
  assumes "room m g" "\<forall>a. mem a"
  shows "collect_consumers mem g i tids acc dirty =
    Inr (acc @ map (\<lambda>t. (t, fst (get_tensor_consumers g t))) tids, dirty \<or> (\<exists>t \<in> set tids. fst (get_tensor_consumers g t) \<noteq> []))"
proof (induction tids arbitrary: i acc dirty)
  case (Cons t tids)
  obtain ps n where ps: "get_tensor_consumers g t = (ps, n)" by (cases "get_tensor_consumers g t")
  then have "0 < n \<longleftrightarrow> ps \<noteq> []" using consumers_set(2)[OF assms(1) ps] by (simp add: word_less_nat_alt)
  then show ?case using Cons ps assms(2) by (auto simp: Let_def)
qed simp

definition all_reads :: "'s graph \<Rightarrow> tensor_id list" where
  "all_reads g = reads_of g (ids_below (node_num g))"

definition all_writes :: "'s graph \<Rightarrow> tensor_id list" where
  "all_writes g = writes_of g (ids_below (node_num g))"

lemma room_nodes: "room m g \<Longrightarrow> \<forall>nid \<in> set (ids_below (node_num g)). node_at_id g nid \<noteq> None"
  using room_present[of m g] by (simp add: node_at_id_def)

lemma slots_lists:
  assumes "room m g"
  shows "set (all_reads g) = (\<Union>p \<in> node_ptrs g. set (n_inputs (g_nodes g p)))"
    "set (all_writes g) = (\<Union>p \<in> node_ptrs g. set (n_outputs (g_nodes g p)))"
proof -
  have p: "nid \<in> set (ids_below (node_num g)) \<Longrightarrow> \<exists>p. GetNode g nid = Some p" for nid
    using room_present[OF assms] by auto
  show "set (all_reads g) = (\<Union>p \<in> node_ptrs g. set (n_inputs (g_nodes g p)))"
    using p by (force simp: all_reads_def reads_of_def node_at_id_def node_ptrs_def ids_below_simps)
  show "set (all_writes g) = (\<Union>p \<in> node_ptrs g. set (n_outputs (g_nodes g p)))"
    using p by (force simp: all_writes_def writes_of_def node_at_id_def node_ptrs_def ids_below_simps)
qed

lemma collect_inputs_ok:
  assumes "room m g" "\<forall>a. mem a"
  shows "\<exists>ids. collect_inputs mem en g dirty =
      Some (Inr (map (\<lambda>t. (t, fst (get_tensor_consumers g t))) ids, dirty \<or> set (all_reads g) \<inter> norm_ids en g \<noteq> {})) \<and>
    distinct ids \<and> set ids = set (all_reads g) \<inter> norm_ids en g \<and> length ids \<le> length (signed_ids en g (all_reads g))"
proof -
  let ?c = "length (signed_ids en g (all_reads g))"
  note eq = norm_inputs_eq[OF room_nodes[OF assms(1)], folded all_reads_def]
  obtain c ids where ids: "norm_input_ids en g (Some ?c) (all_reads g) (0, []) = Some (c, ids)" "distinct ids"
    "set ids = set (all_reads g) \<inter> norm_ids en g" "length ids \<le> ?c"
    using norm_input_ids_store[of "[]" en g "all_reads g" ?c 0] by auto
  have ne: "fst (get_tensor_consumers g t) \<noteq> []" if "t \<in> set ids" for t
  proof -
    obtain ps n where ps: "get_tensor_consumers g t = (ps, n)" by (cases "get_tensor_consumers g t")
    have "t \<in> set (all_reads g)" using that ids(3) by simp
    then show ?thesis using consumers_set(1)[OF assms(1) ps] slots_lists(1)[OF assms(1)] ps by auto
  qed
  show ?thesis
  proof (cases "?c = 0")
    case True
    then have "set (all_reads g) \<inter> norm_ids en g = {}" by (auto simp: filter_empty_conv)
    then show ?thesis using True by (intro exI[of _ "[]"]) (simp add: collect_inputs_def eq norm_input_ids_count)
  next
    case False
    have "(\<exists>t \<in> set ids. fst (get_tensor_consumers g t) \<noteq> []) \<longleftrightarrow> set (all_reads g) \<inter> norm_ids en g \<noteq> {}"
      using ne ids(3) by auto
    then show ?thesis
      using False ids assms(2)
      by (intro exI[of _ ids]) (simp add: collect_inputs_def eq norm_input_ids_count collect_consumers_eq[OF assms])
  qed
qed

lemma collect_outputs_ok:
  assumes "room m g" "\<forall>a. mem a"
  shows "collect_outputs mem en g dirty =
    Some (Inr (map (\<lambda>t. (t, get_tensor_provider g t)) (signed_ids en g (all_writes g)), dirty \<or> set (all_writes g) \<inter> norm_ids en g \<noteq> {}))"
proof -
  let ?l = "signed_ids en g (all_writes g)"
  note eq = norm_outputs_eq[OF room_nodes[OF assms(1)], folded all_writes_def]
  have "?l = [] \<longleftrightarrow> set (all_writes g) \<inter> norm_ids en g = {}" by (auto simp: filter_empty_conv)
  then show ?thesis using assms(2)
    by (simp add: collect_outputs_def eq norm_output_ids_count norm_output_ids_store)
qed

subsection \<open>The passes that keep the nodes\<close>

text \<open>Graphs that differ in their tensors and in the state of the driver.\<close>

definition nodes_kept :: "'s graph \<Rightarrow> 's graph \<Rightarrow> bool" where
  "nodes_kept g g' \<longleftrightarrow> g' = g\<lparr>g_tensors := g_tensors g', g_ext := g_ext g'\<rparr>"

lemma nodes_kept_simps:
  assumes "nodes_kept g g'"
  shows "GetTensor g' t = GetTensor g t" "GetNode g' nid = GetNode g nid" "node_num g' = node_num g" "tensor_num g' = tensor_num g"
    "g_nodes g' = g_nodes g" "node_ptrs g' = node_ptrs g" "tensor_ptrs g' = tensor_ptrs g" "node_at_id g' nid = node_at_id g nid"
    "all_reads g' = all_reads g" "all_writes g' = all_writes g" "room m g' = room m g" "solves F g' v = solves F g v"
    "fresh_memory P Q g' = fresh_memory P Q g"
proof -
  obtain th s where g': "g' = g\<lparr>g_tensors := th, g_ext := s\<rparr>" using assms unfolding nodes_kept_def by blast
  show nodes: "GetTensor g' t = GetTensor g t" for t by (simp add: g' GetTensor_def)
  show node: "GetNode g' nid = GetNode g nid" for nid by (simp add: g' GetNode_def)
  show num: "node_num g' = node_num g" "tensor_num g' = tensor_num g" "g_nodes g' = g_nodes g" by (simp_all add: g')
  show ptrs: "node_ptrs g' = node_ptrs g" "tensor_ptrs g' = tensor_ptrs g"
    by (simp_all add: node_ptrs_def tensor_ptrs_def nodes node num)
  show at: "node_at_id g' nid = node_at_id g nid" for nid by (simp add: node_at_id_def node num)
  show "all_reads g' = all_reads g" "all_writes g' = all_writes g"
    by (simp_all add: all_reads_def all_writes_def reads_of_def writes_of_def at num)
  have "graph_inv g' = graph_inv g" by (simp add: g' graph_inv_def)
  then show "room m g' = room m g" by (simp add: room_def nodes node num ptrs)
  show "solves F g' v = solves F g v" by (simp add: solves_def ptrs num)
  show "fresh_memory P Q g' = fresh_memory P Q g" by (simp add: fresh_memory_def ptrs)
qed

lemma virtual_pass:
  assumes "room m g"
  shows "convert_graph_virtual_tensor en g =
    (VSI_SUCCESS, g\<lparr>g_tensors := retype en (ptrs_of g (all_reads g @ all_writes g)) (g_tensors g)\<rparr>)"
  using virtual_nodes_eq[OF room_nodes[OF assms]] by (simp add: convert_graph_virtual_tensor_def all_reads_def all_writes_def)

lemma const_pass:
  assumes "drv_ok drv" "readable drv en R g" "room m g"
  shows "\<exists>g'. convert_graph_const_tensor drv en g = Some (VSI_SUCCESS, g') \<and> const_done drv en R g (ptrs_of g (all_reads g)) g'"
  using const_nodes_done[OF assms(1,2) room_nodes[OF assms(3)] const_done_refl[OF assms(2)]]
  by (auto simp: convert_graph_const_tensor_def all_reads_def)

lemma readable_retype:
  assumes "readable drv en R g" "\<forall>p \<in> R. \<not> attr_vtl (t_attr (g_tensors g p))"
  shows "readable drv en R (g\<lparr>g_tensors := retype en S (g_tensors g)\<rparr>)"
proof -
  have R: "retype en S (g_tensors g) p = g_tensors g p" if "p \<in> R" for p
    using assms(2) that by (simp add: retype_def)
  have old: "p \<in> R \<and> (\<exists>n d. ShapeProduct (attr_size (t_attr (g_tensors g p))) (unat (attr_dim_num (t_attr (g_tensors g p)))) = Some n \<and>
      data_at drv g p = Some d \<and> unat n = length d)"
    if "GetTensor g t = Some p" "int8_attr en (t_attr (retype en S (g_tensors g) p))"
      "attr_is_const (t_attr (retype en S (g_tensors g) p))" for t p
  proof -
    have "int8_attr en (t_attr (g_tensors g p))" "attr_is_const (t_attr (g_tensors g p))"
      using that(2,3) by (auto simp: retype_def split: if_splits)
    then show ?thesis using assms(1) that(1) unfolding readable_def by blast
  qed
  show ?thesis
    unfolding readable_def
  proof (intro conjI ballI allI impI)
    show "inj_on (\<lambda>p. t_vx (g_tensors (g\<lparr>g_tensors := retype en S (g_tensors g)\<rparr>) p)) R"
      using assms(1) R by (simp add: readable_def inj_on_def)
    show "data_at drv (g\<lparr>g_tensors := retype en S (g_tensors g)\<rparr>) p \<noteq> None" if "p \<in> R" for p
      using assms(1) R[OF that] that by (simp add: readable_def data_at_def)
  next
    fix t p
    let ?g = "g\<lparr>g_tensors := retype en S (g_tensors g)\<rparr>"
    assume "GetTensor ?g t = Some p" "int8_attr en (t_attr (g_tensors ?g p))" "attr_is_const (t_attr (g_tensors ?g p))"
    then have o: "p \<in> R" "\<exists>n d. ShapeProduct (attr_size (t_attr (g_tensors g p))) (unat (attr_dim_num (t_attr (g_tensors g p)))) = Some n \<and>
      data_at drv g p = Some d \<and> unat n = length d"
      using old[of t p] by simp_all
    then show "p \<in> R" "\<exists>n d. ShapeProduct (attr_size (t_attr (g_tensors ?g p))) (unat (attr_dim_num (t_attr (g_tensors ?g p)))) = Some n \<and>
      data_at drv ?g p = Some d \<and> unat n = length d"
      using R by (simp_all add: data_at_def)
  qed
qed

subsection \<open>Tensors that are written once\<close>

lemma distinct_concat_index:
  "distinct (concat (map f nids)) \<Longrightarrow> i \<in> set nids \<Longrightarrow> j \<in> set nids \<Longrightarrow> t \<in> set (f i) \<Longrightarrow> t \<in> set (f j) \<Longrightarrow> i = j"
  by (induction nids) auto

lemma distinct_concat_part: "distinct (concat (map f nids)) \<Longrightarrow> i \<in> set nids \<Longrightarrow> distinct (f i)"
  by (induction nids) auto

lemma count_filter_distinct: "distinct (filter P ts) \<Longrightarrow> P t \<Longrightarrow> count_list ts t = (if t \<in> set ts then 1 else 0)"
  by (induction ts) (auto simp: count_list_0_iff split: if_splits)

lemma provider_sole:
  assumes room: "room m g" and d: "distinct (signed_ids en g (all_writes g))" and t: "t \<in> set (all_writes g) \<inter> norm_ids en g"
  shows "\<exists>w. get_tensor_provider g t = Some w \<and> sole_writer (node_ptrs g) g t w"
proof -
  let ?outs = "\<lambda>nid. n_outputs (g_nodes g (the (GetNode g nid)))" and ?ids = "ids_below (node_num g)"
  let ?f = "\<lambda>nid. signed_ids en g (?outs nid)"
  have writes: "all_writes g = concat (map ?outs ?ids)"
    using room_present[OF room] unfolding all_writes_def writes_of_def
    by (intro arg_cong[where f = concat] map_cong) (auto simp: node_at_id_def)
  have d': "distinct (concat (map ?f ?ids))" using d by (simp add: writes filter_concat comp_def)
  have "\<exists>nid \<in> set ?ids. t \<in> set (?outs nid)" using t by (auto simp: writes)
  then obtain nid w where w: "nid \<in> set ?ids" "GetNode g nid = Some w" "get_tensor_provider g t = Some w" "t \<in> set (n_outputs (g_nodes g w))"
    using provider_some[OF room_present[OF room]] unfolding get_tensor_provider_def by blast
  have "count_list (n_outputs (g_nodes g x)) t = (if x = w then 1 else 0)" if x: "x \<in> node_ptrs g" for x
  proof -
    obtain nid' where nid': "nid' \<in> set ?ids" "GetNode g nid' = Some x" using x by (auto simp: node_ptrs_def ids_below_simps)
    have "distinct (signed_ids en g (n_outputs (g_nodes g x)))" using distinct_concat_part[OF d' nid'(1)] nid'(2) by simp
    then have c: "count_list (n_outputs (g_nodes g x)) t = (if t \<in> set (n_outputs (g_nodes g x)) then 1 else 0)"
      using count_filter_distinct[of "\<lambda>t. t \<in> norm_ids en g"] t by blast
    have "nid' = nid" if "t \<in> set (n_outputs (g_nodes g x))"
      using distinct_concat_index[OF d' nid'(1) w(1), of t] that w(2,4) nid'(2) t by simp
    then have "t \<in> set (n_outputs (g_nodes g x)) \<longleftrightarrow> x = w" using w(2,4) nid'(2) by auto
    then show ?thesis using c by simp
  qed
  then show ?thesis using w by (auto simp: sole_writer_def node_ptrs_def ids_below_simps)
qed

subsection \<open>The rewritten graph\<close>

lemma norm_ids_same:
  assumes "nodes_kept g g'"
    and "\<And>p. t_attr (g_tensors g' p) = t_attr (g_tensors g p) \<or>
      \<not> int8_attr en (t_attr (g_tensors g' p)) \<and> (attr_vtl (t_attr (g_tensors g p)) \<or> attr_is_const (t_attr (g_tensors g p)))"
  shows "norm_ids en g' = norm_ids en g" "t \<in> norm_ids en g \<Longrightarrow> attr_at g' t = attr_at g t"
proof -
  have "is_int8_norm_tensor en (attr_at g' t) = is_int8_norm_tensor en (attr_at g t) \<and> 
      (is_int8_norm_tensor en (attr_at g t) \<longrightarrow> attr_at g' t = attr_at g t)" for t
    using assms(2) by (cases "GetTensor g t") (force simp: attr_at_def nodes_kept_simps[OF assms(1)] int8_kinds)+
  then show "norm_ids en g' = norm_ids en g" "t \<in> norm_ids en g \<Longrightarrow> attr_at g' t = attr_at g t" by (auto simp: norm_ids_def)
qed

lemma room_less: "room m g \<Longrightarrow> n \<le> m \<Longrightarrow> room n g"
  by (auto simp: room_def)

lemma add_graph_dataconvert_ok:
  fixes F :: "ptr \<Rightarrow> 'v list \<Rightarrow> 'v list \<Rightarrow> bool"
  assumes room: "room (length (all_reads g) + length (all_writes g)) g" and mem: "\<forall>a. mem a"
    and sup: "supplies create new P T Q N" and fr: "fresh_memory P Q g" and F: "\<And>k x y. F (Q k) [x] [y] \<longleftrightarrow> x = y"
    and d: "distinct (signed_ids en g (all_writes g))"
  shows "\<exists>k g'. add_graph_dataconvert_for_int8 mem create new en dirty g =
      Some (VSI_SUCCESS, dirty \<or> (set (all_reads g) \<union> set (all_writes g)) \<inter> norm_ids en g \<noteq> {}, g') \<and>
    converted F en P Q g k g' \<and> graph_inv g' \<and> (\<forall>x \<in> node_ptrs g. slots (g_nodes g' x) \<inter> norm_ids en g = {})"
proof -
  let ?dirty = "dirty \<or> set (all_reads g) \<inter> norm_ids en g \<noteq> {}"
  obtain ids where ins: "collect_inputs mem en g dirty = Some (Inr (map (\<lambda>t. (t, fst (get_tensor_consumers g t))) ids, ?dirty))"
    and ids: "distinct ids" "set ids = set (all_reads g) \<inter> norm_ids en g" "length ids \<le> length (signed_ids en g (all_reads g))"
    using collect_inputs_ok[OF room mem, of en dirty] by auto
  let ?ins = "map (\<lambda>t. (t, fst (get_tensor_consumers g t))) ids"
  let ?ws = "signed_ids en g (all_writes g)"
  let ?outs = "map (\<lambda>t. (t, get_tensor_provider g t)) ?ws"
  have "length ids \<le> length (all_reads g)" using ids(3) by (rule le_trans) (rule length_filter_le)
  then have rm: "room (length ?ins + length ?outs) g"
    unfolding length_map by (rule room_less[OF room add_mono]) (rule length_filter_le)
  have ne: "fst (get_tensor_consumers g t) \<noteq> []" if "t \<in> set ids" for t
    using that ids(2) consumers_set(1)[OF room, of t] slots_lists(1)[OF room] by (cases "get_tensor_consumers g t") auto
  obtain g1 where g1: "convert_inputs create new 0 ?ins g = Some (length ids, g1)" "converted F en P Q g (length ids) g1"
    "room (length ?outs) g1" "\<forall>x \<in> node_ptrs g. set (n_inputs (g_nodes g1 x)) \<inter> norm_ids en g = {} \<and> n_outputs (g_nodes g1 x) = n_outputs (g_nodes g x)"
    using convert_inputs_ok[where F = F and rest = ?ins and k = 0 and g = g and m = "length ?outs" and en = en, OF sup fr room F converted_refl[OF room] rm]
      ids ne slots_lists(1)[OF room] by (auto simp: comp_def image_image)
  have sw: "\<exists>w. get_tensor_provider g t = Some w \<and> sole_writer (node_ptrs g) g1 t w" if "t \<in> set ?ws" for t
    using provider_sole[OF room d, of t] that g1(4) by (auto simp: sole_writer_def)
  obtain g2 where g2: "convert_outputs create new (length ids) ?outs g1 = Some (length ids + length ?ws, g2)"
    "converted F en P Q g (length ids + length ?ws) g2" "room 0 g2"
    "\<forall>x \<in> node_ptrs g. set (n_outputs (g_nodes g2 x)) \<inter> norm_ids en g = {} \<and> n_inputs (g_nodes g2 x) = n_inputs (g_nodes g1 x)"
    using convert_outputs_ok[where F = F and rest = ?outs and m = 0 and en = en and g = g1, OF sup fr room F g1(2)] g1(3,4)
      d sw slots_lists(2)[OF room] by (auto simp: comp_def image_image)
  have outs: "collect_outputs mem en g ?dirty = Some (Inr (?outs, ?dirty \<or> set (all_writes g) \<inter> norm_ids en g \<noteq> {}))"
    by (rule collect_outputs_ok[OF room mem])
  have "slots (g_nodes g2 x) \<inter> norm_ids en g = {}" if "x \<in> node_ptrs g" for x
    using that g1(4) g2(4) by (auto simp: slots_def)
  moreover have "graph_inv g2" using g2(3) by (simp add: room_def)
  moreover have "add_graph_dataconvert_for_int8 mem create new en dirty g =
      Some (VSI_SUCCESS, dirty \<or> (set (all_reads g) \<union> set (all_writes g)) \<inter> norm_ids en g \<noteq> {}, g2)"
  proof -
    have "(?dirty \<or> set (all_writes g) \<inter> norm_ids en g \<noteq> {}) =
      (dirty \<or> (set (all_reads g) \<union> set (all_writes g)) \<inter> norm_ids en g \<noteq> {})" by blast
    then show ?thesis
      by (simp only: add_graph_dataconvert_for_int8_def ins outs g1(1) g2(1) Option.bind.simps sum.case prod.case fst_conv snd_conv)
  qed
  ultimately show ?thesis using g2(2) by blast
qed

text \<open>The attributes after the first two passes; \<open>convert_int8_to_uint8\<close> goes on with the third.\<close>

definition retyped :: "int \<Rightarrow> 's graph \<Rightarrow> 's graph \<Rightarrow> bool" where
  "retyped en g g' \<longleftrightarrow> nodes_kept g g' \<and> (\<forall>p. t_attr (g_tensors g' p) =
     (let a = t_attr (g_tensors g p) in
      if int8_attr en a \<and> (attr_vtl a \<and> p \<in> ptrs_of g (all_reads g @ all_writes g) \<or> attr_is_const a \<and> p \<in> ptrs_of g (all_reads g))
      then convert_attr a else a))"

lemma retyping_passes:
  assumes drv: "drv_ok drv" "readable drv en R g" "\<forall>p \<in> R. \<not> attr_vtl (t_attr (g_tensors g p))" and room: "room m g"
  shows "\<exists>g'. retyped en g g' \<and> convert_int8_to_uint8 drv mem create new en dirty g =
    add_graph_dataconvert_for_int8 mem create new en dirty g'"
proof -
  let ?S = "ptrs_of g (all_reads g @ all_writes g)"
  define g1 where "g1 = g\<lparr>g_tensors := retype en ?S (g_tensors g)\<rparr>"
  have v: "convert_graph_virtual_tensor en g = (VSI_SUCCESS, g1)" using virtual_pass[OF room] by (simp add: g1_def)
  have sn1: "nodes_kept g g1" by (simp add: nodes_kept_def g1_def)
  note e1 = nodes_kept_simps[OF sn1]
  have "room m g1" using room e1 by simp
  then obtain g2 where c: "convert_graph_const_tensor drv en g1 = Some (VSI_SUCCESS, g2)" "const_done drv en R g1 (ptrs_of g1 (all_reads g1)) g2"
    using const_pass[OF drv(1)] readable_retype[OF drv(2,3), of ?S] unfolding g1_def by blast
  have sn: "nodes_kept g g2"
  proof -
    have "g2 = g1\<lparr>g_tensors := g_tensors g2, g_ext := g_ext g2\<rparr>" using c(2) unfolding const_done_def by blast
    then obtain th s where "g2 = g\<lparr>g_tensors := th, g_ext := s\<rparr>" unfolding g1_def by simp
    then show ?thesis by (simp add: nodes_kept_def)
  qed
  note e = nodes_kept_simps[OF sn]
  have rd: "ptrs_of g1 (all_reads g1) = ptrs_of g (all_reads g)" using e1 by (simp add: ptrs_of_def)
  have "retyped en g g2"
    using c(2)[unfolded const_done_def rd] sn by (auto simp: retyped_def Let_def flips_def g1_def retype_def)
  then show ?thesis using v c(1) by (auto simp: convert_int8_to_uint8_def)
qed

lemma retyped_norm_ids:
  assumes "retyped en g g'"
  shows "norm_ids en g' = norm_ids en g" "t \<in> norm_ids en g \<Longrightarrow> attr_at g' t = attr_at g t"
proof -
  have k: "t_attr (g_tensors g' p) = t_attr (g_tensors g p) \<or>
      \<not> int8_attr en (t_attr (g_tensors g' p)) \<and> (attr_vtl (t_attr (g_tensors g p)) \<or> attr_is_const (t_attr (g_tensors g p)))" for p
    using assms by (auto simp: retyped_def Let_def)
  have n: "nodes_kept g g'" using assms by (simp add: retyped_def)
  show "norm_ids en g' = norm_ids en g" by (rule norm_ids_same(1)[OF n k])
  show "t \<in> norm_ids en g \<Longrightarrow> attr_at g' t = attr_at g t" by (rule norm_ids_same(2)[OF n k])
qed

text \<open>A signed tensor in a slot is one of the user's tensors.\<close>

lemma retyped_slot:
  assumes "retyped en g g'" "attr_at g' t = Some a" "int8_attr en a" "t \<in> set (all_reads g) \<union> set (all_writes g)"
    and const: "\<forall>t \<in> set (all_writes g). \<not> is_int8_const_tensor en (attr_at g t)"
  shows "t \<in> norm_ids en g"
proof -
  have sn: "nodes_kept g g'" using assms(1) by (simp add: retyped_def)
  obtain q where q: "GetTensor g t = Some q" "a = t_attr (g_tensors g' q)"
    using assms(2) nodes_kept_simps(1)[OF sn] by (auto simp: attr_at_def)
  have S: "q \<in> ptrs_of g (all_reads g @ all_writes g)" using q(1) assms(4) by (auto simp: ptrs_of_def)
  have a: "a = t_attr (g_tensors g q)" "\<not> attr_vtl a" "\<not> (attr_is_const a \<and> q \<in> ptrs_of g (all_reads g))"
    using assms(1,3) q(2) S by (auto simp: retyped_def Let_def split: if_splits)
  have "\<not> attr_is_const a"
  proof
    assume k: "attr_is_const a"
    then have "t \<in> set (all_writes g)" using assms(4) a(3) q(1) by (auto simp: ptrs_of_def)
    then show False using const assms(3) k a(1) q(1) by (auto simp: attr_at_def int8_kinds)
  qed
  then show ?thesis using assms(3) a q(1) by (simp add: norm_ids_def attr_at_def int8_kinds)
qed

lemma find_nbg_none:
  "\<forall>nid \<in> set nids. \<exists>n. node_at_id g nid = Some n \<and> n_op n \<noteq> OP_NBG_CODE \<Longrightarrow> find_nbg g nids = Some False"
  by (induction nids) auto


text \<open>
  C18: A failed allocation is not reported. When the first block of identifiers cannot be allocated,
  \<open>vsi_nn_OptimizeGraph\<close> still returns success; the virtual and constant tensors of its graph are
  unsigned, while the nodes go on to read the signed tensors of the user, without a conversion.
\<close>

theorem optimize_alloc_failure:
  assumes "en \<noteq> 0" "\<forall>nid \<in> set (ids_below (node_num g)). \<exists>n. node_at_id g nid = Some n \<and> n_op n \<noteq> OP_NBG_CODE"
    and drv: "drv_ok drv" "readable drv en R g" "\<forall>p \<in> R. \<not> attr_vtl (t_attr (g_tensors g p))"
    and const: "\<forall>t \<in> set (all_writes g). \<not> is_int8_const_tensor en (attr_at g t)"
    and room: "room m g" and mem: "\<not> mem Alloc_ids" and t: "set (all_reads g) \<inter> norm_ids en g \<noteq> {}"
  shows "\<exists>g'. OptimizeGraph drv mem create new en dirty g = Some (VSI_SUCCESS, dirty, g') \<and> nodes_kept g g' \<and>
    {t \<in> set (all_reads g) \<union> set (all_writes g). \<exists>a. attr_at g' t = Some a \<and> int8_attr en a} =
      (set (all_reads g) \<union> set (all_writes g)) \<inter> norm_ids en g"
proof -
  obtain g2 where g2: "retyped en g g2" and o: "convert_int8_to_uint8 drv mem create new en dirty g =
      add_graph_dataconvert_for_int8 mem create new en dirty g2"
    using retyping_passes[OF drv room] by blast
  have sn: "nodes_kept g g2" using g2 by (simp add: retyped_def)
  note e = nodes_kept_simps[OF sn] and same = retyped_norm_ids[OF g2]
  have "room m g2" using room e by simp
  then have "norm_inputs en g2 None (ids_below (node_num g2)) (0, []) = norm_input_ids en g2 None (all_reads g2) (0, [])"
    unfolding all_reads_def by (intro norm_inputs_eq room_nodes)
  then have "norm_inputs en g2 None (ids_below (node_num g2)) (0, []) = Some (length (signed_ids en g (all_reads g)), [])"
    by (simp only: norm_input_ids_count add_0 e(9) same(1))
  moreover have "signed_ids en g (all_reads g) \<noteq> []" using t by (auto simp: filter_empty_conv)
  ultimately have "collect_inputs mem en g2 dirty = Some (Inl dirty)" using mem by (simp add: collect_inputs_def)
  then have "OptimizeGraph drv mem create new en dirty g = Some (VSI_SUCCESS, dirty, g2)"
    using assms(1) find_nbg_none[OF assms(2)] o by (simp add: OptimizeGraph_def add_graph_dataconvert_for_int8_def)
  moreover have "(\<exists>a. attr_at g2 t = Some a \<and> int8_attr en a) \<longleftrightarrow> t \<in> norm_ids en g"
    if "t \<in> set (all_reads g) \<union> set (all_writes g)" for t
  proof
    show "t \<in> norm_ids en g" if a: "\<exists>a. attr_at g2 t = Some a \<and> int8_attr en a"
      using a retyped_slot[OF g2 _ _ \<open>t \<in> set (all_reads g) \<union> set (all_writes g)\<close> const] by blast
    assume t: "t \<in> norm_ids en g"
    then have "is_int8_norm_tensor en (attr_at g2 t)" using same(2)[OF t] by (simp add: norm_ids_def)
    then show "\<exists>a. attr_at g2 t = Some a \<and> int8_attr en a" by (cases "attr_at g2 t") (auto simp: int8_kinds)
  qed
  ultimately show ?thesis using sn by blast
qed

subsection \<open>The sample graph\<close>

definition spare_tensor :: "nat \<Rightarrow> create_fn" where
  "spare_tensor k kind a d = Some (200 + k, \<lparr>t_attr = a, t_vx = None, t_swapped = False\<rparr>)"

definition spare_node :: "nat \<Rightarrow> (ptr \<times> vnode) option" where
  "spare_node k = Some (100 + k, sample_node [] [])"

text \<open>The nodes of the sample graph add what they read; a conversion is the identity.\<close>

definition adds :: "ptr \<Rightarrow> int list \<Rightarrow> int list \<Rightarrow> bool" where
  "adds p ins outs \<longleftrightarrow> outs = (if 100 \<le> p then ins else [sum_list ins])"

lemma node_ptrs_ids: "node_ptrs g = {p. \<exists>nid \<in> set (ids_below (node_num g)). GetNode g nid = Some p}"
  by (simp add: node_ptrs_def ids_below_simps)

lemma int8_graph_lists:
  "node_ptrs int8_graph = {1, 2}" "tensor_ptrs int8_graph = {20, 21, 22, 23}"
  "all_reads int8_graph = [0, 1, 3, 0]" "all_writes int8_graph = [3, 2]" "norm_ids 1 int8_graph = {0, 2}"
proof -
  show "node_ptrs int8_graph = {1, 2}" unfolding node_ptrs_ids int8_graph_fields(5) by (auto simp: int8_graph_fields)
  show "tensor_ptrs int8_graph = {20, 21, 22, 23}"
  proof (intro set_eqI iffI)
    fix p assume "p \<in> tensor_ptrs int8_graph"
    then obtain t where "GetTensor int8_graph t = Some p" by (auto simp: tensor_ptrs_def)
    then show "p \<in> {20, 21, 22, 23}" unfolding int8_graph_fields(1) by (simp split: if_splits)
  next
    have "GetTensor int8_graph 0 = Some 20" "GetTensor int8_graph 1 = Some 21" "GetTensor int8_graph 2 = Some 22"
      "GetTensor int8_graph 3 = Some 23"
      unfolding int8_graph_fields(1) by simp_all
    then show "p \<in> tensor_ptrs int8_graph" if "p \<in> {20, 21, 22, 23}" for p using that by (auto simp: tensor_ptrs_def)
  qed
  show "all_reads int8_graph = [0, 1, 3, 0]" "all_writes int8_graph = [3, 2]"
    unfolding all_reads_def all_writes_def int8_graph_fields(5)
    by (simp_all add: reads_of_def writes_of_def node_at_id_def int8_graph_fields sample_node_def)
  have "t \<in> norm_ids 1 int8_graph \<longleftrightarrow> t = 0 \<or> t = 2" for t
    by (simp add: norm_ids_def attr_at_def int8_graph_fields int8_kinds int8_graph_attr)
  then show "norm_ids 1 int8_graph = {0, 2}" by blast
qed

lemma int8_graph_room: "room 6 int8_graph"
proof -
  have "graph_inv int8_graph"
    by (simp add: graph_inv_def int8_graph_def CreateGraph_def map_inv_Add map_inv_Init keys_Add) (simp add: MapInit_def)
  moreover have "\<forall>nid < node_num int8_graph. GetNode int8_graph nid \<noteq> None"
  proof (intro allI impI)
    fix nid assume "nid < node_num int8_graph"
    then have "nid \<in> set (ids_below (node_num int8_graph))" by (simp add: ids_below_simps)
    then show "GetNode int8_graph nid \<noteq> None" unfolding int8_graph_fields(5) by (auto simp: int8_graph_fields)
  qed
  ultimately show ?thesis
    unfolding room_def int8_graph_lists by (auto simp: int8_graph_fields sample_node_def split: if_splits)
qed

lemma int8_graph_nodes: "\<forall>nid \<in> set (ids_below (node_num int8_graph)). \<exists>n. node_at_id int8_graph nid = Some n \<and> n_op n \<noteq> OP_NBG_CODE"
  unfolding int8_graph_fields(5) by (simp add: int8_graph_fields node_at_id_def sample_node_def OP_NBG_CODE_def)

lemma int8_graph_kinds: "\<forall>p \<in> {21}. \<not> attr_vtl (t_attr (g_tensors int8_graph p))"
  "\<forall>t \<in> set (all_writes int8_graph). \<not> is_int8_const_tensor 1 (attr_at int8_graph t)"
  by (simp_all add: int8_graph_lists int8_graph_fields int8_graph_attr attr_at_def int8_kinds)


theorem optimize_alloc_failure_witness:
  "\<exists>g'. OptimizeGraph table_drv (\<lambda>a. a \<noteq> Alloc_ids) spare_tensor spare_node 1 False int8_graph = Some (VSI_SUCCESS, False, g') \<and>
    {t \<in> {0, 1, 2, 3}. \<exists>a. attr_at g' t = Some a \<and> int8_attr 1 a} = {0, 2}"
proof -
  have n: "set (all_reads int8_graph) \<inter> norm_ids 1 int8_graph \<noteq> {}" by (simp add: int8_graph_lists)
  have l: "set (all_reads int8_graph) \<union> set (all_writes int8_graph) = {0, 1, 2, 3}" by (auto simp: int8_graph_lists)
  show ?thesis
    using optimize_alloc_failure[where dirty = False and mem = "\<lambda>a. a \<noteq> Alloc_ids" and create = spare_tensor and new = spare_node,
        OF _ int8_graph_nodes table_drv_ok int8_graph_readable int8_graph_kinds int8_graph_room _ n]
    unfolding l int8_graph_lists(5) by auto
qed

end
