(* ===== verification/Internal_Node.thy ===== *)
theory Internal_Node
  imports Link_List Graph Dtype
begin

text \<open>
  Internal nodes of composite operations
  (\<^verbatim>\<open>src/tim/vx/internal/src/vsi_nn_internal_node.c\<close>): the workspace of a node, with its list of
  internal nodes, its list of internal tensors and the next identifier.

  The structs begin with their link fields, so their addresses are those of the cells of
  \<open>Link_List\<close>; what follows the links is kept in one partial map for each type of struct, and an
  access through a pointer of the wrong type is \<open>None\<close>. The workspace has no link fields, but its
  first two fields are the pointers \<open>nodes\<close> and \<open>tensors\<close>, at the offsets of \<open>prev\<close> and \<open>next\<close>:
  it is a cell as well, because \<open>vsi_nn_internal_optimize_node\<close> passes it to the list functions.

  The functions of the operations, the creation and release of tensors and the driver are the
  record \<open>iops\<close>; \<open>iw_ext\<close> stands for the state they keep. A tensor is its address.
\<close>

record inode =
  in_node :: ptr
  in_inputs :: "ptr option list"
  in_outputs :: "ptr option list"
  in_param :: "addr option"

record 's iworld =
  iw_links :: heap
  iw_inodes :: "addr \<Rightarrow> inode option"
  iw_itensors :: "addr \<Rightarrow> ptr option"
  iw_params :: "addr \<Rightarrow> uint8 list option"
  iw_uids :: "addr \<Rightarrow> 32 word option"
  iw_nodes :: "ptr \<Rightarrow> vnode option"
  iw_wksp :: "ptr \<Rightarrow> addr option"
  iw_ext :: 's

text \<open>Codes of \<^verbatim>\<open>include/interface/ops.def\<close>.\<close>

definition OP_CONV2D :: int where "OP_CONV2D = 2"
definition OP_CONV_RELU :: int where "OP_CONV_RELU = 3"
definition OP_CONV_RELU_POOL :: int where "OP_CONV_RELU_POOL = 4"
definition OP_GROUPED_CONV2D :: int where "OP_GROUPED_CONV2D = 105"

text \<open>Element types with their quantization; \<open>'f\<close> is the type of floating point numbers.\<close>

datatype 'f qnt =
    Qnt_none
  | Qnt_dfp "8 word"
  | Qnt_asymmetric "32 word" 'f
  | Qnt_symmetric "32 word" 'f
  | Qnt_float8 "32 word" 'f
  | Qnt_other int

record 'f iattr =
  ia_size :: "vsi_size_t list"
  ia_dim_num :: uint32
  ia_vtl :: bool
  ia_is_const :: bool
  ia_vx_type :: vsi_nn_type
  ia_qnt :: "'f qnt"

record ('s, 'f) iops =
  i_valid :: "int \<Rightarrow> bool"
  i_init :: "ptr \<Rightarrow> 's iworld \<Rightarrow> 's iworld"
  i_io_num :: "int \<Rightarrow> ptr \<Rightarrow> 's iworld \<Rightarrow> uint32 \<times> uint32"
  i_deinit :: "ptr \<Rightarrow> 's iworld \<Rightarrow> vsi_status \<times> 's iworld"
  i_setup :: "ptr \<Rightarrow> ptr option list \<Rightarrow> ptr option list \<Rightarrow> 's iworld \<Rightarrow> bool \<times> 's iworld"
  i_check :: "ptr \<Rightarrow> ptr option list \<Rightarrow> ptr option list \<Rightarrow> 's iworld \<Rightarrow> bool \<times> 's iworld"
  i_optimize ::
    "opt_direction \<Rightarrow> ptr \<Rightarrow> ptr option list \<Rightarrow> ptr option list \<Rightarrow> 's iworld \<Rightarrow> vsi_status \<times> 's iworld"
  i_compute :: "ptr \<Rightarrow> ptr option list \<Rightarrow> ptr option list \<Rightarrow> 's iworld \<Rightarrow> vsi_status \<times> 's iworld"
  i_create_tensor :: "'f iattr \<Rightarrow> 'f option \<Rightarrow> 's iworld \<Rightarrow> ptr option \<times> 's iworld"
  i_release_tensor :: "ptr \<Rightarrow> 's iworld \<Rightarrow> 's iworld"
  i_tensor_vx :: "ptr \<Rightarrow> 's iworld \<Rightarrow> ptr option"
  i_reinit :: "ptr \<Rightarrow> 's iworld \<Rightarrow> 's iworld"
  i_name_tensor :: "ptr \<Rightarrow> uint32 \<Rightarrow> uint32 \<Rightarrow> nat \<Rightarrow> 's iworld \<Rightarrow> vsi_status \<times> 's iworld"
  i_update_attr :: "ptr \<Rightarrow> 's iworld \<Rightarrow> vsi_status \<times> 's iworld"
  i_is_virtual :: "ptr \<Rightarrow> 's iworld \<Rightarrow> bool"
  i_save_tensor :: "ptr \<Rightarrow> uint32 \<Rightarrow> uint32 \<Rightarrow> nat \<Rightarrow> 's iworld \<Rightarrow> 's iworld"

subsection \<open>Nodes\<close>

text \<open>
  \<open>vsi_nn_NewNode\<close> with its three allocations: the node (its address), the output and the input
  identifiers. When one of the latter fails the node is freed, but the operation is not
  deinitialised. \<open>vsi_nn_ReleaseNode\<close> does both.
\<close>

record node_mem =
  nm_self :: "ptr option"
  nm_outputs :: bool
  nm_inputs :: bool

definition new_vnode ::
  "('s, 'f) iops \<Rightarrow> node_mem \<Rightarrow> int \<Rightarrow> uint32 \<Rightarrow> uint32 \<Rightarrow> 's iworld \<Rightarrow> ptr option \<times> 's iworld" where
  "new_vnode ops mem opc input_num output_num w =
     (case (if i_valid ops opc then nm_self mem else None) of
        None \<Rightarrow> (None, w)
      | Some p \<Rightarrow>
          (let w1 = w\<lparr>iw_nodes := (iw_nodes w)(p \<mapsto> \<lparr>n_op = opc, n_inputs = [], n_outputs = [], n_uid = 0\<rparr>),
                      iw_wksp := (iw_wksp w)(p := None)\<rparr>;
               w2 = i_init ops p w1;
               (ni, no) = (if input_num = 0 \<and> output_num = 0 then i_io_num ops opc p w2
                           else (input_num, output_num))
           in if \<not> nm_outputs mem \<or> \<not> nm_inputs mem then (None, w2\<lparr>iw_nodes := (iw_nodes w2)(p := None)\<rparr>)
              else (Some p, w2\<lparr>iw_nodes := (iw_nodes w2)(p \<mapsto>
                \<lparr>n_op = opc, n_inputs = replicate (unat ni) TENSOR_ID_NA,
                 n_outputs = replicate (unat no) TENSOR_ID_NA, n_uid = - 1\<rparr>)\<rparr>)))"

definition release_vnode :: "('s, 'f) iops \<Rightarrow> ptr \<Rightarrow> 's iworld \<Rightarrow> 's iworld option" where
  "release_vnode ops p w =
     (let w1 = snd (i_deinit ops p w)
      in if iw_nodes w1 p = None then None else Some (w1\<lparr>iw_nodes := (iw_nodes w1)(p := None)\<rparr>))"

subsection \<open>Internal nodes\<close>

definition free_inode :: "addr \<Rightarrow> 's iworld \<Rightarrow> 's iworld" where
  "free_inode a w = w\<lparr>iw_links := (iw_links w)(a := None), iw_inodes := (iw_inodes w)(a := None)\<rparr>"

definition free_params :: "addr list \<Rightarrow> 's iworld \<Rightarrow> 's iworld" where
  "free_params as w = w\<lparr>iw_params := (iw_params w) |` (- set as)\<rparr>"

text \<open>
  The pointer arrays live and die with the struct that owns them. (An array of no entries is not
  freed by the code; whether \<open>malloc\<close> gives a block for it is up to the platform.)
\<close>

definition internal_release_node :: "('s, 'f) iops \<Rightarrow> addr option \<Rightarrow> 's iworld \<Rightarrow> 's iworld option" where
  "internal_release_node ops node w =
     (case node of
        None \<Rightarrow> Some w
      | Some a \<Rightarrow> do {
          n \<leftarrow> iw_inodes w a;
          r \<leftarrow> LinkListDeinit (iw_links w) (in_param n);
          w1 \<leftarrow> release_vnode ops (in_node n) (free_params (snd r) (w\<lparr>iw_links := fst r\<rparr>));
          Some (free_inode a w1) })"

record inode_mem =
  im_self :: "addr option"
  im_node :: node_mem
  im_inputs :: bool
  im_outputs :: bool

text \<open>
  \<open>memset\<close> leaves an unfinished struct without a node; it is released before it is used, so its
  fields have no representation.
\<close>

definition internal_create_node ::
  "('s, 'f) iops \<Rightarrow> inode_mem \<Rightarrow> int \<Rightarrow> uint32 \<Rightarrow> uint32 \<Rightarrow> 's iworld \<Rightarrow> (addr option \<times> 's iworld) option" where
  "internal_create_node ops mem opc input_num output_num w =
     (case im_self mem of
        None \<Rightarrow> Some (None, w)
      | Some a \<Rightarrow>
          (let w1 = w\<lparr>iw_links := (iw_links w)(a \<mapsto> \<lparr>ll_prev = None, ll_next = None\<rparr>)\<rparr>;
               (n, w2) = new_vnode ops (im_node mem) opc input_num output_num w1
           in case n of
                None \<Rightarrow> Some (None, free_inode a w2)
              | Some p \<Rightarrow>
                  if im_inputs mem \<and> im_outputs mem then do {
                    v \<leftarrow> iw_nodes w2 p;
                    Some (Some a, w2\<lparr>iw_inodes := (iw_inodes w2)(a \<mapsto>
                      \<lparr>in_node = p, in_inputs = replicate (length (n_inputs v)) None,
                       in_outputs = replicate (length (n_outputs v)) None, in_param = None\<rparr>)\<rparr>) }
                  else do {
                    w3 \<leftarrow> release_vnode ops p w2;
                    Some (None, free_inode a w3) }))"

text \<open>The preload type that a new node inherits is part of \<open>iw_ext\<close>.\<close>

definition internal_new_node ::
  "('s, 'f) iops \<Rightarrow> inode_mem \<Rightarrow> int \<Rightarrow> uint32 \<Rightarrow> uint32 \<Rightarrow> 's iworld \<Rightarrow> (addr option \<times> 's iworld) option" where
  "internal_new_node ops mem opc input_num output_num w = internal_create_node ops mem opc input_num output_num w"

definition internal_new_node_param ::
  "addr option \<Rightarrow> addr option \<Rightarrow> nat \<Rightarrow> 's iworld \<Rightarrow> (addr option \<times> 's iworld) option" where
  "internal_new_node_param mem inode sz w =
     (case (inode, mem) of
        (Some a, Some q) \<Rightarrow> do {
          n \<leftarrow> iw_inodes w a;
          r \<leftarrow> LinkListPushEnd ((iw_links w)(q \<mapsto> \<lparr>ll_prev = None, ll_next = None\<rparr>)) (in_param n) (Some q);
          Some (Some q, w\<lparr>iw_links := fst r, iw_params := (iw_params w)(q \<mapsto> replicate sz 0),
                          iw_inodes := (iw_inodes w)(a \<mapsto> n\<lparr>in_param := snd r\<rparr>)\<rparr>) }
      | _ \<Rightarrow> Some (None, w))"

subsection \<open>The workspace\<close>

text \<open>\<open>WKSP(node)->nodes\<close> and \<open>WKSP(node)->tensors\<close> are the first two fields.\<close>

definition wksp_cell :: "ptr \<Rightarrow> 's iworld \<Rightarrow> (addr \<times> link) option" where
  "wksp_cell p w = do { a \<leftarrow> iw_wksp w p; l \<leftarrow> iw_links w a; Some (a, l) }"

definition append_node :: "ptr \<Rightarrow> addr \<Rightarrow> 's iworld \<Rightarrow> 's iworld option" where
  "append_node p item w = do {
     c \<leftarrow> wksp_cell p w;
     r \<leftarrow> LinkListPushEnd (iw_links w) (ll_prev (snd c)) (Some item);
     h \<leftarrow> set_prev (fst r) (fst c) (snd r);
     Some (w\<lparr>iw_links := h\<rparr>) }"

definition append_tensor :: "ptr \<Rightarrow> addr \<Rightarrow> 's iworld \<Rightarrow> 's iworld option" where
  "append_tensor p item w = do {
     c \<leftarrow> wksp_cell p w;
     r \<leftarrow> LinkListPushEnd (iw_links w) (ll_next (snd c)) (Some item);
     h \<leftarrow> set_next (fst r) (fst c) (snd r);
     Some (w\<lparr>iw_links := h\<rparr>) }"

definition internal_release_tensor :: "('s, 'f) iops \<Rightarrow> addr option \<Rightarrow> 's iworld \<Rightarrow> 's iworld option" where
  "internal_release_tensor ops tensor w =
     (case tensor of
        None \<Rightarrow> Some w
      | Some a \<Rightarrow> do {
          t \<leftarrow> iw_itensors w a;
          let w1 = i_release_tensor ops t w;
          Some (w1\<lparr>iw_links := (iw_links w1)(a := None), iw_itensors := (iw_itensors w1)(a := None)\<rparr>) })"

text \<open>A struct whose tensor could not be created is freed again.\<close>

definition internal_create_tensor ::
  "('s, 'f) iops \<Rightarrow> addr option \<Rightarrow> 'f iattr \<Rightarrow> 'f \<Rightarrow> 's iworld \<Rightarrow> addr option \<times> 's iworld" where
  "internal_create_tensor ops mem attr default_value w =
     (case mem of
        None \<Rightarrow> (None, w)
      | Some a \<Rightarrow>
          (let w1 = w\<lparr>iw_links := (iw_links w)(a \<mapsto> \<lparr>ll_prev = None, ll_next = None\<rparr>)\<rparr>;
               (t, w2) = i_create_tensor ops attr (if ia_is_const attr then Some default_value else None) w1
           in case t of
                None \<Rightarrow> (None, w2\<lparr>iw_links := (iw_links w2)(a := None)\<rparr>)
              | Some p \<Rightarrow> (Some a, w2\<lparr>iw_itensors := (iw_itensors w2)(a \<mapsto> p)\<rparr>)))"

definition internal_new_tensor ::
  "('s, 'f) iops \<Rightarrow> addr option \<Rightarrow> ptr \<Rightarrow> 'f iattr \<Rightarrow> 'f \<Rightarrow> 's iworld \<Rightarrow> (addr option \<times> 's iworld) option" where
  "internal_new_tensor ops mem p attr default_value w =
     (let (t, w1) = internal_create_tensor ops mem attr default_value w
      in case t of
           None \<Rightarrow> Some (None, w1)
         | Some a \<Rightarrow> map_option (Pair (Some a)) (append_tensor p a w1))"

text \<open>
  A bias of zeros for the weights of a node. \<open>mul\<close> multiplies floating point numbers; \<open>one\<close> and
  \<open>zero\<close> are 1.0 and 0.0. The types are compared by their \<open>qnt_type\<close>.
\<close>

fun qnt_type :: "'f qnt \<Rightarrow> int" where
  "qnt_type Qnt_none = 0"
| "qnt_type (Qnt_dfp _) = 1"
| "qnt_type (Qnt_asymmetric _ _) = 2"
| "qnt_type (Qnt_symmetric _ _) = 4"
| "qnt_type (Qnt_float8 _ _) = 6"
| "qnt_type (Qnt_other n) = n"

fun qnt_scale :: "'f \<Rightarrow> 'f qnt \<Rightarrow> 'f" where
  "qnt_scale one (Qnt_asymmetric _ s) = s"
| "qnt_scale one (Qnt_symmetric _ s) = s"
| "qnt_scale one (Qnt_float8 _ s) = s"
| "qnt_scale one _ = one"

fun qnt_fl :: "'f qnt \<Rightarrow> 8 word" where
  "qnt_fl (Qnt_dfp fl) = fl"
| "qnt_fl _ = 0"

fun bias_qnt :: "('f \<Rightarrow> 'f \<Rightarrow> 'f) \<Rightarrow> 'f \<Rightarrow> 'f qnt \<Rightarrow> 'f qnt \<Rightarrow> 'f qnt" where
  "bias_qnt mul one input (Qnt_asymmetric _ s) = Qnt_asymmetric 0 (mul s (qnt_scale one input))"
| "bias_qnt mul one input (Qnt_symmetric _ s) = Qnt_symmetric 0 (mul s (qnt_scale one input))"
| "bias_qnt mul one input (Qnt_float8 _ s) = Qnt_float8 0 (mul s (qnt_scale one input))"
| "bias_qnt mul one input (Qnt_dfp fl) = Qnt_dfp (fl + qnt_fl input)"
| "bias_qnt mul one input _ = Qnt_none"

definition is_conv :: "int \<Rightarrow> bool" where
  "is_conv opc = (opc \<in> {OP_CONV2D, OP_CONV_RELU, OP_CONV_RELU_POOL, OP_GROUPED_CONV2D})"

definition create_zero_bias_tensor ::
  "('s, 'f) iops \<Rightarrow> ('f \<Rightarrow> 'f \<Rightarrow> 'f) \<Rightarrow> 'f \<Rightarrow> 'f \<Rightarrow> addr option \<Rightarrow> ptr \<Rightarrow> 'f iattr \<Rightarrow> 'f iattr \<Rightarrow> int \<Rightarrow> bool \<Rightarrow> 's iworld
   \<Rightarrow> (addr option \<times> 's iworld) option" where
  "create_zero_bias_tensor ops mul one zero mem p input_attr weight_attr opc use_virtual_tensor w = do {
     n \<leftarrow> rd (ia_size weight_attr) (if is_conv opc then 3 else 1);
     if qnt_type (ia_qnt input_attr) \<noteq> 0 \<and> qnt_type (ia_qnt input_attr) \<noteq> qnt_type (ia_qnt weight_attr)
     then Some (None, w)
     else internal_new_tensor ops mem p
       \<lparr>ia_size = [n, 0, 0, 0, 0, 0, 0, 0], ia_dim_num = 1, ia_vtl = use_virtual_tensor,
        ia_is_const = (\<not> use_virtual_tensor),
        ia_vx_type = (if qnt_type (ia_qnt weight_attr) = 0 then TYPE_FLOAT32 else TYPE_INT32),
        ia_qnt = bias_qnt mul one (ia_qnt input_attr) (ia_qnt weight_attr)\<rparr> zero w }"

definition init_tensor_attr :: "vsi_nn_type \<Rightarrow> 'f qnt \<Rightarrow> bool \<Rightarrow> 'f iattr" where
  "init_tensor_attr vx_type qnt use_virtual_tensor =
     (let (ty, q) =
        (if qnt_type qnt = 0 \<and> vx_type \<noteq> TYPE_FLOAT16 \<and> vx_type \<noteq> TYPE_FLOAT32 \<and>
            vx_type \<noteq> TYPE_BFLOAT16 \<and> vx_type \<noteq> TYPE_INT32
         then (TYPE_FLOAT16, Qnt_none) else (vx_type, qnt))
      in \<lparr>ia_size = replicate 8 0, ia_dim_num = 0, ia_vtl = use_virtual_tensor, ia_is_const = False,
          ia_vx_type = ty, ia_qnt = q\<rparr>)"

partial_function (option) deinit_nodes_loop ::
  "('s, 'f) iops \<Rightarrow> addr option \<Rightarrow> 's iworld \<Rightarrow> 's iworld option" where
  "deinit_nodes_loop ops head w =
     (if head = None then Some w
      else Option.bind (LinkListPopStart (iw_links w) head) (\<lambda>(h1, head1, cur).
        Option.bind (internal_release_node ops cur (w\<lparr>iw_links := h1\<rparr>)) (\<lambda>w1.
        deinit_nodes_loop ops head1 w1)))"

partial_function (option) deinit_tensors_loop ::
  "('s, 'f) iops \<Rightarrow> addr option \<Rightarrow> 's iworld \<Rightarrow> 's iworld option" where
  "deinit_tensors_loop ops head w =
     (if head = None then Some w
      else Option.bind (LinkListPopStart (iw_links w) head) (\<lambda>(h1, head1, cur).
        Option.bind (internal_release_tensor ops cur (w\<lparr>iw_links := h1\<rparr>)) (\<lambda>w1.
        deinit_tensors_loop ops head1 w1)))"

text \<open>
  Each list is read from the workspace when its loop starts; the fields themselves are not
  updated.
\<close>

definition internal_deinit_node_wksp ::
  "('s, 'f) iops \<Rightarrow> ptr \<Rightarrow> 's iworld \<Rightarrow> 's iworld option" where
  "internal_deinit_node_wksp ops p w =
     (if iw_wksp w p = None then Some w
      else do {
        c \<leftarrow> wksp_cell p w;
        w1 \<leftarrow> deinit_nodes_loop ops (ll_prev (snd c)) w;
        c1 \<leftarrow> wksp_cell p w1;
        w2 \<leftarrow> deinit_tensors_loop ops (ll_next (snd c1)) w1;
        a \<leftarrow> iw_wksp w2 p;
        Some (w2\<lparr>iw_links := (iw_links w2)(a := None), iw_uids := (iw_uids w2)(a := None),
                 iw_wksp := (iw_wksp w2)(p := None)\<rparr>) })"

definition internal_init_node_wksp ::
  "('s, 'f) iops \<Rightarrow> addr option \<Rightarrow> ptr \<Rightarrow> 's iworld \<Rightarrow> (vsi_status \<times> 's iworld) option" where
  "internal_init_node_wksp ops mem p w = do {
     w1 \<leftarrow> (if iw_wksp w p \<noteq> None then internal_deinit_node_wksp ops p w else Some w);
     case mem of
       None \<Rightarrow> Some (VSI_FAILURE, w1)
     | Some a \<Rightarrow> Some (VSI_SUCCESS, w1\<lparr>iw_links := (iw_links w1)(a \<mapsto> \<lparr>ll_prev = None, ll_next = None\<rparr>),
                      iw_uids := (iw_uids w1)(a \<mapsto> 1), iw_wksp := (iw_wksp w1)(p \<mapsto> a)\<rparr>) }"

subsection \<open>Passes over the internal nodes\<close>

partial_function (option) uid_search :: "addr option \<Rightarrow> uint32 \<Rightarrow> 's iworld \<Rightarrow> addr option option" where
  "uid_search cur uid w =
     (case cur of
        None \<Rightarrow> Some None
      | Some a \<Rightarrow>
          Option.bind (iw_inodes w a) (\<lambda>n.
          Option.bind (iw_nodes w (in_node n)) (\<lambda>v.
          if n_uid v = uid then Some (Some a)
          else Option.bind (LinkListNext (iw_links w) (Some a)) (\<lambda>nxt. uid_search nxt uid w))))"

definition internal_get_node_by_uid :: "ptr \<Rightarrow> uint32 \<Rightarrow> 's iworld \<Rightarrow> addr option option" where
  "internal_get_node_by_uid p uid w =
     (if iw_wksp w p = None then Some None
      else do { c \<leftarrow> wksp_cell p w; uid_search (ll_prev (snd c)) uid w })"

definition internal_check_node ::
  "('s, 'f) iops \<Rightarrow> addr \<Rightarrow> 's iworld \<Rightarrow> (bool \<times> 's iworld) option" where
  "internal_check_node ops a w = do {
     n \<leftarrow> iw_inodes w a;
     Some (i_check ops (in_node n) (in_inputs n) (in_outputs n) w) }"

definition set_uid :: "ptr \<Rightarrow> uint32 \<Rightarrow> 's iworld \<Rightarrow> 's iworld option" where
  "set_uid q uid w = do {
     v \<leftarrow> iw_nodes w q;
     Some (w\<lparr>iw_nodes := (iw_nodes w)(q \<mapsto> v\<lparr>n_uid := uid\<rparr>)\<rparr>) }"

definition internal_setup_node ::
  "('s, 'f) iops \<Rightarrow> ptr \<Rightarrow> addr \<Rightarrow> 's iworld \<Rightarrow> (bool \<times> 's iworld) option" where
  "internal_setup_node ops p a w = do {
     n \<leftarrow> iw_inodes w a;
     let (retn, w1) = i_setup ops (in_node n) (in_inputs n) (in_outputs n) w;
     if retn then do {
       k \<leftarrow> iw_wksp w1 p;
       uid \<leftarrow> iw_uids w1 k;
       w2 \<leftarrow> set_uid (in_node n) uid w1;
       w3 \<leftarrow> append_node p a w2;
       internal_check_node ops a (w3\<lparr>iw_uids := (iw_uids w3)(k \<mapsto> uid + 1)\<rparr>) }
     else Some (retn, w1) }"

partial_function (option) deinit_ops_loop ::
  "('s, 'f) iops \<Rightarrow> addr option \<Rightarrow> vsi_status \<Rightarrow> 's iworld \<Rightarrow> (vsi_status \<times> 's iworld) option" where
  "deinit_ops_loop ops cur status w =
     (case cur of
        None \<Rightarrow> Some (status, w)
      | Some a \<Rightarrow>
          Option.bind (iw_inodes w a) (\<lambda>n.
          let (st, w1) = i_deinit ops (in_node n) w
          in if st \<noteq> VSI_SUCCESS then Some (st, w1)
             else Option.bind (LinkListNext (iw_links w1) (Some a)) (\<lambda>nxt. deinit_ops_loop ops nxt st w1)))"

definition internal_deinit_node ::
  "('s, 'f) iops \<Rightarrow> ptr \<Rightarrow> 's iworld \<Rightarrow> (vsi_status \<times> 's iworld) option" where
  "internal_deinit_node ops p w = do {
     c \<leftarrow> wksp_cell p w;
     deinit_ops_loop ops (ll_prev (snd c)) VSI_SUCCESS w }"

fun internal_reinit_outputs ::
  "('s, 'f) iops \<Rightarrow> ptr option list \<Rightarrow> nat \<Rightarrow> nat \<Rightarrow> 's iworld \<Rightarrow> 's iworld option" where
  "internal_reinit_outputs ops outs j 0 w = Some w"
| "internal_reinit_outputs ops outs j (Suc n) w = do {
     o1 \<leftarrow> rd outs j;
     internal_reinit_outputs ops outs (Suc j) n
       (case o1 of None \<Rightarrow> w | Some t \<Rightarrow> if i_tensor_vx ops t w \<noteq> None then w else i_reinit ops t w) }"

fun name_internal_outputs ::
  "('s, 'f) iops \<Rightarrow> uint32 \<Rightarrow> uint32 \<Rightarrow> ptr option list \<Rightarrow> nat \<Rightarrow> nat \<Rightarrow> 's iworld \<Rightarrow> (vsi_status \<times> 's iworld) option" where
  "name_internal_outputs ops uid sub outs j 0 w = Some (VSI_SUCCESS, w)"
| "name_internal_outputs ops uid sub outs j (Suc n) w = do {
     o1 \<leftarrow> rd outs j;
     case o1 of
       None \<Rightarrow> name_internal_outputs ops uid sub outs (Suc j) n w
     | Some t \<Rightarrow>
         if i_tensor_vx ops t w = None then name_internal_outputs ops uid sub outs (Suc j) n w
         else (let (st, w1) = i_name_tensor ops t uid sub j w
               in if st \<noteq> VSI_SUCCESS then Some (st, w1)
                  else name_internal_outputs ops uid sub outs (Suc j) n w1) }"

text \<open>One internal node of the compute pass: the status of its operation, and the state.\<close>

definition internal_compute_one ::
  "('s, 'f) iops \<Rightarrow> ptr \<Rightarrow> addr \<Rightarrow> 's iworld \<Rightarrow> (vsi_status \<times> 's iworld) option" where
  "internal_compute_one ops p a w = do {
     n \<leftarrow> iw_inodes w a;
     v \<leftarrow> iw_nodes w (in_node n);
     w1 \<leftarrow> internal_reinit_outputs ops (in_outputs n) 0 (length (n_outputs v)) w;
     u \<leftarrow> iw_nodes w1 p;
     r \<leftarrow> name_internal_outputs ops (n_uid u) (n_uid v) (in_outputs n) 0 (length (n_outputs v)) w1;
     Some (i_compute ops (in_node n) (in_inputs n) (in_outputs n) (snd r)) }"

partial_function (option) internal_compute_loop ::
  "('s, 'f) iops \<Rightarrow> ptr \<Rightarrow> addr option \<Rightarrow> vsi_status \<Rightarrow> 's iworld \<Rightarrow> (vsi_status \<times> 's iworld) option" where
  "internal_compute_loop ops p cur status w =
     (case cur of
        None \<Rightarrow> Some (status, w)
      | Some a \<Rightarrow>
          Option.bind (iw_inodes w a) (\<lambda>n.
          Option.bind (internal_compute_one ops p a w) (\<lambda>r.
          if fst r \<noteq> VSI_SUCCESS then Some r
          else (let (st, w2) = i_update_attr ops (in_node n) (snd r)
                in Option.bind (LinkListNext (iw_links w2) (Some a)) (\<lambda>nxt.
                   internal_compute_loop ops p nxt st w2)))))"

definition internal_compute_node ::
  "('s, 'f) iops \<Rightarrow> ptr \<Rightarrow> 's iworld \<Rightarrow> (vsi_status \<times> 's iworld) option" where
  "internal_compute_node ops p w = do {
     c \<leftarrow> wksp_cell p w;
     internal_compute_loop ops p (ll_prev (snd c)) VSI_SUCCESS w }"

text \<open>The workspace is passed to the list functions where a list of nodes is meant.\<close>

fun internal_backward_loop ::
  "('s, 'f) iops \<Rightarrow> ptr \<Rightarrow> nat \<Rightarrow> vsi_status \<Rightarrow> 's iworld \<Rightarrow> (vsi_status \<times> 's iworld) option" where
  "internal_backward_loop ops p 0 status w = Some (status, w)"
| "internal_backward_loop ops p (Suc i) status w = do {
     cur \<leftarrow> LinkListGetIndexNode (iw_links w) (iw_wksp w p) (of_nat i);
     case cur of
       None \<Rightarrow> Some (VSI_FAILURE, w)
     | Some a \<Rightarrow> do {
         n \<leftarrow> iw_inodes w a;
         let (st, w1) = i_optimize ops Backward (in_node n) (in_inputs n) (in_outputs n) w;
         if st \<noteq> VSI_SUCCESS then Some (st, w1) else internal_backward_loop ops p i st w1 } }"

partial_function (option) internal_forward_loop ::
  "('s, 'f) iops \<Rightarrow> addr option \<Rightarrow> vsi_status \<Rightarrow> 's iworld \<Rightarrow> (vsi_status \<times> 's iworld) option" where
  "internal_forward_loop ops cur status w =
     (case cur of
        None \<Rightarrow> Some (status, w)
      | Some a \<Rightarrow>
          Option.bind (iw_inodes w a) (\<lambda>n.
          let (st, w1) = i_optimize ops Forward (in_node n) (in_inputs n) (in_outputs n) w
          in if st \<noteq> VSI_SUCCESS then Some (st, w1)
             else Option.bind (LinkListNext (iw_links w1) (Some a)) (\<lambda>nxt. internal_forward_loop ops nxt st w1)))"

definition internal_optimize_node ::
  "('s, 'f) iops \<Rightarrow> ptr \<Rightarrow> opt_direction \<Rightarrow> 's iworld \<Rightarrow> (vsi_status \<times> 's iworld) option" where
  "internal_optimize_node ops p direction w = do {
     c \<leftarrow> wksp_cell p w;
     n \<leftarrow> LinkListGetNodeNumber (iw_links w) (Some (fst c));
     if direction = Backward then internal_backward_loop ops p (nat (sint n)) VSI_SUCCESS w
     else internal_forward_loop ops (ll_prev (snd c)) VSI_SUCCESS w }"

subsection \<open>Dumping the outputs\<close>

fun save_outputs ::
  "('s, 'f) iops \<Rightarrow> uint32 \<Rightarrow> uint32 \<Rightarrow> ptr option list \<Rightarrow> nat \<Rightarrow> nat \<Rightarrow> 's iworld \<Rightarrow> 's iworld option" where
  "save_outputs ops uid sub outs j 0 w = Some w"
| "save_outputs ops uid sub outs j (Suc n) w = do {
     o1 \<leftarrow> rd outs j;
     save_outputs ops uid sub outs (Suc j) n
       (case o1 of None \<Rightarrow> w
        | Some t \<Rightarrow> if i_is_virtual ops t w then w else i_save_tensor ops t uid sub j w) }"

text \<open>The loop takes the nodes off the list, through a copy of the pointer to its start.\<close>

partial_function (option) dump_loop ::
  "('s, 'f) iops \<Rightarrow> ptr \<Rightarrow> addr option \<Rightarrow> 's iworld \<Rightarrow> 's iworld option" where
  "dump_loop ops p head w =
     (if head = None then Some w
      else Option.bind (LinkListPopStart (iw_links w) head) (\<lambda>(h1, head1, cur).
        (case cur of
           None \<Rightarrow> dump_loop ops p head1 (w\<lparr>iw_links := h1\<rparr>)
         | Some a \<Rightarrow>
             Option.bind (iw_inodes w a) (\<lambda>n.
             Option.bind
               (if iw_wksp w (in_node n) \<noteq> None
                then Option.bind (wksp_cell (in_node n) (w\<lparr>iw_links := h1\<rparr>)) (\<lambda>c.
                     dump_loop ops (in_node n) (ll_prev (snd c)) (w\<lparr>iw_links := h1\<rparr>))
                else Option.bind (iw_nodes w (in_node n)) (\<lambda>v.
                     Option.bind (iw_nodes w p) (\<lambda>u.
                     save_outputs ops (n_uid u) (n_uid v) (in_outputs n) 0 (length (n_outputs v))
                       (w\<lparr>iw_links := h1\<rparr>))))
               (\<lambda>w1. dump_loop ops p head1 w1)))))"

definition internal_dump_node_output :: "('s, 'f) iops \<Rightarrow> ptr \<Rightarrow> 's iworld \<Rightarrow> 's iworld option" where
  "internal_dump_node_output ops p w = do { c \<leftarrow> wksp_cell p w; dump_loop ops p (ll_prev (snd c)) w }"

end
