(* ===== verification/Internal_Passes.thy ===== *)
theory Internal_Passes
  imports Internal_Node
begin

text \<open>
  What the operations on internal nodes (\<open>Internal_Node\<close>) do to the two lists of a workspace: the
  order of the passes, the numbers of the nodes, and two faults. The lemmas on lists
  are those of \<open>Link_List\<close>.
\<close>

subsection \<open>The lists of a workspace\<close>

definition wksp_rep :: "'s iworld \<Rightarrow> ptr \<Rightarrow> addr \<Rightarrow> addr list \<Rightarrow> addr list \<Rightarrow> bool" where
  "wksp_rep w p k xs ts \<longleftrightarrow>
     iw_wksp w p = Some k \<and> iw_links w k = Some \<lparr>ll_prev = first_ptr xs None, ll_next = first_ptr ts None\<rparr> \<and>
     dlist (iw_links w) xs \<and> dlist (iw_links w) ts \<and> k \<notin> set xs \<union> set ts \<and> set xs \<inter> set ts = {} \<and>
     set xs \<subseteq> dom (iw_inodes w) \<and> iw_inodes w k = None \<and> set ts \<inter> dom (iw_inodes w) = {} \<and>
     length xs < 2 ^ 31 \<and> length ts < 2 ^ 31 - 1"

text \<open>Steps that keep the lists, the identifiers and the set of live objects.\<close>

definition same_lists :: "'s iworld \<Rightarrow> 's iworld \<Rightarrow> bool" where
  "same_lists w w' \<longleftrightarrow> iw_links w' = iw_links w \<and> iw_inodes w' = iw_inodes w \<and> iw_itensors w' = iw_itensors w \<and>
     iw_params w' = iw_params w \<and> iw_uids w' = iw_uids w \<and> iw_wksp w' = iw_wksp w \<and> iw_nodes w' = iw_nodes w"

text \<open>
  Plain operations, which keep no workspace of their own: a composite operation makes one for its node
  when it is set up. No function of a plain operation but its release, which is not among these
  (\<open>Internal_Release\<close>), touches the structures of the node it belongs to.
\<close>

definition keeps_lists :: "('s, 'f) iops \<Rightarrow> bool" where
  "keeps_lists ops \<longleftrightarrow>
     (\<forall>p i o1 w. same_lists w (snd (i_setup ops p i o1 w))) \<and>
     (\<forall>p i o1 w. same_lists w (snd (i_check ops p i o1 w))) \<and>
     (\<forall>d p i o1 w. same_lists w (snd (i_optimize ops d p i o1 w))) \<and>
     (\<forall>p i o1 w. same_lists w (snd (i_compute ops p i o1 w))) \<and>
     (\<forall>t w. same_lists w (i_reinit ops t w)) \<and>
     (\<forall>t u s j w. same_lists w (snd (i_name_tensor ops t u s j w))) \<and>
     (\<forall>p w. same_lists w (snd (i_update_attr ops p w))) \<and>
     (\<forall>t u s j w. same_lists w (i_save_tensor ops t u s j w))"

lemma same_lists_refl [simp]: "same_lists w w"
  by (simp add: same_lists_def)

lemma same_lists_trans: "same_lists a b \<Longrightarrow> same_lists b c \<Longrightarrow> same_lists a c"
  by (simp add: same_lists_def)

lemma wksp_rep_same: "same_lists w w' \<Longrightarrow> wksp_rep w' p k xs ts = wksp_rep w p k xs ts"
  by (simp add: same_lists_def wksp_rep_def)

lemma keeps_listsD:
  assumes "keeps_lists ops"
  shows "i_setup ops p i o1 w = (ok, w') \<Longrightarrow> same_lists w w'"
    "i_check ops p i o1 w = (ok, w') \<Longrightarrow> same_lists w w'"
    "i_optimize ops d p i o1 w = (st, w') \<Longrightarrow> same_lists w w'"
    "i_compute ops p i o1 w = (st, w') \<Longrightarrow> same_lists w w'"
    "same_lists w (i_reinit ops t w)"
    "i_name_tensor ops t u s j w = (st, w') \<Longrightarrow> same_lists w w'"
    "i_update_attr ops p w = (st, w') \<Longrightarrow> same_lists w w'"
    "same_lists w (i_save_tensor ops t u s j w)"
  using assms unfolding keeps_lists_def by (metis snd_conv)+

text \<open>The node after a node of a list.\<close>

lemma next_in_list:
  "dlist h (us @ a # vs) \<Longrightarrow> LinkListNext h (Some a) = Some (first_ptr vs None)"
  by (simp add: dlist_def seg_append LinkListNext_def move_next_def)

subsection \<open>The optimization passes\<close>

text \<open>A pass stops at the first node whose step fails.\<close>

fun run_pass ::
  "(addr \<Rightarrow> 's iworld \<Rightarrow> (vsi_status \<times> 's iworld) option) \<Rightarrow> addr list \<Rightarrow> vsi_status \<Rightarrow> 's iworld
   \<Rightarrow> (vsi_status \<times> 's iworld) option" where
  "run_pass f [] status w = Some (status, w)"
| "run_pass f (a # as) status w = do {
     r \<leftarrow> f a w;
     if fst r \<noteq> VSI_SUCCESS then Some r else run_pass f as (fst r) (snd r) }"

definition optimize_one ::
  "('s, 'f) iops \<Rightarrow> opt_direction \<Rightarrow> addr \<Rightarrow> 's iworld \<Rightarrow> (vsi_status \<times> 's iworld) option" where
  "optimize_one ops d a w = do {
     n \<leftarrow> iw_inodes w a;
     Some (i_optimize ops d (in_node n) (in_inputs n) (in_outputs n) w) }"

lemma forward_pass:
  assumes k: "keeps_lists ops"
  shows "wksp_rep w p c (us @ xs) ts \<Longrightarrow>
    internal_forward_loop ops (first_ptr xs None) st w = run_pass (optimize_one ops Forward) xs st w"
proof (induction xs arbitrary: us st w)
  case Nil
  then show ?case by (subst internal_forward_loop.simps) simp
next
  case (Cons a xs)
  obtain n where n: "iw_inodes w a = Some n" using Cons.prems by (auto simp: wksp_rep_def)
  obtain st1 w1 where o1: "i_optimize ops Forward (in_node n) (in_inputs n) (in_outputs n) w = (st1, w1)" by fastforce
  have s: "same_lists w w1" using keeps_listsD(3)[OF k o1] .
  have r: "wksp_rep w1 p c ((us @ [a]) @ xs) ts" using Cons.prems wksp_rep_same[OF s] by simp
  have "LinkListNext (iw_links w1) (Some a) = Some (first_ptr xs None)"
    using r by (intro next_in_list[of _ us]) (simp add: wksp_rep_def)
  moreover have "optimize_one ops Forward a w = Some (st1, w1)" using n o1 by (simp add: optimize_one_def)
  ultimately show ?case using n o1 Cons.IH[OF r, of st1]
    by (subst internal_forward_loop.simps) (cases "st1 = VSI_SUCCESS"; simp)
qed

text \<open>The workspace as a list node: the nodes are before it, the tensors behind it.\<close>

lemma wksp_walk:
  "wksp_rep w p k xs ts \<Longrightarrow> walk_to_start (iw_links w) (Some k) = Some (first_ptr (xs @ [k]) None)"
proof -
  assume r: "wksp_rep w p k xs ts"
  show ?thesis
  proof (cases xs)
    case Nil
    then show ?thesis using r by (subst walk_to_start.simps) (simp add: wksp_rep_def)
  next
    case (Cons x ys)
    then have "walk_to_start (iw_links w) (Some x) = Some (first_ptr xs None)"
      using r by (intro dlist_walk_first) (simp_all add: wksp_rep_def)
    then show ?thesis using r Cons by (subst walk_to_start.simps) (simp add: wksp_rep_def)
  qed
qed

lemma wksp_number: "wksp_rep w p k xs ts \<Longrightarrow> xs \<noteq> [] \<Longrightarrow>
    LinkListGetNodeNumber (iw_links w) (Some k) = Some (of_nat (length xs))"
  using wksp_walk[of w p k xs ts] node_number_loop_seg[of "iw_links w" None xs 0]
  by (cases xs) (simp_all add: LinkListGetNodeNumber_def wksp_rep_def dlist_def)

lemma wksp_index: "wksp_rep w p k xs ts \<Longrightarrow> i < length xs \<Longrightarrow>
    LinkListGetIndexNode (iw_links w) (iw_wksp w p) (of_nat i) = Some (Some (xs ! i))"
proof -
  assume r: "wksp_rep w p k xs ts" and i: "i < length xs"
  have "get_index_loop (iw_links w) (first_ptr xs None) (of_nat 0) (of_nat i) = Some (Some (xs ! (i - 0)))"
    using get_index_loop_seg[of "iw_links w" None xs 0 i] r i by (simp add: wksp_rep_def dlist_def)
  moreover have "first_ptr (xs @ [k]) None = first_ptr xs None" using i by (cases xs) auto
  ultimately show ?thesis using wksp_walk[OF r] r by (simp add: LinkListGetIndexNode_def wksp_rep_def)
qed

lemma backward_pass:
  assumes k: "keeps_lists ops"
  shows "wksp_rep w p c xs ts \<Longrightarrow> i \<le> length xs \<Longrightarrow>
    internal_backward_loop ops p i st w = run_pass (optimize_one ops Backward) (rev (take i xs)) st w"
proof (induction i arbitrary: st w)
  case (Suc i)
  then have i: "i < length xs" "i \<le> length xs" by simp_all
  obtain n where n: "iw_inodes w (xs ! i) = Some n" using Suc.prems(1) nth_mem[OF i(1)] by (auto simp: wksp_rep_def domIff)
  obtain st1 w1 where o1: "i_optimize ops Backward (in_node n) (in_inputs n) (in_outputs n) w = (st1, w1)" by fastforce
  have r: "wksp_rep w1 p c xs ts" using Suc.prems(1) wksp_rep_same[OF keeps_listsD(3)[OF k o1]] by simp
  have "optimize_one ops Backward (xs ! i) w = Some (st1, w1)" using n o1 by (simp add: optimize_one_def)
  then show ?case using wksp_index[OF Suc.prems(1) i(1)] n o1 Suc.IH[OF r i(2), of st1] i(1)
    by (cases "st1 = VSI_SUCCESS") (simp_all add: take_Suc_conv_app_nth)
qed simp

lemma sint_small: "n < 2 ^ 31 \<Longrightarrow> sint (of_nat n :: 32 word) = int n"
  by (simp add: signed_of_nat signed_take_bit_int_eq_self)

lemma wksp_cell_rep: "wksp_rep w p k xs ts \<Longrightarrow>
    wksp_cell p w = Some (k, \<lparr>ll_prev = first_ptr xs None, ll_next = first_ptr ts None\<rparr>)"
  by (simp add: wksp_cell_def wksp_rep_def)

lemma optimize_passes:
  assumes "keeps_lists ops" "wksp_rep w p k xs ts" "xs \<noteq> []"
  shows "internal_optimize_node ops p Forward w = run_pass (optimize_one ops Forward) xs VSI_SUCCESS w"
    "internal_optimize_node ops p Backward w = run_pass (optimize_one ops Backward) (rev xs) VSI_SUCCESS w"
proof -
  have n: "nat (sint (of_nat (length xs) :: 32 word)) = length xs"
    using assms(2) sint_small[of "length xs"] by (simp add: wksp_rep_def)
  show "internal_optimize_node ops p Forward w = run_pass (optimize_one ops Forward) xs VSI_SUCCESS w"
    using forward_pass[OF assms(1), of w p k "[]" xs ts VSI_SUCCESS] assms(2) wksp_number[OF assms(2,3)]
    by (simp add: internal_optimize_node_def wksp_cell_rep)
  show "internal_optimize_node ops p Backward w = run_pass (optimize_one ops Backward) (rev xs) VSI_SUCCESS w"
    using backward_pass[OF assms(1,2), of "length xs" VSI_SUCCESS] wksp_number[OF assms(2,3)] assms(2)
    by (simp add: internal_optimize_node_def wksp_cell_rep n)
qed

text \<open>Without internal nodes the workspace is taken for one, or a tensor is.\<close>

lemma backward_without_nodes:
  assumes "wksp_rep w p k [] ts"
  shows "internal_optimize_node ops p Backward w = None"
proof -
  let ?h = "iw_links w"
  have s: "?h k = Some \<lparr>ll_prev = None, ll_next = first_ptr ts None\<rparr>" "seg ?h None ts None" "length ts < 2 ^ 31 - 1"
    using assms by (simp_all add: wksp_rep_def dlist_def)
  have num: "LinkListGetNodeNumber ?h (Some k) = Some (of_nat (Suc (length ts)))"
    using wksp_walk[OF assms] node_number_loop_seg[OF s(2), of 1] s(1)
    by (simp add: LinkListGetNodeNumber_def) (subst node_number_loop.simps, simp)
  have n: "nat (sint (of_nat (Suc (length ts)) :: 32 word)) = Suc (length ts)"
    using sint_small[of "Suc (length ts)"] s(3) by simp
  have idx: "LinkListGetIndexNode ?h (iw_wksp w p) (of_nat (length ts)) = Some (Some (last (k # ts)))"
  proof (cases "ts = []")
    case True
    then show ?thesis using wksp_walk[OF assms] assms
      by (simp add: LinkListGetIndexNode_def wksp_rep_def get_index_loop.simps)
  next
    case False
    then have l: "1 \<le> length ts" by (simp add: Suc_leI)
    have len_bound: "length ts < 2 ^ LENGTH(32)" using s(3) by simp
    have z: "(0 :: uint32) \<noteq> of_nat (length ts)"
      using s(3) l by (metis word_of_nat_eq_0_iff nat_dvd_not_less not_one_le_zero gr_zeroI len_bound)
    have "get_index_loop ?h (first_ptr ts None) (of_nat 1) (of_nat (length ts)) = Some (Some (ts ! (length ts - 1)))"
      using get_index_loop_seg[OF s(2), of 1 "length ts"] s(3) l by simp
    then have "get_index_loop ?h (Some k) 0 (of_nat (length ts)) = Some (Some (last ts))"
      using s(1) z False by (subst get_index_loop.simps) (simp add: last_conv_nth)
    then show ?thesis using wksp_walk[OF assms] assms False
      by (simp add: LinkListGetIndexNode_def wksp_rep_def)
  qed
  have "iw_inodes w (last (k # ts)) = None"
    using assms last_in_set[of "k # ts"] by (auto simp: wksp_rep_def)
  then show ?thesis using num idx assms
    by (simp add: internal_optimize_node_def wksp_cell_rep n del: of_nat_Suc)
qed


subsection \<open>Setting internal nodes up\<close>

lemma dlist_frame: "(\<And>x. x \<in> set xs \<Longrightarrow> h' x = h x) \<Longrightarrow> dlist h' xs \<longleftrightarrow> dlist h xs"
  unfolding dlist_def by (subst seg_frame[of xs h' h None None]) auto

lemma dlist_outside:
  assumes "dlist h xs" "\<And>b. b \<notin> D \<Longrightarrow> h' b = h b" "set xs \<inter> D = {}"
  shows "dlist h' xs"
proof (subst dlist_frame[of xs h' h])
  fix x assume "x \<in> set xs"
  then show "h' x = h x" using assms(3) by (intro assms(2)) auto
qed (rule assms(1))

lemma append_node_rep:
  assumes r: "wksp_rep w p k xs ts" and a: "iw_links w a = Some \<lparr>ll_prev = None, ll_next = None\<rparr>"
    "a \<notin> set xs \<union> set ts \<union> {k}" "a \<in> dom (iw_inodes w)" and l: "length xs + 1 < 2 ^ 31"
  obtains h where "append_node p a w = Some (w\<lparr>iw_links := h\<rparr>)" "wksp_rep (w\<lparr>iw_links := h\<rparr>) p k (xs @ [a]) ts"
    "\<And>b. b \<notin> set xs \<union> {a, k} \<Longrightarrow> h b = iw_links w b" "dom h = dom (iw_links w)"
proof -
  let ?h = "iw_links w"
  have w: "iw_wksp w p = Some k" "?h k = Some \<lparr>ll_prev = first_ptr xs None, ll_next = first_ptr ts None\<rparr>"
    "dlist ?h xs" "dlist ?h ts" "k \<notin> set xs \<union> set ts" "set xs \<inter> set ts = {}"
    using r by (auto simp: wksp_rep_def)
  have da: "dlist ?h [a]" using a(1) by (simp add: dlist_def)
  obtain h1 where h1: "LinkListPushEnd ?h (first_ptr xs None) (Some a) = Some (h1, first_ptr (xs @ [a]) None)"
    "dlist h1 (xs @ [a])" "\<And>b. b \<notin> set xs \<union> {a} \<Longrightarrow> h1 b = ?h b" "dom h1 = dom ?h"
  proof (cases xs)
    case Nil
    then show thesis using that[of ?h] da by (simp add: LinkListPushEnd_def)
  next
    case (Cons x ys)
    then show thesis
      using push_end_list[OF w(3), of x "[a]" a] da a(2) that by (auto simp: first_ptr_append)
  qed
  let ?h2 = "h1(k \<mapsto> \<lparr>ll_prev = first_ptr (xs @ [a]) None, ll_next = first_ptr ts None\<rparr>)"
  have hk: "h1 k = ?h k" using h1(3) w(5) a(2) by auto
  have set: "set_prev h1 k (first_ptr (xs @ [a]) None) = Some ?h2" using hk w(2) by (simp add: set_prev_def)
  have "append_node p a w = Some (w\<lparr>iw_links := ?h2\<rparr>)"
    using h1(1) set wksp_cell_rep[OF r] by (simp add: append_node_def)
  moreover have "dlist ?h2 (xs @ [a])" using h1(2) w(5) a(2) by (subst dlist_frame[of _ _ h1]) auto
  moreover have "dlist ?h2 ts"
    by (rule dlist_outside[OF w(4), of "insert k (set xs \<union> {a})"]) (use w(5,6) a(2) h1(3) in auto)
  ultimately show thesis using that[of ?h2] r a l h1(3,4) w(2) by (auto simp: wksp_rep_def)
qed

text \<open>Setting up a sequence of internal nodes, until one fails.\<close>

fun setup_all ::
  "('s, 'f) iops \<Rightarrow> ptr \<Rightarrow> addr list \<Rightarrow> 's iworld \<Rightarrow> (bool \<times> 's iworld) option" where
  "setup_all ops p [] w = Some (True, w)"
| "setup_all ops p (a # as) w = do {
     r \<leftarrow> internal_setup_node ops p a w;
     if fst r then setup_all ops p as (snd r) else Some r }"

text \<open>Internal nodes that are not in a list yet, with different nodes.\<close>

definition loose_nodes :: "'s iworld \<Rightarrow> addr \<Rightarrow> addr list \<Rightarrow> addr list \<Rightarrow> bool" where
  "loose_nodes w k ts as \<longleftrightarrow> distinct as \<and> set as \<inter> (insert k (set ts)) = {} \<and>
     (\<forall>a \<in> set as. iw_links w a = Some \<lparr>ll_prev = None, ll_next = None\<rparr>) \<and>
     (\<forall>a \<in> set as. \<exists>n. iw_inodes w a = Some n \<and> iw_nodes w (in_node n) \<noteq> None) \<and>
     inj_on (\<lambda>a. in_node (the (iw_inodes w a))) (set as)"

definition node_uid :: "'s iworld \<Rightarrow> addr \<Rightarrow> uint32" where
  "node_uid w a = n_uid (the (iw_nodes w (in_node (the (iw_inodes w a)))))"

text \<open>The list holds the identifiers \<open>1, 2, ...\<close>, and the next one is in the workspace.\<close>

definition numbered :: "'s iworld \<Rightarrow> addr \<Rightarrow> addr list \<Rightarrow> bool" where
  "numbered w k xs \<longleftrightarrow> iw_uids w k = Some (of_nat (length xs + 1)) \<and>
     (\<forall>i < length xs. iw_nodes w (in_node (the (iw_inodes w (xs ! i)))) \<noteq> None \<and> node_uid w (xs ! i) = of_nat (i + 1))"

lemma setup_one_step:
  assumes k: "keeps_lists ops" and r: "wksp_rep w p c xs ts" "numbered w c xs" "loose_nodes w c ts (a # as)"
    and xs: "set xs \<inter> set (a # as) = {}"
    and inj: "inj_on (\<lambda>b. in_node (the (iw_inodes w b))) (set (xs @ a # as))"
    and l: "length xs + 1 < 2 ^ 31"
  obtains b w' where "internal_setup_node ops p a w = Some (b, w')"
    "b \<Longrightarrow> wksp_rep w' p c (xs @ [a]) ts \<and> numbered w' c (xs @ [a])"
    "iw_inodes w' = iw_inodes w" "\<forall>x \<in> set as. iw_links w' x = iw_links w x"
    "dom (iw_nodes w') = dom (iw_nodes w)"
proof -
  obtain n where n: "iw_inodes w a = Some n" "iw_nodes w (in_node n) \<noteq> None"
    using r(3) by (auto simp: loose_nodes_def)
  obtain ok w1 where s: "i_setup ops (in_node n) (in_inputs n) (in_outputs n) w = (ok, w1)" by fastforce
  have s1: "same_lists w w1" using keeps_listsD(1)[OF k s] .
  show thesis
  proof (cases ok)
    case False
    then show thesis using that[of False w1] n s s1 by (simp add: internal_setup_node_def same_lists_def)
  next
    case True
    obtain v where v: "iw_nodes w (in_node n) = Some v" using n(2) by blast
    define w2 where "w2 = w1\<lparr>iw_nodes := (iw_nodes w1)(in_node n \<mapsto> v\<lparr>n_uid := of_nat (length xs + 1)\<rparr>)\<rparr>"
    have uid: "iw_uids w1 c = Some (of_nat (length xs + 1))" "iw_wksp w1 p = Some c"
      using r s1 by (simp_all add: numbered_def same_lists_def wksp_rep_def)
    have set: "set_uid (in_node n) (of_nat (length xs + 1)) w1 = Some w2"
      using v s1 by (simp add: set_uid_def w2_def same_lists_def)
    have r2: "wksp_rep w2 p c xs ts" using r(1) s1 by (simp add: w2_def wksp_rep_def same_lists_def)
    have la: "iw_links w2 a = Some \<lparr>ll_prev = None, ll_next = None\<rparr>" "a \<in> dom (iw_inodes w2)" "a \<notin> set xs \<union> set ts \<union> {c}"
      using r(3) s1 n(1) xs by (auto simp: w2_def same_lists_def loose_nodes_def)
    obtain h where h: "append_node p a w2 = Some (w2\<lparr>iw_links := h\<rparr>)" "wksp_rep (w2\<lparr>iw_links := h\<rparr>) p c (xs @ [a]) ts"
      "\<And>b. b \<notin> set xs \<union> {a, c} \<Longrightarrow> h b = iw_links w2 b" "dom h = dom (iw_links w2)"
      by (rule append_node_rep[OF r2 la(1,3,2) l]) (rule that; assumption)
    define w4 where "w4 = w2\<lparr>iw_links := h, iw_uids := (iw_uids w2)(c \<mapsto> of_nat (length xs + 1) + 1)\<rparr>"
    obtain b w5 where ck: "i_check ops (in_node n) (in_inputs n) (in_outputs n) w4 = (b, w5)" by fastforce
    have s5: "same_lists w4 w5" using keeps_listsD(2)[OF k ck] .
    have run: "internal_setup_node ops p a w = Some (b, w5)"
      using n s True uid set h(1) ck s1
      by (simp add: internal_setup_node_def internal_check_node_def w4_def w2_def same_lists_def)
    have r4: "wksp_rep w4 p c (xs @ [a]) ts" using h(2) by (simp add: w4_def wksp_rep_def)
    have uids: "node_uid w4 x = (if x = a then of_nat (length xs + 1) else node_uid w x)" if "x \<in> set (xs @ [a])" for x
      using that inj n v s1 by (auto simp: node_uid_def w4_def w2_def same_lists_def inj_on_def)
    have "numbered w4 c (xs @ [a])" unfolding numbered_def
    proof (intro conjI allI impI)
      show "iw_uids w4 c = Some (of_nat (length (xs @ [a]) + 1))" by (simp add: w4_def add.commute)
    next
      fix i assume i: "i < length (xs @ [a])"
      show "iw_nodes w4 (in_node (the (iw_inodes w4 ((xs @ [a]) ! i)))) \<noteq> None"
      proof (cases "i = length xs")
        case False
        then have "i < length xs" using i by simp
        then show ?thesis using r(2) s1 by (simp add: numbered_def w4_def w2_def same_lists_def nth_append)
      qed (use n(1) s1 in \<open>simp add: w4_def w2_def same_lists_def\<close>)
      show "node_uid w4 ((xs @ [a]) ! i) = of_nat (i + 1)"
      proof (cases "i = length xs")
        case False
        then have "i < length xs" "xs ! i \<noteq> a" using i xs nth_mem[of i xs] by auto
        then show ?thesis using r(2) uids[of "xs ! i"] by (simp add: numbered_def nth_append)
      qed (use uids[of a] in simp)
    qed
    then have "wksp_rep w5 p c (xs @ [a]) ts \<and> numbered w5 c (xs @ [a])"
      using r4 wksp_rep_same[OF s5] s5 by (simp add: numbered_def node_uid_def same_lists_def)
    moreover have "\<forall>x \<in> set as. iw_links w5 x = iw_links w x"
    proof
      fix x assume x: "x \<in> set as"
      then have "x \<notin> set xs \<union> {a, c}" using r(3) xs by (auto simp: loose_nodes_def)
      then have "h x = iw_links w2 x" by (rule h(3))
      then show "iw_links w5 x = iw_links w x" using s1 s5 by (simp add: w4_def w2_def same_lists_def)
    qed
    ultimately show thesis
      using that[OF run] s1 s5 v by (auto simp: w4_def w2_def same_lists_def)
  qed
qed


lemma setup_all_rep:
  assumes k: "keeps_lists ops"
  shows "wksp_rep w p c xs ts \<Longrightarrow> numbered w c xs \<Longrightarrow> loose_nodes w c ts as \<Longrightarrow> set xs \<inter> set as = {} \<Longrightarrow>
    inj_on (\<lambda>b. in_node (the (iw_inodes w b))) (set (xs @ as)) \<Longrightarrow> length xs + length as < 2 ^ 31 \<Longrightarrow>
    setup_all ops p as w = Some (True, w') \<Longrightarrow> wksp_rep w' p c (xs @ as) ts \<and> numbered w' c (xs @ as)"
proof (induction as arbitrary: w xs)
  case (Cons a as)
  have l: "length xs + 1 < 2 ^ 31" using Cons.prems(6) by simp
  obtain b w1 where s: "internal_setup_node ops p a w = Some (b, w1)"
    "b \<Longrightarrow> wksp_rep w1 p c (xs @ [a]) ts \<and> numbered w1 c (xs @ [a])"
    "iw_inodes w1 = iw_inodes w" "\<forall>x \<in> set as. iw_links w1 x = iw_links w x" "dom (iw_nodes w1) = dom (iw_nodes w)"
    by (rule setup_one_step[OF k Cons.prems(1-5) l]) (rule that; assumption)
  have b: b and rest: "setup_all ops p as w1 = Some (True, w')" using Cons.prems(7) s(1) by (simp_all split: if_splits)
  have dm: "iw_nodes w1 q \<noteq> None \<longleftrightarrow> iw_nodes w q \<noteq> None" for q using s(5) by (metis domIff)
  have loose: "loose_nodes w1 c ts as"
    using Cons.prems(3) s(3,4) dm by (auto simp: loose_nodes_def inj_on_def)
  have "wksp_rep w' p c ((xs @ [a]) @ as) ts \<and> numbered w' c ((xs @ [a]) @ as)"
    by (rule Cons.IH[OF _ _ loose])
      (use s(2)[OF b] Cons.prems(3-6) rest s(3) in \<open>auto simp: loose_nodes_def\<close>)
  then show ?case by simp
qed simp

lemma uid_search_list:
  "dlist (iw_links w) (us @ xs) \<Longrightarrow> (\<forall>a \<in> set xs. \<exists>n. iw_inodes w a = Some n \<and> iw_nodes w (in_node n) \<noteq> None) \<Longrightarrow>
   uid_search (first_ptr xs None) uid w = Some (find (\<lambda>a. node_uid w a = uid) xs)"
proof (induction xs arbitrary: us)
  case Nil
  then show ?case by (subst uid_search.simps) simp
next
  case (Cons a xs)
  obtain n v where n: "iw_inodes w a = Some n" "iw_nodes w (in_node n) = Some v" using Cons.prems(2) by auto
  have "LinkListNext (iw_links w) (Some a) = Some (first_ptr xs None)" by (rule next_in_list[OF Cons.prems(1)])
  moreover have "uid_search (first_ptr xs None) uid w = Some (find (\<lambda>a. node_uid w a = uid) xs)"
    using Cons.IH[of "us @ [a]"] Cons.prems by simp
  ultimately show ?case using n by (subst uid_search.simps) (simp add: node_uid_def)
qed

lemma find_numbered:
  assumes "numbered w k xs" "length xs < 2 ^ 31" "0 < i" "i \<le> length xs"
  shows "find (\<lambda>a. node_uid w a = of_nat i) xs = Some (xs ! (i - 1))"
proof -
  have "(of_nat (j + 1) :: uint32) = of_nat i \<longleftrightarrow> j + 1 = i" if "j < length xs" for j
    using that assms(2,4) by (simp only: word_of_nat_eq_iff) (simp add: take_bit_nat_eq_self)
  then have "\<forall>j < length xs. node_uid w (xs ! j) = of_nat i \<longleftrightarrow> j = i - 1"
    using assms(1,3) by (auto simp: numbered_def)
  then show ?thesis using assms(3,4) by (auto simp: find_Some_iff intro!: exI[of _ "i - 1"])
qed

lemma numbered_get:
  assumes "wksp_rep w p k xs ts" "numbered w k xs" "0 < i" "i \<le> length xs"
  shows "internal_get_node_by_uid p (of_nat i) w = Some (Some (xs ! (i - 1)))"
proof -
  have "\<forall>a \<in> set xs. \<exists>n. iw_inodes w a = Some n \<and> iw_nodes w (in_node n) \<noteq> None"
  proof
    fix a assume a: "a \<in> set xs"
    then obtain j where "j < length xs" "xs ! j = a" by (auto simp: in_set_conv_nth)
    then have "iw_nodes w (in_node (the (iw_inodes w a))) \<noteq> None" using assms(2) by (auto simp: numbered_def)
    moreover have "iw_inodes w a \<noteq> None" using a assms(1) by (auto simp: wksp_rep_def)
    ultimately show "\<exists>n. iw_inodes w a = Some n \<and> iw_nodes w (in_node n) \<noteq> None" by auto
  qed
  then have "uid_search (first_ptr xs None) (of_nat i) w = Some (Some (xs ! (i - 1)))"
    using uid_search_list[of w "[]" xs] find_numbered[OF assms(2) _ assms(3,4)] assms(1) by (simp add: wksp_rep_def)
  then show ?thesis using assms(1) wksp_cell_rep[OF assms(1)] by (simp add: internal_get_node_by_uid_def wksp_rep_def)
qed


subsection \<open>Dumping\<close>

lemma save_outputs_same:
  "keeps_lists ops \<Longrightarrow> j + n \<le> length outs \<Longrightarrow> \<exists>w'. save_outputs ops u v outs j n w = Some w' \<and> same_lists w w'"
proof (induction ops u v outs j n w rule: save_outputs.induct)
  case (2 ops u v outs j n w)
  have j: "rd outs j = Some (outs ! j)" using 2(3) by simp
  let ?w1 = "case outs ! j of None \<Rightarrow> w | Some t \<Rightarrow> if i_is_virtual ops t w then w else i_save_tensor ops t u v j w"
  have "same_lists w ?w1" using keeps_listsD(8)[OF 2(2)] by (simp split: option.split)
  moreover obtain w' where "save_outputs ops u v outs (Suc j) n ?w1 = Some w'" "same_lists ?w1 w'"
    using 2(1)[OF j 2(2)] 2(3) by auto
  ultimately show ?case using j by (auto intro: same_lists_trans)
qed simp

text \<open>Plain internal nodes: not composite themselves, with as many output pointers as outputs.\<close>

definition plain_nodes :: "'s iworld \<Rightarrow> addr list \<Rightarrow> bool" where
  "plain_nodes w xs \<longleftrightarrow> (\<forall>a \<in> set xs. \<exists>n v. iw_inodes w a = Some n \<and> iw_nodes w (in_node n) = Some v \<and>
     iw_wksp w (in_node n) = None \<and> length (n_outputs v) \<le> length (in_outputs n))"

lemma dump_loop_empties:
  assumes k: "keeps_lists ops"
  shows "dlist (iw_links w) xs \<Longrightarrow> plain_nodes w xs \<Longrightarrow> iw_nodes w p \<noteq> None \<Longrightarrow>
    \<exists>w'. dump_loop ops p (first_ptr xs None) w = Some w' \<and> (\<forall>a \<in> set xs. dlist (iw_links w') [a]) \<and>
      (\<forall>b. b \<notin> set xs \<longrightarrow> iw_links w' b = iw_links w b) \<and> same_lists (w\<lparr>iw_links := iw_links w'\<rparr>) w'"
proof (induction xs arbitrary: w)
  case Nil
  then show ?case by (subst dump_loop.simps) simp
next
  case (Cons x xs)
  obtain h1 where h1: "LinkListPopStart (iw_links w) (Some x) = Some (h1, first_ptr xs None, Some x)"
    "dlist h1 xs" "dlist h1 [x]" "\<And>b. b \<notin> set (x # xs) \<Longrightarrow> h1 b = iw_links w b" "dom h1 = dom (iw_links w)"
    by (rule pop_start_list[OF Cons.prems(1) list.set_intros(1)]) (rule that; assumption)
  obtain n v where n: "iw_inodes w x = Some n" "iw_nodes w (in_node n) = Some v" "iw_wksp w (in_node n) = None"
    "length (n_outputs v) \<le> length (in_outputs n)" using Cons.prems(2) by (auto simp: plain_nodes_def)
  obtain u where u: "iw_nodes w p = Some u" using Cons.prems(3) by blast
  let ?w0 = "w\<lparr>iw_links := h1\<rparr>"
  obtain w1 where w1: "save_outputs ops (n_uid u) (n_uid v) (in_outputs n) 0 (length (n_outputs v)) ?w0 = Some w1"
    "same_lists ?w0 w1" 
    using save_outputs_same[OF k, of 0 "length (n_outputs v)" "in_outputs n" "n_uid u" "n_uid v" ?w0] n(4) by auto
  have l1: "iw_links w1 = h1" using w1(2) by (simp add: same_lists_def)
  have x: "x \<notin> set xs" using Cons.prems(1) by (simp add: dlist_def)
  have "plain_nodes w1 xs" "iw_nodes w1 p \<noteq> None" using Cons.prems(2,3) w1(2) by (simp_all add: plain_nodes_def same_lists_def)
  then obtain w' where w': "dump_loop ops p (first_ptr xs None) w1 = Some w'" "\<forall>a \<in> set xs. dlist (iw_links w') [a]"
    "\<forall>b. b \<notin> set xs \<longrightarrow> iw_links w' b = h1 b" "same_lists (w1\<lparr>iw_links := iw_links w'\<rparr>) w'"
    using Cons.IH[of w1] h1(2) l1 by auto
  have "dump_loop ops p (first_ptr (x # xs) None) w = Some w'"
    using h1(1) n(1-3) u w1(1) w'(1) by (subst dump_loop.simps) simp
  moreover have "dlist (iw_links w') [x]" using h1(3) w'(3) x by (simp add: dlist_def)
  moreover have "same_lists (w\<lparr>iw_links := iw_links w'\<rparr>) w'" using w'(4) w1(2) by (simp add: same_lists_def)
  moreover have "\<forall>b. b \<notin> set (x # xs) \<longrightarrow> iw_links w' b = iw_links w b" using w'(3) h1(4) by simp
  ultimately show ?case using w'(2) by auto
qed

lemma dump_loses:
  assumes k: "keeps_lists ops" and r: "wksp_rep w p c (x # xs) ts" and pl: "plain_nodes w (x # xs)" and u: "iw_nodes w p \<noteq> None"
  obtains w' where "internal_dump_node_output ops p w = Some w'" "wksp_rep w' p c [x] ts" "iw_inodes w' = iw_inodes w"
    "iw_nodes w' = iw_nodes w"
proof -
  have d: "dlist (iw_links w) (x # xs)" "dlist (iw_links w) ts" "set (x # xs) \<inter> set ts = {}" "c \<notin> set (x # xs)"
    using r by (auto simp: wksp_rep_def)
  obtain w' where w': "dump_loop ops p (Some x) w = Some w'" "dlist (iw_links w') [x]"
    "\<forall>b. b \<notin> set (x # xs) \<longrightarrow> iw_links w' b = iw_links w b" "same_lists (w\<lparr>iw_links := iw_links w'\<rparr>) w'"
    using dump_loop_empties[OF k d(1) pl u] by auto
  have "internal_dump_node_output ops p w = Some w'"
    using wksp_cell_rep[OF r] w'(1) by (simp add: internal_dump_node_output_def)
  moreover have "dlist (iw_links w') ts"
    by (rule dlist_outside[OF d(2), of "set (x # xs)"]) (use w'(3) d(3) in auto)
  ultimately show thesis using that[of w'] r w'(2,3,4) d(4) by (auto simp: wksp_rep_def same_lists_def)
qed

subsection \<open>A sample workspace\<close>

text \<open>Operations that succeed and change nothing.\<close>

definition quiet_iops :: "(unit, int) iops" where
  "quiet_iops = \<lparr>i_valid = (\<lambda>_. True), i_init = (\<lambda>_ w. w), i_io_num = (\<lambda>_ _ _. (1, 1)),
     i_deinit = (\<lambda>_ w. (VSI_SUCCESS, w)), i_setup = (\<lambda>_ _ _ w. (True, w)), i_check = (\<lambda>_ _ _ w. (True, w)),
     i_optimize = (\<lambda>_ _ _ _ w. (VSI_SUCCESS, w)), i_compute = (\<lambda>_ _ _ w. (VSI_SUCCESS, w)),
     i_create_tensor = (\<lambda>_ _ w. (None, w)), i_release_tensor = (\<lambda>_ w. w), i_tensor_vx = (\<lambda>_ _. None),
     i_reinit = (\<lambda>_ w. w), i_name_tensor = (\<lambda>_ _ _ _ w. (VSI_SUCCESS, w)),
     i_update_attr = (\<lambda>_ w. (VSI_SUCCESS, w)), i_is_virtual = (\<lambda>_ _. False), i_save_tensor = (\<lambda>_ _ _ _ w. w)\<rparr>"

lemma quiet_keeps_lists: "keeps_lists quiet_iops"
  by (simp add: keeps_lists_def quiet_iops_def)

definition some_vnode :: vnode where
  "some_vnode = \<lparr>n_op = 0, n_inputs = [], n_outputs = [TENSOR_ID_NA], n_uid = - 1\<rparr>"

definition some_inode :: "ptr \<Rightarrow> inode" where
  "some_inode q = \<lparr>in_node = q, in_inputs = [], in_outputs = [None], in_param = None\<rparr>"

text \<open>
  Node 10 with the workspace 1, the internal nodes 2 and 3, which are in the list when \<open>linked\<close>,
  and the internal tensor 4.
\<close>

definition sample_world :: "bool \<Rightarrow> unit iworld" where
  "sample_world linked =
     \<lparr>iw_links = [1 \<mapsto> \<lparr>ll_prev = (if linked then Some 2 else None), ll_next = Some 4\<rparr>,
        2 \<mapsto> \<lparr>ll_prev = None, ll_next = (if linked then Some 3 else None)\<rparr>,
        3 \<mapsto> \<lparr>ll_prev = (if linked then Some 2 else None), ll_next = None\<rparr>,
        4 \<mapsto> \<lparr>ll_prev = None, ll_next = None\<rparr>],
      iw_inodes = [2 \<mapsto> some_inode 20, 3 \<mapsto> some_inode 21], iw_itensors = [4 \<mapsto> 40], iw_params = Map.empty,
      iw_uids = [1 \<mapsto> 1], iw_nodes = [10 \<mapsto> some_vnode, 20 \<mapsto> some_vnode, 21 \<mapsto> some_vnode],
      iw_wksp = [10 \<mapsto> 1], iw_ext = ()\<rparr>"

lemma sample_rep:
  "wksp_rep (sample_world True) 10 1 [2, 3] [4]" "wksp_rep (sample_world False) 10 1 [] [4]"
  by (simp_all add: wksp_rep_def sample_world_def dlist_def)

lemma sample_loose: "loose_nodes (sample_world False) 1 [4] [2, 3]"
  by (simp add: loose_nodes_def sample_world_def some_inode_def)

subsection \<open>Properties\<close>

text \<open>
  The optimization passes over the internal nodes of a node. The forward pass visits the
  nodes of the list in their order. The backward pass, which passes the workspace to the list
  functions in place of the first node, visits the same nodes in the reverse order, because the
  pointer to the first node is where the functions look for \<open>prev\<close>. Both stop at the first
  node whose step fails.
\<close>

theorem internal_optimize_order:
  assumes "keeps_lists ops" "wksp_rep w p k xs ts" "xs \<noteq> []"
  shows "internal_optimize_node ops p Forward w = run_pass (optimize_one ops Forward) xs VSI_SUCCESS w \<and>
    internal_optimize_node ops p Backward w = run_pass (optimize_one ops Backward) (rev xs) VSI_SUCCESS w"
  using optimize_passes[OF assms] by blast

theorem internal_optimize_order_witness:
  "internal_optimize_node quiet_iops 10 Backward (sample_world True) =
     run_pass (optimize_one quiet_iops Backward) [3, 2] VSI_SUCCESS (sample_world True)"
  using internal_optimize_order[OF quiet_keeps_lists sample_rep(1)] by simp

text \<open>
  Without internal nodes the backward pass does not do nothing: it takes the workspace, or
  the last internal tensor, for an internal node and reads through a pointer it does not have.
\<close>

theorem internal_backward_no_nodes:
  assumes "wksp_rep w p k [] ts"
  shows "internal_optimize_node ops p Backward w = None"
  by (rule backward_without_nodes[OF assms])

theorem internal_backward_no_nodes_witness:
  "internal_optimize_node quiet_iops 10 Backward (sample_world False) = None"
  by (rule internal_backward_no_nodes[OF sample_rep(2)])

text \<open>
  Internal nodes that are set up one after the other on a fresh workspace are in the list in
  this order, numbered \<open>1, 2, ...\<close>, and \<open>vsi_nn_internal_get_node_by_uid\<close> finds each of them by
  its number.
\<close>

theorem internal_setup_numbers:
  assumes "keeps_lists ops" "wksp_rep w p k [] ts" "iw_uids w k = Some 1" "loose_nodes w k ts as" "length as < 2 ^ 31"
    "setup_all ops p as w = Some (True, w')"
  shows "wksp_rep w' p k as ts \<and>
    (\<forall>i < length as. internal_get_node_by_uid p (of_nat (i + 1)) w' = Some (Some (as ! i)))"
proof -
  have n: "numbered w k []" using assms(3) by (simp add: numbered_def)
  have i: "inj_on (\<lambda>b. in_node (the (iw_inodes w b))) (set ([] @ as))" using assms(4) by (simp add: loose_nodes_def)
  have "wksp_rep w' p k ([] @ as) ts \<and> numbered w' k ([] @ as)"
    by (rule setup_all_rep[OF assms(1,2) n assms(4) _ i _ assms(6)]) (use assms(5) in simp_all)
  then have r: "wksp_rep w' p k as ts" "numbered w' k as" by simp_all
  have "internal_get_node_by_uid p (of_nat (i + 1)) w' = Some (Some (as ! i))" if "i < length as" for i
    using numbered_get[OF r, of "i + 1"] that by simp
  then show ?thesis using r(1) by blast
qed

lemma sample_setup: "map_option fst (setup_all quiet_iops 10 [2, 3] (sample_world False)) = Some True"
  by (simp add: internal_setup_node_def internal_check_node_def append_node_def wksp_cell_def set_uid_def
      LinkListPushEnd_def set_prev_def set_next_def walk_to_start.simps walk_to_end.simps sample_world_def
      quiet_iops_def some_inode_def some_vnode_def)

theorem internal_setup_numbers_witness:
  "\<exists>w'. setup_all quiet_iops 10 [2, 3] (sample_world False) = Some (True, w') \<and>
     internal_get_node_by_uid 10 2 w' = Some (Some 3)"
proof -
  obtain w' where w': "setup_all quiet_iops 10 [2, 3] (sample_world False) = Some (True, w')"
    using sample_setup by auto
  have "iw_uids (sample_world False) 1 = Some 1" by (simp add: sample_world_def)
  then have "\<forall>i < length [2, 3 :: nat]. internal_get_node_by_uid 10 (of_nat (i + 1)) w' = Some (Some ([2, 3] ! i))"
    using internal_setup_numbers[OF quiet_keeps_lists sample_rep(2) _ sample_loose _ w'] by simp
  from this[rule_format, of 1] have "internal_get_node_by_uid 10 2 w' = Some (Some 3)" by simp
  with w' show ?thesis by blast
qed

text \<open>
  Dumping the outputs of the internal nodes loses them: the loop takes the nodes off the list,
  and what is left of the list is its first node. The others are still allocated, but neither
  computed again nor released.
\<close>

theorem internal_dump_loses_nodes:
  assumes "keeps_lists ops" "wksp_rep w p k (x # xs) ts" "plain_nodes w (x # xs)" "iw_nodes w p \<noteq> None"
  shows "\<exists>w'. internal_dump_node_output ops p w = Some w' \<and> wksp_rep w' p k [x] ts \<and>
    set xs \<subseteq> dom (iw_inodes w')"
proof -
  obtain w' where "internal_dump_node_output ops p w = Some w'" "wksp_rep w' p k [x] ts" "iw_inodes w' = iw_inodes w"
    "iw_nodes w' = iw_nodes w" by (rule dump_loses[OF assms])
  then show ?thesis using assms(2) by (auto simp: wksp_rep_def)
qed

theorem internal_dump_loses_nodes_witness:
  "\<exists>w'. internal_dump_node_output quiet_iops 10 (sample_world True) = Some w' \<and> wksp_rep w' 10 1 [2] [4] \<and>
     3 \<in> dom (iw_inodes w')"
proof -
  have pl: "plain_nodes (sample_world True) [2, 3]"
    by (simp add: plain_nodes_def sample_world_def some_inode_def some_vnode_def)
  have "iw_nodes (sample_world True) 10 \<noteq> None" by (simp add: sample_world_def)
  then show ?thesis using internal_dump_loses_nodes[OF quiet_keeps_lists sample_rep(1) pl] by auto
qed

end
