(* ===== verification/Internal_Release.thy ===== *)
theory Internal_Release
  imports Internal_Passes
begin

text \<open>
  The release of a workspace of internal nodes (\<^verbatim>\<open>vsi_nn_internal_deinit_node_wksp\<close> of
  \<^verbatim>\<open>src/tim/vx/internal/src/vsi_nn_internal_node.c\<close>). An internal node may belong to a composite
  operation, whose \<open>op_deinit\<close> releases the workspace of this node in turn, so the release goes through a
  tree of workspaces. Each operation promises to release what it owns; the release of a workspace keeps
  the same promise for the node of the workspace (\<open>deinit_contract_composite\<close>), and so every depth of
  nesting is covered.
\<close>

subsection \<open>What is released\<close>

text \<open>The memory without the addresses \<open>A\<close>, the nodes \<open>N\<close> and the workspaces of the nodes \<open>W\<close>.\<close>

definition without :: "'s iworld \<Rightarrow> addr set \<Rightarrow> ptr set \<Rightarrow> ptr set \<Rightarrow> 's \<Rightarrow> 's iworld" where
  "without w A N W s = w\<lparr>iw_links := iw_links w |` (- A), iw_inodes := iw_inodes w |` (- A),
     iw_itensors := iw_itensors w |` (- A), iw_params := iw_params w |` (- A), iw_uids := iw_uids w |` (- A),
     iw_nodes := iw_nodes w |` (- N), iw_wksp := iw_wksp w |` (- W), iw_ext := s\<rparr>"

definition agree :: "addr set \<Rightarrow> ptr set \<Rightarrow> 's iworld \<Rightarrow> 's iworld \<Rightarrow> bool" where
  "agree A N w w' \<longleftrightarrow>
     (\<forall>a \<in> A. iw_links w' a = iw_links w a \<and> iw_inodes w' a = iw_inodes w a \<and> iw_itensors w' a = iw_itensors w a \<and>
       iw_params w' a = iw_params w a \<and> iw_uids w' a = iw_uids w a) \<and>
     (\<forall>q \<in> N. iw_nodes w' q = iw_nodes w q \<and> iw_wksp w' q = iw_wksp w q)"

text \<open>
  What the operation of a node owns: when its structures are in order, their addresses, the nodes of its
  own internal nodes, and what its release does to the state of the driver and of the operations.
\<close>

record 's estate =
  es_ok :: "ptr \<Rightarrow> 's iworld \<Rightarrow> bool"
  es_addrs :: "ptr \<Rightarrow> addr set"
  es_nodes :: "ptr \<Rightarrow> ptr set"
  es_gone :: "ptr \<Rightarrow> 's \<Rightarrow> 's"

text \<open>
  The promise of \<open>vsi_nn_OpDeinit\<close>: it releases what the operation owns and nothing else, and whether an
  operation is in order depends on what it owns alone. A plain operation owns nothing.
\<close>

definition deinit_contract :: "('s, 'f) iops \<Rightarrow> 's estate \<Rightarrow> bool" where
  "deinit_contract ops E \<longleftrightarrow>
     (\<forall>q w. es_ok E q w \<longrightarrow> snd (i_deinit ops q w) =
        without w (es_addrs E q) (es_nodes E q) (insert q (es_nodes E q)) (es_gone E q (iw_ext w))) \<and>
     (\<forall>q w w'. es_ok E q w \<longrightarrow> agree (es_addrs E q) (insert q (es_nodes E q)) w w' \<longrightarrow> es_ok E q w')"

text \<open>\<open>vsi_nn_ReleaseTensor\<close> does not touch the internal nodes.\<close>

definition tensor_contract :: "('s, 'f) iops \<Rightarrow> (ptr \<Rightarrow> 's \<Rightarrow> 's) \<Rightarrow> bool" where
  "tensor_contract ops rt \<longleftrightarrow> (\<forall>t w. i_release_tensor ops t w = w\<lparr>iw_ext := rt t (iw_ext w)\<rparr>)"

text \<open>What belongs to the internal node at \<open>a\<close>, with the node \<open>Q a\<close> and the parameters \<open>P a\<close>.\<close>

definition own_addrs :: "'s estate \<Rightarrow> (addr \<Rightarrow> ptr) \<Rightarrow> (addr \<Rightarrow> addr list) \<Rightarrow> addr \<Rightarrow> addr set" where
  "own_addrs E Q P a = insert a (set (P a) \<union> es_addrs E (Q a))"

definition own_nodes :: "'s estate \<Rightarrow> (addr \<Rightarrow> ptr) \<Rightarrow> addr \<Rightarrow> ptr set" where
  "own_nodes E Q a = insert (Q a) (es_nodes E (Q a))"

definition node_ok :: "'s estate \<Rightarrow> (addr \<Rightarrow> ptr) \<Rightarrow> (addr \<Rightarrow> addr list) \<Rightarrow> 's iworld \<Rightarrow> addr \<Rightarrow> bool" where
  "node_ok E Q P w a \<longleftrightarrow>
     (\<exists>n. iw_inodes w a = Some n \<and> in_node n = Q a \<and> in_param n = first_ptr (P a) None) \<and>
     dlist (iw_links w) (P a) \<and> iw_nodes w (Q a) \<noteq> None \<and> es_ok E (Q a) w \<and> Q a \<notin> es_nodes E (Q a) \<and>
     iw_itensors w a = None \<and> iw_params w a = None \<and> iw_uids w a = None \<and>
     (\<forall>b \<in> set (P a). iw_inodes w b = None \<and> iw_itensors w b = None \<and> iw_uids w b = None) \<and>
     a \<notin> set (P a) \<union> es_addrs E (Q a) \<and> set (P a) \<inter> es_addrs E (Q a) = {}"

definition tensor_ok :: "(addr \<Rightarrow> ptr) \<Rightarrow> 's iworld \<Rightarrow> addr \<Rightarrow> bool" where
  "tensor_ok T w t \<longleftrightarrow> iw_itensors w t = Some (T t) \<and> iw_inodes w t = None \<and> iw_params w t = None \<and> iw_uids w t = None"

subsection \<open>One internal node\<close>

lemma restrict_upd: "(m |` (- A))(a := None) = m |` (- insert a A)"
  by (auto simp: restrict_map_def)

lemma restrict_more: "(\<And>b. b \<in> B \<Longrightarrow> m b = None) \<Longrightarrow> m |` (- (A \<union> B)) = m |` (- A)"
  by (rule ext) (auto simp: restrict_map_def)

lemma without_without [simp]:
  "without (without w A N W s) A' N' W' s' = without w (A \<union> A') (N \<union> N') (W \<union> W') s'"
  by (simp add: without_def restrict_restrict)

lemma without_none [simp]: "without w {} {} {} (iw_ext w) = w"
  by (simp add: without_def restrict_map_def)

lemma without_ext [simp]: "iw_ext (without w A N W s) = s"
  by (simp add: without_def)

lemma agree_refl [simp]: "agree A N w w"
  by (simp add: agree_def)

lemma deinit_all: "dlist h xs \<Longrightarrow> LinkListDeinit h (first_ptr xs None) = Some (h |` (- set xs), xs)"
  using deinit_list[of h xs "hd xs"] by (cases xs) (auto simp: LinkListDeinit.simps)

lemma release_node_without:
  assumes c: "deinit_contract ops E" and n: "node_ok E Q P w a"
  shows "internal_release_node ops (Some a) w =
    Some (without w (own_addrs E Q P a) (own_nodes E Q a) (own_nodes E Q a) (es_gone E (Q a) (iw_ext w)))"
proof -
  obtain n where n': "iw_inodes w a = Some n" "in_node n = Q a" "in_param n = first_ptr (P a) None"
    using n by (auto simp: node_ok_def)
  have d: "dlist (iw_links w) (P a)" and ok: "es_ok E (Q a) w" and nd: "iw_nodes w (Q a) \<noteq> None" "Q a \<notin> es_nodes E (Q a)"
    and sep: "a \<notin> set (P a) \<union> es_addrs E (Q a)" "set (P a) \<inter> es_addrs E (Q a) = {}"
    and kind: "iw_itensors w a = None" "iw_params w a = None" "iw_uids w a = None"
      "\<forall>b \<in> set (P a). iw_inodes w b = None \<and> iw_itensors w b = None \<and> iw_uids w b = None"
    using n by (simp_all add: node_ok_def)
  let ?w1 = "free_params (P a) (w\<lparr>iw_links := iw_links w |` (- set (P a))\<rparr>)"
  let ?A = "es_addrs E (Q a)" and ?N = "es_nodes E (Q a)"
  have "agree ?A (insert (Q a) ?N) w ?w1"
    using sep(2) by (auto simp: agree_def free_params_def restrict_map_def)
  then have "es_ok E (Q a) ?w1" using c ok unfolding deinit_contract_def by blast
  then have dn: "snd (i_deinit ops (Q a) ?w1) = without ?w1 ?A ?N (insert (Q a) ?N) (es_gone E (Q a) (iw_ext ?w1))"
    using c unfolding deinit_contract_def by blast
  let ?w2 = "without ?w1 ?A ?N (insert (Q a) ?N) (es_gone E (Q a) (iw_ext ?w1))"
  have "iw_nodes ?w2 (Q a) \<noteq> None" using nd by (simp add: without_def free_params_def)
  then have "release_vnode ops (Q a) ?w1 = Some (?w2\<lparr>iw_nodes := (iw_nodes ?w2)(Q a := None)\<rparr>)"
    by (simp only: release_vnode_def dn Let_def if_False)
  then have "internal_release_node ops (Some a) w = Some (free_inode a (?w2\<lparr>iw_nodes := (iw_nodes ?w2)(Q a := None)\<rparr>))"
    using n' deinit_all[OF d] by (simp add: internal_release_node_def)
  moreover have "free_inode a (?w2\<lparr>iw_nodes := (iw_nodes ?w2)(Q a := None)\<rparr>) =
      without w (own_addrs E Q P a) (own_nodes E Q a) (own_nodes E Q a) (es_gone E (Q a) (iw_ext w))"
    using kind sep n'(1) by (auto simp: without_def free_inode_def free_params_def own_addrs_def own_nodes_def restrict_map_def fun_eq_iff)
  ultimately show ?thesis by simp
qed

lemma node_ok_frame:
  assumes c: "deinit_contract ops E" and n: "node_ok E Q P w a"
    and l: "\<forall>b \<in> own_addrs E Q P a - {a}. iw_links w' b = iw_links w b"
    and o: "\<forall>b \<in> own_addrs E Q P a. iw_inodes w' b = iw_inodes w b \<and> iw_itensors w' b = iw_itensors w b \<and>
      iw_params w' b = iw_params w b \<and> iw_uids w' b = iw_uids w b"
    and q: "\<forall>q \<in> own_nodes E Q a. iw_nodes w' q = iw_nodes w q \<and> iw_wksp w' q = iw_wksp w q"
  shows "node_ok E Q P w' a"
proof -
  have sep: "a \<notin> set (P a) \<union> es_addrs E (Q a)" using n by (simp add: node_ok_def)
  have "dlist (iw_links w') (P a) = dlist (iw_links w) (P a)"
    by (rule dlist_frame) (use l sep in \<open>auto simp: own_addrs_def\<close>)
  moreover have "agree (es_addrs E (Q a)) (insert (Q a) (es_nodes E (Q a))) w w'"
    using l o q sep by (auto simp: agree_def own_addrs_def own_nodes_def)
  then have "es_ok E (Q a) w \<Longrightarrow> es_ok E (Q a) w'" using c unfolding deinit_contract_def by blast
  ultimately show ?thesis using n o q by (simp add: node_ok_def own_addrs_def own_nodes_def)
qed

subsection \<open>The two loops\<close>

definition apart :: "'s estate \<Rightarrow> (addr \<Rightarrow> ptr) \<Rightarrow> (addr \<Rightarrow> addr list) \<Rightarrow> addr list \<Rightarrow> bool" where
  "apart E Q P xs \<longleftrightarrow> (\<forall>a \<in> set xs. \<forall>b \<in> set xs. a \<noteq> b \<longrightarrow>
     own_addrs E Q P a \<inter> own_addrs E Q P b = {} \<and> own_nodes E Q a \<inter> own_nodes E Q b = {})"

definition all_addrs :: "'s estate \<Rightarrow> (addr \<Rightarrow> ptr) \<Rightarrow> (addr \<Rightarrow> addr list) \<Rightarrow> addr list \<Rightarrow> addr set" where
  "all_addrs E Q P xs = (\<Union>a \<in> set xs. own_addrs E Q P a)"

definition all_nodes :: "'s estate \<Rightarrow> (addr \<Rightarrow> ptr) \<Rightarrow> addr list \<Rightarrow> ptr set" where
  "all_nodes E Q xs = (\<Union>a \<in> set xs. own_nodes E Q a)"

lemma all_simps [simp]:
  "all_addrs E Q P [] = {}" "all_nodes E Q [] = {}"
  "all_addrs E Q P (a # xs) = own_addrs E Q P a \<union> all_addrs E Q P xs"
  "all_nodes E Q (a # xs) = own_nodes E Q a \<union> all_nodes E Q xs"
  by (simp_all add: all_addrs_def all_nodes_def)

lemma list_addrs: "set xs \<subseteq> all_addrs E Q P xs"
  by (auto simp: all_addrs_def own_addrs_def)

lemma deinit_nodes_without:
  assumes c: "deinit_contract ops E"
  shows "dlist (iw_links w) xs \<Longrightarrow> apart E Q P xs \<Longrightarrow> \<forall>a \<in> set xs. node_ok E Q P w a \<Longrightarrow>
    deinit_nodes_loop ops (first_ptr xs None) w =
      Some (without w (all_addrs E Q P xs) (all_nodes E Q xs) (all_nodes E Q xs) (fold (\<lambda>a. es_gone E (Q a)) xs (iw_ext w)))"
proof (induction xs arbitrary: w)
  case Nil
  then show ?case by (subst deinit_nodes_loop.simps) simp
next
  case (Cons x xs)
  obtain h1 where h1: "LinkListPopStart (iw_links w) (Some x) = Some (h1, first_ptr xs None, Some x)"
    "dlist h1 xs" "dlist h1 [x]" "\<And>b. b \<notin> set (x # xs) \<Longrightarrow> h1 b = iw_links w b" "dom h1 = dom (iw_links w)"
    by (rule pop_start_list[OF Cons.prems(1) list.set_intros(1)]) (rule that; assumption)
  let ?w = "w\<lparr>iw_links := h1\<rparr>"
  let ?s = "es_gone E (Q x) (iw_ext w)"
  let ?w1 = "without ?w (own_addrs E Q P x) (own_nodes E Q x) (own_nodes E Q x) ?s"
  have x: "x \<notin> set xs" using Cons.prems(1) by (simp add: dlist_def)
  have self: "b \<in> own_addrs E Q P b" for b by (simp add: own_addrs_def)
  have out: "c \<notin> set (x # xs)" if "a \<in> set (x # xs)" "c \<in> own_addrs E Q P a" "c \<noteq> a" for a c
    using that Cons.prems(2) self unfolding apart_def by blast
  have "node_ok E Q P ?w x"
  proof (rule node_ok_frame[where w = w, OF c])
    show "node_ok E Q P w x" using Cons.prems(3) by simp
    show "\<forall>b \<in> own_addrs E Q P x - {x}. iw_links ?w b = iw_links w b"
    proof
      fix b assume "b \<in> own_addrs E Q P x - {x}"
      then have "b \<notin> set (x # xs)" using out[of x b] by simp
      then show "iw_links ?w b = iw_links w b" using h1(4) by simp
    qed
  qed simp_all
  then have rel: "internal_release_node ops (Some x) ?w = Some ?w1" using release_node_without[OF c] by simp
  have dis: "own_addrs E Q P a \<inter> own_addrs E Q P x = {}" "own_nodes E Q a \<inter> own_nodes E Q x = {}" if "a \<in> set xs" for a
    using Cons.prems(2) that x by (auto simp: apart_def)
  have ok1: "\<forall>a \<in> set xs. node_ok E Q P ?w1 a"
  proof
    fix a assume a: "a \<in> set xs"
    show "node_ok E Q P ?w1 a"
    proof (rule node_ok_frame[where w = w, OF c])
      show "node_ok E Q P w a" using Cons.prems(3) a by simp
      show "\<forall>b \<in> own_addrs E Q P a - {a}. iw_links ?w1 b = iw_links w b"
      proof
        fix b assume b: "b \<in> own_addrs E Q P a - {a}"
        then have "b \<notin> own_addrs E Q P x" "b \<notin> set (x # xs)" using dis(1)[OF a] out[of a b] a by auto
        then show "iw_links ?w1 b = iw_links w b" using h1(4) by (simp add: without_def)
      qed
    qed (use dis[OF a] in \<open>auto simp: without_def restrict_map_def\<close>)
  qed
  have d1: "dlist (iw_links ?w1) xs"
  proof (subst dlist_frame[of _ _ h1])
    fix b assume "b \<in> set xs"
    then have "b \<notin> own_addrs E Q P x" using dis(1) self by blast
    then show "iw_links ?w1 b = h1 b" by (simp add: without_def)
  qed (rule h1(2))
  have ap: "apart E Q P xs" using Cons.prems(2) by (simp add: apart_def)
  have "deinit_nodes_loop ops (first_ptr (x # xs) None) w =
      Some (without ?w1 (all_addrs E Q P xs) (all_nodes E Q xs) (all_nodes E Q xs) (fold (\<lambda>a. es_gone E (Q a)) xs ?s))"
    using h1(1) rel Cons.IH[OF d1 ap ok1] by (subst deinit_nodes_loop.simps) simp
  also have "without ?w1 (all_addrs E Q P xs) (all_nodes E Q xs) (all_nodes E Q xs) (fold (\<lambda>a. es_gone E (Q a)) xs ?s) =
      without w (all_addrs E Q P (x # xs)) (all_nodes E Q (x # xs)) (all_nodes E Q (x # xs)) (fold (\<lambda>a. es_gone E (Q a)) (x # xs) (iw_ext w))"
  proof -
    have "h1 |` (- all_addrs E Q P (x # xs)) = iw_links w |` (- all_addrs E Q P (x # xs))"
    proof
      fix b
      have "h1 b = iw_links w b" if "b \<notin> all_addrs E Q P (x # xs)"
        using that list_addrs[of "x # xs" E Q P] by (intro h1(4)) auto
      then show "(h1 |` (- all_addrs E Q P (x # xs))) b = (iw_links w |` (- all_addrs E Q P (x # xs))) b"
        by (simp add: restrict_map_def del: all_simps)
    qed
    then show ?thesis by simp (simp add: without_def)
  qed
  finally show ?case .
qed

lemma deinit_tensors_without:
  assumes c: "tensor_contract ops rt"
  shows "dlist (iw_links w) ts \<Longrightarrow> \<forall>t \<in> set ts. tensor_ok T w t \<Longrightarrow>
    deinit_tensors_loop ops (first_ptr ts None) w = Some (without w (set ts) {} {} (fold (\<lambda>t. rt (T t)) ts (iw_ext w)))"
proof (induction ts arbitrary: w)
  case Nil
  then show ?case by (subst deinit_tensors_loop.simps) simp
next
  case (Cons x xs)
  obtain h1 where h1: "LinkListPopStart (iw_links w) (Some x) = Some (h1, first_ptr xs None, Some x)"
    "dlist h1 xs" "dlist h1 [x]" "\<And>b. b \<notin> set (x # xs) \<Longrightarrow> h1 b = iw_links w b" "dom h1 = dom (iw_links w)"
    by (rule pop_start_list[OF Cons.prems(1) list.set_intros(1)]) (rule that; assumption)
  let ?w1 = "without (w\<lparr>iw_links := h1\<rparr>) {x} {} {} (rt (T x) (iw_ext w))"
  have t: "iw_itensors w x = Some (T x)" "iw_inodes w x = None" "iw_params w x = None" "iw_uids w x = None"
    using Cons.prems(2) by (simp_all add: tensor_ok_def)
  have x: "x \<notin> set xs" using Cons.prems(1) by (simp add: dlist_def)
  have rel: "internal_release_tensor ops (Some x) (w\<lparr>iw_links := h1\<rparr>) = Some ?w1"
    using c t by (auto simp: internal_release_tensor_def tensor_contract_def without_def restrict_map_def fun_eq_iff)
  have d: "dlist (iw_links ?w1) xs"
    by (subst dlist_frame[of _ _ h1]) (use h1(2) x in \<open>auto simp: without_def restrict_map_def\<close>)
  have ok: "\<forall>t \<in> set xs. tensor_ok T ?w1 t" using Cons.prems(2) x by (auto simp: tensor_ok_def without_def restrict_map_def)
  have "deinit_tensors_loop ops (first_ptr (x # xs) None) w =
      Some (without ?w1 (set xs) {} {} (fold (\<lambda>t. rt (T t)) xs (rt (T x) (iw_ext w))))"
    using h1(1) rel Cons.IH[OF d ok] by (subst deinit_tensors_loop.simps) simp
  moreover have "h1 |` (- set (x # xs)) = iw_links w |` (- set (x # xs))"
    using h1(4) by (intro ext) (auto simp: restrict_map_def)
  ultimately show ?case by simp (simp add: without_def)
qed

subsection \<open>The workspace\<close>

text \<open>
  A workspace \<open>k\<close> of the node \<open>p\<close> with the internal nodes \<open>xs\<close> and the internal tensors \<open>ts\<close>: what
  belongs to different nodes and tensors is apart.
\<close>

record wksp_shape =
  ws_wksp :: addr
  ws_nodes :: "addr list"
  ws_tensors :: "addr list"
  ws_node :: "addr \<Rightarrow> ptr"
  ws_params :: "addr \<Rightarrow> addr list"
  ws_tensor :: "addr \<Rightarrow> ptr"

definition shape_addrs :: "'s estate \<Rightarrow> wksp_shape \<Rightarrow> addr set" where
  "shape_addrs E W = insert (ws_wksp W) (set (ws_tensors W) \<union> all_addrs E (ws_node W) (ws_params W) (ws_nodes W))"

definition shape_nodes :: "'s estate \<Rightarrow> wksp_shape \<Rightarrow> ptr set" where
  "shape_nodes E W = all_nodes E (ws_node W) (ws_nodes W)"

definition wksp_ok :: "'s estate \<Rightarrow> wksp_shape \<Rightarrow> ptr \<Rightarrow> 's iworld \<Rightarrow> bool" where
  "wksp_ok E W p w \<longleftrightarrow>
     iw_wksp w p = Some (ws_wksp W) \<and>
     iw_links w (ws_wksp W) = Some \<lparr>ll_prev = first_ptr (ws_nodes W) None, ll_next = first_ptr (ws_tensors W) None\<rparr> \<and>
     iw_inodes w (ws_wksp W) = None \<and> iw_itensors w (ws_wksp W) = None \<and> iw_params w (ws_wksp W) = None \<and>
     dlist (iw_links w) (ws_nodes W) \<and> dlist (iw_links w) (ws_tensors W) \<and>
     (\<forall>a \<in> set (ws_nodes W). node_ok E (ws_node W) (ws_params W) w a) \<and>
     (\<forall>t \<in> set (ws_tensors W). tensor_ok (ws_tensor W) w t) \<and>
     apart E (ws_node W) (ws_params W) (ws_nodes W) \<and>
     ws_wksp W \<notin> set (ws_tensors W) \<and>
     insert (ws_wksp W) (set (ws_tensors W)) \<inter> all_addrs E (ws_node W) (ws_params W) (ws_nodes W) = {} \<and>
     p \<notin> shape_nodes E W"

text \<open>The calls reach the nodes in the order of the list, and then the tensors in the order of theirs.\<close>

definition shape_gone :: "'s estate \<Rightarrow> (ptr \<Rightarrow> 's \<Rightarrow> 's) \<Rightarrow> wksp_shape \<Rightarrow> 's \<Rightarrow> 's" where
  "shape_gone E rt W s =
     fold (\<lambda>t. rt (ws_tensor W t)) (ws_tensors W) (fold (\<lambda>a. es_gone E (ws_node W a)) (ws_nodes W) s)"

lemma deinit_wksp_without:
  assumes c: "deinit_contract ops E" and rt: "tensor_contract ops rt" and k: "wksp_ok E W p w"
  shows "internal_deinit_node_wksp ops p w =
    Some (without w (shape_addrs E W) (shape_nodes E W) (insert p (shape_nodes E W)) (shape_gone E rt W (iw_ext w)))"
proof -
  let ?k = "ws_wksp W" and ?xs = "ws_nodes W" and ?ts = "ws_tensors W" and ?Q = "ws_node W"
  let ?A = "all_addrs E ?Q (ws_params W) ?xs" and ?N = "all_nodes E ?Q ?xs" and ?s = "fold (\<lambda>a. es_gone E (?Q a)) ?xs (iw_ext w)"
  let ?w1 = "without w ?A ?N ?N ?s"
  have w: "iw_wksp w p = Some ?k" "iw_links w ?k = Some \<lparr>ll_prev = first_ptr ?xs None, ll_next = first_ptr ?ts None\<rparr>"
    "dlist (iw_links w) ?xs" "dlist (iw_links w) ?ts" "\<forall>a \<in> set ?xs. node_ok E ?Q (ws_params W) w a"
    "\<forall>t \<in> set ?ts. tensor_ok (ws_tensor W) w t" "apart E ?Q (ws_params W) ?xs" "?k \<notin> set ?ts"
    "insert ?k (set ?ts) \<inter> ?A = {}" "p \<notin> ?N"
    "iw_inodes w ?k = None" "iw_itensors w ?k = None" "iw_params w ?k = None"
    using k by (auto simp: wksp_ok_def shape_nodes_def)
  have n: "deinit_nodes_loop ops (first_ptr ?xs None) w = Some ?w1"
    by (rule deinit_nodes_without[OF c w(3,7,5)])
  have out: "iw_links ?w1 b = iw_links w b" "iw_inodes ?w1 b = iw_inodes w b" "iw_itensors ?w1 b = iw_itensors w b"
    "iw_params ?w1 b = iw_params w b" "iw_uids ?w1 b = iw_uids w b" if "b \<in> insert ?k (set ?ts)" for b
  proof -
    have "b \<notin> ?A" using that w(9) by blast
    then show "iw_links ?w1 b = iw_links w b" "iw_inodes ?w1 b = iw_inodes w b" "iw_itensors ?w1 b = iw_itensors w b"
      "iw_params ?w1 b = iw_params w b" "iw_uids ?w1 b = iw_uids w b" by (simp_all add: without_def)
  qed
  have wp: "iw_wksp ?w1 p = Some ?k" using w(1,10) by (simp add: without_def)
  have dt: "dlist (iw_links ?w1) ?ts" by (subst dlist_frame[of _ _ "iw_links w"]) (use w(4) out in auto)
  have tt: "\<forall>t \<in> set ?ts. tensor_ok (ws_tensor W) ?w1 t" using w(6) out by (simp add: tensor_ok_def)
  let ?w2 = "without ?w1 (set ?ts) {} {} (fold (\<lambda>t. rt (ws_tensor W t)) ?ts ?s)"
  have t: "deinit_tensors_loop ops (first_ptr ?ts None) ?w1 = Some ?w2"
    using deinit_tensors_without[OF rt dt tt] by simp
  have wp2: "iw_wksp ?w2 p = Some ?k" using wp by (simp add: without_def)
  have "internal_deinit_node_wksp ops p w = Some (?w2\<lparr>iw_links := (iw_links ?w2)(?k := None), iw_uids := (iw_uids ?w2)(?k := None),
      iw_wksp := (iw_wksp ?w2)(p := None)\<rparr>)"
    using w(1,2) n wp out(1)[of ?k] t wp2 by (simp add: internal_deinit_node_wksp_def wksp_cell_def)
  also have "?w2\<lparr>iw_links := (iw_links ?w2)(?k := None), iw_uids := (iw_uids ?w2)(?k := None), iw_wksp := (iw_wksp ?w2)(p := None)\<rparr> =
      without w (shape_addrs E W) (shape_nodes E W) (insert p (shape_nodes E W)) (shape_gone E rt W (iw_ext w))"
    using w(11-13) by (auto simp: without_def shape_addrs_def shape_nodes_def shape_gone_def restrict_map_def fun_eq_iff)
  finally show ?thesis .
qed

text \<open>A workspace is in order whatever happens to memory that is not part of it.\<close>

lemma wksp_ok_frame:
  assumes c: "deinit_contract ops E" and k: "wksp_ok E W p w"
    and a: "agree (shape_addrs E W) (insert p (shape_nodes E W)) w w'"
  shows "wksp_ok E W p w'"
proof -
  let ?A = "all_addrs E (ws_node W) (ws_params W) (ws_nodes W)"
  have eq: "iw_links w' b = iw_links w b" "iw_inodes w' b = iw_inodes w b" "iw_itensors w' b = iw_itensors w b"
    "iw_params w' b = iw_params w b" "iw_uids w' b = iw_uids w b" if "b \<in> shape_addrs E W" for b
    using a that by (simp_all add: agree_def)
  have sub: "set (ws_nodes W) \<subseteq> shape_addrs E W" "set (ws_tensors W) \<subseteq> shape_addrs E W" "ws_wksp W \<in> shape_addrs E W"
    using list_addrs[of "ws_nodes W" E "ws_node W" "ws_params W"] by (auto simp: shape_addrs_def)
  have "node_ok E (ws_node W) (ws_params W) w' b" if b: "b \<in> set (ws_nodes W)" for b
  proof (rule node_ok_frame[where w = w, OF c])
    have i: "own_addrs E (ws_node W) (ws_params W) b \<subseteq> shape_addrs E W" "own_nodes E (ws_node W) b \<subseteq> shape_nodes E W"
      using b by (auto simp: shape_addrs_def shape_nodes_def all_addrs_def all_nodes_def)
    show "node_ok E (ws_node W) (ws_params W) w b" using k b by (simp add: wksp_ok_def)
    show "\<forall>c \<in> own_addrs E (ws_node W) (ws_params W) b - {b}. iw_links w' c = iw_links w c" using i(1) eq(1) by blast
    show "\<forall>c \<in> own_addrs E (ws_node W) (ws_params W) b. iw_inodes w' c = iw_inodes w c \<and> iw_itensors w' c = iw_itensors w c \<and>
        iw_params w' c = iw_params w c \<and> iw_uids w' c = iw_uids w c"
      using i(1) eq(2-5) by blast
    show "\<forall>q \<in> own_nodes E (ws_node W) b. iw_nodes w' q = iw_nodes w q \<and> iw_wksp w' q = iw_wksp w q"
      using i(2) a by (auto simp: agree_def)
  qed
  moreover have "dlist (iw_links w') (ws_nodes W) = dlist (iw_links w) (ws_nodes W)"
    by (rule dlist_frame) (use eq(1) sub(1) in blast)
  moreover have "dlist (iw_links w') (ws_tensors W) = dlist (iw_links w) (ws_tensors W)"
    by (rule dlist_frame) (use eq(1) sub(2) in blast)
  moreover have "tensor_ok (ws_tensor W) w' t" if "t \<in> set (ws_tensors W)" for t
  proof -
    have "t \<in> shape_addrs E W" using that sub(2) by blast
    then show ?thesis using k that eq[of t] by (simp add: wksp_ok_def tensor_ok_def)
  qed
  moreover have "iw_wksp w' p = iw_wksp w p" using a by (simp add: agree_def)
  ultimately show ?thesis using k eq[OF sub(3)] by (simp add: wksp_ok_def)
qed

subsection \<open>Composite operations\<close>

text \<open>
  When the operation of the node \<open>p\<close> is composite, its \<open>op_deinit\<close> is
  \<open>vsi_nn_internal_deinit_node_wksp\<close>; it keeps the promise, with the workspace as what it owns.
\<close>

definition composite :: "('s, 'f) iops \<Rightarrow> ptr \<Rightarrow> ('s, 'f) iops" where
  "composite ops p = ops\<lparr>i_deinit := (\<lambda>q w. if q = p then (VSI_SUCCESS, case internal_deinit_node_wksp ops p w of None \<Rightarrow> w | Some w' \<Rightarrow> w')
     else i_deinit ops q w)\<rparr>"

definition composite_estate :: "'s estate \<Rightarrow> (ptr \<Rightarrow> 's \<Rightarrow> 's) \<Rightarrow> ptr \<Rightarrow> wksp_shape \<Rightarrow> 's estate" where
  "composite_estate E rt p W =
     \<lparr>es_ok = (es_ok E)(p := wksp_ok E W p), es_addrs = (es_addrs E)(p := shape_addrs E W),
      es_nodes = (es_nodes E)(p := shape_nodes E W), es_gone = (es_gone E)(p := shape_gone E rt W)\<rparr>"

lemma deinit_contract_composite:
  assumes c: "deinit_contract ops E" and rt: "tensor_contract ops rt"
  shows "deinit_contract (composite ops p) (composite_estate E rt p W)"
  unfolding deinit_contract_def
proof (intro conjI allI impI)
  fix q w
  assume ok: "es_ok (composite_estate E rt p W) q w"
  show "snd (i_deinit (composite ops p) q w) = without w (es_addrs (composite_estate E rt p W) q) (es_nodes (composite_estate E rt p W) q)
      (insert q (es_nodes (composite_estate E rt p W) q)) (es_gone (composite_estate E rt p W) q (iw_ext w))"
  proof (cases "q = p")
    case True
    then show ?thesis using deinit_wksp_without[OF c rt, of W p w] ok by (simp add: composite_def composite_estate_def)
  next
    case False
    then show ?thesis using c ok by (simp add: composite_def composite_estate_def deinit_contract_def)
  qed
  fix w'
  assume a: "agree (es_addrs (composite_estate E rt p W) q) (insert q (es_nodes (composite_estate E rt p W) q)) w w'"
  show "es_ok (composite_estate E rt p W) q w'"
  proof (cases "q = p")
    case True
    then show ?thesis using wksp_ok_frame[OF c, of W p w w'] ok a by (simp add: composite_estate_def)
  next
    case False
    then have "es_ok E q w" "agree (es_addrs E q) (insert q (es_nodes E q)) w w'" using ok a by (simp_all add: composite_estate_def)
    then have "es_ok E q w'" using c unfolding deinit_contract_def by blast
    then show ?thesis using False by (simp add: composite_estate_def)
  qed
qed

lemma tensor_contract_composite: "tensor_contract ops rt \<Longrightarrow> tensor_contract (composite ops p) rt"
  by (simp add: tensor_contract_def composite_def)

subsection \<open>A sample\<close>

text \<open>Plain operations, with a log of the releases: the node of an operation, or a tensor.\<close>

definition log_iops :: "(ptr list, int) iops" where
  "log_iops = \<lparr>i_valid = (\<lambda>_. True), i_init = (\<lambda>_ w. w), i_io_num = (\<lambda>_ _ _. (1, 1)),
     i_deinit = (\<lambda>q w. (VSI_SUCCESS, w\<lparr>iw_ext := iw_ext w @ [q]\<rparr>)), i_setup = (\<lambda>_ _ _ w. (True, w)), i_check = (\<lambda>_ _ _ w. (True, w)),
     i_optimize = (\<lambda>_ _ _ _ w. (VSI_SUCCESS, w)), i_compute = (\<lambda>_ _ _ w. (VSI_SUCCESS, w)),
     i_create_tensor = (\<lambda>_ _ w. (None, w)), i_release_tensor = (\<lambda>t w. w\<lparr>iw_ext := iw_ext w @ [t]\<rparr>), i_tensor_vx = (\<lambda>_ _. None),
     i_reinit = (\<lambda>_ w. w), i_name_tensor = (\<lambda>_ _ _ _ w. (VSI_SUCCESS, w)),
     i_update_attr = (\<lambda>_ w. (VSI_SUCCESS, w)), i_is_virtual = (\<lambda>_ _. False), i_save_tensor = (\<lambda>_ _ _ _ w. w)\<rparr>"

definition plain_estate :: "ptr list estate" where
  "plain_estate = \<lparr>es_ok = (\<lambda>q w. iw_wksp w q = None), es_addrs = (\<lambda>_. {}), es_nodes = (\<lambda>_. {}), es_gone = (\<lambda>q s. s @ [q])\<rparr>"

lemma log_contracts: "deinit_contract log_iops plain_estate" "tensor_contract log_iops (\<lambda>t s. s @ [t])"
  by (auto simp: deinit_contract_def tensor_contract_def log_iops_def plain_estate_def agree_def without_def restrict_map_def fun_eq_iff)

text \<open>
  Node 10 has the workspace 1 with the internal nodes 2 and 3 and the tensor 4. Node 20 of 2 is composite:
  its workspace 5 has the internal node 6, with the node 30, and the tensor 7. Node 21 of 3 is plain,
  and 3 has the parameters 8 and 9.
\<close>

definition nested_world :: "ptr list iworld" where
  "nested_world =
     \<lparr>iw_links = [1 \<mapsto> \<lparr>ll_prev = Some 2, ll_next = Some 4\<rparr>, 2 \<mapsto> \<lparr>ll_prev = None, ll_next = Some 3\<rparr>,
        3 \<mapsto> \<lparr>ll_prev = Some 2, ll_next = None\<rparr>, 4 \<mapsto> \<lparr>ll_prev = None, ll_next = None\<rparr>,
        5 \<mapsto> \<lparr>ll_prev = Some 6, ll_next = Some 7\<rparr>, 6 \<mapsto> \<lparr>ll_prev = None, ll_next = None\<rparr>,
        7 \<mapsto> \<lparr>ll_prev = None, ll_next = None\<rparr>, 8 \<mapsto> \<lparr>ll_prev = None, ll_next = Some 9\<rparr>,
        9 \<mapsto> \<lparr>ll_prev = Some 8, ll_next = None\<rparr>],
      iw_inodes = [2 \<mapsto> some_inode 20, 3 \<mapsto> (some_inode 21)\<lparr>in_param := Some 8\<rparr>, 6 \<mapsto> some_inode 30],
      iw_itensors = [4 \<mapsto> 40, 7 \<mapsto> 70], iw_params = [8 \<mapsto> [1, 2], 9 \<mapsto> [3]], iw_uids = [1 \<mapsto> 3, 5 \<mapsto> 2],
      iw_nodes = [10 \<mapsto> some_vnode, 20 \<mapsto> some_vnode, 21 \<mapsto> some_vnode, 30 \<mapsto> some_vnode],
      iw_wksp = [10 \<mapsto> 1, 20 \<mapsto> 5], iw_ext = []\<rparr>"

definition inner_shape :: wksp_shape where
  "inner_shape = \<lparr>ws_wksp = 5, ws_nodes = [6], ws_tensors = [7], ws_node = (\<lambda>_. 30), ws_params = (\<lambda>_. []), ws_tensor = (\<lambda>_. 70)\<rparr>"

definition outer_shape :: wksp_shape where
  "outer_shape = \<lparr>ws_wksp = 1, ws_nodes = [2, 3], ws_tensors = [4], ws_node = (\<lambda>a. if a = 2 then 20 else 21),
     ws_params = (\<lambda>a. if a = 2 then [] else [8, 9]), ws_tensor = (\<lambda>_. 40)\<rparr>"

abbreviation nested_ops :: "(ptr list, int) iops" where "nested_ops \<equiv> composite log_iops 20"

abbreviation nested_estate :: "ptr list estate" where
  "nested_estate \<equiv> composite_estate plain_estate (\<lambda>t s. s @ [t]) 20 inner_shape"

lemma nested_fields:
  "es_addrs nested_estate = (\<lambda>_. {})(20 := {5, 6, 7})" "es_nodes nested_estate = (\<lambda>_. {})(20 := {30})"
  "es_gone nested_estate = (\<lambda>q s. s @ [q])(20 := (\<lambda>s. s @ [30, 70]))"
  by (auto simp: composite_estate_def plain_estate_def shape_addrs_def shape_nodes_def shape_gone_def inner_shape_def
      own_addrs_def own_nodes_def fun_eq_iff)

lemma inner_ok: "wksp_ok plain_estate inner_shape 20 nested_world"
  by (simp add: wksp_ok_def inner_shape_def nested_world_def dlist_def node_ok_def tensor_ok_def apart_def plain_estate_def
      some_inode_def own_addrs_def shape_nodes_def own_nodes_def)

lemma outer_ok: "wksp_ok nested_estate outer_shape 10 nested_world"
proof -
  have e: "es_ok nested_estate 20 nested_world" "es_ok nested_estate 21 nested_world"
    using inner_ok by (simp_all add: composite_estate_def plain_estate_def nested_world_def)
  have "node_ok nested_estate (ws_node outer_shape) (ws_params outer_shape) nested_world a" if "a \<in> {2, 3}" for a
    using that e unfolding node_ok_def nested_fields
    by (auto simp: outer_shape_def nested_world_def dlist_def some_inode_def)
  then show ?thesis unfolding wksp_ok_def apart_def own_addrs_def own_nodes_def shape_nodes_def all_addrs_def all_nodes_def nested_fields
    by (auto simp: outer_shape_def nested_world_def dlist_def tensor_ok_def)
qed

subsection \<open>Properties\<close>

text \<open>
  C33: Releasing a workspace frees the workspace, every internal node with its parameters, its node and
  what the operation of this node owns (for a composite operation the workspace of the node, with all
  that is in it), and every internal tensor, and leaves all other memory as it was. The operations are
  released in the order of the list of nodes and the tensors behind them in the order of theirs, each
  once. The operations of the internal nodes are assumed to release what they own; by
  \<open>deinit_contract_composite\<close> a composite operation does so when those of its own internal nodes do.
\<close>

theorem internal_release_frees:
  assumes "deinit_contract ops E" "tensor_contract ops rt" "wksp_ok E W p w"
  shows "internal_deinit_node_wksp ops p w =
    Some (without w (shape_addrs E W) (shape_nodes E W) (insert p (shape_nodes E W)) (shape_gone E rt W (iw_ext w)))"
  by (rule deinit_wksp_without[OF assms])

theorem internal_release_frees_witness:
  "\<exists>w'. internal_deinit_node_wksp nested_ops 10 nested_world = Some w' \<and> dom (iw_nodes w') = {10} \<and> dom (iw_links w') = {} \<and>
     dom (iw_inodes w') = {} \<and> dom (iw_itensors w') = {} \<and> dom (iw_params w') = {} \<and> dom (iw_uids w') = {} \<and>
     dom (iw_wksp w') = {} \<and> iw_ext w' = [30, 70, 21, 40]"
proof -
  let ?E = nested_estate
  have A: "shape_addrs ?E outer_shape = {1, 2, 3, 4, 5, 6, 7, 8, 9}" and N: "shape_nodes ?E outer_shape = {20, 21, 30}"
    unfolding shape_addrs_def shape_nodes_def all_addrs_def all_nodes_def own_addrs_def own_nodes_def nested_fields
    by (auto simp: outer_shape_def)
  have G: "shape_gone ?E (\<lambda>t s. s @ [t]) outer_shape [] = [30, 70, 21, 40]"
    unfolding shape_gone_def nested_fields by (simp add: outer_shape_def)
  have "internal_deinit_node_wksp nested_ops 10 nested_world =
      Some (without nested_world (shape_addrs ?E outer_shape) (shape_nodes ?E outer_shape) (insert 10 (shape_nodes ?E outer_shape))
        (shape_gone ?E (\<lambda>t s. s @ [t]) outer_shape (iw_ext nested_world)))"
    by (rule internal_release_frees[OF deinit_contract_composite[OF log_contracts] tensor_contract_composite[OF log_contracts(2)] outer_ok])
  moreover have "iw_ext nested_world = []" by (simp add: nested_world_def)
  ultimately show ?thesis using G
    by (simp add: A N) (auto simp: without_def nested_world_def restrict_map_def dom_def split: if_splits)
qed

end
