(* ===== verification/Op_Shape.thy ===== *)
theory Op_Shape
  imports Graph Dtype Filter_Size
begin

text \<open>
  The shapes of the outputs of operations: the setup functions under
  \<^verbatim>\<open>src/tim/vx/internal/src/ops\<close> that only compute a shape, with their helpers in
  \<^verbatim>\<open>src/vsi_nn_tensor.c\<close> and \<^verbatim>\<open>src/utils/vsi_nn_util.c\<close>. A tensor is seen as its sizes (an
  array of 8 entries), its rank and its scalar flag; a rank of 0 (\<open>VSI_NN_DIM_AUTO\<close>) asks for the
  shape to be computed. A setup function returns the boolean of the code and the output with its
  new shape; it is \<open>None\<close> when it reads or writes outside of an array or divides by 0. Signed
  parameters are words, as C converts them before it uses them with sizes.
\<close>

record tshape =
  ts_size :: "vsi_size_t list"
  ts_dim :: uint32
  ts_scalar :: bool

definition compareVersion :: "'s graph \<Rightarrow> uint32 \<Rightarrow> uint32 \<Rightarrow> uint32 \<Rightarrow> int" where
  "compareVersion g major minor patch =
     (let (ma, mi, pa) = GetGraphVersion g
      in if ma > major then 1 else if ma < major then - 1
         else if mi > minor then 1 else if mi < minor then - 1
         else if pa > patch then 1 else if pa < patch then - 1 else 0)"

text \<open>\<open>n\<close> rounds of a loop that writes \<open>f i\<close> to entry \<open>j\<close> and advances both.\<close>

fun fill :: "nat \<Rightarrow> nat \<Rightarrow> nat \<Rightarrow> (nat \<Rightarrow> 'a option) \<Rightarrow> 'a list \<Rightarrow> 'a list option" where
  "fill 0 i j f xs = Some xs"
| "fill (Suc n) i j f xs = do { v \<leftarrow> f i; ys \<leftarrow> wr xs j v; fill n (Suc i) (Suc j) f ys }"

definition udiv :: "'a::len word \<Rightarrow> 'a word \<Rightarrow> 'a word option" where
  "udiv a b = (if b = 0 then None else Some (a div b))"

definition tensor_dims :: "tshape \<Rightarrow> uint32" where
  "tensor_dims t = (if ts_scalar t then 0 else ts_dim t)"

definition is_3d_tensor :: "tshape \<Rightarrow> bool" where "is_3d_tensor t = (ts_dim t = 3)"

definition size_or_1 :: "tshape \<Rightarrow> uint32 \<Rightarrow> nat \<Rightarrow> vsi_size_t option" where
  "size_or_1 t dims i = (if i < unat dims then rd (ts_size t) i else Some 1)"

subsection \<open>Element-wise operations\<close>

definition op_common_setup :: "tshape \<Rightarrow> tshape \<Rightarrow> (bool \<times> tshape) option" where
  "op_common_setup in0 out =
     (if ts_dim out \<noteq> 0 then Some (True, out)
      else do {
        sizes \<leftarrow> fill 8 0 0 (rd (ts_size in0)) (ts_size out);
        Some (True, out\<lparr>ts_dim := ts_dim in0, ts_scalar := ts_scalar in0, ts_size := sizes\<rparr>) })"

fun max_rank :: "uint32 \<Rightarrow> tshape list \<Rightarrow> uint32" where
  "max_rank r [] = r"
| "max_rank r (t # ts) = max_rank (max r (tensor_dims t)) ts"

text \<open>One dimension. \<open>Some None\<close> is the return on sizes that do not match.\<close>

fun elt_dim :: "tshape list \<Rightarrow> nat \<Rightarrow> vsi_size_t \<Rightarrow> vsi_size_t option option" where
  "elt_dim [] i sz0 = Some (Some sz0)"
| "elt_dim (t # ts) i sz0 = do {
     sz1 \<leftarrow> size_or_1 t (tensor_dims t) i;
     let sz0 = max sz0 sz1;
     if sz0 \<noteq> sz1 \<and> sz0 \<noteq> 1 \<and> sz1 \<noteq> 1 then Some None else elt_dim ts i sz0 }"

fun elt_loop :: "tshape \<Rightarrow> tshape list \<Rightarrow> nat \<Rightarrow> nat \<Rightarrow> vsi_size_t list \<Rightarrow> vsi_size_t list option option" where
  "elt_loop in0 ins i 0 shape = Some (Some shape)"
| "elt_loop in0 ins i (Suc n) shape = do {
     sz0 \<leftarrow> size_or_1 in0 (tensor_dims in0) i;
     r \<leftarrow> elt_dim ins i sz0;
     case r of
       None \<Rightarrow> Some None
     | Some s \<Rightarrow> do { shape' \<leftarrow> wr shape i s; elt_loop in0 ins (Suc i) n shape' } }"

definition op_eltwise_setup :: "tshape list \<Rightarrow> tshape \<Rightarrow> (bool \<times> tshape) option" where
  "op_eltwise_setup ins out = do {
     in0 \<leftarrow> rd ins 0;
     let out_rank = max_rank (tensor_dims in0) (tl ins);
     r \<leftarrow> elt_loop in0 (tl ins) 0 (unat out_rank) (replicate 8 0);
     case r of
       None \<Rightarrow> Some (False, out)
     | Some shape \<Rightarrow>
         if ts_dim out = 0 then do {
           sizes \<leftarrow> fill (unat out_rank) 0 0 (rd shape) (ts_size out);
           in1 \<leftarrow> rd ins 1;
           if ts_scalar in0 \<and> ts_scalar in1 then do {
             sizes1 \<leftarrow> wr sizes 0 1;
             Some (True, out\<lparr>ts_size := sizes1, ts_dim := 1, ts_scalar := True\<rparr>) }
           else Some (True, out\<lparr>ts_size := sizes, ts_dim := out_rank\<rparr>) }
         else do {
           expected \<leftarrow> ShapeProduct shape (unat out_rank);
           got \<leftarrow> ShapeProduct (ts_size out) (unat (ts_dim out));
           Some (expected = got, out) } }"

text \<open>\<open>SELECT\<close> takes the maximum of its three inputs and does not compare them.\<close>

definition select_dim :: "tshape \<Rightarrow> tshape \<Rightarrow> tshape \<Rightarrow> nat \<Rightarrow> vsi_size_t option" where
  "select_dim in0 in1 in2 i = do {
     sz0 \<leftarrow> size_or_1 in0 (ts_dim in0) i;
     sz1 \<leftarrow> size_or_1 in1 (ts_dim in1) i;
     sz2 \<leftarrow> size_or_1 in2 (ts_dim in2) i;
     Some (max (max sz0 sz1) sz2) }"

definition op_select_setup :: "tshape \<Rightarrow> tshape \<Rightarrow> tshape \<Rightarrow> tshape \<Rightarrow> (bool \<times> tshape) option" where
  "op_select_setup in0 in1 in2 out = do {
     let out_rank = max (ts_dim in0) (max (ts_dim in1) (ts_dim in2));
     shape \<leftarrow> fill (unat out_rank) 0 0 (select_dim in0 in1 in2) (replicate 8 0);
     if ts_dim out = 0 then do {
       sizes \<leftarrow> fill (unat out_rank) 0 0 (rd shape) (ts_size out);
       Some (True, out\<lparr>ts_size := sizes, ts_dim := out_rank\<rparr>) }
     else do {
       expected \<leftarrow> ShapeProduct shape (unat out_rank);
       got \<leftarrow> ShapeProduct (ts_size out) (unat (ts_dim out));
       Some (expected = got, out) } }"

subsection \<open>Matrix multiplication\<close>

text \<open>The batch dimensions, from dimension 2 on, get the larger size; sizes that differ are accepted.\<close>

definition matmul_dim :: "tshape \<Rightarrow> tshape \<Rightarrow> nat \<Rightarrow> vsi_size_t option" where
  "matmul_dim in0 in1 i = do {
     sz0 \<leftarrow> size_or_1 in0 (ts_dim in0) i;
     sz1 \<leftarrow> size_or_1 in1 (ts_dim in1) i;
     Some (max sz0 sz1) }"

definition op_matmul_setup :: "bool \<Rightarrow> bool \<Rightarrow> tshape \<Rightarrow> tshape \<Rightarrow> tshape \<Rightarrow> (bool \<times> tshape) option" where
  "op_matmul_setup tr0 tr1 in0 in1 out =
     (if ts_dim out \<noteq> 0 then Some (True, out)
      else if tr0 \<and> tr1 then Some (False, out\<lparr>ts_dim := max (ts_dim in0) (ts_dim in1)\<rparr>)
      else do {
        w \<leftarrow> rd (ts_size in1) (if tr1 then 1 else 0);
        s0 \<leftarrow> wr (ts_size out) 0 w;
        h \<leftarrow> rd (ts_size in0) (if tr0 then 0 else 1);
        s1 \<leftarrow> wr s0 1 h;
        if ts_dim in0 = 1 \<and> ts_dim in1 > 1 then do {
          v \<leftarrow> rd (ts_size in1) 0;
          s2 \<leftarrow> wr s1 0 v;
          s3 \<leftarrow> fill (unat (ts_dim in1 - 1) - 1) 2 1 (rd (ts_size in1)) s2;
          Some (True, out\<lparr>ts_dim := ts_dim in1 - 1, ts_size := s3\<rparr>) }
        else if ts_dim in1 = 1 \<and> ts_dim in0 > 1 then do {
          s2 \<leftarrow> fill (unat (ts_dim in0 - 1)) 1 0 (rd (ts_size in0)) s1;
          Some (True, out\<lparr>ts_dim := ts_dim in0 - 1, ts_size := s2\<rparr>) }
        else do {
          let d = max (ts_dim in0) (ts_dim in1);
          s2 \<leftarrow> fill (unat d - 2) 2 2 (matmul_dim in0 in1) s1;
          Some (True, out\<lparr>ts_dim := d, ts_size := s2\<rparr>) } })"

text \<open>
  The check before the setup; \<open>types_ok\<close> stands for the comparison of the element types with the
  table of the operation, which is in \<open>Op_Check\<close>. Of the batch dimensions only the first one is compared.
\<close>

definition op_matmul_check :: "bool \<Rightarrow> bool \<Rightarrow> bool \<Rightarrow> tshape \<Rightarrow> tshape \<Rightarrow> bool option" where
  "op_matmul_check types_ok tr0 tr1 in0 in1 = do {
     a0 \<leftarrow> rd (ts_size in0) 0; a1 \<leftarrow> rd (ts_size in0) 1; a2 \<leftarrow> rd (ts_size in0) 2;
     b0 \<leftarrow> rd (ts_size in1) 0; b1 \<leftarrow> rd (ts_size in1) 1; b2 \<leftarrow> rd (ts_size in1) 2;
     let matrices = (ts_dim in0 > 1 \<and> ts_dim in1 > 1);
     if \<not> types_ok then Some False
     else if (ts_dim in0 = 1 \<or> ts_dim in1 = 1) \<and> (tr0 \<or> tr1) then Some False
     else if \<not> tr0 \<and> \<not> tr1 \<and> a0 \<noteq> b1 \<and> matrices then Some False
     else if tr0 \<and> \<not> tr1 \<and> a1 \<noteq> b1 \<and> matrices then Some False
     else if \<not> tr0 \<and> tr1 \<and> a0 \<noteq> b0 \<and> matrices then Some False
     else if ts_dim in0 > 2 \<and> ts_dim in1 > 2 \<and> a2 \<noteq> 1 \<and> b2 \<noteq> 1 \<and> a2 \<noteq> b2 then Some False
     else Some True }"

subsection \<open>Reshaping\<close>

text \<open>
  One entry of the shape may be -1 and is computed from the rest of the elements; an entry 0
  stands for the size of the input. \<open>neg_idx\<close> is the place of the -1 seen so far.
\<close>

fun auto_cal_loop ::
  "vsi_size_t list \<Rightarrow> vsi_size_t \<Rightarrow> nat \<Rightarrow> nat \<Rightarrow> vsi_size_t list \<Rightarrow> vsi_size_t \<Rightarrow> nat option
   \<Rightarrow> (bool \<times> vsi_size_t list) option" where
  "auto_cal_loop input_shape input_dim i 0 shape total_size neg_idx =
     (case neg_idx of
        None \<Rightarrow> Some (True, shape)
      | Some k \<Rightarrow> map_option (Pair True) (wr shape k total_size))"
| "auto_cal_loop input_shape input_dim i (Suc n) shape total_size neg_idx = do {
     s \<leftarrow> rd shape i;
     if s \<noteq> - 1 then
       (if s = 0 then
          (if i \<ge> unat input_dim then Some (False, shape)
           else do {
             v \<leftarrow> rd input_shape i;
             shape' \<leftarrow> wr shape i v;
             total \<leftarrow> udiv total_size v;
             auto_cal_loop input_shape input_dim (Suc i) n shape' total neg_idx })
        else do {
          total \<leftarrow> udiv total_size s;
          auto_cal_loop input_shape input_dim (Suc i) n shape total neg_idx })
     else if neg_idx = None then auto_cal_loop input_shape input_dim (Suc i) n shape total_size (Some i)
     else Some (False, shape) }"

definition auto_cal_shape ::
  "vsi_size_t list \<Rightarrow> vsi_size_t \<Rightarrow> vsi_size_t list \<Rightarrow> vsi_size_t \<Rightarrow> (bool \<times> vsi_size_t list \<times> vsi_size_t) option" where
  "auto_cal_shape input_shape input_dim shape dim_num = do {
     total_size \<leftarrow> ShapeProduct input_shape (unat input_dim);
     if dim_num = - 1 then do { shape' \<leftarrow> wr shape 0 total_size; Some (True, shape', 1) }
     else do {
       r \<leftarrow> auto_cal_loop input_shape input_dim 0 (unat dim_num) shape total_size None;
       Some (fst r, snd r, dim_num) } }"

definition CalcReshapeTensor :: "tshape \<Rightarrow> tshape \<Rightarrow> vsi_size_t list \<Rightarrow> vsi_size_t \<Rightarrow> (bool \<times> tshape) option" where
  "CalcReshapeTensor input out shape dim_num =
     (if dim_num = 0 then Some (False, out)
      else do {
        r \<leftarrow> auto_cal_shape (ts_size input) (ts_dim input) shape dim_num;
        let (ok, shape', dim_num') = r;
        if \<not> ok then Some (False, out)
        else do {
          total_size \<leftarrow> ShapeProduct (ts_size input) (unat (ts_dim input));
          dst_size \<leftarrow> ShapeProduct shape' (unat dim_num');
          if total_size \<noteq> dst_size then Some (False, out)
          else if ts_dim out = 0 then do {
            sizes \<leftarrow> fill (unat dim_num') 0 0 (rd shape') (ts_size out);
            Some (True, out\<lparr>ts_size := sizes, ts_dim := dim_num'\<rparr>) }
          else Some (True, out) } })"

definition op_reshape2_setup :: "vsi_size_t list option \<Rightarrow> uint32 \<Rightarrow> tshape \<Rightarrow> tshape \<Rightarrow> (bool \<times> tshape) option" where
  "op_reshape2_setup sizes dim_num in0 out =
     (if ts_dim out \<noteq> 0 then Some (True, out)
      else case sizes of
        Some ss \<Rightarrow>
          if dim_num = 0 then do {
            s1 \<leftarrow> wr (ts_size out) 0 1;
            Some (True, out\<lparr>ts_size := s1, ts_dim := 1, ts_scalar := True\<rparr>) }
          else do {
            shape \<leftarrow> fill (unat dim_num) 0 0 (rd ss) (replicate 8 0);
            CalcReshapeTensor in0 out shape dim_num }
      | None \<Rightarrow> do {
          s1 \<leftarrow> wr (ts_size out) 0 1;
          Some (True, out\<lparr>ts_size := s1, ts_dim := 1, ts_scalar := True\<rparr>) })"

text \<open>The permutation stops at the first entry that is not a dimension.\<close>

fun permute_sizes ::
  "uint32 list \<Rightarrow> tshape \<Rightarrow> nat \<Rightarrow> nat \<Rightarrow> vsi_size_t list \<Rightarrow> (bool \<times> vsi_size_t list) option" where
  "permute_sizes perm in0 i 0 sizes = Some (True, sizes)"
| "permute_sizes perm in0 i (Suc n) sizes = do {
     axis \<leftarrow> rd perm i;
     if axis \<ge> ts_dim in0 then Some (False, sizes)
     else do {
       v \<leftarrow> rd (ts_size in0) (unat axis);
       sizes' \<leftarrow> wr sizes i v;
       permute_sizes perm in0 (Suc i) n sizes' } }"

definition op_permute_setup :: "uint32 list \<Rightarrow> uint32 \<Rightarrow> tshape \<Rightarrow> tshape \<Rightarrow> (bool \<times> tshape) option" where
  "op_permute_setup perm dim_num in0 out =
     (if dim_num \<noteq> ts_dim in0 then Some (False, out)
      else if ts_dim out \<noteq> 0 then Some (True, out)
      else do {
        r \<leftarrow> permute_sizes perm in0 0 (unat dim_num) (ts_size out);
        Some (fst r, out\<lparr>ts_dim := ts_dim in0, ts_size := snd r\<rparr>) })"

subsection \<open>Repeating, joining and padding\<close>

definition tile_dim :: "tshape \<Rightarrow> uint32 list \<Rightarrow> nat \<Rightarrow> vsi_size_t option" where
  "tile_dim in0 multiples i = do { s \<leftarrow> rd (ts_size in0) i; m \<leftarrow> rd multiples i; Some (s * m) }"

definition op_tile_setup :: "uint32 list \<Rightarrow> uint32 \<Rightarrow> tshape \<Rightarrow> tshape \<Rightarrow> (bool \<times> tshape) option" where
  "op_tile_setup multiples multiples_num in0 out =
     (if ts_dim out \<noteq> 0 then Some (True, out)
      else if ts_dim in0 \<noteq> multiples_num then Some (False, out)
      else do {
        sizes \<leftarrow> fill (unat (ts_dim in0)) 0 0 (tile_dim in0 multiples) (ts_size out);
        Some (True, out\<lparr>ts_dim := ts_dim in0, ts_size := sizes\<rparr>) })"

text \<open>The number of inputs up to the last one that is there.\<close>

fun concat_num :: "tshape option list \<Rightarrow> nat \<Rightarrow> nat" where
  "concat_num ins 0 = 0"
| "concat_num ins (Suc n) = (if ins ! n = None then concat_num ins n else Suc n)"

fun concat_loop :: "tshape option list \<Rightarrow> nat \<Rightarrow> nat \<Rightarrow> nat \<Rightarrow> vsi_size_t list \<Rightarrow> vsi_size_t list option" where
  "concat_loop ins axis i 0 sizes = Some sizes"
| "concat_loop ins axis i (Suc n) sizes = do {
     t \<leftarrow> rd ins i;
     t' \<leftarrow> t;
     v \<leftarrow> rd sizes axis;
     s \<leftarrow> rd (ts_size t') axis;
     sizes' \<leftarrow> wr sizes axis (v + s);
     concat_loop ins axis (Suc i) n sizes' }"

definition op_concat_setup :: "uint32 \<Rightarrow> tshape option list \<Rightarrow> tshape \<Rightarrow> (bool \<times> tshape) option" where
  "op_concat_setup axis ins out =
     (if ts_dim out \<noteq> 0 then Some (True, out)
      else if concat_num ins (length ins) = 0 then Some (False, out)
      else do {
        t \<leftarrow> rd ins 0;
        in0 \<leftarrow> t;
        sizes \<leftarrow> fill 8 0 0 (rd (ts_size in0)) (ts_size out);
        sizes' \<leftarrow> concat_loop ins (unat axis) 1 (concat_num ins (length ins) - 1) sizes;
        Some (True, out\<lparr>ts_dim := ts_dim in0, ts_size := sizes'\<rparr>) })"

definition pad_dim :: "uint32 list \<Rightarrow> uint32 list \<Rightarrow> tshape \<Rightarrow> nat \<Rightarrow> vsi_size_t option" where
  "pad_dim front_size back_size in0 i = do {
     f \<leftarrow> rd front_size i;
     b \<leftarrow> rd back_size i;
     s \<leftarrow> rd (ts_size in0) i;
     Some (s + f + b) }"

fun pad_check :: "uint32 list \<Rightarrow> uint32 list \<Rightarrow> tshape \<Rightarrow> tshape \<Rightarrow> nat \<Rightarrow> nat \<Rightarrow> bool option" where
  "pad_check front_size back_size in0 out i 0 = Some True"
| "pad_check front_size back_size in0 out i (Suc n) = do {
     s \<leftarrow> pad_dim front_size back_size in0 i;
     v \<leftarrow> rd (ts_size out) i;
     if s \<noteq> v then Some False else pad_check front_size back_size in0 out (Suc i) n }"

text \<open>\<open>PAD\<close> and \<open>PAD2\<close>; the number of paddings, a byte, is a parameter that is set when it is 0.\<close>

definition op_pad_setup ::
  "uint32 list \<Rightarrow> uint32 list \<Rightarrow> uint8 \<Rightarrow> tshape \<Rightarrow> tshape \<Rightarrow> (bool \<times> tshape \<times> uint8) option" where
  "op_pad_setup front_size back_size dim_num in0 out =
     (let num = (if dim_num = 0 then ucast (ts_dim in0) else dim_num)
      in if ts_dim out = 0 then do {
           sizes \<leftarrow> fill (unat num) 0 0 (pad_dim front_size back_size in0) (ts_size out);
           Some (True, out\<lparr>ts_size := sizes, ts_dim := ts_dim in0\<rparr>, num) }
         else do {
           ok \<leftarrow> pad_check front_size back_size in0 out 0 (unat num);
           Some (ok, out, num) })"

subsection \<open>Picking elements\<close>

text \<open>A scalar has rank 0; the ranks wrap around when there are more batch dimensions than dimensions.\<close>

definition op_gather_setup :: "uint32 \<Rightarrow> uint32 \<Rightarrow> tshape \<Rightarrow> tshape \<Rightarrow> tshape \<Rightarrow> (bool \<times> tshape) option" where
  "op_gather_setup axis batch_dims in0 in1 out =
     (if ts_dim out \<noteq> 0 then Some (True, out)
      else do {
        let r_rank = (if ts_scalar in0 then 0 else ts_dim in0 - batch_dims);
        let q_rank = (if ts_scalar in1 then 0 else ts_dim in1 - batch_dims);
        let o_rank = r_rank + q_rank - 1 + batch_dims;
        if o_rank = 0 then do {
          sizes \<leftarrow> wr (ts_size out) 0 1;
          Some (True, out\<lparr>ts_size := sizes, ts_dim := 1, ts_scalar := True\<rparr>) }
        else do {
          let a = unat axis;
          let q = unat q_rank;
          s1 \<leftarrow> fill a 0 0 (rd (ts_size in0)) (ts_size out);
          s2 \<leftarrow> fill q 0 a (rd (ts_size in1)) s1;
          s3 \<leftarrow> fill (unat (ts_dim in0) - unat (axis + 1)) (unat (axis + 1)) (a + q) (rd (ts_size in0)) s2;
          Some (True, out\<lparr>ts_size := s3, ts_dim := o_rank\<rparr>) } })"

definition op_gather_nd_setup :: "uint32 \<Rightarrow> tshape \<Rightarrow> tshape \<Rightarrow> tshape \<Rightarrow> (bool \<times> tshape) option" where
  "op_gather_nd_setup batch_dims in0 in1 out =
     (if ts_dim out \<noteq> 0 then Some (True, out)
      else do {
        let batch = (if batch_dims = 0 then 0 else 1);
        coord_dim \<leftarrow> (if ts_dim in1 > 1 then rd (ts_size in1) 0 else Some 1);
        let n = unat (ts_dim in0 - coord_dim - batch);
        s1 \<leftarrow> fill n 0 0 (rd (ts_size in0)) (ts_size out);
        let m = unat (ts_dim in1) - 1;
        s2 \<leftarrow> fill m 1 n (rd (ts_size in1)) s1;
        let k = (if ts_dim in1 = 1 then 1 else 0);
        s3 \<leftarrow> fill k 0 (n + m) (rd (ts_size in1)) s2;
        Some (True, out\<lparr>ts_size := s3, ts_dim := of_nat (n + m + k)\<rparr>) })"

definition op_gather_elements_setup :: "tshape \<Rightarrow> tshape \<Rightarrow> tshape \<Rightarrow> (bool \<times> tshape) option" where
  "op_gather_elements_setup in0 in1 out =
     (if ts_dim out \<noteq> 0 then Some (True, out)
      else do {
        sizes \<leftarrow> fill (unat (ts_dim in0)) 0 0 (rd (ts_size in1)) (ts_size out);
        Some (True, out\<lparr>ts_size := sizes, ts_dim := ts_dim in1\<rparr>) })"

definition op_scatter_nd_setup :: "uint32 list option \<Rightarrow> uint32 \<Rightarrow> tshape \<Rightarrow> (bool \<times> tshape) option" where
  "op_scatter_nd_setup shape dim_num out =
     (if ts_dim out \<noteq> 0 then Some (True, out)
      else case shape of
        None \<Rightarrow> Some (False, out)
      | Some ss \<Rightarrow> do {
          sizes \<leftarrow> fill (unat dim_num) 0 0 (rd ss) (ts_size out);
          Some (True, out\<lparr>ts_size := sizes, ts_dim := dim_num\<rparr>) })"

definition op_embedding_lookup_setup :: "tshape \<Rightarrow> tshape \<Rightarrow> tshape \<Rightarrow> (bool \<times> tshape) option" where
  "op_embedding_lookup_setup in0 in1 out =
     (if ts_dim out \<noteq> 0 then Some (True, out)
      else do {
        sizes \<leftarrow> fill (unat (ts_dim in1)) 0 0 (rd (ts_size in1)) (ts_size out);
        v \<leftarrow> rd (ts_size in0) 0;
        sizes' \<leftarrow> wr sizes (unat (ts_dim in1 - 1)) v;
        Some (True, out\<lparr>ts_size := sizes', ts_dim := ts_dim in1\<rparr>) })"

text \<open>The axis is a signed number; -1 stands for dimension 0.\<close>

definition one_hot_dim :: "int \<Rightarrow> vsi_size_t \<Rightarrow> tshape \<Rightarrow> nat \<Rightarrow> vsi_size_t option" where
  "one_hot_dim axis depth in0 i =
     (if int i < axis then rd (ts_size in0) i
      else if int i = axis then Some depth
      else if i = 0 then None
      else rd (ts_size in0) (i - 1))"

definition op_one_hot_setup :: "int \<Rightarrow> vsi_size_t \<Rightarrow> tshape \<Rightarrow> tshape \<Rightarrow> (bool \<times> tshape) option" where
  "op_one_hot_setup axis depth in0 out =
     (if ts_dim out \<noteq> 0 then Some (True, out)
      else do {
        let dims = ts_dim in0 + 1;
        sizes \<leftarrow> fill (nat (sint dims)) 0 0 (one_hot_dim (if axis = - 1 then 0 else axis) depth in0) (ts_size out);
        Some (True, out\<lparr>ts_size := sizes, ts_dim := dims\<rparr>) })"

definition op_sequence_mask_setup :: "vsi_size_t \<Rightarrow> tshape \<Rightarrow> tshape \<Rightarrow> (bool \<times> tshape) option" where
  "op_sequence_mask_setup maxlen in0 out =
     (if ts_dim out \<noteq> 0 then Some (True, out)
      else do {
        s0 \<leftarrow> wr (ts_size out) 0 maxlen;
        sizes \<leftarrow> fill (unat (ts_dim in0)) 0 1 (rd (ts_size in0)) s0;
        Some (True, out\<lparr>ts_size := sizes, ts_dim := ts_dim in0 + 1\<rparr>) })"

subsection \<open>Blocks between space, batch and depth\<close>

definition op_batch2space_setup :: "uint32 list \<Rightarrow> uint32 list \<Rightarrow> tshape \<Rightarrow> tshape \<Rightarrow> (bool \<times> tshape) option" where
  "op_batch2space_setup block_size crop in0 out =
     (if ts_dim out \<noteq> 0 then Some (True, out)
      else if is_3d_tensor in0 then do {
        b0 \<leftarrow> rd block_size 0; c0 \<leftarrow> rd crop 0; c1 \<leftarrow> rd crop 1;
        i0 \<leftarrow> rd (ts_size in0) 0; i1 \<leftarrow> rd (ts_size in0) 1; i2 \<leftarrow> rd (ts_size in0) 2;
        q2 \<leftarrow> udiv i2 b0;
        o2 \<leftarrow> wr (ts_size out) 2 q2;
        o1 \<leftarrow> wr o2 1 i1;
        o0 \<leftarrow> wr o1 0 (i0 * b0 - c0 - c1);
        Some (True, out\<lparr>ts_dim := ts_dim in0, ts_size := o0\<rparr>) }
      else do {
        b0 \<leftarrow> rd block_size 0; b1 \<leftarrow> rd block_size 1;
        c0 \<leftarrow> rd crop 0; c1 \<leftarrow> rd crop 1; c2 \<leftarrow> rd crop 2; c3 \<leftarrow> rd crop 3;
        i0 \<leftarrow> rd (ts_size in0) 0; i1 \<leftarrow> rd (ts_size in0) 1; i2 \<leftarrow> rd (ts_size in0) 2; i3 \<leftarrow> rd (ts_size in0) 3;
        q \<leftarrow> udiv i3 b0;
        q3 \<leftarrow> udiv q b1;
        o3 \<leftarrow> wr (ts_size out) 3 q3;
        o2 \<leftarrow> wr o3 2 i2;
        o1 \<leftarrow> wr o2 1 (i1 * b1 - c2 - c3);
        o0 \<leftarrow> wr o1 0 (i0 * b0 - c0 - c1);
        Some (True, out\<lparr>ts_dim := ts_dim in0, ts_size := o0\<rparr>) })"

definition op_space2batch_setup :: "uint32 list \<Rightarrow> uint32 list \<Rightarrow> tshape \<Rightarrow> tshape \<Rightarrow> (bool \<times> tshape) option" where
  "op_space2batch_setup block_size pad in0 out =
     (if ts_dim out \<noteq> 0 then Some (True, out)
      else if is_3d_tensor in0 then do {
        b0 \<leftarrow> rd block_size 0; p0 \<leftarrow> rd pad 0; p1 \<leftarrow> rd pad 1;
        i0 \<leftarrow> rd (ts_size in0) 0; i1 \<leftarrow> rd (ts_size in0) 1; i2 \<leftarrow> rd (ts_size in0) 2;
        o2 \<leftarrow> wr (ts_size out) 2 (i2 * b0);
        o1 \<leftarrow> wr o2 1 i1;
        q0 \<leftarrow> udiv (p0 + p1 + i0) b0;
        o0 \<leftarrow> wr o1 0 q0;
        Some (True, out\<lparr>ts_dim := ts_dim in0, ts_size := o0\<rparr>) }
      else do {
        b0 \<leftarrow> rd block_size 0; b1 \<leftarrow> rd block_size 1;
        p0 \<leftarrow> rd pad 0; p1 \<leftarrow> rd pad 1; p2 \<leftarrow> rd pad 2; p3 \<leftarrow> rd pad 3;
        i0 \<leftarrow> rd (ts_size in0) 0; i1 \<leftarrow> rd (ts_size in0) 1; i2 \<leftarrow> rd (ts_size in0) 2; i3 \<leftarrow> rd (ts_size in0) 3;
        o3 \<leftarrow> wr (ts_size out) 3 (i3 * b0 * b1);
        o2 \<leftarrow> wr o3 2 i2;
        q1 \<leftarrow> udiv (p2 + p3 + i1) b1;
        o1 \<leftarrow> wr o2 1 q1;
        q0 \<leftarrow> udiv (p0 + p1 + i0) b0;
        o0 \<leftarrow> wr o1 0 q0;
        Some (True, out\<lparr>ts_dim := ts_dim in0, ts_size := o0\<rparr>) })"

definition op_reorg_setup :: "uint32 \<Rightarrow> tshape \<Rightarrow> tshape \<Rightarrow> (bool \<times> tshape) option" where
  "op_reorg_setup stride in0 out =
     (if ts_dim out \<noteq> 0 then Some (True, out)
      else do {
        sizes \<leftarrow> fill 8 0 0 (rd (ts_size in0)) (ts_size out);
        i0 \<leftarrow> rd (ts_size in0) 0; i1 \<leftarrow> rd (ts_size in0) 1; i2 \<leftarrow> rd (ts_size in0) 2;
        q0 \<leftarrow> udiv i0 stride;
        o0 \<leftarrow> wr sizes 0 q0;
        q1 \<leftarrow> udiv i1 stride;
        o1 \<leftarrow> wr o0 1 q1;
        o2 \<leftarrow> wr o1 2 (i2 * stride * stride);
        Some (True, out\<lparr>ts_dim := ts_dim in0, ts_size := o2\<rparr>) })"

subsection \<open>Windows\<close>

record pool_param =
  po_round :: vsi_nn_round_type
  po_ksize :: "uint32 list"
  po_stride :: "uint32 list"
  po_pad :: "uint32 list"
  po_pad_type :: vsi_nn_pad
  po_dilation :: "uint32 list"

definition is_pool1d :: "'s graph \<Rightarrow> tshape \<Rightarrow> bool" where
  "is_pool1d g in0 = (compareVersion g 1 1 31 \<noteq> - 1 \<and> ts_dim in0 = 3)"

text \<open>One spatial axis of the output; its paddings start at entry \<open>2 * i\<close>.\<close>

definition pool_axis :: "pool_param \<Rightarrow> tshape \<Rightarrow> nat \<Rightarrow> vsi_size_t option" where
  "pool_axis p in0 i = do {
     s \<leftarrow> rd (ts_size in0) i; k \<leftarrow> rd (po_ksize p) i; st \<leftarrow> rd (po_stride p) i; d \<leftarrow> rd (po_dilation p) i;
     ComputeFilterSize s k (drop (2 * i) (po_pad p)) st d (po_round p) }"

definition op_pool_setup ::
  "'s graph \<Rightarrow> pool_param \<Rightarrow> tshape \<Rightarrow> tshape \<Rightarrow> (bool \<times> tshape \<times> pool_param) option" where
  "op_pool_setup g p in0 out =
     (if is_pool1d g in0 then do {
        pad \<leftarrow> compute_padding_conv1d (ts_size in0) (po_ksize p) (po_stride p) (Some (po_dilation p))
          (po_pad_type p) (po_pad p);
        let p1 = p\<lparr>po_pad := pad\<rparr>;
        n0 \<leftarrow> pool_axis p1 in0 0;
        o0 \<leftarrow> wr (ts_size out) 0 n0;
        sizes \<leftarrow> fill 2 1 1 (rd (ts_size in0)) o0;
        Some (True, out\<lparr>ts_size := sizes, ts_dim := ts_dim in0\<rparr>, p1) }
      else do {
        pad \<leftarrow> compute_padding (ts_size in0) (po_ksize p) (po_stride p) (Some (po_dilation p))
          (po_pad_type p) (po_pad p);
        let p1 = p\<lparr>po_pad := pad\<rparr>;
        n0 \<leftarrow> pool_axis p1 in0 0;
        o0 \<leftarrow> wr (ts_size out) 0 n0;
        n1 \<leftarrow> pool_axis p1 in0 1;
        o1 \<leftarrow> wr o0 1 n1;
        sizes \<leftarrow> fill (unat (ts_dim in0) - 2) 2 2 (rd (ts_size in0)) o1;
        Some (True, out\<lparr>ts_size := sizes, ts_dim := ts_dim in0\<rparr>, p1) })"

text \<open>
  Weights in the order NHWC are transposed once, by the function \<open>transpose_weights\<close> of the
  tensor library.
\<close>

record wshape = tshape +
  wt_nhwc :: bool
  wt_vdata :: bool
  wt_processed :: bool

record conv2d_param =
  co_stride :: "uint32 list"
  co_pad :: "uint32 list"
  co_pad_type :: vsi_nn_pad
  co_weights :: uint32
  co_dilation :: "uint32 list"
  co_multiplier :: "32 word"

definition conv2d_axis :: "conv2d_param \<Rightarrow> tshape \<Rightarrow> wshape \<Rightarrow> nat \<Rightarrow> vsi_size_t option" where
  "conv2d_axis p in0 w i = do {
     s \<leftarrow> rd (ts_size in0) i; k \<leftarrow> rd (ts_size w) i; st \<leftarrow> rd (co_stride p) i; d \<leftarrow> rd (co_dilation p) i;
     ComputeFilterSize s k (drop (2 * i) (co_pad p)) st d ROUND_FLOOR }"

definition op_conv2d_setup ::
  "(wshape \<Rightarrow> wshape) \<Rightarrow> conv2d_param \<Rightarrow> tshape \<Rightarrow> wshape \<Rightarrow> tshape
   \<Rightarrow> (bool \<times> tshape \<times> conv2d_param \<times> wshape) option" where
  "op_conv2d_setup transpose_weights p in0 weight out = do {
     let w1 = (if wt_nhwc weight \<and> \<not> wt_vdata weight \<and> \<not> wt_processed weight
               then (transpose_weights weight)\<lparr>wt_nhwc := False\<rparr> else weight);
     let w = w1\<lparr>wt_processed := True\<rparr>;
     pad \<leftarrow> compute_padding (ts_size in0) (ts_size w) (co_stride p) (Some (co_dilation p)) (co_pad_type p) (co_pad p);
     let p1 = p\<lparr>co_pad := pad\<rparr>;
     if ts_dim out \<noteq> 0 then Some (True, out, p1, w)
     else do {
       n0 \<leftarrow> conv2d_axis p1 in0 w 0;
       o0 \<leftarrow> wr (ts_size out) 0 n0;
       n1 \<leftarrow> conv2d_axis p1 in0 w 1;
       o1 \<leftarrow> wr o0 1 n1;
       i2 \<leftarrow> rd (ts_size in0) 2;
       w3 \<leftarrow> rd (ts_size w) 3;
       o2 \<leftarrow> wr o1 2 (if co_weights p > 0 then co_weights p
                      else if 0 <s co_multiplier p then i2 * co_multiplier p else w3);
       i3 \<leftarrow> rd (ts_size in0) 3;
       o3 \<leftarrow> wr o2 3 i3;
       Some (True, out\<lparr>ts_size := o3, ts_dim := ts_dim in0\<rparr>, p1, w) } }"

end
