(* ===== verification/Kernel_Shape.thy ===== *)
theory Kernel_Shape
  imports Vsi_Prelude
begin

text \<open>
  The shape optimizer for element-wise kernels of
  \<^verbatim>\<open>src/tim/vx/internal/src/kernel/vsi_nn_kernel_eltwise.c\<close>: it drops the
  dimensions of size 1, merges neighbouring dimensions that broadcast the same inputs,
  and splits a dimension that is too wide for the GPU in two, for two inputs
  (\<open>optimize_eltwise_shape\<close>) and for up to 30 (\<open>optimize_broadcast_shape\<close>).

  Shapes are lists with the fastest dimension first. The output arrays are the caller's
  arrays of \<open>VSI_NN_MAX_DIM_NUM\<close> entries; a write behind their end is \<open>None\<close>. The bit mask
  of the inputs that broadcast along a dimension is the list of its bits.
\<close>

definition GPU_TENSOR_MAX_WIDTH :: vsi_size_t where "GPU_TENSOR_MAX_WIDTH = 65536"
definition MAX_DIM_NUM :: nat where "MAX_DIM_NUM = 8"
definition MAX_INPUT_NUM :: nat where "MAX_INPUT_NUM = 30"

subsection \<open>The divisor\<close>

fun gpu_divisor_loop :: "nat \<Rightarrow> nat \<Rightarrow> nat \<Rightarrow> nat option" where
  "gpu_divisor_loop v g 0 = None"
| "gpu_divisor_loop v g (Suc i) =
     (if Suc i mod g = 0 \<and> v mod Suc i = 0 then Some (Suc i) else gpu_divisor_loop v g i)"

definition compute_gpu_divisor :: "vsi_size_t \<Rightarrow> vsi_size_t \<Rightarrow> nat \<Rightarrow> vsi_size_t option" where
  "compute_gpu_divisor input_value limit g =
     map_option of_nat (gpu_divisor_loop (unat input_value) g (unat (min input_value (limit - 1))))"

subsection \<open>Filling the output arrays\<close>

fun write_col :: "vsi_size_t list list \<Rightarrow> nat \<Rightarrow> vsi_size_t list \<Rightarrow> vsi_size_t list list option" where
  "write_col [] rank vs = Some []"
| "write_col (a # as) rank [] = None"
| "write_col (a # as) rank (v # vs) = do {
     a' \<leftarrow> wr a rank v;
     as' \<leftarrow> write_col as rank vs;
     Some (a' # as') }"

text \<open>
  The result is the new number of dimensions (the old one plus the cost, on 32 bits) with
  the arrays.
\<close>

definition broadcast_fill_dim ::
  "vsi_size_t list list \<Rightarrow> vsi_size_t list \<Rightarrow> nat \<Rightarrow> vsi_size_t list \<Rightarrow> vsi_size_t
   \<Rightarrow> (nat \<times> vsi_size_t list list \<times> vsi_size_t list) option" where
  "broadcast_fill_dim shape_in shape_output rank size_in size_output =
     (let plain = do {
            ins \<leftarrow> write_col shape_in rank size_in;
            out \<leftarrow> wr shape_output rank size_output;
            Some (rank + 1, ins, out) }
      in if size_output < GPU_TENSOR_MAX_WIDTH then plain
         else case compute_gpu_divisor size_output GPU_TENSOR_MAX_WIDTH 1 of
           None \<Rightarrow> Some ((rank + 2 ^ 32 - 1) mod 2 ^ 32, shape_in, shape_output)
         | Some divisor \<Rightarrow>
             let remainder = size_output div divisor
             in if remainder > GPU_TENSOR_MAX_WIDTH \<or> rank \<ge> MAX_DIM_NUM then plain
                else do {
                  ins1 \<leftarrow> write_col shape_in rank (map (\<lambda>s. if s > 1 then divisor else 1) size_in);
                  ins2 \<leftarrow> write_col ins1 (rank + 1) (map (\<lambda>s. if s > 1 then remainder else 1) size_in);
                  out1 \<leftarrow> wr shape_output rank divisor;
                  out2 \<leftarrow> wr out1 (rank + 1) remainder;
                  Some (rank + 2, ins2, out2) })"

subsection \<open>The broadcast optimizer\<close>

fun max_size :: "vsi_size_t list \<Rightarrow> vsi_size_t" where
  "max_size [] = 0"
| "max_size [s] = s"
| "max_size (s # t # ss) = max_size (max s t # ss)"

text \<open>The sizes of the inputs along dimension \<open>i\<close>: 1 behind the rank of an input.\<close>

definition sizes_at :: "vsi_size_t list list \<Rightarrow> nat \<Rightarrow> vsi_size_t list" where
  "sizes_at shapes i = map (\<lambda>s. if i < length s then s ! i else 1) shapes"

definition first_wide :: "vsi_size_t list \<Rightarrow> vsi_size_t" where
  "first_wide sizes = (case filter (\<lambda>s. s > 1) sizes of [] \<Rightarrow> hd sizes | s # _ \<Rightarrow> s)"

definition broadcast_mismatch :: "vsi_size_t list \<Rightarrow> bool" where
  "broadcast_mismatch sizes = list_ex (\<lambda>s. first_wide sizes \<noteq> s \<and> s > 1) sizes"

record bc_state =
  bc_eff :: "vsi_size_t list"
  bc_prev :: "bool list option"
  bc_dims :: nat
  bc_ins :: "vsi_size_t list list"
  bc_out :: "vsi_size_t list"

text \<open>One dimension: \<open>Some None\<close> is the return of \<open>FALSE\<close>.\<close>

definition broadcast_step ::
  "vsi_size_t list \<Rightarrow> vsi_size_t \<Rightarrow> bc_state \<Rightarrow> bc_state option option" where
  "broadcast_step size_in so st =
     (if so = 1 then Some (Some st)
      else if broadcast_mismatch size_in then Some None
      else let mask = map (\<lambda>s. s = 1) size_in in
        if bc_prev st = None \<or> bc_prev st = Some mask then
          Some (Some (st\<lparr>bc_eff := map2 (*) (bc_eff st) size_in, bc_prev := Some mask\<rparr>))
        else do {
          (dims, ins, out) \<leftarrow> broadcast_fill_dim (bc_ins st) (bc_out st) (bc_dims st)
             (bc_eff st) (max_size (bc_eff st));
          Some (Some (st\<lparr>bc_eff := size_in, bc_prev := Some mask, bc_dims := dims,
            bc_ins := ins, bc_out := out\<rparr>)) })"

fun broadcast_loop ::
  "vsi_size_t list list \<Rightarrow> nat \<Rightarrow> vsi_size_t list \<Rightarrow> bc_state \<Rightarrow> bc_state option option" where
  "broadcast_loop shapes i [] st = Some (Some st)"
| "broadcast_loop shapes i (so # sos) st = do {
     r \<leftarrow> broadcast_step (sizes_at shapes i) so st;
     case r of None \<Rightarrow> Some None | Some st' \<Rightarrow> broadcast_loop shapes (Suc i) sos st' }"

definition fix_zeros :: "nat \<Rightarrow> vsi_size_t list \<Rightarrow> vsi_size_t list option" where
  "fix_zeros dims a =
     (if dims \<le> length a then Some (map (\<lambda>s. if s = 0 then 1 else s) (take dims a) @ drop dims a)
      else None)"

fun fix_all :: "nat \<Rightarrow> vsi_size_t list list \<Rightarrow> vsi_size_t list list option" where
  "fix_all dims [] = Some []"
| "fix_all dims (a # as) = do { a' \<leftarrow> fix_zeros dims a; as' \<leftarrow> fix_all dims as; Some (a' # as') }"

definition optimize_broadcast_shape ::
  "vsi_size_t list list \<Rightarrow> vsi_size_t list \<Rightarrow> vsi_size_t list list \<Rightarrow> vsi_size_t list
   \<Rightarrow> (vsi_size_t list list \<times> vsi_size_t list \<times> nat) option option" where
  "optimize_broadcast_shape shape_in shape_output out_shape_in out_shape_output =
     (if length shape_in > MAX_INPUT_NUM then Some None
      else do {
        r \<leftarrow> broadcast_loop shape_in 0 shape_output
          \<lparr>bc_eff = map (\<lambda>_. 1) shape_in, bc_prev = None, bc_dims = 0, bc_ins = out_shape_in,
           bc_out = out_shape_output\<rparr>;
        case r of
          None \<Rightarrow> Some None
        | Some st \<Rightarrow> do {
            (dims, ins, out) \<leftarrow> broadcast_fill_dim (bc_ins st) (bc_out st) (bc_dims st)
               (bc_eff st) (max_size (bc_eff st));
            if dims = 1 then do {
              ins' \<leftarrow> write_col ins 1 (map (\<lambda>_. 1) shape_in);
              out' \<leftarrow> wr out 1 1;
              Some (Some (ins', out', 2)) }
            else do {
              ins' \<leftarrow> fix_all dims ins;
              Some (Some (ins', out, dims)) } } })"

subsection \<open>The two-input optimizer\<close>

definition eltwise_fill_dim ::
  "vsi_size_t list \<Rightarrow> vsi_size_t list \<Rightarrow> vsi_size_t list \<Rightarrow> nat \<Rightarrow> vsi_size_t \<Rightarrow> vsi_size_t
   \<Rightarrow> vsi_size_t \<Rightarrow> (nat \<times> vsi_size_t list \<times> vsi_size_t list \<times> vsi_size_t list) option" where
  "eltwise_fill_dim shape_x shape_y shape_output rank size_x size_y size_output =
     (let plain = do {
            xs \<leftarrow> wr shape_x rank size_x;
            ys \<leftarrow> wr shape_y rank size_y;
            out \<leftarrow> wr shape_output rank size_output;
            Some (rank + 1, xs, ys, out) }
      in if size_output < GPU_TENSOR_MAX_WIDTH then plain
         else case compute_gpu_divisor size_output GPU_TENSOR_MAX_WIDTH 1 of
           None \<Rightarrow> Some ((rank + 2 ^ 32 - 1) mod 2 ^ 32, shape_x, shape_y, shape_output)
         | Some divisor \<Rightarrow>
             let remainder = size_output div divisor
             in if remainder > GPU_TENSOR_MAX_WIDTH \<or> rank \<ge> MAX_DIM_NUM then plain
                else do {
                  xs1 \<leftarrow> wr shape_x rank (if size_x > 1 then divisor else 1);
                  xs2 \<leftarrow> wr xs1 (rank + 1) (if size_x > 1 then remainder else 1);
                  ys1 \<leftarrow> wr shape_y rank (if size_y > 1 then divisor else 1);
                  ys2 \<leftarrow> wr ys1 (rank + 1) (if size_y > 1 then remainder else 1);
                  out1 \<leftarrow> wr shape_output rank divisor;
                  out2 \<leftarrow> wr out1 (rank + 1) remainder;
                  Some (rank + 2, xs2, ys2, out2) })"

datatype eltwise_state = Broadcast_X | Broadcast_Y | No_Broadcast | Empty_State

record elt_state =
  elt_x :: vsi_size_t
  elt_y :: vsi_size_t
  elt_prev :: eltwise_state
  elt_dims :: nat
  elt_xs :: "vsi_size_t list"
  elt_ys :: "vsi_size_t list"
  elt_out :: "vsi_size_t list"

definition eltwise_class :: "vsi_size_t \<Rightarrow> vsi_size_t \<Rightarrow> eltwise_state" where
  "eltwise_class sx sy =
     (if sx = sy then No_Broadcast else if sx = 1 then Broadcast_X
      else if sy = 1 then Broadcast_Y else Empty_State)"

text \<open>
  The \<open>switch\<close> on the pair of states. Its default case, an \<open>Empty_State\<close> after the first
  dimension, only logs (the assertions are compiled out).
\<close>

definition eltwise_step ::
  "vsi_size_t \<Rightarrow> vsi_size_t \<Rightarrow> vsi_size_t \<Rightarrow> elt_state \<Rightarrow> elt_state option option" where
  "eltwise_step sx sy so st =
     (if so = 1 then Some (Some st)
      else if sx \<noteq> sy \<and> sx > 1 \<and> sy > 1 then Some None
      else let state = eltwise_class sx sy in
        if elt_prev st = Empty_State then
          Some (Some (st\<lparr>elt_x := elt_x st * sx, elt_y := elt_y st * sy, elt_prev := state\<rparr>))
        else if elt_prev st = No_Broadcast \<and> state = No_Broadcast then
          Some (Some (st\<lparr>elt_x := elt_x st * sx, elt_y := elt_y st * sy, elt_prev := state\<rparr>))
        else if elt_prev st = Broadcast_X \<and> state = Broadcast_X then
          Some (Some (st\<lparr>elt_y := elt_y st * sy, elt_prev := state\<rparr>))
        else if elt_prev st = Broadcast_Y \<and> state = Broadcast_Y then
          Some (Some (st\<lparr>elt_x := elt_x st * sx, elt_prev := state\<rparr>))
        else if state = Empty_State then Some (Some (st\<lparr>elt_prev := state\<rparr>))
        else do {
          (dims, xs, ys, out) \<leftarrow> eltwise_fill_dim (elt_xs st) (elt_ys st) (elt_out st) (elt_dims st)
             (elt_x st) (elt_y st) (max (elt_x st) (elt_y st));
          Some (Some (st\<lparr>elt_x := sx, elt_y := sy, elt_prev := state, elt_dims := dims,
            elt_xs := xs, elt_ys := ys, elt_out := out\<rparr>)) })"

fun eltwise_loop ::
  "vsi_size_t list \<Rightarrow> vsi_size_t list \<Rightarrow> nat \<Rightarrow> vsi_size_t list \<Rightarrow> elt_state \<Rightarrow> elt_state option option" where
  "eltwise_loop shape_x shape_y i [] st = Some (Some st)"
| "eltwise_loop shape_x shape_y i (so # sos) st = do {
     r \<leftarrow> eltwise_step (if i < length shape_x then shape_x ! i else 1)
            (if i < length shape_y then shape_y ! i else 1) so st;
     case r of None \<Rightarrow> Some None | Some st' \<Rightarrow> eltwise_loop shape_x shape_y (Suc i) sos st' }"

definition optimize_eltwise_shape ::
  "vsi_size_t list \<Rightarrow> vsi_size_t list \<Rightarrow> vsi_size_t list
   \<Rightarrow> vsi_size_t list \<Rightarrow> vsi_size_t list \<Rightarrow> vsi_size_t list
   \<Rightarrow> (vsi_size_t list \<times> vsi_size_t list \<times> vsi_size_t list \<times> nat) option option" where
  "optimize_eltwise_shape shape_x shape_y shape_output out_x out_y out_o = do {
     r \<leftarrow> eltwise_loop shape_x shape_y 0 shape_output
       \<lparr>elt_x = 1, elt_y = 1, elt_prev = Empty_State, elt_dims = 0, elt_xs = out_x, elt_ys = out_y,
        elt_out = out_o\<rparr>;
     case r of
       None \<Rightarrow> Some None
     | Some st \<Rightarrow> do {
         (dims, xs, ys, out) \<leftarrow> eltwise_fill_dim (elt_xs st) (elt_ys st) (elt_out st) (elt_dims st)
            (elt_x st) (elt_y st) (max (elt_x st) (elt_y st));
         if dims = 1 then do {
           xs' \<leftarrow> wr xs 1 1;
           ys' \<leftarrow> wr ys 1 1;
           out' \<leftarrow> wr out 1 1;
           Some (Some (xs', ys', out', 2)) }
         else Some (Some (xs, ys, out, dims)) } }"


subsection \<open>The divisor is the largest one below the limit\<close>

lemma gpu_divisor_loop_Some:
  "gpu_divisor_loop v g n = Some d \<Longrightarrow>
   0 < d \<and> d \<le> n \<and> g dvd d \<and> d dvd v \<and> (\<forall>e. 0 < e \<and> e \<le> n \<and> g dvd e \<and> e dvd v \<longrightarrow> e \<le> d)"
proof (induction n)
  case (Suc n)
  show ?case
  proof (cases "Suc n mod g = 0 \<and> v mod Suc n = 0")
    case True
    then show ?thesis using Suc.prems by (auto simp: dvd_eq_mod_eq_0)
  next
    case False
    then have "gpu_divisor_loop v g n = Some d" using Suc.prems by (simp del: One_nat_def split: if_splits)
    from Suc.IH[OF this] show ?thesis
      using False by (auto simp: dvd_eq_mod_eq_0 le_Suc_eq)
  qed
qed simp

lemma gpu_divisor_loop_one: "0 < n \<Longrightarrow> gpu_divisor_loop v 1 n \<noteq> None"
proof (induction n)
  case (Suc n)
  then show ?case by (cases n) auto
qed simp

lemma compute_gpu_divisor_spec:
  assumes "0 < v" "1 < limit"
  obtains d where "compute_gpu_divisor v limit 1 = Some d" "0 < d" "d < limit" "unat d dvd unat v"
    "\<And>e. e < limit \<Longrightarrow> unat e dvd unat v \<Longrightarrow> e \<le> d"
proof -
  let ?n = "unat (min v (limit - 1))"
  have l: "unat (limit - 1) = unat limit - 1" using assms(2)
    by (subst unat_sub_le) (auto intro: order_less_imp_le)
  have l1: "1 < unat limit" using assms(2) by (simp add: word_less_nat_alt)
  have n: "?n = min (unat v) (unat limit - 1)" using l by (simp add: min_def word_le_nat_alt)
  have v: "0 < unat v" using assms(1) by (simp add: word_less_nat_alt)
  then have "0 < ?n" using n l1 by simp
  then obtain d where d: "gpu_divisor_loop (unat v) 1 ?n = Some d"
    using gpu_divisor_loop_one by blast
  note sp = gpu_divisor_loop_Some[OF d]
  have "d < 2 ^ 32" using sp n unsigned_less[of v, where ?'a = nat] by simp
  then have u: "unat (of_nat d :: vsi_size_t) = d" by (simp add: unat_of_nat take_bit_nat_eq_self)
  show ?thesis
  proof (rule that[of "of_nat d"])
    show "compute_gpu_divisor v limit 1 = Some (of_nat d)" unfolding compute_gpu_divisor_def d by simp
    show "0 < (of_nat d :: vsi_size_t)" using sp u by (simp add: word_less_nat_alt)
    have "d < unat limit" using sp n l1 by linarith
    then show "of_nat d < limit" using u by (simp add: word_less_nat_alt)
    show "unat (of_nat d :: vsi_size_t) dvd unat v" using sp u by simp
    fix e :: vsi_size_t assume e: "e < limit" "unat e dvd unat v"
    have "0 < unat e" using e(2) v by (metis dvd_0_left gr0I less_irrefl)
    moreover have "unat e \<le> ?n" using e v n by (auto simp: word_less_nat_alt dvd_imp_le)
    ultimately have "unat e \<le> d" using sp e(2) by auto
    then show "e \<le> of_nat d" using u by (simp add: word_le_nat_alt)
  qed
qed

subsection \<open>The meaning of a broadcast shape\<close>

text \<open>
  A list of pairs (size of the input, size of the output), fastest dimension first.
  \<open>bidx ps i\<close> is the position in the input that the element at position \<open>i\<close> of the output
  reads, where an input of size 1 is broadcast. Two lists are equivalent when they read
  the same positions and have the same numbers of elements.
\<close>

fun bidx :: "(nat \<times> nat) list \<Rightarrow> nat \<Rightarrow> nat" where
  "bidx [] i = 0"
| "bidx ((x, n) # ps) i = (if x = 1 then 0 else i mod n) + x * bidx ps (i div n)"

definition num_in :: "(nat \<times> nat) list \<Rightarrow> nat" where
  "num_in ps = prod_list (map fst ps)"

definition num_out :: "(nat \<times> nat) list \<Rightarrow> nat" where
  "num_out ps = prod_list (map snd ps)"

definition same_view :: "(nat \<times> nat) list \<Rightarrow> (nat \<times> nat) list \<Rightarrow> bool" where
  "same_view ps qs \<longleftrightarrow> bidx ps = bidx qs \<and> num_in ps = num_in qs \<and> num_out ps = num_out qs"

lemma num_append: "num_in (ps @ qs) = num_in ps * num_in qs" "num_out (ps @ qs) = num_out ps * num_out qs"
  by (simp_all add: num_in_def num_out_def)

lemma bidx_append: "bidx (ps @ qs) i = bidx ps i + num_in ps * bidx qs (i div num_out ps)"
  by (induction ps i rule: bidx.induct)
    (auto simp: num_in_def num_out_def algebra_simps div_mult2_eq)

lemma same_view_refl [simp]: "same_view ps ps"
  by (simp add: same_view_def)

lemma same_view_trans: "same_view a b \<Longrightarrow> same_view b c \<Longrightarrow> same_view a c"
  by (simp add: same_view_def)

lemma same_view_append: "same_view a b \<Longrightarrow> same_view c d \<Longrightarrow> same_view (a @ c) (b @ d)"
  by (auto simp: same_view_def num_append bidx_append fun_eq_iff)

lemma view_drop_one: "same_view [(1, 1)] []"
  by (auto simp: same_view_def num_in_def num_out_def fun_eq_iff)

lemma mod_mult_split: "(i :: nat) mod (a * b) = i mod a + a * (i div a mod b)"
  by (metis add.commute mod_mult2_eq)

lemma view_merge_same: "a \<noteq> 1 \<Longrightarrow> b \<noteq> 1 \<Longrightarrow> same_view [(a, a), (b, b)] [(a * b, a * b)]"
  by (auto simp: same_view_def num_in_def num_out_def fun_eq_iff mod_mult_split)

lemma view_merge_one: "same_view [(1, a), (1, b)] [(1, a * b)]"
  by (auto simp: same_view_def num_in_def num_out_def fun_eq_iff)


subsection \<open>What is written\<close>

definition view :: "vsi_size_t list \<Rightarrow> vsi_size_t list \<Rightarrow> nat \<Rightarrow> (nat \<times> nat) list" where
  "view a out d = zip (map unat (take d a)) (map unat (take d out))"

lemma view_write:
  assumes "wr a d v = Some a'" "wr out d u = Some out'"
  shows "view a' out' (Suc d) = view a out d @ [(unat v, unat u)]"
  using assms by (auto simp: wr_eq_Some_iff view_def take_Suc_conv_app_nth zip_append1)

lemma write_col_spec:
  "write_col as d vs = Some as' \<Longrightarrow>
   length as' = length as \<and> (\<forall>j < length as. j < length vs \<and> wr (as ! j) d (vs ! j) = Some (as' ! j))"
proof (induction as d vs arbitrary: as' rule: write_col.induct)
  case (3 a as d v vs)
  then obtain a' as1 where "wr a d v = Some a'" "write_col as d vs = Some as1" "as' = a' # as1" by auto
  with 3(1)[OF this(1)] show ?case by (auto simp: nth_Cons split: nat.splits)
qed auto

text \<open>
  Sizes along a group of dimensions: each input has size 1 or the size of the output, which
  one of them has.
\<close>

definition group_ok :: "vsi_size_t list \<Rightarrow> vsi_size_t \<Rightarrow> bool" where
  "group_ok sizes so \<longleftrightarrow> 0 < so \<and> (\<forall>s \<in> set sizes. s = 1 \<or> s = so) \<and> (so \<noteq> 1 \<longrightarrow> so \<in> set sizes)"

lemma word_gt_1: "(1 :: vsi_size_t) < s \<longleftrightarrow> s \<noteq> 0 \<and> s \<noteq> 1"
proof -
  have "1 < unat s \<longleftrightarrow> unat s \<noteq> 0 \<and> unat s \<noteq> 1" by linarith
  then show ?thesis using unat_eq_iff[of s 1] by (simp add: word_less_nat_alt unat_gt_0)
qed

lemma split_sizes:
  fixes so d :: vsi_size_t
  assumes "unat d dvd unat so" "0 < so"
  shows "unat d * unat (so div d) = unat so" "unat d \<noteq> 0"
  using assms by (auto simp: unat_div word_less_nat_alt)

lemma view_split:
  assumes "unat d dvd unat so" "GPU_TENSOR_MAX_WIDTH \<le> so" "d < GPU_TENSOR_MAX_WIDTH" "s = 1 \<or> s = so"
  shows "same_view [(unat (if s > 1 then d else 1), unat d),
      (unat (if s > 1 then so div d else 1), unat (so div d))] [(unat s, unat so)]"
proof -
  have so: "0 < so" "1 < so" using assms(2) by (auto simp: GPU_TENSOR_MAX_WIDTH_def word_le_nat_alt word_less_nat_alt)
  note sp = split_sizes[OF assms(1) so(1)]
  have rem: "unat (so div d) \<noteq> 1"
  proof
    assume "unat (so div d) = 1"
    then have "d = so" using sp(1) by (simp add: unat_eq_iff)
    then show False using assms(2,3) by simp
  qed
  from assms(4) show ?thesis
  proof
    assume "s = 1"
    then show ?thesis using view_merge_one[of "unat d" "unat (so div d)"] sp(1) by simp
  next
    assume s: "s = so"
    show ?thesis
    proof (cases "unat d = 1")
      case True
      then have "unat (so div d) = unat so" using sp(1) by simp
      then show ?thesis using True s so(2)
        by (auto simp: same_view_def num_in_def num_out_def fun_eq_iff)
    next
      case False
      then show ?thesis using view_merge_same[OF False rem] s so(2) sp(1) by simp
    qed
  qed
qed

lemma fill_dim_view:
  assumes fill: "broadcast_fill_dim ins out d sizes so = Some (d', ins', out')"
    and ok: "group_ok sizes so" and len: "length sizes = length ins"
  shows "length ins' = length ins \<and> d < d' \<and> d' \<le> d + 2 \<and> d' \<le> length out' \<and>
    (\<forall>j < length ins. d' \<le> length (ins' ! j)) \<and>
    (\<forall>j < length ins. \<exists>new. view (ins' ! j) out' d' = view (ins ! j) out d @ new \<and>
      same_view new [(unat (sizes ! j), unat so)])"
proof -
  have so: "0 < so" using ok by (simp add: group_ok_def)
  have plain: ?thesis
    if "write_col ins d sizes = Some ins'" "wr out d so = Some out'" "d' = Suc d"
    using that write_col_spec[OF that(1)] view_write[OF _ that(2)] by (auto simp: wr_eq_Some_iff)
  show ?thesis
  proof (cases "so < GPU_TENSOR_MAX_WIDTH")
    case True
    then show ?thesis using fill plain by (auto simp: broadcast_fill_dim_def Let_def)
  next
    case False
    then obtain q where q: "compute_gpu_divisor so GPU_TENSOR_MAX_WIDTH 1 = Some q"
      "q < GPU_TENSOR_MAX_WIDTH" "unat q dvd unat so"
      using compute_gpu_divisor_spec[OF so, of GPU_TENSOR_MAX_WIDTH]
      by (auto simp: GPU_TENSOR_MAX_WIDTH_def)
    let ?r = "so div q"
    show ?thesis
    proof (cases "?r > GPU_TENSOR_MAX_WIDTH \<or> d \<ge> MAX_DIM_NUM")
      case True
      then show ?thesis using fill plain False q(1) by (auto simp: broadcast_fill_dim_def Let_def)
    next
      case small: False
      let ?s1 = "map (\<lambda>s. if s > 1 then q else 1) sizes" and ?s2 = "map (\<lambda>s. if s > 1 then ?r else 1) sizes"
      obtain i1 o1 where w: "write_col ins d ?s1 = Some i1" "write_col i1 (d + 1) ?s2 = Some ins'"
        "wr out d q = Some o1" "wr o1 (d + 1) ?r = Some out'" "d' = d + 2"
        using fill False q(1) small unfolding broadcast_fill_dim_def Let_def by (auto simp del: One_nat_def)
      note c1 = write_col_spec[OF w(1)] and c2 = write_col_spec[OF w(2)]
      have "\<exists>new. view (ins' ! j) out' d' = view (ins ! j) out d @ new \<and>
          same_view new [(unat (sizes ! j), unat so)]" if j: "j < length ins" for j
      proof -
        have a: "wr (ins ! j) d (?s1 ! j) = Some (i1 ! j)" "wr (i1 ! j) (Suc d) (?s2 ! j) = Some (ins' ! j)"
          using c1 c2 j by auto
        have b: "wr o1 (Suc d) ?r = Some out'" using w(4) by simp
        have "view (ins' ! j) out' d' =
            view (ins ! j) out d @ [(unat (?s1 ! j), unat q), (unat (?s2 ! j), unat ?r)]"
          using view_write[OF a(1) w(3)] view_write[OF a(2) b] w(5) by simp
        moreover have "same_view [(unat (?s1 ! j), unat q), (unat (?s2 ! j), unat ?r)] [(unat (sizes ! j), unat so)]"
          using view_split[OF q(3) _ q(2), of "sizes ! j"] False ok j len
          by (auto simp: group_ok_def not_less)
        ultimately show ?thesis by blast
      qed
      moreover have "\<forall>j < length ins. d' \<le> length (ins' ! j)"
        using c1 c2 w(5) by (auto simp: wr_eq_Some_iff)
      moreover have "d' \<le> length out'" using w(4,5) by (auto simp: wr_eq_Some_iff)
      ultimately show ?thesis using c1 c2 w(5) by simp
    qed
  qed
qed


subsection \<open>The invariant of the optimizer\<close>

lemma max_size_spec: "ss \<noteq> [] \<Longrightarrow> max_size ss \<in> set ss \<and> (\<forall>s \<in> set ss. s \<le> max_size ss)"
  by (induction ss rule: max_size.induct) (auto simp: max_def split: if_splits)

lemma group_max:
  assumes "group_ok ss so" "ss \<noteq> []"
  shows "max_size ss = so"
proof -
  note m = max_size_spec[OF assms(2)]
  show ?thesis
  proof (cases "so = 1")
    case True
    then show ?thesis using m assms(1) by (auto simp: group_ok_def)
  next
    case False
    then have "so \<le> max_size ss" using m assms(1) by (simp add: group_ok_def)
    moreover have "1 \<le> so" using assms(1) by (simp add: group_ok_def word_le_nat_alt word_less_nat_alt)
    moreover have "max_size ss = 1 \<or> max_size ss = so" using m assms(1) by (auto simp: group_ok_def)
    ultimately show ?thesis by auto
  qed
qed

lemma no_mismatch:
  assumes "group_ok ss so"
  shows "\<not> broadcast_mismatch ss"
proof
  assume "broadcast_mismatch ss"
  then obtain s where s: "s \<in> set ss" "first_wide ss \<noteq> s" "s > 1"
    by (auto simp: broadcast_mismatch_def list_ex_iff)
  then obtain w ws where f: "filter (\<lambda>s. s > 1) ss = w # ws"
    by (cases "filter (\<lambda>s. s > 1) ss") (auto simp: filter_empty_conv)
  then have "w \<in> set (filter (\<lambda>s. s > 1) ss)" by simp
  then have "w \<in> set ss" "w > 1" by auto
  then have "w = so" "s = so" using assms s by (auto simp: group_ok_def)
  then show False using s(2) f by (simp add: first_wide_def)
qed

definition col :: "nat \<Rightarrow> (vsi_size_t list \<times> vsi_size_t) list \<Rightarrow> (nat \<times> nat) list" where
  "col j cols = map (\<lambda>(ss, so). (unat (ss ! j), unat so)) cols"

definition bc_inv :: "(vsi_size_t list \<times> vsi_size_t) list \<Rightarrow> bc_state \<Rightarrow> bool" where
  "bc_inv cols st \<longleftrightarrow> bc_eff st \<noteq> [] \<and> length (bc_ins st) = length (bc_eff st) \<and>
     group_ok (bc_eff st) (max_size (bc_eff st)) \<and>
     (case bc_prev st of
        None \<Rightarrow> max_size (bc_eff st) = 1
      | Some bm \<Rightarrow> bm = map (\<lambda>e. e = 1) (bc_eff st) \<and> max_size (bc_eff st) \<noteq> 1) \<and>
     (\<forall>j < length (bc_eff st). same_view
       (view (bc_ins st ! j) (bc_out st) (bc_dims st) @
        [(unat (bc_eff st ! j), unat (max_size (bc_eff st)))]) (col j cols))"

lemma num_out_col: "num_out (col j cols) = prod_list (map (unat \<circ> snd) cols)"
  by (simp add: num_out_def col_def comp_def case_prod_unfold)

lemma col_append: "col j (xs @ ys) = col j xs @ col j ys"
  by (simp add: col_def)

lemma group_merge:
  assumes e: "group_ok es eo" "eo \<noteq> 1" and s: "group_ok ss so" "so \<noteq> 1"
    and m: "map (\<lambda>s. s = 1) ss = map (\<lambda>e. e = 1) es"
    and lt: "unat eo * unat so < 2 ^ 32"
  shows "group_ok (map2 (*) es ss) (eo * so)" "eo * so \<noteq> 1"
    "map (\<lambda>e. e = 1) (map2 (*) es ss) = map (\<lambda>s. s = 1) ss"
    "\<forall>j < length es. same_view [(unat (es ! j), unat eo), (unat (ss ! j), unat so)]
       [(unat (map2 (*) es ss ! j), unat (eo * so))]"
proof -
  have u: "unat (eo * so) = unat eo * unat so" using lt by (intro unat_mult_no_overflow) simp
  have len: "length ss = length es" using arg_cong[OF m, of length] by simp
  have pos: "1 < unat eo" "1 < unat so"
    using e s word_gt_1[of eo] word_gt_1[of so] by (auto simp: group_ok_def word_less_nat_alt)
  then have "1 < unat (eo * so)" using u one_less_mult[of "unat so" "unat eo"] by simp
  then show ne: "eo * so \<noteq> 1" by auto
  have bit: "(ss ! j = 1) = (es ! j = 1)" if "j < length es" for j
    using arg_cong[OF m, of "\<lambda>xs. xs ! j"] that len by simp
  have es: "es ! j = 1 \<or> es ! j = eo" if "j < length es" for j
    using e that by (auto simp: group_ok_def)
  have ss: "ss ! j = 1 \<or> ss ! j = so" if "j < length es" for j
    using s that len by (auto simp: group_ok_def)
  have val: "map2 (*) es ss ! j = (if es ! j = 1 then 1 else eo * so)" if "j < length es" for j
    using es[OF that] ss[OF that] bit[OF that] that len by auto
  show "map (\<lambda>e. e = 1) (map2 (*) es ss) = map (\<lambda>s. s = 1) ss"
    by (rule nth_equalityI) (use len val bit ne in auto)
  obtain j where j: "j < length es" "es ! j = eo" using e by (auto simp: group_ok_def in_set_conv_nth)
  have "eo * so \<in> set (map2 (*) es ss)"
    using val[OF j(1)] j e(2) len by (metis length_map length_zip min.idem nth_mem)
  moreover have "s = 1 \<or> s = eo * so" if "s \<in> set (map2 (*) es ss)" for s
  proof -
    obtain i where "i < length es" "s = map2 (*) es ss ! i"
      using \<open>s \<in> set (map2 (*) es ss)\<close> len unfolding in_set_conv_nth by auto
    then show ?thesis using val[of i] by auto
  qed
  ultimately show "group_ok (map2 (*) es ss) (eo * so)"
    using \<open>1 < unat (eo * so)\<close> by (auto simp: group_ok_def word_less_nat_alt)
  show "\<forall>j < length es. same_view [(unat (es ! j), unat eo), (unat (ss ! j), unat so)]
       [(unat (map2 (*) es ss ! j), unat (eo * so))]"
  proof (intro allI impI)
    fix j assume j: "j < length es"
    show "same_view [(unat (es ! j), unat eo), (unat (ss ! j), unat so)]
       [(unat (map2 (*) es ss ! j), unat (eo * so))]"
    proof (cases "es ! j = 1")
      case True
      then show ?thesis using val[OF j] bit[OF j] u view_merge_one by simp
    next
      case False
      then have "es ! j = eo" "ss ! j = so" using es[OF j] ss[OF j] bit[OF j] by auto
      then show ?thesis using val[OF j] False u view_merge_same[of "unat eo" "unat so"] pos by simp
    qed
  qed
qed

lemma bc_inv_step:
  assumes inv: "bc_inv cols st" and step: "broadcast_step ss so st = Some (Some st')"
    and ok: "group_ok ss so" and len: "length ss = length (bc_eff st)"
    and bound: "prod_list (map (unat \<circ> snd) (cols @ [(ss, so)])) < 2 ^ 32"
    and nz: "prod_list (map (unat \<circ> snd) cols) \<noteq> 0"
  shows "bc_inv (cols @ [(ss, so)]) st' \<and> length (bc_eff st') = length (bc_eff st)"
proof -
  let ?m = "length (bc_eff st)" and ?E = "max_size (bc_eff st)"
  have ne: "bc_eff st \<noteq> []" "length (bc_ins st) = ?m" and g: "group_ok (bc_eff st) ?E"
    and v: "\<forall>j < ?m. same_view (view (bc_ins st ! j) (bc_out st) (bc_dims st) @
        [(unat (bc_eff st ! j), unat ?E)]) (col j cols)"
    using inv by (simp_all add: bc_inv_def)
  have ssne: "ss \<noteq> []" using len ne by auto
  have c1: "col j (cols @ [(ss, so)]) = col j cols @ [(unat (ss ! j), unat so)]" for j
    by (simp add: col_def)
  show ?thesis
  proof (cases "so = 1")
    case True
    then have st': "st' = st" using step by (simp add: broadcast_step_def)
    have "same_view (view (bc_ins st ! j) (bc_out st) (bc_dims st) @ [(unat (bc_eff st ! j), unat ?E)])
        (col j (cols @ [(ss, so)]))" if j: "j < ?m" for j
    proof -
      have "ss ! j = 1" using ok True j len by (auto simp: group_ok_def)
      then have "same_view (col j cols @ []) (col j (cols @ [(ss, so)]))"
        unfolding c1 using True view_drop_one
        by (intro same_view_append) (simp_all add: same_view_def)
      then show ?thesis using v j same_view_trans by fastforce
    qed
    then show ?thesis using inv st' by (simp add: bc_inv_def)
  next
    case so1: False
    let ?mask = "map (\<lambda>s. s = 1) ss"
    have mm: "\<not> broadcast_mismatch ss" using no_mismatch[OF ok] .
    consider (first) "bc_prev st = None" | (merge) "bc_prev st = Some ?mask"
      | (fill) "bc_prev st \<noteq> None" "bc_prev st \<noteq> Some ?mask" by blast
    then show ?thesis
    proof cases
      case first
      then have E: "?E = 1" using inv by (simp add: bc_inv_def)
      have ones: "bc_eff st ! j = 1" if "j < ?m" for j using g that E by (auto simp: group_ok_def)
      have eff: "map2 (*) (bc_eff st) ss = ss"
        by (rule nth_equalityI) (use len ones in auto)
      have st': "st' = st\<lparr>bc_eff := ss, bc_prev := Some ?mask\<rparr>"
        using step so1 mm first eff by (simp add: broadcast_step_def Let_def)
      have "same_view (view (bc_ins st ! j) (bc_out st) (bc_dims st) @ [(unat (ss ! j), unat so)])
          (col j (cols @ [(ss, so)]))" if j: "j < ?m" for j
      proof -
        have "same_view (view (bc_ins st ! j) (bc_out st) (bc_dims st) @ []) (col j cols)"
        proof (rule same_view_trans)
          show "same_view (view (bc_ins st ! j) (bc_out st) (bc_dims st) @ [])
              (view (bc_ins st ! j) (bc_out st) (bc_dims st) @ [(unat (bc_eff st ! j), unat ?E)])"
            using ones[OF j] E view_drop_one by (intro same_view_append) (simp_all add: same_view_def)
        qed (use v j in blast)
        then show ?thesis unfolding c1 by (intro same_view_append) simp_all
      qed
      then show ?thesis
        using st' ne ok so1 len ssne group_max[OF ok ssne] by (auto simp: bc_inv_def)
    next
      case merge
      then have mk: "map (\<lambda>s. s = 1) ss = map (\<lambda>e. e = 1) (bc_eff st)" and E: "?E \<noteq> 1"
        using inv by (simp_all add: bc_inv_def)
      have st': "st' = st\<lparr>bc_eff := map2 (*) (bc_eff st) ss, bc_prev := Some ?mask\<rparr>"
        using step so1 mm merge by (simp add: broadcast_step_def Let_def)
      have "unat ?E dvd prod_list (map (unat \<circ> snd) cols)"
      proof -
        obtain j where j: "j < ?m" using ne(1) by auto
        have "num_out (view (bc_ins st ! j) (bc_out st) (bc_dims st) @ [(unat (bc_eff st ! j), unat ?E)])
            = prod_list (map (unat \<circ> snd) cols)"
          using v j num_out_col unfolding same_view_def by metis
        moreover have "num_out [(unat (bc_eff st ! j), unat ?E)] = unat ?E" by (simp add: num_out_def)
        ultimately show ?thesis by (metis dvd_triv_right num_append(2))
      qed
      then have "unat ?E \<le> prod_list (map (unat \<circ> snd) cols)" using nz by (simp add: dvd_imp_le)
      then have "unat ?E * unat so \<le> prod_list (map (unat \<circ> snd) cols) * unat so" by (rule mult_right_mono) simp
      moreover have "prod_list (map (unat \<circ> snd) cols) * unat so < 2 ^ 32" using bound by simp
      ultimately have lt: "unat ?E * unat so < 2 ^ 32" by (rule le_less_trans)
      note gm = group_merge[OF g E ok so1 mk lt]
      have mx: "max_size (map2 (*) (bc_eff st) ss) = ?E * so"
        using group_max[OF gm(1)] ne(1) ssne by (cases "bc_eff st"; cases ss) auto
      have "same_view (view (bc_ins st ! j) (bc_out st) (bc_dims st) @
          [(unat (map2 (*) (bc_eff st) ss ! j), unat (?E * so))]) (col j (cols @ [(ss, so)]))"
        if j: "j < ?m" for j
      proof (rule same_view_trans)
        let ?W = "view (bc_ins st ! j) (bc_out st) (bc_dims st)"
        show "same_view (?W @ [(unat (map2 (*) (bc_eff st) ss ! j), unat (?E * so))])
            ((?W @ [(unat (bc_eff st ! j), unat ?E)]) @ [(unat (ss ! j), unat so)])"
          using gm(4) j unfolding append_assoc
          by (intro same_view_append) (simp_all add: same_view_def)
        show "same_view ((?W @ [(unat (bc_eff st ! j), unat ?E)]) @ [(unat (ss ! j), unat so)])
            (col j (cols @ [(ss, so)]))"
          unfolding c1 using v j by (intro same_view_append) simp_all
      qed
      then show ?thesis using st' ne len gm(1,2,3) mx ssne
        by (auto simp: bc_inv_def)
    next
      case fill
      obtain d' ins' out' where f: "broadcast_fill_dim (bc_ins st) (bc_out st) (bc_dims st) (bc_eff st) ?E
          = Some (d', ins', out')"
        and st': "st' = st\<lparr>bc_eff := ss, bc_prev := Some ?mask, bc_dims := d', bc_ins := ins', bc_out := out'\<rparr>"
        using step so1 mm fill by (auto simp: broadcast_step_def Let_def)
      have fv: "length ins' = ?m" "\<forall>j < ?m. \<exists>new. view (ins' ! j) out' d' =
          view (bc_ins st ! j) (bc_out st) (bc_dims st) @ new \<and>
          same_view new [(unat (bc_eff st ! j), unat ?E)]"
        using fill_dim_view[OF f g] ne(2) by auto
      have "same_view (view (ins' ! j) out' d' @ [(unat (ss ! j), unat so)]) (col j (cols @ [(ss, so)]))"
        if j: "j < ?m" for j
      proof -
        obtain new where n: "view (ins' ! j) out' d' = view (bc_ins st ! j) (bc_out st) (bc_dims st) @ new"
          "same_view new [(unat (bc_eff st ! j), unat ?E)]" using fv(2) j by blast
        have "same_view (view (ins' ! j) out' d') (col j cols)"
          unfolding n(1) using v j by (intro same_view_trans[OF same_view_append[OF same_view_refl n(2)]]) blast
        then show ?thesis unfolding c1 by (intro same_view_append) simp_all
      qed
      then show ?thesis using st' fv(1) len ok so1 ssne group_max[OF ok ssne] by (auto simp: bc_inv_def)
    qed
  qed
qed


subsection \<open>The whole optimizer\<close>

lemma broadcast_loop_inv:
  assumes "bc_inv cols st" "broadcast_loop shapes i sos st = Some (Some st')"
    "\<forall>k < length sos. group_ok (sizes_at shapes (i + k)) (sos ! k)"
    "length shapes = length (bc_eff st)"
    "prod_list (map (unat \<circ> snd) cols) * prod_list (map unat sos) < 2 ^ 32"
    "prod_list (map (unat \<circ> snd) cols) \<noteq> 0"
  shows "bc_inv (cols @ zip (map (sizes_at shapes) [i..<i + length sos]) sos) st' \<and>
    length (bc_eff st') = length (bc_eff st)"
  using assms
proof (induction sos arbitrary: i cols st)
  case (Cons so sos)
  obtain st1 where s1: "broadcast_step (sizes_at shapes i) so st = Some (Some st1)"
    "broadcast_loop shapes (Suc i) sos st1 = Some (Some st')"
    using Cons.prems(2) by (auto split: option.splits)
  have ok: "group_ok (sizes_at shapes i) so" using Cons.prems(3) by force
  have pos: "0 < unat so'" if "so' \<in> set sos" for so'
    using that Cons.prems(3) by (force simp: in_set_conv_nth group_ok_def word_less_nat_alt)
  then have "1 \<le> prod_list (map unat sos)" by (induction sos) (auto simp: Suc_le_eq)
  then have le: "prod_list (map (unat \<circ> snd) cols) * unat so \<le>
      prod_list (map (unat \<circ> snd) cols) * unat so * prod_list (map unat sos)" by simp
  have "prod_list (map (unat \<circ> snd) cols) * unat so * prod_list (map unat sos) < 2 ^ 32"
    using Cons.prems(5) by (simp add: mult.assoc comp_def)
  with le have lt: "prod_list (map (unat \<circ> snd) cols) * unat so < 2 ^ 32" by (rule le_less_trans)
  have inv1: "bc_inv (cols @ [(sizes_at shapes i, so)]) st1 \<and> length (bc_eff st1) = length (bc_eff st)"
    using Cons.prems(4,6) lt
    by (intro bc_inv_step[OF Cons.prems(1) s1(1) ok]) (simp_all add: sizes_at_def comp_def)
  have "bc_inv ((cols @ [(sizes_at shapes i, so)]) @
      zip (map (sizes_at shapes) [Suc i..<Suc i + length sos]) sos) st' \<and>
      length (bc_eff st') = length (bc_eff st1)"
  proof (rule Cons.IH[OF _ s1(2)])
    show "\<forall>k < length sos. group_ok (sizes_at shapes (Suc i + k)) (sos ! k)"
      using Cons.prems(3) by force
    show "prod_list (map (unat \<circ> snd) (cols @ [(sizes_at shapes i, so)])) \<noteq> 0"
      using Cons.prems(6) ok by (simp add: group_ok_def word_less_nat_alt comp_def)
  qed (use inv1 Cons.prems(4,5) in \<open>simp_all add: mult.assoc comp_def\<close>)
  moreover have "[i..<i + length (so # sos)] = i # [Suc i..<Suc i + length sos]"
    by (simp add: upt_conv_Cons del: upt_Suc)
  ultimately show ?case using inv1 by (simp del: upt_Suc)
qed simp

text \<open>A broadcast: at every dimension each input has size 1 or the size of the output.\<close>

definition valid_broadcast :: "vsi_size_t list list \<Rightarrow> vsi_size_t list \<Rightarrow> bool" where
  "valid_broadcast shapes os \<longleftrightarrow> shapes \<noteq> [] \<and> prod_list (map unat os) < 2 ^ 32 \<and>
     list_all (\<lambda>i. group_ok (sizes_at shapes i) (os ! i)) [0..<length os]"

text \<open>An input seen at the rank of the output.\<close>

definition input_view :: "vsi_size_t list \<Rightarrow> vsi_size_t list \<Rightarrow> (nat \<times> nat) list" where
  "input_view shape os =
     map (\<lambda>i. (unat (if i < length shape then shape ! i else 1), unat (os ! i))) [0..<length os]"

lemma col_input_view:
  "j < length shapes \<Longrightarrow>
   col j (zip (map (sizes_at shapes) [0..<length os]) os) = input_view (shapes ! j) os"
  by (rule nth_equalityI) (auto simp: col_def input_view_def sizes_at_def)

lemma view_no_zeros:
  assumes "num_in (view a out d) \<noteq> 0" "d \<le> length a" "d \<le> length out"
  shows "fix_zeros d a = Some a"
proof -
  have "map fst (view a out d) = map unat (take d a)" using assms(2,3) by (simp add: view_def)
  then have "prod_list (map unat (take d a)) \<noteq> 0" using assms(1) by (simp add: num_in_def)
  then have "\<forall>x \<in> set (take d a). x \<noteq> 0" by (auto simp: prod_list_zero_iff unat_eq_0)
  then have "map (\<lambda>s. if s = 0 then 1 else s) (take d a) = take d a" by (simp add: map_idI)
  then show ?thesis using assms(2) by (simp add: fix_zeros_def)
qed

lemma fix_all_id: "(\<forall>a \<in> set as. fix_zeros d a = Some a) \<Longrightarrow> fix_all d as = Some as"
  by (induction as) auto

lemma num_in_positive:
  assumes "valid_broadcast shapes os" "j < length shapes"
  shows "num_in (input_view (shapes ! j) os) \<noteq> 0"
proof -
  have "(if i < length (shapes ! j) then shapes ! j ! i else 1) \<noteq> 0" if "i < length os" for i
  proof -
    have "group_ok (sizes_at shapes i) (os ! i)"
      using assms(1) that by (simp add: valid_broadcast_def list_all_iff)
    moreover have "(if i < length (shapes ! j) then shapes ! j ! i else 1) \<in> set (sizes_at shapes i)"
      using assms(2) by (force simp: sizes_at_def)
    ultimately show ?thesis by (force simp: group_ok_def)
  qed
  then show ?thesis by (auto simp: num_in_def input_view_def prod_list_zero_iff unat_eq_0 split: if_splits)
qed

lemma view_pad:
  "wr a 1 1 = Some a' \<Longrightarrow> wr out 1 1 = Some out' \<Longrightarrow> same_view (view a' out' 2) (view a out 1)"
  using view_write[of a 1 1 a' out 1 out'] same_view_append[OF same_view_refl view_drop_one, of "view a out 1"]
  by (simp add: numeral_2_eq_2)

lemma write_col_ones:
  "write_col as d (map (\<lambda>_. 1) shapes) = Some as' \<Longrightarrow> j < length as \<Longrightarrow> wr (as ! j) d 1 = Some (as' ! j)"
  using write_col_spec[of as d "map (\<lambda>_. 1) shapes" as'] by auto

definition bc_start :: "vsi_size_t list list \<Rightarrow> vsi_size_t list list \<Rightarrow> vsi_size_t list \<Rightarrow> bc_state" where
  "bc_start shapes out_ins out_os =
     \<lparr>bc_eff = map (\<lambda>_. 1) shapes, bc_prev = None, bc_dims = 0, bc_ins = out_ins, bc_out = out_os\<rparr>"

lemma bc_start_inv:
  assumes "shapes \<noteq> []" "length out_ins = length shapes"
  shows "bc_inv [] (bc_start shapes out_ins out_os)"
proof -
  have g1: "group_ok (map (\<lambda>_. 1) shapes) 1" using assms(1) by (auto simp: group_ok_def)
  have m1: "max_size (map (\<lambda>_. 1) shapes) = 1" by (rule group_max[OF g1]) (simp add: assms(1))
  show ?thesis using assms g1 m1 view_drop_one by (auto simp: bc_inv_def col_def view_def bc_start_def)
qed

lemma bc_loop_done:
  assumes valid: "valid_broadcast shapes os" and len: "length out_ins = length shapes"
    and loop: "broadcast_loop shapes 0 os (bc_start shapes out_ins out_os) = Some (Some st)"
  shows "bc_inv (zip (map (sizes_at shapes) [0..<length os]) os) st \<and> length (bc_eff st) = length shapes"
proof -
  have ne: "shapes \<noteq> []" and P: "prod_list (map unat os) < 2 ^ 32"
    and ok: "\<forall>k < length os. group_ok (sizes_at shapes (0 + k)) (os ! k)"
    using valid by (auto simp: valid_broadcast_def list_all_iff)
  have e: "length shapes = length (bc_eff (bc_start shapes out_ins out_os))" by (simp add: bc_start_def)
  show ?thesis
    using broadcast_loop_inv[OF bc_start_inv[OF ne len] loop ok e] P by (simp add: bc_start_def)
qed

lemma broadcast_core:
  assumes valid: "valid_broadcast shapes os" and len: "length out_ins = length shapes"
    and loop: "broadcast_loop shapes 0 os (bc_start shapes out_ins out_os) = Some (Some st)"
    and f: "broadcast_fill_dim (bc_ins st) (bc_out st) (bc_dims st) (bc_eff st) (max_size (bc_eff st))
      = Some (d2, ins2, out2)"
  shows "length ins2 = length shapes"
    and "\<And>j. j < length shapes \<Longrightarrow> same_view (view (ins2 ! j) out2 d2) (input_view (shapes ! j) os)"
    and "fix_all d2 ins2 = Some ins2"
proof -
  let ?E = "max_size (bc_eff st)"
  have inv: "bc_inv (zip (map (sizes_at shapes) [0..<length os]) os) st" "length (bc_eff st) = length shapes"
    using bc_loop_done[OF valid len loop] by simp_all
  have g: "group_ok (bc_eff st) ?E" and li: "length (bc_ins st) = length shapes"
    using inv by (simp_all add: bc_inv_def)
  have "length (bc_eff st) = length (bc_ins st)" using inv li by simp
  note fv = fill_dim_view[OF f g this, unfolded li]
  show l2: "length ins2 = length shapes" using fv by blast
  show v2: "same_view (view (ins2 ! j) out2 d2) (input_view (shapes ! j) os)" if jj: "j < length shapes" for j
  proof -
    obtain new where n: "view (ins2 ! j) out2 d2 = view (bc_ins st ! j) (bc_out st) (bc_dims st) @ new"
      "same_view new [(unat (bc_eff st ! j), unat ?E)]" using fv jj by blast
    have "same_view (view (bc_ins st ! j) (bc_out st) (bc_dims st) @ [(unat (bc_eff st ! j), unat ?E)])
      (input_view (shapes ! j) os)"
      using inv jj col_input_view[OF jj, of os] by (auto simp: bc_inv_def)
    then show ?thesis unfolding n(1) by (rule same_view_trans[OF same_view_append[OF same_view_refl n(2)]])
  qed
  show "fix_all d2 ins2 = Some ins2"
  proof (rule fix_all_id, rule ballI)
    fix a assume "a \<in> set ins2"
    then obtain i where i: "i < length shapes" "a = ins2 ! i" using l2 by (auto simp: in_set_conv_nth)
    have "num_in (view a out2 d2) \<noteq> 0"
      using v2[OF i(1)] num_in_positive[OF valid i(1)] i(2) by (simp add: same_view_def)
    then show "fix_zeros d2 a = Some a" using fv i by (intro view_no_zeros) auto
  qed
qed

lemma optimize_broadcast_view:
  assumes valid: "valid_broadcast shapes os"
    and r: "optimize_broadcast_shape shapes os out_ins out_os = Some (Some (ins', out', d'))"
    and len: "length out_ins = length shapes" and j: "j < length shapes"
  shows "same_view (view (ins' ! j) out' d') (input_view (shapes ! j) os)"
proof -
  obtain st d2 ins2 out2 where loop: "broadcast_loop shapes 0 os (bc_start shapes out_ins out_os) = Some (Some st)"
    and f: "broadcast_fill_dim (bc_ins st) (bc_out st) (bc_dims st) (bc_eff st) (max_size (bc_eff st))
      = Some (d2, ins2, out2)"
    using r by (auto simp: optimize_broadcast_shape_def bc_start_def split: if_splits option.splits)
  note core = broadcast_core[OF valid len loop f]
  show ?thesis
  proof (cases "d2 = 1")
    case True
    obtain i3 o3 where w: "write_col ins2 1 (map (\<lambda>_. 1) shapes) = Some i3" "wr out2 1 1 = Some o3"
      "ins' = i3" "out' = o3" "d' = 2"
      using r loop f True by (auto simp: optimize_broadcast_shape_def bc_start_def split: if_splits)
    have "same_view (view (i3 ! j) o3 2) (view (ins2 ! j) out2 1)"
      using core(1) j by (intro view_pad write_col_ones[OF w(1)] w(2)) simp
    then show ?thesis using core(2)[OF j] w(3-5) True same_view_trans by fastforce
  next
    case False
    then have "ins' = ins2" "out' = out2" "d' = d2"
      using r loop f core(3) by (auto simp: optimize_broadcast_shape_def bc_start_def split: if_splits)
    then show ?thesis using core(2)[OF j] by simp
  qed
qed

subsection \<open>Success\<close>

lemma wr_ok: "d < length a \<Longrightarrow> \<exists>a'. wr a d v = Some a' \<and> length a' = length a"
  by simp

lemma write_col_ok:
  "list_all (\<lambda>a. d < length a) as \<Longrightarrow> length as \<le> length vs \<Longrightarrow>
   \<exists>as'. write_col as d vs = Some as' \<and> map length as' = map length as"
  by (induction as d vs rule: write_col.induct) (auto simp: wr_eq_Some_iff)

lemma list_all_map_length: "list_all (\<lambda>a. P (length a)) xs = list_all P (map length xs)"
  by (simp add: list_all_iff)

lemma list_all_lengths:
  "map length xs = map length ys \<Longrightarrow> list_all (\<lambda>a. P (length a)) xs = list_all (\<lambda>a. P (length a)) ys"
  unfolding list_all_map_length by simp

lemma fill_dim_ok:
  assumes "Suc d < length out" "list_all (\<lambda>a. Suc d < length a) ins" "length sizes = length ins"
    and "0 < so"
  shows "\<exists>d' ins' out'. broadcast_fill_dim ins out d sizes so = Some (d', ins', out') \<and>
    map length ins' = map length ins \<and> length out' = length out \<and> d' \<le> d + 2"
proof -
  have l: "list_all (\<lambda>a. d < length a) ins" using assms(2) by (auto simp: list_all_iff)
  obtain i1 where i1: "write_col ins d sizes = Some i1" "map length i1 = map length ins"
    using write_col_ok[OF l, of sizes] assms(3) by auto
  have plain: "do { ins1 \<leftarrow> write_col ins d sizes; o1 \<leftarrow> wr out d so; Some (d + 1, ins1, o1) }
      = Some (d + 1, i1, out[d := so])" using i1 assms(1) by simp
  show ?thesis
  proof (cases "so < GPU_TENSOR_MAX_WIDTH")
    case True
    then show ?thesis using plain i1 by (simp add: broadcast_fill_dim_def Let_def)
  next
    case False
    obtain q where q: "compute_gpu_divisor so GPU_TENSOR_MAX_WIDTH 1 = Some q"
      using compute_gpu_divisor_spec[OF assms(4), of GPU_TENSOR_MAX_WIDTH]
      by (auto simp: GPU_TENSOR_MAX_WIDTH_def)
    show ?thesis
    proof (cases "so div q > GPU_TENSOR_MAX_WIDTH \<or> d \<ge> MAX_DIM_NUM")
      case True
      then show ?thesis using plain i1 False q by (simp add: broadcast_fill_dim_def Let_def)
    next
      case small: False
      let ?s1 = "map (\<lambda>s. if s > 1 then q else 1) sizes" and ?s2 = "map (\<lambda>s. if s > 1 then so div q else 1) sizes"
      obtain j1 where j1: "write_col ins d ?s1 = Some j1" "map length j1 = map length ins"
        using write_col_ok[OF l, of ?s1] assms(3) by auto
      have "length j1 = length ins" using arg_cong[OF j1(2), of length] by simp
      then obtain j2 where j2: "write_col j1 (d + 1) ?s2 = Some j2" "map length j2 = map length j1"
        using write_col_ok[of "d + 1" j1 ?s2] assms(2,3) list_all_lengths[OF j1(2), of "\<lambda>n. Suc d < n"] by auto
      show ?thesis using False q small j1 j2 assms(1)
        by (simp add: broadcast_fill_dim_def Let_def)
    qed
  qed
qed

definition arrays_ok :: "nat \<Rightarrow> bc_state \<Rightarrow> bool" where
  "arrays_ok n st \<longleftrightarrow> n \<le> length (bc_out st) \<and> list_all (\<lambda>a. n \<le> length a) (bc_ins st)"

lemma bc_inv_eff: "bc_inv cols st \<Longrightarrow> length (bc_ins st) = length (bc_eff st) \<and> 0 < max_size (bc_eff st)"
  by (simp add: bc_inv_def group_ok_def)

lemma broadcast_step_ok:
  assumes inv: "bc_inv cols st" and ok: "group_ok ss so" and a: "arrays_ok 8 st"
    and d: "bc_prev st = None \<and> bc_dims st = 0 \<or> bc_dims st \<le> 4"
  shows "\<exists>st'. broadcast_step ss so st = Some (Some st') \<and> arrays_ok 8 st' \<and>
    (bc_prev st' = bc_prev st \<and> bc_dims st' = bc_dims st \<or>
     bc_prev st' \<noteq> None \<and> bc_dims st' \<le> bc_dims st + (if bc_prev st = None then 0 else 2))"
proof (cases "so = 1 \<or> bc_prev st = None \<or> bc_prev st = Some (map (\<lambda>s. s = 1) ss)")
  case True
  then show ?thesis using no_mismatch[OF ok] a by (auto simp: broadcast_step_def Let_def arrays_ok_def)
next
  case False
  have "Suc (bc_dims st) < length (bc_out st)" "list_all (\<lambda>a. Suc (bc_dims st) < length a) (bc_ins st)"
    using False a d by (auto simp: arrays_ok_def list_all_iff)
  then obtain d' ins' out' where f: "broadcast_fill_dim (bc_ins st) (bc_out st) (bc_dims st) (bc_eff st)
      (max_size (bc_eff st)) = Some (d', ins', out')"
    "map length ins' = map length (bc_ins st)" "length out' = length (bc_out st)" "d' \<le> bc_dims st + 2"
    using fill_dim_ok[of "bc_dims st" "bc_out st" "bc_ins st" "bc_eff st" "max_size (bc_eff st)"] bc_inv_eff[OF inv]
    by auto
  have "arrays_ok 8 (st\<lparr>bc_eff := ss, bc_prev := Some (map (\<lambda>s. s = 1) ss), bc_dims := d',
      bc_ins := ins', bc_out := out'\<rparr>)"
    using a f(3) list_all_lengths[OF f(2), of "\<lambda>n. 8 \<le> n"] by (simp add: arrays_ok_def)
  then show ?thesis using False f(1,4) no_mismatch[OF ok] by (auto simp: broadcast_step_def Let_def)
qed

lemma broadcast_loop_ok:
  assumes "bc_inv cols st" "\<forall>k < length sos. group_ok (sizes_at shapes (i + k)) (sos ! k)"
    "length shapes = length (bc_eff st)"
    "prod_list (map (unat \<circ> snd) cols) * prod_list (map unat sos) < 2 ^ 32"
    "prod_list (map (unat \<circ> snd) cols) \<noteq> 0"
    "arrays_ok 8 st" "bc_dims st + 2 * length sos + (if bc_prev st = None then 0 else 2) \<le> 8"
    "bc_prev st = None \<longrightarrow> bc_dims st = 0"
  shows "\<exists>st'. broadcast_loop shapes i sos st = Some (Some st') \<and> arrays_ok 8 st' \<and> bc_dims st' \<le> 6 \<and>
    bc_dims st' + (if bc_prev st' = None then 0 else 2) \<le>
      bc_dims st + 2 * length sos + (if bc_prev st = None then 0 else 2) \<and>
    (bc_prev st' = None \<longrightarrow> bc_dims st' = 0)"
  using assms
proof (induction sos arbitrary: i cols st)
  case Nil
  then show ?case by (auto split: if_splits)
next
  case (Cons so sos)
  have ok: "group_ok (sizes_at shapes i) so" using Cons.prems(2) by force
  have "bc_prev st = None \<and> bc_dims st = 0 \<or> bc_dims st \<le> 4" using Cons.prems(7,8) by (auto split: if_splits)
  from broadcast_step_ok[OF Cons.prems(1) ok Cons.prems(6) this]
  obtain st1 where s1: "broadcast_step (sizes_at shapes i) so st = Some (Some st1)" "arrays_ok 8 st1"
    "bc_prev st1 = bc_prev st \<and> bc_dims st1 = bc_dims st \<or>
     bc_prev st1 \<noteq> None \<and> bc_dims st1 \<le> bc_dims st + (if bc_prev st = None then 0 else 2)" by blast
  have "0 < unat so'" if "so' \<in> set sos" for so'
    using that Cons.prems(2) by (force simp: in_set_conv_nth group_ok_def word_less_nat_alt)
  then have "1 \<le> prod_list (map unat sos)" by (induction sos) (auto simp: Suc_le_eq)
  then have le: "prod_list (map (unat \<circ> snd) cols) * unat so \<le>
      prod_list (map (unat \<circ> snd) cols) * unat so * prod_list (map unat sos)" by simp
  have "prod_list (map (unat \<circ> snd) cols) * unat so * prod_list (map unat sos) < 2 ^ 32"
    using Cons.prems(4) by (simp add: mult.assoc comp_def)
  with le have lt: "prod_list (map (unat \<circ> snd) cols) * unat so < 2 ^ 32" by (rule le_less_trans)
  have inv1: "bc_inv (cols @ [(sizes_at shapes i, so)]) st1 \<and> length (bc_eff st1) = length (bc_eff st)"
    using Cons.prems(3,5) lt
    by (intro bc_inv_step[OF Cons.prems(1) s1(1) ok]) (simp_all add: sizes_at_def comp_def)
  have "\<exists>st'. broadcast_loop shapes (Suc i) sos st1 = Some (Some st') \<and> arrays_ok 8 st' \<and> bc_dims st' \<le> 6 \<and>
      bc_dims st' + (if bc_prev st' = None then 0 else 2) \<le>
        bc_dims st1 + 2 * length sos + (if bc_prev st1 = None then 0 else 2) \<and>
      (bc_prev st' = None \<longrightarrow> bc_dims st' = 0)"
  proof (rule Cons.IH)
    show "bc_inv (cols @ [(sizes_at shapes i, so)]) st1" using inv1 by blast
    show "\<forall>k < length sos. group_ok (sizes_at shapes (Suc i + k)) (sos ! k)" using Cons.prems(2) by force
    show "prod_list (map (unat \<circ> snd) (cols @ [(sizes_at shapes i, so)])) \<noteq> 0"
      using Cons.prems(5) ok by (simp add: group_ok_def word_less_nat_alt comp_def)
    show "bc_dims st1 + 2 * length sos + (if bc_prev st1 = None then 0 else 2) \<le> 8"
      using Cons.prems(7) s1(3) by (auto split: if_splits)
    show "bc_prev st1 = None \<longrightarrow> bc_dims st1 = 0" using Cons.prems(8) s1(3) by auto
  qed (use inv1 Cons.prems(3,4) s1(2) in \<open>simp_all add: mult.assoc comp_def\<close>)
  moreover have "bc_dims st1 + (if bc_prev st1 = None then 0 else 2) \<le>
      bc_dims st + 2 + (if bc_prev st = None then 0 else 2)" using s1(3) by (auto split: if_splits)
  ultimately show ?case using s1(1) by force
qed

lemma fix_all_ok: "list_all (\<lambda>a. d \<le> length a) as \<Longrightarrow> \<exists>as'. fix_all d as = Some as'"
  by (induction as) (auto simp: fix_zeros_def)

lemma optimize_broadcast_fits:
  assumes valid: "valid_broadcast shapes os" and n: "length shapes \<le> 30" "length os \<le> 4"
    and a: "length out_os = 8" "list_all (\<lambda>a. length a = 8) out_ins" "length out_ins = length shapes"
  shows "\<exists>ins out d. optimize_broadcast_shape shapes os out_ins out_os = Some (Some (ins, out, d)) \<and>
    d \<le> max 2 (2 * length os) \<and> length ins = length shapes \<and> list_all (\<lambda>a. 8 \<le> length a) ins \<and> 8 \<le> length out"
proof -
  let ?st0 = "bc_start shapes out_ins out_os"
  have ne: "shapes \<noteq> []" and P: "prod_list (map unat os) < 2 ^ 32"
    and ok: "\<forall>k < length os. group_ok (sizes_at shapes k) (os ! k)"
    using valid by (auto simp: valid_broadcast_def list_all_iff)
  have i0: "bc_inv [] ?st0" using bc_start_inv[OF ne a(3)] .
  have "arrays_ok 8 ?st0" using a by (simp add: arrays_ok_def list_all_iff bc_start_def)
  then obtain st where loop: "broadcast_loop shapes 0 os ?st0 = Some (Some st)" "arrays_ok 8 st" "bc_dims st \<le> 6"
    "bc_dims st + (if bc_prev st = None then 0 else 2) \<le> 2 * length os" "bc_prev st = None \<longrightarrow> bc_dims st = 0"
    using broadcast_loop_ok[OF i0, of os shapes 0] ok P n by (auto simp: bc_start_def)
  note eff = bc_loop_done[OF valid a(3) loop(1)] bc_inv_eff[OF conjunct1[OF bc_loop_done[OF valid a(3) loop(1)]]]
  have "Suc (bc_dims st) < length (bc_out st)" "list_all (\<lambda>a. Suc (bc_dims st) < length a) (bc_ins st)"
    using loop(2,3) by (auto simp: arrays_ok_def list_all_iff)
  then obtain d2 ins2 out2 where f: "broadcast_fill_dim (bc_ins st) (bc_out st) (bc_dims st) (bc_eff st)
      (max_size (bc_eff st)) = Some (d2, ins2, out2)"
    "map length ins2 = map length (bc_ins st)" "length out2 = length (bc_out st)" "d2 \<le> bc_dims st + 2"
    using fill_dim_ok[of "bc_dims st" "bc_out st" "bc_ins st" "bc_eff st" "max_size (bc_eff st)"] eff by auto
  have l2: "8 \<le> length out2" "list_all (\<lambda>a. 8 \<le> length a) ins2" "length ins2 = length shapes"
    using loop(2) f(2,3) eff list_all_lengths[OF f(2), of "\<lambda>n. 8 \<le> n"] map_eq_imp_length_eq[OF f(2)]
    by (simp_all add: arrays_ok_def)
  have "list_all (\<lambda>a. 1 < length a) ins2" using l2(2) by (auto simp: list_all_iff)
  then obtain i3 where i3: "write_col ins2 1 (map (\<lambda>_. 1) shapes) = Some i3" "map length i3 = map length ins2"
    using write_col_ok[of 1 ins2 "map (\<lambda>_. 1) shapes"] l2(3) by auto
  have l3: "list_all (\<lambda>a. 8 \<le> length a) i3" "length i3 = length shapes"
    using l2 list_all_lengths[OF i3(2), of "\<lambda>n. 8 \<le> n"] map_eq_imp_length_eq[OF i3(2)] by simp_all
  have "d2 \<le> max 2 (2 * length os)" using f(4) loop(4,5) by (auto split: if_splits)
  moreover have "fix_all d2 ins2 = Some ins2" by (rule broadcast_core(3)[OF valid a(3) loop(1) f(1)])
  ultimately show ?thesis using n(1) loop(1) f(1) i3(1) l2 l3
    by (auto simp: optimize_broadcast_shape_def MAX_INPUT_NUM_def bc_start_def)
qed

lemma optimize_broadcast_ok:
  assumes "valid_broadcast shapes os" "length shapes \<le> 30" "length os \<le> 4"
    "length out_os = 8" "list_all (\<lambda>a. length a = 8) out_ins" "length out_ins = length shapes"
  shows "\<exists>r. optimize_broadcast_shape shapes os out_ins out_os = Some (Some r)"
  using optimize_broadcast_fits[OF assms] by blast


subsection \<open>The two-input optimizer is the general one at two inputs\<close>

lemma eltwise_fill_eq:
  "map_option (\<lambda>(d, xs, ys, out). (d, [xs, ys], out)) (eltwise_fill_dim xs ys out d sx sy so) =
   broadcast_fill_dim [xs, ys] out d [sx, sy] so"
  by (auto simp: eltwise_fill_dim_def broadcast_fill_dim_def Let_def wr_def split: option.splits)

definition state_mask :: "eltwise_state \<Rightarrow> bool list option" where
  "state_mask s = (case s of Empty_State \<Rightarrow> None | No_Broadcast \<Rightarrow> Some [False, False]
     | Broadcast_X \<Rightarrow> Some [True, False] | Broadcast_Y \<Rightarrow> Some [False, True])"

definition to_bc :: "elt_state \<Rightarrow> bc_state" where
  "to_bc st = \<lparr>bc_eff = [elt_x st, elt_y st], bc_prev = state_mask (elt_prev st), bc_dims = elt_dims st,
     bc_ins = [elt_xs st, elt_ys st], bc_out = elt_out st\<rparr>"

lemma eltwise_step_eq:
  assumes "group_ok [sx, sy] so"
  shows "map_option (map_option to_bc) (eltwise_step sx sy so st) = broadcast_step [sx, sy] so (to_bc st)"
proof (cases "so = 1")
  case True
  then show ?thesis by (simp add: eltwise_step_def broadcast_step_def)
next
  case False
  have no: "\<not> broadcast_mismatch [sx, sy]" using no_mismatch[OF assms] .
  have fill: "broadcast_fill_dim (bc_ins (to_bc st)) (bc_out (to_bc st)) (bc_dims (to_bc st))
      (bc_eff (to_bc st)) (max_size (bc_eff (to_bc st))) =
      map_option (\<lambda>(d, xs, ys, out). (d, [xs, ys], out)) (eltwise_fill_dim (elt_xs st) (elt_ys st)
        (elt_out st) (elt_dims st) (elt_x st) (elt_y st) (max (elt_x st) (elt_y st)))"
    unfolding eltwise_fill_eq by (simp add: to_bc_def)
  consider (none) "sx = so" "sy = so" | (x) "sx = 1" "sy = so" | (y) "sx = so" "sy = 1"
    using assms False by (auto simp: group_ok_def)
  then show ?thesis
  proof cases
    case none
    then have c: "eltwise_class sx sy = No_Broadcast" by (simp add: eltwise_class_def)
    show ?thesis using no False none c fill
      by (cases "elt_prev st"; cases "eltwise_fill_dim (elt_xs st) (elt_ys st) (elt_out st) (elt_dims st)
          (elt_x st) (elt_y st) (max (elt_x st) (elt_y st))")
        (auto simp: eltwise_step_def broadcast_step_def Let_def to_bc_def state_mask_def)
  next
    case x
    then have c: "eltwise_class sx sy = Broadcast_X" using False by (simp add: eltwise_class_def)
    show ?thesis using no False x c fill
      by (cases "elt_prev st"; cases "eltwise_fill_dim (elt_xs st) (elt_ys st) (elt_out st) (elt_dims st)
          (elt_x st) (elt_y st) (max (elt_x st) (elt_y st))")
        (auto simp: eltwise_step_def broadcast_step_def Let_def to_bc_def state_mask_def)
  next
    case y
    then have c: "eltwise_class sx sy = Broadcast_Y" using False by (simp add: eltwise_class_def)
    show ?thesis using no False y c fill
      by (cases "elt_prev st"; cases "eltwise_fill_dim (elt_xs st) (elt_ys st) (elt_out st) (elt_dims st)
          (elt_x st) (elt_y st) (max (elt_x st) (elt_y st))")
        (auto simp: eltwise_step_def broadcast_step_def Let_def to_bc_def state_mask_def)
  qed
qed

lemma eltwise_loop_eq:
  "\<forall>k < length sos. group_ok (sizes_at [sx, sy] (i + k)) (sos ! k) \<Longrightarrow>
   map_option (map_option to_bc) (eltwise_loop sx sy i sos st) = broadcast_loop [sx, sy] i sos (to_bc st)"
proof (induction sos arbitrary: i st)
  case (Cons so sos)
  let ?a = "if i < length sx then sx ! i else 1" and ?b = "if i < length sy then sy ! i else 1"
  have sz: "sizes_at [sx, sy] i = [?a, ?b]" by (simp add: sizes_at_def)
  have "group_ok (sizes_at [sx, sy] i) so" using Cons.prems by force
  then have step: "broadcast_step (sizes_at [sx, sy] i) so (to_bc st) =
      map_option (map_option to_bc) (eltwise_step ?a ?b so st)"
    unfolding sz by (rule eltwise_step_eq[symmetric])
  have IH: "map_option (map_option to_bc) (eltwise_loop sx sy (Suc i) sos st') =
      broadcast_loop [sx, sy] (Suc i) sos (to_bc st')" for st'
    using Cons.prems by (intro Cons.IH) force
  show ?case
  proof (cases "eltwise_step ?a ?b so st")
    case None
    then show ?thesis unfolding eltwise_loop.simps broadcast_loop.simps step by simp
  next
    case (Some r)
    then show ?thesis unfolding eltwise_loop.simps broadcast_loop.simps step using IH by (cases r) simp_all
  qed
qed simp

lemma eltwise_eq_broadcast:
  assumes valid: "valid_broadcast [sx, sy] os"
  shows "map_option (map_option (\<lambda>(xs, ys, out, d). ([xs, ys], out, d)))
      (optimize_eltwise_shape sx sy os ox oy oo) = optimize_broadcast_shape [sx, sy] os [ox, oy] oo"
proof -
  let ?st0 = "\<lparr>elt_x = 1, elt_y = 1, elt_prev = Empty_State, elt_dims = 0, elt_xs = ox, elt_ys = oy, elt_out = oo\<rparr>"
  have st0: "to_bc ?st0 = bc_start [sx, sy] [ox, oy] oo" by (simp add: to_bc_def bc_start_def state_mask_def)
  have loop: "broadcast_loop [sx, sy] 0 os (bc_start [sx, sy] [ox, oy] oo) =
      map_option (map_option to_bc) (eltwise_loop sx sy 0 os ?st0)"
    using eltwise_loop_eq[of os sx sy 0 ?st0] valid st0 by (simp add: valid_broadcast_def list_all_iff)
  show ?thesis
  proof (cases "eltwise_loop sx sy 0 os ?st0")
    case None
    then show ?thesis using loop
      by (simp add: optimize_eltwise_shape_def optimize_broadcast_shape_def bc_start_def MAX_INPUT_NUM_def)
  next
    case (Some r)
    show ?thesis
    proof (cases r)
      case None
      then show ?thesis using Some loop
        by (simp add: optimize_eltwise_shape_def optimize_broadcast_shape_def bc_start_def MAX_INPUT_NUM_def)
    next
      case (Some st)
      note l = loop[unfolded \<open>eltwise_loop sx sy 0 os ?st0 = Some r\<close> Some]
      let ?f = "eltwise_fill_dim (elt_xs st) (elt_ys st) (elt_out st) (elt_dims st) (elt_x st) (elt_y st)
        (max (elt_x st) (elt_y st))"
      have f: "broadcast_fill_dim (bc_ins (to_bc st)) (bc_out (to_bc st)) (bc_dims (to_bc st))
          (bc_eff (to_bc st)) (max_size (bc_eff (to_bc st))) =
          map_option (\<lambda>(d, xs, ys, out). (d, [xs, ys], out)) ?f"
        unfolding eltwise_fill_eq by (simp add: to_bc_def)
      show ?thesis
      proof (cases ?f)
        case None
        then show ?thesis using \<open>eltwise_loop sx sy 0 os ?st0 = Some r\<close> Some l f
          by (simp add: optimize_eltwise_shape_def optimize_broadcast_shape_def bc_start_def MAX_INPUT_NUM_def)
      next
        case (Some t)
        obtain d xs ys out where t: "t = (d, xs, ys, out)" by (cases t) auto
        have fz: "fix_all d [xs, ys] = Some [xs, ys]"
          using l by (intro broadcast_core(3)[OF valid _ _ f[unfolded Some t, simplified], of "[ox, oy]" oo]) simp_all
        show ?thesis using \<open>eltwise_loop sx sy 0 os ?st0 = Some r\<close> \<open>r = Some st\<close> l f Some t fz
          by (auto simp: optimize_eltwise_shape_def optimize_broadcast_shape_def bc_start_def MAX_INPUT_NUM_def
              wr_def)
      qed
    qed
  qed
qed


subsection \<open>The properties\<close>

lemma rank7_fill:
  assumes "GPU_TENSOR_MAX_WIDTH \<le> so" "e < GPU_TENSOR_MAX_WIDTH" "unat e dvd unat so"
    "so div e \<le> GPU_TENSOR_MAX_WIDTH" "length out = 8"
  shows "broadcast_fill_dim ins out 7 sizes so = None"
proof -
  have so: "0 < so" using assms(1) by (auto simp: GPU_TENSOR_MAX_WIDTH_def word_le_nat_alt word_less_nat_alt)
  obtain q where q: "compute_gpu_divisor so GPU_TENSOR_MAX_WIDTH 1 = Some q" "0 < q" "e \<le> q"
  proof -
    have "1 < GPU_TENSOR_MAX_WIDTH" by (simp add: GPU_TENSOR_MAX_WIDTH_def)
    from compute_gpu_divisor_spec[OF so this] show ?thesis using assms(2,3) that by metis
  qed
  have e: "unat e \<noteq> 0" using assms(3) so by (auto simp: word_less_nat_alt)
  have "unat so div unat q \<le> unat so div unat e"
    using q(3) e by (intro div_le_mono2) (auto simp: word_le_nat_alt)
  then have "so div q \<le> GPU_TENSOR_MAX_WIDTH"
    using assms(4) by (simp add: word_le_nat_alt unat_div)
  then show ?thesis using assms(1,5) q(1)
    by (auto simp: broadcast_fill_dim_def Let_def MAX_DIM_NUM_def not_less wr_def
        split: option.splits)
qed

text \<open>
  C6: for a valid broadcast of any number of inputs, the shapes that
  \<open>vsi_nn_kernel_optimize_broadcast_shape\<close> returns read the same elements: for every input,
  each position of the output reads the position of the input that it reads under the
  original shapes, and the numbers of elements of the input and of the output are kept.
\<close>

theorem broadcast_shape_sound:
  assumes "valid_broadcast shapes os" "length out_ins = length shapes"
    "optimize_broadcast_shape shapes os out_ins out_os = Some (Some (ins', out', d'))" "j < length shapes"
  shows "bidx (view (ins' ! j) out' d') i = bidx (input_view (shapes ! j) os) i \<and>
    num_in (view (ins' ! j) out' d') = num_in (input_view (shapes ! j) os) \<and>
    num_out (view (ins' ! j) out' d') = num_out (input_view (shapes ! j) os)"
  using optimize_broadcast_view[OF assms(1,3,2,4)] by (simp add: same_view_def)

lemma sample_valid: "valid_broadcast [[2, 3, 4], [2, 3]] [2, 3, 4]"
  by (simp add: valid_broadcast_def group_ok_def sizes_at_def upt_rec)

lemma sample_broadcast:
  "optimize_broadcast_shape [[2, 3, 4], [2, 3]] [2, 3, 4] [replicate 8 0, replicate 8 0] (replicate 8 0)
    = Some (Some ([[6, 4, 0, 0, 0, 0, 0, 0], [6, 1, 0, 0, 0, 0, 0, 0]], [6, 4, 0, 0, 0, 0, 0, 0], 2))"
  by code_simp

theorem broadcast_shape_sound_witness:
  "bidx (view [6, 1, 0, 0, 0, 0, 0, 0] [6, 4, 0, 0, 0, 0, 0, 0] 2) 17 = bidx (input_view [2, 3] [2, 3, 4]) 17"
  using broadcast_shape_sound[OF sample_valid _ sample_broadcast, of 1 17] by simp

text \<open>
  C8: for up to 30 inputs and outputs of rank at most 4 the optimizer never leaves the
  arrays of 8 entries and returns TRUE on every valid broadcast, also where it splits
  dimensions that are too wide.
\<close>

theorem broadcast_shape_returns:
  assumes "valid_broadcast shapes os" "length shapes \<le> 30" "length os \<le> 4"
    "length out_os = 8" "list_all (\<lambda>a. length a = 8) out_ins" "length out_ins = length shapes"
  shows "\<exists>r. optimize_broadcast_shape shapes os out_ins out_os = Some (Some r)"
  using assms by (rule optimize_broadcast_ok)

theorem broadcast_shape_returns_witness:
  "\<exists>r. optimize_broadcast_shape [[2, 3, 4], [2, 3]] [2, 3, 4] [replicate 8 0, replicate 8 0] (replicate 8 0)
    = Some (Some r)"
  by (rule broadcast_shape_returns[OF sample_valid]) simp_all

text \<open>
  C7: \<open>vsi_nn_kernel_optimize_eltwise_shape\<close>, written with an enumeration of broadcast
  states for two inputs, computes exactly what \<open>vsi_nn_kernel_optimize_broadcast_shape\<close>
  computes with bit masks for the list of the two inputs, with the same failures.
\<close>

theorem eltwise_is_broadcast:
  assumes "valid_broadcast [sx, sy] os"
  shows "map_option (map_option (\<lambda>(xs, ys, out, d). ([xs, ys], out, d)))
      (optimize_eltwise_shape sx sy os ox oy oo) = optimize_broadcast_shape [sx, sy] os [ox, oy] oo"
  using assms by (rule eltwise_eq_broadcast)

theorem eltwise_is_broadcast_witness:
  "map_option (map_option (\<lambda>(xs, ys, out, d). ([xs, ys], out, d)))
      (optimize_eltwise_shape [2, 3, 4] [2, 3] [2, 3, 4] (replicate 8 0) (replicate 8 0) (replicate 8 0)) =
    Some (Some ([[6, 4, 0, 0, 0, 0, 0, 0], [6, 1, 0, 0, 0, 0, 0, 0]], [6, 4, 0, 0, 0, 0, 0, 0], 2))"
  using eltwise_is_broadcast[OF sample_valid, of "replicate 8 0" "replicate 8 0" "replicate 8 0"]
    sample_broadcast by simp

text \<open>
  The guard \<open>rank >= max_rank\<close> before a split comes one too late. At rank 7 of arrays of
  \<open>VSI_NN_MAX_DIM_NUM\<close> (8) entries a dimension of 65536 or more that has a divisor fitting
  the GPU is split into entries 7 and 8, and entry 8 is outside of the array.
\<close>

theorem fill_dim_rank7_overflow:
  assumes "GPU_TENSOR_MAX_WIDTH \<le> so" "e < GPU_TENSOR_MAX_WIDTH" "unat e dvd unat so"
    "so div e \<le> GPU_TENSOR_MAX_WIDTH" "length out = 8"
  shows "broadcast_fill_dim ins out 7 sizes so = None"
  using assms by (rule rank7_fill)

theorem fill_dim_rank7_overflow_witness:
  "broadcast_fill_dim [replicate 8 1] (replicate 8 1) 7 [65536] 65536 = None"
  by (rule fill_dim_rank7_overflow[of _ 32768]) (simp_all add: GPU_TENSOR_MAX_WIDTH_def)

end
