(* ===== verification/Kernel_Matmul.thy ===== *)
theory Kernel_Matmul
  imports Kernel_Shape
begin

text \<open>
  The shapes of a batched matrix multiplication,
  \<open>vsi_nn_kernel_optimize_matrixmul_broadcast_shape\<close> of
  \<^verbatim>\<open>src/tim/vx/internal/src/kernel/vsi_nn_kernel_gpu_shape_optimize.c\<close>. The first two dimensions
  are the matrices; the others are batches, which broadcast. Usually the batch dimensions go
  through the broadcast optimizer of \<open>Kernel_Shape\<close>; when the two inputs broadcast in different
  places around a common dimension (the axis), the batches are flattened and the kernel gets the
  sizes and the strides of three loops over the axis, the inner and the outer batches.

  The shapes are the arrays of the tensors with their ranks; reading behind an array or before its
  start is \<open>None\<close>.
\<close>

subsection \<open>The common loops\<close>

fun batch_product :: "vsi_size_t list \<Rightarrow> nat \<Rightarrow> nat \<Rightarrow> vsi_size_t \<Rightarrow> vsi_size_t option" where
  "batch_product shape i 0 outer = Some outer"
| "batch_product shape i (Suc n) outer = do {
     s \<leftarrow> rd shape i;
     batch_product shape (Suc i) n (outer * s) }"

fun copy_dims :: "vsi_size_t list \<Rightarrow> nat \<Rightarrow> nat \<Rightarrow> vsi_size_t list \<Rightarrow> nat \<Rightarrow> vsi_size_t list option" where
  "copy_dims src i 0 dst j = Some dst"
| "copy_dims src i (Suc n) dst j = do {
     v \<leftarrow> rd src i;
     dst' \<leftarrow> wr dst j v;
     copy_dims src (Suc i) n dst' (Suc j) }"

record matmul_out =
  mo_x :: "vsi_size_t list"
  mo_y :: "vsi_size_t list"
  mo_o :: "vsi_size_t list"
  mo_rank :: "nat list"
  mo_cross :: nat
  mo_size :: "uint32 list"
  mo_stride :: "uint32 list"

text \<open>The first two dimensions of the three shapes.\<close>

definition copy_matrices ::
  "vsi_size_t list \<Rightarrow> vsi_size_t list \<Rightarrow> vsi_size_t list \<Rightarrow> matmul_out \<Rightarrow> matmul_out option" where
  "copy_matrices shape_x shape_y shape_output m = do {
     x \<leftarrow> copy_dims shape_x 0 2 (mo_x m) 0;
     y \<leftarrow> copy_dims shape_y 0 2 (mo_y m) 0;
     o' \<leftarrow> copy_dims shape_output 0 2 (mo_o m) 0;
     Some (m\<lparr>mo_x := x, mo_y := y, mo_o := o'\<rparr>) }"

subsection \<open>The scan for a crossing broadcast\<close>

record cross_state =
  cs_ne :: nat
  cs_first :: nat
  cs_inner :: vsi_size_t
  cs_outer_flg :: nat
  cs_outer_axis :: nat

fun cross_scan ::
  "vsi_size_t list \<Rightarrow> vsi_size_t list \<Rightarrow> nat \<Rightarrow> nat \<Rightarrow> cross_state \<Rightarrow> cross_state option" where
  "cross_scan shape_x shape_y i 0 st = Some st"
| "cross_scan shape_x shape_y i (Suc n) st = do {
     x \<leftarrow> rd shape_x i;
     y \<leftarrow> rd shape_y i;
     if x \<noteq> y \<and> cs_first st = 0 then
       cross_scan shape_x shape_y (Suc i) n
         (if x = 1 then st\<lparr>cs_ne := 1, cs_inner := y, cs_first := 1\<rparr>
          else st\<lparr>cs_ne := 2, cs_inner := x, cs_first := 1\<rparr>)
     else if cs_ne st = 1 \<and> x \<noteq> y \<and> x = 1 \<and> cs_first st = 1 then
       cross_scan shape_x shape_y (Suc i) n (st\<lparr>cs_inner := cs_inner st * y\<rparr>)
     else if cs_ne st = 2 \<and> x \<noteq> y \<and> y = 1 \<and> cs_first st = 1 then
       cross_scan shape_x shape_y (Suc i) n (st\<lparr>cs_inner := cs_inner st * x\<rparr>)
     else if cs_ne st = 1 \<and> x \<noteq> y \<and> x \<noteq> 1 \<and> cs_first st = 1 then
       Some (st\<lparr>cs_outer_flg := 1, cs_outer_axis := i\<rparr>)
     else if cs_ne st = 2 \<and> x \<noteq> y \<and> y \<noteq> 1 \<and> cs_first st = 1 then
       Some (st\<lparr>cs_outer_flg := 2, cs_outer_axis := i\<rparr>)
     else if i > 2 \<and> x = y \<and> y \<noteq> 1 \<and> cs_first st = 1 then
       cross_scan shape_x shape_y (Suc i) n (st\<lparr>cs_first := 2\<rparr>)
     else if x \<noteq> y \<and> x \<noteq> 1 \<and> cs_first st = 2 then
       Some (st\<lparr>cs_outer_flg := 1, cs_outer_axis := i\<rparr>)
     else if x \<noteq> y \<and> y \<noteq> 1 \<and> cs_first st = 2 then
       Some (st\<lparr>cs_outer_flg := 2, cs_outer_axis := i\<rparr>)
     else cross_scan shape_x shape_y (Suc i) n st }"

text \<open>The first common dimension that is not 1: its position and size.\<close>

fun cross_axis ::
  "vsi_size_t list \<Rightarrow> vsi_size_t list \<Rightarrow> nat \<Rightarrow> nat \<Rightarrow> (nat \<times> vsi_size_t) option option" where
  "cross_axis shape_x shape_y i 0 = Some None"
| "cross_axis shape_x shape_y i (Suc n) = do {
     x \<leftarrow> rd shape_x i;
     y \<leftarrow> rd shape_y i;
     if x = y \<and> x \<noteq> 1 then Some (Some (i, x)) else cross_axis shape_x shape_y (Suc i) n }"

text \<open>
  The strides of the three loops in x, y and the output, each a list of the strides of axis, inner
  and outer.
\<close>

definition cross_strides ::
  "nat \<Rightarrow> nat \<Rightarrow> nat \<Rightarrow> vsi_size_t \<Rightarrow> vsi_size_t \<Rightarrow> vsi_size_t list" where
  "cross_strides ne outer_flg axis axis_size inner_size =
     (let (axis_size0, axis_size1, axis_size2) =
            (if axis > 2 \<and> ne = 1 then (1, inner_size, inner_size)
             else if axis > 2 \<and> ne = 2 then (inner_size, 1, inner_size)
             else (1, 1, 1));
          (inner_size0, inner_size1, inner_size2) =
            (if axis = 2 \<and> ne = 1 then (0, axis_size, axis_size)
             else if axis > 2 \<and> ne = 1 then (0, 1, 1)
             else if axis = 2 \<and> ne = 2 then (axis_size, 0, axis_size)
             else if axis > 2 \<and> ne = 2 then (1, 0, 1)
             else (0, 0, 1));
          outer_size0 = (if outer_flg = 1 then axis_size0 * axis_size else 0);
          outer_size1 = (if outer_flg \<noteq> 1 \<and> outer_flg = 2 then axis_size1 * axis_size else 0);
          outer_size2 = axis_size * inner_size
      in [axis_size0, inner_size0, outer_size0, axis_size1, inner_size1, outer_size1,
          axis_size2, inner_size2, outer_size2])"

definition matmul_cross ::
  "vsi_size_t list \<Rightarrow> vsi_size_t list \<Rightarrow> vsi_size_t list \<Rightarrow> nat \<Rightarrow> nat \<Rightarrow> cross_state
   \<Rightarrow> vsi_size_t \<times> vsi_size_t \<times> vsi_size_t \<Rightarrow> nat \<Rightarrow> vsi_size_t \<Rightarrow> matmul_out \<Rightarrow> matmul_out option" where
  "matmul_cross shape_x shape_y shape_output dim_x dim_y st outers axis axis_size m = do {
     let (outer0, outer1, outer2) = outers;
     outer_size \<leftarrow>
       (if cs_outer_flg st = 1 then batch_product shape_x (cs_outer_axis st) (dim_x - cs_outer_axis st) 1
        else if cs_outer_flg st = 2 then batch_product shape_y (cs_outer_axis st) (dim_y - cs_outer_axis st) 1
        else Some 1);
     m \<leftarrow> copy_matrices shape_x shape_y shape_output m;
     x2 \<leftarrow> wr (mo_x m) 2 outer0;
     x3 \<leftarrow> wr x2 3 1;
     y2 \<leftarrow> wr (mo_y m) 2 outer1;
     o2 \<leftarrow> wr (mo_o m) 2 outer2;
     Some (m\<lparr>mo_x := x3, mo_y := y2, mo_o := o2, mo_rank := [4, 3, 3], mo_cross := 1,
       mo_size := [axis_size, cs_inner st, outer_size],
       mo_stride := cross_strides (cs_ne st) (cs_outer_flg st) axis axis_size (cs_inner st)\<rparr>) }"

text \<open>The flattened batches without a common dimension.\<close>

definition matmul_merge ::
  "vsi_size_t list \<Rightarrow> vsi_size_t list \<Rightarrow> vsi_size_t list \<Rightarrow> nat
   \<Rightarrow> vsi_size_t \<times> vsi_size_t \<times> vsi_size_t \<Rightarrow> matmul_out \<Rightarrow> matmul_out option" where
  "matmul_merge shape_x shape_y shape_output ne outers m = do {
     let (outer0, outer1, outer2) = outers;
     m \<leftarrow> copy_matrices shape_x shape_y shape_output m;
     o2 \<leftarrow> wr (mo_o m) 2 outer2;
     let m = m\<lparr>mo_o := o2, mo_rank := (mo_rank m)[2 := 3], mo_cross := 2\<rparr>;
     if ne = 1 then do {
       x2 \<leftarrow> wr (mo_x m) 2 outer0;
       x3 \<leftarrow> wr x2 3 1;
       y2 \<leftarrow> wr (mo_y m) 2 outer1;
       Some (m\<lparr>mo_x := x3, mo_y := y2, mo_rank := (mo_rank m)[0 := 4, 1 := 3]\<rparr>) }
     else if ne = 2 then do {
       x2 \<leftarrow> wr (mo_x m) 2 outer0;
       y2 \<leftarrow> wr (mo_y m) 2 outer1;
       y3 \<leftarrow> wr y2 3 1;
       Some (m\<lparr>mo_x := x2, mo_y := y3, mo_rank := (mo_rank m)[0 := 3, 1 := 4]\<rparr>) }
     else Some m }"

subsection \<open>The batch dimensions for the broadcast optimizer\<close>

text \<open>The local arrays with their initial values, and the ranks.\<close>

record batch_parts =
  bp_x :: "vsi_size_t list"
  bp_y :: "vsi_size_t list"
  bp_o :: "vsi_size_t list"
  bp_rank_x :: nat
  bp_rank_y :: nat
  bp_rank_o :: nat

definition first_one :: "vsi_size_t list" where
  "first_one = 1 # replicate 7 0"

definition no_parts :: batch_parts where
  "no_parts = \<lparr>bp_x = first_one, bp_y = replicate 8 0, bp_o = first_one,
     bp_rank_x = 0, bp_rank_y = 0, bp_rank_o = 0\<rparr>"

definition matmul_vector_x ::
  "vsi_size_t list \<Rightarrow> vsi_size_t list \<Rightarrow> vsi_size_t list \<Rightarrow> nat \<Rightarrow> nat \<Rightarrow> matmul_out
   \<Rightarrow> (matmul_out \<times> batch_parts) option" where
  "matmul_vector_x shape_x shape_y shape_output dim_y dim_out m = do {
     x0 \<leftarrow> copy_dims shape_x 0 1 (mo_x m) 0;
     x1 \<leftarrow> wr x0 1 1;
     y1 \<leftarrow> copy_dims shape_y 0 2 (mo_y m) 0;
     o0 \<leftarrow> copy_dims shape_output 0 1 (mo_o m) 0;
     o1 \<leftarrow> wr o0 1 1;
     let m = m\<lparr>mo_x := x1, mo_y := y1, mo_o := o1\<rparr>;
     if dim_y > 2 then do {
       x' \<leftarrow> wr (bp_x no_parts) 0 1;
       y' \<leftarrow> copy_dims shape_y 2 (dim_y - 1) (bp_y no_parts) 0;
       o' \<leftarrow> copy_dims shape_output 1 dim_out (bp_o no_parts) 0;
       Some (m, no_parts\<lparr>bp_x := x', bp_y := y', bp_o := o', bp_rank_x := 1, bp_rank_y := dim_y - 2,
         bp_rank_o := dim_out - 1\<rparr>) }
     else Some (m, no_parts) }"

definition matmul_vector_y ::
  "vsi_size_t list \<Rightarrow> vsi_size_t list \<Rightarrow> vsi_size_t list \<Rightarrow> nat \<Rightarrow> nat \<Rightarrow> matmul_out
   \<Rightarrow> (matmul_out \<times> batch_parts) option" where
  "matmul_vector_y shape_x shape_y shape_output dim_x dim_out m = do {
     y0 \<leftarrow> wr (mo_y m) 0 1;
     y1 \<leftarrow> copy_dims shape_y 0 1 y0 1;
     x1 \<leftarrow> copy_dims shape_x 0 2 (mo_x m) 0;
     o0 \<leftarrow> wr (mo_o m) 0 1;
     o1 \<leftarrow> copy_dims shape_output 0 1 o0 1;
     let m = m\<lparr>mo_x := x1, mo_y := y1, mo_o := o1\<rparr>;
     if dim_x > 2 then do {
       y' \<leftarrow> wr (bp_y no_parts) 0 1;
       x' \<leftarrow> copy_dims shape_x 2 (dim_x - 1) (bp_x no_parts) 0;
       o' \<leftarrow> copy_dims shape_output 1 dim_out (bp_o no_parts) 0;
       Some (m, no_parts\<lparr>bp_x := x', bp_y := y', bp_o := o', bp_rank_y := 1, bp_rank_x := dim_x - 2,
         bp_rank_o := dim_out - 1\<rparr>) }
     else Some (m, no_parts) }"

text \<open>The ranks wrap around when a shape has fewer than two dimensions.\<close>

definition minus_2 :: "nat \<Rightarrow> nat" where
  "minus_2 d = (if 2 \<le> d then d - 2 else d + 2 ^ 32 - 2)"

definition matmul_matrices ::
  "vsi_size_t list \<Rightarrow> vsi_size_t list \<Rightarrow> vsi_size_t list \<Rightarrow> nat \<Rightarrow> nat \<Rightarrow> nat \<Rightarrow> matmul_out
   \<Rightarrow> (matmul_out \<times> batch_parts) option" where
  "matmul_matrices shape_x shape_y shape_output dim_x dim_y dim_out m = do {
     m \<leftarrow> copy_matrices shape_x shape_y shape_output m;
     x' \<leftarrow> copy_dims shape_x 2 (dim_x - 2) (bp_x no_parts) 0;
     y' \<leftarrow> copy_dims shape_y 2 (dim_y - 2) (bp_y no_parts) 0;
     o' \<leftarrow> copy_dims shape_output 2 (dim_out - 2) (bp_o no_parts) 0;
     Some (m, \<lparr>bp_x = x', bp_y = y', bp_o = o', bp_rank_x = minus_2 dim_x, bp_rank_y = minus_2 dim_y,
       bp_rank_o = minus_2 dim_out\<rparr>) }"

subsection \<open>The whole optimizer\<close>

text \<open>
  The loop that drops trailing dimensions of size 1, from \<open>j\<close> on (\<open>n\<close> is \<open>j + 1\<close>). It tests the entry
  before it tests \<open>j >= 0\<close>, so it reads entry -1 of the array when all entries are 1.
\<close>

fun trim_rank :: "vsi_size_t list \<Rightarrow> nat \<Rightarrow> nat \<Rightarrow> nat option" where
  "trim_rank a 0 rank = None"
| "trim_rank a (Suc j) rank = do {
     v \<leftarrow> rd a j;
     if v = 1 then trim_rank a j (rank - 1) else Some rank }"

definition matmul_broadcast :: "matmul_out \<Rightarrow> batch_parts \<Rightarrow> (bool \<times> matmul_out) option" where
  "matmul_broadcast m p =
     (if bp_rank_o p > 8 then None
      else do {
        r \<leftarrow> optimize_broadcast_shape [take (bp_rank_x p) (bp_x p), take (bp_rank_y p) (bp_y p)]
               (take (bp_rank_o p) (bp_o p)) [first_one, replicate 8 0] first_one;
        case r of
          None \<Rightarrow> Some (False, m)
        | Some (ins, out, new_rank) \<Rightarrow> do {
            in0 \<leftarrow> rd ins 0;
            in1 \<leftarrow> rd ins 1;
            r0 \<leftarrow> trim_rank in0 new_rank (new_rank + 2);
            r1 \<leftarrow> trim_rank in1 new_rank (new_rank + 2);
            r2 \<leftarrow> trim_rank out new_rank (new_rank + 2);
            x \<leftarrow> copy_dims in0 0 new_rank (mo_x m) 2;
            y \<leftarrow> copy_dims in1 0 new_rank (mo_y m) 2;
            o' \<leftarrow> copy_dims out 0 new_rank (mo_o m) 2;
            Some (True, m\<lparr>mo_x := x, mo_y := y, mo_o := o', mo_rank := [r0, r1, r2]\<rparr>) } })"

definition matmul_plain ::
  "vsi_size_t list \<Rightarrow> vsi_size_t list \<Rightarrow> vsi_size_t list \<Rightarrow> nat \<Rightarrow> nat \<Rightarrow> nat \<Rightarrow> matmul_out
   \<Rightarrow> (bool \<times> matmul_out) option" where
  "matmul_plain shape_x shape_y shape_output dim_x dim_y dim_out m = do {
     (m, p) \<leftarrow>
       (if dim_x = 1 \<and> dim_y > 1 then matmul_vector_x shape_x shape_y shape_output dim_y dim_out m
        else if dim_y = 1 \<and> dim_x > 1 then matmul_vector_y shape_x shape_y shape_output dim_x dim_out m
        else matmul_matrices shape_x shape_y shape_output dim_x dim_y dim_out m);
     matmul_broadcast m p }"

definition cross_start :: cross_state where
  "cross_start = \<lparr>cs_ne = 0, cs_first = 0, cs_inner = 1, cs_outer_flg = 0, cs_outer_axis = 0\<rparr>"

definition optimize_matmul_shape ::
  "vsi_size_t list \<Rightarrow> vsi_size_t list \<Rightarrow> vsi_size_t list \<Rightarrow> nat \<Rightarrow> nat \<Rightarrow> nat \<Rightarrow> matmul_out
   \<Rightarrow> (bool \<times> matmul_out) option" where
  "optimize_matmul_shape shape_x shape_y shape_output dim_x dim_y dim_out m0 =
     (let m = m0\<lparr>mo_cross := 0\<rparr>
      in if dim_x > 2 \<and> dim_y > 2 then do {
        outer0 \<leftarrow> batch_product shape_x 2 (dim_x - 2) 1;
        outer1 \<leftarrow> batch_product shape_y 2 (dim_y - 2) 1;
        outer2 \<leftarrow> batch_product shape_output 2 (dim_out - 2) 1;
        st \<leftarrow> cross_scan shape_x shape_y 2 (min dim_x dim_y - 2) cross_start;
        axis \<leftarrow> (if cs_ne st > 0 \<and> outer0 > 1 \<and> outer1 > 1
                 then cross_axis shape_x shape_y 2 (min dim_x dim_y - 2) else Some None);
        case axis of
          Some (i, axis_size) \<Rightarrow> do {
            m' \<leftarrow> matmul_cross shape_x shape_y shape_output dim_x dim_y st (outer0, outer1, outer2) i axis_size m;
            Some (True, m') }
        | None \<Rightarrow>
            if outer0 > 1 \<and> outer1 > 1 \<and> cs_ne st > 0 then do {
              m' \<leftarrow> matmul_merge shape_x shape_y shape_output (cs_ne st) (outer0, outer1, outer2) m;
              Some (True, m') }
            else matmul_plain shape_x shape_y shape_output dim_x dim_y dim_out m }
      else matmul_plain shape_x shape_y shape_output dim_x dim_y dim_out m)"

subsection \<open>The loops\<close>

lemma batch_product_ok:
  "i + n \<le> length shape \<Longrightarrow> \<exists>p. batch_product shape i n acc = Some p"
  by (induction n arbitrary: i acc) auto

lemma copy_dims_ok:
  "i + n \<le> length src \<Longrightarrow> j + n \<le> length dst \<Longrightarrow>
   copy_dims src i n dst j = Some (take j dst @ take n (drop i src) @ drop (j + n) dst)"
proof (induction n arbitrary: i j dst)
  case (Suc n)
  have "take (Suc j) (dst[j := src ! i]) = take j dst @ [src ! i]"
    using Suc.prems by (simp add: take_Suc_conv_app_nth)
  moreover have "take (Suc n) (drop i src) = src ! i # take n (drop (Suc i) src)"
    using Suc.prems by (simp add: Cons_nth_drop_Suc[symmetric])
  ultimately show ?case
    using Suc.IH[of "Suc i" "Suc j" "dst[j := src ! i]"] Suc.prems by simp
qed simp

lemma cross_scan_ok:
  "i + n \<le> length xs \<Longrightarrow> i + n \<le> length ys \<Longrightarrow> 0 < i \<Longrightarrow>
   cs_outer_axis st \<le> i + n \<Longrightarrow>
   \<exists>st'. cross_scan xs ys i n st = Some st' \<and> cs_outer_axis st' \<le> i + n"
proof (induction n arbitrary: i st)
  case (Suc n)
  have ok: "\<exists>st''. cross_scan xs ys (Suc i) n st' = Some st'' \<and> cs_outer_axis st'' \<le> Suc (i + n)"
    if c: "cs_outer_axis st' \<le> Suc (i + n)" for st' :: cross_state
    using Suc.IH[of "Suc i" st'] Suc.prems c by simp
  have a: "rd xs i = Some (xs ! i)" "rd ys i = Some (ys ! i)" using Suc.prems(1,2) by simp_all
  show ?case
    using Suc.prems(4) by (simp add: a ok)
qed simp

lemma cross_axis_ok:
  "i + n \<le> length xs \<Longrightarrow> i + n \<le> length ys \<Longrightarrow> \<exists>r. cross_axis xs ys i n = Some r"
  by (induction n arbitrary: i) auto

text \<open>
  The loop returns when some entry is not 1; then what is dropped is 1, and the last dimension
  kept is not.
\<close>

definition ones :: "vsi_size_t list \<Rightarrow> bool" where
  "ones ss \<longleftrightarrow> (\<forall>s \<in> set ss. s = 1)"

lemma ones_simps [simp]: "ones []" "ones (s # ss) \<longleftrightarrow> s = 1 \<and> ones ss" "ones (ss @ ts) \<longleftrightarrow> ones ss \<and> ones ts"
  by (auto simp: ones_def)

lemma trim_rank_ok:
  "n \<le> length a \<Longrightarrow> n \<le> rank \<Longrightarrow>
   if ones (take n a) then trim_rank a n rank = None
   else \<exists>k \<le> n. trim_rank a n rank = Some (rank - n + k) \<and> (\<forall>i. k \<le> i \<and> i < n \<longrightarrow> a ! i = 1)"
proof (induction n arbitrary: rank)
  case (Suc n)
  have t: "take (Suc n) a = take n a @ [a ! n]" using Suc.prems by (simp add: take_Suc_conv_app_nth)
  show ?case
  proof (cases "a ! n = 1")
    case True
    have n: "n \<le> length a" "n \<le> rank - 1" using Suc.prems by simp_all
    have k: "\<exists>k' \<le> Suc n. rank - 1 - n + k = rank - Suc n + k' \<and> (\<forall>i. k' \<le> i \<and> i < Suc n \<longrightarrow> a ! i = 1)"
      if "k \<le> n" "\<forall>i. k \<le> i \<and> i < n \<longrightarrow> a ! i = 1" for k
      using that True by (intro exI[of _ k]) (auto simp: less_Suc_eq)
    show ?thesis using Suc.IH[OF n] Suc.prems True k by (auto simp: t split: if_splits)
  next
    case False
    then show ?thesis using Suc.prems by (auto simp: t intro!: exI[of _ "Suc n"])
  qed
qed simp

subsection \<open>Shapes of matrices with batches\<close>

definition batch :: "nat \<Rightarrow> vsi_size_t list \<Rightarrow> vsi_size_t list" where
  "batch d shape = take (d - 2) (drop 2 shape)"

definition arrays8 :: "matmul_out \<Rightarrow> bool" where
  "arrays8 m \<longleftrightarrow> length (mo_x m) = 8 \<and> length (mo_y m) = 8 \<and> length (mo_o m) = 8 \<and> length (mo_rank m) = 3"

lemma copy_matrices_ok:
  assumes "2 \<le> length xs" "2 \<le> length ys" "2 \<le> length os" "arrays8 m"
  shows "copy_matrices xs ys os m = Some (m\<lparr>mo_x := take 2 xs @ drop 2 (mo_x m),
    mo_y := take 2 ys @ drop 2 (mo_y m), mo_o := take 2 os @ drop 2 (mo_o m)\<rparr>)"
proof -
  have c: "copy_dims src 0 2 dst 0 = Some (take 2 src @ drop 2 dst)" if l: "2 \<le> length src" "length dst = 8" for src dst
    using copy_dims_ok[of 0 2 src 0 dst] l by (simp only: drop_0 take_0 append.simps add_0)
  show ?thesis using assms by (simp add: copy_matrices_def c arrays8_def)
qed

text \<open>
  The result of the usual path: the matrices are kept, the batch dimensions read the same
  batches, and the ranks only leave out trailing dimensions of size 1.
\<close>

definition batches_ok ::
  "vsi_size_t list \<Rightarrow> vsi_size_t list \<Rightarrow> vsi_size_t list \<Rightarrow> matmul_out \<Rightarrow> nat \<Rightarrow> bool" where
  "batches_ok bx by' bo r d \<longleftrightarrow>
     same_view (view (drop 2 (mo_x r)) (drop 2 (mo_o r)) d) (input_view bx bo) \<and>
     same_view (view (drop 2 (mo_y r)) (drop 2 (mo_o r)) d) (input_view by' bo)"

definition rank_ok :: "vsi_size_t list \<Rightarrow> nat \<Rightarrow> nat \<Rightarrow> bool" where
  "rank_ok a d rank \<longleftrightarrow> 2 \<le> rank \<and> rank \<le> d + 2 \<and> (\<forall>i. rank \<le> i \<and> i < d + 2 \<longrightarrow> a ! i = 1)"

lemma trimmed_rank_ok:
  assumes "trim_rank a d (d + 2) = Some r" "d \<le> length a" "length m = 2"
  shows "rank_ok (m @ take d a @ e) d r"
proof -
  obtain k where "k \<le> d" "r = d + 2 - d + k" "\<forall>i. k \<le> i \<and> i < d \<longrightarrow> a ! i = 1"
    using trim_rank_ok[OF assms(2), of "d + 2"] assms(1) by (auto split: if_splits)
  then show ?thesis using assms(2,3) by (auto simp: rank_ok_def nth_append)
qed

lemma prod_list_1: "prod_list (map unat ss) = 1 \<longleftrightarrow> ones ss"
proof (induction ss)
  case (Cons s ss)
  have "unat s = 1 \<longleftrightarrow> s = 1" using unat_eq_iff[of s 1] by simp
  then show ?case using Cons.IH by simp
qed simp

lemma view_ones: "d \<le> length a \<Longrightarrow> d \<le> length out \<Longrightarrow> num_in (view a out d) = 1 \<longleftrightarrow> ones (take d a)"
  by (simp only: num_in_def view_def prod_list_1[symmetric]) simp

lemma view_out_ones: "d \<le> length a \<Longrightarrow> d \<le> length out \<Longrightarrow> num_out (view a out d) = 1 \<longleftrightarrow> ones (take d out)"
  by (simp only: num_out_def view_def prod_list_1[symmetric]) simp

text \<open>What the broadcast of two lists of batches says of the sizes.\<close>

definition size_or :: "vsi_size_t list \<Rightarrow> nat \<Rightarrow> vsi_size_t" where
  "size_or ss i = (if i < length ss then ss ! i else 1)"

lemma input_view_eq: "input_view ss os = map (\<lambda>i. (unat (size_or ss i), unat (os ! i))) [0..<length os]"
  by (simp add: input_view_def size_or_def)

lemma valid_sizes:
  "valid_broadcast [bx, by'] bo \<longleftrightarrow> prod_list (map unat bo) < 2 ^ 32 \<and>
     (\<forall>i < length bo. 0 < bo ! i \<and> (size_or bx i = 1 \<or> size_or bx i = bo ! i) \<and>
        (size_or by' i = 1 \<or> size_or by' i = bo ! i) \<and>
        (bo ! i \<noteq> 1 \<longrightarrow> bo ! i = size_or bx i \<or> bo ! i = size_or by' i))"
proof -
  have "sizes_at [bx, by'] i = [size_or bx i, size_or by' i]" for i by (simp add: sizes_at_def size_or_def)
  then have "group_ok (sizes_at [bx, by'] i) o' \<longleftrightarrow> 0 < o' \<and> (size_or bx i = 1 \<or> size_or bx i = o') \<and>
    (size_or by' i = 1 \<or> size_or by' i = o') \<and> (o' \<noteq> 1 \<longrightarrow> o' = size_or bx i \<or> o' = size_or by' i)" for i o'
    by (simp add: group_ok_def)
  then show ?thesis by (simp add: valid_broadcast_def list_all_iff atLeast0LessThan Ball_def)
qed

lemma size_or_ones: "length ss \<le> n \<Longrightarrow> ones ss \<longleftrightarrow> (\<forall>i < n. size_or ss i = 1)"
  by (force simp: ones_def size_or_def in_set_conv_nth)

lemma prod_size_or:
  "length ss \<le> n \<Longrightarrow> prod_list (map (\<lambda>i. unat (size_or ss i)) [0..<n]) = prod_list (map unat ss)"
proof (induction n arbitrary: ss)
  case (Suc n)
  have u: "[0..<Suc n] = 0 # map Suc [0..<n]" by (simp add: upt_conv_Cons map_Suc_upt del: upt_Suc)
  show ?case
  proof (cases ss)
    case (Cons s ss')
    have "size_or ss (Suc i) = size_or ss' i" "size_or ss 0 = s" for i by (simp_all add: Cons size_or_def)
    then show ?thesis using Suc.IH[of ss'] Suc.prems unfolding u by (simp add: Cons comp_def)
  next
    case Nil
    have "map (\<lambda>i. unat (size_or [] i)) [0..<Suc n] = replicate (Suc n) 1"
      by (simp add: size_or_def map_replicate_const del: upt_Suc)
    then show ?thesis by (simp only: Nil) simp
  qed
qed simp

lemma view_counts:
  assumes "length ss \<le> length os"
  shows "num_in (input_view ss os) = prod_list (map unat ss)" "num_out (input_view ss os) = prod_list (map unat os)"
proof -
  have "map (\<lambda>i. unat (os ! i)) [0..<length os] = map unat os" by (rule nth_equalityI) simp_all
  then show "num_in (input_view ss os) = prod_list (map unat ss)" "num_out (input_view ss os) = prod_list (map unat os)"
    using prod_size_or[OF assms] by (simp_all add: input_view_eq num_in_def num_out_def comp_def)
qed

lemma matmul_broadcast_ok:
  assumes valid: "valid_broadcast [bx, by'] bo" and bo: "length bo \<le> 3" and m: "arrays8 m"
    and short: "length bx \<le> length bo" "length by' \<le> length bo"
    and p: "take (bp_rank_x p) (bp_x p) = bx" "take (bp_rank_y p) (bp_y p) = by'"
      "take (bp_rank_o p) (bp_o p) = bo" "bp_rank_o p \<le> 8"
  shows "if ones bx \<or> ones by' then matmul_broadcast m p = None
    else \<exists>r d. matmul_broadcast m p = Some (True, r) \<and> mo_cross r = mo_cross m \<and>
      take 2 (mo_x r) = take 2 (mo_x m) \<and> take 2 (mo_y r) = take 2 (mo_y m) \<and> take 2 (mo_o r) = take 2 (mo_o m) \<and>
      batches_ok bx by' bo r d \<and> d \<le> 6 \<and> rank_ok (mo_x r) d (mo_rank r ! 0) \<and> rank_ok (mo_y r) d (mo_rank r ! 1) \<and>
      rank_ok (mo_o r) d (mo_rank r ! 2)"
proof -
  have f: "length (first_one) = 8" by (simp add: first_one_def)
  obtain ins out d where o1: "optimize_broadcast_shape [bx, by'] bo [first_one, replicate 8 0] first_one = Some (Some (ins, out, d))"
    "d \<le> max 2 (2 * length bo)" "length ins = 2" "list_all (\<lambda>a. 8 \<le> length a) ins" "8 \<le> length out"
    using optimize_broadcast_fits[OF valid, of first_one "[first_one, replicate 8 0]"] bo f by auto
  have v: "same_view (view (ins ! 0) out d) (input_view bx bo)" "same_view (view (ins ! 1) out d) (input_view by' bo)"
    using optimize_broadcast_view[OF valid o1(1), of 0] optimize_broadcast_view[OF valid o1(1), of 1] by simp_all
  obtain in0 in1 where ins: "ins = [in0, in1]" "8 \<le> length in0" "8 \<le> length in1"
    using o1(3,4) by (auto simp: length_Suc_conv numeral_2_eq_2)
  have d: "d \<le> 6" using o1(2) bo by linarith
  have dl: "d \<le> length in0" "d \<le> length in1" "d \<le> length out" using d ins o1(5) by simp_all
  have one: "ones (take d in0) \<longleftrightarrow> ones bx" "ones (take d in1) \<longleftrightarrow> ones by'" "ones (take d out) \<longleftrightarrow> ones bo"
    using v view_ones[OF dl(1,3)] view_ones[OF dl(2,3)] view_out_ones[OF dl(1,3)] view_counts[OF short(1)]
      view_counts[OF short(2)] by (simp_all add: same_view_def ins(1) prod_list_1[symmetric])
  have bo1: "\<not> ones bo" if "\<not> ones bx"
    using that valid size_or_ones[OF short(1)] size_or_ones[of bo "length bo"] by (auto simp: valid_sizes size_or_def)
  note t0 = trim_rank_ok[OF dl(1), of "d + 2"] and t1 = trim_rank_ok[OF dl(2), of "d + 2"]
    and t2 = trim_rank_ok[OF dl(3), of "d + 2"]
  have run: "matmul_broadcast m p = do {
      r0 \<leftarrow> trim_rank in0 d (d + 2); r1 \<leftarrow> trim_rank in1 d (d + 2); r2 \<leftarrow> trim_rank out d (d + 2);
      x \<leftarrow> copy_dims in0 0 d (mo_x m) 2; y \<leftarrow> copy_dims in1 0 d (mo_y m) 2; o' \<leftarrow> copy_dims out 0 d (mo_o m) 2;
      Some (True, m\<lparr>mo_x := x, mo_y := y, mo_o := o', mo_rank := [r0, r1, r2]\<rparr>) }"
    using p o1(1) by (simp add: matmul_broadcast_def ins(1) rd_def)
  show ?thesis
  proof (cases "ones bx \<or> ones by'")
    case True
    then show ?thesis using t0 t1 one(1,2) unfolding run by (cases "trim_rank in0 d (d + 2)") auto
  next
    case False
    obtain r0 where t0: "trim_rank in0 d (d + 2) = Some r0" using t0 False one by auto
    obtain r1 where t1: "trim_rank in1 d (d + 2) = Some r1" using t1 False one by auto
    obtain r2 where t2: "trim_rank out d (d + 2) = Some r2" using t2 False one bo1 by auto
    have l: "length (mo_x m) = 8" "length (mo_y m) = 8" "length (mo_o m) = 8" using m by (simp_all add: arrays8_def)
    have c: "copy_dims a 0 d b 2 = Some (take 2 b @ take d a @ drop (2 + d) b)" if "d \<le> length a" "length b = 8" for a b
      using copy_dims_ok[of 0 d a 2 b] that d by simp
    let ?r = "m\<lparr>mo_x := take 2 (mo_x m) @ take d in0 @ drop (2 + d) (mo_x m),
      mo_y := take 2 (mo_y m) @ take d in1 @ drop (2 + d) (mo_y m),
      mo_o := take 2 (mo_o m) @ take d out @ drop (2 + d) (mo_o m), mo_rank := [r0, r1, r2]\<rparr>"
    have "matmul_broadcast m p = Some (True, ?r)"
      using t0 t1 t2 c[OF dl(1) l(1)] c[OF dl(2) l(2)] c[OF dl(3) l(3)] by (simp add: run)
    moreover have "batches_ok bx by' bo ?r d"
      using v l dl by (simp add: batches_ok_def ins(1) view_def)
    moreover have "rank_ok (mo_x ?r) d r0" "rank_ok (mo_y ?r) d r1" "rank_ok (mo_o ?r) d r2"
      using trimmed_rank_ok[OF t0 dl(1)] trimmed_rank_ok[OF t1 dl(2)] trimmed_rank_ok[OF t2 dl(3)] l by simp_all
    ultimately show ?thesis using d l False by (auto intro!: exI[of _ ?r] exI[of _ d])
  qed
qed

subsection \<open>Merged batches\<close>

text \<open>
  The meaning of the merged batches (\<open>cross_flg\<close> 2): the input of rank 4 is the outer loop of the
  kernel (\<^verbatim>\<open>matrixmul_cross.cl\<close>), so the batches of the other one are the faster
  digit of the batch of the output.
\<close>

definition merge_views :: "matmul_out \<Rightarrow> (nat \<times> nat) list \<times> (nat \<times> nat) list" where
  "merge_views r =
     (let nx = unat (mo_x r ! 2); ny = unat (mo_y r ! 2)
      in if mo_rank r ! 0 = 4 then ([(1, ny), (nx, nx)], [(ny, ny), (1, nx)])
         else ([(nx, nx), (1, ny)], [(1, nx), (ny, ny)]))"

text \<open>The batches of \<open>s\<close> are all behind those of \<open>t\<close>.\<close>

definition behind :: "vsi_size_t list \<Rightarrow> vsi_size_t list \<Rightarrow> bool" where
  "behind s t \<longleftrightarrow> (\<exists>k \<le> length s. ones (take k s) \<and> ones (drop k t))"

lemma ones_take: "ones (take k ss) \<longleftrightarrow> (\<forall>i < k. size_or ss i = 1)"
  by (force simp: ones_def size_or_def in_set_conv_nth)

lemma ones_drop: "ones (drop k ss) \<longleftrightarrow> (\<forall>i \<ge> k. size_or ss i = 1)"
proof
  assume o1: "ones (drop k ss)"
  show "\<forall>i \<ge> k. size_or ss i = 1"
  proof (intro allI impI)
    fix i assume "k \<le> i"
    show "size_or ss i = 1"
    proof (cases "i < length ss")
      case True
      then have "drop k ss ! (i - k) \<in> set (drop k ss)" using \<open>k \<le> i\<close> by (intro nth_mem) simp
      then show ?thesis using o1 True \<open>k \<le> i\<close> by (simp add: ones_def size_or_def)
    qed (simp add: size_or_def)
  qed
next
  assume "\<forall>i \<ge> k. size_or ss i = 1"
  then have "ss ! (k + j) = 1" if "k + j < length ss" for j
    using that by (auto simp: size_or_def dest: spec[of _ "k + j"])
  then show "ones (drop k ss)" by (auto simp: ones_def in_set_conv_nth less_diff_conv add.commute)
qed

lemma views_of_ones: "same_view (map (\<lambda>i. (1, f i)) is) [(1, prod_list (map f is))]"
proof (induction "is")
  case Nil
  show ?case using view_drop_one by (simp add: same_view_def)
next
  case (Cons i "is")
  have "same_view ([(1, f i)] @ map (\<lambda>i. (1, f i)) is) ([(1, f i)] @ [(1, prod_list (map f is))])"
    by (rule same_view_append[OF same_view_refl Cons.IH])
  then show ?case using same_view_trans[OF _ view_merge_one] by simp
qed

lemma views_of_same: "same_view (map (\<lambda>i. (f i, f i)) is) [(prod_list (map f is), prod_list (map f is))]"
proof (induction "is")
  case Nil
  show ?case using view_drop_one by (simp add: same_view_def)
next
  case (Cons i "is")
  let ?p = "prod_list (map f is)"
  have a: "same_view ([(f i, f i)] @ map (\<lambda>i. (f i, f i)) is) ([(f i, f i)] @ [(?p, ?p)])"
    by (rule same_view_append[OF same_view_refl Cons.IH])
  have "same_view [(f i, f i), (?p, ?p)] [(f i * ?p, f i * ?p)]"
  proof (cases "f i = 1 \<or> ?p = 1")
    case True
    then show ?thesis
      using same_view_append[OF view_drop_one same_view_refl, of "[(?p, ?p)]"]
        same_view_append[OF same_view_refl view_drop_one, of "[(f i, f i)]"] by auto
  next
    case False
    then show ?thesis by (simp add: view_merge_same)
  qed
  then show ?case using same_view_trans[OF a] by simp
qed

lemma prod_ones: "(\<And>i. i \<in> set is \<Longrightarrow> f i = 1) \<Longrightarrow> prod_list (map f is) = (1 :: nat)"
  by (induction "is") simp_all

text \<open>When the batches of \<open>s\<close> are behind those of \<open>t\<close>, broadcasting is a product of the two.\<close>

lemma behind_views:
  assumes valid: "valid_broadcast [s, t] os" and len: "length s \<le> length os" "length t \<le> length os" and b: "behind s t"
  shows "same_view [(1, prod_list (map unat t)), (prod_list (map unat s), prod_list (map unat s))] (input_view s os)"
    "same_view [(prod_list (map unat t), prod_list (map unat t)), (1, prod_list (map unat s))] (input_view t os)"
proof -
  let ?s = "\<lambda>i. unat (size_or s i)" and ?t = "\<lambda>i. unat (size_or t i)" and ?n = "length os"
  obtain k where k: "k \<le> length s" "\<forall>i < k. size_or s i = 1" "\<forall>i \<ge> k. size_or t i = 1"
    using b by (auto simp: behind_def ones_take ones_drop)
  have kn: "k \<le> ?n" using k(1) len by simp
  then have u: "[0..<?n] = [0..<k] @ [k..<?n]" using upt_add_eq_append[of 0 k "?n - k"] by simp
  have ps: "prod_list (map ?s [k..<?n]) = prod_list (map unat s)"
    using prod_size_or[OF len(1)] k(2) prod_ones[of "[0..<k]" ?s] by (simp add: u)
  have pt: "prod_list (map ?t [0..<k]) = prod_list (map unat t)"
    using prod_size_or[OF len(2)] k(3) prod_ones[of "[k..<?n]" ?t] by (simp add: u)
  have sz: "(size_or s i = 1 \<or> size_or s i = os ! i) \<and> (size_or t i = 1 \<or> size_or t i = os ! i) \<and>
      (os ! i \<noteq> 1 \<longrightarrow> os ! i = size_or s i \<or> os ! i = size_or t i)" if "i < ?n" for i
    using valid that by (simp add: valid_sizes)
  have low: "os ! i = size_or t i" if "i < k" for i
    using sz[of i] that k(2) kn by auto
  have high: "os ! i = size_or s i" if "k \<le> i" "i < ?n" for i
    using sz[of i] that k(3) by auto
  have ml: "map (\<lambda>i. (?s i, unat (os ! i))) [0..<k] = map (\<lambda>i. (1, ?t i)) [0..<k]"
    "map (\<lambda>i. (?t i, unat (os ! i))) [0..<k] = map (\<lambda>i. (?t i, ?t i)) [0..<k]"
    using low k(2) by simp_all
  have mh: "map (\<lambda>i. (?s i, unat (os ! i))) [k..<?n] = map (\<lambda>i. (?s i, ?s i)) [k..<?n]"
    "map (\<lambda>i. (?t i, unat (os ! i))) [k..<?n] = map (\<lambda>i. (1, ?s i)) [k..<?n]"
    using high k(3) by simp_all
  have v: "input_view s os = map (\<lambda>i. (1, ?t i)) [0..<k] @ map (\<lambda>i. (?s i, ?s i)) [k..<?n]"
    "input_view t os = map (\<lambda>i. (?t i, ?t i)) [0..<k] @ map (\<lambda>i. (1, ?s i)) [k..<?n]"
    unfolding input_view_eq u map_append ml mh by (rule refl)+
  have a: "same_view (input_view s os) ([(1, prod_list (map ?t [0..<k]))] @ [(prod_list (map ?s [k..<?n]), prod_list (map ?s [k..<?n]))])"
    unfolding v by (rule same_view_append[OF views_of_ones views_of_same])
  have c: "same_view (input_view t os) ([(prod_list (map ?t [0..<k]), prod_list (map ?t [0..<k]))] @ [(1, prod_list (map ?s [k..<?n]))])"
    unfolding v by (rule same_view_append[OF views_of_same views_of_ones])
  show "same_view [(1, prod_list (map unat t)), (prod_list (map unat s), prod_list (map unat s))] (input_view s os)"
    "same_view [(prod_list (map unat t), prod_list (map unat t)), (1, prod_list (map unat s))] (input_view t os)"
    using a c unfolding ps pt by (simp_all add: same_view_def)
qed

text \<open>The numbers of batches.\<close>

lemma batch_product_eq:
  "i + n \<le> length shape \<Longrightarrow> batch_product shape i n acc = Some (acc * prod_list (take n (drop i shape)))"
proof (induction n arbitrary: i acc)
  case (Suc n)
  have "drop i shape = shape ! i # drop (Suc i) shape" using Suc.prems by (simp add: Cons_nth_drop_Suc)
  then show ?case using Suc by (simp add: mult.assoc)
qed simp

lemma unat_prod_list:
  fixes ws :: "vsi_size_t list"
  shows "prod_list (map unat ws) < 2 ^ 32 \<Longrightarrow> unat (prod_list ws) = prod_list (map unat ws)"
proof (induction ws)
  case (Cons w ws)
  show ?case
  proof (cases "w = 0")
    case False
    then have "1 \<le> unat w" by (simp add: Suc_le_eq unat_gt_0)
    then have "1 * prod_list (map unat ws) \<le> unat w * prod_list (map unat ws)" by (rule mult_le_mono1)
    then have "prod_list (map unat ws) < 2 ^ 32" using Cons.prems by (simp only: list.map prod_list.Cons)
    then show ?thesis using Cons by (simp add: unat_mult_no_overflow)
  qed simp
qed simp

lemma prod_list_dvd: "(\<And>i. i \<in> set is \<Longrightarrow> f i dvd g i) \<Longrightarrow> prod_list (map f is) dvd prod_list (map g is :: nat list)"
  by (induction "is") (simp_all add: mult_dvd_mono)

lemma batches_fit:
  assumes "valid_broadcast [s, t] os" "length s \<le> length os" "length t \<le> length os"
  shows "unat (prod_list s) = prod_list (map unat s)" "unat (prod_list t) = prod_list (map unat t)"
    "unat (prod_list os) = prod_list (map unat os)"
proof -
  have p: "prod_list (map unat os) < 2 ^ 32" using assms(1) by (simp add: valid_sizes)
  have e: "map (\<lambda>i. unat (os ! i)) [0..<length os] = map unat os" by (rule nth_equalityI) simp_all
  have sz: "0 < os ! i \<and> (size_or s i = 1 \<or> size_or s i = os ! i) \<and> (size_or t i = 1 \<or> size_or t i = os ! i)"
    if "i < length os" for i using assms(1) that by (simp add: valid_sizes)
  then have "os ! i \<noteq> 0" if "i < length os" for i using that by fastforce
  then have "0 \<notin> set (map unat os)" by (auto simp: in_set_conv_nth unat_eq_0)
  then have pos: "0 < prod_list (map unat os)" by (metis gr0I prod_list_zero_iff)
  have "unat (size_or s i) dvd unat (os ! i)" "unat (size_or t i) dvd unat (os ! i)" if "i < length os" for i
    using sz[OF that] by auto
  then have "prod_list (map (\<lambda>i. unat (size_or s i)) [0..<length os]) dvd prod_list (map (\<lambda>i. unat (os ! i)) [0..<length os])"
    "prod_list (map (\<lambda>i. unat (size_or t i)) [0..<length os]) dvd prod_list (map (\<lambda>i. unat (os ! i)) [0..<length os])"
    by (auto intro!: prod_list_dvd)
  then have "prod_list (map unat s) < 2 ^ 32" "prod_list (map unat t) < 2 ^ 32"
    using prod_size_or[OF assms(2)] prod_size_or[OF assms(3)] p pos
    by (auto simp: e intro: le_less_trans[OF dvd_imp_le])
  then show "unat (prod_list s) = prod_list (map unat s)" "unat (prod_list t) = prod_list (map unat t)"
    "unat (prod_list os) = prod_list (map unat os)" using p by (simp_all add: unat_prod_list)
qed

subsection \<open>The three paths\<close>

lemma take_2_append: "2 \<le> length xs \<Longrightarrow> take 2 (take 2 xs @ e) = take 2 xs"
  by simp

lemma matmul_plain_ok:
  assumes dims: "2 \<le> dx" "dx \<le> 5" "dx \<le> length xs" "2 \<le> dy" "dy \<le> 5" "dy \<le> length ys"
      "2 \<le> dt" "dt \<le> 5" "dt \<le> length os" "dx \<le> dt" "dy \<le> dt"
    and m: "arrays8 m" and valid: "valid_broadcast [batch dx xs, batch dy ys] (batch dt os)"
  shows "if ones (batch dx xs) \<or> ones (batch dy ys) then matmul_plain xs ys os dx dy dt m = None
    else \<exists>r d. matmul_plain xs ys os dx dy dt m = Some (True, r) \<and> mo_cross r = mo_cross m \<and>
      take 2 (mo_x r) = take 2 xs \<and> take 2 (mo_y r) = take 2 ys \<and> take 2 (mo_o r) = take 2 os \<and>
      batches_ok (batch dx xs) (batch dy ys) (batch dt os) r d \<and> d \<le> 6 \<and>
      rank_ok (mo_x r) d (mo_rank r ! 0) \<and> rank_ok (mo_y r) d (mo_rank r ! 1) \<and> rank_ok (mo_o r) d (mo_rank r ! 2)"
proof -
  let ?m = "m\<lparr>mo_x := take 2 xs @ drop 2 (mo_x m), mo_y := take 2 ys @ drop 2 (mo_y m),
    mo_o := take 2 os @ drop 2 (mo_o m)\<rparr>"
  have l: "2 \<le> length xs" "2 \<le> length ys" "2 \<le> length os" using dims by linarith+
  have m8: "arrays8 ?m" using m l by (simp add: arrays8_def)
  have parts: "copy_dims a 2 (d - 2) b 0 = Some (batch d a @ drop (d - 2) b)"
    "take (d - 2) (batch d a @ drop (d - 2) b) = batch d a"
    if "2 \<le> d" "d \<le> 5" "d \<le> length a" "length b = 8" for a d b
    using copy_dims_ok[of 2 "d - 2" a 0 b] that by (simp_all add: batch_def)
  have p8: "length (bp_x no_parts) = 8" "length (bp_y no_parts) = 8" "length (bp_o no_parts) = 8"
    by (simp_all add: no_parts_def first_one_def)
  let ?p = "\<lparr>bp_x = batch dx xs @ drop (dx - 2) (bp_x no_parts), bp_y = batch dy ys @ drop (dy - 2) (bp_y no_parts),
    bp_o = batch dt os @ drop (dt - 2) (bp_o no_parts), bp_rank_x = dx - 2, bp_rank_y = dy - 2, bp_rank_o = dt - 2\<rparr>"
  have b3: "length (batch dt os) \<le> 3" "length (batch dx xs) \<le> length (batch dt os)" "length (batch dy ys) \<le> length (batch dt os)"
    using dims by (simp_all add: batch_def)
  have bp: "take (bp_rank_x ?p) (bp_x ?p) = batch dx xs" "take (bp_rank_y ?p) (bp_y ?p) = batch dy ys"
    "take (bp_rank_o ?p) (bp_o ?p) = batch dt os" "bp_rank_o ?p \<le> 8"
    using parts(2)[OF dims(1-3) p8(1)] parts(2)[OF dims(4-6) p8(2)] parts(2)[OF dims(7-9) p8(3)] dims(8) by simp_all
  have not1: "dx \<noteq> 1" "dy \<noteq> 1" using dims by simp_all
  have run: "matmul_plain xs ys os dx dy dt m = matmul_broadcast ?m ?p"
    using not1 dims copy_matrices_ok[OF l m]
      parts(1)[OF dims(1-3) p8(1)] parts(1)[OF dims(4-6) p8(2)] parts(1)[OF dims(7-9) p8(3)]
    by (simp add: matmul_plain_def matmul_matrices_def minus_2_def)
  have "mo_cross ?m = mo_cross m" "take 2 (mo_x ?m) = take 2 xs" "take 2 (mo_y ?m) = take 2 ys" "take 2 (mo_o ?m) = take 2 os"
    using l by (simp_all add: take_2_append)
  then show ?thesis using matmul_broadcast_ok[OF valid b3(1) m8 b3(2,3) bp] unfolding run by (simp only:)
qed

text \<open>The batches of the other two paths are one dimension of each shape.\<close>

definition flat_batches :: "vsi_size_t list \<Rightarrow> vsi_size_t list \<Rightarrow> vsi_size_t list \<Rightarrow> matmul_out \<Rightarrow> bool" where
  "flat_batches bx by' bo r \<longleftrightarrow> unat (mo_x r ! 2) = prod_list (map unat bx) \<and>
     unat (mo_y r ! 2) = prod_list (map unat by') \<and> unat (mo_o r ! 2) = prod_list (map unat bo)"

lemma matmul_cross_ok:
  assumes l: "2 \<le> length xs" "2 \<le> length ys" "2 \<le> length os" and m: "arrays8 m"
    and d: "dx \<le> length xs" "dy \<le> length ys" "cs_outer_axis st \<le> dx" "cs_outer_axis st \<le> dy"
  shows "\<exists>r. matmul_cross xs ys os dx dy st (o0, o1, o2) axis axis_size m = Some r \<and> mo_cross r = 1 \<and>
    take 2 (mo_x r) = take 2 xs \<and> take 2 (mo_y r) = take 2 ys \<and> take 2 (mo_o r) = take 2 os \<and>
    mo_x r ! 2 = o0 \<and> mo_y r ! 2 = o1 \<and> mo_o r ! 2 = o2 \<and> mo_rank r = [4, 3, 3] \<and> mo_x r ! 3 = 1"
proof -
  have px: "\<exists>p. batch_product xs (cs_outer_axis st) (dx - cs_outer_axis st) 1 = Some p" using d by (intro batch_product_ok) simp
  have py: "\<exists>p. batch_product ys (cs_outer_axis st) (dy - cs_outer_axis st) 1 = Some p" using d by (intro batch_product_ok) simp
  have len: "length (mo_x m) = 8" "length (mo_y m) = 8" "length (mo_o m) = 8" using m by (simp_all add: arrays8_def)
  show ?thesis
    using px py l len by (auto simp: matmul_cross_def copy_matrices_ok[OF l m])
qed

lemma three_entries: "length rs = 3 \<Longrightarrow> rs[2 := a, 0 := b, Suc 0 := c] = [b, c, a]"
  by (auto simp: length_Suc_conv numeral_3_eq_3)

lemma matmul_merge_ok:
  assumes l: "2 \<le> length xs" "2 \<le> length ys" "2 \<le> length os" and m: "arrays8 m" and ne: "ne = 1 \<or> ne = 2"
  shows "\<exists>r. matmul_merge xs ys os ne (o0, o1, o2) m = Some r \<and> mo_cross r = 2 \<and>
    take 2 (mo_x r) = take 2 xs \<and> take 2 (mo_y r) = take 2 ys \<and> take 2 (mo_o r) = take 2 os \<and>
    mo_x r ! 2 = o0 \<and> mo_y r ! 2 = o1 \<and> mo_o r ! 2 = o2 \<and>
    (if ne = 1 then mo_rank r = [4, 3, 3] \<and> mo_x r ! 3 = 1 else mo_rank r = [3, 4, 3] \<and> mo_y r ! 3 = 1)"
proof -
  have len: "length (mo_x m) = 8" "length (mo_y m) = 8" "length (mo_o m) = 8" "length (mo_rank m) = 3"
    using m by (simp_all add: arrays8_def)
  show ?thesis using ne l len by (auto simp: matmul_merge_def copy_matrices_ok[OF l m] Let_def three_entries)
qed

text \<open>The scan remembers which input is 1 at the first difference.\<close>

lemma cross_scan_ne:
  "cross_scan xs ys i n st = Some st' \<Longrightarrow> cs_first st \<noteq> 0 \<Longrightarrow> cs_ne st' = cs_ne st"
proof (induction n arbitrary: i st)
  case (Suc n)
  from Suc.prems obtain x y where r: "rd xs i = Some x" "rd ys i = Some y" by (auto simp: bind_eq_Some_iff)
  show ?case using Suc.prems Suc.IH by (simp add: r split: if_splits) fastforce+
qed simp

lemma cross_scan_first:
  "cross_scan xs ys i n st = Some st' \<Longrightarrow> cs_first st = 0 \<Longrightarrow> cs_ne st = 0 \<Longrightarrow>
   cs_ne st' = 0 \<or> (\<exists>j. i \<le> j \<and> j < i + n \<and> j < length xs \<and> j < length ys \<and> xs ! j \<noteq> ys ! j \<and>
     (\<forall>l. i \<le> l \<and> l < j \<longrightarrow> xs ! l = ys ! l) \<and> cs_ne st' = (if xs ! j = 1 then 1 else 2))"
proof (induction n arbitrary: i st)
  case (Suc n)
  from Suc.prems obtain x y where r: "rd xs i = Some x" "rd ys i = Some y" by (auto simp: bind_eq_Some_iff)
  then have xy: "x = xs ! i" "y = ys ! i" "i < length xs" "i < length ys" by (simp_all add: rd_eq_Some_iff)
  show ?case
  proof (cases "x = y")
    case False
    have "cs_ne st' = (if x = 1 then 1 else 2)"
      using Suc.prems(1,2) False by (cases "x = 1") (auto simp: r dest!: cross_scan_ne)
    then show ?thesis using xy False by (intro disjI2 exI[of _ i]) auto
  next
    case True
    have "cross_scan xs ys (Suc i) n st = Some st'" using Suc.prems True by (simp add: r)
    from Suc.IH[OF this Suc.prems(2,3)] show ?thesis
    proof (elim disjE exE conjE)
      fix j assume j: "Suc i \<le> j" "j < Suc i + n" "j < length xs" "j < length ys" "xs ! j \<noteq> ys ! j"
        "\<forall>l. Suc i \<le> l \<and> l < j \<longrightarrow> xs ! l = ys ! l" "cs_ne st' = (if xs ! j = 1 then 1 else 2)"
      have "xs ! l = ys ! l" if "i \<le> l" "l < j" for l using that j(6) True xy by (cases "l = i") auto
      then show ?thesis using j by (intro disjI2 exI[of _ j]) auto
    qed simp
  qed
qed simp

text \<open>So the input that is 1 there is the one whose batches are behind the others.\<close>

lemma behind_first:
  assumes b: "behind s t" and ne: "\<not> ones t" and j: "j < length s" "j < length t" "s ! j \<noteq> t ! j"
    and before: "\<forall>l < j. s ! l = t ! l"
  shows "s ! j = 1"
proof -
  obtain k where k: "k \<le> length s" "\<forall>i < k. size_or s i = 1" "\<forall>i \<ge> k. size_or t i = 1"
    using b by (auto simp: behind_def ones_take ones_drop)
  obtain l where l: "l < length t" "t ! l \<noteq> 1" using ne by (auto simp: ones_def in_set_conv_nth)
  have lk: "l < k" using k(3) l by (metis not_less size_or_def)
  then have "s ! l = 1" using k(1,2) by (auto simp: size_or_def)
  then have "\<not> l < j" using before l(2) by auto
  then show ?thesis using k(1,2) lk by (auto simp: size_or_def)
qed

lemma scan_behind:
  assumes scan: "cross_scan xs ys 2 (min dx dy - 2) cross_start = Some st"
    and d: "2 \<le> dx" "dx \<le> length xs" "2 \<le> dy" "dy \<le> length ys" and ne: "0 < cs_ne st"
    and ones: "\<not> ones (batch dx xs)" "\<not> ones (batch dy ys)"
  shows "cs_ne st = 1 \<or> cs_ne st = 2"
    "behind (batch dx xs) (batch dy ys) \<Longrightarrow> cs_ne st = 1" "behind (batch dy ys) (batch dx xs) \<Longrightarrow> cs_ne st = 2"
proof -
  have "cs_first cross_start = 0" "cs_ne cross_start = 0" by (simp_all add: cross_start_def)
  from cross_scan_first[OF scan this] ne obtain j where j: "2 \<le> j" "j < 2 + (min dx dy - 2)" "xs ! j \<noteq> ys ! j"
    "\<forall>l. 2 \<le> l \<and> l < j \<longrightarrow> xs ! l = ys ! l" "cs_ne st = (if xs ! j = 1 then 1 else 2)" by auto
  have jd: "j < dx" "j < dy" using j(1,2) d by auto
  have at: "batch dx xs ! l = xs ! (l + 2)" if "l < dx - 2" for l using that d by (simp add: batch_def add.commute)
  have at': "batch dy ys ! l = ys ! (l + 2)" if "l < dy - 2" for l using that d by (simp add: batch_def add.commute)
  have len: "length (batch dx xs) = dx - 2" "length (batch dy ys) = dy - 2" using d by (simp_all add: batch_def)
  have j2: "j - 2 < dx - 2" "j - 2 < dy - 2" "j - 2 + 2 = j" using jd j(1) by linarith+
  have e: "batch dx xs ! (j - 2) = xs ! j" "batch dy ys ! (j - 2) = ys ! j" using at[OF j2(1)] at'[OF j2(2)] j2(3) by simp_all
  have before: "\<forall>l < j - 2. batch dx xs ! l = batch dy ys ! l" using j(4) j2 by (auto simp: at at')
  show "cs_ne st = 1 \<or> cs_ne st = 2" using j(5) by simp
  show "cs_ne st = 1" if "behind (batch dx xs) (batch dy ys)"
    using behind_first[OF that ones(2), of "j - 2"] j2 e before j(3,5) len by simp
  show "cs_ne st = 2" if "behind (batch dy ys) (batch dx xs)"
  proof -
    have "ys ! j = 1" using behind_first[OF that ones(1), of "j - 2"] j2 e before j(3) len by auto
    then show ?thesis using j(3,5) by auto
  qed
qed

subsection \<open>Crossing broadcasts\<close>

text \<open>
  The meaning of the three loops of the kernel: over the axis (\<open>p\<close>), the inner (\<open>q\<close>) and the outer
  batches (\<open>s\<close>). They are right when they visit every batch of the output once and read the
  batches of the inputs that broadcasting reads.
\<close>

definition stride_at :: "matmul_out \<Rightarrow> nat \<Rightarrow> nat \<times> nat \<times> nat \<Rightarrow> nat" where
  "stride_at r k = (\<lambda>(p, q, s). p * unat (mo_stride r ! k) + q * unat (mo_stride r ! (k + 1)) +
     s * unat (mo_stride r ! (k + 2)))"

definition cross_box :: "matmul_out \<Rightarrow> (nat \<times> nat \<times> nat) set" where
  "cross_box r = {..<unat (mo_size r ! 0)} \<times> {..<unat (mo_size r ! 1)} \<times> {..<unat (mo_size r ! 2)}"

definition cross_reads :: "vsi_size_t list \<Rightarrow> vsi_size_t list \<Rightarrow> vsi_size_t list \<Rightarrow> matmul_out \<Rightarrow> bool" where
  "cross_reads bx by' bo r \<longleftrightarrow>
     bij_betw (stride_at r 6) (cross_box r) {..<num_out (input_view bx bo)} \<and>
     (\<forall>c \<in> cross_box r. bidx (input_view bx bo) (stride_at r 6 c) = stride_at r 0 c \<and>
        bidx (input_view by' bo) (stride_at r 6 c) = stride_at r 3 c)"

lemma digits3:
  fixes p q s :: nat
  assumes "p < d0" "q < d1" "s < d2"
  shows "p + q * d0 + s * (d0 * d1) < d0 * d1 * d2"
    "bidx [(x0, d0), (x1, d1), (x2, d2)] (p + q * d0 + s * (d0 * d1)) =
      (if x0 = 1 then 0 else p) + x0 * ((if x1 = 1 then 0 else q) + x1 * (if x2 = 1 then 0 else s))"
    "(p + q * d0 + s * (d0 * d1)) mod d0 = p" "(p + q * d0 + s * (d0 * d1)) div d0 mod d1 = q"
    "(p + q * d0 + s * (d0 * d1)) div d0 div d1 = s"
proof -
  have z: "p + q * d0 + s * (d0 * d1) = p + d0 * (q + d1 * s)" by (simp add: algebra_simps)
  show m: "(p + q * d0 + s * (d0 * d1)) mod d0 = p" "(p + q * d0 + s * (d0 * d1)) div d0 mod d1 = q"
    "(p + q * d0 + s * (d0 * d1)) div d0 div d1 = s" unfolding z using assms by simp_all
  then show "bidx [(x0, d0), (x1, d1), (x2, d2)] (p + q * d0 + s * (d0 * d1)) =
      (if x0 = 1 then 0 else p) + x0 * ((if x1 = 1 then 0 else q) + x1 * (if x2 = 1 then 0 else s))"
    using assms by simp
  have "Suc q * d0 \<le> d1 * d0" using assms(2) by (intro mult_le_mono1 Suc_leI)
  moreover have "Suc s * (d0 * d1) \<le> d2 * (d0 * d1)" using assms(3) by (intro mult_le_mono1 Suc_leI)
  ultimately show "p + q * d0 + s * (d0 * d1) < d0 * d1 * d2"
    using assms(1) unfolding mult_Suc mult.commute[of d1 d0] mult.commute[of d2] by linarith
qed

lemma digits3_bij:
  fixes d0 d1 d2 :: nat
  shows "bij_betw (\<lambda>(p, q, s). p + q * d0 + s * (d0 * d1)) ({..<d0} \<times> {..<d1} \<times> {..<d2}) {..<d0 * d1 * d2}"
proof -
  have 1: "z mod d0 + z div d0 mod d1 * d0 + z div d0 div d1 * (d0 * d1) = z" for z
  proof -
    have "z div d0 mod d1 * d0 + z div d0 div d1 * (d0 * d1) = (z div d0 div d1 * d1 + z div d0 mod d1) * d0"
      by (simp only: distrib_right mult.assoc mult.commute[of d0 d1] add.commute)
    also have "\<dots> = z div d0 * d0" by (simp only: div_mult_mod_eq)
    finally show ?thesis using div_mult_mod_eq[of z d0] by linarith
  qed
  have 2: "z mod d0 < d0 \<and> z div d0 mod d1 < d1 \<and> z div d0 div d1 < d2" if z: "z < d0 * d1 * d2" for z
  proof -
    have "0 < d0" "0 < d1" using z by (auto intro!: gr0I)
    moreover have "z div d0 div d1 < d2"
      using z by (simp add: div_mult2_eq[symmetric] less_mult_imp_div_less mult.commute)
    ultimately show ?thesis by simp
  qed
  show ?thesis
    by (rule bij_betw_byWitness[where f' = "\<lambda>z. (z mod d0, z div d0 mod d1, z div d0 div d1)"])
      (auto simp: digits3(1,3-5) 1 2)
qed

lemma three: "(3 :: nat) = Suc (Suc (Suc 0))" "(2 :: nat) = Suc (Suc 0)"
  by simp_all

lemmas cross_eval_simps = optimize_matmul_shape_def Let_def cross_start_def matmul_cross_def cross_strides_def rd_def
  three

text \<open>What the optimizer returns when the axis is the first batch dimension, or the second one.\<close>

lemma cross_axis_first:
  assumes "a \<noteq> 1" "b \<noteq> 1" "c \<noteq> 1" "1 < a * c" "1 < a * b" "arrays8 m"
  shows "\<exists>r. optimize_matmul_shape [x0, x1, a, 1, c] [y0, y1, a, b, 1] [z0, z1, a, b, c] 5 5 5 m = Some (True, r) \<and>
      mo_cross r = 1 \<and> mo_size r = [a, b, c] \<and> mo_stride r = [1, 0, a, 1, a, 0, 1, a, a * b]"
    "\<exists>r. optimize_matmul_shape [x0, x1, a, b, 1] [y0, y1, a, 1, c] [z0, z1, a, b, c] 5 5 5 m = Some (True, r) \<and>
      mo_cross r = 1 \<and> mo_size r = [a, b, c] \<and> mo_stride r = [1, a, 0, 1, 0, a, 1, a, a * b]"
proof -
  have len: "length (mo_x m) = 8" "length (mo_y m) = 8" "length (mo_o m) = 8" "length (mo_rank m) = 3" using assms(6) by (simp_all add: arrays8_def)
  show "\<exists>r. optimize_matmul_shape [x0, x1, a, 1, c] [y0, y1, a, b, 1] [z0, z1, a, b, c] 5 5 5 m = Some (True, r) \<and>
      mo_cross r = 1 \<and> mo_size r = [a, b, c] \<and> mo_stride r = [1, 0, a, 1, a, 0, 1, a, a * b]"
    using assms(1-5) len by (auto simp: cross_eval_simps arrays8_def copy_matrices_ok)
  show "\<exists>r. optimize_matmul_shape [x0, x1, a, b, 1] [y0, y1, a, 1, c] [z0, z1, a, b, c] 5 5 5 m = Some (True, r) \<and>
      mo_cross r = 1 \<and> mo_size r = [a, b, c] \<and> mo_stride r = [1, a, 0, 1, 0, a, 1, a, a * b]"
    using assms(1-5) len by (auto simp: cross_eval_simps arrays8_def copy_matrices_ok)
qed

lemma cross_axis_second:
  assumes "a \<noteq> 1" "b \<noteq> 1" "c \<noteq> 1" "1 < b * c" "1 < a * b" "arrays8 m"
  shows "\<exists>r. optimize_matmul_shape [x0, x1, 1, b, c] [y0, y1, a, b, 1] [z0, z1, a, b, c] 5 5 5 m = Some (True, r) \<and>
      mo_cross r = 1 \<and> mo_size r = [b, a, c] \<and> mo_stride r = [1, 0, b, a, 1, 0, a, 1, b * a]"
    "\<exists>r. optimize_matmul_shape [x0, x1, a, b, 1] [y0, y1, 1, b, c] [z0, z1, a, b, c] 5 5 5 m = Some (True, r) \<and>
      mo_cross r = 1 \<and> mo_size r = [b, a, c] \<and> mo_stride r = [a, 1, 0, 1, 0, b, a, 1, b * a]"
proof -
  have len: "length (mo_x m) = 8" "length (mo_y m) = 8" "length (mo_o m) = 8" "length (mo_rank m) = 3" using assms(6) by (simp_all add: arrays8_def)
  show "\<exists>r. optimize_matmul_shape [x0, x1, 1, b, c] [y0, y1, a, b, 1] [z0, z1, a, b, c] 5 5 5 m = Some (True, r) \<and>
      mo_cross r = 1 \<and> mo_size r = [b, a, c] \<and> mo_stride r = [1, 0, b, a, 1, 0, a, 1, b * a]"
    using assms(1-5) len by (auto simp: cross_eval_simps arrays8_def copy_matrices_ok)
  show "\<exists>r. optimize_matmul_shape [x0, x1, a, b, 1] [y0, y1, 1, b, c] [z0, z1, a, b, c] 5 5 5 m = Some (True, r) \<and>
      mo_cross r = 1 \<and> mo_size r = [b, a, c] \<and> mo_stride r = [a, 1, 0, 1, 0, b, a, 1, b * a]"
    using assms(1-5) len by (auto simp: cross_eval_simps arrays8_def copy_matrices_ok)
qed

lemma cross_axis_between:
  assumes "a \<noteq> 1" "b \<noteq> 1" "c \<noteq> 1" "1 < b" "1 < a * b * c" "arrays8 m"
  shows "\<exists>r. optimize_matmul_shape [x0, x1, 1, b, 1] [y0, y1, a, b, c] [z0, z1, a, b, c] 5 5 5 m = Some (True, r) \<and>
      mo_cross r = 1 \<and> mo_size r = [b, a, c] \<and> mo_stride r = [1, 0, 0, a, 1, a * b, a, 1, b * a]"
    "\<exists>r. optimize_matmul_shape [x0, x1, a, b, c] [y0, y1, 1, b, 1] [z0, z1, a, b, c] 5 5 5 m = Some (True, r) \<and>
      mo_cross r = 1 \<and> mo_size r = [b, a, c] \<and> mo_stride r = [a, 1, a * b, 1, 0, 0, a, 1, b * a]"
proof -
  have len: "length (mo_x m) = 8" "length (mo_y m) = 8" "length (mo_o m) = 8" "length (mo_rank m) = 3" using assms(6) by (simp_all add: arrays8_def)
  show "\<exists>r. optimize_matmul_shape [x0, x1, 1, b, 1] [y0, y1, a, b, c] [z0, z1, a, b, c] 5 5 5 m = Some (True, r) \<and>
      mo_cross r = 1 \<and> mo_size r = [b, a, c] \<and> mo_stride r = [1, 0, 0, a, 1, a * b, a, 1, b * a]"
    using assms(1-5) len by (auto simp: cross_eval_simps arrays8_def copy_matrices_ok)
  show "\<exists>r. optimize_matmul_shape [x0, x1, a, b, c] [y0, y1, 1, b, 1] [z0, z1, a, b, c] 5 5 5 m = Some (True, r) \<and>
      mo_cross r = 1 \<and> mo_size r = [b, a, c] \<and> mo_stride r = [a, 1, a * b, 1, 0, 0, a, 1, b * a]"
    using assms(1-5) len by (auto simp: cross_eval_simps arrays8_def copy_matrices_ok)
qed

text \<open>Numbers of batches that fit 32 bits.\<close>

lemma batch_words:
  assumes gt: "1 < a" "1 < b" "1 < c" and small: "unat a * unat b * unat c < 2 ^ 32"
  shows "a \<noteq> 1" "b \<noteq> 1" "c \<noteq> (1 :: vsi_size_t)" "unat (a * b) = unat a * unat b" "unat (b * c) = unat b * unat c"
    "unat (a * c) = unat a * unat c" "1 < a * b" "1 < b * c" "1 < a * c" "1 < a * b * c"
proof -
  show "a \<noteq> 1" "b \<noteq> 1" "c \<noteq> 1" using gt by auto
  have g: "1 < unat a" "1 < unat b" "1 < unat c" using gt by (simp_all add: word_less_nat_alt)
  have m: "unat a * unat b \<le> unat a * unat b * unat c" "unat b * unat c \<le> unat a * (unat b * unat c)"
    "unat a * unat c \<le> unat b * (unat a * unat c)" using g by simp_all
  then have lt: "unat a * unat b < 2 ^ 32" "unat b * unat c < 2 ^ 32" "unat a * unat c < 2 ^ 32"
    using small by (simp_all only: mult.assoc mult.commute mult.left_commute)
  show u: "unat (a * b) = unat a * unat b" "unat (b * c) = unat b * unat c" "unat (a * c) = unat a * unat c"
    using lt by (simp_all add: unat_mult_no_overflow)
  have "unat (a * b * c) = unat (a * b) * unat c" using small u(1) by (intro unat_mult_no_overflow) simp
  then have u3: "unat (a * b * c) = unat a * unat b * unat c" using u(1) by simp
  have p: "1 < unat a * unat b" "1 < unat b * unat c" "1 < unat a * unat c"
    using g by (simp_all only: less_1_mult)
  then have "1 < unat a * unat b * unat c" using g(3) by (simp only: less_1_mult)
  then show "1 < a * b" "1 < b * c" "1 < a * c" "1 < a * b * c"
    using p by (simp_all add: word_less_nat_alt u u3)
qed

lemma input_view_3: "input_view [x0, x1, x2] [a, b, c] = [(unat x0, unat a), (unat x1, unat b), (unat x2, unat c)]"
  by (simp add: input_view_def upt_rec)

text \<open>The position that input sizes \<open>x0, x1, x2\<close> read at the digits \<open>p, q, s\<close>.\<close>

definition reads3 :: "vsi_size_t \<Rightarrow> vsi_size_t \<Rightarrow> vsi_size_t \<Rightarrow> nat \<Rightarrow> nat \<Rightarrow> nat \<Rightarrow> nat" where
  "reads3 x0 x1 x2 p q s = (if x0 = 1 then 0 else p) + unat x0 * ((if x1 = 1 then 0 else q) +
     unat x1 * (if x2 = 1 then 0 else s))"

lemma bidx_reads3:
  assumes "p < unat a" "q < unat b" "s < unat c"
  shows "bidx (input_view [x0, x1, x2] [a, b, c]) (p + q * unat a + s * (unat a * unat b)) = reads3 x0 x1 x2 p q s"
proof -
  have one: "unat x = 1 \<longleftrightarrow> x = 1" for x :: vsi_size_t using unat_eq_iff[of x 1] by simp
  show ?thesis unfolding input_view_3 digits3(2)[OF assms] reads3_def one ..
qed

lemma cross_reads_first:
  assumes r: "mo_size r = [a, b, c]" "mo_stride r = [s0, s1, s2, t0, t1, t2, 1, a, a * b]"
    and u: "unat (a * b) = unat a * unat b"
    and x: "\<And>p q s. reads3 x0 x1 x2 p q s = p * unat s0 + q * unat s1 + s * unat s2"
    and y: "\<And>p q s. reads3 y0 y1 y2 p q s = p * unat t0 + q * unat t1 + s * unat t2"
  shows "cross_reads [x0, x1, x2] [y0, y1, y2] [a, b, c] r"
proof -
  have st6: "stride_at r 6 = (\<lambda>(p, q, s). p + q * unat a + s * (unat a * unat b))"
    by (rule ext) (simp add: stride_at_def r u case_prod_unfold)
  have box: "cross_box r = {..<unat a} \<times> {..<unat b} \<times> {..<unat c}" by (simp add: cross_box_def r)
  have n: "num_out (input_view [x0, x1, x2] [a, b, c]) = unat a * unat b * unat c"
    by (simp add: input_view_3 num_out_def)
  show ?thesis
    unfolding cross_reads_def st6 box n
    using digits3_bij[of "unat a" "unat b" "unat c"]
    by (auto simp: bidx_reads3 x y stride_at_def r)
qed

lemma cross_reads_second:
  assumes r: "mo_size r = [b, a, c]" "mo_stride r = [s0, s1, s2, t0, t1, t2, a, 1, b * a]"
    and u: "unat (b * a) = unat a * unat b"
    and x: "\<And>p q s. reads3 x0 x1 x2 q p s = p * unat s0 + q * unat s1 + s * unat s2"
    and y: "\<And>p q s. reads3 y0 y1 y2 q p s = p * unat t0 + q * unat t1 + s * unat t2"
  shows "cross_reads [x0, x1, x2] [y0, y1, y2] [a, b, c] r"
proof -
  let ?z = "\<lambda>(p, q, s). p + q * unat a + s * (unat a * unat b)" and ?swap = "\<lambda>(p, q, s). (q, p, s)"
  have st6: "stride_at r 6 = ?z \<circ> ?swap"
    by (rule ext) (simp add: stride_at_def r u case_prod_unfold)
  have box: "cross_box r = {..<unat b} \<times> {..<unat a} \<times> {..<unat c}" by (simp add: cross_box_def r)
  have n: "num_out (input_view [x0, x1, x2] [a, b, c]) = unat a * unat b * unat c"
    by (simp add: input_view_3 num_out_def)
  have "bij_betw ?swap ({..<unat b} \<times> {..<unat a} \<times> {..<unat c}) ({..<unat a} \<times> {..<unat b} \<times> {..<unat c})"
    by (intro bij_betw_byWitness[where f' = ?swap]) auto
  then have "bij_betw (?z \<circ> ?swap) ({..<unat b} \<times> {..<unat a} \<times> {..<unat c}) {..<unat a * unat b * unat c}"
    by (rule bij_betw_trans[OF _ digits3_bij])
  then show ?thesis
    unfolding cross_reads_def st6 box n
    by (auto simp: bidx_reads3 x y stride_at_def r)
qed

text \<open>The pairs of batch shapes with one common dimension that broadcast on its two sides.\<close>

definition crossing ::
  "vsi_size_t \<Rightarrow> vsi_size_t \<Rightarrow> vsi_size_t \<Rightarrow> (vsi_size_t list \<times> vsi_size_t list) list" where
  "crossing a b c =
     [([a, 1, c], [a, b, 1]), ([a, b, 1], [a, 1, c]), ([1, b, c], [a, b, 1]), ([a, b, 1], [1, b, c]),
      ([1, b, 1], [a, b, c]), ([a, b, c], [1, b, 1])]"

lemma cross_result:
  assumes gt: "1 < a" "1 < b" "1 < c" and small: "unat a * unat b * unat c < 2 ^ 32" and m: "arrays8 m"
    and i: "(bx, by') \<in> set (crossing a b c)"
  shows "\<exists>r. optimize_matmul_shape (x0 # x1 # bx) (y0 # y1 # by') [z0, z1, a, b, c] 5 5 5 m = Some (True, r) \<and>
    mo_cross r = 1 \<and> cross_reads bx by' [a, b, c] r"
proof -
  note w = batch_words[OF gt small]
  have ba: "unat (b * a) = unat a * unat b" using w(4) by (simp add: mult.commute)
  note first = cross_axis_first[OF w(1-3,9,7) m] and second = cross_axis_second[OF w(1-3,8,7) m]
    and between = cross_axis_between[OF w(1-3) gt(2) w(10) m]
  note rd3 = reads3_def w(1-6) add_mult_distrib2 ac_simps
  consider (1) "bx = [a, 1, c]" "by' = [a, b, 1]" | (2) "bx = [a, b, 1]" "by' = [a, 1, c]"
    | (3) "bx = [1, b, c]" "by' = [a, b, 1]" | (4) "bx = [a, b, 1]" "by' = [1, b, c]"
    | (5) "bx = [1, b, 1]" "by' = [a, b, c]" | (6) "bx = [a, b, c]" "by' = [1, b, 1]"
    using i by (auto simp: crossing_def)
  then show ?thesis
  proof cases
    case 1
    obtain r where r: "optimize_matmul_shape [x0, x1, a, 1, c] [y0, y1, a, b, 1] [z0, z1, a, b, c] 5 5 5 m = Some (True, r)"
      "mo_cross r = 1" "mo_size r = [a, b, c]" "mo_stride r = [1, 0, a, 1, a, 0, 1, a, a * b]" using first(1) by blast
    have "cross_reads bx by' [a, b, c] r" unfolding 1
      by (rule cross_reads_first[OF r(3,4) w(4)]) (simp_all add: rd3)
    then show ?thesis using r(1,2) 1 by blast
  next
    case 2
    obtain r where r: "optimize_matmul_shape [x0, x1, a, b, 1] [y0, y1, a, 1, c] [z0, z1, a, b, c] 5 5 5 m = Some (True, r)"
      "mo_cross r = 1" "mo_size r = [a, b, c]" "mo_stride r = [1, a, 0, 1, 0, a, 1, a, a * b]" using first(2) by blast
    have "cross_reads bx by' [a, b, c] r" unfolding 2
      by (rule cross_reads_first[OF r(3,4) w(4)]) (simp_all add: rd3)
    then show ?thesis using r(1,2) 2 by blast
  next
    case 3
    obtain r where r: "optimize_matmul_shape [x0, x1, 1, b, c] [y0, y1, a, b, 1] [z0, z1, a, b, c] 5 5 5 m = Some (True, r)"
      "mo_cross r = 1" "mo_size r = [b, a, c]" "mo_stride r = [1, 0, b, a, 1, 0, a, 1, b * a]" using second(1) by blast
    have "cross_reads bx by' [a, b, c] r" unfolding 3
      by (rule cross_reads_second[OF r(3,4) ba]) (simp_all add: rd3)
    then show ?thesis using r(1,2) 3 by blast
  next
    case 4
    obtain r where r: "optimize_matmul_shape [x0, x1, a, b, 1] [y0, y1, 1, b, c] [z0, z1, a, b, c] 5 5 5 m = Some (True, r)"
      "mo_cross r = 1" "mo_size r = [b, a, c]" "mo_stride r = [a, 1, 0, 1, 0, b, a, 1, b * a]" using second(2) by blast
    have "cross_reads bx by' [a, b, c] r" unfolding 4
      by (rule cross_reads_second[OF r(3,4) ba]) (simp_all add: rd3)
    then show ?thesis using r(1,2) 4 by blast
  next
    case 5
    obtain r where r: "optimize_matmul_shape [x0, x1, 1, b, 1] [y0, y1, a, b, c] [z0, z1, a, b, c] 5 5 5 m = Some (True, r)"
      "mo_cross r = 1" "mo_size r = [b, a, c]" "mo_stride r = [1, 0, 0, a, 1, a * b, a, 1, b * a]" using between(1) by blast
    have "cross_reads bx by' [a, b, c] r" unfolding 5
      by (rule cross_reads_second[OF r(3,4) ba]) (simp_all add: rd3)
    then show ?thesis using r(1,2) 5 by blast
  next
    case 6
    obtain r where r: "optimize_matmul_shape [x0, x1, a, b, c] [y0, y1, 1, b, 1] [z0, z1, a, b, c] 5 5 5 m = Some (True, r)"
      "mo_cross r = 1" "mo_size r = [b, a, c]" "mo_stride r = [a, 1, a * b, 1, 0, 0, a, 1, b * a]" using between(2) by blast
    have "cross_reads bx by' [a, b, c] r" unfolding 6
      by (rule cross_reads_second[OF r(3,4) ba]) (simp_all add: rd3)
    then show ?thesis using r(1,2) 6 by blast
  qed
qed

subsection \<open>The whole optimizer\<close>

text \<open>Only the dimensions of the shapes are read, not the rest of their arrays.\<close>

lemma rd_take: "i < d \<Longrightarrow> rd (take d xs) i = rd xs i"
  by (simp add: rd_def)

lemma batch_product_take: "i + n \<le> d \<Longrightarrow> batch_product (take d xs) i n acc = batch_product xs i n acc"
  by (induction n arbitrary: i acc) (simp_all add: rd_take)

lemma copy_dims_take: "i + n \<le> d \<Longrightarrow> copy_dims (take d xs) i n dst j = copy_dims xs i n dst j"
  by (induction n arbitrary: i j dst) (simp_all add: rd_take)

lemma cross_scan_take:
  "i + n \<le> dx \<Longrightarrow> i + n \<le> dy \<Longrightarrow> cross_scan (take dx xs) (take dy ys) i n st = cross_scan xs ys i n st"
proof (induction n arbitrary: i st)
  case (Suc n)
  then have e: "cross_scan (take dx xs) (take dy ys) (Suc i) n st' = cross_scan xs ys (Suc i) n st'" for st' by simp
  have r: "rd (take dx xs) i = rd xs i" "rd (take dy ys) i = rd ys i" using Suc.prems by (simp_all add: rd_take)
  show ?case unfolding cross_scan.simps r e by (rule refl)
qed simp

lemma cross_axis_take:
  "i + n \<le> dx \<Longrightarrow> i + n \<le> dy \<Longrightarrow> cross_axis (take dx xs) (take dy ys) i n = cross_axis xs ys i n"
proof (induction n arbitrary: i)
  case (Suc n)
  then have e: "cross_axis (take dx xs) (take dy ys) (Suc i) n = cross_axis xs ys (Suc i) n" by simp
  have r: "rd (take dx xs) i = rd xs i" "rd (take dy ys) i = rd ys i" using Suc.prems by (simp_all add: rd_take)
  show ?case unfolding cross_axis.simps r e by (rule refl)
qed simp

lemma optimize_matmul_take:
  assumes d: "2 \<le> dx" "dx \<le> length xs" "2 \<le> dy" "dy \<le> length ys" "2 \<le> dt"
  shows "optimize_matmul_shape (take dx xs) (take dy ys) (take dt os) dx dy dt m = optimize_matmul_shape xs ys os dx dy dt m"
proof -
  have c: "copy_matrices (take dx xs) (take dy ys) (take dt os) m' = copy_matrices xs ys os m'" for m'
    using d by (simp add: copy_matrices_def copy_dims_take)
  have p: "matmul_plain (take dx xs) (take dy ys) (take dt os) dx dy dt m' = matmul_plain xs ys os dx dy dt m'" for m'
    using d by (simp add: matmul_plain_def matmul_matrices_def copy_dims_take c)
  have g: "matmul_merge (take dx xs) (take dy ys) (take dt os) ne outers m' = matmul_merge xs ys os ne outers m'" for ne outers m'
    by (simp add: matmul_merge_def c)
  have n: "2 + (min dx dy - 2) = min dx dy" using d by (auto simp: min_def)
  have mn: "2 + (min dx dy - 2) \<le> length xs" "2 + (min dx dy - 2) \<le> length ys" using n d by simp_all
  obtain st where st: "cross_scan xs ys 2 (min dx dy - 2) cross_start = Some st" "cs_outer_axis st \<le> min dx dy"
    using cross_scan_ok[OF mn, of cross_start] n by (auto simp: cross_start_def)
  have x: "matmul_cross (take dx xs) (take dy ys) (take dt os) dx dy st outers i a m' = matmul_cross xs ys os dx dy st outers i a m'"
    for outers i a m' using st(2) by (simp add: matmul_cross_def c batch_product_take)
  have b: "batch_product (take d zs) 2 (d - 2) acc = batch_product zs 2 (d - 2) acc" if "2 \<le> d" for d zs acc
    using that by (simp add: batch_product_take)
  have s: "cross_scan (take dx xs) (take dy ys) 2 (min dx dy - 2) cross_start = Some st"
    "cross_axis (take dx xs) (take dy ys) 2 (min dx dy - 2) = cross_axis xs ys 2 (min dx dy - 2)"
    using n st(1) by (simp_all add: cross_scan_take cross_axis_take)
  show ?thesis
    unfolding optimize_matmul_shape_def p g b[OF d(1)] b[OF d(3)] b[OF d(5)] s st(1) Option.bind_lunit x by (rule refl)
qed

text \<open>
  The result for batches that are not all 1. On the usual path the merged batch dimensions read
  the same batches as the original ones, and the ranks leave out nothing but trailing dimensions
  of size 1. On the other two paths the batches of each shape are one dimension, with the number
  of its batches; these are the batches that broadcasting reads when the broadcast is one crossing
  (\<open>cross_flg\<close> 1), or when the batches of one input are behind those of the other one (2).
\<close>

definition matmul_result :: "vsi_size_t list \<Rightarrow> vsi_size_t list \<Rightarrow> vsi_size_t list \<Rightarrow> matmul_out \<Rightarrow> bool" where
  "matmul_result bx by' bo r \<longleftrightarrow>
     mo_cross r = 0 \<and> (\<exists>d \<le> 6. batches_ok bx by' bo r d \<and>
       rank_ok (mo_x r) d (mo_rank r ! 0) \<and> rank_ok (mo_y r) d (mo_rank r ! 1) \<and> rank_ok (mo_o r) d (mo_rank r ! 2)) \<or>
     mo_cross r = 1 \<and> flat_batches bx by' bo r \<and> mo_rank r = [4, 3, 3] \<and> mo_x r ! 3 = 1 \<and>
       (\<forall>a b c. 1 < a \<and> 1 < b \<and> 1 < c \<and> (bx, by') \<in> set (crossing a b c) \<longrightarrow> cross_reads bx by' bo r) \<or>
     mo_cross r = 2 \<and> flat_batches bx by' bo r \<and>
       (mo_rank r = [4, 3, 3] \<and> mo_x r ! 3 = 1 \<or> mo_rank r = [3, 4, 3] \<and> mo_y r ! 3 = 1) \<and>
       (behind bx by' \<or> behind by' bx \<longrightarrow>
         same_view (fst (merge_views r)) (input_view bx bo) \<and> same_view (snd (merge_views r)) (input_view by' bo))"

lemma valid_swap: "valid_broadcast [s, t] os \<longleftrightarrow> valid_broadcast [t, s] os"
  unfolding valid_sizes by blast

lemma merge_reads:
  assumes valid: "valid_broadcast [bx, by'] bo" "length bx \<le> length bo" "length by' \<le> length bo"
    and f: "flat_batches bx by' bo r" and b: "behind bx by' \<or> behind by' bx"
    and k: "behind bx by' \<Longrightarrow> mo_rank r = [4, 3, 3]" "behind by' bx \<Longrightarrow> mo_rank r = [3, 4, 3]"
  shows "same_view (fst (merge_views r)) (input_view bx bo) \<and> same_view (snd (merge_views r)) (input_view by' bo)"
  using b
proof
  assume b: "behind bx by'"
  then show ?thesis using behind_views[OF valid b] f k(1) by (simp add: merge_views_def flat_batches_def Let_def)
next
  assume b: "behind by' bx"
  then show ?thesis using behind_views[OF valid(1)[unfolded valid_swap[of bx]] valid(3,2) b] f k(2)
    by (simp add: merge_views_def flat_batches_def Let_def)
qed

text \<open>The output of a crossing broadcast.\<close>

lemma crossing_output:
  assumes gt: "1 < a" "1 < b" "1 < c" and i: "(bx, by') \<in> set (crossing a b c)"
    and valid: "valid_broadcast [bx, by'] bo" and l: "length bo = 3"
  shows "bo = [a, b, c]"
proof -
  have one: "a \<noteq> 1" "b \<noteq> 1" "c \<noteq> 1" using gt by auto
  have sz: "(size_or bx i = 1 \<or> size_or bx i = bo ! i) \<and> (size_or by' i = 1 \<or> size_or by' i = bo ! i)" if "i < 3" for i
    using valid that l by (simp add: valid_sizes)
  have "size_or bx 0 = a \<or> size_or by' 0 = a" "size_or bx 1 = b \<or> size_or by' 1 = b" "size_or bx 2 = c \<or> size_or by' 2 = c"
    using i by (auto simp: crossing_def size_or_def)
  then have "bo ! 0 = a \<and> bo ! 1 = b \<and> bo ! 2 = c" using one sz[of 0] sz[of 1] sz[of 2] by auto
  then show ?thesis using l by (auto simp: length_Suc_conv numeral_3_eq_3)
qed

lemma crossing_reads:
  assumes dims: "2 \<le> dx" "dx \<le> 5" "dx \<le> length xs" "2 \<le> dy" "dy \<le> 5" "dy \<le> length ys"
      "2 \<le> dt" "dt \<le> 5" "dt \<le> length os" "dx \<le> dt" "dy \<le> dt"
    and m: "arrays8 m" and valid: "valid_broadcast [batch dx xs, batch dy ys] (batch dt os)"
    and r: "optimize_matmul_shape xs ys os dx dy dt m = Some (True, r)"
    and gt: "1 < a" "1 < b" "1 < c" and i: "(batch dx xs, batch dy ys) \<in> set (crossing a b c)"
  shows "cross_reads (batch dx xs) (batch dy ys) (batch dt os) r"
proof -
  have "length (batch dx xs) = 3" "length (batch dy ys) = 3" using i by (auto simp: crossing_def)
  then have d5: "dx = 5" "dy = 5" "dt = 5" using dims by (auto simp: batch_def)
  have "length (batch dt os) = 3" using d5 dims by (simp add: batch_def)
  then have bo: "batch dt os = [a, b, c]" by (rule crossing_output[OF gt i valid])
  have small: "unat a * unat b * unat c < 2 ^ 32" using valid by (simp add: bo valid_sizes mult.assoc)
  have t: "\<exists>z0 z1. take 5 zs = z0 # z1 # batch 5 zs" if "5 \<le> length zs" for zs :: "vsi_size_t list"
    using that by (cases zs; cases "tl zs") (auto simp: batch_def)
  obtain x0 x1 where x: "take 5 xs = x0 # x1 # batch dx xs" using t[of xs] dims d5 by auto
  obtain y0 y1 where y: "take 5 ys = y0 # y1 # batch dy ys" using t[of ys] dims d5 by auto
  obtain z0 z1 where z: "take 5 os = z0 # z1 # [a, b, c]" using t[of os] dims d5 bo by auto
  have "optimize_matmul_shape (x0 # x1 # batch dx xs) (y0 # y1 # batch dy ys) (z0 # z1 # [a, b, c]) 5 5 5 m = Some (True, r)"
    using r optimize_matmul_take[of 5 xs 5 ys 5 os m] dims x y z d5 by simp
  then show ?thesis using cross_result[OF gt small m i, of x0 x1 y0 y1 z0 z1] bo by simp
qed

lemma optimize_matmul_paths:
  assumes dims: "2 \<le> dx" "dx \<le> 5" "dx \<le> length xs" "2 \<le> dy" "dy \<le> 5" "dy \<le> length ys"
      "2 \<le> dt" "dt \<le> 5" "dt \<le> length os" "dx \<le> dt" "dy \<le> dt"
    and m: "arrays8 m" and valid: "valid_broadcast [batch dx xs, batch dy ys] (batch dt os)"
  shows "optimize_matmul_shape xs ys os dx dy dt m = matmul_plain xs ys os dx dy dt (m\<lparr>mo_cross := 0\<rparr>) \<or>
    (\<not> ones (batch dx xs) \<and> \<not> ones (batch dy ys) \<and> (\<exists>r. optimize_matmul_shape xs ys os dx dy dt m = Some (True, r) \<and>
      take 2 (mo_x r) = take 2 xs \<and> take 2 (mo_y r) = take 2 ys \<and> take 2 (mo_o r) = take 2 os \<and>
      flat_batches (batch dx xs) (batch dy ys) (batch dt os) r \<and>
      (mo_cross r = 1 \<and> mo_rank r = [4, 3, 3] \<and> mo_x r ! 3 = 1 \<or>
       mo_cross r = 2 \<and> (mo_rank r = [4, 3, 3] \<and> mo_x r ! 3 = 1 \<or> mo_rank r = [3, 4, 3] \<and> mo_y r ! 3 = 1) \<and>
         (behind (batch dx xs) (batch dy ys) \<longrightarrow> mo_rank r = [4, 3, 3]) \<and>
         (behind (batch dy ys) (batch dx xs) \<longrightarrow> mo_rank r = [3, 4, 3]))))"
proof (cases "dx > 2 \<and> dy > 2")
  case False
  then show ?thesis by (auto simp: optimize_matmul_shape_def Let_def)
next
  case True
  let ?m = "m\<lparr>mo_cross := 0\<rparr>" and ?bx = "batch dx xs" and ?by = "batch dy ys" and ?bo = "batch dt os"
  have m8: "arrays8 ?m" using m by (simp add: arrays8_def)
  have l: "2 \<le> length xs" "2 \<le> length ys" "2 \<le> length os" using dims by linarith+
  have n: "2 + (min dx dy - 2) = min dx dy" using True by (auto simp: min_def)
  have lb: "length ?bx \<le> length ?bo" "length ?by \<le> length ?bo" using dims by (simp_all add: batch_def)
  let ?o0 = "prod_list ?bx" and ?o1 = "prod_list ?by" and ?o2 = "prod_list ?bo"
  have outers: "batch_product xs 2 (dx - 2) 1 = Some ?o0"
    "batch_product ys 2 (dy - 2) 1 = Some ?o1" "batch_product os 2 (dt - 2) 1 = Some ?o2"
    using dims by (simp_all add: batch_product_eq batch_def)
  note fit = batches_fit[OF valid lb]
  have one: "\<not> ones ?bx" "\<not> ones ?by" if "1 < ?o0" "1 < ?o1"
    using that prod_list_1[of ?bx] prod_list_1[of ?by] fit by (auto simp: word_less_nat_alt)
  have mn: "2 + (min dx dy - 2) \<le> length xs" "2 + (min dx dy - 2) \<le> length ys" using n dims by simp_all
  obtain st where st: "cross_scan xs ys 2 (min dx dy - 2) cross_start = Some st" "cs_outer_axis st \<le> min dx dy"
    using cross_scan_ok[OF mn, of cross_start] n by (auto simp: cross_start_def)
  obtain ax where ax: "cross_axis xs ys 2 (min dx dy - 2) = Some ax" using cross_axis_ok[OF mn] by blast
  show ?thesis
  proof (cases "cs_ne st > 0 \<and> ?o0 > 1 \<and> ?o1 > 1")
    case False
    then show ?thesis using True outers st(1) by (intro disjI1) (auto simp: optimize_matmul_shape_def Let_def)
  next
    case go: True
    have no: "\<not> ones ?bx" "\<not> ones ?by" using one go by simp_all
    show ?thesis
    proof (cases ax)
      case (Some p)
      obtain i sz where p: "p = (i, sz)" by (cases p)
      have "cs_outer_axis st \<le> dx" "cs_outer_axis st \<le> dy" using st(2) by simp_all
      from matmul_cross_ok[OF l m8 dims(3,6) this, of ?o0 ?o1 ?o2 i sz] obtain r where
        r: "matmul_cross xs ys os dx dy st (?o0, ?o1, ?o2) i sz ?m = Some r" "mo_cross r = 1"
        "take 2 (mo_x r) = take 2 xs" "take 2 (mo_y r) = take 2 ys" "take 2 (mo_o r) = take 2 os"
        "mo_x r ! 2 = ?o0" "mo_y r ! 2 = ?o1" "mo_o r ! 2 = ?o2" "mo_rank r = [4, 3, 3]" "mo_x r ! 3 = 1" by blast
      have "optimize_matmul_shape xs ys os dx dy dt m = Some (True, r)"
        using True outers st(1) ax Some p r(1) go by (simp add: optimize_matmul_shape_def Let_def)
      then show ?thesis using no r fit by (auto simp: flat_batches_def)
    next
      case None
      note ne = scan_behind[OF st(1) dims(1,3,4,6) _ no]
      have ne12: "cs_ne st = 1 \<or> cs_ne st = 2" using ne(1) go by simp
      from matmul_merge_ok[OF l m8 ne12, of ?o0 ?o1 ?o2] obtain r where
        r: "matmul_merge xs ys os (cs_ne st) (?o0, ?o1, ?o2) ?m = Some r" "mo_cross r = 2"
        "take 2 (mo_x r) = take 2 xs" "take 2 (mo_y r) = take 2 ys" "take 2 (mo_o r) = take 2 os"
        "mo_x r ! 2 = ?o0" "mo_y r ! 2 = ?o1" "mo_o r ! 2 = ?o2"
        "if cs_ne st = 1 then mo_rank r = [4, 3, 3] \<and> mo_x r ! 3 = 1 else mo_rank r = [3, 4, 3] \<and> mo_y r ! 3 = 1" by blast
      have "optimize_matmul_shape xs ys os dx dy dt m = Some (True, r)"
        using True outers st(1) ax None r(1) go by (simp add: optimize_matmul_shape_def Let_def)
      then show ?thesis using no r fit ne(2,3) ne12 go by (auto simp: flat_batches_def split: if_splits)
    qed
  qed
qed

lemma optimize_matmul_ok:
  assumes dims: "2 \<le> dx" "dx \<le> 5" "dx \<le> length xs" "2 \<le> dy" "dy \<le> 5" "dy \<le> length ys"
      "2 \<le> dt" "dt \<le> 5" "dt \<le> length os" "dx \<le> dt" "dy \<le> dt"
    and m: "arrays8 m" and valid: "valid_broadcast [batch dx xs, batch dy ys] (batch dt os)"
  shows "if ones (batch dx xs) \<or> ones (batch dy ys) then optimize_matmul_shape xs ys os dx dy dt m = None
    else \<exists>r. optimize_matmul_shape xs ys os dx dy dt m = Some (True, r) \<and>
      take 2 (mo_x r) = take 2 xs \<and> take 2 (mo_y r) = take 2 ys \<and> take 2 (mo_o r) = take 2 os \<and>
      matmul_result (batch dx xs) (batch dy ys) (batch dt os) r"
proof -
  let ?bx = "batch dx xs" and ?by = "batch dy ys" and ?bo = "batch dt os"
  have m8: "arrays8 (m\<lparr>mo_cross := 0\<rparr>)" using m by (simp add: arrays8_def)
  have lb: "length ?bx \<le> length ?bo" "length ?by \<le> length ?bo" using dims by (simp_all add: batch_def)
  let ?alt = "\<lambda>r. mo_cross r = 1 \<and> mo_rank r = [4, 3, 3] \<and> mo_x r ! 3 = 1 \<or>
       mo_cross r = 2 \<and> (mo_rank r = [4, 3, 3] \<and> mo_x r ! 3 = 1 \<or> mo_rank r = [3, 4, 3] \<and> mo_y r ! 3 = 1) \<and>
         (behind ?bx ?by \<longrightarrow> mo_rank r = [4, 3, 3]) \<and> (behind ?by ?bx \<longrightarrow> mo_rank r = [3, 4, 3])"
  from optimize_matmul_paths[OF dims m valid]
  consider (plain) "optimize_matmul_shape xs ys os dx dy dt m = matmul_plain xs ys os dx dy dt (m\<lparr>mo_cross := 0\<rparr>)"
    | (flat) r where "\<not> ones ?bx" "\<not> ones ?by" "optimize_matmul_shape xs ys os dx dy dt m = Some (True, r)"
      "take 2 (mo_x r) = take 2 xs" "take 2 (mo_y r) = take 2 ys" "take 2 (mo_o r) = take 2 os"
      "flat_batches ?bx ?by ?bo r" "?alt r" by blast
  then show ?thesis
  proof cases
    case plain
    then show ?thesis using matmul_plain_ok[OF dims m8 valid] by (auto simp: matmul_result_def split: if_splits)
  next
    case flat
    have x: "\<forall>a b c. 1 < a \<and> 1 < b \<and> 1 < c \<and> (?bx, ?by) \<in> set (crossing a b c) \<longrightarrow> cross_reads ?bx ?by ?bo r"
      using crossing_reads[OF dims m valid flat(3)] by blast
    from flat(8) have "matmul_result ?bx ?by ?bo r"
    proof
      assume "mo_cross r = 1 \<and> mo_rank r = [4, 3, 3] \<and> mo_x r ! 3 = 1"
      then show ?thesis using flat(7) x unfolding matmul_result_def by blast
    next
      assume c: "mo_cross r = 2 \<and> (mo_rank r = [4, 3, 3] \<and> mo_x r ! 3 = 1 \<or> mo_rank r = [3, 4, 3] \<and> mo_y r ! 3 = 1) \<and>
         (behind ?bx ?by \<longrightarrow> mo_rank r = [4, 3, 3]) \<and> (behind ?by ?bx \<longrightarrow> mo_rank r = [3, 4, 3])"
      then show ?thesis using flat(7) merge_reads[OF valid lb flat(7)] unfolding matmul_result_def by blast
    qed
    then show ?thesis using flat(1-6) by auto
  qed
qed

subsection \<open>Properties\<close>

text \<open>
  C30: For matrices with up to three batch dimensions and a valid broadcast of the batches,
  \<open>vsi_nn_kernel_optimize_matrixmul_broadcast_shape\<close> stays in its arrays exactly when both inputs
  have a batch dimension other than 1; otherwise it reads entry -1 of a local array (so it does for
  plain matrices). Then it returns TRUE with the dimensions of the matrices in front. On its usual
  path (\<open>cross_flg\<close> 0) the merged batch dimensions read the same batches of both inputs as the
  original ones, and the returned ranks leave out nothing but trailing dimensions of size 1. On the
  paths of the crossing (1) and of the merged broadcast (2) each shape has its number of batches in
  one dimension, and the loops of the kernel read the batches that broadcasting reads, in a
  crossing around one common dimension and when the batches of one input are behind those of the
  other one. Outside of these two classes the kernel can read other batches:
  \<open>matmul_cross_loses_axis\<close> and \<open>matmul_merge_alternates\<close>.
\<close>

theorem matmul_shape_sound:
  assumes "2 \<le> dx" "dx \<le> 5" "dx \<le> length xs" "2 \<le> dy" "dy \<le> 5" "dy \<le> length ys" "2 \<le> dt" "dt \<le> 5" "dt \<le> length os"
    "dx \<le> dt" "dy \<le> dt" "arrays8 m" "valid_broadcast [batch dx xs, batch dy ys] (batch dt os)"
  shows "if ones (batch dx xs) \<or> ones (batch dy ys) then optimize_matmul_shape xs ys os dx dy dt m = None
    else \<exists>r. optimize_matmul_shape xs ys os dx dy dt m = Some (True, r) \<and>
      take 2 (mo_x r) = take 2 xs \<and> take 2 (mo_y r) = take 2 ys \<and> take 2 (mo_o r) = take 2 os \<and>
      matmul_result (batch dx xs) (batch dy ys) (batch dt os) r"
  by (rule optimize_matmul_ok[OF assms])

definition empty_out :: matmul_out where
  "empty_out = \<lparr>mo_x = replicate 8 0, mo_y = replicate 8 0, mo_o = replicate 8 0, mo_rank = [0, 0, 0],
     mo_cross = 0, mo_size = [0, 0, 0], mo_stride = replicate 9 0\<rparr>"

lemma empty_out_arrays: "arrays8 empty_out"
  by (simp add: arrays8_def empty_out_def)

text \<open>Batches 5 times 3 of one input behind the 7 batches of the other one.\<close>

theorem matmul_shape_sound_witness:
  "\<exists>r. optimize_matmul_shape [4, 2, 1, 5, 3] [3, 4, 7] [3, 2, 7, 5, 3] 5 3 5 empty_out = Some (True, r) \<and>
    take 2 (mo_x r) = [4, 2] \<and> take 2 (mo_y r) = [3, 4] \<and> take 2 (mo_o r) = [3, 2] \<and>
    mo_cross r = 2 \<and> unat (mo_x r ! 2) = 15 \<and> unat (mo_y r ! 2) = 7 \<and> unat (mo_o r ! 2) = 105 \<and>
    same_view (fst (merge_views r)) (input_view [1, 5, 3] [7, 5, 3]) \<and>
    same_view (snd (merge_views r)) (input_view [7] [7, 5, 3])"
proof -
  let ?f = "optimize_matmul_shape [4, 2, 1, 5, 3] [3, 4, 7] [3, 2, 7, 5, 3] 5 3 5 empty_out"
  have b: "batch 5 [4, 2, 1, 5, 3] = [1, 5, 3]" "batch 3 [3, 4, 7] = [7]" "batch 5 [3, 2, 7, 5, 3] = [7, 5, 3]"
    by (simp_all add: batch_def)
  have v: "valid_broadcast [[1, 5, 3], [7]] [7, 5, 3]"
    by (simp add: valid_broadcast_def group_ok_def sizes_at_def upt_rec)
  have bh: "behind [1, 5, 3] [7]" by (auto simp: behind_def intro!: exI[of _ 1])
  have c2: "map_option (mo_cross \<circ> snd) ?f = Some 2" by code_simp
  obtain r where r: "?f = Some (True, r)" "take 2 (mo_x r) = [4, 2]" "take 2 (mo_y r) = [3, 4]" "take 2 (mo_o r) = [3, 2]"
    "matmul_result [1, 5, 3] [7] [7, 5, 3] r"
    using matmul_shape_sound[of 5 "[4, 2, 1, 5, 3]" 3 "[3, 4, 7]" 5 "[3, 2, 7, 5, 3]" empty_out] empty_out_arrays v
    by (auto simp: b)
  then have "mo_cross r = 2" using c2 by simp
  then show ?thesis using r bh by (auto simp: matmul_result_def flat_batches_def)
qed

text \<open>
  Merged broadcasts. When the batches of the two inputs alternate, the two flattened dimensions
  are not the digits of the batches of the output: with the batch shapes 1, 3, 1 and 2, 1, 2 the
  batch 2 of the output belongs to batch 1 of the first input, and the kernel reads batch 0.
\<close>

lemma matmul_merge_alternates:
  "\<exists>r. optimize_matmul_shape [4, 2, 1, 3, 1] [3, 4, 2, 1, 2] [3, 2, 2, 3, 2] 5 5 5 empty_out = Some (True, r) \<and>
     mo_cross r = 2 \<and> mo_rank r = [4, 3, 3] \<and> mo_x r ! 2 = 3 \<and> mo_y r ! 2 = 4 \<and>
     bidx (fst (merge_views r)) 2 = 0 \<and> bidx (input_view [1, 3, 1] [2, 3, 2]) 2 = 1"
proof -
  have "map_option (\<lambda>(ok, r). (ok, mo_cross r, mo_rank r, mo_x r ! 2, mo_y r ! 2))
      (optimize_matmul_shape [4, 2, 1, 3, 1] [3, 4, 2, 1, 2] [3, 2, 2, 3, 2] 5 5 5 empty_out) =
    Some (True, 2, [4, 3, 3], 3, 4)" by code_simp
  then obtain r where r: "optimize_matmul_shape [4, 2, 1, 3, 1] [3, 4, 2, 1, 2] [3, 2, 2, 3, 2] 5 5 5 empty_out = Some (True, r)"
    "mo_cross r = 2" "mo_rank r = [4, 3, 3]" "mo_x r ! 2 = 3" "mo_y r ! 2 = 4" by auto
  have "bidx (fst (merge_views r)) 2 = 0" using r by (simp add: merge_views_def)
  moreover have "bidx (input_view [1, 3, 1] [2, 3, 2]) 2 = 1" by code_simp
  ultimately show ?thesis using r by blast
qed

text \<open>
  Crossing broadcasts: when one dimension of three batch dimensions is common to both inputs
  and the other two are broadcast (on either side of it, from either input), the optimizer
  returns sizes and strides of the three loops of the kernel with which these visit every batch
  of the output exactly once and read the batches of the inputs that broadcasting reads.
\<close>

theorem matmul_cross_sound:
  assumes "1 < a" "1 < b" "1 < c" "unat a * unat b * unat c < 2 ^ 32" "arrays8 m" "(bx, by') \<in> set (crossing a b c)"
  shows "\<exists>r. optimize_matmul_shape (x0 # x1 # bx) (y0 # y1 # by') [z0, z1, a, b, c] 5 5 5 m = Some (True, r) \<and>
    mo_cross r = 1 \<and> cross_reads bx by' [a, b, c] r"
  by (rule cross_result[OF assms])

theorem matmul_cross_sound_witness:
  "\<exists>r. optimize_matmul_shape [4, 2, 3, 1, 7] [5, 4, 3, 6, 1] [5, 2, 3, 6, 7] 5 5 5 empty_out = Some (True, r) \<and>
    mo_cross r = 1 \<and> cross_reads [3, 1, 7] [3, 6, 1] [3, 6, 7] r"
  by (rule matmul_cross_sound[OF _ _ _ _ empty_out_arrays]) (simp_all add: crossing_def)

text \<open>
  A crossing broadcast around two common dimensions loses batches: only the first of them
  becomes the axis, and the second one is in none of the three loops. With the batch shapes
  a, b, 1 and a, b, c the loops visit a times c of the a times b times c batches of the output.
\<close>

theorem matmul_cross_loses_axis:
  assumes "1 < a" "1 < b" "1 < c" "unat a * unat b * unat c < 2 ^ 32" "arrays8 m"
  shows "\<exists>r. optimize_matmul_shape [x0, x1, a, b, 1] [y0, y1, a, b, c] [z0, z1, a, b, c] 5 5 5 m = Some (True, r) \<and>
    mo_cross r = 1 \<and> mo_size r = [a, c, 1] \<and>
    card (cross_box r) = unat a * unat c \<and> card (cross_box r) < num_out (input_view [a, b, c] [a, b, c])"
proof -
  note w = batch_words[OF assms(1-4)]
  have len: "length (mo_x m) = 8" "length (mo_y m) = 8" "length (mo_o m) = 8" "length (mo_rank m) = 3" using assms(5) by (simp_all add: arrays8_def)
  have g: "0 < unat a" "1 < unat b" "0 < unat c" using assms(1-3) by (simp_all add: word_less_nat_alt)
  have "unat a * unat c * 1 < unat a * unat c * unat b" using g by (intro mult_strict_left_mono) simp_all
  then have lt: "unat a * unat c < unat a * (unat b * unat c)" by (simp only: mult_1_right mult.assoc mult.commute mult.left_commute)
  have "\<exists>r. optimize_matmul_shape [x0, x1, a, b, 1] [y0, y1, a, b, c] [z0, z1, a, b, c] 5 5 5 m = Some (True, r) \<and>
    mo_cross r = 1 \<and> mo_size r = [a, c, 1]"
    using w(1-3,7,10) len by (auto simp: cross_eval_simps arrays8_def copy_matrices_ok)
  then show ?thesis using lt by (auto simp: cross_box_def input_view_3 num_out_def card_cartesian_product)
qed

theorem matmul_cross_loses_axis_witness:
  "\<exists>r. optimize_matmul_shape [4, 2, 2, 3, 1] [5, 4, 2, 3, 5] [5, 2, 2, 3, 5] 5 5 5 empty_out = Some (True, r) \<and>
    mo_cross r = 1 \<and> mo_size r = [2, 5, 1]"
  using matmul_cross_loses_axis[of 2 3 5 empty_out 4 2 5 4 5 2] empty_out_arrays by auto

text \<open>
  The loops that drop trailing dimensions of size 1 test the entry before the index, so for plain
  matrices without batches they read the entry before the start of the local arrays.
\<close>

lemma no_batches:
  "optimize_broadcast_shape [[], []] [] [first_one, replicate 8 0] first_one =
    Some (Some ([[1, 1, 0, 0, 0, 0, 0, 0], [1, 1, 0, 0, 0, 0, 0, 0]], [1, 1, 0, 0, 0, 0, 0, 0], 2))"
  by code_simp

lemma matmul_2d_reads_before:
  assumes "arrays8 m"
  shows "optimize_matmul_shape [x0, x1] [y0, y1] [z0, z1] 2 2 2 m = None"
proof -
  have "valid_broadcast [[], []] []" by (simp add: valid_broadcast_def)
  then show ?thesis
    using optimize_matmul_ok[of 2 "[x0, x1]" 2 "[y0, y1]" 2 "[z0, z1]" m] assms by (simp add: batch_def)
qed

end
