(* ===== verification/Kernel_Gpu_Shape.thy ===== *)
theory Kernel_Gpu_Shape
  imports Kernel_Shape
begin

text \<open>
  The shape optimizers of
  \<^verbatim>\<open>src/tim/vx/internal/src/kernel/vsi_nn_kernel_gpu_shape_optimize.c\<close>: the
  dimensions before, on and after the axes of a reduction, a softmax, a scatter or a
  normalisation are merged into one dimension each, and a merged dimension that is too wide
  for the GPU is split in two. The tile optimizer merges the dimensions that are not
  repeated.

  The ranks are \<open>vsi_size_t\<close> values as in the code, because a cost of \<open>(vsi_size_t)-1\<close> is
  added to them; an axis is an \<open>int\<close>, as the code's \<open>int32_t\<close> may be negative.
\<close>

subsection \<open>One merged dimension\<close>

definition element_fill_dim ::
  "vsi_size_t list \<Rightarrow> vsi_size_t \<Rightarrow> vsi_size_t \<Rightarrow> vsi_size_t \<Rightarrow> (vsi_size_t \<times> vsi_size_t list) option" where
  "element_fill_dim shape_x rank_x max_rank size_x =
     (let plain = map_option (\<lambda>a. (1, a)) (wr shape_x (unat rank_x) size_x)
      in if size_x = 1 then Some (0, shape_x)
         else if size_x < max_rank then plain
         else case compute_gpu_divisor size_x max_rank 1 of
           None \<Rightarrow> Some (- 1, shape_x)
         | Some divisor \<Rightarrow>
             let remainder = size_x div divisor
             in if remainder > max_rank \<or> rank_x \<ge> max_rank then plain
                else if size_x > 1 then do {
                  a \<leftarrow> wr shape_x (unat rank_x) divisor;
                  b \<leftarrow> wr a (unat (rank_x + 1)) remainder;
                  Some (2, b) }
                else do {
                  a \<leftarrow> wr shape_x (unat rank_x) 1;
                  b \<leftarrow> wr a (unat (rank_x + 1)) 1;
                  Some (2, b) })"

text \<open>The products of the sizes at given positions.\<close>

fun size_at_product :: "vsi_size_t list \<Rightarrow> nat list \<Rightarrow> vsi_size_t \<Rightarrow> vsi_size_t option" where
  "size_at_product shape_x [] acc = Some acc"
| "size_at_product shape_x (i # is) acc = do {
     v \<leftarrow> rd shape_x i;
     size_at_product shape_x is (acc * v) }"

fun axis_product :: "vsi_size_t list \<Rightarrow> int list \<Rightarrow> vsi_size_t \<Rightarrow> vsi_size_t option" where
  "axis_product shape_x [] acc = Some acc"
| "axis_product shape_x (a # as) acc =
     (if a < 0 then None
      else do {
        v \<leftarrow> rd shape_x (nat a);
        axis_product shape_x as (acc * v) })"

text \<open>The sizes in front of, on and behind the axes.\<close>

definition axes_parts ::
  "vsi_size_t list \<Rightarrow> int list \<Rightarrow> (vsi_size_t \<times> vsi_size_t \<times> vsi_size_t) option" where
  "axes_parts shape_x axis = do {
     axisSize \<leftarrow> axis_product shape_x axis 1;
     first \<leftarrow> rd axis 0;
     innerSize \<leftarrow> size_at_product shape_x [0..<nat first] 1;
     last \<leftarrow> rd axis (length axis - 1);
     outerSize \<leftarrow> size_at_product shape_x [nat (last + 1)..<length shape_x] 1;
     Some (innerSize, axisSize, outerSize) }"

fun write_axes :: "int list \<Rightarrow> nat \<Rightarrow> nat \<Rightarrow> int \<Rightarrow> int list option" where
  "write_axes out_axis i 0 rank = Some out_axis"
| "write_axes out_axis i (Suc n) rank = do {
     a \<leftarrow> wr out_axis i (rank + int i);
     write_axes a (Suc i) n rank }"

definition avoid_1d :: "vsi_size_t list \<Rightarrow> vsi_size_t \<Rightarrow> (vsi_size_t list \<times> vsi_size_t) option" where
  "avoid_1d shape rank =
     (if rank = 0 then do { a \<leftarrow> wr shape 0 1; b \<leftarrow> wr a 1 1; Some (b, 2) }
      else if rank = 1 then do { a \<leftarrow> wr shape 1 1; Some (a, 2) }
      else Some (shape, rank))"

text \<open>The axis dimensions; a merged axis of size 1 is kept as a dimension of size 1.\<close>

definition fill_axes ::
  "vsi_size_t list \<Rightarrow> vsi_size_t \<Rightarrow> vsi_size_t \<Rightarrow> int list
   \<Rightarrow> (vsi_size_t list \<times> vsi_size_t \<times> int list \<times> vsi_size_t) option" where
  "fill_axes shape rank_in axisSize out_axis = do {
     (dims, a) \<leftarrow> element_fill_dim shape rank_in GPU_TENSOR_MAX_WIDTH axisSize;
     if dims = 0 then do {
       axes \<leftarrow> wr out_axis 0 (int (unat rank_in));
       b \<leftarrow> wr a (unat rank_in) 1;
       Some (b, rank_in + 1, axes, 1) }
     else do {
       axes \<leftarrow> write_axes out_axis 0 (unat dims) (int (unat rank_in));
       Some (a, rank_in + dims, axes, dims) } }"

definition optimize_tensor_shape ::
  "vsi_size_t list \<Rightarrow> int list \<Rightarrow> vsi_size_t list \<Rightarrow> int list
   \<Rightarrow> (vsi_size_t list \<times> vsi_size_t \<times> int list \<times> vsi_size_t) option" where
  "optimize_tensor_shape shape_x axis out_shape_x out_axis = do {
     (innerSize, axisSize, outerSize) \<leftarrow> axes_parts shape_x axis;
     (c1, x1) \<leftarrow> element_fill_dim out_shape_x 0 GPU_TENSOR_MAX_WIDTH innerSize;
     (x2, rank_in, axes, n) \<leftarrow> fill_axes x1 c1 axisSize out_axis;
     (c3, x3) \<leftarrow> element_fill_dim x2 rank_in GPU_TENSOR_MAX_WIDTH outerSize;
     (x4, out_rank) \<leftarrow> avoid_1d x3 (rank_in + c3);
     Some (x4, out_rank, axes, n) }"

definition optimize_reduce_shape ::
  "vsi_size_t list \<Rightarrow> int list \<Rightarrow> vsi_size_t list \<Rightarrow> vsi_size_t list \<Rightarrow> int list
   \<Rightarrow> (vsi_size_t list \<times> vsi_size_t \<times> vsi_size_t list \<times> vsi_size_t \<times> int list \<times> vsi_size_t) option" where
  "optimize_reduce_shape shape_x axis out_shape_x out_shape_output out_axis = do {
     (innerSize, axisSize, outerSize) \<leftarrow> axes_parts shape_x axis;
     (c1, x1) \<leftarrow> element_fill_dim out_shape_x 0 GPU_TENSOR_MAX_WIDTH innerSize;
     (d1, o1) \<leftarrow> element_fill_dim out_shape_output 0 GPU_TENSOR_MAX_WIDTH innerSize;
     (x2, rank_in, axes, n) \<leftarrow> fill_axes x1 c1 axisSize out_axis;
     (c3, x3) \<leftarrow> element_fill_dim x2 rank_in GPU_TENSOR_MAX_WIDTH outerSize;
     (d3, o3) \<leftarrow> element_fill_dim o1 d1 GPU_TENSOR_MAX_WIDTH outerSize;
     (x4, out_rank) \<leftarrow> avoid_1d x3 (rank_in + c3);
     (o4, out_rank_output) \<leftarrow> avoid_1d o3 (d1 + d3);
     Some (x4, out_rank, o4, out_rank_output, axes, n) }"

definition optimize_element_shape_with_max_rank ::
  "vsi_size_t list \<Rightarrow> vsi_size_t list \<Rightarrow> vsi_size_t \<Rightarrow> (vsi_size_t list \<times> vsi_size_t) option" where
  "optimize_element_shape_with_max_rank shape_x out_shape_x max_rank = do {
     element_num \<leftarrow> size_at_product shape_x [0..<length shape_x] 1;
     (rank_in, x1) \<leftarrow> element_fill_dim out_shape_x 0 max_rank element_num;
     avoid_1d x1 rank_in }"

definition optimize_element_shape ::
  "vsi_size_t list \<Rightarrow> vsi_size_t list \<Rightarrow> (vsi_size_t list \<times> vsi_size_t) option" where
  "optimize_element_shape shape_x out_shape_x = do {
     element_num \<leftarrow> size_at_product shape_x [0..<length shape_x] 1;
     (rank_in, x1) \<leftarrow> element_fill_dim out_shape_x 0 GPU_TENSOR_MAX_WIDTH element_num;
     avoid_1d x1 rank_in }"

text \<open>One axis. The result is the shape, its rank and the axis.\<close>

definition optimize_scatter_elements_shape ::
  "vsi_size_t list \<Rightarrow> int \<Rightarrow> vsi_size_t list \<Rightarrow> vsi_size_t
   \<Rightarrow> (vsi_size_t list \<times> vsi_size_t \<times> int) option" where
  "optimize_scatter_elements_shape shape_x axis out_shape_x limit = do {
     axisSize \<leftarrow> axis_product shape_x [axis] 1;
     innerSize \<leftarrow> size_at_product shape_x [0..<nat axis] 1;
     outerSize \<leftarrow> size_at_product shape_x [nat (axis + 1)..<length shape_x] 1;
     (c1, x1) \<leftarrow> element_fill_dim out_shape_x 0 limit innerSize;
     (dims, x2) \<leftarrow> element_fill_dim x1 c1 limit axisSize;
     (x3, rank_in) \<leftarrow>
       (if dims = 0 then do { b \<leftarrow> wr x2 (unat c1) 1; Some (b, c1 + 1) } else Some (x2, c1));
     (c3, x4) \<leftarrow> element_fill_dim x3 (rank_in + dims) limit outerSize;
     (x5, out_rank) \<leftarrow> avoid_1d x4 (rank_in + dims + c3);
     Some (x5, out_rank, int (unat c1)) }"

definition optimize_softmax_shape ::
  "vsi_size_t list \<Rightarrow> int \<Rightarrow> vsi_size_t list \<Rightarrow> (vsi_size_t list \<times> vsi_size_t \<times> int) option" where
  "optimize_softmax_shape shape_x axis out_shape_x =
     optimize_scatter_elements_shape shape_x axis out_shape_x GPU_TENSOR_MAX_WIDTH"

definition optimize_1d_tensor_shape ::
  "vsi_size_t list \<Rightarrow> vsi_size_t list \<Rightarrow> (vsi_size_t list \<times> nat) option" where
  "optimize_1d_tensor_shape shape out_shape =
     (if length shape \<le> length out_shape then do {
        let a = shape @ drop (length shape) out_shape;
        v \<leftarrow> rd a 1;
        b \<leftarrow> wr a 1 (if length shape = 1 then 1 else v);
        Some (b, max (length shape) 2) }
      else None)"

fun xhw_loop :: "vsi_size_t list \<Rightarrow> nat list \<Rightarrow> vsi_size_t list option" where
  "xhw_loop out_shape [] = Some out_shape"
| "xhw_loop out_shape (i # is) = do {
     a \<leftarrow> rd out_shape 2;
     b \<leftarrow> rd out_shape i;
     c \<leftarrow> wr out_shape 2 (a * b);
     xhw_loop c is }"

definition optimize_nchw2xhw_shape ::
  "vsi_size_t list \<Rightarrow> vsi_size_t list \<Rightarrow> (vsi_size_t list \<times> nat) option" where
  "optimize_nchw2xhw_shape shape out_shape = do {
     (a, dim_num) \<leftarrow> optimize_1d_tensor_shape shape out_shape;
     b \<leftarrow> xhw_loop a [3..<dim_num];
     Some (b, min dim_num 3) }"

text \<open>
  The declared result of the group normalisation is a \<open>vsi_bool\<close>, but what is returned is a
  \<open>vsi_status\<close>: \<open>VSI_SUCCESS\<close> is 0 and \<open>VSI_FAILURE\<close> is -1.
\<close>

definition optimize_group_norm_shape ::
  "vsi_size_t list \<Rightarrow> vsi_size_t \<Rightarrow> bool \<Rightarrow> vsi_size_t list \<Rightarrow> (vsi_status \<times> vsi_size_t list) option" where
  "optimize_group_norm_shape shape groups is_sp_kernel out_shape = do {
     s0 \<leftarrow> rd shape 0;
     s1 \<leftarrow> rd shape 1;
     s2 \<leftarrow> rd shape 2;
     if groups = 0 then None
     else do {
       let max_rank = (if is_sp_kernel then 2 ^ 13 - 1 else GPU_TENSOR_MAX_WIDTH);
       (a, out_rank) \<leftarrow> optimize_element_shape_with_max_rank [s0, s1, s2 div groups] out_shape max_rank;
       v \<leftarrow> rd a 1;
       rest \<leftarrow> size_at_product shape [3..<length shape] 1;
       if \<not> is_sp_kernel \<and> v = 1 \<and> out_rank < 3 then do {
         b \<leftarrow> wr a 1 groups;
         c \<leftarrow> wr b 2 1;
         d \<leftarrow> wr c 3 rest;
         Some (VSI_SUCCESS, d) }
       else if out_rank = 2 then do {
         b \<leftarrow> wr a 2 groups;
         c \<leftarrow> wr b 3 rest;
         Some (VSI_SUCCESS, c) }
       else Some (VSI_FAILURE, a) } }"


subsection \<open>A merged dimension keeps its number of elements\<close>

definition num :: "vsi_size_t list \<Rightarrow> nat" where
  "num xs = prod_list (map unat xs)"

lemma num_simps [simp]: "num [] = 1" "num (x # xs) = unat x * num xs" "num (xs @ ys) = num xs * num ys"
  by (simp_all add: num_def)

lemma num_pos: "0 \<notin> set xs \<Longrightarrow> 1 \<le> num xs"
  by (induction xs) (auto simp: Suc_le_eq unat_gt_0)

text \<open>
  \<open>fill_at a r vals\<close> is the array with the values written from position \<open>r\<close> on.
\<close>

definition fill_at :: "vsi_size_t list \<Rightarrow> nat \<Rightarrow> vsi_size_t list \<Rightarrow> vsi_size_t list" where
  "fill_at a r vals = take r a @ vals @ drop (r + length vals) a"

lemma length_fill_at [simp]: "r + length vals \<le> length a \<Longrightarrow> length (fill_at a r vals) = length a"
  by (simp add: fill_at_def)

lemma fill_at_Nil [simp]: "fill_at a r [] = a"
  by (simp add: fill_at_def)

lemma take_fill_at:
  "r + length vals \<le> length a \<Longrightarrow> take (r + length vals) (fill_at a r vals) = take r a @ vals"
  by (simp add: fill_at_def)

lemma fill_at_one: "r < length a \<Longrightarrow> a[r := v] = fill_at a r [v]"
  by (simp add: fill_at_def upd_conv_take_nth_drop)

lemma fill_at_two: "Suc r < length a \<Longrightarrow> a[r := v, Suc r := w] = fill_at a r [v, w]"
  using Cons_nth_drop_Suc[of "Suc r" a, symmetric]
  by (simp add: fill_at_def upd_conv_take_nth_drop[of r] list_update_append)

lemma element_fill_spec:
  assumes m: "1 < m" and r: "unat r + 1 < length a" and b: "unat r + 2 < 2 ^ 32"
  obtains vals where "element_fill_dim a r m s = Some (of_nat (length vals), fill_at a (unat r) vals)"
    "length vals \<le> 2" "num vals = unat s" "vals = [] \<longleftrightarrow> s = 1"
    "length vals = 2 \<Longrightarrow> m \<le> s"
    "length vals = 1 \<Longrightarrow> vals ! 0 = s"
proof -
  have r1: "unat (r + 1) = Suc (unat r)" using b by (simp add: unat_add_no_overflow)
  consider "s = 1" | "s \<noteq> 1" "s < m" | "s \<noteq> 1" "\<not> s < m" by blast
  then show thesis
  proof cases
    case 1
    then show thesis using that[of "[]"] by (simp add: element_fill_dim_def)
  next
    case 2
    then show thesis using that[of "[s]"] r by (simp add: element_fill_dim_def fill_at_one)
  next
    case 3
    then have s: "0 < s" "1 < s" using m by (auto simp: word_less_nat_alt)
    obtain d where d: "compute_gpu_divisor s m 1 = Some d" "0 < d" "d < m" "unat d dvd unat s"
      using compute_gpu_divisor_spec[OF s(1) m] by metis
    show thesis
    proof (cases "s div d > m \<or> r \<ge> m")
      case True
      then show thesis using 3 that[of "[s]"] r d(1) by (simp add: element_fill_dim_def fill_at_one)
    next
      case False
      then have le: "s div d \<le> m" by (simp add: not_less)
      have "num [d, s div d] = unat s" using split_sizes[OF d(4) s(1)] by simp
      moreover have "element_fill_dim a r m s = Some (2, fill_at a (unat r) [d, s div d])"
        using 3 False r d(1) s(2) r1 fill_at_two[of "unat r" a] by (simp add: element_fill_dim_def)
      ultimately show thesis using that[of "[d, s div d]"] 3 by simp
    qed
  qed
qed

lemma size_at_product_eq:
  "\<forall>i \<in> set is. i < length xs \<and> xs ! i \<noteq> 0 \<Longrightarrow> unat acc * num (map ((!) xs) is) < 2 ^ 32 \<Longrightarrow>
   \<exists>p. size_at_product xs is acc = Some p \<and> unat p = unat acc * num (map ((!) xs) is)"
proof (induction "is" arbitrary: acc)
  case (Cons i "is")
  have pos: "1 \<le> num (map ((!) xs) is)"
    using Cons.prems(1) by (intro num_pos) (auto simp: in_set_conv_nth)
  have "unat acc * unat (xs ! i) \<le> unat acc * unat (xs ! i) * num (map ((!) xs) is)" using pos by simp
  also have "\<dots> < 2 ^ 32" using Cons.prems(2) by (simp add: mult.assoc)
  finally have u: "unat (acc * xs ! i) = unat acc * unat (xs ! i)" by (intro unat_mult_no_overflow) simp
  show ?case using Cons.IH[of "acc * xs ! i"] Cons.prems u by (simp add: mult.assoc)
qed simp

lemma axis_product_eq: "axis_product xs (map int is) acc = size_at_product xs is acc"
  by (induction "is" arbitrary: acc) simp_all

lemma map_nth_upt: "j \<le> length xs \<Longrightarrow> map ((!) xs) [i..<j] = drop i (take j xs)"
  by (rule nth_equalityI) simp_all

lemma num_part: "num (take a xs) * num (drop a (take b xs)) * num (drop b xs) = num xs" if "a \<le> b"
  unfolding num_simps(3)[symmetric] append_assoc
  using that by (metis append_assoc append_take_drop_id min.absorb2 take_take min_def)

text \<open>Contiguous axes \<open>a, ..., b - 1\<close> cut a shape in three parts.\<close>

lemma axes_parts_eq:
  assumes "a < b" "b \<le> length xs" "0 \<notin> set xs" "num xs < 2 ^ 32"
  obtains i x ou where "axes_parts xs (map int [a..<b]) = Some (i, x, ou)"
    "unat i = num (take a xs)" "unat x = num (drop a (take b xs))" "unat ou = num (drop b xs)"
proof -
  have p: "num (take a xs) * num (drop a (take b xs)) * num (drop b xs) = num xs" using assms(1) by (intro num_part) simp
  have pos: "1 \<le> num ys" if "set ys \<subseteq> set xs" for ys
    using that assms(3) by (intro num_pos) auto
  have ge: "1 \<le> num (take a xs)" "1 \<le> num (drop a (take b xs))" "1 \<le> num (drop b xs)"
    by (intro pos; meson set_take_subset set_drop_subset order_trans)+
  have "num (take a xs) \<le> num xs" "num (drop a (take b xs)) \<le> num xs" "num (drop b xs) \<le> num xs"
    unfolding p[symmetric] using ge by (simp_all add: mult.assoc)
  then have lt: "num (take a xs) < 2 ^ 32" "num (drop a (take b xs)) < 2 ^ 32" "num (drop b xs) < 2 ^ 32"
    using assms(4) by linarith+
  have nz: "xs ! k \<noteq> 0" if "k < length xs" for k using assms(3) that by (metis nth_mem)
  obtain i where i: "size_at_product xs [0..<a] 1 = Some i" "unat i = num (take a xs)"
    using size_at_product_eq[of "[0..<a]" xs 1] assms nz lt(1) by (auto simp: map_nth_upt)
  obtain x where x: "size_at_product xs [a..<b] 1 = Some x" "unat x = num (drop a (take b xs))"
    using size_at_product_eq[of "[a..<b]" xs 1] assms nz lt(2) by (auto simp: map_nth_upt)
  obtain ou where ou: "size_at_product xs [b..<length xs] 1 = Some ou" "unat ou = num (drop b xs)"
    using size_at_product_eq[of "[b..<length xs]" xs 1] assms nz lt(3) by (auto simp: map_nth_upt)
  have l: "nat (int (b - 1) + 1) = b" using assms(1) by simp
  have "axes_parts xs (map int [a..<b]) = Some (i, x, ou)"
    using assms(1) i x ou l by (simp add: axes_parts_def axis_product_eq)
  then show thesis using that i x ou by blast
qed


subsection \<open>Chaining the writes\<close>

lemma take_fill_chain:
  "take r a = p \<Longrightarrow> r + length vals \<le> length a \<Longrightarrow> take (r + length vals) (fill_at a r vals) = p @ vals"
  by (simp add: take_fill_at)

lemma write_axes_eq:
  "i + n \<le> length ax \<Longrightarrow>
   \<exists>ax'. write_axes ax i n r = Some ax' \<and> length ax' = length ax \<and> take i ax' = take i ax \<and>
     (\<forall>k < n. ax' ! (i + k) = r + int (i + k))"
proof (induction n arbitrary: i ax)
  case (Suc n)
  then obtain ax' where ax': "write_axes (ax[i := r + int i]) (Suc i) n r = Some ax'" "length ax' = length ax"
    "take (Suc i) ax' = take (Suc i) (ax[i := r + int i])" "\<forall>k < n. ax' ! (Suc i + k) = r + int (Suc i + k)"
    using Suc.IH[of "Suc i" "ax[i := r + int i]"] by auto
  have t: "take i ax' = take i ax"
    using arg_cong[OF ax'(3), of "take i"] by (simp add: min_def)
  have "ax' ! i = r + int i"
    using arg_cong[OF ax'(3), of "\<lambda>xs. xs ! i"] Suc.prems ax'(2) by simp
  then have "ax' ! (i + k) = r + int (i + k)" if "k < Suc n" for k
    using ax'(4) that by (cases k) auto
  then show ?case using ax' t Suc.prems by auto
qed simp

lemma write_axes_upt:
  assumes "n \<le> length ax"
  obtains ax' where "write_axes ax 0 n (int r) = Some ax'" "take n ax' = map int [r..<r + n]"
proof -
  obtain ax' where "write_axes ax 0 n (int r) = Some ax'" "length ax' = length ax" "\<forall>k < n. ax' ! k = int r + int k"
    using write_axes_eq[of 0 n ax "int r"] assms by auto
  then show thesis using assms by (intro that[of ax']) (auto intro!: nth_equalityI)
qed

lemma fill_axes_spec:
  assumes r: "unat r + 1 < length a" "unat r + 2 < 2 ^ 32" and ax: "2 \<le> length ax"
  obtains vals ax' where
    "fill_axes a r s ax = Some (fill_at a (unat r) vals, r + of_nat (length vals), ax', of_nat (length vals))"
    "1 \<le> length vals" "length vals \<le> 2" "num vals = unat s"
    "take (length vals) ax' = map int [unat r..<unat r + length vals]"
proof -
  have W: "1 < GPU_TENSOR_MAX_WIDTH" by (simp add: GPU_TENSOR_MAX_WIDTH_def)
  obtain vals where v: "element_fill_dim a r GPU_TENSOR_MAX_WIDTH s = Some (of_nat (length vals), fill_at a (unat r) vals)"
    "length vals \<le> 2" "num vals = unat s" "vals = [] \<longleftrightarrow> s = 1"
    using element_fill_spec[OF W r] by metis
  show thesis
  proof (cases "vals = []")
    case True
    obtain x xs where axx: "ax = x # xs" using ax by (cases ax) auto
    show thesis using True v r ax that[of "[1]" "ax[0 := int (unat r)]"]
      by (simp add: fill_axes_def fill_at_one axx)
  next
    case False
    have n: "length vals \<le> length ax" using v(2) ax by simp
    obtain ax' where ax': "write_axes ax 0 (length vals) (int (unat r)) = Some ax'"
      "take (length vals) ax' = map int [unat r..<unat r + length vals]"
      using write_axes_upt[OF n] by blast
    have u: "unat (of_nat (length vals) :: vsi_size_t) = length vals"
      using v(2) by (simp add: unat_of_nat take_bit_nat_eq_self)
    moreover have "(of_nat (length vals) :: vsi_size_t) \<noteq> 0"
      using u False by (metis length_0_conv unat_0)
    ultimately show thesis using v ax' False that[of vals ax'] by (simp add: fill_axes_def Suc_le_eq)
  qed
qed

lemma avoid_1d_spec:
  assumes "2 \<le> length a" "unat r \<le> length a" "unat r \<le> 8"
  obtains ones r' where "avoid_1d a r = Some (fill_at a (unat r) ones, of_nat r')" "r' = unat r + length ones"
    "set ones \<subseteq> {1}" "2 \<le> r'" "r' \<le> max 2 (unat r)"
proof -
  consider "r = 0" | "r = 1" | "2 \<le> unat r"
    using unat_eq_iff[of r 0] unat_eq_iff[of r 1] by fastforce
  then show thesis
  proof cases
    case 1
    then have "avoid_1d a r = Some (fill_at a (unat r) [1, 1], of_nat 2)"
      using assms fill_at_two[of 0 a 1 1] by (auto simp: avoid_1d_def wr_def)
    then show thesis using 1 that[of "[1, 1]" 2] by simp
  next
    case 2
    then show thesis using assms that[of "[1]" 2] fill_at_one[of 1 a 1] by (simp add: avoid_1d_def)
  next
    case 3
    then have "r \<noteq> 0" "r \<noteq> 1" by auto
    then show thesis using 3 that[of "[]" "unat r"] by (simp add: avoid_1d_def)
  qed
qed

lemma num_ones: "set xs \<subseteq> {1} \<Longrightarrow> num xs = 1"
  by (induction xs) auto


lemma unat_small: "k < 2 ^ 32 \<Longrightarrow> unat (of_nat k :: vsi_size_t) = k"
  by (simp add: unat_of_nat take_bit_nat_eq_self)

text \<open>
  The shape that is left after an inner part, the axes and an outer part are written one
  behind the other, and the rank is at least 2.
\<close>

lemma fill_three:
  fixes a :: "vsi_size_t list"
  assumes "8 \<le> length a" "length ins \<le> 2" "length ax \<le> 2" "length os \<le> 2"
  defines "x \<equiv> fill_at (fill_at (fill_at a 0 ins) (length ins) ax) (length ins + length ax) os"
  obtains ones b r where "avoid_1d x (of_nat (length ins + length ax + length os)) = Some (b, of_nat r)"
    "take r b = ins @ ax @ os @ ones" "set ones \<subseteq> {1}" "2 \<le> r" "r \<le> 6"
proof -
  let ?n = "length ins + length ax + length os"
  have l: "length x = length a" using assms(1-4) by (simp add: x_def)
  have t1: "take (length ins) (fill_at a 0 ins) = ins" using take_fill_at[of 0 ins a] assms(1,2) by simp
  have t2: "take (length ins + length ax) (fill_at (fill_at a 0 ins) (length ins) ax) = ins @ ax"
    using take_fill_chain[OF t1, of ax] assms(1-3) by simp
  have t3: "take ?n x = ins @ ax @ os"
    unfolding x_def using take_fill_chain[OF t2, of os] assms(1-4) by simp
  have u: "unat (of_nat ?n :: vsi_size_t) = ?n" using assms(2-4) by (intro unat_small) simp
  have "2 \<le> length x" "unat (of_nat ?n :: vsi_size_t) \<le> length x" "unat (of_nat ?n :: vsi_size_t) \<le> 8"
    using l assms(1-4) u by linarith+
  from avoid_1d_spec[OF this] obtain ones r where
    o: "avoid_1d x (of_nat ?n) = Some (fill_at x ?n ones, of_nat r)" "r = ?n + length ones" "set ones \<subseteq> {1}"
      "2 \<le> r" "r \<le> max 2 ?n"
    unfolding u by blast
  have "?n + length ones \<le> length x" using o(2,5) l assms(1-4) by linarith
  then have "take r (fill_at x ?n ones) = ins @ ax @ os @ ones"
    using take_fill_chain[OF t3, of ones] o(2) by simp
  moreover have "r \<le> 6" using o(5) assms(2-4) by linarith
  ultimately show thesis using that o by blast
qed

lemma width_gt_1: "1 < GPU_TENSOR_MAX_WIDTH"
  by (simp add: GPU_TENSOR_MAX_WIDTH_def)

lemma tensor_shape_parts:
  assumes "a < b" "b \<le> length xs" "0 \<notin> set xs" "num xs < 2 ^ 32" "8 \<le> length out" "2 \<le> length oax"
  obtains out' r oax' ins ax os where
    "optimize_tensor_shape xs (map int [a..<b]) out oax = Some (out', of_nat r, oax', of_nat (length ax))"
    "2 \<le> r" "r \<le> 6" "take r out' = ins @ ax @ os" "ax \<noteq> []" "length ax \<le> 2"
    "num ins = num (take a xs)" "num ax = num (drop a (take b xs))" "num os = num (drop b xs)"
    "take (length ax) oax' = map int [length ins..<length ins + length ax]"
proof -
  obtain i x ou where p: "axes_parts xs (map int [a..<b]) = Some (i, x, ou)"
    "unat i = num (take a xs)" "unat x = num (drop a (take b xs))" "unat ou = num (drop b xs)"
    using axes_parts_eq[OF assms(1-4)] by metis
  obtain ins where I: "element_fill_dim out 0 GPU_TENSOR_MAX_WIDTH i = Some (of_nat (length ins), fill_at out 0 ins)"
    "length ins \<le> 2" "num ins = unat i"
    using element_fill_spec[OF width_gt_1, of 0 out i] assms(5) by auto
  have uI: "unat (of_nat (length ins) :: vsi_size_t) = length ins" using I(2) by (intro unat_small) simp
  let ?x1 = "fill_at out 0 ins"
  obtain ax oax' where A: "fill_axes ?x1 (of_nat (length ins)) x oax =
      Some (fill_at ?x1 (length ins) ax, of_nat (length ins) + of_nat (length ax), oax', of_nat (length ax))"
    "1 \<le> length ax" "length ax \<le> 2" "num ax = unat x"
    "take (length ax) oax' = map int [length ins..<length ins + length ax]"
    using fill_axes_spec[of "of_nat (length ins)" ?x1 oax x] assms(5,6) I(2) uI by auto
  let ?n2 = "length ins + length ax" and ?x2 = "fill_at ?x1 (length ins) ax"
  have uA: "unat (of_nat ?n2 :: vsi_size_t) = ?n2" using I(2) A(3) by (intro unat_small) simp
  have "unat (of_nat ?n2 :: vsi_size_t) + 1 < length ?x2" "unat (of_nat ?n2 :: vsi_size_t) + 2 < 2 ^ 32"
    unfolding uA using I(2) A(3) assms(5) by simp_all
  from element_fill_spec[OF width_gt_1 this, of ou] obtain os where
    O: "element_fill_dim ?x2 (of_nat ?n2) GPU_TENSOR_MAX_WIDTH ou = Some (of_nat (length os), fill_at ?x2 ?n2 os)"
      "length os \<le> 2" "num os = unat ou"
    unfolding uA by metis
  obtain ones x4 r where F: "avoid_1d (fill_at ?x2 ?n2 os) (of_nat (?n2 + length os)) = Some (x4, of_nat r)"
    "take r x4 = ins @ ax @ os @ ones" "set ones \<subseteq> {1}" "2 \<le> r" "r \<le> 6"
    by (rule fill_three[OF assms(5) I(2) A(3) O(2)]) (rule that; assumption)
  have "optimize_tensor_shape xs (map int [a..<b]) out oax = Some (x4, of_nat r, oax', of_nat (length ax))"
    using p(1) I(1) A(1) O(1) F(1) by (simp add: optimize_tensor_shape_def)
  moreover have "ax \<noteq> []" using A(2) by auto
  moreover have "num (os @ ones) = num (drop b xs)" using O(3) p(4) num_ones[OF F(3)] by simp
  ultimately show thesis
    using F(2,4,5) A(3) A(4)[unfolded p(3)] I(3)[unfolded p(2)] A(5)
    by (intro that[of x4 r oax' ax ins "os @ ones"])
qed


lemma fill_outer:
  assumes n: "unat (of_nat n :: vsi_size_t) = n" "n \<le> 4" and a: "8 \<le> length a" and m: "1 < m"
  obtains os where "element_fill_dim a (of_nat n) m s = Some (of_nat (length os), fill_at a n os)"
    "length os \<le> 2" "num os = unat s"
proof -
  have "unat (of_nat n :: vsi_size_t) + 1 < length a" "unat (of_nat n :: vsi_size_t) + 2 < 2 ^ 32"
    unfolding n(1) using n(2) a by simp_all
  from element_fill_spec[OF m this, of s] show thesis using that unfolding n(1) by metis
qed

lemma reduce_shape_parts:
  assumes "a < b" "b \<le> length xs" "0 \<notin> set xs" "num xs < 2 ^ 32"
    "8 \<le> length out" "8 \<le> length out2" "2 \<le> length oax"
  obtains out' r oax' ins ax os out2' r2 ins2 os2 where
    "optimize_reduce_shape xs (map int [a..<b]) out out2 oax =
       Some (out', of_nat r, out2', of_nat r2, oax', of_nat (length ax))"
    "2 \<le> r" "r \<le> 6" "take r out' = ins @ ax @ os" "ax \<noteq> []" "length ax \<le> 2"
    "num ins = num (take a xs)" "num ax = num (drop a (take b xs))" "num os = num (drop b xs)"
    "take (length ax) oax' = map int [length ins..<length ins + length ax]"
    "2 \<le> r2" "r2 \<le> 6" "take r2 out2' = ins2 @ os2" "num ins2 = num (take a xs)" "num os2 = num (drop b xs)"
proof -
  obtain i x ou where p: "axes_parts xs (map int [a..<b]) = Some (i, x, ou)"
    "unat i = num (take a xs)" "unat x = num (drop a (take b xs))" "unat ou = num (drop b xs)"
    using axes_parts_eq[OF assms(1-4)] by metis
  obtain out' r oax' ins ax os where t:
    "optimize_tensor_shape xs (map int [a..<b]) out oax = Some (out', of_nat r, oax', of_nat (length ax))"
    "2 \<le> r" "r \<le> 6" "take r out' = ins @ ax @ os" "ax \<noteq> []" "length ax \<le> 2"
    "num ins = num (take a xs)" "num ax = num (drop a (take b xs))" "num os = num (drop b xs)"
    "take (length ax) oax' = map int [length ins..<length ins + length ax]"
    by (rule tensor_shape_parts[OF assms(1-5,7)]) (rule that; assumption)
  obtain is2 where I: "element_fill_dim out2 0 GPU_TENSOR_MAX_WIDTH i = Some (of_nat (length is2), fill_at out2 0 is2)"
    "length is2 \<le> 2" "num is2 = unat i"
    using fill_outer[of 0 out2 GPU_TENSOR_MAX_WIDTH i] assms(6) width_gt_1 by auto
  let ?x1 = "fill_at out2 0 is2" and ?n = "length is2"
  have n: "unat (of_nat ?n :: vsi_size_t) = ?n" "?n \<le> 4" "8 \<le> length ?x1"
    using I(2) assms(6) by (simp_all add: unat_small)
  obtain os2 where O: "element_fill_dim ?x1 (of_nat ?n) GPU_TENSOR_MAX_WIDTH ou = Some (of_nat (length os2), fill_at ?x1 ?n os2)"
    "length os2 \<le> 2" "num os2 = unat ou"
    by (rule fill_outer[OF n width_gt_1]) (rule that; assumption)
  have ne: "length ([] :: vsi_size_t list) \<le> 2" by simp
  obtain ones x4 r2 where F: "avoid_1d (fill_at (fill_at ?x1 ?n []) (?n + length ([] :: vsi_size_t list)) os2)
      (of_nat (?n + length ([] :: vsi_size_t list) + length os2)) = Some (x4, of_nat r2)"
    "take r2 x4 = is2 @ [] @ os2 @ ones" "set ones \<subseteq> {1}" "2 \<le> r2" "r2 \<le> 6"
    by (rule fill_three[OF assms(6) I(2) ne O(2)]) (rule that; assumption)
  note F = F[unfolded fill_at_Nil list.size(3) add_0_right append_Nil of_nat_add]
  have "optimize_reduce_shape xs (map int [a..<b]) out out2 oax =
       Some (out', of_nat r, x4, of_nat r2, oax', of_nat (length ax))"
    using t(1) p(1) I(1) O(1) F(1)
    by (auto simp: optimize_tensor_shape_def optimize_reduce_shape_def)
  moreover have "num (os2 @ ones) = num (drop b xs)" using O(3) p(4) num_ones[OF F(3)] by simp
  ultimately show thesis
    using t(2-10) F(2,4,5) I(3)[unfolded p(2)]
    by (intro that[of out' r x4 r2 oax' ax ins os is2 "os2 @ ones"])
qed

lemma scatter_shape_parts:
  assumes "a < length xs" "0 \<notin> set xs" "num xs < 2 ^ 32" "8 \<le> length out" "1 < m"
  obtains out' r ins ax os where
    "optimize_scatter_elements_shape xs (int a) out m = Some (out', of_nat r, int (length ins))"
    "2 \<le> r" "r \<le> 6" "take r out' = ins @ ax @ os" "ax \<noteq> []" "length ax \<le> 2"
    "num ins = num (take a xs)" "num ax = unat (xs ! a)" "num os = num (drop (Suc a) xs)"
    "length ax = 1 \<Longrightarrow> ax ! 0 = xs ! a" "length ax = 2 \<Longrightarrow> m \<le> xs ! a"
proof -
  have "a < Suc a" "Suc a \<le> length xs" using assms(1) by simp_all
  from axes_parts_eq[OF this assms(2,3)] obtain i x ou where
    p: "axes_parts xs (map int [a..<Suc a]) = Some (i, x, ou)"
    "unat i = num (take a xs)" "unat x = num (drop a (take (Suc a) xs))" "unat ou = num (drop (Suc a) xs)"
    by metis
  have q: "size_at_product xs [0..<a] 1 = Some i" "x = xs ! a" "size_at_product xs [Suc a..<length xs] 1 = Some ou"
    using p(1) assms(1) by (auto simp: axes_parts_def nat_add_distrib)
  obtain ins where I: "element_fill_dim out 0 m i = Some (of_nat (length ins), fill_at out 0 ins)"
    "length ins \<le> 2" "num ins = unat i"
    using fill_outer[of 0 out m i] assms(4,5) by auto
  let ?x1 = "fill_at out 0 ins" and ?n = "length ins"
  have n: "unat (of_nat ?n :: vsi_size_t) = ?n" "?n \<le> 4" "8 \<le> length ?x1"
    using I(2) assms(4) by (simp_all add: unat_small)
  have b: "unat (of_nat ?n :: vsi_size_t) + 1 < length ?x1" "unat (of_nat ?n :: vsi_size_t) + 2 < 2 ^ 32"
    unfolding n(1) using I(2) n(3) by simp_all
  obtain as where A: "element_fill_dim ?x1 (of_nat ?n) m x = Some (of_nat (length as), fill_at ?x1 ?n as)"
    "length as \<le> 2" "num as = unat x" "as = [] \<longleftrightarrow> x = 1"
    "length as = 2 \<Longrightarrow> m \<le> x" "length as = 1 \<Longrightarrow> as ! 0 = x"
    using element_fill_spec[OF assms(5) b, of x, unfolded n(1)] by metis
  define ax where "ax = (if as = [] then [1] else as)"
  have ax: "ax \<noteq> []" "length ax \<le> 2" "num ax = unat x" "length ax = 2 \<Longrightarrow> m \<le> x"
    "length ax = 1 \<Longrightarrow> ax ! 0 = x"
    using A by (auto simp: ax_def)
  let ?x2 = "fill_at ?x1 ?n ax" and ?n2 = "?n + length ax"
  have u0: "(of_nat (length as) :: vsi_size_t) = 0 \<longleftrightarrow> as = []"
  proof -
    have u: "unat (of_nat (length as) :: vsi_size_t) = length as" using A(2) by (intro unat_small) simp
    have "as = []" if "(of_nat (length as) :: vsi_size_t) = 0"
      using arg_cong[OF that, of unat] unfolding u unat_0 by (simp only: length_0_conv)
    moreover have "(of_nat (length as) :: vsi_size_t) = 0" if "as = []" unfolding that by simp
    ultimately show ?thesis by (rule iffI)
  qed
  have mid: "(if (of_nat (length as) :: vsi_size_t) = 0
        then do { b \<leftarrow> wr (fill_at ?x1 ?n as) (unat (of_nat ?n :: vsi_size_t)) 1; Some (b, (of_nat ?n :: vsi_size_t) + 1) }
        else Some (fill_at ?x1 ?n as, of_nat ?n)) = Some (?x2, of_nat ?n2 - of_nat (length as))"
  proof (cases "as = []")
    case True
    have "wr ?x1 ?n 1 = Some (fill_at ?x1 ?n [1])"
      using b(1) unfolding n(1) by (simp only: wr_Some fill_at_one)
    then show ?thesis using True unfolding n(1) by (simp add: ax_def)
  next
    case False
    then have "(of_nat (length as) :: vsi_size_t) \<noteq> 0" using u0 by simp
    with False show ?thesis by (simp add: ax_def)
  qed
  have n2: "unat (of_nat ?n2 :: vsi_size_t) = ?n2" "?n2 \<le> 4" "8 \<le> length ?x2"
  proof -
    show "unat (of_nat ?n2 :: vsi_size_t) = ?n2" using I(2) ax(2) by (intro unat_small) simp
  qed (use I(2) ax(2) assms(4) in simp_all)
  obtain os where O: "element_fill_dim ?x2 (of_nat ?n2) m ou = Some (of_nat (length os), fill_at ?x2 ?n2 os)"
    "length os \<le> 2" "num os = unat ou"
    by (rule fill_outer[OF n2 assms(5)]) (rule that; assumption)
  obtain ones x4 r where F: "avoid_1d (fill_at ?x2 ?n2 os) (of_nat (?n2 + length os)) = Some (x4, of_nat r)"
    "take r x4 = ins @ ax @ os @ ones" "set ones \<subseteq> {1}" "2 \<le> r" "r \<le> 6"
    by (rule fill_three[OF assms(4) I(2) ax(2) O(2)]) (rule that; assumption)
  have ui: "uint (of_nat ?n :: vsi_size_t) = int ?n" unfolding uint_nat n(1) by (rule refl)
  have "optimize_scatter_elements_shape xs (int a) out m = Some (x4, of_nat r, int ?n)"
    using assms(1) q(1,2,3) I(1) A(1) mid O(1) F(1) n(1) ui
    by (simp add: optimize_scatter_elements_shape_def nat_add_distrib)
  moreover have "num (os @ ones) = num (drop (Suc a) xs)" using O(3) p(4) num_ones[OF F(3)] by simp
  ultimately show thesis
    using F(2,4,5) ax[unfolded q(2)] I(3)[unfolded p(2)]
    by (intro that[of x4 r ins ax "os @ ones"])
qed


subsection \<open>The properties of the merged shapes\<close>

text \<open>
  C10: \<open>vsi_nn_kernel_optimize_reduce_shape\<close> on contiguous axes: the shape of the input is
  an inner part, the axes and an outer part that have the numbers of elements of the
  dimensions before, on and after the axes, the returned axes name exactly the middle part
  (which is never empty), the shape of the output is the inner and the outer part, and both
  ranks are between 2 and 6.
\<close>

theorem reduce_shape_sound:
  assumes "a < b" "b \<le> length xs" "0 \<notin> set xs" "num xs < 2 ^ 32"
    "8 \<le> length out" "8 \<le> length out2" "2 \<le> length oax"
  shows "\<exists>out' r oax' ins ax os out2' r2 ins2 os2.
    optimize_reduce_shape xs (map int [a..<b]) out out2 oax =
      Some (out', of_nat r, out2', of_nat r2, oax', of_nat (length ax)) \<and>
    2 \<le> r \<and> r \<le> 6 \<and> take r out' = ins @ ax @ os \<and> ax \<noteq> [] \<and>
    num ins = num (take a xs) \<and> num ax = num (drop a (take b xs)) \<and> num os = num (drop b xs) \<and>
    take (length ax) oax' = map int [length ins..<length ins + length ax] \<and>
    2 \<le> r2 \<and> r2 \<le> 6 \<and> take r2 out2' = ins2 @ os2 \<and>
    num ins2 = num (take a xs) \<and> num os2 = num (drop b xs)"
  by (rule reduce_shape_parts[OF assms]) (intro exI conjI; assumption)

theorem reduce_shape_sound_witness:
  "\<exists>out' r oax' ins ax os out2' r2 ins2 os2.
    optimize_reduce_shape [70000, 3, 5, 7] (map int [1..<3]) (replicate 8 0) (replicate 8 0) [0, 0] =
      Some (out', of_nat r, out2', of_nat r2, oax', of_nat (length ax)) \<and>
    2 \<le> r \<and> r \<le> 6 \<and> take r out' = ins @ ax @ os \<and> ax \<noteq> [] \<and>
    num ins = num (take 1 [70000, 3, 5, 7]) \<and> num ax = num (drop 1 (take 3 [70000, 3, 5, 7])) \<and>
    num os = num (drop 3 [70000, 3, 5, 7]) \<and>
    take (length ax) oax' = map int [length ins..<length ins + length ax] \<and>
    2 \<le> r2 \<and> r2 \<le> 6 \<and> take r2 out2' = ins2 @ os2 \<and>
    num ins2 = num (take 1 [70000, 3, 5, 7]) \<and> num os2 = num (drop 3 [70000, 3, 5, 7])"
  by (rule reduce_shape_sound) simp_all

text \<open>
  \<open>vsi_nn_kernel_optimize_softmax_shape\<close> returns an inner part, the axis and an outer
  part with the right numbers of elements, and the position of the axis. An axis that is
  narrower than the GPU limit stays one dimension of its own size; a wider one may become
  two dimensions, of which the returned axis names the first.
\<close>

theorem softmax_shape_sound:
  assumes "a < length xs" "0 \<notin> set xs" "num xs < 2 ^ 32" "8 \<le> length out"
  shows "\<exists>out' r ins ax os.
    optimize_softmax_shape xs (int a) out = Some (out', of_nat r, int (length ins)) \<and>
    2 \<le> r \<and> r \<le> 6 \<and> take r out' = ins @ ax @ os \<and>
    num ins = num (take a xs) \<and> num ax = unat (xs ! a) \<and> num os = num (drop (Suc a) xs) \<and>
    (length ax = 1 \<or> length ax = 2 \<and> GPU_TENSOR_MAX_WIDTH \<le> xs ! a)"
proof (rule scatter_shape_parts[OF assms width_gt_1])
  fix out' r ins ax os
  assume h: "optimize_scatter_elements_shape xs (int a) out GPU_TENSOR_MAX_WIDTH =
      Some (out', of_nat r, int (length ins))" "2 \<le> r" "r \<le> 6" "take r out' = ins @ ax @ os" "ax \<noteq> []"
    "length ax \<le> 2" "num ins = num (take a xs)" "num ax = unat (xs ! a)" "num os = num (drop (Suc a) xs)"
    and w: "length ax = 2 \<Longrightarrow> GPU_TENSOR_MAX_WIDTH \<le> xs ! a"
  have "length ax \<noteq> 0" using h(5) by simp
  then have "length ax = 1 \<or> length ax = 2 \<and> GPU_TENSOR_MAX_WIDTH \<le> xs ! a"
    using h(6) w by linarith
  with h show ?thesis unfolding optimize_softmax_shape_def by - (intro exI conjI; assumption)
qed

theorem softmax_shape_sound_witness:
  "\<exists>out' r ins ax os.
    optimize_softmax_shape [2, 70000, 5] (int 1) (replicate 8 0) = Some (out', of_nat r, int (length ins)) \<and>
    2 \<le> r \<and> r \<le> 6 \<and> take r out' = ins @ ax @ os \<and>
    num ins = num (take 1 [2, 70000, 5]) \<and> num ax = unat ([2, 70000, 5] ! 1 :: vsi_size_t) \<and>
    num os = num (drop (Suc 1) [2, 70000, 5]) \<and>
    (length ax = 1 \<or> length ax = 2 \<and> GPU_TENSOR_MAX_WIDTH \<le> [2, 70000, 5] ! 1)"
  by (rule softmax_shape_sound) simp_all

end
