(* ===== verification/Kernel_Tile.thy ===== *)
theory Kernel_Tile
  imports Kernel_Gpu_Shape
begin

text \<open>
  The tile optimizer \<open>vsi_nn_kernel_optimize_tile_shape\<close> of
  \<^verbatim>\<open>src/tim/vx/internal/src/kernel/vsi_nn_kernel_gpu_shape_optimize.c\<close>. A first
  loop merges, in place in three temporary arrays, the runs of dimensions of which the input
  has only one element; a second loop merges the dimensions that are not repeated and writes
  the result. The three arrays hold the sizes of the input, the multiples and the sizes of
  the output.
\<close>

type_synonym shapes3 = "vsi_size_t list \<times> vsi_size_t list \<times> vsi_size_t list"

definition write3 :: "shapes3 \<Rightarrow> nat \<Rightarrow> vsi_size_t \<Rightarrow> vsi_size_t \<Rightarrow> vsi_size_t \<Rightarrow> shapes3 option" where
  "write3 arrs rank sx sy sz = (case arrs of (xs, ys, zs) \<Rightarrow> do {
     xs' \<leftarrow> wr xs rank sx;
     ys' \<leftarrow> wr ys rank sy;
     zs' \<leftarrow> wr zs rank sz;
     Some (xs', ys', zs') })"

text \<open>The result is the new rank, on 32 bits, with the arrays.\<close>

definition tile_fill_dim ::
  "shapes3 \<Rightarrow> nat \<Rightarrow> vsi_size_t \<Rightarrow> vsi_size_t \<Rightarrow> vsi_size_t \<Rightarrow> (nat \<times> shapes3) option" where
  "tile_fill_dim arrs rank size_x size_y size_output =
     (let plain = map_option (Pair (rank + 1)) (write3 arrs rank size_x size_y size_output)
      in if size_output < GPU_TENSOR_MAX_WIDTH then plain
         else case compute_gpu_divisor size_output GPU_TENSOR_MAX_WIDTH 1 of
           None \<Rightarrow> Some ((rank + 2 ^ 32 - 1) mod 2 ^ 32, arrs)
         | Some divisor \<Rightarrow>
             let remainder = size_output div divisor
             in if remainder > GPU_TENSOR_MAX_WIDTH \<or> rank \<ge> MAX_DIM_NUM then plain
                else do {
                  a \<leftarrow> write3 arrs rank (if size_x > 1 then divisor else 1)
                         (if size_y > 1 then divisor else 1) divisor;
                  b \<leftarrow> write3 a (rank + 1) (if size_x > 1 then remainder else 1)
                         (if size_y > 1 then remainder else 1) remainder;
                  Some (rank + 2, b) })"

subsection \<open>The first loop\<close>

definition run_size :: "vsi_size_t list \<Rightarrow> nat \<Rightarrow> nat \<Rightarrow> vsi_size_t option" where
  "run_size a idx_start idx_end = do {
     v \<leftarrow> rd a idx_start;
     size_at_product a [Suc idx_start..<Suc idx_end] v }"

record tile_state =
  tl_arrs :: shapes3
  tl_rank :: nat
  tl_start :: "nat option"

definition run_sizes :: "shapes3 \<Rightarrow> nat \<Rightarrow> nat \<Rightarrow> (vsi_size_t \<times> vsi_size_t) option" where
  "run_sizes arrs idx_start idx_end = (case arrs of (xs, ys, zs) \<Rightarrow> do {
     sy \<leftarrow> run_size ys idx_start idx_end;
     sz \<leftarrow> run_size zs idx_start idx_end;
     Some (sy, sz) })"

definition copy_dim :: "shapes3 \<Rightarrow> nat \<Rightarrow> nat \<Rightarrow> shapes3 option" where
  "copy_dim arrs i rank = (case arrs of (xs, ys, zs) \<Rightarrow> do {
     sx \<leftarrow> rd xs i;
     sy \<leftarrow> rd ys i;
     sz \<leftarrow> rd zs i;
     write3 arrs rank sx sy sz })"

definition tile_last_step :: "nat \<Rightarrow> tile_state \<Rightarrow> tile_state option" where
  "tile_last_step i st = do {
     (r, arrs) \<leftarrow> (case tl_start st of
         Some idx_start \<Rightarrow> do {
           (sy, sz) \<leftarrow> run_sizes (tl_arrs st) idx_start i;
           tile_fill_dim (tl_arrs st) (tl_rank st) 1 sy sz }
       | None \<Rightarrow> do {
           arrs \<leftarrow> copy_dim (tl_arrs st) i (tl_rank st);
           Some (tl_rank st + 1, arrs) });
     if r = 1 then Some (st\<lparr>tl_arrs := arrs, tl_rank := r, tl_start := None\<rparr>)
     else do {
       sz \<leftarrow> rd (snd (snd arrs)) ((r + 2 ^ 32 - 1) mod 2 ^ 32);
       Some (st\<lparr>tl_arrs := arrs, tl_rank := (if sz = 1 then r - 1 else r), tl_start := None\<rparr>) } }"

definition tile_copy_step :: "nat \<Rightarrow> tile_state \<Rightarrow> tile_state option" where
  "tile_copy_step i st = do {
     (r, arrs) \<leftarrow> (case tl_start st of
         Some idx_start \<Rightarrow> do {
           (sy, sz) \<leftarrow> run_sizes (tl_arrs st) idx_start (i - 1);
           if sz \<noteq> 1 then tile_fill_dim (tl_arrs st) (tl_rank st) 1 sy sz
           else Some (tl_rank st, tl_arrs st) }
       | None \<Rightarrow> Some (tl_rank st, tl_arrs st));
     arrs' \<leftarrow> copy_dim arrs i r;
     Some (st\<lparr>tl_arrs := arrs', tl_rank := r + 1, tl_start := None\<rparr>) }"

definition tile_step :: "nat \<Rightarrow> nat \<Rightarrow> tile_state \<Rightarrow> tile_state option" where
  "tile_step rank_output i st = do {
     x \<leftarrow> rd (fst (tl_arrs st)) i;
     if i = rank_output - 1 \<and> x = 1 then tile_last_step i st
     else if x \<noteq> 1 then tile_copy_step i st
     else if tl_start st = None then Some (st\<lparr>tl_start := Some i\<rparr>)
     else Some st }"

fun tile_loop :: "nat \<Rightarrow> nat list \<Rightarrow> tile_state \<Rightarrow> tile_state option" where
  "tile_loop rank_output [] st = Some st"
| "tile_loop rank_output (i # is) st = do {
     st' \<leftarrow> tile_step rank_output i st;
     tile_loop rank_output is st' }"

subsection \<open>The second loop\<close>

datatype tile_axis_state = Tile_Axis_X | Tile_No_Axis | Tile_Empty

record pack_state =
  pk_arrs :: shapes3
  pk_dims :: nat
  pk_x :: vsi_size_t
  pk_y :: vsi_size_t
  pk_z :: vsi_size_t

definition next_axis_state :: "vsi_size_t list \<Rightarrow> nat \<Rightarrow> nat \<Rightarrow> tile_axis_state option" where
  "next_axis_state temp_y temp_rank i =
     (if i + 1 < temp_rank then do {
        y \<leftarrow> rd temp_y (i + 1);
        Some (if y = 1 then Tile_No_Axis else Tile_Axis_X) }
      else Some Tile_Empty)"

definition append_dim ::
  "pack_state \<Rightarrow> vsi_size_t \<Rightarrow> vsi_size_t \<Rightarrow> vsi_size_t \<Rightarrow> pack_state option" where
  "append_dim st sx sy sz = do {
     (dims, arrs) \<leftarrow> tile_fill_dim (pk_arrs st) (pk_dims st) sx sy sz;
     Some (st\<lparr>pk_dims := dims, pk_arrs := arrs\<rparr>) }"

definition pack_step ::
  "vsi_size_t \<Rightarrow> vsi_size_t \<Rightarrow> vsi_size_t \<Rightarrow> tile_axis_state \<Rightarrow> pack_state \<Rightarrow> pack_state option" where
  "pack_step sx sy sz next_state st =
     (let merged = st\<lparr>pk_x := pk_x st * sx, pk_y := pk_y st * sy, pk_z := pk_z st * sz\<rparr>
      in if sx = sz then
           (if next_state = Tile_Axis_X
            then append_dim (merged\<lparr>pk_x := 1, pk_y := 1, pk_z := 1\<rparr>)
                   (pk_x merged) (pk_y merged) (pk_z merged)
            else Some merged)
         else if next_state = Tile_Empty then Some (st\<lparr>pk_x := sx, pk_y := sy, pk_z := sz\<rparr>)
         else append_dim st sx sy sz)"

fun pack_loop :: "shapes3 \<Rightarrow> nat \<Rightarrow> nat list \<Rightarrow> pack_state \<Rightarrow> pack_state option" where
  "pack_loop temps temp_rank [] st = Some st"
| "pack_loop temps temp_rank (i # is) st = (case temps of (tx, ty, tz) \<Rightarrow> do {
     sx \<leftarrow> rd tx i;
     sy \<leftarrow> rd ty i;
     sz \<leftarrow> rd tz i;
     next_state \<leftarrow> next_axis_state ty temp_rank i;
     st' \<leftarrow> pack_step sx sy sz next_state st;
     pack_loop temps temp_rank is st' })"

definition copy_prefix :: "nat \<Rightarrow> vsi_size_t list \<Rightarrow> vsi_size_t list \<Rightarrow> vsi_size_t list option" where
  "copy_prefix n src dst =
     (if n \<le> length src \<and> n \<le> length dst then Some (take n src @ drop n dst) else None)"

text \<open>
  The flag \<open>mem\<close> says whether the three allocations succeed; \<open>Some None\<close> is the return of
  \<open>FALSE\<close>.
\<close>

definition optimize_tile_shape ::
  "bool \<Rightarrow> vsi_size_t list \<Rightarrow> vsi_size_t list \<Rightarrow> vsi_size_t list \<Rightarrow> shapes3 \<Rightarrow> (shapes3 \<times> nat) option option" where
  "optimize_tile_shape mem shape_x multiples shape_output out =
     (let rank = length multiples; rank_output = length shape_output
      in if list_ex (\<lambda>s. s > GPU_TENSOR_MAX_WIDTH) shape_output then (case out of (ox, oy, oz) \<Rightarrow> do {
           ox' \<leftarrow> copy_prefix rank_output shape_x ox;
           oy' \<leftarrow> copy_prefix rank_output multiples oy;
           oz' \<leftarrow> copy_prefix rank_output shape_output oz;
           Some (Some ((ox', oy', oz'), rank_output)) })
         else if \<not> mem then Some None
         else do {
           tx \<leftarrow> copy_prefix rank shape_x (replicate rank 0);
           ty \<leftarrow> copy_prefix rank multiples (replicate rank 0);
           tz \<leftarrow> copy_prefix rank shape_output (replicate rank 0);
           st \<leftarrow> tile_loop rank_output [0..<rank_output]
             \<lparr>tl_arrs = (tx, ty, tz), tl_rank = 0, tl_start = None\<rparr>;
           pk \<leftarrow> pack_loop (tl_arrs st) (tl_rank st) [0..<tl_rank st]
             \<lparr>pk_arrs = out, pk_dims = 0, pk_x = 1, pk_y = 1, pk_z = 1\<rparr>;
           (dims, arrs) \<leftarrow> tile_fill_dim (pk_arrs pk) (pk_dims pk) (pk_x pk) (pk_y pk) (pk_z pk);
           if dims = 1 then do {
             arrs' \<leftarrow> write3 arrs 1 1 1 1;
             Some (Some (arrs', 2)) }
           else Some (Some (arrs, dims)) })"


subsection \<open>The meaning of a tile shape\<close>

text \<open>
  \<open>tidx ps i\<close> is the position in the input that position \<open>i\<close> of the output reads, for the
  list of pairs (size of the input, size of the output): along every dimension the input is
  repeated.
\<close>

fun tidx :: "(nat \<times> nat) list \<Rightarrow> nat \<Rightarrow> nat" where
  "tidx [] i = 0"
| "tidx ((x, z) # ps) i = i mod z mod x + x * tidx ps (i div z)"

definition same_tile :: "(nat \<times> nat) list \<Rightarrow> (nat \<times> nat) list \<Rightarrow> bool" where
  "same_tile ps qs \<longleftrightarrow> tidx ps = tidx qs \<and> num_in ps = num_in qs \<and> num_out ps = num_out qs"

lemma tidx_append: "tidx (ps @ qs) i = tidx ps i + num_in ps * tidx qs (i div num_out ps)"
  by (induction ps i rule: tidx.induct)
    (auto simp: num_in_def num_out_def algebra_simps div_mult2_eq)

lemma same_tile_refl [simp]: "same_tile ps ps"
  by (simp add: same_tile_def)

lemma same_tile_sym: "same_tile a b \<Longrightarrow> same_tile b a"
  by (simp add: same_tile_def)

lemma same_tile_trans: "same_tile a b \<Longrightarrow> same_tile b c \<Longrightarrow> same_tile a c"
  by (simp add: same_tile_def)

lemma same_tile_append: "same_tile a b \<Longrightarrow> same_tile c d \<Longrightarrow> same_tile (a @ c) (b @ d)"
  by (auto simp: same_tile_def num_append tidx_append fun_eq_iff)

lemma tile_drop_one: "same_tile [(1, 1)] []"
  by (auto simp: same_tile_def num_in_def num_out_def fun_eq_iff)

lemma tile_merge_same: "same_tile [(a, a), (b, b)] [(a * b, a * b)]"
  by (auto simp: same_tile_def num_in_def num_out_def fun_eq_iff mod_mult_split)

lemma tile_merge_one: "same_tile [(1, a), (1, b)] [(1, a * b)]"
  by (auto simp: same_tile_def num_in_def num_out_def fun_eq_iff)

lemma tile_merge_ones: "same_tile (map (Pair 1) ns) [(1, prod_list ns)]"
proof (induction ns)
  case Nil
  then show ?case using same_tile_sym[OF tile_drop_one] by simp
next
  case (Cons n ns)
  have "same_tile (map (Pair 1) (n # ns)) ([(1, n)] @ [(1, prod_list ns)])"
    using same_tile_append[OF same_tile_refl[of "[(1, n)]"] Cons.IH] by simp
  then show ?case using same_tile_trans tile_merge_one[of n "prod_list ns"] by simp
qed

subsection \<open>Three arrays as a list of dimensions\<close>

type_synonym dim3 = "vsi_size_t \<times> vsi_size_t \<times> vsi_size_t"

definition at3 :: "shapes3 \<Rightarrow> nat \<Rightarrow> dim3" where
  "at3 arrs k = (case arrs of (xs, ys, zs) \<Rightarrow> (xs ! k, ys ! k, zs ! k))"

definition len3 :: "nat \<Rightarrow> shapes3 \<Rightarrow> bool" where
  "len3 n arrs = (case arrs of (xs, ys, zs) \<Rightarrow> length xs = n \<and> length ys = n \<and> length zs = n)"

definition dims3 :: "nat \<Rightarrow> shapes3 \<Rightarrow> dim3 list" where
  "dims3 d arrs = map (at3 arrs) [0..<d]"

definition tv :: "dim3 \<Rightarrow> nat \<times> nat" where
  "tv t = (case t of (x, y, z) \<Rightarrow> (unat x, unat z))"

text \<open>
  The size of the output is the size of the input times the multiple; a dimension that is
  too wide for the GPU is only there where the input has one element.
\<close>

definition consistent :: "dim3 \<Rightarrow> bool" where
  "consistent t = (case t of (x, y, z) \<Rightarrow> unat x * unat y = unat z \<and> 0 < z)"

definition narrow :: "dim3 \<Rightarrow> bool" where
  "narrow t = (case t of (x, y, z) \<Rightarrow> x = 1 \<or> z < GPU_TENSOR_MAX_WIDTH)"

lemmas dim_simps = tv_def consistent_def narrow_def at3_def len3_def

lemma write3_ok:
  assumes "len3 n arrs" "r < n"
  obtains arrs' where "write3 arrs r x y z = Some arrs'" "len3 n arrs'" "at3 arrs' r = (x, y, z)"
    "\<And>k. k \<noteq> r \<Longrightarrow> at3 arrs' k = at3 arrs k"
proof -
  obtain xs ys zs where a: "arrs = (xs, ys, zs)" by (cases arrs) auto
  show thesis using assms
    by (intro that[of "(xs[r := x], ys[r := y], zs[r := z])"])
      (auto simp: a write3_def len3_def at3_def)
qed

lemma dims3_extend:
  assumes "\<And>k. k < r \<Longrightarrow> at3 arrs' k = at3 arrs k"
  shows "dims3 (r + m) arrs' = dims3 r arrs @ map (at3 arrs') [r..<r + m]"
  using assms by (simp add: dims3_def upt_add_eq_append[of 0 r m])

lemma unat_div_pos:
  fixes d z :: vsi_size_t
  assumes "unat d dvd unat z" "0 < z" shows "0 < d" "0 < z div d"
  using split_sizes[OF assms] assms(2) by (auto simp: word_less_nat_alt intro: Nat.gr0I)

text \<open>A dimension that is repeated, one that is not, or one that is narrow is split correctly.\<close>

lemma tile_split:
  assumes d: "unat d dvd unat z" and c: "consistent (x, y, z)" and x: "x = 1 \<or> x = z" and z1: "1 < z"
  defines "a \<equiv> (if x > 1 then d else 1, if y > 1 then d else 1, d)"
    and "b \<equiv> (if x > 1 then z div d else 1, if y > 1 then z div d else 1, z div d)"
  shows "consistent a" "consistent b" "same_tile (map tv [a, b]) [tv (x, y, z)]"
    "x = 1 \<Longrightarrow> fst a = 1 \<and> fst b = 1"
proof -
  have z: "0 < z" using c by (simp add: consistent_def)
  note sp = split_sizes[OF d z] and pos = unat_div_pos[OF d z]
  have "x = 1 \<and> y = z \<or> x = z \<and> y = 1 \<and> 1 < x"
  proof (cases "x = 1")
    case True
    then show ?thesis using c by (simp add: consistent_def unat_eq_iff)
  next
    case False
    then have "x = z" using x by simp
    moreover have "unat y = 1" using c z \<open>x = z\<close> by (auto simp: consistent_def word_less_nat_alt)
    then have "y = 1" using unat_eq_iff[of y 1] by simp
    ultimately show ?thesis using z1 by simp
  qed
  then show "consistent a" "consistent b" "same_tile (map tv [a, b]) [tv (x, y, z)]"
    "x = 1 \<Longrightarrow> fst a = 1 \<and> fst b = 1"
    using z1 sp pos tile_merge_one[of "unat d" "unat (z div d)"] tile_merge_same[of "unat d" "unat (z div d)"]
    by (auto simp: a_def b_def consistent_def tv_def)
qed

lemma tile_fill_ok:
  assumes len: "len3 n arrs" and c: "consistent (x, y, z)"
    and x: "x = 1 \<or> x = z \<or> z < GPU_TENSOR_MAX_WIDTH"
    and r: "r < n" "GPU_TENSOR_MAX_WIDTH \<le> z \<Longrightarrow> r + 1 < n"
  obtains new arrs' where "tile_fill_dim arrs r x y z = Some (r + length new, arrs')" "len3 n arrs'"
    "1 \<le> length new" "length new \<le> 2" "length new = 2 \<longrightarrow> GPU_TENSOR_MAX_WIDTH \<le> z"
    "dims3 (r + length new) arrs' = dims3 r arrs @ new"
    "\<forall>k. r + length new \<le> k \<longrightarrow> at3 arrs' k = at3 arrs k"
    "list_all consistent new" "x = 1 \<or> z < GPU_TENSOR_MAX_WIDTH \<longrightarrow> list_all narrow new"
    "same_tile (map tv new) [tv (x, y, z)]"
proof -
  obtain p where p: "write3 arrs r x y z = Some p" "len3 n p" "at3 p r = (x, y, z)"
    "\<And>k. k \<noteq> r \<Longrightarrow> at3 p k = at3 arrs k"
    using write3_ok[OF len r(1)] by blast
  have d1: "dims3 (r + 1) p = dims3 r arrs @ [(x, y, z)]"
    using dims3_extend[of r p arrs 1] p(3,4) by simp
  note ok = that
  have plain: thesis if "tile_fill_dim arrs r x y z = Some (r + 1, p)"
    by (rule ok[of "[(x, y, z)]" p]) (use that p d1 c in \<open>auto simp: narrow_def\<close>)
  show thesis
  proof (cases "z < GPU_TENSOR_MAX_WIDTH")
    case True
    then show thesis using plain p(1) by (simp add: tile_fill_dim_def)
  next
    case False
    then have W: "GPU_TENSOR_MAX_WIDTH \<le> z" by simp
    have z: "0 < z" using c by (simp add: consistent_def)
    have z1: "1 < z" using W width_gt_1 by simp
    obtain d where d: "compute_gpu_divisor z GPU_TENSOR_MAX_WIDTH 1 = Some d" "unat d dvd unat z"
      using compute_gpu_divisor_spec[OF z width_gt_1] by metis
    show thesis
    proof (cases "z div d > GPU_TENSOR_MAX_WIDTH \<or> r \<ge> MAX_DIM_NUM")
      case True
      then show thesis using plain p(1) d(1) False by (simp add: tile_fill_dim_def)
    next
      case nosplit: False
      let ?a = "(if x > 1 then d else 1, if y > 1 then d else 1, d)"
      let ?b = "(if x > 1 then z div d else 1, if y > 1 then z div d else 1, z div d)"
      obtain q where q: "write3 arrs r (fst ?a) (fst (snd ?a)) d = Some q" "len3 n q" "at3 q r = ?a"
        "\<And>k. k \<noteq> r \<Longrightarrow> at3 q k = at3 arrs k"
        using write3_ok[OF len r(1)] by (metis fst_conv snd_conv)
      obtain s where s: "write3 q (r + 1) (fst ?b) (fst (snd ?b)) (z div d) = Some s" "len3 n s"
        "at3 s (r + 1) = ?b" "\<And>k. k \<noteq> r + 1 \<Longrightarrow> at3 s k = at3 q k"
        using write3_ok[OF q(2) r(2)[OF W]] by (metis fst_conv snd_conv)
      have e: "tile_fill_dim arrs r x y z = Some (r + length [?a, ?b], s)"
        using q(1) s(1) d(1) False nosplit by (simp add: tile_fill_dim_def)
      have "dims3 (r + length [?a, ?b]) s = dims3 r arrs @ [?a, ?b]"
        using dims3_extend[of r s arrs 2] q(3,4) s(3,4) by (simp add: upt_rec)
      moreover have xx: "x = 1 \<or> x = z" using x False by simp
      note t = tile_split[OF d(2) c xx z1]
      ultimately show thesis
        using t q s W e False by (intro ok[of "[?a, ?b]" s]) (auto simp: narrow_def)
    qed
  qed
qed


subsection \<open>The first loop merges runs of one-element dimensions\<close>

definition good :: "dim3 \<Rightarrow> bool" where
  "good t \<longleftrightarrow> consistent t \<and> narrow t"

definition zsize :: "shapes3 \<Rightarrow> nat \<Rightarrow> vsi_size_t" where
  "zsize arrs k = snd (snd (at3 arrs k))"

definition tile_ok :: "nat \<Rightarrow> shapes3 \<Rightarrow> bool" where
  "tile_ok n arrs \<longleftrightarrow> len3 n arrs \<and> n \<le> 4 \<and>
     (\<forall>k < n. consistent (at3 arrs k) \<and> zsize arrs k < GPU_TENSOR_MAX_WIDTH) \<and>
     num (map (zsize arrs) [0..<n]) < 2 ^ 32"

lemma zsize_pos: "consistent (at3 arrs k) \<Longrightarrow> zsize arrs k \<noteq> 0"
  by (cases arrs) (auto simp: consistent_def zsize_def at3_def)

lemma num_map_pos: "\<forall>k \<in> set ks. consistent (at3 arrs k) \<Longrightarrow> 1 \<le> num (map (zsize arrs) ks)"
  using zsize_pos by (intro num_pos) fastforce

lemma num_out_dims: "num_out (map tv (map (at3 arrs) ks)) = num (map (zsize arrs) ks)"
  by (induction ks) (auto simp: num_out_def tv_def zsize_def split: prod.splits)

lemma num_segment:
  assumes ok: "tile_ok n arrs" and "s \<le> t" "t \<le> n"
  shows "num (map (zsize arrs) [s..<t]) < 2 ^ 32"
proof -
  have p: "1 \<le> num (map (zsize arrs) [0..<s])" "1 \<le> num (map (zsize arrs) [t..<n])"
  proof -
    have c: "\<forall>k < n. consistent (at3 arrs k)" using ok by (simp add: tile_ok_def)
    show "1 \<le> num (map (zsize arrs) [0..<s])" "1 \<le> num (map (zsize arrs) [t..<n])"
      using c assms(2,3) by (intro num_map_pos; simp)+
  qed
  have "[0..<n] = [0..<s] @ [s..<t] @ [t..<n]"
    using assms(2,3) by (metis append_assoc le_add_diff_inverse upt_add_eq_append zero_le)
  then have "num (map (zsize arrs) [0..<n]) =
      num (map (zsize arrs) [0..<s]) * (num (map (zsize arrs) [s..<t]) * num (map (zsize arrs) [t..<n]))"
    by simp
  moreover have "num (map (zsize arrs) [s..<t]) \<le>
      num (map (zsize arrs) [0..<s]) * (num (map (zsize arrs) [s..<t]) * num (map (zsize arrs) [t..<n]))"
    using mult_le_mono[OF p(1) mult_le_mono[OF le_refl[of "num (map (zsize arrs) [s..<t])"] p(2)]]
    by (simp only: nat_mult_1 nat_mult_1_right)
  moreover have "num (map (zsize arrs) [0..<n]) < 2 ^ 32" using ok by (simp add: tile_ok_def)
  ultimately show ?thesis by linarith
qed

lemma run_size_ok:
  assumes "s \<le> e" "e < length a" "\<forall>k \<in> {s..e}. a ! k \<noteq> 0" "num (map ((!) a) [s..<Suc e]) < 2 ^ 32"
  shows "\<exists>p. run_size a s e = Some p \<and> unat p = num (map ((!) a) [s..<Suc e])"
proof -
  have u: "num (map ((!) a) [s..<Suc e]) = unat (a ! s) * num (map ((!) a) [Suc s..<Suc e])"
    using assms(1) upt_conv_Cons[of s "Suc e"] by (simp only: le_imp_less_Suc list.map num_simps)
  show ?thesis
    using size_at_product_eq[of "[Suc s..<Suc e]" a "a ! s"] assms
    unfolding run_size_def u by (auto simp del: upt_Suc)
qed

lemma run_sizes_ok:
  assumes ok: "tile_ok n arrs0" and len: "len3 n arrs" and se: "s \<le> e" "e < n"
    and same: "\<forall>k \<in> {s..e}. at3 arrs k = at3 arrs0 k \<and> fst (at3 arrs0 k) = 1"
  obtains sy sz where "run_sizes arrs s e = Some (sy, sz)" "consistent (1, sy, sz)"
    "same_tile [tv (1, sy, sz)] (map tv (map (at3 arrs0) [s..<Suc e]))"
    "s = e \<Longrightarrow> sz < GPU_TENSOR_MAX_WIDTH"
proof -
  obtain xs ys zs where a: "arrs = (xs, ys, zs)" by (cases arrs) auto
  have l: "length ys = n" "length zs = n" using len by (simp_all add: a len3_def)
  have k: "zs ! k = zsize arrs0 k \<and> ys ! k = zsize arrs0 k \<and> zsize arrs0 k \<noteq> 0 \<and>
      tv (at3 arrs0 k) = (1, unat (zsize arrs0 k))" if "k \<in> {s..e}" for k
  proof -
    have c: "consistent (at3 arrs0 k)" using ok that se by (auto simp: tile_ok_def)
    have "at3 arrs0 k = (1, ys ! k, zs ! k)"
      using same that by (auto simp: a at3_def split: prod.splits)
    then show ?thesis using c zsize_pos[OF c] by (simp add: consistent_def zsize_def tv_def unat_eq_iff)
  qed
  have my: "map ((!) ys) [s..<Suc e] = map (zsize arrs0) [s..<Suc e]"
    and mz: "map ((!) zs) [s..<Suc e] = map (zsize arrs0) [s..<Suc e]"
    using k by (auto simp: less_Suc_eq_le simp del: upt_Suc)
  have lt: "num (map (zsize arrs0) [s..<Suc e]) < 2 ^ 32" using num_segment[OF ok, of s "Suc e"] se by simp
  obtain sy where sy: "run_size ys s e = Some sy" "unat sy = num (map (zsize arrs0) [s..<Suc e])"
    using run_size_ok[of s e ys] se l k lt unfolding my by auto
  obtain sz where sz: "run_size zs s e = Some sz" "unat sz = num (map (zsize arrs0) [s..<Suc e])"
    using run_size_ok[of s e zs] se l k lt unfolding mz by auto
  have pos: "1 \<le> num (map (zsize arrs0) [s..<Suc e])"
    using ok se by (intro num_map_pos) (auto simp: tile_ok_def)
  have "map tv (map (at3 arrs0) [s..<Suc e]) = map (Pair 1) (map unat (map (zsize arrs0) [s..<Suc e]))"
    using k by (auto simp: less_Suc_eq_le simp del: upt_Suc)
  moreover have "tv (1, sy, sz) = (1, prod_list (map unat (map (zsize arrs0) [s..<Suc e])))"
    using sz(2) by (simp add: tv_def num_def del: upt_Suc)
  ultimately have t: "same_tile [tv (1, sy, sz)] (map tv (map (at3 arrs0) [s..<Suc e]))"
    using same_tile_sym[OF tile_merge_ones[of "map unat (map (zsize arrs0) [s..<Suc e])"]] by (simp only:)
  have w: "sz < GPU_TENSOR_MAX_WIDTH" if "s = e"
  proof -
    have "sz = zsize arrs0 e" using sz(2) that by (simp add: unat_eq_iff)
    then show ?thesis using ok se by (simp add: tile_ok_def)
  qed
  show thesis
    using that[of sy sz] sy sz pos t w by (simp add: run_sizes_def a consistent_def word_less_nat_alt)
qed

definition tile_base :: "nat \<Rightarrow> shapes3 \<Rightarrow> nat \<Rightarrow> nat \<Rightarrow> shapes3 \<Rightarrow> bool" where
  "tile_base n arrs0 j r arrs \<longleftrightarrow> len3 n arrs \<and> j \<le> n \<and> r \<le> j \<and>
     (\<forall>k. j \<le> k \<and> k < n \<longrightarrow> at3 arrs k = at3 arrs0 k) \<and> list_all good (dims3 r arrs) \<and>
     same_tile (map tv (dims3 r arrs)) (map tv (dims3 j arrs0))"

lemma dims3_app: "j \<le> m \<Longrightarrow> dims3 m arrs = dims3 j arrs @ map (at3 arrs) [j..<m]"
  unfolding dims3_def by (metis le_add_diff_inverse map_append upt_add_eq_append zero_le)

lemma good_list: "list_all good ts \<longleftrightarrow> list_all consistent ts \<and> list_all narrow ts"
  by (auto simp: good_def list_all_iff)

lemma tile_flush:
  assumes ok: "tile_ok n arrs0" and base: "tile_base n arrs0 s r arrs" and se: "s \<le> e" "e < n"
    and ones: "\<forall>k \<in> {s..e}. fst (at3 arrs0 k) = 1"
  obtains sy sz r' arrs' where "run_sizes arrs s e = Some (sy, sz)"
    "tile_fill_dim arrs r 1 sy sz = Some (r', arrs')" "tile_base n arrs0 (Suc e) r' arrs'"
    "sz = 1 \<Longrightarrow> tile_base n arrs0 (Suc e) r arrs" "1 \<le> r'"
proof -
  have len: "len3 n arrs" and rs: "r \<le> s" and eq: "\<forall>k. s \<le> k \<and> k < n \<longrightarrow> at3 arrs k = at3 arrs0 k"
    and gd: "list_all good (dims3 r arrs)" and st: "same_tile (map tv (dims3 r arrs)) (map tv (dims3 s arrs0))"
    using base by (auto simp: tile_base_def)
  obtain sy sz where z: "run_sizes arrs s e = Some (sy, sz)" "consistent (1, sy, sz)"
    "same_tile [tv (1, sy, sz)] (map tv (map (at3 arrs0) [s..<Suc e]))"
    "s = e \<Longrightarrow> sz < GPU_TENSOR_MAX_WIDTH"
    by (rule run_sizes_ok[OF ok len se]) (use eq ones se in auto)
  have wide: "s < e" if "GPU_TENSOR_MAX_WIDTH \<le> sz"
    using that z(4) se(1) by (cases "s = e") simp_all
  have r: "r < n" using rs se by linarith
  have r1: "r + 1 < n" if "GPU_TENSOR_MAX_WIDTH \<le> sz" using wide[OF that] rs se(2) by linarith
  obtain new arrs' where f: "tile_fill_dim arrs r 1 sy sz = Some (r + length new, arrs')" "len3 n arrs'"
    "1 \<le> length new" "length new \<le> 2" "length new = 2 \<longrightarrow> GPU_TENSOR_MAX_WIDTH \<le> sz"
    "dims3 (r + length new) arrs' = dims3 r arrs @ new"
    "\<forall>k. r + length new \<le> k \<longrightarrow> at3 arrs' k = at3 arrs k"
    "list_all consistent new" "list_all narrow new" "same_tile (map tv new) [tv (1, sy, sz)]"
    by (rule tile_fill_ok[OF len z(2) disjI1[OF refl] r r1], assumption)
      (rule that; (assumption | (erule mp, rule disjI1, rule refl)))
  have le: "r + length new \<le> Suc e"
  proof (cases "length new = 2")
    case True
    then show ?thesis using wide f(5) rs by simp
  next
    case False
    then show ?thesis using f(4) rs se by simp
  qed
  have app: "dims3 (Suc e) arrs0 = dims3 s arrs0 @ map (at3 arrs0) [s..<Suc e]"
    using dims3_app[of s "Suc e" arrs0] se by simp
  have b1: "tile_base n arrs0 (Suc e) (r + length new) arrs'"
    using f le se eq gd same_tile_append[OF st same_tile_trans[OF f(10) z(3)]]
    by (simp add: tile_base_def app good_list del: upt_Suc)
  have b2: "tile_base n arrs0 (Suc e) r arrs" if "sz = 1"
  proof -
    have "same_tile [] (map tv (map (at3 arrs0) [s..<Suc e]))"
      using same_tile_trans[OF same_tile_sym[OF tile_drop_one]] z(3) that by (simp add: tv_def del: upt_Suc)
    from same_tile_append[OF st this] show ?thesis
      using len rs se eq gd by (simp add: tile_base_def app del: upt_Suc)
  qed
  show thesis using that[OF z(1) f(1) b1 b2] f(3) by simp
qed


lemma tile_copy:
  assumes ok: "tile_ok n arrs0" and base: "tile_base n arrs0 i r arrs" and i: "i < n"
  obtains arrs' where "copy_dim arrs i r = Some arrs'" "tile_base n arrs0 (Suc i) (Suc r) arrs'"
proof -
  have len: "len3 n arrs" and r: "r < n" "r \<le> i" and eq: "\<forall>k. i \<le> k \<and> k < n \<longrightarrow> at3 arrs k = at3 arrs0 k"
    and gd: "list_all good (dims3 r arrs)" and st: "same_tile (map tv (dims3 r arrs)) (map tv (dims3 i arrs0))"
    using base i by (auto simp: tile_base_def)
  obtain x y z where t: "at3 arrs i = (x, y, z)" by (cases "at3 arrs i") auto
  obtain arrs' where w: "write3 arrs r x y z = Some arrs'" "len3 n arrs'" "at3 arrs' r = (x, y, z)"
    "\<And>k. k \<noteq> r \<Longrightarrow> at3 arrs' k = at3 arrs k"
    using write3_ok[OF len r(1)] by metis
  have c: "copy_dim arrs i r = Some arrs'"
    using t w(1) len i by (auto simp: copy_dim_def at3_def len3_def)
  have t0: "at3 arrs0 i = (x, y, z)" using eq t i by auto
  have g: "good (x, y, z)"
    using ok t0 i by (auto simp: good_def tile_ok_def narrow_def zsize_def dest!: spec[of _ i])
  have d: "dims3 (Suc r) arrs' = dims3 r arrs @ [(x, y, z)]"
    using dims3_extend[of r arrs' arrs 1] w(3,4) by simp
  have d0: "dims3 (Suc i) arrs0 = dims3 i arrs0 @ [(x, y, z)]"
    using dims3_app[of i "Suc i" arrs0] t0 by simp
  have "same_tile (map tv (dims3 (Suc r) arrs')) (map tv (dims3 (Suc i) arrs0))"
    unfolding d d0 map_append by (rule same_tile_append[OF st same_tile_refl])
  then have "tile_base n arrs0 (Suc i) (Suc r) arrs'"
    using w(2,4) r i eq gd g by (simp add: tile_base_def d)
  with c show thesis by (rule that)
qed

lemma zsize_nth: "snd (snd arrs) ! k = zsize arrs k"
  by (cases arrs) (simp add: zsize_def at3_def)

lemma tile_drop_last:
  assumes base: "tile_base n arrs0 n r arrs" and r: "r \<noteq> 0" "n \<le> 4"
  shows "rd (snd (snd arrs)) ((r + 2 ^ 32 - 1) mod 2 ^ 32) = Some (zsize arrs (r - 1))"
    "zsize arrs (r - 1) = 1 \<Longrightarrow> tile_base n arrs0 n (r - 1) arrs"
proof -
  have len: "len3 n arrs" and rn: "r \<le> n"
    and gd: "list_all good (dims3 r arrs)" and st: "same_tile (map tv (dims3 r arrs)) (map tv (dims3 n arrs0))"
    using base by (auto simp: tile_base_def)
  obtain m where m: "r = Suc m" using r(1) by (cases r) auto
  have "(r + 2 ^ 32 - 1) mod 2 ^ 32 = m" using m rn r(2) by simp
  then show "rd (snd (snd arrs)) ((r + 2 ^ 32 - 1) mod 2 ^ 32) = Some (zsize arrs (r - 1))"
    using len rn m by (cases arrs) (simp add: len3_def zsize_def at3_def)
  have d: "dims3 r arrs = dims3 m arrs @ [at3 arrs m]" using m by (simp add: dims3_def)
  assume "zsize arrs (r - 1) = 1"
  moreover have "good (at3 arrs m)" using gd d by simp
  ultimately have "tv (at3 arrs m) = (1, 1)"
    using m by (cases "at3 arrs m") (simp add: good_def consistent_def zsize_def tv_def)
  then have "same_tile (map tv (dims3 m arrs)) (map tv (dims3 r arrs))"
    using same_tile_append[OF same_tile_refl[of "map tv (dims3 m arrs)"] same_tile_sym[OF tile_drop_one]]
    by (simp add: d)
  with st have "same_tile (map tv (dims3 m arrs)) (map tv (dims3 n arrs0))" by (rule same_tile_trans[rotated])
  then show "tile_base n arrs0 n (r - 1) arrs" using base m gd d by (simp add: tile_base_def)
qed

text \<open>
  Before step \<open>i\<close> the dimensions up to the start of the pending run, or up to \<open>i\<close>, are
  merged, and the pending run has one element of the input in each dimension.
\<close>

definition tile_inv :: "nat \<Rightarrow> shapes3 \<Rightarrow> nat \<Rightarrow> tile_state \<Rightarrow> bool" where
  "tile_inv n arrs0 i st = (case tl_start st of
     None \<Rightarrow> tile_base n arrs0 i (tl_rank st) (tl_arrs st)
   | Some s \<Rightarrow> s < i \<and> i \<le> n \<and> tile_base n arrs0 s (tl_rank st) (tl_arrs st) \<and>
       (\<forall>k. s \<le> k \<and> k < i \<longrightarrow> fst (at3 arrs0 k) = 1))"

lemma tile_inv_here:
  assumes "tile_inv n arrs0 i st" "i < n"
  shows "len3 n (tl_arrs st)" "at3 (tl_arrs st) i = at3 arrs0 i"
  using assms by (auto simp: tile_inv_def tile_base_def split: option.splits)

lemma tile_step_ok:
  assumes ok: "tile_ok n arrs0" and inv: "tile_inv n arrs0 i st" and i: "i < n"
  shows "\<exists>st'. tile_step n i st = Some st' \<and> tile_inv n arrs0 (Suc i) st' \<and>
    (Suc i = n \<longrightarrow> tl_start st' = None)"
proof -
  note here = tile_inv_here[OF inv i]
  have n4: "n \<le> 4" using ok by (simp add: tile_ok_def)
  let ?x = "fst (at3 arrs0 i)"
  have x: "rd (fst (tl_arrs st)) i = Some ?x"
    using here(1) i unfolding here(2)[symmetric] by (cases "tl_arrs st") (auto simp: len3_def at3_def)
  consider (last) "i = n - 1" "?x = 1" | (copy) "?x \<noteq> 1" | (run) "i \<noteq> n - 1" "?x = 1" by blast
  then show ?thesis
  proof cases
    case last
    then have n: "Suc i = n" using i by simp
    obtain r arrs where a: "(case tl_start st of
         Some idx_start \<Rightarrow> do {
           (sy, sz) \<leftarrow> run_sizes (tl_arrs st) idx_start i;
           tile_fill_dim (tl_arrs st) (tl_rank st) 1 sy sz }
       | None \<Rightarrow> do {
           arrs \<leftarrow> copy_dim (tl_arrs st) i (tl_rank st);
           Some (tl_rank st + 1, arrs) }) = Some (r, arrs)" "tile_base n arrs0 n r arrs" "r \<noteq> 0"
    proof (cases "tl_start st")
      case None
      then have "tile_base n arrs0 i (tl_rank st) (tl_arrs st)" using inv by (simp add: tile_inv_def)
      from tile_copy[OF ok this i] obtain arrs' where
        "copy_dim (tl_arrs st) i (tl_rank st) = Some arrs'" "tile_base n arrs0 n (Suc (tl_rank st)) arrs'"
        unfolding n by blast
      with None show thesis by (intro that[of "Suc (tl_rank st)" arrs']) simp_all
    next
      case (Some s)
      then have b: "tile_base n arrs0 s (tl_rank st) (tl_arrs st)" and s: "s \<le> i"
        and ones: "\<forall>k \<in> {s..i}. fst (at3 arrs0 k) = 1"
        using inv last by (auto simp: tile_inv_def le_less)
      obtain sy sz r' arrs' where "run_sizes (tl_arrs st) s i = Some (sy, sz)"
        "tile_fill_dim (tl_arrs st) (tl_rank st) 1 sy sz = Some (r', arrs')" "tile_base n arrs0 n r' arrs'" "1 \<le> r'"
        using tile_flush[OF ok b s i ones] unfolding n by metis
      with Some show thesis by (intro that[of r' arrs']) simp_all
    qed
    note dl = tile_drop_last[OF a(2,3) n4]
    have step: "tile_step n i st = (if r = 1 then Some (st\<lparr>tl_arrs := arrs, tl_rank := r, tl_start := None\<rparr>)
       else Some (st\<lparr>tl_arrs := arrs, tl_rank := (if zsize arrs (r - 1) = 1 then r - 1 else r), tl_start := None\<rparr>))"
      unfolding tile_step_def tile_last_step_def x a(1) using last dl(1) by simp
    show ?thesis
    proof (cases "r \<noteq> 1 \<and> zsize arrs (r - 1) = 1")
      case True
      then show ?thesis using step dl(2) n by (simp add: tile_inv_def)
    next
      case False
      then show ?thesis using step a(2) n by (auto simp: tile_inv_def)
    qed
  next
    case copy
    obtain r arrs where a: "(case tl_start st of
         Some idx_start \<Rightarrow> do {
           (sy, sz) \<leftarrow> run_sizes (tl_arrs st) idx_start (i - 1);
           if sz \<noteq> 1 then tile_fill_dim (tl_arrs st) (tl_rank st) 1 sy sz
           else Some (tl_rank st, tl_arrs st) }
       | None \<Rightarrow> Some (tl_rank st, tl_arrs st)) = Some (r, arrs)" "tile_base n arrs0 i r arrs"
    proof (cases "tl_start st")
      case None
      then show thesis using inv that by (simp add: tile_inv_def)
    next
      case (Some s)
      then have b: "tile_base n arrs0 s (tl_rank st) (tl_arrs st)" and s: "s < i"
        and ones: "\<forall>k \<in> {s..i - 1}. fst (at3 arrs0 k) = 1"
        using inv by (auto simp: tile_inv_def)
      have e: "s \<le> i - 1" "i - 1 < n" "Suc (i - 1) = i" using s i by auto
      obtain sy sz r' arrs' where f: "run_sizes (tl_arrs st) s (i - 1) = Some (sy, sz)"
        "tile_fill_dim (tl_arrs st) (tl_rank st) 1 sy sz = Some (r', arrs')" "tile_base n arrs0 i r' arrs'"
        "sz = 1 \<Longrightarrow> tile_base n arrs0 i (tl_rank st) (tl_arrs st)"
        using tile_flush[OF ok b e(1,2) ones] unfolding e(3) by metis
      show thesis
      proof (cases "sz = 1")
        case True
        then show thesis using Some f(1,4) that by simp
      next
        case False
        then show thesis using Some f(1-3) that by simp
      qed
    qed
    obtain arrs' where c: "copy_dim arrs i r = Some arrs'" "tile_base n arrs0 (Suc i) (Suc r) arrs'"
      using tile_copy[OF ok a(2) i] by blast
    have "tile_step n i st = Some (st\<lparr>tl_arrs := arrs', tl_rank := r + 1, tl_start := None\<rparr>)"
      unfolding tile_step_def tile_copy_step_def x a(1) using copy c(1) by simp
    then show ?thesis using c(2) by (simp add: tile_inv_def)
  next
    case run
    then have "Suc i \<noteq> n" by auto
    moreover have "\<exists>st'. tile_step n i st = Some st' \<and> tile_inv n arrs0 (Suc i) st'"
    proof (cases "tl_start st")
      case None
      then show ?thesis using run x inv i by (auto simp: tile_step_def tile_inv_def less_Suc_eq)
    next
      case (Some s)
      then show ?thesis using run x inv i by (auto simp: tile_step_def tile_inv_def less_Suc_eq)
    qed
    ultimately show ?thesis by auto
  qed
qed

lemma tile_loop_ok:
  assumes ok: "tile_ok n arrs0"
  shows "i < n \<Longrightarrow> tile_inv n arrs0 i st \<Longrightarrow>
    \<exists>st'. tile_loop n [i..<n] st = Some st' \<and> tile_base n arrs0 n (tl_rank st') (tl_arrs st')"
proof (induction "n - i" arbitrary: i st)
  case (Suc d)
  obtain st1 where s1: "tile_step n i st = Some st1" "tile_inv n arrs0 (Suc i) st1"
    "Suc i = n \<longrightarrow> tl_start st1 = None"
    using tile_step_ok[OF ok Suc.prems(2,1)] by blast
  have u: "[i..<n] = i # [Suc i..<n]" using Suc.prems(1) by (simp add: upt_conv_Cons)
  show ?case
  proof (cases "Suc i = n")
    case True
    then show ?thesis using s1 by (simp add: u tile_inv_def)
  next
    case False
    then show ?thesis using Suc.hyps(1)[of "Suc i" st1] Suc.hyps(2) Suc.prems(1) s1 by (simp add: u)
  qed
qed simp


subsection \<open>The second loop merges the dimensions that are not repeated\<close>

definition eff3 :: "pack_state \<Rightarrow> dim3" where
  "eff3 st = (pk_x st, pk_y st, pk_z st)"

definition is_axis :: "dim3 \<Rightarrow> bool" where
  "is_axis t = (case t of (x, y, z) \<Rightarrow> x \<noteq> z)"

text \<open>
  Before step \<open>i\<close> the written dimensions with the pending one behind them are the first
  \<open>i\<close> dimensions; nothing is pending in front of a repeated dimension.
\<close>

definition pack_inv :: "shapes3 \<Rightarrow> nat \<Rightarrow> nat \<Rightarrow> pack_state \<Rightarrow> bool" where
  "pack_inv temps m i st \<longleftrightarrow> len3 8 (pk_arrs st) \<and> pk_dims st \<le> 2 * min i (m - 1) \<and>
     list_all consistent (dims3 (pk_dims st) (pk_arrs st)) \<and> consistent (eff3 st) \<and>
     (pk_x st = pk_z st \<or> narrow (eff3 st)) \<and> (i < m \<longrightarrow> pk_x st = pk_z st) \<and>
     (i < m \<and> is_axis (at3 temps i) \<longrightarrow> eff3 st = (1, 1, 1)) \<and>
     same_tile (map tv (dims3 (pk_dims st) (pk_arrs st) @ [eff3 st])) (map tv (dims3 i temps))"

lemma is_axis_iff: "consistent (x, y, z) \<Longrightarrow> x \<noteq> z \<longleftrightarrow> y \<noteq> 1"
proof -
  assume c: "consistent (x, y, z)"
  have "y = 1" if "x = z"
  proof -
    have "unat y = 1" using c that by (auto simp: consistent_def word_less_nat_alt)
    then show "y = 1" using unat_eq_iff[of y 1] by simp
  qed
  moreover have "x = z" if "y = 1" using c that by (simp add: consistent_def unat_eq_iff)
  ultimately show ?thesis by blast
qed

lemma pack_append:
  assumes a: "len3 8 (pk_arrs st)" "pk_dims st \<le> 6" "list_all consistent (dims3 (pk_dims st) (pk_arrs st))"
    and c: "consistent (x, y, z)" "x = z \<or> narrow (x, y, z)"
  obtains d arrs new where "tile_fill_dim (pk_arrs st) (pk_dims st) x y z = Some (d, arrs)"
    "append_dim st x y z = Some (st\<lparr>pk_dims := d, pk_arrs := arrs\<rparr>)" "len3 8 arrs" "d \<le> pk_dims st + 2"
    "1 \<le> d" "dims3 d arrs = dims3 (pk_dims st) (pk_arrs st) @ new" "list_all consistent new"
    "same_tile (map tv new) [tv (x, y, z)]"
proof -
  have r: "pk_dims st < 8" "pk_dims st + 1 < 8" using a(2) by simp_all
  have x: "x = 1 \<or> x = z \<or> z < GPU_TENSOR_MAX_WIDTH" using c(2) by (auto simp: narrow_def)
  show thesis
    by (rule tile_fill_ok[OF a(1) c(1) x r]) (rule that, auto simp: append_dim_def)
qed


lemma same_tile_one: "same_tile (map tv (ts @ [(1, 1, 1)])) (map tv ts)"
  using same_tile_append[OF same_tile_refl[of "map tv ts"] tile_drop_one] by (simp add: tv_def)

definition pack_ok :: "shapes3 \<Rightarrow> nat \<Rightarrow> bool" where
  "pack_ok temps m \<longleftrightarrow> m \<le> 4 \<and> list_all good (dims3 m temps) \<and> num_out (map tv (dims3 m temps)) < 2 ^ 32"

lemma list_all_dims3: "list_all P (dims3 m arrs) \<longleftrightarrow> (\<forall>k < m. P (at3 arrs k))"
  by (auto simp: dims3_def list_all_iff)

lemma consistent_num_out: "list_all consistent ts \<Longrightarrow> 1 \<le> num_out (map tv ts)"
  by (induction ts) (auto simp: num_out_def consistent_def tv_def word_less_nat_alt)

lemma pack_merge:
  assumes ok: "pack_ok temps m" and i: "i < m" and t: "at3 temps i = (z, y, z)"
    and inv: "pack_inv temps m i st"
  shows "consistent (pk_x st * z, pk_y st * y, pk_z st * z)" "pk_x st * z = pk_z st * z"
    "same_tile (map tv (dims3 (pk_dims st) (pk_arrs st) @ [(pk_x st * z, pk_y st * y, pk_z st * z)]))
       (map tv (dims3 (Suc i) temps))"
proof -
  let ?O = "dims3 (pk_dims st) (pk_arrs st)"
  have e: "consistent (eff3 st)" "pk_x st = pk_z st" "list_all consistent ?O"
    and st: "same_tile (map tv (?O @ [eff3 st])) (map tv (dims3 i temps))"
    using inv i by (auto simp: pack_inv_def)
  have g: "\<forall>k < m. consistent (at3 temps k)" and lt: "num_out (map tv (dims3 m temps)) < 2 ^ 32"
    using ok by (auto simp: pack_ok_def list_all_dims3 good_def)
  have ct: "consistent (z, y, z)" using g i t by auto
  have y: "y = 1" using is_axis_iff[OF ct] by simp
  have ey: "pk_y st = 1" using is_axis_iff[of "pk_x st" "pk_y st" "pk_z st"] e(1,2) by (simp add: eff3_def)
  have d: "dims3 (Suc i) temps = dims3 i temps @ [(z, y, z)]" using t by (simp add: dims3_def)
  have st': "same_tile (map tv (?O @ [eff3 st, (z, y, z)])) (map tv (dims3 (Suc i) temps))"
    using same_tile_append[OF st same_tile_refl[of "[tv (z, y, z)]"]] by (simp add: d)
  have "num_out (map tv (dims3 m temps)) =
      num_out (map tv (dims3 (Suc i) temps)) * num_out (map tv (map (at3 temps) [Suc i..<m]))"
    using dims3_app[of "Suc i" m temps] i by (simp add: num_append)
  moreover have "1 \<le> num_out (map tv (map (at3 temps) [Suc i..<m]))"
    using g by (intro consistent_num_out) (simp add: list_all_iff)
  ultimately have le: "num_out (map tv (dims3 (Suc i) temps)) \<le> num_out (map tv (dims3 m temps))" by simp
  have "num_out (map tv (dims3 (Suc i) temps)) = num_out (map tv ?O) * (unat (pk_z st) * unat z)"
    using st' by (simp add: same_tile_def num_append) (simp add: num_out_def tv_def eff3_def)
  moreover have "1 \<le> num_out (map tv ?O)" using e(3) by (rule consistent_num_out)
  ultimately have "unat (pk_z st) * unat z \<le> num_out (map tv (dims3 (Suc i) temps))" by simp
  with le lt have "unat (pk_z st) * unat z < 2 ^ 32" by linarith
  then have u: "unat (pk_z st * z) = unat (pk_z st) * unat z" by (intro unat_mult_no_overflow) simp
  show "consistent (pk_x st * z, pk_y st * y, pk_z st * z)"
    using e(1,2) ct u by (simp add: consistent_def eff3_def y ey word_less_nat_alt)
  show "pk_x st * z = pk_z st * z" using e(2) by simp
  have "same_tile [tv (eff3 st), tv (z, y, z)] [tv (pk_x st * z, pk_y st * y, pk_z st * z)]"
    using tile_merge_same[of "unat (pk_z st)" "unat z"] e(2) u by (simp add: tv_def eff3_def)
  from same_tile_append[OF same_tile_refl[of "map tv ?O"] same_tile_sym[OF this]] st'
  show "same_tile (map tv (?O @ [(pk_x st * z, pk_y st * y, pk_z st * z)])) (map tv (dims3 (Suc i) temps))"
    using same_tile_trans by simp
qed

lemma next_state_ok:
  assumes "pack_ok temps m" "temps = (tx, ty, tz)" "len3 n temps" "m \<le> n"
  shows "next_axis_state ty m i = Some (if Suc i < m
    then (if is_axis (at3 temps (Suc i)) then Tile_Axis_X else Tile_No_Axis) else Tile_Empty)"
proof (cases "Suc i < m")
  case True
  then have "consistent (tx ! Suc i, ty ! Suc i, tz ! Suc i)"
    using assms by (auto simp: pack_ok_def list_all_dims3 good_def at3_def)
  from is_axis_iff[OF this] show ?thesis using True assms
    by (simp add: next_axis_state_def is_axis_def at3_def len3_def)
qed (simp add: next_axis_state_def)

lemma pack_step_ok:
  assumes ok: "pack_ok temps m" and i: "i < m" and t: "at3 temps i = (x, y, z)"
    and inv: "pack_inv temps m i st"
  defines "nxt \<equiv> (if Suc i < m then (if is_axis (at3 temps (Suc i)) then Tile_Axis_X else Tile_No_Axis)
      else Tile_Empty)"
  shows "\<exists>st'. pack_step x y z nxt st = Some st' \<and> pack_inv temps m (Suc i) st'"
proof -
  let ?O = "dims3 (pk_dims st) (pk_arrs st)"
  have a: "len3 8 (pk_arrs st)" "pk_dims st \<le> 6" "list_all consistent ?O" "pk_dims st \<le> 2 * min i (m - 1)"
    and st: "same_tile (map tv (?O @ [eff3 st])) (map tv (dims3 i temps))"
    using inv ok by (auto simp: pack_inv_def pack_ok_def)
  have g: "good (x, y, z)" using ok i t by (auto simp: pack_ok_def list_all_dims3)
  have d: "dims3 (Suc i) temps = dims3 i temps @ [(x, y, z)]" using t by (simp add: dims3_def)
  have one: "consistent (1, 1, 1)" by (simp add: consistent_def)
  show ?thesis
  proof (cases "x = z")
    case True
    let ?m = "(pk_x st * z, pk_y st * y, pk_z st * z)"
    have t': "at3 temps i = (z, y, z)" using t True by simp
    note mg = pack_merge[OF ok i t' inv]
    show ?thesis
    proof (cases "nxt = Tile_Axis_X")
      case ax: True
      then have s: "Suc i < m" by (auto simp: nxt_def split: if_splits)
      let ?st1 = "st\<lparr>pk_x := 1, pk_y := 1, pk_z := 1\<rparr>"
      have b: "len3 8 (pk_arrs ?st1)" "pk_dims ?st1 \<le> 6" "list_all consistent (dims3 (pk_dims ?st1) (pk_arrs ?st1))"
        using a by simp_all
      obtain dd arrs new where p: "append_dim ?st1 (pk_x st * z) (pk_y st * y) (pk_z st * z) =
          Some (?st1\<lparr>pk_dims := dd, pk_arrs := arrs\<rparr>)" "len3 8 arrs" "dd \<le> pk_dims ?st1 + 2"
        "dims3 dd arrs = dims3 (pk_dims ?st1) (pk_arrs ?st1) @ new" "list_all consistent new"
        "same_tile (map tv new) [tv ?m]"
        by (rule pack_append[OF b mg(1) disjI1[OF mg(2)]]) (rule that; assumption)
      have "same_tile (map tv (?O @ new)) (map tv (?O @ [?m]))"
        using same_tile_append[OF same_tile_refl[of "map tv ?O"] p(6)] by simp
      from same_tile_trans[OF same_tile_trans[OF same_tile_one this] mg(3)]
      have "same_tile (map tv ((?O @ new) @ [(1, 1, 1)])) (map tv (dims3 (Suc i) temps))" .
      then have "pack_inv temps m (Suc i) (?st1\<lparr>pk_dims := dd, pk_arrs := arrs\<rparr>)"
        using p a(3,4) one s by (simp add: pack_inv_def eff3_def)
      moreover have "pack_step x y z nxt st = Some (?st1\<lparr>pk_dims := dd, pk_arrs := arrs\<rparr>)"
        using p(1) ax True by (simp add: pack_step_def Let_def)
      ultimately show ?thesis by blast
    next
      case False
      then have "\<not> (Suc i < m \<and> is_axis (at3 temps (Suc i)))" by (simp add: nxt_def split: if_splits)
      moreover have "pk_dims st \<le> 2 * min (Suc i) (m - 1)"
        by (rule order_trans[OF a(4)]) (simp add: min_def)
      ultimately have "pack_inv temps m (Suc i) (st\<lparr>pk_x := pk_x st * z, pk_y := pk_y st * y, pk_z := pk_z st * z\<rparr>)"
        using a mg True by (auto simp: pack_inv_def eff3_def)
      then show ?thesis using False True by (simp add: pack_step_def Let_def)
    qed
  next
    case False
    have ax: "eff3 st = (1, 1, 1)" using inv i t False by (simp add: pack_inv_def is_axis_def)
    have O: "same_tile (map tv ?O) (map tv (dims3 i temps))"
      using same_tile_trans[OF same_tile_sym[OF same_tile_one] st[unfolded ax]] .
    from same_tile_append[OF this same_tile_refl[of "[tv (x, y, z)]"]]
    have O1: "same_tile (map tv (?O @ [(x, y, z)])) (map tv (dims3 (Suc i) temps))" by (simp add: d)
    show ?thesis
    proof (cases "Suc i < m")
      case False
      then have "pack_inv temps m (Suc i) (st\<lparr>pk_x := x, pk_y := y, pk_z := z\<rparr>)"
        using a g O1 i by (simp add: pack_inv_def eff3_def good_def)
      then show ?thesis using False \<open>x \<noteq> z\<close> by (simp add: pack_step_def Let_def nxt_def)
    next
      case True
      obtain dd arrs new where p: "append_dim st x y z = Some (st\<lparr>pk_dims := dd, pk_arrs := arrs\<rparr>)"
        "len3 8 arrs" "dd \<le> pk_dims st + 2" "dims3 dd arrs = ?O @ new" "list_all consistent new"
        "same_tile (map tv new) [tv (x, y, z)]"
        using g by (auto simp: good_def intro: pack_append[OF a(1-3), of x y z])
      have "same_tile (map tv (?O @ new)) (map tv (?O @ [(x, y, z)]))"
        using same_tile_append[OF same_tile_refl[of "map tv ?O"] p(6)] by simp
      from same_tile_trans[OF same_tile_trans[OF same_tile_one this] O1]
      have "same_tile (map tv ((?O @ new) @ [(1, 1, 1)])) (map tv (dims3 (Suc i) temps))" .
      moreover have "pk_x st = 1" "pk_y st = 1" "pk_z st = 1" using ax by (simp_all add: eff3_def)
      ultimately have "pack_inv temps m (Suc i) (st\<lparr>pk_dims := dd, pk_arrs := arrs\<rparr>)"
        using p a(3,4) one True by (simp add: pack_inv_def eff3_def)
      moreover have "nxt \<noteq> Tile_Empty" using True by (simp add: nxt_def)
      ultimately show ?thesis using p(1) False by (simp add: pack_step_def Let_def)
    qed
  qed
qed


lemma pack_loop_ok:
  assumes ok: "pack_ok temps m" and len: "len3 n temps" "m \<le> n"
  shows "i \<le> m \<Longrightarrow> pack_inv temps m i st \<Longrightarrow>
    \<exists>st'. pack_loop temps m [i..<m] st = Some st' \<and> pack_inv temps m m st'"
proof (induction "m - i" arbitrary: i st)
  case (Suc d)
  obtain tx ty tz where t: "temps = (tx, ty, tz)" by (cases temps) auto
  have i: "i < m" using Suc.hyps(2) by simp
  have u: "[i..<m] = i # [Suc i..<m]" using i by (simp add: upt_conv_Cons)
  have a: "at3 temps i = (tx ! i, ty ! i, tz ! i)" by (simp add: t at3_def)
  obtain st1 where s1: "pack_step (tx ! i) (ty ! i) (tz ! i) (if Suc i < m
      then (if is_axis (at3 temps (Suc i)) then Tile_Axis_X else Tile_No_Axis) else Tile_Empty) st = Some st1"
    "pack_inv temps m (Suc i) st1"
    using pack_step_ok[OF ok i a Suc.prems(2)] by blast
  have l: "i < length tx" "i < length ty" "i < length tz" using len i by (simp_all add: t len3_def)
  have "pack_loop temps m [i..<m] st = pack_loop temps m [Suc i..<m] st1"
    using l next_state_ok[OF ok t len] s1(1) by (simp add: u t)
  then show ?case using Suc.hyps(1)[of "Suc i" st1] Suc.hyps(2) i s1(2) by simp
qed simp

lemma map_tv_dims3: "d \<le> length xs \<Longrightarrow> d \<le> length zs \<Longrightarrow> map tv (dims3 d (xs, ys, zs)) = view xs zs d"
  by (rule nth_equalityI) (simp_all add: dims3_def view_def tv_def at3_def)

lemma optimize_tile_ok:
  assumes ok: "tile_ok n (xs, ys, zs)" and n: "0 < n" and out: "len3 8 out"
  obtains ox oy oz d where "optimize_tile_shape True xs ys zs out = Some (Some ((ox, oy, oz), d))"
    "2 \<le> d" "d \<le> 8" "list_all consistent (dims3 d (ox, oy, oz))" "len3 8 (ox, oy, oz)"
    "same_tile (map tv (dims3 d (ox, oy, oz))) (map tv (dims3 n (xs, ys, zs)))"
proof -
  let ?A = "(xs, ys, zs)"
  have l: "length xs = n" "length ys = n" "length zs = n" using ok by (simp_all add: tile_ok_def len3_def)
  have narrow: "\<not> list_ex (\<lambda>s. s > GPU_TENSOR_MAX_WIDTH) zs"
    using ok l by (fastforce simp: tile_ok_def list_ex_iff in_set_conv_nth zsize_def at3_def)
  have cp: "copy_prefix n a (replicate n 0) = Some a" if "length a = n" for a
    using that by (simp add: copy_prefix_def)
  have "tile_inv n ?A 0 \<lparr>tl_arrs = ?A, tl_rank = 0, tl_start = None\<rparr>"
    using l by (simp add: tile_inv_def tile_base_def len3_def dims3_def)
  then obtain st where st: "tile_loop n [0..<n] \<lparr>tl_arrs = ?A, tl_rank = 0, tl_start = None\<rparr> = Some st"
    "tile_base n ?A n (tl_rank st) (tl_arrs st)"
    using tile_loop_ok[OF ok n] by blast
  let ?T = "tl_arrs st" and ?m = "tl_rank st"
  have T: "len3 n ?T" "?m \<le> n" "list_all good (dims3 ?m ?T)"
    "same_tile (map tv (dims3 ?m ?T)) (map tv (dims3 n ?A))"
    using st(2) by (auto simp: tile_base_def)
  have "num_out (map tv (dims3 ?m ?T)) < 2 ^ 32"
    using T(4) ok num_out_dims[of ?A "[0..<n]"] by (simp add: same_tile_def tile_ok_def dims3_def)
  then have pk: "pack_ok ?T ?m" using T(2,3) ok by (simp add: pack_ok_def tile_ok_def)
  let ?p0 = "\<lparr>pk_arrs = out, pk_dims = 0, pk_x = 1, pk_y = 1, pk_z = 1\<rparr>"
  have "pack_inv ?T ?m 0 ?p0"
    using out same_tile_one[of "[]"] by (simp add: pack_inv_def eff3_def consistent_def dims3_def)
  then obtain p where p: "pack_loop ?T ?m [0..<?m] ?p0 = Some p" "pack_inv ?T ?m ?m p"
    using pack_loop_ok[OF pk T(1,2)] by blast
  have a: "len3 8 (pk_arrs p)" "pk_dims p \<le> 6" "list_all consistent (dims3 (pk_dims p) (pk_arrs p))"
    "consistent (pk_x p, pk_y p, pk_z p)" "pk_x p = pk_z p \<or> narrow (pk_x p, pk_y p, pk_z p)"
    and ps: "same_tile (map tv (dims3 (pk_dims p) (pk_arrs p) @ [eff3 p])) (map tv (dims3 ?m ?T))"
    using p(2) pk by (auto simp: pack_inv_def pack_ok_def eff3_def)
  obtain d arrs new where f: "tile_fill_dim (pk_arrs p) (pk_dims p) (pk_x p) (pk_y p) (pk_z p) = Some (d, arrs)"
    "len3 8 arrs" "d \<le> pk_dims p + 2" "1 \<le> d" "dims3 d arrs = dims3 (pk_dims p) (pk_arrs p) @ new"
    "list_all consistent new" "same_tile (map tv new) [tv (pk_x p, pk_y p, pk_z p)]"
    by (rule pack_append[OF a]) (rule that; assumption)
  have "same_tile (map tv (dims3 d arrs)) (map tv (dims3 (pk_dims p) (pk_arrs p) @ [eff3 p]))"
    using same_tile_append[OF same_tile_refl f(7)] by (simp add: f(5) eff3_def)
  from same_tile_trans[OF same_tile_trans[OF this ps] T(4)]
  have fin: "same_tile (map tv (dims3 d arrs)) (map tv (dims3 n ?A))" .
  have cons: "list_all consistent (dims3 d arrs)" using f(5,6) a(3) by simp
  have main: "optimize_tile_shape True xs ys zs out =
      (if d = 1 then do { arrs' \<leftarrow> write3 arrs 1 1 1 1; Some (Some (arrs', 2)) } else Some (Some (arrs, d)))"
    using narrow l st(1) p(1) f(1) by (simp add: optimize_tile_shape_def Let_def cp)
  show thesis
  proof (cases "d = 1")
    case True
    obtain arrs' where w: "write3 arrs 1 1 1 1 = Some arrs'" "len3 8 arrs'" "at3 arrs' 1 = (1, 1, 1)"
      "\<And>k. k \<noteq> 1 \<Longrightarrow> at3 arrs' k = at3 arrs k"
      using write3_ok[OF f(2), of 1 1 1 1] by auto
    obtain ox oy oz where o: "arrs' = (ox, oy, oz)" by (cases arrs') auto
    have d2: "dims3 2 arrs' = dims3 d arrs @ [(1, 1, 1)]"
      using dims3_extend[of 1 arrs' arrs 1] w(3,4) True by (simp add: numeral_2_eq_2)
    show thesis
      using main True w(1,2) d2 cons same_tile_trans[OF same_tile_one fin]
      by (intro that[of ox oy oz 2]) (simp_all add: o consistent_def)
  next
    case False
    obtain ox oy oz where o: "arrs = (ox, oy, oz)" by (cases arrs) auto
    show thesis using main False f(2,3,4) a(2) cons fin by (intro that[of ox oy oz d]) (simp_all add: o)
  qed
qed


subsection \<open>The properties\<close>

text \<open>
  C9: for up to four dimensions whose outputs are narrower than the GPU limit and equal the
  input times the multiple, \<open>vsi_nn_kernel_optimize_tile_shape\<close> stays in its arrays and
  returns shapes that describe the same tiling: every position of the output reads the same
  position of the input, the numbers of elements are kept, and every returned dimension of
  the output is the one of the input times its multiple.
\<close>

theorem tile_shape_sound:
  assumes "0 < length xs" "length xs \<le> 4" "length ys = length xs" "length zs = length xs"
    "\<forall>k < length xs. unat (xs ! k) * unat (ys ! k) = unat (zs ! k) \<and> 0 < zs ! k \<and>
       zs ! k < GPU_TENSOR_MAX_WIDTH"
    "num zs < 2 ^ 32" "len3 8 out"
  shows "\<exists>ox oy oz d. optimize_tile_shape True xs ys zs out = Some (Some ((ox, oy, oz), d)) \<and>
    2 \<le> d \<and> d \<le> 8 \<and> (\<forall>k < d. unat (ox ! k) * unat (oy ! k) = unat (oz ! k)) \<and>
    tidx (view ox oz d) = tidx (view xs zs (length xs)) \<and>
    num_in (view ox oz d) = num xs \<and> num_out (view ox oz d) = num zs"
proof -
  have z: "map (zsize (xs, ys, zs)) [0..<length xs] = zs"
    using assms(4) by (auto intro!: nth_equalityI simp: zsize_def at3_def)
  have ok: "tile_ok (length xs) (xs, ys, zs)"
    using assms unfolding tile_ok_def z by (simp add: len3_def at3_def consistent_def zsize_def)
  obtain ox oy oz d where o: "optimize_tile_shape True xs ys zs out = Some (Some ((ox, oy, oz), d))"
    "2 \<le> d" "d \<le> 8" "list_all consistent (dims3 d (ox, oy, oz))" "len3 8 (ox, oy, oz)"
    "same_tile (map tv (dims3 d (ox, oy, oz))) (map tv (dims3 (length xs) (xs, ys, zs)))"
    by (rule optimize_tile_ok[OF ok assms(1,7)]) (rule that; assumption)
  have v: "map tv (dims3 d (ox, oy, oz)) = view ox oz d"
    "map tv (dims3 (length xs) (xs, ys, zs)) = view xs zs (length xs)"
    using o(3,5) assms(4) by (intro map_tv_dims3; simp add: len3_def)+
  have i: "num_in (view xs zs (length xs)) = num xs" "num_out (view xs zs (length xs)) = num zs"
    using assms(4) by (simp_all add: num_in_def num_out_def view_def num_def)
  show ?thesis using o(1-4,6) unfolding v same_tile_def i
    by (auto simp: list_all_dims3 at3_def consistent_def)
qed

theorem tile_shape_sound_witness:
  "\<exists>ox oy oz d. optimize_tile_shape True [2, 1, 1, 5] [3, 4, 5, 1] [6, 4, 5, 5]
      (replicate 8 0, replicate 8 0, replicate 8 0) = Some (Some ((ox, oy, oz), d)) \<and>
    2 \<le> d \<and> d \<le> 8 \<and> (\<forall>k < d. unat (ox ! k) * unat (oy ! k) = unat (oz ! k)) \<and>
    tidx (view ox oz d) = tidx (view [2, 1, 1, 5] [6, 4, 5, 5] (length [2, 1, 1, 5 :: vsi_size_t])) \<and>
    num_in (view ox oz d) = num [2, 1, 1, 5] \<and> num_out (view ox oz d) = num [6, 4, 5, 5]"
  by (rule tile_shape_sound)
    (simp_all add: GPU_TENSOR_MAX_WIDTH_def len3_def All_less_Suc)

lemma divisor_65536: "compute_gpu_divisor 65536 65536 1 = Some 32768"
proof -
  obtain d :: vsi_size_t where d: "compute_gpu_divisor 65536 65536 1 = Some d" "0 < d" "d < 65536"
    "unat d dvd unat (65536 :: vsi_size_t)"
    "\<And>e. e < 65536 \<Longrightarrow> unat e dvd unat (65536 :: vsi_size_t) \<Longrightarrow> e \<le> d"
    using compute_gpu_divisor_spec[of "65536 :: vsi_size_t" 65536] by auto
  have "32768 \<le> unat d" using d(5)[of 32768] by (simp add: word_le_nat_alt)
  moreover have "unat d < 65536" using d(3) by (simp add: word_less_nat_alt)
  moreover have dv: "unat d dvd 65536" using d(4) by simp
  obtain k where k: "65536 = unat d * k" using dv by (rule dvdE)
  ultimately have "unat d = 32768"
  proof -
    assume a: "32768 \<le> unat d" "unat d < 65536"
    have "k \<noteq> 0" using k by (intro notI) simp
    moreover have "k \<noteq> 1" using k a(2) by (intro notI) simp
    ultimately have "2 \<le> k" by simp
    moreover have "k \<le> 2"
    proof (rule ccontr)
      assume "\<not> k \<le> 2"
      then have "32768 * 3 \<le> unat d * k" using a(1) by (intro mult_le_mono) simp_all
      then show False using k by simp
    qed
    ultimately have "k = 2" by simp
    then show ?thesis using k by simp
  qed
  then have "d = 32768" using unat_eq_iff[of d 32768] by simp
  then show ?thesis using d(1) by simp
qed

text \<open>
  an output of exactly 65536 elements passes the width test (which refuses only more than
  65536), but is split in two dimensions. When a single one-element dimension repeated 65536
  times stands in front of the last dimension, the split overwrites that last dimension
  before it is read, and its copy is then written behind the end of the temporary arrays.
\<close>

theorem tile_split_overwrites:
  assumes "s \<noteq> 1" "s \<le> 65536"
  shows "optimize_tile_shape True [1, s] [65536, 1] [65536, s] out = None"
proof -
  have w: "\<not> (65536 :: vsi_size_t) < GPU_TENSOR_MAX_WIDTH" "\<not> GPU_TENSOR_MAX_WIDTH < s"
    "\<not> GPU_TENSOR_MAX_WIDTH < (65536 div 32768 :: vsi_size_t)"
    using assms(2) by (simp_all add: GPU_TENSOR_MAX_WIDTH_def not_less)
  have fill: "tile_fill_dim ([1, s], [65536, 1], [65536, s]) 0 1 65536 65536 =
      Some (2, ([1, 1], [32768, 2], [32768, 2]))"
    using w divisor_65536 by (simp add: tile_fill_dim_def Let_def GPU_TENSOR_MAX_WIDTH_def MAX_DIM_NUM_def write3_def)
  have u: "[0..<2] = [0, 1 :: nat]" by (simp add: upt_rec)
  have loop: "tile_loop 2 [0, 1] \<lparr>tl_arrs = ([1, s], [65536, 1], [65536, s]), tl_rank = 0, tl_start = None\<rparr> = None"
    using assms(1) fill
    by (simp add: tile_step_def tile_copy_step_def run_sizes_def run_size_def copy_dim_def write3_def)
  have l: "length [65536, 1 :: vsi_size_t] = 2" "length [65536, s] = 2"
    and cp: "copy_prefix 2 [a, b] (replicate 2 0) = Some [a, b]" for a b
    by (simp_all add: copy_prefix_def)
  have wide: "\<not> list_ex (\<lambda>s. s > GPU_TENSOR_MAX_WIDTH) [65536, s]"
    using w(2) by (simp add: GPU_TENSOR_MAX_WIDTH_def)
  show ?thesis unfolding optimize_tile_shape_def Let_def l cp u
    by (simp only: wide loop Option.bind.simps if_False if_True not_True_eq_False)
qed

theorem tile_split_overwrites_witness:
  "optimize_tile_shape True [1, 5] [65536, 1] [65536, 5] (replicate 8 0, replicate 8 0, replicate 8 0) = None"
  by (rule tile_split_overwrites) simp_all

end
