(* ===== verification/Op_Infer.thy ===== *)
theory Op_Infer
  imports Op_Shape Kernel_Matmul Kernel_Tile
begin

text \<open>
  What the setup functions of \<open>Op_Shape\<close> compute: the shapes of the outputs, that these suit the
  shape optimizers of the kernels, and that no array is left for operands of the right ranks.
\<close>

subsection \<open>Loops that fill an array\<close>

lemma fill_ok:
  assumes "\<And>k. k < n \<Longrightarrow> f (i + k) = Some (v (i + k))" "j + n \<le> length xs"
  shows "fill n i j f xs = Some (take j xs @ map v [i..<i + n] @ drop (j + n) xs)"
  using assms
proof (induction n arbitrary: i j xs)
  case (Suc n)
  have "fill n (Suc i) (Suc j) f (xs[j := v i]) =
      Some (take (Suc j) (xs[j := v i]) @ map v [Suc i..<Suc i + n] @ drop (Suc j + n) (xs[j := v i]))"
  proof (rule Suc.IH)
    show "f (Suc i + k) = Some (v (Suc i + k))" if "k < n" for k using Suc.prems(1)[of "Suc k"] that by simp
  qed (use Suc.prems(2) in simp)
  then show ?case using Suc.prems(1)[of 0] Suc.prems(2)
    by (simp add: take_Suc_conv_app_nth upt_conv_Cons del: upt_Suc)
qed simp

lemma fill_Some:
  "fill n i j f xs = Some ys \<Longrightarrow> length ys = length xs \<and> (\<forall>k < n. f (i + k) = Some (ys ! (j + k))) \<and>
    (\<forall>m. m < j \<or> j + n \<le> m \<longrightarrow> ys ! m = xs ! m) \<and> (n = 0 \<or> j + n \<le> length xs)"
proof (induction n arbitrary: i j xs)
  case (Suc n)
  obtain v where v: "f i = Some v" "j < length xs" "fill n (Suc i) (Suc j) f (xs[j := v]) = Some ys"
    using Suc.prems by (auto simp: wr_eq_Some_iff)
  note ih = Suc.IH[OF v(3)]
  have "f (i + k) = Some (ys ! (j + k))" if "k < Suc n" for k
    using ih v(1,2) that by (cases k) auto
  then show ?case using ih v(2) by (auto simp: nth_list_update)
qed simp

lemma fill_copy:
  "i + n \<le> length src \<Longrightarrow> j + n \<le> length xs \<Longrightarrow>
    fill n i j (rd src) xs = Some (take j xs @ take n (drop i src) @ drop (j + n) xs)"
proof -
  assume a: "i + n \<le> length src" "j + n \<le> length xs"
  have "map ((!) src) [i..<i + n] = take n (drop i src)"
    using a(1) by (intro nth_equalityI) (auto simp: nth_append)
  then show ?thesis using fill_ok[of n "rd src" i "(!) src" j xs] a by simp
qed

subsection \<open>Shapes\<close>

text \<open>The dimensions of a tensor of known rank that is not a scalar.\<close>

definition shp :: "tshape \<Rightarrow> vsi_size_t list" where
  "shp t = take (unat (ts_dim t)) (ts_size t)"

definition tensor_ok :: "tshape \<Rightarrow> bool" where
  "tensor_ok t \<longleftrightarrow> length (ts_size t) = 8 \<and> 1 \<le> unat (ts_dim t) \<and> unat (ts_dim t) \<le> 8 \<and> \<not> ts_scalar t"

definition size_at :: "tshape \<Rightarrow> nat \<Rightarrow> vsi_size_t" where
  "size_at t i = (if i < unat (ts_dim t) then ts_size t ! i else 1)"

text \<open>An output whose shape is to be computed.\<close>

definition auto_shape :: "tshape \<Rightarrow> bool" where
  "auto_shape out \<longleftrightarrow> ts_dim out = 0 \<and> length (ts_size out) = 8 \<and> \<not> ts_scalar out"

lemma length_shp [simp]: "tensor_ok t \<Longrightarrow> length (shp t) = unat (ts_dim t)"
  by (simp add: shp_def tensor_ok_def)

lemma shp_nth: "i < unat (ts_dim t) \<Longrightarrow> shp t ! i = ts_size t ! i"
  by (simp add: shp_def)

lemma size_at_shp: "tensor_ok t \<Longrightarrow> size_at t i = (if i < length (shp t) then shp t ! i else 1)"
  by (simp add: size_at_def shp_nth)

lemma size_or_1_ok: "tensor_ok t \<Longrightarrow> size_or_1 t (ts_dim t) i = Some (size_at t i)"
  by (auto simp: size_or_1_def size_at_def tensor_ok_def)

lemma tensor_dims_ok: "tensor_ok t \<Longrightarrow> tensor_dims t = ts_dim t"
  by (simp add: tensor_dims_def tensor_ok_def)

lemma sizes_at_shp: "\<forall>t \<in> set ins. tensor_ok t \<Longrightarrow> sizes_at (map shp ins) i = map (\<lambda>t. size_at t i) ins"
  by (simp add: sizes_at_def size_at_shp)

lemma rank_le_8: "tensor_ok t \<Longrightarrow> ts_dim t \<le> 8"
  by (simp add: tensor_ok_def word_le_nat_alt)

text \<open>The shape that an array of 8 entries gets when its first \<open>d\<close> entries are written.\<close>

lemma tensor_ok_update:
  assumes "auto_shape out" "length ss = 8" "1 \<le> unat d" "unat d \<le> 8"
  shows "tensor_ok (out\<lparr>ts_size := ss, ts_dim := d\<rparr>)" "shp (out\<lparr>ts_size := ss, ts_dim := d\<rparr>) = take (unat d) ss"
  using assms by (simp_all add: tensor_ok_def auto_shape_def shp_def)

subsection \<open>Element-wise operations\<close>

definition max_at :: "tshape list \<Rightarrow> nat \<Rightarrow> vsi_size_t" where
  "max_at ins i = foldr (\<lambda>t m. max (size_at t i) m) ins 1"

definition ranks :: "tshape list \<Rightarrow> uint32" where "ranks ins = foldr (\<lambda>t m. max (ts_dim t) m) ins 0"

text \<open>Shapes that broadcast together: at every dimension each size is 1 or a common size.\<close>

definition compatible :: "tshape list \<Rightarrow> bool" where
  "compatible ins \<longleftrightarrow> (\<forall>i < 8. \<exists>n. n \<noteq> 0 \<and> (\<forall>t \<in> set ins. size_at t i \<in> {1, n}))"

lemma max_rank_eq: "\<forall>t \<in> set ts. tensor_ok t \<Longrightarrow> max_rank r ts = max r (ranks ts)"
  by (induction ts arbitrary: r) (auto simp: ranks_def tensor_dims_ok max.assoc)

lemma ranks_bound:
  assumes "\<forall>t \<in> set ins. tensor_ok t" "ins \<noteq> []"
  shows "1 \<le> ranks ins" "ranks ins \<le> 8"
proof -
  have "ranks ins \<le> 8" using assms(1) by (induction ins) (auto simp: ranks_def rank_le_8)
  then show "ranks ins \<le> 8" .
  obtain t ts where t: "ins = t # ts" using assms(2) by (cases ins) auto
  have "ts_dim t \<le> ranks ins" by (simp add: t ranks_def)
  moreover have "1 \<le> ts_dim t" using assms(1) by (simp add: t tensor_ok_def word_le_nat_alt)
  ultimately show "1 \<le> ranks ins" by simp
qed

lemma max_in: "x \<in> {1, n} \<Longrightarrow> y \<in> {1, n} \<Longrightarrow> max x y \<in> {1, n :: vsi_size_t}"
  by (auto simp: max_def)

lemma elt_dim_ok:
  assumes "n \<noteq> 0"
  shows "\<forall>t \<in> set ts. tensor_ok t \<and> size_at t i \<in> {1, n} \<Longrightarrow> s \<in> {1, n} \<Longrightarrow>
    elt_dim ts i s = Some (Some (max s (max_at ts i)))"
proof (induction ts arbitrary: s)
  case Nil
  have "(1 :: vsi_size_t) \<le> s" using Nil.prems(2) assms by (auto simp: word_le_nat_alt unat_eq_0 Suc_le_eq unat_gt_0)
  then show ?case by (simp add: max_at_def max.absorb1)
next
  case (Cons t ts)
  have n1: "1 \<le> n" using assms by (simp add: word_le_nat_alt Suc_le_eq unat_gt_0)
  have t: "tensor_ok t" "size_at t i \<in> {1, n}" using Cons.prems(1) by auto
  have m: "max s (size_at t i) \<in> {1, n}" using Cons.prems(2) t(2) by (rule max_in)
  have "\<not> (max s (size_at t i) \<noteq> size_at t i \<and> max s (size_at t i) \<noteq> 1 \<and> size_at t i \<noteq> 1)"
    using t(2) Cons.prems(2) n1 by (auto simp: max_def)
  moreover have "elt_dim ts i (max s (size_at t i)) = Some (Some (max (max s (size_at t i)) (max_at ts i)))"
    using Cons.prems(1) m by (intro Cons.IH) auto
  ultimately show ?case using t(1)
    by (simp add: tensor_dims_ok size_or_1_ok max_at_def max.assoc Let_def)
qed

lemma elt_loop_ok:
  assumes "tensor_ok t0" "\<forall>t \<in> set ts. tensor_ok t" "compatible (t0 # ts)"
  shows "i + n \<le> 8 \<Longrightarrow> length shape = 8 \<Longrightarrow>
    elt_loop t0 ts i n shape = Some (Some (take i shape @ map (max_at (t0 # ts)) [i..<i + n] @ drop (i + n) shape))"
proof (induction n arbitrary: i shape)
  case (Suc n)
  have "i < 8" using Suc.prems(1) by simp
  then obtain k where k: "k \<noteq> 0" "\<forall>t \<in> set (t0 # ts). size_at t i \<in> {1, k}"
    using assms(3) unfolding compatible_def by blast
  have "elt_dim ts i (size_at t0 i) = Some (Some (max_at (t0 # ts) i))"
    using elt_dim_ok[OF k(1), of ts i "size_at t0 i"] assms(2) k(2) by (simp add: max_at_def)
  then show ?case
    using Suc.IH[of "Suc i" "shape[i := max_at (t0 # ts) i]"] Suc.prems assms(1)
    by (simp add: tensor_dims_ok size_or_1_ok take_Suc_conv_app_nth upt_conv_Cons del: upt_Suc)
qed simp

lemma max_at_group:
  assumes "n \<noteq> 0" "\<forall>t \<in> set ins. size_at t i \<in> {1, n}"
  shows "group_ok (map (\<lambda>t. size_at t i) ins) (max_at ins i)"
proof -
  have n1: "1 \<le> n" using assms(1) by (simp add: word_le_nat_alt Suc_le_eq unat_gt_0)
  have m: "max_at ins i \<in> {1, n} \<and> (\<forall>t \<in> set ins. size_at t i \<le> max_at ins i) \<and>
      (max_at ins i \<noteq> 1 \<longrightarrow> max_at ins i \<in> (\<lambda>t. size_at t i) ` set ins)"
    using assms(2)
  proof (induction ins)
    case (Cons t ts)
    then show ?case using n1 by (auto simp: max_at_def max_def)
  qed (simp add: max_at_def)
  have "size_at t i = 1 \<or> size_at t i = max_at ins i" if "t \<in> set ins" for t
  proof (cases "max_at ins i = n")
    case False
    then have "size_at t i \<le> 1" "max_at ins i = 1" using m that by auto
    then show ?thesis using assms(2) n1 that by (metis antisym insertE singletonD)
  qed (use assms(2) that in auto)
  moreover have "0 < max_at ins i" using m assms(1) by (auto simp: word_neq_0_conv)
  ultimately show ?thesis using m by (auto simp: group_ok_def)
qed

text \<open>The shape that element-wise setup computes, and that it is a broadcast of the inputs.\<close>

definition eltwise_shape :: "tshape list \<Rightarrow> vsi_size_t list" where
  "eltwise_shape ins = map (max_at ins) [0..<unat (ranks ins)]"

lemma eltwise_shape_valid:
  assumes "\<forall>t \<in> set ins. tensor_ok t" "ins \<noteq> []" "compatible ins" "prod_list (map unat (eltwise_shape ins)) < 2 ^ 32"
  shows "valid_broadcast (map shp ins) (eltwise_shape ins)"
proof -
  have "group_ok (sizes_at (map shp ins) i) (max_at ins i)" if "i < unat (ranks ins)" for i
  proof -
    have "i < 8" using that ranks_bound(2)[OF assms(1,2)] by (simp add: word_le_nat_alt)
    then obtain n where "n \<noteq> 0" "\<forall>t \<in> set ins. size_at t i \<in> {1, n}"
      using assms(3) unfolding compatible_def by blast
    then show ?thesis using max_at_group sizes_at_shp[OF assms(1)] by simp
  qed
  then show ?thesis using assms(2,4) by (simp add: valid_broadcast_def eltwise_shape_def list_all_iff)
qed

lemma eltwise_setup_ok:
  assumes "\<forall>t \<in> set ins. tensor_ok t" "2 \<le> length ins" "compatible ins" "auto_shape out"
  obtains out' where "op_eltwise_setup ins out = Some (True, out')" "tensor_ok out'" "shp out' = eltwise_shape ins"
proof -
  obtain t0 t1 ts where ins: "ins = t0 # t1 # ts" using assms(2) by (cases ins; cases "tl ins") auto
  let ?d = "ranks ins" let ?s = "eltwise_shape ins @ drop (unat ?d) (replicate 8 0)"
  have d: "1 \<le> unat ?d" "unat ?d \<le> 8"
    using ranks_bound[OF assms(1)] ins by (simp_all add: word_le_nat_alt)
  have r: "max_rank (tensor_dims t0) (tl ins) = ?d"
    using assms(1) by (simp add: ins max_rank_eq tensor_dims_ok) (simp add: ranks_def max.assoc)
  have "elt_loop t0 (tl ins) 0 (unat ?d) (replicate 8 0) = Some (Some ?s)"
    using elt_loop_ok[of t0 "tl ins" 0 "unat ?d" "replicate 8 0"] assms(1,3) d
    by (simp add: ins eltwise_shape_def)
  moreover have "fill (unat ?d) 0 0 (rd ?s) (ts_size out) = Some (eltwise_shape ins @ drop (unat ?d) (ts_size out))"
    using fill_copy[of 0 "unat ?d" ?s 0 "ts_size out"] assms(4) d by (simp add: eltwise_shape_def auto_shape_def)
  ultimately have "op_eltwise_setup ins out =
      Some (True, out\<lparr>ts_size := eltwise_shape ins @ drop (unat ?d) (ts_size out), ts_dim := ?d\<rparr>)"
    using assms(1,4) r by (simp add: op_eltwise_setup_def ins tensor_ok_def auto_shape_def Let_def)
  moreover have "length (eltwise_shape ins) = unat ?d" by (simp add: eltwise_shape_def)
  ultimately show thesis
    using that tensor_ok_update[OF assms(4) _ d, of "eltwise_shape ins @ drop (unat ?d) (ts_size out)"] assms(4) d
    by (simp add: auto_shape_def)
qed

subsection \<open>Matrix multiplication\<close>

definition batches_compatible :: "tshape \<Rightarrow> tshape \<Rightarrow> bool" where
  "batches_compatible a b \<longleftrightarrow> (\<forall>i \<ge> 2. \<exists>n. n \<noteq> 0 \<and> size_at a i \<in> {1, n} \<and> size_at b i \<in> {1, n})"

text \<open>The shape of a product of two tensors that are at least matrices.\<close>

definition matmul_shape :: "bool \<Rightarrow> bool \<Rightarrow> tshape \<Rightarrow> tshape \<Rightarrow> vsi_size_t list" where
  "matmul_shape tr0 tr1 a b =
     ts_size b ! (if tr1 then 1 else 0) # ts_size a ! (if tr0 then 0 else 1) #
     map (\<lambda>i. max (size_at a i) (size_at b i)) [2..<unat (max (ts_dim a) (ts_dim b))]"

lemma matmul_setup_ok:
  assumes t: "tensor_ok a" "tensor_ok b" "2 \<le> unat (ts_dim a)" "2 \<le> unat (ts_dim b)"
    and "\<not> (tr0 \<and> tr1)" "auto_shape out"
  obtains out' where "op_matmul_setup tr0 tr1 a b out = Some (True, out')" "tensor_ok out'"
    "ts_dim out' = max (ts_dim a) (ts_dim b)" "shp out' = matmul_shape tr0 tr1 a b"
proof -
  let ?d = "max (ts_dim a) (ts_dim b)"
  have d: "unat ?d \<le> 8" "2 \<le> unat ?d"
    using t by (auto simp: max_def tensor_ok_def)
  have l: "length (ts_size a) = 8" "length (ts_size b) = 8" "length (ts_size out) = 8" "ts_dim out = 0"
    using t(1,2) assms(6) by (simp_all add: tensor_ok_def auto_shape_def)
  have not1: "ts_dim a \<noteq> 1" "ts_dim b \<noteq> 1" using t(3,4) by auto
  let ?s = "(ts_size out)[0 := ts_size b ! (if tr1 then 1 else 0), 1 := ts_size a ! (if tr0 then 0 else 1)]"
  have "fill (unat ?d - 2) 2 2 (matmul_dim a b) ?s =
      Some (take 2 ?s @ map (\<lambda>i. max (size_at a i) (size_at b i)) [2..<2 + (unat ?d - 2)] @ drop (2 + (unat ?d - 2)) ?s)"
    by (rule fill_ok) (use d l t in \<open>simp_all add: matmul_dim_def size_or_1_ok\<close>)
  moreover have two: "take 2 ?s = [ts_size b ! (if tr1 then 1 else 0), ts_size a ! (if tr0 then 0 else 1)]"
    using l(3) by (cases "ts_size out"; cases "tl (ts_size out)") (auto simp: numeral_2_eq_2)
  ultimately have f: "fill (unat ?d - 2) 2 2 (matmul_dim a b) ?s = Some (matmul_shape tr0 tr1 a b @ drop (unat ?d) ?s)"
    using d(2) by (simp only: le_add_diff_inverse two matmul_shape_def append_Cons append_Nil)
  have "op_matmul_setup tr0 tr1 a b out =
      Some (True, out\<lparr>ts_size := matmul_shape tr0 tr1 a b @ drop (unat ?d) ?s, ts_dim := ?d\<rparr>)"
    using assms(5) l not1 f by (auto simp: op_matmul_setup_def Let_def)
  moreover have "length (matmul_shape tr0 tr1 a b) = unat ?d" using d by (simp add: matmul_shape_def)
  ultimately show thesis
    using that tensor_ok_update[OF assms(6) _ _ d(1), of "matmul_shape tr0 tr1 a b @ drop (unat ?d) ?s"] l d
    by simp
qed

lemma batch_shp: "tensor_ok a \<Longrightarrow> batch (unat (ts_dim a)) (ts_size a) = drop 2 (shp a)"
  by (simp add: batch_def shp_def drop_take)

lemma matmul_batches_valid:
  assumes t: "tensor_ok a" "tensor_ok b" "2 \<le> unat (ts_dim a)" "2 \<le> unat (ts_dim b)"
    and c: "batches_compatible a b" and "prod_list (map unat (drop 2 (matmul_shape tr0 tr1 a b))) < 2 ^ 32"
  shows "valid_broadcast [drop 2 (shp a), drop 2 (shp b)] (drop 2 (matmul_shape tr0 tr1 a b))"
proof -
  let ?o = "map (\<lambda>i. max (size_at a i) (size_at b i)) [2..<unat (max (ts_dim a) (ts_dim b))]"
  have o: "drop 2 (matmul_shape tr0 tr1 a b) = ?o" by (simp add: matmul_shape_def)
  have "group_ok (sizes_at [drop 2 (shp a), drop 2 (shp b)] i) (?o ! i)" if i: "i < length ?o" for i
  proof -
    have s: "sizes_at [drop 2 (shp a), drop 2 (shp b)] i = map (\<lambda>t. size_at t (2 + i)) [a, b]"
      using t by (auto simp: sizes_at_def size_at_shp)
    obtain n where n: "n \<noteq> 0" "size_at a (2 + i) \<in> {1, n}" "size_at b (2 + i) \<in> {1, n}"
      using c unfolding batches_compatible_def by (meson le_add1)
    have "group_ok (map (\<lambda>t. size_at t (2 + i)) [a, b]) (max_at [a, b] (2 + i))"
      using n by (intro max_at_group[of n]) auto
    moreover have "1 \<le> size_at b (2 + i)" using n(1,3) by (auto simp: word_le_nat_alt Suc_le_eq unat_gt_0)
    then have "max_at [a, b] (2 + i) = max (size_at a (2 + i)) (size_at b (2 + i))"
      by (simp add: max_at_def max.absorb1)
    ultimately show ?thesis unfolding s using i by simp
  qed
  then show ?thesis using assms(6) unfolding o by (simp add: valid_broadcast_def list_all_iff del: length_map)
qed

subsection \<open>Reshaping\<close>

lemma shape_product_words:
  "i + n \<le> length shape \<Longrightarrow> shape_product_loop shape i n res = Some (res * (\<Prod>k = i..<i + n. shape ! k))"
  by (induction n arbitrary: i res) (simp_all add: prod.atLeast_Suc_lessThan mult.assoc)

lemma ShapeProduct_words:
  "n \<le> length shape \<Longrightarrow> ShapeProduct shape n = Some (of_nat (\<Prod>k<n. unat (shape ! k)))"
  using shape_product_words[of 0 n shape 1] by (simp add: ShapeProduct_def atLeast0LessThan of_nat_prod)

lemma num_elems_shp: "tensor_ok t \<Longrightarrow> num_elems (shp t) = (\<Prod>k<unat (ts_dim t). unat (ts_size t ! k))"
  using prod.list_conv_set_nth[of "map unat (shp t)"] by (simp add: num_elems_def atLeast0LessThan shp_nth)

text \<open>
  The number an entry of the shape asks for: 0 stands for the size of the input. \<open>known\<close> is the
  product of the entries that are not -1.
\<close>

definition asked :: "tshape \<Rightarrow> vsi_size_t list \<Rightarrow> nat \<Rightarrow> vsi_size_t" where
  "asked t ss k = (if ss ! k = 0 then ts_size t ! k else ss ! k)"

definition known :: "tshape \<Rightarrow> vsi_size_t list \<Rightarrow> nat \<Rightarrow> nat" where
  "known t ss i = (\<Prod>k<i. if ss ! k = - 1 then 1 else unat (asked t ss k))"

definition neg_seen :: "vsi_size_t list \<Rightarrow> nat \<Rightarrow> nat option \<Rightarrow> bool" where
  "neg_seen ss i neg \<longleftrightarrow> (case neg of None \<Rightarrow> \<forall>k < i. ss ! k \<noteq> - 1 | Some k \<Rightarrow> k < i \<and> ss ! k = - 1)"

definition one_neg :: "vsi_size_t list \<Rightarrow> bool" where
  "one_neg ss \<longleftrightarrow> (\<forall>j < length ss. \<forall>k < length ss. ss ! j = - 1 \<longrightarrow> ss ! k = - 1 \<longrightarrow> j = k)"

definition shape_request :: "tshape \<Rightarrow> vsi_size_t list \<Rightarrow> bool" where
  "shape_request t ss \<longleftrightarrow> (\<forall>k < length ss. ss ! k = 0 \<longrightarrow> k < unat (ts_dim t)) \<and> one_neg ss"

lemma one_negD: "one_neg ss \<Longrightarrow> j < length ss \<Longrightarrow> k < length ss \<Longrightarrow> ss ! j = - 1 \<Longrightarrow> ss ! k = - 1 \<Longrightarrow> j = k"
  by (auto simp: one_neg_def)

lemma neg_seen_Suc:
  assumes "one_neg ss" "i < length ss" "neg_seen ss i neg"
  shows "ss ! i = - 1 \<Longrightarrow> neg = None \<and> neg_seen ss (Suc i) (Some i)"
    "ss ! i \<noteq> - 1 \<Longrightarrow> neg_seen ss (Suc i) neg"
proof -
  assume n: "ss ! i = - 1"
  have "neg \<noteq> Some k" for k
    using assms(3) one_negD[OF assms(1) _ assms(2) _ n, of k] assms(2) by (auto simp: neg_seen_def)
  then show "neg = None \<and> neg_seen ss (Suc i) (Some i)" using n by (cases neg) (auto simp: neg_seen_def)
qed (use assms(3) in \<open>auto simp: neg_seen_def less_Suc_eq split: option.splits\<close>)

lemma asked_nonzero:
  assumes t: "tensor_ok t" "0 \<notin> set (shp t)" and ss: "shape_request t ss" "k < length ss"
  shows "asked t ss k \<noteq> 0"
proof (cases "ss ! k = 0")
  case True
  then have "k < unat (ts_dim t)" using ss by (simp add: shape_request_def)
  then have "ts_size t ! k \<in> set (shp t)" using t(1) by (metis length_shp nth_mem shp_nth)
  then show ?thesis using True t(2) by (auto simp: asked_def)
qed (simp add: asked_def)

lemma of_nat_div_word:
  assumes "n < 2 ^ 32"
  shows "(of_nat n :: vsi_size_t) div a = of_nat (n div unat a)"
proof -
  have m: "m < 2 ^ 32 \<Longrightarrow> unat (of_nat m :: vsi_size_t) = m" for m by (simp add: unat_of_nat take_bit_nat_eq_self)
  have "n div unat a < 2 ^ 32" using assms by (rule le_less_trans[OF div_le_dividend])
  then have "unat ((of_nat n :: vsi_size_t) div a) = unat (of_nat (n div unat a) :: vsi_size_t)"
    by (simp only: unat_div_distrib m assms)
  then show ?thesis by (simp only: unat_eq_iff)
qed

text \<open>One round of the loop.\<close>

lemma auto_cal_step:
  assumes t: "tensor_ok t" "0 \<notin> set (shp t)" and ss: "shape_request t ss" and T: "T < 2 ^ 32"
    and i: "i < length ss" "i < 8" "shape ! i = ss ! i" "length shape = 8" and "ss ! i \<noteq> - 1"
  shows "auto_cal_loop (ts_size t) (ts_dim t) i (Suc n) shape (of_nat T) neg =
    auto_cal_loop (ts_size t) (ts_dim t) (Suc i) n (shape[i := asked t ss i]) (of_nat (T div unat (asked t ss i))) neg"
proof -
  have nz: "asked t ss i \<noteq> 0" by (rule asked_nonzero[OF t ss i(1)])
  note div = of_nat_div_word[OF T, symmetric]
  show ?thesis
  proof (cases "ss ! i = 0")
    case True
    have "i < unat (ts_dim t)" using True ss i(1) by (simp add: shape_request_def)
    then show ?thesis using True nz i t(1) by (simp add: udiv_def asked_def div not_le tensor_ok_def)
  next
    case False
    then have "shape[i := asked t ss i] = shape" using i by (metis asked_def list_update_id)
    then show ?thesis using False i assms(9) by (simp add: udiv_def asked_def div)
  qed
qed

lemma auto_cal_loop_ok:
  assumes t: "tensor_ok t" "0 \<notin> set (shp t)" and ss: "shape_request t ss" "length ss \<le> 8" and N: "N < 2 ^ 32"
  shows "i + n = length ss \<Longrightarrow> length shape = 8 \<Longrightarrow> \<forall>k < i. shape ! k = asked t ss k \<Longrightarrow>
    \<forall>k < length ss. i \<le> k \<longrightarrow> shape ! k = ss ! k \<Longrightarrow> neg_seen ss i neg \<Longrightarrow>
    \<exists>r. auto_cal_loop (ts_size t) (ts_dim t) i n shape (of_nat (N div known t ss i)) neg = Some (True, r) \<and>
      length r = 8 \<and> (\<forall>k < length ss. r ! k = (if ss ! k = - 1 then of_nat (N div known t ss (length ss)) else asked t ss k))"
proof (induction n arbitrary: i shape neg)
  case 0
  have i: "i = length ss" using 0(1) by simp
  have one: "one_neg ss" using ss(1) by (simp add: shape_request_def)
  show ?case
  proof (cases neg)
    case (Some j)
    then have j: "j < length ss" "ss ! j = - 1" using 0(5) i by (auto simp: neg_seen_def)
    have "ss ! m = - 1 \<longleftrightarrow> m = j" if "m < length ss" for m using one_negD[OF one that j(1) _ j(2)] j(2) by blast
    then show ?thesis using Some 0(2,3) i j(1) ss(2) by (auto simp: nth_list_update)
  qed (use 0 i in \<open>auto simp: neg_seen_def\<close>)
next
  case (Suc n)
  have i: "i < length ss" "i < 8" "shape ! i = ss ! i" using Suc.prems ss(2) by auto
  have one: "one_neg ss" using ss(1) by (simp add: shape_request_def)
  have known: "known t ss (Suc i) = known t ss i * (if ss ! i = - 1 then 1 else unat (asked t ss i))"
    by (simp add: known_def)
  have T: "N div known t ss i < 2 ^ 32" using N by (rule le_less_trans[OF div_le_dividend])
  let ?s = "shape[i := asked t ss i]"
  have ask: "\<forall>k < Suc i. ?s ! k = asked t ss k" using Suc.prems(2,3) i(2) by (auto simp: less_Suc_eq nth_list_update)
  have rest: "\<forall>k < length ss. Suc i \<le> k \<longrightarrow> ?s ! k = ss ! k" using Suc.prems(4) by simp
  show ?case
  proof (cases "ss ! i = - 1")
    case True
    have "asked t ss i = shape ! i" using True i(3) by (simp add: asked_def)
    then have "?s = shape" by simp
    then have a: "\<forall>k < Suc i. shape ! k = asked t ss k" using ask by simp
    have "auto_cal_loop (ts_size t) (ts_dim t) i (Suc n) shape (of_nat (N div known t ss i)) neg =
        auto_cal_loop (ts_size t) (ts_dim t) (Suc i) n shape (of_nat (N div known t ss (Suc i))) (Some i)"
      using True i Suc.prems(2) neg_seen_Suc(1)[OF one i(1) Suc.prems(5) True] by (simp add: known)
    then show ?thesis
      using Suc.IH[of "Suc i" shape "Some i"] Suc.prems a neg_seen_Suc(1)[OF one i(1) Suc.prems(5) True] by simp
  next
    case False
    have "N div known t ss (Suc i) = N div known t ss i div unat (asked t ss i)" using False by (simp add: known div_mult2_eq)
    then show ?thesis
      using Suc.IH[of "Suc i" ?s neg] Suc.prems(1,2) ask rest neg_seen_Suc(2)[OF one i(1) Suc.prems(5) False]
        auto_cal_step[OF t ss(1) T i Suc.prems(2) False, of n neg] by simp
  qed
qed

text \<open>
  The whole of the setup: with a -1 the entries that are given have to divide the number of
  elements, without one their product has to be this number.
\<close>

lemma prod_split_one:
  assumes "(j :: nat) < n" "\<forall>k < n. k \<noteq> j \<longrightarrow> f k = g k" "g j = (1 :: nat)"
  shows "(\<Prod>k<n. f k) = (\<Prod>k<n. g k) * f j"
proof -
  have "(\<Prod>k<n. f k) = f j * (\<Prod>k \<in> {..<n} - {j}. f k)" using assms(1) by (simp add: prod.remove[of "{..<n}" j])
  also have "(\<Prod>k \<in> {..<n} - {j}. f k) = (\<Prod>k \<in> {..<n} - {j}. g k)" using assms(2) by (intro prod.cong) auto
  also have "\<dots> = (\<Prod>k<n. g k)" using assms(1,3) by (simp add: prod.remove[of "{..<n}" j])
  finally show ?thesis by (simp add: mult.commute)
qed

definition reshaped :: "tshape \<Rightarrow> vsi_size_t list \<Rightarrow> vsi_size_t list" where
  "reshaped t ss = map (\<lambda>k. if ss ! k = - 1 then of_nat (num_elems (shp t) div known t ss (length ss)) else asked t ss k)
     [0..<length ss]"

lemma reshaped_product:
  assumes one: "one_neg ss" and N: "num_elems (shp t) < 2 ^ 32"
  shows "(\<Prod>k<length ss. unat (reshaped t ss ! k)) =
    known t ss (length ss) * (if - 1 \<in> set ss then num_elems (shp t) div known t ss (length ss) else 1)"
proof (cases "- 1 \<in> set ss")
  case True
  let ?q = "num_elems (shp t) div known t ss (length ss)"
  obtain j where j: "j < length ss" "ss ! j = - 1" using True by (auto simp: in_set_conv_nth)
  have "?q < 2 ^ 32" using N by (rule le_less_trans[OF div_le_dividend])
  then have q: "unat (of_nat ?q :: vsi_size_t) = ?q" by (simp add: unat_of_nat take_bit_nat_eq_self)
  have "(\<Prod>k<length ss. unat (reshaped t ss ! k)) =
      (\<Prod>k<length ss. if ss ! k = - 1 then 1 else unat (asked t ss k)) * unat (reshaped t ss ! j)"
  proof (rule prod_split_one[OF j(1)])
    have "ss ! k \<noteq> - 1" if "k < length ss" "k \<noteq> j" for k using one_negD[OF one that(1) j(1) _ j(2)] that(2) by blast
    then show "\<forall>k < length ss. k \<noteq> j \<longrightarrow> unat (reshaped t ss ! k) = (if ss ! k = - 1 then 1 else unat (asked t ss k))"
      by (simp add: reshaped_def)
  qed (use j in simp)
  then show ?thesis using True j q by (simp add: known_def reshaped_def)
next
  case False
  then have "ss ! k \<noteq> - 1" if "k < length ss" for k using that by (metis nth_mem)
  then show ?thesis using False by (simp add: known_def reshaped_def)
qed

lemma reshape2_setup_ok:
  assumes t: "tensor_ok t" "0 \<notin> set (shp t)" "num_elems (shp t) < 2 ^ 32"
    and ss: "shape_request t ss" "0 < length ss" "length ss \<le> 8" and out: "auto_shape out"
  shows "op_reshape2_setup (Some ss) (of_nat (length ss)) t out =
    (if (if - 1 \<in> set ss then known t ss (length ss) dvd num_elems (shp t)
         else known t ss (length ss) mod 2 ^ 32 = num_elems (shp t))
     then Some (True, out\<lparr>ts_size := reshaped t ss @ drop (length ss) (ts_size out), ts_dim := of_nat (length ss)\<rparr>)
     else Some (False, out))"
proof -
  let ?N = "num_elems (shp t)" and ?d = "length ss" and ?P = "known t ss (length ss)"
  let ?shape = "ss @ drop ?d (replicate 8 0)"
  have d: "unat (of_nat ?d :: vsi_size_t) = ?d" "(of_nat ?d :: vsi_size_t) \<noteq> 0" "(of_nat ?d :: vsi_size_t) \<noteq> - 1"
    using ss(2,3) by (simp_all add: unat_of_nat take_bit_nat_eq_self word_unat_eq_iff unsigned_minus_1_eq_mask
      mask_eq_exp_minus_1)
  have copy: "fill ?d 0 0 (rd ss) (replicate 8 0) = Some ?shape" using fill_copy[of 0 ?d ss 0 "replicate 8 0"] ss(3) by simp
  have total: "ShapeProduct (ts_size t) (unat (ts_dim t)) = Some (of_nat ?N)"
    using ShapeProduct_words[of "unat (ts_dim t)" "ts_size t"] t(1) num_elems_shp[OF t(1)] by (simp add: tensor_ok_def)
  have len: "0 + length ss = length ss" "length ?shape = 8" "\<forall>k < length ss. 0 \<le> k \<longrightarrow> ?shape ! k = ss ! k"
    using ss(3) by (simp_all add: nth_append)
  have known0: "known t ss 0 = 1" by (simp add: known_def)
  obtain r where r: "auto_cal_loop (ts_size t) (ts_dim t) 0 ?d ?shape (of_nat ?N) None = Some (True, r)" "length r = 8"
    "\<forall>k < ?d. r ! k = (if ss ! k = - 1 then of_nat (?N div ?P) else asked t ss k)"
    using auto_cal_loop_ok[OF t(1,2) ss(1,3) t(3), of 0 ?d ?shape None] len known0 by (auto simp: neg_seen_def)
  have r_eq: "take ?d r = reshaped t ss" using r(2,3) ss(3) by (intro nth_equalityI) (auto simp: reshaped_def)
  have nth: "\<forall>k < ?d. r ! k = reshaped t ss ! k" using r(3) by (simp add: reshaped_def)
  have "ShapeProduct r ?d = Some (of_nat (\<Prod>k<?d. unat (reshaped t ss ! k)))"
    using ShapeProduct_words[of ?d r] r(2) ss(3) nth by simp
  moreover have "(of_nat ?N = (of_nat (\<Prod>k<?d. unat (reshaped t ss ! k)) :: vsi_size_t)) =
      (if - 1 \<in> set ss then ?P dvd ?N else ?P mod 2 ^ 32 = ?N)"
  proof -
    have e: "(of_nat ?N = (of_nat m :: vsi_size_t)) = (?N = m mod 2 ^ 32)" for m
      using t(3) by (simp add: word_unat_eq_iff unat_of_nat take_bit_eq_mod)
    have le: "?P * (?N div ?P) \<le> ?N" by (simp add: times_div_less_eq_dividend)
    have s: "?P * (?N div ?P) mod 2 ^ 32 = ?P * (?N div ?P)"
      using le t(3) by (intro mod_less) linarith
    have dv: "(?N = ?P * (?N div ?P)) = (?P dvd ?N)" by (metis dvd_mult_div_cancel dvd_triv_left)
    show ?thesis
      using ss(1) t(3) by (simp only: e reshaped_product shape_request_def s dv mult_1_right split: if_split) auto
  qed
  moreover have "fill ?d 0 0 (rd r) (ts_size out) = Some (reshaped t ss @ drop ?d (ts_size out))"
    using fill_copy[of 0 ?d r 0 "ts_size out"] r(2) ss(3) out r_eq by (simp add: auto_shape_def)
  ultimately show ?thesis
    using copy total r(1) d out
    by (simp add: op_reshape2_setup_def CalcReshapeTensor_def auto_cal_shape_def auto_shape_def Let_def)
qed

subsection \<open>Blocks between space and batch\<close>

lemma word_mult_div: "0 < b \<Longrightarrow> unat a * unat b < 2 ^ 32 \<Longrightarrow> a * b div b = (a :: vsi_size_t)"
  by (simp add: word_unat_eq_iff unat_div_distrib unat_mult_no_overflow word_less_nat_alt)

lemma word_div_mult: "unat b dvd unat a \<Longrightarrow> a div b * b = (a :: vsi_size_t)"
proof -
  assume "unat b dvd unat a"
  then have d: "unat a div unat b * unat b = unat a" by simp
  have "unat (a div b) * unat b < 2 ^ LENGTH(32)" using d unsigned_less[of a] by (simp add: unat_div_distrib)
  then have "unat (a div b * b) = unat a" using d by (simp add: unat_mult_no_overflow unat_div_distrib)
  then show ?thesis by (simp only: unat_eq_iff)
qed

text \<open>Block sizes that divide the padded sizes, and products that fit 32 bits.\<close>

definition blocks_fit :: "uint32 list \<Rightarrow> uint32 list \<Rightarrow> tshape \<Rightarrow> bool" where
  "blocks_fit bs ps t \<longleftrightarrow> length bs = 2 \<and> length ps = 4 \<and> 0 \<notin> set bs \<and>
     unat (bs ! 0) dvd unat (ps ! 0 + ps ! 1 + ts_size t ! 0) \<and>
     (if ts_dim t = 3 then unat (ts_size t ! 2) * unat (bs ! 0) < 2 ^ 32
      else unat (bs ! 1) dvd unat (ps ! 2 + ps ! 3 + ts_size t ! 1) \<and>
        unat (ts_size t ! 3) * unat (bs ! 0) * unat (bs ! 1) < 2 ^ 32)"

lemma take_3: "3 \<le> length xs \<Longrightarrow> take 3 xs = [xs ! 0, xs ! 1, xs ! 2]"
  by (rule nth_equalityI) (auto simp: less_Suc_eq numeral_eq_Suc)

lemma take_4: "4 \<le> length xs \<Longrightarrow> take 4 xs = [xs ! 0, xs ! 1, xs ! 2, xs ! 3]"
  by (rule nth_equalityI) (auto simp: less_Suc_eq numeral_eq_Suc)

lemma blocks_back:
  assumes t: "tensor_ok t" "ts_dim t = 3 \<or> ts_dim t = 4" and bs: "blocks_fit bs ps t"
    and out: "auto_shape out" "auto_shape out'"
  obtains m r where "op_space2batch_setup bs ps t out = Some (True, m)" "op_batch2space_setup bs ps m out' = Some (True, r)"
    "tensor_ok m" "shp r = shp t"
proof -
  have l: "length (ts_size t) = 8" "length (ts_size out) = 8" "length (ts_size out') = 8" "ts_dim out = 0" "ts_dim out' = 0"
    "\<not> ts_scalar out" using t(1) out by (simp_all add: tensor_ok_def auto_shape_def)
  have b: "length bs = 2" "length ps = 4" "0 < bs ! 0" "0 < bs ! 1" "bs ! 0 \<noteq> 0" "bs ! 1 \<noteq> 0"
    using bs by (auto simp: blocks_fit_def in_set_conv_nth word_neq_0_conv)
  let ?n0 = "ps ! 0 + ps ! 1 + ts_size t ! 0" let ?n1 = "ps ! 2 + ps ! 3 + ts_size t ! 1"
  have n0: "?n0 div bs ! 0 * bs ! 0 = ?n0" using bs by (intro word_div_mult) (simp add: blocks_fit_def)
  consider (three) "ts_dim t = 3" | (four) "ts_dim t = 4" using t(2) by blast
  then show thesis
  proof cases
    case three
    let ?s = "(ts_size out)[2 := ts_size t ! 2 * bs ! 0, 1 := ts_size t ! 1, 0 := ?n0 div bs ! 0]"
    let ?m = "out\<lparr>ts_dim := ts_dim t, ts_size := ?s\<rparr>"
    have q: "ts_size t ! 2 * bs ! 0 div bs ! 0 = ts_size t ! 2"
      using bs b(3) three by (intro word_mult_div) (simp_all add: blocks_fit_def)
    have m: "op_space2batch_setup bs ps t out = Some (True, ?m)"
      using l b three by (simp add: op_space2batch_setup_def is_3d_tensor_def udiv_def)
    let ?r = "(ts_size out')[2 := ts_size t ! 2, 1 := ts_size t ! 1, 0 := ts_size t ! 0]"
    have r: "op_batch2space_setup bs ps ?m out' = Some (True, out'\<lparr>ts_dim := ts_dim t, ts_size := ?r\<rparr>)"
      using l b three q n0 by (simp add: op_batch2space_setup_def is_3d_tensor_def udiv_def)
    have "tensor_ok ?m" using l three by (simp add: tensor_ok_def)
    moreover have "shp (out'\<lparr>ts_dim := ts_dim t, ts_size := ?r\<rparr>) = shp t"
      using l three by (simp add: shp_def take_3)
    ultimately show thesis by (rule that[OF m r])
  next
    case four
    let ?s = "(ts_size out)[3 := ts_size t ! 3 * bs ! 0 * bs ! 1, 2 := ts_size t ! 2, 1 := ?n1 div bs ! 1, 0 := ?n0 div bs ! 0]"
    let ?m = "out\<lparr>ts_dim := ts_dim t, ts_size := ?s\<rparr>"
    have n1: "?n1 div bs ! 1 * bs ! 1 = ?n1" using bs four by (intro word_div_mult) (simp add: blocks_fit_def)
    have fit: "unat (ts_size t ! 3) * unat (bs ! 0) * unat (bs ! 1) < 2 ^ 32" using bs four by (simp add: blocks_fit_def)
    have p: "0 < unat (bs ! 0)" "0 < unat (bs ! 1)" using b(3,4) by (simp_all add: word_less_nat_alt)
    have "unat (ts_size t ! 3) * unat (bs ! 0) \<le> unat (ts_size t ! 3) * unat (bs ! 0) * unat (bs ! 1)" using p by simp
    then have fit0: "unat (ts_size t ! 3) * unat (bs ! 0) < 2 ^ 32" using fit by linarith
    have "unat (ts_size t ! 3) * unat (bs ! 1) \<le> unat (ts_size t ! 3) * unat (bs ! 0) * unat (bs ! 1)" using p by simp
    then have fit1: "unat (ts_size t ! 3) * unat (bs ! 1) < 2 ^ 32" using fit by linarith
    have q: "ts_size t ! 3 * bs ! 0 * bs ! 1 div bs ! 0 div bs ! 1 = ts_size t ! 3"
    proof -
      have "ts_size t ! 3 * bs ! 1 * bs ! 0 div bs ! 0 = ts_size t ! 3 * bs ! 1"
        using b(3) fit fit1 by (intro word_mult_div) (simp_all add: unat_mult_no_overflow mult.commute mult.left_commute)
      moreover have "ts_size t ! 3 * bs ! 1 div bs ! 1 = ts_size t ! 3" by (rule word_mult_div[OF b(4) fit1])
      ultimately show ?thesis by (simp add: mult.commute mult.left_commute)
    qed
    have m: "op_space2batch_setup bs ps t out = Some (True, ?m)"
      using l b four by (simp add: op_space2batch_setup_def is_3d_tensor_def udiv_def)
    let ?r = "(ts_size out')[3 := ts_size t ! 3, 2 := ts_size t ! 2, 1 := ts_size t ! 1, 0 := ts_size t ! 0]"
    have r: "op_batch2space_setup bs ps ?m out' = Some (True, out'\<lparr>ts_dim := ts_dim t, ts_size := ?r\<rparr>)"
      using l b four q n0 n1 by (simp add: op_batch2space_setup_def is_3d_tensor_def udiv_def)
    have "tensor_ok ?m" using l four by (simp add: tensor_ok_def)
    moreover have "shp (out'\<lparr>ts_dim := ts_dim t, ts_size := ?r\<rparr>) = shp t"
      using l four by (simp add: shp_def take_4)
    ultimately show thesis by (rule that[OF m r])
  qed
qed

subsection \<open>Setup and kernels together\<close>

text \<open>
  The shape \<open>a\<close> that a kernel gets for an operand of shape \<open>s\<close>, with the shape \<open>o'\<close> of the output
  (\<open>os\<close> before), both of rank \<open>d\<close>.
\<close>

definition kernel_reads ::
  "vsi_size_t list \<Rightarrow> vsi_size_t list \<Rightarrow> nat \<Rightarrow> vsi_size_t list \<Rightarrow> vsi_size_t list \<Rightarrow> bool" where
  "kernel_reads a o' d s os \<longleftrightarrow>
     num_elems (take d a) = num_elems s \<and> num_elems (take d o') = num_elems os \<and>
     (\<forall>i. bidx (view a o' d) i = bidx (input_view s os) i)"

lemma dim_ranks: "t \<in> set ins \<Longrightarrow> ts_dim t \<le> ranks ins"
  by (induction ins) (auto simp: ranks_def le_max_iff_disj)

lemma shp_ranks: "j < length ins \<Longrightarrow> length (shp (ins ! j)) \<le> unat (ranks ins)"
  using dim_ranks[of "ins ! j" ins] by (simp add: shp_def word_le_nat_alt)

text \<open>
  C38: Element-wise operations, from setup to kernel. For operands whose shapes broadcast together,
  at every dimension each size is 1 or a common size, setup returns TRUE and gives the output at
  every dimension the largest size; this is a broadcast of the operands, so for outputs of rank at
  most 4 the shape optimizer of the kernel returns TRUE on these shapes. With the shapes it returns,
  every operand and the output have as many elements as before, and each element of the output
  reads the element of each operand that broadcasting the shapes of setup reads.
\<close>

theorem eltwise_setup_kernel:
  assumes "\<forall>t \<in> set ins. tensor_ok t" "2 \<le> length ins" "length ins \<le> 30" "compatible ins" "auto_shape out"
    "unat (ranks ins) \<le> 4" "prod_list (map unat (eltwise_shape ins)) < 2 ^ 32"
    "length out_os = 8" "list_all (\<lambda>a. length a = 8) out_ins" "length out_ins = length ins"
  shows "\<exists>out' ins' os' d. op_eltwise_setup ins out = Some (True, out') \<and> tensor_ok out' \<and>
    shp out' = eltwise_shape ins \<and> valid_broadcast (map shp ins) (shp out') \<and>
    optimize_broadcast_shape (map shp ins) (shp out') out_ins out_os = Some (Some (ins', os', d)) \<and>
    length ins' = length ins \<and> d \<le> 8 \<and>
    (\<forall>j < length ins. kernel_reads (ins' ! j) os' d (shp (ins ! j)) (shp out'))"
proof -
  have ne: "ins \<noteq> []" using assms(2) by auto
  obtain out' where out: "op_eltwise_setup ins out = Some (True, out')" "tensor_ok out'" "shp out' = eltwise_shape ins"
    by (rule eltwise_setup_ok[OF assms(1,2,4,5)])
  have v: "valid_broadcast (map shp ins) (shp out')"
    unfolding out(3) by (rule eltwise_shape_valid[OF assms(1) ne assms(4,7)])
  have r4: "length (shp out') \<le> 4" using assms(6) by (simp add: out(3) eltwise_shape_def)
  have n: "length (map shp ins) \<le> 30" "length out_ins = length (map shp ins)" using assms(3,10) by simp_all
  obtain ins' os' d where o: "optimize_broadcast_shape (map shp ins) (shp out') out_ins out_os = Some (Some (ins', os', d))"
    "d \<le> max 2 (2 * length (shp out'))" "length ins' = length ins" "list_all (\<lambda>a. 8 \<le> length a) ins'" "8 \<le> length os'"
    using optimize_broadcast_fits[OF v n(1) r4 assms(8,9) n(2)] by auto
  have d: "d \<le> 8" using o(2) r4 by linarith
  have "kernel_reads (ins' ! j) os' d (shp (ins ! j)) (shp out')" if j: "j < length ins" for j
  proof -
    have "same_view (view (ins' ! j) os' d) (input_view (shp (ins ! j)) (shp out'))"
      using optimize_broadcast_view[OF v o(1) n(2), of j] j by simp
    moreover have "length (shp (ins ! j)) \<le> length (shp out')"
      using shp_ranks[OF j] out(3) by (simp add: eltwise_shape_def)
    moreover have "8 \<le> length (ins' ! j)" using o(3,4) j by (simp add: list_all_length)
    ultimately show ?thesis using d o(5) view_counts[of "shp (ins ! j)" "shp out'"]
      by (simp add: kernel_reads_def same_view_def view_def num_in_def num_out_def num_elems_def)
  qed
  then show ?thesis using out v o(1,3) d by blast
qed

definition sample_shape :: "vsi_size_t list \<Rightarrow> tshape" where
  "sample_shape ss = \<lparr>ts_size = take 8 (ss @ replicate 8 0), ts_dim = of_nat (length ss), ts_scalar = False\<rparr>"

definition blank :: tshape where "blank = \<lparr>ts_size = replicate 8 0, ts_dim = 0, ts_scalar = False\<rparr>"

lemma auto_blank: "auto_shape blank"
  by (simp add: auto_shape_def blank_def)

lemma size_at_sample: "length ss \<le> 8 \<Longrightarrow> size_at (sample_shape ss) i = (if i < length ss then ss ! i else 1)"
  by (auto simp: size_at_def sample_shape_def unat_of_nat take_bit_nat_eq_self nth_append)

lemma sample_pair: "compatible [sample_shape [2, 3], sample_shape [2, 1, 4]]" "ranks [sample_shape [2, 3], sample_shape [2, 1, 4]] = 3"
  "eltwise_shape [sample_shape [2, 3], sample_shape [2, 1, 4]] = [2, 3, 4]"
proof -
  have s: "size_at (sample_shape [2, 3]) i = (if i = 0 then 2 else if i = 1 then 3 else 1)"
    "size_at (sample_shape [2, 1, 4]) i = (if i = 0 then 2 else if i = 2 then 4 else 1)" if "i < 8" for i
    by (cases "i = 0"; cases "i = 1"; cases "i = 2"; simp add: size_at_sample)+
  have "\<exists>n. n \<noteq> 0 \<and> (\<forall>t \<in> set [sample_shape [2, 3], sample_shape [2, 1, 4]]. size_at t i \<in> {1, n})" if "i < 8" for i
  proof (rule exI[of _ "if i = 0 then 2 else if i = 1 then 3 else 4"])
    show "(if i = 0 then 2 else if i = 1 then 3 else 4) \<noteq> (0 :: vsi_size_t) \<and>
        (\<forall>t \<in> set [sample_shape [2, 3], sample_shape [2, 1, 4]].
          size_at t i \<in> {1, if i = 0 then 2 else if i = 1 then 3 else 4})"
      using s[OF that] by simp
  qed
  then show "compatible [sample_shape [2, 3], sample_shape [2, 1, 4]]" by (simp only: compatible_def) blast
  show r: "ranks [sample_shape [2, 3], sample_shape [2, 1, 4]] = 3" by (simp add: ranks_def sample_shape_def)
  show "eltwise_shape [sample_shape [2, 3], sample_shape [2, 1, 4]] = [2, 3, 4]"
    unfolding eltwise_shape_def r by (simp add: max_at_def s upt_rec)
qed

theorem eltwise_setup_kernel_witness:
  "\<exists>out' ins' os' d. op_eltwise_setup [sample_shape [2, 3], sample_shape [2, 1, 4]] blank = Some (True, out') \<and>
    shp out' = [2, 3, 4] \<and>
    optimize_broadcast_shape [[2, 3], [2, 1, 4]] [2, 3, 4] [replicate 8 0, replicate 8 0] (replicate 8 0) =
      Some (Some (ins', os', d)) \<and> num_elems (take d (ins' ! 1)) = 8 \<and> bidx (view (ins' ! 1) os' d) 9 = 3"
proof -
  have "\<forall>t \<in> set [sample_shape [2, 3], sample_shape [2, 1, 4]]. tensor_ok t" by (simp add: tensor_ok_def sample_shape_def)
  moreover have s: "shp (sample_shape [2, 3]) = [2, 3]" "shp (sample_shape [2, 1, 4]) = [2, 1, 4]"
    by (simp_all add: shp_def sample_shape_def)
  moreover have b: "bidx (input_view [2, 1, 4] [2, 3, 4]) 9 = 3" by (simp add: input_view_def upt_rec)
  ultimately show ?thesis
    using eltwise_setup_kernel[of "[sample_shape [2, 3], sample_shape [2, 1, 4]]" blank "replicate 8 0" "[replicate 8 0, replicate 8 0]"]
      sample_pair auto_blank by (auto simp: kernel_reads_def num_elems_def)
qed

text \<open>
  The comparison of sizes depends on the order of the operands, because it uses the larger size
  in place of the first one: for sizes \<open>1 < x < y\<close>, an addition of a vector of \<open>x\<close> and one of \<open>y\<close>
  elements is set up with an output of \<open>y\<close> elements, which no kernel accepts; with the operands
  exchanged setup reports the mismatch.
\<close>

theorem eltwise_setup_order:
  assumes "1 < x" "x < y"
  shows "\<exists>out'. op_eltwise_setup [sample_shape [x], sample_shape [y]] blank = Some (True, out') \<and> shp out' = [y] \<and>
    optimize_broadcast_shape [[x], [y]] (shp out') out_ins out_os = Some None \<and>
    op_eltwise_setup [sample_shape [y], sample_shape [x]] blank = Some (False, blank)"
proof -
  have m: "max x y = y" "max y x = y" "y \<noteq> x" "y \<noteq> 1" "x \<noteq> 1" "1 < y" using assms by auto
  have e: "op_eltwise_setup [sample_shape [x], sample_shape [y]] blank =
      Some (True, blank\<lparr>ts_size := y # replicate 7 0, ts_dim := 1\<rparr>)"
    using m by (simp add: op_eltwise_setup_def sample_shape_def tensor_dims_def size_or_1_def blank_def Let_def numeral_eq_Suc)
  moreover have "op_eltwise_setup [sample_shape [y], sample_shape [x]] blank = Some (False, blank)"
    using m by (simp add: op_eltwise_setup_def sample_shape_def tensor_dims_def size_or_1_def Let_def numeral_eq_Suc)
  moreover have "optimize_broadcast_shape [[x], [y]] [y] out_ins out_os = Some None"
    using m assms by (simp add: optimize_broadcast_shape_def MAX_INPUT_NUM_def broadcast_step_def sizes_at_def
      broadcast_mismatch_def first_wide_def)
  ultimately show ?thesis by (simp add: shp_def)
qed

theorem eltwise_setup_order_witness:
  "op_eltwise_setup [sample_shape [3], sample_shape [2]] blank = Some (False, blank)"
  using eltwise_setup_order[of 2 3 "[]" "[]"] by auto

text \<open>
  C39: Matrix products, from the check to the kernel. When the check accepts two operands of rank 2
  to 5 and their batch dimensions broadcast together, the lengths along which the product sums are
  equal and setup gives the output the shape of the product. When both operands have a batch
  dimension other than 1, the shape optimizer of the kernel returns TRUE on these shapes, keeps the
  matrices, and describes the batches: exactly those that broadcasting reads on its usual path, and
  on the paths for crossing and for merged broadcasts their numbers, with the reads in the two
  classes of \<open>matmul_result\<close>. Without such a dimension (plain matrices, or one matrix for a whole
  batch) the optimizer reads before the start of an array.
\<close>

theorem matmul_setup_kernel:
  assumes "tensor_ok a" "tensor_ok b" "2 \<le> unat (ts_dim a)" "unat (ts_dim a) \<le> 5" "2 \<le> unat (ts_dim b)" "unat (ts_dim b) \<le> 5"
    "\<not> (tr0 \<and> tr1)" "op_matmul_check types_ok tr0 tr1 a b = Some True" "batches_compatible a b" "auto_shape out" "arrays8 m"
    "prod_list (map unat (drop 2 (matmul_shape tr0 tr1 a b))) < 2 ^ 32"
  shows "\<exists>out'. op_matmul_setup tr0 tr1 a b out = Some (True, out') \<and> shp out' = matmul_shape tr0 tr1 a b \<and>
    shp a ! (if tr0 then 1 else 0) = shp b ! (if tr1 then 0 else 1) \<and>
    (let run = optimize_matmul_shape (ts_size a) (ts_size b) (ts_size out') (unat (ts_dim a)) (unat (ts_dim b)) (unat (ts_dim out')) m
     in if ones (drop 2 (shp a)) \<or> ones (drop 2 (shp b)) then run = None
        else \<exists>r. run = Some (True, r) \<and>
          take 2 (mo_x r) = take 2 (shp a) \<and> take 2 (mo_y r) = take 2 (shp b) \<and> take 2 (mo_o r) = take 2 (shp out') \<and>
          matmul_result (drop 2 (shp a)) (drop 2 (shp b)) (drop 2 (shp out')) r)"
proof -
  obtain out' where out: "op_matmul_setup tr0 tr1 a b out = Some (True, out')" "tensor_ok out'"
    "ts_dim out' = max (ts_dim a) (ts_dim b)" "shp out' = matmul_shape tr0 tr1 a b"
    by (rule matmul_setup_ok[OF assms(1,2,3,5,7,10)])
  have d: "2 \<le> unat (ts_dim out')" "unat (ts_dim out') \<le> 5" using out(3) assms(3-6) by (auto simp: max_def)
  have le: "unat (ts_dim a) \<le> unat (ts_dim out')" "unat (ts_dim b) \<le> unat (ts_dim out')"
    using out(3) by (simp_all flip: word_le_nat_alt)
  have l: "length (ts_size a) = 8" "length (ts_size b) = 8" "length (ts_size out') = 8"
    using assms(1,2) out(2) by (simp_all add: tensor_ok_def)
  have v: "valid_broadcast [drop 2 (shp a), drop 2 (shp b)] (drop 2 (shp out'))"
    using matmul_batches_valid[OF assms(1,2,3,5,9,12)] out(4) by simp
  have big: "1 < ts_dim a" "1 < ts_dim b" "ts_dim a \<noteq> 1" "ts_dim b \<noteq> 1" using assms(3,5) by (auto simp: word_less_nat_alt)
  have two: "take 2 (shp t) = take 2 (ts_size t)" if "2 \<le> unat (ts_dim t)" for t using that by (simp add: shp_def min_absorb1)
  have nth: "shp t ! 0 = ts_size t ! 0" "shp t ! 1 = ts_size t ! 1" if "2 \<le> unat (ts_dim t)" for t
    using that by (simp_all add: shp_nth)
  have inner: "shp a ! (if tr0 then 1 else 0) = shp b ! (if tr1 then 0 else 1)"
    using assms(7,8) big l nth[OF assms(3)] nth[OF assms(5)]
    by (cases tr0; cases tr1) (auto simp: op_matmul_check_def Let_def split: if_splits)
  have "batch (unat (ts_dim a)) (ts_size a) = drop 2 (shp a)" "batch (unat (ts_dim b)) (ts_size b) = drop 2 (shp b)"
    "batch (unat (ts_dim out')) (ts_size out') = drop 2 (shp out')" using assms(1,2) out(2) by (simp_all add: batch_shp)
  note ok = optimize_matmul_ok[of "unat (ts_dim a)" "ts_size a" "unat (ts_dim b)" "ts_size b" "unat (ts_dim out')" "ts_size out'" m,
    unfolded this, OF assms(3,4) _ assms(5,6) _ d _ le assms(11) v]
  show ?thesis using ok out(1,4) inner l assms(4,6) d two[OF assms(3)] two[OF assms(5)] two[OF d(1)]
    by (auto simp: Let_def)
qed

lemma sample_matrices:
  "op_matmul_check True False False (sample_shape [4, 2, 5, 6]) (sample_shape [3, 4, 5]) = Some True"
  "batches_compatible (sample_shape [4, 2, 5, 6]) (sample_shape [3, 4, 5])"
  "matmul_shape False False (sample_shape [4, 2, 5, 6]) (sample_shape [3, 4, 5]) = [3, 2, 5, 6]"
proof -
  have s: "size_at (sample_shape [4, 2, 5, 6]) i = (if i = 2 then 5 else if i = 3 then 6 else 1)"
    "size_at (sample_shape [3, 4, 5]) i = (if i = 2 then 5 else 1)" if "2 \<le> i" for i
    using that by (cases "i = 2"; cases "i = 3"; simp add: size_at_sample)+
  show "op_matmul_check True False False (sample_shape [4, 2, 5, 6]) (sample_shape [3, 4, 5]) = Some True"
    by (simp add: op_matmul_check_def sample_shape_def Let_def numeral_eq_Suc)
  show "batches_compatible (sample_shape [4, 2, 5, 6]) (sample_shape [3, 4, 5])"
  proof -
    have "\<exists>n. n \<noteq> 0 \<and> size_at (sample_shape [4, 2, 5, 6]) i \<in> {1, n} \<and> size_at (sample_shape [3, 4, 5]) i \<in> {1, n}"
      if "2 \<le> i" for i using s[OF that] by (intro exI[of _ "if i = 2 then 5 else 6"]) simp
    then show ?thesis unfolding batches_compatible_def by blast
  qed
  have d: "max (ts_dim (sample_shape [4, 2, 5, 6])) (ts_dim (sample_shape [3, 4, 5])) = 4" by (simp add: sample_shape_def)
  show "matmul_shape False False (sample_shape [4, 2, 5, 6]) (sample_shape [3, 4, 5]) = [3, 2, 5, 6]"
    unfolding matmul_shape_def d by (simp add: s upt_rec) (simp add: sample_shape_def)
qed

text \<open>Batches 5 times 6 of the first operand, the 5 of the second one for each of the 6.\<close>

theorem matmul_setup_kernel_witness:
  "\<exists>out' r d. op_matmul_setup False False (sample_shape [4, 2, 5, 6]) (sample_shape [3, 4, 5]) blank = Some (True, out') \<and>
    shp out' = [3, 2, 5, 6] \<and>
    optimize_matmul_shape (ts_size (sample_shape [4, 2, 5, 6])) (ts_size (sample_shape [3, 4, 5])) (ts_size out') 4 3 4 empty_out =
      Some (True, r) \<and> take 2 (mo_x r) = [4, 2] \<and> take 2 (mo_y r) = [3, 4] \<and> take 2 (mo_o r) = [3, 2] \<and>
    batches_ok [5, 6] [5] [5, 6] r d \<and> bidx (view (drop 2 (mo_y r)) (drop 2 (mo_o r)) d) 12 = 2"
proof -
  let ?a = "sample_shape [4, 2, 5, 6]" and ?b = "sample_shape [3, 4, 5]"
  have t: "tensor_ok ?a" "tensor_ok ?b" "ts_dim ?a = 4" "ts_dim ?b = 3" "shp ?a = [4, 2, 5, 6]" "shp ?b = [3, 4, 5]"
    by (simp_all add: tensor_ok_def sample_shape_def shp_def)
  obtain out' r where r: "op_matmul_setup False False ?a ?b blank = Some (True, out')" "shp out' = [3, 2, 5, 6]"
    "optimize_matmul_shape (ts_size ?a) (ts_size ?b) (ts_size out') 4 3 (unat (ts_dim out')) empty_out = Some (True, r)"
    "take 2 (mo_x r) = [4, 2]" "take 2 (mo_y r) = [3, 4]" "take 2 (mo_o r) = [3, 2]" "matmul_result [5, 6] [5] [5, 6] r"
    using matmul_setup_kernel[of ?a ?b False False True blank empty_out] sample_matrices auto_blank empty_out_arrays t
    by (auto simp: Let_def)
  have eval: "op_matmul_setup False False ?a ?b blank = Some (True, \<lparr>ts_size = [3, 2, 5, 6, 0, 0, 0, 0], ts_dim = 4, ts_scalar = False\<rparr>)"
    "map_option (mo_cross \<circ> snd) (optimize_matmul_shape [4, 2, 5, 6, 0, 0, 0, 0] [3, 4, 5, 0, 0, 0, 0, 0] [3, 2, 5, 6, 0, 0, 0, 0] 4 3 4
       empty_out) = Some 0" by code_simp+
  have "ts_size ?a = [4, 2, 5, 6, 0, 0, 0, 0]" "ts_size ?b = [3, 4, 5, 0, 0, 0, 0, 0]"
    by (simp_all add: sample_shape_def numeral_eq_Suc)
  then have "mo_cross r = 0" "unat (ts_dim out') = 4" using r(1,3) eval by auto
  moreover then obtain d where d: "batches_ok [5, 6] [5] [5, 6] r d" using r(7) by (auto simp: matmul_result_def)
  moreover have "bidx (input_view [5] [5, 6]) 12 = 2" by (simp add: input_view_def upt_rec)
  ultimately show ?thesis using r by (auto simp: batches_ok_def same_view_def)
qed

text \<open>Batch dimensions behind the first one are not checked: 2 and 3 batches along dimension 3 are accepted.\<close>

lemma matmul_batch_unchecked:
  "op_matmul_check True False False (sample_shape [4, 2, 1, 2]) (sample_shape [3, 4, 1, 3]) = Some True"
  by (simp add: op_matmul_check_def sample_shape_def Let_def numeral_eq_Suc)

definition request_fits :: "tshape \<Rightarrow> vsi_size_t list \<Rightarrow> bool" where
  "request_fits t ss \<longleftrightarrow> (if - 1 \<in> set ss then known t ss (length ss) dvd num_elems (shp t)
     else known t ss (length ss) mod 2 ^ 32 = num_elems (shp t))"

text \<open>
  C40: Reshaping. A request may leave out one size (-1) and take over sizes of the input (0). With
  a -1, setup succeeds exactly when the given sizes divide the number of elements of the input,
  and the size left out is the quotient; without one, exactly when their product is this number
  on 32 bits. The output then has the number of elements of the input, unless a product of given
  sizes wrapped around; otherwise setup reports a failure and leaves the output alone.
\<close>

theorem reshape_setup_exact:
  assumes "tensor_ok t" "0 \<notin> set (shp t)" "num_elems (shp t) < 2 ^ 32"
    and "shape_request t ss" "0 < length ss" "length ss \<le> 8" "auto_shape out"
  shows "if request_fits t ss
    then \<exists>out'. op_reshape2_setup (Some ss) (of_nat (length ss)) t out = Some (True, out') \<and> tensor_ok out' \<and>
      shp out' = reshaped t ss \<and>
      (- 1 \<in> set ss \<or> known t ss (length ss) < 2 ^ 32 \<longrightarrow> num_elems (shp out') = num_elems (shp t))
    else op_reshape2_setup (Some ss) (of_nat (length ss)) t out = Some (False, out)"
proof -
  let ?d = "of_nat (length ss) :: uint32" let ?out = "out\<lparr>ts_size := reshaped t ss @ drop (length ss) (ts_size out), ts_dim := ?d\<rparr>"
  note eq = reshape2_setup_ok[OF assms, folded request_fits_def]
  have d: "unat ?d = length ss" using assms(6) by (simp add: unat_of_nat take_bit_nat_eq_self)
  have len: "length (reshaped t ss) = length ss" by (simp add: reshaped_def)
  have ok: "tensor_ok ?out" "shp ?out = reshaped t ss"
    using tensor_ok_update[OF assms(7), of "reshaped t ss @ drop (length ss) (ts_size out)" ?d] d len assms(5-7)
    by (simp_all add: auto_shape_def)
  have "num_elems (reshaped t ss) = (\<Prod>k<length ss. unat (reshaped t ss ! k))"
    using prod.list_conv_set_nth[of "map unat (reshaped t ss)"] len by (simp add: num_elems_def atLeast0LessThan)
  also have "\<dots> = known t ss (length ss) * (if - 1 \<in> set ss then num_elems (shp t) div known t ss (length ss) else 1)"
    using assms(3,4) by (intro reshaped_product) (simp_all add: shape_request_def)
  finally have "num_elems (reshaped t ss) = num_elems (shp t)"
    if "request_fits t ss" "- 1 \<in> set ss \<or> known t ss (length ss) < 2 ^ 32"
    using that by (auto simp: request_fits_def split: if_splits)
  then show ?thesis using eq ok by auto
qed

theorem reshape_setup_exact_witness:
  "\<exists>out'. op_reshape2_setup (Some [0, - 1]) 2 (sample_shape [4, 3, 2]) blank = Some (True, out') \<and> shp out' = [4, 6]"
proof -
  let ?t = "sample_shape [4, 3, 2]"
  have t: "tensor_ok ?t" "shp ?t = [4, 3, 2]" "unat (ts_dim ?t) = 3" by (simp_all add: tensor_ok_def shp_def sample_shape_def)
  have a: "asked ?t [0, - 1] 0 = 4" by (simp add: asked_def sample_shape_def)
  then have k: "known ?t [0, - 1] (Suc (Suc 0)) = 4" by (simp add: known_def)
  have fits: "request_fits ?t [0, - 1]" using k t by (simp add: request_fits_def)
  have r: "reshaped ?t [0, - 1] = [4, 6]" using k a t by (simp add: reshaped_def)
  have req: "shape_request ?t [0, - 1]" using t by (auto simp: shape_request_def one_neg_def less_Suc_eq nth_Cons split: nat.splits)
  show ?thesis using reshape_setup_exact[OF t(1) _ _ req _ _ auto_blank] t fits r by auto
qed

text \<open>
  Blocks. Space-to-batch followed by batch-to-space with the same blocks, and the paddings as
  crops, gives the shape of the input back, for tensors of rank 3 (one block size) and 4, when the
  blocks divide the padded sizes and no product exceeds 32 bits.
\<close>

theorem space_batch_roundtrip:
  assumes "tensor_ok t" "ts_dim t = 3 \<or> ts_dim t = 4" "blocks_fit bs ps t" "auto_shape out" "auto_shape out'"
  shows "\<exists>m r. op_space2batch_setup bs ps t out = Some (True, m) \<and> tensor_ok m \<and>
    op_batch2space_setup bs ps m out' = Some (True, r) \<and> shp r = shp t"
  by (rule blocks_back[OF assms]) blast

theorem space_batch_roundtrip_witness:
  "\<exists>m r. op_space2batch_setup [2, 3] [1, 0, 0, 0] (sample_shape [5, 6, 7, 1]) blank = Some (True, m) \<and>
     op_batch2space_setup [2, 3] [1, 0, 0, 0] m blank = Some (True, r) \<and> shp r = [5, 6, 7, 1]"
proof -
  let ?t = "sample_shape [5, 6, 7, 1]"
  have t: "tensor_ok ?t" "shp ?t = [5, 6, 7, 1]" "ts_dim ?t = 4" by (simp_all add: tensor_ok_def shp_def sample_shape_def)
  have "blocks_fit [2, 3] [1, 0, 0, 0] ?t" by (simp add: blocks_fit_def sample_shape_def)
  from space_batch_roundtrip[OF t(1) _ this auto_blank auto_blank] show ?thesis using t by auto
qed

end
