(* ===== verification/Io_Types.thy ===== *)
theory Io_Types
  imports Op_Infer Dtype
begin

text \<open>
  The check of the element types of a node, \<^verbatim>\<open>src/utils/vsi_nn_constraint_check.c\<close> and
  its header (under \<^verbatim>\<open>src/tim/vx/internal\<close>).

  An operation registers a table; a row lists the element type and the quantization of every
  input and output. \<open>validate_op_io_types\<close> computes the signature of a node and looks for a row
  that fits it, \<open>generate_op_io_types_desc\<close> writes the types of a rejected node into a string.

  A type code and a quantization code are put together as \<open>D_x | Q_y\<close> in one \<^verbatim>\<open>int\<close>, with
  the quantization shifted by 8 bits. A missing tensor is \<open>None\<close>, and so is a null pointer; the
  outer option of a result is \<open>None\<close> when an array is left. The argument \<open>mem\<close> tells if the
  allocation of the function succeeds.
\<close>

subsection \<open>Codes of types\<close>

datatype vsi_nn_qnt_type =
    QNT_NONE | QNT_DFP | QNT_ASYM | QNT_PC_SYM | QNT_SYM | QNT_PC_ASYM
  | QNT_FLOAT8 | QNT_PC_FLOAT8 | QNT_GROUP_SYM | QNT_GROUP_ASYM | QNT_NA

fun qnt_code :: "vsi_nn_qnt_type \<Rightarrow> uint32" where
  "qnt_code QNT_NONE = 0"
| "qnt_code QNT_DFP = 1"
| "qnt_code QNT_ASYM = 2"
| "qnt_code QNT_PC_SYM = 3"
| "qnt_code QNT_SYM = 4"
| "qnt_code QNT_PC_ASYM = 5"
| "qnt_code QNT_FLOAT8 = 6"
| "qnt_code QNT_PC_FLOAT8 = 7"
| "qnt_code QNT_GROUP_SYM = 8"
| "qnt_code QNT_GROUP_ASYM = 9"
| "qnt_code QNT_NA = 0xFF"

fun vx_code :: "vsi_nn_type \<Rightarrow> uint32" where
  "vx_code TYPE_NONE = 0"
| "vx_code TYPE_INT8 = 2"
| "vx_code TYPE_UINT8 = 3"
| "vx_code TYPE_INT16 = 4"
| "vx_code TYPE_UINT16 = 5"
| "vx_code TYPE_INT32 = 6"
| "vx_code TYPE_UINT32 = 7"
| "vx_code TYPE_INT64 = 8"
| "vx_code TYPE_UINT64 = 9"
| "vx_code TYPE_FLOAT32 = 0xA"
| "vx_code TYPE_FLOAT64 = 0xB"
| "vx_code TYPE_FLOAT16 = 0xF"
| "vx_code TYPE_BOOL8 = 0x11"
| "vx_code TYPE_INT4 = 0x12"
| "vx_code TYPE_UINT4 = 0x13"
| "vx_code TYPE_VDATA = 0x101"
| "vx_code TYPE_BFLOAT16 = 0x81A"
| "vx_code TYPE_FLOAT8_E4M3 = 0x81E"
| "vx_code TYPE_FLOAT8_E5M2 = 0x81F"

definition Q_SHIFT :: nat where "Q_SHIFT = 8"

definition io_code :: "vsi_nn_type \<Rightarrow> vsi_nn_qnt_type \<Rightarrow> uint32" where
  "io_code t q = vx_code t OR push_bit Q_SHIFT (qnt_code q)"

text \<open>The attributes of a tensor that the checks read.\<close>

record io_attr =
  io_vx :: vsi_nn_type
  io_qnt :: vsi_nn_qnt_type
  io_const :: bool

fun tensor_code :: "'a io_attr_scheme option \<Rightarrow> uint32" where
  "tensor_code None = io_code TYPE_NONE QNT_NONE"
| "tensor_code (Some t) = io_code (io_vx t) (io_qnt t)"

definition is_const_tensor :: "'a io_attr_scheme option \<Rightarrow> bool" where
  "is_const_tensor t = (case t of None \<Rightarrow> False | Some a \<Rightarrow> io_const a)"

subsection \<open>Signatures and tables\<close>

record op_constraint_reg =
  reg_input_num :: nat
  reg_output_num :: nat
  reg_types :: "uint32 list list option"

record io_signature =
  sig_count :: nat
  sig_types :: "uint32 list"

definition code_at :: "'a io_attr_scheme option list \<Rightarrow> nat \<Rightarrow> uint32 option" where
  "code_at ts i = do { t \<leftarrow> rd ts i; Some (tensor_code t) }"

definition get_op_signature ::
  "bool \<Rightarrow> 'a io_attr_scheme option list \<Rightarrow> nat \<Rightarrow> 'a io_attr_scheme option list \<Rightarrow> nat
   \<Rightarrow> op_constraint_reg \<Rightarrow> io_signature option option" where
  "get_op_signature mem inputs inputs_num outputs outputs_num reg =
     (if \<not> mem then Some None
      else do {
        let types = replicate (reg_input_num reg + reg_output_num reg) 0;
        types1 \<leftarrow> fill (min inputs_num (reg_input_num reg)) 0 0 (code_at inputs) types;
        types2 \<leftarrow> fill (min outputs_num (reg_output_num reg)) 0 (reg_input_num reg) (code_at outputs) types1;
        Some (Some \<lparr>sig_count = inputs_num + outputs_num, sig_types = types2\<rparr>) })"

definition qnt_bits :: "uint32 \<Rightarrow> uint32" where "qnt_bits c = drop_bit Q_SHIFT c"
definition data_bits :: "uint32 \<Rightarrow> uint32" where "data_bits c = c AND (push_bit Q_SHIFT 1 - 1)"

text \<open>The comparison with one row, from entry \<open>j\<close> on, and the search of the table.\<close>

fun row_loop :: "uint32 list \<Rightarrow> uint32 list \<Rightarrow> nat \<Rightarrow> nat \<Rightarrow> bool option" where
  "row_loop sig row j 0 = Some True"
| "row_loop sig row j (Suc n) = do {
     c \<leftarrow> rd sig j;
     d \<leftarrow> rd row j;
     if (qnt_bits c \<noteq> qnt_code QNT_NONE \<and> qnt_bits c \<noteq> qnt_bits d) \<or> data_bits c \<noteq> data_bits d
     then Some False else row_loop sig row (Suc j) n }"

fun table_loop :: "uint32 list \<Rightarrow> nat \<Rightarrow> uint32 list list \<Rightarrow> bool option" where
  "table_loop sig n [] = Some False"
| "table_loop sig n (row # rows) = do {
     found \<leftarrow> row_loop sig row 0 n;
     if found then Some True else table_loop sig n rows }"

text \<open>\<open>self\<close> is the flag of the node that turns the check on.\<close>

definition validate_op_io_types ::
  "bool \<Rightarrow> bool option \<Rightarrow> 'a io_attr_scheme option list \<Rightarrow> nat \<Rightarrow> 'a io_attr_scheme option list \<Rightarrow> nat
   \<Rightarrow> op_constraint_reg option \<Rightarrow> bool option" where
  "validate_op_io_types mem self inputs inputs_num outputs outputs_num reg =
     (case (self, reg) of
        (Some True, Some r) \<Rightarrow> do {
          s \<leftarrow> get_op_signature mem inputs inputs_num outputs outputs_num r;
          case (s, reg_types r) of
            (Some sig, Some rows) \<Rightarrow> table_loop (sig_types sig) (reg_input_num r + reg_output_num r) rows
          | _ \<Rightarrow> Some False }
      | _ \<Rightarrow> Some True)"

subsection \<open>The text for a rejected node\<close>

fun get_dtype_name :: "vsi_nn_type \<Rightarrow> string option" where
  "get_dtype_name TYPE_NONE = Some ''Optional''"
| "get_dtype_name TYPE_INT4 = Some ''INT4''"
| "get_dtype_name TYPE_UINT4 = Some ''UINT4''"
| "get_dtype_name TYPE_INT8 = Some ''INT8''"
| "get_dtype_name TYPE_INT16 = Some ''INT16''"
| "get_dtype_name TYPE_INT32 = Some ''INT32''"
| "get_dtype_name TYPE_INT64 = Some ''INT64''"
| "get_dtype_name TYPE_UINT8 = Some ''UINT8''"
| "get_dtype_name TYPE_UINT16 = Some ''UINT16''"
| "get_dtype_name TYPE_UINT32 = Some ''UINT32''"
| "get_dtype_name TYPE_UINT64 = Some ''UINT64''"
| "get_dtype_name TYPE_FLOAT16 = Some ''FLOAT16''"
| "get_dtype_name TYPE_FLOAT32 = Some ''FLOAT32''"
| "get_dtype_name TYPE_FLOAT64 = Some ''FLOAT64''"
| "get_dtype_name TYPE_BFLOAT16 = Some ''BFLOAT16''"
| "get_dtype_name TYPE_BOOL8 = Some ''BOOL8''"
| "get_dtype_name _ = None"

fun get_qtype_name :: "vsi_nn_qnt_type \<Rightarrow> string option" where
  "get_qtype_name QNT_NONE = Some ''''"
| "get_qtype_name QNT_DFP = Some ''DFP''"
| "get_qtype_name QNT_ASYM = Some ''ASYM''"
| "get_qtype_name QNT_SYM = Some ''SYM''"
| "get_qtype_name QNT_PC_SYM = Some ''SYMM PC''"
| "get_qtype_name QNT_FLOAT8 = Some ''FP8''"
| "get_qtype_name QNT_PC_FLOAT8 = Some ''FP8 PC''"
| "get_qtype_name _ = None"

abbreviation NUL :: char where "NUL \<equiv> CHR 0x00"

text \<open>The text of the format \<open>%s %s, \<close> for a tensor, when it is there and has names.\<close>

definition io_piece :: "'a io_attr_scheme option \<Rightarrow> string option" where
  "io_piece t = (case t of None \<Rightarrow> None | Some a \<Rightarrow>
     do { q \<leftarrow> get_qtype_name (io_qnt a); d \<leftarrow> get_dtype_name (io_vx a); Some (q @ '' '' @ d @ '', '') })"

text \<open>Addition in \<^verbatim>\<open>int\<close>, undefined when it overflows.\<close>

definition int_add :: "nat \<Rightarrow> nat \<Rightarrow> nat option" where
  "int_add a b = (if a + b < 2 ^ 31 then Some (a + b) else None)"

text \<open>
  \<open>snprintf (buf + start, n, text)\<close>: writes at most \<open>n - 1\<close> characters and the terminator, nothing
  for \<open>n = 0\<close>; returns the length of the whole text.
\<close>

definition snprintf :: "string \<Rightarrow> nat \<Rightarrow> nat \<Rightarrow> string \<Rightarrow> (nat \<times> string) option" where
  "snprintf buf start n s =
     (if n = 0 then Some (length s, buf)
      else let k = min (length s) (n - 1)
           in if length buf < start + k + 1 then None
              else Some (length s, take start buf @ take k s @ [NUL] @ drop (start + k + 1) buf))"

fun size_loop :: "'a io_attr_scheme option list \<Rightarrow> nat \<Rightarrow> nat \<Rightarrow> nat \<Rightarrow> nat option" where
  "size_loop ts i 0 sz = Some sz"
| "size_loop ts i (Suc n) sz = do {
     t \<leftarrow> rd ts i;
     sz' \<leftarrow> (case io_piece t of None \<Rightarrow> Some sz | Some s \<Rightarrow> int_add sz (length s));
     size_loop ts (Suc i) n sz' }"

fun text_loop :: "'a io_attr_scheme option list \<Rightarrow> nat \<Rightarrow> nat \<Rightarrow> nat \<Rightarrow> nat \<times> string \<Rightarrow> (nat \<times> string) option" where
  "text_loop ts i 0 sz st = Some st"
| "text_loop ts i (Suc n) sz (used, desc) = do {
     t \<leftarrow> rd ts i;
     st \<leftarrow> (case io_piece t of None \<Rightarrow> Some (used, desc) | Some s \<Rightarrow>
       if sz < used then Some (used, desc)
       else do {
         (k, desc') \<leftarrow> snprintf desc used (sz - used) s;
         used' \<leftarrow> int_add used k;
         Some (used', desc') });
     text_loop ts (Suc i) n sz st }"

text \<open>The result is the block of memory, \<open>Some None\<close> when it could not be allocated.\<close>

definition generate_op_io_types_desc ::
  "bool \<Rightarrow> 'a io_attr_scheme option list \<Rightarrow> nat \<Rightarrow> 'a io_attr_scheme option list \<Rightarrow> nat \<Rightarrow> string option option" where
  "generate_op_io_types_desc mem inputs inputs_num outputs outputs_num = do {
     t1 \<leftarrow> size_loop inputs 0 inputs_num 0;
     t2 \<leftarrow> size_loop outputs 0 outputs_num t1;
     total_sz \<leftarrow> int_add t2 1;
     if \<not> mem then Some None
     else do {
       st1 \<leftarrow> text_loop inputs 0 inputs_num total_sz (0, replicate total_sz NUL);
       (used_sz, desc) \<leftarrow> text_loop outputs 0 outputs_num total_sz st1;
       if 2 \<le> used_sz then do { desc' \<leftarrow> wr desc (used_sz - 2) NUL; Some (Some desc') }
       else Some (Some desc) } }"

subsection \<open>Items in arrays\<close>

definition memcmp_eq :: "uint8 list \<Rightarrow> uint8 list \<Rightarrow> nat \<Rightarrow> nat \<Rightarrow> bool option" where
  "memcmp_eq item items off n =
     (if length item < n \<or> length items < off + n then None
      else Some (take n item = take n (drop off items)))"

fun item_loop :: "uint8 list \<Rightarrow> uint8 list \<Rightarrow> nat \<Rightarrow> nat \<Rightarrow> nat \<Rightarrow> bool option" where
  "item_loop item items item_size i 0 = Some False"
| "item_loop item items item_size i (Suc n) = do {
     eq \<leftarrow> memcmp_eq item items (i * item_size) item_size;
     if eq then Some True else item_loop item items item_size (Suc i) n }"

definition is_item_in_array :: "uint8 list option \<Rightarrow> uint8 list option \<Rightarrow> nat \<Rightarrow> nat \<Rightarrow> bool option" where
  "is_item_in_array item items item_size item_count =
     (case (item, items) of (Some a, Some b) \<Rightarrow> item_loop a b item_size 0 item_count | _ \<Rightarrow> Some False)"

subsection \<open>What a code tells of its parts\<close>

text \<open>
  The codes of \<open>BFLOAT16\<close> and of the 8-bit floats do not fit into 8 bits; their upper part falls
  on the bits of the quantization.
\<close>

definition byte_type :: "vsi_nn_type \<Rightarrow> bool" where
  "byte_type t \<longleftrightarrow> t \<notin> {TYPE_BFLOAT16, TYPE_FLOAT8_E4M3, TYPE_FLOAT8_E5M2}"

definition no_group :: "vsi_nn_qnt_type \<Rightarrow> bool" where
  "no_group q \<longleftrightarrow> q \<noteq> QNT_GROUP_SYM \<and> q \<noteq> QNT_GROUP_ASYM"

lemma data_io_code: "data_bits (io_code t q) = vx_code t AND 0xFF"
  by (cases q) (simp_all add: data_bits_def io_code_def Q_SHIFT_def bit.conj_disj_distrib2)

lemma qnt_io_code: "qnt_bits (io_code t q) = drop_bit 8 (vx_code t) OR qnt_code q"
  by (cases q) (simp_all add: qnt_bits_def io_code_def Q_SHIFT_def drop_bit_or)

lemma low_byte_inj: "vx_code t AND 0xFF = vx_code t' AND 0xFF \<longleftrightarrow> t = t'"
  by (cases t; cases t'; simp)

lemma high_byte: "t \<noteq> TYPE_VDATA \<Longrightarrow> drop_bit 8 (vx_code t) = (if byte_type t then 0 else 8)"
  by (cases t) (simp_all add: byte_type_def)

lemma qnt_code_inj: "qnt_code q = qnt_code q' \<longleftrightarrow> q = q'"
  by (cases q; cases q'; simp)

lemma qnt_code_8_inj: "no_group q \<Longrightarrow> no_group q' \<Longrightarrow> 8 OR qnt_code q = 8 OR qnt_code q' \<longleftrightarrow> q = q'"
  by (cases q; cases q'; simp add: no_group_def)

lemma qnt_code_8_nz: "8 OR qnt_code q \<noteq> 0"
  by (cases q) simp_all

subsection \<open>The check against the table\<close>

fun type_of :: "'a io_attr_scheme option \<Rightarrow> vsi_nn_type \<times> vsi_nn_qnt_type" where
  "type_of None = (TYPE_NONE, QNT_NONE)"
| "type_of (Some t) = (io_vx t, io_qnt t)"

text \<open>
  When a tensor fits an entry of a row: a tensor without quantization fits any quantization,
  except for the types whose code is longer than a byte.
\<close>

definition type_fits :: "'a io_attr_scheme option \<Rightarrow> vsi_nn_type \<times> vsi_nn_qnt_type \<Rightarrow> bool" where
  "type_fits t e \<longleftrightarrow> fst (type_of t) = fst e \<and>
     (snd (type_of t) = snd e \<or> snd (type_of t) = QNT_NONE \<and> byte_type (fst e))"

definition entry_ok :: "vsi_nn_type \<times> vsi_nn_qnt_type \<Rightarrow> bool" where
  "entry_ok e \<longleftrightarrow> no_group (snd e) \<and> fst e \<noteq> TYPE_VDATA"

definition tensor_plain :: "'a io_attr_scheme option \<Rightarrow> bool" where
  "tensor_plain t \<longleftrightarrow> byte_type (fst (type_of t)) \<or> no_group (snd (type_of t))"

definition code_fits :: "uint32 \<Rightarrow> uint32 \<Rightarrow> bool" where
  "code_fits c d \<longleftrightarrow> (qnt_bits c = qnt_code QNT_NONE \<or> qnt_bits c = qnt_bits d) \<and> data_bits c = data_bits d"

lemma tensor_code_of: "tensor_code t = io_code (fst (type_of t)) (snd (type_of t))"
  by (cases t) simp_all

lemma code_fits_iff:
  assumes "entry_ok e" "tensor_plain t"
  shows "code_fits (tensor_code t) (io_code (fst e) (snd e)) \<longleftrightarrow> type_fits t e"
proof (cases "fst (type_of t) = fst e")
  case True
  have v: "fst e \<noteq> TYPE_VDATA" "no_group (snd e)" using assms(1) by (simp_all add: entry_ok_def)
  show ?thesis
  proof (cases "byte_type (fst e)")
    case True
    with v \<open>fst (type_of t) = fst e\<close> show ?thesis
      by (auto simp: code_fits_def tensor_code_of data_io_code qnt_io_code high_byte qnt_code_inj type_fits_def
          simp del: qnt_code.simps)
  next
    case False
    with assms(2) \<open>fst (type_of t) = fst e\<close> have "no_group (snd (type_of t))" by (simp add: tensor_plain_def)
    with v False \<open>fst (type_of t) = fst e\<close> show ?thesis
      by (auto simp: code_fits_def tensor_code_of data_io_code qnt_io_code high_byte qnt_code_8_inj
          qnt_code_8_nz type_fits_def)
  qed
qed (auto simp: code_fits_def tensor_code_of data_io_code low_byte_inj type_fits_def)

lemma row_loop_all2:
  "j + n \<le> length sig \<Longrightarrow> j + n \<le> length row \<Longrightarrow>
    row_loop sig row j n = Some (list_all2 code_fits (take n (drop j sig)) (take n (drop j row)))"
proof (induction n arbitrary: j)
  case (Suc n)
  have d: "drop j sig = sig ! j # drop (Suc j) sig" "drop j row = row ! j # drop (Suc j) row"
    using Suc.prems by (simp_all add: Cons_nth_drop_Suc)
  show ?case using Suc.IH[of "Suc j"] Suc.prems by (simp add: d code_fits_def)
qed simp

lemma table_loop_exists:
  "\<forall>row \<in> set rows. length row = n \<Longrightarrow> length sig = n \<Longrightarrow>
    table_loop sig n rows = Some (\<exists>row \<in> set rows. list_all2 code_fits sig row)"
  by (induction rows) (auto simp: row_loop_all2)

text \<open>The tensors of the registered inputs and outputs; those that are not given are missing.\<close>

definition io_slots :: "nat \<Rightarrow> nat \<Rightarrow> 'a option list \<Rightarrow> 'a option list" where
  "io_slots k n ts = take (min n k) ts @ replicate (k - n) None"

definition node_slots :: "op_constraint_reg \<Rightarrow> 'a option list \<Rightarrow> nat \<Rightarrow> 'a option list \<Rightarrow> nat \<Rightarrow> 'a option list" where
  "node_slots reg ins n outs m =
     io_slots (reg_input_num reg) n ins @ io_slots (reg_output_num reg) m outs"

lemma map_nth_take: "n \<le> length xs \<Longrightarrow> map (\<lambda>i. f (xs ! i)) [0..<n] = map f (take n xs)"
  by (intro nth_equalityI) simp_all

lemma signature_value:
  assumes "n \<le> length ins" "m \<le> length outs"
  shows "get_op_signature True ins n outs m reg =
    Some (Some \<lparr>sig_count = n + m, sig_types = map tensor_code (node_slots reg ins n outs m)\<rparr>)"
proof -
  let ?i = "reg_input_num reg" and ?o = "reg_output_num reg"
  have z: "tensor_code None = 0" by (simp add: io_code_def)
  have sz: "?i + ?o - min n ?i = ?i - n + ?o" by simp
  have 1: "fill (min n ?i) 0 0 (code_at ins) (replicate (?i + ?o) 0) =
      Some (map (\<lambda>i. tensor_code (ins ! i)) [0..<min n ?i] @ replicate (?i - n) 0 @ replicate ?o 0)"
  proof -
    have "fill (min n ?i) 0 0 (code_at ins) (replicate (?i + ?o) 0) =
        Some (take 0 (replicate (?i + ?o) 0) @ map (\<lambda>i. tensor_code (ins ! i)) [0..<0 + min n ?i] @
          drop (0 + min n ?i) (replicate (?i + ?o) 0))"
      using assms(1) by (intro fill_ok) (auto simp: code_at_def)
    moreover have "drop (0 + min n ?i) (replicate (?i + ?o) (0 :: uint32)) = replicate (?i - n) 0 @ replicate ?o 0"
      by (subst drop_replicate) (simp only: add_0 sz replicate_add)
    ultimately show ?thesis by (simp only: take_0 append_Nil add_0)
  qed
  let ?t = "map (\<lambda>i. tensor_code (ins ! i)) [0..<min n ?i] @ replicate (?i - n) (0 :: uint32) @ replicate ?o 0"
  have t: "take ?i ?t = map tensor_code (take (min n ?i) ins) @ replicate (?i - n) 0"
    "drop (?i + min m ?o) ?t = replicate (?o - m) 0"
    using assms(1) by (cases "n \<le> ?i"; simp add: map_nth_take)+
  have 2: "fill (min m ?o) 0 ?i (code_at outs) ?t =
      Some (take ?i ?t @ map (\<lambda>i. tensor_code (outs ! i)) [0..<0 + min m ?o] @ drop (?i + min m ?o) ?t)"
    using assms(2) by (intro fill_ok) (auto simp: code_at_def)
  have 3: "map (\<lambda>i. tensor_code (outs ! i)) [0..<0 + min m ?o] = map tensor_code (take (min m ?o) outs)"
    using assms(2) by (simp add: map_nth_take)
  show ?thesis
    using 2[unfolded t 3] unfolding get_op_signature_def Let_def 1
    by (simp add: node_slots_def io_slots_def z io_code_def Q_SHIFT_def)
qed

definition op_reg :: "nat \<Rightarrow> nat \<Rightarrow> (vsi_nn_type \<times> vsi_nn_qnt_type) list list \<Rightarrow> op_constraint_reg" where
  "op_reg i k rows = \<lparr>reg_input_num = i, reg_output_num = k, reg_types = Some (map (map (\<lambda>(t, q). io_code t q)) rows)\<rparr>"

lemma row_fits:
  assumes "list_all entry_ok row" "list_all tensor_plain ts"
  shows "list_all2 code_fits (map tensor_code ts) (map (\<lambda>(t, q). io_code t q) row) \<longleftrightarrow> list_all2 type_fits ts row"
  using assms
proof (induction ts arbitrary: row)
  case (Cons t ts)
  then show ?case by (cases row) (auto simp: code_fits_iff split_beta)
qed simp

lemma slots_plain:
  "list_all tensor_plain ins \<Longrightarrow> list_all tensor_plain outs \<Longrightarrow> list_all tensor_plain (node_slots reg ins n outs m)"
  by (auto simp: node_slots_def io_slots_def list_all_iff tensor_plain_def byte_type_def dest: in_set_takeD)

definition table_ok :: "nat \<Rightarrow> (vsi_nn_type \<times> vsi_nn_qnt_type) list list \<Rightarrow> bool" where
  "table_ok n rows \<longleftrightarrow> list_all (\<lambda>row. length row = n \<and> list_all entry_ok row) rows"

definition in_table ::
  "nat \<Rightarrow> nat \<Rightarrow> (vsi_nn_type \<times> vsi_nn_qnt_type) list list \<Rightarrow> 'a io_attr_scheme option list \<Rightarrow> nat
   \<Rightarrow> 'a io_attr_scheme option list \<Rightarrow> nat \<Rightarrow> bool" where
  "in_table i k rows ins n outs m \<longleftrightarrow> (\<exists>row \<in> set rows. list_all2 type_fits (node_slots (op_reg i k rows) ins n outs m) row)"

lemma validate_in_table:
  assumes "table_ok (i + k) rows" "n \<le> length ins" "m \<le> length outs"
    "list_all tensor_plain ins" "list_all tensor_plain outs"
  shows "validate_op_io_types mem (Some True) ins n outs m (Some (op_reg i k rows)) =
    Some (mem \<and> in_table i k rows ins n outs m)"
proof (cases mem)
  case True
  let ?s = "node_slots (op_reg i k rows) ins n outs m"
  have len: "length (map tensor_code ?s) = i + k"
    using assms(2,3) by (simp add: node_slots_def io_slots_def op_reg_def)
  have "table_loop (map tensor_code ?s) (i + k) (map (map (\<lambda>(t, q). io_code t q)) rows) =
      Some (in_table i k rows ins n outs m)"
    using assms(1) table_loop_exists[OF _ len, of "map (map (\<lambda>(t, q). io_code t q)) rows"]
    by (auto simp: table_ok_def in_table_def list_all_iff row_fits[OF _ slots_plain[OF assms(4,5)]])
  then show ?thesis
    using True assms(2,3) by (simp add: validate_op_io_types_def signature_value op_reg_def)
qed (simp add: validate_op_io_types_def get_op_signature_def)

lemma validate_off: "validate_op_io_types mem (Some False) ins n outs m reg = Some True"
  by (simp add: validate_op_io_types_def)

subsection \<open>The text\<close>

definition pieces :: "'a io_attr_scheme option list \<Rightarrow> string list" where
  "pieces ts = List.map_filter io_piece ts"

lemma pieces_simps [simp]:
  "pieces [] = []"
  "io_piece t = None \<Longrightarrow> pieces (t # ts) = pieces ts"
  "io_piece t = Some s \<Longrightarrow> pieces (t # ts) = s # pieces ts"
  "pieces (ts @ us) = pieces ts @ pieces us"
  by (simp_all add: pieces_def map_filter_simps) (simp add: List.map_filter_def)

lemma piece_text_ends:
  assumes "io_piece t = Some s"
  obtains b where "s = b @ '', ''" "NUL \<notin> set b" "length b \<le> 16"
proof -
  obtain a where "t = Some a" using assms by (cases t) (simp_all add: io_piece_def)
  with assms obtain q d where a: "get_qtype_name (io_qnt a) = Some q" "get_dtype_name (io_vx a) = Some d"
    "s = (q @ '' '' @ d) @ '', ''" by (auto simp: io_piece_def)
  have q: "NUL \<notin> set q \<and> length q \<le> 7" using a(1) by (cases "io_qnt a") auto
  have d: "NUL \<notin> set d \<and> length d \<le> 8" using a(2) by (cases "io_vx a") auto
  show ?thesis using that[of "q @ '' '' @ d"] a(3) q d by auto
qed

lemma size_loop_value:
  "n + i \<le> length ts \<Longrightarrow> sz + 18 * n < 2 ^ 31 \<Longrightarrow>
    size_loop ts i n sz = Some (sz + length (concat (pieces (take n (drop i ts)))))"
proof (induction n arbitrary: i sz)
  case (Suc n)
  have d: "drop i ts = ts ! i # drop (Suc i) ts" using Suc.prems(1) by (simp add: Cons_nth_drop_Suc)
  show ?case
  proof (cases "io_piece (ts ! i)")
    case (Some s)
    then have "length s \<le> 18" using piece_text_ends by fastforce
    then show ?thesis
      using Suc.IH[of "Suc i" "sz + length s"] Suc.prems Some by (simp add: d int_add_def)
  qed (use Suc.IH[of "Suc i" sz] Suc.prems in \<open>simp add: d\<close>)
qed simp

lemma snprintf_fits:
  "buf = xs @ replicate (k + length s + 1) NUL \<Longrightarrow> length xs = p \<Longrightarrow> n = k + length s + 1 \<Longrightarrow>
    snprintf buf p n s = Some (length s, (xs @ s) @ replicate (k + 1) NUL)"
proof -
  assume a: "buf = xs @ replicate (k + length s + 1) NUL" "length xs = p" "n = k + length s + 1"
  have "min (length s) (n - 1) = length s" using a(3) by simp
  moreover have "drop (p + length s + 1) buf = replicate k NUL" using a(1,2) by simp
  moreover have "take p buf = xs" using a(1,2) by simp
  moreover have "\<not> length buf < p + length s + 1" using a(1,2) by simp
  ultimately show ?thesis using a(3) by (simp add: snprintf_def Let_def)
qed

lemma text_loop_value:
  "n + i \<le> length ts \<Longrightarrow> length (xs @ concat (pieces (take n (drop i ts)))) + k + 1 = sz \<Longrightarrow> sz < 2 ^ 31 \<Longrightarrow>
    text_loop ts i n sz (length xs, xs @ replicate (sz - length xs) NUL) =
      Some (length (xs @ concat (pieces (take n (drop i ts)))),
        xs @ concat (pieces (take n (drop i ts))) @ replicate (k + 1) NUL)"
proof (induction n arbitrary: i xs)
  case 0
  then show ?case by auto
next
  case (Suc n)
  have d: "drop i ts = ts ! i # drop (Suc i) ts" using Suc.prems(1) by (simp add: Cons_nth_drop_Suc)
  show ?case
  proof (cases "io_piece (ts ! i)")
    case (Some s)
    let ?k = "sz - length xs - length s - 1"
    have sz: "sz - length xs = ?k + length s + 1" "length xs + length s < 2 ^ 31" "length xs \<le> sz"
      "?k + 1 = sz - length (xs @ s)"
      using Suc.prems(2,3) Some by (auto simp: d)
    have "snprintf (xs @ replicate (sz - length xs) NUL) (length xs) (sz - length xs) s =
        Some (length s, (xs @ s) @ replicate (sz - length (xs @ s)) NUL)"
      using snprintf_fits[of _ xs ?k s "length xs" "sz - length xs"] sz(1) unfolding sz(4) [symmetric] by metis
    then show ?thesis
      using Suc.IH[of "Suc i" "xs @ s"] Suc.prems Some sz(2,3) by (simp add: d int_add_def)
  qed (use Suc.IH[of "Suc i" xs] Suc.prems in \<open>simp add: d\<close>)
qed

text \<open>The string that a block holds, and the names joined with commas.\<close>

definition c_string :: "string \<Rightarrow> string" where
  "c_string buf = takeWhile (\<lambda>c. c \<noteq> NUL) buf"

fun join :: "string list \<Rightarrow> string" where
  "join [] = ''''"
| "join [s] = s"
| "join (s # t # ts) = s @ '', '' @ join (t # ts)"

definition io_text :: "'a io_attr_scheme option \<Rightarrow> string option" where
  "io_text t = (case t of None \<Rightarrow> None | Some a \<Rightarrow>
     do { q \<leftarrow> get_qtype_name (io_qnt a); d \<leftarrow> get_dtype_name (io_vx a); Some (q @ '' '' @ d) })"

lemma piece_text: "io_piece t = map_option (\<lambda>s. s @ '', '') (io_text t)"
  by (auto simp: io_piece_def io_text_def split: option.splits bind_splits)

lemma pieces_text: "pieces ts = map (\<lambda>s. s @ '', '') (List.map_filter io_text ts)"
  by (induction ts) (auto simp: pieces_def map_filter_simps piece_text split: option.splits)

lemma concat_join: "ss \<noteq> [] \<Longrightarrow> concat (map (\<lambda>s. s @ '', '') ss) = join ss @ '', ''"
  by (induction ss rule: join.induct) auto

lemma join_no_NUL: "\<forall>s \<in> set ss. NUL \<notin> set s \<Longrightarrow> NUL \<notin> set (join ss)"
  by (induction ss rule: join.induct) auto

lemma text_no_NUL: "io_text t = Some s \<Longrightarrow> NUL \<notin> set s"
proof -
  assume "io_text t = Some s"
  then have "io_piece t = Some (s @ '', '')" by (simp add: piece_text)
  then show ?thesis by (rule piece_text_ends) simp
qed

lemma names_no_NUL: "s \<in> set (List.map_filter io_text ts) \<Longrightarrow> NUL \<notin> set s"
  using text_no_NUL by (fastforce simp: List.map_filter_def)

definition io_names :: "'a io_attr_scheme option list \<Rightarrow> string list" where
  "io_names ts = List.map_filter io_text ts"

lemma take_c_string: "NUL \<notin> set xs \<Longrightarrow> c_string (xs @ NUL # ys) = xs"
  unfolding c_string_def by (subst takeWhile_append2) auto

lemma pieces_length: "length (concat (pieces ts)) \<le> 18 * length ts"
proof (induction ts)
  case (Cons t ts)
  then show ?case
  proof (cases "io_piece t")
    case (Some s)
    then have "length s \<le> 18" using piece_text_ends by fastforce
    then show ?thesis using Cons Some by simp
  qed simp
qed simp

lemma describe_buffer:
  fixes ins outs :: "'a io_attr_scheme option list"
  assumes "n \<le> length ins" "m \<le> length outs" "n + m \<le> 2 ^ 26"
  defines "s \<equiv> concat (pieces (take n ins @ take m outs))"
  shows "generate_op_io_types_desc mem ins n outs m =
    (if mem then Some (Some (if 2 \<le> length s then (s @ [NUL])[length s - 2 := NUL] else s @ [NUL])) else Some None)"
proof -
  let ?a = "concat (pieces (take n ins))" and ?b = "concat (pieces (take m outs))"
  have s: "s = ?a @ ?b" by (simp add: s_def)
  have la: "length ?a \<le> 18 * n" "length ?b \<le> 18 * m"
    using pieces_length[of "take n ins"] pieces_length[of "take m outs"] by auto
  let ?sz = "length ?a + length ?b + 1"
  have 1: "size_loop ins 0 n 0 = Some (length ?a)" "size_loop outs 0 m (length ?a) = Some (length ?a + length ?b)"
    "int_add (length ?a + length ?b) 1 = Some ?sz"
    using size_loop_value[of n 0 ins 0] size_loop_value[of m 0 outs "length ?a"] assms(1-3) la
    by (simp_all add: int_add_def)
  have 2: "text_loop ins 0 n ?sz (0, replicate ?sz NUL) = Some (length ?a, ?a @ replicate (length ?b + 1) NUL)"
    using text_loop_value[of n 0 ins "[]" "length ?b" ?sz] assms(1-3) la by simp
  have 3: "text_loop outs 0 m ?sz (length ?a, ?a @ replicate (length ?b + 1) NUL) = Some (length s, s @ [NUL])"
    using text_loop_value[of m 0 outs ?a 0 ?sz] assms(1-3) la by (simp add: s)
  show ?thesis
    unfolding generate_op_io_types_desc_def 1 bind.bind_lunit
    by (simp only: 2 3 bind.bind_lunit prod.case length_append) simp
qed

lemma describe_names:
  assumes "n \<le> length ins" "m \<le> length outs" "n + m \<le> 2 ^ 26"
  shows "\<exists>buf. generate_op_io_types_desc True ins n outs m = Some (Some buf) \<and>
    c_string buf = join (io_names (take n ins @ take m outs))"
proof -
  let ?ts = "take n ins @ take m outs"
  let ?s = "concat (pieces ?ts)"
  have nn: "NUL \<notin> set (join (io_names ?ts))"
    by (rule join_no_NUL) (auto simp: io_names_def dest: names_no_NUL)
  show ?thesis
  proof (cases "io_names ?ts = []")
    case True
    then have "?s = []" by (simp add: pieces_text io_names_def)
    then show ?thesis unfolding describe_buffer[OF assms] True by (simp only: if_True) (simp add: c_string_def)
  next
    case False
    then have s: "?s = join (io_names ?ts) @ '', ''"
      unfolding pieces_text io_names_def by (rule concat_join)
    then have "(?s @ [NUL])[length ?s - 2 := NUL] = join (io_names ?ts) @ NUL # '' '' @ [NUL]"
      by (simp add: list_update_append del: pieces_simps)
    with describe_buffer[OF assms, of True] s show ?thesis
      by (simp add: take_c_string[OF nn] del: pieces_simps)
  qed
qed

subsection \<open>The properties\<close>

text \<open>
  C24: The check of the types is a search of the table. For a table whose rows list one entry per
  registered input and output, \<open>validate_op_io_types\<close> on a node whose check is on accepts exactly
  the nodes for which some row fits every tensor: the same element type, and the same
  quantization unless the tensor has none. Missing tensors, and those that the node does not
  have, fit entries without a type; tensors beyond the registered numbers are not looked at. A
  failed allocation rejects the node.
\<close>

theorem validate_exact:
  assumes "table_ok (i + k) rows" "n \<le> length ins" "m \<le> length outs"
    "list_all tensor_plain ins" "list_all tensor_plain outs"
  shows "validate_op_io_types mem (Some True) ins n outs m (Some (op_reg i k rows)) =
    Some (mem \<and> in_table i k rows ins n outs m)"
  using assms by (rule validate_in_table)

definition io_tensor :: "vsi_nn_type \<Rightarrow> vsi_nn_qnt_type \<Rightarrow> io_attr" where
  "io_tensor t q = \<lparr>io_vx = t, io_qnt = q, io_const = False\<rparr>"

theorem validate_exact_witness:
  "validate_op_io_types True (Some True)
     [Some (io_tensor TYPE_UINT8 QNT_NONE), Some (io_tensor TYPE_BFLOAT16 QNT_NONE)] 2 [None] 1
     (Some (op_reg 2 1 [[(TYPE_UINT8, QNT_DFP), (TYPE_INT8, QNT_NONE), (TYPE_NONE, QNT_NONE)],
        [(TYPE_UINT8, QNT_ASYM), (TYPE_BFLOAT16, QNT_NONE), (TYPE_NONE, QNT_NONE)]])) = Some True"
  by (subst validate_exact)
     (simp_all add: table_ok_def entry_ok_def no_group_def tensor_plain_def byte_type_def in_table_def op_reg_def
       node_slots_def io_slots_def type_fits_def io_tensor_def)

text \<open>
  C25: The text for a rejected node. When the memory is there, \<open>generate_op_io_types_desc\<close> stays
  inside the block whose size it has computed, cuts nothing off, and the string it returns is the
  names of the tensors that have names, joined by commas.
\<close>

theorem describe_exact:
  assumes "n \<le> length ins" "m \<le> length outs" "n + m \<le> 2 ^ 26"
  shows "\<exists>buf. generate_op_io_types_desc True ins n outs m = Some (Some buf) \<and>
    c_string buf = join (io_names (take n ins @ take m outs))"
  using assms by (rule describe_names)

theorem describe_exact_witness:
  "\<exists>buf. generate_op_io_types_desc True [Some (io_tensor TYPE_UINT8 QNT_ASYM), None] 2
       [Some (io_tensor TYPE_FLOAT16 QNT_NONE)] 1 = Some (Some buf) \<and>
     c_string buf = ''ASYM UINT8,  FLOAT16''"
  using describe_exact[of 2 "[Some (io_tensor TYPE_UINT8 QNT_ASYM), None]" 1 "[Some (io_tensor TYPE_FLOAT16 QNT_NONE)]"]
  by (simp add: io_names_def map_filter_simps io_text_def io_tensor_def)

text \<open>
  The codes of \<open>BFLOAT16\<close> overlap the bits of the quantization: a tensor of this type with a
  group-wise quantization has the code of the type alone, and is accepted.
\<close>

theorem bfloat16_group_quantization_accepted:
  "validate_op_io_types True (Some True) [Some (io_tensor TYPE_BFLOAT16 QNT_GROUP_SYM)] 1 [] 0
     (Some (op_reg 1 0 [[(TYPE_BFLOAT16, QNT_NONE)]])) = Some True"
  by (simp add: validate_op_io_types_def get_op_signature_def code_at_def io_tensor_def op_reg_def io_code_def
      Q_SHIFT_def qnt_bits_def data_bits_def numeral_eq_Suc)

subsection \<open>Arrays of items\<close>

definition items_of :: "'a list \<Rightarrow> nat \<Rightarrow> nat \<Rightarrow> 'a list set" where
  "items_of items sz n = {take sz (drop (i * sz) items) | i. i < n}"

lemma item_loop_value:
  assumes "length item = sz" "(i + n) * sz \<le> length items"
  shows "item_loop item items sz i n = Some (\<exists>j. i \<le> j \<and> j < i + n \<and> item = take sz (drop (j * sz) items))"
  using assms(2)
proof (induction n arbitrary: i)
  case (Suc n)
  have b: "i * sz + sz \<le> length items" "(Suc i + n) * sz \<le> length items"
    using Suc.prems by (auto simp: algebra_simps)
  have e: "(\<exists>j. i \<le> j \<and> j < i + Suc n \<and> P j) \<longleftrightarrow> P i \<or> (\<exists>j. Suc i \<le> j \<and> j < Suc i + n \<and> P j)" for P
    by (metis Suc_leD Suc_leI add_Suc add_Suc_right le_eq_less_or_eq less_add_Suc1)
  show ?case using Suc.IH[OF b(2)] b(1) assms(1) by (simp only: e) (simp add: memcmp_eq_def)
qed simp

lemma item_in_array:
  assumes "length item = sz" "n * sz \<le> length items"
  shows "is_item_in_array (Some item) (Some items) sz n = Some (item \<in> items_of items sz n)"
  using item_loop_value[of item sz 0 n items] assms by (auto simp: is_item_in_array_def items_of_def)

end
