(* ===== verification/Kernel_Param.thy ===== *)
theory Kernel_Param
  imports Hashmap
begin

text \<open>
  The parameters of a kernel (\<^verbatim>\<open>src/tim/vx/internal/src/kernel/vsi_nn_kernel_param.c\<close>): tagged
  values in cells of the heap, found by name through a hash map of pointers to them.

  The union of a parameter is its eight bytes as one little-endian word: storing a value of four
  bytes leaves the upper half of what \<open>malloc\<close> returned, and reading a member reads its bytes
  whatever was stored. A \<open>float\<close> is its bit pattern, a pointer its address. The argument \<open>mem\<close> of
  the functions that allocate is what \<open>malloc\<close> returns: the address and the old contents of a cell
  that is not in use, or \<open>None\<close>.

  A null pointer fails an assertion (\<open>CHECK_PARAM_NULL\<close>). The argument \<open>debug\<close> says whether assertions
  are compiled in (the standard macro \<open>NDEBUG\<close> is not defined): then the program stops, otherwise the
  function returns a default. Using a cell that is not allocated is a \<open>Fault\<close>.
\<close>

datatype 'a outcome = Returns 'a | Asserts | Fault

definition CHECK_PARAM_NULL :: "bool \<Rightarrow> 'p option \<Rightarrow> 'a \<Rightarrow> ('p \<Rightarrow> 'a outcome) \<Rightarrow> 'a outcome" where
  "CHECK_PARAM_NULL debug ptr rval rest =
     (case ptr of None \<Rightarrow> if debug then Asserts else Returns rval | Some p \<Rightarrow> rest p)"

datatype param_dtype = PARAM_I32 | PARAM_I64 | PARAM_F32 | PARAM_BUFFER | PARAM_CONST_BUFFER | PARAM_STR

record param =
  pr_type :: param_dtype
  pr_value :: "64 word"
  pr_size :: "64 word"

record kernel_params =
  kp_map :: "nat hashmap"
  kp_heap :: "nat \<Rightarrow> param option"

type_synonym alloc = "(nat \<times> param) option"

subsection \<open>Adding\<close>

text \<open>The common body of the functions that add: the cell is filled, then entered in the map.\<close>

definition param_add ::
  "bool \<Rightarrow> alloc \<Rightarrow> kernel_params \<Rightarrow> string \<Rightarrow> (param \<Rightarrow> param) \<Rightarrow> (bool \<times> kernel_params) outcome" where
  "param_add debug mem s key fill =
     CHECK_PARAM_NULL debug mem (False, s) (\<lambda>(p, old).
       Returns (True, \<lparr>kp_map = hashmap_add (kp_map s) key (Some p), kp_heap = (kp_heap s)(p \<mapsto> fill old)\<rparr>))"

text \<open>Writing the low four bytes of the union.\<close>

definition put_low :: "64 word \<Rightarrow> 32 word \<Rightarrow> 64 word" where
  "put_low old v = push_bit 32 (drop_bit 32 old) OR ucast v"

definition kernel_param_add_int32 :: "bool \<Rightarrow> alloc \<Rightarrow> kernel_params \<Rightarrow> string \<Rightarrow> 32 word \<Rightarrow> (bool \<times> kernel_params) outcome" where
  "kernel_param_add_int32 debug mem s key v = param_add debug mem s key
     (\<lambda>p. \<lparr>pr_type = PARAM_I32, pr_value = put_low (pr_value p) v, pr_size = 4\<rparr>)"

definition kernel_param_add_int64 :: "bool \<Rightarrow> alloc \<Rightarrow> kernel_params \<Rightarrow> string \<Rightarrow> 64 word \<Rightarrow> (bool \<times> kernel_params) outcome" where
  "kernel_param_add_int64 debug mem s key v = param_add debug mem s key
     (\<lambda>p. \<lparr>pr_type = PARAM_I64, pr_value = v, pr_size = 8\<rparr>)"

definition kernel_param_add_float32 :: "bool \<Rightarrow> alloc \<Rightarrow> kernel_params \<Rightarrow> string \<Rightarrow> 32 word \<Rightarrow> (bool \<times> kernel_params) outcome" where
  "kernel_param_add_float32 debug mem s key v = param_add debug mem s key
     (\<lambda>p. \<lparr>pr_type = PARAM_F32, pr_value = put_low (pr_value p) v, pr_size = 4\<rparr>)"

text \<open>A string is its address and its length.\<close>

definition kernel_param_add_str ::
  "bool \<Rightarrow> alloc \<Rightarrow> kernel_params \<Rightarrow> string \<Rightarrow> 64 word \<Rightarrow> 64 word \<Rightarrow> (bool \<times> kernel_params) outcome" where
  "kernel_param_add_str debug mem s key v strlen = param_add debug mem s key
     (\<lambda>p. \<lparr>pr_type = PARAM_STR, pr_value = v, pr_size = strlen\<rparr>)"

definition kernel_param_add_buffer ::
  "bool \<Rightarrow> alloc \<Rightarrow> kernel_params \<Rightarrow> string \<Rightarrow> 64 word \<Rightarrow> 64 word \<Rightarrow> (bool \<times> kernel_params) outcome" where
  "kernel_param_add_buffer debug mem s key v sz = param_add debug mem s key
     (\<lambda>p. \<lparr>pr_type = PARAM_BUFFER, pr_value = v, pr_size = sz\<rparr>)"

definition kernel_param_add_const_buffer ::
  "bool \<Rightarrow> alloc \<Rightarrow> kernel_params \<Rightarrow> string \<Rightarrow> 64 word \<Rightarrow> 64 word \<Rightarrow> (bool \<times> kernel_params) outcome" where
  "kernel_param_add_const_buffer debug mem s key v sz = param_add debug mem s key
     (\<lambda>p. \<lparr>pr_type = PARAM_CONST_BUFFER, pr_value = v, pr_size = sz\<rparr>)"

subsection \<open>Reading\<close>

text \<open>A wrong type is only logged; an unknown key fails the assertion, or gives the default.\<close>

definition param_get :: "bool \<Rightarrow> kernel_params \<Rightarrow> string \<Rightarrow> (param \<Rightarrow> 'a) \<Rightarrow> 'a \<Rightarrow> 'a outcome" where
  "param_get debug s key sel dflt =
     CHECK_PARAM_NULL debug (hashmap_get (kp_map s) key) dflt (\<lambda>p.
       case kp_heap s p of None \<Rightarrow> Fault | Some c \<Rightarrow> Returns (sel c))"

definition kernel_param_get_int32 :: "bool \<Rightarrow> kernel_params \<Rightarrow> string \<Rightarrow> 32 word outcome" where
  "kernel_param_get_int32 debug s key = param_get debug s key (\<lambda>p. ucast (pr_value p)) 0"

definition kernel_param_get_int64 :: "bool \<Rightarrow> kernel_params \<Rightarrow> string \<Rightarrow> 64 word outcome" where
  "kernel_param_get_int64 debug s key = param_get debug s key pr_value 0"

definition kernel_param_get_float32 :: "bool \<Rightarrow> kernel_params \<Rightarrow> string \<Rightarrow> 32 word outcome" where
  "kernel_param_get_float32 debug s key = param_get debug s key (\<lambda>p. ucast (pr_value p)) 0"

definition kernel_param_get_str :: "bool \<Rightarrow> kernel_params \<Rightarrow> string \<Rightarrow> 64 word outcome" where
  "kernel_param_get_str debug s key = param_get debug s key pr_value 0"

text \<open>The size is written only if the caller wants it and the key exists.\<close>

definition kernel_param_get_buffer :: "bool \<Rightarrow> kernel_params \<Rightarrow> string \<Rightarrow> 64 word option \<Rightarrow> (64 word \<times> 64 word option) outcome" where
  "kernel_param_get_buffer debug s key want =
     param_get debug s key (\<lambda>p. (pr_value p, map_option (\<lambda>_. pr_size p) want)) (0, want)"

definition kernel_param_get_const_buffer ::
  "bool \<Rightarrow> kernel_params \<Rightarrow> string \<Rightarrow> 64 word option \<Rightarrow> (64 word \<times> 64 word option) outcome" where
  "kernel_param_get_const_buffer debug s key want =
     param_get debug s key (\<lambda>p. (pr_value p, map_option (\<lambda>_. pr_size p) want)) (0, want)"

subsection \<open>Creating and releasing\<close>

definition kernel_param_create :: "(nat \<Rightarrow> param option) \<Rightarrow> kernel_params" where
  "kernel_param_create heap = \<lparr>kp_map = hashmap_create, kp_heap = heap\<rparr>"

definition free_param :: "(nat \<Rightarrow> param option) \<Rightarrow> nat option \<Rightarrow> (nat \<Rightarrow> param option) option" where
  "free_param heap p =
     (case p of None \<Rightarrow> Some heap | Some a \<Rightarrow> if heap a = None then None else Some (heap(a := None)))"

function param_clear_loop ::
  "nat hashmap \<Rightarrow> nat option \<Rightarrow> (nat \<Rightarrow> param option) \<Rightarrow> (nat \<Rightarrow> param option) option" where
  "param_clear_loop m p heap =
     (case p of
        None \<Rightarrow> Some heap
      | Some i \<Rightarrow> do {
          let next = hashmap_iter m (Some i);
          item \<leftarrow> rd (hm_items m) i;
          heap' \<leftarrow> free_param heap (snd item);
          param_clear_loop m next heap' })"
  by pat_completeness auto
termination
  by (relation "measure (\<lambda>(m, p, _). case p of None \<Rightarrow> 0 | Some i \<Rightarrow> Suc (length (hm_items m)) - i)")
    (auto simp: hashmap_iter_def rd_eq_Some_iff split: if_splits)

declare param_clear_loop.simps [simp del]

definition kernel_param_clear :: "kernel_params \<Rightarrow> kernel_params option" where
  "kernel_param_clear s = do {
     heap \<leftarrow> param_clear_loop (kp_map s) (hashmap_iter (kp_map s) None) (kp_heap s);
     Some \<lparr>kp_map = hashmap_clear (kp_map s), kp_heap = heap\<rparr> }"

text \<open>What is left of the heap after the release of the parameters and their map.\<close>

definition kernel_param_release :: "kernel_params \<Rightarrow> (nat \<Rightarrow> param option) option" where
  "kernel_param_release s = map_option kp_heap (kernel_param_clear s)"


subsection \<open>Histories of calls\<close>

datatype param_call =
    Call_int32 string "32 word"
  | Call_int64 string "64 word"
  | Call_float32 string "32 word"
  | Call_str string "64 word" "64 word"
  | Call_buffer string "64 word" "64 word"
  | Call_const_buffer string "64 word" "64 word"

fun param_step :: "bool \<Rightarrow> alloc \<Rightarrow> param_call \<Rightarrow> kernel_params \<Rightarrow> (bool \<times> kernel_params) outcome" where
  "param_step debug mem (Call_int32 k v) s = kernel_param_add_int32 debug mem s k v"
| "param_step debug mem (Call_int64 k v) s = kernel_param_add_int64 debug mem s k v"
| "param_step debug mem (Call_float32 k v) s = kernel_param_add_float32 debug mem s k v"
| "param_step debug mem (Call_str k v n) s = kernel_param_add_str debug mem s k v n"
| "param_step debug mem (Call_buffer k v n) s = kernel_param_add_buffer debug mem s k v n"
| "param_step debug mem (Call_const_buffer k v n) s = kernel_param_add_const_buffer debug mem s k v n"

fun call_key :: "param_call \<Rightarrow> string" where
  "call_key (Call_int32 k _) = k"
| "call_key (Call_int64 k _) = k"
| "call_key (Call_float32 k _) = k"
| "call_key (Call_str k _ _) = k"
| "call_key (Call_buffer k _ _) = k"
| "call_key (Call_const_buffer k _ _) = k"

text \<open>The function that reads the type of a call gives its value.\<close>

fun read_back :: "bool \<Rightarrow> kernel_params \<Rightarrow> param_call \<Rightarrow> bool" where
  "read_back debug s (Call_int32 k v) = (kernel_param_get_int32 debug s k = Returns v)"
| "read_back debug s (Call_int64 k v) = (kernel_param_get_int64 debug s k = Returns v)"
| "read_back debug s (Call_float32 k v) = (kernel_param_get_float32 debug s k = Returns v)"
| "read_back debug s (Call_str k v _) = (kernel_param_get_str debug s k = Returns v)"
| "read_back debug s (Call_buffer k v n) = (\<forall>x. kernel_param_get_buffer debug s k (Some x) = Returns (v, Some n))"
| "read_back debug s (Call_const_buffer k v n) = (\<forall>x. kernel_param_get_const_buffer debug s k (Some x) = Returns (v, Some n))"

text \<open>What the functions that read do at a name that was never added.\<close>

definition reads_default :: "bool \<Rightarrow> kernel_params \<Rightarrow> string \<Rightarrow> bool" where
  "reads_default debug s k \<longleftrightarrow>
     kernel_param_get_int32 debug s k = (if debug then Asserts else Returns 0) \<and>
     kernel_param_get_int64 debug s k = (if debug then Asserts else Returns 0) \<and>
     kernel_param_get_float32 debug s k = (if debug then Asserts else Returns 0) \<and>
     kernel_param_get_str debug s k = (if debug then Asserts else Returns 0) \<and>
     (\<forall>want. kernel_param_get_buffer debug s k want = (if debug then Asserts else Returns (0, want))) \<and>
     (\<forall>want. kernel_param_get_const_buffer debug s k want = (if debug then Asserts else Returns (0, want)))"

type_synonym param_history = "((nat \<times> param) \<times> param_call) list"

fun run_params :: "bool \<Rightarrow> param_history \<Rightarrow> kernel_params \<Rightarrow> kernel_params outcome" where
  "run_params debug [] s = Returns s"
| "run_params debug ((mem, c) # cs) s =
     (case param_step debug (Some mem) c s of
        Returns (ok, s') \<Rightarrow> if ok then run_params debug cs s' else Fault
      | Asserts \<Rightarrow> Asserts
      | Fault \<Rightarrow> Fault)"

text \<open>The cells whose name is added again later.\<close>

fun overwritten :: "param_history \<Rightarrow> nat set" where
  "overwritten [] = {}"
| "overwritten (((a, _), c) # cs) =
     (if call_key c \<in> (call_key \<circ> snd) ` set cs then insert a (overwritten cs) else overwritten cs)"

definition addrs :: "param_history \<Rightarrow> nat list" where "addrs cs = map (fst \<circ> fst) cs"

definition fresh_cells :: "(nat \<Rightarrow> param option) \<Rightarrow> param_history \<Rightarrow> bool" where
  "fresh_cells heap cs \<longleftrightarrow> distinct (addrs cs) \<and> set (addrs cs) \<inter> dom heap = {}"

subsection \<open>The state after a history\<close>

fun fill_of :: "param_call \<Rightarrow> param \<Rightarrow> param" where
  "fill_of (Call_int32 k v) p = \<lparr>pr_type = PARAM_I32, pr_value = put_low (pr_value p) v, pr_size = 4\<rparr>"
| "fill_of (Call_int64 k v) p = \<lparr>pr_type = PARAM_I64, pr_value = v, pr_size = 8\<rparr>"
| "fill_of (Call_float32 k v) p = \<lparr>pr_type = PARAM_F32, pr_value = put_low (pr_value p) v, pr_size = 4\<rparr>"
| "fill_of (Call_str k v n) p = \<lparr>pr_type = PARAM_STR, pr_value = v, pr_size = n\<rparr>"
| "fill_of (Call_buffer k v n) p = \<lparr>pr_type = PARAM_BUFFER, pr_value = v, pr_size = n\<rparr>"
| "fill_of (Call_const_buffer k v n) p = \<lparr>pr_type = PARAM_CONST_BUFFER, pr_value = v, pr_size = n\<rparr>"

definition params_after :: "(nat \<Rightarrow> param option) \<Rightarrow> param_history \<Rightarrow> kernel_params" where
  "params_after heap cs = fold (\<lambda>((a, old), c) s.
     \<lparr>kp_map = hashmap_add (kp_map s) (call_key c) (Some a), kp_heap = (kp_heap s)(a \<mapsto> fill_of c old)\<rparr>) cs (kernel_param_create heap)"

lemma param_step_fields:
  "param_step debug (Some (a, old)) c s =
     Returns (True, \<lparr>kp_map = hashmap_add (kp_map s) (call_key c) (Some a), kp_heap = (kp_heap s)(a \<mapsto> fill_of c old)\<rparr>)"
  by (cases c; simp add: CHECK_PARAM_NULL_def kernel_param_add_int32_def kernel_param_add_int64_def kernel_param_add_float32_def
      kernel_param_add_str_def kernel_param_add_buffer_def kernel_param_add_const_buffer_def param_add_def)

lemma run_params_after: "run_params debug cs (kernel_param_create heap) = Returns (params_after heap cs)"
proof -
  have "run_params debug cs s = Returns (fold (\<lambda>((a, old), c) s.
     \<lparr>kp_map = hashmap_add (kp_map s) (call_key c) (Some a), kp_heap = (kp_heap s)(a \<mapsto> fill_of c old)\<rparr>) cs s)" for s
    by (induction cs arbitrary: s) (auto simp: param_step_fields)
  then show ?thesis by (simp add: params_after_def)
qed

lemma low_bytes: "ucast (put_low old v) = v"
  by (rule bit_word_eqI) (simp add: put_low_def bit_simps)

definition named_cells :: "param_history \<Rightarrow> (string \<times> nat) list" where
  "named_cells cs = map (\<lambda>((a, old), c). (call_key c, a)) cs"

definition filled_cells :: "param_history \<Rightarrow> (nat \<times> param) list" where
  "filled_cells cs = map (\<lambda>((a, old), c). (a, fill_of c old)) cs"

lemma run_params_state:
  "hm_inv (kp_map (params_after heap cs)) \<and> hashmap_get (kp_map (params_after heap cs)) = map_of (rev (named_cells cs)) \<and>
   kp_heap (params_after heap cs) = heap ++ map_of (rev (filled_cells cs))"
proof (induction cs rule: rev_induct)
  case Nil
  show ?case
    by (simp add: params_after_def kernel_param_create_def hm_inv_create named_cells_def filled_cells_def
        smap.get_new fun_eq_iff)
next
  case (snoc x cs)
  obtain a old c where x: "x = ((a, old), c)" by (cases x) auto
  have "params_after heap (cs @ [x]) =
      \<lparr>kp_map = hashmap_add (kp_map (params_after heap cs)) (call_key c) (Some a), kp_heap = (kp_heap (params_after heap cs))(a \<mapsto> fill_of c old)\<rparr>"
    by (simp add: params_after_def x)
  moreover from snoc have "hashmap_get (hashmap_add (kp_map (params_after heap cs)) (call_key c) (Some a)) =
    map_of (rev (named_cells (cs @ [x])))"
    by (intro ext) (simp add: get_add[OF hm_inv_wf] named_cells_def x)
  ultimately show ?case using snoc
    by (simp add: hm_inv_add filled_cells_def x map_add_def fun_eq_iff)
qed

subsection \<open>Reading\<close>

lemma last_named: "call_key c \<notin> (call_key \<circ> snd) ` set vs \<Longrightarrow>
    map_of (rev (named_cells (us @ ((a, old), c) # vs))) (call_key c) = Some a"
proof -
  assume "call_key c \<notin> (call_key \<circ> snd) ` set vs"
  then have "map_of (rev (named_cells vs)) (call_key c) = None"
    by (force simp: named_cells_def map_of_eq_None_iff)
  then show ?thesis by (simp add: named_cells_def map_add_Some_iff)
qed

lemma filled: "distinct (addrs (us @ ((a, old), c) # vs)) \<Longrightarrow>
    map_of (rev (filled_cells (us @ ((a, old), c) # vs))) a = Some (fill_of c old)"
  by (force simp: filled_cells_def addrs_def map_add_Some_iff map_of_eq_None_iff image_iff split: prod.splits)

lemma read_back_cell:
  assumes "hashmap_get (kp_map s) (call_key c) = Some a" "kp_heap s a = Some (fill_of c old)"
  shows "read_back debug s c"
  using assms by (cases c) (simp_all add: kernel_param_get_int32_def kernel_param_get_int64_def
      kernel_param_get_float32_def kernel_param_get_str_def kernel_param_get_buffer_def
      kernel_param_get_const_buffer_def param_get_def CHECK_PARAM_NULL_def low_bytes)

lemma run_read_back:
  assumes "fresh_cells heap cs" "cs = us @ (mem, c) # vs" "call_key c \<notin> (call_key \<circ> snd) ` set vs"
  shows "read_back debug (params_after heap cs) c"
proof -
  obtain a old where m: "mem = (a, old)" by (cases mem)
  show ?thesis
  proof (rule read_back_cell)
    show "hashmap_get (kp_map (params_after heap cs)) (call_key c) = Some a"
      using last_named[OF assms(3)] by (simp add: run_params_state assms(2) m)
    show "kp_heap (params_after heap cs) a = Some (fill_of c old)"
      using filled[of us a old c vs] assms(1,2) by (simp add: run_params_state m fresh_cells_def)
  qed
qed

lemma run_reads_default:
  assumes "k \<notin> (call_key \<circ> snd) ` set cs"
  shows "reads_default debug (params_after heap cs) k"
proof -
  have "map_of (rev (named_cells cs)) k = None"
    using assms by (force simp: named_cells_def map_of_eq_None_iff)
  then have "hashmap_get (kp_map (params_after heap cs)) k = None" by (simp add: run_params_state)
  then show ?thesis
    by (simp add: reads_default_def kernel_param_get_int32_def kernel_param_get_int64_def kernel_param_get_float32_def
        kernel_param_get_str_def kernel_param_get_buffer_def kernel_param_get_const_buffer_def param_get_def CHECK_PARAM_NULL_def)
qed

subsection \<open>Releasing\<close>

fun free_all :: "(nat \<Rightarrow> param option) \<Rightarrow> (string \<times> nat option) list \<Rightarrow> (nat \<Rightarrow> param option) option" where
  "free_all heap [] = Some heap"
| "free_all heap (x # xs) = do { h \<leftarrow> free_param heap (snd x); free_all h xs }"

lemma clear_loop_free:
  "i \<le> length (hm_items m) \<Longrightarrow>
   param_clear_loop m (if i < length (hm_items m) then Some i else None) heap = free_all heap (drop i (hm_items m))"
proof (induction "length (hm_items m) - i" arbitrary: i heap)
  case 0
  then show ?case by (subst param_clear_loop.simps) simp
next
  case (Suc d)
  then have i: "i < length (hm_items m)" "d = length (hm_items m) - Suc i" by simp_all
  have n: "hashmap_iter m (Some i) = (if Suc i < length (hm_items m) then Some (Suc i) else None)"
    by (simp add: hashmap_iter_def)
  have IH: "param_clear_loop m (hashmap_iter m (Some i)) h = free_all h (drop (Suc i) (hm_items m))" for h
    using Suc.hyps(1)[OF i(2)] i(1) by (simp add: n Suc_leI)
  then have IHf: "param_clear_loop m (hashmap_iter m (Some i)) = (\<lambda>h. free_all h (drop (Suc i) (hm_items m)))"
    by (intro ext)
  have e: "drop i (hm_items m) = hm_items m ! i # drop (Suc i) (hm_items m)" using i(1) by (simp add: Cons_nth_drop_Suc)
  show ?case
    unfolding e using i(1) by (subst param_clear_loop.simps) (simp add: IHf)
qed

lemma free_all_ok:
  "distinct (List.map_filter snd xs) \<Longrightarrow> set (List.map_filter snd xs) \<subseteq> dom heap \<Longrightarrow>
   free_all heap xs = Some (heap |` (- set (List.map_filter snd xs)))"
proof (induction xs arbitrary: heap)
  case Nil
  then show ?case by (simp add: map_filter_simps)
next
  case (Cons x xs)
  show ?case
  proof (cases "snd x")
    case None
    then show ?thesis using Cons by (simp add: map_filter_simps free_param_def)
  next
    case (Some a)
    have "free_all (heap(a := None)) xs = Some ((heap(a := None)) |` (- set (List.map_filter snd xs)))"
      using Cons.prems Some by (intro Cons.IH) (auto simp: map_filter_simps)
    moreover have "heap a \<noteq> None" using Cons.prems(2) Some by (auto simp: map_filter_simps)
    moreover have "(heap(a := None)) |` (- set (List.map_filter snd xs)) = heap |` (- set (List.map_filter snd (x # xs)))"
      using Some by (auto simp: map_filter_simps restrict_map_def fun_eq_iff)
    ultimately show ?thesis using Some by (simp add: free_param_def del: fun_upd_apply)
  qed
qed

lemma map_filter_distinct:
  "distinct (map fst xs) \<Longrightarrow> (\<And>k k' a. (k, Some a) \<in> set xs \<Longrightarrow> (k', Some a) \<in> set xs \<Longrightarrow> k = k') \<Longrightarrow>
   distinct (List.map_filter snd xs)"
proof (induction xs)
  case (Cons x xs)
  have d: "distinct (List.map_filter snd xs)" using Cons.prems by (intro Cons.IH) auto
  obtain k o1 where x: "x = (k, o1)" by (cases x)
  show ?case
  proof (cases o1)
    case (Some a)
    have "a \<notin> set (List.map_filter snd xs)"
    proof
      assume "a \<in> set (List.map_filter snd xs)"
      then obtain k' where k': "(k', Some a) \<in> set xs" by (auto simp: map_filter_def)
      then have "k = k'" using Cons.prems(2)[of k a k'] x Some by simp
      then show False using k' Cons.prems(1) x by (auto simp: image_iff)
    qed
    then show ?thesis using d x Some by (simp add: map_filter_simps)
  qed (use d x in \<open>simp add: map_filter_simps\<close>)
qed (simp add: map_filter_simps)

lemma items_get:
  assumes "hm_wf m"
  shows "(k, Some a) \<in> set (hm_items m) \<longleftrightarrow> hashmap_get m k = Some a"
proof -
  have "(k, Some a) \<in> set (hm_items m) \<longleftrightarrow> map_of (hm_items m) k = Some (Some a)"
    using assms by (simp add: hm_wf_def)
  then show ?thesis by (simp add: get_items[OF assms] split: option.splits)
qed

lemma named_inj:
  "distinct (addrs cs) \<Longrightarrow> map_of (rev (named_cells cs)) k = Some a \<Longrightarrow> map_of (rev (named_cells cs)) k' = Some a \<Longrightarrow> k = k'"
proof -
  assume d: "distinct (addrs cs)" and k: "map_of (rev (named_cells cs)) k = Some a" "map_of (rev (named_cells cs)) k' = Some a"
  have "distinct (map snd (named_cells cs))"
    using d by (simp add: named_cells_def addrs_def comp_def case_prod_unfold)
  then show "k = k'" using k[THEN map_of_SomeD]
    by (metis distinct_map inj_onD prod.sel set_rev)
qed

lemma cells_split:
  "distinct (addrs cs) \<Longrightarrow> overwritten cs \<union> ran (map_of (rev (named_cells cs))) = set (addrs cs) \<and>
   overwritten cs \<inter> ran (map_of (rev (named_cells cs))) = {}"
proof (induction cs)
  case (Cons x cs)
  obtain a old c where x: "x = ((a, old), c)" by (cases x) auto
  let ?m = "map_of (rev (named_cells cs))"
  have dm: "dom ?m = (call_key \<circ> snd) ` set cs"
    by (force simp: dom_map_of_conv_image_fst named_cells_def image_iff split: prod.splits)
  have IH: "overwritten cs \<union> ran ?m = set (addrs cs)" "overwritten cs \<inter> ran ?m = {}" and a: "a \<notin> set (addrs cs)"
    using Cons x by (simp_all add: addrs_def)
  have step: "map_of (rev (named_cells (x # cs))) = [call_key c \<mapsto> a] ++ ?m" by (simp add: named_cells_def x)
  have in_addrs: "a \<notin> overwritten cs" "a \<notin> ran ?m" using IH(1) a by auto
  show ?case
  proof (cases "call_key c \<in> dom ?m")
    case True
    then have "[call_key c \<mapsto> a] ++ ?m = ?m" by (intro map_le_antisym) (auto simp: map_le_def map_add_def split: option.splits)
    then show ?thesis using True IH in_addrs step dm x by (auto simp: addrs_def)
  next
    case False
    then have "ran ([call_key c \<mapsto> a] ++ ?m) = insert a (ran ?m)"
      by (subst ran_map_add) (auto simp: dom_def)
    then show ?thesis using False IH in_addrs step dm x by (auto simp: addrs_def)
  qed
qed (simp add: addrs_def named_cells_def)

lemma run_release:
  assumes "fresh_cells heap cs"
  obtains h where "kernel_param_release (params_after heap cs) = Some h" "\<forall>a \<in> dom heap. h a = heap a"
    "dom h = dom heap \<union> overwritten cs"
proof -
  let ?s = "params_after heap cs"
  let ?free = "List.map_filter snd (hm_items (kp_map ?s))"
  note st = run_params_state[of heap cs]
  have wf: "hm_wf (kp_map ?s)" using st hm_inv_wf by blast
  have g: "(k, Some a) \<in> set (hm_items (kp_map ?s)) \<longleftrightarrow> map_of (rev (named_cells cs)) k = Some a" for k a
    using items_get[OF wf] st by simp
  have d: "distinct (addrs cs)" using assms by (simp add: fresh_cells_def)
  have free: "set ?free = ran (map_of (rev (named_cells cs)))"
    by (force simp: map_filter_def ran_def g[symmetric])
  have dist: "distinct ?free"
    using wf g named_inj[OF d] by (intro map_filter_distinct) (auto simp: hm_wf_def)
  have cells: "dom (map_of (rev (filled_cells cs))) = set (addrs cs)"
    by (force simp: dom_map_of_conv_image_fst filled_cells_def addrs_def image_iff split: prod.splits)
  have kh: "kp_heap ?s = heap ++ map_of (rev (filled_cells cs))" using st by simp
  have sub: "set ?free \<subseteq> dom (kp_heap ?s)" using cells_split[OF d] cells unfolding free kh by auto
  have "param_clear_loop (kp_map ?s) (hashmap_iter (kp_map ?s) None) (kp_heap ?s) = Some (kp_heap ?s |` (- set ?free))"
    using clear_loop_free[of 0 "kp_map ?s" "kp_heap ?s"] free_all_ok[OF dist sub] by (simp add: hashmap_iter_def)
  then have "kernel_param_release ?s = Some (kp_heap ?s |` (- set ?free))"
    by (simp add: kernel_param_release_def kernel_param_clear_def)
  moreover have "\<forall>a \<in> dom heap. (kp_heap ?s |` (- set ?free)) a = heap a"
  proof
    fix a assume "a \<in> dom heap"
    then have "a \<notin> set (addrs cs)" using assms by (auto simp: fresh_cells_def)
    then have "a \<notin> set ?free" "map_of (rev (filled_cells cs)) a = None"
      using cells_split[OF d] cells free by (auto simp: domIff)
    then show "(kp_heap ?s |` (- set ?free)) a = heap a" by (simp add: kh map_add_def)
  qed
  moreover have "dom (kp_heap ?s |` (- set ?free)) = dom heap \<union> overwritten cs"
    using cells_split[OF d] cells assms unfolding free kh by (auto simp: fresh_cells_def)
  ultimately show thesis by (rule that)
qed

subsection \<open>Properties\<close>

text \<open>
  C34: The life of a parameter list. Any sequence of additions for which there is memory, under names
  old or new, succeeds, and then: the function for the type of an addition gives its value back if the
  name was not added again later; at an unknown name every function that reads fails its assertion,
  and returns its default (zero or the null pointer, with the size of the caller untouched) when
  assertions are compiled out; and releasing the list frees every cell but those of names that were
  added again, no cell twice, and no cell of anybody else.
\<close>

theorem kernel_param_lifecycle:
  assumes "fresh_cells heap cs"
  shows "\<exists>s. run_params debug cs (kernel_param_create heap) = Returns s \<and>
    (\<forall>us mem c vs. cs = us @ (mem, c) # vs \<longrightarrow> call_key c \<notin> (call_key \<circ> snd) ` set vs \<longrightarrow> read_back debug s c) \<and>
    (\<forall>k. k \<notin> (call_key \<circ> snd) ` set cs \<longrightarrow> reads_default debug s k) \<and>
    (\<exists>h. kernel_param_release s = Some h \<and> (\<forall>a \<in> dom heap. h a = heap a) \<and> dom h = dom heap \<union> overwritten cs)"
proof -
  obtain h where h: "kernel_param_release (params_after heap cs) = Some h" "\<forall>a \<in> dom heap. h a = heap a"
    "dom h = dom heap \<union> overwritten cs" by (rule run_release[OF assms])
  then show ?thesis using run_params_after[of debug cs heap] run_read_back[OF assms] run_reads_default[of _ cs debug heap] by blast
qed

definition any_cell :: param where "any_cell = \<lparr>pr_type = PARAM_STR, pr_value = - 1, pr_size = 0\<rparr>"

definition axis_calls :: param_history where
  "axis_calls = [((1, any_cell), Call_int32 ''axis'' 2), ((2, any_cell), Call_float32 ''beta'' 0x3F800000),
     ((3, any_cell), Call_int32 ''axis'' 1)]"

theorem kernel_param_lifecycle_witness:
  "\<exists>s. run_params False axis_calls (kernel_param_create (\<lambda>_. None)) = Returns s \<and>
     kernel_param_get_int32 False s ''axis'' = Returns 1 \<and> kernel_param_get_buffer False s ''bias'' (Some 7) = Returns (0, Some 7) \<and>
     (\<exists>h. kernel_param_release s = Some h \<and> dom h = {1})"
proof -
  have f: "fresh_cells (\<lambda>_. None) axis_calls" by (simp add: fresh_cells_def addrs_def axis_calls_def)
  have c: "axis_calls = take 2 axis_calls @ ((3, any_cell), Call_int32 ''axis'' 1) # []" by (simp add: axis_calls_def)
  obtain s where s: "run_params False axis_calls (kernel_param_create (\<lambda>_. None)) = Returns s"
    "\<forall>us mem c vs. axis_calls = us @ (mem, c) # vs \<longrightarrow> call_key c \<notin> (call_key \<circ> snd) ` set vs \<longrightarrow> read_back False s c"
    "\<forall>k. k \<notin> (call_key \<circ> snd) ` set axis_calls \<longrightarrow> reads_default False s k"
    "\<exists>h. kernel_param_release s = Some h \<and> dom h = dom (\<lambda>_ :: nat. None :: param option) \<union> overwritten axis_calls"
    using kernel_param_lifecycle[OF f, of False] by blast
  have "read_back False s (Call_int32 ''axis'' 1)" using s(2) c by fastforce
  moreover have "reads_default False s ''bias''" using s(3) by (simp add: axis_calls_def)
  moreover have "overwritten axis_calls = {1}" by (simp add: axis_calls_def)
  ultimately show ?thesis using s(1,4) by (auto simp: reads_default_def)
qed

end
