(* ===== verification/Op_Tables.thy ===== *)
theory Op_Tables
  imports Io_Types
begin

text \<open>
  The tables of supported element types that the operations register: the rows between
  \<^verbatim>\<open>BEGIN_IO_TYPE_DECL\<close> and \<^verbatim>\<open>END_IO_TYPE_DECL\<close> in
  \<^verbatim>\<open>src/ops\<close> (under \<^verbatim>\<open>src/tim/vx/internal\<close>). This theory has the tables
  of the operations whose setup is modelled, \<open>Op_Tables_More\<close> those of other operations. An entry
  \<open>D_x | Q_y\<close> is a pair; \<open>io_code\<close> gives its number.
\<close>

type_synonym io_table = "(vsi_nn_type \<times> vsi_nn_qnt_type) list list"

abbreviation D_NONE where "D_NONE \<equiv> TYPE_NONE"
abbreviation D_I4 where "D_I4 \<equiv> TYPE_INT4"
abbreviation D_U4 where "D_U4 \<equiv> TYPE_UINT4"
abbreviation D_I8 where "D_I8 \<equiv> TYPE_INT8"
abbreviation D_I16 where "D_I16 \<equiv> TYPE_INT16"
abbreviation D_I32 where "D_I32 \<equiv> TYPE_INT32"
abbreviation D_U8 where "D_U8 \<equiv> TYPE_UINT8"
abbreviation D_U16 where "D_U16 \<equiv> TYPE_UINT16"
abbreviation D_U32 where "D_U32 \<equiv> TYPE_UINT32"
abbreviation D_F16 where "D_F16 \<equiv> TYPE_FLOAT16"
abbreviation D_F32 where "D_F32 \<equiv> TYPE_FLOAT32"
abbreviation D_BF16 where "D_BF16 \<equiv> TYPE_BFLOAT16"
abbreviation D_BOOL8 where "D_BOOL8 \<equiv> TYPE_BOOL8"
abbreviation Q_NONE where "Q_NONE \<equiv> QNT_NONE"
abbreviation Q_DFP where "Q_DFP \<equiv> QNT_DFP"
abbreviation Q_ASYM where "Q_ASYM \<equiv> QNT_ASYM"
abbreviation Q_SYM where "Q_SYM \<equiv> QNT_SYM"
abbreviation Q_SYM_PC where "Q_SYM_PC \<equiv> QNT_PC_SYM"

definition MINIMUM_types :: io_table where
  "MINIMUM_types =
    [[(D_F16, Q_NONE), (D_F16, Q_NONE), (D_F16, Q_NONE)], [(D_F16, Q_NONE), (D_F16, Q_NONE), (D_I16, Q_DFP)],
     [(D_F16, Q_NONE), (D_F16, Q_NONE), (D_I8, Q_DFP)], [(D_F16, Q_NONE), (D_F16, Q_NONE), (D_U8, Q_ASYM)],
     [(D_F16, Q_NONE), (D_I16, Q_DFP), (D_F16, Q_NONE)], [(D_F16, Q_NONE), (D_I16, Q_DFP), (D_I16, Q_DFP)],
     [(D_F16, Q_NONE), (D_I8, Q_DFP), (D_F16, Q_NONE)], [(D_F16, Q_NONE), (D_I8, Q_DFP), (D_I8, Q_DFP)],
     [(D_F16, Q_NONE), (D_U8, Q_ASYM), (D_F16, Q_NONE)], [(D_F16, Q_NONE), (D_U8, Q_ASYM), (D_U8, Q_ASYM)],
     [(D_I16, Q_DFP), (D_F16, Q_NONE), (D_F16, Q_NONE)], [(D_I16, Q_DFP), (D_F16, Q_NONE), (D_I16, Q_DFP)],
     [(D_I8, Q_DFP), (D_F16, Q_NONE), (D_F16, Q_NONE)], [(D_I8, Q_DFP), (D_F16, Q_NONE), (D_I8, Q_DFP)],
     [(D_U8, Q_ASYM), (D_F16, Q_NONE), (D_F16, Q_NONE)], [(D_U8, Q_ASYM), (D_F16, Q_NONE), (D_U8, Q_ASYM)],
     [(D_I16, Q_DFP), (D_I16, Q_DFP), (D_I16, Q_DFP)], [(D_I8, Q_DFP), (D_I8, Q_DFP), (D_I8, Q_DFP)],
     [(D_U8, Q_ASYM), (D_U8, Q_ASYM), (D_U8, Q_ASYM)], [(D_BF16, Q_NONE), (D_BF16, Q_NONE), (D_BF16, Q_NONE)],
     [(D_F32, Q_NONE), (D_F32, Q_NONE), (D_F32, Q_NONE)], [(D_I32, Q_NONE), (D_I32, Q_NONE), (D_I32, Q_NONE)],
     [(D_I16, Q_SYM), (D_I16, Q_SYM), (D_U8, Q_ASYM)], [(D_U8, Q_ASYM), (D_U8, Q_ASYM), (D_I16, Q_SYM)],
     [(D_U8, Q_ASYM), (D_U8, Q_ASYM), (D_F16, Q_NONE)], [(D_I8, Q_ASYM), (D_I8, Q_ASYM), (D_F16, Q_NONE)],
     [(D_I8, Q_SYM), (D_I8, Q_SYM), (D_F16, Q_NONE)], [(D_I8, Q_DFP), (D_I8, Q_DFP), (D_F16, Q_NONE)],
     [(D_I16, Q_ASYM), (D_I16, Q_ASYM), (D_F16, Q_NONE)], [(D_I16, Q_SYM), (D_I16, Q_SYM), (D_F16, Q_NONE)],
     [(D_I16, Q_DFP), (D_I16, Q_DFP), (D_F16, Q_NONE)], [(D_F16, Q_NONE), (D_F16, Q_NONE), (D_I8, Q_ASYM)],
     [(D_F16, Q_NONE), (D_I8, Q_ASYM), (D_F16, Q_NONE)], [(D_F16, Q_NONE), (D_I8, Q_ASYM), (D_I8, Q_ASYM)],
     [(D_I8, Q_ASYM), (D_F16, Q_NONE), (D_F16, Q_NONE)], [(D_I8, Q_ASYM), (D_F16, Q_NONE), (D_I8, Q_ASYM)],
     [(D_I8, Q_ASYM), (D_I8, Q_ASYM), (D_I8, Q_ASYM)], [(D_F16, Q_NONE), (D_F16, Q_NONE), (D_I8, Q_SYM)],
     [(D_F16, Q_NONE), (D_I8, Q_SYM), (D_F16, Q_NONE)], [(D_F16, Q_NONE), (D_I8, Q_SYM), (D_I8, Q_SYM)],
     [(D_I8, Q_SYM), (D_F16, Q_NONE), (D_F16, Q_NONE)], [(D_I8, Q_SYM), (D_F16, Q_NONE), (D_I8, Q_SYM)],
     [(D_I8, Q_SYM), (D_I8, Q_ASYM), (D_I8, Q_SYM)], [(D_F16, Q_NONE), (D_F16, Q_NONE), (D_I16, Q_ASYM)],
     [(D_F16, Q_NONE), (D_I16, Q_ASYM), (D_F16, Q_NONE)], [(D_F16, Q_NONE), (D_I16, Q_ASYM), (D_I16, Q_ASYM)],
     [(D_I16, Q_ASYM), (D_F16, Q_NONE), (D_F16, Q_NONE)], [(D_I16, Q_ASYM), (D_F16, Q_NONE), (D_I16, Q_ASYM)],
     [(D_I16, Q_ASYM), (D_I16, Q_ASYM), (D_I16, Q_ASYM)], [(D_F16, Q_NONE), (D_F16, Q_NONE), (D_I16, Q_SYM)],
     [(D_F16, Q_NONE), (D_I16, Q_SYM), (D_F16, Q_NONE)], [(D_F16, Q_NONE), (D_I16, Q_SYM), (D_I16, Q_SYM)],
     [(D_I16, Q_SYM), (D_F16, Q_NONE), (D_F16, Q_NONE)], [(D_I16, Q_SYM), (D_F16, Q_NONE), (D_I16, Q_SYM)],
     [(D_I16, Q_SYM), (D_I16, Q_ASYM), (D_I16, Q_SYM)]]"

definition POW_types :: io_table where
  "POW_types =
    [[(D_F16, Q_NONE), (D_F16, Q_NONE), (D_F16, Q_NONE)], [(D_F16, Q_NONE), (D_F16, Q_NONE), (D_I16, Q_DFP)],
     [(D_F16, Q_NONE), (D_F16, Q_NONE), (D_I8, Q_DFP)], [(D_F16, Q_NONE), (D_F16, Q_NONE), (D_U8, Q_ASYM)],
     [(D_F16, Q_NONE), (D_I16, Q_DFP), (D_F16, Q_NONE)], [(D_F16, Q_NONE), (D_I16, Q_DFP), (D_I16, Q_DFP)],
     [(D_F16, Q_NONE), (D_I8, Q_DFP), (D_F16, Q_NONE)], [(D_F16, Q_NONE), (D_I8, Q_DFP), (D_I8, Q_DFP)],
     [(D_F16, Q_NONE), (D_U8, Q_ASYM), (D_F16, Q_NONE)], [(D_F16, Q_NONE), (D_U8, Q_ASYM), (D_U8, Q_ASYM)],
     [(D_I16, Q_DFP), (D_F16, Q_NONE), (D_F16, Q_NONE)], [(D_I16, Q_DFP), (D_F16, Q_NONE), (D_I16, Q_DFP)],
     [(D_I8, Q_DFP), (D_F16, Q_NONE), (D_F16, Q_NONE)], [(D_I8, Q_DFP), (D_F16, Q_NONE), (D_I8, Q_DFP)],
     [(D_U8, Q_ASYM), (D_F16, Q_NONE), (D_F16, Q_NONE)], [(D_U8, Q_ASYM), (D_F16, Q_NONE), (D_U8, Q_ASYM)],
     [(D_I16, Q_DFP), (D_I16, Q_DFP), (D_I16, Q_DFP)], [(D_I8, Q_DFP), (D_I8, Q_DFP), (D_I8, Q_DFP)],
     [(D_U8, Q_ASYM), (D_U8, Q_ASYM), (D_U8, Q_ASYM)], [(D_BF16, Q_NONE), (D_BF16, Q_NONE), (D_BF16, Q_NONE)],
     [(D_F32, Q_NONE), (D_F32, Q_NONE), (D_F32, Q_NONE)], [(D_I32, Q_NONE), (D_I32, Q_NONE), (D_I32, Q_NONE)],
     [(D_I16, Q_SYM), (D_I16, Q_SYM), (D_U8, Q_ASYM)], [(D_U8, Q_ASYM), (D_U8, Q_ASYM), (D_I16, Q_SYM)],
     [(D_U8, Q_ASYM), (D_U8, Q_ASYM), (D_F16, Q_NONE)], [(D_I8, Q_ASYM), (D_I8, Q_ASYM), (D_F16, Q_NONE)],
     [(D_I8, Q_SYM), (D_I8, Q_SYM), (D_F16, Q_NONE)], [(D_I8, Q_DFP), (D_I8, Q_DFP), (D_F16, Q_NONE)],
     [(D_I16, Q_ASYM), (D_I16, Q_ASYM), (D_F16, Q_NONE)], [(D_I16, Q_SYM), (D_I16, Q_SYM), (D_F16, Q_NONE)],
     [(D_I16, Q_DFP), (D_I16, Q_DFP), (D_F16, Q_NONE)], [(D_F16, Q_NONE), (D_F16, Q_NONE), (D_I8, Q_ASYM)],
     [(D_F16, Q_NONE), (D_I8, Q_ASYM), (D_F16, Q_NONE)], [(D_F16, Q_NONE), (D_I8, Q_ASYM), (D_I8, Q_ASYM)],
     [(D_I8, Q_ASYM), (D_F16, Q_NONE), (D_F16, Q_NONE)], [(D_I8, Q_ASYM), (D_F16, Q_NONE), (D_I8, Q_ASYM)],
     [(D_I8, Q_ASYM), (D_I8, Q_ASYM), (D_I8, Q_ASYM)], [(D_F16, Q_NONE), (D_F16, Q_NONE), (D_I8, Q_SYM)],
     [(D_F16, Q_NONE), (D_I8, Q_SYM), (D_F16, Q_NONE)], [(D_F16, Q_NONE), (D_I8, Q_SYM), (D_I8, Q_SYM)],
     [(D_I8, Q_SYM), (D_F16, Q_NONE), (D_F16, Q_NONE)], [(D_I8, Q_SYM), (D_F16, Q_NONE), (D_I8, Q_SYM)],
     [(D_I8, Q_SYM), (D_I8, Q_ASYM), (D_I8, Q_SYM)], [(D_F16, Q_NONE), (D_F16, Q_NONE), (D_I16, Q_ASYM)],
     [(D_F16, Q_NONE), (D_I16, Q_ASYM), (D_F16, Q_NONE)], [(D_F16, Q_NONE), (D_I16, Q_ASYM), (D_I16, Q_ASYM)],
     [(D_I16, Q_ASYM), (D_F16, Q_NONE), (D_F16, Q_NONE)], [(D_I16, Q_ASYM), (D_F16, Q_NONE), (D_I16, Q_ASYM)],
     [(D_I16, Q_ASYM), (D_I16, Q_ASYM), (D_I16, Q_ASYM)], [(D_F16, Q_NONE), (D_F16, Q_NONE), (D_I16, Q_SYM)],
     [(D_F16, Q_NONE), (D_I16, Q_SYM), (D_F16, Q_NONE)], [(D_F16, Q_NONE), (D_I16, Q_SYM), (D_I16, Q_SYM)],
     [(D_I16, Q_SYM), (D_F16, Q_NONE), (D_F16, Q_NONE)], [(D_I16, Q_SYM), (D_F16, Q_NONE), (D_I16, Q_SYM)],
     [(D_I16, Q_SYM), (D_I16, Q_ASYM), (D_I16, Q_SYM)]]"

definition ADD_types :: io_table where
  "ADD_types =
    [[(D_BF16, Q_NONE), (D_BF16, Q_NONE)], [(D_F32, Q_NONE), (D_F32, Q_NONE)], [(D_F16, Q_NONE), (D_F16, Q_NONE)],
     [(D_F16, Q_NONE), (D_I16, Q_DFP)], [(D_F16, Q_NONE), (D_I16, Q_ASYM)], [(D_F16, Q_NONE), (D_I16, Q_SYM)],
     [(D_F16, Q_NONE), (D_I8, Q_DFP)], [(D_F16, Q_NONE), (D_I8, Q_ASYM)], [(D_F16, Q_NONE), (D_I8, Q_SYM)],
     [(D_F16, Q_NONE), (D_U8, Q_ASYM)], [(D_I16, Q_DFP), (D_F16, Q_NONE)], [(D_I16, Q_ASYM), (D_F16, Q_NONE)],
     [(D_I16, Q_SYM), (D_F16, Q_NONE)], [(D_I8, Q_DFP), (D_F16, Q_NONE)], [(D_I8, Q_ASYM), (D_F16, Q_NONE)],
     [(D_I8, Q_SYM), (D_F16, Q_NONE)], [(D_U8, Q_ASYM), (D_F16, Q_NONE)], [(D_I8, Q_DFP), (D_I16, Q_DFP)],
     [(D_I8, Q_DFP), (D_I8, Q_DFP)], [(D_I8, Q_ASYM), (D_I8, Q_ASYM)], [(D_I8, Q_SYM), (D_I8, Q_SYM)],
     [(D_I16, Q_DFP), (D_I16, Q_DFP)], [(D_I16, Q_ASYM), (D_I16, Q_ASYM)], [(D_I16, Q_SYM), (D_I16, Q_SYM)],
     [(D_U8, Q_ASYM), (D_U8, Q_ASYM)], [(D_U8, Q_ASYM), (D_I16, Q_DFP)], [(D_I16, Q_DFP), (D_I8, Q_DFP)],
     [(D_I16, Q_DFP), (D_U8, Q_ASYM)], [(D_U8, Q_ASYM), (D_I32, Q_NONE)], [(D_F32, Q_NONE), (D_F16, Q_NONE)],
     [(D_F16, Q_NONE), (D_F32, Q_NONE)], [(D_I32, Q_NONE), (D_I32, Q_NONE)], [(D_I16, Q_NONE), (D_I32, Q_NONE)],
     [(D_I32, Q_NONE), (D_I16, Q_NONE)], [(D_U8, Q_ASYM), (D_I8, Q_DFP)], [(D_I8, Q_DFP), (D_U8, Q_ASYM)],
     [(D_F32, Q_NONE), (D_BF16, Q_NONE)], [(D_U4, Q_ASYM), (D_U4, Q_ASYM)], [(D_U4, Q_SYM), (D_U4, Q_SYM)],
     [(D_I4, Q_ASYM), (D_I4, Q_ASYM)], [(D_I4, Q_SYM), (D_I4, Q_SYM)], [(D_I4, Q_ASYM), (D_U4, Q_ASYM)],
     [(D_U4, Q_ASYM), (D_I4, Q_ASYM)], [(D_U4, Q_ASYM), (D_U8, Q_ASYM)], [(D_U4, Q_ASYM), (D_I8, Q_ASYM)],
     [(D_I4, Q_ASYM), (D_U8, Q_ASYM)], [(D_I4, Q_ASYM), (D_I8, Q_ASYM)], [(D_U8, Q_ASYM), (D_U4, Q_ASYM)],
     [(D_I8, Q_ASYM), (D_U4, Q_ASYM)], [(D_U8, Q_ASYM), (D_I4, Q_ASYM)], [(D_I8, Q_ASYM), (D_I4, Q_ASYM)],
     [(D_U4, Q_ASYM), (D_F32, Q_NONE)], [(D_U4, Q_ASYM), (D_F32, Q_NONE)], [(D_I4, Q_ASYM), (D_F32, Q_NONE)],
     [(D_I4, Q_ASYM), (D_F32, Q_NONE)], [(D_F32, Q_NONE), (D_U4, Q_ASYM)], [(D_F32, Q_NONE), (D_U4, Q_ASYM)],
     [(D_F32, Q_NONE), (D_I4, Q_ASYM)], [(D_F32, Q_NONE), (D_I4, Q_ASYM)]]"

definition DIVIDE_types :: io_table where
  "DIVIDE_types =
    [[(D_BF16, Q_NONE), (D_BF16, Q_NONE), (D_BF16, Q_NONE)], [(D_F16, Q_NONE), (D_F16, Q_NONE), (D_F16, Q_NONE)],
     [(D_F16, Q_NONE), (D_F16, Q_NONE), (D_I16, Q_DFP)], [(D_F16, Q_NONE), (D_F16, Q_NONE), (D_I16, Q_ASYM)],
     [(D_F16, Q_NONE), (D_F16, Q_NONE), (D_I16, Q_SYM)], [(D_F16, Q_NONE), (D_F16, Q_NONE), (D_I8, Q_DFP)],
     [(D_F16, Q_NONE), (D_F16, Q_NONE), (D_I8, Q_ASYM)], [(D_F16, Q_NONE), (D_F16, Q_NONE), (D_I8, Q_SYM)],
     [(D_F16, Q_NONE), (D_F16, Q_NONE), (D_U8, Q_ASYM)], [(D_F16, Q_NONE), (D_I8, Q_DFP), (D_I8, Q_DFP)],
     [(D_F16, Q_NONE), (D_I8, Q_ASYM), (D_F16, Q_NONE)], [(D_F16, Q_NONE), (D_I8, Q_SYM), (D_F16, Q_NONE)],
     [(D_F16, Q_NONE), (D_I8, Q_DFP), (D_F16, Q_NONE)], [(D_F16, Q_NONE), (D_I8, Q_ASYM), (D_F16, Q_NONE)],
     [(D_F16, Q_NONE), (D_I8, Q_SYM), (D_F16, Q_NONE)], [(D_F16, Q_NONE), (D_U8, Q_ASYM), (D_U8, Q_ASYM)],
     [(D_F16, Q_NONE), (D_U8, Q_ASYM), (D_F16, Q_NONE)], [(D_F16, Q_NONE), (D_I16, Q_DFP), (D_I16, Q_DFP)],
     [(D_F16, Q_NONE), (D_I16, Q_ASYM), (D_I16, Q_ASYM)], [(D_F16, Q_NONE), (D_I16, Q_SYM), (D_I16, Q_SYM)],
     [(D_F16, Q_NONE), (D_I16, Q_DFP), (D_F16, Q_NONE)], [(D_F16, Q_NONE), (D_I16, Q_ASYM), (D_F16, Q_NONE)],
     [(D_F16, Q_NONE), (D_I16, Q_SYM), (D_F16, Q_NONE)], [(D_U8, Q_ASYM), (D_U8, Q_ASYM), (D_U8, Q_ASYM)],
     [(D_U8, Q_ASYM), (D_U8, Q_ASYM), (D_F16, Q_NONE)], [(D_U8, Q_ASYM), (D_F16, Q_NONE), (D_U8, Q_ASYM)],
     [(D_U8, Q_ASYM), (D_F16, Q_NONE), (D_F16, Q_NONE)], [(D_U8, Q_ASYM), (D_I16, Q_DFP), (D_U8, Q_ASYM)],
     [(D_U8, Q_ASYM), (D_I16, Q_DFP), (D_I16, Q_DFP)], [(D_I8, Q_DFP), (D_I8, Q_DFP), (D_I8, Q_DFP)],
     [(D_I8, Q_ASYM), (D_I8, Q_ASYM), (D_I8, Q_ASYM)], [(D_I8, Q_SYM), (D_I8, Q_SYM), (D_I8, Q_SYM)],
     [(D_I8, Q_DFP), (D_I8, Q_DFP), (D_F16, Q_NONE)], [(D_I8, Q_ASYM), (D_I8, Q_ASYM), (D_F16, Q_NONE)],
     [(D_I8, Q_SYM), (D_I8, Q_SYM), (D_F16, Q_NONE)], [(D_I8, Q_DFP), (D_F16, Q_NONE), (D_I8, Q_DFP)],
     [(D_I8, Q_DFP), (D_F16, Q_NONE), (D_F16, Q_NONE)], [(D_I16, Q_DFP), (D_I16, Q_DFP), (D_I16, Q_DFP)],
     [(D_I16, Q_DFP), (D_I16, Q_DFP), (D_F16, Q_NONE)], [(D_I16, Q_ASYM), (D_I16, Q_ASYM), (D_I16, Q_ASYM)],
     [(D_I16, Q_SYM), (D_I16, Q_SYM), (D_I16, Q_SYM)], [(D_I16, Q_DFP), (D_F16, Q_NONE), (D_I16, Q_DFP)],
     [(D_I16, Q_ASYM), (D_F16, Q_NONE), (D_I16, Q_ASYM)], [(D_I16, Q_SYM), (D_F16, Q_NONE), (D_I16, Q_SYM)],
     [(D_I16, Q_DFP), (D_F16, Q_NONE), (D_F16, Q_NONE)], [(D_I16, Q_ASYM), (D_F16, Q_NONE), (D_F16, Q_NONE)],
     [(D_I16, Q_SYM), (D_F16, Q_NONE), (D_F16, Q_NONE)], [(D_F32, Q_NONE), (D_F32, Q_NONE), (D_F32, Q_NONE)],
     [(D_F32, Q_NONE), (D_F32, Q_NONE), (D_F16, Q_NONE)], [(D_F32, Q_NONE), (D_F16, Q_NONE), (D_F32, Q_NONE)],
     [(D_F32, Q_NONE), (D_F16, Q_NONE), (D_F16, Q_NONE)], [(D_F16, Q_NONE), (D_F32, Q_NONE), (D_F32, Q_NONE)],
     [(D_F16, Q_NONE), (D_F32, Q_NONE), (D_F16, Q_NONE)], [(D_F16, Q_NONE), (D_F16, Q_NONE), (D_F32, Q_NONE)],
     [(D_I32, Q_NONE), (D_I32, Q_NONE), (D_I32, Q_NONE)], [(D_I16, Q_NONE), (D_I32, Q_NONE), (D_I32, Q_NONE)],
     [(D_I32, Q_NONE), (D_I16, Q_NONE), (D_I32, Q_NONE)]]"

definition SELECT_types :: io_table where
  "SELECT_types =
    [[(D_I8, Q_NONE), (D_I8, Q_DFP), (D_I8, Q_DFP), (D_I8, Q_DFP)],
     [(D_I8, Q_NONE), (D_I8, Q_ASYM), (D_I8, Q_ASYM), (D_I8, Q_ASYM)],
     [(D_I8, Q_NONE), (D_I8, Q_SYM), (D_I8, Q_SYM), (D_I8, Q_SYM)],
     [(D_I8, Q_NONE), (D_U8, Q_ASYM), (D_U8, Q_ASYM), (D_U8, Q_ASYM)],
     [(D_I8, Q_NONE), (D_I16, Q_DFP), (D_I16, Q_DFP), (D_I16, Q_DFP)],
     [(D_I8, Q_NONE), (D_I16, Q_ASYM), (D_I16, Q_ASYM), (D_I16, Q_ASYM)],
     [(D_I8, Q_NONE), (D_I16, Q_SYM), (D_I16, Q_SYM), (D_I16, Q_SYM)],
     [(D_I8, Q_NONE), (D_F16, Q_NONE), (D_U8, Q_ASYM), (D_F16, Q_NONE)],
     [(D_I8, Q_NONE), (D_F16, Q_NONE), (D_I8, Q_DFP), (D_F16, Q_NONE)],
     [(D_I8, Q_NONE), (D_F16, Q_NONE), (D_I8, Q_ASYM), (D_F16, Q_NONE)],
     [(D_I8, Q_NONE), (D_F16, Q_NONE), (D_I8, Q_SYM), (D_F16, Q_NONE)],
     [(D_I8, Q_NONE), (D_F16, Q_NONE), (D_I16, Q_DFP), (D_F16, Q_NONE)],
     [(D_I8, Q_NONE), (D_F16, Q_NONE), (D_I16, Q_ASYM), (D_F16, Q_NONE)],
     [(D_I8, Q_NONE), (D_I16, Q_SYM), (D_F16, Q_NONE), (D_F16, Q_NONE)],
     [(D_I8, Q_NONE), (D_U8, Q_ASYM), (D_F16, Q_NONE), (D_F16, Q_NONE)],
     [(D_I8, Q_NONE), (D_I8, Q_DFP), (D_F16, Q_NONE), (D_F16, Q_NONE)],
     [(D_I8, Q_NONE), (D_I8, Q_ASYM), (D_F16, Q_NONE), (D_F16, Q_NONE)],
     [(D_I8, Q_NONE), (D_I8, Q_SYM), (D_F16, Q_NONE), (D_F16, Q_NONE)],
     [(D_I8, Q_NONE), (D_I16, Q_DFP), (D_F16, Q_NONE), (D_F16, Q_NONE)],
     [(D_I8, Q_NONE), (D_I16, Q_ASYM), (D_F16, Q_NONE), (D_F16, Q_NONE)],
     [(D_I8, Q_NONE), (D_I16, Q_SYM), (D_F16, Q_NONE), (D_F16, Q_NONE)],
     [(D_I8, Q_NONE), (D_F16, Q_NONE), (D_F16, Q_NONE), (D_F16, Q_NONE)],
     [(D_I8, Q_NONE), (D_I32, Q_NONE), (D_I32, Q_NONE), (D_I32, Q_NONE)],
     [(D_I8, Q_NONE), (D_F32, Q_NONE), (D_F32, Q_NONE), (D_F32, Q_NONE)],
     [(D_I8, Q_NONE), (D_F16, Q_NONE), (D_U8, Q_ASYM), (D_U8, Q_ASYM)],
     [(D_I8, Q_NONE), (D_F16, Q_NONE), (D_I8, Q_DFP), (D_I8, Q_DFP)],
     [(D_I8, Q_NONE), (D_F16, Q_NONE), (D_I8, Q_ASYM), (D_I8, Q_ASYM)],
     [(D_I8, Q_NONE), (D_F16, Q_NONE), (D_I8, Q_SYM), (D_I8, Q_SYM)],
     [(D_I8, Q_NONE), (D_F16, Q_NONE), (D_I16, Q_DFP), (D_I16, Q_DFP)],
     [(D_I8, Q_NONE), (D_F16, Q_NONE), (D_I16, Q_ASYM), (D_I16, Q_ASYM)],
     [(D_I8, Q_NONE), (D_F16, Q_NONE), (D_I16, Q_SYM), (D_I16, Q_SYM)],
     [(D_I8, Q_NONE), (D_U8, Q_ASYM), (D_F16, Q_NONE), (D_U8, Q_ASYM)],
     [(D_I8, Q_NONE), (D_I8, Q_DFP), (D_F16, Q_NONE), (D_I8, Q_DFP)],
     [(D_I8, Q_NONE), (D_I8, Q_ASYM), (D_F16, Q_NONE), (D_I8, Q_ASYM)],
     [(D_I8, Q_NONE), (D_I8, Q_SYM), (D_F16, Q_NONE), (D_I8, Q_SYM)],
     [(D_I8, Q_NONE), (D_I16, Q_DFP), (D_F16, Q_NONE), (D_I16, Q_DFP)],
     [(D_I8, Q_NONE), (D_I16, Q_ASYM), (D_F16, Q_NONE), (D_I16, Q_ASYM)],
     [(D_I8, Q_NONE), (D_I16, Q_SYM), (D_F16, Q_NONE), (D_I16, Q_SYM)],
     [(D_I8, Q_NONE), (D_I8, Q_DFP), (D_I8, Q_DFP), (D_F16, Q_NONE)],
     [(D_I8, Q_NONE), (D_I8, Q_ASYM), (D_I8, Q_ASYM), (D_F16, Q_NONE)],
     [(D_I8, Q_NONE), (D_I8, Q_SYM), (D_I8, Q_SYM), (D_F16, Q_NONE)],
     [(D_I8, Q_NONE), (D_U8, Q_ASYM), (D_U8, Q_ASYM), (D_F16, Q_NONE)],
     [(D_I8, Q_NONE), (D_I16, Q_DFP), (D_I16, Q_DFP), (D_F16, Q_NONE)],
     [(D_I8, Q_NONE), (D_I16, Q_ASYM), (D_I16, Q_ASYM), (D_F16, Q_NONE)],
     [(D_I8, Q_NONE), (D_I16, Q_SYM), (D_I16, Q_SYM), (D_F16, Q_NONE)],
     [(D_I8, Q_NONE), (D_BF16, Q_NONE), (D_BF16, Q_NONE), (D_BF16, Q_NONE)],
     [(D_BOOL8, Q_NONE), (D_I8, Q_DFP), (D_I8, Q_DFP), (D_I8, Q_DFP)],
     [(D_BOOL8, Q_NONE), (D_I8, Q_ASYM), (D_I8, Q_ASYM), (D_I8, Q_ASYM)],
     [(D_BOOL8, Q_NONE), (D_I8, Q_SYM), (D_I8, Q_SYM), (D_I8, Q_SYM)],
     [(D_BOOL8, Q_NONE), (D_U8, Q_ASYM), (D_U8, Q_ASYM), (D_U8, Q_ASYM)],
     [(D_BOOL8, Q_NONE), (D_I16, Q_DFP), (D_I16, Q_DFP), (D_I16, Q_DFP)],
     [(D_BOOL8, Q_NONE), (D_I16, Q_ASYM), (D_I16, Q_ASYM), (D_I16, Q_ASYM)],
     [(D_BOOL8, Q_NONE), (D_I16, Q_SYM), (D_I16, Q_SYM), (D_I16, Q_SYM)],
     [(D_BOOL8, Q_NONE), (D_F16, Q_NONE), (D_U8, Q_ASYM), (D_F16, Q_NONE)],
     [(D_BOOL8, Q_NONE), (D_F16, Q_NONE), (D_I8, Q_DFP), (D_F16, Q_NONE)],
     [(D_BOOL8, Q_NONE), (D_F16, Q_NONE), (D_I8, Q_ASYM), (D_F16, Q_NONE)],
     [(D_BOOL8, Q_NONE), (D_F16, Q_NONE), (D_I8, Q_SYM), (D_F16, Q_NONE)],
     [(D_BOOL8, Q_NONE), (D_F16, Q_NONE), (D_I16, Q_DFP), (D_F16, Q_NONE)],
     [(D_BOOL8, Q_NONE), (D_F16, Q_NONE), (D_I16, Q_ASYM), (D_F16, Q_NONE)],
     [(D_BOOL8, Q_NONE), (D_F16, Q_NONE), (D_I16, Q_SYM), (D_F16, Q_NONE)],
     [(D_BOOL8, Q_NONE), (D_U8, Q_ASYM), (D_F16, Q_NONE), (D_F16, Q_NONE)],
     [(D_BOOL8, Q_NONE), (D_I8, Q_DFP), (D_F16, Q_NONE), (D_F16, Q_NONE)],
     [(D_BOOL8, Q_NONE), (D_I8, Q_ASYM), (D_F16, Q_NONE), (D_F16, Q_NONE)],
     [(D_BOOL8, Q_NONE), (D_I8, Q_SYM), (D_F16, Q_NONE), (D_F16, Q_NONE)],
     [(D_BOOL8, Q_NONE), (D_I16, Q_DFP), (D_F16, Q_NONE), (D_F16, Q_NONE)],
     [(D_BOOL8, Q_NONE), (D_I16, Q_ASYM), (D_F16, Q_NONE), (D_F16, Q_NONE)],
     [(D_BOOL8, Q_NONE), (D_I16, Q_SYM), (D_F16, Q_NONE), (D_F16, Q_NONE)],
     [(D_BOOL8, Q_NONE), (D_F16, Q_NONE), (D_F16, Q_NONE), (D_F16, Q_NONE)],
     [(D_BOOL8, Q_NONE), (D_F16, Q_NONE), (D_F16, Q_NONE), (D_U8, Q_ASYM)],
     [(D_BOOL8, Q_NONE), (D_I32, Q_NONE), (D_I32, Q_NONE), (D_I32, Q_NONE)],
     [(D_BOOL8, Q_NONE), (D_F32, Q_NONE), (D_F32, Q_NONE), (D_F32, Q_NONE)],
     [(D_U8, Q_ASYM), (D_U8, Q_ASYM), (D_U8, Q_ASYM), (D_U8, Q_ASYM)],
     [(D_I16, Q_DFP), (D_I16, Q_DFP), (D_I16, Q_DFP), (D_I16, Q_DFP)],
     [(D_I8, Q_DFP), (D_I8, Q_DFP), (D_I8, Q_DFP), (D_I8, Q_DFP)],
     [(D_BOOL8, Q_NONE), (D_F16, Q_NONE), (D_U8, Q_ASYM), (D_U8, Q_ASYM)],
     [(D_BOOL8, Q_NONE), (D_F16, Q_NONE), (D_I8, Q_DFP), (D_I8, Q_DFP)],
     [(D_BOOL8, Q_NONE), (D_F16, Q_NONE), (D_I8, Q_ASYM), (D_I8, Q_ASYM)],
     [(D_BOOL8, Q_NONE), (D_F16, Q_NONE), (D_I8, Q_SYM), (D_I8, Q_SYM)],
     [(D_BOOL8, Q_NONE), (D_F16, Q_NONE), (D_I16, Q_DFP), (D_I16, Q_DFP)],
     [(D_BOOL8, Q_NONE), (D_F16, Q_NONE), (D_I16, Q_ASYM), (D_I16, Q_ASYM)],
     [(D_BOOL8, Q_NONE), (D_F16, Q_NONE), (D_I16, Q_SYM), (D_I16, Q_SYM)],
     [(D_BOOL8, Q_NONE), (D_U8, Q_ASYM), (D_F16, Q_NONE), (D_U8, Q_ASYM)],
     [(D_BOOL8, Q_NONE), (D_I8, Q_DFP), (D_F16, Q_NONE), (D_I8, Q_DFP)],
     [(D_BOOL8, Q_NONE), (D_I8, Q_ASYM), (D_F16, Q_NONE), (D_I8, Q_ASYM)],
     [(D_BOOL8, Q_NONE), (D_I8, Q_SYM), (D_F16, Q_NONE), (D_I8, Q_SYM)],
     [(D_BOOL8, Q_NONE), (D_I16, Q_DFP), (D_F16, Q_NONE), (D_I16, Q_DFP)],
     [(D_BOOL8, Q_NONE), (D_I16, Q_ASYM), (D_F16, Q_NONE), (D_I16, Q_ASYM)],
     [(D_BOOL8, Q_NONE), (D_I16, Q_SYM), (D_F16, Q_NONE), (D_I16, Q_SYM)],
     [(D_BOOL8, Q_NONE), (D_I8, Q_DFP), (D_I8, Q_DFP), (D_F16, Q_NONE)],
     [(D_BOOL8, Q_NONE), (D_I8, Q_ASYM), (D_I8, Q_ASYM), (D_F16, Q_NONE)],
     [(D_BOOL8, Q_NONE), (D_I8, Q_SYM), (D_I8, Q_SYM), (D_F16, Q_NONE)],
     [(D_BOOL8, Q_NONE), (D_U8, Q_ASYM), (D_U8, Q_ASYM), (D_F16, Q_NONE)],
     [(D_BOOL8, Q_NONE), (D_I16, Q_DFP), (D_I16, Q_DFP), (D_F16, Q_NONE)],
     [(D_BOOL8, Q_NONE), (D_I16, Q_ASYM), (D_I16, Q_ASYM), (D_F16, Q_NONE)],
     [(D_BOOL8, Q_NONE), (D_I16, Q_SYM), (D_I16, Q_SYM), (D_F16, Q_NONE)],
     [(D_BOOL8, Q_NONE), (D_BF16, Q_NONE), (D_BF16, Q_NONE), (D_BF16, Q_NONE)]]"

definition MATRIXMUL_types :: io_table where
  "MATRIXMUL_types =
    [[(D_U8, Q_ASYM), (D_U8, Q_ASYM), (D_U8, Q_ASYM)], [(D_U8, Q_ASYM), (D_U8, Q_ASYM), (D_F16, Q_NONE)],
     [(D_U8, Q_ASYM), (D_F16, Q_NONE), (D_U8, Q_ASYM)], [(D_U8, Q_ASYM), (D_F16, Q_NONE), (D_F16, Q_NONE)],
     [(D_U8, Q_ASYM), (D_I16, Q_DFP), (D_I16, Q_DFP)], [(D_I8, Q_DFP), (D_I8, Q_DFP), (D_I8, Q_DFP)],
     [(D_I8, Q_DFP), (D_I8, Q_DFP), (D_F16, Q_NONE)], [(D_I8, Q_DFP), (D_F16, Q_NONE), (D_I8, Q_DFP)],
     [(D_I8, Q_DFP), (D_F16, Q_NONE), (D_F16, Q_NONE)], [(D_I16, Q_DFP), (D_I16, Q_DFP), (D_I16, Q_DFP)],
     [(D_I16, Q_DFP), (D_I16, Q_DFP), (D_F16, Q_NONE)], [(D_I16, Q_DFP), (D_F16, Q_NONE), (D_I16, Q_DFP)],
     [(D_I16, Q_DFP), (D_F16, Q_NONE), (D_F16, Q_NONE)], [(D_F16, Q_NONE), (D_U8, Q_ASYM), (D_F16, Q_NONE)],
     [(D_F16, Q_NONE), (D_I16, Q_DFP), (D_F16, Q_NONE)], [(D_F16, Q_NONE), (D_I16, Q_DFP), (D_I16, Q_DFP)],
     [(D_F16, Q_NONE), (D_I8, Q_DFP), (D_F16, Q_NONE)], [(D_F16, Q_NONE), (D_U8, Q_ASYM), (D_U8, Q_ASYM)],
     [(D_F16, Q_NONE), (D_I8, Q_DFP), (D_I8, Q_DFP)], [(D_F16, Q_NONE), (D_U8, Q_NONE), (D_U8, Q_NONE)],
     [(D_F16, Q_NONE), (D_I8, Q_NONE), (D_I8, Q_NONE)], [(D_F16, Q_NONE), (D_F16, Q_NONE), (D_F16, Q_NONE)],
     [(D_F32, Q_NONE), (D_F32, Q_NONE), (D_F32, Q_NONE)], [(D_F32, Q_NONE), (D_I8, Q_DFP), (D_F32, Q_NONE)],
     [(D_F32, Q_NONE), (D_I16, Q_DFP), (D_F32, Q_NONE)], [(D_F32, Q_NONE), (D_I32, Q_NONE), (D_F32, Q_NONE)],
     [(D_F16, Q_NONE), (D_F16, Q_NONE), (D_I16, Q_DFP)], [(D_F16, Q_NONE), (D_F16, Q_NONE), (D_I8, Q_DFP)],
     [(D_F16, Q_NONE), (D_F16, Q_NONE), (D_U8, Q_ASYM)], [(D_BF16, Q_NONE), (D_BF16, Q_NONE), (D_BF16, Q_NONE)],
     [(D_I32, Q_NONE), (D_I32, Q_NONE), (D_I32, Q_NONE)]]"

definition DATACONVERT_types :: io_table where
  "DATACONVERT_types =
    [[(D_F16, Q_NONE), (D_F16, Q_NONE)], [(D_F16, Q_NONE), (D_F32, Q_NONE)], [(D_F16, Q_NONE), (D_I32, Q_NONE)],
     [(D_F16, Q_NONE), (D_U32, Q_NONE)], [(D_F16, Q_NONE), (D_BF16, Q_NONE)], [(D_F16, Q_NONE), (D_I16, Q_DFP)],
     [(D_F16, Q_NONE), (D_I16, Q_ASYM)], [(D_F16, Q_NONE), (D_I16, Q_SYM)], [(D_F16, Q_NONE), (D_I8, Q_DFP)],
     [(D_F16, Q_NONE), (D_I8, Q_ASYM)], [(D_F16, Q_NONE), (D_I8, Q_SYM)], [(D_F16, Q_NONE), (D_U8, Q_ASYM)],
     [(D_F32, Q_NONE), (D_F32, Q_NONE)], [(D_F32, Q_NONE), (D_I32, Q_DFP)], [(D_F32, Q_NONE), (D_I32, Q_ASYM)],
     [(D_F32, Q_NONE), (D_U32, Q_NONE)], [(D_F32, Q_NONE), (D_F16, Q_NONE)], [(D_F32, Q_NONE), (D_BF16, Q_NONE)],
     [(D_F32, Q_NONE), (D_I16, Q_DFP)], [(D_F32, Q_NONE), (D_I8, Q_DFP)], [(D_F32, Q_NONE), (D_U8, Q_ASYM)],
     [(D_I16, Q_DFP), (D_F32, Q_NONE)], [(D_I16, Q_DFP), (D_I32, Q_NONE)], [(D_I16, Q_DFP), (D_U32, Q_NONE)],
     [(D_I16, Q_DFP), (D_I16, Q_DFP)], [(D_I16, Q_ASYM), (D_I16, Q_ASYM)], [(D_I16, Q_SYM), (D_I16, Q_SYM)],
     [(D_I16, Q_DFP), (D_I8, Q_DFP)], [(D_I16, Q_DFP), (D_I8, Q_DFP)], [(D_I16, Q_DFP), (D_U8, Q_ASYM)],
     [(D_I16, Q_DFP), (D_F16, Q_NONE)], [(D_I16, Q_ASYM), (D_F16, Q_NONE)], [(D_I16, Q_SYM), (D_F16, Q_NONE)],
     [(D_I8, Q_DFP), (D_F32, Q_NONE)], [(D_I8, Q_SYM), (D_F16, Q_NONE)], [(D_I8, Q_ASYM), (D_F16, Q_NONE)],
     [(D_I8, Q_DFP), (D_F16, Q_NONE)], [(D_I8, Q_DFP), (D_I32, Q_DFP)], [(D_I8, Q_DFP), (D_U32, Q_NONE)],
     [(D_I8, Q_DFP), (D_I8, Q_DFP)], [(D_I8, Q_DFP), (D_I8, Q_ASYM)], [(D_I8, Q_DFP), (D_I16, Q_DFP)],
     [(D_I8, Q_DFP), (D_U8, Q_ASYM)], [(D_I8, Q_ASYM), (D_I8, Q_ASYM)], [(D_I8, Q_ASYM), (D_I8, Q_DFP)],
     [(D_I8, Q_SYM), (D_I8, Q_SYM)], [(D_I8, Q_ASYM), (D_U8, Q_ASYM)], [(D_U8, Q_ASYM), (D_U8, Q_ASYM)],
     [(D_U8, Q_ASYM), (D_I8, Q_ASYM)], [(D_U8, Q_ASYM), (D_I8, Q_DFP)], [(D_U8, Q_ASYM), (D_I16, Q_DFP)],
     [(D_U8, Q_ASYM), (D_F16, Q_NONE)], [(D_U8, Q_ASYM), (D_I32, Q_ASYM)], [(D_U8, Q_ASYM), (D_U32, Q_NONE)],
     [(D_U8, Q_ASYM), (D_F32, Q_NONE)], [(D_BOOL8, Q_NONE), (D_BOOL8, Q_NONE)], [(D_BOOL8, Q_NONE), (D_U8, Q_ASYM)],
     [(D_BOOL8, Q_NONE), (D_I8, Q_ASYM)], [(D_BOOL8, Q_NONE), (D_I8, Q_DFP)], [(D_BOOL8, Q_NONE), (D_I8, Q_SYM)],
     [(D_BOOL8, Q_NONE), (D_I16, Q_DFP)], [(D_BOOL8, Q_NONE), (D_I16, Q_ASYM)], [(D_BOOL8, Q_NONE), (D_I16, Q_SYM)],
     [(D_BOOL8, Q_NONE), (D_F16, Q_NONE)], [(D_BOOL8, Q_NONE), (D_I32, Q_NONE)],
     [(D_BOOL8, Q_NONE), (D_U16, Q_NONE)], [(D_BOOL8, Q_NONE), (D_U32, Q_NONE)],
     [(D_BOOL8, Q_NONE), (D_BF16, Q_NONE)], [(D_U8, Q_ASYM), (D_BOOL8, Q_NONE)], [(D_I8, Q_ASYM), (D_BOOL8, Q_NONE)],
     [(D_I8, Q_DFP), (D_BOOL8, Q_NONE)], [(D_I8, Q_SYM), (D_BOOL8, Q_NONE)], [(D_I16, Q_DFP), (D_BOOL8, Q_NONE)],
     [(D_I16, Q_ASYM), (D_BOOL8, Q_NONE)], [(D_I16, Q_SYM), (D_BOOL8, Q_NONE)], [(D_F16, Q_NONE), (D_BOOL8, Q_NONE)],
     [(D_I32, Q_NONE), (D_BOOL8, Q_NONE)], [(D_U16, Q_NONE), (D_BOOL8, Q_NONE)],
     [(D_U32, Q_NONE), (D_BOOL8, Q_NONE)], [(D_BF16, Q_NONE), (D_BF16, Q_NONE)], [(D_BF16, Q_NONE), (D_F16, Q_NONE)],
     [(D_BF16, Q_NONE), (D_F32, Q_NONE)], [(D_I32, Q_ASYM), (D_I32, Q_ASYM)], [(D_I32, Q_ASYM), (D_F32, Q_NONE)],
     [(D_I32, Q_ASYM), (D_F16, Q_NONE)], [(D_I32, Q_ASYM), (D_I16, Q_DFP)], [(D_I32, Q_ASYM), (D_I8, Q_DFP)],
     [(D_I32, Q_ASYM), (D_U32, Q_ASYM)], [(D_I32, Q_ASYM), (D_U16, Q_ASYM)], [(D_I32, Q_ASYM), (D_U8, Q_ASYM)],
     [(D_U32, Q_NONE), (D_U32, Q_NONE)], [(D_U32, Q_NONE), (D_I16, Q_DFP)], [(D_U32, Q_NONE), (D_I8, Q_DFP)],
     [(D_U32, Q_NONE), (D_I32, Q_NONE)], [(D_U32, Q_NONE), (D_U8, Q_ASYM)], [(D_U32, Q_NONE), (D_U8, Q_NONE)],
     [(D_BF16, Q_NONE), (D_I32, Q_NONE)], [(D_I32, Q_ASYM), (D_BF16, Q_NONE)], [(D_U4, Q_ASYM), (D_U8, Q_ASYM)],
     [(D_U4, Q_SYM), (D_U8, Q_ASYM)], [(D_U8, Q_ASYM), (D_U4, Q_ASYM)], [(D_U8, Q_ASYM), (D_U4, Q_SYM)],
     [(D_I4, Q_ASYM), (D_U8, Q_ASYM)], [(D_I4, Q_SYM), (D_U8, Q_ASYM)], [(D_U8, Q_ASYM), (D_I4, Q_ASYM)],
     [(D_U8, Q_ASYM), (D_I4, Q_SYM)], [(D_U8, Q_ASYM), (D_U16, Q_ASYM)], [(D_U16, Q_ASYM), (D_U8, Q_ASYM)],
     [(D_I8, Q_DFP), (D_BF16, Q_NONE)], [(D_I8, Q_DFP), (D_F32, Q_NONE)], [(D_U8, Q_ASYM), (D_BF16, Q_NONE)],
     [(D_U8, Q_ASYM), (D_F32, Q_NONE)], [(D_I16, Q_DFP), (D_I8, Q_DFP)], [(D_I16, Q_DFP), (D_U8, Q_ASYM)],
     [(D_I16, Q_DFP), (D_BF16, Q_NONE)], [(D_I16, Q_DFP), (D_F32, Q_NONE)], [(D_U4, Q_ASYM), (D_I8, Q_ASYM)],
     [(D_U4, Q_ASYM), (D_I8, Q_SYM)], [(D_U4, Q_SYM), (D_I8, Q_ASYM)], [(D_U4, Q_SYM), (D_I8, Q_SYM)],
     [(D_I8, Q_ASYM), (D_U4, Q_ASYM)], [(D_I8, Q_SYM), (D_U4, Q_ASYM)], [(D_I8, Q_ASYM), (D_U4, Q_SYM)],
     [(D_I8, Q_SYM), (D_U4, Q_SYM)], [(D_I4, Q_ASYM), (D_I8, Q_ASYM)], [(D_I4, Q_ASYM), (D_I8, Q_SYM)],
     [(D_I4, Q_SYM), (D_I8, Q_ASYM)], [(D_I4, Q_SYM), (D_I8, Q_SYM)], [(D_I8, Q_ASYM), (D_I4, Q_ASYM)],
     [(D_I8, Q_SYM), (D_I4, Q_ASYM)], [(D_I8, Q_ASYM), (D_I4, Q_SYM)], [(D_I8, Q_SYM), (D_I4, Q_SYM)]]"

definition PERMUTE_types :: io_table where
  "PERMUTE_types =
    [[(D_F16, Q_NONE), (D_F16, Q_NONE)], [(D_F16, Q_NONE), (D_F32, Q_NONE)], [(D_I16, Q_NONE), (D_I16, Q_NONE)],
     [(D_I16, Q_DFP), (D_I16, Q_DFP)], [(D_I16, Q_ASYM), (D_I16, Q_ASYM)], [(D_I16, Q_SYM), (D_I16, Q_SYM)],
     [(D_I8, Q_DFP), (D_I8, Q_DFP)], [(D_I8, Q_ASYM), (D_I8, Q_ASYM)], [(D_I8, Q_SYM), (D_I8, Q_SYM)],
     [(D_U8, Q_ASYM), (D_U8, Q_ASYM)], [(D_U8, Q_ASYM), (D_F16, Q_NONE)], [(D_U8, Q_ASYM), (D_F32, Q_NONE)],
     [(D_I8, Q_SYM_PC), (D_I8, Q_SYM_PC)], [(D_BOOL8, Q_NONE), (D_BOOL8, Q_NONE)],
     [(D_BOOL8, Q_NONE), (D_I8, Q_DFP)], [(D_F32, Q_NONE), (D_F32, Q_NONE)], [(D_F32, Q_NONE), (D_BF16, Q_NONE)],
     [(D_F32, Q_NONE), (D_F16, Q_NONE)], [(D_BF16, Q_NONE), (D_F32, Q_NONE)], [(D_BF16, Q_NONE), (D_BF16, Q_NONE)],
     [(D_I32, Q_NONE), (D_I32, Q_NONE)]]"

definition TILE_types :: io_table where
  "TILE_types =
    [[(D_I8, Q_DFP), (D_I8, Q_DFP)], [(D_I8, Q_ASYM), (D_I8, Q_ASYM)], [(D_I8, Q_SYM), (D_I8, Q_SYM)],
     [(D_U8, Q_ASYM), (D_U8, Q_ASYM)], [(D_I16, Q_DFP), (D_I16, Q_DFP)], [(D_I16, Q_ASYM), (D_I16, Q_ASYM)],
     [(D_I16, Q_SYM), (D_I16, Q_SYM)], [(D_U8, Q_ASYM), (D_F16, Q_NONE)], [(D_F16, Q_NONE), (D_F16, Q_NONE)],
     [(D_BF16, Q_NONE), (D_BF16, Q_NONE)], [(D_I32, Q_NONE), (D_I32, Q_NONE)], [(D_U32, Q_NONE), (D_U32, Q_NONE)],
     [(D_F32, Q_NONE), (D_F32, Q_NONE)], [(D_F32, Q_NONE), (D_U8, Q_ASYM)], [(D_F16, Q_NONE), (D_U8, Q_ASYM)],
     [(D_BOOL8, Q_NONE), (D_BOOL8, Q_NONE)]]"

definition PAD_types :: io_table where
  "PAD_types =
    [[(D_F32, Q_NONE), (D_F32, Q_NONE)], [(D_F32, Q_NONE), (D_BF16, Q_NONE)], [(D_BF16, Q_NONE), (D_F32, Q_NONE)],
     [(D_BF16, Q_NONE), (D_BF16, Q_NONE)], [(D_F16, Q_NONE), (D_F16, Q_NONE)], [(D_U8, Q_ASYM), (D_U8, Q_ASYM)],
     [(D_I16, Q_DFP), (D_I16, Q_DFP)], [(D_I16, Q_ASYM), (D_I16, Q_ASYM)], [(D_I16, Q_SYM), (D_I16, Q_SYM)],
     [(D_I8, Q_DFP), (D_I8, Q_DFP)], [(D_I8, Q_ASYM), (D_I8, Q_ASYM)], [(D_I8, Q_SYM), (D_I8, Q_SYM)],
     [(D_I32, Q_NONE), (D_I32, Q_NONE)], [(D_U4, Q_ASYM), (D_U4, Q_ASYM)], [(D_U4, Q_SYM), (D_U4, Q_SYM)],
     [(D_I4, Q_ASYM), (D_I4, Q_ASYM)], [(D_I4, Q_SYM), (D_I4, Q_SYM)]]"

definition PAD2_types :: io_table where
  "PAD2_types =
    [[(D_F32, Q_NONE), (D_F32, Q_NONE)], [(D_F32, Q_NONE), (D_BF16, Q_NONE)], [(D_BF16, Q_NONE), (D_F32, Q_NONE)],
     [(D_BF16, Q_NONE), (D_BF16, Q_NONE)], [(D_F16, Q_NONE), (D_F16, Q_NONE)], [(D_U8, Q_ASYM), (D_U8, Q_ASYM)],
     [(D_I16, Q_DFP), (D_I16, Q_DFP)], [(D_I16, Q_ASYM), (D_I16, Q_ASYM)], [(D_I16, Q_SYM), (D_I16, Q_SYM)],
     [(D_I8, Q_DFP), (D_I8, Q_DFP)], [(D_I8, Q_ASYM), (D_I8, Q_ASYM)], [(D_I8, Q_SYM), (D_I8, Q_SYM)],
     [(D_I32, Q_NONE), (D_I32, Q_NONE)], [(D_U4, Q_ASYM), (D_U4, Q_ASYM)], [(D_U4, Q_SYM), (D_U4, Q_SYM)],
     [(D_I4, Q_ASYM), (D_I4, Q_ASYM)], [(D_I4, Q_SYM), (D_I4, Q_SYM)]]"

definition GATHER_types :: io_table where
  "GATHER_types =
    [[(D_I32, Q_NONE), (D_I32, Q_NONE), (D_I32, Q_NONE)], [(D_F32, Q_NONE), (D_I32, Q_NONE), (D_F32, Q_NONE)],
     [(D_F16, Q_NONE), (D_I32, Q_NONE), (D_U8, Q_ASYM)], [(D_F16, Q_NONE), (D_I32, Q_NONE), (D_I16, Q_DFP)],
     [(D_F16, Q_NONE), (D_I32, Q_NONE), (D_I16, Q_ASYM)], [(D_F16, Q_NONE), (D_I32, Q_NONE), (D_I16, Q_SYM)],
     [(D_F16, Q_NONE), (D_I32, Q_NONE), (D_I8, Q_DFP)], [(D_F16, Q_NONE), (D_I32, Q_NONE), (D_I8, Q_ASYM)],
     [(D_F16, Q_NONE), (D_I32, Q_NONE), (D_I8, Q_SYM)], [(D_F16, Q_NONE), (D_I32, Q_NONE), (D_F16, Q_NONE)],
     [(D_BF16, Q_NONE), (D_I32, Q_NONE), (D_BF16, Q_NONE)], [(D_U8, Q_ASYM), (D_I32, Q_NONE), (D_U8, Q_ASYM)],
     [(D_U8, Q_ASYM), (D_I32, Q_NONE), (D_F16, Q_NONE)], [(D_I8, Q_DFP), (D_I32, Q_NONE), (D_I8, Q_DFP)],
     [(D_I8, Q_DFP), (D_I32, Q_NONE), (D_F16, Q_NONE)], [(D_I8, Q_ASYM), (D_I32, Q_NONE), (D_I8, Q_ASYM)],
     [(D_I8, Q_ASYM), (D_I32, Q_NONE), (D_F16, Q_NONE)], [(D_I8, Q_SYM), (D_I32, Q_NONE), (D_I8, Q_SYM)],
     [(D_I8, Q_SYM), (D_I32, Q_NONE), (D_F16, Q_NONE)], [(D_I16, Q_DFP), (D_I32, Q_NONE), (D_I16, Q_DFP)],
     [(D_I16, Q_DFP), (D_I32, Q_NONE), (D_F16, Q_NONE)], [(D_I16, Q_ASYM), (D_I32, Q_NONE), (D_I16, Q_ASYM)],
     [(D_I16, Q_ASYM), (D_I32, Q_NONE), (D_F16, Q_NONE)], [(D_I16, Q_SYM), (D_I32, Q_NONE), (D_I16, Q_SYM)],
     [(D_I16, Q_SYM), (D_I32, Q_NONE), (D_F16, Q_NONE)]]"

definition GATHER_ND_types :: io_table where
  "GATHER_ND_types =
    [[(D_I32, Q_NONE), (D_I32, Q_NONE), (D_I32, Q_NONE)], [(D_F32, Q_NONE), (D_I32, Q_NONE), (D_F32, Q_NONE)],
     [(D_F16, Q_NONE), (D_I32, Q_NONE), (D_U8, Q_ASYM)], [(D_F16, Q_NONE), (D_I32, Q_NONE), (D_I16, Q_DFP)],
     [(D_F16, Q_NONE), (D_I32, Q_NONE), (D_I16, Q_ASYM)], [(D_F16, Q_NONE), (D_I32, Q_NONE), (D_I16, Q_SYM)],
     [(D_F16, Q_NONE), (D_I32, Q_NONE), (D_I8, Q_DFP)], [(D_F16, Q_NONE), (D_I32, Q_NONE), (D_I8, Q_ASYM)],
     [(D_F16, Q_NONE), (D_I32, Q_NONE), (D_I8, Q_SYM)], [(D_F16, Q_NONE), (D_I32, Q_NONE), (D_F16, Q_NONE)],
     [(D_BF16, Q_NONE), (D_I32, Q_NONE), (D_BF16, Q_NONE)], [(D_U8, Q_ASYM), (D_I32, Q_NONE), (D_U8, Q_ASYM)],
     [(D_U8, Q_ASYM), (D_I32, Q_NONE), (D_F16, Q_NONE)], [(D_I8, Q_DFP), (D_I32, Q_NONE), (D_I8, Q_DFP)],
     [(D_I8, Q_DFP), (D_I32, Q_NONE), (D_F16, Q_NONE)], [(D_I8, Q_ASYM), (D_I32, Q_NONE), (D_I8, Q_ASYM)],
     [(D_I8, Q_ASYM), (D_I32, Q_NONE), (D_F16, Q_NONE)], [(D_I8, Q_SYM), (D_I32, Q_NONE), (D_I8, Q_SYM)],
     [(D_I8, Q_SYM), (D_I32, Q_NONE), (D_F16, Q_NONE)], [(D_I16, Q_DFP), (D_I32, Q_NONE), (D_I16, Q_DFP)],
     [(D_I16, Q_DFP), (D_I32, Q_NONE), (D_F16, Q_NONE)], [(D_I16, Q_ASYM), (D_I32, Q_NONE), (D_I16, Q_ASYM)],
     [(D_I16, Q_ASYM), (D_I32, Q_NONE), (D_F16, Q_NONE)], [(D_I16, Q_SYM), (D_I32, Q_NONE), (D_I16, Q_SYM)],
     [(D_I16, Q_SYM), (D_I32, Q_NONE), (D_F16, Q_NONE)]]"

definition GATHER_ELEMENTS_types :: io_table where
  "GATHER_ELEMENTS_types =
    [[(D_I32, Q_NONE), (D_I32, Q_NONE), (D_I32, Q_NONE)], [(D_F32, Q_NONE), (D_I32, Q_NONE), (D_F32, Q_NONE)],
     [(D_F16, Q_NONE), (D_I32, Q_NONE), (D_F16, Q_NONE)], [(D_BF16, Q_NONE), (D_I32, Q_NONE), (D_BF16, Q_NONE)],
     [(D_U8, Q_ASYM), (D_I32, Q_NONE), (D_U8, Q_ASYM)], [(D_I8, Q_DFP), (D_I32, Q_NONE), (D_I8, Q_DFP)],
     [(D_I8, Q_ASYM), (D_I32, Q_NONE), (D_I8, Q_ASYM)], [(D_I8, Q_SYM), (D_I32, Q_NONE), (D_I8, Q_SYM)],
     [(D_I16, Q_DFP), (D_I32, Q_NONE), (D_I16, Q_DFP)], [(D_I16, Q_ASYM), (D_I32, Q_NONE), (D_I16, Q_ASYM)],
     [(D_I16, Q_SYM), (D_I32, Q_NONE), (D_I16, Q_SYM)]]"

definition SCATTER_ND_types :: io_table where
  "SCATTER_ND_types =
    [[(D_I32, Q_NONE), (D_I8, Q_DFP), (D_I8, Q_DFP)], [(D_I32, Q_NONE), (D_I8, Q_ASYM), (D_I8, Q_ASYM)],
     [(D_I32, Q_NONE), (D_I8, Q_SYM), (D_I8, Q_SYM)], [(D_I32, Q_NONE), (D_U8, Q_ASYM), (D_U8, Q_ASYM)],
     [(D_I32, Q_NONE), (D_I16, Q_DFP), (D_I16, Q_DFP)], [(D_I32, Q_NONE), (D_I16, Q_ASYM), (D_I16, Q_ASYM)],
     [(D_I32, Q_NONE), (D_I16, Q_SYM), (D_I16, Q_SYM)], [(D_I32, Q_NONE), (D_F16, Q_NONE), (D_F16, Q_NONE)],
     [(D_I32, Q_NONE), (D_I32, Q_NONE), (D_I32, Q_NONE)], [(D_I32, Q_NONE), (D_U32, Q_NONE), (D_U32, Q_NONE)],
     [(D_I32, Q_NONE), (D_F32, Q_NONE), (D_F32, Q_NONE)], [(D_I32, Q_NONE), (D_BF16, Q_NONE), (D_BF16, Q_NONE)]]"

definition EMBEDDING_LOOKUP_types :: io_table where
  "EMBEDDING_LOOKUP_types =
    [[(D_I32, Q_NONE), (D_F16, Q_NONE), (D_F16, Q_NONE)], [(D_I32, Q_NONE), (D_F32, Q_NONE), (D_F32, Q_NONE)],
     [(D_I32, Q_NONE), (D_I32, Q_NONE), (D_I32, Q_NONE)], [(D_I32, Q_NONE), (D_U8, Q_ASYM), (D_F32, Q_NONE)],
     [(D_I32, Q_NONE), (D_U8, Q_ASYM), (D_U8, Q_ASYM)], [(D_I32, Q_NONE), (D_U8, Q_ASYM), (D_I8, Q_DFP)],
     [(D_I32, Q_NONE), (D_U8, Q_ASYM), (D_I8, Q_NONE)], [(D_F16, Q_NONE), (D_F16, Q_NONE), (D_F16, Q_NONE)]]"

definition ONE_HOT_types :: io_table where
  "ONE_HOT_types =
    [[(D_F32, Q_NONE), (D_F32, Q_NONE)], [(D_F32, Q_NONE), (D_F16, Q_NONE)], [(D_F16, Q_NONE), (D_F32, Q_NONE)],
     [(D_F16, Q_NONE), (D_F16, Q_NONE)], [(D_F16, Q_NONE), (D_U8, Q_ASYM)], [(D_F16, Q_NONE), (D_I8, Q_ASYM)],
     [(D_F16, Q_NONE), (D_I8, Q_SYM)], [(D_F16, Q_NONE), (D_I8, Q_DFP)], [(D_F16, Q_NONE), (D_I16, Q_DFP)],
     [(D_F16, Q_NONE), (D_I16, Q_ASYM)], [(D_F16, Q_NONE), (D_I16, Q_SYM)], [(D_I32, Q_NONE), (D_F32, Q_NONE)],
     [(D_I32, Q_NONE), (D_F16, Q_NONE)], [(D_I32, Q_NONE), (D_U8, Q_ASYM)], [(D_I32, Q_NONE), (D_I8, Q_DFP)],
     [(D_I32, Q_NONE), (D_I8, Q_ASYM)], [(D_I32, Q_NONE), (D_I8, Q_SYM)], [(D_I32, Q_NONE), (D_I16, Q_DFP)],
     [(D_I32, Q_NONE), (D_I16, Q_ASYM)], [(D_I32, Q_NONE), (D_I16, Q_SYM)], [(D_I32, Q_NONE), (D_I32, Q_NONE)],
     [(D_I32, Q_NONE), (D_BF16, Q_NONE)], [(D_U8, Q_ASYM), (D_I8, Q_SYM)], [(D_U8, Q_ASYM), (D_I16, Q_SYM)],
     [(D_U8, Q_ASYM), (D_I8, Q_DFP)], [(D_U8, Q_ASYM), (D_I16, Q_DFP)], [(D_U8, Q_ASYM), (D_I8, Q_ASYM)],
     [(D_U8, Q_ASYM), (D_I16, Q_ASYM)], [(D_U8, Q_ASYM), (D_U8, Q_ASYM)], [(D_U8, Q_ASYM), (D_F16, Q_NONE)],
     [(D_U8, Q_ASYM), (D_BF16, Q_NONE)], [(D_I8, Q_ASYM), (D_I8, Q_ASYM)], [(D_I8, Q_ASYM), (D_F16, Q_NONE)],
     [(D_I8, Q_ASYM), (D_BF16, Q_NONE)], [(D_I8, Q_DFP), (D_I8, Q_DFP)], [(D_I8, Q_DFP), (D_F16, Q_NONE)],
     [(D_I8, Q_DFP), (D_BF16, Q_NONE)], [(D_I16, Q_DFP), (D_I8, Q_DFP)], [(D_I16, Q_DFP), (D_U8, Q_ASYM)],
     [(D_I16, Q_DFP), (D_I16, Q_DFP)], [(D_I16, Q_DFP), (D_F16, Q_NONE)], [(D_I16, Q_DFP), (D_F32, Q_NONE)],
     [(D_I16, Q_DFP), (D_BF16, Q_NONE)], [(D_I16, Q_ASYM), (D_I8, Q_ASYM)], [(D_I16, Q_ASYM), (D_U8, Q_ASYM)],
     [(D_I16, Q_ASYM), (D_I16, Q_ASYM)], [(D_I16, Q_SYM), (D_I8, Q_SYM)], [(D_I16, Q_ASYM), (D_F16, Q_NONE)],
     [(D_I16, Q_ASYM), (D_BF16, Q_NONE)], [(D_I16, Q_ASYM), (D_F32, Q_NONE)], [(D_I16, Q_SYM), (D_U8, Q_ASYM)],
     [(D_I16, Q_SYM), (D_I16, Q_SYM)], [(D_I16, Q_SYM), (D_BF16, Q_NONE)], [(D_I8, Q_SYM), (D_I8, Q_SYM)],
     [(D_I8, Q_SYM), (D_F16, Q_NONE)], [(D_I8, Q_SYM), (D_BF16, Q_NONE)], [(D_BF16, Q_NONE), (D_BF16, Q_NONE)]]"

definition SEQUENCE_MASK_types :: io_table where
  "SEQUENCE_MASK_types =
    [[(D_U8, Q_ASYM), (D_I32, Q_NONE), (D_U8, Q_ASYM)], [(D_I8, Q_DFP), (D_I32, Q_NONE), (D_I8, Q_DFP)],
     [(D_I16, Q_DFP), (D_I32, Q_NONE), (D_I16, Q_DFP)], [(D_U8, Q_NONE), (D_I32, Q_NONE), (D_U8, Q_NONE)],
     [(D_I8, Q_NONE), (D_I32, Q_NONE), (D_I8, Q_NONE)], [(D_I16, Q_NONE), (D_I32, Q_NONE), (D_I16, Q_NONE)],
     [(D_F16, Q_NONE), (D_I32, Q_NONE), (D_F16, Q_NONE)], [(D_I32, Q_NONE), (D_I32, Q_NONE), (D_U8, Q_ASYM)],
     [(D_I32, Q_NONE), (D_I32, Q_NONE), (D_BOOL8, Q_NONE)], [(D_I16, Q_NONE), (D_I32, Q_NONE), (D_BOOL8, Q_NONE)],
     [(D_I16, Q_NONE), (D_I16, Q_NONE), (D_BOOL8, Q_NONE)], [(D_I8, Q_NONE), (D_I32, Q_NONE), (D_BOOL8, Q_NONE)],
     [(D_I8, Q_NONE), (D_I16, Q_NONE), (D_BOOL8, Q_NONE)], [(D_U8, Q_NONE), (D_I32, Q_NONE), (D_BOOL8, Q_NONE)],
     [(D_U8, Q_NONE), (D_I16, Q_NONE), (D_BOOL8, Q_NONE)], [(D_F16, Q_NONE), (D_I32, Q_NONE), (D_BOOL8, Q_NONE)],
     [(D_F16, Q_NONE), (D_I16, Q_NONE), (D_BOOL8, Q_NONE)], [(D_I32, Q_NONE), (D_I32, Q_NONE), (D_I32, Q_NONE)],
     [(D_I32, Q_NONE), (D_I32, Q_NONE), (D_I32, Q_DFP)], [(D_I32, Q_NONE), (D_I32, Q_NONE), (D_F32, Q_NONE)],
     [(D_U8, Q_ASYM), (D_NONE, Q_NONE), (D_U8, Q_ASYM)], [(D_I8, Q_DFP), (D_NONE, Q_NONE), (D_I8, Q_DFP)],
     [(D_I8, Q_DFP), (D_NONE, Q_NONE), (D_U8, Q_ASYM)], [(D_I16, Q_DFP), (D_NONE, Q_NONE), (D_I16, Q_DFP)],
     [(D_I16, Q_ASYM), (D_NONE, Q_NONE), (D_I16, Q_ASYM)], [(D_I16, Q_SYM), (D_NONE, Q_NONE), (D_I16, Q_SYM)],
     [(D_I16, Q_SYM), (D_NONE, Q_NONE), (D_U8, Q_ASYM)], [(D_F16, Q_NONE), (D_NONE, Q_NONE), (D_F16, Q_NONE)],
     [(D_F16, Q_NONE), (D_NONE, Q_NONE), (D_U8, Q_ASYM)], [(D_I32, Q_NONE), (D_NONE, Q_NONE), (D_U8, Q_ASYM)],
     [(D_I32, Q_NONE), (D_NONE, Q_NONE), (D_BOOL8, Q_NONE)]]"

definition POOL_types :: io_table where
  "POOL_types =
    [[(D_F32, Q_NONE), (D_F32, Q_NONE)], [(D_F32, Q_NONE), (D_F16, Q_NONE)], [(D_F16, Q_NONE), (D_F32, Q_NONE)],
     [(D_F16, Q_NONE), (D_F16, Q_NONE)], [(D_F16, Q_NONE), (D_U8, Q_ASYM)], [(D_F16, Q_NONE), (D_I8, Q_DFP)],
     [(D_F16, Q_NONE), (D_I8, Q_ASYM)], [(D_F16, Q_NONE), (D_I8, Q_SYM)], [(D_F16, Q_NONE), (D_I16, Q_DFP)],
     [(D_F16, Q_NONE), (D_I16, Q_ASYM)], [(D_F16, Q_NONE), (D_I16, Q_SYM)], [(D_BF16, Q_NONE), (D_BF16, Q_NONE)],
     [(D_U8, Q_ASYM), (D_U8, Q_ASYM)], [(D_U8, Q_ASYM), (D_F16, Q_NONE)], [(D_I8, Q_ASYM), (D_I8, Q_ASYM)],
     [(D_I8, Q_SYM), (D_I8, Q_SYM)], [(D_I8, Q_ASYM), (D_F16, Q_NONE)], [(D_I8, Q_SYM), (D_F16, Q_NONE)],
     [(D_I8, Q_DFP), (D_I8, Q_DFP)], [(D_I8, Q_DFP), (D_F16, Q_NONE)], [(D_I16, Q_DFP), (D_I16, Q_DFP)],
     [(D_I16, Q_ASYM), (D_I16, Q_ASYM)], [(D_I16, Q_SYM), (D_I16, Q_SYM)], [(D_I16, Q_DFP), (D_F16, Q_NONE)],
     [(D_I16, Q_ASYM), (D_F16, Q_NONE)], [(D_I16, Q_SYM), (D_F16, Q_NONE)], [(D_U8, Q_ASYM), (D_I16, Q_DFP)],
     [(D_U8, Q_ASYM), (D_BF16, Q_NONE)], [(D_U8, Q_ASYM), (D_F32, Q_NONE)], [(D_U8, Q_ASYM), (D_I8, Q_DFP)],
     [(D_I8, Q_DFP), (D_U8, Q_ASYM)], [(D_I8, Q_DFP), (D_I16, Q_DFP)], [(D_I8, Q_DFP), (D_BF16, Q_NONE)],
     [(D_I8, Q_DFP), (D_F32, Q_NONE)], [(D_I16, Q_DFP), (D_U8, Q_ASYM)], [(D_I16, Q_DFP), (D_I8, Q_DFP)],
     [(D_I16, Q_DFP), (D_BF16, Q_NONE)], [(D_I16, Q_DFP), (D_F32, Q_NONE)], [(D_F32, Q_NONE), (D_BF16, Q_NONE)],
     [(D_BF16, Q_NONE), (D_F32, Q_NONE)], [(D_F16, Q_NONE), (D_BF16, Q_NONE)]]"

definition STRIDED_SLICE_types :: io_table where
  "STRIDED_SLICE_types =
    [[(D_F16, Q_NONE), (D_F16, Q_NONE)], [(D_F16, Q_NONE), (D_I8, Q_DFP)], [(D_F16, Q_NONE), (D_I16, Q_DFP)],
     [(D_F16, Q_NONE), (D_U8, Q_ASYM)], [(D_I8, Q_DFP), (D_F16, Q_NONE)], [(D_I8, Q_ASYM), (D_F16, Q_NONE)],
     [(D_I8, Q_SYM), (D_F16, Q_NONE)], [(D_I16, Q_DFP), (D_F16, Q_NONE)], [(D_I16, Q_ASYM), (D_F16, Q_NONE)],
     [(D_I16, Q_SYM), (D_F16, Q_NONE)], [(D_U8, Q_ASYM), (D_F16, Q_NONE)], [(D_I8, Q_DFP), (D_I8, Q_DFP)],
     [(D_I8, Q_ASYM), (D_I8, Q_ASYM)], [(D_I8, Q_SYM), (D_I8, Q_SYM)], [(D_I16, Q_DFP), (D_I16, Q_DFP)],
     [(D_I16, Q_ASYM), (D_I16, Q_ASYM)], [(D_I16, Q_SYM), (D_I16, Q_SYM)], [(D_U8, Q_ASYM), (D_U8, Q_ASYM)],
     [(D_F32, Q_NONE), (D_F32, Q_NONE)], [(D_BF16, Q_NONE), (D_BF16, Q_NONE)], [(D_F32, Q_NONE), (D_BF16, Q_NONE)],
     [(D_BF16, Q_NONE), (D_F32, Q_NONE)], [(D_I32, Q_NONE), (D_I32, Q_NONE)], [(D_BOOL8, Q_NONE), (D_BOOL8, Q_NONE)],
     [(D_U8, Q_ASYM), (D_I8, Q_DFP)], [(D_U8, Q_ASYM), (D_I16, Q_DFP)], [(D_U8, Q_ASYM), (D_BF16, Q_NONE)],
     [(D_U8, Q_ASYM), (D_F32, Q_NONE)], [(D_U8, Q_ASYM), (D_I8, Q_DFP)], [(D_I8, Q_DFP), (D_U8, Q_ASYM)],
     [(D_I8, Q_DFP), (D_I16, Q_DFP)], [(D_I8, Q_DFP), (D_BF16, Q_NONE)], [(D_I8, Q_DFP), (D_F32, Q_NONE)],
     [(D_I16, Q_DFP), (D_U8, Q_ASYM)], [(D_I16, Q_DFP), (D_I8, Q_DFP)], [(D_I16, Q_DFP), (D_BF16, Q_NONE)],
     [(D_I16, Q_DFP), (D_F32, Q_NONE)], [(D_F16, Q_NONE), (D_BF16, Q_NONE)], [(D_F16, Q_NONE), (D_F32, Q_NONE)],
     [(D_U8, Q_ASYM), (D_I32, Q_ASYM)], [(D_U4, Q_ASYM), (D_U4, Q_ASYM)], [(D_U4, Q_SYM), (D_U4, Q_SYM)],
     [(D_I4, Q_ASYM), (D_I4, Q_ASYM)], [(D_I4, Q_SYM), (D_I4, Q_SYM)]]"

definition SLICE_types :: io_table where
  "SLICE_types =
    [[(D_F16, Q_NONE), (D_I32, Q_NONE), (D_F16, Q_NONE)], [(D_F16, Q_NONE), (D_I32, Q_NONE), (D_I8, Q_DFP)],
     [(D_F16, Q_NONE), (D_I32, Q_NONE), (D_I8, Q_ASYM)], [(D_F16, Q_NONE), (D_I32, Q_NONE), (D_I8, Q_SYM)],
     [(D_F16, Q_NONE), (D_I32, Q_NONE), (D_I16, Q_DFP)], [(D_F16, Q_NONE), (D_I32, Q_NONE), (D_I16, Q_ASYM)],
     [(D_F16, Q_NONE), (D_I32, Q_NONE), (D_I16, Q_SYM)], [(D_F16, Q_NONE), (D_I32, Q_NONE), (D_U8, Q_ASYM)],
     [(D_I8, Q_DFP), (D_I32, Q_NONE), (D_F16, Q_NONE)], [(D_I8, Q_ASYM), (D_I32, Q_NONE), (D_F16, Q_NONE)],
     [(D_I8, Q_SYM), (D_I32, Q_NONE), (D_F16, Q_NONE)], [(D_I16, Q_DFP), (D_I32, Q_NONE), (D_F16, Q_NONE)],
     [(D_U8, Q_ASYM), (D_I32, Q_NONE), (D_F16, Q_NONE)], [(D_I8, Q_DFP), (D_I32, Q_NONE), (D_I8, Q_DFP)],
     [(D_I8, Q_ASYM), (D_I32, Q_NONE), (D_I8, Q_ASYM)], [(D_I8, Q_SYM), (D_I32, Q_NONE), (D_I8, Q_SYM)],
     [(D_I16, Q_DFP), (D_I32, Q_NONE), (D_I16, Q_DFP)], [(D_I16, Q_ASYM), (D_I32, Q_NONE), (D_I16, Q_ASYM)],
     [(D_I16, Q_SYM), (D_I32, Q_NONE), (D_I16, Q_SYM)], [(D_U8, Q_ASYM), (D_I32, Q_NONE), (D_U8, Q_ASYM)],
     [(D_F32, Q_NONE), (D_I32, Q_NONE), (D_F32, Q_NONE)], [(D_I32, Q_NONE), (D_I32, Q_NONE), (D_I32, Q_NONE)],
     [(D_BF16, Q_NONE), (D_I32, Q_NONE), (D_BF16, Q_NONE)]]"

definition SPLIT_types :: io_table where
  "SPLIT_types =
    [[(D_F16, Q_NONE), (D_F16, Q_NONE)], [(D_F16, Q_NONE), (D_I8, Q_DFP)], [(D_F16, Q_NONE), (D_I16, Q_DFP)],
     [(D_F16, Q_NONE), (D_U8, Q_ASYM)], [(D_I8, Q_DFP), (D_F16, Q_NONE)], [(D_I16, Q_DFP), (D_F16, Q_NONE)],
     [(D_U8, Q_ASYM), (D_F16, Q_NONE)], [(D_I8, Q_DFP), (D_I8, Q_DFP)], [(D_I16, Q_DFP), (D_I16, Q_DFP)],
     [(D_U8, Q_ASYM), (D_U8, Q_ASYM)], [(D_F16, Q_NONE), (D_I8, Q_NONE)], [(D_F16, Q_NONE), (D_I16, Q_NONE)],
     [(D_F16, Q_NONE), (D_U8, Q_NONE)], [(D_I8, Q_NONE), (D_F16, Q_NONE)], [(D_I16, Q_NONE), (D_F16, Q_NONE)],
     [(D_U8, Q_NONE), (D_F16, Q_NONE)], [(D_I8, Q_NONE), (D_I8, Q_NONE)], [(D_I16, Q_NONE), (D_I16, Q_NONE)],
     [(D_U8, Q_NONE), (D_U8, Q_NONE)], [(D_F32, Q_NONE), (D_F32, Q_NONE)], [(D_F32, Q_NONE), (D_BF16, Q_NONE)],
     [(D_BF16, Q_NONE), (D_F32, Q_NONE)], [(D_I32, Q_NONE), (D_I32, Q_NONE)], [(D_BF16, Q_NONE), (D_BF16, Q_NONE)]]"

text \<open>Every row lists one entry for each registered input and output, without group-wise quantization.\<close>

named_theorems table_oks

lemmas table_ok_simps = table_ok_def entry_ok_def no_group_def

lemma MINIMUM_ok [table_oks]: "table_ok 3 MINIMUM_types"
  by (simp add: table_ok_simps MINIMUM_types_def)

lemma POW_ok [table_oks]: "table_ok 3 POW_types"
  by (simp add: table_ok_simps POW_types_def)

lemma ADD_ok [table_oks]: "table_ok 2 ADD_types"
  by (simp add: table_ok_simps ADD_types_def)

lemma DIVIDE_ok [table_oks]: "table_ok 3 DIVIDE_types"
  by (simp add: table_ok_simps DIVIDE_types_def)

lemma SELECT_ok [table_oks]: "table_ok 4 SELECT_types"
  by (simp add: table_ok_simps SELECT_types_def)

lemma MATRIXMUL_ok [table_oks]: "table_ok 3 MATRIXMUL_types"
  by (simp add: table_ok_simps MATRIXMUL_types_def)

lemma DATACONVERT_ok [table_oks]: "table_ok 2 DATACONVERT_types"
  by (simp add: table_ok_simps DATACONVERT_types_def)

lemma PERMUTE_ok [table_oks]: "table_ok 2 PERMUTE_types"
  by (simp add: table_ok_simps PERMUTE_types_def)

lemma TILE_ok [table_oks]: "table_ok 2 TILE_types"
  by (simp add: table_ok_simps TILE_types_def)

lemma PAD_ok [table_oks]: "table_ok 2 PAD_types"
  by (simp add: table_ok_simps PAD_types_def)

lemma PAD2_ok [table_oks]: "table_ok 2 PAD2_types"
  by (simp add: table_ok_simps PAD2_types_def)

lemma GATHER_ok [table_oks]: "table_ok 3 GATHER_types"
  by (simp add: table_ok_simps GATHER_types_def)

lemma GATHER_ND_ok [table_oks]: "table_ok 3 GATHER_ND_types"
  by (simp add: table_ok_simps GATHER_ND_types_def)

lemma GATHER_ELEMENTS_ok [table_oks]: "table_ok 3 GATHER_ELEMENTS_types"
  by (simp add: table_ok_simps GATHER_ELEMENTS_types_def)

lemma SCATTER_ND_ok [table_oks]: "table_ok 3 SCATTER_ND_types"
  by (simp add: table_ok_simps SCATTER_ND_types_def)

lemma EMBEDDING_LOOKUP_ok [table_oks]: "table_ok 3 EMBEDDING_LOOKUP_types"
  by (simp add: table_ok_simps EMBEDDING_LOOKUP_types_def)

lemma ONE_HOT_ok [table_oks]: "table_ok 2 ONE_HOT_types"
  by (simp add: table_ok_simps ONE_HOT_types_def)

lemma SEQUENCE_MASK_ok [table_oks]: "table_ok 3 SEQUENCE_MASK_types"
  by (simp add: table_ok_simps SEQUENCE_MASK_types_def)

lemma POOL_ok [table_oks]: "table_ok 2 POOL_types"
  by (simp add: table_ok_simps POOL_types_def)

lemma STRIDED_SLICE_ok [table_oks]: "table_ok 2 STRIDED_SLICE_types"
  by (simp add: table_ok_simps STRIDED_SLICE_types_def)

lemma SLICE_ok [table_oks]: "table_ok 3 SLICE_types"
  by (simp add: table_ok_simps SLICE_types_def)

lemma SPLIT_ok [table_oks]: "table_ok 2 SPLIT_types"
  by (simp add: table_ok_simps SPLIT_types_def)

end
