(* ===== verification/Op_Tables_More.thy ===== *)
theory Op_Tables_More
  imports Op_Tables
begin

text \<open>
  Tables of supported element types of further operations, from \<^verbatim>\<open>src/ops\<close> (under
  \<^verbatim>\<open>src/tim/vx/internal\<close>): of those whose check is the comparison with the table, and of
  the normalisations and \<open>RSQRT\<close>, whose check first asks for the stream processor.
\<close>

definition INSTANCE_NORM_types :: io_table where
  "INSTANCE_NORM_types =
    [[(D_F16, Q_NONE), (D_F32, Q_NONE), (D_F16, Q_NONE), (D_F16, Q_NONE)],
     [(D_F16, Q_NONE), (D_F32, Q_NONE), (D_F32, Q_NONE), (D_F16, Q_NONE)],
     [(D_F16, Q_NONE), (D_F16, Q_NONE), (D_F16, Q_NONE), (D_F16, Q_NONE)],
     [(D_F32, Q_NONE), (D_F32, Q_NONE), (D_F16, Q_NONE), (D_F32, Q_NONE)],
     [(D_F32, Q_NONE), (D_F16, Q_NONE), (D_F16, Q_NONE), (D_F32, Q_NONE)],
     [(D_F32, Q_NONE), (D_F32, Q_NONE), (D_F32, Q_NONE), (D_F32, Q_NONE)],
     [(D_I32, Q_NONE), (D_F32, Q_NONE), (D_F16, Q_NONE), (D_I32, Q_NONE)],
     [(D_I32, Q_NONE), (D_F32, Q_NONE), (D_F16, Q_NONE), (D_F32, Q_NONE)],
     [(D_BF16, Q_NONE), (D_F32, Q_NONE), (D_F32, Q_NONE), (D_BF16, Q_NONE)],
     [(D_I8, Q_DFP), (D_F32, Q_NONE), (D_F16, Q_NONE), (D_F16, Q_NONE)],
     [(D_I8, Q_DFP), (D_F32, Q_NONE), (D_F32, Q_NONE), (D_F16, Q_NONE)],
     [(D_I8, Q_ASYM), (D_F32, Q_NONE), (D_F32, Q_NONE), (D_F16, Q_NONE)],
     [(D_I8, Q_SYM), (D_F32, Q_NONE), (D_F32, Q_NONE), (D_F16, Q_NONE)],
     [(D_I8, Q_DFP), (D_F32, Q_NONE), (D_F16, Q_NONE), (D_I8, Q_DFP)],
     [(D_I8, Q_DFP), (D_F32, Q_NONE), (D_F32, Q_NONE), (D_I8, Q_DFP)],
     [(D_I8, Q_ASYM), (D_F32, Q_NONE), (D_F32, Q_NONE), (D_I8, Q_ASYM)],
     [(D_I8, Q_SYM), (D_F32, Q_NONE), (D_F32, Q_NONE), (D_I8, Q_SYM)],
     [(D_F16, Q_NONE), (D_F32, Q_NONE), (D_F32, Q_NONE), (D_I8, Q_DFP)],
     [(D_F16, Q_NONE), (D_F32, Q_NONE), (D_F32, Q_NONE), (D_I8, Q_ASYM)],
     [(D_F16, Q_NONE), (D_F32, Q_NONE), (D_F32, Q_NONE), (D_I8, Q_SYM)],
     [(D_U8, Q_ASYM), (D_F32, Q_NONE), (D_F16, Q_NONE), (D_F16, Q_NONE)],
     [(D_U8, Q_ASYM), (D_F32, Q_NONE), (D_F32, Q_NONE), (D_F16, Q_NONE)],
     [(D_F16, Q_NONE), (D_F32, Q_NONE), (D_F32, Q_NONE), (D_U8, Q_ASYM)],
     [(D_U8, Q_ASYM), (D_F32, Q_NONE), (D_F16, Q_NONE), (D_U8, Q_ASYM)],
     [(D_U8, Q_ASYM), (D_F32, Q_NONE), (D_F32, Q_NONE), (D_U8, Q_ASYM)],
     [(D_I16, Q_DFP), (D_F32, Q_NONE), (D_F16, Q_NONE), (D_F16, Q_NONE)],
     [(D_I16, Q_DFP), (D_F32, Q_NONE), (D_F32, Q_NONE), (D_F16, Q_NONE)],
     [(D_I16, Q_ASYM), (D_F32, Q_NONE), (D_F32, Q_NONE), (D_F16, Q_NONE)],
     [(D_I16, Q_SYM), (D_F32, Q_NONE), (D_F32, Q_NONE), (D_F16, Q_NONE)],
     [(D_F16, Q_NONE), (D_F32, Q_NONE), (D_F32, Q_NONE), (D_I16, Q_DFP)],
     [(D_F16, Q_NONE), (D_F32, Q_NONE), (D_F32, Q_NONE), (D_I16, Q_ASYM)],
     [(D_F16, Q_NONE), (D_F32, Q_NONE), (D_F32, Q_NONE), (D_I16, Q_SYM)],
     [(D_I16, Q_DFP), (D_F32, Q_NONE), (D_F16, Q_NONE), (D_I16, Q_DFP)],
     [(D_I16, Q_DFP), (D_F32, Q_NONE), (D_F32, Q_NONE), (D_I16, Q_DFP)],
     [(D_I16, Q_ASYM), (D_F32, Q_NONE), (D_F32, Q_NONE), (D_I16, Q_ASYM)],
     [(D_I16, Q_SYM), (D_F32, Q_NONE), (D_F32, Q_NONE), (D_I16, Q_SYM)]]"

definition L1_LAYER_NORM_types :: io_table where
  "L1_LAYER_NORM_types =
    [[(D_F32, Q_NONE), (D_F32, Q_NONE), (D_F32, Q_NONE), (D_F32, Q_NONE), (D_F32, Q_NONE)],
     [(D_F16, Q_NONE), (D_F32, Q_NONE), (D_F32, Q_NONE), (D_F32, Q_NONE), (D_F16, Q_NONE)],
     [(D_F16, Q_NONE), (D_F32, Q_NONE), (D_F32, Q_NONE), (D_F32, Q_NONE), (D_U8, Q_ASYM)],
     [(D_F16, Q_NONE), (D_F32, Q_NONE), (D_F32, Q_NONE), (D_F32, Q_NONE), (D_I8, Q_DFP)],
     [(D_F16, Q_NONE), (D_F32, Q_NONE), (D_F32, Q_NONE), (D_F32, Q_NONE), (D_I8, Q_ASYM)],
     [(D_F16, Q_NONE), (D_F32, Q_NONE), (D_F32, Q_NONE), (D_F32, Q_NONE), (D_I8, Q_SYM)],
     [(D_F16, Q_NONE), (D_F32, Q_NONE), (D_F32, Q_NONE), (D_F32, Q_NONE), (D_I16, Q_DFP)],
     [(D_F16, Q_NONE), (D_F32, Q_NONE), (D_F32, Q_NONE), (D_F32, Q_NONE), (D_I16, Q_ASYM)],
     [(D_F16, Q_NONE), (D_F32, Q_NONE), (D_F32, Q_NONE), (D_F32, Q_NONE), (D_I16, Q_SYM)],
     [(D_BF16, Q_NONE), (D_F32, Q_NONE), (D_F32, Q_NONE), (D_F32, Q_NONE), (D_BF16, Q_NONE)],
     [(D_U8, Q_ASYM), (D_F32, Q_NONE), (D_F32, Q_NONE), (D_F32, Q_NONE), (D_U8, Q_ASYM)],
     [(D_U8, Q_ASYM), (D_F32, Q_NONE), (D_F32, Q_NONE), (D_F32, Q_NONE), (D_F16, Q_NONE)],
     [(D_I16, Q_DFP), (D_F32, Q_NONE), (D_F32, Q_NONE), (D_F32, Q_NONE), (D_I16, Q_DFP)],
     [(D_I16, Q_ASYM), (D_F32, Q_NONE), (D_F32, Q_NONE), (D_F32, Q_NONE), (D_I16, Q_ASYM)],
     [(D_I16, Q_SYM), (D_F32, Q_NONE), (D_F32, Q_NONE), (D_F32, Q_NONE), (D_I16, Q_SYM)],
     [(D_I16, Q_DFP), (D_F32, Q_NONE), (D_F32, Q_NONE), (D_F32, Q_NONE), (D_F16, Q_NONE)],
     [(D_I16, Q_ASYM), (D_F32, Q_NONE), (D_F32, Q_NONE), (D_F32, Q_NONE), (D_F16, Q_NONE)],
     [(D_I16, Q_SYM), (D_F32, Q_NONE), (D_F32, Q_NONE), (D_F32, Q_NONE), (D_F16, Q_NONE)],
     [(D_I8, Q_DFP), (D_F32, Q_NONE), (D_F32, Q_NONE), (D_F32, Q_NONE), (D_I8, Q_DFP)],
     [(D_I8, Q_ASYM), (D_F32, Q_NONE), (D_F32, Q_NONE), (D_F32, Q_NONE), (D_I8, Q_ASYM)],
     [(D_I8, Q_SYM), (D_F32, Q_NONE), (D_F32, Q_NONE), (D_F32, Q_NONE), (D_I8, Q_SYM)],
     [(D_I8, Q_DFP), (D_F32, Q_NONE), (D_F32, Q_NONE), (D_F32, Q_NONE), (D_F16, Q_NONE)],
     [(D_I8, Q_ASYM), (D_F32, Q_NONE), (D_F32, Q_NONE), (D_F32, Q_NONE), (D_F16, Q_NONE)],
     [(D_I8, Q_SYM), (D_F32, Q_NONE), (D_F32, Q_NONE), (D_F32, Q_NONE), (D_F16, Q_NONE)]]"

definition L2_NORMALIZE_types :: io_table where
  "L2_NORMALIZE_types =
    [[(D_F32, Q_NONE), (D_F16, Q_NONE)], [(D_F32, Q_NONE), (D_F32, Q_NONE)], [(D_I32, Q_NONE), (D_I32, Q_NONE)],
     [(D_BF16, Q_NONE), (D_BF16, Q_NONE)], [(D_F16, Q_NONE), (D_F32, Q_NONE)], [(D_F16, Q_NONE), (D_F16, Q_NONE)],
     [(D_F16, Q_NONE), (D_U8, Q_ASYM)], [(D_F16, Q_NONE), (D_I16, Q_DFP)], [(D_F16, Q_NONE), (D_I8, Q_DFP)],
     [(D_I8, Q_DFP), (D_I8, Q_DFP)], [(D_I8, Q_DFP), (D_F16, Q_NONE)], [(D_I16, Q_DFP), (D_I16, Q_DFP)],
     [(D_I16, Q_DFP), (D_F16, Q_NONE)], [(D_U8, Q_ASYM), (D_U8, Q_ASYM)], [(D_U8, Q_ASYM), (D_F16, Q_NONE)]]"

definition LAYER_NORM_types :: io_table where
  "LAYER_NORM_types =
    [[(D_F32, Q_NONE), (D_F32, Q_NONE), (D_F32, Q_NONE), (D_F32, Q_NONE)],
     [(D_F16, Q_NONE), (D_F32, Q_NONE), (D_F16, Q_NONE), (D_F16, Q_NONE)],
     [(D_F16, Q_NONE), (D_F32, Q_NONE), (D_F32, Q_NONE), (D_F16, Q_NONE)],
     [(D_F16, Q_NONE), (D_F32, Q_NONE), (D_F16, Q_NONE), (D_U8, Q_ASYM)],
     [(D_F16, Q_NONE), (D_F32, Q_NONE), (D_F32, Q_NONE), (D_U8, Q_ASYM)],
     [(D_F16, Q_NONE), (D_F32, Q_NONE), (D_F16, Q_NONE), (D_I8, Q_DFP)],
     [(D_F16, Q_NONE), (D_F32, Q_NONE), (D_F32, Q_NONE), (D_I8, Q_DFP)],
     [(D_F16, Q_NONE), (D_F32, Q_NONE), (D_F16, Q_NONE), (D_I8, Q_ASYM)],
     [(D_F16, Q_NONE), (D_F32, Q_NONE), (D_F32, Q_NONE), (D_I8, Q_ASYM)],
     [(D_F16, Q_NONE), (D_F32, Q_NONE), (D_F16, Q_NONE), (D_I8, Q_SYM)],
     [(D_F16, Q_NONE), (D_F32, Q_NONE), (D_F32, Q_NONE), (D_I8, Q_SYM)],
     [(D_F16, Q_NONE), (D_F32, Q_NONE), (D_F16, Q_NONE), (D_I16, Q_DFP)],
     [(D_F16, Q_NONE), (D_F32, Q_NONE), (D_F32, Q_NONE), (D_I16, Q_DFP)],
     [(D_F16, Q_NONE), (D_F32, Q_NONE), (D_F16, Q_NONE), (D_I16, Q_ASYM)],
     [(D_F16, Q_NONE), (D_F32, Q_NONE), (D_F32, Q_NONE), (D_I16, Q_ASYM)],
     [(D_F16, Q_NONE), (D_F32, Q_NONE), (D_F16, Q_NONE), (D_I16, Q_SYM)],
     [(D_F16, Q_NONE), (D_F32, Q_NONE), (D_F32, Q_NONE), (D_I16, Q_SYM)],
     [(D_BF16, Q_NONE), (D_F32, Q_NONE), (D_F32, Q_NONE), (D_BF16, Q_NONE)],
     [(D_U8, Q_ASYM), (D_F32, Q_NONE), (D_F16, Q_NONE), (D_F16, Q_NONE)],
     [(D_U8, Q_ASYM), (D_F32, Q_NONE), (D_F16, Q_NONE), (D_U8, Q_ASYM)],
     [(D_I16, Q_DFP), (D_F32, Q_NONE), (D_F16, Q_NONE), (D_I16, Q_DFP)],
     [(D_I16, Q_ASYM), (D_F32, Q_NONE), (D_F16, Q_NONE), (D_I16, Q_ASYM)],
     [(D_I16, Q_SYM), (D_F32, Q_NONE), (D_F16, Q_NONE), (D_I16, Q_SYM)],
     [(D_I16, Q_DFP), (D_F32, Q_NONE), (D_F16, Q_NONE), (D_F16, Q_NONE)],
     [(D_I16, Q_ASYM), (D_F32, Q_NONE), (D_F16, Q_NONE), (D_F16, Q_NONE)],
     [(D_I16, Q_SYM), (D_F32, Q_NONE), (D_F16, Q_NONE), (D_F16, Q_NONE)],
     [(D_I8, Q_DFP), (D_F32, Q_NONE), (D_F16, Q_NONE), (D_I8, Q_DFP)],
     [(D_I8, Q_ASYM), (D_F32, Q_NONE), (D_F16, Q_NONE), (D_I8, Q_ASYM)],
     [(D_I8, Q_SYM), (D_F32, Q_NONE), (D_F16, Q_NONE), (D_I8, Q_SYM)],
     [(D_I8, Q_DFP), (D_F32, Q_NONE), (D_F16, Q_NONE), (D_F16, Q_NONE)],
     [(D_I8, Q_ASYM), (D_F32, Q_NONE), (D_F16, Q_NONE), (D_F16, Q_NONE)],
     [(D_I8, Q_SYM), (D_F32, Q_NONE), (D_F16, Q_NONE), (D_F16, Q_NONE)],
     [(D_U8, Q_ASYM), (D_F32, Q_NONE), (D_F32, Q_NONE), (D_U8, Q_ASYM)],
     [(D_U8, Q_ASYM), (D_F32, Q_NONE), (D_F32, Q_NONE), (D_F16, Q_NONE)],
     [(D_I16, Q_DFP), (D_F32, Q_NONE), (D_F32, Q_NONE), (D_I16, Q_DFP)],
     [(D_I16, Q_ASYM), (D_F32, Q_NONE), (D_F32, Q_NONE), (D_I16, Q_ASYM)],
     [(D_I16, Q_SYM), (D_F32, Q_NONE), (D_F32, Q_NONE), (D_I16, Q_SYM)],
     [(D_I16, Q_DFP), (D_F32, Q_NONE), (D_F32, Q_NONE), (D_F16, Q_NONE)],
     [(D_I16, Q_ASYM), (D_F32, Q_NONE), (D_F32, Q_NONE), (D_F16, Q_NONE)],
     [(D_I16, Q_SYM), (D_F32, Q_NONE), (D_F32, Q_NONE), (D_F16, Q_NONE)],
     [(D_I8, Q_DFP), (D_F32, Q_NONE), (D_F32, Q_NONE), (D_I8, Q_DFP)],
     [(D_I8, Q_ASYM), (D_F32, Q_NONE), (D_F32, Q_NONE), (D_I8, Q_ASYM)],
     [(D_I8, Q_SYM), (D_F32, Q_NONE), (D_F32, Q_NONE), (D_I8, Q_SYM)],
     [(D_I8, Q_DFP), (D_F32, Q_NONE), (D_F32, Q_NONE), (D_F16, Q_NONE)],
     [(D_I8, Q_ASYM), (D_F32, Q_NONE), (D_F32, Q_NONE), (D_F16, Q_NONE)],
     [(D_I8, Q_SYM), (D_F32, Q_NONE), (D_F32, Q_NONE), (D_F16, Q_NONE)]]"

definition RMS_NORM_types :: io_table where
  "RMS_NORM_types =
    [[(D_F32, Q_NONE), (D_F32, Q_NONE), (D_F32, Q_NONE)], [(D_F32, Q_NONE), (D_F32, Q_NONE), (D_F16, Q_NONE)],
     [(D_F16, Q_NONE), (D_F32, Q_NONE), (D_F16, Q_NONE)], [(D_F16, Q_NONE), (D_F32, Q_NONE), (D_F32, Q_NONE)],
     [(D_F16, Q_NONE), (D_F32, Q_NONE), (D_U8, Q_ASYM)], [(D_F16, Q_NONE), (D_F32, Q_NONE), (D_I8, Q_DFP)],
     [(D_F16, Q_NONE), (D_F32, Q_NONE), (D_I8, Q_ASYM)], [(D_F16, Q_NONE), (D_F32, Q_NONE), (D_I8, Q_SYM)],
     [(D_F16, Q_NONE), (D_F32, Q_NONE), (D_I16, Q_DFP)], [(D_F16, Q_NONE), (D_F32, Q_NONE), (D_I16, Q_ASYM)],
     [(D_F16, Q_NONE), (D_F32, Q_NONE), (D_I16, Q_SYM)], [(D_BF16, Q_NONE), (D_F32, Q_NONE), (D_BF16, Q_NONE)],
     [(D_U8, Q_ASYM), (D_F32, Q_NONE), (D_F16, Q_NONE)], [(D_U8, Q_ASYM), (D_F32, Q_NONE), (D_U8, Q_ASYM)],
     [(D_I16, Q_DFP), (D_F32, Q_NONE), (D_I16, Q_DFP)], [(D_I16, Q_ASYM), (D_F32, Q_NONE), (D_I16, Q_ASYM)],
     [(D_I16, Q_SYM), (D_F32, Q_NONE), (D_I16, Q_SYM)], [(D_I16, Q_DFP), (D_F32, Q_NONE), (D_F16, Q_NONE)],
     [(D_I16, Q_ASYM), (D_F32, Q_NONE), (D_F16, Q_NONE)], [(D_I16, Q_SYM), (D_F32, Q_NONE), (D_F16, Q_NONE)],
     [(D_I8, Q_DFP), (D_F32, Q_NONE), (D_I8, Q_DFP)], [(D_I8, Q_ASYM), (D_F32, Q_NONE), (D_I8, Q_ASYM)],
     [(D_I8, Q_SYM), (D_F32, Q_NONE), (D_I8, Q_SYM)], [(D_I8, Q_DFP), (D_F32, Q_NONE), (D_F16, Q_NONE)],
     [(D_I8, Q_ASYM), (D_F32, Q_NONE), (D_F16, Q_NONE)], [(D_I8, Q_SYM), (D_F32, Q_NONE), (D_F16, Q_NONE)]]"

definition RSQRT_types :: io_table where
  "RSQRT_types =
    [[(D_F16, Q_NONE), (D_F16, Q_NONE)], [(D_F16, Q_NONE), (D_I16, Q_DFP)], [(D_F16, Q_NONE), (D_I16, Q_ASYM)],
     [(D_F16, Q_NONE), (D_I16, Q_SYM)], [(D_F16, Q_NONE), (D_I8, Q_DFP)], [(D_F16, Q_NONE), (D_I8, Q_ASYM)],
     [(D_F16, Q_NONE), (D_I8, Q_SYM)], [(D_F16, Q_NONE), (D_U8, Q_ASYM)], [(D_I8, Q_DFP), (D_F16, Q_NONE)],
     [(D_I8, Q_ASYM), (D_F16, Q_NONE)], [(D_I8, Q_SYM), (D_F16, Q_NONE)], [(D_I8, Q_DFP), (D_I8, Q_DFP)],
     [(D_I8, Q_ASYM), (D_I8, Q_ASYM)], [(D_I8, Q_SYM), (D_I8, Q_SYM)], [(D_U8, Q_ASYM), (D_F16, Q_NONE)],
     [(D_U8, Q_ASYM), (D_U8, Q_ASYM)], [(D_I16, Q_DFP), (D_F16, Q_NONE)], [(D_I16, Q_ASYM), (D_F16, Q_NONE)],
     [(D_I16, Q_SYM), (D_F16, Q_NONE)], [(D_I16, Q_DFP), (D_I16, Q_DFP)], [(D_I16, Q_ASYM), (D_I16, Q_ASYM)],
     [(D_I16, Q_SYM), (D_I16, Q_SYM)], [(D_BF16, Q_NONE), (D_BF16, Q_NONE)], [(D_BF16, Q_NONE), (D_F32, Q_NONE)],
     [(D_F32, Q_NONE), (D_BF16, Q_NONE)], [(D_F32, Q_NONE), (D_F32, Q_NONE)], [(D_F32, Q_NONE), (D_U8, Q_ASYM)],
     [(D_U8, Q_ASYM), (D_F32, Q_NONE)], [(D_U8, Q_ASYM), (D_I8, Q_DFP)], [(D_U8, Q_ASYM), (D_I16, Q_DFP)],
     [(D_U8, Q_ASYM), (D_BF16, Q_NONE)], [(D_U8, Q_ASYM), (D_F32, Q_NONE)], [(D_U8, Q_ASYM), (D_I8, Q_DFP)],
     [(D_I8, Q_DFP), (D_U8, Q_ASYM)], [(D_I8, Q_DFP), (D_I16, Q_DFP)], [(D_I8, Q_DFP), (D_BF16, Q_NONE)],
     [(D_I8, Q_DFP), (D_F32, Q_NONE)], [(D_I16, Q_DFP), (D_U8, Q_ASYM)], [(D_I16, Q_DFP), (D_I8, Q_DFP)],
     [(D_I16, Q_DFP), (D_BF16, Q_NONE)], [(D_I16, Q_DFP), (D_F32, Q_NONE)], [(D_F16, Q_NONE), (D_BF16, Q_NONE)],
     [(D_F16, Q_NONE), (D_F32, Q_NONE)], [(D_F32, Q_NONE), (D_I16, Q_DFP)], [(D_F32, Q_NONE), (D_I16, Q_ASYM)],
     [(D_F32, Q_NONE), (D_I16, Q_SYM)], [(D_F32, Q_NONE), (D_I8, Q_DFP)], [(D_F32, Q_NONE), (D_I8, Q_ASYM)],
     [(D_F32, Q_NONE), (D_I8, Q_SYM)], [(D_F32, Q_NONE), (D_I32, Q_NONE)], [(D_F32, Q_NONE), (D_F16, Q_NONE)],
     [(D_I32, Q_NONE), (D_F32, Q_NONE)], [(D_U4, Q_ASYM), (D_U4, Q_ASYM)], [(D_U4, Q_SYM), (D_U4, Q_SYM)],
     [(D_I4, Q_ASYM), (D_I4, Q_ASYM)], [(D_I4, Q_SYM), (D_I4, Q_SYM)], [(D_U4, Q_ASYM), (D_U8, Q_ASYM)],
     [(D_I4, Q_ASYM), (D_U8, Q_ASYM)], [(D_I4, Q_SYM), (D_U8, Q_ASYM)], [(D_U4, Q_ASYM), (D_I8, Q_ASYM)],
     [(D_I4, Q_ASYM), (D_I8, Q_ASYM)], [(D_I4, Q_SYM), (D_I8, Q_ASYM)], [(D_U4, Q_ASYM), (D_I8, Q_SYM)],
     [(D_I4, Q_ASYM), (D_I8, Q_SYM)], [(D_I4, Q_SYM), (D_I8, Q_SYM)], [(D_U4, Q_ASYM), (D_I8, Q_DFP)],
     [(D_I4, Q_ASYM), (D_I8, Q_DFP)], [(D_I4, Q_SYM), (D_I8, Q_DFP)], [(D_U4, Q_ASYM), (D_I16, Q_ASYM)],
     [(D_I4, Q_ASYM), (D_I16, Q_ASYM)], [(D_I4, Q_SYM), (D_I16, Q_ASYM)], [(D_U4, Q_ASYM), (D_I16, Q_SYM)],
     [(D_I4, Q_ASYM), (D_I16, Q_SYM)], [(D_I4, Q_SYM), (D_I16, Q_SYM)], [(D_U4, Q_ASYM), (D_I16, Q_DFP)],
     [(D_I4, Q_ASYM), (D_I16, Q_DFP)], [(D_I4, Q_SYM), (D_I16, Q_DFP)], [(D_U4, Q_ASYM), (D_F16, Q_NONE)],
     [(D_I4, Q_ASYM), (D_F16, Q_NONE)], [(D_I4, Q_SYM), (D_F16, Q_NONE)], [(D_U4, Q_ASYM), (D_BF16, Q_NONE)],
     [(D_I4, Q_ASYM), (D_BF16, Q_NONE)], [(D_I4, Q_SYM), (D_BF16, Q_NONE)], [(D_U8, Q_ASYM), (D_U4, Q_ASYM)],
     [(D_U8, Q_ASYM), (D_I4, Q_ASYM)], [(D_U8, Q_ASYM), (D_I4, Q_SYM)], [(D_I8, Q_ASYM), (D_U4, Q_ASYM)],
     [(D_I8, Q_ASYM), (D_I4, Q_ASYM)], [(D_I8, Q_ASYM), (D_I4, Q_SYM)], [(D_I8, Q_SYM), (D_U4, Q_ASYM)],
     [(D_I8, Q_SYM), (D_I4, Q_ASYM)], [(D_I8, Q_SYM), (D_I4, Q_SYM)], [(D_I8, Q_DFP), (D_U4, Q_ASYM)],
     [(D_I8, Q_DFP), (D_I4, Q_ASYM)], [(D_I8, Q_DFP), (D_I4, Q_SYM)], [(D_I16, Q_ASYM), (D_U4, Q_ASYM)],
     [(D_I16, Q_ASYM), (D_I4, Q_ASYM)], [(D_I16, Q_ASYM), (D_I4, Q_SYM)], [(D_I16, Q_SYM), (D_U4, Q_ASYM)],
     [(D_I16, Q_SYM), (D_I4, Q_ASYM)], [(D_I16, Q_SYM), (D_I4, Q_SYM)], [(D_I16, Q_DFP), (D_U4, Q_ASYM)],
     [(D_I16, Q_DFP), (D_I4, Q_ASYM)], [(D_I16, Q_DFP), (D_I4, Q_SYM)], [(D_F16, Q_NONE), (D_U4, Q_ASYM)],
     [(D_F16, Q_NONE), (D_I4, Q_ASYM)], [(D_F16, Q_NONE), (D_I4, Q_SYM)], [(D_BF16, Q_NONE), (D_U4, Q_ASYM)],
     [(D_BF16, Q_NONE), (D_I4, Q_ASYM)], [(D_BF16, Q_NONE), (D_I4, Q_SYM)], [(D_I32, Q_NONE), (D_I32, Q_NONE)]]"

definition SOFTMAX_types :: io_table where
  "SOFTMAX_types =
    [[(D_F32, Q_NONE), (D_F32, Q_NONE)], [(D_F32, Q_NONE), (D_F16, Q_NONE)], [(D_F16, Q_NONE), (D_F16, Q_NONE)],
     [(D_F16, Q_NONE), (D_F32, Q_NONE)], [(D_F16, Q_NONE), (D_I16, Q_DFP)], [(D_F16, Q_NONE), (D_I16, Q_ASYM)],
     [(D_F16, Q_NONE), (D_I16, Q_SYM)], [(D_F16, Q_NONE), (D_I8, Q_DFP)], [(D_F16, Q_NONE), (D_I8, Q_SYM)],
     [(D_F16, Q_NONE), (D_I8, Q_ASYM)], [(D_F16, Q_NONE), (D_U8, Q_ASYM)], [(D_BF16, Q_NONE), (D_BF16, Q_NONE)],
     [(D_BF16, Q_NONE), (D_F32, Q_NONE)], [(D_BF16, Q_NONE), (D_F16, Q_NONE)], [(D_U8, Q_ASYM), (D_U8, Q_ASYM)],
     [(D_U8, Q_ASYM), (D_F16, Q_NONE)], [(D_U8, Q_ASYM), (D_F32, Q_NONE)], [(D_I8, Q_ASYM), (D_I8, Q_ASYM)],
     [(D_I8, Q_SYM), (D_I8, Q_SYM)], [(D_I8, Q_ASYM), (D_F16, Q_NONE)], [(D_I8, Q_SYM), (D_F16, Q_NONE)],
     [(D_I8, Q_ASYM), (D_F32, Q_NONE)], [(D_I8, Q_SYM), (D_F32, Q_NONE)], [(D_I8, Q_DFP), (D_I8, Q_DFP)],
     [(D_I8, Q_DFP), (D_F16, Q_NONE)], [(D_I8, Q_DFP), (D_F32, Q_NONE)], [(D_I16, Q_ASYM), (D_I16, Q_ASYM)],
     [(D_I16, Q_SYM), (D_I16, Q_SYM)], [(D_I16, Q_ASYM), (D_F16, Q_NONE)], [(D_I16, Q_SYM), (D_F16, Q_NONE)],
     [(D_I16, Q_ASYM), (D_F32, Q_NONE)], [(D_I16, Q_SYM), (D_F32, Q_NONE)], [(D_I16, Q_DFP), (D_F32, Q_NONE)],
     [(D_I16, Q_DFP), (D_F16, Q_NONE)], [(D_I16, Q_DFP), (D_I16, Q_DFP)]]"

definition ARGMIN_types :: io_table where
  "ARGMIN_types =
    [[(D_F16, Q_NONE), (D_U8, Q_NONE)], [(D_F16, Q_NONE), (D_I16, Q_NONE)], [(D_BF16, Q_NONE), (D_U8, Q_NONE)],
     [(D_BF16, Q_NONE), (D_I16, Q_NONE)], [(D_I8, Q_DFP), (D_U8, Q_NONE)], [(D_I8, Q_DFP), (D_I16, Q_NONE)],
     [(D_U8, Q_ASYM), (D_U8, Q_NONE)], [(D_U8, Q_ASYM), (D_I16, Q_NONE)], [(D_I16, Q_DFP), (D_U8, Q_NONE)],
     [(D_I16, Q_DFP), (D_I16, Q_NONE)], [(D_F32, Q_NONE), (D_I32, Q_NONE)], [(D_F32, Q_NONE), (D_I16, Q_NONE)],
     [(D_F16, Q_NONE), (D_I32, Q_NONE)], [(D_I32, Q_NONE), (D_I32, Q_NONE)], [(D_I32, Q_NONE), (D_I16, Q_NONE)],
     [(D_I8, Q_DFP), (D_I32, Q_NONE)], [(D_U8, Q_ASYM), (D_I32, Q_NONE)], [(D_I8, Q_ASYM), (D_U8, Q_NONE)],
     [(D_I8, Q_ASYM), (D_I16, Q_NONE)], [(D_I8, Q_ASYM), (D_I32, Q_NONE)], [(D_I8, Q_SYM), (D_U8, Q_NONE)],
     [(D_I8, Q_SYM), (D_I16, Q_NONE)], [(D_I8, Q_SYM), (D_I32, Q_NONE)], [(D_I16, Q_ASYM), (D_U8, Q_NONE)],
     [(D_I16, Q_ASYM), (D_I16, Q_NONE)], [(D_I16, Q_ASYM), (D_I32, Q_NONE)], [(D_I16, Q_SYM), (D_U8, Q_NONE)],
     [(D_I16, Q_SYM), (D_I16, Q_NONE)], [(D_I16, Q_SYM), (D_I32, Q_NONE)]]"

definition AVG_POOL3D_types :: io_table where
  "AVG_POOL3D_types =
    [[(D_F32, Q_NONE), (D_F32, Q_NONE)], [(D_F16, Q_NONE), (D_F16, Q_NONE)], [(D_BF16, Q_NONE), (D_BF16, Q_NONE)],
     [(D_I16, Q_SYM), (D_I16, Q_SYM)], [(D_U8, Q_ASYM), (D_U8, Q_ASYM)], [(D_I8, Q_SYM), (D_I8, Q_SYM)],
     [(D_I16, Q_DFP), (D_I16, Q_DFP)], [(D_I8, Q_DFP), (D_I8, Q_DFP)], [(D_F32, Q_NONE), (D_I16, Q_SYM)],
     [(D_F16, Q_NONE), (D_I16, Q_SYM)], [(D_F32, Q_NONE), (D_I16, Q_DFP)], [(D_F16, Q_NONE), (D_I16, Q_DFP)],
     [(D_I16, Q_SYM), (D_F32, Q_NONE)], [(D_U8, Q_ASYM), (D_F32, Q_NONE)], [(D_I8, Q_SYM), (D_F32, Q_NONE)],
     [(D_I16, Q_DFP), (D_F32, Q_NONE)], [(D_I8, Q_DFP), (D_F32, Q_NONE)], [(D_F32, Q_NONE), (D_U8, Q_ASYM)],
     [(D_F16, Q_NONE), (D_U8, Q_ASYM)], [(D_I16, Q_SYM), (D_F16, Q_NONE)], [(D_U8, Q_ASYM), (D_F16, Q_NONE)],
     [(D_I8, Q_SYM), (D_F16, Q_NONE)], [(D_I16, Q_DFP), (D_F16, Q_NONE)], [(D_I8, Q_DFP), (D_F16, Q_NONE)],
     [(D_F32, Q_NONE), (D_I8, Q_SYM)], [(D_F16, Q_NONE), (D_I8, Q_SYM)], [(D_F32, Q_NONE), (D_I8, Q_DFP)],
     [(D_F16, Q_NONE), (D_I8, Q_DFP)]]"

definition BUCKETIZE_types :: io_table where
  "BUCKETIZE_types =
    [[(D_U32, Q_NONE), (D_U32, Q_NONE), (D_I32, Q_NONE)], [(D_I32, Q_NONE), (D_I32, Q_NONE), (D_I32, Q_NONE)],
     [(D_F32, Q_NONE), (D_F32, Q_NONE), (D_I32, Q_NONE)], [(D_F16, Q_NONE), (D_F16, Q_NONE), (D_I32, Q_NONE)],
     [(D_BF16, Q_NONE), (D_BF16, Q_NONE), (D_I32, Q_NONE)], [(D_I16, Q_ASYM), (D_I16, Q_ASYM), (D_I32, Q_NONE)],
     [(D_I16, Q_SYM), (D_I16, Q_SYM), (D_I32, Q_NONE)], [(D_I16, Q_DFP), (D_I16, Q_DFP), (D_I32, Q_NONE)],
     [(D_U8, Q_ASYM), (D_U8, Q_ASYM), (D_I32, Q_NONE)], [(D_I8, Q_ASYM), (D_I8, Q_ASYM), (D_I32, Q_NONE)],
     [(D_I8, Q_SYM), (D_I8, Q_SYM), (D_I32, Q_NONE)], [(D_I8, Q_DFP), (D_I8, Q_DFP), (D_I32, Q_NONE)]]"

definition CAST_types :: io_table where
  "CAST_types =
    [[(D_F32, Q_NONE), (D_F32, Q_NONE)], [(D_F32, Q_NONE), (D_I32, Q_NONE)], [(D_F32, Q_NONE), (D_U32, Q_NONE)],
     [(D_F32, Q_NONE), (D_F16, Q_NONE)], [(D_F32, Q_NONE), (D_BOOL8, Q_NONE)], [(D_I32, Q_NONE), (D_F32, Q_NONE)],
     [(D_I32, Q_NONE), (D_I32, Q_NONE)], [(D_I32, Q_NONE), (D_U32, Q_NONE)], [(D_I32, Q_NONE), (D_F16, Q_NONE)],
     [(D_I32, Q_NONE), (D_BOOL8, Q_NONE)], [(D_BOOL8, Q_NONE), (D_F32, Q_NONE)],
     [(D_BOOL8, Q_NONE), (D_I32, Q_NONE)], [(D_BOOL8, Q_NONE), (D_U32, Q_NONE)], [(D_U32, Q_NONE), (D_F32, Q_NONE)],
     [(D_U32, Q_NONE), (D_I32, Q_NONE)], [(D_U32, Q_NONE), (D_U32, Q_NONE)], [(D_U32, Q_NONE), (D_BOOL8, Q_NONE)],
     [(D_F16, Q_NONE), (D_I16, Q_DFP)], [(D_F16, Q_NONE), (D_I16, Q_ASYM)], [(D_F16, Q_NONE), (D_I16, Q_SYM)],
     [(D_F16, Q_NONE), (D_I8, Q_DFP)], [(D_F16, Q_NONE), (D_I8, Q_ASYM)], [(D_F16, Q_NONE), (D_I8, Q_SYM)],
     [(D_F16, Q_NONE), (D_U8, Q_ASYM)], [(D_F16, Q_NONE), (D_BOOL8, Q_NONE)], [(D_I16, Q_DFP), (D_F16, Q_NONE)],
     [(D_I16, Q_DFP), (D_I8, Q_DFP)], [(D_I16, Q_DFP), (D_U8, Q_ASYM)], [(D_I16, Q_DFP), (D_BOOL8, Q_NONE)],
     [(D_I16, Q_ASYM), (D_F16, Q_NONE)], [(D_I16, Q_ASYM), (D_I8, Q_DFP)], [(D_I16, Q_ASYM), (D_U8, Q_ASYM)],
     [(D_I16, Q_ASYM), (D_BOOL8, Q_NONE)], [(D_I16, Q_SYM), (D_F16, Q_NONE)], [(D_I16, Q_SYM), (D_I8, Q_DFP)],
     [(D_I16, Q_SYM), (D_U8, Q_ASYM)], [(D_I16, Q_SYM), (D_BOOL8, Q_NONE)], [(D_I16, Q_NONE), (D_F16, Q_NONE)],
     [(D_I16, Q_NONE), (D_I8, Q_DFP)], [(D_I16, Q_NONE), (D_U8, Q_ASYM)], [(D_I16, Q_NONE), (D_BOOL8, Q_NONE)],
     [(D_I16, Q_NONE), (D_I32, Q_NONE)], [(D_I16, Q_NONE), (D_U32, Q_NONE)], [(D_I16, Q_NONE), (D_F32, Q_NONE)],
     [(D_I8, Q_DFP), (D_F16, Q_NONE)], [(D_I8, Q_DFP), (D_I16, Q_DFP)], [(D_I8, Q_DFP), (D_U8, Q_ASYM)],
     [(D_I8, Q_DFP), (D_BOOL8, Q_NONE)], [(D_I8, Q_ASYM), (D_F16, Q_NONE)], [(D_I8, Q_ASYM), (D_I16, Q_DFP)],
     [(D_I8, Q_ASYM), (D_U8, Q_ASYM)], [(D_I8, Q_ASYM), (D_BOOL8, Q_NONE)], [(D_I8, Q_SYM), (D_F16, Q_NONE)],
     [(D_I8, Q_SYM), (D_I16, Q_DFP)], [(D_I8, Q_SYM), (D_U8, Q_ASYM)], [(D_I8, Q_SYM), (D_BOOL8, Q_NONE)],
     [(D_I8, Q_NONE), (D_F16, Q_NONE)], [(D_I8, Q_NONE), (D_I16, Q_DFP)], [(D_I8, Q_NONE), (D_U8, Q_ASYM)],
     [(D_I8, Q_NONE), (D_BOOL8, Q_NONE)], [(D_I8, Q_NONE), (D_I32, Q_NONE)], [(D_I8, Q_NONE), (D_U32, Q_NONE)],
     [(D_I8, Q_NONE), (D_F32, Q_NONE)], [(D_U8, Q_ASYM), (D_F16, Q_NONE)], [(D_U8, Q_ASYM), (D_I16, Q_DFP)],
     [(D_U8, Q_ASYM), (D_I8, Q_DFP)], [(D_U8, Q_ASYM), (D_BOOL8, Q_NONE)], [(D_U8, Q_NONE), (D_F16, Q_NONE)],
     [(D_U8, Q_NONE), (D_I16, Q_DFP)], [(D_U8, Q_NONE), (D_I8, Q_DFP)], [(D_U8, Q_NONE), (D_BOOL8, Q_NONE)],
     [(D_U8, Q_NONE), (D_I32, Q_NONE)], [(D_U8, Q_NONE), (D_U32, Q_NONE)], [(D_U8, Q_NONE), (D_F32, Q_NONE)],
     [(D_F32, Q_NONE), (D_I16, Q_DFP)], [(D_F32, Q_NONE), (D_I16, Q_ASYM)], [(D_F32, Q_NONE), (D_I16, Q_SYM)],
     [(D_F32, Q_NONE), (D_I8, Q_DFP)], [(D_F32, Q_NONE), (D_I8, Q_ASYM)], [(D_F32, Q_NONE), (D_I8, Q_SYM)],
     [(D_F32, Q_NONE), (D_U8, Q_ASYM)], [(D_I32, Q_NONE), (D_I16, Q_DFP)], [(D_I32, Q_NONE), (D_I16, Q_ASYM)],
     [(D_I32, Q_NONE), (D_I16, Q_SYM)], [(D_I32, Q_NONE), (D_I8, Q_DFP)], [(D_I32, Q_NONE), (D_I8, Q_ASYM)],
     [(D_I32, Q_NONE), (D_I8, Q_SYM)], [(D_I32, Q_NONE), (D_U8, Q_ASYM)], [(D_F16, Q_NONE), (D_F32, Q_NONE)],
     [(D_F16, Q_NONE), (D_I32, Q_NONE)], [(D_F16, Q_NONE), (D_I16, Q_NONE)], [(D_F16, Q_NONE), (D_U8, Q_NONE)],
     [(D_F16, Q_NONE), (D_I8, Q_NONE)], [(D_F16, Q_NONE), (D_F16, Q_NONE)], [(D_BOOL8, Q_NONE), (D_F16, Q_NONE)],
     [(D_BOOL8, Q_NONE), (D_I16, Q_DFP)], [(D_BOOL8, Q_NONE), (D_I16, Q_ASYM)], [(D_BOOL8, Q_NONE), (D_I16, Q_SYM)],
     [(D_BOOL8, Q_NONE), (D_I8, Q_DFP)], [(D_BOOL8, Q_NONE), (D_I8, Q_ASYM)], [(D_BOOL8, Q_NONE), (D_I8, Q_SYM)],
     [(D_BOOL8, Q_NONE), (D_U8, Q_ASYM)], [(D_BOOL8, Q_NONE), (D_BOOL8, Q_NONE)],
     [(D_BOOL8, Q_NONE), (D_I16, Q_NONE)], [(D_BOOL8, Q_NONE), (D_I8, Q_NONE)], [(D_BOOL8, Q_NONE), (D_U8, Q_NONE)],
     [(D_U8, Q_ASYM), (D_U8, Q_ASYM)], [(D_I8, Q_DFP), (D_I8, Q_DFP)], [(D_I8, Q_ASYM), (D_I8, Q_ASYM)],
     [(D_I8, Q_SYM), (D_I8, Q_SYM)], [(D_I16, Q_DFP), (D_I16, Q_DFP)], [(D_I16, Q_ASYM), (D_I16, Q_ASYM)],
     [(D_I16, Q_SYM), (D_I16, Q_SYM)], [(D_U8, Q_ASYM), (D_F32, Q_NONE)], [(D_U8, Q_ASYM), (D_I32, Q_NONE)],
     [(D_BF16, Q_NONE), (D_BF16, Q_NONE)]]"

definition CLIP_types :: io_table where
  "CLIP_types =
    [[(D_F16, Q_NONE), (D_U8, Q_ASYM)], [(D_F16, Q_NONE), (D_I16, Q_DFP)], [(D_F16, Q_NONE), (D_I16, Q_ASYM)],
     [(D_F16, Q_NONE), (D_I16, Q_SYM)], [(D_F16, Q_NONE), (D_I8, Q_DFP)], [(D_F16, Q_NONE), (D_I8, Q_ASYM)],
     [(D_F16, Q_NONE), (D_I8, Q_SYM)], [(D_F16, Q_NONE), (D_F16, Q_NONE)], [(D_F32, Q_NONE), (D_F32, Q_NONE)],
     [(D_I32, Q_NONE), (D_I32, Q_NONE)], [(D_U8, Q_ASYM), (D_F32, Q_NONE)], [(D_I8, Q_DFP), (D_F32, Q_NONE)],
     [(D_I8, Q_ASYM), (D_F32, Q_NONE)], [(D_I8, Q_SYM), (D_F32, Q_NONE)], [(D_I16, Q_DFP), (D_F32, Q_NONE)],
     [(D_I16, Q_ASYM), (D_F32, Q_NONE)], [(D_I16, Q_SYM), (D_F32, Q_NONE)], [(D_F32, Q_NONE), (D_U8, Q_ASYM)],
     [(D_F32, Q_NONE), (D_I16, Q_DFP)], [(D_F32, Q_NONE), (D_I16, Q_ASYM)], [(D_F32, Q_NONE), (D_I16, Q_SYM)],
     [(D_F32, Q_NONE), (D_I8, Q_DFP)], [(D_F32, Q_NONE), (D_I8, Q_ASYM)], [(D_F32, Q_NONE), (D_I8, Q_SYM)],
     [(D_U8, Q_ASYM), (D_U8, Q_ASYM)], [(D_U8, Q_ASYM), (D_F16, Q_NONE)], [(D_I8, Q_DFP), (D_I8, Q_DFP)],
     [(D_I8, Q_DFP), (D_F16, Q_NONE)], [(D_I8, Q_ASYM), (D_I8, Q_ASYM)], [(D_I8, Q_ASYM), (D_F16, Q_NONE)],
     [(D_I8, Q_SYM), (D_I8, Q_SYM)], [(D_I8, Q_SYM), (D_F16, Q_NONE)], [(D_I16, Q_DFP), (D_I16, Q_DFP)],
     [(D_I16, Q_DFP), (D_F16, Q_NONE)], [(D_I16, Q_ASYM), (D_I16, Q_ASYM)], [(D_I16, Q_ASYM), (D_F16, Q_NONE)],
     [(D_I16, Q_SYM), (D_I16, Q_SYM)], [(D_I16, Q_SYM), (D_F16, Q_NONE)], [(D_BF16, Q_NONE), (D_BF16, Q_NONE)],
     [(D_U4, Q_ASYM), (D_U4, Q_ASYM)], [(D_U4, Q_ASYM), (D_I4, Q_ASYM)], [(D_U4, Q_ASYM), (D_I4, Q_SYM)],
     [(D_U4, Q_SYM), (D_U4, Q_SYM)], [(D_I4, Q_ASYM), (D_I4, Q_ASYM)], [(D_I4, Q_ASYM), (D_U4, Q_ASYM)],
     [(D_I4, Q_SYM), (D_I4, Q_SYM)]]"

definition COL2IM_types :: io_table where
  "COL2IM_types =
    [[(D_F32, Q_NONE), (D_F32, Q_NONE)], [(D_F32, Q_NONE), (D_I32, Q_NONE)], [(D_F32, Q_NONE), (D_U32, Q_NONE)],
     [(D_F32, Q_NONE), (D_F16, Q_NONE)], [(D_I32, Q_NONE), (D_F32, Q_NONE)], [(D_I32, Q_NONE), (D_I32, Q_NONE)],
     [(D_I32, Q_NONE), (D_U32, Q_NONE)], [(D_I32, Q_NONE), (D_F16, Q_NONE)], [(D_U32, Q_NONE), (D_F32, Q_NONE)],
     [(D_U32, Q_NONE), (D_I32, Q_NONE)], [(D_U32, Q_NONE), (D_U32, Q_NONE)], [(D_F16, Q_NONE), (D_I16, Q_DFP)],
     [(D_F16, Q_NONE), (D_I16, Q_ASYM)], [(D_F16, Q_NONE), (D_I16, Q_SYM)], [(D_F16, Q_NONE), (D_I8, Q_DFP)],
     [(D_F16, Q_NONE), (D_I8, Q_ASYM)], [(D_F16, Q_NONE), (D_I8, Q_SYM)], [(D_F16, Q_NONE), (D_U8, Q_ASYM)],
     [(D_I16, Q_DFP), (D_F16, Q_NONE)], [(D_I16, Q_DFP), (D_I8, Q_DFP)], [(D_I16, Q_DFP), (D_U8, Q_ASYM)],
     [(D_I16, Q_ASYM), (D_F16, Q_NONE)], [(D_I16, Q_ASYM), (D_I8, Q_DFP)], [(D_I16, Q_ASYM), (D_U8, Q_ASYM)],
     [(D_I16, Q_SYM), (D_F16, Q_NONE)], [(D_I16, Q_SYM), (D_I8, Q_DFP)], [(D_I16, Q_SYM), (D_U8, Q_ASYM)],
     [(D_I16, Q_NONE), (D_F16, Q_NONE)], [(D_I16, Q_NONE), (D_I8, Q_DFP)], [(D_I16, Q_NONE), (D_U8, Q_ASYM)],
     [(D_I16, Q_NONE), (D_I32, Q_NONE)], [(D_I16, Q_NONE), (D_U32, Q_NONE)], [(D_I16, Q_NONE), (D_F32, Q_NONE)],
     [(D_I8, Q_DFP), (D_F16, Q_NONE)], [(D_I8, Q_DFP), (D_I16, Q_DFP)], [(D_I8, Q_DFP), (D_U8, Q_ASYM)],
     [(D_I8, Q_ASYM), (D_F16, Q_NONE)], [(D_I8, Q_ASYM), (D_I16, Q_DFP)], [(D_I8, Q_ASYM), (D_U8, Q_ASYM)],
     [(D_I8, Q_SYM), (D_F16, Q_NONE)], [(D_I8, Q_SYM), (D_I16, Q_DFP)], [(D_I8, Q_SYM), (D_U8, Q_ASYM)],
     [(D_I8, Q_NONE), (D_F16, Q_NONE)], [(D_I8, Q_NONE), (D_I16, Q_DFP)], [(D_I8, Q_NONE), (D_U8, Q_ASYM)],
     [(D_I8, Q_NONE), (D_I32, Q_NONE)], [(D_I8, Q_NONE), (D_U32, Q_NONE)], [(D_I8, Q_NONE), (D_F32, Q_NONE)],
     [(D_U8, Q_ASYM), (D_F16, Q_NONE)], [(D_U8, Q_ASYM), (D_I16, Q_DFP)], [(D_U8, Q_ASYM), (D_I8, Q_DFP)],
     [(D_U8, Q_NONE), (D_F16, Q_NONE)], [(D_U8, Q_NONE), (D_I16, Q_DFP)], [(D_U8, Q_NONE), (D_I8, Q_DFP)],
     [(D_U8, Q_NONE), (D_I32, Q_NONE)], [(D_U8, Q_NONE), (D_U32, Q_NONE)], [(D_U8, Q_NONE), (D_F32, Q_NONE)],
     [(D_F32, Q_NONE), (D_I16, Q_DFP)], [(D_F32, Q_NONE), (D_I16, Q_ASYM)], [(D_F32, Q_NONE), (D_I16, Q_SYM)],
     [(D_F32, Q_NONE), (D_I8, Q_DFP)], [(D_F32, Q_NONE), (D_I8, Q_ASYM)], [(D_F32, Q_NONE), (D_I8, Q_SYM)],
     [(D_F32, Q_NONE), (D_U8, Q_ASYM)], [(D_I32, Q_NONE), (D_I16, Q_DFP)], [(D_I32, Q_NONE), (D_I16, Q_ASYM)],
     [(D_I32, Q_NONE), (D_I16, Q_SYM)], [(D_I32, Q_NONE), (D_I8, Q_DFP)], [(D_I32, Q_NONE), (D_I8, Q_ASYM)],
     [(D_I32, Q_NONE), (D_I8, Q_SYM)], [(D_I32, Q_NONE), (D_U8, Q_ASYM)], [(D_F16, Q_NONE), (D_F32, Q_NONE)],
     [(D_F16, Q_NONE), (D_I32, Q_NONE)], [(D_F16, Q_NONE), (D_I16, Q_NONE)], [(D_F16, Q_NONE), (D_U8, Q_NONE)],
     [(D_F16, Q_NONE), (D_I8, Q_NONE)], [(D_F16, Q_NONE), (D_F16, Q_NONE)], [(D_U8, Q_ASYM), (D_U8, Q_ASYM)],
     [(D_I8, Q_DFP), (D_I8, Q_DFP)], [(D_I8, Q_ASYM), (D_I8, Q_ASYM)], [(D_I8, Q_SYM), (D_I8, Q_SYM)],
     [(D_I16, Q_DFP), (D_I16, Q_DFP)], [(D_I16, Q_ASYM), (D_I16, Q_ASYM)], [(D_I16, Q_SYM), (D_I16, Q_SYM)],
     [(D_U8, Q_ASYM), (D_F32, Q_NONE)], [(D_U8, Q_ASYM), (D_I32, Q_NONE)], [(D_BF16, Q_NONE), (D_BF16, Q_NONE)]]"

definition CROP_AND_RESIZE_types :: io_table where
  "CROP_AND_RESIZE_types =
    [[(D_U8, Q_ASYM), (D_F16, Q_NONE), (D_I32, Q_NONE), (D_U8, Q_ASYM)],
     [(D_U8, Q_ASYM), (D_F16, Q_NONE), (D_I32, Q_NONE), (D_F16, Q_NONE)],
     [(D_U8, Q_ASYM), (D_F16, Q_NONE), (D_I32, Q_NONE), (D_F32, Q_NONE)],
     [(D_F16, Q_NONE), (D_F16, Q_NONE), (D_I32, Q_NONE), (D_F16, Q_NONE)],
     [(D_F16, Q_NONE), (D_F16, Q_NONE), (D_I32, Q_NONE), (D_I8, Q_DFP)],
     [(D_F16, Q_NONE), (D_F16, Q_NONE), (D_I32, Q_NONE), (D_I8, Q_SYM)],
     [(D_F16, Q_NONE), (D_F16, Q_NONE), (D_I32, Q_NONE), (D_I8, Q_ASYM)],
     [(D_F16, Q_NONE), (D_F16, Q_NONE), (D_I32, Q_NONE), (D_U8, Q_ASYM)],
     [(D_F16, Q_NONE), (D_F16, Q_NONE), (D_I32, Q_NONE), (D_I16, Q_DFP)],
     [(D_F16, Q_NONE), (D_F16, Q_NONE), (D_I32, Q_NONE), (D_I16, Q_SYM)],
     [(D_F32, Q_NONE), (D_F16, Q_NONE), (D_I32, Q_NONE), (D_F32, Q_NONE)],
     [(D_F32, Q_NONE), (D_F16, Q_NONE), (D_I32, Q_NONE), (D_I8, Q_DFP)],
     [(D_F32, Q_NONE), (D_F16, Q_NONE), (D_I32, Q_NONE), (D_I8, Q_SYM)],
     [(D_F32, Q_NONE), (D_F16, Q_NONE), (D_I32, Q_NONE), (D_I8, Q_ASYM)],
     [(D_F32, Q_NONE), (D_F16, Q_NONE), (D_I32, Q_NONE), (D_U8, Q_ASYM)],
     [(D_F32, Q_NONE), (D_F16, Q_NONE), (D_I32, Q_NONE), (D_I16, Q_DFP)],
     [(D_F32, Q_NONE), (D_F16, Q_NONE), (D_I32, Q_NONE), (D_I16, Q_SYM)],
     [(D_I8, Q_DFP), (D_F16, Q_NONE), (D_I32, Q_NONE), (D_I8, Q_DFP)],
     [(D_I8, Q_SYM), (D_F16, Q_NONE), (D_I32, Q_NONE), (D_I8, Q_SYM)],
     [(D_I8, Q_SYM), (D_F16, Q_NONE), (D_I32, Q_NONE), (D_F16, Q_NONE)],
     [(D_I8, Q_ASYM), (D_F16, Q_NONE), (D_I32, Q_NONE), (D_I8, Q_ASYM)],
     [(D_I8, Q_ASYM), (D_F16, Q_NONE), (D_I32, Q_NONE), (D_F16, Q_NONE)],
     [(D_I8, Q_DFP), (D_F16, Q_NONE), (D_I32, Q_NONE), (D_F16, Q_NONE)],
     [(D_I8, Q_SYM), (D_F16, Q_NONE), (D_I32, Q_NONE), (D_F32, Q_NONE)],
     [(D_I8, Q_ASYM), (D_F16, Q_NONE), (D_I32, Q_NONE), (D_F32, Q_NONE)],
     [(D_I8, Q_DFP), (D_F16, Q_NONE), (D_I32, Q_NONE), (D_F32, Q_NONE)],
     [(D_I16, Q_DFP), (D_F16, Q_NONE), (D_I32, Q_NONE), (D_I16, Q_DFP)],
     [(D_I16, Q_SYM), (D_F16, Q_NONE), (D_I32, Q_NONE), (D_I16, Q_SYM)],
     [(D_I16, Q_DFP), (D_F16, Q_NONE), (D_I32, Q_NONE), (D_F16, Q_NONE)],
     [(D_I16, Q_DFP), (D_F16, Q_NONE), (D_I32, Q_NONE), (D_F32, Q_NONE)],
     [(D_I16, Q_SYM), (D_F16, Q_NONE), (D_I32, Q_NONE), (D_F16, Q_NONE)],
     [(D_I16, Q_SYM), (D_F16, Q_NONE), (D_I32, Q_NONE), (D_F32, Q_NONE)]]"

definition CUMSUM_types :: io_table where
  "CUMSUM_types =
    [[(D_U32, Q_NONE), (D_U32, Q_NONE)], [(D_I32, Q_NONE), (D_I32, Q_NONE)], [(D_F32, Q_NONE), (D_F32, Q_NONE)],
     [(D_F16, Q_NONE), (D_F16, Q_NONE)], [(D_BF16, Q_NONE), (D_BF16, Q_NONE)], [(D_U8, Q_ASYM), (D_U8, Q_ASYM)],
     [(D_I8, Q_DFP), (D_I8, Q_DFP)], [(D_I8, Q_ASYM), (D_I8, Q_ASYM)], [(D_I8, Q_SYM), (D_I8, Q_SYM)],
     [(D_I16, Q_DFP), (D_I16, Q_DFP)], [(D_I16, Q_ASYM), (D_I16, Q_ASYM)], [(D_I16, Q_SYM), (D_I16, Q_SYM)],
     [(D_F16, Q_NONE), (D_U8, Q_ASYM)], [(D_F16, Q_NONE), (D_I8, Q_DFP)], [(D_F16, Q_NONE), (D_I8, Q_ASYM)],
     [(D_F16, Q_NONE), (D_I8, Q_SYM)], [(D_F16, Q_NONE), (D_I16, Q_DFP)], [(D_F16, Q_NONE), (D_I16, Q_ASYM)],
     [(D_F16, Q_NONE), (D_I16, Q_SYM)]]"

definition ELTWISE_UNARY_types :: io_table where
  "ELTWISE_UNARY_types =
    [[(D_I32, Q_NONE), (D_I32, Q_NONE)], [(D_F32, Q_NONE), (D_F32, Q_NONE)], [(D_F32, Q_NONE), (D_F16, Q_NONE)],
     [(D_F32, Q_NONE), (D_BF16, Q_NONE)], [(D_F16, Q_NONE), (D_F32, Q_NONE)], [(D_F16, Q_NONE), (D_F16, Q_NONE)],
     [(D_F16, Q_NONE), (D_U8, Q_ASYM)], [(D_F16, Q_NONE), (D_I8, Q_DFP)], [(D_F16, Q_NONE), (D_I8, Q_ASYM)],
     [(D_F16, Q_NONE), (D_I8, Q_SYM)], [(D_F16, Q_NONE), (D_I16, Q_DFP)], [(D_BF16, Q_NONE), (D_BF16, Q_NONE)],
     [(D_BF16, Q_NONE), (D_F32, Q_NONE)], [(D_U8, Q_ASYM), (D_U8, Q_ASYM)], [(D_U8, Q_ASYM), (D_F16, Q_NONE)],
     [(D_I8, Q_ASYM), (D_I8, Q_ASYM)], [(D_I8, Q_ASYM), (D_F16, Q_NONE)], [(D_I8, Q_SYM), (D_I8, Q_ASYM)],
     [(D_I8, Q_SYM), (D_F16, Q_NONE)], [(D_I8, Q_DFP), (D_I8, Q_DFP)], [(D_I8, Q_DFP), (D_F16, Q_NONE)],
     [(D_I16, Q_DFP), (D_I16, Q_DFP)], [(D_I16, Q_DFP), (D_F16, Q_NONE)], [(D_U4, Q_ASYM), (D_U4, Q_ASYM)],
     [(D_U4, Q_SYM), (D_U4, Q_SYM)], [(D_I4, Q_ASYM), (D_I4, Q_ASYM)], [(D_I4, Q_SYM), (D_I4, Q_SYM)]]"

definition ERF_types :: io_table where
  "ERF_types =
    [[(D_F32, Q_NONE), (D_F32, Q_NONE)], [(D_F32, Q_NONE), (D_F16, Q_NONE)], [(D_F32, Q_NONE), (D_BF16, Q_NONE)],
     [(D_F16, Q_NONE), (D_F32, Q_NONE)], [(D_F16, Q_NONE), (D_F16, Q_NONE)], [(D_F16, Q_NONE), (D_U8, Q_ASYM)],
     [(D_F16, Q_NONE), (D_I8, Q_DFP)], [(D_F16, Q_NONE), (D_I8, Q_ASYM)], [(D_F16, Q_NONE), (D_I8, Q_SYM)],
     [(D_F16, Q_NONE), (D_I16, Q_DFP)], [(D_BF16, Q_NONE), (D_BF16, Q_NONE)], [(D_BF16, Q_NONE), (D_F32, Q_NONE)],
     [(D_U8, Q_ASYM), (D_U8, Q_ASYM)], [(D_U8, Q_ASYM), (D_F16, Q_NONE)], [(D_I8, Q_ASYM), (D_I8, Q_ASYM)],
     [(D_I8, Q_ASYM), (D_F16, Q_NONE)], [(D_I8, Q_SYM), (D_I8, Q_SYM)], [(D_I8, Q_SYM), (D_F16, Q_NONE)],
     [(D_I8, Q_DFP), (D_I8, Q_DFP)], [(D_I8, Q_DFP), (D_F16, Q_NONE)], [(D_I16, Q_DFP), (D_I16, Q_DFP)],
     [(D_I16, Q_DFP), (D_F16, Q_NONE)], [(D_U4, Q_ASYM), (D_U4, Q_ASYM)], [(D_U4, Q_SYM), (D_U4, Q_SYM)],
     [(D_I4, Q_ASYM), (D_I4, Q_ASYM)], [(D_I4, Q_SYM), (D_I4, Q_SYM)]]"

definition EXPAND_BROADCAST_types :: io_table where
  "EXPAND_BROADCAST_types =
    [[(D_BF16, Q_NONE), (D_BF16, Q_NONE)], [(D_F32, Q_NONE), (D_F32, Q_NONE)], [(D_F32, Q_NONE), (D_F16, Q_NONE)],
     [(D_F16, Q_NONE), (D_F32, Q_NONE)], [(D_F16, Q_NONE), (D_F16, Q_NONE)], [(D_F16, Q_NONE), (D_I16, Q_DFP)],
     [(D_F16, Q_NONE), (D_I16, Q_ASYM)], [(D_F16, Q_NONE), (D_I16, Q_SYM)], [(D_F16, Q_NONE), (D_I8, Q_DFP)],
     [(D_F16, Q_NONE), (D_I8, Q_ASYM)], [(D_F16, Q_NONE), (D_I8, Q_SYM)], [(D_F16, Q_NONE), (D_U8, Q_ASYM)],
     [(D_I16, Q_DFP), (D_F16, Q_NONE)], [(D_I16, Q_ASYM), (D_F16, Q_NONE)], [(D_I16, Q_SYM), (D_F16, Q_NONE)],
     [(D_I16, Q_DFP), (D_I16, Q_DFP)], [(D_I16, Q_ASYM), (D_I16, Q_ASYM)], [(D_I16, Q_SYM), (D_I16, Q_SYM)],
     [(D_I16, Q_DFP), (D_U8, Q_ASYM)], [(D_I8, Q_DFP), (D_F16, Q_NONE)], [(D_I8, Q_ASYM), (D_F16, Q_NONE)],
     [(D_I8, Q_SYM), (D_F16, Q_NONE)], [(D_I8, Q_DFP), (D_I8, Q_DFP)], [(D_I8, Q_ASYM), (D_I8, Q_ASYM)],
     [(D_I8, Q_SYM), (D_I8, Q_SYM)], [(D_U8, Q_ASYM), (D_F16, Q_NONE)], [(D_U8, Q_ASYM), (D_U8, Q_ASYM)],
     [(D_F32, Q_NONE), (D_BF16, Q_NONE)], [(D_BF16, Q_NONE), (D_F32, Q_NONE)], [(D_I32, Q_DFP), (D_I32, Q_DFP)],
     [(D_I32, Q_ASYM), (D_I32, Q_ASYM)], [(D_BOOL8, Q_NONE), (D_BOOL8, Q_NONE)]]"

definition EXTRA_ENDING_types :: io_table where
  "EXTRA_ENDING_types =
    [[(D_F16, Q_NONE), (D_F16, Q_NONE)], [(D_F16, Q_NONE), (D_U8, Q_ASYM)], [(D_F16, Q_NONE), (D_I16, Q_DFP)],
     [(D_F16, Q_NONE), (D_I8, Q_DFP)], [(D_U8, Q_ASYM), (D_F16, Q_NONE)], [(D_U8, Q_ASYM), (D_U8, Q_ASYM)],
     [(D_U8, Q_ASYM), (D_I16, Q_DFP)], [(D_U8, Q_ASYM), (D_I8, Q_DFP)], [(D_I16, Q_DFP), (D_F16, Q_NONE)],
     [(D_I16, Q_DFP), (D_U8, Q_ASYM)], [(D_I16, Q_DFP), (D_I16, Q_DFP)], [(D_I16, Q_DFP), (D_I8, Q_DFP)],
     [(D_I8, Q_DFP), (D_F16, Q_NONE)], [(D_I8, Q_DFP), (D_U8, Q_ASYM)], [(D_I8, Q_DFP), (D_I16, Q_DFP)],
     [(D_I8, Q_DFP), (D_I8, Q_DFP)]]"

definition FLOOR_types :: io_table where
  "FLOOR_types =
    [[(D_BF16, Q_NONE), (D_BF16, Q_NONE)], [(D_F32, Q_NONE), (D_F32, Q_NONE)], [(D_F32, Q_NONE), (D_F16, Q_NONE)],
     [(D_F16, Q_NONE), (D_F32, Q_NONE)], [(D_F16, Q_NONE), (D_F16, Q_NONE)], [(D_F16, Q_NONE), (D_U8, Q_ASYM)],
     [(D_F16, Q_NONE), (D_I16, Q_DFP)], [(D_F16, Q_NONE), (D_I16, Q_ASYM)], [(D_F16, Q_NONE), (D_I16, Q_SYM)],
     [(D_F16, Q_NONE), (D_I8, Q_DFP)], [(D_F16, Q_NONE), (D_I8, Q_ASYM)], [(D_F16, Q_NONE), (D_I8, Q_SYM)],
     [(D_U8, Q_ASYM), (D_F16, Q_NONE)], [(D_U8, Q_ASYM), (D_U8, Q_ASYM)], [(D_I16, Q_DFP), (D_F16, Q_NONE)],
     [(D_I16, Q_ASYM), (D_F16, Q_NONE)], [(D_I16, Q_SYM), (D_F16, Q_NONE)], [(D_I16, Q_DFP), (D_I16, Q_DFP)],
     [(D_I16, Q_ASYM), (D_I16, Q_ASYM)], [(D_I16, Q_SYM), (D_I16, Q_SYM)], [(D_I8, Q_DFP), (D_F16, Q_NONE)],
     [(D_I8, Q_ASYM), (D_F16, Q_NONE)], [(D_I8, Q_SYM), (D_F16, Q_NONE)], [(D_I8, Q_DFP), (D_I8, Q_DFP)],
     [(D_I8, Q_ASYM), (D_I8, Q_ASYM)], [(D_I8, Q_SYM), (D_I8, Q_SYM)]]"

definition FLOORDIV_types :: io_table where
  "FLOORDIV_types =
    [[(D_F16, Q_NONE), (D_F16, Q_NONE), (D_U8, Q_ASYM)], [(D_F16, Q_NONE), (D_F16, Q_NONE), (D_I16, Q_DFP)],
     [(D_F16, Q_NONE), (D_F16, Q_NONE), (D_I8, Q_DFP)], [(D_F16, Q_NONE), (D_F16, Q_NONE), (D_F16, Q_NONE)],
     [(D_F32, Q_NONE), (D_F32, Q_NONE), (D_F32, Q_NONE)], [(D_I32, Q_NONE), (D_I32, Q_NONE), (D_I32, Q_NONE)],
     [(D_I32, Q_NONE), (D_I32, Q_NONE), (D_U8, Q_ASYM)], [(D_BF16, Q_NONE), (D_BF16, Q_NONE), (D_BF16, Q_NONE)],
     [(D_U8, Q_ASYM), (D_U8, Q_ASYM), (D_U8, Q_ASYM)], [(D_U8, Q_ASYM), (D_U8, Q_ASYM), (D_F16, Q_NONE)],
     [(D_I8, Q_DFP), (D_I8, Q_DFP), (D_I8, Q_DFP)], [(D_I8, Q_DFP), (D_I8, Q_DFP), (D_F16, Q_NONE)],
     [(D_I16, Q_DFP), (D_I16, Q_DFP), (D_I16, Q_DFP)], [(D_I16, Q_DFP), (D_I16, Q_DFP), (D_F16, Q_NONE)],
     [(D_U8, Q_ASYM), (D_I32, Q_NONE), (D_U8, Q_ASYM)], [(D_I16, Q_DFP), (D_I32, Q_NONE), (D_U8, Q_ASYM)],
     [(D_I32, Q_NONE), (D_I16, Q_DFP), (D_U8, Q_ASYM)], [(D_I16, Q_DFP), (D_I16, Q_DFP), (D_U8, Q_ASYM)],
     [(D_I16, Q_NONE), (D_I32, Q_NONE), (D_I32, Q_NONE)], [(D_I8, Q_DFP), (D_I32, Q_NONE), (D_I8, Q_DFP)],
     [(D_I32, Q_NONE), (D_I32, Q_NONE), (D_I8, Q_DFP)], [(D_I32, Q_NONE), (D_I8, Q_DFP), (D_I8, Q_DFP)],
     [(D_I16, Q_DFP), (D_I32, Q_NONE), (D_I16, Q_DFP)], [(D_I32, Q_NONE), (D_I16, Q_DFP), (D_I16, Q_DFP)],
     [(D_I32, Q_NONE), (D_I32, Q_NONE), (D_I16, Q_DFP)], [(D_F16, Q_NONE), (D_F16, Q_NONE), (D_I8, Q_ASYM)],
     [(D_I8, Q_ASYM), (D_I8, Q_ASYM), (D_I8, Q_ASYM)], [(D_I8, Q_ASYM), (D_I8, Q_ASYM), (D_F16, Q_NONE)],
     [(D_F16, Q_NONE), (D_F16, Q_NONE), (D_I8, Q_SYM)], [(D_I8, Q_SYM), (D_I8, Q_SYM), (D_I8, Q_SYM)],
     [(D_I8, Q_SYM), (D_I8, Q_SYM), (D_F16, Q_NONE)], [(D_I8, Q_ASYM), (D_I32, Q_NONE), (D_I8, Q_ASYM)],
     [(D_I32, Q_NONE), (D_I8, Q_ASYM), (D_I8, Q_ASYM)], [(D_I32, Q_NONE), (D_I32, Q_NONE), (D_I8, Q_ASYM)],
     [(D_I8, Q_SYM), (D_I32, Q_NONE), (D_I8, Q_SYM)], [(D_I32, Q_NONE), (D_I8, Q_SYM), (D_I8, Q_SYM)],
     [(D_I32, Q_NONE), (D_I32, Q_NONE), (D_I8, Q_SYM)], [(D_F16, Q_NONE), (D_F16, Q_NONE), (D_I16, Q_ASYM)],
     [(D_I16, Q_ASYM), (D_I16, Q_ASYM), (D_I16, Q_ASYM)], [(D_I16, Q_ASYM), (D_I16, Q_ASYM), (D_F16, Q_NONE)],
     [(D_F16, Q_NONE), (D_F16, Q_NONE), (D_I16, Q_SYM)], [(D_I16, Q_SYM), (D_I16, Q_SYM), (D_I16, Q_SYM)],
     [(D_I16, Q_SYM), (D_I16, Q_SYM), (D_F16, Q_NONE)], [(D_I16, Q_ASYM), (D_I32, Q_NONE), (D_I16, Q_ASYM)],
     [(D_I32, Q_NONE), (D_I16, Q_ASYM), (D_I16, Q_ASYM)], [(D_I32, Q_NONE), (D_I32, Q_NONE), (D_I16, Q_ASYM)],
     [(D_I16, Q_SYM), (D_I32, Q_NONE), (D_I16, Q_SYM)], [(D_I32, Q_NONE), (D_I16, Q_SYM), (D_I16, Q_SYM)],
     [(D_I32, Q_NONE), (D_I32, Q_NONE), (D_I16, Q_SYM)]]"

definition GLOBALLPPOOL_types :: io_table where
  "GLOBALLPPOOL_types =
    [[(D_F32, Q_NONE), (D_F32, Q_NONE)], [(D_F16, Q_NONE), (D_F16, Q_NONE)], [(D_BF16, Q_NONE), (D_BF16, Q_NONE)],
     [(D_I16, Q_SYM), (D_I16, Q_SYM)], [(D_U8, Q_ASYM), (D_U8, Q_ASYM)], [(D_I8, Q_SYM), (D_I8, Q_SYM)],
     [(D_I16, Q_DFP), (D_I16, Q_DFP)], [(D_I8, Q_DFP), (D_I8, Q_DFP)], [(D_F32, Q_NONE), (D_I16, Q_SYM)],
     [(D_F16, Q_NONE), (D_I16, Q_SYM)], [(D_F32, Q_NONE), (D_I16, Q_DFP)], [(D_F16, Q_NONE), (D_I16, Q_DFP)],
     [(D_I16, Q_SYM), (D_F32, Q_NONE)], [(D_U8, Q_ASYM), (D_F32, Q_NONE)], [(D_I8, Q_SYM), (D_F32, Q_NONE)],
     [(D_I16, Q_DFP), (D_F32, Q_NONE)], [(D_I8, Q_DFP), (D_F32, Q_NONE)], [(D_F32, Q_NONE), (D_U8, Q_ASYM)],
     [(D_F16, Q_NONE), (D_U8, Q_ASYM)], [(D_I16, Q_SYM), (D_F16, Q_NONE)], [(D_U8, Q_ASYM), (D_F16, Q_NONE)],
     [(D_I8, Q_SYM), (D_F16, Q_NONE)], [(D_I16, Q_DFP), (D_F16, Q_NONE)], [(D_I8, Q_DFP), (D_F16, Q_NONE)],
     [(D_F32, Q_NONE), (D_I8, Q_SYM)], [(D_F16, Q_NONE), (D_I8, Q_SYM)], [(D_F32, Q_NONE), (D_I8, Q_DFP)],
     [(D_F16, Q_NONE), (D_I8, Q_DFP)]]"

definition HASHTABLE_LOOKUP_types :: io_table where
  "HASHTABLE_LOOKUP_types =
    [[(D_I32, Q_NONE), (D_I32, Q_NONE), (D_F16, Q_NONE), (D_U8, Q_ASYM), (D_F16, Q_NONE)],
     [(D_I32, Q_NONE), (D_I32, Q_NONE), (D_I32, Q_NONE), (D_U8, Q_ASYM), (D_I32, Q_NONE)],
     [(D_I32, Q_NONE), (D_I32, Q_NONE), (D_F32, Q_NONE), (D_U8, Q_ASYM), (D_F32, Q_NONE)],
     [(D_I32, Q_NONE), (D_I32, Q_NONE), (D_U8, Q_ASYM), (D_U8, Q_ASYM), (D_U8, Q_ASYM)],
     [(D_I32, Q_NONE), (D_I32, Q_NONE), (D_F16, Q_NONE), (D_F16, Q_NONE), (D_F16, Q_NONE)],
     [(D_I32, Q_NONE), (D_I32, Q_NONE), (D_F16, Q_NONE), (D_F16, Q_NONE), (D_U8, Q_ASYM)],
     [(D_I32, Q_NONE), (D_I32, Q_NONE), (D_I32, Q_NONE), (D_F16, Q_NONE), (D_I32, Q_NONE)],
     [(D_I32, Q_NONE), (D_I32, Q_NONE), (D_F32, Q_NONE), (D_F16, Q_NONE), (D_F32, Q_NONE)],
     [(D_I32, Q_NONE), (D_I32, Q_NONE), (D_U8, Q_ASYM), (D_F16, Q_NONE), (D_U8, Q_ASYM)],
     [(D_I32, Q_NONE), (D_I32, Q_NONE), (D_F32, Q_NONE), (D_F32, Q_NONE), (D_U8, Q_ASYM)]]"

definition L2NORMALIZESCALE_types :: io_table where
  "L2NORMALIZESCALE_types =
    [[(D_F16, Q_NONE), (D_F16, Q_NONE), (D_F16, Q_NONE)], [(D_F16, Q_NONE), (D_F32, Q_NONE), (D_F16, Q_NONE)],
     [(D_BF16, Q_NONE), (D_BF16, Q_NONE), (D_BF16, Q_NONE)], [(D_BF16, Q_NONE), (D_F32, Q_NONE), (D_BF16, Q_NONE)],
     [(D_I8, Q_DFP), (D_F16, Q_NONE), (D_I8, Q_DFP)], [(D_I8, Q_DFP), (D_F16, Q_NONE), (D_F16, Q_NONE)],
     [(D_I8, Q_DFP), (D_F32, Q_NONE), (D_I8, Q_DFP)], [(D_I8, Q_DFP), (D_F32, Q_NONE), (D_F16, Q_NONE)],
     [(D_U8, Q_ASYM), (D_F16, Q_NONE), (D_U8, Q_ASYM)], [(D_U8, Q_ASYM), (D_F16, Q_NONE), (D_F16, Q_NONE)],
     [(D_I16, Q_DFP), (D_F16, Q_NONE), (D_I16, Q_DFP)], [(D_I16, Q_DFP), (D_F16, Q_NONE), (D_F16, Q_NONE)],
     [(D_I16, Q_DFP), (D_F32, Q_NONE), (D_I16, Q_DFP)], [(D_I16, Q_DFP), (D_F32, Q_NONE), (D_F16, Q_NONE)],
     [(D_F32, Q_NONE), (D_F32, Q_NONE), (D_F32, Q_NONE)], [(D_U8, Q_ASYM), (D_F32, Q_NONE), (D_U8, Q_ASYM)],
     [(D_I8, Q_ASYM), (D_F16, Q_NONE), (D_I8, Q_ASYM)], [(D_I8, Q_ASYM), (D_F16, Q_NONE), (D_F16, Q_NONE)],
     [(D_I8, Q_ASYM), (D_F32, Q_NONE), (D_I8, Q_ASYM)], [(D_I8, Q_ASYM), (D_F32, Q_NONE), (D_F16, Q_NONE)],
     [(D_I8, Q_SYM), (D_F16, Q_NONE), (D_I8, Q_SYM)], [(D_I8, Q_SYM), (D_F16, Q_NONE), (D_F16, Q_NONE)],
     [(D_I8, Q_SYM), (D_F32, Q_NONE), (D_I8, Q_SYM)], [(D_I8, Q_SYM), (D_F32, Q_NONE), (D_F16, Q_NONE)],
     [(D_I16, Q_ASYM), (D_F16, Q_NONE), (D_I16, Q_ASYM)], [(D_I16, Q_ASYM), (D_F16, Q_NONE), (D_F16, Q_NONE)],
     [(D_I16, Q_ASYM), (D_F32, Q_NONE), (D_I16, Q_ASYM)], [(D_I16, Q_ASYM), (D_F32, Q_NONE), (D_F16, Q_NONE)],
     [(D_I16, Q_SYM), (D_F16, Q_NONE), (D_I16, Q_SYM)], [(D_I16, Q_SYM), (D_F16, Q_NONE), (D_F16, Q_NONE)],
     [(D_I16, Q_SYM), (D_F32, Q_NONE), (D_I16, Q_SYM)], [(D_I16, Q_SYM), (D_F32, Q_NONE), (D_F16, Q_NONE)]]"

definition LOG_SOFTMAX_types :: io_table where
  "LOG_SOFTMAX_types =
    [[(D_F16, Q_NONE), (D_U8, Q_ASYM)], [(D_F16, Q_NONE), (D_I16, Q_DFP)], [(D_F16, Q_NONE), (D_I16, Q_ASYM)],
     [(D_F16, Q_NONE), (D_I16, Q_SYM)], [(D_F16, Q_NONE), (D_I8, Q_DFP)], [(D_F16, Q_NONE), (D_I8, Q_ASYM)],
     [(D_F16, Q_NONE), (D_I8, Q_SYM)], [(D_F16, Q_NONE), (D_F16, Q_NONE)], [(D_F32, Q_NONE), (D_F32, Q_NONE)],
     [(D_BF16, Q_NONE), (D_F16, Q_NONE)], [(D_BF16, Q_NONE), (D_F32, Q_NONE)], [(D_BF16, Q_NONE), (D_BF16, Q_NONE)],
     [(D_U8, Q_ASYM), (D_U8, Q_ASYM)], [(D_U8, Q_ASYM), (D_F16, Q_NONE)], [(D_I8, Q_DFP), (D_I8, Q_DFP)],
     [(D_I8, Q_ASYM), (D_I8, Q_ASYM)], [(D_I8, Q_SYM), (D_I8, Q_SYM)], [(D_I8, Q_DFP), (D_F16, Q_NONE)],
     [(D_I8, Q_ASYM), (D_F16, Q_NONE)], [(D_I8, Q_SYM), (D_F16, Q_NONE)], [(D_I16, Q_DFP), (D_I16, Q_DFP)],
     [(D_I16, Q_ASYM), (D_I16, Q_ASYM)], [(D_I16, Q_SYM), (D_I16, Q_SYM)], [(D_I16, Q_DFP), (D_F16, Q_NONE)],
     [(D_I16, Q_ASYM), (D_F16, Q_NONE)], [(D_I16, Q_SYM), (D_F16, Q_NONE)]]"

definition LOGICAL_NOT_types :: io_table where
  "LOGICAL_NOT_types =
    [[(D_I8, Q_NONE), (D_I8, Q_NONE)], [(D_BOOL8, Q_NONE), (D_BOOL8, Q_NONE)]]"

definition LOGICAL_OPS_types :: io_table where
  "LOGICAL_OPS_types =
    [[(D_I8, Q_NONE), (D_I8, Q_NONE), (D_I8, Q_NONE)], [(D_BOOL8, Q_NONE), (D_BOOL8, Q_NONE), (D_BOOL8, Q_NONE)],
     [(D_BF16, Q_NONE), (D_BF16, Q_NONE), (D_BOOL8, Q_NONE)]]"

definition LPNORM_types :: io_table where
  "LPNORM_types =
    [[(D_F32, Q_NONE), (D_F32, Q_NONE)], [(D_F16, Q_NONE), (D_F16, Q_NONE)], [(D_I16, Q_SYM), (D_I16, Q_SYM)],
     [(D_U8, Q_ASYM), (D_U8, Q_ASYM)], [(D_I8, Q_SYM), (D_I8, Q_SYM)], [(D_I16, Q_DFP), (D_I16, Q_DFP)],
     [(D_I8, Q_DFP), (D_I8, Q_DFP)], [(D_F32, Q_NONE), (D_I16, Q_SYM)], [(D_F16, Q_NONE), (D_I16, Q_SYM)],
     [(D_F32, Q_NONE), (D_I16, Q_DFP)], [(D_F16, Q_NONE), (D_I16, Q_DFP)], [(D_I16, Q_SYM), (D_F32, Q_NONE)],
     [(D_U8, Q_ASYM), (D_F32, Q_NONE)], [(D_I8, Q_SYM), (D_F32, Q_NONE)], [(D_I16, Q_DFP), (D_F32, Q_NONE)],
     [(D_I8, Q_DFP), (D_F32, Q_NONE)], [(D_F32, Q_NONE), (D_U8, Q_ASYM)], [(D_F16, Q_NONE), (D_U8, Q_ASYM)],
     [(D_I16, Q_SYM), (D_F16, Q_NONE)], [(D_U8, Q_ASYM), (D_F16, Q_NONE)], [(D_I8, Q_SYM), (D_F16, Q_NONE)],
     [(D_I16, Q_DFP), (D_F16, Q_NONE)], [(D_I8, Q_DFP), (D_F16, Q_NONE)], [(D_F32, Q_NONE), (D_I8, Q_SYM)],
     [(D_F16, Q_NONE), (D_I8, Q_SYM)], [(D_F32, Q_NONE), (D_I8, Q_DFP)], [(D_F16, Q_NONE), (D_I8, Q_DFP)]]"

definition LPPOOL_types :: io_table where
  "LPPOOL_types =
    [[(D_F32, Q_NONE), (D_F32, Q_NONE)], [(D_F16, Q_NONE), (D_F16, Q_NONE)], [(D_BF16, Q_NONE), (D_BF16, Q_NONE)],
     [(D_I16, Q_SYM), (D_I16, Q_SYM)], [(D_U8, Q_ASYM), (D_U8, Q_ASYM)], [(D_I8, Q_SYM), (D_I8, Q_SYM)],
     [(D_I16, Q_DFP), (D_I16, Q_DFP)], [(D_I8, Q_DFP), (D_I8, Q_DFP)], [(D_F32, Q_NONE), (D_I16, Q_SYM)],
     [(D_F16, Q_NONE), (D_I16, Q_SYM)], [(D_F32, Q_NONE), (D_I16, Q_DFP)], [(D_F16, Q_NONE), (D_I16, Q_DFP)],
     [(D_I16, Q_SYM), (D_F32, Q_NONE)], [(D_U8, Q_ASYM), (D_F32, Q_NONE)], [(D_I8, Q_SYM), (D_F32, Q_NONE)],
     [(D_I16, Q_DFP), (D_F32, Q_NONE)], [(D_I8, Q_DFP), (D_F32, Q_NONE)], [(D_F32, Q_NONE), (D_U8, Q_ASYM)],
     [(D_F16, Q_NONE), (D_U8, Q_ASYM)], [(D_I16, Q_SYM), (D_F16, Q_NONE)], [(D_U8, Q_ASYM), (D_F16, Q_NONE)],
     [(D_I8, Q_SYM), (D_F16, Q_NONE)], [(D_I16, Q_DFP), (D_F16, Q_NONE)], [(D_I8, Q_DFP), (D_F16, Q_NONE)],
     [(D_F32, Q_NONE), (D_I8, Q_SYM)], [(D_F16, Q_NONE), (D_I8, Q_SYM)], [(D_F32, Q_NONE), (D_I8, Q_DFP)],
     [(D_F16, Q_NONE), (D_I8, Q_DFP)]]"

definition LRN_types :: io_table where
  "LRN_types =
    [[(D_BF16, Q_NONE), (D_BF16, Q_NONE)], [(D_BF16, Q_NONE), (D_F32, Q_NONE)], [(D_F32, Q_NONE), (D_F32, Q_NONE)],
     [(D_F32, Q_NONE), (D_BF16, Q_NONE)], [(D_F16, Q_NONE), (D_F16, Q_NONE)], [(D_F16, Q_NONE), (D_I8, Q_DFP)],
     [(D_U8, Q_ASYM), (D_U8, Q_ASYM)], [(D_U8, Q_ASYM), (D_F16, Q_NONE)], [(D_I16, Q_DFP), (D_I16, Q_DFP)],
     [(D_I16, Q_DFP), (D_F16, Q_NONE)], [(D_I8, Q_DFP), (D_I8, Q_DFP)], [(D_I8, Q_DFP), (D_F16, Q_NONE)]]"

definition MAXPOOLWITHARGMAX_types :: io_table where
  "MAXPOOLWITHARGMAX_types =
    [[(D_I32, Q_NONE), (D_I32, Q_NONE), (D_I32, Q_NONE)], [(D_F32, Q_NONE), (D_F32, Q_NONE), (D_I32, Q_NONE)],
     [(D_F16, Q_NONE), (D_F16, Q_NONE), (D_I32, Q_NONE)], [(D_BF16, Q_NONE), (D_BF16, Q_NONE), (D_I32, Q_NONE)],
     [(D_I16, Q_DFP), (D_I16, Q_DFP), (D_I32, Q_NONE)], [(D_U8, Q_ASYM), (D_U8, Q_ASYM), (D_I32, Q_NONE)],
     [(D_I8, Q_DFP), (D_I8, Q_DFP), (D_I32, Q_NONE)]]"

definition MAXUNPOOL_types :: io_table where
  "MAXUNPOOL_types =
    [[(D_F32, Q_NONE), (D_I32, Q_NONE), (D_F32, Q_NONE)], [(D_F16, Q_NONE), (D_I32, Q_NONE), (D_F16, Q_NONE)],
     [(D_BF16, Q_NONE), (D_I32, Q_NONE), (D_BF16, Q_NONE)], [(D_I16, Q_SYM), (D_I32, Q_NONE), (D_I16, Q_SYM)],
     [(D_U8, Q_ASYM), (D_I32, Q_NONE), (D_U8, Q_ASYM)], [(D_I8, Q_SYM), (D_I32, Q_NONE), (D_I8, Q_SYM)],
     [(D_I16, Q_DFP), (D_I32, Q_NONE), (D_I16, Q_DFP)], [(D_I8, Q_DFP), (D_I32, Q_NONE), (D_I8, Q_DFP)],
     [(D_F32, Q_NONE), (D_I32, Q_NONE), (D_I16, Q_SYM)], [(D_F16, Q_NONE), (D_I32, Q_NONE), (D_I16, Q_SYM)],
     [(D_F32, Q_NONE), (D_I32, Q_NONE), (D_I16, Q_DFP)], [(D_F16, Q_NONE), (D_I32, Q_NONE), (D_I16, Q_DFP)],
     [(D_I16, Q_SYM), (D_I32, Q_NONE), (D_F32, Q_NONE)], [(D_U8, Q_ASYM), (D_I32, Q_NONE), (D_F32, Q_NONE)],
     [(D_I8, Q_SYM), (D_I32, Q_NONE), (D_F32, Q_NONE)], [(D_I16, Q_DFP), (D_I32, Q_NONE), (D_F32, Q_NONE)],
     [(D_I8, Q_DFP), (D_I32, Q_NONE), (D_F32, Q_NONE)], [(D_F32, Q_NONE), (D_I32, Q_NONE), (D_U8, Q_ASYM)],
     [(D_F16, Q_NONE), (D_I32, Q_NONE), (D_U8, Q_ASYM)], [(D_I16, Q_SYM), (D_I32, Q_NONE), (D_F16, Q_NONE)],
     [(D_U8, Q_ASYM), (D_I32, Q_NONE), (D_F16, Q_NONE)], [(D_I8, Q_SYM), (D_I32, Q_NONE), (D_F16, Q_NONE)],
     [(D_I16, Q_DFP), (D_I32, Q_NONE), (D_F16, Q_NONE)], [(D_I8, Q_DFP), (D_I32, Q_NONE), (D_F16, Q_NONE)],
     [(D_F32, Q_NONE), (D_I32, Q_NONE), (D_I8, Q_SYM)], [(D_F16, Q_NONE), (D_I32, Q_NONE), (D_I8, Q_SYM)],
     [(D_F32, Q_NONE), (D_I32, Q_NONE), (D_I8, Q_DFP)], [(D_F16, Q_NONE), (D_I32, Q_NONE), (D_I8, Q_DFP)]]"

definition MOD_types :: io_table where
  "MOD_types =
    [[(D_F16, Q_NONE), (D_F16, Q_NONE), (D_U8, Q_ASYM)], [(D_F16, Q_NONE), (D_F16, Q_NONE), (D_I16, Q_DFP)],
     [(D_F16, Q_NONE), (D_F16, Q_NONE), (D_I8, Q_DFP)], [(D_F16, Q_NONE), (D_F16, Q_NONE), (D_F16, Q_NONE)],
     [(D_F32, Q_NONE), (D_F32, Q_NONE), (D_F32, Q_NONE)], [(D_I32, Q_NONE), (D_I32, Q_NONE), (D_I32, Q_NONE)],
     [(D_I32, Q_NONE), (D_I32, Q_NONE), (D_U8, Q_ASYM)], [(D_BF16, Q_NONE), (D_BF16, Q_NONE), (D_BF16, Q_NONE)],
     [(D_U8, Q_ASYM), (D_U8, Q_ASYM), (D_U8, Q_ASYM)], [(D_U8, Q_ASYM), (D_U8, Q_ASYM), (D_F16, Q_NONE)],
     [(D_I8, Q_DFP), (D_I8, Q_DFP), (D_I8, Q_DFP)], [(D_I8, Q_DFP), (D_I8, Q_DFP), (D_F16, Q_NONE)],
     [(D_I16, Q_DFP), (D_I16, Q_DFP), (D_I16, Q_DFP)], [(D_I16, Q_DFP), (D_I16, Q_DFP), (D_F16, Q_NONE)],
     [(D_U8, Q_ASYM), (D_I32, Q_NONE), (D_U8, Q_ASYM)], [(D_I16, Q_DFP), (D_I32, Q_NONE), (D_U8, Q_ASYM)],
     [(D_I32, Q_NONE), (D_I16, Q_DFP), (D_U8, Q_ASYM)], [(D_I16, Q_DFP), (D_I16, Q_DFP), (D_U8, Q_ASYM)],
     [(D_I16, Q_NONE), (D_I32, Q_NONE), (D_I32, Q_NONE)], [(D_I8, Q_DFP), (D_I32, Q_NONE), (D_I8, Q_DFP)],
     [(D_I32, Q_NONE), (D_I32, Q_NONE), (D_I8, Q_DFP)], [(D_I32, Q_NONE), (D_I8, Q_DFP), (D_I8, Q_DFP)],
     [(D_I16, Q_DFP), (D_I32, Q_NONE), (D_I16, Q_DFP)], [(D_I32, Q_NONE), (D_I16, Q_DFP), (D_I16, Q_DFP)],
     [(D_I32, Q_NONE), (D_I32, Q_NONE), (D_I16, Q_DFP)], [(D_F16, Q_NONE), (D_F16, Q_NONE), (D_I8, Q_ASYM)],
     [(D_I8, Q_ASYM), (D_I8, Q_ASYM), (D_I8, Q_ASYM)], [(D_I8, Q_ASYM), (D_I8, Q_ASYM), (D_F16, Q_NONE)],
     [(D_F16, Q_NONE), (D_F16, Q_NONE), (D_I8, Q_SYM)], [(D_I8, Q_SYM), (D_I8, Q_SYM), (D_I8, Q_SYM)],
     [(D_I8, Q_SYM), (D_I8, Q_SYM), (D_F16, Q_NONE)], [(D_I8, Q_ASYM), (D_I32, Q_NONE), (D_I8, Q_ASYM)],
     [(D_I32, Q_NONE), (D_I8, Q_ASYM), (D_I8, Q_ASYM)], [(D_I32, Q_NONE), (D_I32, Q_NONE), (D_I8, Q_ASYM)],
     [(D_I8, Q_SYM), (D_I32, Q_NONE), (D_I8, Q_SYM)], [(D_I32, Q_NONE), (D_I8, Q_SYM), (D_I8, Q_SYM)],
     [(D_I32, Q_NONE), (D_I32, Q_NONE), (D_I8, Q_SYM)], [(D_F16, Q_NONE), (D_F16, Q_NONE), (D_I16, Q_ASYM)],
     [(D_I16, Q_ASYM), (D_I16, Q_ASYM), (D_I16, Q_ASYM)], [(D_I16, Q_ASYM), (D_I16, Q_ASYM), (D_F16, Q_NONE)],
     [(D_F16, Q_NONE), (D_F16, Q_NONE), (D_I16, Q_SYM)], [(D_I16, Q_SYM), (D_I16, Q_SYM), (D_I16, Q_SYM)],
     [(D_I16, Q_SYM), (D_I16, Q_SYM), (D_F16, Q_NONE)], [(D_I16, Q_ASYM), (D_I32, Q_NONE), (D_I16, Q_ASYM)],
     [(D_I32, Q_NONE), (D_I16, Q_ASYM), (D_I16, Q_ASYM)], [(D_I32, Q_NONE), (D_I32, Q_NONE), (D_I16, Q_ASYM)],
     [(D_I16, Q_SYM), (D_I32, Q_NONE), (D_I16, Q_SYM)], [(D_I32, Q_NONE), (D_I16, Q_SYM), (D_I16, Q_SYM)],
     [(D_I32, Q_NONE), (D_I32, Q_NONE), (D_I16, Q_SYM)]]"

definition MOMENTS_types :: io_table where
  "MOMENTS_types =
    [[(D_U8, Q_ASYM), (D_F16, Q_NONE), (D_F16, Q_NONE)], [(D_U8, Q_ASYM), (D_F32, Q_NONE), (D_F32, Q_NONE)],
     [(D_I8, Q_DFP), (D_F16, Q_NONE), (D_F16, Q_NONE)], [(D_I8, Q_DFP), (D_F32, Q_NONE), (D_F32, Q_NONE)],
     [(D_I8, Q_ASYM), (D_F16, Q_NONE), (D_F16, Q_NONE)], [(D_I8, Q_ASYM), (D_F32, Q_NONE), (D_F32, Q_NONE)],
     [(D_I8, Q_SYM), (D_F16, Q_NONE), (D_F16, Q_NONE)], [(D_I8, Q_SYM), (D_F32, Q_NONE), (D_F32, Q_NONE)],
     [(D_I16, Q_DFP), (D_F16, Q_NONE), (D_F16, Q_NONE)], [(D_I16, Q_DFP), (D_F32, Q_NONE), (D_F32, Q_NONE)],
     [(D_I16, Q_ASYM), (D_F16, Q_NONE), (D_F16, Q_NONE)], [(D_I16, Q_ASYM), (D_F32, Q_NONE), (D_F32, Q_NONE)],
     [(D_I16, Q_SYM), (D_F16, Q_NONE), (D_F16, Q_NONE)], [(D_I16, Q_SYM), (D_F32, Q_NONE), (D_F32, Q_NONE)],
     [(D_U8, Q_ASYM), (D_U8, Q_ASYM), (D_U8, Q_ASYM)], [(D_F16, Q_NONE), (D_F16, Q_NONE), (D_F16, Q_NONE)],
     [(D_F16, Q_NONE), (D_F32, Q_NONE), (D_F32, Q_NONE)], [(D_F32, Q_NONE), (D_F32, Q_NONE), (D_F32, Q_NONE)],
     [(D_I32, Q_NONE), (D_F32, Q_NONE), (D_F32, Q_NONE)], [(D_BF16, Q_NONE), (D_BF16, Q_NONE), (D_BF16, Q_NONE)],
     [(D_BF16, Q_NONE), (D_F32, Q_NONE), (D_F32, Q_NONE)]]"

definition PRE_PROCESS_BGRA_types :: io_table where
  "PRE_PROCESS_BGRA_types =
    [[(D_U8, Q_ASYM), (D_U8, Q_ASYM)], [(D_U8, Q_NONE), (D_U8, Q_ASYM)]]"

definition PRE_PROCESS_GRAY_types :: io_table where
  "PRE_PROCESS_GRAY_types =
    [[(D_U8, Q_ASYM), (D_U8, Q_ASYM)], [(D_U8, Q_ASYM), (D_I8, Q_DFP)], [(D_U8, Q_ASYM), (D_I16, Q_DFP)],
     [(D_U8, Q_ASYM), (D_F16, Q_NONE)], [(D_U8, Q_NONE), (D_U8, Q_ASYM)], [(D_U8, Q_NONE), (D_I8, Q_DFP)],
     [(D_U8, Q_NONE), (D_I16, Q_DFP)], [(D_U8, Q_NONE), (D_F16, Q_NONE)]]"

definition PRE_PROCESS_NV12_types :: io_table where
  "PRE_PROCESS_NV12_types =
    [[(D_U8, Q_ASYM), (D_U8, Q_ASYM), (D_U8, Q_ASYM)], [(D_U8, Q_ASYM), (D_U8, Q_ASYM), (D_I8, Q_DFP)],
     [(D_U8, Q_ASYM), (D_U8, Q_ASYM), (D_I16, Q_DFP)], [(D_U8, Q_ASYM), (D_U8, Q_ASYM), (D_F16, Q_NONE)],
     [(D_U8, Q_ASYM), (D_U8, Q_ASYM), (D_I8, Q_ASYM)], [(D_U8, Q_ASYM), (D_U8, Q_ASYM), (D_I8, Q_SYM)],
     [(D_U8, Q_ASYM), (D_U8, Q_ASYM), (D_I16, Q_ASYM)], [(D_U8, Q_ASYM), (D_U8, Q_ASYM), (D_I16, Q_SYM)]]"

definition PRE_PROCESS_RGB_types :: io_table where
  "PRE_PROCESS_RGB_types =
    [[(D_U8, Q_ASYM), (D_U8, Q_ASYM)], [(D_U8, Q_ASYM), (D_I8, Q_DFP)], [(D_U8, Q_ASYM), (D_I16, Q_DFP)],
     [(D_U8, Q_ASYM), (D_F16, Q_NONE)], [(D_U8, Q_NONE), (D_U8, Q_ASYM)], [(D_U8, Q_NONE), (D_I8, Q_DFP)],
     [(D_U8, Q_NONE), (D_I16, Q_DFP)], [(D_U8, Q_NONE), (D_F16, Q_NONE)]]"

definition PRE_PROCESS_YUV420_types :: io_table where
  "PRE_PROCESS_YUV420_types =
    [[(D_U8, Q_ASYM), (D_U8, Q_ASYM), (D_U8, Q_ASYM), (D_U8, Q_ASYM)],
     [(D_U8, Q_ASYM), (D_U8, Q_ASYM), (D_U8, Q_ASYM), (D_I8, Q_DFP)],
     [(D_U8, Q_ASYM), (D_U8, Q_ASYM), (D_U8, Q_ASYM), (D_I16, Q_DFP)],
     [(D_U8, Q_ASYM), (D_U8, Q_ASYM), (D_U8, Q_ASYM), (D_F16, Q_NONE)],
     [(D_U8, Q_ASYM), (D_U8, Q_ASYM), (D_U8, Q_ASYM), (D_I8, Q_ASYM)],
     [(D_U8, Q_ASYM), (D_U8, Q_ASYM), (D_U8, Q_ASYM), (D_I8, Q_SYM)],
     [(D_U8, Q_ASYM), (D_U8, Q_ASYM), (D_U8, Q_ASYM), (D_I16, Q_ASYM)],
     [(D_U8, Q_ASYM), (D_U8, Q_ASYM), (D_U8, Q_ASYM), (D_I16, Q_SYM)]]"

definition PRE_PROCESS_YUV422_types :: io_table where
  "PRE_PROCESS_YUV422_types =
    [[(D_U8, Q_ASYM), (D_U8, Q_ASYM)], [(D_U8, Q_ASYM), (D_I8, Q_DFP)], [(D_U8, Q_ASYM), (D_I16, Q_DFP)],
     [(D_U8, Q_ASYM), (D_F16, Q_NONE)], [(D_U8, Q_ASYM), (D_I8, Q_ASYM)], [(D_U8, Q_ASYM), (D_I8, Q_SYM)],
     [(D_U8, Q_ASYM), (D_I16, Q_ASYM)], [(D_U8, Q_ASYM), (D_I16, Q_SYM)]]"

definition PRE_PROCESS_YUV444_types :: io_table where
  "PRE_PROCESS_YUV444_types =
    [[(D_U8, Q_ASYM), (D_U8, Q_ASYM), (D_U8, Q_ASYM), (D_U8, Q_ASYM)],
     [(D_U8, Q_ASYM), (D_U8, Q_ASYM), (D_U8, Q_ASYM), (D_I8, Q_DFP)],
     [(D_U8, Q_ASYM), (D_U8, Q_ASYM), (D_U8, Q_ASYM), (D_I16, Q_DFP)],
     [(D_U8, Q_ASYM), (D_U8, Q_ASYM), (D_U8, Q_ASYM), (D_F16, Q_NONE)],
     [(D_U8, Q_NONE), (D_U8, Q_NONE), (D_U8, Q_NONE), (D_U8, Q_ASYM)],
     [(D_U8, Q_NONE), (D_U8, Q_NONE), (D_U8, Q_NONE), (D_I8, Q_DFP)],
     [(D_U8, Q_NONE), (D_U8, Q_NONE), (D_U8, Q_NONE), (D_I16, Q_DFP)],
     [(D_U8, Q_NONE), (D_U8, Q_NONE), (D_U8, Q_NONE), (D_F16, Q_NONE)]]"

definition PRELU_types :: io_table where
  "PRELU_types =
    [[(D_F16, Q_NONE), (D_F16, Q_NONE), (D_U8, Q_ASYM)], [(D_F16, Q_NONE), (D_F16, Q_NONE), (D_I16, Q_DFP)],
     [(D_F16, Q_NONE), (D_F16, Q_NONE), (D_I8, Q_DFP)], [(D_F16, Q_NONE), (D_F16, Q_NONE), (D_F16, Q_NONE)],
     [(D_U8, Q_ASYM), (D_F16, Q_NONE), (D_U8, Q_ASYM)], [(D_U8, Q_ASYM), (D_F16, Q_NONE), (D_F16, Q_NONE)],
     [(D_I8, Q_DFP), (D_F16, Q_NONE), (D_I8, Q_DFP)], [(D_I8, Q_DFP), (D_F16, Q_NONE), (D_F16, Q_NONE)],
     [(D_I8, Q_SYM), (D_F16, Q_NONE), (D_I8, Q_SYM)], [(D_I8, Q_ASYM), (D_F16, Q_NONE), (D_I8, Q_ASYM)],
     [(D_I8, Q_SYM), (D_F16, Q_NONE), (D_F16, Q_NONE)], [(D_I8, Q_ASYM), (D_F16, Q_NONE), (D_F16, Q_NONE)],
     [(D_I16, Q_DFP), (D_F16, Q_NONE), (D_I16, Q_DFP)], [(D_I16, Q_DFP), (D_F16, Q_NONE), (D_F16, Q_NONE)],
     [(D_I16, Q_SYM), (D_F16, Q_NONE), (D_I16, Q_SYM)], [(D_I16, Q_ASYM), (D_F16, Q_NONE), (D_I16, Q_ASYM)],
     [(D_I16, Q_SYM), (D_F16, Q_NONE), (D_F16, Q_NONE)], [(D_I16, Q_ASYM), (D_F16, Q_NONE), (D_F16, Q_NONE)],
     [(D_BF16, Q_NONE), (D_F16, Q_NONE), (D_BF16, Q_NONE)], [(D_BF16, Q_NONE), (D_BF16, Q_NONE), (D_BF16, Q_NONE)],
     [(D_U8, Q_ASYM), (D_U8, Q_ASYM), (D_U8, Q_ASYM)], [(D_U8, Q_ASYM), (D_U8, Q_ASYM), (D_F16, Q_NONE)],
     [(D_F32, Q_NONE), (D_F32, Q_NONE), (D_F32, Q_NONE)], [(D_I32, Q_NONE), (D_I32, Q_NONE), (D_I32, Q_NONE)],
     [(D_F32, Q_NONE), (D_BF16, Q_NONE), (D_BF16, Q_NONE)], [(D_BF16, Q_NONE), (D_BF16, Q_NONE), (D_F32, Q_NONE)]]"

definition RANDOM_MULTINOMIAL_types :: io_table where
  "RANDOM_MULTINOMIAL_types =
    [[(D_F16, Q_NONE), (D_I32, Q_NONE), (D_I32, Q_NONE)], [(D_F32, Q_NONE), (D_I32, Q_NONE), (D_I32, Q_NONE)]]"

definition REDUCEALL_INTERNAL_types :: io_table where
  "REDUCEALL_INTERNAL_types =
    [[(D_I8, Q_NONE), (D_I8, Q_NONE)], [(D_BOOL8, Q_NONE), (D_BOOL8, Q_NONE)]]"

definition REDUCEANY_INTERNAL_types :: io_table where
  "REDUCEANY_INTERNAL_types =
    [[(D_I8, Q_NONE), (D_I8, Q_NONE)], [(D_BOOL8, Q_NONE), (D_BOOL8, Q_NONE)]]"

definition REDUCEMAX_INTERNAL_types :: io_table where
  "REDUCEMAX_INTERNAL_types =
    [[(D_F16, Q_NONE), (D_U8, Q_ASYM)], [(D_F16, Q_NONE), (D_I16, Q_DFP)], [(D_F16, Q_NONE), (D_I8, Q_DFP)],
     [(D_F16, Q_NONE), (D_F16, Q_NONE)], [(D_F32, Q_NONE), (D_F32, Q_NONE)], [(D_I32, Q_NONE), (D_I32, Q_NONE)],
     [(D_I32, Q_NONE), (D_I16, Q_NONE)], [(D_I16, Q_NONE), (D_I32, Q_NONE)], [(D_U8, Q_ASYM), (D_U8, Q_ASYM)],
     [(D_U8, Q_ASYM), (D_F16, Q_NONE)], [(D_I8, Q_DFP), (D_I8, Q_DFP)], [(D_I8, Q_DFP), (D_F16, Q_NONE)],
     [(D_I16, Q_DFP), (D_I16, Q_DFP)], [(D_I16, Q_DFP), (D_F16, Q_NONE)]]"

definition REDUCEMIN_INTERNAL_types :: io_table where
  "REDUCEMIN_INTERNAL_types =
    [[(D_F16, Q_NONE), (D_U8, Q_ASYM)], [(D_F16, Q_NONE), (D_I16, Q_DFP)], [(D_F16, Q_NONE), (D_I8, Q_DFP)],
     [(D_F16, Q_NONE), (D_F16, Q_NONE)], [(D_F32, Q_NONE), (D_F32, Q_NONE)], [(D_I32, Q_NONE), (D_I32, Q_NONE)],
     [(D_U8, Q_ASYM), (D_U8, Q_ASYM)], [(D_U8, Q_ASYM), (D_F16, Q_NONE)], [(D_I8, Q_DFP), (D_I8, Q_DFP)],
     [(D_I8, Q_DFP), (D_F16, Q_NONE)], [(D_I16, Q_DFP), (D_I16, Q_DFP)], [(D_I16, Q_DFP), (D_F16, Q_NONE)]]"

definition REDUCEPROD_INTERNAL_types :: io_table where
  "REDUCEPROD_INTERNAL_types =
    [[(D_F16, Q_NONE), (D_U8, Q_ASYM)], [(D_F16, Q_NONE), (D_I16, Q_DFP)], [(D_F16, Q_NONE), (D_I8, Q_DFP)],
     [(D_F16, Q_NONE), (D_F16, Q_NONE)], [(D_BF16, Q_NONE), (D_BF16, Q_NONE)], [(D_F32, Q_NONE), (D_F32, Q_NONE)],
     [(D_I32, Q_NONE), (D_I32, Q_NONE)], [(D_U8, Q_ASYM), (D_U8, Q_ASYM)], [(D_U8, Q_ASYM), (D_F16, Q_NONE)],
     [(D_I8, Q_DFP), (D_I8, Q_DFP)], [(D_I8, Q_DFP), (D_F16, Q_NONE)], [(D_I16, Q_DFP), (D_I16, Q_DFP)],
     [(D_I16, Q_DFP), (D_F16, Q_NONE)]]"

definition RELATIONAL_OPS_types :: io_table where
  "RELATIONAL_OPS_types =
    [[(D_F16, Q_NONE), (D_F16, Q_NONE), (D_BOOL8, Q_NONE)], [(D_F16, Q_NONE), (D_I16, Q_DFP), (D_BOOL8, Q_NONE)],
     [(D_F16, Q_NONE), (D_I16, Q_ASYM), (D_BOOL8, Q_NONE)], [(D_F16, Q_NONE), (D_I16, Q_SYM), (D_BOOL8, Q_NONE)],
     [(D_F16, Q_NONE), (D_I8, Q_DFP), (D_BOOL8, Q_NONE)], [(D_F16, Q_NONE), (D_I8, Q_ASYM), (D_BOOL8, Q_NONE)],
     [(D_F16, Q_NONE), (D_I8, Q_SYM), (D_BOOL8, Q_NONE)], [(D_F16, Q_NONE), (D_U8, Q_ASYM), (D_BOOL8, Q_NONE)],
     [(D_I16, Q_DFP), (D_I16, Q_DFP), (D_BOOL8, Q_NONE)], [(D_I16, Q_ASYM), (D_I16, Q_ASYM), (D_BOOL8, Q_NONE)],
     [(D_I16, Q_SYM), (D_I16, Q_SYM), (D_BOOL8, Q_NONE)], [(D_I16, Q_DFP), (D_F16, Q_NONE), (D_BOOL8, Q_NONE)],
     [(D_I16, Q_ASYM), (D_F16, Q_NONE), (D_BOOL8, Q_NONE)], [(D_I16, Q_SYM), (D_F16, Q_NONE), (D_BOOL8, Q_NONE)],
     [(D_I8, Q_DFP), (D_I8, Q_DFP), (D_BOOL8, Q_NONE)], [(D_I8, Q_ASYM), (D_I8, Q_ASYM), (D_BOOL8, Q_NONE)],
     [(D_I8, Q_SYM), (D_I8, Q_SYM), (D_BOOL8, Q_NONE)], [(D_I8, Q_DFP), (D_F16, Q_NONE), (D_BOOL8, Q_NONE)],
     [(D_I8, Q_ASYM), (D_F16, Q_NONE), (D_BOOL8, Q_NONE)], [(D_I8, Q_SYM), (D_F16, Q_NONE), (D_BOOL8, Q_NONE)],
     [(D_U8, Q_ASYM), (D_U8, Q_ASYM), (D_BOOL8, Q_NONE)], [(D_U8, Q_ASYM), (D_F16, Q_NONE), (D_BOOL8, Q_NONE)],
     [(D_BF16, Q_NONE), (D_BF16, Q_NONE), (D_BOOL8, Q_NONE)],
     [(D_BOOL8, Q_NONE), (D_BOOL8, Q_NONE), (D_BOOL8, Q_NONE)],
     [(D_F32, Q_NONE), (D_F32, Q_NONE), (D_BOOL8, Q_NONE)], [(D_I32, Q_NONE), (D_I32, Q_NONE), (D_BOOL8, Q_NONE)],
     [(D_I16, Q_NONE), (D_I32, Q_NONE), (D_BOOL8, Q_NONE)], [(D_I32, Q_NONE), (D_I16, Q_NONE), (D_BOOL8, Q_NONE)],
     [(D_F16, Q_NONE), (D_F16, Q_NONE), (D_I8, Q_NONE)], [(D_F16, Q_NONE), (D_I16, Q_DFP), (D_I8, Q_NONE)],
     [(D_F16, Q_NONE), (D_I16, Q_ASYM), (D_I8, Q_NONE)], [(D_F16, Q_NONE), (D_I16, Q_SYM), (D_I8, Q_NONE)],
     [(D_F16, Q_NONE), (D_I8, Q_DFP), (D_I8, Q_NONE)], [(D_F16, Q_NONE), (D_I8, Q_ASYM), (D_I8, Q_NONE)],
     [(D_F16, Q_NONE), (D_I8, Q_SYM), (D_I8, Q_NONE)], [(D_F16, Q_NONE), (D_U8, Q_ASYM), (D_I8, Q_NONE)],
     [(D_I16, Q_DFP), (D_I16, Q_DFP), (D_I8, Q_NONE)], [(D_I16, Q_ASYM), (D_I16, Q_ASYM), (D_I8, Q_NONE)],
     [(D_I16, Q_SYM), (D_I16, Q_SYM), (D_I8, Q_NONE)], [(D_I16, Q_DFP), (D_F16, Q_NONE), (D_I8, Q_NONE)],
     [(D_I16, Q_ASYM), (D_F16, Q_NONE), (D_I8, Q_NONE)], [(D_I16, Q_SYM), (D_F16, Q_NONE), (D_I8, Q_NONE)],
     [(D_I8, Q_DFP), (D_I8, Q_DFP), (D_I8, Q_NONE)], [(D_I8, Q_ASYM), (D_I8, Q_ASYM), (D_I8, Q_NONE)],
     [(D_I8, Q_SYM), (D_I8, Q_SYM), (D_I8, Q_NONE)], [(D_I8, Q_DFP), (D_F16, Q_NONE), (D_I8, Q_NONE)],
     [(D_I8, Q_ASYM), (D_F16, Q_NONE), (D_I8, Q_NONE)], [(D_I8, Q_SYM), (D_F16, Q_NONE), (D_I8, Q_NONE)],
     [(D_U8, Q_ASYM), (D_U8, Q_ASYM), (D_I8, Q_NONE)], [(D_U8, Q_ASYM), (D_F16, Q_NONE), (D_I8, Q_NONE)],
     [(D_BF16, Q_NONE), (D_BF16, Q_NONE), (D_I8, Q_NONE)], [(D_BOOL8, Q_NONE), (D_BOOL8, Q_NONE), (D_I8, Q_NONE)],
     [(D_F32, Q_NONE), (D_F32, Q_NONE), (D_I8, Q_NONE)], [(D_I32, Q_NONE), (D_I32, Q_NONE), (D_I8, Q_NONE)],
     [(D_I16, Q_NONE), (D_I32, Q_NONE), (D_I8, Q_NONE)], [(D_I32, Q_NONE), (D_I16, Q_NONE), (D_I8, Q_NONE)]]"

definition RELU_KERAS_INTERNAL_types :: io_table where
  "RELU_KERAS_INTERNAL_types =
    [[(D_F16, Q_NONE), (D_U8, Q_ASYM)], [(D_F16, Q_NONE), (D_I16, Q_DFP)], [(D_F16, Q_NONE), (D_I8, Q_DFP)],
     [(D_F16, Q_NONE), (D_F16, Q_NONE)], [(D_BF16, Q_NONE), (D_BF16, Q_NONE)], [(D_F32, Q_NONE), (D_F32, Q_NONE)],
     [(D_F32, Q_NONE), (D_U8, Q_ASYM)], [(D_U8, Q_ASYM), (D_F32, Q_NONE)], [(D_U8, Q_ASYM), (D_U8, Q_ASYM)],
     [(D_U8, Q_ASYM), (D_F16, Q_NONE)], [(D_I8, Q_DFP), (D_I8, Q_DFP)], [(D_I8, Q_DFP), (D_F16, Q_NONE)],
     [(D_I16, Q_DFP), (D_I16, Q_DFP)], [(D_I16, Q_DFP), (D_F16, Q_NONE)]]"

definition RESIZE_1D_BILINEAR_INTERNAL_types :: io_table where
  "RESIZE_1D_BILINEAR_INTERNAL_types =
    [[(D_F16, Q_NONE), (D_U8, Q_ASYM)], [(D_F16, Q_NONE), (D_F16, Q_NONE)], [(D_BF16, Q_NONE), (D_BF16, Q_NONE)],
     [(D_F32, Q_NONE), (D_F32, Q_NONE)], [(D_U8, Q_ASYM), (D_U8, Q_ASYM)], [(D_U8, Q_ASYM), (D_F16, Q_NONE)],
     [(D_I8, Q_DFP), (D_I8, Q_DFP)], [(D_I16, Q_DFP), (D_I16, Q_DFP)]]"

definition RESIZE_1D_NEAREST_INTERNAL_types :: io_table where
  "RESIZE_1D_NEAREST_INTERNAL_types =
    [[(D_F16, Q_NONE), (D_F16, Q_NONE)], [(D_BF16, Q_NONE), (D_BF16, Q_NONE)], [(D_F32, Q_NONE), (D_F32, Q_NONE)],
     [(D_U8, Q_ASYM), (D_U8, Q_ASYM)], [(D_I8, Q_DFP), (D_I8, Q_DFP)], [(D_I16, Q_DFP), (D_I16, Q_DFP)]]"

definition RESIZE_3D_types :: io_table where
  "RESIZE_3D_types =
    [[(D_F16, Q_NONE), (D_U8, Q_ASYM)], [(D_F32, Q_NONE), (D_U8, Q_ASYM)], [(D_F16, Q_NONE), (D_F16, Q_NONE)],
     [(D_F32, Q_NONE), (D_F32, Q_NONE)], [(D_BF16, Q_NONE), (D_BF16, Q_NONE)], [(D_U8, Q_ASYM), (D_U8, Q_ASYM)],
     [(D_U8, Q_ASYM), (D_F16, Q_NONE)], [(D_U8, Q_ASYM), (D_F32, Q_NONE)], [(D_I8, Q_DFP), (D_I8, Q_DFP)],
     [(D_I8, Q_ASYM), (D_I8, Q_ASYM)], [(D_I8, Q_SYM), (D_I8, Q_SYM)], [(D_I16, Q_DFP), (D_I16, Q_DFP)],
     [(D_I16, Q_ASYM), (D_I16, Q_ASYM)], [(D_I16, Q_SYM), (D_I16, Q_SYM)]]"

definition RESIZE_INTERNAL_types :: io_table where
  "RESIZE_INTERNAL_types =
    [[(D_F16, Q_NONE), (D_U8, Q_ASYM)], [(D_F16, Q_NONE), (D_F16, Q_NONE)], [(D_BF16, Q_NONE), (D_BF16, Q_NONE)],
     [(D_F32, Q_NONE), (D_F32, Q_NONE)], [(D_U8, Q_ASYM), (D_U8, Q_ASYM)], [(D_U8, Q_ASYM), (D_F16, Q_NONE)],
     [(D_I8, Q_DFP), (D_I8, Q_DFP)], [(D_I16, Q_DFP), (D_I16, Q_DFP)]]"

definition RESIZE_NEAREST_INTERNAL_types :: io_table where
  "RESIZE_NEAREST_INTERNAL_types =
    [[(D_F16, Q_NONE), (D_F16, Q_NONE)], [(D_BF16, Q_NONE), (D_BF16, Q_NONE)], [(D_F32, Q_NONE), (D_F32, Q_NONE)],
     [(D_U8, Q_ASYM), (D_U8, Q_ASYM)], [(D_I8, Q_DFP), (D_I8, Q_DFP)], [(D_I16, Q_DFP), (D_I16, Q_DFP)]]"

definition REVERSE_types :: io_table where
  "REVERSE_types =
    [[(D_F16, Q_NONE), (D_F16, Q_NONE)], [(D_U8, Q_DFP), (D_U8, Q_DFP)], [(D_I8, Q_DFP), (D_I8, Q_DFP)],
     [(D_I16, Q_DFP), (D_I16, Q_DFP)], [(D_I32, Q_DFP), (D_I32, Q_DFP)], [(D_U8, Q_ASYM), (D_U8, Q_ASYM)],
     [(D_I8, Q_ASYM), (D_I8, Q_ASYM)], [(D_I8, Q_SYM), (D_I8, Q_SYM)], [(D_I16, Q_ASYM), (D_I16, Q_ASYM)],
     [(D_I16, Q_SYM), (D_I16, Q_SYM)], [(D_I32, Q_ASYM), (D_I32, Q_ASYM)], [(D_U8, Q_SYM_PC), (D_U8, Q_SYM_PC)],
     [(D_I8, Q_SYM_PC), (D_I8, Q_SYM_PC)], [(D_I16, Q_SYM_PC), (D_I16, Q_SYM_PC)],
     [(D_I32, Q_SYM_PC), (D_I32, Q_SYM_PC)], [(D_I32, Q_NONE), (D_I32, Q_NONE)], [(D_F32, Q_NONE), (D_F32, Q_NONE)],
     [(D_F32, Q_NONE), (D_BF16, Q_NONE)], [(D_BF16, Q_NONE), (D_F32, Q_NONE)], [(D_F16, Q_NONE), (D_I32, Q_NONE)],
     [(D_U8, Q_ASYM), (D_I32, Q_NONE)], [(D_I8, Q_DFP), (D_I32, Q_NONE)], [(D_I16, Q_DFP), (D_I32, Q_NONE)],
     [(D_BF16, Q_NONE), (D_BF16, Q_NONE)], [(D_U4, Q_ASYM), (D_U4, Q_ASYM)], [(D_U4, Q_SYM), (D_U4, Q_SYM)],
     [(D_I4, Q_ASYM), (D_I4, Q_ASYM)], [(D_I4, Q_SYM), (D_I4, Q_SYM)]]"

definition ROI_ALIGN_types :: io_table where
  "ROI_ALIGN_types =
    [[(D_F16, Q_NONE), (D_F16, Q_NONE), (D_I32, Q_NONE), (D_F16, Q_NONE)],
     [(D_F16, Q_NONE), (D_F16, Q_NONE), (D_I32, Q_NONE), (D_F32, Q_NONE)],
     [(D_F16, Q_NONE), (D_F32, Q_NONE), (D_I32, Q_NONE), (D_F16, Q_NONE)],
     [(D_F32, Q_NONE), (D_F32, Q_NONE), (D_I32, Q_NONE), (D_F32, Q_NONE)],
     [(D_U8, Q_ASYM), (D_U16, Q_ASYM), (D_I32, Q_NONE), (D_U8, Q_ASYM)]]"

definition ROI_POOL_types :: io_table where
  "ROI_POOL_types =
    [[(D_I16, Q_DFP), (D_I16, Q_DFP), (D_I16, Q_DFP)], [(D_I16, Q_DFP), (D_F16, Q_NONE), (D_I16, Q_DFP)],
     [(D_I8, Q_DFP), (D_I8, Q_DFP), (D_I8, Q_DFP)], [(D_I8, Q_DFP), (D_F16, Q_NONE), (D_I8, Q_DFP)],
     [(D_U8, Q_ASYM), (D_U8, Q_ASYM), (D_U8, Q_ASYM)], [(D_U8, Q_ASYM), (D_F16, Q_NONE), (D_U8, Q_ASYM)],
     [(D_U8, Q_ASYM), (D_F32, Q_NONE), (D_U8, Q_ASYM)], [(D_F16, Q_NONE), (D_F16, Q_NONE), (D_F16, Q_NONE)],
     [(D_F16, Q_NONE), (D_F16, Q_NONE), (D_F32, Q_NONE)], [(D_F16, Q_NONE), (D_F32, Q_NONE), (D_F16, Q_NONE)],
     [(D_F16, Q_NONE), (D_F32, Q_NONE), (D_F32, Q_NONE)], [(D_F32, Q_NONE), (D_F16, Q_NONE), (D_F16, Q_NONE)],
     [(D_F32, Q_NONE), (D_F16, Q_NONE), (D_F32, Q_NONE)], [(D_F32, Q_NONE), (D_F32, Q_NONE), (D_F16, Q_NONE)],
     [(D_F32, Q_NONE), (D_F32, Q_NONE), (D_F32, Q_NONE)], [(D_BF16, Q_NONE), (D_BF16, Q_NONE), (D_F32, Q_NONE)],
     [(D_BF16, Q_NONE), (D_BF16, Q_NONE), (D_BF16, Q_NONE)], [(D_F32, Q_NONE), (D_F32, Q_NONE), (D_BF16, Q_NONE)],
     [(D_BF16, Q_NONE), (D_F16, Q_NONE), (D_BF16, Q_NONE)]]"

definition ROPE_types :: io_table where
  "ROPE_types =
    [[(D_F32, Q_NONE), (D_F32, Q_NONE), (D_F32, Q_NONE), (D_F32, Q_NONE)],
     [(D_BF16, Q_NONE), (D_BF16, Q_NONE), (D_BF16, Q_NONE), (D_BF16, Q_NONE)],
     [(D_F16, Q_NONE), (D_F16, Q_NONE), (D_F16, Q_NONE), (D_F16, Q_NONE)],
     [(D_I8, Q_DFP), (D_I8, Q_DFP), (D_I8, Q_DFP), (D_I8, Q_DFP)],
     [(D_I8, Q_SYM), (D_I8, Q_SYM), (D_I8, Q_SYM), (D_I8, Q_SYM)],
     [(D_I8, Q_ASYM), (D_I8, Q_ASYM), (D_I8, Q_ASYM), (D_I8, Q_ASYM)],
     [(D_U8, Q_ASYM), (D_U8, Q_ASYM), (D_U8, Q_ASYM), (D_U8, Q_ASYM)],
     [(D_I16, Q_DFP), (D_I16, Q_DFP), (D_I16, Q_DFP), (D_I16, Q_DFP)],
     [(D_I16, Q_SYM), (D_I16, Q_SYM), (D_I16, Q_SYM), (D_I16, Q_SYM)],
     [(D_U16, Q_ASYM), (D_U16, Q_ASYM), (D_U16, Q_ASYM), (D_U16, Q_ASYM)],
     [(D_I16, Q_DFP), (D_I16, Q_DFP), (D_I16, Q_DFP), (D_I8, Q_DFP)],
     [(D_I16, Q_SYM), (D_I16, Q_SYM), (D_I16, Q_SYM), (D_I8, Q_SYM)],
     [(D_I16, Q_DFP), (D_I16, Q_DFP), (D_I16, Q_DFP), (D_U8, Q_ASYM)],
     [(D_I16, Q_SYM), (D_I16, Q_SYM), (D_I16, Q_SYM), (D_U8, Q_ASYM)],
     [(D_I8, Q_DFP), (D_F16, Q_NONE), (D_F16, Q_NONE), (D_I8, Q_DFP)],
     [(D_I8, Q_SYM), (D_F16, Q_NONE), (D_F16, Q_NONE), (D_I8, Q_SYM)],
     [(D_I8, Q_ASYM), (D_F16, Q_NONE), (D_F16, Q_NONE), (D_I8, Q_ASYM)],
     [(D_U8, Q_ASYM), (D_F16, Q_NONE), (D_F16, Q_NONE), (D_U8, Q_ASYM)],
     [(D_I16, Q_DFP), (D_F16, Q_NONE), (D_F16, Q_NONE), (D_I16, Q_DFP)],
     [(D_I16, Q_SYM), (D_F16, Q_NONE), (D_F16, Q_NONE), (D_I16, Q_SYM)],
     [(D_U16, Q_ASYM), (D_F16, Q_NONE), (D_F16, Q_NONE), (D_U16, Q_ASYM)],
     [(D_I16, Q_DFP), (D_F16, Q_NONE), (D_F16, Q_NONE), (D_I8, Q_DFP)],
     [(D_I16, Q_SYM), (D_F16, Q_NONE), (D_F16, Q_NONE), (D_I8, Q_SYM)],
     [(D_I16, Q_DFP), (D_F16, Q_NONE), (D_F16, Q_NONE), (D_U8, Q_ASYM)],
     [(D_I16, Q_SYM), (D_F16, Q_NONE), (D_F16, Q_NONE), (D_U8, Q_ASYM)]]"

definition SCATTER_ELEMENTS_types :: io_table where
  "SCATTER_ELEMENTS_types =
    [[(D_I32, Q_NONE), (D_I32, Q_NONE), (D_I32, Q_NONE), (D_I32, Q_NONE)],
     [(D_F32, Q_NONE), (D_I32, Q_NONE), (D_F32, Q_NONE), (D_F32, Q_NONE)],
     [(D_F16, Q_NONE), (D_I32, Q_NONE), (D_F16, Q_NONE), (D_F16, Q_NONE)],
     [(D_BF16, Q_NONE), (D_I32, Q_NONE), (D_BF16, Q_NONE), (D_BF16, Q_NONE)],
     [(D_U8, Q_ASYM), (D_I32, Q_NONE), (D_U8, Q_ASYM), (D_U8, Q_ASYM)],
     [(D_I8, Q_DFP), (D_I32, Q_NONE), (D_I8, Q_DFP), (D_I8, Q_DFP)],
     [(D_I8, Q_ASYM), (D_I32, Q_NONE), (D_I8, Q_ASYM), (D_I8, Q_ASYM)],
     [(D_I8, Q_SYM), (D_I32, Q_NONE), (D_I8, Q_SYM), (D_I8, Q_SYM)],
     [(D_I16, Q_DFP), (D_I32, Q_NONE), (D_I16, Q_DFP), (D_I16, Q_DFP)],
     [(D_I16, Q_ASYM), (D_I32, Q_NONE), (D_I16, Q_ASYM), (D_I16, Q_ASYM)],
     [(D_I16, Q_SYM), (D_I32, Q_NONE), (D_I16, Q_DFP), (D_I16, Q_SYM)]]"

definition SCATTER_ND_UPDATE_types :: io_table where
  "SCATTER_ND_UPDATE_types =
    [[(D_I8, Q_DFP), (D_I32, Q_NONE), (D_I8, Q_DFP), (D_I8, Q_DFP)],
     [(D_I8, Q_DFP), (D_I32, Q_NONE), (D_I8, Q_DFP), (D_F16, Q_NONE)],
     [(D_I8, Q_ASYM), (D_I32, Q_NONE), (D_I8, Q_ASYM), (D_I8, Q_ASYM)],
     [(D_I8, Q_ASYM), (D_I32, Q_NONE), (D_I8, Q_ASYM), (D_F16, Q_NONE)],
     [(D_I8, Q_SYM), (D_I32, Q_NONE), (D_I8, Q_SYM), (D_I8, Q_SYM)],
     [(D_I8, Q_SYM), (D_I32, Q_NONE), (D_I8, Q_SYM), (D_F16, Q_NONE)],
     [(D_U8, Q_ASYM), (D_I32, Q_NONE), (D_U8, Q_ASYM), (D_U8, Q_ASYM)],
     [(D_U8, Q_ASYM), (D_I32, Q_NONE), (D_U8, Q_ASYM), (D_F16, Q_NONE)],
     [(D_I16, Q_DFP), (D_I32, Q_NONE), (D_I16, Q_DFP), (D_I16, Q_DFP)],
     [(D_I16, Q_DFP), (D_I32, Q_NONE), (D_I16, Q_DFP), (D_F16, Q_NONE)],
     [(D_I16, Q_ASYM), (D_I32, Q_NONE), (D_I16, Q_ASYM), (D_I16, Q_ASYM)],
     [(D_I16, Q_ASYM), (D_I32, Q_NONE), (D_I16, Q_ASYM), (D_F16, Q_NONE)],
     [(D_I16, Q_SYM), (D_I32, Q_NONE), (D_I16, Q_SYM), (D_I16, Q_SYM)],
     [(D_I16, Q_SYM), (D_I32, Q_NONE), (D_I16, Q_SYM), (D_F16, Q_NONE)],
     [(D_F16, Q_NONE), (D_I32, Q_NONE), (D_F16, Q_NONE), (D_F16, Q_NONE)],
     [(D_F16, Q_NONE), (D_I32, Q_NONE), (D_F16, Q_NONE), (D_U8, Q_ASYM)],
     [(D_BF16, Q_NONE), (D_I32, Q_NONE), (D_BF16, Q_NONE), (D_BF16, Q_NONE)],
     [(D_I32, Q_NONE), (D_I32, Q_NONE), (D_I32, Q_NONE), (D_I32, Q_NONE)],
     [(D_U32, Q_NONE), (D_I32, Q_NONE), (D_U32, Q_NONE), (D_U32, Q_NONE)],
     [(D_F32, Q_NONE), (D_I32, Q_NONE), (D_F32, Q_NONE), (D_F32, Q_NONE)]]"

definition SIGNAL_FRAME_types :: io_table where
  "SIGNAL_FRAME_types =
    [[(D_F16, Q_NONE), (D_F16, Q_NONE)], [(D_I8, Q_DFP), (D_I8, Q_DFP)], [(D_I16, Q_DFP), (D_I16, Q_DFP)],
     [(D_U8, Q_ASYM), (D_U8, Q_ASYM)], [(D_BF16, Q_NONE), (D_BF16, Q_NONE)], [(D_F32, Q_NONE), (D_F32, Q_NONE)]]"

definition SPACE2DEPTH_INTERNAL_types :: io_table where
  "SPACE2DEPTH_INTERNAL_types =
    [[(D_F16, Q_NONE), (D_F16, Q_NONE)], [(D_I8, Q_DFP), (D_I8, Q_DFP)], [(D_I8, Q_ASYM), (D_I8, Q_ASYM)],
     [(D_I8, Q_SYM), (D_I8, Q_SYM)], [(D_I16, Q_DFP), (D_I16, Q_DFP)], [(D_I16, Q_ASYM), (D_I16, Q_ASYM)],
     [(D_I16, Q_SYM), (D_I16, Q_SYM)], [(D_U8, Q_ASYM), (D_U8, Q_ASYM)], [(D_F32, Q_NONE), (D_F32, Q_NONE)],
     [(D_F32, Q_NONE), (D_BF16, Q_NONE)], [(D_BF16, Q_NONE), (D_F32, Q_NONE)], [(D_BF16, Q_NONE), (D_BF16, Q_NONE)]]"

definition SPATIAL_TRANSFORMER_types :: io_table where
  "SPATIAL_TRANSFORMER_types =
    [[(D_F16, Q_NONE), (D_F16, Q_NONE), (D_F16, Q_NONE)], [(D_F16, Q_NONE), (D_F16, Q_NONE), (D_I16, Q_DFP)],
     [(D_F16, Q_NONE), (D_F16, Q_NONE), (D_U8, Q_ASYM)], [(D_F16, Q_NONE), (D_F16, Q_NONE), (D_I8, Q_DFP)],
     [(D_F16, Q_NONE), (D_I16, Q_DFP), (D_F16, Q_NONE)], [(D_F16, Q_NONE), (D_U8, Q_ASYM), (D_F16, Q_NONE)],
     [(D_F16, Q_NONE), (D_I8, Q_DFP), (D_F16, Q_NONE)], [(D_I16, Q_DFP), (D_F16, Q_NONE), (D_F16, Q_NONE)],
     [(D_U8, Q_ASYM), (D_F16, Q_NONE), (D_F16, Q_NONE)], [(D_I8, Q_DFP), (D_F16, Q_NONE), (D_F16, Q_NONE)],
     [(D_I16, Q_DFP), (D_I16, Q_DFP), (D_F16, Q_NONE)], [(D_U8, Q_ASYM), (D_U8, Q_ASYM), (D_F16, Q_NONE)],
     [(D_I8, Q_DFP), (D_I8, Q_DFP), (D_F16, Q_NONE)], [(D_F16, Q_NONE), (D_I16, Q_DFP), (D_I16, Q_DFP)],
     [(D_F16, Q_NONE), (D_U8, Q_ASYM), (D_U8, Q_ASYM)], [(D_F16, Q_NONE), (D_I8, Q_DFP), (D_I8, Q_DFP)],
     [(D_F16, Q_NONE), (D_I16, Q_DFP), (D_I16, Q_DFP)], [(D_F16, Q_NONE), (D_U8, Q_ASYM), (D_U8, Q_ASYM)],
     [(D_F16, Q_NONE), (D_I8, Q_DFP), (D_I8, Q_DFP)], [(D_I16, Q_DFP), (D_F16, Q_NONE), (D_I16, Q_DFP)],
     [(D_U8, Q_ASYM), (D_F16, Q_NONE), (D_U8, Q_ASYM)], [(D_I8, Q_DFP), (D_F16, Q_NONE), (D_I8, Q_DFP)],
     [(D_I16, Q_DFP), (D_I16, Q_DFP), (D_I16, Q_DFP)], [(D_U8, Q_ASYM), (D_U8, Q_ASYM), (D_U8, Q_ASYM)],
     [(D_I8, Q_DFP), (D_I8, Q_DFP), (D_I8, Q_DFP)]]"

definition TENSOR_ADD_MEAN_STDDEV_NORM_types :: io_table where
  "TENSOR_ADD_MEAN_STDDEV_NORM_types =
    [[(D_F16, Q_NONE), (D_F16, Q_NONE), (D_F16, Q_NONE)], [(D_U8, Q_ASYM), (D_U8, Q_ASYM), (D_F16, Q_NONE)],
     [(D_I16, Q_DFP), (D_I16, Q_DFP), (D_F16, Q_NONE)], [(D_U8, Q_ASYM), (D_U8, Q_ASYM), (D_F32, Q_NONE)],
     [(D_F32, Q_NONE), (D_F32, Q_NONE), (D_F32, Q_NONE)], [(D_F32, Q_NONE), (D_F32, Q_NONE), (D_F16, Q_NONE)],
     [(D_F32, Q_NONE), (D_F16, Q_NONE), (D_F32, Q_NONE)], [(D_F32, Q_NONE), (D_F16, Q_NONE), (D_F16, Q_NONE)],
     [(D_F16, Q_NONE), (D_F32, Q_NONE), (D_F32, Q_NONE)], [(D_F16, Q_NONE), (D_F32, Q_NONE), (D_F16, Q_NONE)],
     [(D_F16, Q_NONE), (D_F16, Q_NONE), (D_F32, Q_NONE)]]"

definition TOPK_types :: io_table where
  "TOPK_types =
    [[(D_F16, Q_NONE), (D_F16, Q_NONE), (D_I32, Q_NONE)], [(D_F16, Q_NONE), (D_U8, Q_ASYM), (D_I32, Q_NONE)],
     [(D_F16, Q_NONE), (D_I16, Q_DFP), (D_I32, Q_NONE)], [(D_F32, Q_NONE), (D_F32, Q_NONE), (D_I32, Q_NONE)],
     [(D_I8, Q_DFP), (D_I8, Q_DFP), (D_I32, Q_NONE)], [(D_I8, Q_ASYM), (D_I8, Q_ASYM), (D_I32, Q_NONE)],
     [(D_I8, Q_SYM), (D_I8, Q_SYM), (D_I32, Q_NONE)], [(D_U8, Q_ASYM), (D_U8, Q_ASYM), (D_I32, Q_NONE)],
     [(D_I16, Q_DFP), (D_I16, Q_DFP), (D_I32, Q_NONE)], [(D_I16, Q_ASYM), (D_I16, Q_ASYM), (D_I32, Q_NONE)],
     [(D_I16, Q_SYM), (D_I16, Q_SYM), (D_I32, Q_NONE)], [(D_I32, Q_NONE), (D_I32, Q_NONE), (D_I32, Q_NONE)]]"

definition UPSAMPLE_types :: io_table where
  "UPSAMPLE_types =
    [[(D_I16, Q_DFP), (D_U8, Q_NONE), (D_I16, Q_DFP)], [(D_I16, Q_DFP), (D_I16, Q_NONE), (D_I16, Q_DFP)],
     [(D_I16, Q_DFP), (D_U8, Q_NONE), (D_F16, Q_NONE)], [(D_I16, Q_DFP), (D_I16, Q_NONE), (D_F16, Q_NONE)],
     [(D_I8, Q_DFP), (D_U8, Q_NONE), (D_I8, Q_DFP)], [(D_I8, Q_DFP), (D_U8, Q_NONE), (D_F16, Q_NONE)],
     [(D_U8, Q_ASYM), (D_U8, Q_NONE), (D_U8, Q_ASYM)], [(D_U8, Q_ASYM), (D_U8, Q_NONE), (D_F16, Q_NONE)],
     [(D_F16, Q_NONE), (D_U8, Q_NONE), (D_U8, Q_ASYM)], [(D_F16, Q_NONE), (D_I16, Q_NONE), (D_U8, Q_ASYM)],
     [(D_F16, Q_NONE), (D_U8, Q_NONE), (D_I16, Q_DFP)], [(D_F16, Q_NONE), (D_U8, Q_NONE), (D_I8, Q_DFP)],
     [(D_F16, Q_NONE), (D_U8, Q_NONE), (D_F16, Q_NONE)], [(D_F32, Q_NONE), (D_U8, Q_NONE), (D_F32, Q_NONE)],
     [(D_F32, Q_NONE), (D_U8, Q_NONE), (D_U8, Q_ASYM)], [(D_U8, Q_ASYM), (D_U8, Q_NONE), (D_F32, Q_NONE)],
     [(D_I32, Q_NONE), (D_U8, Q_NONE), (D_I32, Q_NONE)], [(D_BF16, Q_NONE), (D_U8, Q_NONE), (D_BF16, Q_NONE)]]"

definition UPSAMPLESCALE_types :: io_table where
  "UPSAMPLESCALE_types =
    [[(D_F16, Q_NONE), (D_U8, Q_ASYM)], [(D_F16, Q_NONE), (D_I16, Q_DFP)], [(D_F16, Q_NONE), (D_I8, Q_DFP)],
     [(D_F16, Q_NONE), (D_U8, Q_NONE)], [(D_F16, Q_NONE), (D_I16, Q_NONE)], [(D_F16, Q_NONE), (D_I8, Q_NONE)],
     [(D_F16, Q_NONE), (D_F16, Q_NONE)], [(D_U8, Q_ASYM), (D_U8, Q_ASYM)], [(D_U8, Q_ASYM), (D_F16, Q_NONE)],
     [(D_I8, Q_DFP), (D_I8, Q_DFP)], [(D_I8, Q_DFP), (D_F16, Q_NONE)], [(D_I16, Q_DFP), (D_I16, Q_DFP)],
     [(D_I16, Q_DFP), (D_F16, Q_NONE)], [(D_U8, Q_NONE), (D_U8, Q_NONE)], [(D_U8, Q_NONE), (D_F16, Q_NONE)],
     [(D_I8, Q_NONE), (D_I8, Q_NONE)], [(D_I8, Q_NONE), (D_F16, Q_NONE)], [(D_I16, Q_NONE), (D_I16, Q_NONE)],
     [(D_I16, Q_NONE), (D_F16, Q_NONE)]]"

lemma INSTANCE_NORM_ok [table_oks]: "table_ok 4 INSTANCE_NORM_types"
  by (simp add: table_ok_simps INSTANCE_NORM_types_def)

lemma L1_LAYER_NORM_ok [table_oks]: "table_ok 5 L1_LAYER_NORM_types"
  by (simp add: table_ok_simps L1_LAYER_NORM_types_def)

lemma L2_NORMALIZE_ok [table_oks]: "table_ok 2 L2_NORMALIZE_types"
  by (simp add: table_ok_simps L2_NORMALIZE_types_def)

lemma LAYER_NORM_ok [table_oks]: "table_ok 4 LAYER_NORM_types"
  by (simp add: table_ok_simps LAYER_NORM_types_def)

lemma RMS_NORM_ok [table_oks]: "table_ok 3 RMS_NORM_types"
  by (simp add: table_ok_simps RMS_NORM_types_def)

lemma RSQRT_ok [table_oks]: "table_ok 2 RSQRT_types"
  by (simp add: table_ok_simps RSQRT_types_def)

lemma SOFTMAX_ok [table_oks]: "table_ok 2 SOFTMAX_types"
  by (simp add: table_ok_simps SOFTMAX_types_def)

lemma ARGMIN_ok [table_oks]: "table_ok 2 ARGMIN_types"
  by (simp add: table_ok_simps ARGMIN_types_def)

lemma AVG_POOL3D_ok [table_oks]: "table_ok 2 AVG_POOL3D_types"
  by (simp add: table_ok_simps AVG_POOL3D_types_def)

lemma BUCKETIZE_ok [table_oks]: "table_ok 3 BUCKETIZE_types"
  by (simp add: table_ok_simps BUCKETIZE_types_def)

lemma CAST_ok [table_oks]: "table_ok 2 CAST_types"
  by (simp add: table_ok_simps CAST_types_def)

lemma CLIP_ok [table_oks]: "table_ok 2 CLIP_types"
  by (simp add: table_ok_simps CLIP_types_def)

lemma COL2IM_ok [table_oks]: "table_ok 2 COL2IM_types"
  by (simp add: table_ok_simps COL2IM_types_def)

lemma CROP_AND_RESIZE_ok [table_oks]: "table_ok 4 CROP_AND_RESIZE_types"
  by (simp add: table_ok_simps CROP_AND_RESIZE_types_def)

lemma CUMSUM_ok [table_oks]: "table_ok 2 CUMSUM_types"
  by (simp add: table_ok_simps CUMSUM_types_def)

lemma ELTWISE_UNARY_ok [table_oks]: "table_ok 2 ELTWISE_UNARY_types"
  by (simp add: table_ok_simps ELTWISE_UNARY_types_def)

lemma ERF_ok [table_oks]: "table_ok 2 ERF_types"
  by (simp add: table_ok_simps ERF_types_def)

lemma EXPAND_BROADCAST_ok [table_oks]: "table_ok 2 EXPAND_BROADCAST_types"
  by (simp add: table_ok_simps EXPAND_BROADCAST_types_def)

lemma EXTRA_ENDING_ok [table_oks]: "table_ok 2 EXTRA_ENDING_types"
  by (simp add: table_ok_simps EXTRA_ENDING_types_def)

lemma FLOOR_ok [table_oks]: "table_ok 2 FLOOR_types"
  by (simp add: table_ok_simps FLOOR_types_def)

lemma FLOORDIV_ok [table_oks]: "table_ok 3 FLOORDIV_types"
  by (simp add: table_ok_simps FLOORDIV_types_def)

lemma GLOBALLPPOOL_ok [table_oks]: "table_ok 2 GLOBALLPPOOL_types"
  by (simp add: table_ok_simps GLOBALLPPOOL_types_def)

lemma HASHTABLE_LOOKUP_ok [table_oks]: "table_ok 5 HASHTABLE_LOOKUP_types"
  by (simp add: table_ok_simps HASHTABLE_LOOKUP_types_def)

lemma L2NORMALIZESCALE_ok [table_oks]: "table_ok 3 L2NORMALIZESCALE_types"
  by (simp add: table_ok_simps L2NORMALIZESCALE_types_def)

lemma LOG_SOFTMAX_ok [table_oks]: "table_ok 2 LOG_SOFTMAX_types"
  by (simp add: table_ok_simps LOG_SOFTMAX_types_def)

lemma LOGICAL_NOT_ok [table_oks]: "table_ok 2 LOGICAL_NOT_types"
  by (simp add: table_ok_simps LOGICAL_NOT_types_def)

lemma LOGICAL_OPS_ok [table_oks]: "table_ok 3 LOGICAL_OPS_types"
  by (simp add: table_ok_simps LOGICAL_OPS_types_def)

lemma LPNORM_ok [table_oks]: "table_ok 2 LPNORM_types"
  by (simp add: table_ok_simps LPNORM_types_def)

lemma LPPOOL_ok [table_oks]: "table_ok 2 LPPOOL_types"
  by (simp add: table_ok_simps LPPOOL_types_def)

lemma LRN_ok [table_oks]: "table_ok 2 LRN_types"
  by (simp add: table_ok_simps LRN_types_def)

lemma MAXPOOLWITHARGMAX_ok [table_oks]: "table_ok 3 MAXPOOLWITHARGMAX_types"
  by (simp add: table_ok_simps MAXPOOLWITHARGMAX_types_def)

lemma MAXUNPOOL_ok [table_oks]: "table_ok 3 MAXUNPOOL_types"
  by (simp add: table_ok_simps MAXUNPOOL_types_def)

lemma MOD_ok [table_oks]: "table_ok 3 MOD_types"
  by (simp add: table_ok_simps MOD_types_def)

lemma MOMENTS_ok [table_oks]: "table_ok 3 MOMENTS_types"
  by (simp add: table_ok_simps MOMENTS_types_def)

lemma PRE_PROCESS_BGRA_ok [table_oks]: "table_ok 2 PRE_PROCESS_BGRA_types"
  by (simp add: table_ok_simps PRE_PROCESS_BGRA_types_def)

lemma PRE_PROCESS_GRAY_ok [table_oks]: "table_ok 2 PRE_PROCESS_GRAY_types"
  by (simp add: table_ok_simps PRE_PROCESS_GRAY_types_def)

lemma PRE_PROCESS_NV12_ok [table_oks]: "table_ok 3 PRE_PROCESS_NV12_types"
  by (simp add: table_ok_simps PRE_PROCESS_NV12_types_def)

lemma PRE_PROCESS_RGB_ok [table_oks]: "table_ok 2 PRE_PROCESS_RGB_types"
  by (simp add: table_ok_simps PRE_PROCESS_RGB_types_def)

lemma PRE_PROCESS_YUV420_ok [table_oks]: "table_ok 4 PRE_PROCESS_YUV420_types"
  by (simp add: table_ok_simps PRE_PROCESS_YUV420_types_def)

lemma PRE_PROCESS_YUV422_ok [table_oks]: "table_ok 2 PRE_PROCESS_YUV422_types"
  by (simp add: table_ok_simps PRE_PROCESS_YUV422_types_def)

lemma PRE_PROCESS_YUV444_ok [table_oks]: "table_ok 4 PRE_PROCESS_YUV444_types"
  by (simp add: table_ok_simps PRE_PROCESS_YUV444_types_def)

lemma PRELU_ok [table_oks]: "table_ok 3 PRELU_types"
  by (simp add: table_ok_simps PRELU_types_def)

lemma RANDOM_MULTINOMIAL_ok [table_oks]: "table_ok 3 RANDOM_MULTINOMIAL_types"
  by (simp add: table_ok_simps RANDOM_MULTINOMIAL_types_def)

lemma REDUCEALL_INTERNAL_ok [table_oks]: "table_ok 2 REDUCEALL_INTERNAL_types"
  by (simp add: table_ok_simps REDUCEALL_INTERNAL_types_def)

lemma REDUCEANY_INTERNAL_ok [table_oks]: "table_ok 2 REDUCEANY_INTERNAL_types"
  by (simp add: table_ok_simps REDUCEANY_INTERNAL_types_def)

lemma REDUCEMAX_INTERNAL_ok [table_oks]: "table_ok 2 REDUCEMAX_INTERNAL_types"
  by (simp add: table_ok_simps REDUCEMAX_INTERNAL_types_def)

lemma REDUCEMIN_INTERNAL_ok [table_oks]: "table_ok 2 REDUCEMIN_INTERNAL_types"
  by (simp add: table_ok_simps REDUCEMIN_INTERNAL_types_def)

lemma REDUCEPROD_INTERNAL_ok [table_oks]: "table_ok 2 REDUCEPROD_INTERNAL_types"
  by (simp add: table_ok_simps REDUCEPROD_INTERNAL_types_def)

lemma RELATIONAL_OPS_ok [table_oks]: "table_ok 3 RELATIONAL_OPS_types"
  by (simp add: table_ok_simps RELATIONAL_OPS_types_def)

lemma RELU_KERAS_INTERNAL_ok [table_oks]: "table_ok 2 RELU_KERAS_INTERNAL_types"
  by (simp add: table_ok_simps RELU_KERAS_INTERNAL_types_def)

lemma RESIZE_1D_BILINEAR_INTERNAL_ok [table_oks]: "table_ok 2 RESIZE_1D_BILINEAR_INTERNAL_types"
  by (simp add: table_ok_simps RESIZE_1D_BILINEAR_INTERNAL_types_def)

lemma RESIZE_1D_NEAREST_INTERNAL_ok [table_oks]: "table_ok 2 RESIZE_1D_NEAREST_INTERNAL_types"
  by (simp add: table_ok_simps RESIZE_1D_NEAREST_INTERNAL_types_def)

lemma RESIZE_3D_ok [table_oks]: "table_ok 2 RESIZE_3D_types"
  by (simp add: table_ok_simps RESIZE_3D_types_def)

lemma RESIZE_INTERNAL_ok [table_oks]: "table_ok 2 RESIZE_INTERNAL_types"
  by (simp add: table_ok_simps RESIZE_INTERNAL_types_def)

lemma RESIZE_NEAREST_INTERNAL_ok [table_oks]: "table_ok 2 RESIZE_NEAREST_INTERNAL_types"
  by (simp add: table_ok_simps RESIZE_NEAREST_INTERNAL_types_def)

lemma REVERSE_ok [table_oks]: "table_ok 2 REVERSE_types"
  by (simp add: table_ok_simps REVERSE_types_def)

lemma ROI_ALIGN_ok [table_oks]: "table_ok 4 ROI_ALIGN_types"
  by (simp add: table_ok_simps ROI_ALIGN_types_def)

lemma ROI_POOL_ok [table_oks]: "table_ok 3 ROI_POOL_types"
  by (simp add: table_ok_simps ROI_POOL_types_def)

lemma ROPE_ok [table_oks]: "table_ok 4 ROPE_types"
  by (simp add: table_ok_simps ROPE_types_def)

lemma SCATTER_ELEMENTS_ok [table_oks]: "table_ok 4 SCATTER_ELEMENTS_types"
  by (simp add: table_ok_simps SCATTER_ELEMENTS_types_def)

lemma SCATTER_ND_UPDATE_ok [table_oks]: "table_ok 4 SCATTER_ND_UPDATE_types"
  by (simp add: table_ok_simps SCATTER_ND_UPDATE_types_def)

lemma SIGNAL_FRAME_ok [table_oks]: "table_ok 2 SIGNAL_FRAME_types"
  by (simp add: table_ok_simps SIGNAL_FRAME_types_def)

lemma SPACE2DEPTH_INTERNAL_ok [table_oks]: "table_ok 2 SPACE2DEPTH_INTERNAL_types"
  by (simp add: table_ok_simps SPACE2DEPTH_INTERNAL_types_def)

lemma SPATIAL_TRANSFORMER_ok [table_oks]: "table_ok 3 SPATIAL_TRANSFORMER_types"
  by (simp add: table_ok_simps SPATIAL_TRANSFORMER_types_def)

lemma TENSOR_ADD_MEAN_STDDEV_NORM_ok [table_oks]: "table_ok 3 TENSOR_ADD_MEAN_STDDEV_NORM_types"
  by (simp add: table_ok_simps TENSOR_ADD_MEAN_STDDEV_NORM_types_def)

lemma TOPK_ok [table_oks]: "table_ok 3 TOPK_types"
  by (simp add: table_ok_simps TOPK_types_def)

lemma UPSAMPLE_ok [table_oks]: "table_ok 3 UPSAMPLE_types"
  by (simp add: table_ok_simps UPSAMPLE_types_def)

lemma UPSAMPLESCALE_ok [table_oks]: "table_ok 2 UPSAMPLESCALE_types"
  by (simp add: table_ok_simps UPSAMPLESCALE_types_def)

end
