(* ===== verification/Op_Check.thy ===== *)
theory Op_Check
  imports Op_Tables_More
begin

text \<open>
  The checks of the operations: \<open>vsi_nn_OpCheck\<close> of \<^verbatim>\<open>src/vsi_nn_ops.c\<close> and the
  \<^verbatim>\<open>op_check\<close> functions of \<^verbatim>\<open>src/ops\<close> that it calls (all under
  \<^verbatim>\<open>src/tim/vx/internal\<close>). Most of them compare the types with a table; others ask for the
  check of another operation, or look at shapes and parameters.
\<close>

subsection \<open>Nodes and results\<close>

text \<open>
  The node that is checked: the numbers of its inputs and outputs and the parameters of its
  operation that a check reads (one structure for the union \<^verbatim>\<open>nn_param\<close>, each check reads its own
  fields). The environment has the options of graph and node; \<open>ce_mem n\<close> tells if the \<open>n\<close>-th
  allocation of the check succeeds.
\<close>

datatype pad_mode = PAD_CONSTANT | PAD_REPLICATE | PAD_SYMMETRIC | PAD_REFLECT

record op_node =
  on_inputs :: nat
  on_outputs :: nat
  on_transpose0 :: bool
  on_transpose1 :: bool
  on_axis :: uint32
  on_multiples_num :: uint32
  on_slices_num :: uint32
  on_pad_num :: uint8
  on_pad_mode :: pad_mode
  on_front :: "uint32 list"
  on_back :: "uint32 list"
  on_maxlen :: int
  on_block :: "int list"
  on_pads :: "int list"

record check_env =
  ce_opcheck :: bool
  ce_node_check :: bool
  ce_stream :: bool
  ce_sp_exec :: nat
  ce_mem :: "nat \<Rightarrow> bool"

record op_tensor = io_attr +
  op_shape :: tshape
  op_vtl :: bool

text \<open>
  A check that returns FALSE gives the reason: the types, with the text that is logged (\<open>None\<close> for
  a failed allocation), the shapes or parameters, or a missing operation.
\<close>

datatype check_error = Bad_types "string option" | Bad_node | No_op

type_synonym checked = "(check_error + unit) option"

abbreviation check_ok :: checked where "check_ok \<equiv> Some (Inr ())"
abbreviation check_bad :: checked where "check_bad \<equiv> Some (Inl Bad_node)"

definition check_if :: "bool \<Rightarrow> checked" where "check_if b = (if b then check_ok else check_bad)"

text \<open>A check followed by another one, when it returns TRUE.\<close>

definition check_then :: "checked \<Rightarrow> checked \<Rightarrow> checked" where
  "check_then c d = do { r \<leftarrow> c; case r of Inl e \<Rightarrow> Some (Inl e) | Inr _ \<Rightarrow> d }"

definition deref :: "'a option list \<Rightarrow> nat \<Rightarrow> 'a option" where
  "deref ts i = do { t \<leftarrow> rd ts i; t }"

subsection \<open>Checks of types\<close>

text \<open>
  The common part of the checks: \<open>VALIDATE_OP_IO_TYPES\<close>, and the text for the log when it fails.
  The validation looks at \<open>n\<close> inputs, the text at \<open>nd\<close>. \<open>at\<close> counts the allocations before.
\<close>

definition check_types ::
  "check_env \<Rightarrow> nat \<Rightarrow> op_constraint_reg \<Rightarrow> op_tensor option list \<Rightarrow> nat \<Rightarrow> nat \<Rightarrow> op_tensor option list \<Rightarrow> nat
   \<Rightarrow> checked" where
  "check_types e at reg ins n nd outs m = do {
     ok \<leftarrow> validate_op_io_types (ce_mem e at) (Some (ce_node_check e)) ins n outs m (Some reg);
     if ok then check_ok
     else do {
       d \<leftarrow> generate_op_io_types_desc (ce_mem e (Suc at)) ins nd outs m;
       Some (Inl (Bad_types (map_option c_string d))) } }"

fun stream_loop :: "op_tensor option list \<Rightarrow> nat \<Rightarrow> nat \<Rightarrow> bool option" where
  "stream_loop ins i 0 = Some True"
| "stream_loop ins i (Suc n) = do {
     t \<leftarrow> rd ins i;
     if (\<exists>a \<in> set_option t. io_vx a = TYPE_INT32 \<or> io_vx a = TYPE_UINT32) then Some False
     else stream_loop ins (Suc i) n }"

definition is_stream_process_supported_types :: "check_env \<Rightarrow> op_tensor option list \<Rightarrow> nat \<Rightarrow> bool option" where
  "is_stream_process_supported_types e ins n =
     (if \<not> ce_stream e then Some False
      else if ce_sp_exec e = 0 then Some False
      else stream_loop ins 0 n)"

definition check_stream_types ::
  "check_env \<Rightarrow> op_constraint_reg \<Rightarrow> op_node \<Rightarrow> op_tensor option list \<Rightarrow> op_tensor option list \<Rightarrow> nat \<Rightarrow> checked" where
  "check_stream_types e reg nd ins outs m = do {
     ret \<leftarrow> is_stream_process_supported_types e ins (on_inputs nd);
     if \<not> ret then check_types e 0 reg ins (on_inputs nd) (on_inputs nd) outs m else check_ok }"

subsection \<open>Checks with shapes and parameters\<close>

definition op_check_matmul :: "check_env \<Rightarrow> op_node \<Rightarrow> op_tensor option list \<Rightarrow> op_tensor option list \<Rightarrow> checked" where
  "op_check_matmul e nd ins outs =
     check_then (check_types e 0 (op_reg 2 1 MATRIXMUL_types) ins (on_inputs nd) (on_inputs nd) outs (on_outputs nd))
       (do { a \<leftarrow> deref ins 0; b \<leftarrow> deref ins 1;
             ok \<leftarrow> op_matmul_check True (on_transpose0 nd) (on_transpose1 nd) (op_shape a) (op_shape b);
             check_if ok })"

definition op_check_tile :: "check_env \<Rightarrow> op_node \<Rightarrow> op_tensor option list \<Rightarrow> op_tensor option list \<Rightarrow> checked" where
  "op_check_tile e nd ins outs =
     check_then (check_types e 0 (op_reg 1 1 TILE_types) ins (on_inputs nd) (on_inputs nd) outs (on_outputs nd))
       (do { a \<leftarrow> deref ins 0; check_if (ts_dim (op_shape a) = on_multiples_num nd) })"

definition pad_rank_ok :: "op_node \<Rightarrow> op_tensor \<Rightarrow> bool" where
  "pad_rank_ok nd a \<longleftrightarrow> ucast (on_pad_num nd) = ts_dim (op_shape a) \<or> on_pad_num nd = 0"

definition op_check_pad :: "check_env \<Rightarrow> op_node \<Rightarrow> op_tensor option list \<Rightarrow> op_tensor option list \<Rightarrow> checked" where
  "op_check_pad e nd ins outs =
     check_then (check_types e 0 (op_reg 1 1 PAD_types) ins (on_inputs nd) (on_inputs nd) outs (on_outputs nd))
       (do { a \<leftarrow> deref ins 0; check_if (pad_rank_ok nd a) })"

fun mirror_loop :: "pad_mode \<Rightarrow> uint32 list \<Rightarrow> uint32 list \<Rightarrow> vsi_size_t list \<Rightarrow> nat \<Rightarrow> nat \<Rightarrow> bool option" where
  "mirror_loop mode front back sizes i 0 = Some True"
| "mirror_loop mode front back sizes i (Suc n) = do {
     f \<leftarrow> rd front i; b \<leftarrow> rd back i; sz \<leftarrow> rd sizes i;
     if mode = PAD_SYMMETRIC \<and> (f > sz \<or> b > sz) then Some False
     else if mode = PAD_REFLECT \<and> (f \<ge> sz \<or> b \<ge> sz) then Some False
     else mirror_loop mode front back sizes (Suc i) n }"

definition check_mirror_pad_size ::
  "pad_mode \<Rightarrow> uint32 list \<Rightarrow> uint32 list \<Rightarrow> uint32 \<Rightarrow> vsi_size_t list \<Rightarrow> uint32 \<Rightarrow> bool option" where
  "check_mirror_pad_size mode front back p_dim sizes t_dim =
     mirror_loop mode front back sizes 0 (unat (if p_dim > t_dim then t_dim else p_dim))"

definition op_check_pad2 :: "check_env \<Rightarrow> op_node \<Rightarrow> op_tensor option list \<Rightarrow> op_tensor option list \<Rightarrow> checked" where
  "op_check_pad2 e nd ins outs =
     check_then (check_types e 0 (op_reg 1 1 PAD2_types) ins (on_inputs nd) (on_inputs nd) outs (on_outputs nd))
       (do { a \<leftarrow> deref ins 0;
             if \<not> pad_rank_ok nd a then check_bad
             else do {
               ok \<leftarrow> check_mirror_pad_size (on_pad_mode nd) (on_front nd) (on_back nd) (ucast (on_pad_num nd))
                 (ts_size (op_shape a)) (ts_dim (op_shape a));
               check_if ok } })"

definition op_check_sequence_mask :: "check_env \<Rightarrow> op_node \<Rightarrow> op_tensor option list \<Rightarrow> op_tensor option list \<Rightarrow> checked" where
  "op_check_sequence_mask e nd ins outs =
     check_then (check_types e 0 (op_reg 2 1 SEQUENCE_MASK_types) ins (on_inputs nd) (on_inputs nd) outs (on_outputs nd))
       (check_if (0 \<le> on_maxlen nd))"

definition op_check_strided_slice :: "check_env \<Rightarrow> op_node \<Rightarrow> op_tensor option list \<Rightarrow> op_tensor option list \<Rightarrow> checked" where
  "op_check_strided_slice e nd ins outs =
     check_types e 0 (op_reg 1 1 STRIDED_SLICE_types) ins 1 (on_inputs nd) outs (on_outputs nd)"

text \<open>The parameters that \<open>BATCH2SPACE\<close> and \<open>SPACE2BATCH\<close> look at before they ask for \<open>STRIDED_SLICE\<close>.\<close>

definition op_check_batch2space :: "op_node \<Rightarrow> op_tensor option list \<Rightarrow> checked" where
  "op_check_batch2space nd ins = do {
     a \<leftarrow> deref ins 0;
     if ts_dim (op_shape a) < 3 then check_bad
     else do { b \<leftarrow> rd (on_block nd) 0; check_if (0 \<le> b) } }"

definition op_check_space2batch :: "op_node \<Rightarrow> op_tensor option list \<Rightarrow> checked" where
  "op_check_space2batch nd ins = do {
     a \<leftarrow> deref ins 0;
     if ts_dim (op_shape a) < 3 then check_bad
     else do {
       b \<leftarrow> rd (on_block nd) 0;
       p0 \<leftarrow> rd (on_pads nd) 0; p1 \<leftarrow> rd (on_pads nd) 1; p2 \<leftarrow> rd (on_pads nd) 2; p3 \<leftarrow> rd (on_pads nd) 3;
       check_if (0 \<le> b \<and> 0 \<le> p0 \<and> 0 \<le> p1 \<and> 0 \<le> p2 \<and> 0 \<le> p3) } }"

subsection \<open>Concatenation and splitting\<close>

text \<open>Dimensions \<open>j\<close>, ... of two neighbours and the output.\<close>

fun concat_dims :: "uint32 \<Rightarrow> tshape \<Rightarrow> tshape \<Rightarrow> tshape \<Rightarrow> nat \<Rightarrow> nat \<Rightarrow> bool option" where
  "concat_dims axis prev cur out j 0 = Some True"
| "concat_dims axis prev cur out j (Suc n) =
     (if unat axis = j then concat_dims axis prev cur out (Suc j) n
      else do {
        s \<leftarrow> rd (ts_size cur) j;
        p \<leftarrow> rd (ts_size prev) j;
        if s \<noteq> p then Some False
        else if ts_dim out = 0 then concat_dims axis prev cur out (Suc j) n
        else do {
          q \<leftarrow> rd (ts_size out) j;
          if q \<noteq> s then Some False else concat_dims axis prev cur out (Suc j) n } })"

fun concat_pairs :: "uint32 \<Rightarrow> op_tensor option list \<Rightarrow> op_tensor option list \<Rightarrow> nat \<Rightarrow> nat \<Rightarrow> bool option" where
  "concat_pairs axis ins outs i 0 = Some True"
| "concat_pairs axis ins outs i (Suc n) = do {
     cur \<leftarrow> deref ins i;
     prev \<leftarrow> deref ins (i - 1);
     if ts_dim (op_shape cur) \<noteq> ts_dim (op_shape prev) then Some False
     else do {
       out \<leftarrow> deref outs 0;
       if ts_dim (op_shape out) \<noteq> 0 \<and> ts_dim (op_shape out) \<noteq> ts_dim (op_shape cur) then Some False
       else do {
         ok \<leftarrow> concat_dims axis (op_shape prev) (op_shape cur) (op_shape out) 0 (unat (ts_dim (op_shape cur)));
         if ok then concat_pairs axis ins outs (Suc i) n else Some False } } }"

definition op_check_concat :: "op_node \<Rightarrow> op_tensor option list \<Rightarrow> op_tensor option list \<Rightarrow> checked" where
  "op_check_concat nd ins outs =
     (let num = concat_num (map (map_option op_shape) ins) (on_inputs nd)
      in if num = 0 then check_bad
         else do { ok \<leftarrow> concat_pairs (on_axis nd) ins outs 1 (num - 1); check_if ok })"

text \<open>The number of outputs up to the last one that is there; without any the index leaves the array.\<close>

fun outputs_there :: "op_tensor option list \<Rightarrow> nat \<Rightarrow> nat option" where
  "outputs_there outs 0 = None"
| "outputs_there outs (Suc n) = do { t \<leftarrow> rd outs n; if t = None then outputs_there outs n else Some (Suc n) }"

fun split_dims :: "uint32 \<Rightarrow> tshape \<Rightarrow> tshape \<Rightarrow> nat \<Rightarrow> nat \<Rightarrow> bool option" where
  "split_dims axis in0 out j 0 = Some True"
| "split_dims axis in0 out j (Suc n) =
     (if unat axis = j then split_dims axis in0 out (Suc j) n
      else do {
        s \<leftarrow> rd (ts_size out) j;
        t \<leftarrow> rd (ts_size in0) j;
        if s \<noteq> t then Some False else split_dims axis in0 out (Suc j) n })"

fun split_shapes :: "uint32 \<Rightarrow> op_tensor option list \<Rightarrow> op_tensor option list \<Rightarrow> nat \<Rightarrow> nat \<Rightarrow> bool option" where
  "split_shapes axis ins outs i 0 = Some True"
| "split_shapes axis ins outs i (Suc n) = do {
     t \<leftarrow> deref outs i;
     if op_vtl t \<or> ts_dim (op_shape t) = 0 then split_shapes axis ins outs (Suc i) n
     else do {
       in0 \<leftarrow> deref ins 0;
       if ts_dim (op_shape t) \<noteq> ts_dim (op_shape in0) then Some False
       else do {
         ok \<leftarrow> split_dims axis (op_shape in0) (op_shape t) 0 (unat (ts_dim (op_shape t)));
         if ok then split_shapes axis ins outs (Suc i) n else Some False } } }"

fun split_types :: "check_env \<Rightarrow> op_tensor option list \<Rightarrow> op_tensor option list \<Rightarrow> nat \<Rightarrow> nat \<Rightarrow> checked" where
  "split_types e ins outs i 0 = check_ok"
| "split_types e ins outs i (Suc n) =
     check_then (check_types e i (op_reg 1 1 SPLIT_types) ins 1 1 (drop i outs) 1) (split_types e ins outs (Suc i) n)"

definition op_check_split :: "check_env \<Rightarrow> op_node \<Rightarrow> op_tensor option list \<Rightarrow> op_tensor option list \<Rightarrow> checked" where
  "op_check_split e nd ins outs = do {
     num \<leftarrow> outputs_there outs (on_outputs nd);
     if on_inputs nd \<noteq> 1 then check_bad
     else do {
       sliced \<leftarrow> (if on_slices_num nd = 0
         then do { in0 \<leftarrow> deref ins 0; s \<leftarrow> rd (ts_size (op_shape in0)) (unat (on_axis nd)); Some (unat s mod num = 0) }
         else Some (unat (on_slices_num nd) = num));
       if \<not> sliced then check_bad
       else do {
         ret \<leftarrow> split_shapes (on_axis nd) ins outs 0 num;
         check_then (split_types e ins outs 0 num) (check_if ret) } } }"

subsection \<open>The operations\<close>

text \<open>Numbers of the operations, from \<^verbatim>\<open>ops.def\<close>, \<^verbatim>\<open>custom_ops.def\<close> and \<^verbatim>\<open>internal_ops.def\<close>.\<close>

abbreviation (input) VSI_NN_OP_ADD :: int where "VSI_NN_OP_ADD \<equiv> 0"
abbreviation (input) VSI_NN_OP_MULTIPLY :: int where "VSI_NN_OP_MULTIPLY \<equiv> 1"
abbreviation (input) VSI_NN_OP_SOFTMAX :: int where "VSI_NN_OP_SOFTMAX \<equiv> 7"
abbreviation (input) VSI_NN_OP_POOL :: int where "VSI_NN_OP_POOL \<equiv> 8"
abbreviation (input) VSI_NN_OP_LEAKY_RELU :: int where "VSI_NN_OP_LEAKY_RELU \<equiv> 9"
abbreviation (input) VSI_NN_OP_LRN :: int where "VSI_NN_OP_LRN \<equiv> 10"
abbreviation (input) VSI_NN_OP_CONCAT :: int where "VSI_NN_OP_CONCAT \<equiv> 11"
abbreviation (input) VSI_NN_OP_SPLIT :: int where "VSI_NN_OP_SPLIT \<equiv> 12"
abbreviation (input) VSI_NN_OP_NOOP :: int where "VSI_NN_OP_NOOP \<equiv> 13"
abbreviation (input) VSI_NN_OP_ROI_POOL :: int where "VSI_NN_OP_ROI_POOL \<equiv> 14"
abbreviation (input) VSI_NN_OP_PROPOSAL :: int where "VSI_NN_OP_PROPOSAL \<equiv> 16"
abbreviation (input) VSI_NN_OP_RESHAPE :: int where "VSI_NN_OP_RESHAPE \<equiv> 18"
abbreviation (input) VSI_NN_OP_PERMUTE :: int where "VSI_NN_OP_PERMUTE \<equiv> 19"
abbreviation (input) VSI_NN_OP_PRELU :: int where "VSI_NN_OP_PRELU \<equiv> 20"
abbreviation (input) VSI_NN_OP_UPSAMPLE :: int where "VSI_NN_OP_UPSAMPLE \<equiv> 21"
abbreviation (input) VSI_NN_OP_RELU :: int where "VSI_NN_OP_RELU \<equiv> 22"
abbreviation (input) VSI_NN_OP_RELUN :: int where "VSI_NN_OP_RELUN \<equiv> 23"
abbreviation (input) VSI_NN_OP_REORG :: int where "VSI_NN_OP_REORG \<equiv> 25"
abbreviation (input) VSI_NN_OP_VARIABLE :: int where "VSI_NN_OP_VARIABLE \<equiv> 26"
abbreviation (input) VSI_NN_OP_L2_NORMALIZE :: int where "VSI_NN_OP_L2_NORMALIZE \<equiv> 27"
abbreviation (input) VSI_NN_OP_ARGMAX :: int where "VSI_NN_OP_ARGMAX \<equiv> 30"
abbreviation (input) VSI_NN_OP_MAXIMUM :: int where "VSI_NN_OP_MAXIMUM \<equiv> 31"
abbreviation (input) VSI_NN_OP_L2NORMALIZESCALE :: int where "VSI_NN_OP_L2NORMALIZESCALE \<equiv> 32"
abbreviation (input) VSI_NN_OP_CROP :: int where "VSI_NN_OP_CROP \<equiv> 33"
abbreviation (input) VSI_NN_OP_SUBTRACT :: int where "VSI_NN_OP_SUBTRACT \<equiv> 34"
abbreviation (input) VSI_NN_OP_RELU6 :: int where "VSI_NN_OP_RELU6 \<equiv> 35"
abbreviation (input) VSI_NN_OP_SIGMOID :: int where "VSI_NN_OP_SIGMOID \<equiv> 36"
abbreviation (input) VSI_NN_OP_TANH :: int where "VSI_NN_OP_TANH \<equiv> 37"
abbreviation (input) VSI_NN_OP_SQRT :: int where "VSI_NN_OP_SQRT \<equiv> 38"
abbreviation (input) VSI_NN_OP_RSQRT :: int where "VSI_NN_OP_RSQRT \<equiv> 39"
abbreviation (input) VSI_NN_OP_SOFTRELU :: int where "VSI_NN_OP_SOFTRELU \<equiv> 40"
abbreviation (input) VSI_NN_OP_DIVIDE :: int where "VSI_NN_OP_DIVIDE \<equiv> 41"
abbreviation (input) VSI_NN_OP_DROPOUT :: int where "VSI_NN_OP_DROPOUT \<equiv> 42"
abbreviation (input) VSI_NN_OP_RESIZE :: int where "VSI_NN_OP_RESIZE \<equiv> 44"
abbreviation (input) VSI_NN_OP_REVERSE :: int where "VSI_NN_OP_REVERSE \<equiv> 45"
abbreviation (input) VSI_NN_OP_DATACONVERT :: int where "VSI_NN_OP_DATACONVERT \<equiv> 48"
abbreviation (input) VSI_NN_OP_SCALE :: int where "VSI_NN_OP_SCALE \<equiv> 49"
abbreviation (input) VSI_NN_OP_SLICE :: int where "VSI_NN_OP_SLICE \<equiv> 50"
abbreviation (input) VSI_NN_OP_ELU :: int where "VSI_NN_OP_ELU \<equiv> 51"
abbreviation (input) VSI_NN_OP_BATCH2SPACE :: int where "VSI_NN_OP_BATCH2SPACE \<equiv> 52"
abbreviation (input) VSI_NN_OP_SPACE2BATCH :: int where "VSI_NN_OP_SPACE2BATCH \<equiv> 53"
abbreviation (input) VSI_NN_OP_PAD :: int where "VSI_NN_OP_PAD \<equiv> 54"
abbreviation (input) VSI_NN_OP_MATRIXMUL :: int where "VSI_NN_OP_MATRIXMUL \<equiv> 56"
abbreviation (input) VSI_NN_OP_LSTMUNIT :: int where "VSI_NN_OP_LSTMUNIT \<equiv> 57"
abbreviation (input) VSI_NN_OP_LAYER_NORM :: int where "VSI_NN_OP_LAYER_NORM \<equiv> 58"
abbreviation (input) VSI_NN_OP_REDUCE :: int where "VSI_NN_OP_REDUCE \<equiv> 59"
abbreviation (input) VSI_NN_OP_INSTANCE_NORM :: int where "VSI_NN_OP_INSTANCE_NORM \<equiv> 60"
abbreviation (input) VSI_NN_OP_STRIDED_SLICE :: int where "VSI_NN_OP_STRIDED_SLICE \<equiv> 62"
abbreviation (input) VSI_NN_OP_SIGNAL_FRAME :: int where "VSI_NN_OP_SIGNAL_FRAME \<equiv> 63"
abbreviation (input) VSI_NN_OP_ABS :: int where "VSI_NN_OP_ABS \<equiv> 66"
abbreviation (input) VSI_NN_OP_NBG :: int where "VSI_NN_OP_NBG \<equiv> 68"
abbreviation (input) VSI_NN_OP_LRN2 :: int where "VSI_NN_OP_LRN2 \<equiv> 70"
abbreviation (input) VSI_NN_OP_RELATIONAL_OPS :: int where "VSI_NN_OP_RELATIONAL_OPS \<equiv> 71"
abbreviation (input) VSI_NN_OP_SYNC_HOST :: int where "VSI_NN_OP_SYNC_HOST \<equiv> 72"
abbreviation (input) VSI_NN_OP_POW :: int where "VSI_NN_OP_POW \<equiv> 73"
abbreviation (input) VSI_NN_OP_FLOORDIV :: int where "VSI_NN_OP_FLOORDIV \<equiv> 74"
abbreviation (input) VSI_NN_OP_MINIMUM :: int where "VSI_NN_OP_MINIMUM \<equiv> 75"
abbreviation (input) VSI_NN_OP_SPATIAL_TRANSFORMER :: int where "VSI_NN_OP_SPATIAL_TRANSFORMER \<equiv> 76"
abbreviation (input) VSI_NN_OP_LOGICAL_OPS :: int where "VSI_NN_OP_LOGICAL_OPS \<equiv> 77"
abbreviation (input) VSI_NN_OP_SELECT :: int where "VSI_NN_OP_SELECT \<equiv> 78"
abbreviation (input) VSI_NN_OP_LSTMUNIT_ACTIVATION :: int where "VSI_NN_OP_LSTMUNIT_ACTIVATION \<equiv> 79"
abbreviation (input) VSI_NN_OP_LSTMUNIT_OVXLIB :: int where "VSI_NN_OP_LSTMUNIT_OVXLIB \<equiv> 80"
abbreviation (input) VSI_NN_OP_TENSOR_ADD_MEAN_STDDEV_NORM :: int where "VSI_NN_OP_TENSOR_ADD_MEAN_STDDEV_NORM \<equiv> 81"
abbreviation (input) VSI_NN_OP_RELU1 :: int where "VSI_NN_OP_RELU1 \<equiv> 82"
abbreviation (input) VSI_NN_OP_STACK :: int where "VSI_NN_OP_STACK \<equiv> 83"
abbreviation (input) VSI_NN_OP_FLOOR :: int where "VSI_NN_OP_FLOOR \<equiv> 84"
abbreviation (input) VSI_NN_OP_SQUARE :: int where "VSI_NN_OP_SQUARE \<equiv> 85"
abbreviation (input) VSI_NN_OP_NEG :: int where "VSI_NN_OP_NEG \<equiv> 86"
abbreviation (input) VSI_NN_OP_EXP :: int where "VSI_NN_OP_EXP \<equiv> 87"
abbreviation (input) VSI_NN_OP_LSTM_OVXLIB :: int where "VSI_NN_OP_LSTM_OVXLIB \<equiv> 88"
abbreviation (input) VSI_NN_OP_PRE_PROCESS_TENSOR :: int where "VSI_NN_OP_PRE_PROCESS_TENSOR \<equiv> 89"
abbreviation (input) VSI_NN_OP_HASHTABLE_LOOKUP :: int where "VSI_NN_OP_HASHTABLE_LOOKUP \<equiv> 90"
abbreviation (input) VSI_NN_OP_EMBEDDING_LOOKUP :: int where "VSI_NN_OP_EMBEDDING_LOOKUP \<equiv> 91"
abbreviation (input) VSI_NN_OP_LSH_PROJECTION :: int where "VSI_NN_OP_LSH_PROJECTION \<equiv> 92"
abbreviation (input) VSI_NN_OP_CLIP :: int where "VSI_NN_OP_CLIP \<equiv> 94"
abbreviation (input) VSI_NN_OP_POST_PROCESS :: int where "VSI_NN_OP_POST_PROCESS \<equiv> 95"
abbreviation (input) VSI_NN_OP_PRE_PROCESS_GRAY :: int where "VSI_NN_OP_PRE_PROCESS_GRAY \<equiv> 96"
abbreviation (input) VSI_NN_OP_UNSTACK :: int where "VSI_NN_OP_UNSTACK \<equiv> 97"
abbreviation (input) VSI_NN_OP_PRE_PROCESS_RGB :: int where "VSI_NN_OP_PRE_PROCESS_RGB \<equiv> 98"
abbreviation (input) VSI_NN_OP_PRE_PROCESS :: int where "VSI_NN_OP_PRE_PROCESS \<equiv> 99"
abbreviation (input) VSI_NN_OP_ADDN :: int where "VSI_NN_OP_ADDN \<equiv> 100"
abbreviation (input) VSI_NN_OP_PRE_PROCESS_YUV420 :: int where "VSI_NN_OP_PRE_PROCESS_YUV420 \<equiv> 101"
abbreviation (input) VSI_NN_OP_EXTRA_ENDING :: int where "VSI_NN_OP_EXTRA_ENDING \<equiv> 102"
abbreviation (input) VSI_NN_OP_GATHER :: int where "VSI_NN_OP_GATHER \<equiv> 103"
abbreviation (input) VSI_NN_OP_TILE :: int where "VSI_NN_OP_TILE \<equiv> 104"
abbreviation (input) VSI_NN_OP_TOPK :: int where "VSI_NN_OP_TOPK \<equiv> 106"
abbreviation (input) VSI_NN_OP_PRE_PROCESS_BGRA :: int where "VSI_NN_OP_PRE_PROCESS_BGRA \<equiv> 107"
abbreviation (input) VSI_NN_OP_LOGICAL_NOT :: int where "VSI_NN_OP_LOGICAL_NOT \<equiv> 108"
abbreviation (input) VSI_NN_OP_SIN :: int where "VSI_NN_OP_SIN \<equiv> 109"
abbreviation (input) VSI_NN_OP_LOG :: int where "VSI_NN_OP_LOG \<equiv> 110"
abbreviation (input) VSI_NN_OP_ARGMIN :: int where "VSI_NN_OP_ARGMIN \<equiv> 111"
abbreviation (input) VSI_NN_OP_ROI_ALIGN :: int where "VSI_NN_OP_ROI_ALIGN \<equiv> 112"
abbreviation (input) VSI_NN_OP_BOX_WITH_NMS_LIMIT :: int where "VSI_NN_OP_BOX_WITH_NMS_LIMIT \<equiv> 115"
abbreviation (input) VSI_NN_OP_RANDOM_MULTINOMIAL :: int where "VSI_NN_OP_RANDOM_MULTINOMIAL \<equiv> 118"
abbreviation (input) VSI_NN_OP_LOG_SOFTMAX :: int where "VSI_NN_OP_LOG_SOFTMAX \<equiv> 119"
abbreviation (input) VSI_NN_OP_RELU_KERAS :: int where "VSI_NN_OP_RELU_KERAS \<equiv> 120"
abbreviation (input) VSI_NN_OP_GRU_OVXLIB :: int where "VSI_NN_OP_GRU_OVXLIB \<equiv> 121"
abbreviation (input) VSI_NN_OP_GRUCELL_OVXLIB :: int where "VSI_NN_OP_GRUCELL_OVXLIB \<equiv> 122"
abbreviation (input) VSI_NN_OP_UNIDIRECTIONAL_SEQUENCE_RNN :: int where "VSI_NN_OP_UNIDIRECTIONAL_SEQUENCE_RNN \<equiv> 123"
abbreviation (input) VSI_NN_OP_BIDIRECTIONAL_SEQUENCE_RNN :: int where "VSI_NN_OP_BIDIRECTIONAL_SEQUENCE_RNN \<equiv> 125"
abbreviation (input) VSI_NN_OP_BIDIRECTIONAL_SEQUENCE_LSTM :: int where "VSI_NN_OP_BIDIRECTIONAL_SEQUENCE_LSTM \<equiv> 126"
abbreviation (input) VSI_NN_OP_RNNCELL_OVXLIB :: int where "VSI_NN_OP_RNNCELL_OVXLIB \<equiv> 127"
abbreviation (input) VSI_NN_OP_SWISH :: int where "VSI_NN_OP_SWISH \<equiv> 128"
abbreviation (input) VSI_NN_OP_GATHER_ND :: int where "VSI_NN_OP_GATHER_ND \<equiv> 130"
abbreviation (input) VSI_NN_OP_CAST :: int where "VSI_NN_OP_CAST \<equiv> 131"
abbreviation (input) VSI_NN_OP_LINEAR :: int where "VSI_NN_OP_LINEAR \<equiv> 132"
abbreviation (input) VSI_NN_OP_MOMENTS :: int where "VSI_NN_OP_MOMENTS \<equiv> 134"
abbreviation (input) VSI_NN_OP_HARD_SIGMOID :: int where "VSI_NN_OP_HARD_SIGMOID \<equiv> 136"
abbreviation (input) VSI_NN_OP_MISH :: int where "VSI_NN_OP_MISH \<equiv> 137"
abbreviation (input) VSI_NN_OP_EXPAND_BROADCAST :: int where "VSI_NN_OP_EXPAND_BROADCAST \<equiv> 138"
abbreviation (input) VSI_NN_OP_PRE_PROCESS_YUV444 :: int where "VSI_NN_OP_PRE_PROCESS_YUV444 \<equiv> 139"
abbreviation (input) VSI_NN_OP_PRE_PROCESS_NV12 :: int where "VSI_NN_OP_PRE_PROCESS_NV12 \<equiv> 140"
abbreviation (input) VSI_NN_OP_SCATTER_ND :: int where "VSI_NN_OP_SCATTER_ND \<equiv> 141"
abbreviation (input) VSI_NN_OP_RESIZE_1D :: int where "VSI_NN_OP_RESIZE_1D \<equiv> 144"
abbreviation (input) VSI_NN_OP_UPSAMPLESCALE :: int where "VSI_NN_OP_UPSAMPLESCALE \<equiv> 145"
abbreviation (input) VSI_NN_OP_ROUND :: int where "VSI_NN_OP_ROUND \<equiv> 147"
abbreviation (input) VSI_NN_OP_CEIL :: int where "VSI_NN_OP_CEIL \<equiv> 148"
abbreviation (input) VSI_NN_OP_SEQUENCE_MASK :: int where "VSI_NN_OP_SEQUENCE_MASK \<equiv> 149"
abbreviation (input) VSI_NN_OP_ERF :: int where "VSI_NN_OP_ERF \<equiv> 151"
abbreviation (input) VSI_NN_OP_ONE_HOT :: int where "VSI_NN_OP_ONE_HOT \<equiv> 152"
abbreviation (input) VSI_NN_OP_NMS :: int where "VSI_NN_OP_NMS \<equiv> 153"
abbreviation (input) VSI_NN_OP_SCATTER_ND_UPDATE :: int where "VSI_NN_OP_SCATTER_ND_UPDATE \<equiv> 155"
abbreviation (input) VSI_NN_OP_GELU :: int where "VSI_NN_OP_GELU \<equiv> 156"
abbreviation (input) VSI_NN_OP_CONV2D_LSTM :: int where "VSI_NN_OP_CONV2D_LSTM \<equiv> 157"
abbreviation (input) VSI_NN_OP_CONV2D_LSTM_CELL :: int where "VSI_NN_OP_CONV2D_LSTM_CELL \<equiv> 158"
abbreviation (input) VSI_NN_OP_GRU :: int where "VSI_NN_OP_GRU \<equiv> 159"
abbreviation (input) VSI_NN_OP_GRUCELL_ACTIVATION :: int where "VSI_NN_OP_GRUCELL_ACTIVATION \<equiv> 161"
abbreviation (input) VSI_NN_OP_RESHAPE2 :: int where "VSI_NN_OP_RESHAPE2 \<equiv> 162"
abbreviation (input) VSI_NN_OP_PAD2 :: int where "VSI_NN_OP_PAD2 \<equiv> 165"
abbreviation (input) VSI_NN_OP_COS :: int where "VSI_NN_OP_COS \<equiv> 166"
abbreviation (input) VSI_NN_OP_GATHER_ELEMENTS :: int where "VSI_NN_OP_GATHER_ELEMENTS \<equiv> 168"
abbreviation (input) VSI_NN_OP_SELU :: int where "VSI_NN_OP_SELU \<equiv> 169"
abbreviation (input) VSI_NN_OP_CELU :: int where "VSI_NN_OP_CELU \<equiv> 170"
abbreviation (input) VSI_NN_OP_MAX_POOL3D :: int where "VSI_NN_OP_MAX_POOL3D \<equiv> 171"
abbreviation (input) VSI_NN_OP_RCP :: int where "VSI_NN_OP_RCP \<equiv> 172"
abbreviation (input) VSI_NN_OP_SIGN :: int where "VSI_NN_OP_SIGN \<equiv> 173"
abbreviation (input) VSI_NN_OP_SOFTSIGN :: int where "VSI_NN_OP_SOFTSIGN \<equiv> 174"
abbreviation (input) VSI_NN_OP_CUMSUM :: int where "VSI_NN_OP_CUMSUM \<equiv> 175"
abbreviation (input) VSI_NN_OP_MAXPOOLWITHARGMAX :: int where "VSI_NN_OP_MAXPOOLWITHARGMAX \<equiv> 176"
abbreviation (input) VSI_NN_OP_MOD :: int where "VSI_NN_OP_MOD \<equiv> 177"
abbreviation (input) VSI_NN_OP_LPPOOL :: int where "VSI_NN_OP_LPPOOL \<equiv> 178"
abbreviation (input) VSI_NN_OP_SCATTER_ELEMENTS :: int where "VSI_NN_OP_SCATTER_ELEMENTS \<equiv> 179"
abbreviation (input) VSI_NN_OP_PRE_PROCESS_YUV422 :: int where "VSI_NN_OP_PRE_PROCESS_YUV422 \<equiv> 180"
abbreviation (input) VSI_NN_OP_BUCKETIZE :: int where "VSI_NN_OP_BUCKETIZE \<equiv> 181"
abbreviation (input) VSI_NN_OP_GLOBALLPPOOL :: int where "VSI_NN_OP_GLOBALLPPOOL \<equiv> 182"
abbreviation (input) VSI_NN_OP_AVG_POOL3D :: int where "VSI_NN_OP_AVG_POOL3D \<equiv> 183"
abbreviation (input) VSI_NN_OP_ATAN :: int where "VSI_NN_OP_ATAN \<equiv> 184"
abbreviation (input) VSI_NN_OP_ATANH :: int where "VSI_NN_OP_ATANH \<equiv> 185"
abbreviation (input) VSI_NN_OP_ACOSH :: int where "VSI_NN_OP_ACOSH \<equiv> 186"
abbreviation (input) VSI_NN_OP_MAXUNPOOL :: int where "VSI_NN_OP_MAXUNPOOL \<equiv> 187"
abbreviation (input) VSI_NN_OP_INVERSE_SIGMOID :: int where "VSI_NN_OP_INVERSE_SIGMOID \<equiv> 189"
abbreviation (input) VSI_NN_OP_LPNORM :: int where "VSI_NN_OP_LPNORM \<equiv> 191"
abbreviation (input) VSI_NN_OP_RESIZE_3D :: int where "VSI_NN_OP_RESIZE_3D \<equiv> 192"
abbreviation (input) VSI_NN_OP_REDUCEL2 :: int where "VSI_NN_OP_REDUCEL2 \<equiv> 193"
abbreviation (input) VSI_NN_OP_CROP_AND_RESIZE :: int where "VSI_NN_OP_CROP_AND_RESIZE \<equiv> 194"
abbreviation (input) VSI_NN_OP_TAN :: int where "VSI_NN_OP_TAN \<equiv> 195"
abbreviation (input) VSI_NN_OP_RMSNORM :: int where "VSI_NN_OP_RMSNORM \<equiv> 196"
abbreviation (input) VSI_NN_OP_COL2IM :: int where "VSI_NN_OP_COL2IM \<equiv> 200"
abbreviation (input) VSI_NN_OP_L1_LAYER_NORM :: int where "VSI_NN_OP_L1_LAYER_NORM \<equiv> 201"
abbreviation (input) VSI_NN_OP_ROPE :: int where "VSI_NN_OP_ROPE \<equiv> 202"
abbreviation (input) VSI_NN_OP_SOFTMAX_INTERNAL :: int where "VSI_NN_OP_SOFTMAX_INTERNAL \<equiv> 268435457"
abbreviation (input) VSI_NN_OP_RELU_KERAS_INTERNAL :: int where "VSI_NN_OP_RELU_KERAS_INTERNAL \<equiv> 268435458"
abbreviation (input) VSI_NN_OP_REDUCESUM_INTERNAL :: int where "VSI_NN_OP_REDUCESUM_INTERNAL \<equiv> 268435459"
abbreviation (input) VSI_NN_OP_REDUCEMAX_INTERNAL :: int where "VSI_NN_OP_REDUCEMAX_INTERNAL \<equiv> 268435460"
abbreviation (input) VSI_NN_OP_REDUCEMIN_INTERNAL :: int where "VSI_NN_OP_REDUCEMIN_INTERNAL \<equiv> 268435461"
abbreviation (input) VSI_NN_OP_REDUCEPROD_INTERNAL :: int where "VSI_NN_OP_REDUCEPROD_INTERNAL \<equiv> 268435462"
abbreviation (input) VSI_NN_OP_REDUCEALL_INTERNAL :: int where "VSI_NN_OP_REDUCEALL_INTERNAL \<equiv> 268435463"
abbreviation (input) VSI_NN_OP_REDUCEANY_INTERNAL :: int where "VSI_NN_OP_REDUCEANY_INTERNAL \<equiv> 268435464"
abbreviation (input) VSI_NN_OP_RESIZE_INTERNAL :: int where "VSI_NN_OP_RESIZE_INTERNAL \<equiv> 268435465"
abbreviation (input) VSI_NN_OP_RESIZE_NEAREST_INTERNAL :: int where "VSI_NN_OP_RESIZE_NEAREST_INTERNAL \<equiv> 268435466"
abbreviation (input) VSI_NN_OP_GRUCELL_ACTIVATION_INTERNAL :: int where "VSI_NN_OP_GRUCELL_ACTIVATION_INTERNAL \<equiv> 268435468"
abbreviation (input) VSI_NN_OP_GRUCELL_ACTIVATION_INTERNAL_SMA :: int where "VSI_NN_OP_GRUCELL_ACTIVATION_INTERNAL_SMA \<equiv> 268435469"
abbreviation (input) VSI_NN_OP_RESIZE_1D_BILINEAR_INTERNAL :: int where "VSI_NN_OP_RESIZE_1D_BILINEAR_INTERNAL \<equiv> 268435470"
abbreviation (input) VSI_NN_OP_RESIZE_1D_NEAREST_INTERNAL :: int where "VSI_NN_OP_RESIZE_1D_NEAREST_INTERNAL \<equiv> 268435471"
abbreviation (input) VSI_NN_OP_SPACE2DEPTH_INTERNAL :: int where "VSI_NN_OP_SPACE2DEPTH_INTERNAL \<equiv> 268435472"
abbreviation (input) VSI_NN_OP_GRUCELL_H_TIMES_ACTIVATION_R :: int where "VSI_NN_OP_GRUCELL_H_TIMES_ACTIVATION_R \<equiv> 268435473"
abbreviation (input) VSI_NN_OP_GRUCELL_ACTIVATION_Z_H :: int where "VSI_NN_OP_GRUCELL_ACTIVATION_Z_H \<equiv> 268435474"
abbreviation (input) VSI_NN_OP_REDUCE_MEAN_INTERNAL :: int where "VSI_NN_OP_REDUCE_MEAN_INTERNAL \<equiv> 268435475"

text \<open>
  The \<^verbatim>\<open>check\<close> entry of an operation. \<open>Stream_types\<close> is a table that does not count on the stream
  processor; its flag tells if the outputs are looked at. \<open>Delegate\<close> is the check of another
  operation, \<open>Always\<close> returns TRUE.
\<close>

datatype check_proc =
    Types nat nat io_table
  | Stream_types bool nat nat io_table
  | Delegate int
  | Always
  | Check_matrixmul | Check_tile | Check_pad | Check_pad2 | Check_sequence_mask | Check_strided_slice
  | Check_concat | Check_split | Check_slice | Check_batch2space | Check_space2batch

text \<open>The operations whose check is modelled.\<close>

definition op_procs :: "(int \<times> check_proc) list" where
  "op_procs =
    [(VSI_NN_OP_MINIMUM, Stream_types True 2 1 MINIMUM_types), (VSI_NN_OP_ADD, Stream_types False 2 0 ADD_types),
     (VSI_NN_OP_DIVIDE, Stream_types True 2 1 DIVIDE_types),
     (VSI_NN_OP_INSTANCE_NORM, Stream_types True 3 1 INSTANCE_NORM_types),
     (VSI_NN_OP_L1_LAYER_NORM, Stream_types True 4 1 L1_LAYER_NORM_types),
     (VSI_NN_OP_L2_NORMALIZE, Stream_types True 1 1 L2_NORMALIZE_types),
     (VSI_NN_OP_LAYER_NORM, Stream_types True 3 1 LAYER_NORM_types),
     (VSI_NN_OP_RMSNORM, Stream_types True 2 1 RMS_NORM_types), (VSI_NN_OP_RSQRT, Stream_types True 1 1 RSQRT_types),
     (VSI_NN_OP_SOFTMAX, Stream_types True 1 1 SOFTMAX_types), (VSI_NN_OP_ARGMAX, Types 1 1 ARGMIN_types),
     (VSI_NN_OP_ARGMIN, Types 1 1 ARGMIN_types), (VSI_NN_OP_AVG_POOL3D, Types 1 1 AVG_POOL3D_types),
     (VSI_NN_OP_BUCKETIZE, Types 2 1 BUCKETIZE_types), (VSI_NN_OP_CAST, Types 1 1 CAST_types),
     (VSI_NN_OP_CLIP, Types 1 1 CLIP_types), (VSI_NN_OP_COL2IM, Types 1 1 COL2IM_types),
     (VSI_NN_OP_CROP_AND_RESIZE, Types 3 1 CROP_AND_RESIZE_types), (VSI_NN_OP_CUMSUM, Types 1 1 CUMSUM_types),
     (VSI_NN_OP_DATACONVERT, Types 1 1 DATACONVERT_types), (VSI_NN_OP_POW, Types 2 1 POW_types),
     (VSI_NN_OP_SIN, Types 1 1 ELTWISE_UNARY_types), (VSI_NN_OP_COS, Types 1 1 ELTWISE_UNARY_types),
     (VSI_NN_OP_EXP, Types 1 1 ELTWISE_UNARY_types), (VSI_NN_OP_LOG, Types 1 1 ELTWISE_UNARY_types),
     (VSI_NN_OP_ELU, Types 1 1 ELTWISE_UNARY_types), (VSI_NN_OP_NEG, Types 1 1 ELTWISE_UNARY_types),
     (VSI_NN_OP_HARD_SIGMOID, Types 1 1 ELTWISE_UNARY_types), (VSI_NN_OP_MISH, Types 1 1 ELTWISE_UNARY_types),
     (VSI_NN_OP_ROUND, Types 1 1 ELTWISE_UNARY_types), (VSI_NN_OP_GELU, Types 1 1 ELTWISE_UNARY_types),
     (VSI_NN_OP_SELU, Types 1 1 ELTWISE_UNARY_types), (VSI_NN_OP_CELU, Types 1 1 ELTWISE_UNARY_types),
     (VSI_NN_OP_RCP, Types 1 1 ELTWISE_UNARY_types), (VSI_NN_OP_SIGN, Types 1 1 ELTWISE_UNARY_types),
     (VSI_NN_OP_SOFTSIGN, Types 1 1 ELTWISE_UNARY_types), (VSI_NN_OP_ATAN, Types 1 1 ELTWISE_UNARY_types),
     (VSI_NN_OP_ATANH, Types 1 1 ELTWISE_UNARY_types), (VSI_NN_OP_ACOSH, Types 1 1 ELTWISE_UNARY_types),
     (VSI_NN_OP_INVERSE_SIGMOID, Types 1 1 ELTWISE_UNARY_types), (VSI_NN_OP_TAN, Types 1 1 ELTWISE_UNARY_types),
     (VSI_NN_OP_EMBEDDING_LOOKUP, Types 2 1 EMBEDDING_LOOKUP_types), (VSI_NN_OP_ERF, Types 1 1 ERF_types),
     (VSI_NN_OP_EXPAND_BROADCAST, Types 1 1 EXPAND_BROADCAST_types),
     (VSI_NN_OP_EXTRA_ENDING, Types 1 1 EXTRA_ENDING_types), (VSI_NN_OP_FLOOR, Types 1 1 FLOOR_types),
     (VSI_NN_OP_FLOORDIV, Types 2 1 FLOORDIV_types), (VSI_NN_OP_GATHER, Types 2 1 GATHER_types),
     (VSI_NN_OP_GATHER_ELEMENTS, Types 2 1 GATHER_ELEMENTS_types), (VSI_NN_OP_GATHER_ND, Types 2 1 GATHER_ND_types),
     (VSI_NN_OP_GLOBALLPPOOL, Types 1 1 GLOBALLPPOOL_types),
     (VSI_NN_OP_HASHTABLE_LOOKUP, Types 3 2 HASHTABLE_LOOKUP_types),
     (VSI_NN_OP_L2NORMALIZESCALE, Types 2 1 L2NORMALIZESCALE_types),
     (VSI_NN_OP_LOG_SOFTMAX, Types 1 1 LOG_SOFTMAX_types), (VSI_NN_OP_LOGICAL_NOT, Types 1 1 LOGICAL_NOT_types),
     (VSI_NN_OP_LOGICAL_OPS, Types 2 1 LOGICAL_OPS_types), (VSI_NN_OP_LPNORM, Types 1 1 LPNORM_types),
     (VSI_NN_OP_LPPOOL, Types 1 1 LPPOOL_types), (VSI_NN_OP_LRN, Types 1 1 LRN_types),
     (VSI_NN_OP_MAXPOOLWITHARGMAX, Types 1 2 MAXPOOLWITHARGMAX_types),
     (VSI_NN_OP_MAXUNPOOL, Types 2 1 MAXUNPOOL_types), (VSI_NN_OP_MOD, Types 2 1 MOD_types),
     (VSI_NN_OP_MOMENTS, Types 1 2 MOMENTS_types), (VSI_NN_OP_ONE_HOT, Types 1 1 ONE_HOT_types),
     (VSI_NN_OP_PERMUTE, Types 1 1 PERMUTE_types), (VSI_NN_OP_POOL, Types 1 1 POOL_types),
     (VSI_NN_OP_PRE_PROCESS_BGRA, Types 1 1 PRE_PROCESS_BGRA_types),
     (VSI_NN_OP_PRE_PROCESS_GRAY, Types 1 1 PRE_PROCESS_GRAY_types),
     (VSI_NN_OP_PRE_PROCESS_NV12, Types 2 1 PRE_PROCESS_NV12_types),
     (VSI_NN_OP_PRE_PROCESS_RGB, Types 1 1 PRE_PROCESS_RGB_types),
     (VSI_NN_OP_PRE_PROCESS_YUV420, Types 3 1 PRE_PROCESS_YUV420_types),
     (VSI_NN_OP_PRE_PROCESS_YUV422, Types 1 1 PRE_PROCESS_YUV422_types),
     (VSI_NN_OP_PRE_PROCESS_YUV444, Types 3 1 PRE_PROCESS_YUV444_types), (VSI_NN_OP_PRELU, Types 2 1 PRELU_types),
     (VSI_NN_OP_RANDOM_MULTINOMIAL, Types 2 1 RANDOM_MULTINOMIAL_types),
     (VSI_NN_OP_REDUCEALL_INTERNAL, Types 1 1 REDUCEALL_INTERNAL_types),
     (VSI_NN_OP_REDUCEANY_INTERNAL, Types 1 1 REDUCEANY_INTERNAL_types),
     (VSI_NN_OP_REDUCEMAX_INTERNAL, Types 1 1 REDUCEMAX_INTERNAL_types),
     (VSI_NN_OP_REDUCEMIN_INTERNAL, Types 1 1 REDUCEMIN_INTERNAL_types),
     (VSI_NN_OP_REDUCEPROD_INTERNAL, Types 1 1 REDUCEPROD_INTERNAL_types),
     (VSI_NN_OP_RELATIONAL_OPS, Types 2 1 RELATIONAL_OPS_types),
     (VSI_NN_OP_RELU_KERAS_INTERNAL, Types 1 1 RELU_KERAS_INTERNAL_types),
     (VSI_NN_OP_RESIZE_1D_BILINEAR_INTERNAL, Types 1 1 RESIZE_1D_BILINEAR_INTERNAL_types),
     (VSI_NN_OP_RESIZE_1D_NEAREST_INTERNAL, Types 1 1 RESIZE_1D_NEAREST_INTERNAL_types),
     (VSI_NN_OP_RESIZE_3D, Types 1 1 RESIZE_3D_types), (VSI_NN_OP_RESIZE_INTERNAL, Types 1 1 RESIZE_INTERNAL_types),
     (VSI_NN_OP_RESIZE_NEAREST_INTERNAL, Types 1 1 RESIZE_NEAREST_INTERNAL_types),
     (VSI_NN_OP_REVERSE, Types 1 1 REVERSE_types), (VSI_NN_OP_ROI_ALIGN, Types 3 1 ROI_ALIGN_types),
     (VSI_NN_OP_ROI_POOL, Types 2 1 ROI_POOL_types), (VSI_NN_OP_ROPE, Types 3 1 ROPE_types),
     (VSI_NN_OP_SCATTER_ELEMENTS, Types 3 1 SCATTER_ELEMENTS_types),
     (VSI_NN_OP_SCATTER_ND, Types 2 1 SCATTER_ND_types),
     (VSI_NN_OP_SCATTER_ND_UPDATE, Types 3 1 SCATTER_ND_UPDATE_types), (VSI_NN_OP_SELECT, Types 3 1 SELECT_types),
     (VSI_NN_OP_SIGNAL_FRAME, Types 1 1 SIGNAL_FRAME_types),
     (VSI_NN_OP_SPACE2DEPTH_INTERNAL, Types 1 1 SPACE2DEPTH_INTERNAL_types),
     (VSI_NN_OP_SPATIAL_TRANSFORMER, Types 2 1 SPATIAL_TRANSFORMER_types),
     (VSI_NN_OP_TENSOR_ADD_MEAN_STDDEV_NORM, Types 2 1 TENSOR_ADD_MEAN_STDDEV_NORM_types),
     (VSI_NN_OP_TOPK, Types 1 2 TOPK_types), (VSI_NN_OP_UPSAMPLE, Types 2 1 UPSAMPLE_types),
     (VSI_NN_OP_UPSAMPLESCALE, Types 1 1 UPSAMPLESCALE_types), (VSI_NN_OP_ADDN, Always),
     (VSI_NN_OP_BIDIRECTIONAL_SEQUENCE_LSTM, Always), (VSI_NN_OP_BIDIRECTIONAL_SEQUENCE_RNN, Always),
     (VSI_NN_OP_BOX_WITH_NMS_LIMIT, Always), (VSI_NN_OP_CONV2D_LSTM, Always), (VSI_NN_OP_CONV2D_LSTM_CELL, Always),
     (VSI_NN_OP_GRU, Always), (VSI_NN_OP_GRU_OVXLIB, Always), (VSI_NN_OP_GRUCELL_ACTIVATION, Always),
     (VSI_NN_OP_GRUCELL_ACTIVATION_INTERNAL, Always), (VSI_NN_OP_GRUCELL_ACTIVATION_INTERNAL_SMA, Always),
     (VSI_NN_OP_GRUCELL_ACTIVATION_Z_H, Always), (VSI_NN_OP_GRUCELL_H_TIMES_ACTIVATION_R, Always),
     (VSI_NN_OP_GRUCELL_OVXLIB, Always), (VSI_NN_OP_LSH_PROJECTION, Always), (VSI_NN_OP_LSTM_OVXLIB, Always),
     (VSI_NN_OP_LSTMUNIT, Always), (VSI_NN_OP_LSTMUNIT_ACTIVATION, Always), (VSI_NN_OP_LSTMUNIT_OVXLIB, Always),
     (VSI_NN_OP_NBG, Always), (VSI_NN_OP_NMS, Always), (VSI_NN_OP_NOOP, Always), (VSI_NN_OP_POST_PROCESS, Always),
     (VSI_NN_OP_PRE_PROCESS, Always), (VSI_NN_OP_PRE_PROCESS_TENSOR, Always), (VSI_NN_OP_PROPOSAL, Always),
     (VSI_NN_OP_REDUCE, Always), (VSI_NN_OP_REDUCE_MEAN_INTERNAL, Always), (VSI_NN_OP_REDUCEL2, Always),
     (VSI_NN_OP_REDUCESUM_INTERNAL, Always), (VSI_NN_OP_RELU_KERAS, Always), (VSI_NN_OP_RESIZE, Always),
     (VSI_NN_OP_RESIZE_1D, Always), (VSI_NN_OP_RNNCELL_OVXLIB, Always), (VSI_NN_OP_SCALE, Always),
     (VSI_NN_OP_SOFTMAX_INTERNAL, Always), (VSI_NN_OP_STACK, Always), (VSI_NN_OP_SYNC_HOST, Always),
     (VSI_NN_OP_UNIDIRECTIONAL_SEQUENCE_RNN, Always), (VSI_NN_OP_UNSTACK, Always),
     (VSI_NN_OP_MATRIXMUL, Check_matrixmul), (VSI_NN_OP_TILE, Check_tile), (VSI_NN_OP_PAD, Check_pad),
     (VSI_NN_OP_PAD2, Check_pad2), (VSI_NN_OP_SEQUENCE_MASK, Check_sequence_mask),
     (VSI_NN_OP_STRIDED_SLICE, Check_strided_slice), (VSI_NN_OP_CONCAT, Check_concat),
     (VSI_NN_OP_SPLIT, Check_split), (VSI_NN_OP_SLICE, Check_slice), (VSI_NN_OP_BATCH2SPACE, Check_batch2space),
     (VSI_NN_OP_SPACE2BATCH, Check_space2batch), (VSI_NN_OP_CEIL, Delegate VSI_NN_OP_FLOOR),
     (VSI_NN_OP_CROP, Delegate VSI_NN_OP_STRIDED_SLICE), (VSI_NN_OP_MAXIMUM, Delegate VSI_NN_OP_MINIMUM),
     (VSI_NN_OP_SUBTRACT, Delegate VSI_NN_OP_ADD), (VSI_NN_OP_MULTIPLY, Delegate VSI_NN_OP_ADD),
     (VSI_NN_OP_LRN2, Delegate VSI_NN_OP_LRN), (VSI_NN_OP_MAX_POOL3D, Delegate VSI_NN_OP_POOL),
     (VSI_NN_OP_RELU, Delegate VSI_NN_OP_RSQRT), (VSI_NN_OP_RELU1, Delegate VSI_NN_OP_RELU),
     (VSI_NN_OP_RELU6, Delegate VSI_NN_OP_RELU), (VSI_NN_OP_RELUN, Delegate VSI_NN_OP_RELU),
     (VSI_NN_OP_REORG, Delegate VSI_NN_OP_STRIDED_SLICE), (VSI_NN_OP_RESHAPE, Delegate VSI_NN_OP_DATACONVERT),
     (VSI_NN_OP_RESHAPE2, Delegate VSI_NN_OP_DATACONVERT), (VSI_NN_OP_SIGMOID, Delegate VSI_NN_OP_RSQRT),
     (VSI_NN_OP_SOFTRELU, Delegate VSI_NN_OP_RSQRT), (VSI_NN_OP_SQRT, Delegate VSI_NN_OP_RSQRT),
     (VSI_NN_OP_SQUARE, Delegate VSI_NN_OP_RSQRT), (VSI_NN_OP_SWISH, Delegate VSI_NN_OP_RSQRT),
     (VSI_NN_OP_TANH, Delegate VSI_NN_OP_RSQRT), (VSI_NN_OP_VARIABLE, Delegate VSI_NN_OP_DATACONVERT),
     (VSI_NN_OP_ABS, Delegate VSI_NN_OP_RELU), (VSI_NN_OP_LEAKY_RELU, Delegate VSI_NN_OP_RELU),
     (VSI_NN_OP_LINEAR, Delegate VSI_NN_OP_RELU), (VSI_NN_OP_DROPOUT, Delegate VSI_NN_OP_LINEAR)]"

text \<open>The operations whose check an entry asks for stand before it in the list.\<close>

fun targets :: "check_proc \<Rightarrow> int list" where
  "targets (Delegate d) = [d]"
| "targets Check_slice = [VSI_NN_OP_STRIDED_SLICE]"
| "targets Check_batch2space = [VSI_NN_OP_STRIDED_SLICE]"
| "targets Check_space2batch = [VSI_NN_OP_STRIDED_SLICE]"
| "targets _ = []"

definition op_pos :: "int \<Rightarrow> nat" where
  "op_pos op = length (takeWhile (\<lambda>x. fst x \<noteq> op) op_procs)"

fun ordered :: "int list \<Rightarrow> (int \<times> check_proc) list \<Rightarrow> bool" where
  "ordered seen [] = True"
| "ordered seen (x # xs) = (list_all (\<lambda>d. d \<in> set seen) (targets (snd x)) \<and> fst x \<notin> set seen \<and> ordered (fst x # seen) xs)"

lemma ordered_pos:
  "ordered (rev (map fst ys)) xs \<Longrightarrow> procs = ys @ xs \<Longrightarrow> distinct (map fst ys) \<Longrightarrow> x \<in> set xs \<Longrightarrow> d \<in> set (targets (snd x)) \<Longrightarrow>
    length (takeWhile (\<lambda>z. fst z \<noteq> d) procs) < length (takeWhile (\<lambda>z. fst z \<noteq> fst x) procs)"
proof (induction xs arbitrary: ys)
  case (Cons z zs)
  show ?case
  proof (cases "x = z")
    case True
    have 1: "d \<in> set (map fst ys)" "fst z \<notin> set (map fst ys)"
      using Cons.prems(1,5) True by (auto simp: list_all_iff)
    have "\<forall>u \<in> set ys. fst u \<noteq> fst z" using 1(2) by (metis image_eqI set_map)
    then have "takeWhile (\<lambda>u. fst u \<noteq> fst z) (ys @ z # zs) = ys" by (subst takeWhile_append2) auto
    moreover have "length (takeWhile (\<lambda>u. fst u \<noteq> d) (ys @ z # zs)) < length ys"
    proof -
      obtain y where y: "y \<in> set ys" "\<not> fst y \<noteq> d" using 1(1) by auto
      then have "takeWhile (\<lambda>u. fst u \<noteq> d) (ys @ z # zs) = takeWhile (\<lambda>u. fst u \<noteq> d) ys"
        by (rule takeWhile_append1)
      moreover have "takeWhile (\<lambda>u. fst u \<noteq> d) ys \<noteq> ys" using y by (auto simp: takeWhile_eq_all_conv)
      ultimately show ?thesis
        by (metis length_takeWhile_le nat_less_le takeWhile_eq_take take_all_iff)
    qed
    ultimately show ?thesis using Cons.prems(2) True by simp
  next
    case False
    have "ordered (rev (map fst (ys @ [z]))) zs" "procs = (ys @ [z]) @ zs" "distinct (map fst (ys @ [z]))"
      using Cons.prems(1-3) by auto
    from Cons.IH[OF this] False Cons.prems(4,5) show ?thesis by auto
  qed
qed simp

lemma op_procs_ordered: "ordered [] op_procs"
  by (simp add: op_procs_def)

lemma targets_before:
  assumes "map_of op_procs op = Some p" "d \<in> set (targets p)"
  shows "op_pos d < op_pos op"
  using ordered_pos[of "[]" op_procs op_procs "(op, p)" d] op_procs_ordered assms
  by (simp add: op_pos_def map_of_SomeD)

function OpCheck ::
  "check_env \<Rightarrow> int \<Rightarrow> op_node \<Rightarrow> op_tensor option list \<Rightarrow> op_tensor option list \<Rightarrow> checked" where
  "OpCheck e op nd ins outs =
     (case map_of op_procs op of
        None \<Rightarrow> Some (Inl No_op)
      | Some p \<Rightarrow>
          if \<not> ce_opcheck e then check_ok
          else (case p of
            Types i k rows \<Rightarrow> check_types e 0 (op_reg i k rows) ins (on_inputs nd) (on_inputs nd) outs (on_outputs nd)
          | Stream_types uo i k rows \<Rightarrow>
              check_stream_types e (op_reg i k rows) nd ins outs (if uo then on_outputs nd else 0)
          | Delegate d \<Rightarrow> OpCheck e d nd ins outs
          | Always \<Rightarrow> check_ok
          | Check_matrixmul \<Rightarrow> op_check_matmul e nd ins outs
          | Check_tile \<Rightarrow> op_check_tile e nd ins outs
          | Check_pad \<Rightarrow> op_check_pad e nd ins outs
          | Check_pad2 \<Rightarrow> op_check_pad2 e nd ins outs
          | Check_sequence_mask \<Rightarrow> op_check_sequence_mask e nd ins outs
          | Check_strided_slice \<Rightarrow> op_check_strided_slice e nd ins outs
          | Check_concat \<Rightarrow> op_check_concat nd ins outs
          | Check_split \<Rightarrow> op_check_split e nd ins outs
          | Check_slice \<Rightarrow>
              (if 1 < on_inputs nd
               then check_types e 0 (op_reg 2 1 SLICE_types) ins (on_inputs nd) (on_inputs nd) outs (on_outputs nd)
               else OpCheck e VSI_NN_OP_STRIDED_SLICE nd ins outs)
          | Check_batch2space \<Rightarrow>
              check_then (op_check_batch2space nd ins) (OpCheck e VSI_NN_OP_STRIDED_SLICE nd ins outs)
          | Check_space2batch \<Rightarrow>
              check_then (op_check_space2batch nd ins) (OpCheck e VSI_NN_OP_STRIDED_SLICE nd ins outs)))"
  by pat_completeness auto

termination
  by (relation "measure (\<lambda>(e, op, _). op_pos op)") (auto dest: targets_before)

declare OpCheck.simps [simp del]

end
