(* ===== verification/Op_Slice.thy ===== *)
theory Op_Slice
  imports Op_Shape
begin

text \<open>
  The operation \<open>STRIDED_SLICE\<close> (\<^verbatim>\<open>src/tim/vx/internal/src/ops/vsi_nn_op_strided_slice.c\<close>) and the
  operations that are set up through it, \<open>SPLIT\<close> and \<open>SLICE\<close>. Positions are 32-bit signed
  numbers, kept as integers in that range: a conversion from an unsigned number is written as
  \<open>sint\<close>, and a loop counter that leaves the range is \<open>None\<close>. Masks are words.
\<close>

text \<open>\<open>vsi_nn_clamp\<close>\<close>

definition clamp :: "int \<Rightarrow> int \<Rightarrow> int \<Rightarrow> int" where
  "clamp x lo hi = (if x < lo then lo else if x > hi then hi else x)"

subsection \<open>The ends of a range\<close>

definition get_slice_axis_value :: "int \<Rightarrow> uint32 \<Rightarrow> int" where
  "get_slice_axis_value value dimension_size =
     (if value < 0 then sint (word_of_int value + dimension_size) else value)"

definition get_slice_mask_start_value :: "int \<Rightarrow> uint32 \<Rightarrow> int" where
  "get_slice_mask_start_value stride dimension_size = (if stride > 0 then 0 else sint (dimension_size - 1))"

definition get_slice_mask_stop_value :: "int \<Rightarrow> uint32 \<Rightarrow> int" where
  "get_slice_mask_stop_value stride dimension_size = (if stride > 0 then sint dimension_size else - 1)"

definition get_slice_clamp_stop :: "int \<Rightarrow> int \<Rightarrow> uint32 \<Rightarrow> int" where
  "get_slice_clamp_stop stride stop dimension_size =
     (if stride > 0 then clamp stop 0 (sint dimension_size) else clamp stop (- 1) (sint dimension_size - 1))"

subsection \<open>Parameters in the order of the dimensions\<close>

text \<open>The parameters of a node, and those that the setup computes from them.\<close>

record slice_node =
  sn_begin :: "int list"
  sn_begin_num :: uint32
  sn_end :: "int list"
  sn_end_num :: uint32
  sn_stride :: "int list"
  sn_stride_num :: uint32
  sn_begin_mask :: uint32
  sn_end_mask :: uint32
  sn_shrink_mask :: uint32
  sn_new_mask :: uint32

text \<open>The three counters of the C struct are always equal: \<open>sp_num\<close>.\<close>

record slice_params =
  sp_begin :: "int list"
  sp_end :: "int list"
  sp_stride :: "int list"
  sp_num :: nat
  sp_begin_mask :: uint32
  sp_end_mask :: uint32
  sp_shrink_mask :: uint32
  sp_new_mask :: uint32
  sp_add_axis :: nat

text \<open>The number of the highest bit plus 1, at most 8; a negative mask has 8.\<close>

fun leading_bits :: "nat \<Rightarrow> nat \<Rightarrow> uint32 \<Rightarrow> nat" where
  "leading_bits leading 0 bits = leading"
| "leading_bits leading (Suc n) bits =
     (if bits = 0 then leading else leading_bits (leading + 1) n (signed_drop_bit 1 bits))"

fun reverse_bits :: "nat \<Rightarrow> nat \<Rightarrow> nat \<Rightarrow> uint32 \<Rightarrow> uint32 \<Rightarrow> uint32" where
  "reverse_bits dims i 0 m new_mask = new_mask"
| "reverse_bits dims i (Suc n) m new_mask =
     reverse_bits dims (Suc i) n m (if bit m i then new_mask OR push_bit (dims - i - 1) 1 else new_mask)"

definition reverse_mask_bits :: "uint32 \<Rightarrow> nat \<Rightarrow> uint32" where
  "reverse_mask_bits m dims =
     (let d = max dims (leading_bits 0 8 m) in reverse_bits d 0 d m 0)"

fun reverse_loop :: "int list \<Rightarrow> nat \<Rightarrow> nat \<Rightarrow> nat \<Rightarrow> int list \<Rightarrow> int list option" where
  "reverse_loop src dims i 0 dst = Some dst"
| "reverse_loop src dims i (Suc n) dst = do {
     v \<leftarrow> rd src i;
     dst' \<leftarrow> wr dst (dims - i - 1) v;
     reverse_loop src dims (Suc i) n dst' }"

definition reverse_indices :: "int list \<Rightarrow> int list \<Rightarrow> nat \<Rightarrow> int list option" where
  "reverse_indices dst src dims = reverse_loop src dims 0 dims dst"

text \<open>The arrays and masks that the main loop fills, one entry for each dimension of the input.\<close>

record slice_acc =
  ac_begin :: "int list"
  ac_end :: "int list"
  ac_stride :: "int list"
  ac_num :: nat
  ac_start_mask :: uint32
  ac_stop_mask :: uint32
  ac_shrink_mask :: uint32

definition acc_push :: "int \<Rightarrow> int \<Rightarrow> int \<Rightarrow> slice_acc \<Rightarrow> slice_acc option" where
  "acc_push b e s ac = do {
     bs \<leftarrow> wr (ac_begin ac) (ac_num ac) b;
     es \<leftarrow> wr (ac_end ac) (ac_num ac) e;
     ss \<leftarrow> wr (ac_stride ac) (ac_num ac) s;
     Some (ac\<lparr>ac_begin := bs, ac_end := es, ac_stride := ss, ac_num := ac_num ac + 1\<rparr>) }"

definition set_if :: "bool \<Rightarrow> nat \<Rightarrow> uint32 \<Rightarrow> uint32" where
  "set_if c k m = (if c then m OR push_bit k 1 else m)"

fun build_loop ::
  "uint32 \<Rightarrow> nat \<Rightarrow> uint32 \<times> uint32 \<times> uint32 \<Rightarrow> int list \<times> int list \<times> int list \<Rightarrow> nat \<Rightarrow> nat \<Rightarrow> slice_acc \<Rightarrow> slice_acc option" where
  "build_loop new_mask num masks idx i 0 ac = Some ac"
| "build_loop new_mask num masks idx i (Suc n) ac =
     (if bit new_mask i then build_loop new_mask num masks idx (Suc i) n ac
      else if i \<ge> num then do {
        let k = ac_num ac;
        ac' \<leftarrow> acc_push 0 0 1
          (ac\<lparr>ac_start_mask := set_if True k (ac_start_mask ac), ac_stop_mask := set_if True k (ac_stop_mask ac)\<rparr>);
        build_loop new_mask num masks idx (Suc i) n ac' }
      else do {
        let k = ac_num ac;
        let (begin_mask, end_mask, shrink_mask) = masks;
        let (begins, ends, strides) = idx;
        b \<leftarrow> rd begins i; e \<leftarrow> rd ends i; s \<leftarrow> rd strides i;
        ac' \<leftarrow> acc_push b e s
          (ac\<lparr>ac_start_mask := set_if (bit begin_mask i) k (ac_start_mask ac),
              ac_stop_mask := set_if (bit end_mask i) k (ac_stop_mask ac),
              ac_shrink_mask := set_if (bit shrink_mask i) k (ac_shrink_mask ac)\<rparr>);
        build_loop new_mask num masks idx (Suc i) n ac' })"

definition count_bits :: "uint32 \<Rightarrow> nat \<Rightarrow> nat" where
  "count_bits m n = length (filter (bit m) [0..<n])"

text \<open>
  The indices come in the order of the dimensions and are handled in the reverse order, for which
  the masks are reversed too. \<open>old\<close> holds the arrays of an earlier call.
\<close>

definition build_strided_slice_params :: "slice_node \<Rightarrow> nat \<Rightarrow> slice_params \<Rightarrow> slice_params option" where
  "build_strided_slice_params p input_dims old = do {
     let begin_mask = reverse_mask_bits (sn_begin_mask p) input_dims;
     let end_mask = reverse_mask_bits (sn_end_mask p) input_dims;
     let shrink_mask = reverse_mask_bits (sn_shrink_mask p) input_dims;
     begins \<leftarrow> reverse_indices (replicate 8 0) (sn_begin p) (nat (sint (sn_begin_num p)));
     ends \<leftarrow> reverse_indices (replicate 8 0) (sn_end p) (nat (sint (sn_end_num p)));
     strides \<leftarrow> reverse_indices (replicate 8 0) (sn_stride p) (nat (sint (sn_stride_num p)));
     let add_axis = count_bits (sn_new_mask p) (unat (sn_begin_num p));
     let output_dims = input_dims + add_axis - count_bits (sn_shrink_mask p) (input_dims + add_axis);
     let new_mask = reverse_mask_bits (sn_new_mask p) output_dims;
     ac \<leftarrow> build_loop new_mask (unat (sn_begin_num p)) (begin_mask, end_mask, shrink_mask) (begins, ends, strides)
       0 (input_dims + add_axis)
       \<lparr>ac_begin = replicate 8 0, ac_end = replicate 8 0, ac_stride = replicate 8 0, ac_num = 0,
        ac_start_mask = 0, ac_stop_mask = 0, ac_shrink_mask = 0\<rparr>;
     bs \<leftarrow> reverse_indices (sp_begin old) (ac_begin ac) (ac_num ac);
     es \<leftarrow> reverse_indices (sp_end old) (ac_end ac) (ac_num ac);
     ss \<leftarrow> reverse_indices (sp_stride old) (ac_stride ac) (ac_num ac);
     Some \<lparr>sp_begin = bs, sp_end = es, sp_stride = ss, sp_num = ac_num ac,
       sp_begin_mask = reverse_mask_bits (ac_start_mask ac) input_dims,
       sp_end_mask = reverse_mask_bits (ac_stop_mask ac) input_dims,
       sp_shrink_mask = reverse_mask_bits (ac_shrink_mask ac) input_dims,
       sp_new_mask = sn_new_mask p, sp_add_axis = add_axis\<rparr> }"

subsection \<open>The shape of the output\<close>

definition add_s32 :: "int \<Rightarrow> int \<Rightarrow> int option" where
  "add_s32 a b = (if - (2 ^ 31) \<le> a + b \<and> a + b < 2 ^ 31 then Some (a + b) else None)"

text \<open>The code counts the selected positions one by one; a stride of 0 never gets to the end.\<close>

partial_function (option) slice_count :: "int \<Rightarrow> int \<Rightarrow> int \<Rightarrow> nat \<Rightarrow> nat option" where
  "slice_count stride stop j output_size =
     (if (if stride > 0 then j \<ge> stop else j \<le> stop) then Some output_size
      else Option.bind (add_s32 j stride) (\<lambda>j'. slice_count stride stop j' (output_size + 1)))"

definition slice_begin :: "slice_params \<Rightarrow> uint32 \<Rightarrow> nat \<Rightarrow> int option" where
  "slice_begin p n i = do {
     b \<leftarrow> rd (sp_begin p) i;
     s \<leftarrow> rd (sp_stride p) i;
     Some (clamp (if bit (sp_begin_mask p) i then get_slice_mask_start_value s n else get_slice_axis_value b n)
       0 (sint n - 1)) }"

definition slice_dim :: "slice_params \<Rightarrow> tshape \<Rightarrow> nat \<Rightarrow> uint32 option" where
  "slice_dim p in0 i = do {
     n \<leftarrow> rd (ts_size in0) i;
     b \<leftarrow> slice_begin p n i;
     e \<leftarrow> rd (sp_end p) i;
     s \<leftarrow> rd (sp_stride p) i;
     let stop = (if bit (sp_end_mask p) i then get_slice_mask_stop_value s n
                 else if bit (sp_shrink_mask p) i then b + 1
                 else get_slice_axis_value e n);
     m \<leftarrow> slice_count s (get_slice_clamp_stop s stop n) b 0;
     Some (of_nat m) }"

text \<open>New dimensions have size 1, shrunk ones are left out; \<open>idx\<close> counts the dimensions of the input.\<close>

fun slice_output ::
  "slice_params \<Rightarrow> uint32 list \<Rightarrow> nat \<Rightarrow> nat \<Rightarrow> nat \<Rightarrow> nat \<Rightarrow> vsi_size_t list \<Rightarrow> (nat \<times> vsi_size_t list) option" where
  "slice_output p shape i idx 0 d sizes = Some (d, sizes)"
| "slice_output p shape i idx (Suc n) d sizes =
     (if bit (sp_new_mask p) i then do {
        sizes' \<leftarrow> wr sizes d 1;
        slice_output p shape (Suc i) idx n (d + 1) sizes' }
      else if bit (sp_shrink_mask p) idx then slice_output p shape (Suc i) (idx + 1) n d sizes
      else do {
        v \<leftarrow> rd shape idx;
        sizes' \<leftarrow> wr sizes d v;
        slice_output p shape (Suc i) (idx + 1) n (d + 1) sizes' })"

definition slice_shape :: "slice_params \<Rightarrow> tshape \<Rightarrow> tshape \<Rightarrow> tshape option" where
  "slice_shape p in0 out =
     (if ts_dim out \<noteq> 0 then Some out
      else do {
        shape \<leftarrow> fill (unat (ts_dim in0)) 0 0 (slice_dim p in0) (replicate 8 0);
        (d, sizes) \<leftarrow> slice_output p shape 0 0 (unat (ts_dim in0) + sp_add_axis p) 0 (ts_size out);
        if d = 0 then do {
          sizes' \<leftarrow> wr sizes 0 1;
          Some (out\<lparr>ts_dim := 1, ts_size := sizes', ts_scalar := True\<rparr>) }
        else Some (out\<lparr>ts_dim := of_nat d, ts_size := sizes\<rparr>) })"

subsection \<open>The ranges for the driver\<close>

record slice_local =
  sl_start :: "int list"
  sl_stop :: "int list"
  sl_stride :: "int list"
  sl_begin_mask :: uint32
  sl_end_mask :: uint32
  sl_shrink_mask :: uint32

definition range_start :: "slice_params \<Rightarrow> tshape \<Rightarrow> nat \<Rightarrow> int option" where
  "range_start p in0 i = do {
     n \<leftarrow> rd (ts_size in0) i;
     b \<leftarrow> (if i < sp_num p then rd (sp_begin p) i else Some 0);
     s \<leftarrow> (if i < sp_num p then rd (sp_stride p) i else Some 1);
     Some (clamp (if bit (sp_begin_mask p) i then get_slice_mask_start_value s n
                  else if i < sp_num p then get_slice_axis_value b n else b) 0 (sint (n - 1))) }"

definition range_stop :: "slice_params \<Rightarrow> tshape \<Rightarrow> nat \<Rightarrow> int option" where
  "range_stop p in0 i = do {
     n \<leftarrow> rd (ts_size in0) i;
     e \<leftarrow> (if i < sp_num p then rd (sp_end p) i else Some 1);
     s \<leftarrow> (if i < sp_num p then rd (sp_stride p) i else Some 1);
     b \<leftarrow> range_start p in0 i;
     Some (if bit (sp_shrink_mask p) i then b + 1
           else get_slice_clamp_stop s
             (if bit (sp_end_mask p) i then get_slice_mask_stop_value s n
              else if i < sp_num p then get_slice_axis_value e n else e) n) }"

text \<open>
  Behind the rank of the input the ranges are as initialised, from 0 to 1 in steps of 1, unless a
  parameter overwrites them.
\<close>

definition range_at :: "slice_params \<Rightarrow> tshape \<Rightarrow> nat \<Rightarrow> (int \<times> int \<times> int) option" where
  "range_at p in0 i = do {
     s \<leftarrow> (if i < sp_num p then rd (sp_stride p) i else Some 1);
     if i < unat (ts_dim in0) then do {
       b \<leftarrow> range_start p in0 i;
       e \<leftarrow> range_stop p in0 i;
       Some (b, e, s) }
     else if i < sp_num p then do {
       n \<leftarrow> rd (ts_size in0) i;
       b \<leftarrow> rd (sp_begin p) i;
       e \<leftarrow> rd (sp_end p) i;
       Some (get_slice_axis_value b n, get_slice_axis_value e n, s) }
     else Some (0, 1, s) }"

definition unit_range :: "tshape \<Rightarrow> nat \<Rightarrow> int \<times> int \<times> int \<Rightarrow> int \<times> int \<times> int" where
  "unit_range out i r =
     (if i < unat (ts_dim out) \<and> ts_size out ! i = 1 \<and> snd (snd r) < 0 then (fst r, fst r + 1, 1) else r)"

text \<open>
  A negative end cannot be passed on as a position: then the driver gets the parameters as they
  are, with their masks.
\<close>

definition slice_ranges :: "slice_params \<Rightarrow> tshape \<Rightarrow> tshape \<Rightarrow> slice_local \<Rightarrow> slice_local option" where
  "slice_ranges p in0 out loc = do {
     rs \<leftarrow> fill 8 0 0 (range_at p in0) (replicate 8 (0, 0, 0));
     let rs' = map2 (unit_range out) [0..<8] rs;
     let starts = map fst rs';
     let stops = map (fst \<circ> snd) rs';
     let strides = map (snd \<circ> snd) rs';
     if list_ex (\<lambda>i. starts ! i < 0 \<or> stops ! i < 0) [0..<unat (ts_dim in0)] then do {
       starts' \<leftarrow> fill (sp_num p) 0 0 (rd (sp_begin p)) starts;
       stops' \<leftarrow> fill (sp_num p) 0 0 (rd (sp_end p)) stops;
       strides' \<leftarrow> fill (sp_num p) 0 0 (rd (sp_stride p)) strides;
       Some \<lparr>sl_start = starts', sl_stop = stops', sl_stride = strides', sl_begin_mask = sp_begin_mask p,
         sl_end_mask = sp_end_mask p, sl_shrink_mask = sp_shrink_mask p\<rparr> }
     else Some (loc\<lparr>sl_start := starts, sl_stop := stops, sl_stride := strides\<rparr>) }"

definition op_strided_slice_setup ::
  "'s graph \<Rightarrow> slice_node \<Rightarrow> tshape \<Rightarrow> tshape \<Rightarrow> slice_params \<Rightarrow> slice_local
   \<Rightarrow> (bool \<times> tshape \<times> slice_params \<times> slice_local) option" where
  "op_strided_slice_setup g p in0 out old loc = do {
     let p' = (if compareVersion g 1 1 32 = - 1 \<and> sn_begin_num p = 0
               then p\<lparr>sn_begin_num := ts_dim in0, sn_end_num := ts_dim in0, sn_stride_num := ts_dim in0\<rparr> else p);
     params \<leftarrow> build_strided_slice_params p' (unat (ts_dim in0)) old;
     out' \<leftarrow> slice_shape params in0 out;
     loc' \<leftarrow> slice_ranges params in0 out' loc;
     Some (True, out', params, loc') }"

subsection \<open>Operations built on it\<close>

text \<open>The fields of a new internal node, all zero.\<close>

definition fresh_params :: slice_params where
  "fresh_params = \<lparr>sp_begin = replicate 8 0, sp_end = replicate 8 0, sp_stride = replicate 8 0, sp_num = 0,
     sp_begin_mask = 0, sp_end_mask = 0, sp_shrink_mask = 0, sp_new_mask = 0, sp_add_axis = 0\<rparr>"

definition fresh_local :: slice_local where
  "fresh_local = \<lparr>sl_start = replicate 8 0, sl_stop = replicate 8 0, sl_stride = replicate 8 0,
     sl_begin_mask = 0, sl_end_mask = 0, sl_shrink_mask = 0\<rparr>"

definition plain_slice :: "int list \<Rightarrow> int list \<Rightarrow> int list \<Rightarrow> uint32 \<Rightarrow> slice_node" where
  "plain_slice begins ends strides num =
     \<lparr>sn_begin = begins, sn_begin_num = num, sn_end = ends, sn_end_num = num, sn_stride = strides, sn_stride_num = num,
      sn_begin_mask = 0, sn_end_mask = 0, sn_shrink_mask = 0, sn_new_mask = 0\<rparr>"

text \<open>The number of outputs up to the last one that is there.\<close>

fun split_num :: "tshape option list \<Rightarrow> nat \<Rightarrow> nat option" where
  "split_num outs 0 = None"
| "split_num outs (Suc n) = (if outs ! n = None then split_num outs n else Some (Suc n))"

definition split_step :: "vsi_size_t \<Rightarrow> uint32 list \<Rightarrow> uint32 \<Rightarrow> nat \<Rightarrow> vsi_size_t option" where
  "split_step average slices slices_num i = (if slices_num = 0 then Some average else rd slices i)"

text \<open>
  \<open>node_ok i\<close> and \<open>check_ok i\<close> say whether the internal node of output \<open>i\<close> can be created and passes
  its check. What the loop returns is the result of the last node.
\<close>

fun split_loop ::
  "'s graph \<Rightarrow> tshape \<Rightarrow> nat \<Rightarrow> (nat \<Rightarrow> vsi_size_t option) \<Rightarrow> (nat \<Rightarrow> bool) \<Rightarrow> (nat \<Rightarrow> bool) \<Rightarrow> nat \<Rightarrow> nat \<Rightarrow> vsi_size_t
   \<Rightarrow> bool \<Rightarrow> tshape option list \<Rightarrow> slice_local list \<Rightarrow> (bool \<times> tshape option list \<times> slice_local list) option" where
  "split_loop g in0 axis step node_ok check_ok i 0 start ret outs locs = Some (ret, outs, locs)"
| "split_loop g in0 axis step node_ok check_ok i (Suc n) start ret outs locs = do {
     w \<leftarrow> step i;
     let stop = start + w;
     o1 \<leftarrow> rd outs i;
     out \<leftarrow> o1;
     sizes \<leftarrow> fill 8 0 0 (rd (ts_size in0)) (ts_size out);
     sizes' \<leftarrow> wr sizes axis (stop - start);
     let out' = out\<lparr>ts_dim := ts_dim in0, ts_size := sizes'\<rparr>;
     begins \<leftarrow> wr (replicate 8 0) axis start;
     ends \<leftarrow> wr (ts_size in0) axis stop;
     strides \<leftarrow> fill (unat (ts_dim in0)) 0 0 (\<lambda>_. Some 1) (replicate 8 0);
     if \<not> node_ok i then Some (False, outs[i := Some out'], locs)
     else do {
       r \<leftarrow> op_strided_slice_setup g (plain_slice (map sint begins) (map sint ends) strides (ts_dim in0)) in0 out'
         fresh_params fresh_local;
       let (b, out'', params, loc) = r;
       split_loop g in0 axis step node_ok check_ok (Suc i) n stop (b \<and> check_ok i)
         (outs[i := Some out'']) (locs @ [loc]) } }"

definition op_split_setup ::
  "'s graph \<Rightarrow> uint32 \<Rightarrow> uint32 list \<Rightarrow> uint32 \<Rightarrow> (nat \<Rightarrow> bool) \<Rightarrow> (nat \<Rightarrow> bool) \<Rightarrow> tshape \<Rightarrow> tshape option list
   \<Rightarrow> (bool \<times> tshape option list \<times> slice_local list) option" where
  "op_split_setup g axis slices slices_num node_ok check_ok in0 outs = do {
     num \<leftarrow> split_num outs (length outs);
     average \<leftarrow> (if slices_num = 0 then do { s \<leftarrow> rd (ts_size in0) (unat axis); udiv s (of_nat num) } else Some 1);
     split_loop g in0 (unat axis) (split_step average slices slices_num) node_ok check_ok 0 num 0 False outs [] }"

text \<open>
  The check of the numbers before the setup; the sizes that are asked for are not added up. The
  whole check is in \<open>Op_Check\<close>.
\<close>

definition op_split_numbers :: "uint32 \<Rightarrow> uint32 \<Rightarrow> nat \<Rightarrow> tshape \<Rightarrow> tshape option list \<Rightarrow> bool option" where
  "op_split_numbers axis slices_num input_num in0 outs = do {
     num \<leftarrow> split_num outs (length outs);
     if input_num \<noteq> 1 then Some False
     else if slices_num = 0 then do { s \<leftarrow> rd (ts_size in0) (unat axis); Some (s mod of_nat num = 0) }
     else Some (slices_num = of_nat num) }"

text \<open>\<open>SLICE\<close>; the result holds the number of dimensions, a parameter that is set when it is 0.\<close>

definition op_slice_setup ::
  "'s graph \<Rightarrow> uint32 \<Rightarrow> uint32 list \<Rightarrow> uint32 list \<Rightarrow> nat \<Rightarrow> bool \<Rightarrow> bool \<Rightarrow> tshape \<Rightarrow> tshape
   \<Rightarrow> (bool \<times> tshape \<times> uint32 \<times> slice_local) option" where
  "op_slice_setup g dims start len input_num node_ok check_ok in0 out = do {
     let dims = (if dims = 0 then ts_dim in0 else dims);
     out1 \<leftarrow> (if ts_dim out = 0 then do {
                 sizes \<leftarrow> fill (unat dims) 0 0 (rd len) (ts_size out);
                 Some (out\<lparr>ts_size := sizes, ts_dim := dims\<rparr>) }
              else Some out);
     if input_num > 1 then Some (True, out1, dims, fresh_local)
     else do {
       begins \<leftarrow> fill (unat dims) 0 0 (\<lambda>i. map_option sint (rd start i)) (replicate 8 0);
       ends \<leftarrow> fill (unat dims) 0 0 (\<lambda>i. do { s \<leftarrow> rd start i; l \<leftarrow> rd len i; Some (sint (s + l)) }) (replicate 8 0);
       strides \<leftarrow> fill (unat dims) 0 0 (\<lambda>_. Some 1) (replicate 8 0);
       if \<not> node_ok then Some (False, out1, dims, fresh_local)
       else do {
         r \<leftarrow> op_strided_slice_setup g (plain_slice begins ends strides (ts_dim in0)) in0 out1 fresh_params fresh_local;
         let (b, out2, params, loc) = r;
         Some (b \<and> check_ok, out2, dims, loc) } } }"

end
