(* ===== verification/Op_Types.thy ===== *)
theory Op_Types
  imports Op_Infer
begin

text \<open>
  Ranks as types. A program of operations whose ranks fit runs through all setup functions
  without leaving an array, dividing by 0 or using a tensor that is not there, and every shape it
  infers has the rank that the typing rules announce.
\<close>

subsection \<open>The operations and their typing rules\<close>

datatype shape_op =
    Eltwise
  | Unary
  | Select
  | Matmul bool bool
  | Reshape "vsi_size_t list"
  | Permute_dims "uint32 list"
  | Tile "uint32 list"
  | Concat uint32
  | Pad "uint32 list" "uint32 list" uint8
  | Gather uint32 uint32
  | Gather_elements
  | Scatter_nd "uint32 list"
  | Embedding_lookup
  | One_hot int vsi_size_t
  | Sequence_mask vsi_size_t
  | Batch2space "uint32 list" "uint32 list"
  | Space2batch "uint32 list" "uint32 list"
  | Reorg uint32
  | Pool pool_param

text \<open>The setup function of an operation, for a node with these inputs.\<close>

fun run_op :: "'s graph \<Rightarrow> shape_op \<Rightarrow> tshape list \<Rightarrow> tshape \<Rightarrow> (bool \<times> tshape) option" where
  "run_op g Eltwise ins out = op_eltwise_setup ins out"
| "run_op g Unary ins out = do { a \<leftarrow> rd ins 0; op_common_setup a out }"
| "run_op g Select ins out = do { a \<leftarrow> rd ins 0; b \<leftarrow> rd ins 1; c \<leftarrow> rd ins 2; op_select_setup a b c out }"
| "run_op g (Matmul s t) ins out = do { a \<leftarrow> rd ins 0; b \<leftarrow> rd ins 1; op_matmul_setup s t a b out }"
| "run_op g (Reshape ss) ins out = do { a \<leftarrow> rd ins 0; op_reshape2_setup (Some ss) (of_nat (length ss)) a out }"
| "run_op g (Permute_dims p) ins out = do { a \<leftarrow> rd ins 0; op_permute_setup p (of_nat (length p)) a out }"
| "run_op g (Tile m) ins out = do { a \<leftarrow> rd ins 0; op_tile_setup m (of_nat (length m)) a out }"
| "run_op g (Concat axis) ins out = op_concat_setup axis (map Some ins) out"
| "run_op g (Pad f b n) ins out = do { a \<leftarrow> rd ins 0; r \<leftarrow> op_pad_setup f b n a out; Some (fst r, fst (snd r)) }"
| "run_op g (Gather axis n) ins out = do { a \<leftarrow> rd ins 0; b \<leftarrow> rd ins 1; op_gather_setup axis n a b out }"
| "run_op g Gather_elements ins out = do { a \<leftarrow> rd ins 0; b \<leftarrow> rd ins 1; op_gather_elements_setup a b out }"
| "run_op g (Scatter_nd ss) ins out = op_scatter_nd_setup (Some ss) (of_nat (length ss)) out"
| "run_op g Embedding_lookup ins out = do { a \<leftarrow> rd ins 0; b \<leftarrow> rd ins 1; op_embedding_lookup_setup a b out }"
| "run_op g (One_hot axis depth) ins out = do { a \<leftarrow> rd ins 0; op_one_hot_setup axis depth a out }"
| "run_op g (Sequence_mask n) ins out = do { a \<leftarrow> rd ins 0; op_sequence_mask_setup n a out }"
| "run_op g (Batch2space bs cs) ins out = do { a \<leftarrow> rd ins 0; op_batch2space_setup bs cs a out }"
| "run_op g (Space2batch bs ps) ins out = do { a \<leftarrow> rd ins 0; op_space2batch_setup bs ps a out }"
| "run_op g (Reorg n) ins out = do { a \<leftarrow> rd ins 0; op_reorg_setup n a out }"
| "run_op g (Pool p) ins out = do { a \<leftarrow> rd ins 0; r \<leftarrow> op_pool_setup g p a out; Some (fst r, fst (snd r)) }"

definition pool_ok :: "pool_param \<Rightarrow> bool" where
  "pool_ok p \<longleftrightarrow> length (po_ksize p) = 2 \<and> length (po_stride p) = 2 \<and> length (po_pad p) = 4 \<and>
     length (po_dilation p) = 2 \<and> 0 \<notin> set (po_stride p)"

definition blocks_ok :: "uint32 list \<Rightarrow> uint32 list \<Rightarrow> bool" where
  "blocks_ok bs ps \<longleftrightarrow> length bs = 2 \<and> length ps = 4 \<and> 0 \<notin> set bs"

text \<open>The rank of the output, for inputs of the ranks that the operation accepts.\<close>

fun op_rank :: "shape_op \<Rightarrow> nat list \<Rightarrow> nat option" where
  "op_rank Eltwise rs = (if 2 \<le> length rs then Some (foldr max rs 0) else None)"
| "op_rank Unary [a] = Some a"
| "op_rank Select [a, b, c] = Some (max a (max b c))"
| "op_rank (Matmul s t) [a, b] =
     (if s \<and> t then None
      else Some (if a = 1 \<and> 1 < b then b - 1 else if b = 1 \<and> 1 < a then a - 1 else max a b))"
| "op_rank (Reshape ss) [a] = (if 0 < length ss \<and> length ss \<le> 8 \<and> 0 \<notin> set ss then Some (length ss) else None)"
| "op_rank (Permute_dims p) [a] = (if length p = a then Some a else None)"
| "op_rank (Tile m) [a] = (if length m = a then Some a else None)"
| "op_rank (Concat axis) (a # as) = (if axis < 8 then Some a else None)"
| "op_rank (Pad f b n) [a] = (if length f = a \<and> length b = a \<and> (n = 0 \<or> unat n = a) then Some a else None)"
| "op_rank (Gather axis n) [a, b] =
     (if unat axis < a \<and> unat n \<le> a \<and> unat n < b \<and> a + b - unat n - 1 \<le> 8 then Some (a + b - unat n - 1) else None)"
| "op_rank Gather_elements [a, b] = Some b"
| "op_rank (Scatter_nd ss) rs = (if 0 < length ss \<and> length ss \<le> 8 then Some (length ss) else None)"
| "op_rank Embedding_lookup [a, b] = Some b"
| "op_rank (One_hot axis depth) [a] = (if - 1 \<le> axis \<and> a < 8 then Some (a + 1) else None)"
| "op_rank (Sequence_mask n) [a] = (if a < 8 then Some (a + 1) else None)"
| "op_rank (Batch2space bs cs) [a] = (if blocks_ok bs cs then Some a else None)"
| "op_rank (Space2batch bs ps) [a] = (if blocks_ok bs ps then Some a else None)"
| "op_rank (Reorg n) [a] = (if n \<noteq> 0 then Some a else None)"
| "op_rank (Pool p) [a] = (if pool_ok p then Some a else None)"
| "op_rank _ _ = None"

definition has_rank :: "tshape \<Rightarrow> nat \<Rightarrow> bool" where
  "has_rank t r \<longleftrightarrow> tensor_ok t \<and> unat (ts_dim t) = r"

subsection \<open>Every operation respects its rule\<close>

lemma fill_total:
  "\<forall>k < n. f (i + k) \<noteq> None \<Longrightarrow> j + n \<le> length xs \<Longrightarrow> \<exists>ys. fill n i j f xs = Some ys \<and> length ys = length xs"
proof (induction n arbitrary: i j xs)
  case (Suc n)
  obtain v where v: "f i = Some v" using Suc.prems(1) by force
  have "\<forall>k < n. f (Suc i + k) \<noteq> None" using Suc.prems(1) by force
  then show ?case using Suc.IH[of "Suc i" "Suc j" "xs[j := v]"] Suc.prems(2) v by simp
qed simp

lemma has_rankD:
  "has_rank t r \<Longrightarrow> length (ts_size t) = 8 \<and> 1 \<le> r \<and> r \<le> 8 \<and> unat (ts_dim t) = r \<and> \<not> ts_scalar t \<and> tensor_ok t"
  by (auto simp: has_rank_def tensor_ok_def)

definition typed_result :: "(bool \<times> tshape) option \<Rightarrow> nat \<Rightarrow> bool" where
  "typed_result res r \<longleftrightarrow> (\<exists>b out'. res = Some (b, out') \<and> (b \<longrightarrow> has_rank out' r))"

lemma typed_resultI:
  "auto_shape out \<Longrightarrow> length ss = 8 \<Longrightarrow> unat d = r \<Longrightarrow> 1 \<le> r \<Longrightarrow> r \<le> 8 \<Longrightarrow>
    typed_result (Some (b, out\<lparr>ts_size := ss, ts_dim := d\<rparr>)) r"
  by (auto simp: typed_result_def has_rank_def tensor_ok_def auto_shape_def)

lemma dim_first: "t\<lparr>ts_dim := d, ts_size := ss\<rparr> = t\<lparr>ts_size := ss, ts_dim := d\<rparr>" for t :: tshape
  by simp

lemma typed_False [simp]: "typed_result (Some (False, out)) r"
  by (auto simp: typed_result_def)

lemma has_rank_max: "has_rank a r \<Longrightarrow> has_rank b s \<Longrightarrow> unat (max (ts_dim a) (ts_dim b)) = max r s"
  by (auto simp: has_rank_def max_def word_le_nat_alt)

lemma elt_dim_total: "\<forall>t \<in> set ts. tensor_ok t \<Longrightarrow> \<exists>r. elt_dim ts i s = Some r"
  by (induction ts arbitrary: s) (auto simp: tensor_dims_ok size_or_1_ok Let_def)

lemma elt_loop_total:
  "tensor_ok t0 \<Longrightarrow> \<forall>t \<in> set ts. tensor_ok t \<Longrightarrow> i + n \<le> 8 \<Longrightarrow> length shape = 8 \<Longrightarrow>
    \<exists>r. elt_loop t0 ts i n shape = Some r \<and> (\<forall>s. r = Some s \<longrightarrow> length s = 8)"
proof (induction n arbitrary: i shape)
  case (Suc n)
  obtain r where r: "elt_dim ts i (size_at t0 i) = Some r" using elt_dim_total[OF Suc.prems(2)] by blast
  show ?case
  proof (cases r)
    case (Some s)
    then show ?thesis using Suc.IH[of "Suc i" "shape[i := s]"] Suc.prems r by (simp add: tensor_dims_ok size_or_1_ok)
  qed (use Suc.prems(1) r in \<open>simp add: tensor_dims_ok size_or_1_ok\<close>)
qed simp

lemma ranks_unat: "list_all2 has_rank ins rs \<Longrightarrow> unat (ranks ins) = foldr max rs 0"
  by (induction rule: list_all2_induct) (auto simp: ranks_def has_rank_def max_def word_le_nat_alt)

lemma all_ok: "list_all2 has_rank ins rs \<Longrightarrow> \<forall>t \<in> set ins. tensor_ok t"
  by (auto simp: list_all2_conv_all_nth in_set_conv_nth has_rank_def)

lemma eltwise_typed:
  assumes "list_all2 has_rank ins rs" "2 \<le> length rs" "auto_shape out"
  shows "typed_result (op_eltwise_setup ins out) (foldr max rs 0)"
proof -
  note ok = all_ok[OF assms(1)]
  have l: "2 \<le> length ins" using assms(1,2) by (simp add: list_all2_lengthD)
  obtain t0 t1 ts where ins: "ins = t0 # t1 # ts" using l by (cases ins; cases "tl ins") auto
  let ?d = "ranks ins"
  have d: "1 \<le> unat ?d" "unat ?d \<le> 8" using ranks_bound[OF ok] ins by (simp_all add: word_le_nat_alt)
  have r: "max_rank (tensor_dims t0) (tl ins) = ?d"
    using ok by (simp add: ins max_rank_eq tensor_dims_ok) (simp add: ranks_def max.assoc)
  obtain res where res: "elt_loop t0 (tl ins) 0 (unat ?d) (replicate 8 0) = Some res" "\<forall>s. res = Some s \<longrightarrow> length s = 8"
    using elt_loop_total[of t0 "tl ins" 0 "unat ?d" "replicate 8 0"] ok d by (auto simp: ins)
  show ?thesis
  proof (cases res)
    case None
    then show ?thesis using res r by (simp add: op_eltwise_setup_def ins Let_def)
  next
    case (Some shape)
    have f: "fill (unat ?d) 0 0 (rd shape) (ts_size out) = Some (take (unat ?d) shape @ drop (unat ?d) (ts_size out))"
      using fill_copy[of 0 "unat ?d" shape 0 "ts_size out"] res(2) Some d assms(3) by (simp add: auto_shape_def)
    have "op_eltwise_setup ins out =
        Some (True, out\<lparr>ts_size := take (unat ?d) shape @ drop (unat ?d) (ts_size out), ts_dim := ?d\<rparr>)"
      using ok res(1) Some r f assms(3) by (simp add: op_eltwise_setup_def ins auto_shape_def tensor_ok_def Let_def)
    then show ?thesis
      using typed_resultI[OF assms(3) _ ranks_unat[OF assms(1)]] ranks_unat[OF assms(1)] d res(2) Some assms(3)
      by (simp add: auto_shape_def)
  qed
qed

lemma unary_typed: "has_rank a r \<Longrightarrow> auto_shape out \<Longrightarrow> typed_result (op_common_setup a out) r"
  using fill_copy[of 0 8 "ts_size a" 0 "ts_size out"]
  by (auto simp: op_common_setup_def auto_shape_def typed_result_def has_rank_def tensor_ok_def)

lemma select_typed:
  assumes "has_rank a r" "has_rank b s" "has_rank c t" "auto_shape out"
  shows "typed_result (op_select_setup a b c out) (max r (max s t))"
proof -
  let ?d = "max (ts_dim a) (max (ts_dim b) (ts_dim c))"
  have d: "unat ?d = max r (max s t)" using assms(1-3) by (auto simp: has_rank_def max_def word_le_nat_alt)
  then have le: "unat ?d \<le> 8" "1 \<le> unat ?d" using assms(1-3) by (auto dest!: has_rankD)
  have "\<exists>ys. fill (unat ?d) 0 0 (select_dim a b c) (replicate 8 0) = Some ys \<and> length ys = length (replicate 8 (0 :: vsi_size_t))"
    by (rule fill_total) (use assms(1-3) le in \<open>simp_all add: select_dim_def size_or_1_ok has_rank_def\<close>)
  then obtain shape where s: "fill (unat ?d) 0 0 (select_dim a b c) (replicate 8 0) = Some shape" "length shape = 8" by auto
  have "fill (unat ?d) 0 0 (rd shape) (ts_size out) = Some (take (unat ?d) shape @ drop (unat ?d) (ts_size out))"
    using fill_copy[of 0 "unat ?d" shape 0 "ts_size out"] s(2) le assms(4) by (simp add: auto_shape_def)
  then have "op_select_setup a b c out =
      Some (True, out\<lparr>ts_size := take (unat ?d) shape @ drop (unat ?d) (ts_size out), ts_dim := ?d\<rparr>)"
    using s(1) assms(4) by (simp add: op_select_setup_def auto_shape_def Let_def)
  then show ?thesis using typed_resultI[OF assms(4) _ d] le d s(2) assms(4) by (simp add: auto_shape_def)
qed

lemma matmul_typed:
  assumes "has_rank a r" "has_rank b s" "auto_shape out" "\<not> (tr0 \<and> tr1)"
  shows "typed_result (op_matmul_setup tr0 tr1 a b out)
    (if r = 1 \<and> 1 < s then s - 1 else if s = 1 \<and> 1 < r then r - 1 else max r s)"
proof -
  note a = has_rankD[OF assms(1)] and b = has_rankD[OF assms(2)]
  have l: "length (ts_size out) = 8" "ts_dim out = 0" using assms(3) by (simp_all add: auto_shape_def)
  let ?s = "(ts_size out)[0 := ts_size b ! (if tr1 then 1 else 0), 1 := ts_size a ! (if tr0 then 0 else 1)]"
  have ls: "length ?s = 8" using l(1) by simp
  have one: "ts_dim t = 1 \<longleftrightarrow> unat (ts_dim t) = 1" "ts_dim t > 1 \<longleftrightarrow> 1 < unat (ts_dim t)" for t
    by (auto simp: word_unat_eq_iff word_less_nat_alt)
  have minus: "unat (ts_dim t - 1) = unat (ts_dim t) - 1" if "1 < unat (ts_dim t)" for t
    using that by (subst unat_sub_le) (auto simp: word_le_nat_alt)
  consider (x) "r = 1" "1 < s" | (y) "\<not> (r = 1 \<and> 1 < s)" "s = 1" "1 < r" | (m) "\<not> (r = 1 \<and> 1 < s)" "\<not> (s = 1 \<and> 1 < r)"
    by blast
  then show ?thesis
  proof cases
    case x
    have dim: "unat (ts_dim b - 1) = s - 1" using minus[of b] b x(2) by simp
    obtain ys where ys: "fill (unat (ts_dim b - 1) - 1) 2 1 (rd (ts_size b)) (?s[0 := ts_size b ! 0]) = Some ys" "length ys = 8"
      using fill_copy[of 2 "unat (ts_dim b - 1) - 1" "ts_size b" 1 "?s[0 := ts_size b ! 0]"] dim b x(2) ls by auto
    have "op_matmul_setup tr0 tr1 a b out = Some (True, out\<lparr>ts_size := ys, ts_dim := ts_dim b - 1\<rparr>)"
      using l a b x ys(1) assms(4) one[of a] one[of b] by (auto simp: op_matmul_setup_def Let_def)
    moreover have "1 \<le> s - 1" "s - 1 \<le> 8" using x(2) b by linarith+
    ultimately show ?thesis using typed_resultI[OF assms(3) ys(2) dim] x by simp
  next
    case y
    have dim: "unat (ts_dim a - 1) = r - 1" using minus[of a] a y(3) by simp
    obtain ys where ys: "fill (unat (ts_dim a - 1)) 1 0 (rd (ts_size a)) ?s = Some ys" "length ys = 8"
      using fill_copy[of 1 "unat (ts_dim a - 1)" "ts_size a" 0 ?s] dim a y(3) ls by auto
    have "op_matmul_setup tr0 tr1 a b out = Some (True, out\<lparr>ts_size := ys, ts_dim := ts_dim a - 1\<rparr>)"
      using l a b y ys(1) assms(4) one[of a] one[of b] by (auto simp: op_matmul_setup_def Let_def)
    moreover have "1 \<le> r - 1" "r - 1 \<le> 8" using y(3) a by linarith+
    ultimately show ?thesis using typed_resultI[OF assms(3) ys(2) dim] y by simp
  next
    case m
    let ?d = "max (ts_dim a) (ts_dim b)"
    have d: "unat ?d = max r s" by (rule has_rank_max[OF assms(1,2)])
    have "\<exists>ys. fill (unat ?d - 2) 2 2 (matmul_dim a b) ?s = Some ys \<and> length ys = length ?s"
      by (rule fill_total) (use a b d ls in \<open>auto simp: matmul_dim_def size_or_1_ok\<close>)
    then obtain ys where ys: "fill (unat ?d - 2) 2 2 (matmul_dim a b) ?s = Some ys" "length ys = 8" using ls by auto
    have "op_matmul_setup tr0 tr1 a b out = Some (True, out\<lparr>ts_size := ys, ts_dim := ?d\<rparr>)"
      using l a b m ys(1) assms(4) one[of a] one[of b] by (auto simp: op_matmul_setup_def Let_def)
    then show ?thesis using typed_resultI[OF assms(3) ys(2) d] m a b d by auto
  qed
qed

lemma auto_cal_loop_total:
  "length inp = 8 \<Longrightarrow> length shape = 8 \<Longrightarrow> i + n \<le> 8 \<Longrightarrow> \<forall>k < n. shape ! (i + k) \<noteq> 0 \<Longrightarrow>
    \<forall>k. neg = Some k \<longrightarrow> k < 8 \<Longrightarrow>
    \<exists>b r. auto_cal_loop inp d i n shape tot neg = Some (b, r) \<and> length r = 8"
proof (induction n arbitrary: i tot neg)
  case (Suc n)
  have i: "i < 8" "shape ! i \<noteq> 0" using Suc.prems(3,4) by auto
  have nz: "\<forall>k < n. shape ! (Suc i + k) \<noteq> 0" using Suc.prems(4) by force
  show ?case
  proof (cases "shape ! i = - 1")
    case True
    then show ?thesis using Suc.IH[of "Suc i" "Some i" tot] Suc.prems(1-3) nz i by auto
  next
    case False
    then show ?thesis using Suc.IH[of "Suc i" neg "tot div shape ! i"] Suc.prems(1-3,5) nz i by (simp add: udiv_def)
  qed
qed (auto split: option.splits)

lemma reshape_typed:
  assumes "has_rank a r" "auto_shape out" "0 < length ss" "length ss \<le> 8" "0 \<notin> set ss"
  shows "typed_result (op_reshape2_setup (Some ss) (of_nat (length ss)) a out) (length ss)"
proof -
  note a = has_rankD[OF assms(1)]
  let ?d = "of_nat (length ss) :: vsi_size_t" let ?shape = "ss @ drop (length ss) (replicate 8 0)"
  have d: "unat ?d = length ss" "?d \<noteq> 0" "?d \<noteq> - 1"
    using assms(3,4) by (simp_all add: unat_of_nat take_bit_nat_eq_self word_unat_eq_iff unsigned_minus_1_eq_mask
      mask_eq_exp_minus_1)
  have copy: "fill (length ss) 0 0 (rd ss) (replicate 8 0) = Some ?shape"
    using fill_copy[of 0 "length ss" ss 0 "replicate 8 0"] assms(4) by simp
  obtain tot where tot: "ShapeProduct (ts_size a) (unat (ts_dim a)) = Some tot"
    using a ShapeProduct_words[of "unat (ts_dim a)" "ts_size a"] by simp
  have "\<forall>k < length ss. ?shape ! (0 + k) \<noteq> 0" using assms(5) by (metis add_0 nth_append nth_mem)
  moreover have "length ?shape = 8" using assms(4) by simp
  ultimately obtain b sh where r: "auto_cal_loop (ts_size a) (ts_dim a) 0 (length ss) ?shape tot None = Some (b, sh)"
      "length sh = 8"
    using auto_cal_loop_total[of "ts_size a" ?shape 0 "length ss" None "ts_dim a" tot] a assms(4) by auto
  have cal: "auto_cal_shape (ts_size a) (ts_dim a) ?shape ?d = Some (b, sh, ?d)"
    using tot r(1) d by (simp add: auto_cal_shape_def)
  obtain dst where dst: "ShapeProduct sh (length ss) = Some dst"
    using ShapeProduct_words[of "length ss" sh] r(2) assms(4) by simp
  have f: "fill (length ss) 0 0 (rd sh) (ts_size out) = Some (take (length ss) sh @ drop (length ss) (ts_size out))"
    using fill_copy[of 0 "length ss" sh 0 "ts_size out"] r(2) assms(2,4) by (simp add: auto_shape_def)
  have "op_reshape2_setup (Some ss) ?d a out = (if b \<and> tot = dst
      then Some (True, out\<lparr>ts_size := take (length ss) sh @ drop (length ss) (ts_size out), ts_dim := ?d\<rparr>)
      else Some (False, out))"
    using copy cal tot dst f d assms(2) by (simp add: op_reshape2_setup_def CalcReshapeTensor_def auto_shape_def)
  moreover have "length (take (length ss) sh @ drop (length ss) (ts_size out)) = 8"
    using r(2) assms(2,4) by (simp add: auto_shape_def)
  ultimately show ?thesis using typed_resultI[OF assms(2) _ d(1)] assms(3,4) by auto
qed

lemma permute_sizes_total:
  "length (ts_size a) = 8 \<Longrightarrow> unat (ts_dim a) \<le> 8 \<Longrightarrow> i + n \<le> length p \<Longrightarrow> i + n \<le> 8 \<Longrightarrow> length sizes = 8 \<Longrightarrow>
    \<exists>b r. permute_sizes p a i n sizes = Some (b, r) \<and> length r = 8"
proof (induction n arbitrary: i sizes)
  case (Suc n)
  show ?case
  proof (cases "p ! i \<ge> ts_dim a")
    case False
    then have "unat (p ! i) < 8" using Suc.prems(2) by (auto simp: word_less_nat_alt not_le)
    then show ?thesis using Suc.IH[of "Suc i" "sizes[i := ts_size a ! unat (p ! i)]"] Suc.prems False by simp
  qed (use Suc.prems in auto)
qed auto

lemma permute_typed:
  assumes "has_rank a r" "auto_shape out" "length p = r"
  shows "typed_result (op_permute_setup p (of_nat r) a out) r"
proof -
  note a = has_rankD[OF assms(1)]
  have d: "ts_dim a = of_nat r" using a by auto
  obtain b ss where "permute_sizes p a 0 r (ts_size out) = Some (b, ss)" "length ss = 8"
    using permute_sizes_total[of a 0 r p "ts_size out"] a assms(2,3) by (auto simp: auto_shape_def)
  moreover have "unat (of_nat r :: uint32) = r" using a d by simp
  ultimately show ?thesis
    using typed_resultI[OF assms(2), of ss "of_nat r" r b] a assms(2,3) d
    by (simp add: op_permute_setup_def auto_shape_def)
       (auto simp: typed_result_def has_rank_def tensor_ok_def)
qed

lemma tile_typed:
  assumes "has_rank a r" "auto_shape out" "length m = r"
  shows "typed_result (op_tile_setup m (of_nat r) a out) r"
proof -
  note a = has_rankD[OF assms(1)]
  have d: "ts_dim a = of_nat r" "unat (of_nat r :: uint32) = r" using a by auto
  have l: "length (ts_size out) = 8" "ts_dim out = 0" using assms(2) by (simp_all add: auto_shape_def)
  have "\<exists>ys. fill r 0 0 (tile_dim a m) (ts_size out) = Some ys \<and> length ys = length (ts_size out)"
    by (rule fill_total) (use a l assms(3) in \<open>simp_all add: tile_dim_def\<close>)
  then obtain ys where "fill r 0 0 (tile_dim a m) (ts_size out) = Some ys" "length ys = 8" using l by auto
  then show ?thesis using typed_resultI[OF assms(2), of ys "of_nat r" r True] a d l by (simp add: op_tile_setup_def dim_first)
qed

lemma concat_num_full: "n \<le> length ins \<Longrightarrow> concat_num (map Some ins) n = n"
  by (induction n) auto

lemma concat_loop_total:
  "\<forall>t \<in> set ins. tensor_ok t \<Longrightarrow> axis < 8 \<Longrightarrow> i + n \<le> length ins \<Longrightarrow> length sizes = 8 \<Longrightarrow>
    \<exists>r. concat_loop (map Some ins) axis i n sizes = Some r \<and> length r = 8"
proof (induction n arbitrary: i sizes)
  case (Suc n)
  have "length (ts_size (ins ! i)) = 8" using Suc.prems(1,3) by (simp add: tensor_ok_def)
  then show ?case using Suc.IH[of "Suc i" "sizes[axis := sizes ! axis + ts_size (ins ! i) ! axis]"] Suc.prems by simp
qed simp

lemma concat_typed:
  assumes "list_all2 has_rank ins (r # rs)" "auto_shape out" "axis < 8"
  shows "typed_result (op_concat_setup axis (map Some ins) out) r"
proof -
  obtain a as where ins: "ins = a # as" "has_rank a r" using assms(1) by (auto simp: list_all2_Cons2)
  note a = has_rankD[OF ins(2)]
  have l: "length (ts_size out) = 8" "ts_dim out = 0" using assms(2) by (simp_all add: auto_shape_def)
  have "concat_num (map Some ins) (length ins) = length ins" by (rule concat_num_full) simp
  then have n: "concat_num (map Some ins) (length (map Some ins)) = Suc (length as)" by (simp add: ins)
  have f: "fill 8 0 0 (rd (ts_size a)) (ts_size out) = Some (ts_size a)"
    using fill_copy[of 0 8 "ts_size a" 0 "ts_size out"] a l by simp
  have "unat axis < 8" using assms(3) by (simp add: word_less_nat_alt)
  then obtain ys where ys: "concat_loop (map Some ins) (unat axis) 1 (length as) (ts_size a) = Some ys" "length ys = 8"
    using concat_loop_total[OF all_ok[OF assms(1)], of "unat axis" 1 "length as" "ts_size a"] a by (auto simp: ins)
  have "op_concat_setup axis (map Some ins) out = Some (True, out\<lparr>ts_size := ys, ts_dim := ts_dim a\<rparr>)"
    using f ys(1) n l by (simp add: op_concat_setup_def dim_first) (simp add: ins)
  then show ?thesis using typed_resultI[OF assms(2) ys(2)] a by simp
qed

lemma pad_typed:
  assumes "has_rank a r" "auto_shape out" "length f = r" "length b = r" "n = 0 \<or> unat n = r"
  shows "typed_result (map_option (\<lambda>x. (fst x, fst (snd x))) (op_pad_setup f b n a out)) r"
proof -
  note a = has_rankD[OF assms(1)]
  let ?n = "if n = 0 then ucast (ts_dim a) else n"
  have n: "unat ?n = r"
    using assms(5) a by (auto simp: unsigned_ucast_eq unat_eq_0 take_bit_nat_eq_self split: if_splits)
  have l: "length (ts_size out) = 8" "ts_dim out = 0" using assms(2) by (simp_all add: auto_shape_def)
  have "\<exists>ys. fill r 0 0 (pad_dim f b a) (ts_size out) = Some ys \<and> length ys = length (ts_size out)"
    by (rule fill_total) (use a l assms(3,4) in \<open>simp_all add: pad_dim_def\<close>)
  then obtain ys where ys: "fill r 0 0 (pad_dim f b a) (ts_size out) = Some ys" "length ys = 8" using l by auto
  have "op_pad_setup f b n a out = Some (True, out\<lparr>ts_size := ys, ts_dim := ts_dim a\<rparr>, ?n)"
    unfolding op_pad_setup_def Let_def n using ys(1) l by simp
  then show ?thesis using typed_resultI[OF assms(2) ys(2)] a by simp
qed

lemma gather_typed:
  assumes "has_rank a r" "has_rank b s" "auto_shape out"
    "unat axis < r" "unat n \<le> r" "unat n < s" "r + s - unat n - 1 \<le> 8"
  shows "typed_result (op_gather_setup axis n a b out) (r + s - unat n - 1)"
proof -
  note a = has_rankD[OF assms(1)] and b = has_rankD[OF assms(2)]
  have l: "length (ts_size out) = 8" "ts_dim out = 0" using assms(3) by (simp_all add: auto_shape_def)
  have q: "unat (ts_dim b - n) = s - unat n" using assms(6) b by (subst unat_sub_le) (auto simp: word_le_nat_alt)
  have ax: "unat (axis + 1) = Suc (unat axis)" using assms(4) a by (subst unat_add_no_overflow) auto
  let ?o = "ts_dim a - n + (ts_dim b - n) - 1 + n"
  have o_nat: "?o = of_nat (r + s - unat n - 1)"
  proof -
    have "ts_dim a = of_nat r" "ts_dim b = of_nat s" "n = of_nat (unat n)" using a b by auto
    then have "?o = of_nat r + of_nat s - of_nat (unat n) - 1" by simp
    also have "\<dots> = of_nat (r + s - unat n - 1)" using assms(4,6) by (simp add: of_nat_diff)
    finally show ?thesis .
  qed
  then have o: "unat ?o = r + s - unat n - 1" "?o \<noteq> 0"
    using assms(4,6,7) by (simp_all add: unat_of_nat take_bit_nat_eq_self word_unat_eq_iff del: of_nat_diff of_nat_add)
  have e: "ts_dim a - n + (ts_dim b - 1) = ?o" by simp
  have o3: "ts_dim a - n + (ts_dim b - 1) \<noteq> 0" unfolding e by (rule o(2))
  have f1: "fill (unat axis) 0 0 (rd (ts_size a)) (ts_size out) =
      Some (take (unat axis) (ts_size a) @ drop (unat axis) (ts_size out))" (is "_ = Some ?s1")
    using fill_copy[of 0 "unat axis" "ts_size a" 0 "ts_size out"] a l assms(4) by simp
  have l1: "length ?s1 = 8" using a l assms(4) by simp
  have "unat axis + (s - unat n) \<le> 8" "s - unat n \<le> 8" using assms(4,5,7) a b by linarith+
  then obtain s2 where s2: "fill (s - unat n) 0 (unat axis) (rd (ts_size b)) ?s1 = Some s2" "length s2 = 8"
    using fill_copy[of 0 "s - unat n" "ts_size b" "unat axis" ?s1] b l1 by auto
  have "unat axis + (s - unat n) + (r - Suc (unat axis)) \<le> 8" "Suc (unat axis) + (r - Suc (unat axis)) \<le> 8"
    using assms(4,6,7) a by linarith+
  then obtain s3 where s3: "fill (r - Suc (unat axis)) (Suc (unat axis)) (unat axis + (s - unat n)) (rd (ts_size a)) s2 = Some s3"
      "length s3 = 8"
    using fill_copy[of "Suc (unat axis)" "r - Suc (unat axis)" "ts_size a" "unat axis + (s - unat n)" s2] a s2(2) by auto
  have "op_gather_setup axis n a b out = Some (True, out\<lparr>ts_size := s3, ts_dim := ?o\<rparr>)"
    using l a b q ax f1 s2(1) s3(1) o3 by (simp add: op_gather_setup_def Let_def)
  then show ?thesis using typed_resultI[OF assms(3) s3(2) o(1)] assms(4,6,7) by simp
qed

lemma gather_elements_typed:
  assumes "has_rank a r" "has_rank b s" "auto_shape out"
  shows "typed_result (op_gather_elements_setup a b out) s"
proof -
  note a = has_rankD[OF assms(1)] and b = has_rankD[OF assms(2)]
  have l: "length (ts_size out) = 8" "ts_dim out = 0" using assms(3) by (simp_all add: auto_shape_def)
  obtain ys where "fill r 0 0 (rd (ts_size b)) (ts_size out) = Some ys" "length ys = 8"
    using fill_copy[of 0 r "ts_size b" 0 "ts_size out"] a b l by auto
  then show ?thesis using typed_resultI[OF assms(3), of ys "ts_dim b" s] a b l by (simp add: op_gather_elements_setup_def)
qed

lemma scatter_nd_typed:
  assumes "auto_shape out" "0 < length ss" "length ss \<le> 8"
  shows "typed_result (op_scatter_nd_setup (Some ss) (of_nat (length ss)) out) (length ss)"
proof -
  have l: "length (ts_size out) = 8" "ts_dim out = 0" using assms(1) by (simp_all add: auto_shape_def)
  have d: "unat (of_nat (length ss) :: uint32) = length ss" using assms(3) by (simp add: unat_of_nat take_bit_nat_eq_self)
  obtain ys where "fill (length ss) 0 0 (rd ss) (ts_size out) = Some ys" "length ys = 8"
    using fill_copy[of 0 "length ss" ss 0 "ts_size out"] assms(3) l by auto
  then show ?thesis using typed_resultI[OF assms(1) _ d, of ys] assms(2,3) d l by (simp add: op_scatter_nd_setup_def)
qed

lemma embedding_lookup_typed:
  assumes "has_rank a r" "has_rank b s" "auto_shape out"
  shows "typed_result (op_embedding_lookup_setup a b out) s"
proof -
  note a = has_rankD[OF assms(1)] and b = has_rankD[OF assms(2)]
  have l: "length (ts_size out) = 8" "ts_dim out = 0" using assms(3) by (simp_all add: auto_shape_def)
  obtain ys where ys: "fill s 0 0 (rd (ts_size b)) (ts_size out) = Some ys" "length ys = 8"
    using fill_copy[of 0 s "ts_size b" 0 "ts_size out"] b l by auto
  have "unat (ts_dim b - 1) = s - 1" using b by (subst unat_sub_le) (auto simp: word_le_nat_alt)
  then have "unat (ts_dim b - 1) < 8" using b by linarith
  then have "op_embedding_lookup_setup a b out =
      Some (True, out\<lparr>ts_size := ys[unat (ts_dim b - 1) := ts_size a ! 0], ts_dim := ts_dim b\<rparr>)"
    using ys a b l by (simp add: op_embedding_lookup_setup_def)
  then show ?thesis
    using typed_resultI[OF assms(3), of "ys[unat (ts_dim b - 1) := ts_size a ! 0]" "ts_dim b" s] ys(2) b by simp
qed

lemma unat_Suc_dim: "unat (d :: uint32) = r \<Longrightarrow> r < 8 \<Longrightarrow> unat (d + 1) = r + 1"
  by (subst unat_add_no_overflow) auto

lemma sint_unat: "unat w < 2 ^ 31 \<Longrightarrow> sint w = int (unat w)" for w :: uint32
proof -
  have small: "n < 2 ^ 31 \<Longrightarrow> sint (of_nat n :: uint32) = int n" for n
    by (simp add: signed_of_nat signed_take_bit_int_eq_self)
  show "unat w < 2 ^ 31 \<Longrightarrow> sint w = int (unat w)" using small[of "unat w"] by simp
qed

lemma one_hot_typed:
  assumes "has_rank a r" "auto_shape out" "- 1 \<le> axis" "r < 8"
  shows "typed_result (op_one_hot_setup axis depth a out) (r + 1)"
proof -
  note a = has_rankD[OF assms(1)]
  have l: "length (ts_size out) = 8" "ts_dim out = 0" using assms(2) by (simp_all add: auto_shape_def)
  have d: "unat (ts_dim a + 1) = r + 1" using unat_Suc_dim[of "ts_dim a" r] a assms(4) by simp
  have s: "nat (sint (ts_dim a + 1)) = r + 1" using sint_unat[of "ts_dim a + 1"] d assms(4) by simp
  obtain ax where ax: "ax = (if axis = - 1 then 0 else axis)" "0 \<le> ax" using assms(3) by force
  obtain m where m: "m = r + 1" by simp
  have "\<exists>ys. fill m 0 0 (one_hot_dim ax depth a) (ts_size out) = Some ys \<and> length ys = length (ts_size out)"
    by (rule fill_total) (use a l ax(2) m assms(4) in \<open>auto simp: one_hot_dim_def\<close>)
  then obtain ys where ys: "fill m 0 0 (one_hot_dim ax depth a) (ts_size out) = Some ys" "length ys = 8" using l by auto
  have "op_one_hot_setup axis depth a out = Some (True, out\<lparr>ts_size := ys, ts_dim := ts_dim a + 1\<rparr>)"
    unfolding op_one_hot_setup_def Let_def s m[symmetric] ax(1)[symmetric] using ys(1) l by simp
  then show ?thesis using typed_resultI[OF assms(2) ys(2) d] a assms(4) by simp
qed

lemma sequence_mask_typed:
  assumes "has_rank a r" "auto_shape out" "r < 8"
  shows "typed_result (op_sequence_mask_setup n a out) (r + 1)"
proof -
  note a = has_rankD[OF assms(1)]
  have l: "length (ts_size out) = 8" "ts_dim out = 0" using assms(2) by (simp_all add: auto_shape_def)
  have d: "unat (ts_dim a + 1) = r + 1" using unat_Suc_dim[of "ts_dim a" r] a assms(3) by simp
  obtain ys where ys: "fill r 0 1 (rd (ts_size a)) ((ts_size out)[0 := n]) = Some ys" "length ys = 8"
    using fill_copy[of 0 r "ts_size a" 1 "(ts_size out)[0 := n]"] a l assms(3) by auto
  have "op_sequence_mask_setup n a out = Some (True, out\<lparr>ts_size := ys, ts_dim := ts_dim a + 1\<rparr>)"
    using ys(1) a l by (simp add: op_sequence_mask_setup_def)
  then show ?thesis using typed_resultI[OF assms(2) ys(2) d] a assms(3) by simp
qed

lemma blocks_typed:
  assumes "has_rank a r" "auto_shape out" "blocks_ok bs ps"
  shows "typed_result (op_batch2space_setup bs ps a out) r" "typed_result (op_space2batch_setup bs ps a out) r"
proof -
  note a = has_rankD[OF assms(1)]
  have l: "length (ts_size out) = 8" "ts_dim out = 0" using assms(2) by (simp_all add: auto_shape_def)
  have bs: "length bs = 2" "length ps = 4" "bs ! 0 \<noteq> 0" "bs ! 1 \<noteq> 0"
    using assms(3) by (auto simp: blocks_ok_def in_set_conv_nth)
  obtain ys where "op_batch2space_setup bs ps a out = Some (True, out\<lparr>ts_dim := ts_dim a, ts_size := ys\<rparr>)" "length ys = 8"
  proof (cases "is_3d_tensor a")
    case True
    then show ?thesis using that bs l a by (simp add: op_batch2space_setup_def udiv_def)
  next
    case False
    then show ?thesis using that bs l a by (simp add: op_batch2space_setup_def udiv_def)
  qed
  then show "typed_result (op_batch2space_setup bs ps a out) r" using typed_resultI[OF assms(2)] a by (simp add: dim_first)
  obtain zs where "op_space2batch_setup bs ps a out = Some (True, out\<lparr>ts_dim := ts_dim a, ts_size := zs\<rparr>)" "length zs = 8"
  proof (cases "is_3d_tensor a")
    case True
    then show ?thesis using that bs l a by (simp add: op_space2batch_setup_def udiv_def)
  next
    case False
    then show ?thesis using that bs l a by (simp add: op_space2batch_setup_def udiv_def)
  qed
  then show "typed_result (op_space2batch_setup bs ps a out) r" using typed_resultI[OF assms(2)] a by (simp add: dim_first)
qed

lemma reorg_typed:
  assumes "has_rank a r" "auto_shape out" "n \<noteq> 0"
  shows "typed_result (op_reorg_setup n a out) r"
proof -
  note a = has_rankD[OF assms(1)]
  have l: "length (ts_size out) = 8" "ts_dim out = 0" using assms(2) by (simp_all add: auto_shape_def)
  have "fill 8 0 0 (rd (ts_size a)) (ts_size out) = Some (ts_size a)"
    using fill_copy[of 0 8 "ts_size a" 0 "ts_size out"] a l by simp
  then obtain ys where "op_reorg_setup n a out = Some (True, out\<lparr>ts_dim := ts_dim a, ts_size := ys\<rparr>)" "length ys = 8"
    using a l assms(3) by (simp add: op_reorg_setup_def udiv_def)
  then show ?thesis using typed_resultI[OF assms(2)] a by (simp add: dim_first)
qed

lemma padding_total:
  assumes "length sh = 8" "length ks = 2" "length st = 2" "length ds = 2" "length pad = 4" "0 \<notin> set st"
  shows "\<exists>q. compute_padding_conv1d sh ks st (Some ds) m pad = Some q \<and> length q = 4"
    "\<exists>q. compute_padding sh ks st (Some ds) m pad = Some q \<and> length q = 4"
proof -
  have st: "st ! 0 \<noteq> 0" "st ! 1 \<noteq> 0" using assms(3,6) by (auto simp: in_set_conv_nth)
  then have sh: "\<exists>n. compute_filter_shape m i k (st ! 0) d = Some n" "\<exists>n. compute_filter_shape m i k (st ! 1) d = Some n" for i k d
    by (cases m; simp add: compute_filter_shape_def Let_def)+
  show "\<exists>q. compute_padding_conv1d sh ks st (Some ds) m pad = Some q \<and> length q = 4"
  proof (cases "m = PAD_AUTO")
    case False
    obtain n where "compute_filter_shape m (sh ! 0) (ks ! 0) (st ! 0) (if ds ! 0 = 0 then 1 else ds ! 0) = Some n"
      using sh(1) by blast
    then show ?thesis using False assms by (simp add: compute_padding_conv1d_def Let_def)
  qed (use assms in \<open>simp add: compute_padding_conv1d_def\<close>)
  have axis: "\<exists>q. compute_padding_per_axis i k (st ! j) d m p at = Some q \<and> length q = 4"
    if "j < 2" "length p = 4" "at + 1 < 4" for i k d j p at
  proof -
    have "j = 0 \<or> j = 1" using that(1) by linarith
    then obtain n where "compute_filter_shape m i k (st ! j) (if d = 0 then 1 else d) = Some n" using sh by metis
    then show ?thesis using that(2,3) by (simp add: compute_padding_per_axis_def Let_def)
  qed
  show "\<exists>q. compute_padding sh ks st (Some ds) m pad = Some q \<and> length q = 4"
  proof (cases "m = PAD_AUTO")
    case False
    obtain dw dh where dd: "(if ds ! 0 = 0 \<and> ds ! 1 = 0 then (1, 1) else (ds ! 0, ds ! 1)) = (dw, dh)" by force
    obtain p where p: "compute_padding_per_axis (sh ! 0) (ks ! 0) (st ! 0) dw m pad 0 = Some p" "length p = 4"
      using axis[of 0 pad 0 "sh ! 0" "ks ! 0" dw] assms(5) by auto
    obtain q where q: "compute_padding_per_axis (sh ! 1) (ks ! 1) (st ! 1) dh m p 2 = Some q" "length q = 4"
      using axis[of 1 p 2 "sh ! 1" "ks ! 1" dh] p(2) by auto
    show ?thesis using False assms p q dd
      by (cases "ds ! 0 = 0"; cases "ds ! 1 = 0"; simp add: compute_padding_def)
  qed (use assms in \<open>simp add: compute_padding_def\<close>)
qed

lemma pool_axis_total:
  "pool_ok p \<Longrightarrow> length (ts_size a) = 8 \<Longrightarrow> i < 2 \<Longrightarrow> \<exists>n. pool_axis p a i = Some n"
  by (auto simp: pool_axis_def pool_ok_def ComputeFilterSize_def Let_def rd_def)

lemma pool_typed:
  assumes "has_rank a r" "auto_shape out" "pool_ok p"
  shows "typed_result (map_option (\<lambda>x. (fst x, fst (snd x))) (op_pool_setup g p a out)) r"
proof -
  note a = has_rankD[OF assms(1)]
  have l: "length (ts_size out) = 8" "ts_dim out = 0" using assms(2) by (simp_all add: auto_shape_def)
  note p = assms(3)[unfolded pool_ok_def]
  show ?thesis
  proof (cases "is_pool1d g a")
    case True
    obtain q where q: "compute_padding_conv1d (ts_size a) (po_ksize p) (po_stride p) (Some (po_dilation p)) (po_pad_type p)
        (po_pad p) = Some q" "length q = 4"
      using padding_total(1)[of "ts_size a" "po_ksize p" "po_stride p" "po_dilation p" "po_pad p"] a p by blast
    have "pool_ok (p\<lparr>po_pad := q\<rparr>)" using p q(2) by (simp add: pool_ok_def)
    then obtain n where n: "pool_axis (p\<lparr>po_pad := q\<rparr>) a 0 = Some n" using pool_axis_total[of _ a 0] a by auto
    obtain ys where ys: "fill 2 1 1 (rd (ts_size a)) ((ts_size out)[0 := n]) = Some ys" "length ys = 8"
      using fill_copy[of 1 2 "ts_size a" 1 "(ts_size out)[0 := n]"] a l by auto
    have "op_pool_setup g p a out = Some (True, out\<lparr>ts_size := ys, ts_dim := ts_dim a\<rparr>, p\<lparr>po_pad := q\<rparr>)"
      unfolding op_pool_setup_def Let_def using True q(1) n ys(1) l by simp
    then show ?thesis using typed_resultI[OF assms(2) ys(2)] a by simp
  next
    case False
    obtain q where q: "compute_padding (ts_size a) (po_ksize p) (po_stride p) (Some (po_dilation p)) (po_pad_type p)
        (po_pad p) = Some q" "length q = 4"
      using padding_total(2)[of "ts_size a" "po_ksize p" "po_stride p" "po_dilation p" "po_pad p"] a p by blast
    have ok: "pool_ok (p\<lparr>po_pad := q\<rparr>)" using p q(2) by (simp add: pool_ok_def)
    obtain n where n: "pool_axis (p\<lparr>po_pad := q\<rparr>) a 0 = Some n" using pool_axis_total[OF ok, of a 0] a by auto
    obtain k where k: "pool_axis (p\<lparr>po_pad := q\<rparr>) a 1 = Some k" using pool_axis_total[OF ok, of a 1] a by auto
    obtain ys where ys: "fill (r - 2) 2 2 (rd (ts_size a)) ((ts_size out)[0 := n, 1 := k]) = Some ys" "length ys = 8"
      using fill_copy[of 2 "r - 2" "ts_size a" 2 "(ts_size out)[0 := n, 1 := k]"] a l by auto
    have "op_pool_setup g p a out = Some (True, out\<lparr>ts_size := ys, ts_dim := ts_dim a\<rparr>, p\<lparr>po_pad := q\<rparr>)"
      unfolding op_pool_setup_def Let_def using False q(1) n k ys(1) a l by simp
    then show ?thesis using typed_resultI[OF assms(2) ys(2)] a by simp
  qed
qed

lemma bind_pair: "Option.bind m (\<lambda>r. Some (fst r, fst (snd r))) = map_option (\<lambda>x. (fst x, fst (snd x))) m"
  by (cases m) simp_all

lemma op_typed:
  assumes "op_rank opn rs = Some r" "list_all2 has_rank ins rs" "auto_shape out"
  shows "typed_result (run_op g opn ins out) r"
proof -
  note r1 = list_all2_Cons2 list_all2_Nil2
  show ?thesis using assms
  proof (induction opn rs rule: op_rank.induct)
    case (1 rs)
    then show ?case by (auto split: if_splits intro: eltwise_typed)
  next
    case (4 s t a b)
    then obtain x y where "ins = [x, y]" "has_rank x a" "has_rank y b" "\<not> (s \<and> t)" by (auto simp: r1 split: if_splits)
    then show ?case using matmul_typed[of x a y b out s t] 4 by (simp split: if_splits)
  next
    case (5 ss a)
    then show ?case using reshape_typed by (auto simp: r1 split: if_splits)
  next
    case (6 p a)
    then show ?case using permute_typed by (auto simp: r1 split: if_splits)
  next
    case (7 m a)
    then show ?case using tile_typed by (auto simp: r1 split: if_splits)
  next
    case (8 axis a as)
    then show ?case by (auto split: if_splits intro: concat_typed)
  next
    case (9 f b n a)
    then show ?case using pad_typed[of _ a out f b n] by (auto simp: r1 bind_pair split: if_splits)
  next
    case (10 axis n a b)
    then show ?case using gather_typed[of _ a _ b out axis n] by (auto simp: r1 split: if_splits)
  next
    case (12 ss rs)
    then show ?case by (auto split: if_splits intro: scatter_nd_typed)
  next
    case (14 axis depth a)
    then show ?case using one_hot_typed[of _ a out axis depth] by (auto simp: r1 split: if_splits)
  next
    case (15 n a)
    then show ?case using sequence_mask_typed[of _ a out n] by (auto simp: r1 split: if_splits)
  next
    case (19 p a)
    then show ?case using pool_typed[of _ a out p g] by (auto simp: r1 bind_pair split: if_splits)
  qed (auto simp: r1 split: if_splits
      intro: unary_typed select_typed gather_elements_typed embedding_lookup_typed blocks_typed reorg_typed)
qed

subsection \<open>Programs\<close>

text \<open>
  A sequence of operations; the operands are numbers of earlier tensors. Every output starts
  without a shape. The run stops at the first setup that fails.
\<close>

type_synonym shape_prog = "(shape_op \<times> nat list) list"

definition no_shape :: tshape where
  "no_shape = \<lparr>ts_size = replicate 8 0, ts_dim = 0, ts_scalar = False\<rparr>"

fun lookup_all :: "'a list \<Rightarrow> nat list \<Rightarrow> 'a list option" where
  "lookup_all env [] = Some []"
| "lookup_all env (i # is) = do { x \<leftarrow> rd env i; xs \<leftarrow> lookup_all env is; Some (x # xs) }"

fun infer_shapes :: "'s graph \<Rightarrow> shape_prog \<Rightarrow> tshape list \<Rightarrow> (bool \<times> tshape list) option" where
  "infer_shapes g [] env = Some (True, env)"
| "infer_shapes g ((opn, args) # ps) env = do {
     ins \<leftarrow> lookup_all env args;
     r \<leftarrow> run_op g opn ins no_shape;
     if fst r then infer_shapes g ps (env @ [snd r]) else Some (False, env) }"

fun prog_ranks :: "shape_prog \<Rightarrow> nat list \<Rightarrow> nat list option" where
  "prog_ranks [] rs = Some rs"
| "prog_ranks ((opn, args) # ps) rs = do {
     as \<leftarrow> lookup_all rs args;
     r \<leftarrow> op_rank opn as;
     prog_ranks ps (rs @ [r]) }"

lemma lookup_all_typed:
  "list_all2 P env rs \<Longrightarrow> lookup_all rs args = Some as \<Longrightarrow> \<exists>ins. lookup_all env args = Some ins \<and> list_all2 P ins as"
proof (induction args arbitrary: as)
  case (Cons i args)
  obtain x where x: "i < length rs" "lookup_all rs args = Some x" "as = rs ! i # x"
    using Cons.prems(2) by (auto simp: rd_eq_Some_iff)
  obtain ins where "lookup_all env args = Some ins" "list_all2 P ins x" using Cons.IH[OF Cons.prems(1) x(2)] by blast
  moreover have "i < length env" "P (env ! i) (rs ! i)"
    using x(1) Cons.prems(1) by (simp_all add: list_all2_lengthD list_all2_nthD2)
  ultimately show ?case using x(3) by simp
qed simp

lemma infer_shapes_typed:
  "prog_ranks ps rs = Some rs' \<Longrightarrow> list_all2 has_rank env rs \<Longrightarrow>
    \<exists>b env'. infer_shapes g ps env = Some (b, env') \<and> (b \<longrightarrow> list_all2 has_rank env' rs')"
proof (induction ps arbitrary: env rs)
  case (Cons p ps)
  obtain opn args where p: "p = (opn, args)" by (cases p)
  obtain as r where t: "lookup_all rs args = Some as" "op_rank opn as = Some r" "prog_ranks ps (rs @ [r]) = Some rs'"
    using Cons.prems(1) by (auto simp: p)
  obtain ins where ins: "lookup_all env args = Some ins" "list_all2 has_rank ins as"
    using lookup_all_typed[OF Cons.prems(2) t(1)] by blast
  have "auto_shape no_shape" by (simp add: auto_shape_def no_shape_def)
  then obtain b out where r: "run_op g opn ins no_shape = Some (b, out)" "b \<longrightarrow> has_rank out r"
    using op_typed[OF t(2) ins(2), of no_shape g] by (auto simp: typed_result_def)
  show ?case
  proof (cases b)
    case True
    then have "list_all2 has_rank (env @ [out]) (rs @ [r])" using Cons.prems(2) r(2) by (simp add: list_all2_appendI)
    from Cons.IH[OF t(3) this] show ?thesis using ins(1) r(1) True by (simp add: p)
  qed (use ins(1) r(1) in \<open>auto simp: p\<close>)
qed auto

subsection \<open>The property\<close>

text \<open>
  C35: Ranks as types. If the ranks of a program of operations fit by the typing rules, shape
  inference on tensors of these ranks, whatever their sizes, never leaves an array, divides by 0
  or uses a missing tensor: it either stops at an operation that reports a mismatch of sizes, or
  ends with tensors of the ranks that the rules announce.
\<close>

theorem rank_types_sound:
  assumes "prog_ranks ps rs = Some rs'" "list_all2 has_rank env rs"
  shows "\<exists>b env'. infer_shapes g ps env = Some (b, env') \<and> (b \<longrightarrow> list_all2 has_rank env' rs')"
  using assms by (rule infer_shapes_typed)

definition sample_image :: tshape where
  "sample_image = \<lparr>ts_size = [224, 224, 3, 1, 0, 0, 0, 0], ts_dim = 4, ts_scalar = False\<rparr>"

definition sample_pool :: pool_param where
  "sample_pool = \<lparr>po_round = ROUND_FLOOR, po_ksize = [2, 2], po_stride = [2, 2], po_pad = [0, 0, 0, 0],
     po_pad_type = PAD_VALID, po_dilation = [1, 1]\<rparr>"

definition sample_prog :: shape_prog where
  "sample_prog = [(Pool sample_pool, [0]), (Reshape [- 1, 3], [1]), (Gather 0 0, [2, 2]), (Eltwise, [3, 2])]"

lemma sample_ranks: "prog_ranks sample_prog [4] = Some [4, 4, 2, 3, 3]"
  by (simp add: sample_prog_def pool_ok_def sample_pool_def rd_def)

theorem rank_types_sound_witness:
  "\<exists>b env'. infer_shapes empty_graph sample_prog [sample_image] = Some (b, env') \<and>
     (b \<longrightarrow> list_all2 has_rank env' [4, 4, 2, 3, 3])"
  by (rule rank_types_sound[OF sample_ranks]) (simp add: has_rank_def tensor_ok_def sample_image_def)

end
