(* ===== verification/Op_Ranges.thy ===== *)
theory Op_Ranges
  imports Op_Slice Op_Types
begin

text \<open>
  What \<open>STRIDED_SLICE\<close> selects: the size of every dimension of the output is the number of
  positions in a range, and the ranges for the driver select the same positions. \<open>SPLIT\<close> cuts an
  axis into consecutive pieces, and \<open>CONCAT\<close> puts them together again.
\<close>

subsection \<open>Positions\<close>

text \<open>The positions \<open>b\<close>, \<open>b + s\<close>, \<open>b + 2 * s\<close>, ... before the end \<open>e\<close>.\<close>

definition selected :: "int \<Rightarrow> int \<Rightarrow> int \<Rightarrow> int set" where
  "selected b e s = {j. \<exists>k :: nat. j = b + int k * s \<and> (if 0 < s then j < e else e < j)}"

lemma selected_step:
  assumes "s \<noteq> 0"
  shows "selected b e s = (if (if 0 < s then b < e else e < b) then insert b (selected (b + s) e s) else {})"
proof -
  have step: "b + int (Suc k) * s = (b + s) + int k * s" for k by (simp add: algebra_simps)
  have out: "\<not> (if 0 < s then b + int k * s < e else e < b + int k * s)" if "\<not> (if 0 < s then b < e else e < b)" for k
  proof (cases "0 < s")
    case True
    then have "0 \<le> int k * s" by simp
    moreover have "e \<le> b" using that True by simp
    ultimately have "\<not> b + int k * s < e" by linarith
    then show ?thesis using True by simp
  next
    case False
    then have "int k * s \<le> 0" by (simp add: mult_nonneg_nonpos)
    moreover have "b \<le> e" using that False by simp
    ultimately have "\<not> e < b + int k * s" by linarith
    then show ?thesis using False by simp
  qed
  have eq: "(\<exists>k. P k) \<longleftrightarrow> P 0 \<or> (\<exists>k. P (Suc k))" for P :: "nat \<Rightarrow> bool" by (metis not0_implies_Suc)
  show ?thesis
  proof (cases "if 0 < s then b < e else e < b")
    case True
    then show ?thesis unfolding selected_def by (subst eq) (auto simp: step simp del: of_nat_Suc)
  next
    case False
    then show ?thesis using out[OF False] by (auto simp: selected_def)
  qed
qed

lemma selected_range: "selected b e s \<subseteq> (if 0 < s then {b..<e} else {e<..b})"
  by (auto simp: selected_def mult_nonneg_nonpos)

lemma finite_selected: "finite (selected b e s)"
  by (rule finite_subset[OF selected_range]) simp

lemma card_selected:
  assumes "s \<noteq> 0" "if 0 < s then b < e else e < b"
  shows "card (selected b e s) = Suc (card (selected (b + s) e s))"
proof -
  have "b \<notin> selected (b + s) e s" using selected_range[of "b + s" e s] assms(1) by (auto split: if_splits)
  then show ?thesis using selected_step[OF assms(1), of b e] assms(2) finite_selected by simp
qed

text \<open>The loop counts them, if its counter stays in range.\<close>

definition counter_ok :: "int \<Rightarrow> int \<Rightarrow> int \<Rightarrow> bool" where
  "counter_ok b e s \<longleftrightarrow> s \<noteq> 0 \<and> - (2 ^ 31) \<le> b \<and> b < 2 ^ 31 \<and>
     (if 0 < s then e - 1 + s < 2 ^ 31 else - (2 ^ 31) \<le> e + 1 + s)"

lemma slice_count_ok: "counter_ok b e s \<Longrightarrow> slice_count s e b m = Some (m + card (selected b e s))"
proof (induction "nat (if 0 < s then e - b else b - e)" arbitrary: b m rule: less_induct)
  case less
  have s: "s \<noteq> 0" using less.prems by (simp add: counter_ok_def)
  show ?case
  proof (cases "if 0 < s then b < e else e < b")
    case True
    have "add_s32 b s = Some (b + s)" using True less.prems by (auto simp: add_s32_def counter_ok_def split: if_splits)
    moreover have "counter_ok (b + s) e s" using True less.prems by (auto simp: counter_ok_def split: if_splits)
    moreover have "nat (if 0 < s then e - (b + s) else b + s - e) < nat (if 0 < s then e - b else b - e)"
      using True s by auto
    ultimately show ?thesis
      using less.hyps[of "b + s" "m + 1"] True card_selected[OF s True] by (subst slice_count.simps) (auto split: if_splits)
  next
    case False
    then have "selected b e s = {}" by (simp add: selected_step[OF s])
    then show ?thesis using False by (subst slice_count.simps) (auto split: if_splits)
  qed
qed

subsection \<open>Reversing indices and masks\<close>

lemma reverse_loop_ok:
  "i + n = d \<Longrightarrow> d \<le> length src \<Longrightarrow> d \<le> length dst \<Longrightarrow> \<forall>k. d - i \<le> k \<and> k < d \<longrightarrow> dst ! k = src ! (d - 1 - k) \<Longrightarrow>
    \<exists>r. reverse_loop src d i n dst = Some r \<and> length r = length dst \<and> (\<forall>k < d. r ! k = src ! (d - 1 - k)) \<and>
      drop d r = drop d dst"
proof (induction n arbitrary: i dst)
  case (Suc n)
  let ?dst = "dst[d - i - 1 := src ! i]"
  have "\<forall>k. d - Suc i \<le> k \<and> k < d \<longrightarrow> ?dst ! k = src ! (d - 1 - k)"
    using Suc.prems by (auto simp: nth_list_update)
  then show ?case using Suc.IH[of "Suc i" ?dst] Suc.prems by auto
qed auto

lemma reverse_indices_ok:
  assumes "d \<le> length src" "d \<le> length dst"
  shows "reverse_indices dst src d = Some (rev (take d src) @ drop d dst)"
proof -
  obtain r where r: "reverse_loop src d 0 d dst = Some r" "length r = length dst" "\<forall>k < d. r ! k = src ! (d - 1 - k)"
    "drop d r = drop d dst"
    using reverse_loop_ok[of 0 d d src dst] assms by auto
  have "take d r = rev (take d src)" using r(2,3) assms by (intro nth_equalityI) (auto simp: rev_nth)
  then have "r = rev (take d src) @ drop d dst" using r(4) append_take_drop_id[of d r] by simp
  then show ?thesis using r(1) by (simp add: reverse_indices_def)
qed

definition mask_below :: "uint32 \<Rightarrow> nat \<Rightarrow> bool" where
  "mask_below m d \<longleftrightarrow> (\<forall>i \<ge> d. \<not> bit m i)"

lemma leading_bits_le: "mask_below m d \<Longrightarrow> d \<le> 8 \<Longrightarrow> leading_bits l n m \<le> l + d"
proof (induction n arbitrary: l m d)
  case (Suc n)
  show ?case
  proof (cases d)
    case 0
    then have "m = 0" using Suc.prems(1) by (intro bit_word_eqI) (simp add: mask_below_def)
    then show ?thesis by simp
  next
    case (Suc e)
    have "mask_below (signed_drop_bit 1 m) e"
      using Suc.prems Suc by (auto simp: mask_below_def bit_signed_drop_bit_iff)
    then show ?thesis using Suc.IH[of "signed_drop_bit 1 m" e "l + 1"] Suc.prems(2) Suc by auto
  qed
qed simp

lemma bit_push_one: "k < 32 \<Longrightarrow> bit (push_bit k 1 :: uint32) j \<longleftrightarrow> j = k"
  by (auto simp: bit_push_bit_iff bit_1_iff simp del: push_bit_of_1)

lemma reverse_bits_ok:
  "d \<le> 32 \<Longrightarrow> i + n = d \<Longrightarrow> bit (reverse_bits d i n m w) j \<longleftrightarrow> bit w j \<or> (i \<le> d - 1 - j \<and> j < d \<and> bit m (d - 1 - j))"
proof (induction n arbitrary: i w)
  case (Suc n)
  have p: "bit (push_bit (d - i - 1) 1 :: uint32) j \<longleftrightarrow> j = d - i - 1" using Suc.prems by (rule_tac bit_push_one) simp
  have ih: "bit (reverse_bits d (Suc i) n m v) j \<longleftrightarrow> bit v j \<or> (Suc i \<le> d - 1 - j \<and> j < d \<and> bit m (d - 1 - j))" for v
    using Suc.IH[of "Suc i" v] Suc.prems by simp
  show ?case
  proof (cases "j = d - i - 1")
    case True
    then have "d - 1 - j = i" "j < d" using Suc.prems by arith+
    then show ?thesis using ih p True by (simp add: bit_or_iff del: push_bit_of_1)
  next
    case False
    then have "j < d \<Longrightarrow> i \<le> d - 1 - j \<longleftrightarrow> Suc i \<le> d - 1 - j" using Suc.prems by arith
    then show ?thesis using ih p False by (cases "j < d") (simp_all add: bit_or_iff del: push_bit_of_1)
  qed
qed auto

lemma reverse_mask_ok:
  assumes "mask_below m d" "d \<le> 8"
  shows "bit (reverse_mask_bits m d) j \<longleftrightarrow> j < d \<and> bit m (d - 1 - j)"
proof -
  have "max d (leading_bits 0 8 m) = d" using leading_bits_le[OF assms, of 0 8] by simp
  then show ?thesis using reverse_bits_ok[of d 0 d m 0 j] assms(2) by (simp add: reverse_mask_bits_def)
qed

lemma reverse_mask_zero: "reverse_mask_bits 0 d = 0"
proof -
  have "reverse_bits d' i n 0 w = w" for d' i n w by (induction n arbitrary: i) simp_all
  then show ?thesis by (simp add: reverse_mask_bits_def)
qed

lemma reverse_mask_twice:
  assumes "mask_below m d" "d \<le> 8" "\<And>j. bit m' j \<longleftrightarrow> bit (reverse_mask_bits m d) j"
  shows "reverse_mask_bits m' d = m"
proof (rule bit_word_eqI)
  fix j assume "j < LENGTH(32)"
  have "mask_below m' d" using assms(3) by (simp add: mask_below_def reverse_mask_ok[OF assms(1,2)])
  then show "bit (reverse_mask_bits m' d) j \<longleftrightarrow> bit m j"
    using assms(1) leI[of j d] by (cases "j < d") (auto simp: reverse_mask_ok[OF _ assms(2)] reverse_mask_ok[OF assms(1,2)] assms(3) mask_below_def)
qed

subsection \<open>The parameters without new axes\<close>

lemma bit_set_if: "k < 32 \<Longrightarrow> bit (set_if c k m) j \<longleftrightarrow> bit m j \<or> (c \<and> j = k)"
  using bit_push_one[of k j] by (auto simp: set_if_def bit_or_iff simp del: push_bit_of_1)

text \<open>Indices for each of the \<open>d\<close> dimensions of the input, and masks of these dimensions only.\<close>

definition slice_full :: "slice_node \<Rightarrow> nat \<Rightarrow> bool" where
  "slice_full p d \<longleftrightarrow> 0 < d \<and> d \<le> 8 \<and> sn_new_mask p = 0 \<and>
     sn_begin_num p = of_nat d \<and> sn_end_num p = of_nat d \<and> sn_stride_num p = of_nat d \<and>
     d \<le> length (sn_begin p) \<and> d \<le> length (sn_end p) \<and> d \<le> length (sn_stride p) \<and>
     mask_below (sn_begin_mask p) d \<and> mask_below (sn_end_mask p) d \<and> mask_below (sn_shrink_mask p) d"

lemma build_loop_full:
  "i + n = d \<Longrightarrow> d \<le> 8 \<Longrightarrow> ac_num ac = i \<Longrightarrow> d \<le> length bs \<Longrightarrow> d \<le> length es \<Longrightarrow> d \<le> length ss \<Longrightarrow>
    length (ac_begin ac) = 8 \<Longrightarrow> length (ac_end ac) = 8 \<Longrightarrow> length (ac_stride ac) = 8 \<Longrightarrow>
    take i (ac_begin ac) = take i bs \<Longrightarrow> take i (ac_end ac) = take i es \<Longrightarrow> take i (ac_stride ac) = take i ss \<Longrightarrow>
    \<exists>ac'. build_loop 0 d (bm, em, sm) (bs, es, ss) i n ac = Some ac' \<and> ac_num ac' = d \<and>
      length (ac_begin ac') = 8 \<and> length (ac_end ac') = 8 \<and> length (ac_stride ac') = 8 \<and>
      take d (ac_begin ac') = take d bs \<and> take d (ac_end ac') = take d es \<and> take d (ac_stride ac') = take d ss \<and>
      (\<forall>j. bit (ac_start_mask ac') j \<longleftrightarrow> bit (ac_start_mask ac) j \<or> (i \<le> j \<and> j < d \<and> bit bm j)) \<and>
      (\<forall>j. bit (ac_stop_mask ac') j \<longleftrightarrow> bit (ac_stop_mask ac) j \<or> (i \<le> j \<and> j < d \<and> bit em j)) \<and>
      (\<forall>j. bit (ac_shrink_mask ac') j \<longleftrightarrow> bit (ac_shrink_mask ac) j \<or> (i \<le> j \<and> j < d \<and> bit sm j))"
proof (induction n arbitrary: i ac)
  case (Suc n)
  let ?ac = "ac\<lparr>ac_begin := (ac_begin ac)[i := bs ! i], ac_end := (ac_end ac)[i := es ! i],
    ac_stride := (ac_stride ac)[i := ss ! i], ac_num := Suc i,
    ac_start_mask := set_if (bit bm i) i (ac_start_mask ac), ac_stop_mask := set_if (bit em i) i (ac_stop_mask ac),
    ac_shrink_mask := set_if (bit sm i) i (ac_shrink_mask ac)\<rparr>"
  have step: "build_loop 0 d (bm, em, sm) (bs, es, ss) i (Suc n) ac = build_loop 0 d (bm, em, sm) (bs, es, ss) (Suc i) n ?ac"
    using Suc.prems by (cases ac) (simp add: acc_push_def)
  have tk: "take (Suc i) (l[i := m ! i]) = take (Suc i) m" if "take i l = take i m" "i < length l" "i < length m"
    for l m :: "int list" using that by (simp add: take_Suc_conv_app_nth)
  have "take (Suc i) (ac_begin ?ac) = take (Suc i) bs" "take (Suc i) (ac_end ?ac) = take (Suc i) es"
    "take (Suc i) (ac_stride ?ac) = take (Suc i) ss"
    using Suc.prems by (simp_all add: tk)
  then obtain ac' where ac': "build_loop 0 d (bm, em, sm) (bs, es, ss) (Suc i) n ?ac = Some ac'" "ac_num ac' = d"
    "length (ac_begin ac') = 8" "length (ac_end ac') = 8" "length (ac_stride ac') = 8"
    "take d (ac_begin ac') = take d bs" "take d (ac_end ac') = take d es" "take d (ac_stride ac') = take d ss"
    "\<forall>j. bit (ac_start_mask ac') j \<longleftrightarrow> bit (ac_start_mask ?ac) j \<or> (Suc i \<le> j \<and> j < d \<and> bit bm j)"
    "\<forall>j. bit (ac_stop_mask ac') j \<longleftrightarrow> bit (ac_stop_mask ?ac) j \<or> (Suc i \<le> j \<and> j < d \<and> bit em j)"
    "\<forall>j. bit (ac_shrink_mask ac') j \<longleftrightarrow> bit (ac_shrink_mask ?ac) j \<or> (Suc i \<le> j \<and> j < d \<and> bit sm j)"
    using Suc.IH[of "Suc i" ?ac] Suc.prems by auto
  have m: "bit (set_if (bit x i) i y) j \<or> (Suc i \<le> j \<and> j < d \<and> bit x j) \<longleftrightarrow> bit y j \<or> (i \<le> j \<and> j < d \<and> bit x j)" for x y j
    using Suc.prems(1,2) by (cases "j = i") (auto simp: bit_set_if)
  show ?case
    using ac' unfolding step by (intro exI[of _ ac']) (simp add: m)
qed auto

lemma small_rank: "d \<le> 8 \<Longrightarrow> nat (sint (of_nat d :: uint32)) = d \<and> unat (of_nat d :: uint32) = d"
proof -
  assume "d \<le> 8"
  then have "d \<in> {0, 1, 2, 3, 4, 5, 6, 7, 8}" by auto
  then show ?thesis by auto
qed

lemma build_full:
  assumes "slice_full p d" "d \<le> length (sp_begin old)" "d \<le> length (sp_end old)" "d \<le> length (sp_stride old)"
  shows "build_strided_slice_params p d old = Some \<lparr>sp_begin = take d (sn_begin p) @ drop d (sp_begin old),
    sp_end = take d (sn_end p) @ drop d (sp_end old), sp_stride = take d (sn_stride p) @ drop d (sp_stride old),
    sp_num = d, sp_begin_mask = sn_begin_mask p, sp_end_mask = sn_end_mask p, sp_shrink_mask = sn_shrink_mask p,
    sp_new_mask = 0, sp_add_axis = 0\<rparr>"
proof -
  note f = assms(1)[unfolded slice_full_def]
  have d: "d \<le> 8" and num: "nat (sint (of_nat d :: uint32)) = d" "unat (of_nat d :: uint32) = d"
    using f small_rank[of d] by auto
  let ?r = "\<lambda>l. rev (take d l) @ drop d (replicate 8 (0 :: int))"
  have rv: "reverse_indices (replicate 8 0) l d = Some (?r l)" if "d \<le> length l" for l
    using reverse_indices_ok[of d l "replicate 8 0"] that d by simp
  obtain ac where ac: "build_loop 0 d (reverse_mask_bits (sn_begin_mask p) d, reverse_mask_bits (sn_end_mask p) d,
      reverse_mask_bits (sn_shrink_mask p) d) (?r (sn_begin p), ?r (sn_end p), ?r (sn_stride p)) 0 d
      \<lparr>ac_begin = replicate 8 0, ac_end = replicate 8 0, ac_stride = replicate 8 0, ac_num = 0,
        ac_start_mask = 0, ac_stop_mask = 0, ac_shrink_mask = 0\<rparr> = Some ac"
    "ac_num ac = d" "length (ac_begin ac) = 8" "length (ac_end ac) = 8" "length (ac_stride ac) = 8"
    "take d (ac_begin ac) = rev (take d (sn_begin p))" "take d (ac_end ac) = rev (take d (sn_end p))"
    "take d (ac_stride ac) = rev (take d (sn_stride p))"
    "\<And>j. bit (ac_start_mask ac) j \<longleftrightarrow> j < d \<and> bit (reverse_mask_bits (sn_begin_mask p) d) j"
    "\<And>j. bit (ac_stop_mask ac) j \<longleftrightarrow> j < d \<and> bit (reverse_mask_bits (sn_end_mask p) d) j"
    "\<And>j. bit (ac_shrink_mask ac) j \<longleftrightarrow> j < d \<and> bit (reverse_mask_bits (sn_shrink_mask p) d) j"
    using build_loop_full[of 0 d d "\<lparr>ac_begin = replicate 8 0, ac_end = replicate 8 0, ac_stride = replicate 8 0, ac_num = 0,
        ac_start_mask = 0, ac_stop_mask = 0, ac_shrink_mask = 0\<rparr>" "?r (sn_begin p)" "?r (sn_end p)" "?r (sn_stride p)" "reverse_mask_bits (sn_begin_mask p) d"
      "reverse_mask_bits (sn_end_mask p) d" "reverse_mask_bits (sn_shrink_mask p) d"] f d
    by auto
  have masks: "reverse_mask_bits (ac_start_mask ac) d = sn_begin_mask p" "reverse_mask_bits (ac_stop_mask ac) d = sn_end_mask p"
    "reverse_mask_bits (ac_shrink_mask ac) d = sn_shrink_mask p"
    using f by (auto intro!: reverse_mask_twice simp: ac reverse_mask_ok)
  have c: "count_bits 0 n = 0" for n by (simp add: count_bits_def)
  show ?thesis
    using f d num ac(1-8) masks assms(2-4)
    by (simp add: build_strided_slice_params_def rv c reverse_mask_zero reverse_indices_ok)
qed

subsection \<open>The sizes of the output\<close>

text \<open>The first position and the end of axis \<open>i\<close>, over integers; negative indices count from the end.\<close>

definition from_end :: "int \<Rightarrow> uint32 \<Rightarrow> int" where
  "from_end v n = (if v < 0 then v + uint n else v)"

definition start_pos :: "slice_node \<Rightarrow> uint32 \<Rightarrow> nat \<Rightarrow> int" where
  "start_pos p n i =
     (if bit (sn_begin_mask p) i then (if 0 < sn_stride p ! i then 0 else uint n - 1)
      else clamp (from_end (sn_begin p ! i) n) 0 (uint n - 1))"

definition end_pos :: "slice_node \<Rightarrow> uint32 \<Rightarrow> nat \<Rightarrow> int" where
  "end_pos p n i =
     (if 0 < sn_stride p ! i
      then (if bit (sn_end_mask p) i then uint n else clamp (from_end (sn_end p ! i) n) 0 (uint n))
      else (if bit (sn_end_mask p) i then - 1 else clamp (from_end (sn_end p ! i) n) (- 1) (uint n - 1)))"

definition positions :: "slice_node \<Rightarrow> uint32 \<Rightarrow> nat \<Rightarrow> int set" where
  "positions p n i = selected (start_pos p n i) (end_pos p n i) (sn_stride p ! i)"

definition s32 :: "int \<Rightarrow> bool" where
  "s32 v \<longleftrightarrow> - (2 ^ 31) \<le> v \<and> v < 2 ^ 31"

definition axis_ok :: "slice_node \<Rightarrow> uint32 \<Rightarrow> nat \<Rightarrow> bool" where
  "axis_ok p n i \<longleftrightarrow> 0 < uint n \<and> uint n < 2 ^ 31 \<and> s32 (sn_begin p ! i) \<and> s32 (sn_end p ! i) \<and>
     s32 (sn_stride p ! i) \<and> sn_stride p ! i \<noteq> 0 \<and> uint n + sn_stride p ! i \<le> 2 ^ 31"

lemma sint_of_s32: "s32 v \<Longrightarrow> sint (word_of_int v :: uint32) = v"
  by (rule trans[OF sint_sbintrunc' signed_take_bit_int_eq_self]) (simp_all add: s32_def)

lemma sint_eq_uint32: "uint (n :: uint32) < 2 ^ 31 \<Longrightarrow> sint n = uint n"
  by (rule trans[OF sint_uint signed_take_bit_int_eq_self]) (simp_all add: order_trans[OF _ unsigned_greater_eq])

lemma axis_value_ok: "s32 v \<Longrightarrow> uint n < 2 ^ 31 \<Longrightarrow> get_slice_axis_value v n = from_end v n"
proof -
  assume a: "s32 v" "uint n < 2 ^ 31"
  have "sint (word_of_int v + n) = v + uint n" if "v < 0"
  proof -
    have "word_of_int v + n = word_of_int (v + uint n)" by simp
    moreover have "- (2 ^ 31) \<le> v + uint n" "v + uint n < 2 ^ 31" using a that by (simp_all add: s32_def add_increasing2)
    ultimately show ?thesis using sint_of_s32[of "v + uint n"] by (simp add: s32_def)
  qed
  then show ?thesis by (simp add: get_slice_axis_value_def from_end_def)
qed

lemma last_position: "0 < uint (n :: uint32) \<Longrightarrow> uint n < 2 ^ 31 \<Longrightarrow> sint (n - 1) = uint n - 1"
proof -
  assume a: "0 < uint n" "uint n < 2 ^ 31"
  have "n - 1 = word_of_int (uint n - 1)" by simp
  then show ?thesis using a sint_of_s32[of "uint n - 1"] by (simp add: s32_def)
qed

lemma start_pos_range: "axis_ok p n i \<Longrightarrow> 0 \<le> start_pos p n i \<and> start_pos p n i < uint n"
  by (auto simp: start_pos_def axis_ok_def clamp_def)

lemma clamped_counter_ok:
  "axis_ok p n i \<Longrightarrow> counter_ok (start_pos p n i) (get_slice_clamp_stop (sn_stride p ! i) x n) (sn_stride p ! i)"
  using start_pos_range[of p n i]
  by (auto simp: axis_ok_def counter_ok_def get_slice_clamp_stop_def clamp_def s32_def sint_eq_uint32)

lemma end_pos_eq:
  "axis_ok p n i \<Longrightarrow> get_slice_clamp_stop (sn_stride p ! i)
      (if bit (sn_end_mask p) i then get_slice_mask_stop_value (sn_stride p ! i) n else get_slice_axis_value (sn_end p ! i) n) n
    = end_pos p n i"
  by (auto simp: axis_ok_def get_slice_clamp_stop_def end_pos_def get_slice_mask_stop_value_def clamp_def sint_eq_uint32
      axis_value_ok)

definition full_params :: "slice_node \<Rightarrow> nat \<Rightarrow> slice_params \<Rightarrow> slice_params" where
  "full_params p d old = \<lparr>sp_begin = take d (sn_begin p) @ drop d (sp_begin old),
    sp_end = take d (sn_end p) @ drop d (sp_end old), sp_stride = take d (sn_stride p) @ drop d (sp_stride old),
    sp_num = d, sp_begin_mask = sn_begin_mask p, sp_end_mask = sn_end_mask p, sp_shrink_mask = sn_shrink_mask p,
    sp_new_mask = 0, sp_add_axis = 0\<rparr>"

lemma full_params_rd:
  assumes "slice_full p d" "i < d"
  shows "rd (sp_begin (full_params p d old)) i = Some (sn_begin p ! i)" "rd (sp_end (full_params p d old)) i = Some (sn_end p ! i)"
    "rd (sp_stride (full_params p d old)) i = Some (sn_stride p ! i)"
  using assms by (auto simp: slice_full_def full_params_def nth_append rd_def)

lemma slice_begin_ok:
  assumes "slice_full p d" "i < d" "axis_ok p n i"
  shows "slice_begin (full_params p d old) n i = Some (start_pos p n i)"
  using assms(3)
  by (simp add: slice_begin_def full_params_rd[OF assms(1,2)] axis_ok_def start_pos_def axis_value_ok
      get_slice_mask_start_value_def sint_eq_uint32 last_position)
    (auto simp: full_params_def clamp_def)

lemma slice_dim_ok:
  assumes "slice_full p d" "i < d" "axis_ok p (ts_size in0 ! i) i" "i < length (ts_size in0)"
  shows "\<exists>v. slice_dim (full_params p d old) in0 i = Some v \<and>
    (\<not> bit (sn_shrink_mask p) i \<longrightarrow> v = of_nat (card (positions p (ts_size in0 ! i) i)))"
proof -
  let ?n = "ts_size in0 ! i" and ?s = "sn_stride p ! i" and ?f = "full_params p d old"
  let ?stop = "if bit (sp_end_mask ?f) i then get_slice_mask_stop_value ?s ?n
    else if bit (sp_shrink_mask ?f) i then start_pos p ?n i + 1 else get_slice_axis_value (sn_end p ! i) ?n"
  have e: "\<not> bit (sn_shrink_mask p) i \<Longrightarrow> get_slice_clamp_stop ?s ?stop ?n = end_pos p ?n i"
    using end_pos_eq[OF assms(3)] by (cases "bit (sn_end_mask p) i") (simp_all add: full_params_def)
  have "slice_count ?s (get_slice_clamp_stop ?s ?stop ?n) (start_pos p ?n i) 0 =
      Some (card (selected (start_pos p ?n i) (get_slice_clamp_stop ?s ?stop ?n) ?s))"
    using slice_count_ok[OF clamped_counter_ok[OF assms(3), of ?stop], of 0] by simp
  then show ?thesis
    using assms(4) e by (simp add: slice_dim_def slice_begin_ok[OF assms(1-3)] full_params_rd[OF assms(1,2)] positions_def)
qed

lemma slice_output_ok:
  "sp_new_mask p = 0 \<Longrightarrow> idx + n \<le> length shape \<Longrightarrow> d + n \<le> length sizes \<Longrightarrow>
    slice_output p shape i idx n d sizes =
      (let K = filter (\<lambda>k. \<not> bit (sp_shrink_mask p) k) [idx..<idx + n]
       in Some (d + length K, take d sizes @ map ((!) shape) K @ drop (d + length K) sizes))"
proof (induction n arbitrary: i idx d sizes)
  case (Suc n)
  have up: "[idx..<idx + Suc n] = idx # [Suc idx..<Suc idx + n]" by (simp add: upt_conv_Cons)
  show ?case
  proof (cases "bit (sp_shrink_mask p) idx")
    case True
    then show ?thesis using Suc.IH[of "idx + 1" d sizes] Suc.prems unfolding up by (simp add: Let_def del: upt_Suc)
  next
    case False
    have "take (Suc d) (sizes[d := v]) = take d sizes @ [v]" for v
      using Suc.prems by (simp add: take_Suc_conv_app_nth)
    then show ?thesis using Suc.IH[of "idx + 1" "d + 1" "sizes[d := shape ! idx]"] Suc.prems False
      unfolding up by (simp add: Let_def del: upt_Suc)
  qed
qed simp

subsection \<open>The setup as a whole\<close>

definition slice_case :: "slice_node \<Rightarrow> nat \<Rightarrow> tshape \<Rightarrow> slice_params \<Rightarrow> bool" where
  "slice_case p d in0 old \<longleftrightarrow> slice_full p d \<and> unat (ts_dim in0) = d \<and> length (ts_size in0) = 8 \<and>
     length (sp_begin old) = 8 \<and> length (sp_end old) = 8 \<and> length (sp_stride old) = 8 \<and>
     (\<forall>i < d. axis_ok p (ts_size in0 ! i) i)"

text \<open>The dimensions of the input that the output still has.\<close>

definition kept :: "slice_node \<Rightarrow> nat \<Rightarrow> nat list" where
  "kept p d = filter (\<lambda>k. \<not> bit (sn_shrink_mask p) k) [0..<d]"

lemma kept_length: "length (kept p d) \<le> d"
  using length_filter_le[of _ "[0..<d]"] by (simp add: kept_def)

lemma kept_nth: "k < length (kept p d) \<Longrightarrow> kept p d ! k < d \<and> \<not> bit (sn_shrink_mask p) (kept p d ! k)"
  using nth_mem[of k "kept p d"] by (auto simp: kept_def)

lemma slice_shape_ok:
  assumes "slice_case p d in0 old" "auto_shape out"
  shows "\<exists>out'. slice_shape (full_params p d old) in0 out = Some out' \<and> length (ts_size out') = 8 \<and>
    (if kept p d = [] then ts_dim out' = 1 \<and> ts_size out' ! 0 = 1 \<and> ts_scalar out'
     else ts_dim out' = of_nat (length (kept p d)) \<and>
       (\<forall>k < length (kept p d). ts_size out' ! k =
          of_nat (card (positions p (ts_size in0 ! (kept p d ! k)) (kept p d ! k)))))"
proof -
  note c = assms(1)[unfolded slice_case_def] assms(2)[unfolded auto_shape_def]
  have d: "d \<le> 8" using c by (simp add: slice_full_def)
  let ?f = "full_params p d old" and ?K = "kept p d"
  let ?v = "\<lambda>i. the (slice_dim ?f in0 i)"
  have v: "slice_dim ?f in0 i = Some (?v i) \<and>
      (\<not> bit (sn_shrink_mask p) i \<longrightarrow> ?v i = of_nat (card (positions p (ts_size in0 ! i) i)))" if "i < d" for i
    using slice_dim_ok[of p d i in0 old] c that d by auto
  have sh: "fill d 0 0 (slice_dim ?f in0) (replicate 8 0) = Some (map ?v [0..<d] @ replicate (8 - d) 0)" (is "_ = Some ?sh")
    using fill_ok[of d "slice_dim ?f in0" 0 ?v 0 "replicate 8 0"] v d by simp
  have out: "slice_output ?f ?sh 0 0 d 0 (ts_size out) =
      Some (length ?K, map ((!) ?sh) ?K @ drop (length ?K) (ts_size out))"
    using slice_output_ok[of ?f 0 d ?sh 0 "ts_size out" 0] c d by (simp add: full_params_def kept_def Let_def)
  have k: "?sh ! (?K ! k) = of_nat (card (positions p (ts_size in0 ! (?K ! k)) (?K ! k)))" if "k < length ?K" for k
    using kept_nth[OF that] v by (simp add: nth_append)
  have ax: "sp_add_axis ?f = 0" by (simp add: full_params_def)
  show ?thesis
    using c d sh out ax kept_length[of p d] k
    by (cases "?K = []") (auto simp: slice_shape_def nth_append)
qed

definition driver_range :: "slice_node \<Rightarrow> tshape \<Rightarrow> nat \<Rightarrow> int \<times> int \<times> int" where
  "driver_range p in0 i = (start_pos p (ts_size in0 ! i) i,
     if bit (sn_shrink_mask p) i then start_pos p (ts_size in0 ! i) i + 1 else end_pos p (ts_size in0 ! i) i, sn_stride p ! i)"

lemma range_at_ok:
  assumes "slice_case p d in0 old" "i < 8"
  shows "range_at (full_params p d old) in0 i =
    Some (if i < d then driver_range p in0 i else (0, 1, 1))"
proof -
  note c = assms(1)[unfolded slice_case_def]
  show ?thesis
  proof (cases "i < d")
    case True
    let ?n = "ts_size in0 ! i"
    have f: "slice_full p d" and a: "axis_ok p ?n i" using c True by auto
    have b: "range_start (full_params p d old) in0 i = Some (start_pos p ?n i)"
      using a c True assms(2) by (simp add: range_start_def full_params_rd[OF f True] axis_ok_def start_pos_def axis_value_ok
          get_slice_mask_start_value_def sint_eq_uint32 last_position)
        (auto simp: full_params_def clamp_def)
    have "range_stop (full_params p d old) in0 i =
        Some (if bit (sn_shrink_mask p) i then start_pos p ?n i + 1 else end_pos p ?n i)"
      using a c True assms(2) b end_pos_eq[OF a]
      by (cases "bit (sn_end_mask p) i") (simp_all add: range_stop_def full_params_rd[OF f True], simp_all add: full_params_def)
    moreover have "sp_num (full_params p d old) = d" by (simp add: full_params_def)
    ultimately show ?thesis using b True c by (simp add: range_at_def driver_range_def full_params_rd[OF f True])
  next
    case False
    then show ?thesis using c by (simp add: range_at_def full_params_def)
  qed
qed

lemma slice_ranges_ok:
  assumes "slice_case p d in0 old" "length (ts_size out') = 8"
  shows "\<exists>loc'. slice_ranges (full_params p d old) in0 out' loc = Some loc' \<and>
    (if \<exists>i < d. fst (snd (unit_range out' i (driver_range p in0 i))) < 0
     then take d (sl_start loc') = take d (sn_begin p) \<and> take d (sl_stop loc') = take d (sn_end p) \<and>
       take d (sl_stride loc') = take d (sn_stride p) \<and> sl_begin_mask loc' = sn_begin_mask p \<and>
       sl_end_mask loc' = sn_end_mask p
     else \<forall>i < d. (sl_start loc' ! i, sl_stop loc' ! i, sl_stride loc' ! i) = unit_range out' i (driver_range p in0 i))"
proof -
  note c = assms(1)[unfolded slice_case_def]
  have d: "d \<le> 8" and f: "slice_full p d" using c by (auto simp: slice_full_def)
  let ?f = "full_params p d old"
  let ?v = "\<lambda>i. the (range_at ?f in0 i)"
  define rs where "rs = map2 (unit_range out') [0..<8] (map ?v [0..<8])"
  have fill: "fill 8 0 0 (range_at ?f in0) (replicate 8 (0, 0, 0)) = Some (map ?v [0..<8])"
    using fill_ok[of 8 "range_at ?f in0" 0 ?v 0 "replicate 8 (0, 0, 0)"] range_at_ok[OF assms(1)] by simp
  have len: "length rs = 8" by (simp add: rs_def)
  have rs: "rs ! i = unit_range out' i (?v i)" if "i < 8" for i using that by (simp add: rs_def)
  have num: "sp_num ?f = d" by (simp add: full_params_def)
  have cp: "fill d 0 0 (rd xs) (map h rs) = Some (take d xs @ drop d (map h rs))" if "d \<le> length xs"
    for xs :: "int list" and h using fill_copy[of 0 d xs 0 "map h rs"] that d len by simp
  have lens: "d \<le> length (sp_begin ?f)" "d \<le> length (sp_end ?f)" "d \<le> length (sp_stride ?f)"
    using c d f by (auto simp: full_params_def slice_full_def)
  let ?neg = "list_ex (\<lambda>i. map fst rs ! i < 0 \<or> map (fst \<circ> snd) rs ! i < 0) [0..<d]"
  have r: "rs ! i = unit_range out' i (driver_range p in0 i)" if "i < d" for i
    using rs[of i] range_at_ok[OF assms(1), of i] that d by simp
  have pos: "0 \<le> fst (rs ! i)" if "i < d" for i
  proof -
    have "axis_ok p (ts_size in0 ! i) i" using c that by simp
    then show ?thesis using rs[of i] range_at_ok[OF assms(1), of i] start_pos_range[of p "ts_size in0 ! i" i] that d
      by (simp add: unit_range_def driver_range_def)
  qed
  have neg: "?neg \<longleftrightarrow> (\<exists>i < d. fst (snd (rs ! i)) < 0)"
    using pos len d by (auto simp: list_ex_iff not_less[symmetric])
  have unf: "slice_ranges ?f in0 out' loc =
      (if ?neg then do {
         starts \<leftarrow> fill d 0 0 (rd (sp_begin ?f)) (map fst rs);
         stops \<leftarrow> fill d 0 0 (rd (sp_end ?f)) (map (fst \<circ> snd) rs);
         strides \<leftarrow> fill d 0 0 (rd (sp_stride ?f)) (map (snd \<circ> snd) rs);
         Some \<lparr>sl_start = starts, sl_stop = stops, sl_stride = strides, sl_begin_mask = sp_begin_mask ?f,
           sl_end_mask = sp_end_mask ?f, sl_shrink_mask = sp_shrink_mask ?f\<rparr> }
       else Some (loc\<lparr>sl_start := map fst rs, sl_stop := map (fst \<circ> snd) rs, sl_stride := map (snd \<circ> snd) rs\<rparr>))"
    using fill c num by (simp add: slice_ranges_def rs_def Let_def)
  show ?thesis
  proof (cases ?neg)
    case True
    let ?l = "\<lparr>sl_start = take d (sp_begin ?f) @ drop d (map fst rs), sl_stop = take d (sp_end ?f) @ drop d (map (fst \<circ> snd) rs),
      sl_stride = take d (sp_stride ?f) @ drop d (map (snd \<circ> snd) rs), sl_begin_mask = sp_begin_mask ?f,
      sl_end_mask = sp_end_mask ?f, sl_shrink_mask = sp_shrink_mask ?f\<rparr>"
    have eq: "slice_ranges ?f in0 out' loc = Some ?l" unfolding unf using True by (simp add: cp lens)
    have tk: "take d (sp_begin ?f) = take d (sn_begin p)" "take d (sp_end ?f) = take d (sn_end p)"
      "take d (sp_stride ?f) = take d (sn_stride p)" "sp_begin_mask ?f = sn_begin_mask p" "sp_end_mask ?f = sn_end_mask p"
      using f by (simp_all add: full_params_def slice_full_def)
    have ex: "\<exists>i < d. fst (snd (rs ! i)) < 0" using neg True by simp
    show ?thesis
      by (rule exI[of _ ?l]) (use eq tk ex r f in \<open>auto simp: slice_full_def\<close>)
  next
    case False
    let ?l = "loc\<lparr>sl_start := map fst rs, sl_stop := map (fst \<circ> snd) rs, sl_stride := map (snd \<circ> snd) rs\<rparr>"
    have eq: "slice_ranges ?f in0 out' loc = Some ?l" unfolding unf using False by simp
    have ex: "\<not> (\<exists>i < d. fst (snd (rs ! i)) < 0)" using neg False by simp
    have "i < d \<Longrightarrow> (map fst rs ! i, map (fst \<circ> snd) rs ! i, map (snd \<circ> snd) rs ! i) = rs ! i" for i using d len by simp
    moreover have "\<not> fst (snd (unit_range out' i (driver_range p in0 i))) < 0" if "i < d" for i
      using ex r[OF that] that by auto
    ultimately show ?thesis
      by (intro exI[of _ ?l]) (use eq r in auto)
  qed
qed

lemma strided_slice_eq:
  assumes "slice_case p d in0 old"
  shows "op_strided_slice_setup g p in0 out old loc = do {
    out' \<leftarrow> slice_shape (full_params p d old) in0 out;
    loc' \<leftarrow> slice_ranges (full_params p d old) in0 out' loc;
    Some (True, out', full_params p d old, loc') }"
proof -
  note c = assms[unfolded slice_case_def]
  have "build_strided_slice_params p d old = Some (full_params p d old)"
    using build_full[of p d old] c by (simp add: full_params_def slice_full_def)
  moreover have "sn_begin_num p \<noteq> 0" using c small_rank[of d] by (auto simp: slice_full_def)
  ultimately show ?thesis using c by (simp add: op_strided_slice_setup_def)
qed

lemma strided_slice_runs:
  assumes "slice_case p d in0 old" "auto_shape out"
  shows "\<exists>out' loc'. slice_shape (full_params p d old) in0 out = Some out' \<and>
    op_strided_slice_setup g p in0 out old loc = Some (True, out', full_params p d old, loc') \<and>
    (if kept p d = [] then ts_dim out' = 1 \<and> ts_size out' ! 0 = 1 \<and> ts_scalar out'
     else ts_dim out' = of_nat (length (kept p d)) \<and>
       (\<forall>k < length (kept p d). ts_size out' ! k =
          of_nat (card (positions p (ts_size in0 ! (kept p d ! k)) (kept p d ! k)))))"
proof -
  obtain out' where o: "slice_shape (full_params p d old) in0 out = Some out'" "length (ts_size out') = 8"
    "if kept p d = [] then ts_dim out' = 1 \<and> ts_size out' ! 0 = 1 \<and> ts_scalar out'
     else ts_dim out' = of_nat (length (kept p d)) \<and>
       (\<forall>k < length (kept p d). ts_size out' ! k =
          of_nat (card (positions p (ts_size in0 ! (kept p d ! k)) (kept p d ! k))))"
    using slice_shape_ok[OF assms] by blast
  obtain loc' where "slice_ranges (full_params p d old) in0 out' loc = Some loc'"
    using slice_ranges_ok[OF assms(1) o(2)] by blast
  then show ?thesis using o(1,3) by (simp add: strided_slice_eq[OF assms(1)])
qed

text \<open>
  C36: \<open>STRIDED_SLICE\<close> without new axes gives the output the selected positions of each input
  dimension: dimension \<open>k\<close> of the output has as many elements as the \<open>k\<close>-th dimension that is not shrunk has
  positions between its first position and its end, in steps of its stride, for positive and negative
  strides, negative indices and masked ends. If every dimension is shrunk the output is a scalar.
\<close>

theorem slice_setup_exact:
  assumes "slice_case p d in0 old" "auto_shape out"
  shows "\<exists>out' loc'. op_strided_slice_setup g p in0 out old loc = Some (True, out', full_params p d old, loc') \<and>
    (if kept p d = [] then ts_dim out' = 1 \<and> ts_size out' ! 0 = 1 \<and> ts_scalar out'
     else ts_dim out' = of_nat (length (kept p d)) \<and>
       (\<forall>k < length (kept p d). ts_size out' ! k =
          of_nat (card (positions p (ts_size in0 ! (kept p d ! k)) (kept p d ! k)))))"
  using strided_slice_runs[OF assms] by blast

text \<open>A matrix of 5 rows of 8 numbers, and its rows 3 and 1, each backwards from its last number.\<close>

definition slice_demo :: slice_node where
  "slice_demo = \<lparr>sn_begin = [- 1, 3, 0, 0, 0, 0, 0, 0], sn_begin_num = 2, sn_end = [2, 0, 0, 0, 0, 0, 0, 0], sn_end_num = 2,
     sn_stride = [- 2, - 2, 0, 0, 0, 0, 0, 0], sn_stride_num = 2, sn_begin_mask = 0, sn_end_mask = 2, sn_shrink_mask = 0,
     sn_new_mask = 0\<rparr>"

lemma mask_below_small: "unat m < 2 ^ d \<Longrightarrow> d < 32 \<Longrightarrow> mask_below m d"
proof -
  assume a: "unat m < 2 ^ d" "d < 32"
  have "\<not> bit (unat m) i" if "d \<le> i" for i
  proof -
    have "unat m < 2 ^ i" using a(1) that by (rule_tac less_le_trans[of _ "2 ^ d"]) (simp_all add: power_increasing)
    then show ?thesis by (simp add: bit_iff_odd)
  qed
  then show ?thesis by (simp add: mask_below_def bit_unsigned_iff)
qed

lemma all_less_two: "(\<forall>k < (2 :: nat). P k) \<longleftrightarrow> P 0 \<and> P 1"
  by (auto simp: less_2_cases_iff)

lemma slice_demo_case: "slice_case slice_demo 2 (sample_shape [8, 5]) fresh_params"
  by (simp add: slice_case_def slice_full_def slice_demo_def sample_shape_def blank_def fresh_params_def axis_ok_def s32_def
      mask_below_small all_less_two)

lemma selected_none: "\<not> (if 0 < s then b < e else e < b) \<Longrightarrow> s \<noteq> 0 \<Longrightarrow> selected b e s = {}"
  by (simp add: selected_step)

lemma slice_demo_positions:
  "kept slice_demo 2 = [0, 1]" "card (positions slice_demo 8 0) = 3" "card (positions slice_demo 5 (Suc 0)) = 2"
  by (simp_all add: kept_def slice_demo_def positions_def start_pos_def end_pos_def from_end_def clamp_def card_selected
      selected_none upt_rec)

theorem slice_setup_exact_witness:
  "\<exists>out' params loc'. op_strided_slice_setup empty_graph slice_demo (sample_shape [8, 5]) blank fresh_params fresh_local
      = Some (True, out', params, loc') \<and> ts_dim out' = 2 \<and> ts_size out' ! 0 = 3 \<and> ts_size out' ! 1 = 2"
proof -
  have "ts_size (sample_shape [8, 5]) ! 0 = 8 \<and> ts_size (sample_shape [8, 5]) ! 1 = 5"
    by (simp add: sample_shape_def)
  then show ?thesis
    using slice_setup_exact[OF slice_demo_case auto_blank, of empty_graph fresh_local] by (auto simp: slice_demo_positions all_less_two)
qed

subsection \<open>The ranges for the driver\<close>

lemma positions_range: "axis_ok p n i \<Longrightarrow> positions p n i \<subseteq> {0..<uint n}"
proof -
  assume a: "axis_ok p n i"
  have "- 1 \<le> end_pos p n i" "end_pos p n i \<le> uint n"
    using a by (auto simp: end_pos_def axis_ok_def clamp_def)
  then show ?thesis
    using selected_range[of "start_pos p n i" "end_pos p n i" "sn_stride p ! i"] start_pos_range[OF a]
    by (auto simp: positions_def split: if_splits)
qed

lemma positions_card: "axis_ok p n i \<Longrightarrow> card (positions p n i) < 2 ^ 31"
proof -
  assume a: "axis_ok p n i"
  have "card (positions p n i) \<le> card {0..<uint n}" by (rule card_mono[OF _ positions_range[OF a]]) simp
  moreover have "nat (uint n) < 2 ^ 31" using a by (subst nat_less_iff) (simp_all add: axis_ok_def)
  ultimately show ?thesis by simp
qed

lemma one_position:
  assumes "axis_ok p n i" "of_nat (card (positions p n i)) = (1 :: uint32)"
  shows "positions p n i = {start_pos p n i}"
proof -
  have "unat (of_nat (card (positions p n i)) :: uint32) = card (positions p n i)"
    using positions_card[OF assms(1)] by (simp add: unat_of_nat take_bit_nat_eq_self)
  then have c: "card (positions p n i) = 1" using assms(2) by simp
  have s: "sn_stride p ! i \<noteq> 0" using assms(1) by (simp add: axis_ok_def)
  have "start_pos p n i \<in> positions p n i"
    using c selected_step[OF s, of "start_pos p n i" "end_pos p n i"] by (auto simp: positions_def split: if_splits)
  then show ?thesis using c by (auto simp: card_1_singleton_iff)
qed

lemma selected_one: "selected b (b + 1) 1 = {b}"
  by (simp add: selected_step[of 1 b] selected_none)

text \<open>
  What the driver is told agrees with the shape of the output. When no dimension is shrunk, either
  each range selects exactly the positions that the output has room for (a backward range of a single
  element is passed as a forward one), or some range runs backwards over the first element, an end that
  cannot be written as a position, and the driver gets the node's own indices and masks.
\<close>

theorem slice_ranges_same:
  assumes "slice_case p d in0 old" "auto_shape out" "sn_shrink_mask p = 0"
    and "op_strided_slice_setup g p in0 out old loc = Some (b, out', params, loc')"
  shows "(\<forall>i < d. selected (sl_start loc' ! i) (sl_stop loc' ! i) (sl_stride loc' ! i) = positions p (ts_size in0 ! i) i) \<or>
    (\<exists>i < d. end_pos p (ts_size in0 ! i) i = - 1) \<and>
      take d (sl_start loc') = take d (sn_begin p) \<and> take d (sl_stop loc') = take d (sn_end p) \<and>
      take d (sl_stride loc') = take d (sn_stride p) \<and> sl_begin_mask loc' = sn_begin_mask p \<and>
      sl_end_mask loc' = sn_end_mask p"
proof -
  have ax: "\<And>i. i < d \<Longrightarrow> axis_ok p (ts_size in0 ! i) i" and d: "0 < d" "d \<le> 8"
    using assms(1) by (auto simp: slice_case_def slice_full_def)
  obtain o' where o: "slice_shape (full_params p d old) in0 out = Some o'" "length (ts_size o') = 8"
    "ts_dim o' = of_nat d" "\<And>i. i < d \<Longrightarrow> ts_size o' ! i = of_nat (card (positions p (ts_size in0 ! i) i))"
    using slice_shape_ok[OF assms(1,2)] assms(3) d by (auto simp: kept_def)
  have s: "slice_ranges (full_params p d old) in0 out' loc = Some loc'" "out' = o'"
    using assms(4) o(1) by (auto simp: strided_slice_eq[OF assms(1)] bind_eq_Some_conv)
  let ?t = "driver_range p in0"
  have t: "?t i = (start_pos p (ts_size in0 ! i) i, end_pos p (ts_size in0 ! i) i, sn_stride p ! i)" for i
    using assms(3) by (simp add: driver_range_def)
  have unit: "selected (fst (unit_range out' i (?t i))) (fst (snd (unit_range out' i (?t i)))) (snd (snd (unit_range out' i (?t i))))
      = positions p (ts_size in0 ! i) i" if "i < d" for i
    using one_position[OF ax[OF that]] o(4)[OF that]
    by (auto simp: unit_range_def t s(2) selected_one positions_def[symmetric])
  have neg: "end_pos p (ts_size in0 ! i) i = - 1" if "i < d" "fst (snd (unit_range out' i (?t i))) < 0" for i
    using that start_pos_range[OF ax[OF that(1)]] ax[OF that(1)]
    by (auto simp: unit_range_def t end_pos_def clamp_def axis_ok_def split: if_splits)
  obtain l where l: "slice_ranges (full_params p d old) in0 out' loc = Some l"
    "if \<exists>i < d. fst (snd (unit_range out' i (?t i))) < 0
          then take d (sl_start l) = take d (sn_begin p) \<and> take d (sl_stop l) = take d (sn_end p) \<and>
            take d (sl_stride l) = take d (sn_stride p) \<and> sl_begin_mask l = sn_begin_mask p \<and>
            sl_end_mask l = sn_end_mask p
          else \<forall>i < d. (sl_start l ! i, sl_stop l ! i, sl_stride l ! i) = unit_range out' i (?t i)"
    using slice_ranges_ok[OF assms(1) o(2)[folded s(2)], of loc] by blast
  have "l = loc'" using l(1) s(1) by simp
  then show ?thesis
    using l(2) unit neg by (cases "\<exists>i < d. fst (snd (unit_range out' i (?t i))) < 0") (simp, blast, metis fst_conv snd_conv)
qed

theorem slice_ranges_same_witness:
  "\<exists>out' params loc'. op_strided_slice_setup empty_graph slice_demo (sample_shape [8, 5]) blank fresh_params fresh_local
      = Some (True, out', params, loc') \<and> (sl_end_mask loc' = 2 \<or> selected (sl_start loc' ! 0) (sl_stop loc' ! 0) (sl_stride loc' ! 0) = {3, 5, 7})"
proof -
  have shrink: "sn_shrink_mask slice_demo = 0" "sn_end_mask slice_demo = 2" by (simp_all add: slice_demo_def)
  obtain out' params loc' where r: "op_strided_slice_setup empty_graph slice_demo (sample_shape [8, 5]) blank fresh_params
      fresh_local = Some (True, out', params, loc')"
    using strided_slice_runs[OF slice_demo_case auto_blank] by blast
  have "ts_size (sample_shape [8, 5]) ! 0 = 8" by (simp add: sample_shape_def)
  moreover have "positions slice_demo 8 0 = {3, 5, 7}"
    by (simp add: slice_demo_def positions_def start_pos_def end_pos_def from_end_def clamp_def selected_step)
      (auto simp: selected_step)
  ultimately show ?thesis
    using slice_ranges_same[OF slice_demo_case auto_blank shrink(1) r] r shrink(2) by auto
qed

text \<open>
  With a shrunk dimension the test for a single element looks at the wrong dimension of the output: of
  the axis that is read backwards, two elements belong to the output and the driver gets a range of one.
\<close>

definition slice_shrunk :: slice_node where
  "slice_shrunk = \<lparr>sn_begin = [0, 2, 0, 0, 0, 0, 0, 0], sn_begin_num = 3, sn_end = [1, 0, 1, 0, 0, 0, 0, 0], sn_end_num = 3,
     sn_stride = [1, - 1, 1, 0, 0, 0, 0, 0], sn_stride_num = 3, sn_begin_mask = 0, sn_end_mask = 0, sn_shrink_mask = 1,
     sn_new_mask = 0\<rparr>"

lemma slice_shrink_mismatch:
  "\<exists>out' params loc'. op_strided_slice_setup empty_graph slice_shrunk (sample_shape [4, 3, 1]) blank fresh_params fresh_local
      = Some (True, out', params, loc') \<and> ts_dim out' = 2 \<and> ts_size out' ! 0 = 2 \<and>
    selected (sl_start loc' ! 1) (sl_stop loc' ! 1) (sl_stride loc' ! 1) = {2}"
proof -
  have three: "(\<forall>k < (3 :: nat). P k) \<longleftrightarrow> P 0 \<and> P 1 \<and> P 2" "(\<exists>k < (3 :: nat). P k) \<longleftrightarrow> P 0 \<or> P 1 \<or> P 2" for P
    by (auto simp: numeral_3_eq_3 less_Suc_eq numeral_2_eq_2)
  have c: "slice_case slice_shrunk 3 (sample_shape [4, 3, 1]) fresh_params"
    by (simp add: slice_case_def slice_full_def slice_shrunk_def sample_shape_def fresh_params_def axis_ok_def s32_def
        mask_below_small three)
  have kept: "kept slice_shrunk 3 = [1, 2]" by (simp add: kept_def slice_shrunk_def upt_rec bit_1_iff)
  have sizes: "ts_size (sample_shape [4, 3, 1]) ! 0 = 4" "ts_size (sample_shape [4, 3, 1]) ! 1 = 3"
    "ts_size (sample_shape [4, 3, 1]) ! 2 = 1" "ts_size (sample_shape [4, 3, 1]) ! Suc 0 = 3" by (simp_all add: sample_shape_def)
  have range: "driver_range slice_shrunk (sample_shape [4, 3, 1]) 0 = (0, 1, 1)"
    "driver_range slice_shrunk (sample_shape [4, 3, 1]) 1 = (2, 0, - 1)"
    "driver_range slice_shrunk (sample_shape [4, 3, 1]) 2 = (0, 1, 1)"
    by (simp_all add: driver_range_def sizes, simp_all add: slice_shrunk_def start_pos_def end_pos_def from_end_def clamp_def
        bit_1_iff)
  have cards: "card (positions slice_shrunk 3 (Suc 0)) = 2" "card (positions slice_shrunk 1 2) = 1"
    by (simp_all add: slice_shrunk_def positions_def start_pos_def end_pos_def from_end_def clamp_def card_selected selected_none)
  obtain out' where o: "slice_shape (full_params slice_shrunk 3 fresh_params) (sample_shape [4, 3, 1]) blank = Some out'"
    "length (ts_size out') = 8" "ts_dim out' = 2" "ts_size out' ! 0 = 2" "ts_size out' ! 1 = 1"
    using slice_shape_ok[OF c auto_blank] by (auto simp: kept all_less_two sizes cards numeral_2_eq_2[symmetric])
  have unit: "unit_range out' 0 (0, 1, 1) = (0, 1, 1)" "unit_range out' 1 (2, 0, - 1) = (2, 3, 1)"
    "unit_range out' 2 (0, 1, 1) = (0, 1, 1)"
    using o by (simp_all add: unit_range_def)
  obtain loc' where l: "slice_ranges (full_params slice_shrunk 3 fresh_params) (sample_shape [4, 3, 1]) out' fresh_local = Some loc'"
    "sl_start loc' ! 1 = 2" "sl_stop loc' ! 1 = 3" "sl_stride loc' ! 1 = 1"
    using slice_ranges_ok[OF c o(2), of fresh_local] by (auto simp: three range unit simp del: One_nat_def)
  show ?thesis using o l selected_one[of 2] by (simp add: strided_slice_eq[OF c])
qed

subsection \<open>Splitting an axis\<close>

text \<open>A tensor with its \<open>d\<close> sizes in the range of the positions.\<close>

definition sizes_ok :: "tshape \<Rightarrow> bool" where
  "sizes_ok t \<longleftrightarrow> tensor_ok t \<and> (\<forall>i < unat (ts_dim t). 0 < uint (ts_size t ! i) \<and> uint (ts_size t ! i) < 2 ^ 31)"

definition piece_shape :: "tshape \<Rightarrow> nat \<Rightarrow> tshape \<Rightarrow> vsi_size_t \<Rightarrow> tshape" where
  "piece_shape in0 axis out w = out\<lparr>ts_dim := ts_dim in0, ts_size := (ts_size in0)[axis := w]\<rparr>"

definition piece_range :: "tshape \<Rightarrow> nat \<Rightarrow> int \<Rightarrow> int \<Rightarrow> slice_local \<Rightarrow> bool" where
  "piece_range in0 axis b e loc \<longleftrightarrow> (\<forall>i < unat (ts_dim in0).
     (sl_start loc ! i, sl_stop loc ! i, sl_stride loc ! i) =
       (if i = axis then (b, e, 1) else (0, uint (ts_size in0 ! i), 1)))"

lemma piece_setup:
  fixes b e :: vsi_size_t
  assumes "sizes_ok in0" "axis < unat (ts_dim in0)" "uint b < uint e" "uint e \<le> uint (ts_size in0 ! axis)"
    "length (ts_size out) = 8" "ts_dim out = ts_dim in0"
  shows "\<exists>loc'. op_strided_slice_setup g (plain_slice (map sint ((replicate 8 0)[axis := b])) (map sint ((ts_size in0)[axis := e]))
      (replicate (unat (ts_dim in0)) 1 @ replicate (8 - unat (ts_dim in0)) 0) (ts_dim in0)) in0 out fresh_params loc =
      Some (True, out, full_params (plain_slice (map sint ((replicate 8 0)[axis := b])) (map sint ((ts_size in0)[axis := e]))
      (replicate (unat (ts_dim in0)) 1 @ replicate (8 - unat (ts_dim in0)) 0) (ts_dim in0)) (unat (ts_dim in0)) fresh_params, loc') \<and>
    piece_range in0 axis (uint b) (uint e) loc'"
proof -
  let ?d = "unat (ts_dim in0)"
  let ?p = "plain_slice (map sint ((replicate 8 0)[axis := b])) (map sint ((ts_size in0)[axis := e]))
    (replicate ?d 1 @ replicate (8 - ?d) 0) (ts_dim in0)"
  have t: "length (ts_size in0) = 8" "1 \<le> ?d" "?d \<le> 8" and sz: "\<And>i. i < ?d \<Longrightarrow> 0 < uint (ts_size in0 ! i) \<and> uint (ts_size in0 ! i) < 2 ^ 31"
    using assms(1) by (auto simp: sizes_ok_def tensor_ok_def)
  have be: "uint e < 2 ^ 31" "uint b < 2 ^ 31" using assms(3,4) sz[OF assms(2)] by simp_all
  note sb = sint_eq_uint32[OF be(2)] sint_eq_uint32[OF be(1)]
  have bi: "sn_begin ?p ! i = (if i = axis then uint b else 0)" "sn_end ?p ! i = (if i = axis then uint e else uint (ts_size in0 ! i))"
    "sn_stride ?p ! i = 1" if "i < ?d" for i
    using that t assms(2) sz[OF that] sb by (simp_all add: plain_slice_def nth_append nth_list_update sint_eq_uint32)
  have masks: "sn_begin_mask ?p = 0" "sn_end_mask ?p = 0" "sn_shrink_mask ?p = 0" "sn_new_mask ?p = 0"
    by (simp_all add: plain_slice_def)
  have ax: "axis_ok ?p (ts_size in0 ! i) i" if "i < ?d" for i
    using be sz[OF that] unsigned_greater_eq[of b] unsigned_greater_eq[of e]
    by (auto simp: axis_ok_def bi[OF that] s32_def intro: order_trans[of _ 0])
  have "mask_below 0 ?d" by (simp add: mask_below_def)
  then have c: "slice_case ?p ?d in0 fresh_params"
    using t ax by (simp add: slice_case_def slice_full_def masks) (simp add: plain_slice_def fresh_params_def)
  have r: "driver_range ?p in0 i = (if i = axis then (uint b, uint e, 1) else (0, uint (ts_size in0 ! i), 1))" if "i < ?d" for i
    using sz[OF that] assms(3,4) unsigned_greater_eq[of b]
    by (auto simp: driver_range_def masks start_pos_def end_pos_def bi[OF that] from_end_def clamp_def not_less)
  have u: "unit_range out i (driver_range ?p in0 i) = driver_range ?p in0 i" if "i < ?d" for i
    by (simp add: r[OF that] unit_range_def)
  have "0 \<le> fst (snd (unit_range out i (driver_range ?p in0 i)))" if "i < ?d" for i
    by (simp add: r[OF that] unit_range_def)
  then have nn: "\<not> (\<exists>i < ?d. fst (snd (unit_range out i (driver_range ?p in0 i))) < 0)"
    by (meson not_less)
  obtain loc' where l: "slice_ranges (full_params ?p ?d fresh_params) in0 out loc = Some loc'"
    "\<forall>i < ?d. (sl_start loc' ! i, sl_stop loc' ! i, sl_stride loc' ! i) = unit_range out i (driver_range ?p in0 i)"
    using slice_ranges_ok[OF c assms(5), of loc] nn by auto
  have "slice_shape (full_params ?p ?d fresh_params) in0 out = Some out"
    using assms(6) t(2) by (auto simp: slice_shape_def)
  then show ?thesis
    using l u r by (intro exI[of _ loc']) (simp add: strided_slice_eq[OF c] piece_range_def)
qed

lemma split_loop_ok:
  assumes "sizes_ok in0" "axis < unat (ts_dim in0)"
  shows "\<forall>k < length ws. step (i + k) = Some (ws ! k) \<Longrightarrow> length outs = i + length ws \<Longrightarrow>
    \<forall>o' \<in> set outs. length (ts_size o') = 8 \<Longrightarrow> \<forall>w \<in> set ws. 0 < uint w \<Longrightarrow>
    uint start + (\<Sum>w \<leftarrow> ws. uint w) \<le> uint (ts_size in0 ! axis) \<Longrightarrow> ws = [] \<longrightarrow> ret \<Longrightarrow>
    \<exists>locs'. split_loop g in0 axis step (\<lambda>_. True) (\<lambda>_. True) i (length ws) start ret (map Some outs) locs =
        Some (True, map Some (take i outs @ map2 (piece_shape in0 axis) (drop i outs) ws), locs @ locs') \<and>
      length locs' = length ws \<and>
      (\<forall>k < length ws. piece_range in0 axis (uint start + (\<Sum>w \<leftarrow> take k ws. uint w))
        (uint start + (\<Sum>w \<leftarrow> take (Suc k) ws. uint w)) (locs' ! k))"
proof (induction ws arbitrary: i start ret outs locs)
  case Nil
  then show ?case by simp
next
  case (Cons w ws)
  let ?d = "unat (ts_dim in0)"
  have t: "length (ts_size in0) = 8" "?d \<le> 8" "uint (ts_size in0 ! axis) < 2 ^ 31"
    using assms by (auto simp: sizes_ok_def tensor_ok_def)
  define o1 where "o1 = outs ! i"
  let ?o = "piece_shape in0 axis o1 w"
  have i: "i < length outs" "length (ts_size o1) = 8" using Cons.prems(2,3) by (auto simp: o1_def)
  have step: "step i = Some w" "\<forall>k < length ws. step (Suc i + k) = Some (ws ! k)"
    using Cons.prems(1) by force+
  have rest: "0 \<le> (\<Sum>w \<leftarrow> ws. uint w)" by (rule sum_list_nonneg) auto
  have stop: "uint (start + w) = uint start + uint w"
    using Cons.prems(5) t(3) rest by (simp add: uint_plus_if')
  obtain loc1 where l: "op_strided_slice_setup g (plain_slice (map sint ((replicate 8 0)[axis := start]))
      (map sint ((ts_size in0)[axis := start + w])) (replicate ?d 1 @ replicate (8 - ?d) 0) (ts_dim in0)) in0 ?o fresh_params fresh_local =
      Some (True, ?o, full_params (plain_slice (map sint ((replicate 8 0)[axis := start])) (map sint ((ts_size in0)[axis := start + w]))
      (replicate ?d 1 @ replicate (8 - ?d) 0) (ts_dim in0)) ?d fresh_params, loc1)"
    "piece_range in0 axis (uint start) (uint start + uint w) loc1"
    using piece_setup[OF assms, of start "start + w" ?o g fresh_local] Cons.prems(4,5) rest stop t i
    by (auto simp: piece_shape_def)
  have outs: "(map Some outs)[i := Some ?o] = map Some (outs[i := ?o])" by (simp add: map_update)
  have ones: "fill ?d 0 0 (\<lambda>_. Some 1) (replicate 8 0) = Some (replicate ?d (1 :: int) @ replicate (8 - ?d) 0)"
    using fill_ok[of ?d "\<lambda>_. Some 1" 0 "\<lambda>_. 1" 0 "replicate 8 (0 :: int)"] t by (simp add: map_replicate_const)
  have ax: "axis < 8" using assms(2) t(2) by simp
  have "split_loop g in0 axis step (\<lambda>_. True) (\<lambda>_. True) i (Suc (length ws)) start ret (map Some outs) locs =
      split_loop g in0 axis step (\<lambda>_. True) (\<lambda>_. True) (Suc i) (length ws) (start + w) True (map Some (outs[i := ?o])) (locs @ [loc1])"
    using step(1) i t ax l(1)[unfolded piece_shape_def] fill_copy[of 0 8 "ts_size in0" 0 "ts_size o1"] outs[unfolded piece_shape_def]
    by (simp add: o1_def[symmetric] ones piece_shape_def del: fill.simps)
  moreover have "\<forall>o' \<in> set (outs[i := ?o]). length (ts_size o') = 8"
    using Cons.prems(3) t(1) set_update_subset_insert[of outs i ?o] by (auto simp: piece_shape_def)
  moreover obtain locs' where r: "split_loop g in0 axis step (\<lambda>_. True) (\<lambda>_. True) (Suc i) (length ws) (start + w) True
        (map Some (outs[i := ?o])) (locs @ [loc1]) =
      Some (True, map Some (take (Suc i) (outs[i := ?o]) @ map2 (piece_shape in0 axis) (drop (Suc i) (outs[i := ?o])) ws),
        (locs @ [loc1]) @ locs')" "length locs' = length ws"
    "\<forall>k < length ws. piece_range in0 axis (uint (start + w) + (\<Sum>w \<leftarrow> take k ws. uint w))
        (uint (start + w) + (\<Sum>w \<leftarrow> take (Suc k) ws. uint w)) (locs' ! k)"
    using Cons.IH[OF step(2), of "outs[i := ?o]" "start + w" True "locs @ [loc1]"] Cons.prems stop calculation(2)
    by auto
  moreover have "take (Suc i) (outs[i := ?o]) = take i outs @ [?o]" using i by (simp add: take_Suc_conv_app_nth)
  moreover have "drop i outs = o1 # drop (Suc i) outs" using i by (simp add: o1_def Cons_nth_drop_Suc)
  ultimately show ?case
    using l(2) r stop by (intro exI[of _ "loc1 # locs'"]) (auto simp: nth_Cons add.assoc split: nat.splits)
qed

definition split_request :: "tshape \<Rightarrow> nat \<Rightarrow> uint32 list \<Rightarrow> uint32 \<Rightarrow> vsi_size_t list \<Rightarrow> bool" where
  "split_request in0 axis slices slices_num ws \<longleftrightarrow> ws \<noteq> [] \<and> (\<forall>w \<in> set ws. 0 < uint w) \<and>
     (\<Sum>w \<leftarrow> ws. uint w) = uint (ts_size in0 ! axis) \<and>
     (if slices_num = 0 then \<forall>w \<in> set ws. w = ts_size in0 ! axis div of_nat (length ws)
      else length ws \<le> length slices \<and> take (length ws) slices = ws)"

lemma split_num_full: "0 < n \<Longrightarrow> n \<le> length outs \<Longrightarrow> split_num (map Some outs) n = Some n"
  by (cases n) simp_all

lemma concat_loop_sum:
  "i + n \<le> length ts \<Longrightarrow> axis < length sizes \<Longrightarrow> \<forall>t \<in> set ts. axis < length (ts_size t) \<Longrightarrow>
    concat_loop (map Some ts) axis i n sizes =
      Some (sizes[axis := sizes ! axis + (\<Sum>t \<leftarrow> take n (drop i ts). ts_size t ! axis)])"
proof (induction n arbitrary: i sizes)
  case (Suc n)
  have "drop i ts = ts ! i # drop (Suc i) ts" using Suc.prems(1) by (simp add: Cons_nth_drop_Suc)
  then show ?case using Suc.IH[of "Suc i" "sizes[axis := sizes ! axis + ts_size (ts ! i) ! axis]"] Suc.prems
    by (simp add: add.assoc)
qed simp

lemma sum_widths: "of_int (\<Sum>w \<leftarrow> ws. uint w) = (sum_list ws :: vsi_size_t)"
  by (induction ws) simp_all

lemma width_count: "\<forall>w \<in> set ws. 0 < uint w \<Longrightarrow> int (length ws) \<le> (\<Sum>w \<leftarrow> ws. uint (w :: vsi_size_t))"
  by (induction ws) auto

text \<open>
  C37: \<open>SPLIT\<close> and \<open>CONCAT\<close> are inverse. When the widths that are asked for (or the equal shares) are
  positive and add up to the axis, \<open>SPLIT\<close> gives output \<open>k\<close> the shape of the input with the width \<open>k\<close> on
  the axis, its slice reads the axis from the sum of the earlier widths to the sum that includes its own, and
  every other axis whole; and the setup of \<open>CONCAT\<close> on these outputs gives back the shape of the input.
\<close>

theorem split_concat_roundtrip:
  assumes "sizes_ok in0" "unat axis < unat (ts_dim in0)" "split_request in0 (unat axis) slices slices_num ws"
    and "length outs = length ws" "\<forall>t \<in> set outs. length (ts_size t) = 8" "auto_shape out"
  shows "\<exists>outs' locs r. op_split_setup g axis slices slices_num (\<lambda>_. True) (\<lambda>_. True) in0 (map Some outs) =
      Some (True, map Some outs', locs) \<and> length outs' = length ws \<and>
    (\<forall>k < length ws. shp (outs' ! k) = (shp in0)[unat axis := ws ! k] \<and>
      piece_range in0 (unat axis) (\<Sum>w \<leftarrow> take k ws. uint w) (\<Sum>w \<leftarrow> take (Suc k) ws. uint w) (locs ! k)) \<and>
    op_concat_setup axis (map Some outs') out = Some (True, r) \<and> shp r = shp in0"
proof -
  let ?a = "unat axis" and ?n = "length ws"
  note req = assms(3)[unfolded split_request_def]
  have t: "length (ts_size in0) = 8" "unat (ts_dim in0) \<le> 8" "uint (ts_size in0 ! ?a) < 2 ^ 31"
    using assms(1,2) by (auto simp: sizes_ok_def tensor_ok_def)
  have n: "0 < ?n" "?n < 2 ^ 31" using req width_count[of ws] t(3) by auto
  define average where "average = (if slices_num = 0 then ts_size in0 ! ?a div of_nat ?n else 1)"
  have "(of_nat ?n :: uint32) \<noteq> 0" using n by (simp add: word_of_nat_eq_0_iff nat_dvd_not_less)
  then have av: "(if slices_num = 0 then do { s \<leftarrow> rd (ts_size in0) ?a; udiv s (of_nat ?n) } else Some 1) = Some average"
    using assms(2) t by (simp add: average_def udiv_def)
  have steps: "\<forall>k < ?n. split_step average slices slices_num (0 + k) = Some (ws ! k)"
  proof (cases "slices_num = 0")
    case True
    then have "\<forall>k < ?n. ws ! k = average" using req nth_mem[of _ ws] by (simp add: average_def)
    then show ?thesis using True by (simp add: split_step_def)
  next
    case False
    then have r: "?n \<le> length slices" "take ?n slices = ws" using req by auto
    have "slices ! k = ws ! k" if "k < ?n" for k using nth_take[OF that, of slices] r(2) by simp
    then show ?thesis using False r(1) by (simp add: split_step_def)
  qed
  define outs' where "outs' = map2 (piece_shape in0 ?a) outs ws"
  have outs': "length outs' = ?n" "\<And>k. k < ?n \<Longrightarrow> outs' ! k = piece_shape in0 ?a (outs ! k) (ws ! k)"
    using assms(4) by (simp_all add: outs'_def)
  obtain locs where l: "split_loop g in0 ?a (split_step average slices slices_num) (\<lambda>_. True) (\<lambda>_. True) 0 ?n 0 False (map Some outs) [] =
        Some (True, map Some outs', locs)"
    "\<forall>k < ?n. piece_range in0 ?a (\<Sum>w \<leftarrow> take k ws. uint w) (\<Sum>w \<leftarrow> take (Suc k) ws. uint w) (locs ! k)"
    using split_loop_ok[OF assms(1,2) steps, of outs 0 False g "[]"] assms(4,5) req by (auto simp: outs'_def)
  have "split_num (map Some outs) (length (map Some outs)) = Some ?n" using split_num_full[of ?n outs] n assms(4) by simp
  then have split: "op_split_setup g axis slices slices_num (\<lambda>_. True) (\<lambda>_. True) in0 (map Some outs) = Some (True, map Some outs', locs)"
    using av l(1) by (simp add: op_split_setup_def)
  have widths: "(\<Sum>t \<leftarrow> outs'. ts_size t ! ?a) = sum_list ws"
  proof -
    have "map (\<lambda>t. ts_size t ! ?a) outs' = ws"
      using outs' assms(2) t by (intro nth_equalityI) (auto simp: piece_shape_def)
    then show ?thesis by simp
  qed
  have total: "sum_list ws = ts_size in0 ! ?a" using sum_widths[of ws] req by simp
  obtain o0 os where o: "outs' = o0 # os" using outs'(1) n by (cases outs') auto
  have o0: "o0 = piece_shape in0 ?a (outs ! 0) (ws ! 0)" using outs'(2)[of 0] n by (simp add: o)
  have len: "\<forall>t \<in> set outs'. ?a < length (ts_size t)"
    using outs' assms(2) t by (auto simp: in_set_conv_nth piece_shape_def)
  have f: "fill 8 0 0 (rd (ts_size o0)) (ts_size out) = Some (ts_size o0)"
    using fill_copy[of 0 8 "ts_size o0" 0 "ts_size out"] assms(6) t by (simp add: auto_shape_def o0 piece_shape_def)
  have lp: "concat_loop (map Some outs') ?a 1 (length os) (ts_size o0) = Some (ts_size in0)"
    using concat_loop_sum[of 1 "length os" outs' ?a "ts_size o0"] len widths total
    by (simp add: o) (simp add: o0 piece_shape_def)
  have "concat_num (map Some outs') (length (map Some outs')) = Suc (length os)" using concat_num_full[of "length outs'" outs'] by (simp add: o)
  then have cat: "op_concat_setup axis (map Some outs') out = Some (True, out\<lparr>ts_dim := ts_dim in0, ts_size := ts_size in0\<rparr>)"
    using f lp assms(6) by (simp add: op_concat_setup_def auto_shape_def) (simp add: o o0 piece_shape_def)
  have "shp (outs' ! k) = (shp in0)[?a := ws ! k]" if "k < ?n" for k
    using outs'(2)[OF that] by (simp add: shp_def piece_shape_def take_update_swap)
  then show ?thesis
    using split l(2) outs'(1) cat by (intro exI[of _ outs'] exI[of _ locs] exI) (auto simp: shp_def)
qed

theorem split_concat_roundtrip_witness:
  "\<exists>outs' locs r. op_split_setup empty_graph 1 [2, 3] 2 (\<lambda>_. True) (\<lambda>_. True) (sample_shape [8, 5]) [Some blank, Some blank] =
      Some (True, map Some outs', locs) \<and> shp (outs' ! 0) = [8, 2] \<and> shp (outs' ! 1) = [8, 3] \<and>
    piece_range (sample_shape [8, 5]) 1 2 5 (locs ! 1) \<and>
    op_concat_setup 1 (map Some outs') blank = Some (True, r) \<and> shp r = [8, 5]"
proof -
  have t: "sizes_ok (sample_shape [8, 5])" "unat (1 :: uint32) < unat (ts_dim (sample_shape [8, 5]))"
    "split_request (sample_shape [8, 5]) (unat (1 :: uint32)) [2, 3] 2 [2, 3]" "shp (sample_shape [8, 5]) = [8, 5]"
    by (simp_all add: sizes_ok_def tensor_ok_def sample_shape_def split_request_def all_less_two shp_def)
  have "\<forall>t \<in> set [blank, blank]. length (ts_size t) = 8" by (simp add: blank_def)
  from split_concat_roundtrip[OF t(1,2,3) _ this auto_blank, of empty_graph] show ?thesis
    by (auto simp: all_less_two t(4) numeral_2_eq_2[symmetric])
qed

end
