(* ===== verification/Op_Checked.thy ===== *)
theory Op_Checked
  imports Op_Check Op_Ranges
begin

text \<open>
  What the checks of the operations decide: the check of an operation is the search of one table,
  however many operations are asked in between; the check and the setup of \<open>CONCAT\<close> together are
  exact; and three inputs that the checks should not let pass.
\<close>

subsection \<open>Which check an operation has in the end\<close>

inductive resolves :: "int \<Rightarrow> check_proc \<Rightarrow> bool" where
  own: "map_of op_procs op = Some p \<Longrightarrow> \<forall>d. p \<noteq> Delegate d \<Longrightarrow> resolves op p"
| delegated: "map_of op_procs op = Some (Delegate d) \<Longrightarrow> resolves d p \<Longrightarrow> resolves op p"

lemma ordered_targets:
  "ordered seen xs \<Longrightarrow> x \<in> set xs \<Longrightarrow> d \<in> set (targets (snd x)) \<Longrightarrow> d \<in> set seen \<union> fst ` set xs"
  by (induction seen xs rule: ordered.induct) (auto simp: list_all_iff)

lemma target_modelled:
  assumes "map_of op_procs op = Some p" "d \<in> set (targets p)"
  shows "map_of op_procs d \<noteq> None"
  using ordered_targets[OF op_procs_ordered map_of_SomeD[OF assms(1)]] assms(2) by (simp add: map_of_eq_None_iff)

lemma resolves_total: "map_of op_procs op \<noteq> None \<Longrightarrow> \<exists>p. resolves op p"
proof (induction "op_pos op" arbitrary: op rule: less_induct)
  case less
  obtain p where p: "map_of op_procs op = Some p" using less.prems by blast
  show ?case
  proof (cases "\<exists>d. p = Delegate d")
    case True
    then obtain d where d: "p = Delegate d" ..
    then have "\<exists>q. resolves d q" using less.hyps targets_before[OF p] target_modelled[OF p] by simp
    with p d show ?thesis by (blast intro: resolves.delegated)
  qed (use p in \<open>blast intro: resolves.own\<close>)
qed

subsection \<open>Checks by a table\<close>

fun type_table :: "check_proc \<Rightarrow> (bool \<times> nat \<times> nat \<times> io_table) option" where
  "type_table (Types i k rows) = Some (True, i, k, rows)"
| "type_table (Stream_types uo i k rows) = Some (uo, i, k, rows)"
| "type_table _ = None"

fun procs_ok :: "(int \<times> check_proc) list \<Rightarrow> bool" where
  "procs_ok [] = True"
| "procs_ok (x # xs) =
     ((case type_table (snd x) of None \<Rightarrow> True | Some (uo, i, k, rows) \<Rightarrow> table_ok (i + k) rows) \<and> procs_ok xs)"

lemma procs_ok_all: "procs_ok op_procs"
  by (simp add: op_procs_def table_oks table_oks[unfolded numeral_2_eq_2 numeral_3_eq_3])

lemma procs_ok_table:
  "procs_ok xs \<Longrightarrow> (op, p) \<in> set xs \<Longrightarrow> type_table p = Some (uo, i, k, rows) \<Longrightarrow> table_ok (i + k) rows"
  by (induction xs) auto

lemma resolved_table:
  "resolves op p \<Longrightarrow> type_table p = Some (uo, i, k, rows) \<Longrightarrow> table_ok (i + k) rows"
  by (induction rule: resolves.induct) (auto dest!: map_of_SomeD intro: procs_ok_table[OF procs_ok_all])

text \<open>The result of a comparison with a table: the text names all tensors of the node.\<close>

definition table_verdict ::
  "check_env \<Rightarrow> bool \<Rightarrow> op_tensor option list \<Rightarrow> op_tensor option list \<Rightarrow> checked" where
  "table_verdict e found ins outs =
     (if ce_mem e 0 \<and> found then check_ok
      else Some (Inl (Bad_types (if ce_mem e 1 then Some (join (io_names (ins @ outs))) else None))))"

lemma check_types_value:
  assumes "ce_node_check e" "table_ok (i + k) rows" "n \<le> length ins" "m \<le> length outs" "n + m \<le> 2 ^ 26"
    "list_all tensor_plain ins" "list_all tensor_plain outs"
  shows "check_types e 0 (op_reg i k rows) ins n n outs m =
    table_verdict e (in_table i k rows ins n outs m) (take n ins) (take m outs)"
proof -
  obtain buf where "generate_op_io_types_desc True ins n outs m = Some (Some buf)"
    "c_string buf = join (io_names (take n ins @ take m outs))"
    using describe_names[OF assms(3-5)] by blast
  moreover have "generate_op_io_types_desc False ins n outs m = Some None"
    using describe_buffer[OF assms(3-5)] by simp
  ultimately show ?thesis
    using validate_in_table[OF assms(2-4,6,7)] assms(1)
    by (simp add: check_types_def table_verdict_def)
qed

lemma OpCheck_table:
  assumes "resolves op p" "type_table p = Some (uo, i, k, rows)" "ce_opcheck e" "ce_node_check e" "\<not> ce_stream e"
    "on_inputs nd \<le> length ins" "on_outputs nd \<le> length outs" "on_inputs nd + on_outputs nd \<le> 2 ^ 26"
    "list_all tensor_plain ins" "list_all tensor_plain outs"
  defines "m \<equiv> if uo then on_outputs nd else 0"
  shows "OpCheck e op nd ins outs =
    table_verdict e (in_table i k rows ins (on_inputs nd) outs m) (take (on_inputs nd) ins) (take m outs)"
  using assms(1,2)
proof (induction rule: resolves.induct)
  case (own op p)
  have t: "table_ok (i + k) rows" using resolved_table resolves.own[OF own(1,2)] own(3) by blast
  have m: "m \<le> length outs" "on_inputs nd + m \<le> 2 ^ 26" using assms(7,8) by (simp_all add: m_def)
  note v = check_types_value[OF assms(4) t assms(6) m assms(9,10)]
  show ?case using own(1,3) v assms(3,5)
    by (cases p)
      (auto simp: OpCheck.simps[of e op] check_stream_types_def is_stream_process_supported_types_def m_def)
next
  case (delegated op d p)
  then show ?case using assms(3) by (simp add: OpCheck.simps[of e op])
qed

subsection \<open>Joining tensors\<close>

text \<open>Two shapes that can be joined along an axis.\<close>

definition agree_outside :: "uint32 \<Rightarrow> tshape \<Rightarrow> tshape \<Rightarrow> bool" where
  "agree_outside axis a b \<longleftrightarrow> ts_dim a = ts_dim b \<and>
     (\<forall>j < unat (ts_dim a). j \<noteq> unat axis \<longrightarrow> ts_size a ! j = ts_size b ! j)"

lemma agree_outside_refl: "agree_outside axis a a"
  by (simp add: agree_outside_def)

lemma agree_outside_trans: "agree_outside axis a b \<Longrightarrow> agree_outside axis b c \<Longrightarrow> agree_outside axis a c"
  by (auto simp: agree_outside_def)

lemma concat_dims_auto:
  "ts_dim out = 0 \<Longrightarrow> j + n \<le> length (ts_size prev) \<Longrightarrow> j + n \<le> length (ts_size cur) \<Longrightarrow>
    concat_dims axis prev cur out j n =
      Some (\<forall>k. j \<le> k \<longrightarrow> k < j + n \<longrightarrow> k \<noteq> unat axis \<longrightarrow> ts_size prev ! k = ts_size cur ! k)"
proof (induction n arbitrary: j)
  case (Suc n)
  have e: "(\<forall>k. j \<le> k \<longrightarrow> k < j + Suc n \<longrightarrow> P k) \<longleftrightarrow> P j \<and> (\<forall>k. Suc j \<le> k \<longrightarrow> k < Suc j + n \<longrightarrow> P k)" for P
    by (auto simp: Suc_le_eq) (metis le_neq_implies_less)
  show ?case using Suc.IH[of "Suc j"] Suc.prems unfolding e by auto
qed simp

lemma concat_pairs_auto:
  "1 \<le> i \<Longrightarrow> i + n \<le> length ts \<Longrightarrow> \<forall>t \<in> set ts. tensor_ok (op_shape t) \<Longrightarrow> outs = Some z \<Longrightarrow>
    ts_dim (op_shape z) = 0 \<Longrightarrow>
    concat_pairs axis (map Some ts) (outs # zs) i n =
      Some (\<forall>k. i \<le> k \<longrightarrow> k < i + n \<longrightarrow> agree_outside axis (op_shape (ts ! (k - 1))) (op_shape (ts ! k)))"
proof (induction n arbitrary: i)
  case (Suc n)
  let ?P = "\<lambda>k. agree_outside axis (op_shape (ts ! (k - 1))) (op_shape (ts ! k))"
  have e: "(\<forall>k. i \<le> k \<longrightarrow> k < i + Suc n \<longrightarrow> ?P k) \<longleftrightarrow> ?P i \<and> (\<forall>k. Suc i \<le> k \<longrightarrow> k < Suc i + n \<longrightarrow> ?P k)"
    by (auto simp: Suc_le_eq) (metis le_neq_implies_less)
  have r: "deref (map Some ts) i = Some (ts ! i)" "deref (map Some ts) (i - 1) = Some (ts ! (i - 1))"
    "deref (outs # zs) 0 = Some z"
    using Suc.prems(2,4) by (simp_all add: deref_def)
  have ok: "tensor_ok (op_shape (ts ! i))" "tensor_ok (op_shape (ts ! (i - 1)))"
    using Suc.prems(2,3) by simp_all
  have d: "concat_dims axis (op_shape (ts ! (i - 1))) (op_shape (ts ! i)) (op_shape z) 0 (unat (ts_dim (op_shape (ts ! i)))) =
      Some (\<forall>k < unat (ts_dim (op_shape (ts ! i))). k \<noteq> unat axis \<longrightarrow>
        ts_size (op_shape (ts ! (i - 1))) ! k = ts_size (op_shape (ts ! i)) ! k)"
    using concat_dims_auto[OF Suc.prems(5), of 0] ok by (simp add: tensor_ok_def)
  have IH: "concat_pairs axis (map Some ts) (outs # zs) (Suc i) n =
      Some (\<forall>k. Suc i \<le> k \<longrightarrow> k < Suc i + n \<longrightarrow> ?P k)"
    using Suc.IH[of "Suc i"] Suc.prems by simp
  have s: "?P i \<longleftrightarrow> ts_dim (op_shape (ts ! i)) = ts_dim (op_shape (ts ! (i - 1))) \<and>
      (\<forall>k < unat (ts_dim (op_shape (ts ! i))). k \<noteq> unat axis \<longrightarrow>
        ts_size (op_shape (ts ! (i - 1))) ! k = ts_size (op_shape (ts ! i)) ! k)"
    by (auto simp: agree_outside_def)
  show ?case unfolding e s concat_pairs.simps(2) r bind.bind_lunit d IH
    using Suc.prems(5) by (simp del: concat_pairs.simps)
qed simp

lemma adjacent_all:
  assumes "\<And>a. R a a" "\<And>a b c. R a b \<Longrightarrow> R b c \<Longrightarrow> R a c"
  shows "(\<forall>k. 1 \<le> k \<longrightarrow> k < length (x # xs) \<longrightarrow> R ((x # xs) ! (k - 1)) ((x # xs) ! k)) \<Longrightarrow> y \<in> set (x # xs) \<Longrightarrow> R x y"
proof (induction xs arbitrary: x)
  case (Cons z zs)
  have "R x z" using Cons.prems(1)[rule_format, of 1] by simp
  have "\<forall>k. 1 \<le> k \<longrightarrow> k < length (z # zs) \<longrightarrow> R ((z # zs) ! (k - 1)) ((z # zs) ! k)"
  proof (intro allI impI)
    fix k assume "1 \<le> k" "k < length (z # zs)"
    then show "R ((z # zs) ! (k - 1)) ((z # zs) ! k)" using Cons.prems(1)[rule_format, of "Suc k"] by (cases k) simp_all
  qed
  then show ?case using Cons.IH[of z] Cons.prems(2) \<open>R x z\<close> assms by auto
qed (use assms(1) in simp)

text \<open>The inputs of a \<open>CONCAT\<close> that can be joined, and the shape of the result.\<close>

definition joinable :: "uint32 \<Rightarrow> tshape list \<Rightarrow> bool" where
  "joinable axis ts \<longleftrightarrow> (\<forall>t \<in> set ts. agree_outside axis (hd ts) t)"

definition joined :: "uint32 \<Rightarrow> tshape list \<Rightarrow> vsi_size_t list" where
  "joined axis ts = (shp (hd ts))[unat axis := (\<Sum>t \<leftarrow> ts. shp t ! unat axis)]"

lemma concat_check_value:
  assumes "ts \<noteq> []" "\<forall>t \<in> set ts. tensor_ok (op_shape t)" "ts_dim (op_shape z) = 0" "on_inputs nd = length ts"
  shows "op_check_concat nd (map Some ts) (Some z # zs) = check_if (joinable (on_axis nd) (map op_shape ts))"
proof -
  obtain t us where t: "ts = t # us" using assms(1) by (cases ts) auto
  let ?R = "\<lambda>a b. agree_outside (on_axis nd) (op_shape a) (op_shape b)"
  have n: "concat_num (map (map_option op_shape) (map Some ts)) (on_inputs nd) = length ts"
    using concat_num_full[of "length ts" "map op_shape ts"] assms(4) by (simp add: comp_def)
  have p: "concat_pairs (on_axis nd) (map Some ts) (Some z # zs) 1 (length us) =
      Some (\<forall>k. 1 \<le> k \<longrightarrow> k < length ts \<longrightarrow> ?R (ts ! (k - 1)) (ts ! k))"
    using concat_pairs_auto[of 1 "length us" ts "Some z" z "on_axis nd" zs] assms(2,3) by (simp add: t)
  have "(\<forall>k. 1 \<le> k \<longrightarrow> k < length ts \<longrightarrow> ?R (ts ! (k - 1)) (ts ! k)) \<longleftrightarrow> joinable (on_axis nd) (map op_shape ts)" (is "?a \<longleftrightarrow> ?b")
  proof
    assume ?a
    then show ?b
      using adjacent_all[of ?R t us] agree_outside_trans by (auto simp: t joinable_def agree_outside_refl)
  next
    assume b: ?b
    show ?a
    proof (intro allI impI)
      fix k assume "1 \<le> k" "k < length ts"
      then have "ts ! (k - 1) \<in> set ts" "ts ! k \<in> set ts" by simp_all
      then have "?R t (ts ! (k - 1))" "?R t (ts ! k)" using b by (auto simp: t joinable_def)
      then show "?R (ts ! (k - 1)) (ts ! k)" by (auto simp: agree_outside_def)
    qed
  qed
  with p n show ?thesis by (simp add: op_check_concat_def t)
qed

lemma concat_setup_value:
  assumes "ts \<noteq> []" "\<forall>t \<in> set ts. tensor_ok t" "joinable axis ts" "unat axis < unat (ts_dim (hd ts))" "auto_shape out"
  shows "\<exists>out'. op_concat_setup axis (map Some ts) out = Some (True, out') \<and> tensor_ok out' \<and> shp out' = joined axis ts"
proof -
  obtain t us where t: "ts = t # us" using assms(1) by (cases ts) auto
  have ok: "tensor_ok t" "length (ts_size t) = 8" "unat axis < 8" "\<forall>u \<in> set ts. length (ts_size u) = 8"
    using assms(2,4) by (auto simp: t tensor_ok_def)
  have f: "fill 8 0 0 (rd (ts_size t)) (ts_size out) = Some (ts_size t)"
    using fill_copy[of 0 8 "ts_size t" 0 "ts_size out"] ok(2) assms(5) by (simp add: auto_shape_def)
  have n: "concat_num (map Some ts) (length (map Some ts)) = Suc (length us)"
    using concat_num_full[of "length ts" ts] by (simp add: t)
  let ?s = "ts_size t ! unat axis + (\<Sum>u \<leftarrow> us. ts_size u ! unat axis)"
  have l: "concat_loop (map Some ts) (unat axis) 1 (length us) (ts_size t) = Some ((ts_size t)[unat axis := ?s])"
    using concat_loop_sum[of 1 "length us" ts "unat axis" "ts_size t"] ok by (simp add: t)
  let ?o = "out\<lparr>ts_size := (ts_size t)[unat axis := ?s], ts_dim := ts_dim t\<rparr>"
  have "op_concat_setup axis (map Some ts) out = Some (True, ?o)"
    using f n l assms(5) by (simp add: op_concat_setup_def auto_shape_def dim_first) (simp add: t)
  moreover have "tensor_ok ?o" "shp ?o = take (unat (ts_dim t)) ((ts_size t)[unat axis := ?s])"
    using tensor_ok_update[OF assms(5), of "(ts_size t)[unat axis := ?s]" "ts_dim t"] ok by (simp_all add: tensor_ok_def)
  moreover have "shp u ! unat axis = ts_size u ! unat axis" if "u \<in> set ts" for u
    using assms(3,4) that by (auto simp: joinable_def agree_outside_def t shp_def)
  then have "(\<Sum>u \<leftarrow> ts. shp u ! unat axis) = ?s" by (simp add: t cong: map_cong)
  then have "joined axis ts = take (unat (ts_dim t)) ((ts_size t)[unat axis := ?s])"
    by (simp add: joined_def t shp_def take_update_swap)
  ultimately show ?thesis by auto
qed

subsection \<open>The properties\<close>

text \<open>
  C22: The check of an operation. With both checks switched on and without the stream processor,
  \<open>vsi_nn_OpCheck\<close> of an operation whose check is a table in the end, after any number of
  operations that ask for the check of another one, accepts a node exactly when a row of that
  table fits its inputs and outputs. A rejected node is described by the names of the types of
  all its tensors.
\<close>

theorem opcheck_is_table_search:
  assumes "resolves op p" "type_table p = Some (uo, i, k, rows)" "ce_opcheck e" "ce_node_check e" "\<not> ce_stream e"
    "on_inputs nd \<le> length ins" "on_outputs nd \<le> length outs" "on_inputs nd + on_outputs nd \<le> 2 ^ 26"
    "list_all tensor_plain ins" "list_all tensor_plain outs" "ce_mem e 0" "ce_mem e 1"
    "m = (if uo then on_outputs nd else 0)"
  shows "OpCheck e op nd ins outs =
    (if in_table i k rows ins (on_inputs nd) outs m then check_ok
     else Some (Inl (Bad_types (Some (join (io_names (take (on_inputs nd) ins @ take m outs)))))))"
  using OpCheck_table[OF assms(1-10)] assms(11-13) by (simp add: table_verdict_def)

definition sample_env :: check_env where
  "sample_env = \<lparr>ce_opcheck = True, ce_node_check = True, ce_stream = False, ce_sp_exec = 0, ce_mem = (\<lambda>_. True)\<rparr>"

definition node_of :: "nat \<Rightarrow> nat \<Rightarrow> op_node" where
  "node_of n m = \<lparr>on_inputs = n, on_outputs = m, on_transpose0 = False, on_transpose1 = False, on_axis = 0,
     on_multiples_num = 0, on_slices_num = 0, on_pad_num = 0, on_pad_mode = PAD_REFLECT, on_front = [5, 0], on_back = [0, 0],
     on_maxlen = 0, on_block = [0, 0], on_pads = [0, 0, 0, 0]\<rparr>"

definition typed :: "vsi_nn_type \<Rightarrow> vsi_nn_qnt_type \<Rightarrow> vsi_size_t list \<Rightarrow> op_tensor option" where
  "typed t q ss = Some \<lparr>io_vx = t, io_qnt = q, io_const = False, op_shape = sample_shape ss, op_vtl = False\<rparr>"

lemma sample_env_fields [simp]:
  "ce_opcheck sample_env" "ce_node_check sample_env" "\<not> ce_stream sample_env" "ce_mem sample_env n"
  by (simp_all add: sample_env_def)

lemma node_of_fields [simp]:
  "on_inputs (node_of n m) = n" "on_outputs (node_of n m) = m" "on_axis (node_of n m) = 0"
  "on_pad_num (node_of n m) = 0" "on_block (node_of n m) = [0, 0]"
  by (simp_all add: node_of_def)

lemma typed_fields [simp]:
  "typed t q ss = Some a \<longleftrightarrow> a = \<lparr>io_vx = t, io_qnt = q, io_const = False, op_shape = sample_shape ss, op_vtl = False\<rparr>"
  by (auto simp: typed_def)

lemma sample_plain [simp]: "byte_type t \<Longrightarrow> tensor_plain (typed t q ss)"
  by (simp add: typed_def tensor_plain_def)

lemma sample_bytes [simp]: "byte_type TYPE_INT8" "byte_type TYPE_UINT8" "byte_type TYPE_FLOAT16" "byte_type TYPE_BOOL8"
  by (simp_all add: byte_type_def)

lemma sample_procs:
  "map_of op_procs VSI_NN_OP_DROPOUT = Some (Delegate VSI_NN_OP_LINEAR)"
  "map_of op_procs VSI_NN_OP_LINEAR = Some (Delegate VSI_NN_OP_RELU)"
  "map_of op_procs VSI_NN_OP_RELU = Some (Delegate VSI_NN_OP_RSQRT)"
  "map_of op_procs VSI_NN_OP_RSQRT = Some (Stream_types True 1 1 RSQRT_types)"
  "map_of op_procs VSI_NN_OP_MINIMUM = Some (Stream_types True 2 1 MINIMUM_types)"
  "map_of op_procs VSI_NN_OP_BATCH2SPACE = Some Check_batch2space"
  "map_of op_procs VSI_NN_OP_STRIDED_SLICE = Some Check_strided_slice"
  "map_of op_procs VSI_NN_OP_PAD2 = Some Check_pad2"
  "map_of op_procs VSI_NN_OP_CONCAT = Some Check_concat"
  by (simp_all add: op_procs_def)

lemma dropout_resolves: "resolves VSI_NN_OP_DROPOUT (Stream_types True 1 1 RSQRT_types)"
  by (intro resolves.delegated[OF sample_procs(1)] resolves.delegated[OF sample_procs(2)]
      resolves.delegated[OF sample_procs(3)] resolves.own[OF sample_procs(4)]) simp

theorem opcheck_is_table_search_witness:
  "OpCheck sample_env VSI_NN_OP_DROPOUT (node_of 1 1) [typed TYPE_BOOL8 QNT_NONE [4]] [typed TYPE_INT8 QNT_DFP [4]] =
     Some (Inl (Bad_types (Some '' BOOL8, DFP INT8'')))"
proof -
  let ?i = "[typed TYPE_BOOL8 QNT_NONE [4]]" and ?o = "[typed TYPE_INT8 QNT_DFP [4]]"
  have "\<not> in_table 1 1 RSQRT_types ?i 1 ?o 1"
    by (simp add: in_table_def RSQRT_types_def node_slots_def io_slots_def op_reg_def type_fits_def typed_def)
  moreover have "io_names (?i @ ?o) = ['' BOOL8'', ''DFP INT8'']"
    by (simp add: io_names_def map_filter_simps io_text_def typed_def)
  ultimately show ?thesis
    using opcheck_is_table_search[OF dropout_resolves type_table.simps(2), of sample_env "node_of 1 1" ?i ?o 1] by simp
qed

text \<open>
  C23: Check and setup of \<open>CONCAT\<close>. For inputs of known rank and an output to be computed,
  \<open>vsi_nn_OpCheck\<close> accepts exactly the inputs that have the same rank and agree on every axis
  but the one they are joined on, an axis of the first input; and for accepted inputs the setup gives the output the shape of
  the first input with the sum of the sizes on that axis.
\<close>

theorem concat_checked_setup:
  assumes "ts \<noteq> []" "\<forall>t \<in> set ts. tensor_ok (op_shape t)" "on_inputs nd = length ts" "ce_opcheck e"
    "auto_shape (op_shape z)" "unat (on_axis nd) < unat (ts_dim (op_shape (hd ts)))"
  defines "ss \<equiv> map op_shape ts"
  shows "OpCheck e VSI_NN_OP_CONCAT nd (map Some ts) (Some z # zs) = check_if (joinable (on_axis nd) ss) \<and>
    (joinable (on_axis nd) ss \<longrightarrow>
      (\<exists>out'. op_concat_setup (on_axis nd) (map Some ss) (op_shape z) = Some (True, out') \<and>
        tensor_ok out' \<and> shp out' = joined (on_axis nd) ss))"
proof (intro conjI impI)
  show "OpCheck e VSI_NN_OP_CONCAT nd (map Some ts) (Some z # zs) = check_if (joinable (on_axis nd) ss)"
    using concat_check_value[OF assms(1,2) _ assms(3)] assms(4,5)
    by (simp add: OpCheck.simps[of e] sample_procs auto_shape_def ss_def)
  show "\<exists>out'. op_concat_setup (on_axis nd) (map Some ss) (op_shape z) = Some (True, out') \<and>
      tensor_ok out' \<and> shp out' = joined (on_axis nd) ss" if "joinable (on_axis nd) ss"
    using concat_setup_value[of ss "on_axis nd" "op_shape z"] that assms(1,2,5,6) by (simp add: ss_def hd_map)
qed

definition u8_tensor :: "vsi_size_t list \<Rightarrow> op_tensor" where
  "u8_tensor ss = \<lparr>io_vx = TYPE_UINT8, io_qnt = QNT_ASYM, io_const = False, op_shape = sample_shape ss, op_vtl = False\<rparr>"

definition auto_tensor :: op_tensor where
  "auto_tensor = \<lparr>io_vx = TYPE_UINT8, io_qnt = QNT_ASYM, io_const = False, op_shape = blank, op_vtl = True\<rparr>"

theorem concat_checked_setup_witness:
  "OpCheck sample_env VSI_NN_OP_CONCAT (node_of 2 1) (map Some [u8_tensor [4, 3], u8_tensor [6, 3]]) [Some auto_tensor] = check_ok \<and>
   (\<exists>out'. op_concat_setup 0 [Some (sample_shape [4, 3]), Some (sample_shape [6, 3])] blank = Some (True, out') \<and>
      shp out' = [10, 3])"
proof -
  let ?ts = "[u8_tensor [4, 3], u8_tensor [6, 3]]"
  have ok: "\<forall>t \<in> set ?ts. tensor_ok (op_shape t)" by (simp add: u8_tensor_def sample_shape_def tensor_ok_def)
  have j: "joinable 0 (map op_shape ?ts)"
    by (auto simp: u8_tensor_def sample_shape_def joinable_def agree_outside_def less_Suc_eq numeral_2_eq_2)
  have z: "auto_shape (op_shape auto_tensor)" by (simp add: auto_tensor_def auto_shape_def blank_def)
  have "joined 0 (map op_shape ?ts) = [10, 3]"
    by (simp add: joined_def u8_tensor_def sample_shape_def shp_def)
  then show ?thesis
    using concat_checked_setup[of ?ts "node_of 2 1" sample_env auto_tensor "[]"] ok j z
    by (simp add: check_if_def u8_tensor_def auto_tensor_def sample_shape_def) auto
qed

subsection \<open>Inputs that pass or fail against the intent\<close>

text \<open>The minimum of two tensors is accepted in one order and rejected in the other.\<close>

theorem minimum_order_matters:
  "OpCheck sample_env VSI_NN_OP_MINIMUM (node_of 2 1) [typed TYPE_INT8 QNT_SYM [4], typed TYPE_INT8 QNT_ASYM [4]]
     [typed TYPE_INT8 QNT_SYM [4]] = check_ok"
  "OpCheck sample_env VSI_NN_OP_MINIMUM (node_of 2 1) [typed TYPE_INT8 QNT_ASYM [4], typed TYPE_INT8 QNT_SYM [4]]
     [typed TYPE_INT8 QNT_SYM [4]] = Some (Inl (Bad_types (Some ''ASYM INT8, SYM INT8, SYM INT8'')))"
proof -
  have r: "resolves VSI_NN_OP_MINIMUM (Stream_types True 2 1 MINIMUM_types)" by (rule resolves.own[OF sample_procs(5)]) simp
  let ?s = "typed TYPE_INT8 QNT_SYM [4]" and ?a = "typed TYPE_INT8 QNT_ASYM [4]"
  have "in_table 2 1 MINIMUM_types [?s, ?a] 2 [?s] 1"
    by (simp add: in_table_def MINIMUM_types_def node_slots_def io_slots_def op_reg_def type_fits_def typed_def)
  then show "OpCheck sample_env VSI_NN_OP_MINIMUM (node_of 2 1) [?s, ?a] [?s] = check_ok"
    using OpCheck_table[OF r type_table.simps(2), of sample_env "node_of 2 1" "[?s, ?a]" "[?s]"] by (simp add: table_verdict_def)
  have "io_names [?a, ?s, ?s] = [''ASYM INT8'', ''SYM INT8'', ''SYM INT8'']"
    by (simp add: io_names_def map_filter_simps io_text_def typed_def)
  moreover have "\<not> in_table 2 1 MINIMUM_types [?a, ?s] 2 [?s] 1"
    by (simp add: in_table_def MINIMUM_types_def node_slots_def io_slots_def op_reg_def type_fits_def typed_def)
  ultimately show "OpCheck sample_env VSI_NN_OP_MINIMUM (node_of 2 1) [?a, ?s] [?s] =
      Some (Inl (Bad_types (Some ''ASYM INT8, SYM INT8, SYM INT8'')))"
    using OpCheck_table[OF r type_table.simps(2), of sample_env "node_of 2 1" "[?a, ?s]" "[?s]"]
    by (simp add: table_verdict_def)
qed

lemma strided_slice_accepts:
  "op_check_strided_slice sample_env (node_of 1 1) [typed TYPE_FLOAT16 QNT_NONE ss] [typed TYPE_FLOAT16 QNT_NONE ss'] = check_ok"
proof -
  let ?i = "[typed TYPE_FLOAT16 QNT_NONE ss]" and ?o = "[typed TYPE_FLOAT16 QNT_NONE ss']"
  have "in_table 1 1 STRIDED_SLICE_types ?i 1 ?o 1"
    by (simp add: in_table_def STRIDED_SLICE_types_def node_slots_def io_slots_def op_reg_def type_fits_def typed_def)
  moreover have "table_ok (1 + 1) STRIDED_SLICE_types" using STRIDED_SLICE_ok by (simp only: one_add_one)
  ultimately have "check_types sample_env 0 (op_reg 1 1 STRIDED_SLICE_types) ?i 1 1 ?o 1 = check_ok"
    using check_types_value[of sample_env 1 1 _ 1 ?i 1 ?o] by (simp add: table_verdict_def)
  then show ?thesis by (simp add: op_check_strided_slice_def)
qed

text \<open>The check of \<open>BATCH2SPACE\<close> lets a block of size 0 pass, by which the setup divides.\<close>

theorem zero_block_passes_check:
  "OpCheck sample_env VSI_NN_OP_BATCH2SPACE (node_of 1 1) [typed TYPE_FLOAT16 QNT_NONE [4, 4, 2, 4]]
     [typed TYPE_FLOAT16 QNT_NONE []] = check_ok"
  "op_batch2space_setup [0, 0] [0, 0, 0, 0] (sample_shape [4, 4, 2, 4]) (sample_shape []) = None"
proof -
  have "op_check_batch2space (node_of 1 1) [typed TYPE_FLOAT16 QNT_NONE [4, 4, 2, 4]] = check_ok"
    by (simp add: op_check_batch2space_def deref_def typed_def sample_shape_def check_if_def)
  then show "OpCheck sample_env VSI_NN_OP_BATCH2SPACE (node_of 1 1) [typed TYPE_FLOAT16 QNT_NONE [4, 4, 2, 4]]
      [typed TYPE_FLOAT16 QNT_NONE []] = check_ok"
    by (simp add: OpCheck.simps[of sample_env] sample_procs check_then_def strided_slice_accepts[simplified])
  show "op_batch2space_setup [0, 0] [0, 0, 0, 0] (sample_shape [4, 4, 2, 4]) (sample_shape []) = None"
    by (simp add: op_batch2space_setup_def sample_shape_def is_3d_tensor_def udiv_def)
qed

text \<open>
  The paddings of \<open>PAD2\<close> are compared with the sizes for \<open>dim_num\<close> dimensions, which the setup fills in
  after the check when it is 0: a reflection over 5 elements of an axis of 3 passes.
\<close>

theorem reflect_padding_unchecked:
  "check_mirror_pad_size PAD_REFLECT [5, 0] [0, 0] 2 (ts_size (sample_shape [3, 4])) 2 = Some False"
  "OpCheck sample_env VSI_NN_OP_PAD2 (node_of 1 1) [typed TYPE_FLOAT16 QNT_NONE [3, 4]] [typed TYPE_FLOAT16 QNT_NONE []] = check_ok"
proof -
  have two: "unat (if (2 :: uint32) > 2 then 2 else 2 :: uint32) = Suc (Suc 0)" by simp
  show "check_mirror_pad_size PAD_REFLECT [5, 0] [0, 0] 2 (ts_size (sample_shape [3, 4])) 2 = Some False"
    unfolding check_mirror_pad_size_def two by (simp add: sample_shape_def)
  let ?i = "[typed TYPE_FLOAT16 QNT_NONE [3, 4]]" and ?o = "[typed TYPE_FLOAT16 QNT_NONE []]"
  have "in_table 1 1 PAD2_types ?i 1 ?o 1"
    by (simp add: in_table_def PAD2_types_def node_slots_def io_slots_def op_reg_def type_fits_def typed_def)
  moreover have "table_ok (1 + 1) PAD2_types" using PAD2_ok by (simp only: one_add_one)
  ultimately have "check_types sample_env 0 (op_reg 1 1 PAD2_types) ?i 1 1 ?o 1 = check_ok"
    using check_types_value[of sample_env 1 1 _ 1 ?i 1 ?o] by (simp add: table_verdict_def)
  then show "OpCheck sample_env VSI_NN_OP_PAD2 (node_of 1 1) ?i ?o = check_ok"
    by (simp add: OpCheck.simps[of sample_env] sample_procs op_check_pad2_def check_then_def deref_def pad_rank_ok_def check_mirror_pad_size_def
        check_if_def typed_def sample_shape_def)
qed

end
