(* ===== verification/Partition.thy ===== *)
theory Partition
  imports Vsi_Prelude "HOL-Library.Multiset"
begin

text \<open>
  \<open>vsi_nn_partition\<close> of \<^verbatim>\<open>src/tim/vx/internal/src/utils/vsi_nn_util.c\<close>: the partition step of
  quicksort on an array of indices, with the recursion on both parts as an option. The comparison
  function is the caller's, an argument \<open>f\<close> of the model: \<open>f x y\<close> says that \<open>x\<close> may stand
  before \<open>y\<close>. An access outside of the array and a run that does not end are \<open>None\<close>: with a
  comparison that holds in neither direction for equal elements the loop never ends.
\<close>

function scan_high ::
  "(uint32 \<Rightarrow> uint32 \<Rightarrow> bool) \<Rightarrow> uint32 \<Rightarrow> uint32 list \<Rightarrow> nat \<Rightarrow> nat \<Rightarrow> nat option" where
  "scan_high f key indices low high =
     (if low < high then do {
        v \<leftarrow> rd indices high;
        if f key v then scan_high f key indices low (high - 1) else Some high }
      else Some high)"
  by pat_completeness auto
termination
  by (relation "measure (\<lambda>(_, _, _, _, high). high)") auto

function scan_low ::
  "(uint32 \<Rightarrow> uint32 \<Rightarrow> bool) \<Rightarrow> uint32 \<Rightarrow> uint32 list \<Rightarrow> nat \<Rightarrow> nat \<Rightarrow> nat option" where
  "scan_low f key indices low high =
     (if low < high then do {
        v \<leftarrow> rd indices low;
        if f v key then scan_low f key indices (low + 1) high else Some low }
      else Some low)"
  by pat_completeness auto
termination
  by (relation "measure (\<lambda>(_, _, _, low, high). high - low)") auto

declare scan_high.simps [simp del] scan_low.simps [simp del]

partial_function (option) partition_loop ::
  "(uint32 \<Rightarrow> uint32 \<Rightarrow> bool) \<Rightarrow> uint32 \<Rightarrow> nat \<Rightarrow> nat \<Rightarrow> uint32 list \<Rightarrow> (nat \<times> uint32 list) option" where
  "partition_loop f key low high indices =
     (if low < high then do {
        h \<leftarrow> scan_high f key indices low high;
        v \<leftarrow> rd indices h;
        indices1 \<leftarrow> wr indices low v;
        l \<leftarrow> scan_low f key indices1 low h;
        w \<leftarrow> rd indices1 l;
        indices2 \<leftarrow> wr indices1 h w;
        partition_loop f key l h indices2 }
      else Some (low, indices))"

text \<open>The bounds are \<open>int32_t\<close>, as the part before the first element ends at -1.\<close>

partial_function (option) vsi_partition ::
  "(uint32 \<Rightarrow> uint32 \<Rightarrow> bool) \<Rightarrow> bool \<Rightarrow> int \<Rightarrow> int \<Rightarrow> uint32 list \<Rightarrow> (int \<times> uint32 list) option" where
  "vsi_partition f is_recursion left right indices =
     (if left < right then
        (if left < 0 then None
         else do {
           key \<leftarrow> rd indices (nat left);
           r \<leftarrow> partition_loop f key (nat left) (nat right) indices;
           indices1 \<leftarrow> wr (snd r) (fst r) key;
           if is_recursion then do {
             a \<leftarrow> vsi_partition f True left (int (fst r) - 1) indices1;
             b \<leftarrow> vsi_partition f True (int (fst r) + 1) right (snd a);
             Some (int (fst r), snd b) }
           else Some (int (fst r), indices1) })
      else Some (left, indices))"


subsection \<open>The scans\<close>

lemma scan_high_ok:
  "high < length xs \<Longrightarrow> low \<le> high \<Longrightarrow>
   \<exists>h. scan_high f key xs low high = Some h \<and> low \<le> h \<and> h \<le> high \<and> (\<forall>i. h < i \<and> i \<le> high \<longrightarrow> f key (xs ! i)) \<and>
     (h = low \<or> \<not> f key (xs ! h))"
proof (induction "high - low" arbitrary: high)
  case 0
  then show ?case by (subst scan_high.simps) auto
next
  case (Suc d)
  show ?case
  proof (cases "f key (xs ! high)")
    case True
    have d: "d = high - 1 - low" "high - 1 < length xs" "low \<le> high - 1" using Suc.hyps(2) Suc.prems by linarith+
    obtain h where h: "scan_high f key xs low (high - 1) = Some h" "low \<le> h" "h \<le> high - 1"
      "\<forall>i. h < i \<and> i \<le> high - 1 \<longrightarrow> f key (xs ! i)" "h = low \<or> \<not> f key (xs ! h)"
      using Suc.hyps(1)[OF d] by blast
    have "f key (xs ! i)" if "h < i" "i \<le> high" for i
      using h(4) True that by (cases "i = high") auto
    then show ?thesis using h True Suc by (subst scan_high.simps) auto
  next
    case False
    then show ?thesis using Suc by (subst scan_high.simps) auto
  qed
qed

lemma scan_low_ok:
  "high < length xs \<Longrightarrow> low \<le> high \<Longrightarrow>
   \<exists>l. scan_low f key xs low high = Some l \<and> low \<le> l \<and> l \<le> high \<and> (\<forall>i. low \<le> i \<and> i < l \<longrightarrow> f (xs ! i) key) \<and>
     (l = high \<or> \<not> f (xs ! l) key)"
proof (induction "high - low" arbitrary: low)
  case 0
  then show ?case by (subst scan_low.simps) auto
next
  case (Suc d)
  show ?case
  proof (cases "f (xs ! low) key")
    case True
    have d: "d = high - (low + 1)" "low + 1 \<le> high" using Suc.hyps(2) by linarith+
    obtain l where l: "scan_low f key xs (low + 1) high = Some l" "low + 1 \<le> l" "l \<le> high"
      "\<forall>i. low + 1 \<le> i \<and> i < l \<longrightarrow> f (xs ! i) key" "l = high \<or> \<not> f (xs ! l) key"
      using Suc.hyps(1)[OF d(1) Suc.prems(1) d(2)] by blast
    have "f (xs ! i) key" if "low \<le> i" "i < l" for i
      using l(4) True that by (cases "i = low") auto
    then show ?thesis using l True Suc by (subst scan_low.simps) auto
  next
    case False
    then show ?thesis using Suc by (subst scan_low.simps) auto
  qed
qed

subsection \<open>The partition\<close>

text \<open>Two arrays agree outside of the entries from \<open>a\<close> to before \<open>b\<close>.\<close>

definition same_outside :: "nat \<Rightarrow> nat \<Rightarrow> uint32 list \<Rightarrow> uint32 list \<Rightarrow> bool" where
  "same_outside a b xs ys \<longleftrightarrow> length xs = length ys \<and> (\<forall>i < length xs. i < a \<or> b \<le> i \<longrightarrow> xs ! i = ys ! i)"

lemma same_outside_trans:
  "same_outside a b xs ys \<Longrightarrow> same_outside a b ys zs \<Longrightarrow> same_outside a b xs zs"
  by (simp add: same_outside_def)

lemma same_outside_mono:
  "same_outside a b xs ys \<Longrightarrow> a' \<le> a \<Longrightarrow> b \<le> b' \<Longrightarrow> same_outside a' b' xs ys"
  by (auto simp: same_outside_def)

text \<open>
  The loop keeps a hole at \<open>low\<close>: with the key in the hole the array is a permutation of the
  given one; everything before the hole may stand before the key, everything behind \<open>high\<close>
  behind it.
\<close>

definition hole_inv ::
  "(uint32 \<Rightarrow> uint32 \<Rightarrow> bool) \<Rightarrow> uint32 \<Rightarrow> nat \<Rightarrow> nat \<Rightarrow> uint32 list \<Rightarrow> nat \<Rightarrow> nat \<Rightarrow> uint32 list \<Rightarrow> bool" where
  "hole_inv f key a b orig low high xs \<longleftrightarrow>
     a \<le> low \<and> low \<le> high \<and> high < b \<and> b \<le> length orig \<and> same_outside a b orig xs \<and>
     mset (xs[low := key]) = mset orig \<and> (\<forall>i. a \<le> i \<and> i < low \<longrightarrow> f (xs ! i) key) \<and>
     (\<forall>i. high < i \<and> i < b \<longrightarrow> f key (xs ! i))"

lemma mset_move_hole:
  assumes "i < length xs" "j < length xs"
  shows "mset (xs[i := xs ! j, j := key]) = mset (xs[i := key])"
proof (cases "i = j")
  case False
  let ?v = "xs[i := key]"
  have "?v[j := ?v ! i, i := ?v ! j] = xs[i := xs ! j, j := key]"
    using False assms by (intro nth_equalityI) (auto simp: nth_list_update)
  then show ?thesis using mset_swap[of i ?v j] assms by simp
qed simp

lemma hole_step:
  assumes inv: "hole_inv f key a b orig low high xs" and lt: "low < high" and total: "\<forall>x y. f x y \<or> f y x"
  obtains h l xs1 where "scan_high f key xs low high = Some h" "h < length xs" "low < length xs"
    "xs1 = xs[low := xs ! h]" "scan_low f key xs1 low h = Some l" "l < length xs"
    "hole_inv f key a b orig l h (xs1[h := xs1 ! l])" "h - l < high - low"
proof -
  have I: "a \<le> low" "high < b" "b \<le> length xs" "same_outside a b orig xs" "mset (xs[low := key]) = mset orig"
    "\<forall>i. a \<le> i \<and> i < low \<longrightarrow> f (xs ! i) key" "\<forall>i. high < i \<and> i < b \<longrightarrow> f key (xs ! i)" "length xs = length orig"
    using inv by (auto simp: hole_inv_def same_outside_def)
  have len: "high < length xs" "low < length xs" using I(2,3) lt by linarith+
  obtain h where h: "scan_high f key xs low high = Some h" "low \<le> h" "h \<le> high"
    "\<forall>i. h < i \<and> i \<le> high \<longrightarrow> f key (xs ! i)" "h = low \<or> \<not> f key (xs ! h)"
    using scan_high_ok[OF len(1), of low f key] lt by auto
  let ?x1 = "xs[low := xs ! h]"
  have hl: "h < length ?x1" using h(3) len(1) by simp
  obtain l where l: "scan_low f key ?x1 low h = Some l" "low \<le> l" "l \<le> h"
    "\<forall>i. low \<le> i \<and> i < l \<longrightarrow> f (?x1 ! i) key" "l = h \<or> \<not> f (?x1 ! l) key"
    using scan_low_ok[OF hl h(2)] by blast
  let ?x2 = "?x1[h := ?x1 ! l]"
  have "mset (?x2[l := key]) = mset (?x1[h := key])"
    using hl l(3) by (intro mset_move_hole) simp_all
  moreover have "mset (?x1[h := key]) = mset (xs[low := key])"
    using hl len by (intro mset_move_hole) simp_all
  ultimately have m: "mset (?x2[l := key]) = mset orig" using I(5) by simp
  have out: "same_outside a b orig ?x2"
    using I h(2,3) l(2,3) len by (auto simp: same_outside_def nth_list_update)
  have before: "f (?x2 ! i) key" if i: "a \<le> i" "i < l" for i
  proof (cases "i < low")
    case True
    then show ?thesis using I(6) i l(3) h(2) by simp
  next
    case False
    then show ?thesis using l(3,4) i by simp
  qed
  have behind: "f key (?x2 ! i)" if i: "h < i" "i < b" for i
    using i h(2,4) I(7) by (cases "i \<le> high") auto
  have inv2: "hole_inv f key a b orig l h ?x2"
    using m out before behind I(1,2,3,8) h(3) l(2,3) by (simp add: hole_inv_def)
  have "h - l < high - low"
  proof (cases "h = high")
    case True
    then have "f (?x1 ! low) key" using h(5) lt total len(2) by auto
    then have "l \<noteq> low" using l(5) True lt by auto
    then show ?thesis using l(2) True lt by linarith
  next
    case False
    then show ?thesis using h(2,3) l(2,3) lt by linarith
  qed
  then show thesis using that[OF h(1) _ len(2) refl l(1) _ inv2] hl l(3) by simp
qed

lemma partition_loop_ok:
  assumes total: "\<forall>x y. f x y \<or> f y x"
  shows "hole_inv f key a b orig low high xs \<Longrightarrow>
    \<exists>p ys. partition_loop f key low high xs = Some (p, ys) \<and> hole_inv f key a b orig p p ys"
proof (induction "high - low" arbitrary: low high xs rule: less_induct)
  case less
  show ?case
  proof (cases "low < high")
    case True
    obtain h l xs1 where s: "scan_high f key xs low high = Some h" "h < length xs" "low < length xs"
      "xs1 = xs[low := xs ! h]" "scan_low f key xs1 low h = Some l" "l < length xs"
      "hole_inv f key a b orig l h (xs1[h := xs1 ! l])" "h - l < high - low"
      by (rule hole_step[OF less.prems True total]) (rule that; assumption)
    have "partition_loop f key low high xs = partition_loop f key l h (xs1[h := xs1 ! l])"
      using s(1-6) True by (subst partition_loop.simps) simp
    then show ?thesis using less.hyps[OF s(8,7)] by simp
  next
    case False
    then have "low = high" using less.prems by (simp add: hole_inv_def)
    then show ?thesis using less.prems by (subst partition_loop.simps) simp
  qed
qed

text \<open>One call on the entries from \<open>a\<close> to before \<open>b\<close>: the key ends at \<open>p\<close>.\<close>

definition split_at :: "(uint32 \<Rightarrow> uint32 \<Rightarrow> bool) \<Rightarrow> nat \<Rightarrow> nat \<Rightarrow> nat \<Rightarrow> uint32 list \<Rightarrow> bool" where
  "split_at f a b p xs \<longleftrightarrow> a \<le> p \<and> p < b \<and> (\<forall>i. a \<le> i \<and> i < p \<longrightarrow> f (xs ! i) (xs ! p)) \<and>
     (\<forall>i. p < i \<and> i < b \<longrightarrow> f (xs ! p) (xs ! i))"

lemma partition_once:
  assumes total: "\<forall>x y. f x y \<or> f y x" and ab: "a + 1 < b" "b \<le> length xs"
  obtains p ys where "partition_loop f (xs ! a) a (b - 1) xs = Some (p, ys)" "p < length ys"
    "mset (ys[p := xs ! a]) = mset xs" "same_outside a b xs (ys[p := xs ! a])" "split_at f a b p (ys[p := xs ! a])"
proof -
  have "hole_inv f (xs ! a) a b xs a (b - 1) xs"
    using ab by (auto simp: hole_inv_def same_outside_def)
  then obtain p ys where r: "partition_loop f (xs ! a) a (b - 1) xs = Some (p, ys)" "hole_inv f (xs ! a) a b xs p p ys"
    using partition_loop_ok[OF total] by blast
  have i: "a \<le> p" "p < b" "length ys = length xs" "same_outside a b xs ys" "mset (ys[p := xs ! a]) = mset xs"
    "\<forall>i. a \<le> i \<and> i < p \<longrightarrow> f (ys ! i) (xs ! a)" "\<forall>i. p < i \<and> i < b \<longrightarrow> f (xs ! a) (ys ! i)"
    using r(2) by (auto simp: hole_inv_def same_outside_def)
  have p: "p < length ys" using i(2,3) ab(2) by simp
  have "same_outside a b xs (ys[p := xs ! a])" using i(1,2,4) by (auto simp: same_outside_def nth_list_update)
  moreover have "split_at f a b p (ys[p := xs ! a])"
    using i p by (simp add: split_at_def)
  ultimately show thesis using that r(1) p i(5) by blast
qed

subsection \<open>Sorting\<close>

definition sorted_range :: "(uint32 \<Rightarrow> uint32 \<Rightarrow> bool) \<Rightarrow> nat \<Rightarrow> nat \<Rightarrow> uint32 list \<Rightarrow> bool" where
  "sorted_range f a b xs \<longleftrightarrow> (\<forall>i j. a \<le> i \<longrightarrow> i < j \<longrightarrow> j < b \<longrightarrow> f (xs ! i) (xs ! j))"

text \<open>A permutation that keeps the entries outside of a range permutes the range.\<close>

lemma range_members:
  assumes m: "mset xs = mset ys" and out: "same_outside a b xs ys" and ab: "a \<le> b" "b \<le> length xs"
    and P: "\<forall>i. a \<le> i \<and> i < b \<longrightarrow> P (xs ! i)" and j: "a \<le> j" "j < b"
  shows "P (ys ! j)"
proof -
  have len: "length ys = length xs" using out by (simp add: same_outside_def)
  have t: "take a ys = take a xs" "drop b ys = drop b xs"
    using out ab by (auto simp: same_outside_def intro!: nth_equalityI)
  have split: "zs = take a zs @ take (b - a) (drop a zs) @ drop b zs" for zs :: "uint32 list"
    using ab(1) append_take_drop_id[of "b - a" "drop a zs"] by simp
  have "mset xs = mset (take a xs) + mset (take (b - a) (drop a xs)) + mset (drop b xs)"
    by (subst split[of xs]) (simp only: mset_append add.assoc)
  moreover have "mset ys = mset (take a xs) + mset (take (b - a) (drop a ys)) + mset (drop b xs)"
    by (subst split[of ys]) (simp only: mset_append add.assoc t)
  ultimately have "mset (take (b - a) (drop a xs)) = mset (take (b - a) (drop a ys))" using m by simp
  then have s: "set (take (b - a) (drop a xs)) = set (take (b - a) (drop a ys))" by (rule mset_eq_setD)
  have "take (b - a) (drop a ys) ! (j - a) = ys ! j" "j - a < length (take (b - a) (drop a ys))"
    using ab j len by simp_all
  then have "ys ! j \<in> set (take (b - a) (drop a ys))" by (metis nth_mem)
  then have "ys ! j \<in> set (take (b - a) (drop a xs))" unfolding s .
  then obtain i where "i < length (take (b - a) (drop a xs))" "take (b - a) (drop a xs) ! i = ys ! j"
    unfolding in_set_conv_nth by blast
  then have "i < b - a" "xs ! (a + i) = ys ! j" using ab by simp_all
  then show ?thesis using P[rule_format, of "a + i"] by simp
qed

lemma vsi_partition_ok:
  assumes total: "\<forall>x y. f x y \<or> f y x" and trans: "\<forall>x y z. f x y \<longrightarrow> f y z \<longrightarrow> f x z"
  shows "a \<le> b \<Longrightarrow> b \<le> length xs \<Longrightarrow>
    \<exists>p ys. vsi_partition f True (int a) (int b - 1) xs = Some (p, ys) \<and> mset ys = mset xs \<and>
      same_outside a b xs ys \<and> sorted_range f a b ys"
proof (induction "b - a" arbitrary: a b xs rule: less_induct)
  case less
  show ?case
  proof (cases "a + 1 < b")
    case False
    then have "\<not> int a < int b - 1" by linarith
    moreover have "sorted_range f a b xs" using False by (auto simp: sorted_range_def)
    ultimately show ?thesis by (subst vsi_partition.simps) (simp add: same_outside_def)
  next
    case True
    obtain p ys where s: "partition_loop f (xs ! a) a (b - 1) xs = Some (p, ys)" "p < length ys"
      "mset (ys[p := xs ! a]) = mset xs" "same_outside a b xs (ys[p := xs ! a])" "split_at f a b p (ys[p := xs ! a])"
      by (rule partition_once[OF total True less.prems(2)]) (rule that; assumption)
    let ?y = "ys[p := xs ! a]"
    have p: "a \<le> p" "p < b" "length ?y = length xs" "\<forall>i. a \<le> i \<and> i < p \<longrightarrow> f (?y ! i) (?y ! p)"
      "\<forall>i. p < i \<and> i < b \<longrightarrow> f (?y ! p) (?y ! i)" using s(4,5) by (auto simp: split_at_def same_outside_def)
    have L: "p - a < b - a" "a \<le> p" "p \<le> length ?y" using p less.prems(2) by linarith+
    obtain q1 z where z: "vsi_partition f True (int a) (int p - 1) ?y = Some (q1, z)" "mset z = mset ?y"
      "same_outside a p ?y z" "sorted_range f a p z" using less.hyps[OF L] by blast
    have lz: "length z = length xs" using z(3) p(3) by (simp add: same_outside_def)
    have R: "b - (p + 1) < b - a" "p + 1 \<le> b" "b \<le> length z" using p less.prems(2) lz by linarith+
    obtain q2 w where w: "vsi_partition f True (int (p + 1)) (int b - 1) z = Some (q2, w)" "mset w = mset z"
      "same_outside (p + 1) b z w" "sorted_range f (p + 1) b w" using less.hyps[OF R] by blast
    have lw: "length w = length xs" using w(3) lz by (simp add: same_outside_def)
    have n: "nat (int b - 1) = b - 1" "int a < int b - 1" using True by linarith+
    have rda: "rd xs a = Some (xs ! a)" using True less.prems(2) by simp
    have w1: "vsi_partition f True (int p + 1) (int b - 1) z = Some (q2, w)" using w(1) by (simp add: add.commute)
    have run: "vsi_partition f True (int a) (int b - 1) xs = Some (int p, w)"
      by (subst vsi_partition.simps) (simp add: n rda s(1)[simplified] s(2) z(1) w1)
    have out: "same_outside a b xs w"
      using s(4) same_outside_mono[OF z(3), of a b] same_outside_mono[OF w(3), of a b] p
      by (intro same_outside_trans[OF s(4)] same_outside_trans[of a b ?y z w]) simp_all
    have zp: "z ! i = ?y ! i" if "i < a \<or> p \<le> i" "i < length xs" for i using z(3) that p(3) by (auto simp: same_outside_def)
    have wz: "w ! i = z ! i" if "i \<le> p" for i using w(3) that p(2) less.prems(2) lz by (auto simp: same_outside_def)
    have pl: "p < length xs" using p(2) less.prems(2) by simp
    have key: "w ! p = ?y ! p" using wz[of p] zp[of p] pl by simp
    have left: "f (w ! i) (?y ! p)" if i: "a \<le> i" "i < p" for i
    proof -
      have "f (z ! i) (?y ! p)"
        by (rule range_members[of ?y z a p "\<lambda>v. f v (?y ! p)"]) (use z(2,3) L p(4) i in auto)
      then show ?thesis using wz[of i] i by simp
    qed
    have right: "f (?y ! p) (w ! i)" if i: "p + 1 \<le> i" "i < b" for i
    proof (rule range_members[of z w "p + 1" b "\<lambda>v. f (?y ! p) v"])
      show "\<forall>i. p + 1 \<le> i \<and> i < b \<longrightarrow> f (?y ! p) (z ! i)" using p(5) zp less.prems(2) by auto
    qed (use w(2,3) R i in auto)
    have "sorted_range f a b w" unfolding sorted_range_def
    proof (intro allI impI)
      fix i j assume ij: "a \<le> i" "i < j" "j < b"
      consider "j < p" | "j = p" | "p < j" "i \<le> p" | "p < i" by linarith
      then show "f (w ! i) (w ! j)"
      proof cases
        case 1
        then show ?thesis using z(4) ij wz[of i] wz[of j] by (simp add: sorted_range_def)
      next
        case 2
        then show ?thesis using left[of i] ij key by simp
      next
        case 3
        then have r: "f (?y ! p) (w ! j)" using right[of j] ij by simp
        show ?thesis
        proof (cases "i = p")
          case True
          then show ?thesis using r key by simp
        next
          case False
          then show ?thesis using left[of i] 3 ij r trans by (meson nat_less_le)
        qed
      next
        case 4
        then show ?thesis using w(4) ij by (simp add: sorted_range_def)
      qed
    qed
    then show ?thesis using run out z(2) w(2) s(3) by auto
  qed
qed


subsection \<open>Properties\<close>

text \<open>
  C32: with a total and transitive comparison the recursive call sorts the entries from \<open>a\<close> to
  before \<open>b\<close>: it ends, never leaves the array, permutes it, keeps every entry outside of the
  range, and leaves the range ordered. An empty range (\<open>right = left - 1\<close>, also -1) is
  unchanged.
\<close>

theorem partition_sorts:
  assumes "\<forall>x y. f x y \<or> f y x" and "\<forall>x y z. f x y \<longrightarrow> f y z \<longrightarrow> f x z"
    and "a \<le> b" and "b \<le> length xs"
  shows "\<exists>p ys. vsi_partition f True (int a) (int b - 1) xs = Some (p, ys) \<and> mset ys = mset xs \<and>
    same_outside a b xs ys \<and> sorted_range f a b ys"
  by (rule vsi_partition_ok[OF assms])

theorem partition_sorts_witness:
  "\<exists>p ys. vsi_partition (\<le>) True (int 0) (int 4 - 1) [3, 1, 2, 1, 0] = Some (p, ys) \<and>
    mset ys = mset [3, 1, 2, 1, 0] \<and> same_outside 0 4 [3, 1, 2, 1, 0] ys \<and> sorted_range (\<le>) 0 4 ys"
  by (rule partition_sorts) auto

text \<open>
  Without the recursion one call splits the range at the position it returns; this needs only a
  total comparison.
\<close>

theorem partition_splits:
  assumes "\<forall>x y. f x y \<or> f y x" and "a + 1 < b" and "b \<le> length xs"
  shows "\<exists>p ys. vsi_partition f False (int a) (int b - 1) xs = Some (int p, ys) \<and> mset ys = mset xs \<and>
    same_outside a b xs ys \<and> split_at f a b p ys \<and> ys ! p = xs ! a"
proof -
  obtain p ys where s: "partition_loop f (xs ! a) a (b - 1) xs = Some (p, ys)" "p < length ys"
    "mset (ys[p := xs ! a]) = mset xs" "same_outside a b xs (ys[p := xs ! a])" "split_at f a b p (ys[p := xs ! a])"
    by (rule partition_once[OF assms]) (rule that; assumption)
  have n: "nat (int b - 1) = b - 1" "int a < int b - 1" "rd xs a = Some (xs ! a)" using assms(2,3) by auto
  have "vsi_partition f False (int a) (int b - 1) xs = Some (int p, ys[p := xs ! a])"
    by (subst vsi_partition.simps) (simp add: n s(1)[simplified] s(2))
  then show ?thesis using s(2-5) by auto
qed

theorem partition_splits_witness:
  "\<exists>p ys. vsi_partition (\<le>) False (int 0) (int 3 - 1) [2, 1, 3] = Some (int p, ys) \<and>
    mset ys = mset [2, 1, 3] \<and> same_outside 0 3 [2, 1, 3] ys \<and> split_at (\<le>) 0 3 p ys \<and> ys ! p = [2, 1, 3] ! 0"
  by (rule partition_splits) auto

text \<open>
  With a strict comparison two equal elements keep the loop from moving: the call never ends.
\<close>

lemma partition_strict_stuck: "scan_high (<) 1 [1, 1] 0 1 = Some 1 \<and> scan_low (<) 1 [1, 1] 0 1 = Some 0"
  by (simp add: scan_high.simps scan_low.simps)

end
