(* ===== verification/Permute.thy ===== *)
theory Permute
  imports Dtype
begin

text \<open>
  Permutations of dimensions in \<^verbatim>\<open>src/tim/vx/internal/src/utils/vsi_nn_math.c\<close>:
  \<open>vsi_nn_Transpose\<close> moves the elements of a tensor in memory (the last dimension is the
  fastest one there), \<open>vsi_nn_InvertShape\<close>, \<open>vsi_nn_InvertPermuteShape\<close> and
  \<open>vsi_nn_SqueezeShape\<close> work on shapes.

  The local arrays of strides have \<open>VSI_NN_MAX_DIM_NUM\<close> (8) entries. A memory access outside
  of a buffer and a division by zero are \<open>None\<close>.
\<close>

definition VSI_NN_MAX_DIM_NUM :: nat where "VSI_NN_MAX_DIM_NUM = 8"

text \<open>The loop from the last dimension down; \<open>n\<close> is one more than the loop counter.\<close>

fun compute_stride_loop ::
  "vsi_size_t list \<Rightarrow> nat \<Rightarrow> vsi_size_t \<Rightarrow> vsi_size_t list \<Rightarrow> vsi_size_t list option" where
  "compute_stride_loop shape 0 s stride = Some stride"
| "compute_stride_loop shape (Suc i) s stride = do {
     stride' \<leftarrow> wr stride i s;
     v \<leftarrow> rd shape i;
     compute_stride_loop shape i (s * v) stride' }"

definition compute_stride :: "vsi_size_t list \<Rightarrow> nat \<Rightarrow> vsi_size_t list \<Rightarrow> vsi_size_t list option" where
  "compute_stride shape dim_num stride = compute_stride_loop shape dim_num 1 stride"

text \<open>
  The permuted shape. \<open>Some None\<close> is the early return on an entry of the permutation that is
  not a dimension.
\<close>

fun permuted_shape ::
  "vsi_size_t list \<Rightarrow> vsi_size_t \<Rightarrow> vsi_size_t list \<Rightarrow> nat \<Rightarrow> nat \<Rightarrow> vsi_size_t list
   \<Rightarrow> vsi_size_t list option option" where
  "permuted_shape shape dim_num perm i 0 dst_shape = Some (Some dst_shape)"
| "permuted_shape shape dim_num perm i (Suc n) dst_shape = do {
     p \<leftarrow> rd perm i;
     if p \<ge> dim_num then Some None
     else do {
       v \<leftarrow> rd shape (unat p);
       dst_shape' \<leftarrow> wr dst_shape i v;
       permuted_shape shape dim_num perm (Suc i) n dst_shape' } }"

text \<open>The position in the source of position \<open>i_t\<close> of the destination.\<close>

fun org_index ::
  "vsi_size_t list \<Rightarrow> vsi_size_t list \<Rightarrow> vsi_size_t list \<Rightarrow> nat \<Rightarrow> nat \<Rightarrow> vsi_size_t \<Rightarrow> vsi_size_t
   \<Rightarrow> vsi_size_t option" where
  "org_index dst_stride org_stride perm i 0 i_t i_org = Some i_org"
| "org_index dst_stride org_stride perm i (Suc n) i_t i_org = do {
     ds \<leftarrow> rd dst_stride i;
     p \<leftarrow> rd perm i;
     os \<leftarrow> rd org_stride (unat p);
     if ds = 0 then None
     else org_index dst_stride org_stride perm (Suc i) n (i_t mod ds) (i_org + i_t div ds * os) }"

function transpose_loop ::
  "vsi_size_t list \<Rightarrow> vsi_size_t list \<Rightarrow> vsi_size_t list \<Rightarrow> nat \<Rightarrow> uint32 \<Rightarrow> vsi_size_t \<Rightarrow> vsi_size_t
   \<Rightarrow> uint8 list \<Rightarrow> uint8 list \<Rightarrow> uint8 list option" where
  "transpose_loop dst_stride org_stride perm dim_num unit_bytes tsize i_dst data dst =
     (if i_dst < tsize then do {
        i_org \<leftarrow> org_index dst_stride org_stride perm 0 dim_num i_dst 0;
        dst' \<leftarrow> memcpy dst (unat (i_dst * unit_bytes)) data (unat (i_org * unit_bytes)) (unat unit_bytes);
        transpose_loop dst_stride org_stride perm dim_num unit_bytes tsize (i_dst + 1) data dst' }
      else Some dst)"
  by pat_completeness auto
termination
proof (relation "measure (\<lambda>(_, _, _, _, _, tsize, i_dst, _, _). unat tsize - unat i_dst)", goal_cases)
  case (2 dst_stride org_stride perm dim_num unit_bytes tsize i_dst data dst x xa)
  then have "unat i_dst < unat tsize" by (simp add: word_less_nat_alt)
  moreover have "unat (i_dst + 1) = unat i_dst + 1"
    using calculation unsigned_less[of tsize, where ?'a = nat]
    by (subst unat_add_no_overflow) simp_all
  ultimately show ?case by simp
qed simp

declare transpose_loop.simps [simp del]

definition Transpose ::
  "uint8 list \<Rightarrow> uint8 list \<Rightarrow> vsi_size_t list \<Rightarrow> nat \<Rightarrow> vsi_size_t list \<Rightarrow> vsi_nn_type
   \<Rightarrow> uint8 list option" where
  "Transpose dst data shape dim_num perm t =
     (if dim_num = 0 \<or> dim_num > VSI_NN_MAX_DIM_NUM \<or> dim_num = 1 then Some dst
      else do {
        r \<leftarrow> permuted_shape shape (of_nat dim_num) perm 0 dim_num (replicate VSI_NN_MAX_DIM_NUM 0);
        case r of
          None \<Rightarrow> Some dst
        | Some dst_shape \<Rightarrow> do {
            org_stride \<leftarrow> compute_stride shape dim_num (replicate VSI_NN_MAX_DIM_NUM 0);
            dst_stride \<leftarrow> compute_stride dst_shape dim_num (replicate VSI_NN_MAX_DIM_NUM 0);
            tsize \<leftarrow> ShapeProduct shape dim_num;
            transpose_loop dst_stride org_stride perm dim_num (type_get_bytes t) tsize 0 data dst } })"

subsection \<open>Shapes\<close>

fun invert_shape_loop ::
  "vsi_size_t list \<Rightarrow> nat \<Rightarrow> nat \<Rightarrow> nat \<Rightarrow> vsi_size_t list \<Rightarrow> vsi_size_t list option" where
  "invert_shape_loop inp dim_num i 0 out = Some out"
| "invert_shape_loop inp dim_num i (Suc n) out = do {
     v \<leftarrow> rd inp (dim_num - 1 - i);
     out' \<leftarrow> wr out i v;
     invert_shape_loop inp dim_num (Suc i) n out' }"

definition InvertShape :: "vsi_size_t list \<Rightarrow> nat \<Rightarrow> vsi_size_t list \<Rightarrow> vsi_size_t list option" where
  "InvertShape inp dim_num out = invert_shape_loop inp dim_num 0 dim_num out"

fun invert_permute_loop ::
  "vsi_size_t list \<Rightarrow> nat \<Rightarrow> nat \<Rightarrow> vsi_size_t list \<Rightarrow> vsi_size_t list option" where
  "invert_permute_loop inp i 0 out = Some out"
| "invert_permute_loop inp i (Suc n) out = do {
     p \<leftarrow> rd inp i;
     out' \<leftarrow> wr out (unat p) (of_nat i);
     invert_permute_loop inp (Suc i) n out' }"

definition InvertPermuteShape :: "vsi_size_t list \<Rightarrow> nat \<Rightarrow> vsi_size_t list \<Rightarrow> vsi_size_t list option" where
  "InvertPermuteShape inp dim_num out = invert_permute_loop inp 0 dim_num out"

text \<open>\<open>memmove\<close> of the entries from \<open>i\<close> to \<open>count\<close> down to \<open>start\<close>.\<close>

definition shift_down :: "vsi_size_t list \<Rightarrow> nat \<Rightarrow> nat \<Rightarrow> nat \<Rightarrow> vsi_size_t list option" where
  "shift_down shape start i count =
     (if count \<le> length shape
      then Some (take start shape @ drop i (take count shape) @ drop (start + (count - i)) shape) else None)"

function squeeze_loop ::
  "vsi_size_t list \<Rightarrow> nat \<Rightarrow> nat \<Rightarrow> nat \<Rightarrow> (vsi_size_t list \<times> nat) option" where
  "squeeze_loop shape i count start =
     (if i < count then do {
        v \<leftarrow> rd shape i;
        if v = 1 then squeeze_loop shape (i + 1) count start
        else if i > start then do {
          shape' \<leftarrow> shift_down shape start i count;
          squeeze_loop shape' (i + 1) (count - (i - start)) (start + (i - start)) }
        else squeeze_loop shape (i + 1) count (i + 1) }
      else Some (shape, count))"
  by pat_completeness auto
termination
  by (relation "measure (\<lambda>(_, i, count, _). count - i)") auto

declare squeeze_loop.simps [simp del]

definition SqueezeShape :: "vsi_size_t list \<Rightarrow> nat \<Rightarrow> (vsi_size_t list \<times> nat) option" where
  "SqueezeShape shape dim_num =
     (if dim_num = 1 then Some (shape, dim_num)
      else do {
        (shape', count) \<leftarrow> squeeze_loop shape 0 dim_num 0;
        if dim_num \<le> length shape'
        then Some (take count shape' @ replicate (dim_num - count) 0 @ drop dim_num shape', count)
        else None })"


subsection \<open>Positions in a shape\<close>

text \<open>
  The shape is a function \<open>S\<close> on the dimensions below \<open>n\<close>, the last one being the fastest.
  \<open>st S n j\<close> is the stride of dimension \<open>j\<close> and \<open>at S n c\<close> the position of the coordinates
  \<open>c\<close>.
\<close>

definition st :: "(nat \<Rightarrow> nat) \<Rightarrow> nat \<Rightarrow> nat \<Rightarrow> nat" where
  "st S n j = (\<Prod>k = Suc j..<n. S k)"

definition at_pos :: "(nat \<Rightarrow> nat) \<Rightarrow> nat \<Rightarrow> (nat \<Rightarrow> nat) \<Rightarrow> nat" where
  "at_pos S n c = (\<Sum>j<n. c j * st S n j)"

definition digit :: "(nat \<Rightarrow> nat) \<Rightarrow> nat \<Rightarrow> nat \<Rightarrow> nat \<Rightarrow> nat" where
  "digit S n x j = x div st S n j mod S j"

lemma tail_prod: "j < n \<Longrightarrow> (\<Prod>k = j..<n. S k) = S j * st S n j" for S :: "nat \<Rightarrow> nat"
  by (simp add: st_def prod.atLeast_Suc_lessThan)

lemma at_tail_less:
  assumes "\<forall>j < n. c j < S j"
  shows "i \<le> n \<Longrightarrow> (\<Sum>j = i..<n. c j * st S n j) < (\<Prod>k = i..<n. S k)"
proof (induction "n - i" arbitrary: i)
  case (Suc d)
  have i: "i < n" using Suc.hyps(2) by simp
  have IH: "(\<Sum>j = Suc i..<n. c j * st S n j) < st S n i"
    using Suc.hyps(1)[of "Suc i"] Suc.hyps(2) i by (simp add: st_def)
  have "Suc (c i) * st S n i \<le> S i * st S n i" using assms i by (intro mult_le_mono1) (simp add: Suc_leI)
  then show ?case using IH i by (simp add: tail_prod sum.atLeast_Suc_lessThan)
qed simp

lemma at_pos_less: "\<forall>j < n. c j < S j \<Longrightarrow> at_pos S n c < (\<Prod>k<n. S k)"
  using at_tail_less[of n c S 0] by (simp add: at_pos_def atLeast0LessThan)

lemma digits_tail:
  "i \<le> n \<Longrightarrow> (\<Sum>j = i..<n. digit S n x j * st S n j) = x mod (\<Prod>k = i..<n. S k)"
proof (induction "n - i" arbitrary: i)
  case (Suc d)
  have i: "i < n" using Suc.hyps(2) by simp
  have "(\<Sum>j = Suc i..<n. digit S n x j * st S n j) = x mod st S n i"
    using Suc.hyps(1)[of "Suc i"] Suc.hyps(2) i by (simp add: st_def)
  moreover have "x mod (S i * st S n i) = digit S n x i * st S n i + x mod st S n i"
    using mod_mult2_eq[of x "st S n i" "S i"] by (simp add: digit_def mult.commute)
  ultimately show ?case using i by (simp add: tail_prod sum.atLeast_Suc_lessThan)
qed simp

lemma at_pos_digits: "x < (\<Prod>k<n. S k) \<Longrightarrow> at_pos S n (digit S n x) = x"
  using digits_tail[of 0 n S x] by (simp add: at_pos_def atLeast0LessThan)

lemma digit_less: "0 < S j \<Longrightarrow> digit S n x j < S j"
  by (simp add: digit_def)

lemma digit_at_pos:
  assumes c: "\<forall>j < n. c j < S j" and i: "i < n"
  shows "digit S n (at_pos S n c) i = c i"
proof -
  let ?t = "\<lambda>j. c j * st S n j"
  have pos: "0 < st S n i" using c by (auto simp: st_def intro!: prod_pos)
  have split: "at_pos S n c = (\<Sum>j<i. ?t j) + (?t i + (\<Sum>j = Suc i..<n. ?t j))"
  proof -
    have "{..<n} = {..<i} \<union> {i..<n}" using i by auto
    moreover have "(\<Sum>j \<in> {..<i} \<union> {i..<n}. ?t j) = (\<Sum>j<i. ?t j) + (\<Sum>j = i..<n. ?t j)"
      by (intro sum.union_disjoint) auto
    ultimately show ?thesis using i by (simp add: at_pos_def sum.atLeast_Suc_lessThan)
  qed
  have "S i * st S n i dvd ?t j" if "j < i" for j
  proof -
    have "{Suc j..<n} = {Suc j..<i} \<union> {i..<n}" using that i by auto
    moreover have "(\<Prod>k \<in> {Suc j..<i} \<union> {i..<n}. S k) = (\<Prod>k = Suc j..<i. S k) * (\<Prod>k = i..<n. S k)"
      by (intro prod.union_disjoint) auto
    ultimately have "st S n j = (\<Prod>k = Suc j..<i. S k) * (S i * st S n i)"
      unfolding st_def[of S n j] using tail_prod[OF i, of S] by simp
    then show ?thesis by simp
  qed
  then have "S i * st S n i dvd (\<Sum>j<i. ?t j)" by (intro dvd_sum) simp
  then obtain q where q: "(\<Sum>j<i. ?t j) = S i * st S n i * q" by (auto elim: dvdE)
  have low: "(\<Sum>j = Suc i..<n. ?t j) < st S n i" using at_tail_less[OF c, of "Suc i"] i by (simp add: st_def)
  have "at_pos S n c = (S i * q + c i) * st S n i + (\<Sum>j = Suc i..<n. ?t j)"
    unfolding split q by (simp add: algebra_simps)
  then have "at_pos S n c div st S n i = S i * q + c i"
    using low pos by (simp add: div_add1_eq)
  then show ?thesis using c i by (simp add: digit_def)
qed

text \<open>Renaming the dimensions by a permutation.\<close>

lemma sum_permute: "bij_betw P {..<n} {..<n} \<Longrightarrow> (\<Sum>i<n. g (P i)) = (\<Sum>j<n. g j)" for g :: "nat \<Rightarrow> nat"
  by (rule sum.reindex_bij_betw)

lemma prod_permute: "bij_betw P {..<n} {..<n} \<Longrightarrow> (\<Prod>i<n. g (P i)) = (\<Prod>j<n. g j)" for g :: "nat \<Rightarrow> nat"
  by (rule prod.reindex_bij_betw)


subsection \<open>What the loops compute\<close>

definition dim :: "vsi_size_t list \<Rightarrow> nat \<Rightarrow> nat" where
  "dim xs j = unat (xs ! j)"

lemma compute_stride_loop_ok:
  assumes len: "n \<le> length shape" "n \<le> length stride" and small: "(\<Prod>k<n. dim shape k) < 2 ^ 32"
    and pos: "\<forall>k < n. 0 < dim shape k"
  shows "i \<le> n \<Longrightarrow> unat s = (\<Prod>k = i..<n. dim shape k) \<Longrightarrow> length a = length stride \<Longrightarrow>
    \<forall>j. i \<le> j \<and> j < n \<longrightarrow> dim a j = st (dim shape) n j \<Longrightarrow>
    \<exists>r. compute_stride_loop shape i s a = Some r \<and> length r = length stride \<and>
      (\<forall>j < n. dim r j = st (dim shape) n j)"
proof (induction i arbitrary: s a)
  case (Suc i)
  have i: "i < n" using Suc.prems(1) by simp
  have "(\<Prod>k = i..<n. dim shape k) dvd (\<Prod>k<n. dim shape k)"
    by (intro prod_dvd_prod_subset) auto
  moreover have "0 < (\<Prod>k<n. dim shape k)" using pos by (intro prod_pos) simp
  ultimately have "(\<Prod>k = i..<n. dim shape k) \<le> (\<Prod>k<n. dim shape k)" by (rule dvd_imp_le)
  then have "(\<Prod>k = i..<n. dim shape k) < 2 ^ 32" using small by linarith
  then have "unat s * unat (shape ! i) < 2 ^ 32"
    using i Suc.prems(2) tail_prod[OF i, of "dim shape"] by (simp add: st_def dim_def mult.commute)
  then have u: "unat (s * shape ! i) = (\<Prod>k = i..<n. dim shape k)"
    using Suc.prems(2) tail_prod[OF i, of "dim shape"]
    by (subst unat_mult_no_overflow) (simp_all add: st_def dim_def mult.commute)
  have "\<forall>j. i \<le> j \<and> j < n \<longrightarrow> dim (a[i := s]) j = st (dim shape) n j"
  proof (intro allI impI)
    fix j assume j: "i \<le> j \<and> j < n"
    show "dim (a[i := s]) j = st (dim shape) n j"
    proof (cases "j = i")
      case True
      then show ?thesis using Suc.prems(2,3) i len(2) by (simp add: dim_def st_def)
    next
      case False
      then have "Suc i \<le> j" using j by simp
      then have "dim a j = st (dim shape) n j" using Suc.prems(4) j by blast
      then show ?thesis using False by (simp add: dim_def[of _ j])
    qed
  qed
  then show ?case using Suc.IH[of "s * shape ! i" "a[i := s]"] u i Suc.prems(3) len by simp
qed simp

lemma compute_stride_ok:
  assumes "n \<le> length shape" "n \<le> length stride" "(\<Prod>k<n. dim shape k) < 2 ^ 32" "\<forall>k < n. 0 < dim shape k"
  obtains r where "compute_stride shape n stride = Some r" "length r = length stride"
    "\<forall>j < n. dim r j = st (dim shape) n j"
  using compute_stride_loop_ok[OF assms, of n 1 stride] by (auto simp: compute_stride_def)

lemma permuted_shape_ok:
  assumes len: "n \<le> length perm" "n \<le> length dst" and p: "\<forall>i < n. dim perm i < n" "n \<le> length shape" "n < 2 ^ 32"
  shows "i + m = n \<Longrightarrow> length a = length dst \<Longrightarrow> \<forall>j < i. a ! j = shape ! dim perm j \<Longrightarrow>
    \<exists>r. permuted_shape shape (of_nat n) perm i m a = Some (Some r) \<and> length r = length dst \<and>
      (\<forall>j < n. r ! j = shape ! dim perm j)"
proof (induction m arbitrary: i a)
  case (Suc m)
  have i: "i < n" using Suc.prems(1) by simp
  have "unat (of_nat n :: vsi_size_t) = n" using p(3) by (simp add: unat_of_nat take_bit_nat_eq_self)
  then have ge: "\<not> of_nat n \<le> perm ! i" using p(1)[rule_format, OF i] by (simp add: word_le_nat_alt dim_def)
  have "\<forall>j < Suc i. a[i := shape ! dim perm i] ! j = shape ! dim perm j"
    using Suc.prems i len(2) by (auto simp: less_Suc_eq nth_list_update)
  moreover have "dim perm i < length shape" using p(1,2) i by (meson less_le_trans)
  ultimately show ?case
    using Suc.IH[of "Suc i" "a[i := shape ! dim perm i]"] Suc.prems i len ge by (simp add: dim_def)
qed auto

lemma mod_mult_div: "x mod (a * b) div b = x div b mod a" for a b :: nat
  by (cases "b = 0") (simp_all add: mod_mult2_eq[of x b a] mult.commute[of a b] div_add1_eq)

text \<open>The source position of a destination position is computed digit by digit.\<close>

lemma org_index_ok:
  assumes len: "n \<le> length ds" "n \<le> length os" "n \<le> length perm" and P: "\<forall>i < n. dim perm i < n"
    and D: "\<forall>i < n. dim ds i = st D n i" "\<forall>i < n. 0 < D i"
    and small: "(\<Sum>i<n. digit D n x i * dim os (dim perm i)) < 2 ^ 32"
  shows "i + m = n \<Longrightarrow> unat i_t = x mod (\<Prod>k = i..<n. D k) \<Longrightarrow>
    unat acc = (\<Sum>i<i. digit D n x i * dim os (dim perm i)) \<Longrightarrow>
    \<exists>r. org_index ds os perm i m i_t acc = Some r \<and> unat r = (\<Sum>i<n. digit D n x i * dim os (dim perm i))"
proof (induction m arbitrary: i i_t acc)
  case (Suc m)
  let ?g = "\<lambda>i. digit D n x i * dim os (dim perm i)"
  have i: "i < n" using Suc.prems(1) by simp
  have pos: "0 < st D n i" using D(2) by (auto simp: st_def intro!: prod_pos)
  have nz: "ds ! i \<noteq> 0"
  proof
    assume "ds ! i = 0"
    then have "dim ds i = 0" by (simp add: dim_def)
    then show False using D(1) i pos by simp
  qed
  have it: "unat i_t = x mod (D i * st D n i)" using Suc.prems(2) tail_prod[OF i, of D] by simp
  have ud: "unat (ds ! i) = st D n i" using D(1) i by (simp add: dim_def)
  have q: "unat (i_t div ds ! i) = digit D n x i"
    using it by (simp add: unat_div ud digit_def mod_mult_div)
  have r: "unat (i_t mod ds ! i) = x mod (\<Prod>k = Suc i..<n. D k)"
    using it by (simp add: unat_mod ud st_def[symmetric] mod_mod_cancel)
  have "(\<Sum>j<Suc i. ?g j) \<le> (\<Sum>j<n. ?g j)" using i by (intro sum_mono2) auto
  then have le: "(\<Sum>j<i. ?g j) + ?g i < 2 ^ 32" using small by simp
  have m: "unat (i_t div ds ! i * os ! dim perm i) = ?g i"
    using le q by (subst unat_mult_no_overflow) (simp_all add: dim_def)
  have a: "unat (acc + i_t div ds ! i * os ! dim perm i) = (\<Sum>j<Suc i. ?g j)"
    using le m Suc.prems(3) by (subst unat_add_no_overflow) simp_all
  have "dim perm i < length os" using P i len(2) by (meson less_le_trans)
  then show ?case
    using Suc.IH[of "Suc i" "i_t mod ds ! i" "acc + i_t div ds ! i * os ! dim perm i"] Suc.prems(1) r a i len nz
    by (simp add: dim_def)
qed simp


subsection \<open>Transposition\<close>

definition block :: "nat \<Rightarrow> nat \<Rightarrow> uint8 list \<Rightarrow> uint8 list" where
  "block u x l = take u (drop (x * u) l)"

lemma memcpy_block:
  assumes "Suc x * u \<le> length dst" "Suc y * u \<le> length src"
  obtains dst' where "memcpy dst (x * u) src (y * u) u = Some dst'" "length dst' = length dst"
    "block u x dst' = block u y src" "\<forall>z. z \<noteq> x \<longrightarrow> block u z dst' = block u z dst"
proof -
  define B where "B = block u y src"
  let ?d = "take (x * u) dst @ B @ drop (x * u + u) dst"
  have a: "x * u + u \<le> length dst" "y * u + u \<le> length src" using assms by simp_all
  have l: "length B = u" using a(2) by (simp add: B_def block_def)
  have m: "memcpy dst (x * u) src (y * u) u = Some ?d"
    using a by (simp add: memcpy_def block_def B_def)
  have p: "length (take (x * u) dst @ B) = x * u + u" using a(1) l by simp
  have "block u z ?d = block u z dst" if z: "z \<noteq> x" for z
  proof (cases "z < x")
    case True
    then have "Suc z * u \<le> x * u" by (intro mult_le_mono1) simp
    then have "z * u + u \<le> x * u" by simp
    then have "take (z * u + u) ?d = take (z * u + u) dst" using a(1) by simp
    then have "drop (z * u) (take (z * u + u) ?d) = drop (z * u) (take (z * u + u) dst)" by simp
    then show ?thesis by (simp only: block_def drop_take diff_add_inverse)
  next
    case False
    then have "Suc x * u \<le> z * u" using z by (intro mult_le_mono1) simp
    then have le: "x * u + u \<le> z * u" by simp
    have "drop (z * u) ?d = drop (z * u) dst"
      unfolding append_assoc[symmetric] drop_append p using le a(1) l False by simp
    then show ?thesis by (simp only: block_def)
  qed
  moreover have "block u x ?d = B" using a l by (simp add: block_def)
  moreover have "length ?d = length dst" using a l by simp
  ultimately show thesis using that[of ?d] m unfolding B_def by blast
qed

lemma transpose_loop_ok:
  assumes f: "\<And>x. x < N \<Longrightarrow> \<exists>r. org_index ds os perm 0 n (of_nat x) 0 = Some r \<and> unat r = f x \<and> f x < N"
    and N: "unat sz = N" "N * unat u < 2 ^ 32" "N < 2 ^ 32" and len: "N * unat u \<le> length dst" "N * unat u \<le> length data"
  shows "unat i \<le> N \<Longrightarrow> length cur = length dst \<Longrightarrow> \<forall>x < unat i. block (unat u) x cur = block (unat u) (f x) data \<Longrightarrow>
    \<exists>r. transpose_loop ds os perm n u sz i data cur = Some r \<and> length r = length dst \<and>
      (\<forall>x < N. block (unat u) x r = block (unat u) (f x) data)"
proof (induction "N - unat i" arbitrary: i cur)
  case 0
  then have "unat i = N" by simp
  then have "\<not> i < sz" using N(1) by (simp add: word_less_nat_alt)
  then show ?case using 0 by (subst transpose_loop.simps) simp
next
  case (Suc d)
  let ?u = "unat u"
  have i: "unat i < N" using Suc.hyps(2) by simp
  then have lt: "i < sz" using N(1) by (simp add: word_less_nat_alt)
  obtain r where r: "org_index ds os perm 0 n i 0 = Some r" "unat r = f (unat i)" "f (unat i) < N"
    using f[OF i] by auto
  have b: "Suc x * ?u \<le> N * ?u" if "x < N" for x using that by (intro mult_le_mono1) simp
  have small: "x * ?u < 2 ^ 32" if lt: "x < N" for x
    using b[OF lt] N(2) unfolding mult_Suc by linarith
  have "unat r < N" using r(2,3) by simp
  then have r_small: "unat r * ?u < 2 ^ 32" by (rule small)
  have m1: "unat (i * u) = unat i * ?u" using small[OF i] by (intro unat_mult_no_overflow) simp
  have m2: "unat (r * u) = unat r * ?u" using r_small by (intro unat_mult_no_overflow) simp
  have "Suc (unat i) * ?u \<le> length cur" using b[OF i] len(1) Suc.prems(2) by linarith
  moreover have "Suc (unat r) * ?u \<le> length data" using b[OF r(3)] len(2) unfolding r(2) by linarith
  ultimately obtain c where c: "memcpy cur (unat i * ?u) data (unat r * ?u) ?u = Some c" "length c = length cur"
    "block ?u (unat i) c = block ?u (unat r) data" "\<forall>z. z \<noteq> unat i \<longrightarrow> block ?u z c = block ?u z cur"
    by (rule memcpy_block) (rule that; assumption)
  have i1: "unat (i + 1) = unat i + 1" using i N(3) by (subst unat_add_no_overflow) simp_all
  have "\<forall>x < unat (i + 1). block ?u x c = block ?u (f x) data"
    using Suc.prems(3) c(3,4) r(2) i1 by (simp add: less_Suc_eq)
  then have "\<exists>r. transpose_loop ds os perm n u sz (i + 1) data c = Some r \<and> length r = length dst \<and>
      (\<forall>x < N. block ?u x r = block ?u (f x) data)"
    using Suc.hyps(1)[of "i + 1" c] Suc.hyps(2) Suc.prems(2) c(2) i i1 by simp
  then show ?case using lt r(1) c(1) m1 m2 by (subst transpose_loop.simps) simp
qed

text \<open>A permutation of the first \<open>n\<close> dimensions and a buffer that holds the tensor.\<close>

definition perm_ok :: "nat \<Rightarrow> vsi_size_t list \<Rightarrow> bool" where
  "perm_ok n perm \<longleftrightarrow> 2 \<le> n \<and> n \<le> VSI_NN_MAX_DIM_NUM \<and> n \<le> length perm \<and> bij_betw (dim perm) {..<n} {..<n}"

definition fits :: "nat \<Rightarrow> vsi_size_t list \<Rightarrow> vsi_nn_type \<Rightarrow> uint8 list \<Rightarrow> bool" where
  "fits n shape t buf \<longleftrightarrow> n \<le> length shape \<and> (\<forall>k < n. 0 < dim shape k) \<and>
     (\<Prod>k<n. dim shape k) * unat (type_get_bytes t) < 2 ^ 32 \<and> (\<Prod>k<n. dim shape k) < 2 ^ 32 \<and>
     (\<Prod>k<n. dim shape k) * unat (type_get_bytes t) \<le> length buf"

lemma perm_okD:
  assumes "perm_ok n perm"
  shows "n \<le> 8" "2 \<le> n" "n \<le> length perm" "bij_betw (dim perm) {..<n} {..<n}" "\<forall>i < n. dim perm i < n"
    "inj_on (dim perm) {..<n}"
  using assms by (auto simp: perm_ok_def VSI_NN_MAX_DIM_NUM_def bij_betw_def)

text \<open>Renaming coordinates: \<open>e\<close> on the permuted shape comes from some \<open>d\<close> on the shape.\<close>

lemma bij_coords:
  fixes P :: "nat \<Rightarrow> nat"
  assumes "bij_betw P {..<n} {..<n}"
  obtains d where "\<forall>i < n. d (P i) = (e i :: nat)"
proof -
  have "\<forall>i < n. e (inv_into {..<n} P (P i)) = e i"
    using bij_betw_inv_into_left[OF assms] by simp
  then show thesis by (intro that[of "\<lambda>j. e (inv_into {..<n} P j)"]) simp
qed

lemma bij_all:
  fixes P :: "nat \<Rightarrow> nat"
  assumes "bij_betw P {..<n} {..<n}"
  shows "(\<forall>i < n. Q (P i)) \<longleftrightarrow> (\<forall>j < n. Q j)"
proof -
  have "{..<n} = P ` {..<n}" using assms by (simp add: bij_betw_def)
  then have "(\<forall>j \<in> {..<n}. Q j) \<longleftrightarrow> (\<forall>i \<in> {..<n}. Q (P i))" by (metis (no_types, lifting) ball_simps(9))
  then show ?thesis by auto
qed

text \<open>Coordinates \<open>d\<close> have the same position weights under the permuted strides.\<close>

lemma at_pos_permute:
  assumes P: "bij_betw P {..<n} {..<n}" and d: "\<forall>i < n. d (P i) = e i"
  shows "(\<Sum>i<n. e i * st S n (P i)) = at_pos S n d"
proof -
  have "(\<Sum>i<n. e i * st S n (P i)) = (\<Sum>i<n. (\<lambda>j. d j * st S n j) (P i))" using d by simp
  then show ?thesis using sum_permute[OF P, of "\<lambda>j. d j * st S n j"] by (simp add: at_pos_def)
qed

lemma num_elems_prod:
  assumes "n \<le> length shape"
  shows "num_elems (take n shape) = (\<Prod>k<n. dim shape k)"
proof -
  have "num_elems (take n shape) = (\<Prod>k = 0..<n. map unat (take n shape) ! k)"
    using assms by (simp add: num_elems_def prod.list_conv_set_nth)
  also have "\<dots> = (\<Prod>k<n. dim shape k)"
    using assms by (intro prod.cong) (auto simp: dim_def)
  finally show ?thesis .
qed

lemma ShapeProduct_exact:
  assumes n: "n \<le> length shape" and pos: "\<forall>k < n. 0 < dim shape k" and small: "(\<Prod>k<n. dim shape k) < 2 ^ 32"
  obtains p where "ShapeProduct shape n = Some p" "unat p = (\<Prod>k<n. dim shape k)"
proof -
  have "shape ! k \<noteq> 0" if k: "k < n" for k using pos[rule_format, OF k] by (auto simp: dim_def)
  then have "0 \<notin> set (take n shape)" using n by (auto simp: in_set_conv_nth)
  then show thesis
    using shape_product_loop_eq[of 0 n shape 1] that n small by (auto simp: ShapeProduct_def num_elems_prod)
qed

text \<open>What \<open>Transpose\<close> copies: block \<open>x\<close> comes from the source position of its digits.\<close>

lemma Transpose_blocks:
  assumes p: "perm_ok n perm" and f: "fits n shape t data"
    and len: "(\<Prod>k<n. dim shape k) * unat (type_get_bytes t) \<le> length dst"
  defines "D \<equiv> \<lambda>i. dim shape (dim perm i)"
  obtains r where "Transpose dst data shape n perm t = Some r" "length r = length dst"
    "\<forall>x < (\<Prod>k<n. dim shape k). block (unat (type_get_bytes t)) x r =
       block (unat (type_get_bytes t)) (\<Sum>i<n. digit D n x i * st (dim shape) n (dim perm i)) data"
proof -
  let ?S = "dim shape" and ?P = "dim perm" and ?N = "\<Prod>k<n. dim shape k" and ?u = "type_get_bytes t"
  note P = perm_okD[OF p]
  have S: "n \<le> length shape" "\<forall>k < n. 0 < ?S k" "?N * unat ?u < 2 ^ 32" "?N < 2 ^ 32" "?N * unat ?u \<le> length data"
    using f by (auto simp: fits_def)
  obtain ds where ds: "permuted_shape shape (of_nat n) perm 0 n (replicate 8 0) = Some (Some ds)"
    "length ds = 8" "\<forall>j < n. ds ! j = shape ! dim perm j"
    using permuted_shape_ok[of n perm "replicate 8 0" shape 0 n "replicate 8 0"] P S by auto
  have D: "\<forall>j < n. dim ds j = D j" using ds(3) by (simp add: dim_def D_def)
  have st_eq: "st (dim ds) n j = st D n j" for j using D by (simp add: st_def)
  have N: "(\<Prod>k<n. dim ds k) = ?N" using D prod_permute[OF P(4), of ?S] by (simp add: D_def)
  have Dpos: "\<forall>i < n. 0 < D i" using S(2) P(5) by (simp add: D_def)
  obtain os where os: "compute_stride shape n (replicate 8 0) = Some os" "length os = 8" "\<forall>j < n. dim os j = st ?S n j"
    using compute_stride_ok[of n shape "replicate 8 0"] S P(1) by auto
  obtain dss where dss: "compute_stride ds n (replicate 8 0) = Some dss" "length dss = 8" "\<forall>j < n. dim dss j = st D n j"
    using compute_stride_ok[of n ds "replicate 8 0"] S P(1) ds(2) N D Dpos st_eq by auto
  obtain sz where sz: "ShapeProduct shape n = Some sz" "unat sz = ?N"
    by (rule ShapeProduct_exact[OF S(1,2,4)]) (rule that; assumption)
  let ?f = "\<lambda>x. \<Sum>i<n. digit D n x i * st ?S n (?P i)"
  have bound: "?f x < ?N" for x
  proof -
    obtain d where d: "\<forall>i < n. d (?P i) = digit D n x i" by (rule bij_coords[OF P(4)])
    have "\<forall>i < n. d (?P i) < ?S (?P i)" using d Dpos digit_less[of D] by (simp add: D_def)
    then have "\<forall>j < n. d j < ?S j" using bij_all[OF P(4), of "\<lambda>j. d j < ?S j"] by simp
    then show ?thesis using at_pos_permute[OF P(4) d, of ?S] at_pos_less[of n d ?S] by simp
  qed
  have idx: "\<exists>r. org_index dss os perm 0 n (of_nat x) 0 = Some r \<and> unat r = ?f x \<and> ?f x < ?N" if x: "x < ?N" for x
  proof -
    have eq: "(\<Sum>i<n. digit D n x i * dim os (?P i)) = ?f x" using os(3) P(5) by simp
    have ux: "unat (of_nat x :: vsi_size_t) = x" using x S(4) by (simp add: unat_of_nat take_bit_nat_eq_self)
    have DN: "(\<Prod>k = 0..<n. D k) = ?N" using N D by (simp add: atLeast0LessThan)
    show ?thesis
      using org_index_ok[of n dss os perm D x 0 n "of_nat x" 0] dss os P Dpos bound[of x] S(4) eq ux DN x
      by simp
  qed
  have "\<exists>r. transpose_loop dss os perm n ?u sz 0 data dst = Some r \<and> length r = length dst \<and>
      (\<forall>x < ?N. block (unat ?u) x r = block (unat ?u) (?f x) data)"
    by (rule transpose_loop_ok[where N = ?N and f = ?f]) (use idx sz S len in auto)
  then obtain r where "transpose_loop dss os perm n ?u sz 0 data dst = Some r" "length r = length dst"
    "\<forall>x < ?N. block (unat ?u) x r = block (unat ?u) (?f x) data" by blast
  then show thesis
    using that[of r] P(1,2) ds(1) os(1) dss(1) sz(1) by (simp add: Transpose_def VSI_NN_MAX_DIM_NUM_def)
qed

text \<open>In coordinates: the element at \<open>d\<close> goes to the position of \<open>d\<close> with its dimensions permuted.\<close>

lemma Transpose_coords:
  assumes p: "perm_ok n perm" and f: "fits n shape t data"
    and len: "(\<Prod>k<n. dim shape k) * unat (type_get_bytes t) \<le> length dst"
  obtains r where "Transpose dst data shape n perm t = Some r" "length r = length dst"
    "\<forall>d. (\<forall>j < n. d j < dim shape j) \<longrightarrow>
       block (unat (type_get_bytes t)) (at_pos (\<lambda>i. dim shape (dim perm i)) n (\<lambda>i. d (dim perm i))) r =
       block (unat (type_get_bytes t)) (at_pos (dim shape) n d) data"
proof -
  let ?S = "dim shape" and ?P = "dim perm" and ?u = "type_get_bytes t"
  let ?D = "\<lambda>i. ?S (?P i)"
  note P = perm_okD[OF p]
  obtain r where r: "Transpose dst data shape n perm t = Some r" "length r = length dst"
    "\<forall>x < (\<Prod>k<n. ?S k). block (unat ?u) x r =
       block (unat ?u) (\<Sum>i<n. digit ?D n x i * st ?S n (?P i)) data"
    by (rule Transpose_blocks[OF p f len]) (rule that; assumption)
  have "block (unat ?u) (at_pos ?D n (\<lambda>i. d (?P i))) r = block (unat ?u) (at_pos ?S n d) data"
    if d: "\<forall>j < n. d j < ?S j" for d
  proof -
    let ?e = "\<lambda>i. d (?P i)"
    have e: "\<forall>i < n. ?e i < ?D i" using d P(5) by simp
    have x: "at_pos ?D n ?e < (\<Prod>k<n. ?S k)" using at_pos_less[OF e] prod_permute[OF P(4), of ?S] by simp
    have "(\<Sum>i<n. digit ?D n (at_pos ?D n ?e) i * st ?S n (?P i)) = (\<Sum>i<n. ?e i * st ?S n (?P i))"
      using digit_at_pos[OF e] by simp
    also have "\<dots> = at_pos ?S n d" by (rule at_pos_permute[OF P(4)]) simp
    finally show ?thesis using r(3) x by simp
  qed
  then show thesis using that[OF r(1,2)] by blast
qed

subsection \<open>Inverse permutation and the way back\<close>

lemma invert_permute_loop_ok:
  assumes len: "n \<le> length perm" and P: "\<forall>i < n. dim perm i < length out" "inj_on (dim perm) {..<n}"
  shows "i + m = n \<Longrightarrow> length a = length out \<Longrightarrow> \<forall>j < i. a ! dim perm j = of_nat j \<Longrightarrow>
    \<exists>r. invert_permute_loop perm i m a = Some r \<and> length r = length out \<and> (\<forall>j < n. r ! dim perm j = of_nat j)"
proof (induction m arbitrary: i a)
  case (Suc m)
  have i: "i < n" using Suc.prems(1) by simp
  have ne: "dim perm i \<noteq> dim perm j" if lt: "j < i" for j
    using inj_onD[OF P(2), of i j] lt i by auto
  have "\<forall>j < Suc i. a[dim perm i := of_nat i] ! dim perm j = of_nat j"
    using Suc.prems P(1) i ne by (auto simp: less_Suc_eq)
  then show ?case
    using Suc.IH[of "Suc i" "a[dim perm i := of_nat i]"] Suc.prems i len P(1) by (simp add: dim_def)
qed auto

lemma InvertPermuteShape_ok:
  assumes p: "perm_ok n perm" and len: "n \<le> length out"
  obtains inv where "InvertPermuteShape perm n out = Some inv" "length inv = length out"
    "\<forall>i < n. dim inv (dim perm i) = i" "perm_ok n inv"
proof -
  note P = perm_okD[OF p]
  have "\<forall>i < n. dim perm i < length out" using P(5) len by (meson less_le_trans)
  then obtain r where r: "InvertPermuteShape perm n out = Some r" "length r = length out"
    "\<forall>j < n. r ! dim perm j = of_nat j"
    using invert_permute_loop_ok[of n perm out 0 n out] P(3,6) by (auto simp: InvertPermuteShape_def)
  have inv: "dim r (dim perm i) = i" if i: "i < n" for i
    using r(3) i P(1) by (simp add: dim_def unat_of_nat take_bit_nat_eq_self)
  have "\<forall>j < n. dim r j = inv_into {..<n} (dim perm) j"
    using inv bij_all[OF P(4), of "\<lambda>j. dim r j = inv_into {..<n} (dim perm) j"]
      bij_betw_inv_into_left[OF P(4)] by simp
  then have "bij_betw (dim r) {..<n} {..<n}"
    using bij_betw_inv_into[OF P(4)] bij_betw_cong[of "{..<n}" "dim r" "inv_into {..<n} (dim perm)" "{..<n}"]
    by simp
  then have "perm_ok n r" using P(1,2) r(2) len by (simp add: perm_ok_def VSI_NN_MAX_DIM_NUM_def)
  then show thesis using that[OF r(1,2)] inv by blast
qed

lemma blocks_eq:
  "(\<forall>x < N. block u x a = block u x b) \<Longrightarrow> take (N * u) a = take (N * u) b"
proof (induction N)
  case (Suc N)
  have "take (Suc N * u) l = take (N * u) l @ block u N l" for l :: "uint8 list"
    using take_add[of "N * u" u l] by (simp add: block_def add.commute)
  then show ?case using Suc by (simp add: less_Suc_eq)
qed simp

definition permuted :: "nat \<Rightarrow> vsi_size_t list \<Rightarrow> vsi_size_t list \<Rightarrow> vsi_size_t list" where
  "permuted n perm shape = map (\<lambda>i. shape ! dim perm i) [0..<n]"

lemma length_permuted [simp]: "length (permuted n perm shape) = n"
  by (simp add: permuted_def)

lemma dim_permuted [simp]: "i < n \<Longrightarrow> dim (permuted n perm shape) i = dim shape (dim perm i)"
  by (simp add: dim_def permuted_def)

definition num_bytes :: "nat \<Rightarrow> vsi_size_t list \<Rightarrow> vsi_nn_type \<Rightarrow> nat" where
  "num_bytes n shape t = (\<Prod>k<n. dim shape k) * unat (type_get_bytes t)"

lemma fits_permuted:
  assumes p: "perm_ok n perm" and f: "fits n shape t data" and len: "num_bytes n shape t \<le> length r"
  shows "fits n (permuted n perm shape) t r" "(\<Prod>k<n. dim (permuted n perm shape) k) = (\<Prod>k<n. dim shape k)"
proof -
  note P = perm_okD[OF p]
  show N: "(\<Prod>k<n. dim (permuted n perm shape) k) = (\<Prod>k<n. dim shape k)"
    using prod_permute[OF P(4), of "dim shape"] by simp
  show "fits n (permuted n perm shape) t r"
    using f P(5) len unfolding fits_def N num_bytes_def by simp
qed

text \<open>
  \<open>vsi_nn_Transpose\<close> moves every element to its permuted coordinates: for a permutation of
  2 to 8 dimensions and a tensor whose byte size fits 32 bits and both buffers, it returns, and
  the element at the coordinates \<open>d\<close> of the source (the last dimension is the fastest) is the
  one at the coordinates \<open>d (perm i)\<close> of the destination, whose dimension \<open>i\<close> has the size
  \<open>shape[perm[i]]\<close>.
\<close>

theorem transpose_element:
  assumes "perm_ok n perm" "fits n shape t data" "num_bytes n shape t \<le> length dst"
  shows "\<exists>r. Transpose dst data shape n perm t = Some r \<and> length r = length dst \<and>
    (\<forall>d. (\<forall>j < n. d j < dim shape j) \<longrightarrow>
      block (unat (type_get_bytes t)) (at_pos (\<lambda>i. dim shape (dim perm i)) n (\<lambda>i. d (dim perm i))) r =
      block (unat (type_get_bytes t)) (at_pos (dim shape) n d) data)"
  by (rule Transpose_coords[OF assms(1,2) assms(3)[unfolded num_bytes_def]]) blast

text \<open>
  Transposing back gives the tensor: with the permutation that \<open>vsi_nn_InvertPermuteShape\<close>
  computes from \<open>perm\<close>, transposing the transposed tensor returns the bytes of the tensor.
\<close>

theorem transpose_roundtrip:
  assumes "perm_ok n perm" "fits n shape t data" "num_bytes n shape t \<le> length dst"
    "num_bytes n shape t \<le> length dst2" "n \<le> length out"
  shows "\<exists>inv r r2. InvertPermuteShape perm n out = Some inv \<and> Transpose dst data shape n perm t = Some r \<and>
    Transpose dst2 r (permuted n perm shape) n inv t = Some r2 \<and>
    take (num_bytes n shape t) r2 = take (num_bytes n shape t) data"
proof -
  let ?S = "dim shape" and ?P = "dim perm" and ?N = "\<Prod>k<n. dim shape k" and ?u = "unat (type_get_bytes t)"
  let ?D = "dim (permuted n perm shape)"
  note P = perm_okD[OF assms(1)]
  obtain inv where inv: "InvertPermuteShape perm n out = Some inv" "length inv = length out"
    "\<forall>i < n. dim inv (?P i) = i" "perm_ok n inv"
    by (rule InvertPermuteShape_ok[OF assms(1,5)]) (rule that; assumption)
  obtain r where r: "Transpose dst data shape n perm t = Some r" "length r = length dst"
    "\<forall>d. (\<forall>j < n. d j < ?S j) \<longrightarrow>
      block ?u (at_pos (\<lambda>i. ?S (?P i)) n (\<lambda>i. d (?P i))) r = block ?u (at_pos ?S n d) data"
    by (rule Transpose_coords[OF assms(1,2) assms(3)[unfolded num_bytes_def]]) (rule that; assumption)
  have f: "fits n (permuted n perm shape) t r" and N: "(\<Prod>k<n. ?D k) = ?N"
    using fits_permuted[OF assms(1,2), of r] assms(3) r(2) by simp_all
  have len: "(\<Prod>k<n. ?D k) * ?u \<le> length dst2" using assms(4) unfolding N num_bytes_def .
  obtain r2 where r2: "Transpose dst2 r (permuted n perm shape) n inv t = Some r2" "length r2 = length dst2"
    "\<forall>e. (\<forall>j < n. e j < ?D j) \<longrightarrow>
      block ?u (at_pos (\<lambda>i. ?D (dim inv i)) n (\<lambda>i. e (dim inv i))) r2 = block ?u (at_pos ?D n e) r"
    by (rule Transpose_coords[OF inv(4) f len]) (rule that; assumption)
  have PQ: "?P (dim inv j) = j" if j: "j < n" for j
    using bij_all[OF P(4), of "\<lambda>j. ?P (dim inv j) = j"] inv(3) j by simp
  have Q: "dim inv j < n" if j: "j < n" for j using perm_okD(5)[OF inv(4)] j by simp
  have "block ?u x r2 = block ?u x data" if x: "x < ?N" for x
  proof -
    let ?d = "digit ?S n x"
    have d: "\<forall>j < n. ?d j < ?S j" using assms(2) by (simp add: fits_def digit_less)
    have e: "\<forall>j < n. ?d (?P j) < ?D j" using d P(5) by simp
    have way_back: "at_pos (\<lambda>i. ?D (dim inv i)) n (\<lambda>i. ?d (?P (dim inv i))) = at_pos ?S n ?d"
      using PQ Q by (simp add: at_pos_def st_def)
    have there: "at_pos ?D n (\<lambda>i. ?d (?P i)) = at_pos (\<lambda>i. ?S (?P i)) n (\<lambda>i. ?d (?P i))"
      by (simp add: at_pos_def st_def)
    have "block ?u (at_pos ?S n ?d) r2 = block ?u (at_pos ?D n (\<lambda>i. ?d (?P i))) r"
      using r2(3)[rule_format, of "\<lambda>i. ?d (?P i)"] e unfolding way_back by simp
    also have "\<dots> = block ?u (at_pos ?S n ?d) data"
      using r(3) d unfolding there by blast
    finally show ?thesis using at_pos_digits[OF x] by simp
  qed
  then have "take (?N * ?u) r2 = take (?N * ?u) data" by (intro blocks_eq) simp
  then show ?thesis using inv(1) r(1) r2(1) by (auto simp: num_bytes_def)
qed

text \<open>A 2 by 3 tensor of 16-bit elements.\<close>

lemma lessThan_2: "{..<2} = {0, Suc 0}"
  by auto

lemma all_less_2: "(\<forall>k < 2. Q k) \<longleftrightarrow> Q 0 \<and> Q (Suc 0)"
  by (auto simp: less_2_cases_iff)

lemma swap_perm: "perm_ok 2 [1, 0]"
proof -
  have "bij_betw (dim [1, 0]) {..<2} {..<2}"
    by (auto simp: bij_betw_def inj_on_def dim_def lessThan_2)
  then show ?thesis by (simp add: perm_ok_def VSI_NN_MAX_DIM_NUM_def)
qed

lemma tensor_2_3:
  "num_bytes 2 [2, 3] TYPE_INT16 = 12" "fits 2 [2, 3] TYPE_INT16 [1, 2, 3, 4, 5, 6, 7, 8, 9, 10, 11, 12]"
  by (simp_all add: num_bytes_def fits_def dim_def lessThan_2 all_less_2)

theorem transpose_element_witness:
  "\<exists>r. Transpose (replicate 12 0) [1, 2, 3, 4, 5, 6, 7, 8, 9, 10, 11, 12] [2, 3] 2 [1, 0] TYPE_INT16 = Some r \<and>
     length r = 12"
  using transpose_element[of 2 "[1, 0]" "[2, 3]" TYPE_INT16 "[1, 2, 3, 4, 5, 6, 7, 8, 9, 10, 11, 12]" "replicate 12 0"]
    swap_perm tensor_2_3 by auto

theorem transpose_roundtrip_witness:
  "\<exists>inv r r2. InvertPermuteShape [1, 0] 2 [0, 0] = Some inv \<and>
     Transpose (replicate 12 0) [1, 2, 3, 4, 5, 6, 7, 8, 9, 10, 11, 12] [2, 3] 2 [1, 0] TYPE_INT16 = Some r \<and>
     Transpose (replicate 12 0) r (permuted 2 [1, 0] [2, 3]) 2 inv TYPE_INT16 = Some r2 \<and>
     take 12 r2 = [1, 2, 3, 4, 5, 6, 7, 8, 9, 10, 11, 12]"
  using transpose_roundtrip[of 2 "[1, 0]" "[2, 3]" TYPE_INT16 "[1, 2, 3, 4, 5, 6, 7, 8, 9, 10, 11, 12]"
      "replicate 12 0" "replicate 12 0" "[0, 0]"]
    swap_perm tensor_2_3 by simp

subsection \<open>Squeezing\<close>

lemmas squeeze_unfold = squeeze_loop.simps[of _ 0] squeeze_loop.simps[of _ "Suc 0"] squeeze_loop.simps[of _ "Suc (Suc 0)"]
  squeeze_loop.simps[of _ "Suc (Suc (Suc 0))"]

text \<open>
  \<open>vsi_nn_SqueezeShape\<close> loses a dimension: after it has moved the entries over a leading
  dimension of size 1, its loop counter points one entry too far, and the entry it skips over is
  overwritten by the next move. A shape of sizes 1, a, b, c (none of a, b, c being 1) becomes a, c
  instead of a, b, c.
\<close>

theorem squeeze_drops_dimension:
  assumes "a \<noteq> 1" "b \<noteq> 1" "c \<noteq> 1"
  shows "SqueezeShape [1, a, b, c] 4 = Some ([a, c, 0, 0], 2)"
  using assms by (simp add: SqueezeShape_def squeeze_unfold shift_down_def numeral_2_eq_2)

theorem squeeze_drops_dimension_witness: "SqueezeShape [1, 2, 3, 4] 4 = Some ([2, 4, 0, 0], 2)"
  by (rule squeeze_drops_dimension) simp_all

end
