(* ===== verification/Permute_Stack.thy ===== *)
theory Permute_Stack
  imports Permute
begin

text \<open>
  \<open>vsi_nn_Permute\<close> of \<^verbatim>\<open>src/tim/vx/internal/src/utils/vsi_nn_math.c\<close>: the same move as
  a transposition, for tensors whose first dimension is the fastest, by a machine that walks
  over the dimensions with explicit stacks instead of recursion.

  A pointer into \<open>data\<close> or \<open>dst\<close> is its offset. The loop of the code is the iteration of one
  step on the record of its local variables; a memory access outside of a buffer is \<open>None\<close>.
  \<open>dim_num\<close> is at least 2, so the counter \<open>layer\<close> starts at 1 or above and the machine goes down
  only from a layer other than 1.
\<close>

record permute_state =
  pm_current :: nat
  pm_layer :: nat
  pm_back :: bool
  pm_dims :: "vsi_size_t list"
  pm_ins :: "nat list"
  pm_outs :: "nat list"
  pm_in :: nat
  pm_out :: nat
  pm_dst :: "uint8 list"

text \<open>The two innermost loops.\<close>

fun permute_row ::
  "uint8 list \<Rightarrow> nat \<Rightarrow> uint32 \<Rightarrow> vsi_size_t \<Rightarrow> vsi_size_t \<Rightarrow> nat \<Rightarrow> nat \<Rightarrow> nat \<Rightarrow> nat \<times> uint8 list
   \<Rightarrow> (nat \<times> uint8 list) option" where
  "permute_row data in_addr y sy sx u x 0 (out, dst) = Some (out, dst)"
| "permute_row data in_addr y sy sx u x (Suc n) (out, dst) = do {
     dst' \<leftarrow> memcpy dst out data (in_addr + unat (y * sy + of_nat x * sx)) u;
     permute_row data in_addr y sy sx u (Suc x) n (out + u, dst') }"

fun permute_rows ::
  "uint8 list \<Rightarrow> nat \<Rightarrow> vsi_size_t \<Rightarrow> vsi_size_t \<Rightarrow> nat \<Rightarrow> nat \<Rightarrow> nat \<Rightarrow> nat \<Rightarrow> nat \<times> uint8 list
   \<Rightarrow> (nat \<times> uint8 list) option" where
  "permute_rows data in_addr sy sx u nx y 0 r = Some r"
| "permute_rows data in_addr sy sx u nx y (Suc n) r = do {
     r' \<leftarrow> permute_row data in_addr (of_nat y) sy sx u 0 nx r;
     permute_rows data in_addr sy sx u nx (Suc y) n r' }"

text \<open>One iteration: \<open>Inl\<close> the next state, \<open>Inr\<close> the destination when the loop is left.\<close>

definition permute_step ::
  "vsi_size_t list \<Rightarrow> vsi_size_t list \<Rightarrow> vsi_size_t list \<Rightarrow> vsi_size_t list \<Rightarrow> nat \<Rightarrow> uint8 list
   \<Rightarrow> permute_state \<Rightarrow> (permute_state + uint8 list) option" where
  "permute_step shape perm org_stride dst_stride unit_bytes data s = do {
     ins \<leftarrow> wr (pm_ins s) (pm_current s) (pm_in s);
     outs \<leftarrow> wr (pm_outs s) (pm_current s) (pm_out s);
     if pm_layer s = 1 then do {
       p1 \<leftarrow> rd perm 1;
       p0 \<leftarrow> rd perm 0;
       ny \<leftarrow> rd shape (unat p1);
       nx \<leftarrow> rd shape (unat p0);
       sy \<leftarrow> rd org_stride (unat p1);
       sx \<leftarrow> rd org_stride (unat p0);
       (_, dst) \<leftarrow> permute_rows data (pm_in s) sy sx unit_bytes (unat nx) 0 (unat ny) (pm_out s, pm_dst s);
       if pm_current s = 0 then Some (Inr dst)
       else Some (Inl (s\<lparr>pm_ins := ins, pm_outs := outs, pm_dst := dst, pm_current := pm_current s - 1,
         pm_layer := pm_layer s + 1, pm_back := True\<rparr>)) }
     else if \<not> pm_back s then
       Some (Inl (s\<lparr>pm_ins := ins, pm_outs := outs, pm_current := pm_current s + 1, pm_layer := pm_layer s - 1\<rparr>))
     else do {
       v \<leftarrow> rd (pm_dims s) (pm_current s);
       dims \<leftarrow> wr (pm_dims s) (pm_current s) (v + 1);
       p \<leftarrow> rd perm (pm_layer s);
       m \<leftarrow> rd shape (unat p);
       if v + 1 < m then do {
         so \<leftarrow> rd org_stride (unat p);
         sd \<leftarrow> rd dst_stride (pm_layer s);
         Some (Inl (s\<lparr>pm_ins := ins, pm_outs := outs, pm_dims := dims, pm_in := pm_in s + unat so,
           pm_out := pm_out s + unat sd, pm_back := False\<rparr>)) }
       else do {
         dims' \<leftarrow> wr dims (pm_current s) 0;
         if pm_current s = 0 then Some (Inr (pm_dst s))
         else do {
           i \<leftarrow> rd ins (pm_current s - 1);
           ou \<leftarrow> rd outs (pm_current s - 1);
           Some (Inl (s\<lparr>pm_ins := ins, pm_outs := outs, pm_dims := dims', pm_current := pm_current s - 1,
             pm_layer := pm_layer s + 1, pm_in := i, pm_out := ou\<rparr>)) } } } }"

text \<open>The loop; \<open>None\<close> is a bad access or a run that does not end.\<close>

partial_function (option) permute_loop ::
  "vsi_size_t list \<Rightarrow> vsi_size_t list \<Rightarrow> vsi_size_t list \<Rightarrow> vsi_size_t list \<Rightarrow> nat \<Rightarrow> uint8 list
   \<Rightarrow> permute_state \<Rightarrow> uint8 list option" where
  "permute_loop shape perm org_stride dst_stride unit_bytes data s =
     (case permute_step shape perm org_stride dst_stride unit_bytes data s of
        None \<Rightarrow> None
      | Some (Inr dst) \<Rightarrow> Some dst
      | Some (Inl s') \<Rightarrow> permute_loop shape perm org_stride dst_stride unit_bytes data s')"

definition permute_start :: "nat \<Rightarrow> uint8 list \<Rightarrow> permute_state" where
  "permute_start dim_num dst =
     \<lparr>pm_current = 0, pm_layer = dim_num - 1, pm_back = False, pm_dims = replicate VSI_NN_MAX_DIM_NUM 0,
      pm_ins = replicate VSI_NN_MAX_DIM_NUM 0, pm_outs = replicate VSI_NN_MAX_DIM_NUM 0,
      pm_in = 0, pm_out = 0, pm_dst = dst\<rparr>"

definition Permute ::
  "uint8 list \<Rightarrow> uint8 list \<Rightarrow> vsi_size_t list \<Rightarrow> nat \<Rightarrow> vsi_size_t list \<Rightarrow> vsi_nn_type
   \<Rightarrow> uint8 list option" where
  "Permute dst data shape dim_num perm t =
     (if dim_num = 0 \<or> dim_num > VSI_NN_MAX_DIM_NUM \<or> dim_num = 1 then Some dst
      else do {
        r \<leftarrow> permuted_shape shape (of_nat dim_num) perm 0 dim_num (replicate VSI_NN_MAX_DIM_NUM 0);
        case r of
          None \<Rightarrow> Some dst
        | Some dst_shape \<Rightarrow> do {
            (org_stride, _) \<leftarrow> GetStrideSizeBySize shape dim_num t (replicate VSI_NN_MAX_DIM_NUM 0);
            (dst_stride, _) \<leftarrow> GetStrideSizeBySize dst_shape dim_num t (replicate VSI_NN_MAX_DIM_NUM 0);
            permute_loop shape perm org_stride dst_stride (unat (type_get_bytes t)) data
              (permute_start dim_num dst) } })"


subsection \<open>Writing consecutive bytes\<close>

definition put :: "uint8 list \<Rightarrow> nat \<Rightarrow> uint8 list \<Rightarrow> uint8 list" where
  "put dst a xs = take a dst @ xs @ drop (a + length xs) dst"

lemma length_put [simp]: "a + length xs \<le> length dst \<Longrightarrow> length (put dst a xs) = length dst"
  by (simp add: put_def)

lemma put_Nil [simp]: "put dst a [] = dst"
  by (simp add: put_def)

lemma put_put:
  assumes "a + length xs + length ys \<le> length dst"
  shows "put (put dst a xs) (a + length xs) ys = put dst a (xs @ ys)"
proof -
  have l: "length (take a dst @ xs) = a + length xs" using assms by simp
  have "take (a + length xs) (put dst a xs) = take a dst @ xs"
    unfolding put_def append_assoc[symmetric] using l by simp
  moreover have "drop (a + length xs + length ys) (put dst a xs) = drop (a + length xs + length ys) dst"
    unfolding put_def append_assoc[symmetric] drop_append l using assms by (simp add: ac_simps)
  ultimately show ?thesis by (simp add: put_def add.assoc)
qed

lemma memcpy_put:
  "a + u \<le> length dst \<Longrightarrow> s + u \<le> length data \<Longrightarrow> memcpy dst a data s u = Some (put dst a (take u (drop s data)))"
  by (simp add: memcpy_def put_def)


subsection \<open>The walk as nested loops\<close>

text \<open>
  The bytes that the walk over the dimensions below \<open>L\<close> collects from \<open>a\<close> on: \<open>D\<close> are the
  sizes and \<open>S\<close> the distances in \<open>data\<close> of the dimensions of the destination.
\<close>

fun gather :: "(nat \<Rightarrow> nat) \<Rightarrow> (nat \<Rightarrow> nat) \<Rightarrow> nat \<Rightarrow> uint8 list \<Rightarrow> nat \<Rightarrow> nat \<Rightarrow> uint8 list" where
  "gather D S u data 0 a = take u (drop a data)"
| "gather D S u data (Suc L) a = concat (map (\<lambda>k. gather D S u data L (a + k * S L)) [0..<D L])"

definition vol :: "(nat \<Rightarrow> nat) \<Rightarrow> nat \<Rightarrow> nat" where
  "vol D L = (\<Prod>i<L. D i)"

definition span :: "(nat \<Rightarrow> nat) \<Rightarrow> (nat \<Rightarrow> nat) \<Rightarrow> nat \<Rightarrow> nat" where
  "span D S L = (\<Sum>i<L. (D i - 1) * S i)"

lemma vol_simps [simp]: "vol D 0 = 1" "vol D (Suc L) = vol D L * D L"
  by (simp_all add: vol_def mult.commute)

lemma span_0 [simp]: "span D S 0 = 0" and span_Suc: "span D S (Suc L) = span D S L + (D L - 1) * S L"
  by (simp_all add: span_def)

lemma span_step:
  assumes "k < D L"
  shows "k * S L + span D S L \<le> span D S (Suc L)"
proof -
  have "k \<le> D L - 1" using assms by simp
  then have "k * S L \<le> (D L - 1) * S L" by (rule mult_le_mono1)
  then show ?thesis by (simp add: span_Suc)
qed

lemma length_concat_const: "(\<forall>x \<in> set xs. length (f x) = c) \<Longrightarrow> length (concat (map f xs)) = length xs * c"
  by (induction xs) auto

lemma length_gather:
  "a + span D S L + u \<le> length data \<Longrightarrow> length (gather D S u data L a) = vol D L * u"
proof (induction L arbitrary: a)
  case (Suc L)
  have "length (gather D S u data L (a + k * S L)) = vol D L * u" if k: "k < D L" for k
    using Suc.IH[of "a + k * S L"] Suc.prems span_step[of k D L S] k by simp
  then have "length (gather D S u data (Suc L) a) = length [0..<D L] * (vol D L * u)"
    unfolding gather.simps by (intro length_concat_const) simp
  then show ?case by (simp add: ac_simps)
qed simp

definition part :: "(nat \<Rightarrow> nat) \<Rightarrow> (nat \<Rightarrow> nat) \<Rightarrow> nat \<Rightarrow> uint8 list \<Rightarrow> nat \<Rightarrow> nat \<Rightarrow> nat \<Rightarrow> uint8 list" where
  "part D S u data L a k = concat (map (\<lambda>k. gather D S u data L (a + k * S L)) [0..<k])"

lemma part_simps [simp]:
  "part D S u data L a 0 = []"
  "part D S u data L a (Suc k) = part D S u data L a k @ gather D S u data L (a + k * S L)"
  by (simp_all add: part_def)

lemma part_gather: "part D S u data L a (D L) = gather D S u data (Suc L) a"
  by (simp add: part_def)

lemma length_part:
  "a + span D S (Suc L) + u \<le> length data \<Longrightarrow> k \<le> D L \<Longrightarrow> length (part D S u data L a k) = k * (vol D L * u)"
proof (induction k)
  case (Suc k)
  then show ?case using length_gather[of "a + k * S L" D S L u data] span_step[of k D L S] by simp
qed simp

lemma vol_step:
  assumes "k < D L"
  shows "k * (vol D L * u) + vol D L * u \<le> vol D (Suc L) * u"
proof -
  have "Suc k * (vol D L * u) \<le> D L * (vol D L * u)" using assms by (intro mult_le_mono1) simp
  moreover have "D L * (vol D L * u) = vol D (Suc L) * u" by (simp only: vol_simps mult.assoc mult.left_commute)
  ultimately show ?thesis by simp
qed

lemma put_part:
  assumes "a + span D S (Suc L) + u \<le> length data" "k < D L" "b + vol D (Suc L) * u \<le> length dst"
  shows "put (put dst b (part D S u data L a k)) (b + k * (vol D L * u)) (gather D S u data L (a + k * S L)) =
      put dst b (part D S u data L a (Suc k))"
    "length (put dst b (part D S u data L a k)) = length dst"
    "a + k * S L + span D S L + u \<le> length data"
    "b + k * (vol D L * u) + vol D L * u \<le> length dst"
proof -
  have p: "length (part D S u data L a k) = k * (vol D L * u)" using assms by (intro length_part) simp_all
  show a: "a + k * S L + span D S L + u \<le> length data" using span_step[of k D L S] assms by simp
  show b: "b + k * (vol D L * u) + vol D L * u \<le> length dst" using vol_step[of k D L u] assms by linarith
  then show "length (put dst b (part D S u data L a k)) = length dst" using p by simp
  have g: "length (gather D S u data L (a + k * S L)) = vol D L * u" by (rule length_gather[OF a])
  show "put (put dst b (part D S u data L a k)) (b + k * (vol D L * u)) (gather D S u data L (a + k * S L)) =
      put dst b (part D S u data L a (Suc k))"
    using put_put[of b "part D S u data L a k" "gather D S u data L (a + k * S L)" dst] b p g by simp
qed


subsection \<open>The two innermost loops\<close>

lemma weighted_word:
  fixes sy sx :: "32 word"
  assumes "y * unat sy + x * unat sx < 2 ^ 32" "y < 2 ^ 32" "x < 2 ^ 32"
  shows "unat (of_nat y * sy + of_nat x * sx) = y * unat sy + x * unat sx"
proof -
  have o: "unat (of_nat y :: 32 word) = y" "unat (of_nat x :: 32 word) = x"
    using assms(2,3) by (simp_all add: unat_of_nat take_bit_nat_eq_self)
  have b: "y * unat sy < 2 ^ 32" "x * unat sx < 2 ^ 32" using assms(1) by linarith+
  have "unat (of_nat y * sy) = y * unat sy" using b o by (subst unat_mult_no_overflow) simp_all
  moreover have "unat (of_nat x * sx) = x * unat sx" using b o by (subst unat_mult_no_overflow) simp_all
  ultimately show ?thesis using assms(1) by (subst unat_add_no_overflow) simp_all
qed

lemma permute_row_ok:
  assumes S: "S 0 = unat sx" "S (Suc 0) = unat sy" and D: "D 0 < 2 ^ 32" "y < 2 ^ 32"
    and small: "y * S (Suc 0) + span D S (Suc 0) < 2 ^ 32"
    and data: "a + y * S (Suc 0) + span D S (Suc 0) + u \<le> length data" and dst: "b + vol D (Suc 0) * u \<le> length dst"
  shows "x + n = D 0 \<Longrightarrow>
    permute_row data a (of_nat y) sy sx u x n (b + x * u, put dst b (part D S u data 0 (a + y * S (Suc 0)) x)) =
    Some (b + vol D (Suc 0) * u, put dst b (gather D S u data (Suc 0) (a + y * S (Suc 0))))"
proof (induction n arbitrary: x)
  case 0
  then show ?case using part_gather[of D S u data 0 "a + y * S (Suc 0)"] by simp
next
  case (Suc n)
  then have x: "x < D 0" by simp
  note pp = put_part[OF data x dst]
  have "x * S 0 \<le> span D S (Suc 0)" using span_step[of x D 0 S] x by simp
  then have "y * unat sy + x * unat sx < 2 ^ 32" using small S by simp
  then have w: "unat (of_nat y * sy + of_nat x * sx) = y * S (Suc 0) + x * S 0"
    using x D by (simp add: weighted_word S)
  have "memcpy (put dst b (part D S u data 0 (a + y * S (Suc 0)) x)) (b + x * u) data
      (a + (y * S (Suc 0) + x * S 0)) u = Some (put dst b (part D S u data 0 (a + y * S (Suc 0)) (Suc x)))"
    using pp by (subst memcpy_put) (simp_all add: add.assoc)
  then show ?case using Suc.IH[of "Suc x"] Suc.prems w by (simp add: ac_simps del: part_simps)
qed

lemma permute_rows_ok:
  assumes S: "S 0 = unat sx" "S (Suc 0) = unat sy" and D: "D 0 < 2 ^ 32" "D (Suc 0) < 2 ^ 32"
    and small: "span D S 2 < 2 ^ 32"
    and data: "a + span D S 2 + u \<le> length data" and dst: "b + vol D 2 * u \<le> length dst"
  shows "y + n = D (Suc 0) \<Longrightarrow>
    permute_rows data a sy sx u (D 0) y n (b + y * (vol D (Suc 0) * u), put dst b (part D S u data (Suc 0) a y)) =
    Some (b + vol D 2 * u, put dst b (gather D S u data 2 a))"
proof (induction n arbitrary: y)
  case 0
  then show ?case using part_gather[of D S u data "Suc 0" a] by (simp add: numeral_2_eq_2 ac_simps)
next
  case (Suc n)
  then have y: "y < D (Suc 0)" by simp
  note pp = put_part[OF data[unfolded numeral_2_eq_2] y dst[unfolded numeral_2_eq_2]]
  have "y * S (Suc 0) + span D S (Suc 0) < 2 ^ 32"
    using span_step[of y D "Suc 0" S] y small by (simp add: numeral_2_eq_2)
  then have "permute_row data a (of_nat y) sy sx u 0 (D 0)
      (b + y * (vol D (Suc 0) * u), put dst b (part D S u data (Suc 0) a y)) =
    Some (b + y * (vol D (Suc 0) * u) + vol D (Suc 0) * u, put dst b (part D S u data (Suc 0) a (Suc y)))"
    using permute_row_ok[of S sx sy D y a u data "b + y * (vol D (Suc 0) * u)"
        "put dst b (part D S u data (Suc 0) a y)" 0 "D 0"] S y D pp by simp
  then show ?case using Suc.IH[of "Suc y"] Suc.prems by (simp add: algebra_simps del: part_simps)
qed

subsection \<open>The stack machine does the nested loops\<close>

abbreviation ps ::
  "nat \<Rightarrow> nat \<Rightarrow> bool \<Rightarrow> vsi_size_t list \<Rightarrow> nat list \<Rightarrow> nat list \<Rightarrow> nat \<Rightarrow> nat \<Rightarrow> uint8 list \<Rightarrow> permute_state"
where
  "ps c l b dims ins outs a p d \<equiv>
     \<lparr>pm_current = c, pm_layer = l, pm_back = b, pm_dims = dims, pm_ins = ins, pm_outs = outs,
      pm_in = a, pm_out = p, pm_dst = d\<rparr>"

definition sizes_of :: "vsi_size_t list \<Rightarrow> vsi_size_t list \<Rightarrow> nat \<Rightarrow> nat" where
  "sizes_of shape perm i = dim shape (dim perm i)"

definition walk_ok ::
  "nat \<Rightarrow> vsi_size_t list \<Rightarrow> vsi_size_t list \<Rightarrow> vsi_size_t list \<Rightarrow> vsi_size_t list \<Rightarrow> nat \<Rightarrow> bool" where
  "walk_ok n shape perm os ds u \<longleftrightarrow> 2 \<le> n \<and> n \<le> 8 \<and> n \<le> length perm \<and> n \<le> length shape \<and>
     length os = 8 \<and> length ds = 8 \<and> (\<forall>i < n. dim perm i < n) \<and> (\<forall>i < n. 0 < sizes_of shape perm i) \<and>
     (\<forall>i < n. dim ds i = vol (sizes_of shape perm) i * u) \<and> span (sizes_of shape perm) (sizes_of os perm) n < 2 ^ 32"

lemma walk_rd:
  assumes "walk_ok n shape perm os ds u" "i < n"
  shows "rd perm i = Some (perm ! i)" "rd shape (unat (perm ! i)) = Some (shape ! dim perm i)"
    "rd os (unat (perm ! i)) = Some (os ! dim perm i)" "rd ds i = Some (ds ! i)"
    "unat (shape ! dim perm i) = sizes_of shape perm i" "unat (os ! dim perm i) = sizes_of os perm i"
    "unat (ds ! i) = vol (sizes_of shape perm) i * u"
proof -
  have p: "dim perm i < n" using assms by (simp add: walk_ok_def)
  then have l: "dim perm i < length shape" "dim perm i < length os" "i < length perm" "i < length ds"
    using assms by (auto simp: walk_ok_def)
  show "rd perm i = Some (perm ! i)" "rd ds i = Some (ds ! i)" using l by simp_all
  show "rd shape (unat (perm ! i)) = Some (shape ! dim perm i)" "rd os (unat (perm ! i)) = Some (os ! dim perm i)"
    using l(1,2) by (simp_all add: dim_def)
  show "unat (shape ! dim perm i) = sizes_of shape perm i" "unat (os ! dim perm i) = sizes_of os perm i"
    by (simp_all add: sizes_of_def dim_def)
  show "unat (ds ! i) = vol (sizes_of shape perm) i * u"
    using assms by (simp add: walk_ok_def dim_def)
qed

text \<open>
  A run from a layer entered at stack depth \<open>c\<close> ends with the destination \<open>d\<close> when \<open>c\<close> is 0,
  and otherwise goes on one level up, with the entries of the stacks below \<open>c\<close> kept.
\<close>

definition leaves ::
  "(permute_state \<Rightarrow> uint8 list option) \<Rightarrow> nat \<Rightarrow> nat \<Rightarrow> vsi_size_t list \<Rightarrow> nat list \<Rightarrow> nat list
   \<Rightarrow> nat \<Rightarrow> nat \<Rightarrow> uint8 list \<Rightarrow> uint8 list option \<Rightarrow> bool" where
  "leaves run c L dims ins outs a p d x \<longleftrightarrow>
     (if c = 0 then x = Some d
      else \<exists>ins' outs'. length ins' = 8 \<and> length outs' = 8 \<and> take c ins' = take c ins \<and> take c outs' = take c outs \<and>
        x = run (ps (c - 1) (Suc L) True dims ins' outs' a p d))"

lemma leaves_0: "x = Some d \<Longrightarrow> leaves run 0 L dims ins outs a p d x"
  by (simp add: leaves_def)

lemma leaves_up:
  assumes "0 < c" "x = run (ps (c - 1) (Suc L) True dims ins' outs' a p d)"
    "length ins' = 8" "length outs' = 8" "take c ins' = take c ins" "take c outs' = take c outs"
  shows "leaves run c L dims ins outs a p d x"
  unfolding leaves_def using assms by auto

definition walks ::
  "nat \<Rightarrow> vsi_size_t list \<Rightarrow> vsi_size_t list \<Rightarrow> vsi_size_t list \<Rightarrow> vsi_size_t list \<Rightarrow> nat \<Rightarrow> uint8 list \<Rightarrow> nat \<Rightarrow> bool"
where
  "walks n shape perm os ds u data L \<longleftrightarrow>
     (\<forall>c dims ins outs a p dst. c + L = n - 1 \<longrightarrow> length dims = 8 \<longrightarrow> length ins = 8 \<longrightarrow> length outs = 8 \<longrightarrow>
       (\<forall>j<8. c \<le> j \<longrightarrow> dims ! j = 0) \<longrightarrow> (0 < c \<longrightarrow> ins ! (c - 1) = a \<and> outs ! (c - 1) = p) \<longrightarrow>
       a + span (sizes_of shape perm) (sizes_of os perm) (Suc L) + u \<le> length data \<longrightarrow>
       p + vol (sizes_of shape perm) (Suc L) * u \<le> length dst \<longrightarrow>
       leaves (permute_loop shape perm os ds u data) c L dims ins outs a p
         (put dst p (gather (sizes_of shape perm) (sizes_of os perm) u data (Suc L) a))
         (permute_loop shape perm os ds u data (ps c L False dims ins outs a p dst)))"

lemma permute_loop_Inl:
  "permute_step shape perm os ds u data s = Some (Inl s') \<Longrightarrow>
   permute_loop shape perm os ds u data s = permute_loop shape perm os ds u data s'"
  by (subst permute_loop.simps) simp

lemma permute_loop_Inr:
  "permute_step shape perm os ds u data s = Some (Inr d) \<Longrightarrow> permute_loop shape perm os ds u data s = Some d"
  by (subst permute_loop.simps) simp

lemma walks_1:
  assumes W: "walk_ok n shape perm os ds u"
  shows "walks n shape perm os ds u data 1"
proof -
  let ?D = "sizes_of shape perm" and ?S = "sizes_of os perm"
  have n: "0 < n" "1 < n" "n \<le> 8" "2 \<le> n" using W by (auto simp: walk_ok_def)
  have D: "?D 0 < 2 ^ 32" "?D (Suc 0) < 2 ^ 32"
    using unsigned_less[where ?'a = nat and ?'b = 32] by (simp_all add: sizes_of_def dim_def)
  have "span ?D ?S 2 \<le> span ?D ?S n" using n by (auto simp: span_def intro!: sum_mono2)
  then have small: "span ?D ?S 2 < 2 ^ 32" using W by (simp add: walk_ok_def)
  have "leaves (permute_loop shape perm os ds u data) c 1 dims ins outs a p
      (put dst p (gather ?D ?S u data (Suc 1) a))
      (permute_loop shape perm os ds u data (ps c 1 False dims ins outs a p dst))"
    if c: "c + 1 = n - 1" and len: "length dims = 8" "length ins = 8" "length outs = 8"
      and data: "a + span ?D ?S (Suc 1) + u \<le> length data" and dst: "p + vol ?D (Suc 1) * u \<le> length dst"
    for c dims ins outs a p dst
  proof -
    have c8: "c < 8" using c n by simp
    have "permute_rows data a (os ! dim perm 1) (os ! dim perm 0) u (?D 0) 0 (?D (Suc 0)) (p, dst) =
        Some (p + vol ?D 2 * u, put dst p (gather ?D ?S u data 2 a))"
      using permute_rows_ok[of ?S "os ! dim perm 0" "os ! dim perm 1" ?D a u data p dst 0 "?D (Suc 0)"]
        walk_rd(6)[OF W n(1)] walk_rd(6)[OF W n(2)] D small data dst by (simp add: numeral_2_eq_2)
    then have step: "permute_step shape perm os ds u data (ps c 1 False dims ins outs a p dst) =
      (if c = 0 then Some (Inr (put dst p (gather ?D ?S u data 2 a)))
       else Some (Inl (ps (c - 1) 2 True dims (ins[c := a]) (outs[c := p]) a p (put dst p (gather ?D ?S u data 2 a)))))"
      using walk_rd(1,2,3,5)[OF W n(1)] walk_rd(1,2,3,5)[OF W n(2)] c8 len by (simp add: permute_step_def)
    show ?thesis
    proof (cases "c = 0")
      case True
      then show ?thesis using permute_loop_Inr step by (auto simp: numeral_2_eq_2 intro!: leaves_0 simp del: gather.simps)
    next
      case False
      then have up: "permute_loop shape perm os ds u data (ps c 1 False dims ins outs a p dst) =
          permute_loop shape perm os ds u data (ps (c - 1) (Suc 1) True dims (ins[c := a]) (outs[c := p]) a p
            (put dst p (gather ?D ?S u data (Suc 1) a)))"
        using step by (intro permute_loop_Inl) (simp add: numeral_2_eq_2 del: gather.simps)
      show ?thesis using False len by (intro leaves_up[where run = "permute_loop shape perm os ds u data", OF _ up]) simp_all
    qed
  qed
  then show ?thesis unfolding walks_def by blast
qed

text \<open>The states in the middle of layer \<open>L\<close>: \<open>k\<close> of its iterations are done.\<close>

lemma walks_at:
  assumes W: "walk_ok n shape perm os ds u" and IH: "walks n shape perm os ds u data (L - 1)"
    and L: "2 \<le> L" "L < n" and c: "c + L = n - 1" and len: "length dims = 8"
    and dims: "\<forall>j<8. c \<le> j \<longrightarrow> dims ! j = 0" and tops: "0 < c \<longrightarrow> ins ! (c - 1) = a \<and> outs ! (c - 1) = p"
    and data: "a + span (sizes_of shape perm) (sizes_of os perm) (Suc L) + u \<le> length data"
    and dst: "p + vol (sizes_of shape perm) (Suc L) * u \<le> length dst"
  shows "k < sizes_of shape perm L \<Longrightarrow> length ins' = 8 \<Longrightarrow> length outs' = 8 \<Longrightarrow>
    take c ins' = take c ins \<Longrightarrow> take c outs' = take c outs \<Longrightarrow>
    leaves (permute_loop shape perm os ds u data) c L dims ins outs a p
      (put dst p (gather (sizes_of shape perm) (sizes_of os perm) u data (Suc L) a))
      (permute_loop shape perm os ds u data
        (ps c L False (dims[c := of_nat k]) ins' outs' (a + k * sizes_of os perm L)
          (p + k * (vol (sizes_of shape perm) L * u))
          (put dst p (part (sizes_of shape perm) (sizes_of os perm) u data L a k))))"
proof (induction "sizes_of shape perm L - k" arbitrary: k ins' outs')
  case 0
  then show ?case by simp
next
  case (Suc m)
  let ?D = "sizes_of shape perm" and ?S = "sizes_of os perm"
  let ?run = "permute_loop shape perm os ds u data"
  let ?a = "a + k * ?S L" and ?p = "p + k * (vol ?D L * u)"
  let ?i = "ins'[c := ?a]" and ?o = "outs'[c := ?p]"
  let ?dk = "put dst p (part ?D ?S u data L a k)" and ?dk1 = "put dst p (part ?D ?S u data L a (Suc k))"
  have n: "n \<le> 8" using W by (simp add: walk_ok_def)
  have c8: "c < 8" "Suc c < 8" using c L n by simp_all
  note k = Suc.prems(1) and lens = Suc.prems(2,3) and kept = Suc.prems(4,5)
  note pp = put_part[OF data k dst]
  have Dm: "?D L < 2 ^ 32" using unsigned_less[where ?'a = nat and ?'b = 32] by (simp add: sizes_of_def dim_def)
  have "?run (ps c L False (dims[c := of_nat k]) ins' outs' ?a ?p ?dk) =
      ?run (ps (Suc c) (L - 1) False (dims[c := of_nat k]) ?i ?o ?a ?p ?dk)"
    using L c8 lens by (intro permute_loop_Inl) (simp add: permute_step_def)
  moreover have "leaves ?run (Suc c) (L - 1) (dims[c := of_nat k]) ?i ?o ?a ?p
      (put ?dk ?p (gather ?D ?S u data L ?a))
      (?run (ps (Suc c) (L - 1) False (dims[c := of_nat k]) ?i ?o ?a ?p ?dk))"
  proof -
    have z: "\<forall>j<8. Suc c \<le> j \<longrightarrow> dims[c := of_nat k] ! j = 0" using dims by simp
    have t: "?i ! c = ?a" "?o ! c = ?p" using c8 lens by simp_all
    have s: "Suc (L - 1) = L" "Suc c + (L - 1) = n - 1" using L c by simp_all
    show ?thesis
      using IH[unfolded walks_def s(1), rule_format, of "Suc c" "dims[c := of_nat k]" ?i ?o ?a ?p ?dk]
        s(2) z t lens len pp(2-4) by simp
  qed
  ultimately obtain i2 o2 where up: "length i2 = 8" "length o2 = 8" "take (Suc c) i2 = take (Suc c) ?i"
    "take (Suc c) o2 = take (Suc c) ?o"
    "?run (ps c L False (dims[c := of_nat k]) ins' outs' ?a ?p ?dk) =
     ?run (ps c L True (dims[c := of_nat k]) i2 o2 ?a ?p ?dk1)"
    using L unfolding leaves_def pp(1) by auto
  have i2: "take c i2 = take c ins" "take c o2 = take c outs"
    using arg_cong[OF up(3), of "take c"] arg_cong[OF up(4), of "take c"] kept by simp_all
  have top: "0 < c \<longrightarrow> i2 ! (c - 1) = a \<and> o2 ! (c - 1) = p"
    using tops arg_cong[OF i2(1), of "\<lambda>l. l ! (c - 1)"] arg_cong[OF i2(2), of "\<lambda>l. l ! (c - 1)"]
    by (cases "c = 0") simp_all
  have less: "of_nat k + 1 < shape ! dim perm L \<longleftrightarrow> Suc k < ?D L"
  proof -
    have "unat (of_nat (Suc k) :: 32 word) = Suc k" using k Dm by (simp add: unat_of_nat take_bit_nat_eq_self del: of_nat_Suc)
    then show ?thesis using walk_rd(5)[OF W L(2)] by (simp add: word_less_nat_alt add.commute)
  qed
  show ?case
  proof (cases "Suc k < ?D L")
    case True
    have "?run (ps c L True (dims[c := of_nat k]) i2 o2 ?a ?p ?dk1) =
        ?run (ps c L False (dims[c := of_nat (Suc k)]) (i2[c := ?a]) (o2[c := ?p]) (a + Suc k * ?S L)
          (p + Suc k * (vol ?D L * u)) ?dk1)"
      using walk_rd[OF W L(2)] L c8 up(1,2) len less True
      by (intro permute_loop_Inl) (simp add: permute_step_def algebra_simps)
    then show ?thesis
      using Suc.hyps(1)[of "Suc k" "i2[c := ?a]" "o2[c := ?p]"] Suc.hyps(2) True up(1,2,5) i2 by simp
  next
    case False
    then have k1: "Suc k = ?D L" using k by simp
    have d0: "dims[c := 0] = dims" using dims c8 by (metis list_update_id order_refl)
    have fin: "?dk1 = put dst p (gather ?D ?S u data (Suc L) a)" unfolding k1 part_gather ..
    show ?thesis
    proof (cases "c = 0")
      case c0: True
      have "?run (ps c L True (dims[c := of_nat k]) i2 o2 ?a ?p ?dk1) = Some ?dk1"
        using walk_rd[OF W L(2)] L c8 up(1,2) len less False c0
        by (intro permute_loop_Inr) (simp add: permute_step_def)
      then show ?thesis using up(5) c0 unfolding fin by (simp add: leaves_def)
    next
      case c1: False
      have out: "?run (ps c L True (dims[c := of_nat k]) i2 o2 ?a ?p ?dk1) =
          ?run (ps (c - 1) (Suc L) True dims (i2[c := ?a]) (o2[c := ?p]) a p ?dk1)"
        using walk_rd[OF W L(2)] L c8 up(1,2) len less False c1 top d0
        by (intro permute_loop_Inl) (simp add: permute_step_def)
      show ?thesis unfolding up(5) out unfolding fin
        using up(1,2) i2 c1
        by (intro leaves_up[where run = ?run and ins' = "i2[c := ?a]" and outs' = "o2[c := ?p]"]) simp_all
    qed
  qed
qed

lemma walks_all:
  assumes W: "walk_ok n shape perm os ds u"
  shows "1 \<le> L \<Longrightarrow> L < n \<Longrightarrow> walks n shape perm os ds u data L"
proof (induction L)
  case (Suc L)
  show ?case
  proof (cases "L = 0")
    case False
    then have IH: "walks n shape perm os ds u data (Suc L - 1)" and L: "2 \<le> Suc L"
      using Suc by auto
    have D: "0 < sizes_of shape perm (Suc L)" using W Suc.prems(2) by (simp add: walk_ok_def)
    show ?thesis unfolding walks_def
    proof (intro allI impI)
      fix c :: nat and dims :: "vsi_size_t list" and ins outs :: "nat list" and a p :: nat and dst :: "uint8 list"
      assume A: "c + Suc L = n - 1" "length dims = 8" "length ins = 8" "length outs = 8"
        "\<forall>j<8. c \<le> j \<longrightarrow> dims ! j = 0" "0 < c \<longrightarrow> ins ! (c - 1) = a \<and> outs ! (c - 1) = p"
        "a + span (sizes_of shape perm) (sizes_of os perm) (Suc (Suc L)) + u \<le> length data"
        "p + vol (sizes_of shape perm) (Suc (Suc L)) * u \<le> length dst"
      have "n \<le> 8" using W by (simp add: walk_ok_def)
      then have "c < 8" using A(1) by linarith
      then have "dims[c := 0] = dims" using A(2,5) by (metis list_update_id order_refl)
      then show "leaves (permute_loop shape perm os ds u data) c (Suc L) dims ins outs a p
          (put dst p (gather (sizes_of shape perm) (sizes_of os perm) u data (Suc (Suc L)) a))
          (permute_loop shape perm os ds u data (ps c (Suc L) False dims ins outs a p dst))"
        using walks_at[OF W IH L Suc.prems(2) A(1,2,5,6,7,8) D A(3,4)] by simp
    qed
  qed (use walks_1[OF W] in simp)
qed simp

subsection \<open>Strides and the result of \<open>vsi_nn_Permute\<close>\<close>

text \<open>Types of at least a byte; the elements of 4-bit types have no address of their own.\<close>

definition wide :: "vsi_nn_type \<Rightarrow> bool" where
  "wide t \<longleftrightarrow> 8 \<le> type_get_bits t"

lemma wide_bytes: "wide t \<Longrightarrow> type_get_bits t div 8 = type_get_bytes t"
  by (cases t) (simp_all add: wide_def word_le_nat_alt)

lemma sum_vol: "\<forall>j < n. 0 < S j \<Longrightarrow> (\<Sum>j<n. (S j - 1) * vol S j) + 1 = vol S n"
proof (induction n)
  case (Suc n)
  then have "(\<Sum>j<Suc n. (S j - 1) * vol S j) + 1 = vol S n + (S n - 1) * vol S n" by simp
  also have "\<dots> = Suc (S n - 1) * vol S n" by simp
  also have "Suc (S n - 1) = S n" using Suc.prems by simp
  finally show ?case by (simp add: mult.commute)
qed simp

lemma vol_le: "i \<le> n \<Longrightarrow> \<forall>j < n. 0 < S j \<Longrightarrow> vol S i \<le> vol S n"
  unfolding vol_def by (intro dvd_imp_le prod_dvd_prod_subset prod_pos) auto

lemma strides_ok:
  assumes t: "wide t" and n: "2 \<le> n" "n \<le> 8" "n \<le> length shape" and pos: "\<forall>k < n. 0 < dim shape k"
    and small: "vol (dim shape) n * unat (type_get_bytes t) < 2 ^ 32"
  obtains st tb where "GetStrideSizeBySize shape n t (replicate 8 0) = Some (st, tb)" "length st = 8"
    "\<forall>i < n. dim st i = vol (dim shape) i * unat (type_get_bytes t)"
proof -
  let ?b = "type_get_bytes t" and ?s0 = "(replicate 8 0 :: vsi_size_t list)[0 := type_get_bytes t]"
  have nb: "\<not> (type_get_bits t < 8 \<and> type_get_bits t \<noteq> 0)" using t leD[of 8 "type_get_bits t"] by (simp add: wide_def)
  have "shape ! k \<noteq> 0" if k: "k < n" for k using pos[rule_format, OF k] by (auto simp: dim_def)
  then have nz: "0 \<notin> set (take (n - 1) (drop 1 shape))" using n by (auto simp: in_set_conv_nth)
  have prods: "unat (shape ! 0) * num_elems (take (n - 1) (drop 1 shape)) = vol (dim shape) n"
  proof -
    have "take n shape = shape ! 0 # take (n - 1) (drop 1 shape)" using n by (cases shape; cases n) auto
    then show ?thesis using num_elems_prod[OF n(3)] by (simp add: vol_def)
  qed
  have s0: "1 \<le> unat (shape ! 0)" using pos n by (auto simp: dim_def Suc_le_eq)
  have "unat ?b * num_elems (take (n - 1) (drop 1 shape)) \<le>
      unat (shape ! 0) * (unat ?b * num_elems (take (n - 1) (drop 1 shape)))" using s0 by simp
  also have "\<dots> = vol (dim shape) n * unat ?b" unfolding prods[symmetric] by (simp only: mult.assoc mult.commute mult.left_commute)
  finally have b: "unat ?b * num_elems (take (n - 1) (drop 1 shape)) < 2 ^ 32" using small by linarith
  have "1 + (n - 1) \<le> length shape" using n by simp
  from shape_product_loop_eq[OF this nz b] obtain p where p: "shape_product_loop shape 1 (n - 1) ?b = Some p" by blast
  obtain st2 where st2: "stride_loop shape 1 (n - 1) ?s0 ?b = map_option (Pair st2) (shape_product_loop shape 1 (n - 1) ?b)"
    "length st2 = 8" "take 1 st2 = take 1 ?s0"
    "\<forall>k. 1 \<le> k \<and> k < 1 + (n - 1) \<longrightarrow> st2 ! k = st2 ! (k - 1) * shape ! (k - 1)"
    using stride_loop_eq[of 1 "n - 1" shape ?s0 ?b] n by auto
  have st0: "st2 ! 0 = ?b" using arg_cong[OF st2(3), of "\<lambda>xs. xs ! 0"] st2(2) by simp
  have strides: "i < n \<Longrightarrow> unat (st2 ! i) = vol (dim shape) i * unat ?b" for i
  proof (induction i)
    case (Suc i)
    have le: "vol (dim shape) (Suc i) * unat ?b \<le> vol (dim shape) n * unat ?b"
      using Suc.prems pos by (intro mult_le_mono1 vol_le) simp_all
    have d: "unat (shape ! i) = dim shape i" by (simp add: dim_def)
    have "unat (st2 ! i) * unat (shape ! i) = vol (dim shape) (Suc i) * unat ?b"
      using Suc unfolding d by simp
    then have lt: "unat (st2 ! i) * unat (shape ! i) < 2 ^ 32" using le small by linarith
    have "st2 ! Suc i = st2 ! i * shape ! i" using st2(4)[rule_format, of "Suc i"] Suc.prems by simp
    moreover have "unat (st2 ! i * shape ! i) = unat (st2 ! i) * unat (shape ! i)"
      using lt by (intro unat_mult_no_overflow) simp
    ultimately show ?case using Suc unfolding d by simp
  qed (simp add: st0)
  obtain st' where st': "fill_strides st2 n (8 - n) (p * shape ! 0) = Some st'" "length st' = 8" "take n st' = take n st2"
    using fill_strides_eq[of n "8 - n" st2 "p * shape ! 0"] n st2(2) by auto
  have "st' ! i = st2 ! i" if i: "i < n" for i using arg_cong[OF st'(3), of "\<lambda>xs. xs ! i"] i by simp
  then have fin: "\<forall>i < n. dim st' i = vol (dim shape) i * unat ?b" using strides by (simp add: dim_def)
  have "0 < length shape" using n(1,3) by linarith
  then have "GetStrideSizeBySize shape n t (replicate 8 0) = Some (st', p * shape ! 0)"
    using st2(1) p st'(1) nb unfolding GetStrideSizeBySize_def Let_def wide_bytes[OF t]
    by (simp add: if_not_P[OF nb])
  then show thesis using that st'(2) fin by blast
qed

text \<open>The bytes that a permutation collects from a tensor.\<close>

definition collect :: "vsi_size_t list \<Rightarrow> vsi_size_t list \<Rightarrow> nat \<Rightarrow> uint8 list \<Rightarrow> nat \<Rightarrow> uint8 list" where
  "collect shape perm u data n =
     gather (sizes_of shape perm) (\<lambda>i. vol (dim shape) (dim perm i) * u) u data n 0"

lemma gather_cong:
  "\<forall>i < L. D i = D' i \<and> S i = S' i \<Longrightarrow> gather D S u data L a = gather D' S' u data L a"
  by (induction L arbitrary: a) simp_all

lemma span_total:
  assumes P: "bij_betw P {..<n} {..<n}" and pos: "\<forall>k < n. 0 < S k"
  shows "span (\<lambda>i. S (P i)) (\<lambda>i. vol S (P i) * u) n + u = vol S n * u"
proof -
  have "span (\<lambda>i. S (P i)) (\<lambda>i. vol S (P i) * u) n = (\<Sum>i<n. (\<lambda>j. (S j - 1) * vol S j * u) (P i))"
    by (simp add: span_def mult.assoc)
  also have "\<dots> = (\<Sum>j<n. (S j - 1) * vol S j * u)" by (rule sum_permute[OF P])
  also have "\<dots> = (\<Sum>j<n. (S j - 1) * vol S j) * u" by (simp add: sum_distrib_right)
  finally show ?thesis using sum_vol[OF pos] by (metis add_mult_distrib mult_1)
qed

lemma Permute_ok:
  assumes p: "perm_ok n perm" and f: "fits n shape t data" and t: "wide t" and len: "num_bytes n shape t \<le> length dst"
  shows "Permute dst data shape n perm t = Some (put dst 0 (collect shape perm (unat (type_get_bytes t)) data n))"
    "length (collect shape perm (unat (type_get_bytes t)) data n) = num_bytes n shape t"
proof -
  let ?u = "unat (type_get_bytes t)" and ?D = "sizes_of shape perm"
  let ?V = "\<lambda>i. vol (dim shape) (dim perm i) * ?u"
  note P = perm_okD[OF p]
  have S: "n \<le> length shape" "\<forall>k < n. 0 < dim shape k" "vol (dim shape) n * ?u < 2 ^ 32" "vol (dim shape) n * ?u \<le> length data"
    using f by (auto simp: fits_def vol_def)
  obtain ds where ds: "permuted_shape shape (of_nat n) perm 0 n (replicate 8 0) = Some (Some ds)"
    "length ds = 8" "\<forall>j < n. ds ! j = shape ! dim perm j"
    using permuted_shape_ok[of n perm "replicate 8 0" shape 0 n "replicate 8 0"] P S by auto
  have D: "\<forall>j < n. dim ds j = ?D j" using ds(3) by (simp add: dim_def sizes_of_def)
  have volD: "vol (dim ds) i = vol ?D i" if i: "i \<le> n" for i using D i by (simp add: vol_def)
  have vol_n: "vol ?D n = vol (dim shape) n" using prod_permute[OF P(4), of "dim shape"] by (simp add: vol_def sizes_of_def)
  have Dpos: "\<forall>i < n. 0 < ?D i" using S(2) P(5) by (simp add: sizes_of_def)
  obtain os tb where os: "GetStrideSizeBySize shape n t (replicate 8 0) = Some (os, tb)" "length os = 8"
    "\<forall>i < n. dim os i = vol (dim shape) i * ?u"
    by (rule strides_ok[OF t P(2,1) S(1,2,3)]) (rule that; assumption)
  have ds_ok: "n \<le> length ds" "\<forall>k < n. 0 < dim ds k" "vol (dim ds) n * ?u < 2 ^ 32"
    using ds(2) P(1) D Dpos volD[of n] vol_n S(3) by simp_all
  obtain dss tb2 where dss: "GetStrideSizeBySize ds n t (replicate 8 0) = Some (dss, tb2)" "length dss = 8"
    "\<forall>i < n. dim dss i = vol (dim ds) i * ?u"
    by (rule strides_ok[OF t P(2,1) ds_ok]) (rule that; assumption)
  have so: "\<forall>i < n. sizes_of os perm i = ?V i" using os(3) P(5) by (simp add: sizes_of_def)
  have sp: "span ?D (sizes_of os perm) n = span ?D ?V n" using so by (simp add: span_def)
  have total: "span ?D ?V n + ?u = vol (dim shape) n * ?u"
    using span_total[OF P(4) S(2), of ?u] by (simp add: sizes_of_def[abs_def])
  then have "span ?D (sizes_of os perm) n < 2 ^ 32" using sp S(3) by linarith
  then have W: "walk_ok n shape perm os dss ?u"
    using P S(1) os(2) dss(2,3) Dpos volD by (simp add: walk_ok_def)
  have L: "1 \<le> n - 1" "n - 1 < n" "Suc (n - 1) = n" using P(2) by simp_all
  have G: "gather ?D (sizes_of os perm) ?u data n 0 = collect shape perm ?u data n"
    unfolding collect_def using so by (intro gather_cong) simp
  have "permute_loop shape perm os dss ?u data (permute_start n dst) = Some (put dst 0 (collect shape perm ?u data n))"
    using walks_all[OF W L(1,2), of data, unfolded walks_def L(3), rule_format,
        of 0 "replicate 8 0" "replicate 8 0" "replicate 8 0" 0 0 dst] sp total S(4) len vol_n
    by (simp add: leaves_def G permute_start_def VSI_NN_MAX_DIM_NUM_def num_bytes_def vol_def)
  then show "Permute dst data shape n perm t = Some (put dst 0 (collect shape perm ?u data n))"
    using P(1,2) ds(1) os(1) dss(1) by (simp add: Permute_def VSI_NN_MAX_DIM_NUM_def)
  show "length (collect shape perm ?u data n) = num_bytes n shape t"
    using length_gather[of 0 ?D ?V n ?u data] total S(4) vol_n by (simp add: collect_def num_bytes_def vol_def)
qed

subsection \<open>Permutation and transposition\<close>

text \<open>A position in memory when the first dimension is the fastest.\<close>

definition lin :: "(nat \<Rightarrow> nat) \<Rightarrow> nat \<Rightarrow> (nat \<Rightarrow> nat) \<Rightarrow> nat" where
  "lin S n c = (\<Sum>i<n. c i * vol S i)"

lemma lin_less: "\<forall>i < n. c i < S i \<Longrightarrow> lin S n c < vol S n"
proof (induction n)
  case (Suc n)
  have "Suc (c n) * vol S n \<le> S n * vol S n" using Suc.prems by (intro mult_le_mono1) (simp add: Suc_leI)
  then show ?case using Suc by (simp add: lin_def mult.commute)
qed (simp add: lin_def)

lemma block_middle:
  assumes "length xs = k * N * u" "length g = N * u" "x < N"
  shows "block u (x + k * N) (xs @ g @ ys) = block u x g"
proof -
  have "Suc x * u \<le> N * u" using assms(3) by (intro mult_le_mono1) simp
  then have "x * u + u \<le> length g" using assms(2) by simp
  moreover have "(x + k * N) * u = length xs + x * u" using assms(1) by (simp add: algebra_simps)
  ultimately show ?thesis by (simp add: block_def)
qed

text \<open>An element of the collected bytes.\<close>

lemma gather_block:
  "\<forall>i < L. e i < D i \<Longrightarrow> a + span D S L + u \<le> length data \<Longrightarrow>
   block u (lin D L e) (gather D S u data L a) = take u (drop (a + (\<Sum>i<L. e i * S i)) data)"
proof (induction L arbitrary: a)
  case 0
  then show ?case by (simp add: block_def lin_def)
next
  case (Suc L)
  let ?k = "e L"
  let ?g = "\<lambda>k. gather D S u data L (a + k * S L)"
  have k: "?k < D L" using Suc.prems(1) by simp
  have ok: "a + ?k * S L + span D S L + u \<le> length data" using span_step[of ?k D L S] k Suc.prems(2) by simp
  have "[0..<D L] = [0..<?k] @ ?k # [Suc ?k..<D L]" 
    using k upt_add_eq_append[of 0 ?k "D L - ?k"] upt_conv_Cons[of ?k "D L"] by simp
  then have g: "gather D S u data (Suc L) a = part D S u data L a ?k @ ?g ?k @ concat (map ?g [Suc ?k..<D L])"
    by (simp add: part_def)
  have "length (part D S u data L a ?k) = ?k * vol D L * u"
    using length_part[OF Suc.prems(2), of ?k] k by (simp add: mult.assoc)
  moreover have "lin D L e < vol D L" using Suc.prems(1) by (intro lin_less) simp
  ultimately have "block u (lin D L e + ?k * vol D L) (gather D S u data (Suc L) a) = block u (lin D L e) (?g ?k)"
    unfolding g by (intro block_middle length_gather[OF ok])
  then show ?case using Suc.IH[OF _ ok] Suc.prems(1) by (simp add: lin_def ac_simps del: gather.simps)
qed

text \<open>Turning the order of the dimensions around.\<close>

lemma st_rev: "i < n \<Longrightarrow> st (\<lambda>i. S (n - 1 - i)) n i = vol S (n - 1 - i)"
proof -
  assume i: "i < n"
  have "bij_betw (\<lambda>k. n - 1 - k) {Suc i..<n} {..<n - 1 - i}"
    using i by (intro bij_betw_byWitness[where f' = "\<lambda>k. n - 1 - k"]) auto
  then show ?thesis unfolding st_def vol_def by (rule prod.reindex_bij_betw)
qed

lemma rev_bij: "bij_betw (\<lambda>k. n - 1 - k) {..<n} {..<n}" for n :: nat
  by (intro bij_betw_byWitness[where f' = "\<lambda>k. n - 1 - k"]) auto

lemma at_pos_rev: "at_pos (\<lambda>i. S (n - 1 - i)) n (\<lambda>i. c (n - 1 - i)) = lin S n c"
proof -
  have "at_pos (\<lambda>i. S (n - 1 - i)) n (\<lambda>i. c (n - 1 - i)) = (\<Sum>i<n. c (n - 1 - i) * vol S (n - 1 - i))"
    unfolding at_pos_def by (intro sum.cong refl) (subst st_rev; simp)
  also have "\<dots> = lin S n c"
    unfolding lin_def by (rule sum_permute[OF rev_bij, of "\<lambda>j. c j * vol S j"])
  finally show ?thesis .
qed

definition rev_perm :: "nat \<Rightarrow> vsi_size_t list \<Rightarrow> vsi_size_t list" where
  "rev_perm n perm = map (\<lambda>i. of_nat (n - 1 - dim perm (n - 1 - i))) [0..<n]"

lemma dim_rev_perm:
  assumes "perm_ok n perm" "i < n"
  shows "dim (rev_perm n perm) i = n - 1 - dim perm (n - 1 - i)"
proof -
  have "n - 1 - dim perm (n - 1 - i) < 2 ^ 32" using perm_okD(1)[OF assms(1)] by simp
  then show ?thesis using assms(2) by (simp add: dim_def rev_perm_def unat_of_nat take_bit_nat_eq_self)
qed

lemma rev_perm_ok:
  assumes "perm_ok n perm"
  shows "perm_ok n (rev_perm n perm)"
proof -
  note P = perm_okD[OF assms]
  have "bij_betw ((\<lambda>k. n - 1 - k) \<circ> (dim perm \<circ> (\<lambda>k. n - 1 - k))) {..<n} {..<n}"
    by (intro bij_betw_trans[OF _ rev_bij] bij_betw_trans[OF rev_bij P(4)])
  then have "bij_betw (dim (rev_perm n perm)) {..<n} {..<n}"
    using dim_rev_perm[OF assms] by (subst bij_betw_cong) (auto simp: comp_def)
  then show ?thesis using P by (simp add: perm_ok_def VSI_NN_MAX_DIM_NUM_def rev_perm_def)
qed

lemma dim_rev_shape: "n \<le> length shape \<Longrightarrow> i < n \<Longrightarrow> dim (rev (take n shape)) i = dim shape (n - 1 - i)"
  by (simp add: dim_def rev_nth)

lemma fits_rev:
  assumes "fits n shape t data"
  shows "fits n (rev (take n shape)) t data"
    "(\<Prod>k<n. dim (rev (take n shape)) k) = (\<Prod>k<n. dim shape k)"
proof -
  have n: "n \<le> length shape" using assms by (simp add: fits_def)
  have "(\<Prod>k<n. dim (rev (take n shape)) k) = (\<Prod>k<n. dim shape (n - 1 - k))"
    using n by (intro prod.cong) (simp_all add: dim_rev_shape)
  then show N: "(\<Prod>k<n. dim (rev (take n shape)) k) = (\<Prod>k<n. dim shape k)"
    using prod_permute[OF rev_bij, of "dim shape" n] by simp
  show "fits n (rev (take n shape)) t data"
    using assms n unfolding fits_def N by (simp add: dim_rev_shape)
qed

lemma at_pos_cong: "\<forall>i < n. S i = S' i \<and> c i = c' i \<Longrightarrow> at_pos S n c = at_pos S' n c'"
  unfolding at_pos_def st_def by (intro sum.cong refl arg_cong2[where f = "(*)"] prod.cong) simp_all

text \<open>Every position of the permuted tensor belongs to coordinates of the tensor.\<close>

lemma position_coords:
  assumes P: "bij_betw P {..<n} {..<n}" and pos: "\<forall>j < n. 0 < S j" and x: "x < (\<Prod>k<n. S k)"
  obtains d where "\<forall>j < n. d j < S j" "lin (\<lambda>i. S (P i)) n (\<lambda>i. d (P i)) = x"
proof -
  let ?D = "\<lambda>i. S (P (n - 1 - i))"
  let ?e = "\<lambda>i. digit ?D n x (n - 1 - i)"
  have Pn: "P i < n" if i: "i < n" for i using P i by (auto simp: bij_betw_def)
  obtain d where d: "\<forall>i < n. d (P i) = ?e i" by (rule bij_coords[OF P])
  have "(\<Prod>k<n. ?D k) = (\<Prod>k<n. S k)"
    using prod_permute[OF rev_bij, of "\<lambda>i. S (P i)" n] prod_permute[OF P, of S] by simp
  then have "at_pos ?D n (digit ?D n x) = x" using x by (intro at_pos_digits) simp
  moreover have "at_pos ?D n (digit ?D n x) = at_pos ?D n (\<lambda>i. d (P (n - 1 - i)))"
    using d by (simp add: at_pos_def)
  moreover have "at_pos ?D n (\<lambda>i. d (P (n - 1 - i))) = lin (\<lambda>i. S (P i)) n (\<lambda>i. d (P i))"
    by (rule at_pos_rev[of "\<lambda>i. S (P i)" n "\<lambda>i. d (P i)"])
  ultimately have eq: "lin (\<lambda>i. S (P i)) n (\<lambda>i. d (P i)) = x" by simp
  have "d (P i) < S (P i)" if i: "i < n" for i
    using d i digit_less[of ?D "n - 1 - i" n x] pos Pn by simp
  then have "\<forall>j < n. d j < S j" using bij_all[OF P, of "\<lambda>j. d j < S j"] by simp
  then show thesis using that eq by blast
qed

lemma collect_block:
  assumes p: "perm_ok n perm" and f: "fits n shape t data" and d: "\<forall>j < n. d j < dim shape j"
  shows "block (unat (type_get_bytes t)) (lin (sizes_of shape perm) n (\<lambda>i. d (dim perm i)))
      (collect shape perm (unat (type_get_bytes t)) data n) =
    block (unat (type_get_bytes t)) (lin (dim shape) n d) data"
proof -
  let ?u = "unat (type_get_bytes t)"
  note P = perm_okD[OF p]
  have S: "\<forall>k < n. 0 < dim shape k" "vol (dim shape) n * ?u \<le> length data" using f by (auto simp: fits_def vol_def)
  have "(\<Sum>i<n. d (dim perm i) * (vol (dim shape) (dim perm i) * ?u)) = (\<Sum>j<n. d j * (vol (dim shape) j * ?u))"
    by (rule sum_permute[OF P(4), of "\<lambda>j. d j * (vol (dim shape) j * ?u)"])
  also have "\<dots> = lin (dim shape) n d * ?u" by (simp add: lin_def sum_distrib_right mult.assoc)
  finally have off: "(\<Sum>i<n. d (dim perm i) * (vol (dim shape) (dim perm i) * ?u)) = lin (dim shape) n d * ?u" .
  show ?thesis
    unfolding collect_def
    using gather_block[of n "\<lambda>i. d (dim perm i)" "sizes_of shape perm" 0
        "\<lambda>i. vol (dim shape) (dim perm i) * ?u" ?u data] d P(5) span_total[OF P(4) S(1), of ?u] S(2) off
    by (simp add: sizes_of_def[abs_def] block_def)
qed

text \<open>
  C28: The stack machine of \<open>vsi_nn_Permute\<close> computes what nested loops over the dimensions
  compute: for a permutation of 2 to 8 dimensions, elements of at least a byte and buffers that
  hold the tensor, its loop ends, and the destination is the bytes collected by the recursive
  walk over the permuted dimensions (innermost first), followed by its untouched rest.
\<close>

theorem permute_stack_machine:
  assumes "perm_ok n perm" "fits n shape t data" "wide t" "num_bytes n shape t \<le> length dst"
  shows "Permute dst data shape n perm t = Some (put dst 0 (collect shape perm (unat (type_get_bytes t)) data n)) \<and>
    length (collect shape perm (unat (type_get_bytes t)) data n) = num_bytes n shape t"
  using Permute_ok[OF assms] by blast

text \<open>
  C29: \<open>vsi_nn_Permute\<close> and \<open>vsi_nn_Transpose\<close> agree: permuting a tensor whose first dimension
  is the fastest gives the bytes that transposing it gives when its dimensions are written in
  the other order, with the permutation turned around.
\<close>

theorem permute_is_transpose:
  assumes p: "perm_ok n perm" and f: "fits n shape t data" and t: "wide t" and len: "num_bytes n shape t \<le> length dst"
  shows "\<exists>r r'. Permute dst data shape n perm t = Some r \<and>
    Transpose dst data (rev (take n shape)) n (rev_perm n perm) t = Some r' \<and>
    take (num_bytes n shape t) r = take (num_bytes n shape t) r'"
proof -
  let ?u = "unat (type_get_bytes t)" and ?N = "\<Prod>k<n. dim shape k" and ?R = "rev (take n shape)"
  let ?P = "dim perm" and ?Q = "dim (rev_perm n perm)"
  let ?c = "collect shape perm ?u data n"
  note P = perm_okD[OF p]
  have S: "n \<le> length shape" "\<forall>k < n. 0 < dim shape k" using f by (auto simp: fits_def)
  have Q: "?Q i = n - 1 - ?P (n - 1 - i)" if i: "i < n" for i using dim_rev_perm[OF p i] .
  have R: "dim ?R i = dim shape (n - 1 - i)" if i: "i < n" for i using dim_rev_shape[OF S(1) i] .
  have RQ: "dim ?R (?Q i) = dim shape (?P (n - 1 - i))" "n - 1 - ?Q i = ?P (n - 1 - i)" if i: "i < n" for i
  proof -
    have "?P (n - 1 - i) < n" using P(5) i by simp
    then have "n - 1 - ?P (n - 1 - i) < n" "n - 1 - (n - 1 - ?P (n - 1 - i)) = ?P (n - 1 - i)" using i by linarith+
    then show "dim ?R (?Q i) = dim shape (?P (n - 1 - i))" "n - 1 - ?Q i = ?P (n - 1 - i)"
      using R[of "?Q i"] Q[OF i] by (simp_all only:)
  qed
  have len_R: "(\<Prod>k<n. dim ?R k) * ?u \<le> length dst" using len fits_rev(2)[OF f] by (simp add: num_bytes_def)
  obtain r' where r': "Transpose dst data ?R n (rev_perm n perm) t = Some r'" "length r' = length dst"
    "\<forall>d. (\<forall>j < n. d j < dim ?R j) \<longrightarrow>
       block ?u (at_pos (\<lambda>i. dim ?R (?Q i)) n (\<lambda>i. d (?Q i))) r' = block ?u (at_pos (dim ?R) n d) data"
    by (rule Transpose_coords[OF rev_perm_ok[OF p] fits_rev(1)[OF f] len_R]) (rule that; assumption)
  have "block ?u x ?c = block ?u x r'" if x: "x < ?N" for x
  proof -
    obtain d where d: "\<forall>j < n. d j < dim shape j" "lin (\<lambda>i. dim shape (?P i)) n (\<lambda>i. d (?P i)) = x"
      by (rule position_coords[OF P(4) S(2) x]) (rule that; assumption)
    let ?d = "\<lambda>j. d (n - 1 - j)"
    have "?d j < dim ?R j" if j: "j < n" for j
      using d(1)[rule_format, of "n - 1 - j"] j unfolding R[OF j] by simp
    then have "block ?u (at_pos (\<lambda>i. dim ?R (?Q i)) n (\<lambda>i. ?d (?Q i))) r' = block ?u (at_pos (dim ?R) n ?d) data"
      by (intro r'(3)[rule_format])
    moreover have "at_pos (\<lambda>i. dim ?R (?Q i)) n (\<lambda>i. ?d (?Q i)) =
        at_pos (\<lambda>i. dim shape (?P (n - 1 - i))) n (\<lambda>i. d (?P (n - 1 - i)))"
      by (intro at_pos_cong allI impI) (simp only: RQ)
    moreover have "\<dots> = x" using at_pos_rev[of "\<lambda>i. dim shape (?P i)" n "\<lambda>i. d (?P i)"] d(2) by simp
    moreover have "at_pos (dim ?R) n ?d = at_pos (\<lambda>i. dim shape (n - 1 - i)) n ?d"
      by (intro at_pos_cong allI impI) (simp only: R)
    moreover have "\<dots> = lin (dim shape) n d" by (rule at_pos_rev)
    moreover have "block ?u x ?c = block ?u (lin (dim shape) n d) data"
      using collect_block[OF p f d(1)] d(2) by (simp add: sizes_of_def[abs_def])
    ultimately show ?thesis by simp
  qed
  then have "take (?N * ?u) ?c = take (?N * ?u) r'" by (intro blocks_eq) simp
  moreover have "take (?N * ?u) (put dst 0 ?c) = ?c"
    using Permute_ok(2)[OF p f t len] by (simp add: put_def num_bytes_def)
  ultimately show ?thesis
    using Permute_ok[OF p f t len] r'(1) by (simp add: num_bytes_def)
qed

lemma perm_3: "perm_ok 3 [2, 0, 1]"
proof -
  have "{..<3} = {0, Suc 0, 2}" by auto
  then have "bij_betw (dim [2, 0, 1]) {..<3} {..<3}"
    by (auto simp: bij_betw_def inj_on_def dim_def)
  then show ?thesis by (simp add: perm_ok_def VSI_NN_MAX_DIM_NUM_def)
qed

lemma tensor_2_2_2:
  "num_bytes 3 [2, 2, 2] TYPE_INT8 = 8" "fits 3 [2, 2, 2] TYPE_INT8 [1, 2, 3, 4, 5, 6, 7, 8]" "wide TYPE_INT8"
proof -
  have s: "{..<3} = {0, Suc 0, 2}" "(\<forall>k < 3. Q k) \<longleftrightarrow> Q 0 \<and> Q (Suc 0) \<and> Q 2" for Q
    by (auto simp: less_Suc_eq numeral_3_eq_3 numeral_2_eq_2)
  show "num_bytes 3 [2, 2, 2] TYPE_INT8 = 8" "fits 3 [2, 2, 2] TYPE_INT8 [1, 2, 3, 4, 5, 6, 7, 8]" "wide TYPE_INT8"
    by (simp_all add: num_bytes_def fits_def dim_def s wide_def)
qed

lemma collect_example: "collect [2, 2, 2] [2, 0, 1] 1 [1, 2, 3, 4, 5, 6, 7, 8] 3 = [1, 5, 2, 6, 3, 7, 4, 8]"
  by code_simp

theorem permute_stack_machine_witness:
  "Permute (replicate 9 0) [1, 2, 3, 4, 5, 6, 7, 8] [2, 2, 2] 3 [2, 0, 1] TYPE_INT8 =
   Some [1, 5, 2, 6, 3, 7, 4, 8, 0]"
  using permute_stack_machine[of 3 "[2, 0, 1]" "[2, 2, 2]" TYPE_INT8 "[1, 2, 3, 4, 5, 6, 7, 8]" "replicate 9 0"]
    perm_3 tensor_2_2_2 collect_example by (simp add: put_def)

theorem permute_is_transpose_witness:
  "\<exists>r r'. Permute (replicate 8 0) [1, 2, 3, 4, 5, 6, 7, 8] [2, 2, 2] 3 [2, 0, 1] TYPE_INT8 = Some r \<and>
     Transpose (replicate 8 0) [1, 2, 3, 4, 5, 6, 7, 8] [2, 2, 2] 3 (rev_perm 3 [2, 0, 1]) TYPE_INT8 = Some r' \<and>
     take 8 r = take 8 r'"
  using permute_is_transpose[of 3 "[2, 0, 1]" "[2, 2, 2]" TYPE_INT8 "[1, 2, 3, 4, 5, 6, 7, 8]" "replicate 8 0"]
    perm_3 tensor_2_2_2 by simp

end
