(* ===== verification/Rnn.thy ===== *)
theory Rnn
  imports Graph_Optimize Link_List
begin

text \<open>
  Recurrent connections of a graph (\<^verbatim>\<open>src/tim/vx/internal/src/vsi_nn_rnn.c\<close>): before a run the
  inputs get what the outputs held after the run before, by a copy through a buffer or by a swap of
  handles; and the functions of \<^verbatim>\<open>src/vsi_nn_graph.c\<close> that run a graph, with the tensors of
  precompiled nodes that were swapped.

  The result \<open>None\<close> is an access outside of a block, to a missing object or to freed memory.
\<close>

subsection \<open>State\<close>

text \<open>The codes of the element types; the other codes have the size of \<open>TYPE_NONE\<close>.\<close>

definition type_codes :: "(int \<times> vsi_nn_type) list" where
  "type_codes =
     [(0x2, TYPE_INT8), (0x3, TYPE_UINT8), (0x4, TYPE_INT16), (0x5, TYPE_UINT16), (0x6, TYPE_INT32), (0x7, TYPE_UINT32),
      (0x8, TYPE_INT64), (0x9, TYPE_UINT64), (0xA, TYPE_FLOAT32), (0xB, TYPE_FLOAT64), (0xF, TYPE_FLOAT16), (0x11, TYPE_BOOL8),
      (0x12, TYPE_INT4), (0x13, TYPE_UINT4), (0x81A, TYPE_BFLOAT16), (0x81E, TYPE_FLOAT8_E4M3), (0x81F, TYPE_FLOAT8_E5M2)]"

definition attr_type :: "tensor_attr \<Rightarrow> vsi_nn_type" where
  "attr_type a = (case map_of type_codes (attr_vx_type a) of None \<Rightarrow> TYPE_NONE | Some t \<Rightarrow> t)"

definition attr_bytes :: "tensor_attr \<Rightarrow> vsi_size_t option" where
  "attr_bytes a = GetTensorSize (attr_size a) (unat (attr_dim_num a)) (attr_type a)"

text \<open>The block of a buffer: no block, its bytes, or a block that was freed.\<close>

datatype rnn_block = Block_Null | Block "uint8 list" | Block_Freed

record rnn_conn =
  rc_output :: tensor_id
  rc_inputs :: "tensor_id list"
  rc_attr :: "tensor_attr option"
  rc_data :: rnn_block
  rc_size :: vsi_size_t
  rc_count :: uint32
  rc_swap :: bool

record rnn_wksp =
  rk_list :: "addr option"
  rk_first :: bool

text \<open>
  \<open>rw_built\<close> says that the graph has a driver graph; a cache item has node, slot and tensor. The user
  data of the workspace, which no function reads, are left out. \<open>rw_blocks\<close> counts the blocks of the
  C heap that were allocated for the workspace, its connections and their buffers and not freed: every
  \<open>malloc\<close> adds one, every \<open>free\<close> of a block takes one away, and a block whose address is lost stays.
\<close>

record 's rworld =
  rw_graph :: "'s graph"
  rw_built :: bool
  rw_links :: heap
  rw_conns :: "addr \<Rightarrow> rnn_conn option"
  rw_wksp :: "rnn_wksp option"
  rw_blocks :: int
  rw_cache_on :: bool
  rw_cached :: bool
  rw_cache :: "(ptr \<times> nat \<times> ptr) list"

text \<open>
  The driver: \<open>copy_to\<close> is \<open>vsi_nn_CopyDataToTensor\<close>, \<open>read_data\<close> is \<open>vsi_nn_ConvertTensorToData\<close>,
  \<open>store_default\<close> is \<open>vsi_nn_Float32ToDtype\<close> at \<open>0.0\<close> with the bytes it writes; the others are
  \<open>vxSwapTensor\<close>, \<open>vxSetParameterByIndex\<close>, \<open>vxProcessGraph\<close>, \<open>vxScheduleGraph\<close> and \<open>vxWaitGraph\<close>.
\<close>

record 's rdrv =
  copy_to :: "vtensor \<Rightarrow> uint8 list \<Rightarrow> 's \<Rightarrow> 's \<times> vsi_status"
  read_data :: "'s \<Rightarrow> vtensor \<Rightarrow> uint8 list option"
  store_default :: "tensor_attr \<Rightarrow> vsi_status \<times> uint8 list"
  swap_raw :: "ptr option \<Rightarrow> ptr option \<Rightarrow> 's \<Rightarrow> 's \<times> vsi_status"
  set_param :: "ptr \<Rightarrow> nat \<Rightarrow> ptr option \<Rightarrow> 's \<Rightarrow> 's \<times> vsi_status"
  process_graph :: "'s \<Rightarrow> 's \<times> vsi_status"
  schedule_graph :: "'s \<Rightarrow> 's \<times> vsi_status"
  wait_graph :: "'s \<Rightarrow> 's \<times> vsi_status"

subsection \<open>Buffers\<close>

fun default_loop ::
  "'s rdrv \<Rightarrow> tensor_attr \<Rightarrow> nat \<Rightarrow> nat \<Rightarrow> vsi_status \<Rightarrow> uint8 list \<Rightarrow> (bool \<times> vsi_status \<times> uint8 list) option" where
  "default_loop drv a i 0 status data = Some (True, status, data)"
| "default_loop drv a i (Suc n) status data = do {
     let (st, bytes) = store_default drv a;
     data' \<leftarrow> memcpy data (unat (of_nat i * type_get_bytes (attr_type a))) bytes 0 (length bytes);
     if st \<noteq> VSI_SUCCESS then Some (False, st, data') else default_loop drv a (Suc i) n st data' }"

text \<open>
  \<open>malloc\<close> gives the bytes of a new block. The status is a failure from the start, so for a tensor
  without elements the block is freed although the buffer keeps its address. \<open>m\<close> is the number of
  blocks in use.
\<close>

definition internal_buffer_init ::
  "'s rdrv \<Rightarrow> (nat \<Rightarrow> uint8 list option) \<Rightarrow> vtensor option \<Rightarrow> rnn_conn \<Rightarrow> int \<Rightarrow> (rnn_conn \<times> int \<times> vsi_status) option" where
  "internal_buffer_init drv malloc tensor c m =
     (case tensor of
        None \<Rightarrow> Some (c, m, VSI_FAILURE)
      | Some t \<Rightarrow>
          if attr_vtl (t_attr t) then Some (c, m, VSI_FAILURE)
          else do {
            let c1 = c\<lparr>rc_attr := Some (t_attr t)\<rparr>;
            data_size \<leftarrow> attr_bytes (t_attr t);
            element_num \<leftarrow> ShapeProduct (attr_size (t_attr t)) (unat (attr_dim_num (t_attr t)));
            case malloc (unat data_size) of
              None \<Rightarrow> Some (c1, m, VSI_FAILURE)
            | Some data \<Rightarrow> do {
                let m1 = m + 1;
                (complete, status, data') \<leftarrow> default_loop drv (t_attr t) 0 (unat element_num) VSI_FAILURE data;
                if \<not> complete then Some (c1, m1 - 1, status)
                else if status = VSI_SUCCESS then Some (c1\<lparr>rc_data := Block data', rc_size := data_size\<rparr>, m1, status)
                else Some (c1\<lparr>rc_data := Block_Freed, rc_size := data_size\<rparr>, m1 - 1, status) } })"

text \<open>The release of the block: nothing without a block, and a second release of a freed one is an error.\<close>

definition internal_buffer_deinit :: "rnn_conn \<Rightarrow> int \<Rightarrow> (rnn_conn \<times> int \<times> vsi_status) option" where
  "internal_buffer_deinit c m =
     (case rc_data c of
        Block_Null \<Rightarrow> Some (c, m, VSI_SUCCESS)
      | Block d \<Rightarrow> Some (c\<lparr>rc_data := Block_Null\<rparr>, m - 1, VSI_SUCCESS)
      | Block_Freed \<Rightarrow> None)"

definition internal_buffer_copy_to_tensor ::
  "'s rdrv \<Rightarrow> rnn_conn \<Rightarrow> tensor_id \<Rightarrow> 's graph \<Rightarrow> ('s graph \<times> vsi_status) option" where
  "internal_buffer_copy_to_tensor drv c tid g =
     (case GetTensor g tid of
        None \<Rightarrow> Some (g, VSI_FAILURE)
      | Some p \<Rightarrow> do {
          n \<leftarrow> attr_bytes (t_attr (g_tensors g p));
          if n \<noteq> rc_size c then Some (g, VSI_FAILURE)
          else case rc_data c of
            Block_Freed \<Rightarrow> None
          | Block_Null \<Rightarrow> Some (g, VSI_FAILURE)
          | Block d \<Rightarrow> (let (s, st) = copy_to drv (g_tensors g p) d (g_ext g) in Some (g\<lparr>g_ext := s\<rparr>, st)) })"

definition internal_buffer_copy_from_tensor ::
  "'s rdrv \<Rightarrow> rnn_conn \<Rightarrow> tensor_id \<Rightarrow> 's graph \<Rightarrow> (rnn_conn \<times> vsi_status) option" where
  "internal_buffer_copy_from_tensor drv c tid g =
     (case GetTensor g tid of
        None \<Rightarrow> Some (c, VSI_FAILURE)
      | Some p \<Rightarrow> do {
          n \<leftarrow> attr_bytes (t_attr (g_tensors g p));
          if n \<noteq> rc_size c then Some (c, VSI_FAILURE)
          else case (rc_data c, read_data drv (g_ext g) (g_tensors g p)) of
            (Block d, Some data) \<Rightarrow> do {
              d' \<leftarrow> memcpy d 0 data 0 (unat n);
              Some (c\<lparr>rc_data := Block d'\<rparr>, VSI_SUCCESS) }
          | (Block_Freed, Some data) \<Rightarrow> None
          | _ \<Rightarrow> Some (c, VSI_FAILURE) })"

subsection \<open>Swapped handles\<close>

definition mark_swapped :: "ptr \<Rightarrow> 's graph \<Rightarrow> 's graph" where
  "mark_swapped p g = g\<lparr>g_tensors := (g_tensors g)(p := (g_tensors g p)\<lparr>t_swapped := True\<rparr>)\<rparr>"

definition stride_bytes :: "tensor_attr \<Rightarrow> vsi_size_t option" where
  "stride_bytes a = map_option snd (GetStrideSizeBySize (attr_size a) (unat (attr_dim_num a)) (attr_type a) (replicate 8 0))"

text \<open>Both sizes are those of the first tensor.\<close>

definition SwapTensorHandle :: "'s rdrv \<Rightarrow> ptr option \<Rightarrow> ptr option \<Rightarrow> 's graph \<Rightarrow> ('s graph \<times> vsi_status) option" where
  "SwapTensorHandle drv tensor0 tensor1 g =
     (case (tensor0, tensor1) of
        (Some p, Some q) \<Rightarrow>
          if \<not> attr_from_handle (t_attr (g_tensors g p)) \<or> \<not> attr_from_handle (t_attr (g_tensors g q)) then Some (g, VSI_FAILURE)
          else do {
            buf_sz0 \<leftarrow> stride_bytes (t_attr (g_tensors g p));
            buf_sz1 \<leftarrow> stride_bytes (t_attr (g_tensors g p));
            if buf_sz0 \<noteq> buf_sz1 then Some (g, VSI_FAILURE)
            else (let (s, st) = swap_raw drv (t_vx (g_tensors g p)) (t_vx (g_tensors g q)) (g_ext g);
                      g1 = g\<lparr>g_ext := s\<rparr>
                  in Some (if st = VSI_SUCCESS then mark_swapped q (mark_swapped p g1) else g1, st)) }
      | _ \<Rightarrow> Some (g, VSI_FAILURE))"

definition SwapTensorHandleWithCache ::
  "'s rdrv \<Rightarrow> ptr option \<Rightarrow> ptr option \<Rightarrow> 's rworld \<Rightarrow> ('s rworld \<times> vsi_status) option" where
  "SwapTensorHandleWithCache drv tensor0 tensor1 w = do {
     (g, st) \<leftarrow> SwapTensorHandle drv tensor0 tensor1 (rw_graph w);
     Some (w\<lparr>rw_cache_on := True, rw_graph := g\<rparr>, st) }"

definition swap_rnn_tensor_handle :: "'s rdrv \<Rightarrow> tensor_id \<Rightarrow> tensor_id \<Rightarrow> 's graph \<Rightarrow> ('s graph \<times> vsi_status) option" where
  "swap_rnn_tensor_handle drv output_id input_id g =
     SwapTensorHandle drv (GetTensor g output_id) (GetTensor g input_id) g"

subsection \<open>Before and after a run\<close>

fun feed_inputs :: "'s rdrv \<Rightarrow> rnn_conn \<Rightarrow> nat \<Rightarrow> nat \<Rightarrow> vsi_status \<Rightarrow> 's graph \<Rightarrow> ('s graph \<times> vsi_status) option" where
  "feed_inputs drv c i 0 status g = Some (g, status)"
| "feed_inputs drv c i (Suc n) status g = do {
     input \<leftarrow> rd (rc_inputs c) i;
     (g', st) \<leftarrow> internal_buffer_copy_to_tensor drv c input g;
     if st \<noteq> VSI_SUCCESS then Some (g', st) else feed_inputs drv c (Suc i) n st g' }"

definition feed_connection :: "'s rdrv \<Rightarrow> rnn_conn \<Rightarrow> vsi_status \<Rightarrow> 's graph \<Rightarrow> ('s graph \<times> vsi_status) option" where
  "feed_connection drv c status g =
     (if rc_swap c then do { input \<leftarrow> rd (rc_inputs c) 0; swap_rnn_tensor_handle drv (rc_output c) input g }
      else feed_inputs drv c 0 (unat (rc_count c)) status g)"

text \<open>The loop runs along the list while the status is a success.\<close>

partial_function (option) feed_loop ::
  "'s rdrv \<Rightarrow> 's rworld \<Rightarrow> addr option \<Rightarrow> vsi_status \<Rightarrow> ('s rworld \<times> vsi_status) option" where
  "feed_loop drv w iter status =
     (case iter of
        None \<Rightarrow> Some (w, status)
      | Some a \<Rightarrow>
          if status \<noteq> VSI_SUCCESS then Some (w, status)
          else do {
            c \<leftarrow> rw_conns w a;
            (g, st) \<leftarrow> feed_connection drv c status (rw_graph w);
            iter' \<leftarrow> LinkListNext (rw_links w) iter;
            feed_loop drv (w\<lparr>rw_graph := g\<rparr>) iter' st })"

definition rnn_feed_internal_state :: "'s rdrv \<Rightarrow> 's rworld \<Rightarrow> ('s rworld \<times> vsi_status) option" where
  "rnn_feed_internal_state drv w =
     (case rw_wksp w of
        None \<Rightarrow> Some (w, VSI_SUCCESS)
      | Some k \<Rightarrow>
          if rk_first k then Some (w\<lparr>rw_wksp := Some (k\<lparr>rk_first := False\<rparr>)\<rparr>, VSI_SUCCESS)
          else feed_loop drv w (rk_list k) VSI_SUCCESS)"

partial_function (option) save_loop ::
  "'s rdrv \<Rightarrow> 's rworld \<Rightarrow> addr option \<Rightarrow> vsi_status \<Rightarrow> ('s rworld \<times> vsi_status) option" where
  "save_loop drv w iter status =
     (case iter of
        None \<Rightarrow> Some (w, status)
      | Some a \<Rightarrow>
          if status \<noteq> VSI_SUCCESS then Some (w, status)
          else do {
            c \<leftarrow> rw_conns w a;
            (c', st) \<leftarrow> (if rc_swap c then Some (c, status)
              else internal_buffer_copy_from_tensor drv c (rc_output c) (rw_graph w));
            iter' \<leftarrow> LinkListNext (rw_links w) iter;
            save_loop drv (w\<lparr>rw_conns := (rw_conns w)(a \<mapsto> c')\<rparr>) iter' st })"

definition rnn_save_internal_state :: "'s rdrv \<Rightarrow> 's rworld \<Rightarrow> ('s rworld \<times> vsi_status) option" where
  "rnn_save_internal_state drv w =
     (case rw_wksp w of None \<Rightarrow> Some (w, VSI_SUCCESS) | Some k \<Rightarrow> save_loop drv w (rk_list k) VSI_SUCCESS)"

subsection \<open>The workspace\<close>

definition free_conn :: "addr \<Rightarrow> 's rworld \<Rightarrow> 's rworld" where
  "free_conn a w = w\<lparr>rw_links := (rw_links w)(a := None), rw_conns := (rw_conns w)(a := None), rw_blocks := rw_blocks w - 1\<rparr>"

partial_function (option) deinit_loop :: "'s rworld \<Rightarrow> addr option \<Rightarrow> 's rworld option" where
  "deinit_loop w root =
     (if root = None then Some w
      else do {
        (h, root', popped) \<leftarrow> LinkListPopStart (rw_links w) root;
        a \<leftarrow> popped;
        c \<leftarrow> rw_conns w a;
        (c', m, st) \<leftarrow> internal_buffer_deinit c (rw_blocks w);
        deinit_loop (free_conn a (w\<lparr>rw_links := h, rw_blocks := m\<rparr>)) root' })"

definition rnn_DeinitWksp :: "'s rworld \<Rightarrow> ('s rworld \<times> vsi_status) option" where
  "rnn_DeinitWksp w =
     (case rw_wksp w of
        None \<Rightarrow> Some (w, VSI_SUCCESS)
      | Some k \<Rightarrow> do { w' \<leftarrow> deinit_loop w (rk_list k); Some (w'\<lparr>rw_wksp := None, rw_blocks := rw_blocks w' - 1\<rparr>, VSI_SUCCESS) })"

text \<open>The comparison of the sizes is a \<open>memcmp\<close> of the first \<open>dim_num\<close> entries.\<close>

definition same_shape :: "tensor_attr \<Rightarrow> tensor_attr \<Rightarrow> bool option" where
  "same_shape a b =
     (if attr_dim_num a \<noteq> attr_dim_num b \<or> attr_vx_type a \<noteq> attr_vx_type b then Some False
      else let n = unat (attr_dim_num a)
           in if n \<le> length (attr_size a) \<and> n \<le> length (attr_size b) then Some (take n (attr_size a) = take n (attr_size b))
              else None)"

definition MAX_RNN_CONNECTION_INPUTS :: nat where "MAX_RNN_CONNECTION_INPUTS = 16"

text \<open>The number of inputs before the end mark, or \<open>None\<close> when an input is missing or does not fit.\<close>

fun check_inputs :: "'s graph \<Rightarrow> tensor_attr \<Rightarrow> tensor_id list \<Rightarrow> nat \<Rightarrow> nat \<Rightarrow> nat option option" where
  "check_inputs g a inputs j 0 = Some (Some j)"
| "check_inputs g a inputs j (Suc n) = do {
     tid \<leftarrow> rd inputs j;
     if tid = TENSOR_ID_NA then Some (Some j)
     else case GetTensor g tid of
       None \<Rightarrow> Some None
     | Some p \<Rightarrow> do {
         same \<leftarrow> same_shape a (t_attr (g_tensors g p));
         if \<not> same then Some None else check_inputs g a inputs (Suc j) n } }"

definition new_conn :: "tensor_id \<times> tensor_id list \<Rightarrow> rnn_conn" where
  "new_conn con = \<lparr>rc_output = fst con, rc_inputs = snd con, rc_attr = None, rc_data = Block_Null, rc_size = 0, rc_count = 0, rc_swap = False\<rparr>"

definition swappable :: "'s graph \<Rightarrow> tensor_attr \<Rightarrow> rnn_conn \<Rightarrow> bool option option" where
  "swappable g a c =
     (if rc_count c = 1 then do {
        tid \<leftarrow> rd (rc_inputs c) 0;
        case GetTensor g tid of
          None \<Rightarrow> Some None
        | Some p \<Rightarrow> Some (Some (attr_from_handle a \<and> attr_from_handle (t_attr (g_tensors g p)))) }
      else Some (Some False))"

text \<open>One connection, with its buffer; the status of the buffer is not looked at.\<close>

definition make_conn ::
  "'s rdrv \<Rightarrow> (nat \<Rightarrow> uint8 list option) \<Rightarrow> tensor_id \<times> tensor_id list \<Rightarrow> 's graph \<Rightarrow> int \<Rightarrow> (rnn_conn \<times> int) option option" where
  "make_conn drv malloc con g m =
     (case GetTensor g (fst con) of
        None \<Rightarrow> Some None
      | Some p \<Rightarrow> do {
          let a = t_attr (g_tensors g p);
          r \<leftarrow> check_inputs g a (snd con) 0 MAX_RNN_CONNECTION_INPUTS;
          case r of
            None \<Rightarrow> Some None
          | Some j \<Rightarrow>
              if j = MAX_RNN_CONNECTION_INPUTS then Some None
              else do {
                let c = (new_conn con)\<lparr>rc_count := of_nat j\<rparr>;
                sw \<leftarrow> swappable g a c;
                case sw of
                  None \<Rightarrow> Some None
                | Some True \<Rightarrow> Some (Some (c\<lparr>rc_swap := True\<rparr>, m))
                | Some False \<Rightarrow> do {
                    (c', m', st) \<leftarrow> internal_buffer_init drv malloc (Some (g_tensors g p)) c m;
                    Some (Some (c', m')) } } })"

text \<open>
  \<open>alloc i\<close> is the address of the \<open>i\<close>-th connection, \<open>malloc a\<close> makes the block of the connection at
  \<open>a\<close>. A connection that is refused is freed.
\<close>

fun init_loop ::
  "'s rdrv \<Rightarrow> (nat \<Rightarrow> addr option) \<Rightarrow> (addr \<Rightarrow> nat \<Rightarrow> uint8 list option) \<Rightarrow> nat \<Rightarrow> (tensor_id \<times> tensor_id list) list
   \<Rightarrow> rnn_wksp \<Rightarrow> 's rworld \<Rightarrow> ('s rworld \<times> vsi_status) option" where
  "init_loop drv alloc malloc i [] k w = Some (w\<lparr>rw_wksp := Some k\<rparr>, VSI_SUCCESS)"
| "init_loop drv alloc malloc i (con # cons) k w =
     (case alloc i of
        None \<Rightarrow> Some (w\<lparr>rw_wksp := Some k\<rparr>, VSI_FAILURE)
      | Some a \<Rightarrow> do {
          let m = rw_blocks w + 1;
          r \<leftarrow> make_conn drv (malloc a) con (rw_graph w) m;
          case r of
            None \<Rightarrow> Some (w\<lparr>rw_wksp := Some k, rw_blocks := m - 1\<rparr>, VSI_FAILURE)
          | Some (c, m') \<Rightarrow> do {
              let w1 = w\<lparr>rw_links := (rw_links w)(a \<mapsto> \<lparr>ll_prev = None, ll_next = None\<rparr>), rw_conns := (rw_conns w)(a \<mapsto> c),
                rw_blocks := m'\<rparr>;
              (h, root) \<leftarrow> LinkListPushEnd (rw_links w1) (rk_list k) (Some a);
              init_loop drv alloc malloc (Suc i) cons (k\<lparr>rk_list := root\<rparr>) (w1\<lparr>rw_links := h\<rparr>) } })"

definition rnn_InitWksp ::
  "'s rdrv \<Rightarrow> bool \<Rightarrow> (nat \<Rightarrow> addr option) \<Rightarrow> (addr \<Rightarrow> nat \<Rightarrow> uint8 list option) \<Rightarrow> (tensor_id \<times> tensor_id list) list
   \<Rightarrow> 's rworld \<Rightarrow> ('s rworld \<times> vsi_status) option" where
  "rnn_InitWksp drv wksp_ok alloc malloc connections w = do {
     (w1, st) \<leftarrow> rnn_DeinitWksp w;
     if \<not> wksp_ok then Some (w1\<lparr>rw_wksp := None\<rparr>, VSI_FAILURE)
     else init_loop drv alloc malloc 0 connections \<lparr>rk_list = None, rk_first = True\<rparr> (w1\<lparr>rw_blocks := rw_blocks w1 + 1\<rparr>) }"

partial_function (option) reset_loop ::
  "'s rdrv \<Rightarrow> (addr \<Rightarrow> nat \<Rightarrow> uint8 list option) \<Rightarrow> 's rworld \<Rightarrow> addr option \<Rightarrow> vsi_status \<Rightarrow> ('s rworld \<times> vsi_status) option" where
  "reset_loop drv malloc w iter status =
     (case iter of
        None \<Rightarrow> Some (w, status)
      | Some a \<Rightarrow>
          if status \<noteq> VSI_SUCCESS then Some (w, status)
          else do {
            c \<leftarrow> rw_conns w a;
            (c', m, st) \<leftarrow> (if rc_swap c then Some (c, rw_blocks w, status)
              else do {
                (c1, m1, st1) \<leftarrow> internal_buffer_deinit c (rw_blocks w);
                internal_buffer_init drv (malloc a)
                  (map_option (g_tensors (rw_graph w)) (GetTensor (rw_graph w) (rc_output c))) c1 m1 });
            iter' \<leftarrow> LinkListNext (rw_links w) iter;
            reset_loop drv malloc (w\<lparr>rw_conns := (rw_conns w)(a \<mapsto> c'), rw_blocks := m\<rparr>) iter' st })"

definition rnn_ResetBuffers ::
  "'s rdrv \<Rightarrow> (addr \<Rightarrow> nat \<Rightarrow> uint8 list option) \<Rightarrow> 's rworld \<Rightarrow> ('s rworld \<times> vsi_status) option" where
  "rnn_ResetBuffers drv malloc w =
     (case rw_wksp w of
        None \<Rightarrow> Some (w, VSI_SUCCESS)
      | Some k \<Rightarrow> reset_loop drv malloc (w\<lparr>rw_wksp := Some (k\<lparr>rk_first := True\<rparr>)\<rparr>) (rk_list k) VSI_SUCCESS)"

subsection \<open>Tensors of precompiled nodes that were swapped\<close>

text \<open>\<open>item_ok\<close> says whether there is memory for a new item of the cache, which goes to the front.\<close>

definition set_parameter_for_swap_handle ::
  "'s rdrv \<Rightarrow> (ptr \<Rightarrow> nat \<Rightarrow> bool) \<Rightarrow> ptr \<Rightarrow> ptr \<Rightarrow> nat \<Rightarrow> 's rworld \<Rightarrow> 's rworld \<times> vsi_status" where
  "set_parameter_for_swap_handle drv item_ok node tensor idx w =
     (let g = rw_graph w;
          (s, st) = set_param drv node idx (t_vx (g_tensors g tensor)) (g_ext g)
      in if st \<noteq> VSI_SUCCESS then (w\<lparr>rw_graph := g\<lparr>g_ext := s\<rparr>\<rparr>, st)
         else let w1 = w\<lparr>rw_graph := g\<lparr>g_ext := s, g_tensors := (g_tensors g)(tensor := (g_tensors g tensor)\<lparr>t_swapped := False\<rparr>)\<rparr>\<rparr>
              in if rw_cache_on w1 \<and> item_ok node idx then (w1\<lparr>rw_cache := (node, idx, tensor) # rw_cache w1\<rparr>, st) else (w1, st))"

fun swapped_slots ::
  "'s rdrv \<Rightarrow> (ptr \<Rightarrow> nat \<Rightarrow> bool) \<Rightarrow> ptr \<Rightarrow> nat \<Rightarrow> tensor_id list \<Rightarrow> vsi_status \<Rightarrow> 's rworld \<Rightarrow> 's rworld \<times> vsi_status" where
  "swapped_slots drv item_ok node idx [] status w = (w, status)"
| "swapped_slots drv item_ok node idx (tid # tids) status w =
     (case GetTensor (rw_graph w) tid of
        None \<Rightarrow> swapped_slots drv item_ok node (Suc idx) tids status w
      | Some p \<Rightarrow>
          if t_swapped (g_tensors (rw_graph w) p) then
            let (w', st) = set_parameter_for_swap_handle drv item_ok node p idx w
            in if st \<noteq> VSI_SUCCESS then (w', st) else swapped_slots drv item_ok node (Suc idx) tids st w'
          else swapped_slots drv item_ok node (Suc idx) tids status w)"

fun swapped_nodes ::
  "'s rdrv \<Rightarrow> (ptr \<Rightarrow> nat \<Rightarrow> bool) \<Rightarrow> node_id list \<Rightarrow> vsi_status \<Rightarrow> 's rworld \<Rightarrow> 's rworld \<times> vsi_status" where
  "swapped_nodes drv item_ok [] status w = (w, status)"
| "swapped_nodes drv item_ok (nid # nids) status w =
     (case GetNode (rw_graph w) nid of
        None \<Rightarrow> swapped_nodes drv item_ok nids status w
      | Some q \<Rightarrow>
          let n = g_nodes (rw_graph w) q
          in if n_op n = OP_NBG_CODE then
               let (w', st) = swapped_slots drv item_ok q 0 (n_inputs n @ n_outputs n) status w
               in if st \<noteq> VSI_SUCCESS then (w', st) else swapped_nodes drv item_ok nids st w'
             else swapped_nodes drv item_ok nids status w)"

fun cached_items :: "'s rdrv \<Rightarrow> (ptr \<times> nat \<times> ptr) list \<Rightarrow> vsi_status \<Rightarrow> 's graph \<Rightarrow> 's graph \<times> vsi_status" where
  "cached_items drv [] status g = (g, status)"
| "cached_items drv ((node, idx, tensor) # items) status g =
     (if status \<noteq> VSI_SUCCESS then (g, status)
      else let (s, st) = set_param drv node idx (t_vx (g_tensors g tensor)) (g_ext g)
           in cached_items drv items st (g\<lparr>g_ext := s\<rparr>))"

definition check_swapped_tensors :: "'s rdrv \<Rightarrow> (ptr \<Rightarrow> nat \<Rightarrow> bool) \<Rightarrow> 's rworld \<Rightarrow> 's rworld \<times> vsi_status" where
  "check_swapped_tensors drv item_ok w =
     (if rw_cache_on w \<and> rw_cached w then
        let (g, st) = cached_items drv (rw_cache w) VSI_SUCCESS (rw_graph w) in (w\<lparr>rw_graph := g\<rparr>, st)
      else
        let (w', st) = swapped_nodes drv item_ok (ids_below (node_num (rw_graph w))) VSI_SUCCESS w
        in if st \<noteq> VSI_SUCCESS then (w', st)
           else (if rw_cache w' \<noteq> [] then w'\<lparr>rw_cached := True\<rparr> else w', st))"

subsection \<open>Runs\<close>

definition HasRNN :: "'s rworld \<Rightarrow> bool" where
  "HasRNN w \<longleftrightarrow> rw_wksp w \<noteq> None"

definition call_driver :: "('s \<Rightarrow> 's \<times> vsi_status) \<Rightarrow> 's rworld \<Rightarrow> 's rworld \<times> vsi_status" where
  "call_driver f w = (let (s, st) = f (g_ext (rw_graph w)) in (w\<lparr>rw_graph := (rw_graph w)\<lparr>g_ext := s\<rparr>\<rparr>, st))"

text \<open>The common part of \<open>vsi_nn_RunGraph\<close> and \<open>vsi_nn_AsyncRunGraph\<close>, up to the call of the driver.\<close>

definition feed_and_start ::
  "'s rdrv \<Rightarrow> (ptr \<Rightarrow> nat \<Rightarrow> bool) \<Rightarrow> ('s \<Rightarrow> 's \<times> vsi_status) \<Rightarrow> 's rworld \<Rightarrow> ('s rworld \<times> vsi_status) option" where
  "feed_and_start drv item_ok start w = do {
     (w1, st1) \<leftarrow> (if HasRNN w then rnn_feed_internal_state drv w else Some (w, VSI_SUCCESS));
     let (w2, st2) = (if st1 = VSI_SUCCESS then check_swapped_tensors drv item_ok w1 else (w1, st1));
     Some (if st2 = VSI_SUCCESS then call_driver start w2 else (w2, st2)) }"

definition RunGraph :: "'s rdrv \<Rightarrow> (ptr \<Rightarrow> nat \<Rightarrow> bool) \<Rightarrow> 's rworld \<Rightarrow> ('s rworld \<times> vsi_status) option" where
  "RunGraph drv item_ok w =
     (if \<not> rw_built w then Some (w, VSI_FAILURE)
      else do {
        (w1, st) \<leftarrow> feed_and_start drv item_ok (process_graph drv) w;
        if st = VSI_SUCCESS \<and> HasRNN w1 then rnn_save_internal_state drv w1 else Some (w1, st) })"

definition AsyncRunGraph :: "'s rdrv \<Rightarrow> (ptr \<Rightarrow> nat \<Rightarrow> bool) \<Rightarrow> 's rworld \<Rightarrow> ('s rworld \<times> vsi_status) option" where
  "AsyncRunGraph drv item_ok w =
     (if \<not> rw_built w then Some (w, VSI_FAILURE) else feed_and_start drv item_ok (schedule_graph drv) w)"

definition AsyncRunWait :: "'s rdrv \<Rightarrow> 's rworld \<Rightarrow> ('s rworld \<times> vsi_status) option" where
  "AsyncRunWait drv w =
     (if \<not> rw_built w then Some (w, VSI_FAILURE)
      else let (w1, st) = call_driver (wait_graph drv) w
           in if st = VSI_SUCCESS \<and> HasRNN w1 then rnn_save_internal_state drv w1 else Some (w1, st))"

text \<open>It feeds and saves around \<open>vsi_nn_RunGraph\<close>, which does so itself.\<close>

definition rnn_RunGraph :: "'s rdrv \<Rightarrow> (ptr \<Rightarrow> nat \<Rightarrow> bool) \<Rightarrow> 's rworld \<Rightarrow> ('s rworld \<times> vsi_status) option" where
  "rnn_RunGraph drv item_ok w = do {
     (w1, st1) \<leftarrow> rnn_feed_internal_state drv w;
     if st1 \<noteq> VSI_SUCCESS then Some (w1, st1)
     else do {
       (w2, st2) \<leftarrow> RunGraph drv item_ok w1;
       if st2 = VSI_SUCCESS then rnn_save_internal_state drv w2 else Some (w2, st2) } }"

end
