(* ===== verification/Rnn_Runs.thy ===== *)
theory Rnn_Runs
  imports Rnn
begin

text \<open>
  What the runs of a graph with recurrent connections compute: the loops over the connections, the
  values behind the handles of the driver, and the sequence of values that the runs go through.
\<close>

subsection \<open>The list of connections\<close>

definition wk_rep :: "'s rworld \<Rightarrow> addr list \<Rightarrow> bool" where
  "wk_rep w as \<longleftrightarrow> (\<exists>k. rw_wksp w = Some k \<and> dlist (rw_links w) as \<and> rk_list k = first_ptr as None \<and>
     (\<forall>a \<in> set as. rw_conns w a \<noteq> None))"

lemma seg_next: "seg h p (a # as) None \<Longrightarrow> LinkListNext h (Some a) = Some (first_ptr as None)"
  by (simp add: LinkListNext_def move_next_def)

fun feed_list :: "'s rdrv \<Rightarrow> rnn_conn list \<Rightarrow> vsi_status \<Rightarrow> 's graph \<Rightarrow> ('s graph \<times> vsi_status) option" where
  "feed_list drv [] status g = Some (g, status)"
| "feed_list drv (c # cs) status g =
     (if status \<noteq> VSI_SUCCESS then Some (g, status)
      else do { (g', st) \<leftarrow> feed_connection drv c status g; feed_list drv cs st g' })"

lemma feed_loop_list:
  "seg (rw_links w) p as None \<Longrightarrow> \<forall>a \<in> set as. rw_conns w a \<noteq> None \<Longrightarrow>
    feed_loop drv w (first_ptr as None) st =
      map_option (\<lambda>(g, st). (w\<lparr>rw_graph := g\<rparr>, st)) (feed_list drv (map (the \<circ> rw_conns w) as) st (rw_graph w))"
proof (induction as arbitrary: w p st)
  case Nil
  then show ?case by (simp add: feed_loop.simps)
next
  case (Cons a as)
  obtain c where c: "rw_conns w a = Some c" using Cons.prems(2) by auto
  show ?case
  proof (cases "st = VSI_SUCCESS")
    case False
    then show ?thesis by (simp add: feed_loop.simps)
  next
    case True
    show ?thesis
    proof (cases "feed_connection drv c st (rw_graph w)")
      case None
      then show ?thesis using True c by (simp add: feed_loop.simps)
    next
      case (Some r)
      obtain g' st' where r: "r = (g', st')" by (cases r)
      have "seg (rw_links (w\<lparr>rw_graph := g'\<rparr>)) (Some a) as None" using Cons.prems(1) by simp
      then show ?thesis
        using Cons.IH[of "w\<lparr>rw_graph := g'\<rparr>" "Some a" st'] Cons.prems Some r True c seg_next[OF Cons.prems(1)]
        by (simp add: feed_loop.simps[of drv w "Some a"] comp_def option.map_comp split_def)
    qed
  qed
qed

definition save_one :: "'s rdrv \<Rightarrow> 's graph \<Rightarrow> rnn_conn \<Rightarrow> rnn_conn \<Rightarrow> bool" where
  "save_one drv g c c' \<longleftrightarrow>
     (if rc_swap c then c' = c else internal_buffer_copy_from_tensor drv c (rc_output c) g = Some (c', VSI_SUCCESS))"

lemma save_loop_list:
  "seg (rw_links w) p as None \<Longrightarrow> distinct as \<Longrightarrow> \<forall>a \<in> set as. \<exists>c. rw_conns w a = Some c \<and> save_one drv (rw_graph w) c (f a) \<Longrightarrow>
    save_loop drv w (first_ptr as None) VSI_SUCCESS =
      Some (w\<lparr>rw_conns := (\<lambda>a. if a \<in> set as then Some (f a) else rw_conns w a)\<rparr>, VSI_SUCCESS)"
proof (induction as arbitrary: w p)
  case Nil
  then show ?case by (simp add: save_loop.simps)
next
  case (Cons a as)
  let ?w = "w\<lparr>rw_conns := (rw_conns w)(a \<mapsto> f a)\<rparr>"
  have "save_loop drv w (first_ptr (a # as) None) VSI_SUCCESS = save_loop drv ?w (first_ptr as None) VSI_SUCCESS"
    using Cons.prems(3) seg_next[OF Cons.prems(1)] by (subst save_loop.simps) (auto simp: save_one_def)
  also have "\<dots> = Some (?w\<lparr>rw_conns := (\<lambda>b. if b \<in> set as then Some (f b) else rw_conns ?w b)\<rparr>, VSI_SUCCESS)"
    by (rule Cons.IH) (use Cons.prems in auto)
  also have "?w\<lparr>rw_conns := (\<lambda>b. if b \<in> set as then Some (f b) else rw_conns ?w b)\<rparr> =
      w\<lparr>rw_conns := (\<lambda>b. if b \<in> set (a # as) then Some (f b) else rw_conns w b)\<rparr>"
    by (simp add: fun_eq_iff)
  finally show ?case .
qed

subsection \<open>Values\<close>

text \<open>
  The laws of the driver. \<open>V s x\<close> are the data behind the handle \<open>x\<close> in the state \<open>s\<close>; a run of the
  graph applies \<open>step\<close> to them.
\<close>

type_synonym memory = "ptr \<Rightarrow> uint8 list option"

definition rdrv_ok :: "'s rdrv \<Rightarrow> ('s \<Rightarrow> memory) \<Rightarrow> (memory \<Rightarrow> memory) \<Rightarrow> bool" where
  "rdrv_ok drv V step \<longleftrightarrow>
     (\<forall>s t. read_data drv s t = Option.bind (t_vx t) (V s)) \<and>
     (\<forall>s t x n d. t_vx t = Some x \<longrightarrow> attr_bytes (t_attr t) = Some n \<longrightarrow> length d = unat n \<longrightarrow>
        (\<exists>s'. copy_to drv t d s = (s', VSI_SUCCESS) \<and> V s' = (V s)(x \<mapsto> d))) \<and>
     (\<forall>s x y. \<exists>s'. swap_raw drv (Some x) (Some y) s = (s', VSI_SUCCESS) \<and> V s' = (V s)(x := V s y, y := V s x)) \<and>
     (\<forall>s. \<exists>s'. process_graph drv s = (s', VSI_SUCCESS) \<and> V s' = step (V s))"

lemma rdrv_read: "rdrv_ok drv V step \<Longrightarrow> read_data drv s t = Option.bind (t_vx t) (V s)"
  by (simp add: rdrv_ok_def)

lemma rdrv_copy: "rdrv_ok drv V step \<Longrightarrow> t_vx t = Some x \<Longrightarrow> attr_bytes (t_attr t) = Some n \<Longrightarrow> length d = unat n \<Longrightarrow>
    \<exists>s'. copy_to drv t d s = (s', VSI_SUCCESS) \<and> V s' = (V s)(x \<mapsto> d)"
  by (simp add: rdrv_ok_def)

lemma rdrv_swap: "rdrv_ok drv V step \<Longrightarrow> \<exists>s'. swap_raw drv (Some x) (Some y) s = (s', VSI_SUCCESS) \<and> V s' = (V s)(x := V s y, y := V s x)"
  by (simp add: rdrv_ok_def)

lemma rdrv_process: "rdrv_ok drv V step \<Longrightarrow> \<exists>s'. process_graph drv s = (s', VSI_SUCCESS) \<and> V s' = step (V s)"
  by (simp add: rdrv_ok_def)

definition handle :: "'s graph \<Rightarrow> tensor_id \<Rightarrow> ptr" where
  "handle g tid = the (t_vx (g_tensors g (the (GetTensor g tid))))"

text \<open>A tensor of \<open>n\<close> bytes with a handle.\<close>

definition tensor_of :: "'s graph \<Rightarrow> tensor_id \<Rightarrow> vsi_size_t \<Rightarrow> bool" where
  "tensor_of g tid n \<longleftrightarrow> (\<exists>p x. GetTensor g tid = Some p \<and> t_vx (g_tensors g p) = Some x \<and> attr_bytes (t_attr (g_tensors g p)) = Some n)"

lemma tensor_of_ext [simp]: "tensor_of (g\<lparr>g_ext := s\<rparr>) tid n = tensor_of g tid n" "handle (g\<lparr>g_ext := s\<rparr>) tid = handle g tid"
  by (simp_all add: tensor_of_def handle_def GetTensor_def)

text \<open>The data have the sizes of the tensors.\<close>

definition sized :: "'s graph \<Rightarrow> memory \<Rightarrow> bool" where
  "sized g m \<longleftrightarrow> (\<forall>tid n. tensor_of g tid n \<longrightarrow> (\<exists>d. m (handle g tid) = Some d \<and> length d = unat n))"

text \<open>A connection that copies through its buffer.\<close>

definition conn_inputs :: "rnn_conn \<Rightarrow> tensor_id list" where
  "conn_inputs c = take (unat (rc_count c)) (rc_inputs c)"

definition copies :: "'s graph \<Rightarrow> rnn_conn \<Rightarrow> bool" where
  "copies g c \<longleftrightarrow> \<not> rc_swap c \<and> unat (rc_count c) \<le> length (rc_inputs c) \<and>
     tensor_of g (rc_output c) (rc_size c) \<and> (\<forall>tid \<in> set (conn_inputs c). tensor_of g tid (rc_size c)) \<and>
     (\<exists>d. rc_data c = Block d \<and> length d = unat (rc_size c))"

definition block_bytes :: "rnn_conn \<Rightarrow> uint8 list" where
  "block_bytes c = (case rc_data c of Block d \<Rightarrow> d | _ \<Rightarrow> [])"

definition write_all :: "(ptr \<times> uint8 list) list \<Rightarrow> memory \<Rightarrow> memory" where
  "write_all xs m = foldl (\<lambda>m (x, d). m(x \<mapsto> d)) m xs"

definition buffer_writes :: "'s graph \<Rightarrow> rnn_conn list \<Rightarrow> (ptr \<times> uint8 list) list" where
  "buffer_writes g cs = concat (map (\<lambda>c. map (\<lambda>tid. (handle g tid, block_bytes c)) (conn_inputs c)) cs)"

lemma write_all_append: "write_all (xs @ ys) m = write_all ys (write_all xs m)"
  by (simp add: write_all_def)

lemma copy_to_tensor_ok:
  assumes drv: "rdrv_ok drv V step" and t: "tensor_of g tid (rc_size c)" "rc_data c = Block d" "length d = unat (rc_size c)"
  shows "\<exists>s. internal_buffer_copy_to_tensor drv c tid g = Some (g\<lparr>g_ext := s\<rparr>, VSI_SUCCESS) \<and> V s = (V (g_ext g))(handle g tid \<mapsto> d)"
proof -
  obtain p x where p: "GetTensor g tid = Some p" "t_vx (g_tensors g p) = Some x" "attr_bytes (t_attr (g_tensors g p)) = Some (rc_size c)"
    using t(1) by (auto simp: tensor_of_def)
  obtain s where "copy_to drv (g_tensors g p) d (g_ext g) = (s, VSI_SUCCESS)" "V s = (V (g_ext g))(x \<mapsto> d)"
    using rdrv_copy[OF drv p(2,3) t(3)] by blast
  then show ?thesis using p t(2) by (intro exI[of _ s]) (simp add: internal_buffer_copy_to_tensor_def handle_def)
qed

lemma feed_inputs_ok:
  assumes drv: "rdrv_ok drv V step" and d: "rc_data c = Block d" "length d = unat (rc_size c)"
  shows "i + n \<le> length (rc_inputs c) \<Longrightarrow> \<forall>tid \<in> set (take n (drop i (rc_inputs c))). tensor_of g tid (rc_size c) \<Longrightarrow>
    \<exists>s. feed_inputs drv c i n VSI_SUCCESS g = Some (g\<lparr>g_ext := s\<rparr>, VSI_SUCCESS) \<and>
      V s = write_all (map (\<lambda>tid. (handle g tid, d)) (take n (drop i (rc_inputs c)))) (V (g_ext g))"
proof (induction n arbitrary: i g)
  case 0
  have "g = g\<lparr>g_ext := g_ext g\<rparr>" by simp
  then show ?case by (auto simp: write_all_def intro!: exI[of _ "g_ext g"])
next
  case (Suc n)
  let ?tid = "rc_inputs c ! i"
  have t: "take (Suc n) (drop i (rc_inputs c)) = ?tid # take n (drop (Suc i) (rc_inputs c))"
    using Suc.prems(1) by (simp add: Cons_nth_drop_Suc[symmetric])
  obtain s1 where s1: "internal_buffer_copy_to_tensor drv c ?tid g = Some (g\<lparr>g_ext := s1\<rparr>, VSI_SUCCESS)"
    "V s1 = (V (g_ext g))(handle g ?tid \<mapsto> d)"
    using copy_to_tensor_ok[OF drv _ d] Suc.prems(2) t by (metis list.set_intros(1))
  obtain s where "feed_inputs drv c (Suc i) n VSI_SUCCESS (g\<lparr>g_ext := s1\<rparr>) = Some (g\<lparr>g_ext := s\<rparr>, VSI_SUCCESS)"
    "V s = write_all (map (\<lambda>tid. (handle g tid, d)) (take n (drop (Suc i) (rc_inputs c)))) (V s1)"
    using Suc.IH[of "Suc i" "g\<lparr>g_ext := s1\<rparr>"] Suc.prems t by auto
  then show ?case using s1 Suc.prems(1) t by (auto simp: write_all_def rd_def)
qed

lemma feed_list_ok:
  assumes drv: "rdrv_ok drv V step"
  shows "\<forall>c \<in> set cs. copies g c \<Longrightarrow> \<exists>s. feed_list drv cs VSI_SUCCESS g = Some (g\<lparr>g_ext := s\<rparr>, VSI_SUCCESS) \<and>
    V s = write_all (buffer_writes g cs) (V (g_ext g))"
proof (induction cs arbitrary: g)
  case Nil
  have "g = g\<lparr>g_ext := g_ext g\<rparr>" by simp
  then show ?case by (auto simp: write_all_def buffer_writes_def intro!: exI[of _ "g_ext g"])
next
  case (Cons c cs)
  have c: "copies g c" using Cons.prems by simp
  then obtain d where d: "rc_data c = Block d" "length d = unat (rc_size c)" "\<not> rc_swap c" by (auto simp: copies_def)
  obtain s1 where s1: "feed_inputs drv c 0 (unat (rc_count c)) VSI_SUCCESS g = Some (g\<lparr>g_ext := s1\<rparr>, VSI_SUCCESS)"
    "V s1 = write_all (map (\<lambda>tid. (handle g tid, d)) (conn_inputs c)) (V (g_ext g))"
    using feed_inputs_ok[OF drv d(1,2), of 0 "unat (rc_count c)" g] c by (auto simp: copies_def conn_inputs_def)
  have "\<forall>c \<in> set cs. copies (g\<lparr>g_ext := s1\<rparr>) c" using Cons.prems by (simp add: copies_def)
  then obtain s where "feed_list drv cs VSI_SUCCESS (g\<lparr>g_ext := s1\<rparr>) = Some (g\<lparr>g_ext := s\<rparr>, VSI_SUCCESS)"
    "V s = write_all (buffer_writes g cs) (V s1)"
    using Cons.IH[of "g\<lparr>g_ext := s1\<rparr>"] by (auto simp: buffer_writes_def)
  then show ?case using s1 d by (auto simp: feed_connection_def buffer_writes_def write_all_append block_bytes_def)
qed

lemma save_one_ok:
  assumes drv: "rdrv_ok drv V step" and c: "copies g c" and m: "sized g (V (g_ext g))"
  shows "save_one drv g c (c\<lparr>rc_data := Block (the (V (g_ext g) (handle g (rc_output c))))\<rparr>) \<and>
    copies g (c\<lparr>rc_data := Block (the (V (g_ext g) (handle g (rc_output c))))\<rparr>)"
proof -
  obtain d where d: "rc_data c = Block d" "length d = unat (rc_size c)" "\<not> rc_swap c" using c by (auto simp: copies_def)
  obtain p x where p: "GetTensor g (rc_output c) = Some p" "t_vx (g_tensors g p) = Some x" "attr_bytes (t_attr (g_tensors g p)) = Some (rc_size c)"
    using c by (auto simp: copies_def tensor_of_def)
  obtain d' where d': "V (g_ext g) (handle g (rc_output c)) = Some d'" "length d' = unat (rc_size c)"
    using m c unfolding sized_def copies_def by blast
  have "memcpy d 0 d' 0 (unat (rc_size c)) = Some d'" using d(2) d'(2) by (simp add: memcpy_def)
  moreover have "handle g (rc_output c) = x" using p by (simp add: handle_def)
  ultimately have "save_one drv g c (c\<lparr>rc_data := Block d'\<rparr>)"
    using d p d' rdrv_read[OF drv] by (simp add: save_one_def internal_buffer_copy_from_tensor_def)
  then show ?thesis using c d' by (simp add: copies_def conn_inputs_def)
qed

subsection \<open>One run\<close>

definition no_nbg :: "'s graph \<Rightarrow> bool" where
  "no_nbg g \<longleftrightarrow> (\<forall>nid n. node_at_id g nid = Some n \<longrightarrow> n_op n \<noteq> OP_NBG_CODE)"

lemma swapped_nodes_none: "no_nbg (rw_graph w) \<Longrightarrow> swapped_nodes drv item_ok nids st w = (w, st)"
  by (induction nids) (auto simp: no_nbg_def node_at_id_def Let_def split: option.split)

lemma check_swapped_noop: "no_nbg (rw_graph w) \<Longrightarrow> \<not> rw_cache_on w \<Longrightarrow> rw_cache w = [] \<Longrightarrow> check_swapped_tensors drv item_ok w = (w, VSI_SUCCESS)"
  by (simp add: check_swapped_tensors_def swapped_nodes_none)

text \<open>
  A graph that is ready to run: it has a driver graph and no precompiled nodes, its workspace holds
  the connections \<open>cs\<close> at the addresses \<open>as\<close>, and the data have the sizes of the tensors.
\<close>

definition ready_rnn :: "('s \<Rightarrow> memory) \<Rightarrow> bool \<Rightarrow> addr list \<Rightarrow> (addr \<Rightarrow> rnn_conn) \<Rightarrow> 's rworld \<Rightarrow> bool" where
  "ready_rnn V first as cs w \<longleftrightarrow>
     rw_built w \<and> no_nbg (rw_graph w) \<and> \<not> rw_cache_on w \<and> rw_cache w = [] \<and> dlist (rw_links w) as \<and>
     (\<exists>k. rw_wksp w = Some k \<and> rk_list k = first_ptr as None \<and> rk_first k = first) \<and>
     (\<forall>a \<in> set as. rw_conns w a = Some (cs a) \<and> copies (rw_graph w) (cs a)) \<and> sized (rw_graph w) (V (g_ext (rw_graph w)))"

lemma no_nbg_ext [simp]: "no_nbg (g\<lparr>g_ext := s\<rparr>) = no_nbg g" "copies (g\<lparr>g_ext := s\<rparr>) c = copies g c" "sized (g\<lparr>g_ext := s\<rparr>) = sized g"
  by (simp_all add: no_nbg_def node_at_id_def GetNode_def copies_def sized_def fun_eq_iff)

lemma write_all_sized: "sized g m \<Longrightarrow> \<forall>c \<in> set cs. copies g c \<Longrightarrow> sized g (write_all (buffer_writes g cs) m)"
proof (induction cs arbitrary: m)
  case Nil
  then show ?case by (simp add: write_all_def buffer_writes_def)
next
  case (Cons c cs)
  have c: "copies g c" using Cons.prems(2) by simp
  have one: "sized g (m(handle g tid \<mapsto> block_bytes c))" if m: "sized g m" and t: "tid \<in> set (conn_inputs c)" for m tid
  proof -
    have t': "tensor_of g tid (rc_size c)" and l: "length (block_bytes c) = unat (rc_size c)"
      using c t by (auto simp: copies_def block_bytes_def)
    obtain d where d: "m (handle g tid) = Some d" "length d = unat (rc_size c)" using m t' unfolding sized_def by blast
    have "length (block_bytes c) = unat n" if "tensor_of g tid' n" "handle g tid' = handle g tid" for tid' n
      using m that d l unfolding sized_def by fastforce
    then show ?thesis using m unfolding sized_def by auto
  qed
  have "sized g (write_all (map (\<lambda>tid. (handle g tid, block_bytes c)) tids) m)" if "set tids \<subseteq> set (conn_inputs c)" "sized g m" for tids m
    using that by (induction tids arbitrary: m) (simp_all add: write_all_def one)
  then have "sized g (write_all (map (\<lambda>tid. (handle g tid, block_bytes c)) (conn_inputs c)) m)" using Cons.prems(1) by blast
  moreover have "buffer_writes g (c # cs) = map (\<lambda>tid. (handle g tid, block_bytes c)) (conn_inputs c) @ buffer_writes g cs"
    by (simp add: buffer_writes_def)
  ultimately show ?case using Cons.IH Cons.prems(2) by (simp add: write_all_append)
qed

text \<open>The connections with the outputs of a run in their buffers.\<close>

definition saved :: "'s graph \<Rightarrow> memory \<Rightarrow> rnn_conn \<Rightarrow> rnn_conn" where
  "saved g m c = c\<lparr>rc_data := Block (the (m (handle g (rc_output c))))\<rparr>"

lemma feed_ready:
  assumes drv: "rdrv_ok drv V step" and r: "ready_rnn V first as cs w"
  shows "\<exists>w'. rnn_feed_internal_state drv w = Some (w', VSI_SUCCESS) \<and> ready_rnn V False as cs w' \<and>
    (\<exists>s. rw_graph w' = (rw_graph w)\<lparr>g_ext := s\<rparr>) \<and>
    V (g_ext (rw_graph w')) = (if first then id else write_all (buffer_writes (rw_graph w) (map cs as))) (V (g_ext (rw_graph w)))"
proof -
  obtain k where k: "rw_wksp w = Some k" "rk_list k = first_ptr as None" "rk_first k = first" using r by (auto simp: ready_rnn_def)
  show ?thesis
  proof (cases first)
    case True
    have "rw_graph w = (rw_graph w)\<lparr>g_ext := g_ext (rw_graph w)\<rparr>" by simp
    then show ?thesis using True k r by (auto simp: rnn_feed_internal_state_def ready_rnn_def intro!: exI[of _ "g_ext (rw_graph w)"])
  next
    case False
    have ok: "\<forall>c \<in> set (map cs as). copies (rw_graph w) c" using r by (auto simp: ready_rnn_def)
    obtain s where s: "feed_list drv (map cs as) VSI_SUCCESS (rw_graph w) = Some ((rw_graph w)\<lparr>g_ext := s\<rparr>, VSI_SUCCESS)"
      "V s = write_all (buffer_writes (rw_graph w) (map cs as)) (V (g_ext (rw_graph w)))"
      using feed_list_ok[OF drv ok] by blast
    have cs: "map (the \<circ> rw_conns w) as = map cs as" using r by (auto simp: ready_rnn_def)
    have seg: "seg (rw_links w) None as None" "\<forall>a \<in> set as. rw_conns w a \<noteq> None" using r by (auto simp: ready_rnn_def dlist_def)
    have "rnn_feed_internal_state drv w = Some (w\<lparr>rw_graph := (rw_graph w)\<lparr>g_ext := s\<rparr>\<rparr>, VSI_SUCCESS)"
      using feed_loop_list[OF seg, of drv VSI_SUCCESS] k False s(1) by (simp only: rnn_feed_internal_state_def cs) simp
    moreover have "sized (rw_graph w) (V s)" using write_all_sized[OF _ ok] r s(2) by (simp add: ready_rnn_def)
    ultimately show ?thesis using r k False s(2) by (intro exI[of _ "w\<lparr>rw_graph := (rw_graph w)\<lparr>g_ext := s\<rparr>\<rparr>"]) (auto simp: ready_rnn_def)
  qed
qed

lemma save_ready:
  assumes drv: "rdrv_ok drv V step" and r: "ready_rnn V first as cs w"
  shows "\<exists>w'. rnn_save_internal_state drv w = Some (w', VSI_SUCCESS) \<and> rw_graph w' = rw_graph w \<and>
    ready_rnn V first as (saved (rw_graph w) (V (g_ext (rw_graph w))) \<circ> cs) w'"
proof -
  let ?f = "saved (rw_graph w) (V (g_ext (rw_graph w))) \<circ> cs"
  let ?w = "w\<lparr>rw_conns := (\<lambda>a. if a \<in> set as then Some (?f a) else rw_conns w a)\<rparr>"
  obtain k where k: "rw_wksp w = Some k" "rk_list k = first_ptr as None" using r by (auto simp: ready_rnn_def)
  have m: "sized (rw_graph w) (V (g_ext (rw_graph w)))" using r by (simp add: ready_rnn_def)
  have s: "save_one drv (rw_graph w) (cs a) (?f a) \<and> copies (rw_graph w) (?f a)" if "a \<in> set as" for a
    using save_one_ok[OF drv _ m, of "cs a"] r that by (simp add: ready_rnn_def saved_def)
  have seg: "seg (rw_links w) None as None" "distinct as" using r by (auto simp: ready_rnn_def dlist_def)
  have "\<forall>a \<in> set as. \<exists>c. rw_conns w a = Some c \<and> save_one drv (rw_graph w) c (?f a)" using s r by (auto simp: ready_rnn_def)
  then have "rnn_save_internal_state drv w = Some (?w, VSI_SUCCESS)"
    using save_loop_list[OF seg, of drv ?f] k by (simp add: rnn_save_internal_state_def comp_def)
  moreover have "ready_rnn V first as ?f ?w" using r s by (auto simp: ready_rnn_def)
  ultimately show ?thesis by (intro exI[of _ ?w]) simp
qed

lemma process_ready:
  assumes drv: "rdrv_ok drv V step" and r: "ready_rnn V first as cs w" and st: "\<And>m. sized (rw_graph w) m \<Longrightarrow> sized (rw_graph w) (step m)"
  shows "\<exists>w' s. check_swapped_tensors drv item_ok w = (w, VSI_SUCCESS) \<and> call_driver (process_graph drv) w = (w', VSI_SUCCESS) \<and>
    rw_graph w' = (rw_graph w)\<lparr>g_ext := s\<rparr> \<and> V s = step (V (g_ext (rw_graph w))) \<and> ready_rnn V first as cs w'"
proof -
  obtain s where s: "process_graph drv (g_ext (rw_graph w)) = (s, VSI_SUCCESS)" "V s = step (V (g_ext (rw_graph w)))"
    using rdrv_process[OF drv] by blast
  then show ?thesis using r st check_swapped_noop[of w drv item_ok]
    by (intro exI[of _ "w\<lparr>rw_graph := (rw_graph w)\<lparr>g_ext := s\<rparr>\<rparr>"] exI[of _ s]) (auto simp: call_driver_def ready_rnn_def)
qed

lemma run_ready:
  assumes drv: "rdrv_ok drv V step" and r: "ready_rnn V first as cs w" and st: "\<And>m. sized (rw_graph w) m \<Longrightarrow> sized (rw_graph w) (step m)"
  shows "\<exists>w' s. RunGraph drv item_ok w = Some (w', VSI_SUCCESS) \<and> rw_graph w' = (rw_graph w)\<lparr>g_ext := s\<rparr> \<and>
    V s = step ((if first then id else write_all (buffer_writes (rw_graph w) (map cs as))) (V (g_ext (rw_graph w)))) \<and>
    ready_rnn V False as (saved (rw_graph w) (V s) \<circ> cs) w'"
proof -
  obtain w1 s1 where w1: "rnn_feed_internal_state drv w = Some (w1, VSI_SUCCESS)" "ready_rnn V False as cs w1"
    "rw_graph w1 = (rw_graph w)\<lparr>g_ext := s1\<rparr>"
    "V s1 = (if first then id else write_all (buffer_writes (rw_graph w) (map cs as))) (V (g_ext (rw_graph w)))"
    using feed_ready[OF drv r] by auto
  have st1: "\<And>m. sized (rw_graph w1) m \<Longrightarrow> sized (rw_graph w1) (step m)" using st w1(3) by simp
  obtain w2 s2 where w2: "check_swapped_tensors drv item_ok w1 = (w1, VSI_SUCCESS)" "call_driver (process_graph drv) w1 = (w2, VSI_SUCCESS)"
    "rw_graph w2 = (rw_graph w1)\<lparr>g_ext := s2\<rparr>" "V s2 = step (V (g_ext (rw_graph w1)))" "ready_rnn V False as cs w2"
    using process_ready[OF drv w1(2) st1] by blast
  obtain w3 where w3: "rnn_save_internal_state drv w2 = Some (w3, VSI_SUCCESS)" "rw_graph w3 = rw_graph w2"
    "ready_rnn V False as (saved (rw_graph w2) (V (g_ext (rw_graph w2))) \<circ> cs) w3"
    using save_ready[OF drv w2(5)] by blast
  have has: "HasRNN w" "HasRNN w2" "rw_built w" using r w2(5) by (auto simp: ready_rnn_def HasRNN_def)
  have "feed_and_start drv item_ok (process_graph drv) w = Some (w2, VSI_SUCCESS)"
    using has(1) w1(1) w2(1,2) by (simp add: feed_and_start_def)
  then have "RunGraph drv item_ok w = Some (w3, VSI_SUCCESS)" using has w3(1) by (simp add: RunGraph_def)
  moreover have "saved (rw_graph w2) = saved (rw_graph w)" using w1(3) w2(3) by (simp add: saved_def fun_eq_iff)
  ultimately show ?thesis using w1(3,4) w2(3,4) w3(2,3) by (intro exI[of _ w3] exI[of _ s2]) simp
qed

subsection \<open>Sequences of runs\<close>

fun run_times :: "'s rdrv \<Rightarrow> (ptr \<Rightarrow> nat \<Rightarrow> bool) \<Rightarrow> nat \<Rightarrow> 's rworld \<Rightarrow> ('s rworld \<times> vsi_status) option" where
  "run_times drv item_ok 0 w = Some (w, VSI_SUCCESS)"
| "run_times drv item_ok (Suc n) w = do {
     (w1, st) \<leftarrow> run_times drv item_ok n w;
     if st \<noteq> VSI_SUCCESS then Some (w1, st) else RunGraph drv item_ok w1 }"

text \<open>
  The specification: between two runs all inputs get, at the same time, the values that the outputs of
  their connections have after the first of the two.
\<close>

definition carry_over :: "'s graph \<Rightarrow> rnn_conn list \<Rightarrow> memory \<Rightarrow> memory" where
  "carry_over g cs m =
     write_all (concat (map (\<lambda>c. map (\<lambda>tid. (handle g tid, the (m (handle g (rc_output c))))) (conn_inputs c)) cs)) m"

fun rnn_values :: "(memory \<Rightarrow> memory) \<Rightarrow> (memory \<Rightarrow> memory) \<Rightarrow> nat \<Rightarrow> memory \<Rightarrow> memory" where
  "rnn_values step carry 0 m = m"
| "rnn_values step carry (Suc n) m = step (if n = 0 then m else carry (rnn_values step carry n m))"

lemma buffer_writes_saved:
  "write_all (buffer_writes g (map (saved g m \<circ> cs) as)) m = carry_over g (map cs as) m"
  by (simp add: carry_over_def buffer_writes_def saved_def conn_inputs_def block_bytes_def comp_def)

lemma saved_saved [simp]: "saved g m (saved g m' c) = saved g m c"
  by (simp add: saved_def)

text \<open>Also when an input of one connection is the output of another, all inputs change at the same time.\<close>

lemma runs_iterate:
  assumes drv: "rdrv_ok drv V step" and r: "ready_rnn V True as cs w" and st: "\<forall>m. sized (rw_graph w) m \<longrightarrow> sized (rw_graph w) (step m)"
  shows "\<exists>w'. run_times drv item_ok n w = Some (w', VSI_SUCCESS) \<and>
    V (g_ext (rw_graph w')) = rnn_values step (carry_over (rw_graph w) (map cs as)) n (V (g_ext (rw_graph w)))"
proof -
  let ?g = "rw_graph w" let ?vals = "\<lambda>n. rnn_values step (carry_over ?g (map cs as)) n (V (g_ext ?g))"
  have "\<exists>w' s. run_times drv item_ok n w = Some (w', VSI_SUCCESS) \<and> rw_graph w' = ?g\<lparr>g_ext := s\<rparr> \<and> V s = ?vals n \<and>
    ready_rnn V (n = 0) as (if n = 0 then cs else saved ?g (?vals n) \<circ> cs) w'"
  proof (induction n)
    case 0
    have "?g = ?g\<lparr>g_ext := g_ext ?g\<rparr>" by simp
    then show ?case using r by (intro exI[of _ w] exI[of _ "g_ext ?g"]) simp
  next
    case (Suc n)
    then obtain w1 s1 where w1: "run_times drv item_ok n w = Some (w1, VSI_SUCCESS)" "rw_graph w1 = ?g\<lparr>g_ext := s1\<rparr>" "V s1 = ?vals n"
      "ready_rnn V (n = 0) as (if n = 0 then cs else saved ?g (?vals n) \<circ> cs) w1" by blast
    have st1: "sized (rw_graph w1) m \<Longrightarrow> sized (rw_graph w1) (step m)" for m using st w1(2) by simp
    have g1: "buffer_writes (rw_graph w1) = buffer_writes ?g" "saved (rw_graph w1) = saved ?g"
      using w1(2) by (simp_all add: buffer_writes_def saved_def fun_eq_iff)
    obtain w2 s2 where w2: "RunGraph drv item_ok w1 = Some (w2, VSI_SUCCESS)" "rw_graph w2 = (rw_graph w1)\<lparr>g_ext := s2\<rparr>"
      "V s2 = step ((if n = 0 then id else write_all (buffer_writes ?g (map (if n = 0 then cs else saved ?g (?vals n) \<circ> cs) as))) (V s1))"
      "ready_rnn V False as (saved ?g (V s2) \<circ> (if n = 0 then cs else saved ?g (?vals n) \<circ> cs)) w2"
      using run_ready[OF drv w1(4) st1, of item_ok] w1(2) unfolding g1 by auto
    have v: "V s2 = ?vals (Suc n)" using w2(3) w1(3) buffer_writes_saved[of ?g "?vals n" cs as] by (auto simp: comp_assoc)
    have c: "saved ?g m \<circ> (if n = 0 then cs else saved ?g (?vals n) \<circ> cs) = saved ?g m \<circ> cs" for m
      by (simp add: fun_eq_iff)
    have "ready_rnn V (Suc n = 0) as (if Suc n = 0 then cs else saved ?g (?vals (Suc n)) \<circ> cs) w2"
      using w2(4) unfolding c v by (simp only: nat.distinct if_False)
    moreover have "run_times drv item_ok (Suc n) w = Some (w2, VSI_SUCCESS)" using w1(1) w2(1) by simp
    moreover have "rw_graph w2 = ?g\<lparr>g_ext := s2\<rparr>" using w1(2) w2(2) by simp
    ultimately show ?case using v by blast
  qed
  then show ?thesis by force
qed

end
