(* ===== verification/Rnn_Wksp.thy ===== *)
theory Rnn_Wksp
  imports Rnn_Runs
begin

text \<open>
  The life of the workspace of recurrent connections: what is allocated by its initialisation is freed
  by its deinitialisation, and what a reset of the buffers leaves as it was.
\<close>

subsection \<open>Default values\<close>

lemma default_loop_ok:
  assumes "store_default drv a = (VSI_SUCCESS, bytes)" "length bytes = unat (type_get_bytes (attr_type a))"
  shows "length data = (i + n) * length bytes \<Longrightarrow> (i + n) * length bytes < 2 ^ 32 \<Longrightarrow>
    default_loop drv a i n st data = Some (True, if n = 0 then st else VSI_SUCCESS, take (i * length bytes) data @ concat (replicate n bytes))"
proof (induction n arbitrary: i st data)
  case 0
  then show ?case by simp
next
  case (Suc n)
  let ?b = "length bytes"
  have le: "i * ?b + ?b \<le> (i + Suc n) * ?b" by (simp add: algebra_simps)
  have off: "unat (of_nat i * type_get_bytes (attr_type a)) = i * ?b"
  proof -
    have "of_nat i * type_get_bytes (attr_type a) = (of_nat (i * ?b) :: uint32)" using assms(2) by simp
    moreover have "i * ?b < 2 ^ LENGTH(32)" using le_less_trans[OF add_leE[OF le] Suc.prems(2)] by simp
    ultimately show ?thesis by (simp add: unat_of_nat take_bit_nat_eq_self del: of_nat_mult)
  qed
  let ?d = "take (i * ?b) data @ bytes @ drop (i * ?b + ?b) data"
  have copy: "memcpy data (i * ?b) bytes 0 ?b = Some ?d" using le Suc.prems(1) by (simp add: memcpy_def)
  have "i * ?b \<le> length data" using add_leE[OF le] Suc.prems(1) by simp
  then have len: "length (take (i * ?b) data) = i * ?b" by simp
  have ld: "length ?d = (Suc i + n) * ?b" using Suc.prems(1) le by (simp add: algebra_simps)
  have "default_loop drv a i (Suc n) st data = default_loop drv a (Suc i) n VSI_SUCCESS ?d"
    using assms(1) copy by (simp add: off)
  also have "\<dots> = Some (True, if n = 0 then VSI_SUCCESS else VSI_SUCCESS, take (Suc i * ?b) ?d @ concat (replicate n bytes))"
    by (rule Suc.IH[OF ld]) (use Suc.prems(2) in simp)
  also have "take (Suc i * ?b) ?d = take (i * ?b) data @ bytes" using len by simp
  finally show ?case by simp
qed

text \<open>A type whose elements are whole bytes, and a shape with elements.\<close>

definition default_ok :: "'s rdrv \<Rightarrow> tensor_attr \<Rightarrow> nat \<Rightarrow> uint8 list \<Rightarrow> bool" where
  "default_ok drv a n bytes \<longleftrightarrow>
     map_option unat (ShapeProduct (attr_size a) (unat (attr_dim_num a))) = Some n \<and> 0 < n \<and> \<not> attr_vtl a \<and>
     map_option unat (attr_bytes a) = Some (n * length bytes) \<and>
     store_default drv a = (VSI_SUCCESS, bytes) \<and> length bytes = unat (type_get_bytes (attr_type a))"

lemma buffer_init_ok:
  assumes "default_ok drv (t_attr t) n bytes" "malloc (n * length bytes) = Some blk" "length blk = n * length bytes"
  shows "internal_buffer_init drv malloc (Some t) c m =
    Some (c\<lparr>rc_attr := Some (t_attr t), rc_data := Block (concat (replicate n bytes)), rc_size := the (attr_bytes (t_attr t))\<rparr>, m + 1, VSI_SUCCESS)"
proof -
  obtain e sz where e: "ShapeProduct (attr_size (t_attr t)) (unat (attr_dim_num (t_attr t))) = Some e" "unat e = n" "0 < n"
    "attr_bytes (t_attr t) = Some sz" "unat sz = n * length bytes" "\<not> attr_vtl (t_attr t)"
    "store_default drv (t_attr t) = (VSI_SUCCESS, bytes)" "length bytes = unat (type_get_bytes (attr_type (t_attr t)))"
    using assms(1) by (auto simp: default_ok_def)
  have "n * length bytes < 2 ^ 32" using unsigned_less[where 'b = 32 and 'a = nat, of sz] e(5) by simp
  then have "default_loop drv (t_attr t) 0 n VSI_FAILURE blk = Some (True, VSI_SUCCESS, concat (replicate n bytes))"
    using default_loop_ok[OF e(7,8), of blk 0 n VSI_FAILURE] assms(3) e(3) by simp
  then show ?thesis using e assms(2) by (simp add: internal_buffer_init_def Let_def)
qed

subsection \<open>Reset\<close>

definition reset_one :: "'s rdrv \<Rightarrow> (addr \<Rightarrow> nat \<Rightarrow> uint8 list option) \<Rightarrow> 's graph \<Rightarrow> addr \<Rightarrow> rnn_conn \<Rightarrow> rnn_conn \<Rightarrow> bool" where
  "reset_one drv malloc g a c c' \<longleftrightarrow> \<not> rc_swap c \<and> (\<exists>d. rc_data c = Block d) \<and>
     (\<forall>m. internal_buffer_init drv (malloc a) (map_option (g_tensors g) (GetTensor g (rc_output c))) (c\<lparr>rc_data := Block_Null\<rparr>) m =
       Some (c', m + 1, VSI_SUCCESS))"

lemma reset_loop_list:
  "seg (rw_links w) p as None \<Longrightarrow> distinct as \<Longrightarrow>
    \<forall>a \<in> set as. \<exists>c. rw_conns w a = Some c \<and> reset_one drv malloc (rw_graph w) a c (f a) \<Longrightarrow>
    reset_loop drv malloc w (first_ptr as None) VSI_SUCCESS =
      Some (w\<lparr>rw_conns := (\<lambda>a. if a \<in> set as then Some (f a) else rw_conns w a)\<rparr>, VSI_SUCCESS)"
proof (induction as arbitrary: w p)
  case Nil
  then show ?case by (simp add: reset_loop.simps)
next
  case (Cons a as)
  let ?w = "w\<lparr>rw_conns := (rw_conns w)(a \<mapsto> f a)\<rparr>"
  have "reset_loop drv malloc w (first_ptr (a # as) None) VSI_SUCCESS = reset_loop drv malloc ?w (first_ptr as None) VSI_SUCCESS"
    using Cons.prems(3) seg_next[OF Cons.prems(1)]
    by (subst reset_loop.simps) (auto simp: reset_one_def internal_buffer_deinit_def)
  also have "\<dots> = Some (?w\<lparr>rw_conns := (\<lambda>b. if b \<in> set as then Some (f b) else rw_conns ?w b)\<rparr>, VSI_SUCCESS)"
    by (rule Cons.IH) (use Cons.prems in auto)
  also have "?w\<lparr>rw_conns := (\<lambda>b. if b \<in> set as then Some (f b) else rw_conns ?w b)\<rparr> =
      w\<lparr>rw_conns := (\<lambda>b. if b \<in> set (a # as) then Some (f b) else rw_conns w b)\<rparr>"
    by (simp add: fun_eq_iff)
  finally show ?case .
qed

text \<open>
  A reset does not reach the network. \<open>vsi_nn_ResetRNNBuffers\<close> fills the buffers with default
  values and marks the next run as the first one; that run does not feed the buffers, so it works on
  the values that the inputs already have, and then overwrites the buffers.
\<close>

theorem reset_keeps_state:
  assumes drv: "rdrv_ok drv V step" and r: "ready_rnn V first as cs w" and st: "\<forall>m. sized (rw_graph w) m \<longrightarrow> sized (rw_graph w) (step m)"
    and d: "\<forall>a \<in> set as. \<exists>p n bytes blk. GetTensor (rw_graph w) (rc_output (cs a)) = Some p \<and>
      default_ok drv (t_attr (g_tensors (rw_graph w) p)) n bytes \<and> malloc a (n * length bytes) = Some blk \<and> length blk = n * length bytes"
  shows "\<exists>w' w''. rnn_ResetBuffers drv malloc w = Some (w', VSI_SUCCESS) \<and> RunGraph drv item_ok w' = Some (w'', VSI_SUCCESS) \<and>
    V (g_ext (rw_graph w'')) = step (V (g_ext (rw_graph w)))"
proof -
  have "\<exists>c'. reset_one drv malloc (rw_graph w) a (cs a) c' \<and> copies (rw_graph w) c'" if a: "a \<in> set as" for a
  proof -
    obtain p n bytes blk where p: "GetTensor (rw_graph w) (rc_output (cs a)) = Some p"
      "default_ok drv (t_attr (g_tensors (rw_graph w) p)) n bytes" "malloc a (n * length bytes) = Some blk" "length blk = n * length bytes"
      using d a by blast
    have c: "copies (rw_graph w) (cs a)" using r a by (simp add: ready_rnn_def)
    then have sz: "attr_bytes (t_attr (g_tensors (rw_graph w) p)) = Some (rc_size (cs a))" using p(1) by (auto simp: copies_def tensor_of_def)
    then have "unat (rc_size (cs a)) = n * length bytes" using p(2) by (simp add: default_ok_def)
    then show ?thesis using buffer_init_ok[where t = "g_tensors (rw_graph w) p" and malloc = "malloc a", OF p(2-4), of "cs a\<lparr>rc_data := Block_Null\<rparr>"] p(1) c sz
      by (auto simp: reset_one_def copies_def conn_inputs_def length_concat sum_list_replicate)
  qed
  then obtain f where f: "\<forall>a \<in> set as. reset_one drv malloc (rw_graph w) a (cs a) (f a) \<and> copies (rw_graph w) (f a)" by metis
  obtain k where k: "rw_wksp w = Some k" "rk_list k = first_ptr as None" using r by (auto simp: ready_rnn_def)
  let ?w = "w\<lparr>rw_wksp := Some (k\<lparr>rk_first := True\<rparr>)\<rparr>"
  let ?w' = "?w\<lparr>rw_conns := (\<lambda>a. if a \<in> set as then Some (f a) else rw_conns ?w a)\<rparr>"
  have "seg (rw_links ?w) None as None" "distinct as" using r by (auto simp: ready_rnn_def dlist_def)
  moreover have "\<forall>a \<in> set as. \<exists>c. rw_conns ?w a = Some c \<and> reset_one drv malloc (rw_graph ?w) a c (f a)" using f r by (auto simp: ready_rnn_def)
  ultimately have reset: "rnn_ResetBuffers drv malloc w = Some (?w', VSI_SUCCESS)"
    using reset_loop_list[of ?w None as] k by (simp add: rnn_ResetBuffers_def)
  have ready: "ready_rnn V True as f ?w'" using r f k by (auto simp: ready_rnn_def)
  obtain w'' s where "RunGraph drv item_ok ?w' = Some (w'', VSI_SUCCESS)" "rw_graph w'' = (rw_graph ?w')\<lparr>g_ext := s\<rparr>"
    "V s = step (V (g_ext (rw_graph w)))"
    using run_ready[OF drv ready, of item_ok] st by auto
  then show ?thesis using reset by auto
qed

subsection \<open>Initialisation and release\<close>

lemma default_loop_status:
  "default_loop drv a i n st data = Some (True, st', data') \<Longrightarrow> st' = (if n = 0 then st else VSI_SUCCESS)"
proof (induction n arbitrary: i st data)
  case (Suc n)
  obtain s bytes where sb: "store_default drv a = (s, bytes)" by (cases "store_default drv a")
  obtain d where d: "memcpy data (unat (of_nat i * type_get_bytes (attr_type a))) bytes 0 (length bytes) = Some d"
    using Suc.prems sb by (cases "memcpy data (unat (of_nat i * type_get_bytes (attr_type a))) bytes 0 (length bytes)") auto
  have s: "s = VSI_SUCCESS" using Suc.prems sb d by (auto split: if_splits)
  then have "default_loop drv a (Suc i) n s d = Some (True, st', data')" using Suc.prems sb d by simp
  then show ?case using Suc.IH[of "Suc i" s d] s by (cases "n = 0") simp_all
qed simp

text \<open>
  Only a tensor without elements leaves a buffer with a block that was freed; \<open>held\<close> is the number of
  blocks that the buffer of a connection owns.
\<close>

definition held :: "rnn_conn \<Rightarrow> int" where
  "held c = (case rc_data c of Block d \<Rightarrow> 1 | _ \<Rightarrow> 0)"

definition has_elements :: "tensor_attr \<Rightarrow> bool" where
  "has_elements a \<longleftrightarrow> ShapeProduct (attr_size a) (unat (attr_dim_num a)) \<noteq> Some 0"

lemma buffer_init_block:
  assumes i: "internal_buffer_init drv malloc (Some t) c m = Some (c', m', st)" and e: "has_elements (t_attr t)" and c: "rc_data c = Block_Null"
  shows "rc_data c' \<noteq> Block_Freed \<and> m' = m + held c'"
proof (cases "attr_vtl (t_attr t)")
  case True
  then show ?thesis using i c by (simp add: internal_buffer_init_def held_def)
next
  case False
  obtain sz n where sz: "attr_bytes (t_attr t) = Some sz" and n: "ShapeProduct (attr_size (t_attr t)) (unat (attr_dim_num (t_attr t))) = Some n"
    using i False by (auto simp: internal_buffer_init_def Let_def split: bind_splits)
  have n0: "unat n \<noteq> 0" using e n by (auto simp: has_elements_def unat_eq_0)
  show ?thesis
  proof (cases "malloc (unat sz)")
    case None
    then show ?thesis using i c False sz n by (auto simp: internal_buffer_init_def Let_def held_def)
  next
    case (Some blk)
    obtain b s d where l: "default_loop drv (t_attr t) 0 (unat n) VSI_FAILURE blk = Some (b, s, d)"
      using i False sz n Some by (auto simp: internal_buffer_init_def Let_def split: bind_splits)
    show ?thesis
    proof (cases b)
      case True
      then have "s = VSI_SUCCESS" using default_loop_status l n0 by fastforce
      then show ?thesis using i \<open>\<not> attr_vtl (t_attr t)\<close> sz n Some l True by (auto simp: internal_buffer_init_def Let_def held_def)
    next
      case False
      then show ?thesis using i c \<open>\<not> attr_vtl (t_attr t)\<close> sz n Some l by (auto simp: internal_buffer_init_def Let_def held_def)
    qed
  qed
qed

lemma make_conn_block:
  assumes m: "make_conn drv malloc con g k = Some (Some (c, k'))" and e: "\<And>p. GetTensor g (fst con) = Some p \<Longrightarrow> has_elements (t_attr (g_tensors g p))"
  shows "rc_data c \<noteq> Block_Freed \<and> k' = k + held c"
proof -
  obtain p where p: "GetTensor g (fst con) = Some p" using m by (auto simp: make_conn_def split: option.splits)
  let ?a = "t_attr (g_tensors g p)"
  obtain r where r: "check_inputs g ?a (snd con) 0 MAX_RNN_CONNECTION_INPUTS = Some r"
    using m p by (cases "check_inputs g ?a (snd con) 0 MAX_RNN_CONNECTION_INPUTS") (simp_all add: make_conn_def Let_def)
  obtain j where j: "check_inputs g ?a (snd con) 0 MAX_RNN_CONNECTION_INPUTS = Some (Some j)" "j \<noteq> MAX_RNN_CONNECTION_INPUTS"
    using m p r by (cases r) (auto simp: make_conn_def Let_def split: if_splits)
  let ?c = "(new_conn con)\<lparr>rc_count := of_nat j\<rparr>"
  obtain sr where sr: "swappable g ?a ?c = Some sr"
    using m p j by (cases "swappable g ?a ?c") (simp_all add: make_conn_def Let_def)
  obtain sw where sw: "swappable g ?a ?c = Some (Some sw)"
    using m p j sr by (cases sr) (simp_all add: make_conn_def Let_def)
  have nc: "rc_data ?c = Block_Null" by (simp add: new_conn_def)
  show ?thesis
  proof (cases sw)
    case True
    then have "c = ?c\<lparr>rc_swap := True\<rparr>" "k' = k" using m p j sw by (simp_all add: make_conn_def Let_def)
    then show ?thesis using nc by (simp add: held_def)
  next
    case False
    then obtain st where "internal_buffer_init drv malloc (Some (g_tensors g p)) ?c k = Some (c, k', st)"
      using m p j sw by (auto simp: make_conn_def Let_def split: bind_splits)
    then show ?thesis using buffer_init_block e[OF p] nc by blast
  qed
qed

text \<open>The blocks of a list of connections: each has its own, and that of its buffer.\<close>

definition conn_blocks :: "(addr \<Rightarrow> rnn_conn option) \<Rightarrow> addr list \<Rightarrow> int" where
  "conn_blocks conns as = (\<Sum>a \<leftarrow> as. 1 + (case conns a of None \<Rightarrow> 0 | Some c \<Rightarrow> held c))"

lemma conn_blocks_simps [simp]:
  "conn_blocks conns [] = 0"
  "conn_blocks conns (a # as) = 1 + (case conns a of None \<Rightarrow> 0 | Some c \<Rightarrow> held c) + conn_blocks conns as"
  "conn_blocks conns (as @ bs) = conn_blocks conns as + conn_blocks conns bs"
  by (simp_all add: conn_blocks_def)

lemma conn_blocks_cong: "(\<And>a. a \<in> set as \<Longrightarrow> f a = g a) \<Longrightarrow> conn_blocks f as = conn_blocks g as"
  unfolding conn_blocks_def by (rule arg_cong[of _ _ sum_list]) simp

lemma deinit_block:
  "rc_data c \<noteq> Block_Freed \<Longrightarrow> internal_buffer_deinit c m = Some (c\<lparr>rc_data := Block_Null\<rparr>, m - held c, VSI_SUCCESS)"
  by (cases "rc_data c") (simp_all add: internal_buffer_deinit_def held_def)

lemma deinit_loop_frees:
  "dlist (rw_links w) as \<Longrightarrow> \<forall>a \<in> set as. \<exists>c. rw_conns w a = Some c \<and> rc_data c \<noteq> Block_Freed \<Longrightarrow>
    deinit_loop w (first_ptr as None) = Some (w\<lparr>rw_links := rw_links w |` (- set as), rw_conns := rw_conns w |` (- set as),
      rw_blocks := rw_blocks w - conn_blocks (rw_conns w) as\<rparr>)"
proof (induction as arbitrary: w)
  case Nil
  then show ?case by (simp add: deinit_loop.simps)
next
  case (Cons a as)
  have "a \<in> set (a # as)" by simp
  then obtain h where h: "LinkListPopStart (rw_links w) (Some a) = Some (h, first_ptr as None, Some a)" "dlist h as"
    "dlist h [a]" "\<And>b. b \<notin> set (a # as) \<Longrightarrow> h b = rw_links w b" "dom h = dom (rw_links w)"
    by (rule pop_start_list[OF Cons.prems(1)]) (rule that)
  have a: "a \<notin> set as" using Cons.prems(1) by (simp add: dlist_def)
  obtain c where c: "rw_conns w a = Some c" "rc_data c \<noteq> Block_Freed" using Cons.prems(2) by auto
  let ?w = "free_conn a (w\<lparr>rw_links := h, rw_blocks := rw_blocks w - held c\<rparr>)"
  have step: "deinit_loop w (first_ptr (a # as) None) = deinit_loop ?w (first_ptr as None)"
    using h(1) c by (subst deinit_loop.simps) (simp add: deinit_block)
  have d: "dlist (rw_links ?w) as" using dlist_free[OF h(2) a] by (simp add: free_conn_def)
  have "\<forall>b \<in> set as. \<exists>c. rw_conns ?w b = Some c \<and> rc_data c \<noteq> Block_Freed" using Cons.prems(2) a by (auto simp: free_conn_def)
  then have "deinit_loop ?w (first_ptr as None) = Some (?w\<lparr>rw_links := rw_links ?w |` (- set as), rw_conns := rw_conns ?w |` (- set as),
      rw_blocks := rw_blocks ?w - conn_blocks (rw_conns ?w) as\<rparr>)"
    using Cons.IH[OF d] by blast
  moreover have "conn_blocks (rw_conns ?w) as = conn_blocks (rw_conns w) as"
    by (rule conn_blocks_cong) (use a in \<open>auto simp: free_conn_def\<close>)
  then have "?w\<lparr>rw_links := rw_links ?w |` (- set as), rw_conns := rw_conns ?w |` (- set as),
      rw_blocks := rw_blocks ?w - conn_blocks (rw_conns ?w) as\<rparr> =
      w\<lparr>rw_links := rw_links w |` (- set (a # as)), rw_conns := rw_conns w |` (- set (a # as)),
        rw_blocks := rw_blocks w - conn_blocks (rw_conns w) (a # as)\<rparr>"
    using h(4) c(1) by (auto simp: free_conn_def restrict_map_def fun_eq_iff)
  ultimately show ?case using step by simp
qed

lemma push_end_new:
  assumes "dlist h as" "a \<notin> set as"
  shows "\<exists>h'. LinkListPushEnd (h(a \<mapsto> \<lparr>ll_prev = None, ll_next = None\<rparr>)) (first_ptr as None) (Some a) = Some (h', first_ptr (as @ [a]) None) \<and>
    dlist h' (as @ [a]) \<and> (\<forall>b. b \<notin> set (as @ [a]) \<longrightarrow> h' b = h b)"
proof -
  let ?h = "h(a \<mapsto> \<lparr>ll_prev = None, ll_next = None\<rparr>)"
  have one: "dlist ?h [a]" by (simp add: dlist_def)
  have as: "dlist ?h as" using assms unfolding dlist_def by (subst seg_frame[of as ?h h]) auto
  show ?thesis
  proof (cases as)
    case Nil
    have "LinkListPushEnd ?h None (Some a) = Some (?h, Some a)"
      by (simp add: LinkListPushEnd_def walk_to_start.simps)
    then show ?thesis using one Nil by (auto intro!: exI[of _ ?h])
  next
    case (Cons b bs)
    have "b \<in> set as" "a \<in> set [a]" "set as \<inter> set [a] = {}" using assms(2) Cons by auto
    then obtain h' where "LinkListPushEnd ?h (Some b) (Some a) = Some (h', Some (hd as))" "dlist h' (as @ [a])"
      "\<And>c. c \<notin> set as \<union> set [a] \<Longrightarrow> h' c = ?h c" "dom h' = dom ?h"
      by (rule push_end_list[OF as _ one]) (rule that)
    then show ?thesis using Cons by (intro exI[of _ h']) auto
  qed
qed

text \<open>What the initialisation has added at any point: the workspace and the connections at the addresses \<open>as\<close>.\<close>

definition added :: "'s rworld \<Rightarrow> rnn_wksp \<Rightarrow> addr list \<Rightarrow> 's rworld \<Rightarrow> bool" where
  "added w k as w' \<longleftrightarrow> dlist (rw_links w') as \<and> rk_list k = first_ptr as None \<and>
     (\<forall>a \<in> set as. rw_links w a = None \<and> rw_conns w a = None \<and> (\<exists>c. rw_conns w' a = Some c \<and> rc_data c \<noteq> Block_Freed)) \<and>
     (\<forall>a. a \<notin> set as \<longrightarrow> rw_links w' a = rw_links w a \<and> rw_conns w' a = rw_conns w a) \<and>
     rw_blocks w' = rw_blocks w + 1 + conn_blocks (rw_conns w') as \<and>
     w' = w\<lparr>rw_links := rw_links w', rw_conns := rw_conns w', rw_wksp := rw_wksp w', rw_blocks := rw_blocks w'\<rparr>"

lemma added_wksp: "added w0 k as w \<Longrightarrow> added w0 k as (w\<lparr>rw_wksp := x\<rparr>)"
  unfolding added_def by (cases w; cases w0) simp

lemma init_loop_added:
  assumes alloc: "\<And>i j a. alloc i = Some a \<Longrightarrow> alloc j = Some a \<Longrightarrow> i = j"
    and fresh: "\<And>i a. alloc i = Some a \<Longrightarrow> rw_links w0 a = None \<and> rw_conns w0 a = None"
  shows "init_loop drv alloc malloc i cons k w = Some (w', st) \<Longrightarrow> added w0 k as w \<Longrightarrow> \<forall>a \<in> set as. \<exists>j < i. alloc j = Some a \<Longrightarrow>
    \<forall>con \<in> set cons. \<forall>p. GetTensor (rw_graph w) (fst con) = Some p \<longrightarrow> has_elements (t_attr (g_tensors (rw_graph w) p)) \<Longrightarrow>
    \<exists>k' bs. rw_wksp w' = Some k' \<and> added w0 k' (as @ bs) w' \<and> rk_first k' = rk_first k \<and> length bs \<le> length cons"
proof (induction cons arbitrary: i k w as)
  case Nil
  then show ?case using added_wksp[OF Nil.prems(2), of "Some k"] by (intro exI[of _ k] exI[of _ "[]"]) auto
next
  case (Cons con cons)
  have stop: ?case if "w\<lparr>rw_wksp := Some k\<rparr> = w'"
    using that[symmetric] added_wksp[OF Cons.prems(2), of "Some k"] by (intro exI[of _ k] exI[of _ "[]"]) simp
  show ?case
  proof (cases "alloc i")
    case None
    then show ?thesis using stop Cons.prems(1) by simp
  next
    case (Some a)
    obtain r where r: "make_conn drv (malloc a) con (rw_graph w) (rw_blocks w + 1) = Some r"
      using Cons.prems(1) Some by (auto simp: Let_def split: bind_splits)
    show ?thesis
    proof (cases r)
      case None
      then show ?thesis using stop Cons.prems(1) Some r by simp
    next
      case cm: (Some cm)
      obtain c m where c: "cm = (c, m)" by (cases cm)
      have new: "a \<notin> set as" using Cons.prems(3) alloc[OF Some] by force
      have blk: "rc_data c \<noteq> Block_Freed \<and> m = rw_blocks w + 1 + held c"
        using make_conn_block[OF r[unfolded cm c]] Cons.prems(4) by simp
      let ?h = "(rw_links w)(a \<mapsto> \<lparr>ll_prev = None, ll_next = None\<rparr>)"
      have rep: "dlist (rw_links w) as" "rk_list k = first_ptr as None" using Cons.prems(2) by (auto simp: added_def)
      obtain h where h: "LinkListPushEnd ?h (rk_list k) (Some a) = Some (h, first_ptr (as @ [a]) None)" "dlist h (as @ [a])"
        "\<forall>b. b \<notin> set (as @ [a]) \<longrightarrow> h b = rw_links w b"
        using push_end_new[OF rep(1) new] rep(2) by auto
      let ?w = "w\<lparr>rw_conns := (rw_conns w)(a \<mapsto> c), rw_blocks := m, rw_links := h\<rparr>" and ?k = "k\<lparr>rk_list := first_ptr (as @ [a]) None\<rparr>"
      have run: "init_loop drv alloc malloc (Suc i) cons ?k ?w = Some (w', st)"
        using Cons.prems(1) Some r cm c h(1) by (simp add: Let_def)
      have add: "added w0 ?k (as @ [a]) ?w"
      proof -
        have "w = w0\<lparr>rw_links := rw_links w, rw_conns := rw_conns w, rw_wksp := rw_wksp w, rw_blocks := rw_blocks w\<rparr>"
          using Cons.prems(2) unfolding added_def by blast
        then have "?w = w0\<lparr>rw_links := h, rw_conns := (rw_conns w)(a \<mapsto> c), rw_wksp := rw_wksp w, rw_blocks := m\<rparr>" by (cases w; cases w0) simp
        moreover have "conn_blocks ((rw_conns w)(a \<mapsto> c)) as = conn_blocks (rw_conns w) as"
          by (rule conn_blocks_cong) (use new in auto)
        ultimately show ?thesis using Cons.prems(2) h(2,3) fresh[OF Some] blk new by (auto simp: added_def)
      qed
      have old: "\<forall>b \<in> set (as @ [a]). \<exists>j < Suc i. alloc j = Some b" using Cons.prems(3) Some by (auto intro: less_SucI)
      have el: "\<forall>con \<in> set cons. \<forall>p. GetTensor (rw_graph ?w) (fst con) = Some p \<longrightarrow> has_elements (t_attr (g_tensors (rw_graph ?w) p))"
        using Cons.prems(4) by simp
      obtain k' bs where "rw_wksp w' = Some k'" "added w0 k' ((as @ [a]) @ bs) w'" "rk_first k' = rk_first ?k" "length bs \<le> length cons"
        using Cons.IH[OF run add old el] by blast
      then show ?thesis by (intro exI[of _ k'] exI[of _ "a # bs"]) simp
    qed
  qed
qed

text \<open>
  C21: The workspace of recurrent connections leaks nothing. Whatever the initialisation returns, with
  all connections, with a part of them or with none, its deinitialisation succeeds and the world is the
  one from before, with no other connection, link or block in use: the count of the blocks of the
  workspace, of the connections (also of one that was refused) and of the buffers is back at its value,
  when every output tensor has elements.
\<close>

theorem rnn_deinit_undoes_init:
  assumes i: "rnn_InitWksp drv wksp_ok alloc malloc cons w = Some (w', st)" and none: "rw_wksp w = None"
    and alloc: "\<forall>i j a. alloc i = Some a \<longrightarrow> alloc j = Some a \<longrightarrow> i = j"
    and fresh: "\<forall>i a. alloc i = Some a \<longrightarrow> rw_links w a = None \<and> rw_conns w a = None"
    and e: "\<forall>con \<in> set cons. \<forall>p. GetTensor (rw_graph w) (fst con) = Some p \<longrightarrow> has_elements (t_attr (g_tensors (rw_graph w) p))"
  shows "rnn_DeinitWksp w' = Some (w, VSI_SUCCESS)"
proof (cases wksp_ok)
  case False
  have "w\<lparr>rw_wksp := None\<rparr> = w'" using i none False by (simp add: rnn_InitWksp_def rnn_DeinitWksp_def)
  moreover have "w\<lparr>rw_wksp := None\<rparr> = w" using none by (cases w) simp
  ultimately have "w' = w" by (rule trans[OF sym])
  then show ?thesis using none by (simp add: rnn_DeinitWksp_def)
next
  case True
  let ?k = "\<lparr>rk_list = None, rk_first = True\<rparr>"
  let ?w1 = "w\<lparr>rw_blocks := rw_blocks w + 1\<rparr>"
  have run: "init_loop drv alloc malloc 0 cons ?k ?w1 = Some (w', st)" using i none True by (simp add: rnn_InitWksp_def rnn_DeinitWksp_def)
  have add: "added w ?k [] ?w1" by (simp add: added_def dlist_def)
  have "\<exists>k' bs. rw_wksp w' = Some k' \<and> added w k' ([] @ bs) w' \<and> rk_first k' = rk_first ?k \<and> length bs \<le> length cons"
    by (rule init_loop_added[OF _ _ run add]) (use alloc fresh e in blast, use fresh in blast, simp, use e in simp)
  then obtain k' as where k': "rw_wksp w' = Some k'" "added w k' as w'" by auto
  have d: "dlist (rw_links w') as" "\<forall>a \<in> set as. \<exists>c. rw_conns w' a = Some c \<and> rc_data c \<noteq> Block_Freed" "rk_list k' = first_ptr as None"
    using k'(2) by (auto simp: added_def)
  have l: "rw_links w' |` (- set as) = rw_links w" "rw_conns w' |` (- set as) = rw_conns w"
    using k'(2) by (auto simp: added_def restrict_map_def fun_eq_iff)
  have "w' = w\<lparr>rw_links := rw_links w', rw_conns := rw_conns w', rw_wksp := rw_wksp w', rw_blocks := rw_blocks w'\<rparr>"
    using k'(2) unfolding added_def by blast
  then have "w'\<lparr>rw_links := rw_links w, rw_conns := rw_conns w, rw_wksp := None, rw_blocks := rw_blocks w\<rparr> = w"
    using none by (cases w; cases w') simp
  moreover have "rw_blocks w' - conn_blocks (rw_conns w') as - 1 = rw_blocks w" using k'(2) by (simp add: added_def)
  ultimately show ?thesis using deinit_loop_frees[OF d(1,2)] k'(1) d(3) l by (simp add: rnn_DeinitWksp_def)
qed

subsection \<open>From the connections of the user to the runs\<close>

text \<open>A connection of the user whose tensors exist, have one shape and are not swapped.\<close>

definition fits :: "'s graph \<Rightarrow> tensor_attr \<Rightarrow> tensor_id \<Rightarrow> bool" where
  "fits g a tid \<longleftrightarrow> tid \<noteq> TENSOR_ID_NA \<and>
     (\<exists>p. GetTensor g tid = Some p \<and> same_shape a (t_attr (g_tensors g p)) = Some True \<and> \<not> attr_from_handle (t_attr (g_tensors g p)))"

definition accepted :: "'s rdrv \<Rightarrow> (nat \<Rightarrow> uint8 list option) \<Rightarrow> 's graph \<Rightarrow> tensor_id \<times> tensor_id list \<Rightarrow> bool" where
  "accepted drv malloc g con \<longleftrightarrow> (\<exists>p n bytes blk j sz.
     GetTensor g (fst con) = Some p \<and> default_ok drv (t_attr (g_tensors g p)) n bytes \<and>
     malloc (n * length bytes) = Some blk \<and> length blk = n * length bytes \<and> tensor_of g (fst con) sz \<and>
     j < MAX_RNN_CONNECTION_INPUTS \<and> j < length (snd con) \<and> snd con ! j = TENSOR_ID_NA \<and>
     (\<forall>i < j. fits g (t_attr (g_tensors g p)) (snd con ! i) \<and> tensor_of g (snd con ! i) sz))"

lemma check_inputs_ok:
  "i \<le> j \<Longrightarrow> j < i + n \<Longrightarrow> j < length ins \<Longrightarrow> ins ! j = TENSOR_ID_NA \<Longrightarrow> \<forall>m < j. fits g a (ins ! m) \<Longrightarrow>
    check_inputs g a ins i n = Some (Some j)"
proof (induction n arbitrary: i)
  case (Suc n)
  show ?case
  proof (cases "i = j")
    case True
    then show ?thesis using Suc.prems by (simp add: rd_def)
  next
    case False
    then have lt: "i < j" using Suc.prems(1) by simp
    then obtain p where "ins ! i \<noteq> TENSOR_ID_NA" "GetTensor g (ins ! i) = Some p" "same_shape a (t_attr (g_tensors g p)) = Some True"
      using Suc.prems(5) by (auto simp: fits_def)
    then show ?thesis using Suc.IH[of "Suc i"] Suc.prems lt by (simp add: rd_def)
  qed
qed simp

lemma make_conn_accepted:
  assumes "accepted drv malloc g con"
  shows "\<exists>c. (\<forall>m. make_conn drv malloc con g m = Some (Some (c, m + 1))) \<and> copies g c \<and> rc_output c = fst con \<and>
    conn_inputs c = takeWhile (\<lambda>t. t \<noteq> TENSOR_ID_NA) (snd con) \<and> (\<exists>n b. block_bytes c = concat (replicate n b) \<and> (\<exists>a. store_default drv a = (VSI_SUCCESS, b)))"
proof -
  obtain p n bytes blk j sz where a: "GetTensor g (fst con) = Some p" "default_ok drv (t_attr (g_tensors g p)) n bytes"
    "malloc (n * length bytes) = Some blk" "length blk = n * length bytes" "tensor_of g (fst con) sz"
    "j < MAX_RNN_CONNECTION_INPUTS" "j < length (snd con)" "snd con ! j = TENSOR_ID_NA"
    "\<forall>i < j. fits g (t_attr (g_tensors g p)) (snd con ! i) \<and> tensor_of g (snd con ! i) sz"
    using assms unfolding accepted_def by blast
  let ?a = "t_attr (g_tensors g p)"
  let ?c = "(new_conn con)\<lparr>rc_count := of_nat j\<rparr>"
  let ?c' = "?c\<lparr>rc_attr := Some ?a, rc_data := Block (concat (replicate n bytes)), rc_size := the (attr_bytes ?a)\<rparr>"
  have check: "check_inputs g ?a (snd con) 0 MAX_RNN_CONNECTION_INPUTS = Some (Some j)"
    by (rule check_inputs_ok) (use a in auto)
  have sw: "swappable g ?a ?c = Some (Some False)"
  proof (cases "(of_nat j :: uint32) = 1")
    case True
    have "unat (of_nat j :: uint32) = j" using a(6) by (simp add: MAX_RNN_CONNECTION_INPUTS_def unat_of_nat take_bit_nat_eq_self)
    then have "j = 1" using True by simp
    then show ?thesis using a(7,9) True by (auto simp: swappable_def new_conn_def rd_def fits_def)
  qed (simp add: swappable_def)
  have m: "make_conn drv malloc con g m = Some (Some (?c', m + 1))" for m
    using a(1,6) check sw buffer_init_ok[where t = "g_tensors g p" and malloc = malloc, OF a(2-4), of ?c] by (simp add: make_conn_def Let_def)
  have cnt: "unat (of_nat j :: uint32) = j" using a(6) by (simp add: MAX_RNN_CONNECTION_INPUTS_def unat_of_nat take_bit_nat_eq_self)
  have ins: "conn_inputs ?c' = take j (snd con)" using cnt by (simp add: conn_inputs_def new_conn_def)
  have sz: "attr_bytes ?a = Some sz" using a(1,5) by (auto simp: tensor_of_def)
  have "unat sz = n * length bytes" using a(2) sz by (simp add: default_ok_def)
  then have "copies g ?c'"
    using a(5,7,9) ins sz cnt by (auto simp: copies_def new_conn_def length_concat sum_list_replicate in_set_conv_nth)
  moreover have "take j (snd con) = takeWhile (\<lambda>t. t \<noteq> TENSOR_ID_NA) (snd con)"
    by (rule takeWhile_eq_take_P_nth[symmetric]) (use a(7-9) in \<open>auto simp: fits_def\<close>)
  moreover have "store_default drv ?a = (VSI_SUCCESS, bytes)" using a(2) by (simp add: default_ok_def)
  ultimately show ?thesis using m ins by (intro exI[of _ ?c']) (auto simp: new_conn_def block_bytes_def)
qed

lemma init_loop_ready:
  assumes ad: "inj ad"
  shows "dlist (rw_links w) as \<Longrightarrow> rk_list k = first_ptr as None \<Longrightarrow> \<forall>j \<ge> i. ad j \<notin> set as \<Longrightarrow>
    \<forall>j < length cons. \<forall>m. make_conn drv (malloc (ad (i + j))) (cons ! j) (rw_graph w) m = Some (Some (cs (ad (i + j)), m + 1)) \<Longrightarrow>
    \<exists>w' k'. init_loop drv (\<lambda>j. Some (ad j)) malloc i cons k w = Some (w', VSI_SUCCESS) \<and> rw_wksp w' = Some k' \<and> rk_first k' = rk_first k \<and>
      dlist (rw_links w') (as @ map ad [i..<i + length cons]) \<and> rk_list k' = first_ptr (as @ map ad [i..<i + length cons]) None \<and>
      (\<forall>a. rw_conns w' a = (if a \<in> ad ` {i..<i + length cons} then Some (cs a) else rw_conns w a)) \<and>
      rw_graph w' = rw_graph w \<and> rw_built w' = rw_built w \<and> rw_cache_on w' = rw_cache_on w \<and> rw_cache w' = rw_cache w"
proof (induction cons arbitrary: i k w as)
  case Nil
  then show ?case by simp
next
  case (Cons con cons)
  let ?a = "ad i" let ?c = "cs (ad i)"
  have mk: "make_conn drv (malloc ?a) con (rw_graph w) m = Some (Some (?c, m + 1))" for m using Cons.prems(4) by force
  have new: "?a \<notin> set as" using Cons.prems(3) by simp
  let ?h = "(rw_links w)(?a \<mapsto> \<lparr>ll_prev = None, ll_next = None\<rparr>)"
  obtain h where h: "LinkListPushEnd ?h (rk_list k) (Some ?a) = Some (h, first_ptr (as @ [?a]) None)" "dlist h (as @ [?a])"
    using push_end_new[OF Cons.prems(1) new] Cons.prems(2) by auto
  let ?w = "w\<lparr>rw_conns := (rw_conns w)(?a \<mapsto> ?c), rw_blocks := rw_blocks w + 1 + 1, rw_links := h\<rparr>" and ?k = "k\<lparr>rk_list := first_ptr (as @ [?a]) None\<rparr>"
  have run: "init_loop drv (\<lambda>j. Some (ad j)) malloc i (con # cons) k w = init_loop drv (\<lambda>j. Some (ad j)) malloc (Suc i) cons ?k ?w"
    using mk h(1) by (simp add: Let_def)
  have fresh: "\<forall>j \<ge> Suc i. ad j \<notin> set (as @ [?a])" using Cons.prems(3) injD[OF ad] by force
  have rest: "\<forall>j < length cons. \<forall>m. make_conn drv (malloc (ad (Suc i + j))) (cons ! j) (rw_graph ?w) m = Some (Some (cs (ad (Suc i + j)), m + 1))"
    using Cons.prems(4) by (auto simp: nth_Cons' dest: spec[of _ "Suc j" for j])
  have up: "map ad [i..<i + length (con # cons)] = ?a # map ad [Suc i..<Suc i + length cons]" by (simp add: upt_rec)
  have im: "ad ` {i..<i + length (con # cons)} = insert ?a (ad ` {Suc i..<Suc i + length cons})"
    by (metis list.set_map list.simps(15) set_upt up)
  obtain w' k' where w': "init_loop drv (\<lambda>j. Some (ad j)) malloc (Suc i) cons ?k ?w = Some (w', VSI_SUCCESS)" "rw_wksp w' = Some k'" "rk_first k' = rk_first ?k"
    "dlist (rw_links w') ((as @ [?a]) @ map ad [Suc i..<Suc i + length cons])" "rk_list k' = first_ptr ((as @ [?a]) @ map ad [Suc i..<Suc i + length cons]) None"
    "\<forall>a. rw_conns w' a = (if a \<in> ad ` {Suc i..<Suc i + length cons} then Some (cs a) else rw_conns ?w a)"
    "rw_graph w' = rw_graph ?w" "rw_built w' = rw_built ?w" "rw_cache_on w' = rw_cache_on ?w" "rw_cache w' = rw_cache ?w"
    using Cons.IH[of ?w "as @ [?a]" ?k "Suc i"] h(2) fresh rest by auto
  have "\<forall>a. rw_conns w' a = (if a \<in> ad ` {i..<i + length (con # cons)} then Some (cs a) else rw_conns w a)"
    unfolding im using w'(6) by auto
  then show ?case using w' unfolding run up by (intro exI[of _ w'] exI[of _ k']) simp
qed

text \<open>The connections as the user gives them: the inputs up to the end mark.\<close>

definition user_carry :: "'s graph \<Rightarrow> (tensor_id \<times> tensor_id list) list \<Rightarrow> memory \<Rightarrow> memory" where
  "user_carry g cons m = write_all (concat (map (\<lambda>(out, ins).
     map (\<lambda>tid. (handle g tid, the (m (handle g out)))) (takeWhile (\<lambda>t. t \<noteq> TENSOR_ID_NA) ins)) cons)) m"

lemma init_ready:
  assumes none: "rw_wksp w = None" and ad: "inj ad"
    and ok: "rw_built w" "no_nbg (rw_graph w)" "\<not> rw_cache_on w" "rw_cache w = []" "sized (rw_graph w) (V (g_ext (rw_graph w)))"
    and acc: "\<forall>i < length cons. accepted drv (malloc (ad i)) (rw_graph w) (cons ! i)"
  shows "\<exists>w' as cs. rnn_InitWksp drv True (\<lambda>i. Some (ad i)) malloc cons w = Some (w', VSI_SUCCESS) \<and> ready_rnn V True as cs w' \<and>
    rw_graph w' = rw_graph w \<and> carry_over (rw_graph w) (map cs as) = user_carry (rw_graph w) cons"
proof -
  let ?g = "rw_graph w" let ?k = "\<lparr>rk_list = None, rk_first = True\<rparr>" let ?n = "length cons"
  have "\<forall>i. \<exists>c. i < ?n \<longrightarrow> (\<forall>m. make_conn drv (malloc (ad i)) (cons ! i) ?g m = Some (Some (c, m + 1))) \<and> copies ?g c \<and> rc_output c = fst (cons ! i) \<and>
      conn_inputs c = takeWhile (\<lambda>t. t \<noteq> TENSOR_ID_NA) (snd (cons ! i))"
    using make_conn_accepted acc by blast
  then obtain f where f: "\<forall>i < ?n. (\<forall>m. make_conn drv (malloc (ad i)) (cons ! i) ?g m = Some (Some (f i, m + 1))) \<and> copies ?g (f i) \<and> rc_output (f i) = fst (cons ! i) \<and>
      conn_inputs (f i) = takeWhile (\<lambda>t. t \<noteq> TENSOR_ID_NA) (snd (cons ! i))"
    by metis
  define cs where "cs = f \<circ> inv ad"
  have cs: "cs (ad i) = f i" for i using ad by (simp add: cs_def)
  have d: "dlist (rw_links w) []" by (simp add: dlist_def)
  let ?w = "w\<lparr>rw_blocks := rw_blocks w + 1\<rparr>"
  have d': "dlist (rw_links ?w) []" using d by simp
  obtain w' k' where w': "init_loop drv (\<lambda>i. Some (ad i)) malloc 0 cons ?k ?w = Some (w', VSI_SUCCESS)" "rw_wksp w' = Some k'" "rk_first k' = True"
    "dlist (rw_links w') (map ad [0..<?n])" "rk_list k' = first_ptr (map ad [0..<?n]) None"
    "\<forall>a. rw_conns w' a = (if a \<in> ad ` {0..<?n} then Some (cs a) else rw_conns w a)"
    "rw_graph w' = ?g" "rw_built w' = rw_built w" "rw_cache_on w' = rw_cache_on w" "rw_cache w' = rw_cache w"
    using init_loop_ready[OF ad d', of ?k 0 cons drv malloc cs] f cs by auto
  have "ready_rnn V True (map ad [0..<?n]) cs w'" using w' ok f cs by (auto simp: ready_rnn_def)
  moreover have "carry_over ?g (map cs (map ad [0..<?n])) = user_carry ?g cons"
  proof
    fix m :: memory
    have "map (\<lambda>c. map (\<lambda>tid. (handle ?g tid, the (m (handle ?g (rc_output c))))) (conn_inputs c)) (map cs (map ad [0..<?n])) =
      map (\<lambda>(out, ins). map (\<lambda>tid. (handle ?g tid, the (m (handle ?g out)))) (takeWhile (\<lambda>t. t \<noteq> TENSOR_ID_NA) ins)) cons"
      by (rule nth_equalityI) (use f cs in \<open>auto simp: split_def\<close>)
    then show "carry_over ?g (map cs (map ad [0..<?n])) m = user_carry ?g cons m" unfolding carry_over_def user_carry_def by (simp only:)
  qed
  moreover have "rnn_InitWksp drv True (\<lambda>i. Some (ad i)) malloc cons w = Some (w', VSI_SUCCESS)"
    using w'(1) none by (simp add: rnn_InitWksp_def rnn_DeinitWksp_def)
  ultimately show ?thesis using w'(7) by blast
qed

text \<open>
  C20: A session with a recurrent network. After \<open>vsi_nn_SetupRNNConnections\<close> with acceptable connections,
  \<open>n\<close> calls of \<open>vsi_nn_RunGraph\<close> succeed and compute the sequence of the specification: the first run
  works on the values of the user, every later one on the values of the run before, with each input up
  to the end mark of its connection replaced by the output of the connection.
\<close>

theorem rnn_session:
  assumes drv: "rdrv_ok drv V step" and none: "rw_wksp w = None" and ad: "inj ad"
    and ok: "rw_built w" "no_nbg (rw_graph w)" "\<not> rw_cache_on w" "rw_cache w = []" "sized (rw_graph w) (V (g_ext (rw_graph w)))"
    and acc: "\<forall>i < length cons. accepted drv (malloc (ad i)) (rw_graph w) (cons ! i)"
    and st: "\<forall>m. sized (rw_graph w) m \<longrightarrow> sized (rw_graph w) (step m)"
  shows "\<exists>w1 w2. rnn_InitWksp drv True (\<lambda>i. Some (ad i)) malloc cons w = Some (w1, VSI_SUCCESS) \<and>
    run_times drv item_ok n w1 = Some (w2, VSI_SUCCESS) \<and>
    V (g_ext (rw_graph w2)) = rnn_values step (user_carry (rw_graph w) cons) n (V (g_ext (rw_graph w)))"
proof -
  obtain w1 as cs where w1: "rnn_InitWksp drv True (\<lambda>i. Some (ad i)) malloc cons w = Some (w1, VSI_SUCCESS)" "ready_rnn V True as cs w1"
    "rw_graph w1 = rw_graph w" "carry_over (rw_graph w) (map cs as) = user_carry (rw_graph w) cons"
    using init_ready[where V = V and drv = drv and malloc = malloc, OF none ad ok acc] by blast
  have st1: "\<forall>m. sized (rw_graph w1) m \<longrightarrow> sized (rw_graph w1) (step m)" using st w1(3) by simp
  show ?thesis using runs_iterate[OF drv w1(2) st1, of item_ok n] w1 by auto
qed

text \<open>
  \<open>vsi_nn_rnn_RunGraph\<close> loses the start values. It feeds the connections and then calls
  \<open>vsi_nn_RunGraph\<close>, which feeds them again; the first feed only clears the mark of the first run, so
  the second one copies the default values of the buffers over what the user gave.
\<close>

theorem rnn_run_overwrites_start:
  assumes drv: "rdrv_ok drv V step" and r: "ready_rnn V True as cs w" and st: "\<forall>m. sized (rw_graph w) m \<longrightarrow> sized (rw_graph w) (step m)"
  shows "\<exists>w'. rnn_RunGraph drv item_ok w = Some (w', VSI_SUCCESS) \<and>
    V (g_ext (rw_graph w')) = step (write_all (buffer_writes (rw_graph w) (map cs as)) (V (g_ext (rw_graph w))))"
proof -
  obtain w1 s1 where w1: "rnn_feed_internal_state drv w = Some (w1, VSI_SUCCESS)" "ready_rnn V False as cs w1"
    "rw_graph w1 = (rw_graph w)\<lparr>g_ext := s1\<rparr>" "V s1 = V (g_ext (rw_graph w))"
    using feed_ready[OF drv r] by auto
  have st1: "sized (rw_graph w1) m \<Longrightarrow> sized (rw_graph w1) (step m)" for m using st w1(3) by simp
  obtain w2 s2 where w2: "RunGraph drv item_ok w1 = Some (w2, VSI_SUCCESS)" "rw_graph w2 = (rw_graph w1)\<lparr>g_ext := s2\<rparr>"
    "V s2 = step (write_all (buffer_writes (rw_graph w1) (map cs as)) (V (g_ext (rw_graph w1))))"
    "ready_rnn V False as (saved (rw_graph w1) (V s2) \<circ> cs) w2"
    using run_ready[OF drv w1(2) st1, of item_ok] by auto
  obtain w3 where w3: "rnn_save_internal_state drv w2 = Some (w3, VSI_SUCCESS)" "rw_graph w3 = rw_graph w2"
    using save_ready[OF drv w2(4)] by blast
  have "buffer_writes (rw_graph w1) = buffer_writes (rw_graph w)" using w1(3) by (simp add: buffer_writes_def fun_eq_iff)
  then show ?thesis using w1 w2 w3 by (intro exI[of _ w3]) (simp add: rnn_RunGraph_def)
qed

subsection \<open>Swapped handles\<close>

text \<open>A connection whose two tensors are made from handles.\<close>

definition swaps :: "'s graph \<Rightarrow> rnn_conn \<Rightarrow> bool" where
  "swaps g c \<longleftrightarrow> rc_swap c \<and> (\<exists>p q x y tid tids. rc_inputs c = tid # tids \<and> GetTensor g (rc_output c) = Some p \<and> GetTensor g tid = Some q \<and>
     t_vx (g_tensors g p) = Some x \<and> t_vx (g_tensors g q) = Some y \<and> attr_from_handle (t_attr (g_tensors g p)) \<and>
     attr_from_handle (t_attr (g_tensors g q)) \<and> stride_bytes (t_attr (g_tensors g p)) \<noteq> None)"

definition exchange :: "'s graph \<Rightarrow> rnn_conn \<Rightarrow> memory \<Rightarrow> memory" where
  "exchange g c m = m(handle g (rc_output c) := m (handle g (hd (rc_inputs c))), handle g (hd (rc_inputs c)) := m (handle g (rc_output c)))"

lemma exchange_twice: "exchange g c (exchange g c m) = m"
  by (auto simp: exchange_def)

lemma swap_feed:
  assumes drv: "rdrv_ok drv V step" and c: "swaps g c"
  shows "\<exists>g'. feed_connection drv c st g = Some (g', VSI_SUCCESS) \<and> V (g_ext g') = exchange g c (V (g_ext g)) \<and>
    swaps g' c \<and> no_nbg g' = no_nbg g \<and> exchange g' c = exchange g c"
proof -
  obtain p q x y tid tids where s: "rc_swap c" "rc_inputs c = tid # tids" "GetTensor g (rc_output c) = Some p" "GetTensor g tid = Some q"
    "t_vx (g_tensors g p) = Some x" "t_vx (g_tensors g q) = Some y" "attr_from_handle (t_attr (g_tensors g p))"
    "attr_from_handle (t_attr (g_tensors g q))" "stride_bytes (t_attr (g_tensors g p)) \<noteq> None"
    using c by (auto simp: swaps_def)
  obtain s' where s': "swap_raw drv (Some x) (Some y) (g_ext g) = (s', VSI_SUCCESS)" "V s' = (V (g_ext g))(x := V (g_ext g) y, y := V (g_ext g) x)"
    using rdrv_swap[OF drv] by blast
  let ?g = "mark_swapped q (mark_swapped p (g\<lparr>g_ext := s'\<rparr>))"
  have t: "t_attr (g_tensors ?g r) = t_attr (g_tensors g r)" "t_vx (g_tensors ?g r) = t_vx (g_tensors g r)" for r
    by (auto simp: mark_swapped_def)
  have G: "GetTensor ?g r = GetTensor g r" "node_at_id ?g nid = node_at_id g nid" "g_ext ?g = s'" for r nid
    by (simp_all add: mark_swapped_def GetTensor_def node_at_id_def GetNode_def)
  have "feed_connection drv c st g = Some (?g, VSI_SUCCESS)"
    using s s' by (auto simp: feed_connection_def rd_def swap_rnn_tensor_handle_def SwapTensorHandle_def)
  moreover have "V (g_ext ?g) = exchange g c (V (g_ext g))" using s s'(2) by (simp add: G(3) exchange_def handle_def)
  moreover have "swaps ?g c" unfolding swaps_def using s by (simp add: t G(1))
  moreover have "no_nbg ?g = no_nbg g" by (simp add: no_nbg_def G(2))
  moreover have "exchange ?g c = exchange g c" by (simp add: exchange_def handle_def G(1) t fun_eq_iff)
  ultimately show ?thesis by blast
qed

definition ready_swap :: "addr \<Rightarrow> rnn_conn \<Rightarrow> 's rworld \<Rightarrow> bool" where
  "ready_swap a c w \<longleftrightarrow> rw_built w \<and> no_nbg (rw_graph w) \<and> \<not> rw_cache_on w \<and> rw_cache w = [] \<and> dlist (rw_links w) [a] \<and>
     rw_wksp w = Some \<lparr>rk_list = Some a, rk_first = False\<rparr> \<and> rw_conns w a = Some c \<and> swaps (rw_graph w) c"

lemma feed_swap:
  assumes drv: "rdrv_ok drv V step" and r: "ready_swap a c w"
  shows "\<exists>w'. rnn_feed_internal_state drv w = Some (w', VSI_SUCCESS) \<and> ready_swap a c w' \<and>
    V (g_ext (rw_graph w')) = exchange (rw_graph w) c (V (g_ext (rw_graph w))) \<and> exchange (rw_graph w') c = exchange (rw_graph w) c"
proof -
  obtain g' where g': "feed_connection drv c VSI_SUCCESS (rw_graph w) = Some (g', VSI_SUCCESS)"
    "V (g_ext g') = exchange (rw_graph w) c (V (g_ext (rw_graph w)))" "swaps g' c" "no_nbg g' = no_nbg (rw_graph w)"
    "exchange g' c = exchange (rw_graph w) c"
    using swap_feed[OF drv, of "rw_graph w" c VSI_SUCCESS] r by (auto simp: ready_swap_def)
  have "seg (rw_links w) None [a] None" "\<forall>a \<in> set [a]. rw_conns w a \<noteq> None" using r by (auto simp: ready_swap_def dlist_def)
  then have "rnn_feed_internal_state drv w = Some (w\<lparr>rw_graph := g'\<rparr>, VSI_SUCCESS)"
    using feed_loop_list[of w None "[a]" drv VSI_SUCCESS] r g'(1) by (simp add: rnn_feed_internal_state_def ready_swap_def)
  then show ?thesis using r g' by (auto simp: ready_swap_def)
qed

lemma save_swap:
  assumes "ready_swap a c w"
  shows "rnn_save_internal_state drv w = Some (w, VSI_SUCCESS)"
proof -
  have "(\<lambda>b. if b \<in> set [a] then Some c else rw_conns w b) = rw_conns w" using assms by (auto simp: ready_swap_def)
  then have "save_loop drv w (first_ptr [a] None) VSI_SUCCESS = Some (w, VSI_SUCCESS)"
    using save_loop_list[of w None "[a]" drv "\<lambda>_. c"] assms by (simp add: ready_swap_def dlist_def save_one_def swaps_def)
  then show ?thesis using assms by (simp add: rnn_save_internal_state_def ready_swap_def)
qed

lemma run_swap:
  assumes drv: "rdrv_ok drv V step" and r: "ready_swap a c w"
  shows "\<exists>w'. RunGraph drv item_ok w = Some (w', VSI_SUCCESS) \<and> ready_swap a c w' \<and>
    V (g_ext (rw_graph w')) = step (exchange (rw_graph w) c (V (g_ext (rw_graph w)))) \<and> exchange (rw_graph w') c = exchange (rw_graph w) c"
proof -
  obtain w1 where w1: "rnn_feed_internal_state drv w = Some (w1, VSI_SUCCESS)" "ready_swap a c w1"
    "V (g_ext (rw_graph w1)) = exchange (rw_graph w) c (V (g_ext (rw_graph w)))" "exchange (rw_graph w1) c = exchange (rw_graph w) c"
    using feed_swap[OF drv r] by blast
  obtain s where s: "process_graph drv (g_ext (rw_graph w1)) = (s, VSI_SUCCESS)" "V s = step (V (g_ext (rw_graph w1)))"
    using rdrv_process[OF drv] by blast
  let ?w = "w1\<lparr>rw_graph := (rw_graph w1)\<lparr>g_ext := s\<rparr>\<rparr>"
  have g: "swaps ((rw_graph w1)\<lparr>g_ext := s\<rparr>) c = swaps (rw_graph w1) c" "exchange ((rw_graph w1)\<lparr>g_ext := s\<rparr>) c = exchange (rw_graph w1) c"
    by (simp_all add: swaps_def exchange_def GetTensor_def fun_eq_iff)
  have r': "ready_swap a c ?w" using w1(2) g(1) by (simp add: ready_swap_def)
  have has: "HasRNN w" "HasRNN ?w" "rw_built w" using r w1(2) by (simp_all add: ready_swap_def HasRNN_def)
  have "feed_and_start drv item_ok (process_graph drv) w = Some (?w, VSI_SUCCESS)"
    using has(1) w1(1,2) s(1) check_swapped_noop[of w1 drv item_ok] by (simp add: feed_and_start_def call_driver_def ready_swap_def)
  then have "RunGraph drv item_ok w = Some (?w, VSI_SUCCESS)" using has save_swap[OF r', of drv] by (simp add: RunGraph_def)
  then show ?thesis using r' s(2) w1(3,4) g(2) by (intro exI[of _ ?w]) simp
qed

text \<open>
  Swapped handles are swapped twice. When the connection is a swap of handles, a call of
  \<open>vsi_nn_RunGraph\<close> exchanges the values of output and input before the run, while
  \<open>vsi_nn_rnn_RunGraph\<close>, which feeds before it calls \<open>vsi_nn_RunGraph\<close>, exchanges them twice: the run
  works on the same inputs again, and the network does not advance.
\<close>

theorem rnn_run_swaps_twice:
  assumes drv: "rdrv_ok drv V step" and r: "ready_swap a c w"
  shows "(\<exists>w'. RunGraph drv item_ok w = Some (w', VSI_SUCCESS) \<and>
      V (g_ext (rw_graph w')) = step (exchange (rw_graph w) c (V (g_ext (rw_graph w))))) \<and>
    (\<exists>w'. rnn_RunGraph drv item_ok w = Some (w', VSI_SUCCESS) \<and> V (g_ext (rw_graph w')) = step (V (g_ext (rw_graph w))))"
proof -
  obtain w1 where w1: "rnn_feed_internal_state drv w = Some (w1, VSI_SUCCESS)" "ready_swap a c w1"
    "V (g_ext (rw_graph w1)) = exchange (rw_graph w) c (V (g_ext (rw_graph w)))" "exchange (rw_graph w1) c = exchange (rw_graph w) c"
    using feed_swap[OF drv r] by blast
  obtain w2 where w2: "RunGraph drv item_ok w1 = Some (w2, VSI_SUCCESS)" "ready_swap a c w2"
    "V (g_ext (rw_graph w2)) = step (exchange (rw_graph w1) c (V (g_ext (rw_graph w1))))"
    using run_swap[OF drv w1(2)] by blast
  have "rnn_RunGraph drv item_ok w = Some (w2, VSI_SUCCESS)" using w1(1) w2(1) save_swap[OF w2(2), of drv] by (simp add: rnn_RunGraph_def)
  moreover have "V (g_ext (rw_graph w2)) = step (V (g_ext (rw_graph w)))" using w2(3) w1(3,4) exchange_twice by metis
  ultimately show ?thesis using run_swap[OF drv r, of item_ok] by blast
qed

text \<open>A tensor without elements leaves its buffer with a freed block, which the release frees again.\<close>

lemma zero_elements_double_free:
  assumes "ShapeProduct (attr_size (t_attr t)) (unat (attr_dim_num (t_attr t))) = Some 0" "\<not> attr_vtl (t_attr t)"
    "attr_bytes (t_attr t) = Some sz" "malloc (unat sz) = Some blk"
  shows "\<exists>c'. internal_buffer_init drv malloc (Some t) c m = Some (c', m, VSI_FAILURE) \<and> internal_buffer_deinit c' m = None"
  using assms by (simp add: internal_buffer_init_def internal_buffer_deinit_def Let_def VSI_SUCCESS_def VSI_FAILURE_def)

text \<open>
  The mark of a swapped tensor is taken away at the first slot that is set, so that a second slot with
  the same tensor keeps its old handle.
\<close>

lemma swapped_second_slot:
  assumes "GetTensor (rw_graph w) tid = Some p" "t_swapped (g_tensors (rw_graph w) p)" "\<not> rw_cache_on w"
    "set_param drv node idx (t_vx (g_tensors (rw_graph w) p)) (g_ext (rw_graph w)) = (s, VSI_SUCCESS)"
  shows "swapped_slots drv item_ok node idx [tid, tid] VSI_SUCCESS w =
    (fst (set_parameter_for_swap_handle drv item_ok node p idx w), VSI_SUCCESS)"
  using assms by (simp add: set_parameter_for_swap_handle_def Let_def GetTensor_def)

subsection \<open>A sample network\<close>

text \<open>Tensor \<open>0\<close> is the input and \<open>1\<close> the output of a network that adds one to each byte.\<close>

definition increment :: "memory \<Rightarrow> memory" where
  "increment m = m(11 := map_option (map (\<lambda>b. b + 1)) (m 10))"

definition memory_drv :: "memory rdrv" where
  "memory_drv =
     \<lparr>copy_to = (\<lambda>t d s. case t_vx t of None \<Rightarrow> (s, VSI_FAILURE) | Some x \<Rightarrow> (s(x \<mapsto> d), VSI_SUCCESS)),
      read_data = (\<lambda>s t. Option.bind (t_vx t) s),
      store_default = (\<lambda>a. (VSI_SUCCESS, replicate (unat (type_get_bytes (attr_type a))) 0)),
      swap_raw = (\<lambda>x y s. case (x, y) of (Some x, Some y) \<Rightarrow> (s(x := s y, y := s x), VSI_SUCCESS) | _ \<Rightarrow> (s, VSI_FAILURE)),
      set_param = (\<lambda>node idx t s. (s, VSI_SUCCESS)), process_graph = (\<lambda>s. (increment s, VSI_SUCCESS)),
      schedule_graph = (\<lambda>s. (s, VSI_SUCCESS)), wait_graph = (\<lambda>s. (increment s, VSI_SUCCESS))\<rparr>"

lemma memory_drv_ok: "rdrv_ok memory_drv id increment"
  by (simp add: rdrv_ok_def memory_drv_def)

definition byte_tensor :: "bool \<Rightarrow> ptr \<Rightarrow> vtensor" where
  "byte_tensor from_handle x =
     \<lparr>t_attr = \<lparr>attr_size = [2, 1, 1, 1, 1, 1, 1, 1], attr_dim_num = 1, attr_vtl = False, attr_is_const = False,
        attr_vx_type = 3, attr_qnt_type = 0, attr_zero_point = 0, attr_from_handle = from_handle\<rparr>,
      t_vx = Some x, t_swapped = False\<rparr>"

definition rnn_graph :: "bool \<Rightarrow> memory graph" where
  "rnn_graph from_handle = (CreateGraph (byte_tensor from_handle) (\<lambda>_. sample_node [] []) [10 \<mapsto> [5, 7], 11 \<mapsto> [0, 0]])
     \<lparr>tensor_table := MapAdd True True (MapAdd True True MapInit 0 (Some 10)) 1 (Some 11), tensor_num := 2\<rparr>"

definition rnn_world :: "bool \<Rightarrow> memory rworld" where
  "rnn_world from_handle =
     \<lparr>rw_graph = rnn_graph from_handle, rw_built = True, rw_links = (\<lambda>_. None), rw_conns = (\<lambda>_. None), rw_wksp = None, rw_blocks = 0,
      rw_cache_on = False, rw_cached = False, rw_cache = []\<rparr>"

lemma rnn_graph_fields:
  "GetTensor (rnn_graph fh) t = (if t = 0 then Some 10 else if t = 1 then Some 11 else None)"
  "g_tensors (rnn_graph fh) p = byte_tensor fh p" "g_ext (rnn_graph fh) = [10 \<mapsto> [5, 7], 11 \<mapsto> [0, 0]]"
  "GetNode (rnn_graph fh) nid = None"
proof -
  have k: "uint t = 0 \<longleftrightarrow> t = 0" "uint t = 1 \<longleftrightarrow> t = 1" for t :: uint32 by (simp_all add: word_uint_eq_iff)
  show "GetTensor (rnn_graph fh) t = (if t = 0 then Some 10 else if t = 1 then Some 11 else None)" "GetNode (rnn_graph fh) nid = None"
    by (simp_all add: rnn_graph_def CreateGraph_def GetTensor_def GetNode_def Get_Add k map_inv_Add map_inv_Init) (simp_all add: MapInit_def MapGet_def BinaryTreeGetNode_def)
qed (simp_all add: rnn_graph_def CreateGraph_def)

lemma byte_tensor_simps:
  "t_vx (byte_tensor fh x) = Some x" "attr_from_handle (t_attr (byte_tensor fh x)) = fh" "attr_bytes (t_attr (byte_tensor fh x)) = Some 2"
  "attr_type (t_attr (byte_tensor fh x)) = TYPE_UINT8"
  "ShapeProduct (attr_size (t_attr (byte_tensor fh x))) (unat (attr_dim_num (t_attr (byte_tensor fh x)))) = Some 2"
  "same_shape (t_attr (byte_tensor fh x)) (t_attr (byte_tensor fh y)) = Some True"
  by (simp_all add: byte_tensor_def attr_bytes_def attr_type_def type_codes_def GetTensorSize_def rd_def ShapeProduct_def same_shape_def)

lemma byte_tensor_stride: "stride_bytes (t_attr (byte_tensor fh x)) \<noteq> None"
  by (simp add: byte_tensor_def stride_bytes_def attr_type_def type_codes_def GetStrideSizeBySize_def rd_def Let_def wr_def numeral_eq_Suc)

lemma rnn_graph_tensor: "tensor_of (rnn_graph fh) t n \<longleftrightarrow> t \<in> {0, 1} \<and> n = 2"
  "handle (rnn_graph fh) 0 = 10" "handle (rnn_graph fh) 1 = 11"
  by (auto simp: tensor_of_def handle_def rnn_graph_fields byte_tensor_simps)

lemma rnn_graph_sized: "sized (rnn_graph fh) m \<longleftrightarrow> (\<exists>a. m 10 = Some a \<and> length a = 2) \<and> (\<exists>b. m 11 = Some b \<and> length b = 2)"
proof
  assume "sized (rnn_graph fh) m"
  then have "tid \<in> {0, 1} \<Longrightarrow> \<exists>d. m (handle (rnn_graph fh) tid) = Some d \<and> length d = 2" for tid
    unfolding sized_def rnn_graph_tensor(1) by force
  from this[of 0] this[of 1] show "(\<exists>a. m 10 = Some a \<and> length a = 2) \<and> (\<exists>b. m 11 = Some b \<and> length b = 2)"
    by (simp add: rnn_graph_tensor)
qed (auto simp: sized_def rnn_graph_tensor)

lemma increment_sized: "\<forall>m. sized (rnn_graph fh) m \<longrightarrow> sized (rnn_graph fh) (increment m)"
  by (auto simp: rnn_graph_sized increment_def)

lemma rnn_graph_no_nbg: "no_nbg (rnn_graph fh)"
  by (simp add: no_nbg_def node_at_id_def rnn_graph_fields)

definition loop_con :: "tensor_id \<times> tensor_id list" where
  "loop_con = (1, 0 # replicate 15 TENSOR_ID_NA)"

definition zero_block :: "nat \<Rightarrow> uint8 list option" where
  "zero_block n = Some (replicate n 0)"

lemma byte_default: "default_ok memory_drv (t_attr (byte_tensor fh x)) 2 [0]"
proof -
  have "store_default memory_drv (t_attr (byte_tensor fh x)) = (VSI_SUCCESS, [0])" by (simp add: memory_drv_def byte_tensor_simps)
  moreover have "\<not> attr_vtl (t_attr (byte_tensor fh x))" by (simp add: byte_tensor_def)
  ultimately show ?thesis by (simp add: default_ok_def byte_tensor_simps)
qed

lemma loop_con_accepted: "accepted memory_drv zero_block (rnn_graph False) loop_con"
  unfolding accepted_def
proof (intro exI conjI)
  show "GetTensor (rnn_graph False) (fst loop_con) = Some 11" by (simp add: loop_con_def rnn_graph_fields)
  show "default_ok memory_drv (t_attr (g_tensors (rnn_graph False) 11)) 2 [0]" by (simp add: rnn_graph_fields byte_default)
  show "zero_block (2 * length [0]) = Some [0, 0]" by (simp add: zero_block_def numeral_2_eq_2)
  show "length [0, 0] = 2 * length [0]" by simp
  show "tensor_of (rnn_graph False) (fst loop_con) 2" by (simp add: loop_con_def rnn_graph_tensor)
  show "1 < MAX_RNN_CONNECTION_INPUTS" by (simp add: MAX_RNN_CONNECTION_INPUTS_def)
  show "\<forall>i < 1. fits (rnn_graph False) (t_attr (g_tensors (rnn_graph False) 11)) (snd loop_con ! i) \<and> tensor_of (rnn_graph False) (snd loop_con ! i) 2"
    by (simp add: loop_con_def rnn_graph_tensor fits_def rnn_graph_fields byte_tensor_simps TENSOR_ID_NA_def)
qed (simp_all add: loop_con_def)

theorem rnn_session_witness:
  "\<exists>w1 w2. rnn_InitWksp memory_drv True (\<lambda>i. Some i) (\<lambda>_. zero_block) [loop_con] (rnn_world False) = Some (w1, VSI_SUCCESS) \<and>
    run_times memory_drv (\<lambda>_ _. True) 3 w1 = Some (w2, VSI_SUCCESS) \<and> g_ext (rw_graph w2) 11 = Some [8, 10]"
proof -
  have inj: "inj (\<lambda>i :: nat. i)" by simp
  have acc: "\<forall>i < length [loop_con]. accepted memory_drv zero_block (rw_graph (rnn_world False)) ([loop_con] ! i)"
    using loop_con_accepted by (simp add: rnn_world_def)
  have w: "rw_wksp (rnn_world False) = None" "rw_built (rnn_world False)" "no_nbg (rw_graph (rnn_world False))" "\<not> rw_cache_on (rnn_world False)"
    "rw_cache (rnn_world False) = []" "sized (rw_graph (rnn_world False)) (id (g_ext (rw_graph (rnn_world False))))"
    "\<forall>m. sized (rw_graph (rnn_world False)) m \<longrightarrow> sized (rw_graph (rnn_world False)) (increment m)"
    using increment_sized[of False] by (simp_all add: rnn_world_def rnn_graph_no_nbg rnn_graph_sized rnn_graph_fields)
  obtain w1 w2 where w2: "rnn_InitWksp memory_drv True (\<lambda>i. Some i) (\<lambda>_. zero_block) [loop_con] (rnn_world False) = Some (w1, VSI_SUCCESS)"
    "run_times memory_drv (\<lambda>_ _. True) 3 w1 = Some (w2, VSI_SUCCESS)"
    "id (g_ext (rw_graph w2)) = rnn_values increment (user_carry (rw_graph (rnn_world False)) [loop_con]) 3 (id (g_ext (rw_graph (rnn_world False))))"
    using rnn_session[where malloc = "\<lambda>_. zero_block" and cons = "[loop_con]" and n = 3 and item_ok = "\<lambda>_ _. True", OF memory_drv_ok w(1) inj w(2-6) acc w(7)] by blast
  have carry: "user_carry (rnn_graph False) [loop_con] m = m(10 \<mapsto> the (m 11))" for m
    by (simp add: user_carry_def loop_con_def write_all_def rnn_graph_tensor TENSOR_ID_NA_def)
  have "rnn_values increment (user_carry (rnn_graph False) [loop_con]) 3 [10 \<mapsto> [5, 7], 11 \<mapsto> [0, 0]] 11 = Some [8, 10]"
    by (simp add: numeral_3_eq_3 carry increment_def)
  then show ?thesis using w2 by (auto simp: rnn_world_def rnn_graph_fields)
qed

text \<open>The second connection names a tensor that is not there, so that only the first one is made: there
  are a workspace, a connection and the block of its buffer.\<close>

theorem rnn_deinit_undoes_init_witness:
  "\<exists>w'. rnn_InitWksp memory_drv True (\<lambda>i. Some i) (\<lambda>_. zero_block) [loop_con, (9, [])] (rnn_world False) = Some (w', VSI_FAILURE) \<and>
    rw_conns w' 0 \<noteq> None \<and> rw_blocks w' = 3 \<and> rnn_DeinitWksp w' = Some (rnn_world False, VSI_SUCCESS)"
proof -
  let ?w = "rnn_world False"
  obtain c where c: "\<forall>m. make_conn memory_drv zero_block loop_con (rnn_graph False) m = Some (Some (c, m + 1))"
    using make_conn_accepted[OF loop_con_accepted] by blast
  have m: "make_conn memory_drv zero_block (9, []) (rnn_graph False) m = Some None" for m
    by (simp add: make_conn_def rnn_graph_fields)
  have push: "LinkListPushEnd ((\<lambda>_. None)(0 \<mapsto> \<lparr>ll_prev = None, ll_next = None\<rparr>)) None (Some 0) =
      Some ((\<lambda>_. None)(0 \<mapsto> \<lparr>ll_prev = None, ll_next = None\<rparr>), Some 0)"
    by (simp add: LinkListPushEnd_def walk_to_start.simps)
  obtain w' where w': "rnn_InitWksp memory_drv True (\<lambda>i. Some i) (\<lambda>_. zero_block) [loop_con, (9, [])] ?w = Some (w', VSI_FAILURE)"
    "rw_conns w' 0 = Some c" "rw_blocks w' = 3"
    using c m push by (simp add: rnn_InitWksp_def rnn_DeinitWksp_def rnn_world_def Let_def)
  have "rnn_DeinitWksp w' = Some (?w, VSI_SUCCESS)"
    by (rule rnn_deinit_undoes_init[OF w'(1)])
      (auto simp: rnn_world_def rnn_graph_fields loop_con_def has_elements_def byte_tensor_simps split: if_splits)
  then show ?thesis using w' by auto
qed

definition loop_conn :: "bool \<Rightarrow> rnn_conn" where
  "loop_conn swap = \<lparr>rc_output = 1, rc_inputs = 0 # replicate 15 TENSOR_ID_NA, rc_attr = None, rc_data = Block [0, 0], rc_size = 2,
     rc_count = 1, rc_swap = swap\<rparr>"

definition loop_world :: "bool \<Rightarrow> bool \<Rightarrow> memory rworld" where
  "loop_world first swap =
     \<lparr>rw_graph = rnn_graph swap, rw_built = True, rw_links = [1 \<mapsto> \<lparr>ll_prev = None, ll_next = None\<rparr>], rw_conns = [1 \<mapsto> loop_conn swap],
      rw_wksp = Some \<lparr>rk_list = Some 1, rk_first = first\<rparr>, rw_blocks = 3, rw_cache_on = False, rw_cached = False, rw_cache = []\<rparr>"

lemma loop_world_ready: "ready_rnn id first [1] (\<lambda>_. loop_conn False) (loop_world first False)"
  by (simp add: ready_rnn_def loop_world_def rnn_graph_no_nbg dlist_def rnn_graph_sized rnn_graph_fields)
    (simp add: copies_def loop_conn_def conn_inputs_def rnn_graph_tensor)

lemma loop_world_sized: "\<forall>m. sized (rw_graph (loop_world first swap)) m \<longrightarrow> sized (rw_graph (loop_world first swap)) (increment m)"
  using increment_sized[of swap] by (simp add: loop_world_def)

theorem reset_keeps_state_witness:
  "\<exists>w' w''. rnn_ResetBuffers memory_drv (\<lambda>_. zero_block) (loop_world False False) = Some (w', VSI_SUCCESS) \<and>
    RunGraph memory_drv (\<lambda>_ _. True) w' = Some (w'', VSI_SUCCESS) \<and> g_ext (rw_graph w'') 11 = Some [6, 8]"
proof -
  let ?w = "loop_world False False"
  have d: "\<forall>a \<in> set [1]. \<exists>p n bytes blk. GetTensor (rw_graph ?w) (rc_output (loop_conn False)) = Some p \<and>
      default_ok memory_drv (t_attr (g_tensors (rw_graph ?w) p)) n bytes \<and> zero_block (n * length bytes) = Some blk \<and> length blk = n * length bytes"
  proof
    fix a :: nat
    have "default_ok memory_drv (t_attr (g_tensors (rw_graph ?w) 11)) 2 [0]" by (simp add: loop_world_def rnn_graph_fields byte_default)
    moreover have "GetTensor (rw_graph ?w) (rc_output (loop_conn False)) = Some 11" by (simp add: loop_world_def loop_conn_def rnn_graph_fields)
    ultimately show "\<exists>p n bytes blk. GetTensor (rw_graph ?w) (rc_output (loop_conn False)) = Some p \<and>
      default_ok memory_drv (t_attr (g_tensors (rw_graph ?w) p)) n bytes \<and> zero_block (n * length bytes) = Some blk \<and> length blk = n * length bytes"
      by (intro exI[of _ 11] exI[of _ 2] exI[of _ "[0]"] exI[of _ "replicate 2 0"]) (simp add: zero_block_def)
  qed
  obtain w' w'' where "rnn_ResetBuffers memory_drv (\<lambda>_. zero_block) ?w = Some (w', VSI_SUCCESS)"
    "RunGraph memory_drv (\<lambda>_ _. True) w' = Some (w'', VSI_SUCCESS)" "id (g_ext (rw_graph w'')) = increment (id (g_ext (rw_graph ?w)))"
    using reset_keeps_state[where malloc = "\<lambda>_. zero_block" and item_ok = "\<lambda>_ _. True", OF memory_drv_ok loop_world_ready loop_world_sized d] by blast
  then show ?thesis by (auto simp: loop_world_def rnn_graph_fields increment_def)
qed

theorem rnn_run_overwrites_start_witness:
  "\<exists>w'. rnn_RunGraph memory_drv (\<lambda>_ _. True) (loop_world True False) = Some (w', VSI_SUCCESS) \<and> g_ext (rw_graph w') 11 = Some [1, 1]"
proof -
  let ?w = "loop_world True False"
  obtain w' where w': "rnn_RunGraph memory_drv (\<lambda>_ _. True) ?w = Some (w', VSI_SUCCESS)"
    "id (g_ext (rw_graph w')) = increment (write_all (buffer_writes (rw_graph ?w) (map (\<lambda>_. loop_conn False) [1 :: nat])) (id (g_ext (rw_graph ?w))))"
    using rnn_run_overwrites_start[where item_ok = "\<lambda>_ _. True", OF memory_drv_ok loop_world_ready loop_world_sized] by blast
  have "buffer_writes (rnn_graph False) [loop_conn False] = [(10, [0, 0])]"
    by (simp add: buffer_writes_def loop_conn_def conn_inputs_def block_bytes_def rnn_graph_tensor)
  then show ?thesis using w' by (auto simp: loop_world_def write_all_def increment_def)
qed

theorem rnn_run_swaps_twice_witness:
  "(\<exists>w'. RunGraph memory_drv (\<lambda>_ _. True) (loop_world False True) = Some (w', VSI_SUCCESS) \<and> g_ext (rw_graph w') 11 = Some [1, 1]) \<and>
    (\<exists>w'. rnn_RunGraph memory_drv (\<lambda>_ _. True) (loop_world False True) = Some (w', VSI_SUCCESS) \<and> g_ext (rw_graph w') 11 = Some [6, 8])"
proof -
  have r: "ready_swap 1 (loop_conn True) (loop_world False True)"
    using byte_tensor_stride by (simp add: ready_swap_def loop_world_def rnn_graph_no_nbg dlist_def swaps_def loop_conn_def rnn_graph_fields byte_tensor_simps)
  have "exchange (rnn_graph True) (loop_conn True) [10 \<mapsto> [5, 7], 11 \<mapsto> [0, 0]] = [10 \<mapsto> [0, 0], 11 \<mapsto> [5, 7]]"
    by (simp add: exchange_def loop_conn_def rnn_graph_tensor fun_eq_iff)
  then show ?thesis using rnn_run_swaps_twice[where item_ok = "\<lambda>_ _. True", OF memory_drv_ok r]
    by (auto simp: loop_world_def rnn_graph_fields increment_def)
qed

end
