(* ===== verification/Spec2Isabelle.thy ===== *)
theory Spec2Isabelle
  imports Link_List Binary_Tree Vsi_Map Hashmap Graph Graph_Sort Graph_Setup
    Dtype Filter_Size Graph_Convert Graph_Int8 Graph_Optimize Graph_Rewrite Internal_Node Internal_Passes Internal_Release Io_Types Kernel_Gpu_Shape Kernel_Matmul Kernel_Param Kernel_Shape Kernel_Tile Op_Check Op_Checked Op_Infer Op_Ranges Op_Shape Op_Slice Op_Tables Op_Tables_More Op_Types Partition Permute Permute_Stack Rnn Rnn_Runs Rnn_Wksp
begin

text \<open>
  Verification of the core of ovxlib, the C library behind the C++ front end of TIM-VX.
  All paths below are relative to \<^verbatim>\<open>src/tim/vx/internal\<close>. The library builds a graph of
  tensors and nodes, orders it, lets the implementation of every operation check and set up
  its node, and then hands the nodes to the OpenVX driver; the kernels reshape their tensors
  before they are dispatched to the GPU.

  \<^bold>\<open>Conventions.\<close> \<open>Vsi_Prelude\<close> holds the machine types (\<open>vsi_size_t\<close> and \<open>uint32_t\<close> are 32-bit
  words that wrap around), the status values and checked array access: an access outside of a
  C array is \<open>None\<close>, and so is the use of a freed or absent heap cell. Failing allocations are
  boolean or option arguments of the operations. A return value of the code that signals an
  error is a value of the model, never \<open>None\<close>. Logging and debug dumps have no effect on the
  state and are left out, and so are assertions (compiled out in a release build), but those of the
  parameters of kernels, which stand for an error of the caller.

  \<^bold>\<open>Containers.\<close>
  \<^item> \<open>Link_List\<close> (\<^verbatim>\<open>src/utils/vsi_nn_link_list.c\<close>): a heap of nodes with \<open>prev\<close> and \<open>next\<close>
    pointers; loops over pointers are \<open>partial_function (option)\<close>, and the lemmas show that
    they return on every well-formed chain. The lemmas describe each operation by its effect
    on the list of addresses of the chain; the locale \<open>node_chain\<close> is the interface through which
    the containers use a list, and its lemma covers every sequence of its calls.
  \<^item> \<open>Binary_Tree\<close> (\<^verbatim>\<open>src/utils/vsi_nn_binary_tree.c\<close>): search trees as values (their nodes are
    not shared), the locale \<open>key_store\<close> with the contract of a key-value store, and its
    interpretation on the tree. \<open>Vsi_Map\<close> (\<^verbatim>\<open>src/utils/vsi_nn_map.c\<close>) and \<open>Hashmap\<close>
    (\<^verbatim>\<open>src/utils/vsi_nn_hashmap.c\<close>) put a list of keys and a counter beside a tree and
    interpret the same locale; the properties cover every sequence of operations.

  \<^bold>\<open>The graph.\<close>
  \<^item> \<open>Graph\<close> (\<^verbatim>\<open>src/vsi_nn_graph.c\<close>, \<^verbatim>\<open>src/vsi_nn_node.c\<close>, the relevance table of
    \<^verbatim>\<open>src/vsi_nn_tensor.c\<close>): the record \<open>graph\<close> with its two tables from identifiers to pointers
    and the objects behind the pointers. The lemmas show which identifiers are handed out and
    kept, that the buffers of a pass over the nodes suffice, and what the edge tables hold.
  \<^item> \<open>Graph_Sort\<close>: \<open>vsi_nn_SortGraphNode\<close>, with its work list that is compacted by swapping
    with the last entry, proved sound and complete for the existence of a topological order.
  \<^item> \<open>Graph_Setup\<close>: the passes over the sorted nodes (\<open>setup_node\<close>, the two optimisation passes,
    \<open>compute_node\<close>, \<open>set_graph_precision\<close>, \<open>vsi_nn_SetupGraph\<close>, \<open>vsi_nn_InferShape\<close>). The
    functions of the operations and of the driver are a record of functions, an argument of
    every pass. The pass lemmas say that a successful pass called these functions on every
    node once and in order, each on the graph that the one before left (\<open>setup_run\<close>).
  \<^item> \<open>Graph_Optimize\<close> (\<^verbatim>\<open>src/vsi_nn_graph_optimization.c\<close>): \<open>vsi_nn_OptimizeGraph\<close>, which turns
    signed 8-bit tensors into unsigned ones and puts conversion nodes in front of the tensors of
    the user. The calls of the driver are the record \<open>drv\<close>, a predicate says which allocation
    succeeds. \<open>Graph_Rewrite\<close> has the passes that change tensors in place (\<open>drv_ok\<close> has the laws of
    the calls of the driver; the copy of data to a new tensor is the code of the library), \<open>Graph_Convert\<close> one conversion and histories of them, with the equations
    between tensors that the nodes stand for (\<open>solves\<close>), and \<open>Graph_Int8\<close> the whole function.
  \<^item> \<open>Rnn\<close> (\<^verbatim>\<open>src/vsi_nn_rnn.c\<close>, the functions of \<^verbatim>\<open>src/vsi_nn_graph.c\<close> that run a graph):
    connections from outputs to inputs of the next run, by buffers or swapped handles, in a linked
    list on the heap of \<open>Link_List\<close>, and the driver as a record \<open>rdrv\<close>. \<open>Rnn_Runs\<close> has the laws of the
    driver (\<open>rdrv_ok\<close>), which say what is behind each handle, and the sequence of values that the
    runs compute; \<open>Rnn_Wksp\<close> the life of the workspace with the blocks it allocates, sessions from the setup to the last run,
    and the two entry points that do not compute this sequence.

  \<^bold>\<open>Shapes of the kernels.\<close>
  \<^item> \<open>Kernel_Shape\<close> (\<^verbatim>\<open>src/kernel/vsi_nn_kernel_eltwise.c\<close>): the optimizers for element-wise
    kernels. The specification is the position of the input that a position of the output
    reads (\<open>bidx\<close>); merging and splitting dimensions keep it.
  \<^item> \<open>Kernel_Gpu_Shape\<close> and \<open>Kernel_Tile\<close>
    (\<^verbatim>\<open>src/kernel/vsi_nn_kernel_gpu_shape_optimize.c\<close>): the optimizers for reductions, softmax,
    scatter, normalisation and tile, with the same kind of specification (\<open>tidx\<close> for tile).

  \<^bold>\<open>Parameters of kernels.\<close>
  \<^item> \<open>Kernel_Param\<close> (\<^verbatim>\<open>src/kernel/vsi_nn_kernel_param.c\<close>): named parameters in a hash map whose
    data point to cells of a heap. The union of a cell is its 64 bits, little-endian. A null
    pointer fails an assertion, or gives a default when assertions are compiled out. The lemmas
    cover every history of additions, up to the release of the list.

  \<^bold>\<open>Composite operations.\<close>
  \<^item> \<open>Internal_Node\<close> (\<^verbatim>\<open>src/vsi_nn_internal_node.c\<close>): the workspace of a node with its lists of
    internal nodes and tensors. Workspace, internal nodes and internal tensors share one heap of
    links, as the C code casts them to list nodes; the other fields are maps beside it. The
    functions of the operations and of the driver are the record \<open>iops\<close>.
  \<^item> \<open>Internal_Passes\<close>: what the passes over a workspace of plain operations do (\<open>keeps_lists\<close>):
    order of the visits, numbers of the nodes, and the two passes that do not do what they mean to.
  \<^item> \<open>Internal_Release\<close>: the release of a workspace, whose internal nodes may have workspaces of
    their own. What the operation of a node owns is a record (\<open>estate\<close>), and its promise to release
    exactly this is \<open>deinit_contract\<close>; a composite operation keeps the promise when the operations
    of its internal nodes do.

  \<^bold>\<open>Operations.\<close>
  \<^item> \<open>Op_Shape\<close> (files of \<^verbatim>\<open>src/ops\<close>): what the setup functions of operations infer for
    their outputs, with the window sizes of \<open>Filter_Size\<close> for pooling and convolution. A tensor
    is its array of sizes, rank and scalar flag.
  \<^item> \<open>Op_Infer\<close>: these shapes against specifications (broadcasting, products of batches of
    matrices, requests to reshape, blocks of space) and against the optimizers of
    \<open>Kernel_Shape\<close> and \<open>Kernel_Matmul\<close> that run on the same tensors afterwards.
  \<^item> \<open>Op_Types\<close>: a type system on ranks for programs of operations, shown sound: what has a
    type runs without an access outside of the arrays and has the rank of the type.
  \<^item> \<open>Op_Slice\<close> (\<^verbatim>\<open>src/ops/vsi_nn_op_strided_slice.c\<close>, \<^verbatim>\<open>vsi_nn_op_split.c\<close>,
    \<^verbatim>\<open>vsi_nn_op_slice.c\<close>): slices with strides, negative indices and masks, and the operations
    that are set up through them. The loop that counts the positions is a partial function.
  \<^item> \<open>Op_Ranges\<close>: the positions a slice selects (\<open>selected\<close>, a set of integers), the sizes of
    the output and the ranges for the driver in terms of them, and splitting against joining.
    The properties are for slices without new dimensions.

  \<^bold>\<open>Checks of nodes.\<close>
  \<^item> \<open>Io_Types\<close> (\<^verbatim>\<open>src/utils/vsi_nn_constraint_check.c\<close>): the signature of a node, the search of
    a table of element types for it and the text for a rejected node, which is written by
    \<open>snprintf\<close> into a block of characters. The specification is the comparison of types
    (\<open>type_fits\<close>) without the packing into bits.
  \<^item> \<open>Op_Tables\<close> and \<open>Op_Tables_More\<close> (files of \<^verbatim>\<open>src/ops\<close>): 90 tables that operations register.
  \<^item> \<open>Op_Check\<close> (\<open>vsi_nn_OpCheck\<close> of \<^verbatim>\<open>src/vsi_nn_ops.c\<close> and the \<open>op_check\<close> functions): the checks
    of 178 operations in a list with their numbers; an operation may ask for the check of
    another one, and this ends as the other one stands before it in the list. An operation
    that is not in the list is not modelled, nor are operations registered by a client.
  \<^item> \<open>Op_Checked\<close>: the check an operation has in the end (\<open>resolves\<close>), what it decides, the check
    of \<open>CONCAT\<close> with the setup that follows, and inputs that pass or fail against the intent.

  \<^bold>\<open>Tensor data.\<close>
  \<^item> \<open>Dtype\<close> (\<^verbatim>\<open>include/utils/vsi_nn_dtype_util_prv.h\<close>, \<^verbatim>\<open>src/utils/vsi_nn_dtype_util.c\<close>,
    \<^verbatim>\<open>src/utils/vsi_nn_util.c\<close>, \<open>vsi_nn_GetTensorSize\<close> of \<^verbatim>\<open>src/vsi_nn_tensor.c\<close>): element
    types, sizes and strides of shapes in bytes, 4-bit packing, and conversion of integers as
    byte sequences. Buffers are lists of bytes, and a copy outside of them is \<open>None\<close>.
  \<^item> \<open>Permute\<close> and \<open>Permute_Stack\<close> (\<^verbatim>\<open>src/utils/vsi_nn_math.c\<close>): transposition by index
    arithmetic, and permutation by a machine that keeps the addresses of the outer dimensions
    on stacks (its loop is a \<open>partial_function\<close>, shown to end). Positions are mixed-radix
    numbers: \<open>at_pos\<close> with the last dimension fastest, \<open>lin\<close> with the first one; the two
    functions are shown to agree. \<open>vsi_nn_SqueezeShape\<close> is shown to lose dimensions.
  \<^item> \<open>Kernel_Matmul\<close> (\<^verbatim>\<open>src/kernel/vsi_nn_kernel_gpu_shape_optimize.c\<close>): the batch dimensions of
    a matrix product, merged by the broadcast optimizer or, when both inputs broadcast, described
    by the sizes and strides of three loops; the specification is the batch of an input that a
    batch of the output reads. The loop that drops trailing ones reads entry -1 of an array when
    all entries are 1, which is \<open>None\<close> as any read outside of an array.
  \<^item> \<open>Filter_Size\<close> (\<^verbatim>\<open>src/utils/vsi_nn_util.c\<close>): sizes of sliding windows with stride, dilation
    and rounding, and the paddings of every mode; the specification counts windows on natural
    numbers (\<open>windows\<close>).
  \<^item> \<open>Partition\<close> (\<^verbatim>\<open>src/utils/vsi_nn_util.c\<close>): the partition step of quicksort on indices, with
    its recursion, for any comparison; partial functions, shown to end for total comparisons.

  \<^bold>\<open>Bounds.\<close> No definition runs on fuel: loops over indices terminate by a measure, and loops
  over pointers are partial functions whose termination is a property. Results about array
  bounds name the sizes of the arrays of the callers (8 dimensions, 30 inputs, 128 entries of
  the relevance table).

  \<^bold>\<open>Not modelled.\<close> The generated kernel sources under \<^verbatim>\<open>src/libnnext\<close>, the dispatchers under
  \<^verbatim>\<open>src/kernel/cl\<close>, \<^verbatim>\<open>src/kernel/evis\<close> and \<^verbatim>\<open>src/kernel/vx\<close> (calls of the driver with tables of
  kernel names), the setup of other operations under \<^verbatim>\<open>src/ops\<close>, the checks of
  convolutions, fully connected layers and recurrent cells, the optimization and computation
  functions of all operations, the driver, file and log input and output,
  the binary graph parser, and the C++ front end. Batch splitting of \<open>vsi_nn_SetupGraph\<close> is
  left out, as it is off by default.
\<close>

end
